(* ===== verification/GenMC_Prelude.thy ===== *)
theory GenMC_Prelude
  imports Main
begin

text \<open>
  Shared material of the development: the result type of C++ code that may stop, the loop
  combinators, checked vector accesses, and the generic list lemmas the components use.

  C++ code of the repository leaves the normal control flow in three ways, and every one of them
  is a value of the type \<open>res\<close>: \<open>Bug\<close> is the \<open>BUG()\<close>/\<open>BUG_ON()\<close> macro of \<open>src/src/Error.hpp\<close>
  (print and \<open>exit(EGENMC)\<close>), \<open>UserError\<close> is the \<open>ERROR()\<close> macro (\<open>exit(EUSER)\<close>), and \<open>Undef\<close> is
  undefined behaviour of the language (an out-of-range \<open>operator[]\<close>, a null dereference) or an
  exception of \<open>at()\<close> that nobody catches. \<open>Ok x\<close> is a normal return.
\<close>

section \<open>Results of code that may stop\<close>

datatype 'a res = Ok 'a | Bug | UserError | Undef

fun rbind :: "'a res \<Rightarrow> ('a \<Rightarrow> 'b res) \<Rightarrow> 'b res" where
  "rbind (Ok x) f = f x"
| "rbind Bug f = Bug"
| "rbind UserError f = UserError"
| "rbind Undef f = Undef"

definition BUG_ON :: "bool \<Rightarrow> unit res" where
  "BUG_ON b = (if b then Bug else Ok ())"

named_theorems res_simps \<open>rewriting with the result monad\<close>

lemma rbind_Ok_iff [res_simps]: "rbind m f = Ok y \<longleftrightarrow> (\<exists>x. m = Ok x \<and> f x = Ok y)"
  by (cases m) auto

lemma rbind_assoc [res_simps]: "rbind (rbind m f) g = rbind m (\<lambda>x. rbind (f x) g)"
  by (cases m) auto

lemma rbind_Ok_right [simp]: "rbind m Ok = m"
  by (cases m) auto

lemma BUG_ON_simps [simp]: "BUG_ON False = Ok ()" "BUG_ON True = Bug"
  by (simp_all add: BUG_ON_def)

lemma BUG_ON_Ok_iff [res_simps]: "BUG_ON b = Ok u \<longleftrightarrow> \<not> b"
  by (simp add: BUG_ON_def)

fun is_ok :: "'a res \<Rightarrow> bool" where
  "is_ok (Ok _) = True"
| "is_ok _ = False"

lemma is_ok_iff [res_simps]: "is_ok m \<longleftrightarrow> (\<exists>x. m = Ok x)"
  by (cases m) auto

section \<open>Vectors\<close>

text \<open>Reading and writing a \<open>std::vector\<close> at an index: out of range is undefined behaviour.\<close>

definition vec_get :: "'a list \<Rightarrow> nat \<Rightarrow> 'a res" where
  "vec_get v i = (if i < length v then Ok (v ! i) else Undef)"

definition vec_set :: "'a list \<Rightarrow> nat \<Rightarrow> 'a \<Rightarrow> 'a list res" where
  "vec_set v i x = (if i < length v then Ok (v[i := x]) else Undef)"

text \<open>The same with the signed indices the code computes with.\<close>

definition vec_get_int :: "'a list \<Rightarrow> int \<Rightarrow> 'a res" where
  "vec_get_int v i = (if 0 \<le> i then vec_get v (nat i) else Undef)"

lemma vec_get_Ok [simp]: "i < length v \<Longrightarrow> vec_get v i = Ok (v ! i)"
  by (simp add: vec_get_def)

lemma vec_set_Ok [simp]: "i < length v \<Longrightarrow> vec_set v i x = Ok (v[i := x])"
  by (simp add: vec_set_def)

lemma vec_get_int_of_nat [simp]: "vec_get_int v (int i) = vec_get v i"
  by (simp add: vec_get_int_def)

lemma vec_get_Ok_iff [res_simps]: "vec_get v i = Ok x \<longleftrightarrow> i < length v \<and> x = v ! i"
  by (auto simp: vec_get_def)

lemma vec_set_Ok_iff [res_simps]: "vec_set v i x = Ok w \<longleftrightarrow> i < length v \<and> w = v[i := x]"
  by (auto simp: vec_set_def)

lemma vec_get_int_Ok_iff [res_simps]:
  "vec_get_int v i = Ok x \<longleftrightarrow> 0 \<le> i \<and> nat i < length v \<and> x = v ! nat i"
  by (auto simp: vec_get_int_def vec_get_def)

text \<open>\<open>std::vector::resize(n, x)\<close>.\<close>

definition vec_resize :: "nat \<Rightarrow> 'a \<Rightarrow> 'a list \<Rightarrow> 'a list" where
  "vec_resize n x v = take n v @ replicate (n - length v) x"

lemma length_vec_resize [simp]: "length (vec_resize n x v) = n"
  by (simp add: vec_resize_def)

lemma nth_vec_resize:
  "i < n \<Longrightarrow> vec_resize n x v ! i = (if i < length v then v ! i else x)"
  by (auto simp: vec_resize_def nth_append)

section \<open>Loops over a range\<close>

fun rfold :: "('a \<Rightarrow> 's \<Rightarrow> 's res) \<Rightarrow> 'a list \<Rightarrow> 's \<Rightarrow> 's res" where
  "rfold f [] s = Ok s"
| "rfold f (x # xs) s = rbind (f x s) (rfold f xs)"

lemma rfold_append [simp]: "rfold f (xs @ ys) s = rbind (rfold f xs s) (rfold f ys)"
proof (induction xs arbitrary: s)
  case (Cons a xs)
  then show ?case by (cases "f a s") simp_all
qed simp

text \<open>Loop rule: an invariant of the processed prefix that every body call keeps and that makes
  the call return gives that the loop returns with the invariant for the whole list.\<close>

lemma rfold_inv:
  assumes "P 0 s"
    and "\<And>i s. i < length xs \<Longrightarrow> P i s \<Longrightarrow> \<exists>s'. f (xs ! i) s = Ok s' \<and> P (Suc i) s'"
  shows "\<exists>s'. rfold f xs s = Ok s' \<and> P (length xs) s'"
  using assms
proof (induction xs arbitrary: s rule: rev_induct)
  case Nil
  then show ?case by simp
next
  case (snoc x xs)
  have "\<exists>s'. rfold f xs s = Ok s' \<and> P (length xs) s'"
  proof (rule snoc.IH [OF snoc.prems(1)])
    fix i t
    assume "i < length xs" and "P i t"
    then show "\<exists>s'. f (xs ! i) t = Ok s' \<and> P (Suc i) s'"
      using snoc.prems(2) [of i t] by (simp add: nth_append)
  qed
  then obtain t where t: "rfold f xs s = Ok t" "P (length xs) t" by blast
  from snoc.prems(2) [of "length xs" t] t show ?case by auto
qed

text \<open>An invariant of the processed prefix holds after a loop that returned.\<close>

lemma rfold_Ok_inv:
  assumes "rfold f xs s = Ok s'" and "P 0 s"
    and "\<And>i s s'. i < length xs \<Longrightarrow> P i s \<Longrightarrow> f (xs ! i) s = Ok s' \<Longrightarrow> P (Suc i) s'"
  shows "P (length xs) s'"
  using assms
proof (induction xs arbitrary: s' rule: rev_induct)
  case Nil
  then show ?case by simp
next
  case (snoc x xs)
  then obtain t where t: "rfold f xs s = Ok t" "f x t = Ok s'" by (auto simp: res_simps)
  have "P (length xs) t"
    by (rule snoc.IH [OF t(1) snoc.prems(2)])
      (metis snoc.prems(3) nth_append length_append_singleton less_SucI)
  then show ?case using snoc.prems(3) [of "length xs" t s'] t by simp
qed

lemma rbind_fundef_cong [fundef_cong]:
  "m = m' \<Longrightarrow> (\<And>x. m' = Ok x \<Longrightarrow> f x = f' x) \<Longrightarrow> rbind m f = rbind m' f'"
  by (cases m') auto

lemma fold_inv:
  assumes "P 0 s" and "\<And>i s. i < length xs \<Longrightarrow> P i s \<Longrightarrow> P (Suc i) (f (xs ! i) s)"
  shows "P (length xs) (fold f xs s)"
  using assms
proof (induction xs arbitrary: s rule: rev_induct)
  case Nil
  then show ?case by simp
next
  case (snoc x xs)
  have "P (length xs) (fold f xs s)"
    by (rule snoc.IH [OF snoc.prems(1)]) (metis snoc.prems(2) nth_append length_append_singleton less_SucI)
  then show ?case using snoc.prems(2) [of "length xs" "fold f xs s"] by simp
qed

section \<open>Strictly sorted lists\<close>

abbreviation ssorted :: "'a::linorder list \<Rightarrow> bool" where
  "ssorted \<equiv> sorted_wrt (<)"

declare sorted_list_of_set.sorted_key_list_of_set_insert_remove [simp del]

named_theorems ssorted_simps \<open>facts on strictly sorted lists\<close>

lemma ssorted_Cons [ssorted_simps]: "ssorted (x # xs) \<longleftrightarrow> (\<forall>y\<in>set xs. x < y) \<and> ssorted xs"
  by simp

lemma ssorted_snoc [ssorted_simps]: "ssorted (xs @ [x]) \<longleftrightarrow> ssorted xs \<and> (\<forall>y\<in>set xs. y < x)"
  by (auto simp: sorted_wrt_append)

lemma ssorted_distinct: "ssorted xs \<Longrightarrow> distinct xs"
  by (induction xs) auto

lemma ssorted_sorted: "ssorted xs \<Longrightarrow> sorted xs"
  by (simp add: strict_sorted_imp_sorted)

lemma ssorted_eqI: "ssorted xs \<Longrightarrow> ssorted ys \<Longrightarrow> set xs = set ys \<Longrightarrow> xs = ys"
  by (metis strict_sorted_equal)

lemma ssorted_sorted_list_of_set: "ssorted xs \<Longrightarrow> sorted_list_of_set (set xs) = xs"
  by (metis ssorted_distinct ssorted_sorted sorted_list_of_set.idem_if_sorted_distinct)

lemma sorted_list_of_set_insert_max:
  assumes "finite U" and "\<And>y. y \<in> U \<Longrightarrow> y < x"
  shows "sorted_list_of_set (insert x U) = sorted_list_of_set U @ [x]"
proof (rule ssorted_eqI)
  show "ssorted (sorted_list_of_set U @ [x])"
    using assms by (auto simp: ssorted_snoc)
  show "ssorted (sorted_list_of_set (insert x U))" by (rule strict_sorted_list_of_set)
  show "set (sorted_list_of_set (insert x U)) = set (sorted_list_of_set U @ [x])"
    using assms(1) by (simp only: set_sorted_list_of_set finite_insert set_append) auto
qed

lemma ssorted_take_Suc:
  assumes "ssorted xs" and "p < length xs"
  shows "set (take (Suc p) xs) = insert (xs ! p) (set (take p xs))"
    and "\<And>y. y \<in> set (take p xs) \<Longrightarrow> y < xs ! p"
proof -
  show "set (take (Suc p) xs) = insert (xs ! p) (set (take p xs))"
    using assms(2) by (simp add: take_Suc_conv_app_nth)
  fix y
  assume "y \<in> set (take p xs)"
  then obtain i where "i < p" "y = xs ! i"
    by (auto simp: in_set_conv_nth)
  then show "y < xs ! p"
    using assms by (simp add: sorted_wrt_iff_nth_less)
qed

text \<open>\<open>std::lower_bound\<close> on a range partitioned by \<open>el\<close> (its precondition): the offset of the
  first element that is not smaller than \<open>el\<close>, the length of the range when there is none.\<close>

definition lower_bound :: "'a::linorder list \<Rightarrow> 'a \<Rightarrow> nat" where
  "lower_bound xs el = length (takeWhile (\<lambda>x. x < el) xs)"

lemma lower_bound_le [simp]: "lower_bound xs el \<le> length xs"
  by (simp add: lower_bound_def length_takeWhile_le)

lemma take_lower_bound: "take (lower_bound xs el) xs = takeWhile (\<lambda>x. x < el) xs"
  unfolding lower_bound_def by (rule takeWhile_eq_take [symmetric])

lemma drop_lower_bound: "drop (lower_bound xs el) xs = dropWhile (\<lambda>x. x < el) xs"
  unfolding lower_bound_def by (rule dropWhile_eq_drop [symmetric])

lemma drop_lower_bound_filter:
  "ssorted xs \<Longrightarrow> drop (lower_bound xs el) xs = filter (\<lambda>x. el \<le> x) xs"
proof (induction xs)
  case Nil
  then show ?case by (simp add: lower_bound_def)
next
  case (Cons a xs)
  then have "el \<le> a \<Longrightarrow> filter (\<lambda>x. el \<le> x) xs = xs"
    by (intro filter_True) auto
  with Cons show ?case by (auto simp: lower_bound_def)
qed

text \<open>The search of \<open>std::lower_bound\<close> finds \<open>el\<close> in a sorted range exactly when it is there.\<close>

lemma lower_bound_hit:
  assumes "ssorted xs"
  shows "lower_bound xs el < length xs \<and> xs ! lower_bound xs el = el \<longleftrightarrow> el \<in> set xs"
proof
  assume "lower_bound xs el < length xs \<and> xs ! lower_bound xs el = el"
  then show "el \<in> set xs" by (metis nth_mem)
next
  assume "el \<in> set xs"
  then show "lower_bound xs el < length xs \<and> xs ! lower_bound xs el = el"
    using assms by (induction xs) (auto simp: lower_bound_def)
qed

end
