(* ===== verification/GenMC_Event.thy ===== *)
theory GenMC_Event
  imports GenMC_Prelude
begin

text \<open>
  Events (\<open>src/src/Event.hpp\<close>): the position of a label in an execution graph, a thread
  identifier and an index within the thread. Both fields are C++ \<open>int\<close>s; the program only
  ever moves an index by one from a position inside a thread, so they are modelled by \<open>int\<close>.
\<close>

datatype Event = Event (ethread: int) (eindex: int)

definition getInitializer :: Event where
  "getInitializer = Event 0 0"

definition getBottom :: Event where
  "getBottom = Event (-42) (-42)"

definition isInitializer :: "Event \<Rightarrow> bool" where
  "isInitializer e \<longleftrightarrow> e = getInitializer"

definition isBottom :: "Event \<Rightarrow> bool" where
  "isBottom e \<longleftrightarrow> e = getBottom"

definition prev :: "Event \<Rightarrow> Event" where
  "prev e = Event (ethread e) (eindex e - 1)"

definition next_ev :: "Event \<Rightarrow> Event" where
  "next_ev e = Event (ethread e) (eindex e + 1)"

definition isBetween :: "Event \<Rightarrow> Event \<Rightarrow> Event \<Rightarrow> bool" where
  "isBetween e a b =
     (if ethread a \<noteq> ethread b then False
      else if ethread e \<noteq> ethread a then False
      else eindex e \<ge> eindex a \<and> eindex e \<le> eindex b)"

text \<open>\<open>operator<\<close> and \<open>operator>\<close> compare the index first and the thread second.\<close>

definition event_less :: "Event \<Rightarrow> Event \<Rightarrow> bool" where
  "event_less d e \<longleftrightarrow>
     eindex d < eindex e \<or> (eindex d = eindex e \<and> ethread d < ethread e)"

definition event_greater :: "Event \<Rightarrow> Event \<Rightarrow> bool" where
  "event_greater d e \<longleftrightarrow>
     eindex d > eindex e \<or> (eindex d = eindex e \<and> ethread d > ethread e)"

text \<open>The comparison is a linear order, so \<open>VSet<Event>\<close> and the sorting algorithms apply.\<close>

instantiation Event :: linorder
begin

definition less_Event :: "Event \<Rightarrow> Event \<Rightarrow> bool" where
  "less_Event = event_less"

definition less_eq_Event :: "Event \<Rightarrow> Event \<Rightarrow> bool" where
  "less_eq_Event d e \<longleftrightarrow> event_less d e \<or> d = e"

instance
  by standard
    (auto simp: less_Event_def less_eq_Event_def event_less_def intro: Event.expand)

end

lemma event_greater_less: "event_greater d e \<longleftrightarrow> event_less e d"
  by (auto simp: event_less_def event_greater_def)

lemma prev_next [simp]: "prev (next_ev e) = e" "next_ev (prev e) = e"
  by (cases e; simp add: prev_def next_ev_def)+

lemma isInitializer_simps [simp]:
  "isInitializer getInitializer" "\<not> isInitializer getBottom" "\<not> isBottom getInitializer"
  by (simp_all add: isInitializer_def isBottom_def getInitializer_def getBottom_def)

lemma isBetween_iff:
  "isBetween e a b \<longleftrightarrow>
     ethread a = ethread b \<and> ethread e = ethread a \<and> eindex a \<le> eindex e \<and> eindex e \<le> eindex b"
  by (simp add: isBetween_def)

lemma event_eq_iff: "e = e' \<longleftrightarrow> ethread e = ethread e' \<and> eindex e = eindex e'"
  by (cases e; cases e') simp

end
