(* ===== verification/GenMC_Specs.thy ===== *)
theory GenMC_Specs
  imports GenMC_Event
begin

text \<open>
  The interfaces between components, each a locale: what a client of the component calls and the
  laws it relies on. \<open>ordered_set\<close> is the contract of \<open>VSet\<close> towards the views and the dependency
  sets; \<open>vector_clock\<close> is the contract that the abstract class \<open>VectorClock\<close> states for \<open>View\<close> and
  \<open>DepView\<close>. The theories of the providers interpret them on their own definitions.
\<close>

section \<open>Sets of ordered elements\<close>

locale ordered_set =
  fixes invar :: "'s \<Rightarrow> bool"
    and elems :: "'s \<Rightarrow> 'a::linorder set"
    and empty :: 's
    and count :: "'s \<Rightarrow> 'a \<Rightarrow> int"
    and insert1 :: "'a \<Rightarrow> 's \<Rightarrow> 's"
    and erase1 :: "'a \<Rightarrow> 's \<Rightarrow> 's"
    and insert_set :: "'s \<Rightarrow> 's \<Rightarrow> ('s \<times> int) res"
  assumes invar_empty: "invar empty" and elems_empty: "elems empty = {}"
    and count_iff: "invar s \<Longrightarrow> count s x = (if x \<in> elems s then 1 else 0)"
    and invar_insert: "invar s \<Longrightarrow> invar (insert1 x s)"
    and elems_insert: "invar s \<Longrightarrow> elems (insert1 x s) = insert x (elems s)"
    and invar_erase: "invar s \<Longrightarrow> invar (erase1 x s)"
    and elems_erase: "invar s \<Longrightarrow> elems (erase1 x s) = elems s - {x}"
    and insert_set_law: "invar s \<Longrightarrow> invar t \<Longrightarrow>
      \<exists>u n. insert_set s t = Ok (u, n) \<and> invar u \<and> elems u = elems s \<union> elems t"
begin

lemma insert_many:
  "invar s \<Longrightarrow> invar (fold insert1 xs s) \<and> elems (fold insert1 xs s) = elems s \<union> set xs"
  by (induction xs arbitrary: s) (auto simp: invar_insert elems_insert)

lemma erase_many:
  "invar s \<Longrightarrow> invar (fold erase1 xs s) \<and> elems (fold erase1 xs s) = elems s - set xs"
  by (induction xs arbitrary: s) (auto simp: invar_erase elems_erase)

text \<open>Joining any number of sets, in any order, gives their union.\<close>

lemma insert_sets:
  assumes "invar s" and "\<And>t. t \<in> set ts \<Longrightarrow> invar t"
  shows "\<exists>u. rfold (\<lambda>t s. rbind (insert_set s t) (\<lambda>p. Ok (fst p))) ts s = Ok u
             \<and> invar u \<and> elems u = elems s \<union> (\<Union>t\<in>set ts. elems t)"
  using assms
proof (induction ts arbitrary: s)
  case Nil
  then show ?case by simp
next
  case (Cons t ts)
  obtain u n where u: "insert_set s t = Ok (u, n)" "invar u" "elems u = elems s \<union> elems t"
    using insert_set_law Cons.prems by (metis list.set_intros(1))
  from Cons.IH [OF u(2)] Cons.prems(2) obtain w where
    "rfold (\<lambda>t s. rbind (insert_set s t) (\<lambda>p. Ok (fst p))) ts u = Ok w" "invar w"
    "elems w = elems u \<union> (\<Union>t\<in>set ts. elems t)"
    by (metis list.set_intros(2))
  with u show ?case by auto
qed

end

section \<open>Vector clocks\<close>

locale vector_clock =
  fixes invar :: "'c \<Rightarrow> bool"
    and contains :: "'c \<Rightarrow> Event \<Rightarrow> bool"
    and update :: "'c \<Rightarrow> 'c \<Rightarrow> 'c res"
  assumes update_law: "invar c \<Longrightarrow> invar d \<Longrightarrow>
      \<exists>r. update c d = Ok r \<and> invar r \<and> (\<forall>e. contains r e \<longleftrightarrow> contains c e \<or> contains d e)"
begin

lemma update_mono:
  assumes "invar c" and "invar d" and "update c d = Ok r" and "contains c e \<or> contains d e"
  shows "contains r e"
  using update_law [OF assms(1,2)] assms(3,4) by auto

lemma update_comm:
  assumes "invar c" and "invar d" and "update c d = Ok r" and "update d c = Ok r'"
  shows "contains r e = contains r' e"
  using update_law [OF assms(1,2)] update_law [OF assms(2,1)] assms(3,4) by auto

text \<open>Updating a clock with a sequence of clocks gives the union of what they contain.\<close>

lemma update_many:
  assumes "invar c" and "\<And>d. d \<in> set ds \<Longrightarrow> invar d"
  shows "\<exists>r. rfold (\<lambda>d c. update c d) ds c = Ok r \<and> invar r
             \<and> (\<forall>e. contains r e \<longleftrightarrow> contains c e \<or> (\<exists>d\<in>set ds. contains d e))"
  using assms
proof (induction ds arbitrary: c)
  case Nil
  then show ?case by simp
next
  case (Cons d ds)
  obtain r where r: "update c d = Ok r" "invar r" "\<forall>e. contains r e \<longleftrightarrow> contains c e \<or> contains d e"
    using update_law Cons.prems by (metis list.set_intros(1))
  from Cons.IH [OF r(2)] Cons.prems(2) obtain r' where
    "rfold (\<lambda>d c. update c d) ds r = Ok r'" "invar r'"
    "\<forall>e. contains r' e \<longleftrightarrow> contains r e \<or> (\<exists>d\<in>set ds. contains d e)"
    by (metis list.set_intros(2))
  with r show ?case by auto
qed

end

end
