(* ===== verification/GenMC_View.thy ===== *)
theory GenMC_View
  imports GenMC_Specs
begin

text \<open>
  Views (\<open>src/src/View.hpp\<close>, \<open>src/src/View.cpp\<close>): vector clocks in which an index stands for all
  its po-predecessors. The field \<open>view_\<close> is an \<open>llvm::IndexedMap<int>\<close> with default 0, modelled by the
  list of its entries; \<open>view_grow\<close> is its documented \<open>grow\<close>. The non-constant \<open>operator[]\<close> grows the map
  even when it only reads, which the model keeps. An access with a negative index is \<open>Undef\<close>.
\<close>

type_synonym View = "int list"

definition view_grow :: "View \<Rightarrow> nat \<Rightarrow> View" where
  "view_grow v idx = (if Suc idx > length v then vec_resize (Suc idx) 0 v else v)"

definition view_size :: "View \<Rightarrow> nat" where
  "view_size v = length v"

definition view_empty :: "View \<Rightarrow> bool" where
  "view_empty v \<longleftrightarrow> view_size v = 0"

text \<open>The two subscript operators: the constant one, and the reference the other one returns,
  read (with the growth) and written.\<close>

definition view_at :: "View \<Rightarrow> nat \<Rightarrow> int" where
  "view_at v idx = (if idx < length v then v ! idx else 0)"

definition view_get :: "View \<Rightarrow> int \<Rightarrow> int res" where
  "view_get v idx = (if idx < 0 then Undef else Ok (view_at v (nat idx)))"

definition view_ref :: "View \<Rightarrow> int \<Rightarrow> (View \<times> int) res" where
  "view_ref v idx =
     (if idx < 0 then Undef
      else let v' = view_grow v (nat idx) in Ok (v', v' ! nat idx))"

definition view_set :: "View \<Rightarrow> int \<Rightarrow> int \<Rightarrow> View res" where
  "view_set v idx x = (if idx < 0 then Undef else Ok ((view_grow v (nat idx))[nat idx := x]))"

definition view_contains :: "View \<Rightarrow> Event \<Rightarrow> bool res" where
  "view_contains v e = rbind (view_get v (ethread e)) (\<lambda>m. Ok (eindex e \<le> m))"

definition view_updateIdx :: "View \<Rightarrow> Event \<Rightarrow> View res" where
  "view_updateIdx v e =
     rbind (view_ref v (ethread e)) (\<lambda>(v', m).
       if m < eindex e then view_set v' (ethread e) (eindex e) else Ok v')"

definition view_update_step :: "View \<Rightarrow> nat \<Rightarrow> View \<Rightarrow> View" where
  "view_update_step w i v =
     (let v' = view_grow v i in if v' ! i < view_at w i then v'[i := view_at w i] else v')"

definition view_update :: "View \<Rightarrow> View \<Rightarrow> View" where
  "view_update v w =
     (if view_empty w then v
      else fold (view_update_step w) [0..<max (view_size v) (view_size w)] v)"

definition view_le :: "View \<Rightarrow> View \<Rightarrow> bool" where
  "view_le v w \<longleftrightarrow> (\<forall>i\<in>set [0..<view_size v]. \<not> view_at v i > view_at w i)"

section \<open>Reading after growing, writing and updating\<close>

lemma length_view_grow [simp]: "length (view_grow v i) = max (length v) (Suc i)"
  by (auto simp: view_grow_def)

lemma view_at_grow [simp]: "view_at (view_grow v i) j = view_at v j"
  by (auto simp: view_at_def view_grow_def nth_vec_resize)

lemma nth_view_grow [simp]: "view_grow v i ! i = view_at v i"
  by (auto simp: view_at_def view_grow_def nth_vec_resize)

lemma view_at_list_update:
  "i < length v \<Longrightarrow> view_at (v[i := x]) j = (if i = j then x else view_at v j)"
  by (auto simp: view_at_def nth_list_update)

lemma view_at_update_step [simp]:
  "view_at (view_update_step w i v) j
     = (if j = i then max (view_at v j) (view_at w j) else view_at v j)"
  by (auto simp: view_update_step_def Let_def view_at_list_update)

lemma view_at_fold_step:
  "view_at (fold (view_update_step w) [0..<n] v) j
     = (if j < n then max (view_at v j) (view_at w j) else view_at v j)"
  by (induction n) auto

lemma length_update_step [simp]: "length (view_update_step w i v) = max (length v) (Suc i)"
  by (simp add: view_update_step_def Let_def)

lemma length_fold_step: "length (fold (view_update_step w) [0..<n] v) = max (length v) n"
  by (induction n) auto

lemma view_at_out [simp]: "length v \<le> j \<Longrightarrow> view_at v j = 0"
  by (simp add: view_at_def)

text \<open>Views have no negative entry: the maps start empty with default 0 and only grow.\<close>

definition view_invar :: "View \<Rightarrow> bool" where
  "view_invar v \<longleftrightarrow> (\<forall>x\<in>set v. 0 \<le> x)"

lemma view_at_nonneg [simp]: "view_invar v \<Longrightarrow> 0 \<le> view_at v j"
  by (auto simp: view_invar_def view_at_def)

lemma view_invarI: "(\<And>j. 0 \<le> view_at v j) \<Longrightarrow> view_invar v"
  unfolding view_invar_def by (metis in_set_conv_nth view_at_def)

lemma view_at_update:
  assumes "view_invar v" and "view_invar w"
  shows "view_at (view_update v w) j = max (view_at v j) (view_at w j)"
proof (cases "view_empty w")
  case True
  with view_at_nonneg [OF assms(1), of j] show ?thesis
    by (simp add: view_update_def view_empty_def view_size_def max_def)
next
  case False
  with assms show ?thesis
    by (auto simp: view_update_def view_at_fold_step view_size_def max_def not_less)
qed

lemma view_update_size:
  "view_size (view_update v w) = max (view_size v) (view_size w)"
  by (auto simp: view_update_def view_size_def view_empty_def length_fold_step)

lemma view_update_invar [simp]:
  "view_invar v \<Longrightarrow> view_invar w \<Longrightarrow> view_invar (view_update v w)"
  by (rule view_invarI) (simp add: view_at_update max_def)

lemma view_contains_iff:
  "view_contains v e = Ok True \<longleftrightarrow> 0 \<le> ethread e \<and> eindex e \<le> view_at v (nat (ethread e))"
  by (simp add: view_contains_def view_get_def)

lemma view_contains_Ok: "0 \<le> ethread e \<Longrightarrow>
    view_contains v e = Ok (eindex e \<le> view_at v (nat (ethread e)))"
  by (simp add: view_contains_def view_get_def)

text \<open>The view contract: \<open>update\<close> is the union of clocks.\<close>

interpretation view: vector_clock view_invar "\<lambda>v e. view_contains v e = Ok True"
  "\<lambda>v w. Ok (view_update v w)"
  by unfold_locales (auto simp: view_contains_iff view_at_update le_max_iff_disj)

lemma view_le_iff:
  assumes "view_invar w"
  shows "view_le v w \<longleftrightarrow> (\<forall>j. view_at v j \<le> view_at w j)"
proof
  assume le: "view_le v w"
  show "\<forall>j. view_at v j \<le> view_at w j"
  proof
    fix j
    show "view_at v j \<le> view_at w j"
      using le assms by (cases "j < view_size v") (auto simp: view_le_def view_size_def not_less)
  qed
qed (auto simp: view_le_def not_less)

lemma view_updateIdx_correct:
  assumes "0 \<le> ethread e"
  shows "\<exists>v'. view_updateIdx v e = Ok v' \<and>
     (\<forall>j. view_at v' j = (if j = nat (ethread e) then max (view_at v j) (eindex e) else view_at v j))"
proof -
  let ?t = "nat (ethread e)"
  have "view_grow (view_grow v ?t) ?t = view_grow v ?t"
    by (simp add: view_grow_def)
  then show ?thesis using assms
    by (auto simp: view_updateIdx_def view_ref_def view_set_def Let_def view_at_list_update max_def)
qed

section \<open>Properties\<close>

text \<open>Updating a view with a sequence of views gives the smallest view above all of them: it
  contains exactly the events that one of them contains.\<close>

theorem View_update_is_join:
  assumes "view_invar v" and "\<forall>w\<in>set ws. view_invar w" and "0 \<le> ethread e"
  shows "view_contains (fold (\<lambda>w v. view_update v w) ws v) e
     = Ok (\<exists>w\<in>set (v # ws). view_contains w e = Ok True)
    \<and> (\<forall>u. view_invar u \<longrightarrow> (\<forall>w\<in>set (v # ws). view_le w u)
          \<longrightarrow> view_le (fold (\<lambda>w v. view_update v w) ws v) u)"
  using assms(1,2)
proof (induction ws arbitrary: v)
  case Nil
  then show ?case using assms(3) by (simp add: view_contains_Ok)
next
  case (Cons w ws)
  have "view_le (view_update v w) u \<longleftrightarrow> view_le v u \<and> view_le w u" if "view_invar u" for u
    using Cons.prems that by (auto simp: view_le_iff view_at_update)
  moreover have "view_contains (view_update v w) e = Ok True
      \<longleftrightarrow> view_contains v e = Ok True \<or> view_contains w e = Ok True"
    using Cons.prems by (auto simp: view_contains_iff view_at_update le_max_iff_disj)
  moreover have "view_invar (view_update v w)" using Cons.prems by simp
  ultimately show ?case using Cons.IH [of "view_update v w"] Cons.prems by auto
qed

theorem View_update_is_join_witness:
  "view_contains (fold (\<lambda>w v. view_update v w) [[0, 4], [2, 0, 1]] [3, 1]) (Event 2 1)
     = Ok (\<exists>w\<in>set [[3, 1], [0, 4], [2, 0, 1]]. view_contains w (Event 2 1) = Ok True)"
  using View_update_is_join [of "[3, 1]" "[[0, 4], [2, 0, 1]]" "Event 2 1"]
  by (simp add: view_invar_def)

end
