(* ===== verification/GenMC_VSet.thy ===== *)
theory GenMC_VSet
  imports GenMC_Specs
begin

text \<open>
  Sets as sorted vectors (\<open>src/src/VSet.hpp\<close> and \<open>src/src/VSet.tcc\<close>). The class has one field,
  the vector \<open>vset_\<close>, so a set is its list of elements; its invariant (the class's stated
  precondition "sorted and distinct") is \<open>ssorted\<close>. The iterators \<open>a\<close> and \<open>b\<close> of the merging
  loops are the suffixes of the vectors they still have to visit, the loops over indices keep their
  indices and their in-place writes. Where a loop dereferences, an access out of range is \<open>Undef\<close>.
\<close>

type_synonym 'a VSet = "'a list"

section \<open>Single elements\<close>

text \<open>\<open>find\<close> returns an iterator; its offset, and \<open>size()\<close> for \<open>end()\<close>.\<close>

definition vs_find :: "'a::linorder VSet \<Rightarrow> 'a \<Rightarrow> nat" where
  "vs_find v el =
     (let it = lower_bound v el
      in if it = length v \<or> v ! it \<noteq> el then length v else it)"

definition vs_count :: "'a::linorder VSet \<Rightarrow> 'a \<Rightarrow> int" where
  "vs_count v el = (if vs_find v el \<noteq> length v then 1 else 0)"

definition vs_insert :: "'a::linorder VSet \<Rightarrow> 'a \<Rightarrow> 'a VSet \<times> nat \<times> bool" where
  "vs_insert v el =
     (let it = lower_bound v el
      in if it = length v \<or> v ! it \<noteq> el
         then (take it v @ el # drop it v, it, True)
         else (v, it, False))"

definition vs_erase :: "'a::linorder VSet \<Rightarrow> 'a \<Rightarrow> 'a VSet \<times> int" where
  "vs_erase v el =
     (let it = lower_bound v el
      in if it = length v \<or> v ! it \<noteq> el then (v, 0)
         else (take it v @ drop (Suc it) v, 1))"

section \<open>Ranges\<close>

text \<open>The range insertion, also the body of the range and initializer-list constructors: push at
  the back when the element is larger than the maximum, insert otherwise.\<close>

definition vs_insert_step :: "'a::linorder \<Rightarrow> 'a VSet \<Rightarrow> 'a VSet" where
  "vs_insert_step x v =
     (if v \<noteq> [] \<and> last v < x then v @ [x] else fst (vs_insert v x))"

definition vs_insert_range :: "'a::linorder VSet \<Rightarrow> 'a list \<Rightarrow> 'a VSet" where
  "vs_insert_range v xs = fold vs_insert_step xs v"

definition vs_of_range :: "'a::linorder list \<Rightarrow> 'a VSet" where
  "vs_of_range xs = fold vs_insert_step xs []"

definition vs_of_init_list :: "'a::linorder list \<Rightarrow> 'a VSet" where
  "vs_of_init_list xs = fold vs_insert_step xs []"

section \<open>Bulk insertion\<close>

text \<open>First pass: how many elements of \<open>s\<close> are not in the set.\<close>

fun vs_count_new :: "'a::linorder list \<Rightarrow> 'a list \<Rightarrow> nat" where
  "vs_count_new (x # a) (y # b) =
     (if x < y then vs_count_new a (y # b)
      else if x = y then vs_count_new a b
      else Suc (vs_count_new (x # a) b))"
| "vs_count_new [] b = length b"
| "vs_count_new (x # a) [] = 0"

text \<open>Second pass: after the resize, fill the vector from its last position \<open>i\<close> down to 0, moving
  \<open>idxA\<close> and \<open>idxB\<close> down. The first argument is \<open>i + 1\<close>.\<close>

fun vs_fill :: "nat \<Rightarrow> int \<Rightarrow> int \<Rightarrow> 'a::linorder list \<Rightarrow> 'a list \<Rightarrow> 'a list res" where
  "vs_fill 0 idxA idxB v s = Ok v"
| "vs_fill (Suc i) idxA idxB v s =
     rbind (if idxA < 0 then Ok True
            else if idxB \<ge> 0
            then rbind (vec_get_int v idxA) (\<lambda>x. rbind (vec_get_int s idxB) (\<lambda>y. Ok (x < y)))
            else Ok False)
     (\<lambda>takeB.
        if takeB
        then rbind (vec_get_int s idxB) (\<lambda>y. rbind (vec_set v i y)
             (\<lambda>v'. vs_fill i idxA (idxB - 1) v' s))
        else rbind (if idxA \<ge> 0 \<and> idxB \<ge> 0
                    then rbind (vec_get_int v idxA) (\<lambda>x. rbind (vec_get_int s idxB) (\<lambda>y. Ok (x = y)))
                    else Ok False)
             (\<lambda>both.
                rbind (vec_get_int v idxA) (\<lambda>x. rbind (vec_set v i x)
                (\<lambda>v'. vs_fill i (idxA - 1) (if both then idxB - 1 else idxB) v' s))))"

definition vs_insert_set :: "'a::linorder VSet \<Rightarrow> 'a VSet \<Rightarrow> ('a VSet \<times> int) res" where
  "vs_insert_set v s =
     (if v = [] then Ok (s, int (length s))
      else if s = [] then Ok (v, 0)
      else if length s = 1
      then (let r = vs_insert v (s ! 0) in Ok (fst r, if snd (snd r) then 1 else 0))
      else let count = vs_count_new v s in
        if count = 0 then Ok (v, 0)
        else let idxA = int (length v) - 1; idxB = int (length s) - 1;
                 v1 = vec_resize (length v + count) (v ! 0) v
             in rbind (vs_fill (length v1) idxA idxB v1 s) (\<lambda>v2. Ok (v2, int count)))"

section \<open>Bulk deletion\<close>

text \<open>The compaction loop: the vector, \<open>a\<close>, \<open>b\<close>, \<open>aMov\<close> and the number of erased elements. Its
  termination measure is the number of elements of the two sets still to visit.\<close>

function vs_erase_loop ::
  "'a::linorder list \<Rightarrow> 'a list \<Rightarrow> nat \<Rightarrow> nat \<Rightarrow> nat \<Rightarrow> int
     \<Rightarrow> 'a list \<times> nat \<times> nat \<times> int" where
  "vs_erase_loop v s a b aMov erased =
     (if a < length v \<and> b < length s then
        if v ! a = s ! b then vs_erase_loop v s (Suc a) (Suc b) aMov (erased + 1)
        else if v ! a < s ! b
        then vs_erase_loop (if aMov \<noteq> a then v[aMov := v ! a] else v) s (Suc a) b (Suc aMov) erased
        else vs_erase_loop v s a (Suc b) aMov erased
      else (v, a, aMov, erased))"
  by pat_completeness auto
termination
  by (relation "measure (\<lambda>(v, s, a, b, aMov, erased). (length v - a) + (length s - b))") auto

text \<open>Copying the rest of the set down to \<open>aMov\<close>.\<close>

function vs_copy_rest :: "'a list \<Rightarrow> nat \<Rightarrow> nat \<Rightarrow> 'a list \<times> nat" where
  "vs_copy_rest v a aMov =
     (if a < length v then vs_copy_rest (v[aMov := v ! a]) (Suc a) (Suc aMov) else (v, aMov))"
  by pat_completeness auto
termination
  by (relation "measure (\<lambda>(v, a, aMov). length v - a)") auto

declare vs_erase_loop.simps [simp del] vs_copy_rest.simps [simp del]

definition vs_erase_set :: "'a::linorder VSet \<Rightarrow> 'a VSet \<Rightarrow> 'a VSet \<times> int" where
  "vs_erase_set v s =
     (if v = [] \<or> s = [] then (v, 0)
      else case vs_erase_loop v s 0 0 0 0 of (v1, a, aMov, erased) \<Rightarrow>
        if aMov \<noteq> a
        then case vs_copy_rest v1 a aMov of (v2, aMov2) \<Rightarrow> (vec_resize aMov2 (v2 ! 0) v2, erased)
        else (v1, erased))"

section \<open>Queries on two sets\<close>

fun vs_subset_loop :: "'a::linorder list \<Rightarrow> 'a list \<Rightarrow> bool res" where
  "vs_subset_loop [] b = Ok True"
| "vs_subset_loop (x # a) [] =
     (if length (x # a) > 0 then Ok False else Undef)"
| "vs_subset_loop (x # a) (y # b) =
     (if length (x # a) > length (y # b) then Ok False
      else if x < y then Ok False
      else if x = y then vs_subset_loop a b
      else vs_subset_loop (x # a) b)"

definition vs_subsetOf :: "'a::linorder VSet \<Rightarrow> 'a VSet \<Rightarrow> bool res" where
  "vs_subsetOf v s = (if length v > length s then Ok False else vs_subset_loop v s)"

fun vs_intersects :: "'a::linorder VSet \<Rightarrow> 'a VSet \<Rightarrow> bool" where
  "vs_intersects (x # a) (y # b) =
     (if x = y then True else if x < y then vs_intersects a (y # b) else vs_intersects (x # a) b)"
| "vs_intersects [] b = False"
| "vs_intersects (x # a) [] = False"

fun vs_intersect_loop :: "'a::linorder list \<Rightarrow> 'a list \<Rightarrow> 'a VSet \<Rightarrow> 'a VSet" where
  "vs_intersect_loop (x # a) (y # b) result =
     (if x = y then vs_intersect_loop a b (fst (vs_insert result x))
      else if x < y then vs_intersect_loop a (y # b) result
      else vs_intersect_loop (x # a) b result)"
| "vs_intersect_loop [] b result = result"
| "vs_intersect_loop (x # a) [] result = result"

definition vs_intersectWith :: "'a::linorder VSet \<Rightarrow> 'a VSet \<Rightarrow> 'a VSet" where
  "vs_intersectWith v s = vs_intersect_loop v s []"

text \<open>\<open>min()\<close> and \<open>max()\<close> read the first and the last element.\<close>

definition vs_min :: "'a VSet \<Rightarrow> 'a res" where
  "vs_min v = vec_get v 0"

definition vs_max :: "'a VSet \<Rightarrow> 'a res" where
  "vs_max v = (if v = [] then Undef else Ok (last v))"


section \<open>Correctness of the single-element operations\<close>

lemma takeWhile_dropWhile_insert:
  "set (takeWhile P xs @ el # dropWhile P xs) = insert el (set xs)"
  by (metis list.simps(15) set_append takeWhile_dropWhile_id Un_insert_right)

lemma lower_bound_dropWhile_gt:
  assumes "ssorted v" and "y \<in> set (dropWhile (\<lambda>x. x < el) v)"
  shows "el \<le> y"
  using assms by (metis drop_lower_bound drop_lower_bound_filter mem_Collect_eq set_filter)

lemma vs_insert_set_eq [simp]: "set (fst (vs_insert v el)) = insert el (set v)"
proof -
  let ?it = "lower_bound v el"
  have split: "set (take ?it v @ el # drop ?it v) = insert el (set v)"
    unfolding take_lower_bound drop_lower_bound by (rule takeWhile_dropWhile_insert)
  show ?thesis
  proof (cases "?it = length v \<or> v ! ?it \<noteq> el")
    case True
    with split show ?thesis by (simp add: vs_insert_def Let_def)
  next
    case False
    then have "?it < length v" using lower_bound_le [of v el] by (simp add: order.not_eq_order_implies_strict)
    then have "el \<in> set v" using False nth_mem by fastforce
    with False show ?thesis by (auto simp: vs_insert_def Let_def)
  qed
qed

lemma vs_hit_iff:
  assumes "ssorted v"
  shows "(lower_bound v el = length v \<or> v ! lower_bound v el \<noteq> el) \<longleftrightarrow> el \<notin> set v"
  using lower_bound_hit [OF assms, of el] lower_bound_le [of v el]
  by (metis order.not_eq_order_implies_strict nat_neq_iff)

lemma vs_insert_new [simp]:
  "ssorted v \<Longrightarrow> snd (snd (vs_insert v el)) \<longleftrightarrow> el \<notin> set v"
  using vs_hit_iff [of v el] by (auto simp: vs_insert_def Let_def)

lemma vs_insert_ssorted [simp]:
  assumes "ssorted v"
  shows "ssorted (fst (vs_insert v el))"
proof (cases "el \<in> set v")
  case True
  then show ?thesis using vs_hit_iff [OF assms, of el] assms by (auto simp: vs_insert_def Let_def)
next
  case False
  let ?A = "takeWhile (\<lambda>x. x < el) v" and ?B = "dropWhile (\<lambda>x. x < el) v"
  have "ssorted (?A @ ?B)" using assms by simp
  then have AB: "ssorted ?A" "ssorted ?B" "\<And>x y. x \<in> set ?A \<Longrightarrow> y \<in> set ?B \<Longrightarrow> x < y"
    unfolding sorted_wrt_append by blast+
  have "\<And>y. y \<in> set ?B \<Longrightarrow> el < y"
    using lower_bound_dropWhile_gt [OF assms] False
    by (metis order.not_eq_order_implies_strict set_dropWhileD)
  with AB have "ssorted (?A @ el # ?B)"
    by (auto simp: sorted_wrt_append dest: set_takeWhileD)
  with False show ?thesis using vs_hit_iff [OF assms, of el]
    by (auto simp: vs_insert_def Let_def take_lower_bound drop_lower_bound)
qed

lemma vs_find_correct:
  assumes "ssorted v"
  shows "vs_find v el \<noteq> length v \<longleftrightarrow> el \<in> set v"
    and "el \<in> set v \<Longrightarrow> vs_find v el < length v \<and> v ! vs_find v el = el"
  using vs_hit_iff [OF assms, of el] lower_bound_hit [OF assms, of el]
  by (auto simp: vs_find_def Let_def)

lemma vs_count_iff: "ssorted v \<Longrightarrow> vs_count v el = (if el \<in> set v then 1 else 0)"
  using vs_find_correct(1) [of v el] by (simp add: vs_count_def)

lemma vs_erase_eq_filter:
  assumes "ssorted v"
  shows "vs_erase v el = (filter (\<lambda>x. x \<noteq> el) v, if el \<in> set v then 1 else 0)"
proof (cases "el \<in> set v")
  case True
  let ?it = "lower_bound v el"
  from True have it: "?it < length v" "v ! ?it = el"
    using lower_bound_hit [OF assms, of el] by blast+
  have v: "v = take ?it v @ el # drop (Suc ?it) v"
    using it by (metis id_take_nth_drop)
  have "distinct v" using assms by (rule ssorted_distinct)
  then have "el \<notin> set (take ?it v)" "el \<notin> set (drop (Suc ?it) v)"
    by (metis v distinct_append not_distinct_conv_prefix, metis v distinct.simps(2) distinct_append)
  then have "filter (\<lambda>x. x \<noteq> el) (take ?it v @ el # drop (Suc ?it) v)
      = take ?it v @ drop (Suc ?it) v"
    by (auto simp: filter_id_conv intro!: arg_cong2 [where f = append])
  then have "filter (\<lambda>x. x \<noteq> el) v = take ?it v @ drop (Suc ?it) v"
    using v by simp
  with True it show ?thesis by (simp add: vs_erase_def Let_def)
next
  case False
  then have "filter (\<lambda>x. x \<noteq> el) v = v" by (auto simp: filter_id_conv)
  with False show ?thesis using vs_hit_iff [OF assms, of el] by (simp add: vs_erase_def Let_def)
qed

lemma vs_insert_step_eq:
  assumes "ssorted v"
  shows "vs_insert_step x v = fst (vs_insert v x)"
proof (cases "v \<noteq> [] \<and> last v < x")
  case True
  have "\<And>y. y \<in> set v \<Longrightarrow> y \<le> last v"
    using assms True by (metis ssorted_sorted sorted_nth_mono last_conv_nth in_set_conv_nth
        Suc_pred' length_greater_0_conv less_Suc_eq_le diff_less zero_less_one)
  then have "ssorted (v @ [x])"
    using assms True by (auto simp: ssorted_snoc intro: le_less_trans)
  then have "v @ [x] = fst (vs_insert v x)"
    using assms by (intro ssorted_eqI) auto
  with True show ?thesis by (simp add: vs_insert_step_def)
next
  case False
  then show ?thesis by (simp only: vs_insert_step_def) simp
qed

lemma vs_insert_range_ssorted [simp]: "ssorted v \<Longrightarrow> ssorted (vs_insert_range v xs)"
  unfolding vs_insert_range_def
  by (induction xs arbitrary: v) (simp_all add: vs_insert_step_eq)

lemma vs_insert_range_set [simp]: "ssorted v \<Longrightarrow> set (vs_insert_range v xs) = set v \<union> set xs"
  unfolding vs_insert_range_def
  by (induction xs arbitrary: v) (simp_all add: vs_insert_step_eq)

lemma vs_of_range_eq: "vs_of_range xs = vs_insert_range [] xs"
  "vs_of_init_list xs = vs_insert_range [] xs"
  by (simp_all add: vs_of_range_def vs_of_init_list_def vs_insert_range_def)


section \<open>Correctness of the bulk insertion\<close>

lemma vs_count_new_card:
  "ssorted a \<Longrightarrow> ssorted b \<Longrightarrow> vs_count_new a b = card (set b - set a)"
proof (induction a b rule: vs_count_new.induct)
  case (1 x a y b)
  show ?case
  proof (cases rule: linorder_cases [of x y])
    case less
    then have "set (y # b) - set (x # a) = set (y # b) - set a" using "1.prems"(2) by fastforce
    with less 1 show ?thesis by simp
  next
    case equal
    then have "set (y # b) - set (x # a) = set b - set a" using "1.prems"(2) by auto
    with equal 1 show ?thesis by simp
  next
    case greater
    then have "set (y # b) - set (x # a) = insert y (set b - set (x # a))"
      and "y \<notin> set b"
      using "1.prems" by auto
    with greater 1 show ?thesis by (simp add: not_less_iff_gr_or_eq)
  qed
next
  case (2 b)
  then show ?case by (simp add: distinct_card ssorted_distinct)
qed simp

text \<open>One round of the fill: with \<open>p\<close> elements of the set and \<open>q\<close> of \<open>s\<close> still to place, the
  position just below the filled part receives the largest of them.\<close>

lemma vs_fill_step:
  assumes sA: "ssorted A" and sS: "ssorted s" and p: "p \<le> length A" and q: "q \<le> length s"
    and i: "Suc i = card (set (take p A) \<union> set (take q s))"
    and v: "take p v = take p A" and l: "Suc i \<le> length v"
  obtains x p' q' where
    "vs_fill (Suc i) (int p - 1) (int q - 1) v s = vs_fill i (int p' - 1) (int q' - 1) (v[i := x]) s"
    "p' \<le> p" "q' \<le> q" "i = card (set (take p' A) \<union> set (take q' s))"
    "\<And>y. y \<in> set (take p' A) \<union> set (take q' s) \<Longrightarrow> y < x"
    "set (take p A) \<union> set (take q s) = insert x (set (take p' A) \<union> set (take q' s))"
    "p' \<le> i"
proof -
  note result = that
  have pv: "p \<le> length v"
    using v p by (metis length_take min.absorb2 min.cobounded1 nat_le_linear take_all)
  have fin: "finite (set (take a A) \<union> set (take b s))" for a b by simp
  have card_le: "a \<le> card (set (take a A) \<union> set (take b s))" if "a \<le> p" for a b
  proof -
    have "distinct (take a A)" using ssorted_distinct [OF sA] by (rule distinct_take)
    then have "card (set (take a A)) = a" using that p by (simp add: distinct_card)
    then show ?thesis using card_mono [OF fin, of "set (take a A)" a b] by simp
  qed
  note TA = ssorted_take_Suc [OF sA] and TS = ssorted_take_Suc [OF sS]
  have step: thesis
    if F: "vs_fill (Suc i) (int p - 1) (int q - 1) v s
          = vs_fill i (int p' - 1) (int q' - 1) (v[i := x]) s"
      and U: "set (take p A) \<union> set (take q s) = insert x (set (take p' A) \<union> set (take q' s))"
      and M: "\<And>y. y \<in> set (take p' A) \<union> set (take q' s) \<Longrightarrow> y < x"
      and le: "p' \<le> p" "q' \<le> q" for x p' q'
  proof -
    have "x \<notin> set (take p' A) \<union> set (take q' s)" using M by blast
    then have c: "i = card (set (take p' A) \<union> set (take q' s))"
      using i U by simp
    with card_le [OF le(1)] have "p' \<le> i" by simp
    show thesis by (rule result [OF F le c M U \<open>p' \<le> i\<close>])
  qed
  have get: "vec_get_int v (int p') = Ok (A ! p')" if "p = Suc p'" for p'
    using that pv v p by (simp add: vec_get_int_def) (metis lessI nth_take)
  have il: "i < length v" using l by simp
  show thesis
  proof (cases p)
    case 0
    then obtain q' where q': "q = Suc q'" using i by (cases q) auto
    with 0 TS [of q'] q il show ?thesis
      by (intro step [of 0 q' "s ! q'"]) auto
  next
    case P: (Suc p')
    show ?thesis
    proof (cases q)
      case 0
      with P TA [of p'] p il get [OF P] show ?thesis
        by (intro step [of p' 0 "A ! p'"]) auto
    next
      case Q: (Suc q')
      have a: "\<And>y. y \<in> set (take p' A) \<Longrightarrow> y < A ! p'"
        "set (take p A) = insert (A ! p') (set (take p' A))" using P p TA [of p'] by auto
      have b: "\<And>y. y \<in> set (take q' s) \<Longrightarrow> y < s ! q'"
        "set (take q s) = insert (s ! q') (set (take q' s))" using Q q TS [of q'] by auto
      consider "A ! p' < s ! q'" | "A ! p' = s ! q'" | "s ! q' < A ! p'" by force
      then show ?thesis
      proof cases
        case 1
        then show ?thesis using P Q p q il get [OF P] a b
          by (intro step [of p q' "s ! q'"]) (auto dest: less_trans)
      next
        case 2
        then show ?thesis using P Q p q il get [OF P] a b
          by (intro step [of p' q' "A ! p'"]) auto
      next
        case 3
        then show ?thesis using P Q p q il get [OF P] a b
          by (intro step [of p' q "A ! p'"]) (auto intro: less_trans [OF _ 3])
      qed
    qed
  qed
qed

lemma vs_fill_correct:
  assumes "ssorted A" and "ssorted s" and "p \<le> length A" and "q \<le> length s"
    and "i = card (set (take p A) \<union> set (take q s))"
    and "take p v = take p A" and "i \<le> length v"
  shows "vs_fill i (int p - 1) (int q - 1) v s
           = Ok (sorted_list_of_set (set (take p A) \<union> set (take q s)) @ drop i v)"
  using assms(3-)
proof (induction i arbitrary: p q v)
  case 0
  then show ?case by simp
next
  case (Suc i)
  obtain x p' q' where st:
    "vs_fill (Suc i) (int p - 1) (int q - 1) v s = vs_fill i (int p' - 1) (int q' - 1) (v[i := x]) s"
    "p' \<le> p" "q' \<le> q" "i = card (set (take p' A) \<union> set (take q' s))"
    "\<And>y. y \<in> set (take p' A) \<union> set (take q' s) \<Longrightarrow> y < x"
    "set (take p A) \<union> set (take q s) = insert x (set (take p' A) \<union> set (take q' s))"
    "p' \<le> i"
    using vs_fill_step [OF assms(1,2) Suc.prems] by metis
  have "take p' (v[i := x]) = take p' A"
    using st(2,7) Suc.prems(4)
    by (metis le_refl linorder_not_less min.absorb1 take_take take_update_cancel)
  then have "vs_fill i (int p' - 1) (int q' - 1) (v[i := x]) s
      = Ok (sorted_list_of_set (set (take p' A) \<union> set (take q' s)) @ drop i (v[i := x]))"
    using st Suc.prems by (intro Suc.IH) auto
  moreover have "drop i (v[i := x]) = x # drop (Suc i) v"
    using Suc.prems(5) by (simp add: Cons_nth_drop_Suc [symmetric] drop_update_cancel)
  moreover have "sorted_list_of_set (set (take p A) \<union> set (take q s))
      = sorted_list_of_set (set (take p' A) \<union> set (take q' s)) @ [x]"
    unfolding st(6) by (rule sorted_list_of_set_insert_max) (simp_all add: st(5))
  ultimately show ?case using st(1) by simp
qed

text \<open>The bulk insertion never reads or writes out of range, computes the union in sorted order and
  returns the number of new elements, whichever of its shortcuts it takes.\<close>

lemma vs_insert_set_correct:
  assumes "ssorted v" and "ssorted s"
  shows "vs_insert_set v s
           = Ok (sorted_list_of_set (set v \<union> set s), int (card (set s - set v)))"
proof -
  have ins: "fst (vs_insert v x) = sorted_list_of_set (insert x (set v))" for x
    using assms(1) by (intro ssorted_eqI) auto
  have cnt: "vs_count_new v s = card (set s - set v)" using assms by (rule vs_count_new_card)
  consider "v = []" | "v \<noteq> []" "s = []" | x where "v \<noteq> []" "s = [x]"
    | "v \<noteq> []" "length s > 1" "card (set s - set v) = 0"
    | "v \<noteq> []" "length s > 1" "card (set s - set v) \<noteq> 0"
    by (cases s rule: remdups_adj.cases) auto
  then show ?thesis
  proof cases
    case 1
    then show ?thesis using assms(2)
      by (simp add: vs_insert_set_def ssorted_sorted_list_of_set distinct_card ssorted_distinct)
  next
    case 2
    then show ?thesis using assms(1) by (simp add: vs_insert_set_def ssorted_sorted_list_of_set)
  next
    case (3 x)
    then have "card (set s - set v) = (if x \<in> set v then 0 else 1)"
      by (simp add: insert_Diff_if)
    with 3 assms(1) ins [of x] show ?thesis by (simp add: vs_insert_set_def Let_def insert_commute)
  next
    case 4
    then have "set v \<union> set s = set v" by auto
    with 4 cnt assms(1) show ?thesis
      by (auto simp: vs_insert_set_def Let_def ssorted_sorted_list_of_set)
  next
    case 5
    let ?c = "card (set s - set v)" and ?v1 = "vec_resize (length v + vs_count_new v s) (v ! 0) v"
    have U: "card (set v \<union> set s) = length v + ?c"
      using card_Un_disjoint [of "set v" "set s - set v"] assms(1)
      by (simp add: Un_Diff_cancel distinct_card ssorted_distinct)
    have "vs_fill (length ?v1) (int (length v) - 1) (int (length s) - 1) ?v1 s
        = Ok (sorted_list_of_set (set (take (length v) v) \<union> set (take (length s) s))
              @ drop (length ?v1) ?v1)"
      using U cnt by (intro vs_fill_correct assms) (simp_all add: vec_resize_def)
    with 5 cnt show ?thesis by (auto simp: vs_insert_set_def Let_def)
  qed
qed


section \<open>Correctness of the bulk deletion\<close>

text \<open>The loop invariant, for the original vector \<open>V\<close>: the first \<open>aMov\<close> positions hold the kept
  elements among the first \<open>a\<close>, the rest of the vector is untouched, and no element of \<open>s\<close> that
  was passed occurs in the rest.\<close>

definition erase_inv ::
  "'a::linorder list \<Rightarrow> 'a list \<Rightarrow> 'a list \<Rightarrow> nat \<Rightarrow> nat \<Rightarrow> nat \<Rightarrow> int \<Rightarrow> bool" where
  "erase_inv V s v a b aMov erased \<longleftrightarrow>
     length v = length V \<and> a \<le> length V \<and> aMov \<le> a
     \<and> take aMov v = filter (\<lambda>x. x \<notin> set s) (take a V)
     \<and> drop a v = drop a V
     \<and> set (take b s) \<inter> set (drop a V) = {}
     \<and> erased = int a - int aMov"

lemma erase_inv_stepI:
  assumes inv: "erase_inv V s v a b aMov erased" and a: "a < length V"
  shows "V ! a \<in> set s \<Longrightarrow> set (take b' s) \<inter> set (drop (Suc a) V) = {}
          \<Longrightarrow> erase_inv V s v (Suc a) b' aMov (erased + 1)"
    and "V ! a \<notin> set s
          \<Longrightarrow> erase_inv V s (if aMov \<noteq> a then v[aMov := v ! a] else v) (Suc a) b (Suc aMov) erased"
proof -
  have v: "drop (Suc a) v = drop (Suc a) V" "v ! a = V ! a" "length v = length V"
    using inv a by (auto simp: erase_inv_def drop_Suc tl_drop[symmetric] hd_drop_conv_nth[symmetric])
  show "erase_inv V s v (Suc a) b' aMov (erased + 1)"
    if "V ! a \<in> set s" "set (take b' s) \<inter> set (drop (Suc a) V) = {}"
    using inv a v that by (auto simp: erase_inv_def take_Suc_conv_app_nth)
  have tk: "take (Suc aMov) (v[aMov := v ! a]) = take aMov v @ [V ! a]"
    using inv a v by (auto simp: erase_inv_def take_Suc_conv_app_nth)
  have dr: "drop (Suc a) (v[aMov := v ! a]) = drop (Suc a) V"
    using inv v by (simp add: erase_inv_def drop_update_cancel)
  have sub: "set (drop (Suc a) V) \<subseteq> set (drop a V)"
    by (simp add: set_drop_subset_set_drop)
  show "erase_inv V s (if aMov \<noteq> a then v[aMov := v ! a] else v) (Suc a) b (Suc aMov) erased"
    if "V ! a \<notin> set s"
  proof -
    have eq: "(if aMov \<noteq> a then v[aMov := v ! a] else v) = v[aMov := v ! a]"
      by (simp add: list_update_id)
    show ?thesis unfolding eq using inv a v that tk dr sub
      by (auto simp: erase_inv_def take_Suc_conv_app_nth)
  qed
qed

lemma vs_erase_loop_inv:
  assumes "erase_inv V s v a b aMov erased" and sV: "ssorted V" and "ssorted s"
    and "vs_erase_loop v s a b aMov erased = (v', a', aMov', erased')"
  shows "\<exists>b'. erase_inv V s v' a' b' aMov' erased' \<and> (a' = length V \<or> b' \<ge> length s)"
  using assms(1,4,3)
proof (induction v s a b aMov erased rule: vs_erase_loop.induct)
  case (1 v s a b aMov erased)
  note inv = "1.prems"(1) and eq = "1.prems"(2) and ss = "1.prems"(3)
  have len: "length v = length V" and va: "a < length V \<Longrightarrow> v ! a = V ! a"
    using inv by (auto simp: erase_inv_def) (metis hd_drop_conv_nth length_drop zero_less_diff)
  show ?case
  proof (cases "a < length v \<and> b < length s")
    case False
    with eq have "v' = v \<and> a' = a \<and> aMov' = aMov \<and> erased' = erased"
      by (auto simp: vs_erase_loop.simps [of v s a b])
    with inv False len show ?thesis
      by (intro exI [of _ b]) (auto simp: erase_inv_def)
  next
    case True
    then have aV: "a < length V" using len by simp
    note st = erase_inv_stepI [OF inv aV] and va = va [OF aV]
    have rest: "V ! a < y" if y: "y \<in> set (drop (Suc a) V)" for y
    proof -
      obtain i where "i < length (drop (Suc a) V)" "y = drop (Suc a) V ! i"
        using y by (metis in_set_conv_nth)
      then show ?thesis using sorted_wrt_nth_less [OF sV, of a "Suc a + i"] by simp
    qed
    have dropa: "set (drop a V) = insert (V ! a) (set (drop (Suc a) V))"
      using aV by (metis Cons_nth_drop_Suc list.simps(15))
    have tb: "set (take (Suc b) s) = insert (s ! b) (set (take b s))"
      using True by (simp add: take_Suc_conv_app_nth)
    consider "V ! a = s ! b" | "V ! a < s ! b" | "s ! b < V ! a" by force
    then show ?thesis
    proof cases
      case 1
      have "erase_inv V s v (Suc a) (Suc b) aMov (erased + 1)"
        using inv True 1 rest dropa tb by (intro st(1)) (auto simp: erase_inv_def)
      with "1.IH"(1) [OF True] True 1 va eq ss show ?thesis
        by (simp add: vs_erase_loop.simps [of v s a b])
    next
      case 2
      have "V ! a \<notin> set s"
      proof
        assume "V ! a \<in> set s"
        then obtain j where j: "j < length s" "s ! j = V ! a" by (metis in_set_conv_nth)
        with 2 ss True have "j < b"
          by (metis linorder_neqE_nat less_asym order.irrefl sorted_wrt_nth_less)
        then have "s ! j \<in> set (take b s)" using True by (auto simp: in_set_conv_nth)
        then show False using inv j dropa by (auto simp: erase_inv_def)
      qed
      then have "erase_inv V s (if aMov \<noteq> a then v[aMov := v ! a] else v) (Suc a) b (Suc aMov) erased"
        by (rule st(2))
      moreover have "V ! a \<noteq> s ! b" using 2 by simp
      ultimately show ?thesis using "1.IH"(2) [OF True] True 2 va eq ss
        by (simp add: vs_erase_loop.simps [of v s a b])
    next
      case 3
      then have "s ! b \<notin> set (drop a V)" using rest dropa by force
      then have "erase_inv V s v a (Suc b) aMov erased"
        using inv tb by (simp add: erase_inv_def)
      moreover have "V ! a \<noteq> s ! b" "\<not> V ! a < s ! b" using 3 by auto
      ultimately show ?thesis using "1.IH"(3) [OF True] True va eq ss
        by (simp add: vs_erase_loop.simps [of v s a b])
    qed
  qed
qed

lemma vs_copy_rest_correct:
  assumes "aMov \<le> a" and "a \<le> length v" and "vs_copy_rest v a aMov = (v2, m)"
  shows "m = aMov + (length v - a) \<and> length v2 = length v \<and> take m v2 = take aMov v @ drop a v"
  using assms
proof (induction v a aMov rule: vs_copy_rest.induct)
  case (1 v a aMov)
  show ?case
  proof (cases "a < length v")
    case True
    have "take (Suc aMov) (v[aMov := v ! a]) = take aMov v @ [v ! a]"
      and "drop (Suc a) (v[aMov := v ! a]) = drop (Suc a) v"
      using True "1.prems"(1) by (simp_all add: take_Suc_conv_app_nth drop_update_cancel)
    then show ?thesis using "1.IH" [OF True] True "1.prems"
      by (auto simp: vs_copy_rest.simps [of v] Cons_nth_drop_Suc)
  next
    case False
    with "1.prems" show ?thesis by (auto simp: vs_copy_rest.simps [of v])
  qed
qed

lemma vs_erase_set_correct:
  assumes "ssorted v" and "ssorted s"
  shows "vs_erase_set v s = (filter (\<lambda>x. x \<notin> set s) v, int (card (set v \<inter> set s)))"
proof (cases "v = [] \<or> s = []")
  case True
  then show ?thesis by (auto simp: vs_erase_set_def)
next
  case False
  obtain v1 a m e where L: "vs_erase_loop v s 0 0 0 0 = (v1, a, m, e)" by (metis prod_cases4)
  have "erase_inv v s v 0 0 0 0" by (simp add: erase_inv_def)
  from vs_erase_loop_inv [OF this assms L] obtain b
    where inv: "erase_inv v s v1 a b m e" and fin: "a = length v \<or> b \<ge> length s" by blast
  have rest: "filter (\<lambda>x. x \<notin> set s) (drop a v) = drop a v"
    using inv fin by (auto simp: erase_inv_def filter_id_conv)
  have res: "filter (\<lambda>x. x \<notin> set s) v = take m v1 @ drop a v1"
    using inv rest by (metis append_take_drop_id erase_inv_def filter_append)
  have "length v = card (set v \<inter> set s) + length (filter (\<lambda>x. x \<notin> set s) v)"
  proof -
    have "set v \<inter> set s = set (filter (\<lambda>x. x \<in> set s) v)" by auto
    then have "card (set v \<inter> set s) = length (filter (\<lambda>x. x \<in> set s) v)"
      using ssorted_distinct [OF assms(1)] by (simp only: distinct_card distinct_filter)
    then show ?thesis using sum_length_filter_compl [of "\<lambda>x. x \<in> set s" v] by simp
  qed
  moreover have "length (filter (\<lambda>x. x \<notin> set s) v) = m + (length v - a)"
  proof -
    have "m \<le> length v1" "length v1 = length v" using inv by (auto simp: erase_inv_def)
    then have "length (take m v1) = m" "length (drop a v1) = length v - a" by simp_all
    then show ?thesis unfolding res by simp
  qed
  moreover have "a \<le> length v" "m \<le> a" "e = int a - int m" using inv by (auto simp: erase_inv_def)
  ultimately have card: "e = int (card (set v \<inter> set s))" by linarith
  obtain v2 m2 where C: "vs_copy_rest v1 a m = (v2, m2)" by fastforce
  have "take m2 v2 = take m v1 @ drop a v1" "m2 \<le> length v2"
    using vs_copy_rest_correct [OF _ _ C] inv by (auto simp: erase_inv_def)
  then show ?thesis using False L C card res
    by (auto simp: vs_erase_set_def vec_resize_def)
qed

section \<open>Correctness of the queries on two sets\<close>

lemma vs_subset_loop_correct:
  "ssorted a \<Longrightarrow> ssorted b \<Longrightarrow> vs_subset_loop a b = Ok (set a \<subseteq> set b)"
proof (induction a b rule: vs_subset_loop.induct)
  case (3 x a y b)
  show ?case
  proof (cases "length (x # a) > length (y # b)")
    case True
    then have "\<not> set (x # a) \<subseteq> set (y # b)"
      using "3.prems" by (metis List.finite_set card_mono distinct_card not_less ssorted_distinct)
    with True show ?thesis by simp
  next
    case False
    consider "x < y" | "x = y" | "y < x" by force
    then show ?thesis
    proof cases
      case 1
      then have "x \<notin> set (y # b)" using "3.prems"(2) by force
      with 1 False show ?thesis by auto
    next
      case 2
      then have "x \<notin> set a" "x \<notin> set b" using "3.prems" by auto
      with 2 False 3 show ?thesis by auto
    next
      case gt: 3
      then have "y \<notin> set (x # a)" using "3.prems"(1) by force
      with gt False 3 show ?thesis by auto
    qed
  qed
qed auto

lemma vs_subsetOf_correct:
  assumes "ssorted v" and "ssorted s"
  shows "vs_subsetOf v s = Ok (set v \<subseteq> set s)"
  using assms vs_subset_loop_correct [OF assms]
  by (auto simp: vs_subsetOf_def not_less)
    (metis List.finite_set card_mono distinct_card not_less ssorted_distinct)

lemma vs_intersects_correct:
  "ssorted v \<Longrightarrow> ssorted s \<Longrightarrow> vs_intersects v s \<longleftrightarrow> set v \<inter> set s \<noteq> {}"
proof (induction v s rule: vs_intersects.induct)
  case (1 x a y b)
  consider "x = y" | "x < y" | "y < x" by force
  then show ?case
  proof cases
    case 2
    then have "x \<notin> set (y # b)" using "1.prems"(2) by force
    with 2 1 show ?thesis by auto
  next
    case 3
    then have "y \<notin> set (x # a)" using "1.prems"(1) by force
    with 3 1 show ?thesis by auto
  qed simp
qed auto

lemma vs_intersect_loop_correct:
  "ssorted a \<Longrightarrow> ssorted b \<Longrightarrow> ssorted r \<Longrightarrow>
     ssorted (vs_intersect_loop a b r) \<and> set (vs_intersect_loop a b r) = set r \<union> (set a \<inter> set b)"
proof (induction a b r rule: vs_intersect_loop.induct)
  case (1 x a y b r)
  consider "x = y" | "x < y" | "y < x" by force
  then show ?case
  proof cases
    case eq: 1
    with 1 show ?thesis by auto
  next
    case 2
    then have "x \<notin> set (y # b)" using "1.prems"(2) by force
    with 2 1 show ?thesis by auto
  next
    case 3
    then have "y \<notin> set (x # a)" using "1.prems"(1) by force
    with 3 1 show ?thesis by auto
  qed
qed auto

lemma vs_intersectWith_correct [simp]:
  assumes "ssorted v" and "ssorted s"
  shows "ssorted (vs_intersectWith v s)" "set (vs_intersectWith v s) = set v \<inter> set s"
  using vs_intersect_loop_correct [OF assms, of "[]"] by (simp_all add: vs_intersectWith_def)


section \<open>The contract towards the clients\<close>

interpretation vset: ordered_set ssorted set "[]" vs_count
  "\<lambda>x v. fst (vs_insert v x)" "\<lambda>x v. fst (vs_erase v x)" vs_insert_set
proof (unfold_locales, goal_cases)
  case (5 s x)
  then show ?case by simp
next
  case (6 s x)
  then show ?case by (simp add: vs_erase_eq_filter sorted_wrt_filter)
next
  case (7 s x)
  then show ?case by (auto simp: vs_erase_eq_filter)
next
  case (8 s t)
  then show ?case by (simp add: vs_insert_set_correct)
qed (simp_all add: vs_count_iff)

section \<open>Properties\<close>

text \<open>C29: bulk insertion of one \<open>VSet\<close> into another never leaves the bounds of a vector, returns the
  sorted vector of the union without duplicates, and reports how many elements were new; so inserting in
  bulk is the same as inserting one by one.\<close>

theorem VSet_bulk_insert:
  assumes "ssorted v" and "ssorted s"
  shows "vs_insert_set v s = Ok (sorted_list_of_set (set v \<union> set s), int (card (set s - set v)))
    \<and> fold (\<lambda>x v. fst (vs_insert v x)) s v = sorted_list_of_set (set v \<union> set s)"
proof -
  have "fold (\<lambda>x v. fst (vs_insert v x)) s v = sorted_list_of_set (set v \<union> set s)"
    using vset.insert_many [OF assms(1), of s] by (intro ssorted_eqI) auto
  with vs_insert_set_correct [OF assms] show ?thesis by simp
qed

theorem VSet_bulk_insert_witness:
  "vs_insert_set [1::nat, 4, 6] [0, 4, 9] = Ok (sorted_list_of_set (set [1, 4, 6] \<union> set [0, 4, 9]), int (card (set [0::nat, 4, 9] - set [1, 4, 6])))"
  by (rule VSet_bulk_insert [THEN conjunct1]) simp_all

text \<open>Bulk deletion keeps exactly the elements that are not in the other set, in order, and reports
  how many it erased; it agrees with erasing them one by one.\<close>

theorem VSet_bulk_erase:
  assumes "ssorted v" and "ssorted s"
  shows "vs_erase_set v s = (fold (\<lambda>x v. fst (vs_erase v x)) s v, int (card (set v \<inter> set s)))
    \<and> fst (vs_erase_set v s) = filter (\<lambda>x. x \<notin> set s) v"
proof -
  have "fold (\<lambda>x v. fst (vs_erase v x)) s v = filter (\<lambda>x. x \<notin> set s) v"
    using vset.erase_many [OF assms(1), of s] assms(1)
    by (intro ssorted_eqI) (auto simp: sorted_wrt_filter)
  then show ?thesis by (simp add: vs_erase_set_correct [OF assms])
qed

theorem VSet_bulk_erase_witness:
  "fst (vs_erase_set [1::nat, 4, 6, 8] [0, 4, 8, 9]) = [1, 6]"
  using VSet_bulk_erase [of "[1::nat, 4, 6, 8]" "[0, 4, 8, 9]", THEN conjunct2] by simp

text \<open>The subset test, the disjointness test and the intersection of \<open>VSet\<close> compute the set
  operations; the subset test never dereferences an end iterator.\<close>

theorem VSet_queries:
  assumes "ssorted v" and "ssorted s"
  shows "vs_subsetOf v s = Ok (set v \<subseteq> set s)
    \<and> (vs_intersects v s \<longleftrightarrow> set v \<inter> set s \<noteq> {})
    \<and> vs_intersectWith v s = sorted_list_of_set (set v \<inter> set s)"
proof -
  have "vs_intersectWith v s = sorted_list_of_set (set v \<inter> set s)"
    using assms by (intro ssorted_eqI) simp_all
  with assms show ?thesis by (simp add: vs_subsetOf_correct vs_intersects_correct)
qed

theorem VSet_queries_witness:
  "vs_subsetOf [1::nat, 4] [1, 2, 4] = Ok (set [1::nat, 4] \<subseteq> set [1, 2, 4])"
  using VSet_queries [of "[1::nat, 4]" "[1, 2, 4]"] by simp

end
