(* ===== verification/GenMC_DepView.thy ===== *)
theory GenMC_DepView
  imports GenMC_View GenMC_VSet
begin

text \<open>
  Views with holes (\<open>src/src/DepView.hpp\<close>, \<open>src/src/DepView.cpp\<close>): vector clocks that do not have to
  contain the po-predecessors of the events they contain. A \<open>DepView\<close> holds a view and, per thread, the
  \<open>VSet\<close> of the indices that have not been seen. Also the dispatch of the base class \<open>VectorClock\<close>
  (\<open>src/src/VectorClock.hpp\<close>) over the two kinds of clocks, and the dependency sets of
  \<open>src/src/DepInfo.hpp\<close>.
\<close>

record DepView =
  dv_view :: View
  dv_holes :: "int VSet list"

definition dv_new :: DepView where
  "dv_new = \<lparr>dv_view = [], dv_holes = []\<rparr>"

text \<open>\<open>HoleView::operator[]\<close>: the constant one calls \<open>BUG()\<close> out of range (the index is compared as an
  unsigned), the other one grows the map.\<close>

definition hole_get :: "int VSet list \<Rightarrow> int \<Rightarrow> int VSet res" where
  "hole_get h idx = (if 0 \<le> idx \<and> idx < int (length h) then Ok (h ! nat idx) else Bug)"

definition hole_grow :: "int VSet list \<Rightarrow> nat \<Rightarrow> int VSet list" where
  "hole_grow h idx = (if Suc idx > length h then vec_resize (Suc idx) [] h else h)"

definition dv_size :: "DepView \<Rightarrow> nat" where
  "dv_size d = view_size (dv_view d)"

definition dv_empty :: "DepView \<Rightarrow> bool" where
  "dv_empty d \<longleftrightarrow> dv_size d = 0"

text \<open>The non-constant \<open>operator[]\<close> grows the holes and the view.\<close>

definition dv_grow :: "DepView \<Rightarrow> nat \<Rightarrow> DepView" where
  "dv_grow d idx =
     d\<lparr>dv_holes := hole_grow (dv_holes d) idx, dv_view := view_grow (dv_view d) idx\<rparr>"

definition dv_set :: "DepView \<Rightarrow> int \<Rightarrow> int \<Rightarrow> DepView res" where
  "dv_set d idx x =
     (if idx < 0 then Undef
      else let d' = dv_grow d (nat idx) in Ok (d'\<lparr>dv_view := (dv_view d')[nat idx := x]\<rparr>))"

definition dv_contains :: "DepView \<Rightarrow> Event \<Rightarrow> bool" where
  "dv_contains d e \<longleftrightarrow>
     0 \<le> ethread e \<and> ethread e < int (dv_size d) \<and> eindex e \<le> view_at (dv_view d) (nat (ethread e))
     \<and> ethread e < int (length (dv_holes d)) \<and> vs_count (dv_holes d ! nat (ethread e)) (eindex e) = 0"

definition dv_hasHole :: "DepView \<Rightarrow> Event \<Rightarrow> bool" where
  "dv_hasHole d e \<longleftrightarrow>
     0 \<le> ethread e \<and> ethread e < int (length (dv_holes d))
     \<and> vs_count (dv_holes d ! nat (ethread e)) (eindex e) = 0"

definition dv_addHole :: "DepView \<Rightarrow> Event \<Rightarrow> DepView res" where
  "dv_addHole d e =
     (if ethread e < 0 then Undef
      else let t = nat (ethread e); d' = dv_grow d t in
        rbind (BUG_ON (eindex e > dv_view d' ! t)) (\<lambda>_.
          Ok (d'\<lparr>dv_holes := (dv_holes d')[t := fst (vs_insert (dv_holes d' ! t) (eindex e))]\<rparr>)))"

definition dv_addHolesInRange :: "DepView \<Rightarrow> Event \<Rightarrow> int \<Rightarrow> DepView res" where
  "dv_addHolesInRange d start endIdx =
     rfold (\<lambda>i d. dv_addHole d (Event (ethread start) i)) [eindex start..endIdx - 1] d"

definition dv_removeHole :: "DepView \<Rightarrow> Event \<Rightarrow> DepView res" where
  "dv_removeHole d e =
     (if ethread e < 0 then Undef
      else let t = nat (ethread e); h = hole_grow (dv_holes d) t in
        Ok (d\<lparr>dv_holes := h[t := fst (vs_erase (h ! t) (eindex e))]\<rparr>))"

definition dv_removeAllHoles :: "DepView \<Rightarrow> int \<Rightarrow> DepView res" where
  "dv_removeAllHoles d thread =
     (if thread < 0 then Undef
      else let t = nat thread in Ok (d\<lparr>dv_holes := (hole_grow (dv_holes d) t)[t := []]\<rparr>))"

definition dv_removeHolesInRange :: "DepView \<Rightarrow> Event \<Rightarrow> int \<Rightarrow> DepView res" where
  "dv_removeHolesInRange d start endIdx =
     rfold (\<lambda>i d. dv_removeHole d (Event (ethread start) i)) [eindex start..endIdx - 1] d"

text \<open>One round of \<open>update\<close> for thread \<open>i\<close>.\<close>

definition dv_update_step :: "DepView \<Rightarrow> nat \<Rightarrow> DepView \<Rightarrow> DepView res" where
  "dv_update_step v i d =
     (let d1 = d\<lparr>dv_holes := hole_grow (dv_holes d) i\<rparr> in
      rbind (hole_get (dv_holes v) (int i)) (\<lambda>vh.
        let isec = vs_intersectWith (dv_holes d1 ! i) vh;
            d2 = dv_grow d1 i;
            mine = dv_view d2 ! i; other = view_at (dv_view v) i
        in if mine < other
           then let isec' = vs_insert_range isec (drop (lower_bound vh (mine + 1)) vh)
                in Ok (d2\<lparr>dv_view := (dv_view d2)[i := other], dv_holes := (dv_holes d2)[i := isec']\<rparr>)
           else let h = dv_holes d2 ! i;
                    isec' = vs_insert_range isec (drop (lower_bound h (other + 1)) h)
                in Ok (d2\<lparr>dv_holes := (dv_holes d2)[i := isec']\<rparr>)))"

definition dv_update :: "DepView \<Rightarrow> DepView \<Rightarrow> DepView res" where
  "dv_update d v =
     (if dv_empty v then Ok d else rfold (dv_update_step v) [0..<dv_size v] d)"

section \<open>The base class\<close>

datatype VectorClock = VC_View View | VC_DepView DepView

fun vc_contains :: "VectorClock \<Rightarrow> Event \<Rightarrow> bool res" where
  "vc_contains (VC_View v) e = view_contains v e"
| "vc_contains (VC_DepView d) e = Ok (dv_contains d e)"

text \<open>Updating a clock with one of the other kind is a \<open>BUG()\<close>.\<close>

fun vc_update :: "VectorClock \<Rightarrow> VectorClock \<Rightarrow> VectorClock res" where
  "vc_update (VC_View v) (VC_View w) = Ok (VC_View (view_update v w))"
| "vc_update (VC_View v) (VC_DepView w) = Bug"
| "vc_update (VC_DepView v) (VC_View w) = Bug"
| "vc_update (VC_DepView v) (VC_DepView w) = rbind (dv_update v w) (\<lambda>d. Ok (VC_DepView d))"

fun vc_size :: "VectorClock \<Rightarrow> nat" where
  "vc_size (VC_View v) = view_size v"
| "vc_size (VC_DepView d) = dv_size d"

fun vc_get :: "VectorClock \<Rightarrow> int \<Rightarrow> int res" where
  "vc_get (VC_View v) idx = view_get v idx"
| "vc_get (VC_DepView d) idx = view_get (dv_view d) idx"

section \<open>Dependency sets\<close>

type_synonym DepInfo = "Event VSet"

definition depinfo_of :: "Event \<Rightarrow> DepInfo" where
  "depinfo_of e = vs_of_init_list [e]"

definition depinfo_update :: "DepInfo \<Rightarrow> DepInfo \<Rightarrow> DepInfo res" where
  "depinfo_update d dep = rbind (vs_insert_set d dep) (\<lambda>p. Ok (fst p))"

definition depinfo_contains :: "DepInfo \<Rightarrow> Event \<Rightarrow> bool" where
  "depinfo_contains d e \<longleftrightarrow> vs_count d e \<noteq> 0"

record EventDeps =
  dep_addr :: DepInfo
  dep_data :: DepInfo
  dep_ctrl :: DepInfo
  dep_addrPo :: DepInfo
  dep_cas :: DepInfo

section \<open>The invariant\<close>

text \<open>The holes cover every thread of the view, are sorted, lie inside the seen part and never at the
  thread's first event. The code maintains the last two: \<open>addHole\<close> has a \<open>BUG_ON\<close>, and the one place that adds a
  hole at a first event, in the drivers that track dependencies, does so in a temporary view, and the update with it
  drops the hole (\<open>GenMC_IMMProps\<close>).\<close>

definition dv_invar :: "DepView \<Rightarrow> bool" where
  "dv_invar d \<longleftrightarrow>
     length (dv_view d) \<le> length (dv_holes d) \<and> view_invar (dv_view d)
     \<and> (\<forall>i<length (dv_holes d). ssorted (dv_holes d ! i)
          \<and> (\<forall>x\<in>set (dv_holes d ! i). 0 < x \<and> x \<le> view_at (dv_view d) i))"

text \<open>Abstraction: the holes of a thread as a set.\<close>

definition hole_set :: "DepView \<Rightarrow> nat \<Rightarrow> int set" where
  "hole_set d i = (if i < length (dv_holes d) then set (dv_holes d ! i) else {})"

lemma length_hole_grow [simp]: "length (hole_grow h i) = max (length h) (Suc i)"
  by (auto simp: hole_grow_def)

lemma nth_hole_grow: "j < max (length h) (Suc i) \<Longrightarrow>
    hole_grow h i ! j = (if j < length h then h ! j else [])"
  by (auto simp: hole_grow_def nth_vec_resize)

lemma dv_grow_simps [simp]:
  "dv_view (dv_grow d i) = view_grow (dv_view d) i"
  "dv_holes (dv_grow d i) = hole_grow (dv_holes d) i"
  by (simp_all add: dv_grow_def)

lemma dv_contains_iff:
  assumes "dv_invar d"
  shows "dv_contains d e \<longleftrightarrow>
     0 \<le> ethread e \<and> nat (ethread e) < dv_size d
     \<and> eindex e \<le> view_at (dv_view d) (nat (ethread e)) \<and> eindex e \<notin> hole_set d (nat (ethread e))"
  using assms unfolding dv_contains_def dv_invar_def hole_set_def dv_size_def view_size_def
  by (auto simp: vs_count_iff nat_less_iff)

text \<open>What one round of \<open>update\<close> leaves: every other thread as it was, the views' maximum, and as
  holes the indices that are holes of both clocks or beyond the end of one and a hole of the other.\<close>

lemma dv_update_step_correct:
  assumes d: "dv_invar d" and v: "dv_invar v" and i: "i < dv_size v"
  shows "\<exists>d'. dv_update_step v i d = Ok d' \<and> dv_invar d'
     \<and> dv_size d' = max (dv_size d) (Suc i)
     \<and> (\<forall>j. j \<noteq> i \<longrightarrow> view_at (dv_view d') j = view_at (dv_view d) j \<and> hole_set d' j = hole_set d j)
     \<and> view_at (dv_view d') i = max (view_at (dv_view d) i) (view_at (dv_view v) i)
     \<and> hole_set d' i = (hole_set d i \<inter> hole_set v i)
         \<union> {x \<in> hole_set v i. view_at (dv_view d) i < x} \<union> {x \<in> hole_set d i. view_at (dv_view v) i < x}"
proof -
  let ?h = "hole_grow (dv_holes d) i ! i" and ?vh = "dv_holes v ! i"
  let ?m = "view_at (dv_view d) i" and ?o = "view_at (dv_view v) i"
  have iv: "i < length (dv_holes v)" using v i by (auto simp: dv_invar_def dv_size_def view_size_def)
  have vh: "ssorted ?vh" "\<And>x. x \<in> set ?vh \<Longrightarrow> 0 < x \<and> x \<le> ?o" "hole_set v i = set ?vh"
    using v iv by (auto simp: dv_invar_def hole_set_def)
  have h: "ssorted ?h" "\<And>x. x \<in> set ?h \<Longrightarrow> 0 < x \<and> x \<le> ?m" "hole_set d i = set ?h"
    using d by (auto simp: dv_invar_def hole_set_def nth_hole_grow)
  have drop: "set (drop (lower_bound s (k + 1)) s) = {x \<in> set s. k < x}" if "ssorted s" for s and k :: int
    using that by (auto simp: drop_lower_bound_filter)
  define isec where "isec = (if ?m < ?o then vs_insert_range (vs_intersectWith ?h ?vh) (drop (lower_bound ?vh (?m + 1)) ?vh)
      else vs_insert_range (vs_intersectWith ?h ?vh) (drop (lower_bound ?h (?o + 1)) ?h))"
  define d' where "d' = d\<lparr>dv_view := (view_grow (dv_view d) i)[i := max ?m ?o],
      dv_holes := (hole_grow (dv_holes d) i)[i := isec]\<rparr>"
  have hg: "hole_grow (hole_grow (dv_holes d) i) i = hole_grow (dv_holes d) i"
    by (simp add: hole_grow_def)
  have "dv_update_step v i d = Ok d'"
    using iv list_update_id [of "view_grow (dv_view d) i" i]
    by (auto simp: dv_update_step_def hole_get_def Let_def d'_def isec_def dv_grow_def hg max_def)
  moreover have si: "ssorted isec" "set isec = (set ?h \<inter> set ?vh)
      \<union> {x \<in> set ?vh. ?m < x} \<union> {x \<in> set ?h. ?o < x}"
  proof -
    have "{x \<in> set ?h. ?o < x} = {}" if "?m < ?o" using h(2) that by fastforce
    moreover have "{x \<in> set ?vh. ?m < x} = {}" if "\<not> ?m < ?o" using vh(2) that by fastforce
    ultimately show "ssorted isec" "set isec = (set ?h \<inter> set ?vh)
      \<union> {x \<in> set ?vh. ?m < x} \<union> {x \<in> set ?h. ?o < x}"
      using h(1) vh(1) drop [OF vh(1), of ?m] drop [OF h(1), of ?o]
      by (simp_all add: isec_def vs_intersectWith_correct vs_insert_range_ssorted vs_insert_range_set) blast
  qed
  moreover have view: "view_at (dv_view d') j = (if j = i then max ?m ?o else view_at (dv_view d) j)" for j
    by (simp add: d'_def view_at_list_update)
  moreover have len: "length (dv_holes d') = max (length (dv_holes d)) (Suc i)"
    "dv_size d' = max (dv_size d) (Suc i)"
    by (simp_all add: d'_def dv_size_def view_size_def)
  moreover have holes: "hole_set d' j = (if j = i then set isec else hole_set d j)" for j
    by (auto simp: hole_set_def d'_def nth_list_update nth_hole_grow)
  moreover have "dv_invar d'"
  proof -
    have mo: "0 < x \<and> x \<le> max ?m ?o" if "x \<in> set isec" for x
      using that h(2) [of x] vh(2) [of x] by (auto simp: si(2))
    have "ssorted (dv_holes d' ! j) \<and> (\<forall>x\<in>set (dv_holes d' ! j). 0 < x \<and> x \<le> view_at (dv_view d') j)"
      if j: "j < length (dv_holes d')" for j
    proof (cases "j = i")
      case True
      then show ?thesis using si(1) mo by (simp add: view) (simp add: d'_def)
    next
      case False
      then show ?thesis using d j by (simp add: view) (auto simp: d'_def nth_hole_grow dv_invar_def)
    qed
    moreover have "view_invar (dv_view d')" using d v view by (intro view_invarI) (auto simp: dv_invar_def max_def)
    ultimately show ?thesis using d len by (auto simp: dv_invar_def dv_size_def view_size_def)
  qed
  ultimately show ?thesis using h(3) vh(3) by (intro exI [of _ d']) auto
qed

text \<open>The whole of \<open>update\<close>: after \<open>n\<close> rounds the first \<open>n\<close> threads are joined and the others untouched.\<close>

definition joined :: "DepView \<Rightarrow> DepView \<Rightarrow> nat \<Rightarrow> DepView \<Rightarrow> bool" where
  "joined d v n d' \<longleftrightarrow> dv_invar d' \<and> dv_size d' = max (dv_size d) n
     \<and> (\<forall>j\<ge>n. view_at (dv_view d') j = view_at (dv_view d) j \<and> hole_set d' j = hole_set d j)
     \<and> (\<forall>j<n. view_at (dv_view d') j = max (view_at (dv_view d) j) (view_at (dv_view v) j)
         \<and> hole_set d' j = (hole_set d j \<inter> hole_set v j)
             \<union> {x \<in> hole_set v j. view_at (dv_view d) j < x} \<union> {x \<in> hole_set d j. view_at (dv_view v) j < x})"

lemma joined_step:
  assumes "joined d v i s" and "dv_invar v" and "i < dv_size v"
  shows "\<exists>s'. dv_update_step v i s = Ok s' \<and> joined d v (Suc i) s'"
proof -
  have s: "dv_invar s" using assms(1) by (simp add: joined_def)
  obtain s' where s': "dv_update_step v i s = Ok s'" "dv_invar s'"
     "dv_size s' = max (dv_size s) (Suc i)"
     "\<forall>j. j \<noteq> i \<longrightarrow> view_at (dv_view s') j = view_at (dv_view s) j \<and> hole_set s' j = hole_set s j"
     "view_at (dv_view s') i = max (view_at (dv_view s) i) (view_at (dv_view v) i)"
     "hole_set s' i = (hole_set s i \<inter> hole_set v i)
         \<union> {x \<in> hole_set v i. view_at (dv_view s) i < x} \<union> {x \<in> hole_set s i. view_at (dv_view v) i < x}"
    using dv_update_step_correct [OF s assms(2,3)] by blast
  have "joined d v (Suc i) s'"
    using assms(1) s'(2-) unfolding joined_def by (simp add: less_Suc_eq)
  with s' show ?thesis by blast
qed

lemma dv_update_joined:
  assumes "dv_invar d" and "dv_invar v"
  shows "\<exists>d'. dv_update d v = Ok d' \<and> joined d v (dv_size v) d'"
proof (cases "dv_empty v")
  case True
  with assms show ?thesis by (simp add: dv_update_def dv_empty_def joined_def)
next
  case False
  have "\<exists>d'. rfold (dv_update_step v) [0..<dv_size v] d = Ok d' \<and> joined d v (length [0..<dv_size v]) d'"
    using assms by (intro rfold_inv [where P = "joined d v"]) (auto simp: joined_def [of d v 0] intro!: joined_step)
  with False show ?thesis by (simp add: dv_update_def)
qed

lemma hole_set_bounds:
  "dv_invar d \<Longrightarrow> x \<in> hole_set d j \<Longrightarrow> 0 < x \<and> x \<le> view_at (dv_view d) j"
  by (auto simp: dv_invar_def hole_set_def split: if_splits)

lemma dv_view_at_out: "dv_size d \<le> j \<Longrightarrow> view_at (dv_view d) j = 0"
  by (simp add: dv_size_def view_size_def)

text \<open>Where the clock does not reach, only events at or below the initial one would be contained.\<close>

lemma dv_contains_at:
  assumes "dv_invar d"
  shows "dv_contains d (Event (int j) x) \<longleftrightarrow>
     j < dv_size d \<and> x \<le> view_at (dv_view d) j \<and> x \<notin> hole_set d j"
  by (simp add: dv_contains_iff [OF assms])

lemma joined_contains:
  assumes d: "dv_invar d" and v: "dv_invar v" and j: "joined d v (dv_size v) d'"
  shows "dv_contains d' (Event (int i) x) \<longleftrightarrow>
     dv_contains d (Event (int i) x) \<or> dv_contains v (Event (int i) x)"
proof (cases "i < dv_size v")
  case False
  then show ?thesis using d v j by (auto simp: dv_contains_at joined_def)
next
  case True
  let ?m = "view_at (dv_view d) i" and ?o = "view_at (dv_view v) i"
  have nn: "0 \<le> ?o" using v by (simp add: dv_invar_def)
  have "dv_contains d' (Event (int i) x) \<longleftrightarrow> x \<le> max ?m ?o \<and> x \<notin> (hole_set d i \<inter> hole_set v i)
             \<union> {x \<in> hole_set v i. ?m < x} \<union> {x \<in> hole_set d i. ?o < x}"
    using True j by (simp add: dv_contains_at joined_def less_max_iff_disj)
  also have "\<dots> \<longleftrightarrow> (x \<le> ?m \<and> x \<notin> hole_set d i) \<or> (x \<le> ?o \<and> x \<notin> hole_set v i)"
    using hole_set_bounds [OF d, of x i] hole_set_bounds [OF v, of x i] by auto
  also have "\<dots> \<longleftrightarrow> dv_contains d (Event (int i) x) \<or> dv_contains v (Event (int i) x)"
  proof (cases "i < dv_size d")
    case False
    then have "?m = 0" by (simp add: dv_view_at_out)
    then have "x \<le> ?m \<Longrightarrow> x \<le> ?o \<and> x \<notin> hole_set v i"
      using nn hole_set_bounds [OF v, of x i] by auto
    with False True show ?thesis by (auto simp: dv_contains_at [OF d] dv_contains_at [OF v])
  qed (use True in \<open>auto simp: dv_contains_at [OF d] dv_contains_at [OF v]\<close>)
  finally show ?thesis .
qed

lemma dv_contains_neg: "ethread e < 0 \<Longrightarrow> \<not> dv_contains d e"
  by (simp add: dv_contains_def)

interpretation depview: vector_clock dv_invar dv_contains dv_update
proof
  fix c d
  assume inv: "dv_invar c" "dv_invar d"
  obtain r where r: "dv_update c d = Ok r" "joined c d (dv_size d) r"
    using dv_update_joined [OF inv] by blast
  have "dv_contains r e \<longleftrightarrow> dv_contains c e \<or> dv_contains d e" for e
  proof (cases "0 \<le> ethread e")
    case True
    then have "e = Event (int (nat (ethread e))) (eindex e)" by (cases e) simp
    then show ?thesis using joined_contains [OF inv r(2)] by metis
  qed (simp add: dv_contains_neg)
  with r show "\<exists>r. dv_update c d = Ok r \<and> dv_invar r
      \<and> (\<forall>e. dv_contains r e \<longleftrightarrow> dv_contains c e \<or> dv_contains d e)"
    by (auto simp: joined_def)
qed

section \<open>Holes\<close>

lemma dv_contains_cong:
  assumes "dv_invar d" and "dv_invar d'" and "dv_view d' = dv_view d"
  shows "dv_contains d' e \<longleftrightarrow> 0 \<le> ethread e \<and> nat (ethread e) < dv_size d
     \<and> eindex e \<le> view_at (dv_view d) (nat (ethread e)) \<and> eindex e \<notin> hole_set d' (nat (ethread e))"
  by (simp add: dv_contains_iff [OF assms(2)] assms(3) dv_size_def)

text \<open>\<open>addHole\<close> below the view makes exactly that event uncontained and leaves the rest.\<close>

lemma dv_addHole_correct:
  assumes d: "dv_invar d" and e: "0 \<le> ethread e" "0 < eindex e" "eindex e \<le> view_at (dv_view d) (nat (ethread e))"
  shows "\<exists>d'. dv_addHole d e = Ok d' \<and> dv_invar d' \<and> dv_view d' = dv_view d
     \<and> (\<forall>e'. dv_contains d' e' \<longleftrightarrow> dv_contains d e' \<and> e' \<noteq> e)"
proof -
  let ?t = "nat (ethread e)"
  have t: "?t < length (dv_view d)" using e by (metis dv_view_at_out dv_size_def view_size_def not_less)
  then have tl: "?t < length (dv_holes d)" using d by (simp add: dv_invar_def)
  define d' where "d' = d\<lparr>dv_holes := (dv_holes d)[?t := fst (vs_insert (dv_holes d ! ?t) (eindex e))]\<rparr>"
  have g: "hole_grow (dv_holes d) ?t = dv_holes d" "view_grow (dv_view d) ?t = dv_view d"
    using t tl by (simp_all add: hole_grow_def view_grow_def)
  have step: "dv_addHole d e = Ok d'"
    using e t g by (simp add: dv_addHole_def dv_grow_def Let_def d'_def BUG_ON_def view_at_def)
  have st: "ssorted (dv_holes d ! ?t)" using d tl by (simp add: dv_invar_def)
  note ins = vset.invar_insert [OF st, of "eindex e"] vset.elems_insert [OF st, of "eindex e"]
  have hs: "hole_set d' j = (if j = ?t then insert (eindex e) (hole_set d j) else hole_set d j)" for j
    using ins tl by (simp add: hole_set_def d'_def)
  have inv: "dv_invar d'"
    using d e ins tl by (auto simp: dv_invar_def d'_def nth_list_update)
  have vw: "dv_view d' = dv_view d" by (simp add: d'_def)
  have "dv_contains d' e' \<longleftrightarrow> dv_contains d e' \<and> e' \<noteq> e" for e'
    unfolding dv_contains_cong [OF d inv vw] dv_contains_iff [OF d] hs event_eq_iff using e by auto
  with step inv show ?thesis by (simp add: d'_def)
qed

text \<open>Beyond the view it is a bug.\<close>

lemma dv_addHole_bug:
  assumes "0 \<le> ethread e" and "view_at (dv_view d) (nat (ethread e)) < eindex e"
  shows "dv_addHole d e = Bug"
  using assms by (simp add: dv_addHole_def Let_def)

lemma dv_addHolesInRange_correct:
  assumes d: "dv_invar d" and e: "0 \<le> ethread e" "0 < eindex e"
    and b: "b - 1 \<le> view_at (dv_view d) (nat (ethread e))"
  shows "\<exists>d'. dv_addHolesInRange d e b = Ok d' \<and> dv_invar d' \<and> dv_view d' = dv_view d
     \<and> (\<forall>e'. dv_contains d' e' \<longleftrightarrow> dv_contains d e' \<and>
           \<not> (ethread e' = ethread e \<and> eindex e \<le> eindex e' \<and> eindex e' < b))"
proof -
  let ?xs = "[eindex e..b - 1]"
  let ?P = "\<lambda>n d'. dv_invar d' \<and> dv_view d' = dv_view d \<and> (\<forall>e'. dv_contains d' e' \<longleftrightarrow> dv_contains d e' \<and>
           \<not> (ethread e' = ethread e \<and> eindex e \<le> eindex e' \<and> eindex e' < eindex e + int n))"
  have "\<exists>d'. rfold (\<lambda>i d. dv_addHole d (Event (ethread e) i)) ?xs d = Ok d' \<and> ?P (length ?xs) d'"
  proof (rule rfold_inv)
    show "?P 0 d" using d by auto
    fix n s
    assume n: "n < length ?xs" and P: "?P n s"
    then have "?xs ! n = eindex e + int n" by simp
    moreover have "eindex e + int n \<le> view_at (dv_view s) (nat (ethread e))" using n P b by simp
    ultimately obtain s' where s': "dv_addHole s (Event (ethread e) (?xs ! n)) = Ok s'" "dv_invar s'"
      "dv_view s' = dv_view s"
      "\<forall>e'. dv_contains s' e' \<longleftrightarrow> dv_contains s e' \<and> e' \<noteq> Event (ethread e) (eindex e + int n)"
      using dv_addHole_correct [of s "Event (ethread e) (?xs ! n)"] P e by auto
    have ne: "e' \<noteq> Event (ethread e) (eindex e + int n) \<longleftrightarrow>
        \<not> (ethread e' = ethread e \<and> eindex e' = eindex e + int n)" for e' by (cases e') simp
    have "dv_contains s' e' \<longleftrightarrow> dv_contains d e' \<and>
        \<not> (ethread e' = ethread e \<and> eindex e \<le> eindex e' \<and> eindex e' < eindex e + int (Suc n))" for e'
    proof -
      have "dv_contains s e' \<longleftrightarrow> dv_contains d e' \<and>
          \<not> (ethread e' = ethread e \<and> eindex e \<le> eindex e' \<and> eindex e' < eindex e + int n)" using P by blast
      moreover have "(eindex e \<le> eindex e' \<and> eindex e' < eindex e + int (Suc n)) \<longleftrightarrow>
          (eindex e \<le> eindex e' \<and> eindex e' < eindex e + int n) \<or> eindex e' = eindex e + int n" by arith
      ultimately show ?thesis using spec [OF s'(4), of e'] ne [of e'] by argo
    qed
    then have "?P (Suc n) s'" using P s'(2,3) by metis
    with s'(1) show "\<exists>s'. dv_addHole s (Event (ethread e) (?xs ! n)) = Ok s' \<and> ?P (Suc n) s'" by blast
  qed
  then show ?thesis by (cases "eindex e \<le> b - 1") (auto simp: dv_addHolesInRange_def)
qed

text \<open>\<open>removeHole\<close> makes an event below the view contained again.\<close>

lemma dv_removeHole_correct:
  assumes d: "dv_invar d" and e: "0 \<le> ethread e"
  shows "\<exists>d'. dv_removeHole d e = Ok d' \<and> dv_invar d' \<and> dv_view d' = dv_view d
     \<and> (\<forall>e'. dv_contains d' e' \<longleftrightarrow> dv_contains d e' \<or>
          (e' = e \<and> nat (ethread e) < dv_size d \<and> eindex e \<le> view_at (dv_view d) (nat (ethread e))))"
proof -
  let ?t = "nat (ethread e)" and ?h = "hole_grow (dv_holes d) (nat (ethread e))"
  define d' where "d' = d\<lparr>dv_holes := ?h[?t := fst (vs_erase (?h ! ?t) (eindex e))]\<rparr>"
  have step: "dv_removeHole d e = Ok d'"
    using e by (simp add: dv_removeHole_def Let_def d'_def)
  have st: "ssorted (?h ! ?t)" using d by (simp add: dv_invar_def nth_hole_grow)
  note er = vset.invar_erase [OF st, of "eindex e"] vset.elems_erase [OF st, of "eindex e"]
  have hs: "hole_set d' j = (if j = ?t then hole_set d j - {eindex e} else hole_set d j)" for j
  proof (cases "j = ?t")
    case True
    have "set (?h ! ?t) = hole_set d ?t" by (simp add: nth_hole_grow hole_set_def)
    moreover have "hole_set d' ?t = set (fst (vs_erase (?h ! ?t) (eindex e)))"
      unfolding hole_set_def by (simp add: d'_def less_max_iff_disj)
    ultimately show ?thesis using True er(2) by simp
  next
    case False
    then show ?thesis by (auto simp: hole_set_def d'_def nth_hole_grow)
  qed
  have vw: "dv_view d' = dv_view d" by (simp add: d'_def)
  have inv: "dv_invar d'" unfolding dv_invar_def
  proof (intro conjI allI impI)
    fix j
    assume j: "j < length (dv_holes d')"
    show "ssorted (dv_holes d' ! j)"
      using j d er(1) by (cases "j = ?t") (auto simp: d'_def nth_hole_grow dv_invar_def)
    show "\<forall>x\<in>set (dv_holes d' ! j). 0 < x \<and> x \<le> view_at (dv_view d') j"
    proof
      fix x
      assume "x \<in> set (dv_holes d' ! j)"
      then have "x \<in> hole_set d j" using hs [of j] j by (simp add: hole_set_def [of d'] split: if_splits)
      then show "0 < x \<and> x \<le> view_at (dv_view d') j" using hole_set_bounds [OF d] vw by simp
    qed
  qed (use d in \<open>auto simp: d'_def dv_invar_def\<close>)
  have "dv_contains d' e' \<longleftrightarrow> dv_contains d e' \<or>
          (e' = e \<and> nat (ethread e) < dv_size d \<and> eindex e \<le> view_at (dv_view d) ?t)" for e'
    unfolding dv_contains_cong [OF d inv vw] dv_contains_iff [OF d] hs event_eq_iff using e by auto
  with step inv show ?thesis by (simp add: d'_def)
qed

text \<open>\<open>hasHole\<close> answers the opposite of its name: it holds exactly of the indices of a tracked thread
  that are not holes.\<close>

lemma dv_hasHole_inverted:
  assumes "dv_invar d" and "0 \<le> ethread e" and "nat (ethread e) < length (dv_holes d)"
  shows "dv_hasHole d e \<longleftrightarrow> eindex e \<notin> hole_set d (nat (ethread e))"
  using assms by (auto simp: dv_hasHole_def hole_set_def vs_count_iff dv_invar_def)

section \<open>Dependencies\<close>

text \<open>Joining dependency sets is union.\<close>

lemma depinfo_update_correct:
  assumes "ssorted d" and "ssorted e"
  shows "\<exists>d'. depinfo_update d e = Ok d' \<and> ssorted d' \<and>
     (\<forall>x. depinfo_contains d' x \<longleftrightarrow> depinfo_contains d x \<or> depinfo_contains e x)"
proof -
  obtain u n where u: "vs_insert_set d e = Ok (u, n)" "ssorted u" "set u = set d \<union> set e"
    using vset.insert_set_law [OF assms] by blast
  with assms show ?thesis by (auto simp: depinfo_update_def depinfo_contains_def vs_count_iff)
qed

section \<open>Properties\<close>

text \<open>C28: updating a clock with holes never stops with a \<open>BUG()\<close> or leaves a vector's bounds, keeps the
  invariant, and the result contains exactly the events that one of the two clocks contains: an index
  stays a hole only where neither clock has seen it.\<close>

theorem DepView_update_is_union:
  assumes "dv_invar d" and "dv_invar v"
  shows "\<exists>d'. dv_update d v = Ok d' \<and> dv_invar d'
     \<and> (\<forall>e. dv_contains d' e \<longleftrightarrow> dv_contains d e \<or> dv_contains v e)"
  using assms by (rule depview.update_law)

theorem DepView_update_is_union_witness:
  "\<exists>d'. dv_update \<lparr>dv_view = [3], dv_holes = [[1, 2]]\<rparr> \<lparr>dv_view = [5, 1], dv_holes = [[2, 4], []]\<rparr> = Ok d'
     \<and> dv_invar d'
     \<and> (\<forall>e. dv_contains d' e \<longleftrightarrow> dv_contains \<lparr>dv_view = [3], dv_holes = [[1, 2]]\<rparr> e
          \<or> dv_contains \<lparr>dv_view = [5, 1], dv_holes = [[2, 4], []]\<rparr> e)"
  by (rule DepView_update_is_union) (simp_all add: dv_invar_def view_invar_def view_at_def nth_Cons')

text \<open>Adding a range of holes below the view removes exactly the events of the range from the clock
  and keeps the view; adding a hole beyond the view is a \<open>BUG()\<close>.\<close>

theorem DepView_addHolesInRange:
  assumes "dv_invar d" and "0 \<le> ethread e" and "0 < eindex e"
  shows "(b - 1 \<le> view_at (dv_view d) (nat (ethread e)) \<longrightarrow>
       (\<exists>d'. dv_addHolesInRange d e b = Ok d' \<and> dv_invar d' \<and> dv_view d' = dv_view d
         \<and> (\<forall>e'. dv_contains d' e' \<longleftrightarrow> dv_contains d e' \<and>
              \<not> (ethread e' = ethread e \<and> eindex e \<le> eindex e' \<and> eindex e' < b))))
    \<and> (view_at (dv_view d) (nat (ethread e)) < eindex e \<longrightarrow> dv_addHole d e = Bug)"
  using dv_addHolesInRange_correct [OF assms] dv_addHole_bug [OF assms(2)] by blast

theorem DepView_addHolesInRange_witness:
  "\<exists>d'. dv_addHolesInRange \<lparr>dv_view = [5], dv_holes = [[1]]\<rparr> (Event 0 2) 5 = Ok d'
     \<and> \<not> dv_contains d' (Event 0 4) \<and> dv_contains d' (Event 0 5)"
proof -
  have "dv_invar \<lparr>dv_view = [5], dv_holes = [[1]]\<rparr>"
    by (simp add: dv_invar_def view_invar_def view_at_def)
  from DepView_addHolesInRange [OF this, of "Event 0 2" 5] obtain d'
    where "dv_addHolesInRange \<lparr>dv_view = [5], dv_holes = [[1]]\<rparr> (Event 0 2) 5 = Ok d'"
      and "\<forall>e'. dv_contains d' e' \<longleftrightarrow> dv_contains \<lparr>dv_view = [5], dv_holes = [[1]]\<rparr> e' \<and>
              \<not> (ethread e' = 0 \<and> 2 \<le> eindex e' \<and> eindex e' < 5)"
    by (auto simp: view_at_def)
  moreover have "dv_contains \<lparr>dv_view = [5], dv_holes = [[1]]\<rparr> (Event 0 5)"
    by (simp add: dv_contains_def dv_size_def view_size_def view_at_def vs_count_iff)
  ultimately show ?thesis by auto
qed

text \<open>\<open>hasHole\<close> of a tracked thread answers the opposite of its documentation: it holds exactly when
  the index is not among the holes.\<close>

theorem DepView_hasHole_inverted:
  assumes "dv_invar d" and "0 \<le> ethread e" and "nat (ethread e) < length (dv_holes d)"
  shows "dv_hasHole d e \<longleftrightarrow> eindex e \<notin> set (dv_holes d ! nat (ethread e))"
  using dv_hasHole_inverted [OF assms] assms(3) by (simp add: hole_set_def)

theorem DepView_hasHole_inverted_witness:
  "\<not> dv_hasHole \<lparr>dv_view = [5], dv_holes = [[1]]\<rparr> (Event 0 1)"
  using DepView_hasHole_inverted [of "\<lparr>dv_view = [5], dv_holes = [[1]]\<rparr>" "Event 0 1"]
  by (simp add: dv_invar_def view_invar_def view_at_def)

end
