(* ===== verification/GenMC_Memory.thy ===== *)
theory GenMC_Memory
  imports GenMC_Prelude "HOL-Library.Word"
begin

unbundle bit_operations_syntax

text \<open>
  Addresses, values and accesses (\<open>src/src/SAddr.hpp\<close>, \<open>src/src/SAddrAllocator.hpp\<close>,
  \<open>src/src/SVal.hpp\<close>, \<open>src/src/MemAccess.hpp\<close>), at the widths the code uses: an address and a value are
  64 bits, \<open>unsigned int\<close> is 32 bits and is zero-extended where the code mixes the two.
\<close>

section \<open>Addresses\<close>

type_synonym SAddr = "64 word"

definition staticMask :: SAddr where "staticMask = push_bit 63 1"
definition automaticMask :: SAddr where "automaticMask = push_bit 62 1"
definition internalMask :: SAddr where "internalMask = push_bit 61 1"
definition storageMask :: SAddr where "storageMask = staticMask OR automaticMask OR internalMask"
definition addressMask :: SAddr where "addressMask = internalMask - 1"
definition addr_limit :: SAddr where "addr_limit = internalMask - 1"

lemmas addr_masks = staticMask_def automaticMask_def internalMask_def storageMask_def
  addressMask_def addr_limit_def

definition saddr_create :: "SAddr \<Rightarrow> SAddr \<Rightarrow> bool \<Rightarrow> SAddr res" where
  "saddr_create storage value internal =
     rbind (BUG_ON (value \<ge> addr_limit)) (\<lambda>_.
       let fresh = 0 OR storage;
           fresh' = fresh XOR ((- (if internal then 1 else 0) XOR fresh) AND internalMask)
       in Ok (fresh' OR value))"

definition createStatic :: "SAddr \<Rightarrow> bool \<Rightarrow> SAddr res" where
  "createStatic = saddr_create staticMask"

definition createHeap :: "SAddr \<Rightarrow> bool \<Rightarrow> SAddr res" where
  "createHeap = saddr_create 0"

definition createAutomatic :: "SAddr \<Rightarrow> bool \<Rightarrow> SAddr res" where
  "createAutomatic = saddr_create automaticMask"

definition isStatic :: "SAddr \<Rightarrow> bool" where "isStatic a \<longleftrightarrow> a AND staticMask \<noteq> 0"
definition isDynamic :: "SAddr \<Rightarrow> bool" where "isDynamic a \<longleftrightarrow> \<not> isStatic a"
definition isAutomatic :: "SAddr \<Rightarrow> bool" where "isAutomatic a \<longleftrightarrow> a AND automaticMask \<noteq> 0"
definition isHeap :: "SAddr \<Rightarrow> bool" where "isHeap a \<longleftrightarrow> \<not> isAutomatic a"
definition isInternal :: "SAddr \<Rightarrow> bool" where "isInternal a \<longleftrightarrow> a AND internalMask \<noteq> 0"
definition isUser :: "SAddr \<Rightarrow> bool" where "isUser a \<longleftrightarrow> \<not> isInternal a"
definition isNull :: "SAddr \<Rightarrow> bool" where "isNull a \<longleftrightarrow> a = 0"

section \<open>The allocator\<close>

record SAddrAllocator =
  staticPool :: SAddr
  automaticPool :: SAddr
  heapPool :: SAddr

definition alloc_init :: SAddrAllocator where
  "alloc_init = \<lparr>staticPool = 0, automaticPool = 0, heapPool = 1\<rparr>"

text \<open>\<open>allocate\<close> returns the address and the advanced pool. The offset and the mask are computed in 32 bits
  and then zero-extended.\<close>

definition allocate ::
  "(SAddr \<Rightarrow> bool \<Rightarrow> SAddr res) \<Rightarrow> SAddr \<Rightarrow> 32 word \<Rightarrow> 32 word \<Rightarrow> bool \<Rightarrow> SAddr res \<times> SAddr" where
  "allocate allocFun pool sz alignment internal =
     (let offset = alignment - 1; oldAddr = pool;
          pool' = pool + ucast (offset + sz)
      in (allocFun ((oldAddr + ucast offset) AND ucast (NOT (alignment - 1))) internal, pool'))"

definition allocStatic :: "SAddrAllocator \<Rightarrow> 32 word \<Rightarrow> 32 word \<Rightarrow> bool \<Rightarrow> (SAddr \<times> SAddrAllocator) res" where
  "allocStatic A sz al i = (case allocate createStatic (staticPool A) sz al i of
     (r, p) \<Rightarrow> rbind r (\<lambda>a. Ok (a, A\<lparr>staticPool := p\<rparr>)))"

definition allocAutomatic :: "SAddrAllocator \<Rightarrow> 32 word \<Rightarrow> 32 word \<Rightarrow> bool \<Rightarrow> (SAddr \<times> SAddrAllocator) res" where
  "allocAutomatic A sz al i = (case allocate createAutomatic (automaticPool A) sz al i of
     (r, p) \<Rightarrow> rbind r (\<lambda>a. Ok (a, A\<lparr>automaticPool := p\<rparr>)))"

definition allocHeap :: "SAddrAllocator \<Rightarrow> 32 word \<Rightarrow> 32 word \<Rightarrow> bool \<Rightarrow> (SAddr \<times> SAddrAllocator) res" where
  "allocHeap A sz al i = (case allocate createHeap (heapPool A) sz al i of
     (r, p) \<Rightarrow> rbind r (\<lambda>a. Ok (a, A\<lparr>heapPool := p\<rparr>)))"

section \<open>Values\<close>

type_synonym SVal = "64 word"

definition sval_getSigned :: "SVal \<Rightarrow> int" where "sval_getSigned v = sint v"

definition sval_getBool :: "SVal \<Rightarrow> bool" where "sval_getBool v \<longleftrightarrow> v \<noteq> 0"

text \<open>The shift to the right is on \<open>int64_t\<close>, hence arithmetic.\<close>

definition signExtendBottom :: "SVal \<Rightarrow> nat \<Rightarrow> SVal res" where
  "signExtendBottom v b =
     rbind (BUG_ON (b = 0 \<or> b > 64)) (\<lambda>_. Ok (signed_drop_bit (64 - b) (push_bit (64 - b) v)))"

section \<open>Accesses\<close>

datatype AType = Pointer | Signed | Unsigned

type_synonym ASize = "32 word"

definition asize_getBits :: "ASize \<Rightarrow> 32 word" where "asize_getBits s = s * 8"

record AAccess =
  asize :: ASize
  atype :: AType

definition access_isPointer :: "AAccess \<Rightarrow> bool" where "access_isPointer a \<longleftrightarrow> atype a = Pointer"
definition access_isUnsigned :: "AAccess \<Rightarrow> bool" where "access_isUnsigned a \<longleftrightarrow> atype a = Unsigned"
definition access_isSigned :: "AAccess \<Rightarrow> bool" where "access_isSigned a \<longleftrightarrow> atype a = Signed"

section \<open>Bits of an address\<close>

lemma bit_addr_masks [simp]:
  "bit staticMask n \<longleftrightarrow> n = 63" "bit automaticMask n \<longleftrightarrow> n = 62" "bit internalMask n \<longleftrightarrow> n = 61"
  unfolding staticMask_def automaticMask_def internalMask_def bit_push_bit_iff bit_1_iff by auto

lemma and_single_bit:
  assumes "\<And>n. bit (m :: SAddr) n \<longleftrightarrow> n = i"
  shows "a AND m \<noteq> 0 \<longleftrightarrow> bit a i"
proof
  assume "a AND m \<noteq> 0"
  then obtain n where "bit (a AND m) n" by (metis bit_eqI bit_0_eq bot_apply bot_bool_def)
  then show "bit a i" using assms by (auto simp: bit_and_iff)
next
  assume "bit a i"
  then have "bit (a AND m) i" using assms by (simp add: bit_and_iff)
  then show "a AND m \<noteq> 0" by auto
qed

lemma addr_kind_bits:
  "isStatic a \<longleftrightarrow> bit a 63" "isAutomatic a \<longleftrightarrow> bit a 62" "isInternal a \<longleftrightarrow> bit a 61"
  unfolding isStatic_def isAutomatic_def isInternal_def by (rule and_single_bit, simp)+

lemma addressMask_eq: "addressMask = mask 61" "addr_limit = mask 61"
  by (simp_all add: addressMask_def addr_limit_def internalMask_def mask_eq_exp_minus_1 push_bit_of_1)

lemma bit_below:
  assumes "unat (v :: SAddr) < 2 ^ k" and "bit v n"
  shows "n < k"
proof (rule ccontr)
  assume "\<not> n < k"
  moreover have "take_bit k v = v"
    using assms(1) unfolding word_unat_eq_iff by (simp add: unsigned_take_bit_eq take_bit_nat_eq_self_iff)
  ultimately show False using assms(2) by (metis bit_take_bit_iff)
qed

lemma unat_addr_limit: "unat addr_limit = 2 ^ 61 - 1"
  by (simp add: addr_limit_def internalMask_def)

lemma bit_below_limit: "value < addr_limit \<Longrightarrow> bit value n \<Longrightarrow> n < 61"
  by (rule bit_below [of "value"]) (simp_all add: word_less_nat_alt unat_addr_limit)

text \<open>The bits of a created address: the value below bit 61, the storage bits, and the internal bit.\<close>

lemma saddr_create_bits:
  assumes "value < addr_limit" and "storage \<in> {staticMask, automaticMask, 0}"
  shows "\<exists>a. saddr_create storage value internal = Ok a \<and>
     (\<forall>n. bit a n \<longleftrightarrow> bit storage n \<or> (n = 61 \<and> internal) \<or> bit value n)"
proof -
  have s: "\<not> bit storage 61" using assms(2) by auto
  have v: "\<not> bit value 61" using bit_below_limit [OF assms(1), of 61] by auto
  have "bit ((storage XOR ((- (if internal then 1 else 0) XOR storage) AND internalMask)) OR value) n
      \<longleftrightarrow> bit storage n \<or> (n = 61 \<and> internal) \<or> bit value n" for n
    using s v by (auto simp: bit_or_iff bit_xor_iff bit_and_iff)
  moreover have "saddr_create storage value internal
      = Ok ((storage XOR ((- (if internal then 1 else 0) XOR storage) AND internalMask)) OR value)"
    unfolding saddr_create_def Let_def using assms(1) by (simp add: BUG_ON_def)
  ultimately show ?thesis by blast
qed

lemma saddr_create_bug: "addr_limit \<le> value \<Longrightarrow> saddr_create storage value internal = Bug"
  by (simp add: saddr_create_def)

section \<open>Alignment\<close>

text \<open>Below 4 GB the mask of the allocator rounds down to the alignment.\<close>

lemma mask32_align:
  assumes "unat (x :: SAddr) < 2 ^ 32" and "k < 32"
  shows "x AND ucast (NOT (2 ^ k - 1 :: 32 word)) = push_bit k (drop_bit k x)"
proof (rule bit_eqI)
  fix n
  have "bit x n \<Longrightarrow> n < 32" using bit_below [OF assms(1)] .
  then show "bit (x AND ucast (NOT (2 ^ k - 1 :: 32 word))) n = bit (push_bit k (drop_bit k x)) n"
    unfolding mask_eq_exp_minus_1 [symmetric]
    by (auto simp: bit_simps)
qed

lemma unat_align:
  "unat (push_bit k (drop_bit k (x :: SAddr))) = unat x div 2 ^ k * 2 ^ k"
proof -
  have "push_bit k (drop_bit k x) = x - take_bit k x"
    using bits_ident [of k x] by (metis add_diff_cancel_right')
  moreover have t: "unat (take_bit k x) = unat x mod 2 ^ k"
    unfolding unsigned_take_bit_eq by (rule take_bit_eq_mod)
  moreover have "take_bit k x \<le> x" unfolding word_le_nat_alt t by simp
  ultimately show ?thesis by (simp add: unat_sub minus_mod_eq_div_mult)
qed

lemma unat_zero_extend: "unat (ucast (x :: 32 word) :: SAddr) = unat x"
proof -
  have "unat x < 2 ^ 64" using unsigned_less [of x, where ?'a = nat] by simp
  then show ?thesis by (simp add: unsigned_ucast_eq take_bit_nat_eq_self)
qed

text \<open>Where an allocation lies: aligned, above the old pool, and ending before the new one.\<close>

lemma allocate_value:
  assumes "unat pool + 2 ^ k + unat sz < 2 ^ 32" and "k < 32"
  shows "\<exists>v p. allocate f pool sz (2 ^ k) i = (f v i, p)
    \<and> 2 ^ k dvd unat v \<and> unat pool \<le> unat v \<and> unat v + unat sz \<le> unat p
    \<and> unat p = unat pool + unat sz + (2 ^ k - 1)"
proof -
  let ?v = "(pool + ucast (2 ^ k - 1 :: 32 word)) AND ucast (NOT (2 ^ k - 1 :: 32 word)) :: SAddr"
  have "unat (of_nat (2 ^ k) :: 32 word) = 2 ^ k"
    using power_strict_increasing [OF assms(2), of "2::nat"] unfolding unat_of_nat by simp
  then have pw: "unat (2 ^ k :: 32 word) = 2 ^ k" by simp
  then have "(2 ^ k :: 32 word) \<noteq> 0" by (metis power_not_zero unat_0 zero_neq_numeral)
  then have p2: "unat (2 ^ k - 1 :: 32 word) = 2 ^ k - 1" using pw by (simp add: unat_minus_one)
  have off: "unat (ucast (2 ^ k - 1 :: 32 word) :: SAddr) = 2 ^ k - 1"
    using p2 by (simp add: unat_zero_extend)
  have pos: "(1::nat) \<le> 2 ^ k" by simp
  have x: "unat (pool + ucast (2 ^ k - 1 :: 32 word)) = unat pool + (2 ^ k - 1)"
    using assms(1) off pos by (simp add: unat_word_ariths)
  have "unat ?v = unat (pool + ucast (2 ^ k - 1 :: 32 word)) div 2 ^ k * 2 ^ k"
    using mask32_align [OF _ assms(2)] assms(1) x pos unat_align by simp
  then have v: "unat ?v = (unat pool + (2 ^ k - 1)) div 2 ^ k * 2 ^ k" using x by simp
  have os: "unat (2 ^ k - 1 + sz) = 2 ^ k - 1 + unat sz"
    using assms(1) p2 pos by (simp add: unat_word_ariths)
  have "unat (pool + ucast (2 ^ k - 1 + sz)) = unat pool + unat (2 ^ k - 1 + sz)"
    using assms(1) os pos by (simp add: unat_word_ariths(1) unat_zero_extend)
  then have pl: "unat (pool + ucast (2 ^ k - 1 + sz)) = unat pool + unat sz + (2 ^ k - 1)"
    unfolding os using pos by linarith
  have ge: "unat pool \<le> unat ?v" and le: "unat ?v \<le> unat pool + (2 ^ k - 1)"
    unfolding v using pos mod_less_divisor [of "2 ^ k" "unat pool + (2 ^ k - 1)"]
      div_mult_mod_eq [of "unat pool + (2 ^ k - 1)" "2 ^ k"] by linarith+
  show ?thesis
  proof (rule exI [of _ ?v], rule exI [of _ "pool + ucast (2 ^ k - 1 + sz)"], intro conjI)
    show "2 ^ k dvd unat ?v" unfolding v by simp
    show "unat ?v + unat sz \<le> unat (pool + ucast (2 ^ k - 1 + sz))" unfolding pl using le by linarith
  qed (use ge pl in \<open>simp_all add: allocate_def Let_def\<close>)
qed

section \<open>Properties\<close>

text \<open>An address created by the helpers can be taken apart again: its storage class and its internal
  flag are those it was created with and its low bits are the value; a value that does not fit is a
  \<open>BUG()\<close>.\<close>

theorem SAddr_create_roundtrip:
  assumes "storage \<in> {staticMask, automaticMask, 0}"
  shows "(value < addr_limit \<longrightarrow>
      (\<exists>a. saddr_create storage value internal = Ok a
        \<and> isStatic a = (storage = staticMask) \<and> isAutomatic a = (storage = automaticMask)
        \<and> isInternal a = internal \<and> a AND addressMask = value))
    \<and> (\<not> value < addr_limit \<longrightarrow> saddr_create storage value internal = Bug)"
proof (cases "value < addr_limit")
  case True
  then obtain a where a: "saddr_create storage value internal = Ok a"
    "\<And>n. bit a n \<longleftrightarrow> bit storage n \<or> (n = 61 \<and> internal) \<or> bit value n"
    using saddr_create_bits [OF True assms] by blast
  have ne: "staticMask \<noteq> automaticMask" "staticMask \<noteq> 0" "automaticMask \<noteq> 0"
    by (simp_all add: staticMask_def automaticMask_def)
  have st: "bit storage n \<longleftrightarrow> (storage = staticMask \<and> n = 63) \<or> (storage = automaticMask \<and> n = 62)" for n
    using assms ne by auto
  have v: "bit value n \<Longrightarrow> n < 61" for n by (rule bit_below_limit [OF True])
  have "a AND addressMask = value"
    by (rule bit_eqI) (use v in \<open>auto simp: addressMask_eq bit_and_iff bit_mask_iff a(2) st\<close>)
  with a(1) True show ?thesis
    using v [of 61] v [of 62] v [of 63] ne by (auto simp: addr_kind_bits a(2) st)
qed (simp add: saddr_create_bug)

theorem SAddr_create_roundtrip_witness:
  "\<exists>a. createStatic 4096 True = Ok a \<and> isStatic a \<and> isInternal a \<and> a AND addressMask = 4096"
  using SAddr_create_roundtrip [of staticMask 4096 True]
  by (auto simp: createStatic_def addr_limit_def internalMask_def)

text \<open>While a pool stays below 4 GB, consecutive heap allocations with power-of-two alignments are
  aligned, never null, and occupy disjoint ranges, each below the pool's new value.\<close>

theorem SAddrAllocator_disjoint:
  assumes "k < 32" and "l < 32" and "0 < unat (heapPool A)"
    and "unat (heapPool A) + 2 ^ k + unat s + 2 ^ l + unat t < 2 ^ 32"
  shows "\<exists>a B b C. allocHeap A s (2 ^ k) False = Ok (a, B) \<and> allocHeap B t (2 ^ l) False = Ok (b, C)
    \<and> 2 ^ k dvd unat a \<and> 2 ^ l dvd unat b \<and> \<not> isNull a
    \<and> unat a + unat s \<le> unat b \<and> unat b + unat t \<le> unat (heapPool C)"
proof -
  have heap: "createHeap v False = Ok v" if "unat v < 2 ^ 32" for v
    using that by (simp add: createHeap_def saddr_create_def Let_def BUG_ON_def word_le_nat_alt unat_addr_limit)
  obtain a p where a: "allocate createHeap (heapPool A) s (2 ^ k) False = (createHeap a False, p)"
    "2 ^ k dvd unat a" "unat (heapPool A) \<le> unat a" "unat a + unat s \<le> unat p"
    "unat p = unat (heapPool A) + unat s + (2 ^ k - 1)"
    using allocate_value [of "heapPool A" k s createHeap False] assms by auto
  have p: "unat p + 2 ^ l + unat t < 2 ^ 32" using a(5) assms(4) by simp
  obtain b q where b: "allocate createHeap p t (2 ^ l) False = (createHeap b False, q)"
    "2 ^ l dvd unat b" "unat p \<le> unat b" "unat b + unat t \<le> unat q"
    "unat q = unat p + unat t + (2 ^ l - 1)"
    using allocate_value [OF p assms(2), of createHeap False] by auto
  have "unat q < 2 ^ 32" using b(5) p by simp
  then have "createHeap a False = Ok a" "createHeap b False = Ok b"
    using a(4) b(3,4) heap by simp_all
  with a b assms(3) show ?thesis
    by (auto simp: allocHeap_def isNull_def intro!: exI)
qed

theorem SAddrAllocator_disjoint_witness:
  "\<exists>a B b C. allocHeap alloc_init 24 (2 ^ 3) False = Ok (a, B) \<and> allocHeap B 1 (2 ^ 0) False = Ok (b, C)
    \<and> 2 ^ 3 dvd unat a \<and> 2 ^ 0 dvd unat b \<and> \<not> isNull a
    \<and> unat a + unat (24 :: 32 word) \<le> unat b \<and> unat b + unat (1 :: 32 word) \<le> unat (heapPool C)"
  by (rule SAddrAllocator_disjoint) (simp_all add: alloc_init_def)

text \<open>The mask of the allocator is computed in 32 bits, so beyond 4 GB the high half of the address is
  lost and the allocator hands out an address it has handed out before.\<close>

theorem SAddrAllocator_reuses_addresses:
  "fst (allocate createHeap 1 8 1 False) = Ok 1 \<and> fst (allocate createHeap (2 ^ 32 + 1) 8 1 False) = Ok 1"
  by code_simp

text \<open>C36: sign extension of the bottom \<open>b\<close> bits gives the value that these bits denote in two's
  complement, for every width from 1 to 64; any other width is a \<open>BUG()\<close>.\<close>

theorem SVal_signExtendBottom_correct:
  "(0 < b \<and> b \<le> 64 \<longrightarrow>
      (\<exists>w. signExtendBottom v b = Ok w \<and> sval_getSigned w = signed_take_bit (b - 1) (uint v)))
   \<and> (b = 0 \<or> 64 < b \<longrightarrow> signExtendBottom v b = Bug)"
proof (cases "0 < b \<and> b \<le> 64")
  case True
  have "sval_getSigned (signed_drop_bit (64 - b) (push_bit (64 - b) v)) = signed_take_bit (b - 1) (uint v)"
  proof (rule bit_eqI)
    fix n
    show "bit (sval_getSigned (signed_drop_bit (64 - b) (push_bit (64 - b) v))) n
        = bit (signed_take_bit (b - 1) (uint v)) n"
    proof (cases "n = b - 1")
      case True
      with \<open>0 < b \<and> b \<le> 64\<close> show ?thesis
        by (cases "b = 64") (auto simp: sval_getSigned_def bit_simps min_def)
    next
      case False
      then have "b \<le> n \<or> (n < b - 1 \<and> \<not> b - 1 \<le> n \<and> \<not> b \<le> n)" by auto
      with \<open>0 < b \<and> b \<le> 64\<close> show ?thesis
        by (cases "b = 64") (auto simp: sval_getSigned_def bit_simps min_def)
    qed
  qed
  with True show ?thesis by (simp add: signExtendBottom_def BUG_ON_def)
qed (auto simp: signExtendBottom_def BUG_ON_def)

theorem SVal_signExtendBottom_correct_witness:
  "\<exists>w. signExtendBottom 0x80 8 = Ok w \<and> sval_getSigned w = - 128"
  using SVal_signExtendBottom_correct [of 8 "0x80"] by (simp add: signed_take_bit_eq_if_negative)

end
