(* ===== verification/GenMC_FunctionType.thy ===== *)
theory GenMC_FunctionType
  imports GenMC_Prelude "HOL-Library.Word"
begin

text \<open>
  The calls of a concurrent data structure (\<open>src/src/FunctionType.hpp\<close>, \<open>src/src/FunctionType.cpp\<close>):
  the methods the models know, a call as a method with its invocation number (an \<open>unsigned int\<close>), and the
  relations between calls. \<open>operator<\<close> compares the enumerators, then the invocations; it is a linear
  order, so the calls can key a \<open>std::map\<close>.
\<close>

datatype FunctionName = FN_NON | FN_Init | FN_Lock | FN_Unlock | FN_Enq | FN_Deq | FN_Push | FN_Pop
  | FN_Protect0 | FN_Unprotect0 | FN_Protect1 | FN_Unprotect1 | FN_Reclaim

primrec fn_num :: "FunctionName \<Rightarrow> nat" where
  "fn_num FN_NON = 0"
| "fn_num FN_Init = 1"
| "fn_num FN_Lock = 2"
| "fn_num FN_Unlock = 3"
| "fn_num FN_Enq = 4"
| "fn_num FN_Deq = 5"
| "fn_num FN_Push = 6"
| "fn_num FN_Pop = 7"
| "fn_num FN_Protect0 = 8"
| "fn_num FN_Unprotect0 = 9"
| "fn_num FN_Protect1 = 10"
| "fn_num FN_Unprotect1 = 11"
| "fn_num FN_Reclaim = 12"

lemma fn_num_inject [simp]: "fn_num m = fn_num n \<longleftrightarrow> m = n"
  by (cases m; cases n; simp)

instantiation FunctionName :: linorder
begin

definition less_eq_FunctionName :: "FunctionName \<Rightarrow> FunctionName \<Rightarrow> bool" where
  "m \<le> n \<longleftrightarrow> fn_num m \<le> fn_num n"

definition less_FunctionName :: "FunctionName \<Rightarrow> FunctionName \<Rightarrow> bool" where
  "m < n \<longleftrightarrow> fn_num m < fn_num n"

instance
  by standard (auto simp: less_eq_FunctionName_def less_FunctionName_def)

end

datatype FunctionEvent = FunctionEvent (fname: FunctionName) (finvocation: "32 word")

definition fevent_less :: "FunctionEvent \<Rightarrow> FunctionEvent \<Rightarrow> bool" where
  "fevent_less d e \<longleftrightarrow> fname d < fname e \<or> (fname d = fname e \<and> finvocation d < finvocation e)"

definition fevent_greater :: "FunctionEvent \<Rightarrow> FunctionEvent \<Rightarrow> bool" where
  "fevent_greater d e \<longleftrightarrow> fname d > fname e \<or> (fname d = fname e \<and> finvocation d > finvocation e)"

instantiation FunctionEvent :: linorder
begin

definition less_FunctionEvent :: "FunctionEvent \<Rightarrow> FunctionEvent \<Rightarrow> bool" where
  "d < e \<longleftrightarrow> fevent_less d e"

definition less_eq_FunctionEvent :: "FunctionEvent \<Rightarrow> FunctionEvent \<Rightarrow> bool" where
  "d \<le> e \<longleftrightarrow> fevent_less d e \<or> d = e"

instance
  by standard
    (auto simp: less_eq_FunctionEvent_def less_FunctionEvent_def fevent_less_def intro: FunctionEvent.expand)

end

lemma fevent_greater_iff: "fevent_greater d e \<longleftrightarrow> e < d"
  by (auto simp: fevent_greater_def less_FunctionEvent_def fevent_less_def)

datatype OrderType = PO | COM | INVCOM | SO | INVSO | LHB

section \<open>Names\<close>

text \<open>What the stream operators print.\<close>

primrec show_function_name :: "FunctionName \<Rightarrow> string" where
  "show_function_name FN_Enq = ''enqueue''"
| "show_function_name FN_Deq = ''dequeue''"
| "show_function_name FN_Lock = ''lock''"
| "show_function_name FN_Unlock = ''unlock''"
| "show_function_name FN_Pop = ''pop''"
| "show_function_name FN_Push = ''push''"
| "show_function_name FN_Init = ''init''"
| "show_function_name FN_NON = ''-''"
| "show_function_name FN_Protect0 = ''protect0''"
| "show_function_name FN_Unprotect0 = ''unprotect0''"
| "show_function_name FN_Protect1 = ''protect1''"
| "show_function_name FN_Unprotect1 = ''unprotect1''"
| "show_function_name FN_Reclaim = ''reclaim''"

primrec show_order_type :: "OrderType \<Rightarrow> string" where
  "show_order_type PO = ''PO''"
| "show_order_type COM = ''COM''"
| "show_order_type INVCOM = ''COM-1''"
| "show_order_type SO = ''SO''"
| "show_order_type INVSO = ''SO-1''"
| "show_order_type LHB = ''LHB''"

end
