(* ===== verification/GenMC_Label.thy ===== *)
theory GenMC_Label
  imports GenMC_DepView GenMC_Memory GenMC_FunctionType
begin

text \<open>
  Event labels (\<open>src/src/EventLabel.hpp\<close>): the class hierarchy with its discriminator enum. A label is one
  record; the fields of a subclass are meaningful for the kinds of that subclass only. The RTTI checks
  (\<open>classofKind\<close>) compare positions in the enum, as the code does.
\<close>

section \<open>Kinds\<close>

datatype (plugins only: ) EventLabelKind =
    EL_Empty | EL_Block | EL_Optional | EL_ThreadStart | EL_ThreadFinish | EL_ThreadCreate
  | EL_ThreadJoin | EL_ThreadKill | EL_LoopBegin | EL_SpinStart | EL_FaiZNESpinEnd | EL_LockZNESpinEnd
  | EL_MemAccessBegin | EL_Read | EL_BWaitRead | EL_SpeculativeRead | EL_ConfirmingRead | EL_FaiRead
  | EL_NoRetFaiRead | EL_BIncFaiRead | EL_FaiReadLast | EL_CasRead | EL_LockCasRead | EL_TrylockCasRead
  | EL_HelpedCasRead | EL_ConfirmingCasRead | EL_CasReadLast | EL_DskRead | EL_LastRead | EL_Write
  | EL_UnlockWrite | EL_BInitWrite | EL_BDestroyWrite | EL_FaiWrite | EL_NoRetFaiWrite | EL_BIncFaiWrite
  | EL_FaiWriteLast | EL_CasWrite | EL_LockCasWrite | EL_TrylockCasWrite | EL_HelpedCasWrite
  | EL_ConfirmingCasWrite | EL_CasWriteLast | EL_DskWrite | EL_DskMdWrite | EL_DskJnlWrite
  | EL_DskDirWrite | EL_LastDskWrite | EL_LastWrite | EL_MemAccessEnd | EL_Fence | EL_DskFsync
  | EL_DskSync | EL_DskPbarrier | EL_SmpFenceLKMM | EL_RCUSyncLKMM | EL_LastFence | EL_Malloc | EL_Free
  | EL_HpRetire | EL_FreeLast | EL_HpProtect | EL_LockLAPOR | EL_UnlockLAPOR | EL_HelpingCas | EL_DskOpen
  | EL_RCULockLKMM | EL_RCUUnlockLKMM | EL_FunStart | EL_FunEnd

primrec kind_num :: "EventLabelKind \<Rightarrow> nat" where
  "kind_num EL_Empty = 0"
| "kind_num EL_Block = 1"
| "kind_num EL_Optional = 2"
| "kind_num EL_ThreadStart = 3"
| "kind_num EL_ThreadFinish = 4"
| "kind_num EL_ThreadCreate = 5"
| "kind_num EL_ThreadJoin = 6"
| "kind_num EL_ThreadKill = 7"
| "kind_num EL_LoopBegin = 8"
| "kind_num EL_SpinStart = 9"
| "kind_num EL_FaiZNESpinEnd = 10"
| "kind_num EL_LockZNESpinEnd = 11"
| "kind_num EL_MemAccessBegin = 12"
| "kind_num EL_Read = 13"
| "kind_num EL_BWaitRead = 14"
| "kind_num EL_SpeculativeRead = 15"
| "kind_num EL_ConfirmingRead = 16"
| "kind_num EL_FaiRead = 17"
| "kind_num EL_NoRetFaiRead = 18"
| "kind_num EL_BIncFaiRead = 19"
| "kind_num EL_FaiReadLast = 20"
| "kind_num EL_CasRead = 21"
| "kind_num EL_LockCasRead = 22"
| "kind_num EL_TrylockCasRead = 23"
| "kind_num EL_HelpedCasRead = 24"
| "kind_num EL_ConfirmingCasRead = 25"
| "kind_num EL_CasReadLast = 26"
| "kind_num EL_DskRead = 27"
| "kind_num EL_LastRead = 28"
| "kind_num EL_Write = 29"
| "kind_num EL_UnlockWrite = 30"
| "kind_num EL_BInitWrite = 31"
| "kind_num EL_BDestroyWrite = 32"
| "kind_num EL_FaiWrite = 33"
| "kind_num EL_NoRetFaiWrite = 34"
| "kind_num EL_BIncFaiWrite = 35"
| "kind_num EL_FaiWriteLast = 36"
| "kind_num EL_CasWrite = 37"
| "kind_num EL_LockCasWrite = 38"
| "kind_num EL_TrylockCasWrite = 39"
| "kind_num EL_HelpedCasWrite = 40"
| "kind_num EL_ConfirmingCasWrite = 41"
| "kind_num EL_CasWriteLast = 42"
| "kind_num EL_DskWrite = 43"
| "kind_num EL_DskMdWrite = 44"
| "kind_num EL_DskJnlWrite = 45"
| "kind_num EL_DskDirWrite = 46"
| "kind_num EL_LastDskWrite = 47"
| "kind_num EL_LastWrite = 48"
| "kind_num EL_MemAccessEnd = 49"
| "kind_num EL_Fence = 50"
| "kind_num EL_DskFsync = 51"
| "kind_num EL_DskSync = 52"
| "kind_num EL_DskPbarrier = 53"
| "kind_num EL_SmpFenceLKMM = 54"
| "kind_num EL_RCUSyncLKMM = 55"
| "kind_num EL_LastFence = 56"
| "kind_num EL_Malloc = 57"
| "kind_num EL_Free = 58"
| "kind_num EL_HpRetire = 59"
| "kind_num EL_FreeLast = 60"
| "kind_num EL_HpProtect = 61"
| "kind_num EL_LockLAPOR = 62"
| "kind_num EL_UnlockLAPOR = 63"
| "kind_num EL_HelpingCas = 64"
| "kind_num EL_DskOpen = 65"
| "kind_num EL_RCULockLKMM = 66"
| "kind_num EL_RCUUnlockLKMM = 67"
| "kind_num EL_FunStart = 68"
| "kind_num EL_FunEnd = 69"

text \<open>The RTTI checks of the abstract classes and of the classes with subclasses.\<close>

definition isa_MemAccess :: "EventLabelKind \<Rightarrow> bool" where
  "isa_MemAccess k \<longleftrightarrow> kind_num EL_MemAccessBegin \<le> kind_num k \<and> kind_num k \<le> kind_num EL_MemAccessEnd"

definition isa_Read :: "EventLabelKind \<Rightarrow> bool" where
  "isa_Read k \<longleftrightarrow> kind_num EL_Read \<le> kind_num k \<and> kind_num k \<le> kind_num EL_LastRead"

definition isa_FaiRead :: "EventLabelKind \<Rightarrow> bool" where
  "isa_FaiRead k \<longleftrightarrow> kind_num EL_FaiRead \<le> kind_num k \<and> kind_num k \<le> kind_num EL_FaiReadLast"

definition isa_CasRead :: "EventLabelKind \<Rightarrow> bool" where
  "isa_CasRead k \<longleftrightarrow> kind_num EL_CasRead \<le> kind_num k \<and> kind_num k \<le> kind_num EL_CasReadLast"

definition isa_Write :: "EventLabelKind \<Rightarrow> bool" where
  "isa_Write k \<longleftrightarrow> kind_num EL_Write \<le> kind_num k \<and> kind_num k \<le> kind_num EL_LastWrite"

definition isa_FaiWrite :: "EventLabelKind \<Rightarrow> bool" where
  "isa_FaiWrite k \<longleftrightarrow> kind_num EL_FaiWrite \<le> kind_num k \<and> kind_num k \<le> kind_num EL_FaiWriteLast"

definition isa_CasWrite :: "EventLabelKind \<Rightarrow> bool" where
  "isa_CasWrite k \<longleftrightarrow> kind_num EL_CasWrite \<le> kind_num k \<and> kind_num k \<le> kind_num EL_CasWriteLast"

definition isa_DskWrite :: "EventLabelKind \<Rightarrow> bool" where
  "isa_DskWrite k \<longleftrightarrow> kind_num EL_DskWrite \<le> kind_num k \<and> kind_num k \<le> kind_num EL_LastDskWrite"

definition isa_Fence :: "EventLabelKind \<Rightarrow> bool" where
  "isa_Fence k \<longleftrightarrow> kind_num EL_Fence \<le> kind_num k \<and> kind_num k \<le> kind_num EL_LastFence"

definition isa_Free :: "EventLabelKind \<Rightarrow> bool" where
  "isa_Free k \<longleftrightarrow> kind_num EL_Free \<le> kind_num k \<and> kind_num k \<le> kind_num EL_FreeLast"

definition isa_DskAccess :: "EventLabelKind \<Rightarrow> bool" where
  "isa_DskAccess k \<longleftrightarrow> k = EL_DskRead \<or>
     (kind_num EL_DskWrite \<le> kind_num k \<and> kind_num k \<le> kind_num EL_LastDskWrite) \<or>
     k = EL_DskSync \<or> k = EL_DskFsync \<or> k = EL_DskPbarrier"

lemmas isa_defs = isa_MemAccess_def isa_Read_def isa_FaiRead_def isa_CasRead_def isa_Write_def
  isa_FaiWrite_def isa_CasWrite_def isa_DskWrite_def isa_Fence_def isa_Free_def isa_DskAccess_def

section \<open>Orderings and attributes\<close>

text \<open>LLVM's atomic orderings, the enumerators the code names.\<close>

datatype AtomicOrdering = NotAtomic | Unordered | Monotonic | Acquire | Release | AcquireRelease
  | SequentiallyConsistent

text \<open>LLVM's operations of an atomic read-modify-write.\<close>

datatype BinOp = Xchg | Add | Sub | And | Nand | Or | Xor | Max | Min | UMax | UMin

text \<open>\<open>WriteAttr\<close> is a bit mask over an \<open>int\<close>.\<close>

type_synonym WriteAttr = "32 word"

definition WA_None :: WriteAttr where "WA_None = 0"
definition WA_Local :: WriteAttr where "WA_Local = 1"
definition WA_Final :: WriteAttr where "WA_Final = 2"
definition WA_RevBlocker :: WriteAttr where "WA_RevBlocker = 4"

text \<open>Why a thread blocks.\<close>

datatype BlockageType = NotBlocked | BT_ThreadJoin | Spinloop | FaiZNESpinloop | LockZNESpinloop | BT_HelpedCas
  | Confirmation | ReadOptBlock | LockNotAcq | LockNotRel | BT_Barrier | BT_Cons | BT_Error | BT_User

text \<open>Fences of the Linux kernel model; the tests compare positions in the enum.\<close>

datatype SmpFenceType = MB | WMB | RMB | MBBA | MBAA | MBAS | MBAUL

primrec smp_num :: "SmpFenceType \<Rightarrow> nat" where
  "smp_num MB = 0" | "smp_num WMB = 1" | "smp_num RMB = 2" | "smp_num MBBA = 3" | "smp_num MBAA = 4"
| "smp_num MBAS = 5" | "smp_num MBAUL = 6"

definition isCumul :: "SmpFenceType \<Rightarrow> bool" where
  "isCumul t \<longleftrightarrow> smp_num t \<le> smp_num WMB \<or> smp_num t \<ge> smp_num MBBA"

definition isStrong :: "SmpFenceType \<Rightarrow> bool" where
  "isStrong t \<longleftrightarrow> t = MB \<or> smp_num t \<ge> smp_num MBBA"

section \<open>Labels\<close>

record EventLabel =
  lkind :: EventLabelKind
  lstamp :: nat
  lordering :: AtomicOrdering
  lpos :: Event
  hbView :: View
  porfView :: View
  ppoView :: DepView
  pporfView :: DepView
  lmethod :: FunctionName
  linvocation :: "32 word"
  lSO :: "FunctionEvent list"
  lCOM :: "FunctionEvent list"
  laddr :: SAddr
  laccess :: AAccess
  lfenceView :: DepView
  lmaximal :: bool
  lrf :: Event
  lrevisitable :: bool
  lopVal :: SVal
  lexpected :: SVal
  lswapVal :: SVal
  lwattr :: WriteAttr
  lval :: SVal
  lmsgView :: View
  lreaders :: "Event list"
  lchildId :: "32 word"
  lchildLast :: Event
  lparentCreate :: Event
  lsymmetricTid :: int
  lparentJoin :: Event
  lallocAddr :: SAddr
  lallocSize :: "32 word"
  lfreedAddr :: SAddr
  lfreedSize :: "32 word"
  lhpAddr :: SAddr
  lprotAddr :: SAddr
  llockAddr :: SAddr
  lpbView :: DepView
  lexpandable :: bool
  lexpanded :: bool
  lop :: BinOp
  lmapping :: "64 word"
  ltransInode :: "64 word"
  lordBegin :: "64 word"
  lordEnd :: "64 word"
  linode :: "64 word"
  linodeSize :: "32 word"
  lblock :: BlockageType
  lsmp :: SmpFenceType
  lfileName :: string
  lfd :: SVal

text \<open>The base constructor, with the default member initialisers of the class and its subclasses. The
  code leaves \<open>method\<close> indeterminate until the driver sets it; the model starts it at \<open>FN_NON\<close>. Fields of
  other subclasses hold a fixed value that nothing reads.\<close>

definition mkLabel :: "EventLabelKind \<Rightarrow> nat \<Rightarrow> AtomicOrdering \<Rightarrow> Event \<Rightarrow> EventLabel" where
  "mkLabel k s ord p =
     \<lparr>lkind = k, lstamp = s, lordering = ord, lpos = p, hbView = [], porfView = [], ppoView = dv_new,
      pporfView = dv_new, lmethod = FN_NON, linvocation = -1, lSO = [], lCOM = [],
      laddr = 0, laccess = \<lparr>asize = 0, atype = Unsigned\<rparr>, lfenceView = dv_new, lmaximal = True,
      lrf = getBottom, lrevisitable = True, lopVal = 0, lexpected = 0, lswapVal = 0, lwattr = WA_None,
      lval = 0, lmsgView = [], lreaders = [], lchildId = -1, lchildLast = getInitializer,
      lparentCreate = getInitializer, lsymmetricTid = -1, lparentJoin = getInitializer,
      lallocAddr = 0, lallocSize = 0, lfreedAddr = 0, lfreedSize = 0, lhpAddr = 0, lprotAddr = 0,
      llockAddr = 0, lpbView = dv_new, lexpandable = True, lexpanded = False, lop = Xchg,
      lmapping = 0, ltransInode = 0, lordBegin = 0, lordEnd = 0, linode = 0, linodeSize = 0, lblock = NotBlocked,
      lsmp = MB, lfileName = [], lfd = 0\<rparr>"

definition EmptyLabel :: "Event \<Rightarrow> EventLabel" where
  "EmptyLabel p = mkLabel EL_Empty 0 NotAtomic p"

definition FunStartLabel :: "Event \<Rightarrow> EventLabel" where
  "FunStartLabel p = mkLabel EL_FunStart 0 NotAtomic p"

definition FunEndLabel :: "Event \<Rightarrow> EventLabel" where
  "FunEndLabel p = mkLabel EL_FunEnd 0 NotAtomic p"

definition OptionalLabel :: "Event \<Rightarrow> EventLabel" where
  "OptionalLabel p = mkLabel EL_Optional 0 NotAtomic p"

definition ReadLabel :: "EventLabelKind \<Rightarrow> AtomicOrdering \<Rightarrow> Event \<Rightarrow> SAddr \<Rightarrow> AAccess \<Rightarrow> Event \<Rightarrow> EventLabel" where
  "ReadLabel k ord p a acc rf = (mkLabel k 0 ord p)\<lparr>laddr := a, laccess := acc, lrf := rf, lrevisitable := True\<rparr>"

definition FaiReadLabel :: "EventLabelKind \<Rightarrow> AtomicOrdering \<Rightarrow> Event \<Rightarrow> SAddr \<Rightarrow> AAccess \<Rightarrow> BinOp \<Rightarrow> SVal \<Rightarrow> WriteAttr \<Rightarrow> Event \<Rightarrow> EventLabel" where
  "FaiReadLabel k ord p a acc op v w rf = (ReadLabel k ord p a acc rf)\<lparr>lop := op, lopVal := v, lwattr := w\<rparr>"

definition CasReadLabel :: "EventLabelKind \<Rightarrow> AtomicOrdering \<Rightarrow> Event \<Rightarrow> SAddr \<Rightarrow> AAccess \<Rightarrow> SVal \<Rightarrow> SVal \<Rightarrow> WriteAttr \<Rightarrow> Event \<Rightarrow> EventLabel" where
  "CasReadLabel k ord p a acc ex sw w rf = (ReadLabel k ord p a acc rf)\<lparr>lexpected := ex, lswapVal := sw, lwattr := w\<rparr>"

definition WriteLabel :: "EventLabelKind \<Rightarrow> AtomicOrdering \<Rightarrow> Event \<Rightarrow> SAddr \<Rightarrow> AAccess \<Rightarrow> SVal \<Rightarrow> WriteAttr \<Rightarrow> EventLabel" where
  "WriteLabel k ord p a acc v w = (mkLabel k 0 ord p)\<lparr>laddr := a, laccess := acc, lval := v, lwattr := w\<rparr>"

definition ThreadCreateLabel :: "Event \<Rightarrow> 32 word \<Rightarrow> EventLabel" where
  "ThreadCreateLabel p cid = (mkLabel EL_ThreadCreate 0 Release p)\<lparr>lchildId := cid\<rparr>"

definition ThreadJoinLabel :: "Event \<Rightarrow> 32 word \<Rightarrow> EventLabel" where
  "ThreadJoinLabel p cid = (mkLabel EL_ThreadJoin 0 Acquire p)\<lparr>lchildId := cid, lchildLast := getInitializer\<rparr>"

definition ThreadStartLabel :: "nat \<Rightarrow> AtomicOrdering \<Rightarrow> Event \<Rightarrow> Event \<Rightarrow> int \<Rightarrow> EventLabel" where
  "ThreadStartLabel s ord p pc symm = (mkLabel EL_ThreadStart s ord p)\<lparr>lparentCreate := pc, lsymmetricTid := symm\<rparr>"

definition ThreadFinishLabel :: "Event \<Rightarrow> EventLabel" where
  "ThreadFinishLabel p = (mkLabel EL_ThreadFinish 0 Release p)\<lparr>lparentJoin := getInitializer\<rparr>"

definition MallocLabel :: "Event \<Rightarrow> SAddr \<Rightarrow> 32 word \<Rightarrow> EventLabel" where
  "MallocLabel p a sz = (mkLabel EL_Malloc 0 NotAtomic p)\<lparr>lallocAddr := a, lallocSize := sz\<rparr>"

definition FreeLabel :: "EventLabelKind \<Rightarrow> Event \<Rightarrow> SAddr \<Rightarrow> 32 word \<Rightarrow> EventLabel" where
  "FreeLabel k p a sz = (mkLabel k 0 NotAtomic p)\<lparr>lfreedAddr := a, lfreedSize := sz\<rparr>"

definition HpProtectLabel :: "Event \<Rightarrow> SAddr \<Rightarrow> SAddr \<Rightarrow> EventLabel" where
  "HpProtectLabel p h a = (mkLabel EL_HpProtect 0 Release p)\<lparr>lhpAddr := h, lprotAddr := a\<rparr>"

definition LockLabelLAPOR :: "Event \<Rightarrow> SAddr \<Rightarrow> EventLabel" where
  "LockLabelLAPOR p a = (mkLabel EL_LockLAPOR 0 Acquire p)\<lparr>llockAddr := a\<rparr>"

definition UnlockLabelLAPOR :: "Event \<Rightarrow> SAddr \<Rightarrow> EventLabel" where
  "UnlockLabelLAPOR p a = (mkLabel EL_UnlockLAPOR 0 Release p)\<lparr>llockAddr := a\<rparr>"

text \<open>Blocking, loops and spin loops.\<close>

definition BlockLabel :: "Event \<Rightarrow> BlockageType \<Rightarrow> EventLabel" where
  "BlockLabel p t = (mkLabel EL_Block 0 NotAtomic p)\<lparr>lblock := t\<rparr>"

definition LoopBeginLabel :: "Event \<Rightarrow> EventLabel" where
  "LoopBeginLabel p = mkLabel EL_LoopBegin 0 NotAtomic p"

definition SpinStartLabel :: "Event \<Rightarrow> EventLabel" where
  "SpinStartLabel p = mkLabel EL_SpinStart 0 NotAtomic p"

definition FaiZNESpinEndLabel :: "Event \<Rightarrow> EventLabel" where
  "FaiZNESpinEndLabel p = mkLabel EL_FaiZNESpinEnd 0 NotAtomic p"

definition LockZNESpinEndLabel :: "Event \<Rightarrow> EventLabel" where
  "LockZNESpinEndLabel p = mkLabel EL_LockZNESpinEnd 0 NotAtomic p"

definition ThreadKillLabel :: "Event \<Rightarrow> EventLabel" where
  "ThreadKillLabel p = mkLabel EL_ThreadKill 0 NotAtomic p"

text \<open>Subclasses of reads. The annotation of a read is left out.\<close>

definition SpeculativeReadLabel :: "AtomicOrdering \<Rightarrow> Event \<Rightarrow> SAddr \<Rightarrow> AAccess \<Rightarrow> Event \<Rightarrow> EventLabel" where
  "SpeculativeReadLabel = ReadLabel EL_SpeculativeRead"

definition ConfirmingReadLabel :: "AtomicOrdering \<Rightarrow> Event \<Rightarrow> SAddr \<Rightarrow> AAccess \<Rightarrow> Event \<Rightarrow> EventLabel" where
  "ConfirmingReadLabel = ReadLabel EL_ConfirmingRead"

definition BWaitReadLabel :: "AtomicOrdering \<Rightarrow> Event \<Rightarrow> SAddr \<Rightarrow> AAccess \<Rightarrow> Event \<Rightarrow> EventLabel" where
  "BWaitReadLabel = ReadLabel EL_BWaitRead"

definition NoRetFaiReadLabel :: "AtomicOrdering \<Rightarrow> Event \<Rightarrow> SAddr \<Rightarrow> AAccess \<Rightarrow> BinOp \<Rightarrow> SVal \<Rightarrow> WriteAttr \<Rightarrow> Event \<Rightarrow> EventLabel" where
  "NoRetFaiReadLabel = FaiReadLabel EL_NoRetFaiRead"

definition BIncFaiReadLabel :: "AtomicOrdering \<Rightarrow> Event \<Rightarrow> SAddr \<Rightarrow> AAccess \<Rightarrow> BinOp \<Rightarrow> SVal \<Rightarrow> WriteAttr \<Rightarrow> Event \<Rightarrow> EventLabel" where
  "BIncFaiReadLabel = FaiReadLabel EL_BIncFaiRead"

definition HelpedCasReadLabel :: "AtomicOrdering \<Rightarrow> Event \<Rightarrow> SAddr \<Rightarrow> AAccess \<Rightarrow> SVal \<Rightarrow> SVal \<Rightarrow> WriteAttr \<Rightarrow> Event \<Rightarrow> EventLabel" where
  "HelpedCasReadLabel = CasReadLabel EL_HelpedCasRead"

definition ConfirmingCasReadLabel :: "AtomicOrdering \<Rightarrow> Event \<Rightarrow> SAddr \<Rightarrow> AAccess \<Rightarrow> SVal \<Rightarrow> SVal \<Rightarrow> WriteAttr \<Rightarrow> Event \<Rightarrow> EventLabel" where
  "ConfirmingCasReadLabel = CasReadLabel EL_ConfirmingCasRead"

definition LockCasReadLabel :: "Event \<Rightarrow> SAddr \<Rightarrow> ASize \<Rightarrow> Event \<Rightarrow> EventLabel" where
  "LockCasReadLabel p a sz = CasReadLabel EL_LockCasRead Acquire p a \<lparr>asize = sz, atype = Signed\<rparr> 0 1 WA_None"

definition TrylockCasReadLabel :: "Event \<Rightarrow> SAddr \<Rightarrow> ASize \<Rightarrow> Event \<Rightarrow> EventLabel" where
  "TrylockCasReadLabel p a sz = CasReadLabel EL_TrylockCasRead Acquire p a \<lparr>asize = sz, atype = Signed\<rparr> 0 1 WA_None"

definition DskReadLabel :: "Event \<Rightarrow> SAddr \<Rightarrow> AAccess \<Rightarrow> EventLabel" where
  "DskReadLabel p a acc = ReadLabel EL_DskRead Acquire p a acc getBottom"

text \<open>Subclasses of writes.\<close>

definition UnlockWriteLabel :: "Event \<Rightarrow> SAddr \<Rightarrow> ASize \<Rightarrow> EventLabel" where
  "UnlockWriteLabel p a sz = WriteLabel EL_UnlockWrite Release p a \<lparr>asize = sz, atype = Signed\<rparr> 0 WA_None"

definition BInitWriteLabel :: "AtomicOrdering \<Rightarrow> Event \<Rightarrow> SAddr \<Rightarrow> AAccess \<Rightarrow> SVal \<Rightarrow> EventLabel" where
  "BInitWriteLabel ord p a acc v = WriteLabel EL_BInitWrite ord p a acc v WA_None"

definition BDestroyWriteLabel :: "AtomicOrdering \<Rightarrow> Event \<Rightarrow> SAddr \<Rightarrow> AAccess \<Rightarrow> SVal \<Rightarrow> EventLabel" where
  "BDestroyWriteLabel ord p a acc v = WriteLabel EL_BDestroyWrite ord p a acc v WA_None"

definition FaiWriteLabel :: "AtomicOrdering \<Rightarrow> Event \<Rightarrow> SAddr \<Rightarrow> AAccess \<Rightarrow> SVal \<Rightarrow> WriteAttr \<Rightarrow> EventLabel" where
  "FaiWriteLabel = WriteLabel EL_FaiWrite"

definition NoRetFaiWriteLabel :: "AtomicOrdering \<Rightarrow> Event \<Rightarrow> SAddr \<Rightarrow> AAccess \<Rightarrow> SVal \<Rightarrow> WriteAttr \<Rightarrow> EventLabel" where
  "NoRetFaiWriteLabel = WriteLabel EL_NoRetFaiWrite"

definition BIncFaiWriteLabel :: "AtomicOrdering \<Rightarrow> Event \<Rightarrow> SAddr \<Rightarrow> AAccess \<Rightarrow> SVal \<Rightarrow> WriteAttr \<Rightarrow> EventLabel" where
  "BIncFaiWriteLabel = WriteLabel EL_BIncFaiWrite"

definition CasWriteLabel :: "AtomicOrdering \<Rightarrow> Event \<Rightarrow> SAddr \<Rightarrow> AAccess \<Rightarrow> SVal \<Rightarrow> WriteAttr \<Rightarrow> EventLabel" where
  "CasWriteLabel = WriteLabel EL_CasWrite"

definition HelpedCasWriteLabel :: "AtomicOrdering \<Rightarrow> Event \<Rightarrow> SAddr \<Rightarrow> AAccess \<Rightarrow> SVal \<Rightarrow> WriteAttr \<Rightarrow> EventLabel" where
  "HelpedCasWriteLabel = WriteLabel EL_HelpedCasWrite"

definition ConfirmingCasWriteLabel :: "AtomicOrdering \<Rightarrow> Event \<Rightarrow> SAddr \<Rightarrow> AAccess \<Rightarrow> SVal \<Rightarrow> WriteAttr \<Rightarrow> EventLabel" where
  "ConfirmingCasWriteLabel = WriteLabel EL_ConfirmingCasWrite"

definition LockCasWriteLabel :: "Event \<Rightarrow> SAddr \<Rightarrow> ASize \<Rightarrow> EventLabel" where
  "LockCasWriteLabel p a sz = WriteLabel EL_LockCasWrite Acquire p a \<lparr>asize = sz, atype = Signed\<rparr> 1 WA_None"

definition TrylockCasWriteLabel :: "Event \<Rightarrow> SAddr \<Rightarrow> ASize \<Rightarrow> EventLabel" where
  "TrylockCasWriteLabel p a sz = WriteLabel EL_TrylockCasWrite Acquire p a \<lparr>asize = sz, atype = Signed\<rparr> 1 WA_None"

definition DskWriteLabel :: "EventLabelKind \<Rightarrow> Event \<Rightarrow> SAddr \<Rightarrow> AAccess \<Rightarrow> SVal \<Rightarrow> 64 word \<Rightarrow> EventLabel" where
  "DskWriteLabel k p a acc v m = (WriteLabel k Release p a acc v WA_None)\<lparr>lmapping := m\<rparr>"

definition DskMdWriteLabel :: "Event \<Rightarrow> SAddr \<Rightarrow> AAccess \<Rightarrow> SVal \<Rightarrow> 64 word \<Rightarrow> 64 word \<times> 64 word \<Rightarrow> EventLabel" where
  "DskMdWriteLabel p a acc v m r = (DskWriteLabel EL_DskMdWrite p a acc v m)\<lparr>lordBegin := fst r, lordEnd := snd r\<rparr>"

definition DskDirWriteLabel :: "Event \<Rightarrow> SAddr \<Rightarrow> AAccess \<Rightarrow> SVal \<Rightarrow> 64 word \<Rightarrow> EventLabel" where
  "DskDirWriteLabel = DskWriteLabel EL_DskDirWrite"

definition DskJnlWriteLabel :: "Event \<Rightarrow> SAddr \<Rightarrow> AAccess \<Rightarrow> SVal \<Rightarrow> 64 word \<Rightarrow> 64 word \<Rightarrow> EventLabel" where
  "DskJnlWriteLabel p a acc v m i = (DskWriteLabel EL_DskJnlWrite p a acc v m)\<lparr>ltransInode := i\<rparr>"

text \<open>Fences.\<close>

definition FenceLabel :: "AtomicOrdering \<Rightarrow> Event \<Rightarrow> EventLabel" where
  "FenceLabel ord p = mkLabel EL_Fence 0 ord p"

definition DskFsyncLabel :: "Event \<Rightarrow> 64 word \<Rightarrow> 32 word \<Rightarrow> EventLabel" where
  "DskFsyncLabel p i sz = (mkLabel EL_DskFsync 0 Release p)\<lparr>linode := i, linodeSize := sz\<rparr>"

definition DskSyncLabel :: "Event \<Rightarrow> EventLabel" where
  "DskSyncLabel p = mkLabel EL_DskSync 0 Release p"

definition DskPbarrierLabel :: "Event \<Rightarrow> EventLabel" where
  "DskPbarrierLabel p = mkLabel EL_DskPbarrier 0 Release p"

definition SmpFenceLabelLKMM :: "SmpFenceType \<Rightarrow> Event \<Rightarrow> EventLabel" where
  "SmpFenceLabelLKMM t p =
     (mkLabel EL_SmpFenceLKMM 0 (if isStrong t then SequentiallyConsistent else Monotonic) p)\<lparr>lsmp := t\<rparr>"

definition RCUSyncLabelLKMM :: "Event \<Rightarrow> EventLabel" where
  "RCUSyncLabelLKMM p = mkLabel EL_RCUSyncLKMM 0 SequentiallyConsistent p"

definition RCULockLabelLKMM :: "Event \<Rightarrow> EventLabel" where
  "RCULockLabelLKMM p = mkLabel EL_RCULockLKMM 0 Acquire p"

definition RCUUnlockLabelLKMM :: "Event \<Rightarrow> EventLabel" where
  "RCUUnlockLabelLKMM p = mkLabel EL_RCUUnlockLKMM 0 Release p"

text \<open>Retiring, helping and opening.\<close>

definition HpRetireLabel :: "Event \<Rightarrow> SAddr \<Rightarrow> 32 word \<Rightarrow> EventLabel" where
  "HpRetireLabel = FreeLabel EL_HpRetire"

definition HelpingCasLabel :: "AtomicOrdering \<Rightarrow> Event \<Rightarrow> SAddr \<Rightarrow> AAccess \<Rightarrow> SVal \<Rightarrow> SVal \<Rightarrow> EventLabel" where
  "HelpingCasLabel ord p a acc ex sw =
     (mkLabel EL_HelpingCas 0 ord p)\<lparr>laddr := a, laccess := acc, lexpected := ex, lswapVal := sw\<rparr>"

definition DskOpenLabel :: "Event \<Rightarrow> string \<Rightarrow> SVal \<Rightarrow> EventLabel" where
  "DskOpenLabel p n d = (mkLabel EL_DskOpen 0 Release p)\<lparr>lfileName := n, lfd := d\<rparr>"

section \<open>Queries on a label\<close>

definition isNotAtomic :: "EventLabel \<Rightarrow> bool" where
  "isNotAtomic l \<longleftrightarrow> lordering l = NotAtomic"

definition isAtLeastAcquire :: "EventLabel \<Rightarrow> bool" where
  "isAtLeastAcquire l \<longleftrightarrow> lordering l = Acquire \<or> lordering l = AcquireRelease \<or>
     lordering l = SequentiallyConsistent"

definition isAtMostAcquire :: "EventLabel \<Rightarrow> bool" where
  "isAtMostAcquire l \<longleftrightarrow> lordering l = NotAtomic \<or> lordering l = Monotonic \<or> lordering l = Acquire"

definition isAtLeastRelease :: "EventLabel \<Rightarrow> bool" where
  "isAtLeastRelease l \<longleftrightarrow> lordering l = Release \<or> lordering l = AcquireRelease \<or>
     lordering l = SequentiallyConsistent"

definition isAtMostRelease :: "EventLabel \<Rightarrow> bool" where
  "isAtMostRelease l \<longleftrightarrow> lordering l = NotAtomic \<or> lordering l = Monotonic \<or> lordering l = Release"

definition isSC :: "EventLabel \<Rightarrow> bool" where
  "isSC l \<longleftrightarrow> lordering l = SequentiallyConsistent"

definition denotesThreadEnd :: "EventLabel \<Rightarrow> bool" where
  "denotesThreadEnd l \<longleftrightarrow> lkind l = EL_Block \<or> lkind l = EL_ThreadKill \<or> lkind l = EL_ThreadFinish"

definition hasAttr :: "EventLabel \<Rightarrow> WriteAttr \<Rightarrow> bool" where
  "hasAttr l a \<longleftrightarrow> lwattr l AND a \<noteq> 0"

definition setAttr :: "EventLabel \<Rightarrow> WriteAttr \<Rightarrow> EventLabel" where
  "setAttr l a = l\<lparr>lwattr := lwattr l OR a\<rparr>"

definition isFinal :: "EventLabel \<Rightarrow> bool" where "isFinal l \<longleftrightarrow> hasAttr l WA_Final"
definition isLocal :: "EventLabel \<Rightarrow> bool" where "isLocal l \<longleftrightarrow> hasAttr l WA_Local"

definition malloc_contains :: "EventLabel \<Rightarrow> SAddr \<Rightarrow> bool" where
  "malloc_contains l a \<longleftrightarrow> lallocAddr l \<le> a \<and> a < lallocAddr l + ucast (lallocSize l)"

definition free_contains :: "EventLabel \<Rightarrow> SAddr \<Rightarrow> bool" where
  "free_contains l a \<longleftrightarrow> lfreedAddr l \<le> a \<and> a < lfreedAddr l + ucast (lfreedSize l)"

section \<open>The readers of a write\<close>

definition addReader :: "Event \<Rightarrow> EventLabel \<Rightarrow> EventLabel" where
  "addReader r l = (if r \<in> set (lreaders l) then l else l\<lparr>lreaders := lreaders l @ [r]\<rparr>)"

definition removeReader :: "(Event \<Rightarrow> bool) \<Rightarrow> EventLabel \<Rightarrow> EventLabel" where
  "removeReader cond l = l\<lparr>lreaders := filter (\<lambda>r. \<not> cond r) (lreaders l)\<rparr>"

definition setRf :: "Event \<Rightarrow> EventLabel \<Rightarrow> EventLabel" where
  "setRf e l = l\<lparr>lrf := e\<rparr>"

lemma addReader_simps [simp]:
  "set (lreaders (addReader r l)) = insert r (set (lreaders l))"
  "distinct (lreaders (addReader r l)) = distinct (lreaders l)"
  "lpos (addReader r l) = lpos l" "lkind (addReader r l) = lkind l" "lrf (addReader r l) = lrf l"
  "laddr (addReader r l) = laddr l" "lstamp (addReader r l) = lstamp l"
  by (auto simp: addReader_def)

lemma removeReader_simps [simp]:
  "set (lreaders (removeReader c l)) = {r \<in> set (lreaders l). \<not> c r}"
  "distinct (lreaders l) \<Longrightarrow> distinct (lreaders (removeReader c l))"
  "lpos (removeReader c l) = lpos l" "lkind (removeReader c l) = lkind l" "lrf (removeReader c l) = lrf l"
  "laddr (removeReader c l) = laddr l" "lstamp (removeReader c l) = lstamp l"
  by (auto simp: removeReader_def)

text \<open>Reads, writes and fences are different labels; reads and writes are memory accesses.\<close>

lemma isa_disjoint:
  "isa_Write k \<Longrightarrow> \<not> isa_Read k" "isa_Write k \<Longrightarrow> \<not> isa_Fence k" "isa_Read k \<Longrightarrow> \<not> isa_Fence k"
  "isa_Write k \<Longrightarrow> isa_MemAccess k" "isa_Read k \<Longrightarrow> isa_MemAccess k"
  "isa_FaiWrite k \<Longrightarrow> isa_Write k" "isa_CasWrite k \<Longrightarrow> isa_Write k"
  "isa_FaiRead k \<Longrightarrow> isa_Read k" "isa_CasRead k \<Longrightarrow> isa_Read k"
  by (auto simp: isa_defs)

end
