(* ===== verification/GenMC_Graph.thy ===== *)
theory GenMC_Graph
  imports GenMC_Label
begin

text \<open>
  Execution graphs (\<open>src/src/ExecutionGraph.hpp\<close>, \<open>src/src/ExecutionGraph.cpp\<close>): the labels of every thread,
  the stamp counter and the status of the consistency fixpoint. A label is reached through its position, so
  a \<open>const EventLabel *\<close> of the code is the label's value and a write through a label pointer is an update
  of the graph at that position. An access outside the graph and a null dereference are \<open>Undef\<close>.

  The loops that search a thread are \<open>scan\<close> over the indices the loop visits, in its order. Where the code
  builds the position of the label it found from the loop's index, the model reads it from the label; a
  label always carries the position it is stored at (\<open>wf_pos\<close> in \<open>GenMC_GraphOps\<close>).
\<close>

section \<open>State\<close>

datatype FixpointStatus = FS_Stale | FS_InProgress | FS_Done

record ExecutionGraph =
  events :: "EventLabel list list"
  timestamp :: nat
  fixStatus :: FixpointStatus
  recoveryTID :: int

abbreviation numThreads :: "ExecutionGraph \<Rightarrow> nat" where
  "numThreads g \<equiv> length (events g)"

definition getThreadSize :: "ExecutionGraph \<Rightarrow> int \<Rightarrow> int res" where
  "getThreadSize g tid = rbind (vec_get_int (events g) tid) (\<lambda>t. Ok (int (length t)))"

definition isThreadEmpty :: "ExecutionGraph \<Rightarrow> int \<Rightarrow> bool res" where
  "isThreadEmpty g tid = rbind (getThreadSize g tid) (\<lambda>n. Ok (n = 0))"

definition addNewThread :: "ExecutionGraph \<Rightarrow> ExecutionGraph" where
  "addNewThread g = g\<lparr>events := events g @ [[]]\<rparr>"

definition addRecoveryThread :: "ExecutionGraph \<Rightarrow> ExecutionGraph" where
  "addRecoveryThread g = g\<lparr>recoveryTID := int (length (events g)), events := events g @ [[]]\<rparr>"

definition delRecoveryThread :: "ExecutionGraph \<Rightarrow> ExecutionGraph res" where
  "delRecoveryThread g = (if events g = [] then Undef
     else Ok (g\<lparr>events := butlast (events g), recoveryTID := -1\<rparr>))"

definition nextStamp :: "ExecutionGraph \<Rightarrow> nat \<times> ExecutionGraph" where
  "nextStamp g = (timestamp g, g\<lparr>timestamp := timestamp g + 1\<rparr>)"

definition resetStamp :: "ExecutionGraph \<Rightarrow> nat \<Rightarrow> ExecutionGraph" where
  "resetStamp g v = g\<lparr>timestamp := v\<rparr>"

definition setFPStatus :: "FixpointStatus \<Rightarrow> ExecutionGraph \<Rightarrow> ExecutionGraph" where
  "setFPStatus s g = g\<lparr>fixStatus := s\<rparr>"

section \<open>Reading labels\<close>

definition getEventLabel :: "ExecutionGraph \<Rightarrow> Event \<Rightarrow> EventLabel res" where
  "getEventLabel g e = rbind (vec_get_int (events g) (ethread e)) (\<lambda>t. vec_get_int t (eindex e))"

text \<open>The casting getters return a null pointer, here \<open>None\<close>, for labels of another class.\<close>

definition getReadLabel :: "ExecutionGraph \<Rightarrow> Event \<Rightarrow> EventLabel option res" where
  "getReadLabel g e = rbind (getEventLabel g e) (\<lambda>l. Ok (if isa_Read (lkind l) then Some l else None))"

definition getWriteLabel :: "ExecutionGraph \<Rightarrow> Event \<Rightarrow> EventLabel option res" where
  "getWriteLabel g e = rbind (getEventLabel g e) (\<lambda>l. Ok (if isa_Write (lkind l) then Some l else None))"

text \<open>Dereferencing a pointer.\<close>

definition deref :: "'a option \<Rightarrow> 'a res" where
  "deref p = (case p of None \<Rightarrow> Undef | Some x \<Rightarrow> Ok x)"

definition getPreviousLabel :: "ExecutionGraph \<Rightarrow> Event \<Rightarrow> EventLabel option res" where
  "getPreviousLabel g e =
     (if eindex e = 0 then Ok None else rbind (getEventLabel g (prev e)) (\<lambda>l. Ok (Some l)))"

definition getLastThreadEvent :: "ExecutionGraph \<Rightarrow> int \<Rightarrow> Event res" where
  "getLastThreadEvent g t = rbind (getThreadSize g t) (\<lambda>n. Ok (Event t (n - 1)))"

definition getLastThreadLabel :: "ExecutionGraph \<Rightarrow> int \<Rightarrow> EventLabel res" where
  "getLastThreadLabel g t = rbind (getLastThreadEvent g t) (getEventLabel g)"

definition getNextLabel :: "ExecutionGraph \<Rightarrow> Event \<Rightarrow> EventLabel option res" where
  "getNextLabel g e = rbind (getLastThreadEvent g (ethread e)) (\<lambda>le.
     if e = le then Ok None else rbind (getEventLabel g (next_ev e)) (\<lambda>l. Ok (Some l)))"

definition getFirstThreadLabel :: "ExecutionGraph \<Rightarrow> int \<Rightarrow> EventLabel option res" where
  "getFirstThreadLabel g t = rbind (getEventLabel g (Event t 0)) (\<lambda>l.
     Ok (if lkind l = EL_ThreadStart then Some l else None))"

definition graph_contains :: "ExecutionGraph \<Rightarrow> Event \<Rightarrow> bool" where
  "graph_contains g e \<longleftrightarrow> 0 \<le> ethread e \<and> ethread e < int (numThreads g) \<and>
     0 \<le> eindex e \<and> eindex e < int (length (events g ! nat (ethread e)))"

definition containsNonEmpty :: "ExecutionGraph \<Rightarrow> Event \<Rightarrow> bool" where
  "containsNonEmpty g e \<longleftrightarrow> graph_contains g e \<and>
     lkind (events g ! nat (ethread e) ! nat (eindex e)) \<noteq> EL_Empty"

text \<open>The label iterators of \<open>src/src/GraphIterators.hpp\<close> visit the threads in order and skip empty ones.\<close>

definition labels :: "ExecutionGraph \<Rightarrow> EventLabel list" where
  "labels g = concat (events g)"

text \<open>A search loop over some indices of a thread with an early return.\<close>

fun scan :: "ExecutionGraph \<Rightarrow> int \<Rightarrow> int list \<Rightarrow> (EventLabel \<Rightarrow> bool res) \<Rightarrow> EventLabel option res" where
  "scan g t [] P = Ok None"
| "scan g t (j # js) P = rbind (getEventLabel g (Event t j)) (\<lambda>l.
     rbind (P l) (\<lambda>b. if b then Ok (Some l) else scan g t js P))"

definition pos_or_init :: "EventLabel option \<Rightarrow> Event" where
  "pos_or_init r = (case r of None \<Rightarrow> getInitializer | Some l \<Rightarrow> lpos l)"

section \<open>Functions that search the graph\<close>

definition getPreviousNonEmptyLabel :: "ExecutionGraph \<Rightarrow> Event \<Rightarrow> EventLabel res" where
  "getPreviousNonEmptyLabel g e =
     rbind (scan g (ethread e) (rev [1..eindex e - 1]) (\<lambda>l. Ok (lkind l \<noteq> EL_Empty))) (\<lambda>r.
       case r of Some l \<Rightarrow> Ok l | None \<Rightarrow> getEventLabel g (Event (ethread e) 0))"

definition isCSEmptyLAPOR :: "ExecutionGraph \<Rightarrow> EventLabel \<Rightarrow> bool res" where
  "isCSEmptyLAPOR g l = rbind (getThreadSize g (ethread (lpos l))) (\<lambda>n.
     if eindex (lpos l) = n - 1 then Ok True
     else rbind (getEventLabel g (next_ev (lpos l))) (\<lambda>m.
       Ok (lkind m = EL_UnlockLAPOR \<and> llockAddr l = llockAddr m)))"

definition isNonTrivial :: "ExecutionGraph \<Rightarrow> EventLabel \<Rightarrow> bool res" where
  "isNonTrivial g l = (if lkind l = EL_LockLAPOR then isCSEmptyLAPOR g l
     else Ok (isa_MemAccess (lkind l) \<or> isa_Fence (lkind l)))"

definition getPreviousNonTrivial :: "ExecutionGraph \<Rightarrow> Event \<Rightarrow> Event res" where
  "getPreviousNonTrivial g e =
     rbind (scan g (ethread e) (rev [0..eindex e - 1]) (isNonTrivial g)) (\<lambda>r. Ok (pos_or_init r))"

definition getLastThreadStoreAtLoc :: "ExecutionGraph \<Rightarrow> Event \<Rightarrow> SAddr \<Rightarrow> Event res" where
  "getLastThreadStoreAtLoc g e a =
     rbind (scan g (ethread e) (rev [1..eindex e - 1]) (\<lambda>l. Ok (isa_Write (lkind l) \<and> laddr l = a)))
       (\<lambda>r. Ok (pos_or_init r))"

text \<open>Release points: thread creation and end, LAPOR unlocks, release fences, release writes (at the
  location, for the first function).\<close>

definition release_point :: "(EventLabel \<Rightarrow> bool) \<Rightarrow> EventLabel \<Rightarrow> bool" where
  "release_point at l \<longleftrightarrow>
     lkind l = EL_ThreadCreate \<or> lkind l = EL_ThreadFinish \<or> lkind l = EL_UnlockLAPOR
     \<or> (isa_Fence (lkind l) \<and> isAtLeastRelease l)
     \<or> (isa_Write (lkind l) \<and> isAtLeastRelease l \<and> at l)"

definition getLastThreadReleaseAtLoc :: "ExecutionGraph \<Rightarrow> Event \<Rightarrow> SAddr \<Rightarrow> Event res" where
  "getLastThreadReleaseAtLoc g e a =
     rbind (scan g (ethread e) (rev [1..eindex e - 1]) (\<lambda>l. Ok (release_point (\<lambda>l. laddr l = a) l)))
       (\<lambda>r. Ok (case r of None \<Rightarrow> Event (ethread e) 0 | Some l \<Rightarrow> lpos l))"

definition getLastThreadRelease :: "ExecutionGraph \<Rightarrow> Event \<Rightarrow> Event res" where
  "getLastThreadRelease g e =
     rbind (scan g (ethread e) (rev [1..eindex e - 1]) (\<lambda>l. Ok (release_point (\<lambda>l. True) l)))
       (\<lambda>r. Ok (case r of None \<Rightarrow> Event (ethread e) 0 | Some l \<Rightarrow> lpos l))"

definition getThreadAcquiresAndFences :: "ExecutionGraph \<Rightarrow> Event \<Rightarrow> Event list res" where
  "getThreadAcquiresAndFences g e =
     rfold (\<lambda>i r. rbind (getEventLabel g (Event (ethread e) i)) (\<lambda>l.
         Ok (if isa_Fence (lkind l) \<or> isAtLeastAcquire l then r @ [lpos l] else r)))
       [1..eindex e - 1] [Event (ethread e) 0]"

text \<open>The lock-matching loops keep the stack of the locks or unlocks in between.\<close>

fun matching_lock_loop :: "ExecutionGraph \<Rightarrow> int \<Rightarrow> SAddr \<Rightarrow> int list \<Rightarrow> Event list \<Rightarrow> Event res" where
  "matching_lock_loop g t a [] locUnlocks = Ok getInitializer"
| "matching_lock_loop g t a (j # js) locUnlocks =
     rbind (getEventLabel g (Event t j)) (\<lambda>l.
       let lu = (if lkind l = EL_UnlockWrite \<and> laddr l = a then locUnlocks @ [lpos l] else locUnlocks)
       in if (lkind l = EL_LockCasWrite \<or> lkind l = EL_TrylockCasWrite) \<and> laddr l = a
          then if lu = [] then Ok (prev (lpos l)) else matching_lock_loop g t a js (butlast lu)
          else matching_lock_loop g t a js lu)"

definition getMatchingLock :: "ExecutionGraph \<Rightarrow> Event \<Rightarrow> Event res" where
  "getMatchingLock g unlock = rbind (getEventLabel g unlock) (\<lambda>u.
     rbind (BUG_ON (lkind u \<noteq> EL_UnlockWrite)) (\<lambda>_.
       matching_lock_loop g (ethread unlock) (laddr u) (rev [1..eindex unlock - 1]) []))"

fun matching_unlock_loop :: "ExecutionGraph \<Rightarrow> int \<Rightarrow> SAddr \<Rightarrow> int list \<Rightarrow> Event list \<Rightarrow> Event res" where
  "matching_unlock_loop g t a [] locLocks = Ok getInitializer"
| "matching_unlock_loop g t a (j # js) locLocks =
     rbind (getEventLabel g (Event t j)) (\<lambda>l.
       let ll = (if (lkind l = EL_LockCasWrite \<or> lkind l = EL_TrylockCasWrite) \<and> laddr l = a
                 then locLocks @ [prev (lpos l)] else locLocks)
       in if lkind l = EL_UnlockWrite \<and> laddr l = a
          then if ll = [] then Ok (lpos l) else matching_unlock_loop g t a js (butlast ll)
          else matching_unlock_loop g t a js ll)"

definition getMatchingUnlock :: "ExecutionGraph \<Rightarrow> Event \<Rightarrow> Event res" where
  "getMatchingUnlock g lock = rbind (getEventLabel g lock) (\<lambda>l.
     rbind (BUG_ON (\<not> isa_CasRead (lkind l) \<or> (lkind l \<noteq> EL_LockCasRead \<and> lkind l \<noteq> EL_TrylockCasRead))) (\<lambda>_.
       rbind (getThreadSize g (ethread lock)) (\<lambda>n.
         matching_unlock_loop g (ethread lock) (laddr l) [eindex lock + 2..n - 1] [])))"

fun matching_rcu_loop :: "ExecutionGraph \<Rightarrow> int \<Rightarrow> int list \<Rightarrow> Event list \<Rightarrow> Event option res" where
  "matching_rcu_loop g t [] locks = Ok None"
| "matching_rcu_loop g t (j # js) locks =
     rbind (getEventLabel g (Event t j)) (\<lambda>l.
       let ls = (if lkind l = EL_RCULockLKMM then locks @ [lpos l] else locks)
       in if lkind l = EL_RCUUnlockLKMM
          then if ls = [] then Ok (Some (lpos l)) else matching_rcu_loop g t js (butlast ls)
          else matching_rcu_loop g t js ls)"

definition getMatchingRCUUnlockLKMM :: "ExecutionGraph \<Rightarrow> Event \<Rightarrow> Event res" where
  "getMatchingRCUUnlockLKMM g lock = rbind (getEventLabel g lock) (\<lambda>l.
     rbind (BUG_ON (lkind l \<noteq> EL_RCULockLKMM)) (\<lambda>_.
       rbind (getThreadSize g (ethread lock)) (\<lambda>n.
         rbind (matching_rcu_loop g (ethread lock) [eindex lock + 1..n - 1] []) (\<lambda>r.
           case r of Some e \<Rightarrow> Ok e
           | None \<Rightarrow> rbind (getLastThreadEvent g (ethread lock)) (\<lambda>e. Ok (next_ev e))))))"

text \<open>The out-parameter \<open>sc\<close> is returned beside the result: the last SC event the loop met, if any.\<close>

fun speculative_loop :: "ExecutionGraph \<Rightarrow> int \<Rightarrow> SAddr \<Rightarrow> int list \<Rightarrow> Event option \<Rightarrow> (Event \<times> Event option) res" where
  "speculative_loop g t a [] sc = Ok (getInitializer, sc)"
| "speculative_loop g t a (j # js) sc = rbind (getEventLabel g (Event t j)) (\<lambda>l.
     let sc' = (if isSC l then Some (lpos l) else sc)
     in if lkind l = EL_SpeculativeRead \<and> laddr l = a then Ok (lpos l, sc')
        else speculative_loop g t a js sc')"

definition getMatchingSpeculativeRead :: "ExecutionGraph \<Rightarrow> Event \<Rightarrow> (Event \<times> Event option) res" where
  "getMatchingSpeculativeRead g conf = rbind (getReadLabel g conf) (\<lambda>c.
     rbind (BUG_ON (c = None)) (\<lambda>_. rbind (deref c) (\<lambda>l.
       speculative_loop g (ethread conf) (laddr l) (rev [1..eindex conf - 1]) None)))"

fun unmatched_lapor_loop :: "ExecutionGraph \<Rightarrow> int \<Rightarrow> int list \<Rightarrow> SAddr list \<Rightarrow> Event res" where
  "unmatched_lapor_loop g t [] unlocks = Ok getInitializer"
| "unmatched_lapor_loop g t (j # js) unlocks = rbind (getEventLabel g (Event t j)) (\<lambda>l.
     if lkind l = EL_LockLAPOR \<and> llockAddr l \<notin> set unlocks then Ok (lpos l)
     else unmatched_lapor_loop g t js
       (if lkind l = EL_UnlockLAPOR then unlocks @ [llockAddr l] else unlocks))"

definition getLastThreadUnmatchedLockLAPOR :: "ExecutionGraph \<Rightarrow> Event \<Rightarrow> Event res" where
  "getLastThreadUnmatchedLockLAPOR g e = unmatched_lapor_loop g (ethread e) (rev [0..eindex e]) []"

fun matching_lapor_loop :: "ExecutionGraph \<Rightarrow> int \<Rightarrow> SAddr \<Rightarrow> int list \<Rightarrow> Event list \<Rightarrow> Event res" where
  "matching_lapor_loop g t a [] locLocks = Ok getInitializer"
| "matching_lapor_loop g t a (j # js) locLocks =
     rbind (getEventLabel g (Event t j)) (\<lambda>l.
       let ll = (if lkind l = EL_LockLAPOR \<and> llockAddr l = a then locLocks @ [lpos l] else locLocks)
       in if lkind l = EL_UnlockLAPOR \<and> llockAddr l = a
          then if ll = [] then Ok (lpos l) else matching_lapor_loop g t a js (butlast ll)
          else matching_lapor_loop g t a js ll)"

definition getMatchingUnlockLAPOR :: "ExecutionGraph \<Rightarrow> Event \<Rightarrow> Event res" where
  "getMatchingUnlockLAPOR g lock = rbind (getEventLabel g lock) (\<lambda>l.
     rbind (BUG_ON (lkind l \<noteq> EL_LockLAPOR)) (\<lambda>_.
       rbind (getThreadSize g (ethread lock)) (\<lambda>n.
         matching_lapor_loop g (ethread lock) (llockAddr l) [eindex lock + 1..n - 1] [])))"

definition getLastThreadLockAtLocLAPOR :: "ExecutionGraph \<Rightarrow> Event \<Rightarrow> SAddr \<Rightarrow> Event res" where
  "getLastThreadLockAtLocLAPOR g e loc =
     rbind (scan g (ethread e) (rev [0..eindex e]) (\<lambda>l. Ok (lkind l = EL_LockLAPOR \<and> llockAddr l = loc)))
       (\<lambda>r. Ok (pos_or_init r))"

definition getLastThreadUnlockAtLocLAPOR :: "ExecutionGraph \<Rightarrow> Event \<Rightarrow> SAddr \<Rightarrow> Event res" where
  "getLastThreadUnlockAtLocLAPOR g e loc =
     rbind (scan g (ethread e) (rev [0..eindex e]) (\<lambda>l. Ok (lkind l = EL_UnlockLAPOR \<and> llockAddr l = loc)))
       (\<lambda>r. Ok (pos_or_init r))"

definition getMalloc :: "ExecutionGraph \<Rightarrow> SAddr \<Rightarrow> Event" where
  "getMalloc g a = pos_or_init (List.find (\<lambda>l. lkind l = EL_Malloc \<and> malloc_contains l a) (labels g))"

definition getMallocCounterpart :: "ExecutionGraph \<Rightarrow> EventLabel \<Rightarrow> Event res" where
  "getMallocCounterpart g f = rbind (getEventLabel g (prev (lpos f))) (\<lambda>_.
     Ok (pos_or_init (List.find (\<lambda>l. lkind l = EL_Malloc \<and> lallocAddr l = lfreedAddr f) (labels g))))"

section \<open>Read-modify-writes\<close>

definition isRMWStore :: "EventLabel \<Rightarrow> bool" where
  "isRMWStore l \<longleftrightarrow> isa_FaiWrite (lkind l) \<or> isa_CasWrite (lkind l)"

definition isRMWLoad :: "ExecutionGraph \<Rightarrow> EventLabel \<Rightarrow> bool res" where
  "isRMWLoad g l =
     (if \<not> isa_CasRead (lkind l) \<and> \<not> isa_FaiRead (lkind l) then Ok False
      else rbind (getThreadSize g (ethread (lpos l))) (\<lambda>n.
        if eindex (lpos l) = n - 1 then Ok False
        else rbind (getEventLabel g (Event (ethread (lpos l)) (eindex (lpos l) + 1))) (\<lambda>m.
          Ok (isa_MemAccess (lkind m) \<and> isRMWStore m \<and> laddr m = laddr l))))"

text \<open>\<open>std::min_element\<close> by stamp: the first of the smallest.\<close>

fun min_stamp_loop :: "ExecutionGraph \<Rightarrow> Event \<Rightarrow> nat \<Rightarrow> Event list \<Rightarrow> Event res" where
  "min_stamp_loop g m s [] = Ok m"
| "min_stamp_loop g m s (e # es) = rbind (getEventLabel g e) (\<lambda>l.
     if lstamp l < s then min_stamp_loop g e (lstamp l) es else min_stamp_loop g m s es)"

definition getMinimumStampEvent :: "ExecutionGraph \<Rightarrow> Event list \<Rightarrow> Event res" where
  "getMinimumStampEvent g es = (case es of [] \<Rightarrow> Ok getInitializer
     | e # es' \<Rightarrow> rbind (getEventLabel g e) (\<lambda>l. min_stamp_loop g e (lstamp l) es'))"

definition getPendingRMW :: "ExecutionGraph \<Rightarrow> EventLabel \<Rightarrow> Event res" where
  "getPendingRMW g s =
     (if \<not> isRMWStore s then Ok getInitializer
      else rbind (getPreviousLabel g (lpos s)) (\<lambda>pl. rbind (deref pl) (\<lambda>p.
        if \<not> isa_Read (lkind p) then Undef
        else if \<not> isInitializer (lrf p)
        then rbind (getEventLabel g (lrf p)) (\<lambda>w. rbind (BUG_ON (\<not> isa_Write (lkind w))) (\<lambda>_.
               rbind (rfold (\<lambda>r acc. rbind (getEventLabel g r) (\<lambda>l. rbind (isRMWLoad g l) (\<lambda>b.
                   Ok (if b \<and> r \<noteq> lpos p then acc @ [r] else acc)))) (lreaders w) [])
                 (getMinimumStampEvent g)))
        else rbind (rfold (\<lambda>l acc. if isa_Read (lkind l) \<and> lrf l = lrf p \<and> laddr l = laddr p \<and> lpos l \<noteq> lpos p
               then rbind (isRMWLoad g l) (\<lambda>b. Ok (if b then acc @ [lpos l] else acc)) else Ok acc) (labels g) [])
             (getMinimumStampEvent g))))"

definition violatesAtomicity :: "ExecutionGraph \<Rightarrow> EventLabel \<Rightarrow> bool res" where
  "violatesAtomicity g s = (if isRMWStore s
     then rbind (getPendingRMW g s) (\<lambda>e. Ok (\<not> isInitializer e)) else Ok False)"

definition getPorfBefore :: "ExecutionGraph \<Rightarrow> Event \<Rightarrow> View res" where
  "getPorfBefore g e = rbind (getEventLabel g e) (\<lambda>l. Ok (porfView l))"

definition getPPoRfBefore :: "ExecutionGraph \<Rightarrow> Event \<Rightarrow> DepView res" where
  "getPPoRfBefore g e = rbind (getEventLabel g e) (\<lambda>l. Ok (pporfView l))"

definition getHbPoBefore :: "ExecutionGraph \<Rightarrow> Event \<Rightarrow> View res" where
  "getHbPoBefore g e = rbind (getPreviousNonEmptyLabel g e) (\<lambda>l. Ok (hbView l))"

text \<open>The labels of thread \<open>i\<close> beyond a view, in order.\<close>

definition labels_after :: "ExecutionGraph \<Rightarrow> View \<Rightarrow> EventLabel list" where
  "labels_after g v =
     concat (map (\<lambda>i. drop (nat (view_at v i + 1)) (events g ! i)) [0..<numThreads g])"

definition getRevisitable :: "ExecutionGraph \<Rightarrow> EventLabel \<Rightarrow> Event list res" where
  "getRevisitable g s =
     rbind (getPorfBefore g (lpos s)) (\<lambda>before.
     rbind (getPendingRMW g s) (\<lambda>pend.
       let loads = map lpos (filter (\<lambda>l. isa_Read (lkind l) \<and> laddr l = laddr s \<and> lrevisitable l \<and> lmaximal l)
                     (labels_after g before))
       in if isInitializer pend then Ok loads
          else rbind (getEventLabel g pend) (\<lambda>c.
            rfold (\<lambda>e acc. rbind (getEventLabel g e) (\<lambda>l.
                Ok (if lstamp l > lstamp c then acc else acc @ [e]))) loads [])))"

definition getInitRfsAtLoc :: "ExecutionGraph \<Rightarrow> SAddr \<Rightarrow> Event list" where
  "getInitRfsAtLoc g a =
     map lpos (filter (\<lambda>l. isa_Read (lkind l) \<and> isInitializer (lrf l) \<and> laddr l = a) (labels g))"

end
