(* ===== verification/GenMC_GraphOps.thy ===== *)
theory GenMC_GraphOps
  imports GenMC_Graph
begin

text \<open>
  The operations of \<open>src/src/ExecutionGraph.cpp\<close> that change a graph: adding labels, the bookkeeping of
  data-structure calls, removing events, changing reads-from edges, updating joins, cutting to a stamp; the
  views of a stamp; and the debug check \<open>validate\<close>. The invariant \<open>rf_wf\<close> ties reads-from edges to the
  readers lists of the writes.
\<close>

section \<open>Writing labels\<close>

definition modLabel :: "ExecutionGraph \<Rightarrow> Event \<Rightarrow> (EventLabel \<Rightarrow> EventLabel) \<Rightarrow> ExecutionGraph res" where
  "modLabel g e f = rbind (getEventLabel g e) (\<lambda>l.
     let t = nat (ethread e); i = nat (eindex e)
     in Ok (g\<lparr>events := (events g)[t := (events g ! t)[i := f l]]\<rparr>))"

definition addOtherLabelToGraph :: "ExecutionGraph \<Rightarrow> EventLabel \<Rightarrow> (ExecutionGraph \<times> EventLabel) res" where
  "addOtherLabelToGraph g lab0 =
     (let g0 = setFPStatus FS_Stale g;
          (g1, lab) = (if lstamp lab0 = 0 \<and> \<not> isInitializer (lpos lab0)
                       then (snd (nextStamp g0), lab0\<lparr>lstamp := fst (nextStamp g0)\<rparr>) else (g0, lab0));
          pos = lpos lab
      in rbind (vec_get_int (events g1) (ethread pos)) (\<lambda>thr.
           let thr' = (if 0 \<le> eindex pos \<and> eindex pos < int (length thr)
                       then thr[nat (eindex pos) := lab] else thr @ [lab])
           in rbind (BUG_ON (eindex pos < 0 \<or> eindex pos > int (length thr'))) (\<lambda>_.
                let g2 = g1\<lparr>events := (events g1)[nat (ethread pos) := thr']\<rparr>
                in rbind (getEventLabel g2 pos) (\<lambda>l. Ok (g2, l)))))"

definition graph_init :: ExecutionGraph where
  "graph_init = \<lparr>events = [[ThreadStartLabel 0 Acquire (Event 0 0) getInitializer (-1)]],
     timestamp = 1, fixStatus = FS_Stale, recoveryTID = -1\<rparr>"

definition addReadLabelToGraph :: "ExecutionGraph \<Rightarrow> EventLabel \<Rightarrow> (ExecutionGraph \<times> EventLabel) res" where
  "addReadLabelToGraph g l =
     rbind (if isBottom (lrf l) then Ok g
            else rbind (getEventLabel g (lrf l)) (\<lambda>w.
              if isa_Write (lkind w) then modLabel g (lrf l) (addReader (lpos l)) else Ok g))
       (\<lambda>g'. addOtherLabelToGraph g' l)"

section \<open>Bookkeeping of data-structure calls\<close>

definition previousEventMethod :: "ExecutionGraph \<Rightarrow> Event \<Rightarrow> FunctionName res" where
  "previousEventMethod g e =
     (if eindex e < 1 \<or> (ethread e = 0 \<and> eindex e < 2) then Ok FN_NON
      else rbind (getEventLabel g (Event (ethread e) (eindex e - 1))) (\<lambda>p.
        Ok (if lkind p = EL_FunEnd then FN_NON else lmethod p)))"

definition previousEventInvocation :: "ExecutionGraph \<Rightarrow> Event \<Rightarrow> 32 word res" where
  "previousEventInvocation g e =
     (if eindex e < 1 \<or> (ethread e = 0 \<and> eindex e < 2) then Ok 0
      else rbind (getEventLabel g (Event (ethread e) (eindex e - 1))) (\<lambda>p. Ok (linvocation p)))"

text \<open>The labels the loops over all threads visit: the last first, without the thread's first label.\<close>

definition labels_rev :: "ExecutionGraph \<Rightarrow> EventLabel list" where
  "labels_rev g = concat (map (\<lambda>t. rev (tl t)) (events g))"

definition getFunInvocationCount :: "ExecutionGraph \<Rightarrow> FunctionName \<Rightarrow> 32 word" where
  "getFunInvocationCount g n =
     fold (\<lambda>l count. if lkind l = EL_FunStart \<and> n = lmethod l
           then if linvocation l \<ge> count then linvocation l + 1 else count else count)
       (labels_rev g) 0"

definition getLastFunEvent :: "ExecutionGraph \<Rightarrow> FunctionName \<Rightarrow> 32 word \<Rightarrow> EventLabel res" where
  "getLastFunEvent g n k =
     (case List.find (\<lambda>l. n = lmethod l \<and> linvocation l = k) (labels_rev g) of
        Some l \<Rightarrow> Ok l | None \<Rightarrow> getEventLabel g (Event 0 0))"

section \<open>Removing events\<close>

text \<open>\<open>resizeThread\<close> cuts a thread at the position (it is never called with a longer length).\<close>

definition resizeThread :: "ExecutionGraph \<Rightarrow> Event \<Rightarrow> ExecutionGraph res" where
  "resizeThread g p = rbind (vec_get_int (events g) (ethread p)) (\<lambda>thr.
     if 0 \<le> eindex p \<and> eindex p \<le> int (length thr)
     then Ok (g\<lparr>events := (events g)[nat (ethread p) := take (nat (eindex p)) thr]\<rparr>) else Undef)"

definition remove_ev :: "ExecutionGraph \<Rightarrow> Event \<Rightarrow> ExecutionGraph res" where
  "remove_ev g e =
     rbind (getEventLabel g e) (\<lambda>lab.
     let g0 = setFPStatus FS_Stale g in
     rbind (if isa_Read (lkind lab)
            then rbind (getEventLabel g0 (lrf lab)) (\<lambda>w.
              if isa_Write (lkind w) then modLabel g0 (lrf lab) (removeReader (\<lambda>r. r = lpos lab)) else Ok g0)
            else Ok g0) (\<lambda>g1.
     rbind (getLastThreadEvent g1 (ethread (lpos lab))) (\<lambda>last.
     rbind (if lpos lab \<noteq> last
            then rbind (addOtherLabelToGraph g1 (EmptyLabel (lpos lab))) (\<lambda>p. Ok (fst p)) else Ok g1) (\<lambda>g2.
     rbind (getThreadSize g2 (ethread (lpos lab))) (\<lambda>n.
     rbind (BUG_ON (eindex (lpos lab) \<ge> n)) (\<lambda>_. resizeThread g2 (lpos lab)))))))"

section \<open>Changing edges\<close>

definition changeRf :: "ExecutionGraph \<Rightarrow> Event \<Rightarrow> Event \<Rightarrow> ExecutionGraph res" where
  "changeRf g read store =
     (let g0 = setFPStatus FS_Stale g in
      rbind (getEventLabel g0 read) (\<lambda>rLab.
      rbind (BUG_ON (\<not> isa_Read (lkind rLab))) (\<lambda>_.
      let oldRf = lrf rLab in
      rbind (modLabel g0 read (setRf store)) (\<lambda>g1.
      rbind (if eindex oldRf > 0
             then rbind (getThreadSize g1 (ethread oldRf)) (\<lambda>n.
               if eindex oldRf < n
               then rbind (getEventLabel g1 oldRf) (\<lambda>labRef.
                 if isa_Write (lkind labRef)
                 then modLabel g1 oldRf (removeReader (\<lambda>r. r = lpos rLab)) else Ok g1)
               else Ok g1)
             else Ok g1) (\<lambda>g2.
      if isBottom store then Ok g2
      else rbind (getEventLabel g2 store) (\<lambda>rfLab.
        if isa_Write (lkind rfLab) then modLabel g2 store (addReader (lpos rLab)) else Ok g2))))))"

definition updateJoin :: "ExecutionGraph \<Rightarrow> Event \<Rightarrow> Event \<Rightarrow> (ExecutionGraph \<times> bool) res" where
  "updateJoin g join childLast =
     (let g0 = setFPStatus FS_Stale g in
      rbind (getEventLabel g0 join) (\<lambda>j.
      rbind (BUG_ON (lkind j \<noteq> EL_ThreadJoin)) (\<lambda>_.
      rbind (getEventLabel g0 childLast) (\<lambda>f.
        if lkind f \<noteq> EL_ThreadFinish then Ok (g0, False)
        else rbind (modLabel g0 join (\<lambda>l. l\<lparr>lchildLast := childLast\<rparr>)) (\<lambda>g1.
          rbind (modLabel g1 childLast (\<lambda>l. l\<lparr>lparentJoin := lpos j\<rparr>)) (\<lambda>g2. Ok (g2, True)))))))"

definition resetJoin :: "ExecutionGraph \<Rightarrow> Event \<Rightarrow> ExecutionGraph res" where
  "resetJoin g join =
     (let g0 = setFPStatus FS_Stale g in
      rbind (getEventLabel g0 join) (\<lambda>j.
        if lkind j \<noteq> EL_ThreadJoin then Ok g0
        else modLabel g0 join (\<lambda>l. l\<lparr>lchildLast := getInitializer\<rparr>)))"

section \<open>Views of a stamp\<close>

text \<open>The last label of a thread, from the end, whose stamp is not larger.\<close>

definition last_stamped :: "EventLabel list \<Rightarrow> nat \<Rightarrow> nat option" where
  "last_stamped thr st = List.find (\<lambda>j. lstamp (thr ! j) \<le> st) (rev [0..<length thr])"

definition getViewFromStamp :: "ExecutionGraph \<Rightarrow> nat \<Rightarrow> View" where
  "getViewFromStamp g st =
     fold (\<lambda>i v. case last_stamped (events g ! i) st of
        Some j \<Rightarrow> (view_grow v i)[i := int j] | None \<Rightarrow> v) [0..<numThreads g] []"

text \<open>The loop body of \<open>getDepViewFromStamp\<close>, on the view and \<open>prevPos\<close>.\<close>

definition depview_stamp_step :: "ExecutionGraph \<Rightarrow> nat \<Rightarrow> nat \<Rightarrow> nat \<Rightarrow> DepView \<times> int \<Rightarrow> (DepView \<times> int) res" where
  "depview_stamp_step g st i j p =
     (if lstamp (events g ! i ! j) \<le> st
      then rbind (dv_set (fst p) (int i) (int j)) (\<lambda>d.
        rbind (dv_addHolesInRange d (Event (int i) (snd p + 1)) (int j)) (\<lambda>d'. Ok (d', int j)))
      else Ok p)"

definition getDepViewFromStamp :: "ExecutionGraph \<Rightarrow> nat \<Rightarrow> DepView res" where
  "getDepViewFromStamp g st =
     rfold (\<lambda>i d. rbind (rfold (depview_stamp_step g st i) [1..<length (events g ! i)] (d, 0))
        (\<lambda>p. Ok (fst p))) [0..<numThreads g] dv_new"

definition getPredsView :: "ExecutionGraph \<Rightarrow> Event \<Rightarrow> View res" where
  "getPredsView g e = rbind (getEventLabel g e) (\<lambda>l. Ok (getViewFromStamp g (lstamp l)))"

section \<open>Cutting\<close>

text \<open>What \<open>cutToStamp\<close> does to the labels that stay: joins on a removed end are reset, readers outside the
  view are dropped. The calculators are informed by their own \<open>removeAfter\<close>. Erasing from beyond the end of
  a thread, which happens for a thread without labels, is \<open>Undef\<close>.\<close>

definition cut_label :: "View \<Rightarrow> EventLabel list list \<Rightarrow> EventLabel \<Rightarrow> EventLabel res" where
  "cut_label preds evs l =
     (if lkind l = EL_ThreadJoin
      then rbind (vec_get_int evs (ethread (lchildLast l))) (\<lambda>t.
        Ok (if eindex (lchildLast l) \<ge> int (length t) then l\<lparr>lchildLast := getInitializer\<rparr> else l))
      else if isa_Write (lkind l)
      then Ok (removeReader (\<lambda>r. view_contains preds r \<noteq> Ok True) l)
      else Ok l)"

fun rmap :: "('a \<Rightarrow> 'b res) \<Rightarrow> 'a list \<Rightarrow> 'b list res" where
  "rmap f [] = Ok []"
| "rmap f (x # xs) = rbind (f x) (\<lambda>y. rbind (rmap f xs) (\<lambda>ys. Ok (y # ys)))"

definition cutToStamp :: "ExecutionGraph \<Rightarrow> nat \<Rightarrow> ExecutionGraph res" where
  "cutToStamp g st =
     (let g0 = setFPStatus FS_Stale g;
          preds = getViewFromStamp g0 st;
          evs = map (\<lambda>i. take (nat (view_at preds i + 1)) (events g0 ! i)) [0..<numThreads g0]
      in if \<exists>i\<in>set [0..<numThreads g0]. int (length (events g0 ! i)) < view_at preds i + 1 then Undef
         else rbind (rmap (rmap (cut_label preds evs)) evs) (\<lambda>evs'. Ok (g0\<lparr>events := evs'\<rparr>)))"

section \<open>Queries over views\<close>

definition isHbOptRfBefore :: "ExecutionGraph \<Rightarrow> Event \<Rightarrow> Event \<Rightarrow> bool res" where
  "isHbOptRfBefore g e write = rbind (getEventLabel g write) (\<lambda>s.
     rbind (BUG_ON (\<not> isa_Write (lkind s))) (\<lambda>_.
     rbind (view_contains (hbView s) e) (\<lambda>b.
       if b then Ok True
       else rfold (\<lambda>r found. if found then Ok True
              else rbind (getEventLabel g r) (\<lambda>l. view_contains (hbView l) e)) (lreaders s) False)))"

definition isWriteRfBefore :: "ExecutionGraph \<Rightarrow> Event \<Rightarrow> Event \<Rightarrow> bool res" where
  "isWriteRfBefore g a b = rbind (getEventLabel g b) (\<lambda>bl. let before = hbView bl in
     rbind (view_contains before a) (\<lambda>c.
       if c then Ok True
       else rbind (getEventLabel g a) (\<lambda>w. rbind (BUG_ON (\<not> isa_Write (lkind w))) (\<lambda>_.
         rfold (\<lambda>r found. if found then Ok True else view_contains before r) (lreaders w) False))))"

definition isStoreReadByExclusiveRead :: "ExecutionGraph \<Rightarrow> Event \<Rightarrow> SAddr \<Rightarrow> bool res" where
  "isStoreReadByExclusiveRead g store ptr =
     rfold (\<lambda>l found. if found then Ok True
       else rbind (isRMWLoad g l) (\<lambda>b. Ok (b \<and> lrf l = store \<and> laddr l = ptr))) (labels g) False"

definition isStoreReadBySettledRMW :: "ExecutionGraph \<Rightarrow> Event \<Rightarrow> SAddr \<Rightarrow> (Event \<Rightarrow> bool res) \<Rightarrow> bool res" where
  "isStoreReadBySettledRMW g store ptr prefix =
     rfold (\<lambda>l found. if found then Ok True
       else rbind (isRMWLoad g l) (\<lambda>b.
         if \<not> b \<or> lrf l \<noteq> store \<or> laddr l \<noteq> ptr then Ok False
         else rbind (getNextLabel g (lpos l)) (\<lambda>nl. rbind (deref nl) (\<lambda>w.
           if \<not> lrevisitable l \<and> \<not> hasAttr w WA_RevBlocker then Ok True
           else prefix (lpos l))))) (labels g) False"

definition getSCs :: "ExecutionGraph \<Rightarrow> (Event list \<times> Event list) res" where
  "getSCs g = rfold (\<lambda>l p. rbind (if isSC l then isRMWLoad g l else Ok True) (\<lambda>b.
       Ok (if isSC l \<and> \<not> b then fst p @ [lpos l] else fst p,
           if isSC l \<and> isa_Fence (lkind l) then snd p @ [lpos l] else snd p))) (labels g) ([], [])"

section \<open>The debug check\<close>

definition validate_read :: "ExecutionGraph \<Rightarrow> EventLabel \<Rightarrow> unit res" where
  "validate_read g l =
     (if \<not> isa_Read (lkind l) \<or> isBottom (lrf l) then Ok ()
      else rbind (BUG_ON (\<not> containsNonEmpty g (lrf l))) (\<lambda>_.
        rbind (getEventLabel g (lrf l)) (\<lambda>w.
          BUG_ON (isa_Write (lkind w) \<and> lpos l \<notin> set (lreaders w)))))"

definition validate_write :: "ExecutionGraph \<Rightarrow> EventLabel \<Rightarrow> unit res" where
  "validate_write g l =
     (if \<not> isa_Write (lkind l) then Ok ()
      else rbind (if isRMWStore l
             then rbind (rfold (\<lambda>r n. rbind (getEventLabel g r) (\<lambda>rl. rbind (isRMWLoad g rl) (\<lambda>b.
                    Ok (if b then Suc n else n)))) (lreaders l) 0) (\<lambda>n. BUG_ON (n > 1)) else Ok ()) (\<lambda>_.
        rfold (\<lambda>r _. rbind (BUG_ON (\<not> containsNonEmpty g r)) (\<lambda>_.
            rbind (getEventLabel g r) (\<lambda>rl.
              BUG_ON (\<not> isa_Read (lkind rl) \<or> lrf rl \<noteq> lpos l)))) (lreaders l) ()))"

definition validate :: "ExecutionGraph \<Rightarrow> unit res" where
  "validate g = rfold (\<lambda>l _. rbind (validate_read g l) (\<lambda>_. validate_write g l)) (labels g) ()"

section \<open>Reading after writing\<close>

definition lab :: "ExecutionGraph \<Rightarrow> Event \<Rightarrow> EventLabel" where
  "lab g e = events g ! nat (ethread e) ! nat (eindex e)"

definition upd :: "ExecutionGraph \<Rightarrow> Event \<Rightarrow> (EventLabel \<Rightarrow> EventLabel) \<Rightarrow> ExecutionGraph" where
  "upd g e f = g\<lparr>events := (events g)[nat (ethread e) :=
     (events g ! nat (ethread e))[nat (eindex e) := f (lab g e)]]\<rparr>"

lemma getEventLabel_Ok [simp]: "graph_contains g e \<Longrightarrow> getEventLabel g e = Ok (lab g e)"
  by (auto simp: getEventLabel_def graph_contains_def lab_def vec_get_int_def vec_get_def)

lemma getEventLabel_Ok_iff: "getEventLabel g e = Ok l \<longleftrightarrow> graph_contains g e \<and> l = lab g e"
  by (auto simp: getEventLabel_def graph_contains_def lab_def res_simps)

lemma modLabel_Ok [simp]: "graph_contains g e \<Longrightarrow> modLabel g e f = Ok (upd g e f)"
  by (simp add: modLabel_def upd_def Let_def)

lemma contains_setFPStatus [simp]: "graph_contains (setFPStatus s g) e = graph_contains g e"
  "lab (setFPStatus s g) e = lab g e" "events (setFPStatus s g) = events g"
  by (simp_all add: graph_contains_def lab_def setFPStatus_def)

lemma contains_upd [simp]: "graph_contains (upd g e f) e' = graph_contains g e'"
  by (cases "nat (ethread e) = nat (ethread e')"; cases "nat (ethread e) < numThreads g")
    (auto simp: graph_contains_def upd_def)

lemma lab_upd:
  assumes "graph_contains g e" and "graph_contains g e'"
  shows "lab (upd g e f) e' = (if e' = e then f (lab g e) else lab g e')"
  using assms by (auto simp: graph_contains_def upd_def lab_def nth_list_update event_eq_iff nat_eq_iff)

lemma getThreadSize_contains:
  "graph_contains g e \<longleftrightarrow> 0 \<le> eindex e \<and> (\<exists>n. getThreadSize g (ethread e) = Ok n \<and> eindex e < n)"
  by (auto simp: graph_contains_def getThreadSize_def res_simps nat_less_iff)

lemma in_labels_iff: "l \<in> set (labels g) \<longleftrightarrow> (\<exists>e. graph_contains g e \<and> l = lab g e)"
proof
  assume "l \<in> set (labels g)"
  then obtain t i where "t < numThreads g" "i < length (events g ! t)" "l = events g ! t ! i"
    by (auto simp: labels_def in_set_conv_nth)
  then show "\<exists>e. graph_contains g e \<and> l = lab g e"
    by (intro exI [of _ "Event (int t) (int i)"]) (simp add: graph_contains_def lab_def)
next
  assume "\<exists>e. graph_contains g e \<and> l = lab g e"
  then obtain e where e: "graph_contains g e" "l = lab g e" by blast
  then have "events g ! nat (ethread e) \<in> set (events g)" "l \<in> set (events g ! nat (ethread e))"
    by (auto simp: graph_contains_def lab_def intro!: nth_mem)
  then show "l \<in> set (labels g)" by (auto simp: labels_def)
qed

section \<open>The reads-from invariant\<close>

text \<open>Every label knows its position; a read is in the list of the write it reads from, and the readers of a
  write are distinct reads of the graph that read from it. A thread never starts with a write.\<close>

definition wf_pos :: "ExecutionGraph \<Rightarrow> bool" where
  "wf_pos g \<longleftrightarrow> (\<forall>t\<in>set [0..<numThreads g]. \<forall>i\<in>set [0..<length (events g ! t)].
     lpos (events g ! t ! i) = Event (int t) (int i))"

definition rf_ok :: "ExecutionGraph \<Rightarrow> EventLabel \<Rightarrow> bool" where
  "rf_ok g l \<longleftrightarrow> (isa_Read (lkind l) \<longrightarrow> isBottom (lrf l) \<or>
     (graph_contains g (lrf l) \<and> (isa_Write (lkind (lab g (lrf l))) \<longrightarrow> lpos l \<in> set (lreaders (lab g (lrf l))))))"

definition readers_ok :: "ExecutionGraph \<Rightarrow> EventLabel \<Rightarrow> bool" where
  "readers_ok g l \<longleftrightarrow> (isa_Write (lkind l) \<longrightarrow> 0 < eindex (lpos l) \<and> distinct (lreaders l) \<and>
     (\<forall>r\<in>set (lreaders l). graph_contains g r \<and> isa_Read (lkind (lab g r)) \<and> lrf (lab g r) = lpos l))"

definition rf_wf :: "ExecutionGraph \<Rightarrow> bool" where
  "rf_wf g \<longleftrightarrow> wf_pos g \<and> (\<forall>l\<in>set (labels g). rf_ok g l \<and> readers_ok g l)"

lemma wf_pos_iff: "wf_pos g \<longleftrightarrow> (\<forall>e. graph_contains g e \<longrightarrow> lpos (lab g e) = e)"
proof
  assume "wf_pos g"
  then show "\<forall>e. graph_contains g e \<longrightarrow> lpos (lab g e) = e"
    by (auto simp: wf_pos_def graph_contains_def lab_def event_eq_iff nat_less_iff)
next
  assume R: "\<forall>e. graph_contains g e \<longrightarrow> lpos (lab g e) = e"
  have "lpos (events g ! t ! i) = Event (int t) (int i)" if "t < numThreads g" "i < length (events g ! t)" for t i
    using R [rule_format, of "Event (int t) (int i)"] that by (simp add: graph_contains_def lab_def)
  then show "wf_pos g" by (simp add: wf_pos_def)
qed

lemma rf_wf_iff:
  "rf_wf g \<longleftrightarrow> (\<forall>e. graph_contains g e \<longrightarrow> lpos (lab g e) = e \<and> rf_ok g (lab g e) \<and> readers_ok g (lab g e))"
  unfolding rf_wf_def wf_pos_iff Ball_def in_labels_iff by blast

lemma rf_wfD:
  assumes "rf_wf g" and "graph_contains g e"
  shows "lpos (lab g e) = e"
    and "isa_Read (lkind (lab g e)) \<Longrightarrow> \<not> isBottom (lrf (lab g e)) \<Longrightarrow> graph_contains g (lrf (lab g e))"
    and "isa_Read (lkind (lab g e)) \<Longrightarrow> \<not> isBottom (lrf (lab g e)) \<Longrightarrow>
      isa_Write (lkind (lab g (lrf (lab g e)))) \<Longrightarrow> e \<in> set (lreaders (lab g (lrf (lab g e))))"
    and "isa_Write (lkind (lab g e)) \<Longrightarrow> distinct (lreaders (lab g e))"
    and "isa_Write (lkind (lab g e)) \<Longrightarrow> r \<in> set (lreaders (lab g e)) \<Longrightarrow>
      graph_contains g r \<and> isa_Read (lkind (lab g r)) \<and> lrf (lab g r) = e"
    and "isa_Write (lkind (lab g e)) \<Longrightarrow> 0 < eindex e"
  using assms unfolding rf_wf_iff rf_ok_def readers_ok_def by metis+

text \<open>The effect of \<open>changeRf\<close> on every label.\<close>

definition changed_label :: "ExecutionGraph \<Rightarrow> Event \<Rightarrow> Event \<Rightarrow> Event \<Rightarrow> EventLabel" where
  "changed_label g read store e =
     (let l = lab g e;
          l1 = (if e = read then setRf store l else l);
          l2 = (if e = lrf (lab g read) \<and> eindex e > 0 \<and> isa_Write (lkind l)
                then removeReader (\<lambda>r. r = read) l1 else l1)
      in if e = store \<and> isa_Write (lkind l) then addReader read l2 else l2)"

lemma lkind_setRf [simp]: "lkind (setRf e l) = lkind l" "lpos (setRf e l) = lpos l"
  "lreaders (setRf e l) = lreaders l" "lrf (setRf e l) = e"
  by (simp_all add: setRf_def)

lemma changeRf_effect:
  assumes wf: "rf_wf g" and r: "graph_contains g read" "isa_Read (lkind (lab g read))"
    and s: "isBottom store \<or> graph_contains g store"
  shows "\<exists>g'. changeRf g read store = Ok g' \<and> (\<forall>e. graph_contains g' e = graph_contains g e)
     \<and> (\<forall>e. graph_contains g e \<longrightarrow> lab g' e = changed_label g read store e)"
proof -
  let ?o = "lrf (lab g read)"
  define g1 where "g1 = upd (setFPStatus FS_Stale g) read (setRf store)"
  define g2 where "g2 = (if eindex ?o > 0 \<and> isa_Write (lkind (lab g ?o))
             then upd g1 ?o (removeReader (\<lambda>r. r = read)) else g1)"
  define g3 where "g3 = (if \<not> isBottom store \<and> isa_Write (lkind (lab g store)) then upd g2 store (addReader read) else g2)"
  have p: "lpos (lab g read) = read" using rf_wfD(1) [OF wf r(1)] .
  have o: "graph_contains g ?o" if "eindex ?o > 0"
  proof (rule rf_wfD(2) [OF wf r])
    show "\<not> isBottom ?o" using that by (cases ?o) (auto simp: isBottom_def getBottom_def)
  qed
  have nb: "graph_contains g store \<Longrightarrow> \<not> isBottom store"
    by (auto simp: isBottom_def getBottom_def graph_contains_def)
  have c [simp]: "graph_contains g1 e = graph_contains g e" "graph_contains g2 e = graph_contains g e"
    "graph_contains g3 e = graph_contains g e" for e
    by (simp_all add: g1_def g2_def g3_def)
  have l1: "lab g1 e = (if e = read then setRf store (lab g e) else lab g e)" if "graph_contains g e" for e
    using lab_upd [of "setFPStatus FS_Stale g" read e] r(1) that by (simp add: g1_def)
  have l2: "lab g2 e = (if e = ?o \<and> eindex e > 0 \<and> isa_Write (lkind (lab g e))
      then removeReader (\<lambda>r. r = read) (lab g1 e) else lab g1 e)" if "graph_contains g e" for e
    using lab_upd [of g1 ?o e] o that by (auto simp: g2_def)
  have l3: "lab g3 e = changed_label g read store e" if e: "graph_contains g e" for e
  proof -
    have "lab g3 e = (if e = store \<and> isa_Write (lkind (lab g e)) then addReader read (lab g2 e) else lab g2 e)"
      using lab_upd [of g2 store e] s e nb by (auto simp: g3_def)
    then show ?thesis unfolding changed_label_def Let_def l1 [OF e] l2 [OF e] by simp
  qed
  have k2: "isa_Write (lkind (lab g2 store)) = isa_Write (lkind (lab g store))" if "graph_contains g store"
    unfolding l2 [OF that] l1 [OF that] by simp
  have k1: "isa_Write (lkind (lab g1 ?o)) = isa_Write (lkind (lab g ?o))" if "graph_contains g ?o"
    using l1 [OF that] by simp
  have step2: "(if eindex ?o > 0 then rbind (getThreadSize g1 (ethread ?o)) (\<lambda>n.
        if eindex ?o < n then rbind (getEventLabel g1 ?o) (\<lambda>labRef.
           if isa_Write (lkind labRef) then modLabel g1 ?o (removeReader (\<lambda>r. r = read)) else Ok g1)
        else Ok g1) else Ok g1) = Ok g2"
  proof (cases "eindex ?o > 0")
    case True
    then have "graph_contains g1 ?o" using o by simp
    then obtain n where "getThreadSize g1 (ethread ?o) = Ok n" "eindex ?o < n"
      unfolding getThreadSize_contains by blast
    then show ?thesis using True o k1 by (simp add: g2_def)
  qed (simp add: g2_def)
  have step3: "(if isBottom store then Ok g2 else rbind (getEventLabel g2 store) (\<lambda>rfLab.
        if isa_Write (lkind rfLab) then modLabel g2 store (addReader read) else Ok g2)) = Ok g3"
    using s k2 nb by (cases "isBottom store") (simp_all add: g3_def)
  have a: "getEventLabel (setFPStatus FS_Stale g) read = Ok (lab g read)" using r(1) by simp
  have b: "modLabel (setFPStatus FS_Stale g) read (setRf store) = Ok g1" using r(1) by (simp add: g1_def)
  have "changeRf g read store = Ok g3"
    by (simp only: changeRf_def Let_def a rbind.simps r(2) not_True_eq_False BUG_ON_simps b p step2 step3)
  then show ?thesis using l3 c by blast
qed

text \<open>\<open>changeRf\<close> keeps the invariant.\<close>

lemma changeRf_wf:
  assumes wf: "rf_wf g" and r: "graph_contains g read" "isa_Read (lkind (lab g read))"
    and s: "isBottom store \<or> graph_contains g store"
  shows "\<exists>g'. changeRf g read store = Ok g' \<and> rf_wf g' \<and> lrf (lab g' read) = store
     \<and> (\<forall>e. graph_contains g' e = graph_contains g e)"
proof -
  obtain g' where g': "changeRf g read store = Ok g'" "\<And>e. graph_contains g' e = graph_contains g e"
    "\<And>e. graph_contains g e \<Longrightarrow> lab g' e = changed_label g read store e"
    using changeRf_effect [OF assms] by blast
  let ?c = "changed_label g read store"
  have k: "lkind (?c e) = lkind (lab g e)" "lpos (?c e) = lpos (lab g e)"
    "lrf (?c e) = (if e = read then store else lrf (lab g e))" for e
    by (simp_all add: changed_label_def Let_def)
  have nr: "isa_Write (lkind (lab g e)) \<Longrightarrow> e \<noteq> read" for e using r(2) isa_disjoint(1) by blast
  have rd: "x \<in> set (lreaders (?c w)) \<longleftrightarrow> (if x = read then w = store else x \<in> set (lreaders (lab g w)))"
    if "isa_Write (lkind (lab g w))" "graph_contains g w" for x w
  proof -
    have "read \<in> set (lreaders (lab g w)) \<Longrightarrow> w = lrf (lab g read)"
      using rf_wfD(5) [OF wf that(2,1)] by blast
    moreover have "0 < eindex w" using rf_wfD(6) [OF wf that(2,1)] .
    ultimately show ?thesis using that nr [OF that(1)] by (auto simp: changed_label_def Let_def)
  qed
  have "rf_ok g' (?c e)" if e: "graph_contains g e" for e
  proof (cases "e = read")
    case True
    then show ?thesis
      using s g'(2,3) rd [of store read] rf_wfD(1) [OF wf r(1)] by (auto simp: rf_ok_def k)
  next
    case False
    then show ?thesis
      using rf_wfD(1,2,3) [OF wf e] g'(2,3) rd [of "lrf (lab g e)" e] by (auto simp: rf_ok_def k)
  qed
  moreover have "readers_ok g' (?c w)" if w: "graph_contains g w" for w
  proof -
    have "distinct (lreaders (?c w))" if "isa_Write (lkind (lab g w))"
      using rf_wfD(4) [OF wf w that] unfolding changed_label_def Let_def by auto
    moreover have "graph_contains g' x \<and> isa_Read (lkind (lab g' x)) \<and> lrf (lab g' x) = w"
      if "isa_Write (lkind (lab g w))" "x \<in> set (lreaders (?c w))" for x
      using rd [OF that(1) w, of x] that rf_wfD(5) [OF wf w that(1), of x] r g'(2,3)
      by (auto simp: k split: if_splits)
    ultimately show ?thesis
      using rf_wfD(1,6) [OF wf w] by (auto simp: readers_ok_def k)
  qed
  ultimately have "rf_wf g'" using g'(2,3) rf_wfD(1) [OF wf] by (simp add: rf_wf_iff k)
  with g' r show ?thesis by (auto simp: k)
qed

end
