(* ===== verification/GenMC_Stamps.thy ===== *)
theory GenMC_Stamps
  imports GenMC_GraphOps
begin

text \<open>
  What the stamp views of \<open>src/src/ExecutionGraph.cpp\<close> contain, and what cutting a graph to a stamp leaves:
  \<open>getViewFromStamp\<close> is right for graphs whose stamps grow along program order, \<open>getDepViewFromStamp\<close> for
  every graph.
\<close>

section \<open>Views\<close>

lemma last_stamped_Some:
  assumes "last_stamped thr st = Some j"
  shows "j < length thr" and "lstamp (thr ! j) \<le> st" and "\<And>k. j < k \<Longrightarrow> k < length thr \<Longrightarrow> st < lstamp (thr ! k)"
proof -
  obtain i where i: "i < length thr" "lstamp (thr ! (rev [0..<length thr] ! i)) \<le> st" "j = rev [0..<length thr] ! i"
    "\<And>k. k < i \<Longrightarrow> \<not> lstamp (thr ! (rev [0..<length thr] ! k)) \<le> st"
    using assms unfolding last_stamped_def find_Some_iff by auto
  have j: "j = length thr - Suc i" using i(1,3) by (simp add: rev_nth)
  show "j < length thr" "lstamp (thr ! j) \<le> st" using i j by simp_all
  fix k
  assume "j < k" "k < length thr"
  then have "length thr - Suc k < i" "k = rev [0..<length thr] ! (length thr - Suc k)"
    using i(1) j by (simp_all add: rev_nth)
  then show "st < lstamp (thr ! k)" using i(4) by (metis not_le)
qed

lemma last_stamped_None: "last_stamped thr st = None \<Longrightarrow> k < length thr \<Longrightarrow> st < lstamp (thr ! k)"
  unfolding last_stamped_def find_None_iff by auto

lemma view_at_from_stamp_loop:
  "view_at (fold (\<lambda>i v. case last_stamped (events g ! i) st of
        Some j \<Rightarrow> (view_grow v i)[i := int j] | None \<Rightarrow> v) [0..<n] []) i
     = (if i < n then (case last_stamped (events g ! i) st of Some j \<Rightarrow> int j | None \<Rightarrow> 0) else 0)"
proof (induction n)
  case 0
  then show ?case by (simp add: view_at_def)
next
  case (Suc n)
  then show ?case
    by (cases "i = n"; cases "last_stamped (events g ! n) st") (simp_all add: view_at_list_update)
qed

lemma view_at_from_stamp: "i < numThreads g \<Longrightarrow> view_at (getViewFromStamp g st) i
     = (case last_stamped (events g ! i) st of Some j \<Rightarrow> int j | None \<Rightarrow> 0)"
  unfolding getViewFromStamp_def view_at_from_stamp_loop by simp

text \<open>Stamps that grow along program order.\<close>

definition stamps_grow :: "ExecutionGraph \<Rightarrow> bool" where
  "stamps_grow g \<longleftrightarrow> (\<forall>thr\<in>set (events g). sorted (map lstamp thr))"

lemma from_stamp_contains:
  assumes "stamps_grow g" and "i < numThreads g" and "0 < j" and "j < length (events g ! i)"
  shows "view_contains (getViewFromStamp g st) (Event (int i) (int j)) = Ok (lstamp (events g ! i ! j) \<le> st)"
proof -
  let ?thr = "events g ! i"
  have s: "sorted (map lstamp ?thr)" using assms(1,2) by (simp add: stamps_grow_def)
  have mono: "lstamp (?thr ! a) \<le> lstamp (?thr ! b)" if "a \<le> b" "b < length ?thr" for a b
    using sorted_nth_mono [OF s that(1)] that by simp
  have "(int j \<le> (case last_stamped ?thr st of Some k \<Rightarrow> int k | None \<Rightarrow> 0)) \<longleftrightarrow> lstamp (?thr ! j) \<le> st"
  proof (cases "last_stamped ?thr st")
    case None
    then show ?thesis using last_stamped_None [OF None assms(4)] assms(3) by simp
  next
    case (Some k)
    note k = last_stamped_Some [OF Some]
    show ?thesis
    proof (cases "j \<le> k")
      case True
      then show ?thesis using mono [OF True k(1)] k(2) Some by simp
    next
      case False
      then show ?thesis using k(3) [of j] assms(4) Some by simp
    qed
  qed
  then show ?thesis
    by (simp add: view_contains_Ok view_at_from_stamp [OF assms(2)])
qed

section \<open>Views with holes\<close>

lemma dv_set_raise:
  assumes d: "dv_invar d" and i: "view_at (dv_view d) i \<le> x"
  shows "\<exists>d'. dv_set d (int i) x = Ok d' \<and> dv_invar d' \<and> i < dv_size d'
     \<and> (\<forall>k. view_at (dv_view d') k = (if k = i then x else view_at (dv_view d) k))
     \<and> (\<forall>k. hole_set d' k = hole_set d k) \<and> dv_size d \<le> dv_size d'"
proof -
  define d' where "d' = (dv_grow d i)\<lparr>dv_view := (dv_view (dv_grow d i))[i := x]\<rparr>"
  have s: "dv_set d (int i) x = Ok d'" by (simp add: dv_set_def d'_def Let_def)
  have v: "view_at (dv_view d') k = (if k = i then x else view_at (dv_view d) k)" for k
    by (simp add: d'_def view_at_list_update)
  have h: "hole_set d' k = hole_set d k" for k
    by (auto simp: d'_def hole_set_def nth_hole_grow)
  have "0 \<le> view_at (dv_view d) i" using d by (simp add: dv_invar_def)
  with i have x: "0 \<le> x" by simp
  have "dv_invar d'" unfolding dv_invar_def
  proof (intro conjI allI impI)
    show "length (dv_view d') \<le> length (dv_holes d')" using d by (auto simp: d'_def dv_invar_def)
    show "view_invar (dv_view d')" using d x by (intro view_invarI) (simp add: v dv_invar_def)
    fix k
    assume k: "k < length (dv_holes d')"
    show "ssorted (dv_holes d' ! k)" using k d by (auto simp: d'_def nth_hole_grow dv_invar_def)
    show "\<forall>y\<in>set (dv_holes d' ! k). 0 < y \<and> y \<le> view_at (dv_view d') k"
    proof
      fix y
      assume "y \<in> set (dv_holes d' ! k)"
      then have "y \<in> hole_set d k" using h [of k] k by (simp add: hole_set_def [of d'])
      then show "0 < y \<and> y \<le> view_at (dv_view d') k" using hole_set_bounds [OF d, of y k] i by (auto simp: v)
    qed
  qed
  with s v h show ?thesis by (auto simp: d'_def dv_size_def view_size_def)
qed

text \<open>The state of the inner loop for thread \<open>i\<close> when the indices below \<open>j\<close> are done, starting from \<open>d\<^sub>0\<close>.\<close>

definition stamp_inv :: "ExecutionGraph \<Rightarrow> nat \<Rightarrow> nat \<Rightarrow> DepView \<Rightarrow> nat \<Rightarrow> DepView \<times> int \<Rightarrow> bool" where
  "stamp_inv g st i d0 j q \<longleftrightarrow> dv_invar (fst q) \<and> view_at (dv_view (fst q)) i = snd q \<and> snd q < int j
     \<and> (\<forall>k>i. view_at (dv_view (fst q)) k = 0)
     \<and> (\<forall>x>0. dv_contains (fst q) (Event (int i) x) \<longleftrightarrow> x < int j \<and> lstamp (events g ! i ! nat x) \<le> st)
     \<and> (\<forall>k<i. \<forall>x>0. dv_contains (fst q) (Event (int k) x) \<longleftrightarrow> dv_contains d0 (Event (int k) x))"

lemma stamp_inv_step:
  assumes inv: "stamp_inv g st i d0 j q" and j: "0 < j"
  shows "\<exists>q'. depview_stamp_step g st i j q = Ok q' \<and> stamp_inv g st i d0 (Suc j) q'"
proof (cases "lstamp (events g ! i ! j) \<le> st")
  case False
  have "x < int (Suc j) \<and> lstamp (events g ! i ! nat x) \<le> st \<longleftrightarrow> x < int j \<and> lstamp (events g ! i ! nat x) \<le> st"
    if "0 < x" for x
    using False by (cases "x = int j") auto
  then have "stamp_inv g st i d0 (Suc j) q" using inv unfolding stamp_inv_def by auto
  with False show ?thesis by (simp add: depview_stamp_step_def)
next
  case True
  obtain d p where q: "q = (d, p)" by (cases q)
  have d: "dv_invar d" "view_at (dv_view d) i = p" "p < int j" using inv by (simp_all add: stamp_inv_def q)
  have p0: "0 \<le> p" using d(1,2) by (auto simp: dv_invar_def)
  obtain d1 where d1: "dv_set d (int i) (int j) = Ok d1" "dv_invar d1" "i < dv_size d1"
    "\<And>k. view_at (dv_view d1) k = (if k = i then int j else view_at (dv_view d) k)"
    "\<And>k. hole_set d1 k = hole_set d k" "dv_size d \<le> dv_size d1"
    using dv_set_raise [OF d(1), of i "int j"] d(2,3) by auto
  obtain d2 where d2: "dv_addHolesInRange d1 (Event (int i) (p + 1)) (int j) = Ok d2" "dv_invar d2" "dv_view d2 = dv_view d1"
    "\<And>e'. dv_contains d2 e' \<longleftrightarrow> dv_contains d1 e' \<and> \<not> (ethread e' = int i \<and> p + 1 \<le> eindex e' \<and> eindex e' < int j)"
    using dv_addHolesInRange_correct [OF d1(2), of "Event (int i) (p + 1)" "int j"] d1(4) p0 by auto
  have other: "dv_contains d1 (Event (int k) x) \<longleftrightarrow> dv_contains d (Event (int k) x)" if "k \<noteq> i" "0 < x" for k x
  proof (cases "k < dv_size d")
    case True
    then show ?thesis using that d1(6) by (simp add: dv_contains_at [OF d(1)] dv_contains_at [OF d1(2)] d1(4,5))
  next
    case False
    then show ?thesis using that dv_view_at_out [of d k]
      by (simp add: dv_contains_at [OF d(1)] dv_contains_at [OF d1(2)] d1(4,5))
  qed
  have hb: "x \<in> hole_set d i \<Longrightarrow> x \<le> p" for x using hole_set_bounds [OF d(1), of x i] d(2) by simp
  have mine: "dv_contains d2 (Event (int i) x) \<longleftrightarrow> x < int (Suc j) \<and> lstamp (events g ! i ! nat x) \<le> st" if x: "0 < x" for x
  proof -
    have "dv_contains d (Event (int i) x) \<longleftrightarrow> x < int j \<and> lstamp (events g ! i ! nat x) \<le> st"
      using inv x by (simp add: stamp_inv_def q)
    moreover have "dv_contains d (Event (int i) x) \<longleftrightarrow> x \<le> p \<and> x \<notin> hole_set d i"
      using dv_view_at_out [of d i] x d(2) by (cases "i < dv_size d") (auto simp: dv_contains_at [OF d(1)])
    moreover have "dv_contains d1 (Event (int i) x) \<longleftrightarrow> x \<le> int j \<and> x \<notin> hole_set d i"
      using d1(3) by (simp add: dv_contains_at [OF d1(2)] d1(4,5))
    ultimately show ?thesis using d2(4) [of "Event (int i) x"] d(3) hb [of x] True
      by (cases "x = int j") auto
  qed
  have "stamp_inv g st i d0 (Suc j) (d2, int j)"
    using inv d2(2,3) d1(4) mine other d2(4) unfolding stamp_inv_def q by auto
  then show ?thesis using True d1(1) d2(1) by (simp add: depview_stamp_step_def q)
qed

lemma dv_new_invar [simp]: "dv_invar dv_new" "view_at (dv_view dv_new) i = 0" "\<not> dv_contains dv_new e"
  by (simp_all add: dv_new_def dv_invar_def view_invar_def view_at_def dv_contains_def dv_size_def view_size_def)

lemma stamp_thread:
  assumes "dv_invar d" and "\<forall>k\<ge>i. view_at (dv_view d) k = 0" and "events g ! i \<noteq> []"
  shows "\<exists>q. rfold (depview_stamp_step g st i) [1..<length (events g ! i)] (d, 0) = Ok q
     \<and> stamp_inv g st i d (length (events g ! i)) q"
proof -
  let ?n = "length (events g ! i)"
  have start: "stamp_inv g st i d (0 + 1) (d, 0)"
    using assms dv_view_at_out by (auto simp: stamp_inv_def dv_contains_at)
  have "\<exists>q. rfold (depview_stamp_step g st i) [1..<?n] (d, 0) = Ok q \<and> stamp_inv g st i d (length [1..<?n] + 1) q"
  proof (rule rfold_inv [where P = "\<lambda>m. stamp_inv g st i d (m + 1)", OF start])
    fix m q
    assume "m < length [1..<?n]" and "stamp_inv g st i d (m + 1) q"
    then show "\<exists>q'. depview_stamp_step g st i ([1..<?n] ! m) q = Ok q' \<and> stamp_inv g st i d (Suc m + 1) q'"
      using stamp_inv_step [of g st i d "m + 1" q] by simp
  qed
  moreover have "0 < ?n" using assms(3) by simp
  then have "length [1..<?n] + 1 = ?n" unfolding length_upt by linarith
  ultimately show ?thesis by metis
qed

lemma stamp_inv_contains:
  assumes "\<forall>t<i. \<forall>x>0. dv_contains d (Event (int t) x) \<longleftrightarrow> x < int (length (events g ! t)) \<and> lstamp (events g ! t ! nat x) \<le> st"
    and "stamp_inv g st i d (length (events g ! i)) q"
  shows "\<forall>t<Suc i. \<forall>x>0. dv_contains (fst q) (Event (int t) x) \<longleftrightarrow>
     x < int (length (events g ! t)) \<and> lstamp (events g ! t ! nat x) \<le> st"
  using assms unfolding stamp_inv_def by (auto simp: less_Suc_eq)

text \<open>\<open>getDepViewFromStamp\<close> returns, and contains exactly the events (after a thread's first) that were added
  up to the stamp, in whatever order they were added.\<close>

lemma depview_from_stamp:
  assumes ne: "\<forall>thr\<in>set (events g). thr \<noteq> []"
  shows "\<exists>d. getDepViewFromStamp g st = Ok d \<and> dv_invar d \<and>
    (\<forall>t<numThreads g. \<forall>x>0. dv_contains d (Event (int t) x) \<longleftrightarrow>
       x < int (length (events g ! t)) \<and> lstamp (events g ! t ! nat x) \<le> st)"
proof -
  let ?P = "\<lambda>i d. dv_invar d \<and> (\<forall>k\<ge>i. view_at (dv_view d) k = 0) \<and>
    (\<forall>t<i. \<forall>x>0. dv_contains d (Event (int t) x) \<longleftrightarrow> x < int (length (events g ! t)) \<and> lstamp (events g ! t ! nat x) \<le> st)"
  have "\<exists>d. getDepViewFromStamp g st = Ok d \<and> ?P (length [0..<numThreads g]) d"
    unfolding getDepViewFromStamp_def
  proof (rule rfold_inv)
    show "?P 0 dv_new" by simp
    fix i d
    assume i: "i < length [0..<numThreads g]" and P: "?P i d"
    then have "events g ! i \<noteq> []" using ne by simp
    then obtain q where q: "rfold (depview_stamp_step g st i) [1..<length (events g ! i)] (d, 0) = Ok q"
      "stamp_inv g st i d (length (events g ! i)) q"
      using stamp_thread P by blast
    have "?P (Suc i) (fst q)"
      using stamp_inv_contains [OF _ q(2)] P q(2) by (auto simp: stamp_inv_def)
    then show "\<exists>s'. rbind (rfold (depview_stamp_step g st ([0..<numThreads g] ! i))
        [1..<length (events g ! ([0..<numThreads g] ! i))] (d, 0)) (\<lambda>p. Ok (fst p)) = Ok s' \<and> ?P (Suc i) s'"
      using i q(1) by auto
  qed
  then show ?thesis by auto
qed

section \<open>Fresh invocation numbers\<close>

text \<open>The count returned for a method is above every invocation number in use (unless the largest number is
  in use, when the counter wraps).\<close>

lemma fun_count_fold:
  assumes "\<forall>l\<in>set ls. lkind l = EL_FunStart \<and> lmethod l = n \<longrightarrow> linvocation l \<noteq> -1"
  defines "f \<equiv> \<lambda>l (count :: 32 word). if lkind l = EL_FunStart \<and> n = lmethod l
           then if linvocation l \<ge> count then linvocation l + 1 else count else count"
  shows "c \<le> fold f ls c \<and> (\<forall>l\<in>set ls. lkind l = EL_FunStart \<and> lmethod l = n \<longrightarrow> linvocation l < fold f ls c)"
  using assms(1)
proof (induction ls arbitrary: c)
  case Nil
  then show ?case by simp
next
  case (Cons l ls)
  have inc: "x < x + 1" if "x \<noteq> -1" for x :: "32 word"
  proof -
    have "1 + x \<noteq> 0" using that by (metis add_eq_0_iff)
    then show ?thesis using unatSuc [of x] by (simp add: word_less_nat_alt add.commute)
  qed
  have step: "c \<le> f l c" "lkind l = EL_FunStart \<and> lmethod l = n \<longrightarrow> linvocation l < f l c"
    using inc [of "linvocation l"] Cons.prems by (auto simp: f_def)
  from Cons.IH [of "f l c"] Cons.prems have ih: "f l c \<le> fold f ls (f l c)"
    "\<forall>l'\<in>set ls. lkind l' = EL_FunStart \<and> lmethod l' = n \<longrightarrow> linvocation l' < fold f ls (f l c)"
    by auto
  have "c \<le> fold f ls (f l c)" using step(1) ih(1) by (rule order_trans)
  moreover have "lkind l = EL_FunStart \<and> lmethod l = n \<longrightarrow> linvocation l < fold f ls (f l c)"
    using step(2) less_le_trans [OF _ ih(1)] by blast
  ultimately show ?case using ih(2) by simp
qed

lemma fun_count_fresh:
  assumes "\<forall>l\<in>set (labels_rev g). lkind l = EL_FunStart \<and> lmethod l = n \<longrightarrow> linvocation l \<noteq> -1"
    and "l \<in> set (labels_rev g)" and "lkind l = EL_FunStart" and "lmethod l = n"
  shows "linvocation l < getFunInvocationCount g n"
  unfolding getFunInvocationCount_def using fun_count_fold [OF assms(1), of 0] assms(2-) by blast

section \<open>Removing an event\<close>

lemma vec_get_int_Ok [simp]: "0 \<le> i \<Longrightarrow> nat i < length v \<Longrightarrow> vec_get_int v i = Ok (v ! nat i)"
  by (simp add: vec_get_int_def)

text \<open>\<open>remove\<close> of a label that is not a read cuts the thread at the event, whether or not it was its last
  event: nothing is left in its place and every po-later label is gone.\<close>

lemma remove_cuts:
  assumes wf: "wf_pos g" and e: "graph_contains g e" and nr: "\<not> isa_Read (lkind (lab g e))"
    and ni: "\<not> isInitializer e"
  shows "\<exists>g'. remove_ev g e = Ok g' \<and>
     events g' = (events g)[nat (ethread e) := take (nat (eindex e)) (events g ! nat (ethread e))]"
proof -
  let ?t = "nat (ethread e)" and ?i = "nat (eindex e)"
  have b: "0 \<le> ethread e" "?t < numThreads g" "0 \<le> eindex e" "?i < length (events g ! ?t)"
    using e by (auto simp: graph_contains_def)
  have p: "lpos (lab g e) = e" using wf e by (simp add: wf_pos_iff)
  have size: "getThreadSize h (ethread e) = Ok (int (length (events h ! ?t)))" if "numThreads h = numThreads g" for h
    using b that by (simp add: getThreadSize_def)
  have cut: "resizeThread h e = Ok (h\<lparr>events := (events h)[?t := take ?i (events h ! ?t)]\<rparr>)"
    if "numThreads h = numThreads g" "?i \<le> length (events h ! ?t)" for h
    using b that by (auto simp: resizeThread_def)
  have add: "\<exists>h l. addOtherLabelToGraph (setFPStatus FS_Stale g) (EmptyLabel e) = Ok (h, l)
      \<and> events h = (events g)[?t := (events g ! ?t)[?i := (EmptyLabel e)\<lparr>lstamp := timestamp g\<rparr>]]"
    using b ni by (auto simp: addOtherLabelToGraph_def Let_def EmptyLabel_def mkLabel_def nextStamp_def
        setFPStatus_def getEventLabel_def BUG_ON_def)
  show ?thesis
  proof (cases "e = Event (ethread e) (int (length (events g ! ?t)) - 1)")
    case True
    then show ?thesis using b e nr p size [of "setFPStatus FS_Stale g"] cut [of "setFPStatus FS_Stale g"]
      by (simp add: remove_ev_def Let_def getLastThreadEvent_def BUG_ON_def)
  next
    case False
    from add obtain h l where h: "addOtherLabelToGraph (setFPStatus FS_Stale g) (EmptyLabel e) = Ok (h, l)"
      "events h = (events g)[?t := (events g ! ?t)[?i := (EmptyLabel e)\<lparr>lstamp := timestamp g\<rparr>]]" by blast
    then show ?thesis using b e nr p False size [of "setFPStatus FS_Stale g"] size [of h] cut [of h]
      by (simp add: remove_ev_def Let_def getLastThreadEvent_def BUG_ON_def)
  qed
qed

section \<open>An example graph\<close>

text \<open>Two threads: the main one writes twice to a location, and the other one reads from the first write.\<close>

definition ex_graph :: ExecutionGraph where
  "ex_graph = (let acc = \<lparr>asize = 4, atype = Unsigned\<rparr> in
     \<lparr>events = [[ThreadStartLabel 0 Acquire (Event 0 0) getInitializer (-1),
                (WriteLabel EL_Write Release (Event 0 1) 64 acc 1 WA_None)\<lparr>lstamp := 1, lreaders := [Event 1 1]\<rparr>,
                (WriteLabel EL_Write Release (Event 0 2) 64 acc 2 WA_None)\<lparr>lstamp := 4\<rparr>],
               [(ThreadStartLabel 2 Acquire (Event 1 0) (Event 0 0) (-1)),
                (ReadLabel EL_Read Acquire (Event 1 1) 64 acc (Event 0 1))\<lparr>lstamp := 3\<rparr>]],
      timestamp = 5, fixStatus = FS_Stale, recoveryTID = -1\<rparr>)"

lemma label_sels [simp]:
  "lkind (mkLabel k st ord p) = k" "lpos (mkLabel k st ord p) = p" "lstamp (mkLabel k st ord p) = st"
  "lreaders (mkLabel k st ord p) = []"
  "lkind (ThreadStartLabel st ord p pc sy) = EL_ThreadStart" "lpos (ThreadStartLabel st ord p pc sy) = p"
  "lstamp (ThreadStartLabel st ord p pc sy) = st"
  "lkind (WriteLabel k ord p a acc v w) = k" "lpos (WriteLabel k ord p a acc v w) = p"
  "lreaders (WriteLabel k ord p a acc v w) = []"
  "lkind (ReadLabel k ord p a acc rf) = k" "lpos (ReadLabel k ord p a acc rf) = p"
  "lrf (ReadLabel k ord p a acc rf) = rf"
  "lkind (EmptyLabel p) = EL_Empty" "lpos (EmptyLabel p) = p"
  "lkind (FunStartLabel p) = EL_FunStart" "lpos (FunStartLabel p) = p"
  by (simp_all add: mkLabel_def ThreadStartLabel_def WriteLabel_def ReadLabel_def EmptyLabel_def FunStartLabel_def)

lemmas ex_graph_simps = ex_graph_def Let_def graph_contains_def lab_def labels_def

lemma ex_graph_wf: "rf_wf ex_graph"
proof -
  have "wf_pos ex_graph" by (simp add: wf_pos_def ex_graph_def Let_def atLeast0_lessThan_Suc)
  moreover have "rf_ok ex_graph l \<and> readers_ok ex_graph l" if "l \<in> set (labels ex_graph)" for l
    using that by (auto simp: rf_ok_def readers_ok_def ex_graph_simps isa_defs)
  ultimately show ?thesis by (simp add: rf_wf_def)
qed

lemma ex_graph_stamps: "stamps_grow ex_graph" "\<forall>thr\<in>set (events ex_graph). thr \<noteq> []"
  by (simp_all add: stamps_grow_def ex_graph_simps)

section \<open>Properties\<close>

text \<open>C26: changing the reads-from edge of a read to a label of the graph, or to bottom, returns, moves the
  read from the readers list of the old write to that of the new one, and keeps reads-from edges and
  readers lists consistent for every read and write of the graph.\<close>

theorem changeRf_keeps_rf_wf:
  assumes "rf_wf g" and "graph_contains g read" and "isa_Read (lkind (lab g read))"
    and "isBottom store \<or> graph_contains g store"
  shows "\<exists>g'. changeRf g read store = Ok g' \<and> rf_wf g' \<and> lrf (lab g' read) = store
     \<and> (\<forall>e. graph_contains g' e = graph_contains g e)"
  using assms by (rule changeRf_wf)

theorem changeRf_keeps_rf_wf_witness:
  "\<exists>g'. changeRf ex_graph (Event 1 1) (Event 0 2) = Ok g' \<and> rf_wf g' \<and> lrf (lab g' (Event 1 1)) = Event 0 2
     \<and> (\<forall>e. graph_contains g' e = graph_contains ex_graph e)"
  by (rule changeRf_keeps_rf_wf [OF ex_graph_wf]) (simp_all add: ex_graph_simps isa_defs)

text \<open>C30: in a graph whose stamps grow along program order, the two views of a stamp contain, of the events
  after the first of each thread, exactly those added up to the stamp; with holes no order is needed, and
  the computation never stops with a \<open>BUG()\<close>.\<close>

theorem stamp_views_contain_added:
  assumes "\<forall>thr\<in>set (events g). thr \<noteq> []"
  shows "\<exists>d. getDepViewFromStamp g st = Ok d \<and> (\<forall>i j. i < numThreads g \<longrightarrow> 0 < j \<longrightarrow> j < length (events g ! i) \<longrightarrow>
       dv_contains d (Event (int i) (int j)) = (lstamp (events g ! i ! j) \<le> st)
       \<and> (stamps_grow g \<longrightarrow> view_contains (getViewFromStamp g st) (Event (int i) (int j))
             = Ok (lstamp (events g ! i ! j) \<le> st)))"
proof -
  obtain d where d: "getDepViewFromStamp g st = Ok d" "\<forall>t<numThreads g. \<forall>x>0. dv_contains d (Event (int t) x) \<longleftrightarrow>
       x < int (length (events g ! t)) \<and> lstamp (events g ! t ! nat x) \<le> st"
    using depview_from_stamp [OF assms, of st] by blast
  have "dv_contains d (Event (int i) (int j)) = (lstamp (events g ! i ! j) \<le> st)"
    if "i < numThreads g" "0 < j" "j < length (events g ! i)" for i j
    using d(2) [rule_format, of i "int j"] that by simp
  with d(1) from_stamp_contains [of g] show ?thesis by blast
qed

theorem stamp_views_contain_added_witness:
  "view_contains (getViewFromStamp ex_graph 3) (Event 0 2) = Ok False"
proof -
  have "2 < length (events ex_graph ! 0)" by (simp add: ex_graph_simps)
  moreover have "0 < numThreads ex_graph" by (simp add: ex_graph_simps)
  ultimately have "view_contains (getViewFromStamp ex_graph 3) (Event (int 0) (int 2)) = Ok (lstamp (events ex_graph ! 0 ! 2) \<le> 3)"
    using stamp_views_contain_added [OF ex_graph_stamps(2), of 3] ex_graph_stamps(1)
    by (metis zero_less_numeral)
  then show ?thesis by (simp add: ex_graph_simps)
qed

text \<open>The invocation number given to a new call of a method is not in use: it is above the numbers of
  all earlier calls of the method, so calls are identified by method and number.\<close>

theorem invocation_numbers_fresh:
  assumes "\<forall>l\<in>set (labels_rev g). lkind l = EL_FunStart \<and> lmethod l = n \<longrightarrow> linvocation l \<noteq> -1"
  shows "FunctionEvent n (getFunInvocationCount g n) \<notin>
     {FunctionEvent (lmethod l) (linvocation l) | l. l \<in> set (labels_rev g) \<and> lkind l = EL_FunStart}"
  using fun_count_fresh [OF assms] by fastforce

theorem invocation_numbers_fresh_witness:
  "FunctionEvent FN_Enq (getFunInvocationCount
      (ex_graph\<lparr>events := [[EmptyLabel (Event 0 0), (FunStartLabel (Event 0 1))\<lparr>lmethod := FN_Enq, linvocation := 6\<rparr>]]\<rparr>) FN_Enq)
    \<notin> {FunctionEvent (lmethod l) (linvocation l) | l. l \<in> set (labels_rev
      (ex_graph\<lparr>events := [[EmptyLabel (Event 0 0), (FunStartLabel (Event 0 1))\<lparr>lmethod := FN_Enq, linvocation := 6\<rparr>]]\<rparr>)) \<and> lkind l = EL_FunStart}"
  by (rule invocation_numbers_fresh) (simp add: labels_rev_def)

text \<open>Removing an event that is not a read cuts its thread there; all po-later labels of the thread are
  dropped as well, where the interface announces that an event in the middle is replaced by an empty
  label.\<close>

theorem remove_drops_successors:
  assumes "wf_pos g" and "graph_contains g e" and "\<not> isa_Read (lkind (lab g e))" and "\<not> isInitializer e"
  shows "\<exists>g'. remove_ev g e = Ok g' \<and>
     events g' = (events g)[nat (ethread e) := take (nat (eindex e)) (events g ! nat (ethread e))]"
  using assms by (rule remove_cuts)

theorem remove_drops_successors_witness:
  "\<exists>g'. remove_ev ex_graph (Event 0 1) = Ok g' \<and> \<not> graph_contains g' (Event 0 1) \<and> \<not> graph_contains g' (Event 0 2)"
proof -
  have "\<exists>g'. remove_ev ex_graph (Event 0 1) = Ok g' \<and>
     events g' = (events ex_graph)[nat (ethread (Event 0 1)) := take (nat (eindex (Event 0 1))) (events ex_graph ! nat (ethread (Event 0 1)))]"
    by (rule remove_drops_successors [OF ex_graph_wf [unfolded rf_wf_def, THEN conjunct1]])
      (simp_all add: ex_graph_simps isa_defs isInitializer_def getInitializer_def)
  then show ?thesis by (auto simp: ex_graph_simps)
qed

end
