(* ===== verification/GenMC_DSModel.thy ===== *)
theory GenMC_DSModel
  imports GenMC_FunctionType
begin

text \<open>
  The data-structure models and their configuration files (\<open>src/src/DSModel.hpp\<close>, \<open>src/src/DSModel.cpp\<close>).
  A file is the list of its bytes; the file system is a parameter, \<open>None\<close> where a file cannot be opened.
  \<open>configFile.get()\<close> is stored in a \<open>char\<close>, so the end of the file is the byte 0xFF, which the loop sees once
  after the last byte; a byte 0xFF inside the file takes the same branch.
\<close>

datatype DSModelType = M_None | M_Mutex | M_Queue_Start | M_Rel_Queue | M_Weak_Queue | M_HW_Queue
  | M_Strong_Queue | M_Queue_End | M_Stack_Start | M_Rel_Stack | M_Weak_Stack | M_C_Stack | M_Strong_Stack
  | M_Stack_End | M_Hp_Queue

primrec dsm_num :: "DSModelType \<Rightarrow> nat" where
  "dsm_num M_None = 0"
| "dsm_num M_Mutex = 1"
| "dsm_num M_Queue_Start = 2"
| "dsm_num M_Rel_Queue = 3"
| "dsm_num M_Weak_Queue = 4"
| "dsm_num M_HW_Queue = 5"
| "dsm_num M_Strong_Queue = 6"
| "dsm_num M_Queue_End = 7"
| "dsm_num M_Stack_Start = 8"
| "dsm_num M_Rel_Stack = 9"
| "dsm_num M_Weak_Stack = 10"
| "dsm_num M_C_Stack = 11"
| "dsm_num M_Strong_Stack = 12"
| "dsm_num M_Stack_End = 13"
| "dsm_num M_Hp_Queue = 14"

definition is_queue :: "DSModelType \<Rightarrow> bool" where
  "is_queue t \<longleftrightarrow> dsm_num M_Queue_Start < dsm_num t \<and> dsm_num t < dsm_num M_Queue_End"

definition is_stack :: "DSModelType \<Rightarrow> bool" where
  "is_stack t \<longleftrightarrow> dsm_num M_Stack_Start < dsm_num t \<and> dsm_num t < dsm_num M_Stack_End"

record DSModel =
  ds_type :: DSModelType
  functioncallMap :: "FunctionName \<rightharpoonup> string"

definition dsmodel_none :: DSModel where
  "dsmodel_none = \<lparr>ds_type = M_None, functioncallMap = Map.empty\<rparr>"

section \<open>Reading the file\<close>

record ParseState =
  ps_comment :: bool
  ps_isKey :: bool
  ps_key :: string
  ps_val :: string
  ps_data :: "string \<rightharpoonup> string"

definition ps_init :: ParseState where
  "ps_init = \<lparr>ps_comment = False, ps_isKey = True, ps_key = [], ps_val = [], ps_data = Map.empty\<rparr>"

text \<open>\<open>std::map::insert\<close> leaves an existing entry.\<close>

definition map_insert :: "('k \<rightharpoonup> 'v) \<Rightarrow> 'k \<Rightarrow> 'v \<Rightarrow> ('k \<rightharpoonup> 'v)" where
  "map_insert m k v = (case m k of None \<Rightarrow> m(k \<mapsto> v) | Some _ \<Rightarrow> m)"

definition eof_char :: char where "eof_char = CHR 0xFF"

definition parse_step :: "char \<Rightarrow> ParseState \<Rightarrow> ParseState" where
  "parse_step c s =
     (if c = CHR ''%'' then s\<lparr>ps_comment := True\<rparr>
      else if c = eof_char \<or> c = CHR 0x0A
      then s\<lparr>ps_isKey := True, ps_comment := False, ps_data := map_insert (ps_data s) (ps_key s) (ps_val s),
             ps_val := [], ps_key := []\<rparr>
      else if c = CHR '':'' then s\<lparr>ps_isKey := False\<rparr>
      else if c = CHR '' '' \<or> c = CHR 0x0D then s
      else if ps_comment s then s
      else if ps_isKey s then s\<lparr>ps_key := ps_key s @ [c]\<rparr>
      else s\<lparr>ps_val := ps_val s @ [c]\<rparr>)"

definition parse_config :: "string \<Rightarrow> (string \<rightharpoonup> string)" where
  "parse_config content = ps_data (fold parse_step (content @ [eof_char]) ps_init)"

definition model_of_name :: "string \<Rightarrow> DSModelType option" where
  "model_of_name n =
     (if n = ''mutex'' then Some M_Mutex
      else if n = ''relaxed_queue'' then Some M_Rel_Queue
      else if n = ''weak_queue'' then Some M_Weak_Queue
      else if n = ''hw_queue'' then Some M_HW_Queue
      else if n = ''strong_queue'' then Some M_Strong_Queue
      else if n = ''relaxed-stack'' then Some M_Rel_Stack
      else if n = ''weak-stack'' then Some M_Weak_Stack
      else if n = ''c-stack'' then Some M_C_Stack
      else if n = ''hp-queue'' then Some M_Hp_Queue
      else None)"

text \<open>Each branch demands its methods (\<open>BUG()\<close> when one is missing) and inserts them.\<close>

fun add_methods :: "(string \<rightharpoonup> string) \<Rightarrow> (FunctionName \<times> string) list \<Rightarrow> (FunctionName \<rightharpoonup> string) \<Rightarrow> (FunctionName \<rightharpoonup> string) res" where
  "add_methods data [] m = Ok m"
| "add_methods data ((n, key) # ns) m =
     (case data key of None \<Rightarrow> Bug | Some v \<Rightarrow> add_methods data ns (map_insert m n v))"

definition methods_of :: "DSModelType \<Rightarrow> (FunctionName \<times> string) list option" where
  "methods_of t =
     (if t = M_Hp_Queue
      then Some [(FN_Protect0, ''protect0''), (FN_Unprotect0, ''unprotect0''), (FN_Protect1, ''protect1''),
                 (FN_Unprotect1, ''unprotect1''), (FN_Reclaim, ''reclaim'')]
      else if is_queue t then Some [(FN_Enq, ''enqueue''), (FN_Deq, ''dequeue'')]
      else if t = M_Mutex then Some [(FN_Lock, ''lock''), (FN_Unlock, ''unlock''), (FN_Init, ''init'')]
      else if is_stack t then Some [(FN_Push, ''push''), (FN_Pop, ''pop'')]
      else None)"

definition model_of_config :: "(string \<rightharpoonup> string) \<Rightarrow> DSModel res" where
  "model_of_config data =
     (case data ''model'' of None \<Rightarrow> Bug
      | Some n \<Rightarrow> (case model_of_name n of None \<Rightarrow> Bug
        | Some t \<Rightarrow> (case methods_of t of None \<Rightarrow> Bug
          | Some ms \<Rightarrow> rbind (add_methods data ms Map.empty) (\<lambda>m. Ok \<lparr>ds_type = t, functioncallMap = m\<rparr>))))"

definition loadDSModelFromFile :: "(string \<Rightarrow> string option) \<Rightarrow> string \<Rightarrow> DSModel res" where
  "loadDSModelFromFile files link =
     (if link = [] then Ok dsmodel_none
      else case files link of None \<Rightarrow> Ok dsmodel_none
        | Some content \<Rightarrow> model_of_config (parse_config content))"

definition checkNamesForModel :: "DSModelType \<Rightarrow> FunctionName \<Rightarrow> bool" where
  "checkNamesForModel t n =
     (if n = FN_NON then False
      else if n = FN_Init then True
      else if t = M_Mutex then n = FN_Lock \<or> n = FN_Unlock
      else if is_queue t then n = FN_Enq \<or> n = FN_Deq
      else if is_stack t then n = FN_Push \<or> n = FN_Pop
      else if t = M_Hp_Queue
      then n = FN_Protect0 \<or> n = FN_Unprotect0 \<or> n = FN_Protect1 \<or> n = FN_Unprotect1 \<or> n = FN_Reclaim
      else False)"

section \<open>Printing and reading back\<close>

text \<open>Configuration text for a list of entries, and the words that survive the reader.\<close>

definition print_config :: "(string \<times> string) list \<Rightarrow> string" where
  "print_config kvs = concat (map (\<lambda>(k, v). k @ CHR '':'' # v @ [CHR 0x0A]) kvs)"

definition plain_char :: "char \<Rightarrow> bool" where
  "plain_char c \<longleftrightarrow> c \<notin> {CHR ''%'', eof_char, CHR 0x0A, CHR '':'', CHR '' '', CHR 0x0D}"

abbreviation plain :: "string \<Rightarrow> bool" where
  "plain w \<equiv> list_all plain_char w"

lemma parse_plain_key:
  "plain w \<Longrightarrow> \<not> ps_comment s \<Longrightarrow> ps_isKey s \<Longrightarrow> fold parse_step w s = s\<lparr>ps_key := ps_key s @ w\<rparr>"
  by (induction w arbitrary: s) (auto simp: parse_step_def plain_char_def)

lemma parse_plain_val:
  "plain w \<Longrightarrow> \<not> ps_comment s \<Longrightarrow> \<not> ps_isKey s \<Longrightarrow> fold parse_step w s = s\<lparr>ps_val := ps_val s @ w\<rparr>"
  by (induction w arbitrary: s) (auto simp: parse_step_def plain_char_def)

definition ps_with :: "(string \<rightharpoonup> string) \<Rightarrow> ParseState" where
  "ps_with m = ps_init\<lparr>ps_data := m\<rparr>"

lemma eof_char_neq: "eof_char \<noteq> CHR ''%''" "eof_char \<noteq> CHR '':''" "CHR '':'' \<noteq> eof_char"
  by (simp_all add: eof_char_def)

lemma parse_line:
  assumes "plain k" and "plain v"
  shows "fold parse_step (k @ CHR '':'' # v @ [CHR 0x0A]) (ps_with m) = ps_with (map_insert m k v)"
proof -
  have "parse_step CHR '':'' ((ps_with m)\<lparr>ps_key := k\<rparr>) = (ps_with m)\<lparr>ps_key := k, ps_isKey := False\<rparr>"
    by (simp add: parse_step_def ps_with_def ps_init_def eof_char_def)
  then show ?thesis using assms
    by (simp add: parse_plain_key parse_plain_val ps_with_def ps_init_def)
      (simp add: parse_step_def eof_char_def)
qed

lemma parse_lines:
  assumes "\<forall>(k, v)\<in>set kvs. plain k \<and> plain v"
  shows "fold parse_step (print_config kvs) (ps_with m) = ps_with (map_of (kvs) |` (- dom m) ++ m)"
  using assms
proof (induction kvs arbitrary: m)
  case Nil
  then show ?case by (simp add: print_config_def)
next
  case (Cons kv kvs)
  obtain k v where kv: "kv = (k, v)" by (cases kv)
  have "print_config (kv # kvs) = (k @ CHR '':'' # v @ [CHR 0x0A]) @ print_config kvs"
    by (simp add: print_config_def kv)
  then have "fold parse_step (print_config (kv # kvs)) (ps_with m)
      = fold parse_step (print_config kvs) (ps_with (map_insert m k v))"
    using Cons.prems parse_line [of k v m] by (simp only: fold_append comp_apply) (simp add: kv)
  also have "\<dots> = ps_with (map_of kvs |` (- dom (map_insert m k v)) ++ map_insert m k v)"
    using Cons by simp
  also have "map_of kvs |` (- dom (map_insert m k v)) ++ map_insert m k v = map_of (kv # kvs) |` (- dom m) ++ m"
    by (rule ext) (auto simp: map_insert_def kv map_add_def restrict_map_def split: option.splits)
  finally show ?case .
qed

lemma parse_print:
  assumes "\<forall>(k, v)\<in>set kvs. plain k \<and> plain v"
  shows "parse_config (print_config kvs) = map_of (kvs @ [([], [])])"
proof -
  have "fold parse_step (print_config kvs) ps_init = ps_with (map_of kvs)"
    using parse_lines [OF assms, of Map.empty]
    by (simp add: ps_with_def ps_init_def restrict_map_def)
  then show ?thesis
    by (auto simp: parse_config_def parse_step_def ps_with_def ps_init_def eof_char_def map_insert_def
        map_add_def fun_eq_iff split: option.splits)
qed

lemma add_methods_Ok:
  assumes "\<forall>(n, key)\<in>set ns. data key = Some (f n)" and "distinct (map fst ns)" and "\<forall>(n, key)\<in>set ns. m n = None"
  shows "add_methods data ns m = Ok (\<lambda>n. if n \<in> fst ` set ns then Some (f n) else m n)"
  using assms
proof (induction ns arbitrary: m)
  case Nil
  then show ?case by simp
next
  case (Cons p ns)
  obtain n key where p: "p = (n, key)" by (cases p)
  have d: "data key = Some (f n)" "m n = None" using Cons.prems by (auto simp: p)
  have "add_methods data ns (m(n \<mapsto> f n)) = Ok (\<lambda>x. if x \<in> fst ` set ns then Some (f x) else (m(n \<mapsto> f n)) x)"
    using Cons.prems by (intro Cons.IH) (fastforce simp: p image_iff)+
  with d show ?case by (auto simp: p map_insert_def fun_eq_iff)
qed

lemma model_types: "model_of_name name = Some t \<Longrightarrow> t \<in> {M_Mutex, M_Rel_Queue, M_Weak_Queue, M_HW_Queue,
    M_Strong_Queue, M_Rel_Stack, M_Weak_Stack, M_C_Stack, M_Hp_Queue}"
  by (auto simp: model_of_name_def split: if_splits)

lemma methods_of_cases:
  assumes "model_of_name name = Some t" and "methods_of t = Some ms"
  shows "distinct (map fst ms)" "distinct (map snd ms)" "''model'' \<notin> snd ` set ms" "\<forall>(n, key)\<in>set ms. plain key"
    "\<forall>(n, key)\<in>set ms. checkNamesForModel t n"
  using model_types [OF assms(1)] assms(2)
  by (auto simp: methods_of_def is_queue_def is_stack_def plain_char_def eof_char_def checkNamesForModel_def)

lemma model_name_plain: "model_of_name name = Some t \<Longrightarrow> plain name"
  by (auto simp: model_of_name_def plain_char_def eof_char_def split: if_splits)

section \<open>Properties\<close>

text \<open>The configuration text that names a model and gives each of its methods a function.\<close>

definition config_text :: "string \<Rightarrow> (FunctionName \<times> string) list \<Rightarrow> (FunctionName \<Rightarrow> string) \<Rightarrow> string" where
  "config_text name ms f = print_config ((''model'', name) # map (\<lambda>(n, key). (key, f n)) ms)"

text \<open>C31: a configuration file that names an implemented model and gives a function for each of its methods
  is loaded as exactly that model and these functions, and every method it maps is one the model allows.\<close>

theorem config_roundtrip:
  assumes "model_of_name name = Some t" and "methods_of t = Some ms" and "\<forall>(n, key)\<in>set ms. plain (f n)"
    and "link \<noteq> []" and "files link = Some (config_text name ms f)"
  shows "\<exists>m. loadDSModelFromFile files link = Ok m \<and> ds_type m = t
     \<and> (\<forall>n. functioncallMap m n = (if n \<in> fst ` set ms then Some (f n) else None))
     \<and> (\<forall>n\<in>dom (functioncallMap m). checkNamesForModel t n)"
proof -
  note mc = methods_of_cases [OF assms(1,2)]
  let ?kvs = "(''model'', name) # map (\<lambda>(n, key). (key, f n)) ms"
  let ?data = "map_of (?kvs @ [([], [])])"
  have "plain ''model''" by (simp add: plain_char_def eof_char_def)
  then have "parse_config (config_text name ms f) = ?data"
    unfolding config_text_def using mc(4) model_name_plain [OF assms(1)] assms(3)
    by (intro parse_print) fastforce
  moreover have look: "\<And>n key. (n, key) \<in> set ms \<Longrightarrow> ?data key = Some (f n)"
  proof -
    fix n key
    assume that: "(n, key) \<in> set ms"
    have "map_of (map (\<lambda>(n, key). (key, f n)) ms) key = Some (f n)"
      using that mc(2) by (intro map_of_is_SomeI) (force simp: comp_def case_prod_beta)+
    moreover have "key \<noteq> ''model''" using that mc(3) by force
    ultimately show "?data key = Some (f n)" by simp
  qed
  moreover have "add_methods ?data ms Map.empty = Ok (\<lambda>n. if n \<in> fst ` set ms then Some (f n) else None)"
    using mc(1) look by (intro add_methods_Ok) blast+
  moreover have "checkNamesForModel t n" if "n \<in> fst ` set ms" for n using that mc(5) by force
  ultimately show ?thesis using assms
    by (auto simp: loadDSModelFromFile_def model_of_config_def split: if_splits)
qed

theorem config_roundtrip_witness:
  "\<exists>m. loadDSModelFromFile (\<lambda>l. if l = ''q.cfg'' then Some (config_text ''hw_queue''
        [(FN_Enq, ''enqueue''), (FN_Deq, ''dequeue'')] (\<lambda>n. if n = FN_Enq then ''push_back'' else ''pop_front'')) else None) ''q.cfg'' = Ok m
     \<and> ds_type m = M_HW_Queue \<and> functioncallMap m FN_Deq = Some ''pop_front''"
proof -
  let ?f = "\<lambda>n. if n = FN_Enq then ''push_back'' else ''pop_front''"
  let ?ms = "[(FN_Enq, ''enqueue''), (FN_Deq, ''dequeue'')]"
  have "\<exists>m. loadDSModelFromFile (\<lambda>l. if l = ''q.cfg'' then Some (config_text ''hw_queue'' ?ms ?f) else None) ''q.cfg'' = Ok m
     \<and> ds_type m = M_HW_Queue
     \<and> (\<forall>n. functioncallMap m n = (if n \<in> fst ` set ?ms then Some (?f n) else None))
     \<and> (\<forall>n\<in>dom (functioncallMap m). checkNamesForModel M_HW_Queue n)"
    by (rule config_roundtrip) (simp_all add: model_of_name_def methods_of_def is_queue_def plain_char_def eof_char_def)
  then show ?thesis by auto
qed

end
