(* ===== verification/GenMC_Calls.thy ===== *)
theory GenMC_Calls
  imports GenMC_Stamps GenMC_DSModel
begin

text \<open>
  The calls of a data structure in an execution graph: \<open>src/src/FunctionCall.hpp\<close>, the axioms of
  \<open>src/src/Axioms.cpp\<close>, and from \<open>src/src/GenMCDriver.cpp\<close> the values of reads and writes, the search for
  the calls of a graph (\<open>findallFunctionCalls\<close>), the relations between them (\<open>calculateOrder\<close>) and the
  total order of the strong queue (\<open>tryCalcTO\<close>).

  A \<open>std::map<FunctionEvent, std::vector<FunctionEvent>>\<close> is an association list; its \<open>operator[]\<close> gives the
  empty vector for an absent key. The value of a location before the program starts comes from the
  interpreter, a parameter of the model (\<open>initVal\<close>).
\<close>

section \<open>Function calls\<close>

record FunctionCall =
  fc_done :: bool
  fc_values :: "int list"
  fc_event :: FunctionEvent
  fc_labels :: "EventLabel list"
  fc_writes :: "EventLabel list"
  fc_reads :: "EventLabel list"

definition fc_isValueValid :: "FunctionCall \<Rightarrow> bool" where
  "fc_isValueValid f \<longleftrightarrow> fc_values f \<noteq> []"

definition fc_getVal :: "FunctionCall \<Rightarrow> int \<Rightarrow> int" where
  "fc_getVal f i =
     (if fc_isValueValid f
      then if i < 0 \<or> i \<ge> int (length (fc_values f)) then -2 else fc_values f ! nat i
      else -1)"

definition fc_getLastEvent :: "FunctionCall \<Rightarrow> EventLabel res" where
  "fc_getLastEvent f = (if fc_labels f = [] then Undef else Ok (last (fc_labels f)))"

definition fc_getNthWrite :: "FunctionCall \<Rightarrow> nat \<Rightarrow> EventLabel option" where
  "fc_getNthWrite f n = (if n \<ge> length (fc_writes f) then None else Some (fc_writes f ! n))"

definition fc_getLastWrite :: "FunctionCall \<Rightarrow> EventLabel option" where
  "fc_getLastWrite f = (if fc_writes f = [] \<or> \<not> fc_done f then None else Some (last (fc_writes f)))"

definition fc_getCOMorder :: "FunctionCall \<Rightarrow> FunctionEvent list res" where
  "fc_getCOMorder f = rbind (fc_getLastEvent f) (\<lambda>l. Ok (lCOM l))"

definition fc_getSOorder :: "FunctionCall \<Rightarrow> FunctionEvent list res" where
  "fc_getSOorder f = rbind (fc_getLastEvent f) (\<lambda>l. Ok (lSO l))"

section \<open>Values\<close>

text \<open>\<open>visitError\<close> reports a mixed-size access and stops, the value \<open>UserError\<close> of the model.\<close>

definition getWriteValue :: "(SAddr \<Rightarrow> AAccess \<Rightarrow> SVal) \<Rightarrow> ExecutionGraph \<Rightarrow> Event \<Rightarrow> SAddr \<Rightarrow> AAccess \<Rightarrow> SVal res" where
  "getWriteValue initVal g write addr access =
     (if isBottom write then Ok 0
      else if isInitializer write then Ok (initVal addr access)
      else rbind (getEventLabel g write) (\<lambda>w.
        rbind (BUG_ON (\<not> isa_Write (lkind w))) (\<lambda>_.
          if asize (laccess w) \<noteq> asize access then UserError else Ok (lval w))))"

definition getReadValue :: "(SAddr \<Rightarrow> AAccess \<Rightarrow> SVal) \<Rightarrow> ExecutionGraph \<Rightarrow> EventLabel \<Rightarrow> SVal res" where
  "getReadValue initVal g r = getWriteValue initVal g (lrf r) (laddr r) (laccess r)"

section \<open>Finding the calls\<close>

text \<open>The events that are endpoints of COM edges: reads, and the reads of CASes, where the COM list grows. The
  code forms the pointer \<open>prev\<close> before it knows the kind of the label, for a thread's first label from an
  element before the vector; the model looks the label up where it is used.\<close>

definition com_vertices_step :: "ExecutionGraph \<Rightarrow> int \<Rightarrow> int \<Rightarrow> Event list \<Rightarrow> Event list res" where
  "com_vertices_step g i j vs =
     (if i = 0 \<and> j < 2 then Ok vs
      else rbind (getEventLabel g (Event i j)) (\<lambda>l.
        if isa_Read (lkind l)
        then rbind (getEventLabel g (Event i (j - 1))) (\<lambda>p.
          Ok (if length (lCOM l) > length (lCOM p) then vs @ [lpos l, lrf l] else vs))
        else if isa_CasWrite (lkind l)
        then rbind (getEventLabel g (Event i (j - 1))) (\<lambda>p.
          Ok (if length (lCOM l) > length (lCOM p) \<and> isa_Read (lkind p) then vs @ [lpos p, lrf p] else vs))
        else Ok vs))"

definition com_vertices :: "ExecutionGraph \<Rightarrow> Event list res" where
  "com_vertices g =
     rfold (\<lambda>i vs. rbind (getThreadSize g i) (\<lambda>n. rfold (com_vertices_step g i) [0..n - 1] vs))
       [0..int (numThreads g) - 1] []"

text \<open>The variables of the collecting loop.\<close>

record Collect =
  cl_currFunc :: FunctionName
  cl_currvals :: "int list"
  cl_lbl :: "EventLabel list"
  cl_w :: "EventLabel list"
  cl_r :: "EventLabel list"
  cl_calls :: "FunctionCall list"

definition hp_method :: "FunctionName \<Rightarrow> bool" where
  "hp_method n \<longleftrightarrow> n = FN_Protect0 \<or> n = FN_Unprotect0 \<or> n = FN_Protect1 \<or> n = FN_Unprotect1 \<or> n = FN_Reclaim"

text \<open>Emitting a call clears the vectors and forgets the current function.\<close>

definition emit_call :: "bool \<Rightarrow> Collect \<Rightarrow> Collect" where
  "emit_call done c =
     c\<lparr>cl_currFunc := FN_NON, cl_currvals := [], cl_lbl := [], cl_w := [], cl_r := [],
       cl_calls := cl_calls c @ [\<lparr>fc_done = done, fc_values = cl_currvals c,
         fc_event = FunctionEvent (lmethod (cl_lbl c ! 0)) (linvocation (cl_lbl c ! 0)),
         fc_labels = cl_lbl c, fc_writes = cl_w c, fc_reads = cl_r c\<rparr>]\<rparr>"

text \<open>\<open>getSigned()\<close> is an \<open>int64_t\<close> pushed into a vector of \<open>int\<close>: its low 32 bits, signed.\<close>

definition to_int32 :: "SVal \<Rightarrow> int" where
  "to_int32 v = sint (ucast v :: 32 word)"

definition collect_step :: "(SAddr \<Rightarrow> AAccess \<Rightarrow> SVal) \<Rightarrow> ExecutionGraph \<Rightarrow> Event list \<Rightarrow> int \<Rightarrow> int \<Rightarrow> Collect \<Rightarrow> Collect res" where
  "collect_step initVal g vs i j c0 =
     (if i = 0 \<and> j < 1 then Ok c0
      else rbind (getEventLabel g (Event i j)) (\<lambda>l.
        let c1 = (if lkind l = EL_FunStart then c0\<lparr>cl_currFunc := lmethod l\<rparr> else c0) in
        if lmethod l = cl_currFunc c1 \<and> cl_currFunc c1 \<noteq> FN_NON
        then
          let c2 = c1\<lparr>cl_lbl := cl_lbl c1 @ [l],
                      cl_currvals := (if hp_method (cl_currFunc c1) then cl_currvals c1 @ [i] else cl_currvals c1)\<rparr> in
          rbind (if isa_Read (lkind l)
                 then rbind (if Event i j \<in> set vs
                        then rbind (getReadValue initVal g l) (\<lambda>v. Ok (cl_currvals c2 @ [to_int32 v]))
                        else Ok (cl_currvals c2)) (\<lambda>vals.
                      Ok (c2\<lparr>cl_currvals := vals, cl_r := cl_r c2 @ [l]\<rparr>))
                 else Ok c2) (\<lambda>c3.
          rbind (if isa_Write (lkind l)
                 then rbind (if Event i j \<in> set vs
                        then rbind (getWriteValue initVal g (lpos l) (laddr l) (laccess l)) (\<lambda>v.
                               Ok (cl_currvals c3 @ [to_int32 v]))
                        else Ok (cl_currvals c3)) (\<lambda>vals.
                      Ok (c3\<lparr>cl_currvals := vals, cl_w := cl_w c3 @ [l]\<rparr>))
                 else Ok c3) (\<lambda>c4.
          if lkind l = EL_FunEnd then Ok (emit_call True c4)
          else if lkind l = EL_FunStart then Ok (emit_call False c4)
          else rbind (getThreadSize g i) (\<lambda>n.
            if eindex (lpos l) = n - 1 \<and> cl_currFunc c4 \<noteq> FN_NON then Ok (emit_call False c4) else Ok c4)))
        else Ok c1))"

definition findallFunctionCalls :: "(SAddr \<Rightarrow> AAccess \<Rightarrow> SVal) \<Rightarrow> ExecutionGraph \<Rightarrow> FunctionCall list res" where
  "findallFunctionCalls initVal g =
     rbind (com_vertices g) (\<lambda>vs.
       rfold (\<lambda>i calls. rbind (getThreadSize g i) (\<lambda>n.
         rbind (rfold (collect_step initVal g vs i) [0..n - 1]
             \<lparr>cl_currFunc = FN_NON, cl_currvals = [], cl_lbl = [], cl_w = [], cl_r = [], cl_calls = calls\<rparr>)
           (\<lambda>c. Ok (cl_calls c)))) [0..int (numThreads g) - 1] [])"

section \<open>The relations\<close>

type_synonym RelMap = "(FunctionEvent \<times> FunctionEvent list) list"

definition rel_at :: "RelMap \<Rightarrow> FunctionEvent \<Rightarrow> FunctionEvent list" where
  "rel_at m e = (case map_of m e of None \<Rightarrow> [] | Some v \<Rightarrow> v)"

text \<open>The position of the first call with the same event.\<close>

fun call_index :: "FunctionCall list \<Rightarrow> FunctionCall \<Rightarrow> nat" where
  "call_index [] f = 0"
| "call_index (h # hs) f = (if fc_event h = fc_event f then 0 else Suc (call_index hs f))"

definition first_label :: "FunctionCall \<Rightarrow> EventLabel res" where
  "first_label f = vec_get (fc_labels f) 0"

definition po_pairs :: "FunctionCall list \<Rightarrow> FunctionCall \<Rightarrow> (FunctionEvent \<times> FunctionEvent) list res" where
  "po_pairs functions f =
     (let idx = call_index functions f in
      if int idx < int (length functions) - 1
      then rbind (vec_get functions (idx + 1)) (\<lambda>testf.
        rbind (first_label f) (\<lambda>a. rbind (first_label testf) (\<lambda>b.
          Ok (if ethread (lpos a) = ethread (lpos b) then [(fc_event f, fc_event testf)] else []))))
      else Ok [])"

definition calc_pairs :: "FunctionCall list \<Rightarrow>
    ((FunctionEvent \<times> FunctionEvent) list \<times> (FunctionEvent \<times> FunctionEvent) list \<times> (FunctionEvent \<times> FunctionEvent) list) res" where
  "calc_pairs functions =
     rfold (\<lambda>f (povec, comvec, sovec).
         rbind (po_pairs functions f) (\<lambda>po.
         rbind (fc_getCOMorder f) (\<lambda>cs.
         rbind (fc_getSOorder f) (\<lambda>ss.
           Ok (povec @ po, comvec @ map (\<lambda>c. (c, fc_event f)) cs, sovec @ map (\<lambda>s. (s, fc_event f)) ss)))))
       functions ([], [], [])"

definition succs :: "(FunctionEvent \<times> FunctionEvent) list \<Rightarrow> FunctionEvent \<Rightarrow> FunctionEvent list" where
  "succs ps e = map snd (filter (\<lambda>p. fst p = e) ps)"

definition preds :: "(FunctionEvent \<times> FunctionEvent) list \<Rightarrow> FunctionEvent \<Rightarrow> FunctionEvent list" where
  "preds ps e = map fst (filter (\<lambda>p. snd p = e) ps)"

definition push_new :: "FunctionEvent \<Rightarrow> FunctionEvent list \<Rightarrow> FunctionEvent list" where
  "push_new v xs = (if v \<in> set xs then xs else xs @ [v])"

text \<open>The worklist loop that closes \<open>poso\<close> under PO and SO.\<close>

definition rel_targets :: "RelMap \<Rightarrow> FunctionEvent set" where
  "rel_targets m = (\<Union>p\<in>set m. set (snd p))"

lemma finite_rel_targets [simp]: "finite (rel_targets m)"
  by (simp add: rel_targets_def)

lemma rel_at_targets: "set (rel_at m e) \<subseteq> rel_targets m"
proof (cases "map_of m e")
  case (Some v)
  then show ?thesis by (force simp: rel_at_def rel_targets_def dest: map_of_SomeD)
qed (simp add: rel_at_def)

lemma fold_push_new:
  "set (fold push_new vs xs) = set vs \<union> set xs"
  "distinct xs \<Longrightarrow> distinct (fold push_new vs xs)"
  by (induction vs arbitrary: xs) (auto simp: push_new_def)

lemma fold_push_new_prefix: "\<exists>ys. fold push_new vs xs = xs @ ys \<and> set ys \<inter> set xs = {} \<and> distinct ys \<and> set ys \<subseteq> set vs"
proof (induction vs arbitrary: xs)
  case (Cons v vs)
  obtain ys where ys: "fold push_new vs (push_new v xs) = push_new v xs @ ys" "set ys \<inter> set (push_new v xs) = {}"
    "distinct ys" "set ys \<subseteq> set vs" using Cons by blast
  show ?case
  proof (cases "v \<in> set xs")
    case True
    then have "push_new v xs = xs" by (simp add: push_new_def)
    then show ?thesis using ys by (intro exI [of _ ys]) auto
  next
    case False
    then have "push_new v xs = xs @ [v]" by (simp add: push_new_def)
    then show ?thesis using ys False by (intro exI [of _ "v # ys"]) auto
  qed
qed simp

function lhb_loop :: "RelMap \<Rightarrow> RelMap \<Rightarrow> FunctionEvent list \<Rightarrow> nat \<Rightarrow> FunctionEvent list" where
  "lhb_loop po so poso idx =
     (if idx < length poso
      then let curr = poso ! idx
           in lhb_loop po so (fold push_new (rel_at so curr) (fold push_new (rel_at po curr) poso)) (idx + 1)
      else poso)"
  by pat_completeness auto
termination
proof (relation "measure (\<lambda>(po, so, poso, idx).
    card ((rel_targets po \<union> rel_targets so) - set poso) + (length poso - idx))", goal_cases)
  case 1
  then show ?case by simp
next
  case (2 po so poso idx curr)
  let ?U = "rel_targets po \<union> rel_targets so"
  let ?n = "fold push_new (rel_at so curr) (fold push_new (rel_at po curr) poso)"
  have "?n = fold push_new (rel_at po curr @ rel_at so curr) poso" by simp
  then obtain ys where ys: "?n = poso @ ys" "set ys \<inter> set poso = {}" "distinct ys"
    "set ys \<subseteq> set (rel_at po curr @ rel_at so curr)"
    using fold_push_new_prefix by metis
  have sub: "set ys \<subseteq> ?U - set poso" using ys(2,4) rel_at_targets by fastforce
  have "?U - set ?n = (?U - set poso) - set ys" using ys(1) by auto
  then have "card (?U - set ?n) = card (?U - set poso) - length ys"
    using card_Diff_subset [OF _ sub] distinct_card [OF ys(3)] by simp
  moreover have "length ys \<le> card (?U - set poso)"
    using card_mono [OF _ sub] distinct_card [OF ys(3)] by simp
  ultimately show ?case using 2(1) ys(1) by simp
qed

declare lhb_loop.simps [simp del]

definition lhb_of :: "RelMap \<Rightarrow> RelMap \<Rightarrow> FunctionEvent \<Rightarrow> FunctionEvent list" where
  "lhb_of po so e = lhb_loop po so (fold push_new (rel_at so e) (fold push_new (rel_at po e) [])) 0"

type_synonym Relations = "OrderType \<Rightarrow> RelMap"

definition calculateOrder :: "FunctionCall list \<Rightarrow> Relations res" where
  "calculateOrder functions =
     rbind (calc_pairs functions) (\<lambda>(povec, comvec, sovec).
       let tab = (\<lambda>h. map (\<lambda>f. (fc_event f, h (fc_event f))) functions);
           po = tab (succs povec); com = tab (succs comvec); invcom = tab (preds comvec);
           so = tab (succs sovec); invso = tab (preds sovec);
           lhb = tab (lhb_of po so)
       in Ok (\<lambda>ord. case ord of PO \<Rightarrow> po | COM \<Rightarrow> com | INVCOM \<Rightarrow> invcom | SO \<Rightarrow> so | INVSO \<Rightarrow> invso | LHB \<Rightarrow> lhb))"

section \<open>The total order\<close>

text \<open>Whether a call may come next: it happens before the last call of the order (if there is one) and only
  before calls of the order.\<close>

definition to_candidate :: "RelMap \<Rightarrow> FunctionEvent list \<Rightarrow> FunctionEvent \<Rightarrow> bool" where
  "to_candidate lhb to f \<longleftrightarrow>
     (to = [] \<or> last to \<in> set (rel_at lhb f)) \<and> (\<forall>e\<in>set (rel_at lhb f). e \<in> set to)"

text \<open>The code keeps a pointer to the loop's copy of the call it found, past the copy's lifetime; the model
  reads the value the copy had.\<close>

function to_loop :: "RelMap \<Rightarrow> FunctionEvent list \<Rightarrow> FunctionEvent list \<Rightarrow> FunctionEvent list" where
  "to_loop lhb to calls =
     (if calls = [] then to
      else case List.find (to_candidate lhb to) calls of
        None \<Rightarrow> to
      | Some current \<Rightarrow> to_loop lhb (to @ [current]) (remove1 current calls))"
  by pat_completeness auto
termination
  by (relation "measure (\<lambda>(lhb, to, calls). length calls)")
    (auto simp: find_Some_iff length_remove1 in_set_conv_nth)

declare to_loop.simps [simp del]

definition tryCalcTO :: "RelMap \<Rightarrow> FunctionCall list \<Rightarrow> FunctionEvent list" where
  "tryCalcTO lhb functioncalls = to_loop lhb [] (map fc_event functioncalls)"

end
