(* ===== verification/GenMC_CallProps.thy ===== *)
theory GenMC_CallProps
  imports GenMC_Calls "HOL-Library.Multiset"
begin

text \<open>
  Correctness of the relations between calls: LHB is the transitive closure of PO and SO, the order that
  \<open>tryCalcTO\<close> builds is a chain of LHB, and what \<open>findallFunctionCalls\<close> collects.
\<close>

section \<open>LHB\<close>

definition poso_rel :: "RelMap \<Rightarrow> RelMap \<Rightarrow> (FunctionEvent \<times> FunctionEvent) set" where
  "poso_rel po so = {(a, b). b \<in> set (rel_at po a) \<or> b \<in> set (rel_at so a)}"

text \<open>The loop keeps what it has, stays inside \<open>S\<close> and closes the list under the relation.\<close>

lemma lhb_loop_closure:
  assumes "\<forall>k<idx. \<forall>b. (poso ! k, b) \<in> poso_rel po so \<longrightarrow> b \<in> set poso" and "idx \<le> length poso"
    and "set poso \<subseteq> S" and "\<forall>a b. a \<in> S \<longrightarrow> (a, b) \<in> poso_rel po so \<longrightarrow> b \<in> S" and "distinct poso"
  shows "set poso \<subseteq> set (lhb_loop po so poso idx) \<and> set (lhb_loop po so poso idx) \<subseteq> S
     \<and> distinct (lhb_loop po so poso idx)
     \<and> (\<forall>a\<in>set (lhb_loop po so poso idx). \<forall>b. (a, b) \<in> poso_rel po so \<longrightarrow> b \<in> set (lhb_loop po so poso idx))"
  using assms
proof (induction po so poso idx rule: lhb_loop.induct)
  case (1 po so poso idx)
  show ?case
  proof (cases "idx < length poso")
    case False
    then have "lhb_loop po so poso idx = poso" "idx = length poso"
      using "1.prems"(2) by (simp_all add: lhb_loop.simps)
    moreover have "b \<in> set poso" if "a \<in> set poso" "(a, b) \<in> poso_rel po so" for a b
      using that "1.prems"(1) calculation(2) unfolding in_set_conv_nth [of a] by blast
    ultimately show ?thesis using "1.prems"(3,5) by simp
  next
    case True
    let ?c = "poso ! idx"
    let ?n = "fold push_new (rel_at so ?c) (fold push_new (rel_at po ?c) poso)"
    have n: "set ?n = set poso \<union> set (rel_at po ?c) \<union> set (rel_at so ?c)" "distinct ?n"
      using "1.prems"(5) by (auto simp: fold_push_new)
    obtain ys where ys: "?n = poso @ ys"
      using fold_push_new_prefix [of "rel_at po ?c @ rel_at so ?c" poso] by auto
    have nth: "?n ! k = poso ! k" if "k < length poso" for k using that by (simp add: ys nth_append)
    have c: "?c \<in> S" using True "1.prems"(3) by (meson nth_mem subsetD)
    have "b \<in> S" if "(?c, b) \<in> poso_rel po so" for b using c "1.prems"(4) that by blast
    then have r: "set (rel_at po ?c) \<union> set (rel_at so ?c) \<subseteq> S" unfolding poso_rel_def by blast
    have IH: "set ?n \<subseteq> set (lhb_loop po so ?n (idx + 1)) \<and> set (lhb_loop po so ?n (idx + 1)) \<subseteq> S
       \<and> distinct (lhb_loop po so ?n (idx + 1))
       \<and> (\<forall>a\<in>set (lhb_loop po so ?n (idx + 1)). \<forall>b. (a, b) \<in> poso_rel po so \<longrightarrow> b \<in> set (lhb_loop po so ?n (idx + 1)))"
    proof (rule "1.IH" [OF True refl])
      show "\<forall>k<idx + 1. \<forall>b. (?n ! k, b) \<in> poso_rel po so \<longrightarrow> b \<in> set ?n"
      proof (intro allI impI)
        fix k b
        assume k: "k < idx + 1" and b: "(?n ! k, b) \<in> poso_rel po so"
        then have k': "?n ! k = poso ! k" using nth True by simp
        show "b \<in> set ?n"
        proof (cases "k = idx")
          case True
          then show ?thesis using b k' unfolding n(1) by (simp add: poso_rel_def)
        next
          case False
          then have "k < idx" using k by simp
          then show ?thesis using "1.prems"(1) b k' unfolding n(1) by simp
        qed
      qed
      show "idx + 1 \<le> length ?n" using True by (simp add: ys)
      show "set ?n \<subseteq> S" using r "1.prems"(3) unfolding n(1) by blast
    qed (use n(2) "1.prems"(4) in simp_all)
    have eq: "lhb_loop po so poso idx = lhb_loop po so ?n (idx + 1)"
      using True by (subst lhb_loop.simps) (simp add: Let_def)
    show ?thesis unfolding eq using IH n(1) by blast
  qed
qed

lemma closed_trancl:
  assumes "\<And>b. (e, b) \<in> R \<Longrightarrow> b \<in> T" and "\<And>a b. a \<in> T \<Longrightarrow> (a, b) \<in> R \<Longrightarrow> b \<in> T" and "(e, x) \<in> R\<^sup>+"
  shows "x \<in> T"
  using assms(3) by (induction rule: trancl_induct) (use assms(1,2) in blast)+

lemma lhb_of_correct:
  "set (lhb_of po so e) = {x. (e, x) \<in> (poso_rel po so)\<^sup>+}" "distinct (lhb_of po so e)"
proof -
  let ?R = "poso_rel po so" and ?p = "fold push_new (rel_at so e) (fold push_new (rel_at po e) [])"
  have p: "set ?p = {x. (e, x) \<in> ?R}" by (auto simp: fold_push_new poso_rel_def)
  have d: "distinct ?p" by (simp add: fold_push_new)
  have "set ?p \<subseteq> {x. (e, x) \<in> ?R\<^sup>+}" unfolding p by auto
  moreover have "\<forall>a b. a \<in> {x. (e, x) \<in> ?R\<^sup>+} \<longrightarrow> (a, b) \<in> ?R \<longrightarrow> b \<in> {x. (e, x) \<in> ?R\<^sup>+}" by auto
  ultimately have l: "set ?p \<subseteq> set (lhb_of po so e)" "set (lhb_of po so e) \<subseteq> {x. (e, x) \<in> ?R\<^sup>+}"
    "distinct (lhb_of po so e)" "\<forall>a\<in>set (lhb_of po so e). \<forall>b. (a, b) \<in> ?R \<longrightarrow> b \<in> set (lhb_of po so e)"
    using lhb_loop_closure [of 0 ?p po so "{x. (e, x) \<in> ?R\<^sup>+}"] d unfolding lhb_of_def by auto
  then show "distinct (lhb_of po so e)" by simp
  have "x \<in> set (lhb_of po so e)" if "(e, x) \<in> ?R\<^sup>+" for x
    by (rule closed_trancl [OF _ _ that]) (use l(1,4) p in blast)+
  with l(2) show "set (lhb_of po so e) = {x. (e, x) \<in> ?R\<^sup>+}" by blast
qed

lemma rel_at_tab:
  "rel_at (map (\<lambda>f. (fc_event f, h (fc_event f))) fs) e = (if e \<in> fc_event ` set fs then h e else [])"
  by (induction fs) (auto simp: rel_at_def)

section \<open>The total order\<close>

lemma to_loop_inv:
  assumes "\<And>x y. x \<in> set to \<Longrightarrow> y \<in> set (rel_at lhb x) \<Longrightarrow> y \<in> set to"
    and "\<And>i. Suc i < length to \<Longrightarrow> to ! i \<in> set (rel_at lhb (to ! Suc i))"
  shows "\<exists>ys. to_loop lhb to calls = to @ ys \<and> mset ys \<subseteq># mset calls
     \<and> (\<forall>i. Suc i < length (to @ ys) \<longrightarrow> (to @ ys) ! i \<in> set (rel_at lhb ((to @ ys) ! Suc i)))
     \<and> (\<forall>i<length (to @ ys). \<forall>y\<in>set (rel_at lhb ((to @ ys) ! i)). y \<in> set (take i (to @ ys)) \<or> i < length to)"
  using assms
proof (induction lhb to calls rule: to_loop.induct)
  case (1 lhb to calls)
  have triv: "\<exists>ys. to = to @ ys \<and> mset ys \<subseteq># mset calls
     \<and> (\<forall>i. Suc i < length (to @ ys) \<longrightarrow> (to @ ys) ! i \<in> set (rel_at lhb ((to @ ys) ! Suc i)))
     \<and> (\<forall>i<length (to @ ys). \<forall>y\<in>set (rel_at lhb ((to @ ys) ! i)). y \<in> set (take i (to @ ys)) \<or> i < length to)"
    using "1.prems"(2) by (intro exI [of _ "[]"]) simp
  show ?case
  proof (cases "calls = []")
    case True
    then have "to_loop lhb to calls = to" by (simp add: to_loop.simps)
    then show ?thesis using triv by metis
  next
    case False
    show ?thesis
    proof (cases "List.find (to_candidate lhb to) calls")
      case None
      then have "to_loop lhb to calls = to" using False by (simp add: to_loop.simps)
      then show ?thesis using triv by metis
    next
      case (Some c)
      then have cc: "to_candidate lhb to c" "c \<in> set calls"
        by (auto simp: find_Some_iff)
      have eq: "to_loop lhb to calls = to_loop lhb (to @ [c]) (remove1 c calls)"
        using False Some by (subst to_loop.simps) simp
      have "\<exists>ys. to_loop lhb (to @ [c]) (remove1 c calls) = (to @ [c]) @ ys \<and> mset ys \<subseteq># mset (remove1 c calls)
         \<and> (\<forall>i. Suc i < length ((to @ [c]) @ ys) \<longrightarrow> ((to @ [c]) @ ys) ! i \<in> set (rel_at lhb (((to @ [c]) @ ys) ! Suc i)))
         \<and> (\<forall>i<length ((to @ [c]) @ ys). \<forall>y\<in>set (rel_at lhb (((to @ [c]) @ ys) ! i)).
              y \<in> set (take i ((to @ [c]) @ ys)) \<or> i < length (to @ [c]))"
      proof (rule "1.IH" [OF False Some])
        fix x y
        assume "x \<in> set (to @ [c])" "y \<in> set (rel_at lhb x)"
        then show "y \<in> set (to @ [c])" using "1.prems"(1) cc(1) by (auto simp: to_candidate_def)
      next
        fix i
        assume i: "Suc i < length (to @ [c])"
        show "(to @ [c]) ! i \<in> set (rel_at lhb ((to @ [c]) ! Suc i))"
        proof (cases "Suc i < length to")
          case True
          then show ?thesis using "1.prems"(2) by (simp add: nth_append)
        next
          case False
          then have "i = length to - 1" "to \<noteq> []" using i by auto
          then show ?thesis using cc(1) by (auto simp: to_candidate_def nth_append last_conv_nth)
        qed
      qed
      then obtain ys where ys: "to_loop lhb (to @ [c]) (remove1 c calls) = to @ (c # ys)" "mset ys \<subseteq># mset (remove1 c calls)"
        "\<forall>i. Suc i < length (to @ (c # ys)) \<longrightarrow> (to @ (c # ys)) ! i \<in> set (rel_at lhb ((to @ (c # ys)) ! Suc i))"
        "\<forall>i<length (to @ (c # ys)). \<forall>y\<in>set (rel_at lhb ((to @ (c # ys)) ! i)). y \<in> set (take i (to @ (c # ys))) \<or> i < length (to @ [c])"
        by auto
      have "mset (c # ys) \<subseteq># mset calls"
        using ys(2) cc(2) by (simp add: insert_subset_eq_iff)
      moreover have "y \<in> set (take i (to @ (c # ys))) \<or> i < length to"
        if "i < length (to @ (c # ys))" "y \<in> set (rel_at lhb ((to @ (c # ys)) ! i))" for i y
      proof (cases "i = length to")
        case True
        then show ?thesis using that(2) cc(1) by (auto simp: to_candidate_def nth_append)
      next
        case False
        then have "i < length to \<or> \<not> i < length (to @ [c])" by auto
        then show ?thesis using ys(4) that by blast
      qed
      ultimately show ?thesis unfolding eq using ys(1,3) by (intro exI [of _ "c # ys"]) blast
    qed
  qed
qed

lemma tryCalcTO_chain:
  "mset (tryCalcTO lhb calls) \<subseteq># mset (map fc_event calls)
   \<and> (\<forall>i. Suc i < length (tryCalcTO lhb calls) \<longrightarrow>
        tryCalcTO lhb calls ! i \<in> set (rel_at lhb (tryCalcTO lhb calls ! Suc i)))
   \<and> (\<forall>i<length (tryCalcTO lhb calls). set (rel_at lhb (tryCalcTO lhb calls ! i)) \<subseteq> set (take i (tryCalcTO lhb calls)))"
  using to_loop_inv [of "[]" lhb "map fc_event calls"] unfolding tryCalcTO_def by auto

section \<open>What the search for calls collects\<close>

lemma upto_map_int: "[0..int n - 1] = map int [0..<n]"
proof (induction n)
  case (Suc n)
  then show ?case by (simp add: upto_rec2)
qed simp

text \<open>A loop over indices whose body appends what the element at the index contributes.\<close>

lemma rfold_concat:
  assumes "\<And>i acc. i < length xs \<Longrightarrow> f (int i) (mk acc) = Ok (mk (acc @ h (int i) (xs ! i)))"
  shows "rfold f [0..int (length xs) - 1] (mk acc)
     = Ok (mk (acc @ concat (map (\<lambda>i. h (int i) (xs ! i)) [0..<length xs])))"
proof -
  have "rfold f (map int [0..<n]) (mk acc) = Ok (mk (acc @ concat (map (\<lambda>i. h (int i) (xs ! i)) [0..<n])))"
    if "n \<le> length xs" for n
    using that by (induction n) (simp_all add: assms)
  then show ?thesis by (simp add: upto_map_int)
qed

definition start_call :: "int \<Rightarrow> EventLabel \<Rightarrow> FunctionCall" where
  "start_call i l = \<lparr>fc_done = False, fc_values = (if hp_method (lmethod l) then [i] else []),
     fc_event = FunctionEvent (lmethod l) (linvocation l), fc_labels = [l], fc_writes = [], fc_reads = []\<rparr>"

definition is_start :: "EventLabel \<Rightarrow> bool" where
  "is_start l \<longleftrightarrow> lkind l = EL_FunStart \<and> lmethod l \<noteq> FN_NON"

definition start_calls :: "ExecutionGraph \<Rightarrow> FunctionCall list" where
  "start_calls g = concat (map (\<lambda>i. map (start_call (int i)) (filter is_start (events g ! i))) [0..<numThreads g])"

text \<open>Every thread begins with its start event, as the driver builds it.\<close>

definition starts_ok :: "ExecutionGraph \<Rightarrow> bool" where
  "starts_ok g \<longleftrightarrow> (\<forall>t\<in>set (events g). t \<noteq> [] \<longrightarrow> lkind (hd t) = EL_ThreadStart)"

abbreviation fresh_collect :: "FunctionCall list \<Rightarrow> Collect" where
  "fresh_collect calls \<equiv> \<lparr>cl_currFunc = FN_NON, cl_currvals = [], cl_lbl = [], cl_w = [], cl_r = [], cl_calls = calls\<rparr>"

lemma getThreadSize_nat [simp]: "i < numThreads g \<Longrightarrow> getThreadSize g (int i) = Ok (int (length (events g ! i)))"
  by (simp add: getThreadSize_def)

lemma getEventLabel_nat [simp]:
  "i < numThreads g \<Longrightarrow> j < length (events g ! i) \<Longrightarrow> getEventLabel g (Event (int i) (int j)) = Ok (events g ! i ! j)"
  by (simp add: getEventLabel_def)

lemma starts_okD: "starts_ok g \<Longrightarrow> i < numThreads g \<Longrightarrow> events g ! i \<noteq> [] \<Longrightarrow> lkind (events g ! i ! 0) = EL_ThreadStart"
  unfolding starts_ok_def by (metis hd_conv_nth nth_mem)

lemma kind_FunStart [simp]: "\<not> isa_Read EL_FunStart" "\<not> isa_Write EL_FunStart"
  and kind_ThreadStart [simp]: "\<not> isa_Read EL_ThreadStart" "\<not> isa_CasWrite EL_ThreadStart"
  by (simp_all add: isa_defs)

text \<open>The loop never leaves the state with no current function: the call is emitted at its start event.\<close>

lemma collect_step_fresh:
  assumes "starts_ok g" and "i < numThreads g" and "j < length (events g ! i)"
  shows "collect_step initVal g vs (int i) (int j) (fresh_collect calls)
     = Ok (fresh_collect (calls @ (if is_start (events g ! i ! j) then [start_call (int i) (events g ! i ! j)] else [])))"
proof (cases "i = 0 \<and> j = 0")
  case True
  then have "\<not> is_start (events g ! i ! j)" using starts_okD [OF assms(1,2)] assms(3) by (auto simp: is_start_def)
  with True show ?thesis by (simp add: collect_step_def)
next
  case False
  with assms(2,3) show ?thesis
    by (simp add: collect_step_def is_start_def start_call_def emit_call_def Let_def)
qed

lemma concat_single_filter: "concat (map (\<lambda>j. if P (xs ! j) then [h (xs ! j)] else []) [0..<length xs]) = map h (filter P xs)"
proof (induction xs rule: rev_induct)
  case (snoc x xs)
  have "map (\<lambda>j. if P ((xs @ [x]) ! j) then [h ((xs @ [x]) ! j)] else []) [0..<length xs]
      = map (\<lambda>j. if P (xs ! j) then [h (xs ! j)] else []) [0..<length xs]"
    by (rule map_cong) (simp_all add: nth_append)
  then show ?case by (simp add: snoc del: map_eq_conv)
qed simp

lemma collect_thread:
  assumes "starts_ok g" and "i < numThreads g"
  shows "rfold (collect_step initVal g vs (int i)) [0..int (length (events g ! i)) - 1] (fresh_collect calls)
     = Ok (fresh_collect (calls @ map (start_call (int i)) (filter is_start (events g ! i))))"
  using rfold_concat [where mk = fresh_collect and xs = "events g ! i" and f = "collect_step initVal g vs (int i)"
      and h = "\<lambda>_ l. if is_start l then [start_call (int i) l] else []"]
    collect_step_fresh [OF assms] by (simp add: concat_single_filter)

lemma com_vertices_step_Ok:
  assumes "starts_ok g" and "i < numThreads g" and "j < length (events g ! i)"
  shows "is_ok (com_vertices_step g (int i) (int j) vs)"
proof (cases j)
  case 0
  then have k: "lkind (events g ! i ! 0) = EL_ThreadStart" using starts_okD [OF assms(1,2)] assms(3) by auto
  have "getEventLabel g (Event (int i) 0) = Ok (events g ! i ! 0)"
    using getEventLabel_nat [OF assms(2), of 0] assms(3) 0 by simp
  with k 0 show ?thesis by (simp add: com_vertices_step_def)
next
  case (Suc k)
  have "getEventLabel g (Event (int i) (int j)) = Ok (events g ! i ! j)"
    "getEventLabel g (Event (int i) (int j - 1)) = Ok (events g ! i ! k)"
    using getEventLabel_nat [of i g j] getEventLabel_nat [of i g k] assms(2,3) Suc by simp_all
  then show ?thesis by (simp add: com_vertices_step_def)
qed

lemma rfold_is_ok:
  assumes "\<And>x s. x \<in> set xs \<Longrightarrow> is_ok (f x s)"
  shows "is_ok (rfold f xs s)"
  using assms
proof (induction xs arbitrary: s)
  case (Cons a xs)
  obtain s' where "f a s = Ok s'" using Cons.prems [of a s] by (auto simp: is_ok_iff)
  then show ?case using Cons by simp
qed simp

lemma com_vertices_Ok: "starts_ok g \<Longrightarrow> is_ok (com_vertices g)"
  unfolding com_vertices_def upto_map_int
  by (rule rfold_is_ok, clarsimp simp: upto_map_int, rule rfold_is_ok) (auto intro: com_vertices_step_Ok)

lemma findall_starts:
  assumes "starts_ok g"
  shows "findallFunctionCalls initVal g = Ok (start_calls g)"
proof -
  obtain vs where "com_vertices g = Ok vs" using com_vertices_Ok [OF assms] by (auto simp: is_ok_iff)
  then show ?thesis
    using rfold_concat [where mk = "\<lambda>x. x" and xs = "events g" and acc = "[]"
        and f = "\<lambda>i calls. rbind (getThreadSize g i) (\<lambda>n.
         rbind (rfold (collect_step initVal g vs i) [0..n - 1] (fresh_collect calls)) (\<lambda>c. Ok (cl_calls c)))"
        and h = "\<lambda>i t. map (start_call i) (filter is_start t)"]
    by (simp add: findallFunctionCalls_def start_calls_def collect_thread [OF assms])
qed

section \<open>The relations of a list of calls\<close>

abbreviation call_ok :: "FunctionCall \<Rightarrow> bool" where
  "call_ok f \<equiv> fc_labels f \<noteq> []"

definition po_of :: "FunctionCall list \<Rightarrow> FunctionCall \<Rightarrow> (FunctionEvent \<times> FunctionEvent) list" where
  "po_of functions f = (let idx = call_index functions f in
     if idx + 1 < length functions \<and>
        ethread (lpos (hd (fc_labels f))) = ethread (lpos (hd (fc_labels (functions ! (idx + 1)))))
     then [(fc_event f, fc_event (functions ! (idx + 1)))] else [])"

definition com_of :: "FunctionCall list \<Rightarrow> (FunctionEvent \<times> FunctionEvent) list" where
  "com_of functions = concat (map (\<lambda>f. map (\<lambda>c. (c, fc_event f)) (lCOM (last (fc_labels f)))) functions)"

definition so_of :: "FunctionCall list \<Rightarrow> (FunctionEvent \<times> FunctionEvent) list" where
  "so_of functions = concat (map (\<lambda>f. map (\<lambda>c. (c, fc_event f)) (lSO (last (fc_labels f)))) functions)"

lemma po_pairs_Ok:
  assumes "\<forall>f\<in>set functions. call_ok f" and "call_ok f"
  shows "po_pairs functions f = Ok (po_of functions f)"
proof (cases "call_index functions f + 1 < length functions")
  case True
  then have "call_ok (functions ! (call_index functions f + 1))" using assms(1) nth_mem by blast
  then show ?thesis using True assms(2)
    by (simp add: po_pairs_def po_of_def first_label_def Let_def vec_get_def hd_conv_nth)
qed (auto simp: po_pairs_def po_of_def Let_def)

lemma calc_pairs_Ok:
  assumes "\<forall>f\<in>set functions. call_ok f"
  shows "calc_pairs functions = Ok (concat (map (po_of functions) functions), com_of functions, so_of functions)"
proof -
  have "rfold (\<lambda>f (povec, comvec, sovec).
         rbind (po_pairs functions f) (\<lambda>po.
         rbind (fc_getCOMorder f) (\<lambda>cs.
         rbind (fc_getSOorder f) (\<lambda>ss.
           Ok (povec @ po, comvec @ map (\<lambda>c. (c, fc_event f)) cs, sovec @ map (\<lambda>s. (s, fc_event f)) ss)))))
       fs (a, b, c) = Ok (a @ concat (map (po_of functions) fs), b @ com_of fs, c @ so_of fs)"
    if "\<forall>f\<in>set fs. call_ok f" for fs a b c
    using that
  proof (induction fs arbitrary: a b c)
    case (Cons f fs)
    then show ?case
      by (simp add: po_pairs_Ok [OF assms] fc_getCOMorder_def fc_getSOorder_def fc_getLastEvent_def com_of_def so_of_def)
  qed (simp add: com_of_def so_of_def)
  then show ?thesis using assms by (simp add: calc_pairs_def)
qed

lemma calculateOrder_tables:
  assumes "\<forall>f\<in>set functions. call_ok f"
  obtains rel where "calculateOrder functions = Ok rel"
    and "\<And>e. rel_at (rel PO) e = (if e \<in> fc_event ` set functions then succs (concat (map (po_of functions) functions)) e else [])"
    and "\<And>e. rel_at (rel COM) e = (if e \<in> fc_event ` set functions then succs (com_of functions) e else [])"
    and "\<And>e. rel_at (rel INVCOM) e = (if e \<in> fc_event ` set functions then preds (com_of functions) e else [])"
    and "\<And>e. rel_at (rel SO) e = (if e \<in> fc_event ` set functions then succs (so_of functions) e else [])"
    and "\<And>e. rel_at (rel INVSO) e = (if e \<in> fc_event ` set functions then preds (so_of functions) e else [])"
    and "\<And>e. rel_at (rel LHB) e = (if e \<in> fc_event ` set functions then lhb_of (rel PO) (rel SO) e else [])"
proof -
  have "\<exists>rel. calculateOrder functions = Ok rel"
    by (simp add: calculateOrder_def calc_pairs_Ok [OF assms] Let_def)
  then obtain rel where rel: "calculateOrder functions = Ok rel" by blast
  show thesis
    by (rule that [OF rel])
      (use rel in \<open>auto simp: calculateOrder_def calc_pairs_Ok [OF assms] Let_def rel_at_tab\<close>)
qed

lemma set_succs: "b \<in> set (succs ps a) \<longleftrightarrow> (a, b) \<in> set ps"
  and set_preds: "a \<in> set (preds ps b) \<longleftrightarrow> (a, b) \<in> set ps"
  by (force simp: succs_def preds_def)+

lemma LHB_closure:
  assumes "\<forall>f\<in>set functions. call_ok f" and "calculateOrder functions = Ok rel"
  shows "b \<in> set (rel_at (rel LHB) a) \<longleftrightarrow> a \<in> fc_event ` set functions \<and> (a, b) \<in> (poso_rel (rel PO) (rel SO))\<^sup>+"
    and "distinct (rel_at (rel LHB) a)"
proof -
  obtain rel' where r: "calculateOrder functions = Ok rel'"
    and l: "\<And>e. rel_at (rel' LHB) e = (if e \<in> fc_event ` set functions then lhb_of (rel' PO) (rel' SO) e else [])"
    using calculateOrder_tables [OF assms(1)] by metis
  have "rel = rel'" using r assms(2) by simp
  then show "b \<in> set (rel_at (rel LHB) a) \<longleftrightarrow> a \<in> fc_event ` set functions \<and> (a, b) \<in> (poso_rel (rel PO) (rel SO))\<^sup>+"
    and "distinct (rel_at (rel LHB) a)" using l by (auto simp: lhb_of_correct)
qed

lemma LHB_trans:
  assumes "\<forall>f\<in>set functions. call_ok f" and "calculateOrder functions = Ok rel"
  shows "transp (\<lambda>a b. a \<in> set (rel_at (rel LHB) b))"
  by (rule transpI) (auto simp: LHB_closure [OF assms] intro: trancl_trans)

lemma empty_relations:
  assumes "\<forall>f\<in>set functions. call_ok f \<and> lCOM (last (fc_labels f)) = [] \<and> lSO (last (fc_labels f)) = []"
  shows "\<exists>rel. calculateOrder functions = Ok rel \<and> (\<forall>e. rel_at (rel COM) e = [] \<and> rel_at (rel INVCOM) e = []
     \<and> rel_at (rel SO) e = [] \<and> rel_at (rel INVSO) e = [])"
proof -
  have "com_of functions = []" "so_of functions = []" using assms by (auto simp: com_of_def so_of_def)
  then have e: "succs (com_of functions) e = []" "preds (com_of functions) e = []"
    "succs (so_of functions) e = []" "preds (so_of functions) e = []" for e
    by (simp_all add: succs_def preds_def)
  show ?thesis
    by (rule calculateOrder_tables [of "functions"]) (use assms e in auto)
qed

text \<open>Three calls of two threads: an enqueue, the dequeue matched with it, and a second dequeue.\<close>

definition ex_calls :: "FunctionCall list" where
  "ex_calls =
     [\<lparr>fc_done = True, fc_values = [7], fc_event = FunctionEvent FN_Enq 0, fc_labels = [FunEndLabel (Event 1 3)],
        fc_writes = [], fc_reads = []\<rparr>,
      \<lparr>fc_done = True, fc_values = [7], fc_event = FunctionEvent FN_Deq 0,
        fc_labels = [(FunEndLabel (Event 2 3))\<lparr>lCOM := [FunctionEvent FN_Enq 0], lSO := [FunctionEvent FN_Enq 0]\<rparr>],
        fc_writes = [], fc_reads = []\<rparr>,
      \<lparr>fc_done = True, fc_values = [], fc_event = FunctionEvent FN_Deq 1, fc_labels = [FunEndLabel (Event 2 5)],
        fc_writes = [], fc_reads = []\<rparr>]"

lemma ex_calls_ok: "\<forall>f\<in>set ex_calls. call_ok f"
  by (simp add: ex_calls_def)

lemmas FunEnd_defs = FunEndLabel_def mkLabel_def

section \<open>Properties\<close>

text \<open>C27: \<open>calculateOrder\<close> returns for calls that have labels, and its worklist computes LHB exactly as the
  transitive closure of PO and SO, without repetitions.\<close>

theorem calculateOrder_LHB:
  assumes "\<forall>f\<in>set functions. call_ok f" and "f \<in> set functions"
  shows "\<exists>rel. calculateOrder functions = Ok rel \<and> distinct (rel_at (rel LHB) (fc_event f))
     \<and> set (rel_at (rel LHB) (fc_event f))
       = {x. (fc_event f, x) \<in> {(a, b). b \<in> set (rel_at (rel PO) a) \<or> b \<in> set (rel_at (rel SO) a)}\<^sup>+}"
proof -
  obtain rel where "calculateOrder functions = Ok rel" using calculateOrder_tables [OF assms(1)] by metis
  then show ?thesis using LHB_closure [OF assms(1)] assms(2) unfolding poso_rel_def [symmetric] by auto
qed

theorem calculateOrder_LHB_witness:
  "\<exists>rel. calculateOrder ex_calls = Ok rel \<and> distinct (rel_at (rel LHB) (FunctionEvent FN_Enq 0))
     \<and> set (rel_at (rel LHB) (FunctionEvent FN_Enq 0))
       = {x. (FunctionEvent FN_Enq 0, x) \<in> {(a, b). b \<in> set (rel_at (rel PO) a) \<or> b \<in> set (rel_at (rel SO) a)}\<^sup>+}"
  using calculateOrder_LHB [OF ex_calls_ok, of "ex_calls ! 0"] by (simp add: ex_calls_def)

text \<open>COM relates two calls exactly when the last label of the later one records the earlier one, INVCOM
  is its inverse, and the same holds for SO and INVSO.\<close>

theorem calculateOrder_inverse:
  assumes "\<forall>f\<in>set functions. call_ok f" and "a \<in> fc_event ` set functions" and "b \<in> fc_event ` set functions"
  shows "\<exists>rel. calculateOrder functions = Ok rel
     \<and> (b \<in> set (rel_at (rel COM) a) \<longleftrightarrow> (\<exists>f\<in>set functions. fc_event f = b \<and> a \<in> set (lCOM (last (fc_labels f)))))
     \<and> (a \<in> set (rel_at (rel INVCOM) b) \<longleftrightarrow> b \<in> set (rel_at (rel COM) a))
     \<and> (b \<in> set (rel_at (rel SO) a) \<longleftrightarrow> (\<exists>f\<in>set functions. fc_event f = b \<and> a \<in> set (lSO (last (fc_labels f)))))
     \<and> (a \<in> set (rel_at (rel INVSO) b) \<longleftrightarrow> b \<in> set (rel_at (rel SO) a))"
proof -
  have com: "(a, b) \<in> set (com_of functions) \<longleftrightarrow> (\<exists>f\<in>set functions. fc_event f = b \<and> a \<in> set (lCOM (last (fc_labels f))))"
    and so: "(a, b) \<in> set (so_of functions) \<longleftrightarrow> (\<exists>f\<in>set functions. fc_event f = b \<and> a \<in> set (lSO (last (fc_labels f))))"
    by (auto simp: com_of_def so_of_def)
  obtain rel where "calculateOrder functions = Ok rel"
    "b \<in> set (rel_at (rel COM) a) \<longleftrightarrow> (a, b) \<in> set (com_of functions)"
    "a \<in> set (rel_at (rel INVCOM) b) \<longleftrightarrow> (a, b) \<in> set (com_of functions)"
    "b \<in> set (rel_at (rel SO) a) \<longleftrightarrow> (a, b) \<in> set (so_of functions)"
    "a \<in> set (rel_at (rel INVSO) b) \<longleftrightarrow> (a, b) \<in> set (so_of functions)"
    using calculateOrder_tables [OF assms(1)] assms(2,3) by (metis set_succs set_preds)
  then show ?thesis unfolding com so by blast
qed

theorem calculateOrder_inverse_witness:
  "\<exists>rel. calculateOrder ex_calls = Ok rel \<and> FunctionEvent FN_Deq 0 \<in> set (rel_at (rel COM) (FunctionEvent FN_Enq 0))
     \<and> FunctionEvent FN_Enq 0 \<in> set (rel_at (rel INVCOM) (FunctionEvent FN_Deq 0))"
  using calculateOrder_inverse [OF ex_calls_ok, of "FunctionEvent FN_Enq 0" "FunctionEvent FN_Deq 0"]
  by (auto simp: ex_calls_def)

text \<open>The order that \<open>tryCalcTO\<close> builds from the calculated relations takes each call at most once, has
  later calls happen before all earlier ones (LHB), and puts a call in only after everything it happens
  before.\<close>

theorem tryCalcTO_orders_calls:
  assumes "\<forall>f\<in>set functions. call_ok f" and "calculateOrder functions = Ok rel"
  shows "mset (tryCalcTO (rel LHB) functions) \<subseteq># mset (map fc_event functions)
     \<and> sorted_wrt (\<lambda>a b. a \<in> set (rel_at (rel LHB) b)) (tryCalcTO (rel LHB) functions)
     \<and> (\<forall>i<length (tryCalcTO (rel LHB) functions).
          set (rel_at (rel LHB) (tryCalcTO (rel LHB) functions ! i)) \<subseteq> set (take i (tryCalcTO (rel LHB) functions)))"
  using tryCalcTO_chain [of "rel LHB" "functions"] sorted_wrt_iff_nth_Suc_transp [OF LHB_trans [OF assms]] by blast

theorem tryCalcTO_orders_calls_witness:
  "\<exists>rel. calculateOrder ex_calls = Ok rel
     \<and> sorted_wrt (\<lambda>a b. a \<in> set (rel_at (rel LHB) b)) (tryCalcTO (rel LHB) ex_calls)"
proof -
  obtain rel where "calculateOrder ex_calls = Ok rel" using calculateOrder_tables [OF ex_calls_ok] by metis
  with tryCalcTO_orders_calls [OF ex_calls_ok] show ?thesis by blast
qed

text \<open>In a graph whose threads begin with their start event, \<open>findallFunctionCalls\<close> returns one call per
  start event of a method, in thread and program order, that is not done, holds the start event as its only
  label, and has neither reads nor writes: no call is ever returned as done.\<close>

theorem findallFunctionCalls_only_starts:
  assumes "starts_ok g"
  shows "findallFunctionCalls initVal g = Ok (concat (map (\<lambda>i.
      map (\<lambda>l. \<lparr>fc_done = False, fc_values = (if hp_method (lmethod l) then [int i] else []),
             fc_event = FunctionEvent (lmethod l) (linvocation l), fc_labels = [l], fc_writes = [], fc_reads = []\<rparr>)
        (filter (\<lambda>l. lkind l = EL_FunStart \<and> lmethod l \<noteq> FN_NON) (events g ! i))) [0..<numThreads g]))"
  using findall_starts [OF assms, of initVal] unfolding start_calls_def start_call_def is_start_def .

theorem findallFunctionCalls_only_starts_witness:
  "\<exists>c. findallFunctionCalls (\<lambda>_ _. 0) (ex_graph\<lparr>events := [[ThreadStartLabel 0 Acquire (Event 0 0) getInitializer 0,
      (FunStartLabel (Event 0 1))\<lparr>lmethod := FN_Enq\<rparr>, (FunEndLabel (Event 0 2))\<lparr>lmethod := FN_Enq\<rparr>]]\<rparr>) = Ok [c]
    \<and> \<not> fc_done c \<and> fc_labels c = [(FunStartLabel (Event 0 1))\<lparr>lmethod := FN_Enq\<rparr>]"
proof -
  let ?g = "ex_graph\<lparr>events := [[ThreadStartLabel 0 Acquire (Event 0 0) getInitializer 0,
      (FunStartLabel (Event 0 1))\<lparr>lmethod := FN_Enq\<rparr>, (FunEndLabel (Event 0 2))\<lparr>lmethod := FN_Enq\<rparr>]]\<rparr>"
  have "starts_ok ?g" by (simp add: starts_ok_def)
  from findallFunctionCalls_only_starts [OF this, of "\<lambda>_ _. 0"] show ?thesis by (simp add: FunEnd_defs)
qed

end
