(* ===== verification/GenMC_Checks.thy ===== *)
theory GenMC_Checks
  imports GenMC_CallProps
begin

text \<open>
  The checks of an execution against a data-structure model: the axioms of \<open>src/src/Axioms.cpp\<close> and, from
  \<open>src/src/GenMCDriver.cpp\<close>, \<open>checkMutex\<close>, \<open>checkQueue\<close>, \<open>checkStack\<close>, \<open>checkHp\<close>, the dispatcher
  \<open>checkModelViolations\<close> and \<open>checkFunctionName\<close>.

  A check returns the violations it writes to its error message, in the order it writes them; it reports an
  error (\<open>visitModelViolation\<close>) exactly when the list is not empty. The text of the messages and the
  printed relations are not modelled. The axioms return their boolean result.
\<close>

section \<open>Violations\<close>

datatype Violation =
    V_ComMatching FunctionEvent
  | V_OneToOne FunctionEvent
  | V_LockMatched FunctionEvent
  | V_UnmatchedNonEmpty FunctionEvent
  | V_PendingNotTaken FunctionEvent
  | V_Synchronizing FunctionEvent
  | V_NoTotalOrder
  | V_NotFiFo FunctionEvent FunctionEvent
  | V_NotFiLo FunctionEvent FunctionEvent
  | V_HpState int
  | V_HpCall FunctionName
  | V_HpNotCovered int

section \<open>Axioms\<close>

definition isAtMostOneConstructor :: "FunctionCall list \<Rightarrow> bool" where
  "isAtMostOneConstructor methods =
     (if length methods = 0 then False
      else let i = length (filter (\<lambda>m. fname (fc_event m) = FN_Init) methods) in i = 0 \<or> i > 1)"

definition doesComMatch :: "FunctionEvent \<Rightarrow> Relations \<Rightarrow> FunctionName list \<Rightarrow> FunctionName list \<Rightarrow> bool" where
  "doesComMatch cur rel A B =
     (if fname cur \<notin> set A \<and> length (rel_at (rel COM) cur) > 0 then True
      else fname cur \<notin> set B \<and> length (rel_at (rel INVCOM) cur) > 0)"

definition isComAtMostOneToOne :: "FunctionEvent \<Rightarrow> Relations \<Rightarrow> bool" where
  "isComAtMostOneToOne cur rel =
     (if length (rel_at (rel COM) cur) > 1 then True else length (rel_at (rel INVCOM) cur) > 1)"

definition isComSynchronizing :: "FunctionEvent \<Rightarrow> Relations \<Rightarrow> bool" where
  "isComSynchronizing cur rel \<longleftrightarrow> rel_at (rel COM) cur \<noteq> rel_at (rel SO) cur"

definition isMatched :: "FunctionEvent \<Rightarrow> Relations \<Rightarrow> bool" where
  "isMatched cur rel \<longleftrightarrow> length (rel_at (rel INVCOM) cur) = 0"

text \<open>The two tests of the FIFO axiom for calls with A LHB B: two dequeues, or two enqueues.\<close>

definition deq_unordered :: "Relations \<Rightarrow> FunctionEvent \<Rightarrow> FunctionEvent \<Rightarrow> bool" where
  "deq_unordered rel A B \<longleftrightarrow>
     fname A = fname B \<and> fname A = FN_Deq \<and> length (rel_at (rel INVCOM) A) = 1 \<and> length (rel_at (rel INVCOM) B) = 1
     \<and> (let C = rel_at (rel INVCOM) A ! 0; D = rel_at (rel INVCOM) B ! 0 in C \<in> set (rel_at (rel LHB) D))"

definition enq_unordered :: "Relations \<Rightarrow> FunctionEvent \<Rightarrow> FunctionEvent \<Rightarrow> bool" where
  "enq_unordered rel A B \<longleftrightarrow>
     fname A = fname B \<and> fname A = FN_Enq \<and> length (rel_at (rel COM) A) = 1 \<and> length (rel_at (rel COM) B) = 1
     \<and> (let C = rel_at (rel COM) A ! 0; D = rel_at (rel COM) B ! 0 in C \<in> set (rel_at (rel LHB) D))"

definition isFiFo :: "FunctionCall list \<Rightarrow> Relations \<Rightarrow> bool" where
  "isFiFo calls rel \<longleftrightarrow>
     (\<exists>c\<in>set calls. \<exists>B\<in>set (rel_at (rel LHB) (fc_event c)).
        deq_unordered rel (fc_event c) B \<or> enq_unordered rel (fc_event c) B)"

section \<open>Mutex\<close>

definition label_call :: "EventLabel \<Rightarrow> FunctionEvent" where
  "label_call l = FunctionEvent (lmethod l) (linvocation l)"

definition mutex_case :: "FunctionEvent \<Rightarrow> Relations \<Rightarrow> Violation list res" where
  "mutex_case cur rel =
     (let coms = length (rel_at (rel COM) cur); invcoms = length (rel_at (rel INVCOM) cur) in
      case fname cur of
        FN_Lock \<Rightarrow> Ok ((if coms \<noteq> 0 then [V_ComMatching cur] else []) @ (if invcoms \<noteq> 1 then [V_LockMatched cur] else []))
      | FN_Unlock \<Rightarrow> Ok (if invcoms \<noteq> 0 then [V_ComMatching cur] else [])
      | _ \<Rightarrow> Bug)"

definition checkMutex :: "(SAddr \<Rightarrow> AAccess \<Rightarrow> SVal) \<Rightarrow> ExecutionGraph \<Rightarrow> Event \<Rightarrow> Violation list res" where
  "checkMutex initVal g pos =
     rbind (getEventLabel g pos) (\<lambda>label.
       let cur = label_call label in
       if fname cur = FN_Init then Ok []
       else rbind (findallFunctionCalls initVal g) (\<lambda>calls.
         rbind (calculateOrder calls) (\<lambda>rel.
         rbind (mutex_case cur rel) (\<lambda>err.
           Ok (err @ (if rel_at (rel COM) cur \<noteq> rel_at (rel SO) cur then [V_Synchronizing cur] else []))))))"

section \<open>Queues\<close>

text \<open>Whether the current call has a value; the code keeps the value for the message only.\<close>

definition val_exists :: "FunctionCall list \<Rightarrow> FunctionEvent \<Rightarrow> bool" where
  "val_exists calls cur \<longleftrightarrow> (\<exists>f\<in>set calls. fc_event f = cur \<and> fc_isValueValid f)"

text \<open>An insertion that is done, unmatched and before the current removal; the code reports the first one.\<close>

definition pending_insert :: "FunctionName \<Rightarrow> bool \<Rightarrow> Relations \<Rightarrow> FunctionCall list \<Rightarrow> FunctionEvent \<Rightarrow> Violation list" where
  "pending_insert ins weak rel calls cur =
     (case List.find (\<lambda>f. fname (fc_event f) = ins \<and> length (rel_at (rel COM) (fc_event f)) = 0 \<and> fc_done f \<and> \<not> weak
          \<and> cur \<in> set (rel_at (rel LHB) (fc_event f))) calls of
        None \<Rightarrow> [] | Some f \<Rightarrow> [V_PendingNotTaken (fc_event f)])"

text \<open>The switch over the method of the current call: \<open>ins\<close> adds an element and \<open>rem\<close> takes one.\<close>

definition insert_remove_case ::
  "FunctionName \<Rightarrow> FunctionName \<Rightarrow> bool \<Rightarrow> EventLabelKind \<Rightarrow> Relations \<Rightarrow> FunctionCall list \<Rightarrow> FunctionEvent \<Rightarrow> Violation list res" where
  "insert_remove_case ins rem weak kind rel calls cur =
     (if fname cur = ins
      then Ok ((if length (rel_at (rel COM) cur) > 1 then [V_OneToOne cur] else [])
             @ (if length (rel_at (rel INVCOM) cur) > 0 then [V_ComMatching cur] else []))
      else if fname cur = rem
      then Ok ((if length (rel_at (rel COM) cur) > 0 then [V_ComMatching cur] else [])
             @ (if length (rel_at (rel INVCOM) cur) = 0 \<and> kind = EL_FunEnd
                then (if val_exists calls cur then [V_UnmatchedNonEmpty cur] else [])
                   @ pending_insert ins weak rel calls cur
                else []))
      else Bug)"

definition sync_errors :: "Relations \<Rightarrow> FunctionCall list \<Rightarrow> Violation list" where
  "sync_errors rel calls =
     map (\<lambda>f. V_Synchronizing (fc_event f))
       (filter (\<lambda>f. length (rel_at (rel COM) (fc_event f)) \<noteq> length (rel_at (rel SO) (fc_event f))) calls)"

definition fifo_errors :: "Relations \<Rightarrow> FunctionCall list \<Rightarrow> Violation list" where
  "fifo_errors rel calls =
     concat (map (\<lambda>f. let A = fc_event f in concat (map (\<lambda>B.
         (if deq_unordered rel A B then [V_NotFiFo A B] else [])
       @ (if enq_unordered rel A B then [V_NotFiFo A B] else [])) (rel_at (rel LHB) A))) calls)"

text \<open>\<open>std::find\<close> as a position, the size of the vector when the element is not there.\<close>

definition find_pos :: "'a list \<Rightarrow> 'a \<Rightarrow> nat" where
  "find_pos xs x = length (takeWhile (\<lambda>y. y \<noteq> x) xs)"

text \<open>One iteration of the two nested loops over the total order.\<close>

definition strong_pair :: "Relations \<Rightarrow> FunctionEvent list \<Rightarrow> nat \<Rightarrow> nat \<Rightarrow> Violation list \<Rightarrow> Violation list res" where
  "strong_pair rel to i j err =
     rbind (vec_get to i) (\<lambda>A. rbind (vec_get to j) (\<lambda>B.
       rbind (if fname A = FN_Enq \<and> fname B = FN_Enq \<and> length (rel_at (rel COM) A) = 1 \<and> length (rel_at (rel COM) B) = 1
              then Ok (if find_pos to (rel_at (rel COM) A ! 0) < find_pos to (rel_at (rel COM) B ! 0)
                       then err @ [V_NotFiFo A B] else err)
              else Ok err) (\<lambda>err1.
       if fname A = FN_Deq \<and> fname B = FN_Deq \<and> length (rel_at (rel COM) A) = 1 \<and> length (rel_at (rel COM) B) = 1
       then rbind (vec_get (rel_at (rel INVCOM) A) 0) (\<lambda>C. rbind (vec_get (rel_at (rel INVCOM) B) 0) (\<lambda>D.
              Ok (if find_pos to (rel_at (rel COM) A ! 0) < find_pos to (rel_at (rel COM) B ! 0)
                  then err1 @ [V_NotFiFo A B] else err1)))
       else Ok err1)))"

definition strong_errors :: "Relations \<Rightarrow> FunctionCall list \<Rightarrow> Violation list res" where
  "strong_errors rel calls =
     (let to = tryCalcTO (rel LHB) calls in
      rfold (\<lambda>i. rfold (strong_pair rel to i) (rev [0..<i])) (rev [1..<length to + 1])
        (if length to \<noteq> length calls then [V_NoTotalOrder] else []))"

definition checkQueue :: "DSModelType \<Rightarrow> (SAddr \<Rightarrow> AAccess \<Rightarrow> SVal) \<Rightarrow> ExecutionGraph \<Rightarrow> Event \<Rightarrow> Violation list res" where
  "checkQueue ty initVal g pos =
     rbind (getEventLabel g pos) (\<lambda>label.
       let cur = label_call label in
       rbind (findallFunctionCalls initVal g) (\<lambda>calls.
       rbind (calculateOrder calls) (\<lambda>rel.
       rbind (insert_remove_case FN_Enq FN_Deq (ty = M_Weak_Queue) (lkind label) rel calls cur) (\<lambda>err1.
       let err2 = err1 @ (if ty \<noteq> M_Rel_Queue then sync_errors rel calls else []) in
       if ty \<noteq> M_Strong_Queue then Ok (err2 @ fifo_errors rel calls)
       else rbind (strong_errors rel calls) (\<lambda>err3. Ok (err2 @ err3))))))"

section \<open>Stacks\<close>

definition pop_unordered :: "Relations \<Rightarrow> FunctionEvent \<Rightarrow> FunctionEvent \<Rightarrow> bool" where
  "pop_unordered rel A B \<longleftrightarrow>
     fname A = fname B \<and> fname A = FN_Pop \<and> length (rel_at (rel INVCOM) A) = 1 \<and> length (rel_at (rel INVCOM) B) = 1
     \<and> (let C = rel_at (rel INVCOM) A ! 0; D = rel_at (rel INVCOM) B ! 0
        in D \<in> set (rel_at (rel LHB) C) \<and> A \<in> set (rel_at (rel LHB) D))"

definition push_unordered :: "Relations \<Rightarrow> FunctionEvent \<Rightarrow> FunctionEvent \<Rightarrow> bool" where
  "push_unordered rel A B \<longleftrightarrow>
     fname A = fname B \<and> fname A = FN_Push \<and> length (rel_at (rel COM) A) = 1 \<and> length (rel_at (rel COM) B) = 1
     \<and> (let C = rel_at (rel COM) A ! 0; D = rel_at (rel COM) B ! 0
        in D \<in> set (rel_at (rel LHB) C) \<and> C \<in> set (rel_at (rel LHB) B))"

definition filo_errors :: "Relations \<Rightarrow> FunctionCall list \<Rightarrow> Violation list" where
  "filo_errors rel calls =
     concat (map (\<lambda>f. let A = fc_event f in concat (map (\<lambda>B.
         (if pop_unordered rel A B then [V_NotFiLo A B] else [])
       @ (if push_unordered rel A B then [V_NotFiLo A B] else [])) (rel_at (rel LHB) A))) calls)"

definition checkStack :: "DSModelType \<Rightarrow> (SAddr \<Rightarrow> AAccess \<Rightarrow> SVal) \<Rightarrow> ExecutionGraph \<Rightarrow> Event \<Rightarrow> Violation list res" where
  "checkStack ty initVal g pos =
     rbind (getEventLabel g pos) (\<lambda>label.
       let cur = label_call label in
       rbind (findallFunctionCalls initVal g) (\<lambda>calls.
       rbind (calculateOrder calls) (\<lambda>rel.
       rbind (insert_remove_case FN_Push FN_Pop (ty = M_Weak_Stack) (lkind label) rel calls cur) (\<lambda>err1.
         Ok (err1 @ (if ty \<noteq> M_Rel_Stack then sync_errors rel calls else []) @ filo_errors rel calls)))))"

section \<open>Hazard pointers\<close>

text \<open>The automaton for one address of one thread: the next state, or what the message says.\<close>

definition hp_next :: "int \<Rightarrow> FunctionName \<Rightarrow> int option" where
  "hp_next state n =
     (if state = 9 then (case n of FN_Protect0 \<Rightarrow> Some 10 | FN_Protect1 \<Rightarrow> Some 18 | _ \<Rightarrow> None)
      else if state = 10 then (case n of FN_Protect1 \<Rightarrow> Some 15 | FN_Unprotect0 \<Rightarrow> Some 11 | _ \<Rightarrow> None)
      else if state = 11 then (case n of FN_Protect0 \<Rightarrow> Some 9 | FN_Reclaim \<Rightarrow> Some 12 | FN_Protect1 \<Rightarrow> Some 13 | _ \<Rightarrow> None)
      else if state = 12 then (case n of FN_Protect0 \<Rightarrow> Some 9 | FN_Protect1 \<Rightarrow> Some 14 | _ \<Rightarrow> None)
      else if state = 15 then (case n of FN_Unprotect0 \<Rightarrow> Some 13 | FN_Unprotect1 \<Rightarrow> Some 22 | _ \<Rightarrow> None)
      else if state = 13 then (case n of FN_Unprotect1 \<Rightarrow> Some 16 | FN_Reclaim \<Rightarrow> Some 14 | _ \<Rightarrow> None)
      else if state = 14 then (case n of FN_Unprotect1 \<Rightarrow> Some 17 | _ \<Rightarrow> None)
      else if state = 16 then (case n of FN_Protect1 \<Rightarrow> Some 11 | FN_Protect0 \<Rightarrow> Some 19 | FN_Reclaim \<Rightarrow> Some 17 | _ \<Rightarrow> None)
      else if state = 17 then (case n of FN_Protect1 \<Rightarrow> Some 12 | FN_Protect0 \<Rightarrow> Some 20 | _ \<Rightarrow> None)
      else if state = 18 then (case n of FN_Unprotect1 \<Rightarrow> Some 19 | FN_Protect0 \<Rightarrow> Some 21 | _ \<Rightarrow> None)
      else if state = 19 then (case n of FN_Protect1 \<Rightarrow> Some 9 | FN_Protect0 \<Rightarrow> Some 22 | FN_Reclaim \<Rightarrow> Some 20 | _ \<Rightarrow> None)
      else if state = 20 then (case n of FN_Protect1 \<Rightarrow> Some 9 | FN_Protect0 \<Rightarrow> Some 23 | _ \<Rightarrow> None)
      else if state = 21 then (case n of FN_Unprotect1 \<Rightarrow> Some 22 | FN_Unprotect0 \<Rightarrow> Some 13 | _ \<Rightarrow> None)
      else if state = 22 then (case n of FN_Unprotect0 \<Rightarrow> Some 24 | FN_Reclaim \<Rightarrow> Some 23 | _ \<Rightarrow> None)
      else if state = 23 then (case n of FN_Unprotect0 \<Rightarrow> Some 25 | _ \<Rightarrow> None)
      else if state = 24 then (case n of FN_Protect1 \<Rightarrow> Some 11 | FN_Protect0 \<Rightarrow> Some 19 | FN_Reclaim \<Rightarrow> Some 25 | _ \<Rightarrow> None)
      else None)"

definition hp_error :: "int \<Rightarrow> FunctionName \<Rightarrow> Violation" where
  "hp_error state n =
     (if state = 11 then V_HpCall n
      else if 9 \<le> state \<and> state \<le> 24 then V_HpState state else V_HpNotCovered state)"

definition hp_step :: "FunctionName \<Rightarrow> int \<times> Violation list \<Rightarrow> int \<times> Violation list" where
  "hp_step n s = (case hp_next (fst s) n of
     Some st \<Rightarrow> (st, snd s) | None \<Rightarrow> (fst s, snd s @ [hp_error (fst s) n]))"

text \<open>The address a call works on: the value of the read that follows a label of the call.\<close>

definition hp_addr :: "(SAddr \<Rightarrow> AAccess \<Rightarrow> SVal) \<Rightarrow> ExecutionGraph \<Rightarrow> EventLabel \<Rightarrow> SVal res" where
  "hp_addr initVal g l =
     rbind (getReadLabel g (Event (ethread (lpos l)) (eindex (lpos l) + 1))) (\<lambda>r.
     rbind (deref r) (getReadValue initVal g))"

definition hp_addrs :: "(SAddr \<Rightarrow> AAccess \<Rightarrow> SVal) \<Rightarrow> ExecutionGraph \<Rightarrow> FunctionCall list \<Rightarrow> SVal list res" where
  "hp_addrs initVal g calls =
     rfold (\<lambda>f addrs. rfold (\<lambda>l as. rbind (hp_addr initVal g l) (\<lambda>a. Ok (as @ [a]))) (fc_labels f) addrs) calls []"

definition hp_run :: "(SAddr \<Rightarrow> AAccess \<Rightarrow> SVal) \<Rightarrow> ExecutionGraph \<Rightarrow> FunctionCall list \<Rightarrow> SVal \<Rightarrow> Violation list \<Rightarrow> Violation list res" where
  "hp_run initVal g calls a err =
     (if a \<ge> 17 then Ok err
      else rbind (rfold (\<lambda>f s. rbind (first_label f) (\<lambda>l. rbind (hp_addr initVal g l) (\<lambda>addr.
               Ok (if addr = a then hp_step (fname (fc_event f)) s else s)))) calls (9, err))
             (\<lambda>s. Ok (snd s)))"

text \<open>The calls grouped by their first value, the thread for the methods of hazard pointers; a \<open>std::map\<close>
  and a \<open>std::set\<close> are visited in increasing order.\<close>

definition checkHp :: "(SAddr \<Rightarrow> AAccess \<Rightarrow> SVal) \<Rightarrow> ExecutionGraph \<Rightarrow> Event \<Rightarrow> Violation list res" where
  "checkHp initVal g pos =
     rbind (getEventLabel g pos) (\<lambda>label.
     rbind (findallFunctionCalls initVal g) (\<lambda>functioncalls.
     rbind (rfold (\<lambda>value err.
         let calls = filter (\<lambda>f. fc_getVal f 0 = value) functioncalls in
         rbind (hp_addrs initVal g calls) (\<lambda>addrs. rfold (hp_run initVal g calls) (remdups (sort addrs)) err))
       (remdups (sort (map (\<lambda>f. fc_getVal f 0) functioncalls))) []) (\<lambda>err.
     rbind (calculateOrder functioncalls) (\<lambda>rel. Ok err))))"

section \<open>Dispatch\<close>

definition checkModelViolations :: "DSModelType \<Rightarrow> (SAddr \<Rightarrow> AAccess \<Rightarrow> SVal) \<Rightarrow> ExecutionGraph \<Rightarrow> Event \<Rightarrow> Violation list res" where
  "checkModelViolations ty initVal g pos =
     (case ty of
        M_None \<Rightarrow> Ok []
      | M_Mutex \<Rightarrow> checkMutex initVal g pos
      | M_Rel_Queue \<Rightarrow> checkQueue ty initVal g pos
      | M_Weak_Queue \<Rightarrow> checkQueue ty initVal g pos
      | M_HW_Queue \<Rightarrow> checkQueue ty initVal g pos
      | M_Strong_Queue \<Rightarrow> checkQueue ty initVal g pos
      | M_Rel_Stack \<Rightarrow> checkStack ty initVal g pos
      | M_Weak_Stack \<Rightarrow> checkStack ty initVal g pos
      | M_C_Stack \<Rightarrow> checkStack ty initVal g pos
      | M_Hp_Queue \<Rightarrow> checkHp initVal g pos
      | _ \<Rightarrow> Bug)"

text \<open>The entries of \<open>functioncallMap\<close> are visited in the order of their keys.\<close>

definition all_names :: "FunctionName list" where
  "all_names = [FN_NON, FN_Init, FN_Lock, FN_Unlock, FN_Enq, FN_Deq, FN_Push, FN_Pop,
     FN_Protect0, FN_Unprotect0, FN_Protect1, FN_Unprotect1, FN_Reclaim]"

definition checkFunctionName :: "DSModel \<Rightarrow> string \<Rightarrow> FunctionName" where
  "checkFunctionName m functionName =
     (if ds_type m = M_None then FN_NON
      else case List.find (\<lambda>n. functioncallMap m n = Some functionName \<and> checkNamesForModel (ds_type m) n) all_names of
        Some n \<Rightarrow> n | None \<Rightarrow> FN_NON)"

section \<open>The checks on the calls that are found\<close>

text \<open>Graphs as the driver builds them: threads begin with their start event, and the start of a call has no
  COM and SO calls recorded.\<close>

definition calls_ok :: "ExecutionGraph \<Rightarrow> bool" where
  "calls_ok g \<longleftrightarrow> starts_ok g \<and> (\<forall>l\<in>set (labels g). is_start l \<longrightarrow> lCOM l = [] \<and> lSO l = [])"

lemma start_call_sels [simp]:
  "fc_labels (start_call i l) = [l]" "fc_event (start_call i l) = label_call l" "\<not> fc_done (start_call i l)"
  "fc_values (start_call i l) = (if hp_method (lmethod l) then [i] else [])"
  by (simp_all add: start_call_def label_call_def)

lemma start_calls_cases:
  assumes "f \<in> set (start_calls g)"
  obtains i l where "f = start_call (int i) l" "l \<in> set (labels g)" "is_start l"
proof -
  obtain i l where "i < numThreads g" "l \<in> set (events g ! i)" "is_start l" "f = start_call (int i) l"
    using assms by (auto simp: start_calls_def)
  moreover from this have "l \<in> set (labels g)" by (auto simp: labels_def)
  ultimately show thesis using that by blast
qed

lemma start_calls_labels [simp]: "f \<in> set (start_calls g) \<Longrightarrow> call_ok f"
  by (erule start_calls_cases) simp

lemma calls_ok_relations:
  assumes "calls_ok g"
  obtains rel where "findallFunctionCalls initVal g = Ok (start_calls g)" "calculateOrder (start_calls g) = Ok rel"
    "\<And>e. rel_at (rel COM) e = []" "\<And>e. rel_at (rel INVCOM) e = []" "\<And>e. rel_at (rel SO) e = []"
proof -
  have "\<forall>f\<in>set (start_calls g). call_ok f \<and> lCOM (last (fc_labels f)) = [] \<and> lSO (last (fc_labels f)) = []"
    using assms by (auto simp: calls_ok_def elim!: start_calls_cases)
  from empty_relations [OF this] show thesis
    using findall_starts [of g initVal] assms that by (auto simp: calls_ok_def)
qed

lemma no_values:
  assumes "\<not> hp_method (fname e)"
  shows "\<not> val_exists (start_calls g) e"
  using assms by (auto simp: val_exists_def fc_isValueValid_def label_call_def elim!: start_calls_cases split: if_splits)

lemma no_pending: "pending_insert ins weak rel (start_calls g) e = []"
proof -
  have "\<not> fc_done f" if "f \<in> set (start_calls g)" for f using that by (auto elim: start_calls_cases)
  then have "List.find (\<lambda>f. fname (fc_event f) = ins \<and> length (rel_at (rel COM) (fc_event f)) = 0 \<and> fc_done f \<and> \<not> weak
          \<and> e \<in> set (rel_at (rel LHB) (fc_event f))) (start_calls g) = None"
    by (auto simp: find_None_iff)
  then show ?thesis unfolding pending_insert_def by simp
qed

lemma no_order_errors:
  assumes "\<And>e. rel_at (rel COM) e = []" "\<And>e. rel_at (rel INVCOM) e = []"
  shows "fifo_errors rel calls = []" "filo_errors rel calls = []"
  by (simp_all add: fifo_errors_def filo_errors_def assms deq_unordered_def enq_unordered_def pop_unordered_def
      push_unordered_def Let_def)

lemma silent_case:
  assumes "\<And>e. rel_at (rel COM) e = []" "\<And>e. rel_at (rel INVCOM) e = []"
    and "fname e = ins \<or> fname e = rem" and "\<not> hp_method (fname e)"
  shows "insert_remove_case ins rem weak kind rel (start_calls g) e = Ok []"
  using assms by (auto simp: insert_remove_case_def no_values no_pending)

lemma is_start_label_call: "fname (label_call l) = lmethod l"
  by (simp add: label_call_def)

text \<open>The last call happens before no other one, so the total order is not empty.\<close>

lemma call_index_distinct:
  "distinct (map fc_event fs) \<Longrightarrow> i < length fs \<Longrightarrow> call_index fs (fs ! i) = i"
proof (induction fs arbitrary: i)
  case (Cons a fs)
  then show ?case by (cases i) (auto dest: nth_mem)
qed simp

lemma last_call_maximal:
  assumes "\<forall>f\<in>set fs. call_ok f" and "distinct (map fc_event fs)" and "fs \<noteq> []" and "calculateOrder fs = Ok rel"
    and "\<And>e. rel_at (rel SO) e = []"
  shows "rel_at (rel LHB) (fc_event (last fs)) = []"
proof -
  have i: "call_index fs (last fs) = length fs - 1"
    using call_index_distinct [OF assms(2), of "length fs - 1"] assms(3) by (simp add: last_conv_nth)
  have "f = last fs" if "f \<in> set fs" "fc_event f = fc_event (last fs)" for f
    using that assms(2,3) by (metis distinct_map inj_on_def last_in_set)
  then have "(fc_event (last fs), b) \<notin> set (concat (map (po_of fs) fs))" for b
    using i assms(3) by (auto simp: po_of_def Let_def split: if_splits)
  then have "rel_at (rel PO) (fc_event (last fs)) = []"
    using calculateOrder_tables [OF assms(1)] assms(4) set_succs
    by (metis (no_types, lifting) list.set_intros(1) neq_Nil_conv res.inject)
  then have "(fc_event (last fs), b) \<notin> (poso_rel (rel PO) (rel SO))\<^sup>+" for b
    using assms(5) by (auto simp: poso_rel_def dest: tranclD)
  then show ?thesis using LHB_closure(1) [OF assms(1,4)] by (metis list.set_intros(1) neq_Nil_conv)
qed

lemma tryCalcTO_nonempty:
  assumes "f \<in> set fs" and "rel_at lhb (fc_event f) = []"
  shows "tryCalcTO lhb fs \<noteq> []"
proof -
  have "to_candidate lhb [] (fc_event f)" using assms(2) by (simp add: to_candidate_def)
  then obtain c where c: "List.find (to_candidate lhb []) (map fc_event fs) = Some c"
    using assms(1) by (cases "List.find (to_candidate lhb []) (map fc_event fs)") (auto simp: find_None_iff)
  then have "to_candidate lhb [] c" by (auto simp: find_Some_iff)
  then have "\<exists>ys. to_loop lhb [c] (remove1 c (map fc_event fs)) = [c] @ ys"
    using to_loop_inv [of "[c]" lhb "remove1 c (map fc_event fs)"] by (auto simp: to_candidate_def)
  moreover have "tryCalcTO lhb fs = to_loop lhb [c] (remove1 c (map fc_event fs))"
    unfolding tryCalcTO_def using c assms(1) by (subst to_loop.simps) auto
  ultimately show ?thesis by auto
qed

lemma strong_errors_Undef:
  assumes "tryCalcTO (rel LHB) calls \<noteq> []"
  shows "strong_errors rel calls = Undef"
proof -
  obtain n where n: "length (tryCalcTO (rel LHB) calls) = Suc n" using assms by (cases "tryCalcTO (rel LHB) calls") auto
  have "rev [1..<Suc n + 1] = Suc n # rev [1..<Suc n]" "rev [0..<Suc n] = n # rev [0..<n]" by simp_all
  then show ?thesis unfolding strong_errors_def Let_def n by (simp add: strong_pair_def vec_get_def n)
qed

lemma mutex_lock_rejected:
  assumes "calls_ok g" and "graph_contains g pos" and "lmethod (lab g pos) = FN_Lock"
  shows "checkMutex initVal g pos = Ok [V_LockMatched (label_call (lab g pos))]"
proof -
  obtain rel where "findallFunctionCalls initVal g = Ok (start_calls g)" "calculateOrder (start_calls g) = Ok rel"
    "\<And>e. rel_at (rel COM) e = []" "\<And>e. rel_at (rel INVCOM) e = []" "\<And>e. rel_at (rel SO) e = []"
    using calls_ok_relations [OF assms(1)] by blast
  with assms(2,3) show ?thesis by (simp add: checkMutex_def mutex_case_def is_start_label_call Let_def)
qed

lemma queue_silent:
  assumes "calls_ok g" and "graph_contains g pos" and "lmethod (lab g pos) = FN_Enq \<or> lmethod (lab g pos) = FN_Deq"
    and "ty \<noteq> M_Strong_Queue"
  shows "checkQueue ty initVal g pos = Ok []"
proof -
  obtain rel where rel: "findallFunctionCalls initVal g = Ok (start_calls g)" "calculateOrder (start_calls g) = Ok rel"
    "\<And>e. rel_at (rel COM) e = []" "\<And>e. rel_at (rel INVCOM) e = []" "\<And>e. rel_at (rel SO) e = []"
    using calls_ok_relations [OF assms(1)] by blast
  have "\<not> hp_method (lmethod (lab g pos))" using assms(3) by (auto simp: hp_method_def)
  with rel assms show ?thesis
    by (simp add: checkQueue_def silent_case no_order_errors sync_errors_def is_start_label_call Let_def)
qed

lemma strong_queue_undef:
  assumes "calls_ok g" and "graph_contains g pos" and "lmethod (lab g pos) = FN_Enq \<or> lmethod (lab g pos) = FN_Deq"
    and "start_calls g \<noteq> []" and "distinct (map fc_event (start_calls g))"
  shows "checkQueue M_Strong_Queue initVal g pos = Undef"
proof -
  obtain rel where rel: "findallFunctionCalls initVal g = Ok (start_calls g)" "calculateOrder (start_calls g) = Ok rel"
    "\<And>e. rel_at (rel COM) e = []" "\<And>e. rel_at (rel INVCOM) e = []" "\<And>e. rel_at (rel SO) e = []"
    using calls_ok_relations [OF assms(1)] by blast
  have "strong_errors rel (start_calls g) = Undef"
    by (rule strong_errors_Undef, rule tryCalcTO_nonempty [OF last_in_set [OF assms(4)]],
        rule last_call_maximal [OF _ assms(5,4) rel(2)]) (simp_all add: rel)
  moreover have "\<not> hp_method (lmethod (lab g pos))" using assms(3) by (auto simp: hp_method_def)
  ultimately show ?thesis using rel assms(2,3)
    by (simp add: checkQueue_def silent_case is_start_label_call Let_def)
qed

lemma stack_silent:
  assumes "calls_ok g" and "graph_contains g pos" and "lmethod (lab g pos) = FN_Push \<or> lmethod (lab g pos) = FN_Pop"
  shows "checkStack ty initVal g pos = Ok []"
proof -
  obtain rel where rel: "findallFunctionCalls initVal g = Ok (start_calls g)" "calculateOrder (start_calls g) = Ok rel"
    "\<And>e. rel_at (rel COM) e = []" "\<And>e. rel_at (rel INVCOM) e = []" "\<And>e. rel_at (rel SO) e = []"
    using calls_ok_relations [OF assms(1)] by blast
  have "\<not> hp_method (lmethod (lab g pos))" using assms(3) by (auto simp: hp_method_def)
  with rel assms show ?thesis
    by (simp add: checkStack_def silent_case no_order_errors sync_errors_def is_start_label_call Let_def)
qed

section \<open>Runs of the hazard-pointer automaton\<close>

lemma hp_run_fold:
  assumes "\<forall>f\<in>set calls. \<exists>l. first_label f = Ok l \<and> hp_addr initVal g l = Ok (h f)" and "a < 17"
  shows "hp_run initVal g calls a err
     = Ok (snd (fold hp_step (map (\<lambda>f. fname (fc_event f)) (filter (\<lambda>f. h f = a) calls)) (9, err)))"
proof -
  have "rfold (\<lambda>f s. rbind (first_label f) (\<lambda>l. rbind (hp_addr initVal g l) (\<lambda>addr.
               Ok (if addr = a then hp_step (fname (fc_event f)) s else s)))) calls s
     = Ok (fold hp_step (map (\<lambda>f. fname (fc_event f)) (filter (\<lambda>f. h f = a) calls)) s)" for s
    using assms(1)
  proof (induction calls arbitrary: s)
    case (Cons f calls)
    then obtain l where "first_label f = Ok l" "hp_addr initVal g l = Ok (h f)" by auto
    with Cons show ?case by simp
  qed simp
  moreover have "\<not> 17 \<le> a" using assms(2) by (simp add: not_le)
  ultimately show ?thesis by (simp add: hp_run_def)
qed

lemma hp_states:
  assumes "hp_next s n = Some s'" and "9 \<le> s \<and> s \<le> 25"
  shows "9 \<le> s' \<and> s' \<le> 25"
  using assms(1) unfolding hp_next_def by (cases n) (auto split: if_splits)

definition hp_fresh :: "int \<Rightarrow> bool" where
  "hp_fresh s \<longleftrightarrow> s \<in> {11, 13, 16, 19, 22, 24}"

abbreviation unprotects :: "FunctionName set" where
  "unprotects \<equiv> {FN_Unprotect0, FN_Unprotect1}"

lemma hp_next_fresh:
  assumes "hp_next s n = Some s'"
  shows "n = FN_Reclaim \<Longrightarrow> hp_fresh s \<and> \<not> hp_fresh s'"
    and "hp_fresh s' \<Longrightarrow> hp_fresh s \<or> n \<in> unprotects"
  using assms unfolding hp_next_def hp_fresh_def by (cases n; auto split: if_splits)+

text \<open>The last unprotect that no reclaim follows.\<close>

definition released :: "FunctionName list \<Rightarrow> bool" where
  "released ns \<longleftrightarrow> (\<exists>us u vs. ns = us @ u # vs \<and> u \<in> unprotects \<and> FN_Reclaim \<notin> set vs)"

lemma released_snoc:
  assumes "released ns \<and> n \<noteq> FN_Reclaim \<or> n \<in> unprotects"
  shows "released (ns @ [n])"
proof (cases "n \<in> unprotects")
  case True
  then show ?thesis unfolding released_def by (intro exI [of _ ns] exI [of _ n] exI [of _ "[]"]) simp
next
  case False
  then obtain us u vs where "ns = us @ u # vs" "u \<in> unprotects" "FN_Reclaim \<notin> set vs" "n \<noteq> FN_Reclaim"
    using assms unfolding released_def by blast
  then show ?thesis unfolding released_def
    by (intro exI [of _ us] exI [of _ u] exI [of _ "vs @ [n]"]) auto
qed

lemma hp_run_released:
  assumes "snd (fold hp_step ns (9, [])) = []"
  shows "hp_fresh (fst (fold hp_step ns (9, []))) \<longrightarrow> released ns"
    and "\<forall>xs ys. ns = xs @ FN_Reclaim # ys \<longrightarrow> released xs"
  using assms
proof (induction ns rule: rev_induct)
  case Nil
  {
    case 1
    then show ?case by (simp add: hp_fresh_def)
  next
    case 2
    then show ?case by simp
  }
next
  case (snoc n ns)
  let ?s = "fold hp_step ns (9, [])"
  have e: "snd (hp_step n ?s) = []" if "snd (fold hp_step (ns @ [n]) (9, [])) = []" using that by simp
  then have ok: "snd ?s = [] \<and> (\<exists>t. hp_next (fst ?s) n = Some t \<and> hp_step n ?s = (t, []))"
    if "snd (fold hp_step (ns @ [n]) (9, [])) = []"
    using that by (cases "hp_next (fst ?s) n") (auto simp: hp_step_def)
  {
    case 1
    then obtain t where t: "snd ?s = []" "hp_next (fst ?s) n = Some t" "hp_step n ?s = (t, [])" using ok by blast
    have "released (ns @ [n])" if "hp_fresh t"
      by (rule released_snoc) (use that hp_next_fresh [OF t(2)] snoc.IH(1) [OF t(1)] in blast)
    then show ?case using t(3) by simp
  next
    case 2
    then obtain t where t: "snd ?s = []" "hp_next (fst ?s) n = Some t" "hp_step n ?s = (t, [])" using ok by blast
    show ?case
    proof (intro allI impI)
      fix xs ys
      assume eq: "ns @ [n] = xs @ FN_Reclaim # ys"
      show "released xs"
      proof (cases ys rule: rev_cases)
        case Nil
        then show ?thesis using eq hp_next_fresh(1) [OF t(2)] snoc.IH(1) [OF t(1)] by auto
      next
        case (snoc zs z)
        then show ?thesis using eq snoc.IH(2) [OF t(1)] by auto
      qed
    qed
  }
qed

lemma hp_not_covered:
  assumes "9 \<le> fst s \<and> fst s \<le> 25" and "\<forall>k. V_HpNotCovered k \<in> set (snd s) \<longrightarrow> k = 25"
  shows "(9 \<le> fst (fold hp_step ns s) \<and> fst (fold hp_step ns s) \<le> 25)
     \<and> (\<forall>k. V_HpNotCovered k \<in> set (snd (fold hp_step ns s)) \<longrightarrow> k = 25)"
  using assms
proof (induction ns arbitrary: s)
  case (Cons n ns)
  have "(9 \<le> fst (hp_step n s) \<and> fst (hp_step n s) \<le> 25) \<and> (\<forall>k. V_HpNotCovered k \<in> set (snd (hp_step n s)) \<longrightarrow> k = 25)"
    using Cons.prems hp_states [of "fst s" n]
    by (cases "hp_next (fst s) n") (auto simp: hp_step_def hp_error_def split: if_splits)
  then show ?case using Cons.IH [of "hp_step n s"] by simp
qed simp

text \<open>A thread that protects, unprotects and reclaims the address its reads return.\<close>

definition hp_calls :: "FunctionCall list" where
  "hp_calls = map (\<lambda>(n, i). start_call 0 ((FunStartLabel (Event 0 i))\<lparr>lmethod := n\<rparr>))
     [(FN_Protect0, 1), (FN_Unprotect0, 3), (FN_Reclaim, 5)]"

definition hp_graph :: ExecutionGraph where
  "hp_graph = \<lparr>events = [map (\<lambda>i. ReadLabel EL_Read Acquire (Event 0 i) 0 \<lparr>asize = 8, atype = Unsigned\<rparr> getInitializer)
     [0, 1, 2, 3, 4, 5, 6]], timestamp = 7, fixStatus = FS_Stale, recoveryTID = -1\<rparr>"

lemmas hp_simps = hp_calls_def hp_graph_def first_label_def hp_addr_def getReadLabel_def getEventLabel_def deref_def
  getReadValue_def getWriteValue_def isBottom_def getBottom_def isInitializer_def getInitializer_def start_call_def isa_defs

section \<open>Properties\<close>

text \<open>The automaton is run on addresses below 17 only; the check of any other address ends without a look at its
  calls.\<close>

lemma hp_run_skips: "17 \<le> a \<Longrightarrow> hp_run initVal g calls a err = Ok err"
  by (simp add: hp_run_def)

text \<open>C37: when the hazard-pointer automaton accepts the calls of a thread on an address below 17, the only ones
  it is run on, every reclaim is preceded by an unprotect with no other reclaim in between: such an address is
  never reclaimed twice for one release, nor before it is released.\<close>

theorem hp_reclaim_after_unprotect:
  assumes "\<forall>f\<in>set calls. \<exists>l. first_label f = Ok l \<and> hp_addr initVal g l = Ok (h f)" and "a < 17"
    and "hp_run initVal g calls a [] = Ok []"
    and "map (\<lambda>f. fname (fc_event f)) (filter (\<lambda>f. h f = a) calls) = xs @ FN_Reclaim # ys"
  shows "\<exists>us u vs. xs = us @ u # vs \<and> u \<in> {FN_Unprotect0, FN_Unprotect1} \<and> FN_Reclaim \<notin> set vs"
proof -
  have "snd (fold hp_step (map (\<lambda>f. fname (fc_event f)) (filter (\<lambda>f. h f = a) calls)) (9, [])) = []"
    using hp_run_fold [OF assms(1,2), of "[]"] assms(3) by simp
  then show ?thesis using hp_run_released(2) assms(4) unfolding released_def by blast
qed

theorem hp_reclaim_after_unprotect_witness:
  "\<exists>us u vs. [FN_Protect0, FN_Unprotect0] = us @ u # vs \<and> u \<in> {FN_Unprotect0, FN_Unprotect1} \<and> FN_Reclaim \<notin> set vs"
proof -
  have h: "\<forall>f\<in>set hp_calls. \<exists>l. first_label f = Ok l \<and> hp_addr (\<lambda>_ _. 5) hp_graph l = Ok 5"
    by (simp add: hp_simps)
  have n: "map (\<lambda>f. fname (fc_event f)) (filter (\<lambda>f. (5::SVal) = 5) hp_calls) = [FN_Protect0, FN_Unprotect0] @ FN_Reclaim # []"
    by (simp add: hp_calls_def label_call_def)
  have "fold hp_step ([FN_Protect0, FN_Unprotect0] @ FN_Reclaim # []) (9, []) = (12, [])"
    by (simp add: hp_step_def hp_next_def)
  then have "hp_run (\<lambda>_ _. 5) hp_graph hp_calls 5 [] = Ok []"
    using hp_run_fold [OF h, of 5 "[]"] unfolding n by simp
  then show ?thesis using hp_reclaim_after_unprotect [OF h _ _ n] by simp
qed

text \<open>The states of the automaton stay between 9 and 25 for every sequence of calls, and the message that
  a state is not covered is written for state 25 only; a protect of both slots, their unprotects and a
  reclaim reach that state without an error, after which every call is reported.\<close>

theorem hp_dead_end:
  "(9 \<le> fst (fold hp_step ns (9, [])) \<and> fst (fold hp_step ns (9, [])) \<le> 25)
   \<and> (\<forall>k. V_HpNotCovered k \<in> set (snd (fold hp_step ns (9, []))) \<longrightarrow> k = 25)
   \<and> fold hp_step [FN_Protect0, FN_Protect1, FN_Unprotect1, FN_Unprotect0, FN_Reclaim, n] (9, []) = (25, [V_HpNotCovered 25])"
  using hp_not_covered [of "(9, [])" ns] by (simp add: hp_step_def hp_next_def hp_error_def)

theorem hp_dead_end_witness:
  "fold hp_step [FN_Protect0, FN_Protect1, FN_Unprotect1, FN_Unprotect0, FN_Reclaim, FN_Protect0] (9, []) = (25, [V_HpNotCovered 25])"
  using hp_dead_end [of "[]" FN_Protect0] by blast

text \<open>The FIFO test that the queue check contains and the FIFO axiom agree: one reports a pair of calls
  exactly when the other returns that the order is violated.\<close>

theorem isFiFo_agrees: "isFiFo calls rel \<longleftrightarrow> fifo_errors rel calls \<noteq> []"
  by (auto simp: isFiFo_def fifo_errors_def Let_def)

text \<open>A function of the program is recognised as a method exactly when the model's configuration names it
  for a method of the model; the name found is such a method.\<close>

theorem checkFunctionName_correct:
  "(checkFunctionName m s = FN_NON \<longleftrightarrow>
      ds_type m = M_None \<or> (\<forall>n. functioncallMap m n = Some s \<longrightarrow> \<not> checkNamesForModel (ds_type m) n))
   \<and> (checkFunctionName m s \<noteq> FN_NON \<longrightarrow> functioncallMap m (checkFunctionName m s) = Some s
        \<and> checkNamesForModel (ds_type m) (checkFunctionName m s))"
proof -
  have all: "n \<in> set all_names" for n by (cases n) (simp_all add: all_names_def)
  have non: "\<not> checkNamesForModel t FN_NON" for t by (simp add: checkNamesForModel_def)
  show ?thesis
  proof (cases "List.find (\<lambda>n. functioncallMap m n = Some s \<and> checkNamesForModel (ds_type m) n) all_names")
    case None
    then have "\<forall>n. functioncallMap m n = Some s \<longrightarrow> \<not> checkNamesForModel (ds_type m) n" using all by (auto simp: find_None_iff)
    then show ?thesis using None by (simp add: checkFunctionName_def)
  next
    case (Some n)
    then have "functioncallMap m n = Some s" "checkNamesForModel (ds_type m) n" by (auto simp: find_Some_iff)
    then show ?thesis using Some non by (auto simp: checkFunctionName_def)
  qed
qed

theorem checkFunctionName_correct_witness:
  "checkFunctionName \<lparr>ds_type = M_Mutex, functioncallMap = [FN_Lock \<mapsto> ''lock'']\<rparr> ''lock'' \<noteq> FN_NON"
  using checkFunctionName_correct [of "\<lparr>ds_type = M_Mutex, functioncallMap = [FN_Lock \<mapsto> ''lock'']\<rparr>" "''lock''"]
  by (auto simp: checkNamesForModel_def)

end
