(* ===== verification/GenMC_Persistency.thy ===== *)
theory GenMC_Persistency
  imports GenMC_GraphOps
begin

text \<open>
  The views of the persistency checker (\<open>src/src/PersistencyChecker.cpp\<close>): what has to be on disk before a
  disk access. A pointer is a 64-bit word. The loops over a thread use unsigned indices, so a negative limit
  would run past the thread: \<open>Undef\<close>. The persists-before relation and the recovery check are not here.
\<close>

definition isDskAccessInRange :: "EventLabel \<Rightarrow> 64 word \<Rightarrow> 32 word \<Rightarrow> bool res" where
  "isDskAccessInRange d inode iSize =
     (if isa_Fence (lkind d) then Ok True
      else if \<not> isa_MemAccess (lkind d) then Undef
      else Ok (inode \<le> laddr d \<and> laddr d < inode + ucast iSize))"

text \<open>\<open>ptrdiff_t\<close> divided by an \<open>unsigned\<close>: signed 64-bit division, truncating.\<close>

definition block_of :: "EventLabel \<Rightarrow> nat \<Rightarrow> int res" where
  "block_of d blockSize =
     (if blockSize = 0 then Undef
      else let off = sint (laddr d - lmapping d) in Ok (sgn off * (\<bar>off\<bar> div int blockSize)))"

definition writeSameBlock :: "EventLabel \<Rightarrow> EventLabel \<Rightarrow> nat \<Rightarrow> bool res" where
  "writeSameBlock dw1 dw2 blockSize =
     (if lmapping dw1 \<noteq> lmapping dw2 then Ok False
      else if lkind dw1 \<noteq> lkind dw2 then Ok False
      else rbind (block_of dw1 blockSize) (\<lambda>b1. rbind (block_of dw2 blockSize) (\<lambda>b2. Ok (b1 = b2))))"

definition getDskWriteOperations :: "ExecutionGraph \<Rightarrow> Event list res" where
  "getDskWriteOperations g =
     rfold (\<lambda>l es. rbind (BUG_ON (isa_DskWrite (lkind l) \<and> ethread (lpos l) = recoveryTID g)) (\<lambda>_.
         Ok (if isa_DskWrite (lkind l) then es @ [lpos l] else es))) (labels g) []"

section \<open>Views of disk accesses\<close>

text \<open>The events of a clock before the label, thread by thread, without first events.\<close>

definition clock_lim :: "VectorClock \<Rightarrow> EventLabel \<Rightarrow> nat \<Rightarrow> int res" where
  "clock_lim c m i = rbind (vc_get c (int i)) (\<lambda>x.
     let lim = (if int i = ethread (lpos m) then x - 1 else x) in if lim < 0 then Undef else Ok lim)"

definition clock_fold :: "ExecutionGraph \<Rightarrow> VectorClock \<Rightarrow> EventLabel \<Rightarrow> (EventLabel \<Rightarrow> DepView \<Rightarrow> DepView res) \<Rightarrow> DepView res" where
  "clock_fold g c m f =
     rfold (\<lambda>i pb. rbind (clock_lim c m i) (\<lambda>lim.
         rfold (\<lambda>j pb. rbind (getEventLabel g (Event (int i) j)) (\<lambda>l. f l pb)) [1..lim] pb))
       [0..<vc_size c] dv_new"

text \<open>The last lines of the view calculations: the label enters its view, what is between it and the
  last event there are holes.\<close>

definition pb_close :: "EventLabel \<Rightarrow> DepView \<Rightarrow> EventLabel res" where
  "pb_close m pb =
     (let t = ethread (lpos m) in
      rbind (view_get (dv_view pb) t) (\<lambda>prevIdx.
      rbind (dv_set pb t (eindex (lpos m))) (\<lambda>pb1.
      rbind (dv_addHolesInRange pb1 (Event t (prevIdx + 1)) (eindex (lpos m))) (\<lambda>pb2.
        Ok (m\<lparr>lpbView := pb2\<rparr>)))))"

definition upd_if :: "bool \<Rightarrow> EventLabel \<Rightarrow> DepView \<Rightarrow> DepView res" where
  "upd_if b l pb = (if b then dv_update pb (lpbView l) else Ok pb)"

definition mem_pb_step :: "EventLabel \<Rightarrow> EventLabel \<Rightarrow> DepView \<Rightarrow> DepView res" where
  "mem_pb_step m l pb =
     (let ordBegin = (if lkind m = EL_DskMdWrite then lordBegin m else 0);
          ordEnd = (if lkind m = EL_DskMdWrite then lordEnd m else 0) in
      rbind (upd_if (isa_Fence (lkind l) \<and> isa_DskAccess (lkind l)) l pb) (\<lambda>pb1.
      rbind (upd_if (lkind l = EL_DskJnlWrite \<and> isa_DskWrite (lkind m) \<and> ltransInode l = lmapping m) l pb1) (\<lambda>pb2.
      rbind (upd_if (isa_DskWrite (lkind l) \<and> laddr l \<ge> ordBegin \<and> laddr l < ordEnd) l pb2) (\<lambda>pb3.
      rbind (upd_if (isa_DskWrite (lkind l) \<and> lkind m = EL_DskJnlWrite \<and> ltransInode m = lmapping l) l pb3) (\<lambda>pb4.
        upd_if (lkind m = EL_DskMdWrite \<and> lkind l = EL_DskDirWrite) l pb4)))))"

definition calcDskMemAccessPbView :: "ExecutionGraph \<Rightarrow> EventLabel \<Rightarrow> EventLabel res" where
  "calcDskMemAccessPbView g m =
     (let prefix = (if view_empty (porfView m) then VC_DepView (pporfView m) else VC_View (porfView m)) in
      rbind (BUG_ON (vc_size prefix = 0)) (\<lambda>_.
      rbind (BUG_ON (\<not> isa_DskAccess (lkind m))) (\<lambda>_.
      rbind (clock_fold g prefix m (mem_pb_step m)) (pb_close m))))"

definition calcFsyncPbView :: "ExecutionGraph \<Rightarrow> EventLabel \<Rightarrow> EventLabel res" where
  "calcFsyncPbView g f =
     rbind (BUG_ON (view_empty (hbView f))) (\<lambda>_.
     rbind (clock_fold g (VC_View (hbView f)) f (\<lambda>l pb.
         if isa_DskAccess (lkind l)
         then rbind (isDskAccessInRange l (linode f) (linodeSize f)) (\<lambda>b. upd_if b l pb) else Ok pb)) (pb_close f))"

definition calcSyncPbView :: "EventLabel \<Rightarrow> EventLabel res" where
  "calcSyncPbView f =
     rbind (BUG_ON (view_empty (hbView f))) (\<lambda>_.
     rbind (rfold (\<lambda>i pb. dv_set pb (int i) (view_at (hbView f) i)) [0..<view_size (hbView f)] dv_new) (\<lambda>pb.
       Ok (f\<lparr>lpbView := pb\<rparr>)))"

definition calcPbarrierPbView :: "EventLabel \<Rightarrow> EventLabel res" where
  "calcPbarrierPbView f =
     rbind (BUG_ON (view_empty (hbView f))) (\<lambda>_.
     rbind (rfold (\<lambda>i pb. dv_set pb (int i) (view_at (hbView f) i)) [0..<view_size (hbView f)] dv_new) (\<lambda>pb.
       Ok (f\<lparr>lpbView := pb\<rparr>)))"

definition calcDskFencePbView :: "ExecutionGraph \<Rightarrow> EventLabel \<Rightarrow> EventLabel res" where
  "calcDskFencePbView g f =
     rbind (BUG_ON (\<not> isa_DskAccess (lkind f))) (\<lambda>_.
       if lkind f = EL_DskFsync then calcFsyncPbView g f
       else if lkind f = EL_DskSync then calcSyncPbView f
       else if lkind f = EL_DskPbarrier then calcPbarrierPbView f
       else Bug)"

section \<open>Recovery\<close>

definition isStoreReadFromRecRoutine :: "ExecutionGraph \<Rightarrow> Event \<Rightarrow> bool res" where
  "isStoreReadFromRecRoutine g s =
     rbind (getLastThreadEvent g (recoveryTID g)) (\<lambda>recLast.
     rbind (getEventLabel g s) (\<lambda>w.
     rbind (BUG_ON (\<not> isa_Write (lkind w))) (\<lambda>_.
       Ok (\<exists>r\<in>set (lreaders w). ethread r = recoveryTID g \<and> eindex r \<le> eindex recLast))))"

end
