(* ===== verification/GenMC_RC11.thy ===== *)
theory GenMC_RC11
  imports GenMC_Checks GenMC_Persistency
begin

text \<open>
  The driver for RC11 (\<open>src/src/RC11Driver.cpp\<close>): the views of a new label (happens-before and
  program-order-and-reads-from), the calls it is related to (COM and SO), and the detection of data races.
  The functions write the fields of the label they get; the model returns the label.

  The fields of \<open>Conf\<close>: \<open>dsModel\<close>, \<open>LAPOR\<close> and \<open>persevere\<close> are the options read here; the interpreter
  gives the name of a location and its initial value; \<open>hbRel\<close> is the happens-before relation the graph
  has cached when its fixpoint is done. The consistency check at a step is the fast one.
\<close>

record Conf =
  dsModel :: DSModelType
  LAPOR :: bool
  persevere :: bool
  varName :: "SAddr \<Rightarrow> string"
  initVal :: "SAddr \<Rightarrow> AAccess \<Rightarrow> SVal"
  hbRel :: "Event \<Rightarrow> Event \<Rightarrow> bool"

section \<open>Order of two events\<close>

definition isHbBefore :: "Conf \<Rightarrow> ExecutionGraph \<Rightarrow> Event \<Rightarrow> Event \<Rightarrow> bool res" where
  "isHbBefore c g a b =
     (if fixStatus g = FS_Done then Ok (hbRel c a b)
      else rbind (getEventLabel g b) (\<lambda>l. view_contains (hbView l) a))"

section \<open>What a label takes from its predecessor\<close>

definition previous :: "ExecutionGraph \<Rightarrow> Event \<Rightarrow> EventLabel res" where
  "previous g e = rbind (getPreviousLabel g e) deref"

definition calcBasicCOM :: "ExecutionGraph \<Rightarrow> Event \<Rightarrow> FunctionEvent list res" where
  "calcBasicCOM g e = rbind (previous g e) (\<lambda>p. Ok (lCOM p))"

definition calcBasicSO :: "ExecutionGraph \<Rightarrow> Event \<Rightarrow> FunctionEvent list res" where
  "calcBasicSO g e = rbind (previous g e) (\<lambda>p. Ok (lSO p))"

definition AddFunInfoToLbl :: "ExecutionGraph \<Rightarrow> EventLabel \<Rightarrow> EventLabel res" where
  "AddFunInfoToLbl g l =
     (if lkind l \<noteq> EL_FunStart
      then rbind (previousEventMethod g (lpos l)) (\<lambda>m.
           rbind (previousEventInvocation g (lpos l)) (\<lambda>i. Ok (l\<lparr>lmethod := m, linvocation := i\<rparr>)))
      else Ok (l\<lparr>linvocation := getFunInvocationCount g (lmethod l)\<rparr>))"

text \<open>\<open>++v[e.thread]\<close>.\<close>

definition view_inc :: "View \<Rightarrow> int \<Rightarrow> View res" where
  "view_inc v t = rbind (view_get v t) (\<lambda>x. view_set v t (x + 1))"

definition calcBasicHbView :: "ExecutionGraph \<Rightarrow> Event \<Rightarrow> View res" where
  "calcBasicHbView g e = rbind (previous g e) (\<lambda>p. view_inc (hbView p) (ethread e))"

definition calcBasicPorfView :: "ExecutionGraph \<Rightarrow> Event \<Rightarrow> View res" where
  "calcBasicPorfView g e = rbind (previous g e) (\<lambda>p. view_inc (porfView p) (ethread e))"

definition calcBasicViews :: "ExecutionGraph \<Rightarrow> EventLabel \<Rightarrow> EventLabel res" where
  "calcBasicViews g l =
     rbind (calcBasicHbView g (lpos l)) (\<lambda>hb.
     rbind (calcBasicPorfView g (lpos l)) (\<lambda>porf.
     rbind (calcBasicCOM g (lpos l)) (\<lambda>com.
     rbind (calcBasicSO g (lpos l)) (\<lambda>so.
       let l1 = l\<lparr>hbView := hb, porfView := porf\<rparr> in
       Ok (if lkind l = EL_FunStart then l1\<lparr>lCOM := [], lSO := []\<rparr> else l1\<lparr>lCOM := com, lSO := so\<rparr>)))))"

section \<open>Reads\<close>

definition sub_at :: "string \<Rightarrow> string \<Rightarrow> bool" where
  "sub_at s n \<longleftrightarrow> (\<exists>k\<in>set [0..<Suc (length n)]. take (length s) (drop k n) = s)"

text \<open>The test on the location of the write: a plain write, or a static location with a telling name.\<close>

definition data_location :: "Conf \<Rightarrow> EventLabel \<Rightarrow> EventLabel \<Rightarrow> bool" where
  "data_location c l w \<longleftrightarrow> isNotAtomic w \<or>
     (isStatic (laddr l) \<and> (sub_at ''val'' (varName c (laddr w)) \<or> sub_at ''data'' (varName c (laddr w))))"

definition add_com_so :: "Conf \<Rightarrow> ExecutionGraph \<Rightarrow> EventLabel \<Rightarrow> EventLabel \<Rightarrow> FunctionEvent
    \<Rightarrow> FunctionEvent list \<times> FunctionEvent list \<Rightarrow> (FunctionEvent list \<times> FunctionEvent list) res" where
  "add_com_so c g l w B cs =
     (let com = (if B \<in> set (fst cs) then fst cs else fst cs @ [B]) in
      if B \<in> set (snd cs) then Ok (com, snd cs)
      else rbind (if isAtLeastAcquire l then Ok True else isHbBefore c g (lpos w) (lpos l)) (\<lambda>b.
        Ok (com, if b then snd cs @ [B] else snd cs)))"

text \<open>The loop over the earlier events of the call, up to its start: an earlier read of the same call as
  \<open>w\<close>, of a po-later write, makes the read part of a COM edge. \<open>js\<close> are the indices still to visit.\<close>

fun com_loop :: "Conf \<Rightarrow> ExecutionGraph \<Rightarrow> EventLabel \<Rightarrow> EventLabel \<Rightarrow> FunctionEvent \<Rightarrow> int list
    \<Rightarrow> FunctionEvent list \<times> FunctionEvent list \<Rightarrow> (FunctionEvent list \<times> FunctionEvent list) res" where
  "com_loop c g l w B [] cs = Ok cs"
| "com_loop c g l w B (i # js) cs =
     rbind (getEventLabel g (Event (ethread (lpos l)) i)) (\<lambda>t.
       if lkind t = EL_FunStart then Ok cs
       else if \<not> isa_Read (lkind t) then com_loop c g l w B js cs
       else if isBottom (lrf t) then com_loop c g l w B js cs
       else rbind (getEventLabel g (lrf t)) (\<lambda>nw.
         if isa_Write (lkind nw) \<and> B = label_call nw \<and> eindex (lpos nw) > eindex (lpos w)
         then if data_location c l w then add_com_so c g l w B cs else Ok cs
         else com_loop c g l w B js cs))"

definition read_com_so :: "Conf \<Rightarrow> ExecutionGraph \<Rightarrow> EventLabel \<Rightarrow> EventLabel
    \<Rightarrow> FunctionEvent list \<times> FunctionEvent list \<Rightarrow> (FunctionEvent list \<times> FunctionEvent list) res" where
  "read_com_so c g l w cs =
     (let A = label_call l; B = label_call w in
      if fname A \<noteq> FN_NON \<and> fname B \<noteq> FN_NON \<and> A \<noteq> B \<and> dsModel c \<noteq> M_Mutex
      then com_loop c g l w B (rev [1..eindex (lpos l) - 1]) cs else Ok cs)"

definition calcReadViews :: "Conf \<Rightarrow> ExecutionGraph \<Rightarrow> EventLabel \<Rightarrow> EventLabel res" where
  "calcReadViews c g l =
     rbind (calcBasicHbView g (lpos l)) (\<lambda>hb.
     rbind (calcBasicPorfView g (lpos l)) (\<lambda>porf.
     rbind (calcBasicCOM g (lpos l)) (\<lambda>com.
     rbind (calcBasicSO g (lpos l)) (\<lambda>so.
     rbind (if isBottom (lrf l) then Ok (hb, porf, (com, so))
            else rbind (getEventLabel g (lrf l)) (\<lambda>rfLab.
              let porf1 = view_update porf (porfView rfLab) in
              rbind (if isa_Write (lkind rfLab) then read_com_so c g l rfLab (com, so) else Ok (com, so)) (\<lambda>cs.
                Ok (if isAtLeastAcquire l \<and> isa_Write (lkind rfLab) then view_update hb (lmsgView rfLab) else hb,
                    porf1, cs))))
       (\<lambda>(hb1, porf1, cs).
         Ok (l\<lparr>hbView := hb1, porfView := porf1, lCOM := fst cs, lSO := snd cs\<rparr>))))))"

section \<open>Writes\<close>

definition calcWriteMsgView :: "ExecutionGraph \<Rightarrow> EventLabel \<Rightarrow> EventLabel res" where
  "calcWriteMsgView g l =
     rbind (BUG_ON (isa_FaiWrite (lkind l) \<or> isa_CasWrite (lkind l))) (\<lambda>_.
     rbind (if isAtLeastRelease l then Ok (hbView l)
            else if isAtMostAcquire l
            then rbind (getLastThreadReleaseAtLoc g (lpos l) (laddr l)) (\<lambda>e.
                 rbind (getEventLabel g e) (\<lambda>r. Ok (hbView r)))
            else Ok []) (\<lambda>msg.
       Ok (l\<lparr>lmsgView := msg\<rparr>)))"

definition calcRMWWriteMsgView :: "ExecutionGraph \<Rightarrow> EventLabel \<Rightarrow> EventLabel res" where
  "calcRMWWriteMsgView g l =
     rbind (BUG_ON (\<not> isa_FaiWrite (lkind l) \<and> \<not> isa_CasWrite (lkind l))) (\<lambda>_.
     rbind (previous g (lpos l)) (\<lambda>p.
     rbind (BUG_ON (lordering p = NotAtomic)) (\<lambda>_.
     rbind (BUG_ON (\<not> isa_Read (lkind p))) (\<lambda>_.
     rbind (getEventLabel g (lrf p)) (\<lambda>w.
     let msg = (if isa_Write (lkind w) then view_update [] (lmsgView w) else []) in
     rbind (if isAtLeastRelease p then Ok (view_update msg (hbView l))
            else rbind (getLastThreadReleaseAtLoc g (lpos l) (laddr l)) (\<lambda>e.
                 rbind (getEventLabel g e) (\<lambda>r. Ok (view_update msg (hbView r))))) (\<lambda>msg1.
       Ok (l\<lparr>lmsgView := msg1\<rparr>)))))))"

text \<open>A write is effectful unless it is an exchange that writes the value it read. For another write the
  cast of its predecessor is not used.\<close>

definition isWriteEffectful :: "Conf \<Rightarrow> ExecutionGraph \<Rightarrow> EventLabel \<Rightarrow> bool res" where
  "isWriteEffectful c g w =
     rbind (previous g (lpos w)) (\<lambda>p.
       if \<not> isa_FaiWrite (lkind w) then Ok True
       else if \<not> isa_FaiRead (lkind p) then Undef
       else if lop p \<noteq> Xchg then Ok True
       else rbind (getReadValue (initVal c) g p) (\<lambda>v. Ok (v \<noteq> lval w)))"

definition tryFindComSoPath :: "ExecutionGraph \<Rightarrow> EventLabel \<Rightarrow> FunctionEvent list \<times> FunctionEvent list
    \<Rightarrow> (FunctionEvent list \<times> FunctionEvent list) res" where
  "tryFindComSoPath g l cs =
     (if \<not> isa_CasWrite (lkind l) \<and> \<not> isa_FaiWrite (lkind l) then Ok cs
      else rbind (previous g (lpos l)) (\<lambda>r.
        if isBottom (lrf r) then Ok cs
        else rbind (getEventLabel g (lrf r)) (\<lambda>w.
          if \<not> isa_Write (lkind w) then Ok cs
          else let R = label_call r; W = label_call w in
            if W \<in> set (fst cs) \<or> fname W = FN_NON \<or> R = W \<or> lval w \<noteq> 0 then Ok cs
            else Ok (fst cs @ [W], if isAtLeastAcquire r then snd cs @ [W] else snd cs))))"

definition calcWriteViews :: "Conf \<Rightarrow> ExecutionGraph \<Rightarrow> EventLabel \<Rightarrow> EventLabel res" where
  "calcWriteViews c g l =
     rbind (calcBasicHbView g (lpos l)) (\<lambda>hb.
     rbind (calcBasicPorfView g (lpos l)) (\<lambda>porf.
     let l1 = l\<lparr>hbView := hb, porfView := porf\<rparr> in
     rbind (if isa_FaiWrite (lkind l) \<or> isa_CasWrite (lkind l) then calcRMWWriteMsgView g l1 else calcWriteMsgView g l1) (\<lambda>l2.
     rbind (calcBasicCOM g (lpos l)) (\<lambda>com.
     rbind (calcBasicSO g (lpos l)) (\<lambda>so.
     rbind (if lmethod l2 \<noteq> FN_NON
            then rbind (isWriteEffectful c g l2) (\<lambda>b.
              if b \<and> dsModel c = M_Mutex then tryFindComSoPath g l2 (com, so) else Ok (com, so))
            else Ok (com, so)) (\<lambda>cs.
       Ok (l2\<lparr>lCOM := fst cs, lSO := snd cs\<rparr>)))))))"

section \<open>Fences and threads\<close>

text \<open>The loop to the last acquire fence.\<close>

fun fence_loop :: "ExecutionGraph \<Rightarrow> int \<Rightarrow> int list \<Rightarrow> View \<Rightarrow> View res" where
  "fence_loop g t [] v = Ok v"
| "fence_loop g t (i # is) v =
     rbind (getEventLabel g (Event t i)) (\<lambda>l.
       if isa_Fence (lkind l) \<and> isAtLeastAcquire l then Ok v
       else if \<not> isa_Read (lkind l) then fence_loop g t is v
       else if isAtMostRelease l
       then rbind (getEventLabel g (lrf l)) (\<lambda>w.
              fence_loop g t is (if isa_Write (lkind w) then view_update v (lmsgView w) else v))
       else fence_loop g t is v)"

definition calcFenceRelRfPoBefore :: "ExecutionGraph \<Rightarrow> Event \<Rightarrow> View \<Rightarrow> View res" where
  "calcFenceRelRfPoBefore g lastEv v = fence_loop g (ethread lastEv) (rev [1..eindex lastEv]) v"

definition calcFenceViews :: "ExecutionGraph \<Rightarrow> EventLabel \<Rightarrow> EventLabel res" where
  "calcFenceViews g l =
     rbind (calcBasicHbView g (lpos l)) (\<lambda>hb.
     rbind (calcBasicPorfView g (lpos l)) (\<lambda>porf.
     rbind (if isAtLeastAcquire l then calcFenceRelRfPoBefore g (prev (lpos l)) hb else Ok hb) (\<lambda>hb1.
       Ok (l\<lparr>hbView := hb1, porfView := porf\<rparr>))))"

definition calcStartViews :: "ExecutionGraph \<Rightarrow> EventLabel \<Rightarrow> EventLabel res" where
  "calcStartViews g l =
     rbind (getEventLabel g (lparentCreate l)) (\<lambda>p.
     rbind (view_set (hbView p) (ethread (lpos l)) (eindex (lpos l))) (\<lambda>hb.
     rbind (view_set (porfView p) (ethread (lpos l)) (eindex (lpos l))) (\<lambda>porf.
       Ok (l\<lparr>hbView := hb, porfView := porf\<rparr>))))"

definition calcJoinViews :: "ExecutionGraph \<Rightarrow> EventLabel \<Rightarrow> EventLabel res" where
  "calcJoinViews g l =
     rbind (getLastThreadLabel g (uint (lchildId l))) (\<lambda>f.
     rbind (calcBasicHbView g (lpos l)) (\<lambda>hb.
     rbind (calcBasicPorfView g (lpos l)) (\<lambda>porf.
       Ok (if lkind f = EL_ThreadFinish
           then l\<lparr>hbView := view_update hb (hbView f), porfView := view_update porf (porfView f)\<rparr>
           else l\<lparr>hbView := hb, porfView := porf\<rparr>))))"

section \<open>Dispatch\<close>

definition updateLabelViews :: "Conf \<Rightarrow> ExecutionGraph \<Rightarrow> EventLabel \<Rightarrow> EventLabel res" where
  "updateLabelViews c g l0 =
     rbind (AddFunInfoToLbl g l0) (\<lambda>l.
       let k = lkind l in
       if k \<in> {EL_Read, EL_BWaitRead, EL_SpeculativeRead, EL_ConfirmingRead, EL_DskRead, EL_CasRead, EL_LockCasRead,
               EL_TrylockCasRead, EL_HelpedCasRead, EL_ConfirmingCasRead, EL_FaiRead, EL_BIncFaiRead}
       then rbind (calcReadViews c g l) (\<lambda>l1.
              if persevere c \<and> k = EL_DskRead then calcDskMemAccessPbView g l1 else Ok l1)
       else if k \<in> {EL_Write, EL_BInitWrite, EL_BDestroyWrite, EL_UnlockWrite, EL_CasWrite, EL_LockCasWrite,
               EL_TrylockCasWrite, EL_HelpedCasWrite, EL_ConfirmingCasWrite, EL_FaiWrite, EL_BIncFaiWrite, EL_DskWrite,
               EL_DskMdWrite, EL_DskDirWrite, EL_DskJnlWrite}
       then rbind (calcWriteViews c g l) (\<lambda>l1.
              if persevere c \<and> isa_DskWrite k then calcDskMemAccessPbView g l1 else Ok l1)
       else if k \<in> {EL_Fence, EL_DskFsync, EL_DskSync, EL_DskPbarrier}
       then rbind (calcFenceViews g l) (\<lambda>l1.
              if persevere c \<and> isa_DskAccess k then calcDskFencePbView g l1 else Ok l1)
       else if k = EL_ThreadStart then calcStartViews g l
       else if k = EL_ThreadJoin then calcJoinViews g l
       else if k \<in> {EL_ThreadCreate, EL_ThreadFinish, EL_Optional, EL_LoopBegin, EL_SpinStart, EL_FaiZNESpinEnd,
               EL_LockZNESpinEnd, EL_Malloc, EL_Free, EL_HpRetire, EL_LockLAPOR, EL_UnlockLAPOR, EL_DskOpen, EL_HelpingCas,
               EL_HpProtect, EL_FunStart, EL_FunEnd}
       then calcBasicViews g l
       else if k \<in> {EL_SmpFenceLKMM, EL_RCULockLKMM, EL_RCUUnlockLKMM, EL_RCUSyncLKMM} then UserError
       else Bug)"

section \<open>Data races\<close>

text \<open>Two pointers to labels of the graph are equal when the positions are.\<close>

definition areInDataRace :: "Conf \<Rightarrow> ExecutionGraph \<Rightarrow> EventLabel \<Rightarrow> EventLabel \<Rightarrow> bool res" where
  "areInDataRace c g a b =
     rbind (isHbBefore c g (lpos a) (lpos b)) (\<lambda>ab.
     rbind (if ab then Ok True else isHbBefore c g (lpos b) (lpos a)) (\<lambda>ba.
       if ab \<or> ba \<or> lpos a = lpos b then Ok False
       else if \<not> isNotAtomic a \<and> \<not> isNotAtomic b then Ok False
       else if laddr a \<noteq> laddr b then Ok False
       else if \<not> LAPOR c then Ok True
       else rbind (getLastThreadUnmatchedLockLAPOR g (lpos a)) (\<lambda>aLock.
            rbind (getLastThreadUnmatchedLockLAPOR g (lpos b)) (\<lambda>bLock.
              if isInitializer aLock \<or> isInitializer bLock then Ok True
              else rbind (getEventLabel g aLock) (\<lambda>al. rbind (getEventLabel g bLock) (\<lambda>bl.
                Ok (llockAddr al \<noteq> llockAddr bl)))))))"

text \<open>The first event of a list that races with the label; \<open>stores\<close> gives the writes to a location, as the
  graph's coherence order holds them.\<close>

fun first_race :: "(Event \<Rightarrow> bool res) \<Rightarrow> Event list \<Rightarrow> Event res" where
  "first_race P [] = Ok getInitializer"
| "first_race P (e # es) = rbind (P e) (\<lambda>b. if b then Ok e else first_race P es)"

definition findRaceForNewLoad :: "Conf \<Rightarrow> (SAddr \<Rightarrow> Event list) \<Rightarrow> ExecutionGraph \<Rightarrow> EventLabel \<Rightarrow> Event res" where
  "findRaceForNewLoad c stores g r =
     rbind (getPreviousNonEmptyLabel g (lpos r)) (\<lambda>p.
       if view_empty (hbView p) then Ok getInitializer
       else first_race (\<lambda>s. rbind (view_contains (hbView p) s) (\<lambda>b.
              if b then Ok False else rbind (getEventLabel g s) (\<lambda>w. areInDataRace c g r w)))
            (stores (laddr r)))"

definition findRaceForNewStore :: "Conf \<Rightarrow> ExecutionGraph \<Rightarrow> EventLabel \<Rightarrow> Event res" where
  "findRaceForNewStore c g w =
     rbind (getPreviousNonEmptyLabel g (lpos w)) (\<lambda>p.
       first_race (\<lambda>e. rbind (getEventLabel g e) (\<lambda>o'.
           if \<not> isa_MemAccess (lkind o') then Ok False else areInDataRace c g w o'))
         (concat (map (\<lambda>i. map (Event (int i)) [view_at (hbView p) i + 1..int (length (events g ! i)) - 1])
            [0..<numThreads g])))"

definition findDataRaceForMemAccess :: "Conf \<Rightarrow> (SAddr \<Rightarrow> Event list) \<Rightarrow> ExecutionGraph \<Rightarrow> EventLabel \<Rightarrow> Event res" where
  "findDataRaceForMemAccess c stores g m =
     (if isa_Read (lkind m) then findRaceForNewLoad c stores g m
      else if isa_Write (lkind m) then findRaceForNewStore c g m
      else Bug)"

section \<open>Changes of the graph\<close>

definition changeRf_rc11 :: "Conf \<Rightarrow> ExecutionGraph \<Rightarrow> Event \<Rightarrow> Event \<Rightarrow> ExecutionGraph res" where
  "changeRf_rc11 c g read store =
     rbind (changeRf g read store) (\<lambda>g1.
     rbind (getEventLabel g1 read) (\<lambda>r.
     rbind (calcReadViews c g1 r) (\<lambda>r1.
     rbind (if persevere c \<and> lkind r1 = EL_DskRead then calcDskMemAccessPbView g1 r1 else Ok r1) (\<lambda>r2.
       modLabel g1 read (\<lambda>_. r2)))))"

definition updateStart_rc11 :: "ExecutionGraph \<Rightarrow> Event \<Rightarrow> Event \<Rightarrow> ExecutionGraph res" where
  "updateStart_rc11 g create start =
     rbind (getEventLabel g start) (\<lambda>b.
     rbind (getEventLabel g create) (\<lambda>cr.
     rbind (view_set (hbView cr) (ethread start) 0) (\<lambda>hb.
     rbind (view_set (porfView cr) (ethread start) 0) (\<lambda>porf.
       modLabel g start (\<lambda>l. l\<lparr>hbView := hb, porfView := porf\<rparr>)))))"

definition updateJoin_rc11 :: "ExecutionGraph \<Rightarrow> Event \<Rightarrow> Event \<Rightarrow> (ExecutionGraph \<times> bool) res" where
  "updateJoin_rc11 g join childLast =
     rbind (updateJoin g join childLast) (\<lambda>(g1, ok).
       if \<not> ok then Ok (g1, False)
       else rbind (getEventLabel g1 join) (\<lambda>j.
         rbind (getEventLabel g1 childLast) (\<lambda>f.
         rbind (calcBasicPorfView g1 (lpos j)) (\<lambda>porf.
         rbind (calcBasicHbView g1 (lpos j)) (\<lambda>hb.
         rbind (modLabel g1 join (\<lambda>l. l\<lparr>hbView := view_update hb (hbView f), porfView := view_update porf (porfView f)\<rparr>)) (\<lambda>g2.
           Ok (g2, True)))))))"

end
