(* ===== verification/GenMC_RC11Props.thy ===== *)
theory GenMC_RC11Props
  imports GenMC_RC11
begin

text \<open>
  What the views of RC11 mean. Adding a label appends it to its thread; the porf view it gets contains an
  event (after the first of its thread) exactly when the event reaches the label along program order,
  reads-from, thread creation and joins. Also: the start of a call resets COM and SO, so the graphs that are
  built satisfy \<open>calls_ok\<close>.
\<close>

section \<open>Appending a label\<close>

definition is_next :: "ExecutionGraph \<Rightarrow> Event \<Rightarrow> bool" where
  "is_next g p \<longleftrightarrow> 0 \<le> ethread p \<and> ethread p < int (numThreads g) \<and> eindex p = int (length (events g ! nat (ethread p)))"

lemma is_next_fresh: "is_next g p \<Longrightarrow> \<not> graph_contains g p"
  by (simp add: is_next_def graph_contains_def)

lemma append_label:
  assumes "is_next g (lpos l)"
  obtains g' s where "addOtherLabelToGraph g l = Ok (g', l\<lparr>lstamp := s\<rparr>)"
    and "events g' = (events g)[nat (ethread (lpos l)) := events g ! nat (ethread (lpos l)) @ [l\<lparr>lstamp := s\<rparr>]]"
proof -
  obtain t where p: "lpos l = Event (int t) (int (length (events g ! t)))" "t < numThreads g"
    using assms unfolding is_next_def by (cases "lpos l") (metis Event.sel nat_0_le nat_less_iff)
  show thesis
  proof (cases "lstamp l = 0 \<and> \<not> isInitializer (lpos l)")
    case True
    have "addOtherLabelToGraph g l = Ok (g\<lparr>events := (events g)[t := events g ! t @ [l\<lparr>lstamp := timestamp g\<rparr>]],
        timestamp := timestamp g + 1, fixStatus := FS_Stale\<rparr>, l\<lparr>lstamp := timestamp g\<rparr>)"
      using True p by (simp add: addOtherLabelToGraph_def nextStamp_def setFPStatus_def getEventLabel_def)
    then show thesis by (rule that) (simp add: p(1))
  next
    case False
    have "addOtherLabelToGraph g l = Ok (g\<lparr>fixStatus := FS_Stale, events := (events g)[t := events g ! t @ [l]]\<rparr>, l)"
      using False p by (auto simp: addOtherLabelToGraph_def setFPStatus_def getEventLabel_def)
    then have "addOtherLabelToGraph g l = Ok (g\<lparr>fixStatus := FS_Stale, events := (events g)[t := events g ! t @ [l]]\<rparr>,
        l\<lparr>lstamp := lstamp l\<rparr>)" by simp
    then show thesis by (rule that) (simp add: p(1))
  qed
qed

lemma appended:
  assumes "is_next g (lpos l)" and "events g' = (events g)[nat (ethread (lpos l)) := events g ! nat (ethread (lpos l)) @ [l']]"
  shows "graph_contains g' e \<longleftrightarrow> graph_contains g e \<or> e = lpos l"
    and "graph_contains g e \<Longrightarrow> lab g' e = lab g e" and "lab g' (lpos l) = l'"
  using assms by (auto simp: graph_contains_def lab_def is_next_def event_eq_iff nth_list_update nth_append nat_eq_iff split: if_splits)

section \<open>The relation that porf views stand for\<close>

text \<open>An edge enters a label from its po-predecessor, from the write a read reads from, from the creation of
  the thread a start event begins, and from the last event of the thread a join waited for (the initializer
  stands there as long as the thread has not finished).\<close>

definition porf_edge :: "EventLabel \<Rightarrow> Event \<Rightarrow> bool" where
  "porf_edge l a \<longleftrightarrow> (0 < eindex (lpos l) \<and> a = prev (lpos l)) \<or> (isa_Read (lkind l) \<and> a = lrf l)
     \<or> (lkind l = EL_ThreadStart \<and> a = lparentCreate l) \<or> (lkind l = EL_ThreadJoin \<and> a = lchildLast l \<and> a \<noteq> getInitializer)"

definition porf_rel :: "ExecutionGraph \<Rightarrow> (Event \<times> Event) set" where
  "porf_rel g = {(a, b). graph_contains g a \<and> graph_contains g b \<and> porf_edge (lab g b) a}"

lemma rtrancl_add_sink:
  assumes "new \<notin> Domain R" and "new \<notin> Range R" and "new \<notin> P"
  shows "y \<noteq> new \<Longrightarrow> (x, y) \<in> (R \<union> P \<times> {new})\<^sup>* \<longleftrightarrow> (x, y) \<in> R\<^sup>*"
    and "(x, new) \<in> (R \<union> P \<times> {new})\<^sup>* \<longleftrightarrow> x = new \<or> (\<exists>p\<in>P. (x, p) \<in> R\<^sup>*)"
proof -
  have old: "(x, y) \<in> R\<^sup>*" if "(x, y) \<in> (R \<union> P \<times> {new})\<^sup>*" "y \<noteq> new" for x y
    using that
  proof (induction rule: rtrancl_induct)
    case (step y z)
    then have "(y, z) \<in> R" by auto
    moreover from this have "y \<noteq> new" using assms(1) by auto
    ultimately show ?case using step.IH by simp
  qed simp
  have mono: "R\<^sup>* \<subseteq> (R \<union> P \<times> {new})\<^sup>*" by (rule rtrancl_mono) simp
  show "y \<noteq> new \<Longrightarrow> (x, y) \<in> (R \<union> P \<times> {new})\<^sup>* \<longleftrightarrow> (x, y) \<in> R\<^sup>*" using old mono by blast
  show "(x, new) \<in> (R \<union> P \<times> {new})\<^sup>* \<longleftrightarrow> x = new \<or> (\<exists>p\<in>P. (x, p) \<in> R\<^sup>*)" (is "?L \<longleftrightarrow> ?S")
  proof
    assume ?L
    then show ?S
    proof (cases rule: rtranclE)
      case (step p)
      then have "p \<in> P" using assms(2) by auto
      then have "(x, p) \<in> R\<^sup>*" using old step(1) assms(3) by auto
      with \<open>p \<in> P\<close> show ?thesis by blast
    qed simp
  next
    assume ?S
    then show ?L using mono by (auto intro: rtrancl_into_rtrancl)
  qed
qed

section \<open>What the calculations leave in a label\<close>

definition core :: "EventLabel \<Rightarrow> EventLabelKind \<times> Event \<times> Event \<times> Event \<times> Event" where
  "core l = (lkind l, lpos l, lrf l, lparentCreate l, lchildLast l)"

lemma core_upd [simp]:
  "core (l\<lparr>hbView := v\<rparr>) = core l" "core (l\<lparr>porfView := v\<rparr>) = core l" "core (l\<lparr>lCOM := cs\<rparr>) = core l"
  "core (l\<lparr>lSO := cs\<rparr>) = core l" "core (l\<lparr>lmsgView := v\<rparr>) = core l" "core (l\<lparr>lpbView := pb\<rparr>) = core l"
  "core (l\<lparr>lmethod := m\<rparr>) = core l" "core (l\<lparr>linvocation := i\<rparr>) = core l" "core (l\<lparr>lstamp := s\<rparr>) = core l"
  by (simp_all add: core_def)

lemma coreD: "core l' = core l \<Longrightarrow> lkind l' = lkind l \<and> lpos l' = lpos l \<and> lrf l' = lrf l"
  by (simp add: core_def)

lemma core_edge: "core l' = core l \<Longrightarrow> porf_edge l' = porf_edge l"
  by (auto simp: core_def porf_edge_def fun_eq_iff)

text \<open>A graph with one more label, in which the others kept their core and their porf view.\<close>

definition extends_by :: "ExecutionGraph \<Rightarrow> EventLabel \<Rightarrow> ExecutionGraph \<Rightarrow> bool" where
  "extends_by g l g' \<longleftrightarrow> (\<forall>e. graph_contains g' e \<longleftrightarrow> graph_contains g e \<or> e = lpos l)
     \<and> (\<forall>e. graph_contains g e \<longrightarrow> core (lab g' e) = core (lab g e) \<and> porfView (lab g' e) = porfView (lab g e))
     \<and> core (lab g' (lpos l)) = core l \<and> porfView (lab g' (lpos l)) = porfView l"

lemma extends_byD:
  assumes "extends_by g l g'"
  shows "graph_contains g' e \<longleftrightarrow> graph_contains g e \<or> e = lpos l"
    and "graph_contains g e \<Longrightarrow> core (lab g' e) = core (lab g e)" and "graph_contains g e \<Longrightarrow> porfView (lab g' e) = porfView (lab g e)"
    and "core (lab g' (lpos l)) = core l" and "porfView (lab g' (lpos l)) = porfView l"
  using assms by (auto simp: extends_by_def)

lemma append_extends:
  assumes "is_next g (lpos l)" and "events g' = (events g)[nat (ethread (lpos l)) := events g ! nat (ethread (lpos l)) @ [l']]"
    and "core l' = core l" and "porfView l' = porfView l"
  shows "extends_by g l g'"
  using appended [OF assms(1,2)] assms(3,4) by (auto simp: extends_by_def)

lemma extends_wf_pos:
  assumes "extends_by g l g'" and "wf_pos g"
  shows "wf_pos g'"
  using assms(2) extends_byD [OF assms(1)] coreD unfolding wf_pos_iff by metis

lemma porf_rel_extend:
  assumes x: "extends_by g l g'" and "\<not> graph_contains g (lpos l)"
    and "\<forall>e. graph_contains g e \<longrightarrow> \<not> porf_edge (lab g e) (lpos l)" and "\<not> porf_edge l (lpos l)"
  shows "porf_rel g' = porf_rel g \<union> {a. graph_contains g a \<and> porf_edge l a} \<times> {lpos l}"
proof -
  have "graph_contains g e \<Longrightarrow> porf_edge (lab g' e) = porf_edge (lab g e)" "porf_edge (lab g' (lpos l)) = porf_edge l" for e
    using extends_byD [OF x] core_edge by blast+
  then show ?thesis using assms(2-4) extends_byD(1) [OF x] by (auto simp: porf_rel_def)
qed

text \<open>Beside its predecessor, a label may have a second source of its view: the write of a read, the end of the
  thread of a join.\<close>

definition second :: "EventLabel \<Rightarrow> Event option" where
  "second l = (if isa_Read (lkind l) \<and> \<not> isBottom (lrf l) then Some (lrf l)
     else if lkind l = EL_ThreadJoin \<and> lchildLast l \<noteq> getInitializer then Some (lchildLast l) else None)"

lemma second_simps: "isa_Read (lkind l) \<Longrightarrow> second l = (if isBottom (lrf l) then None else Some (lrf l))"
    "\<not> isa_Read (lkind l) \<Longrightarrow> lkind l \<noteq> EL_ThreadJoin \<Longrightarrow> second l = None"
  by (auto simp: second_def isa_defs)

definition porf_of :: "ExecutionGraph \<Rightarrow> EventLabel \<Rightarrow> View \<Rightarrow> bool" where
  "porf_of g l pv \<longleftrightarrow> (\<exists>v. calcBasicPorfView g (lpos l) = Ok v \<and>
     (case second l of None \<Rightarrow> pv = v
      | Some s \<Rightarrow> \<exists>w. getEventLabel g s = Ok w \<and> pv = view_update v (porfView w)))"

lemma porf_of_core: "core l' = core l \<Longrightarrow> porf_of g l' = porf_of g l"
  by (auto simp: core_def porf_of_def second_def fun_eq_iff)

lemma pb_close_only: "pb_close m pb = Ok m' \<Longrightarrow> core m' = core m \<and> porfView m' = porfView m \<and> lCOM m' = lCOM m \<and> lSO m' = lSO m"
  by (auto simp: pb_close_def Let_def res_simps)

lemma dsk_mem_only:
  "calcDskMemAccessPbView g m = Ok m' \<Longrightarrow> core m' = core m \<and> porfView m' = porfView m \<and> lCOM m' = lCOM m \<and> lSO m' = lSO m"
  by (auto simp: calcDskMemAccessPbView_def Let_def res_simps dest!: pb_close_only)

lemma dsk_fence_only:
  "calcDskFencePbView g m = Ok m' \<Longrightarrow> core m' = core m \<and> porfView m' = porfView m \<and> lCOM m' = lCOM m \<and> lSO m' = lSO m"
  by (auto simp: calcDskFencePbView_def calcFsyncPbView_def calcSyncPbView_def calcPbarrierPbView_def res_simps
      dest!: pb_close_only split: if_splits)

lemma AddFunInfo_core: "AddFunInfoToLbl g l = Ok l' \<Longrightarrow> core l' = core l"
  by (auto simp: AddFunInfoToLbl_def res_simps split: if_splits)

lemma rbind_OkE:
  assumes "rbind m f = Ok y"
  obtains x where "m = Ok x" and "f x = Ok y"
  using assms by (auto simp: res_simps)

lemma calcRead_porf:
  assumes "calcReadViews c g l = Ok l'" and "isa_Read (lkind l)"
  shows "core l' = core l \<and> porf_of g l (porfView l')"
proof -
  from assms(1) obtain hb porf com so r where r: "calcBasicPorfView g (lpos l) = Ok porf"
    "(if isBottom (lrf l) then Ok (hb, porf, (com, so))
            else rbind (getEventLabel g (lrf l)) (\<lambda>rfLab.
              let porf1 = view_update porf (porfView rfLab) in
              rbind (if isa_Write (lkind rfLab) then read_com_so c g l rfLab (com, so) else Ok (com, so)) (\<lambda>cs.
                Ok (if isAtLeastAcquire l \<and> isa_Write (lkind rfLab) then view_update hb (lmsgView rfLab) else hb,
                    porf1, cs)))) = Ok r"
    "l' = (case r of (hb1, porf1, cs) \<Rightarrow> l\<lparr>hbView := hb1, porfView := porf1, lCOM := fst cs, lSO := snd cs\<rparr>)"
    unfolding calcReadViews_def by (elim rbind_OkE) (auto split: prod.splits)
  obtain hb1 porf1 cs where t: "r = (hb1, porf1, cs)" by (cases r)
  have "porf1 = (if isBottom (lrf l) then porf else view_update porf (porfView (lab g (lrf l))))
      \<and> (isBottom (lrf l) \<or> getEventLabel g (lrf l) = Ok (lab g (lrf l)))"
    using r(2) unfolding t by (cases "isBottom (lrf l)") (auto elim!: rbind_OkE simp: getEventLabel_Ok_iff Let_def)
  then show ?thesis using assms(2) r(1,3) by (auto simp: t porf_of_def second_simps)
qed

lemma msg_view_only:
  "calcWriteMsgView g l = Ok l' \<Longrightarrow> \<exists>v. l' = l\<lparr>lmsgView := v\<rparr>"
  "calcRMWWriteMsgView g l = Ok l' \<Longrightarrow> \<exists>v. l' = l\<lparr>lmsgView := v\<rparr>"
  unfolding calcWriteMsgView_def calcRMWWriteMsgView_def Let_def by (elim rbind_OkE, blast)+

lemma calcWrite_porf:
  assumes "calcWriteViews c g l = Ok l'" and "\<not> isa_Read (lkind l)" and "lkind l \<noteq> EL_ThreadJoin"
  shows "core l' = core l \<and> porf_of g l (porfView l')"
proof -
  from assms(1) obtain hb porf l2 cs where r: "calcBasicPorfView g (lpos l) = Ok porf"
    "(if isa_FaiWrite (lkind l) \<or> isa_CasWrite (lkind l) then calcRMWWriteMsgView g (l\<lparr>hbView := hb, porfView := porf\<rparr>)
      else calcWriteMsgView g (l\<lparr>hbView := hb, porfView := porf\<rparr>)) = Ok l2"
    "l' = l2\<lparr>lCOM := fst cs, lSO := snd cs\<rparr>"
    unfolding calcWriteViews_def Let_def by (elim rbind_OkE) blast
  have "\<exists>v. l2 = l\<lparr>hbView := hb, porfView := porf, lmsgView := v\<rparr>"
    using r(2) by (cases "isa_FaiWrite (lkind l) \<or> isa_CasWrite (lkind l)") (auto dest: msg_view_only)
  then show ?thesis using r assms(2,3) by (auto simp: porf_of_def second_simps)
qed

lemma calcFence_porf:
  assumes "calcFenceViews g l = Ok l'" and "\<not> isa_Read (lkind l)" and "lkind l \<noteq> EL_ThreadJoin"
  shows "core l' = core l \<and> porf_of g l (porfView l')"
  using assms by (auto simp: calcFenceViews_def porf_of_def second_simps res_simps)

lemma calcBasic_porf:
  assumes "calcBasicViews g l = Ok l'" and "\<not> isa_Read (lkind l)" and "lkind l \<noteq> EL_ThreadJoin"
  shows "core l' = core l \<and> porf_of g l (porfView l')"
  using assms by (auto simp: calcBasicViews_def porf_of_def second_simps res_simps Let_def)

lemma updateLabelViews_porf:
  assumes "updateLabelViews c g l = Ok l'" and "lkind l \<noteq> EL_ThreadStart" and "lkind l \<noteq> EL_ThreadJoin"
  shows "core l' = core l \<and> porf_of g l (porfView l')"
proof -
  obtain l0 where l0: "AddFunInfoToLbl g l = Ok l0" using assms(1) by (auto simp: updateLabelViews_def res_simps)
  note c0 = AddFunInfo_core [OF l0]
  have k: "lkind l0 = lkind l" using coreD [OF c0] by simp
  have "core l' = core l0 \<and> porf_of g l0 (porfView l')"
  proof (cases "isa_Read (lkind l)")
    case True
    then have "\<exists>l1. calcReadViews c g l0 = Ok l1 \<and> core l' = core l1 \<and> porfView l' = porfView l1"
      using assms(1) k l0
      by (auto simp: updateLabelViews_def res_simps Let_def isa_defs split: if_splits dest!: dsk_mem_only)
    then show ?thesis using calcRead_porf [of c g l0] True k by auto
  next
    case False
    have "(\<exists>l1. (calcWriteViews c g l0 = Ok l1 \<or> calcFenceViews g l0 = Ok l1 \<or> calcBasicViews g l0 = Ok l1) \<and>
        core l' = core l1 \<and> porfView l' = porfView l1)"
      using assms k l0 False
      by (auto simp: updateLabelViews_def res_simps Let_def isa_Read_def split: if_splits dest!: dsk_mem_only dsk_fence_only)
    then show ?thesis
      using calcWrite_porf [of c g l0] calcFence_porf [of g l0] calcBasic_porf [of g l0] False k assms(3) by auto
  qed
  then show ?thesis using c0 porf_of_core [OF c0, of g] by simp
qed

lemma updateLabelViews_join:
  assumes "updateLabelViews c g l = Ok l'" and "lkind l = EL_ThreadJoin"
  obtains f v where "core l' = core l" "getLastThreadLabel g (uint (lchildId l)) = Ok f" "calcBasicPorfView g (lpos l) = Ok v"
    "porfView l' = (if lkind f = EL_ThreadFinish then view_update v (porfView f) else v)"
proof -
  obtain l0 where l0: "AddFunInfoToLbl g l = Ok l0" using assms(1) by (auto simp: updateLabelViews_def res_simps)
  note c0 = AddFunInfo_core [OF l0]
  have k: "lkind l0 = lkind l" "lpos l0 = lpos l" using coreD [OF c0] by simp_all
  have i: "lchildId l0 = lchildId l" using l0 by (auto simp: AddFunInfoToLbl_def res_simps split: if_splits)
  have "calcJoinViews g l0 = Ok l'" using assms l0 k by (simp add: updateLabelViews_def Let_def)
  then obtain f hb v where f: "getLastThreadLabel g (uint (lchildId l)) = Ok f" "calcBasicPorfView g (lpos l) = Ok v"
    "Ok (if lkind f = EL_ThreadFinish then l0\<lparr>hbView := view_update hb (hbView f), porfView := view_update v (porfView f)\<rparr>
       else l0\<lparr>hbView := hb, porfView := v\<rparr>) = Ok l'"
    unfolding calcJoinViews_def k(2) i by (elim rbind_OkE) blast
  then have "l' = (if lkind f = EL_ThreadFinish then l0\<lparr>hbView := view_update hb (hbView f), porfView := view_update v (porfView f)\<rparr>
       else l0\<lparr>hbView := hb, porfView := v\<rparr>)" by simp
  then show thesis by (intro that [OF _ f(1,2)]) (use c0 in auto)
qed

lemma updateLabelViews_start:
  assumes "updateLabelViews c g l = Ok l'" and "lkind l = EL_ThreadStart"
  obtains cr where "core l' = core l" "getEventLabel g (lparentCreate l) = Ok cr"
    "view_set (porfView cr) (ethread (lpos l)) (eindex (lpos l)) = Ok (porfView l')"
proof -
  obtain l0 where l0: "AddFunInfoToLbl g l = Ok l0" using assms(1) by (auto simp: updateLabelViews_def res_simps)
  note c0 = AddFunInfo_core [OF l0]
  have k: "lkind l0 = lkind l" "lpos l0 = lpos l" "lparentCreate l0 = lparentCreate l" using c0 by (simp_all add: core_def)
  have "calcStartViews g l0 = Ok l'" using assms l0 k by (simp add: updateLabelViews_def Let_def)
  then show thesis using that k c0 by (auto simp: calcStartViews_def res_simps)
qed

section \<open>Exactness of porf views\<close>

text \<open>What an edge of a label refers to is in the graph, except for a read without a write.\<close>

definition porf_label :: "ExecutionGraph \<Rightarrow> Event \<Rightarrow> bool" where
  "porf_label g e \<longleftrightarrow> (let v = porfView (lab g e) in
     view_invar v \<and> view_at v (nat (ethread e)) = eindex e
     \<and> (\<forall>i. 0 < view_at v i \<longrightarrow> graph_contains g (Event (int i) (view_at v i)))
     \<and> (\<forall>a. porf_edge (lab g e) a \<longrightarrow> graph_contains g a \<or> isBottom a)
     \<and> (\<forall>e'. graph_contains g e' \<longrightarrow> 0 < eindex e' \<longrightarrow>
          (eindex e' \<le> view_at v (nat (ethread e')) \<longleftrightarrow> (e', e) \<in> (porf_rel g)\<^sup>*)))"

definition porf_exact :: "ExecutionGraph \<Rightarrow> bool" where
  "porf_exact g \<longleftrightarrow> wf_pos g \<and> (\<forall>e. graph_contains g e \<longrightarrow> porf_label g e)"

lemma porf_exactD:
  assumes "porf_exact g" and "graph_contains g e"
  shows "lpos (lab g e) = e" "view_invar (porfView (lab g e))" "view_at (porfView (lab g e)) (nat (ethread e)) = eindex e"
    and "0 < view_at (porfView (lab g e)) i \<Longrightarrow> graph_contains g (Event (int i) (view_at (porfView (lab g e)) i))"
    and "porf_edge (lab g e) a \<Longrightarrow> graph_contains g a \<or> isBottom a"
    and "graph_contains g e' \<Longrightarrow> 0 < eindex e' \<Longrightarrow>
      eindex e' \<le> view_at (porfView (lab g e)) (nat (ethread e')) \<longleftrightarrow> (e', e) \<in> (porf_rel g)\<^sup>*"
  using assms unfolding porf_exact_def wf_pos_iff porf_label_def Let_def by blast+

lemma bottom_not_contained [simp]: "isBottom e \<Longrightarrow> \<not> graph_contains g e"
  by (cases e) (simp add: isBottom_def getBottom_def graph_contains_def)

lemma contains_down: "graph_contains g (Event i k) \<Longrightarrow> 0 \<le> j \<Longrightarrow> j \<le> k \<Longrightarrow> graph_contains g (Event i j)"
  by (auto simp: graph_contains_def)

lemma view_inc_at:
  assumes "view_inc v t = Ok v'"
  shows "0 \<le> t" "view_at v' i = view_at v i + (if i = nat t then 1 else 0)"
  using assms by (auto simp: view_inc_def view_get_def view_set_def res_simps view_at_list_update split: if_splits)

text \<open>A label about to be appended, with the porf view it was given.\<close>

definition appendable :: "ExecutionGraph \<Rightarrow> EventLabel \<Rightarrow> bool" where
  "appendable g l \<longleftrightarrow> porf_exact g \<and> is_next g (lpos l) \<and> 0 < eindex (lpos l)
     \<and> lkind l \<noteq> EL_ThreadStart \<and> porf_of g l (porfView l)"

lemma appendableD:
  assumes "appendable g l"
  shows "porf_exact g" "is_next g (lpos l)" "0 < eindex (lpos l)"
    and "lkind l \<noteq> EL_ThreadStart" "porf_of g l (porfView l)"
    and "graph_contains g (prev (lpos l))"
  using assms by (auto simp: appendable_def is_next_def graph_contains_def prev_def)

definition sources :: "ExecutionGraph \<Rightarrow> EventLabel \<Rightarrow> Event set" where
  "sources g l = {a. graph_contains g a \<and> porf_edge l a}"

lemma sources_contained: "a \<in> sources g l \<Longrightarrow> graph_contains g a"
  by (simp add: sources_def)

lemma sources_eq:
  assumes "appendable g l"
  shows "sources g l = insert (prev (lpos l)) (set_option (second l))"
proof -
  note D = appendableD [OF assms]
  have "graph_contains g s" if "second l = Some s" for s
    using D(5) that by (auto simp: porf_of_def getEventLabel_Ok_iff)
  then show ?thesis using D(3,4,6) unfolding sources_def porf_edge_def second_def
    by (cases "isa_Read (lkind l)") (auto simp: isa_defs split: if_splits)
qed

text \<open>The view is that of the predecessor with the label's own index, joined with the view of the write.\<close>

lemma appendable_view:
  assumes "appendable g l"
  obtains v where "\<And>i. view_at v i = view_at (porfView (lab g (prev (lpos l)))) i + (if i = nat (ethread (lpos l)) then 1 else 0)"
    and "view_invar v"
    and "porfView l = (case second l of None \<Rightarrow> v | Some s \<Rightarrow> view_update v (porfView (lab g s)))"
    and "\<And>s. second l = Some s \<Longrightarrow> graph_contains g s"
proof -
  let ?p = "prev (lpos l)"
  note D = appendableD [OF assms]
  obtain v where v: "calcBasicPorfView g (lpos l) = Ok v"
    and w: "case second l of None \<Rightarrow> porfView l = v
      | Some s \<Rightarrow> \<exists>w. getEventLabel g s = Ok w \<and> porfView l = view_update v (porfView w)"
    using D(5) by (auto simp: porf_of_def)
  have inc: "view_inc (porfView (lab g ?p)) (ethread (lpos l)) = Ok v"
    using v D(3,6) by (auto simp: calcBasicPorfView_def previous_def getPreviousLabel_def deref_def)
  have "view_invar v"
  proof (rule view_invarI)
    fix j
    show "0 \<le> view_at v j" using view_inc_at(2) [OF inc, of j] porf_exactD(2) [OF D(1,6)] by simp
  qed
  with w view_inc_at(2) [OF inc] show thesis by (intro that) (auto simp: getEventLabel_Ok_iff split: option.splits)
qed

lemma view_inv: "appendable g l \<Longrightarrow> view_invar (porfView l)"
  by (rule appendable_view) (auto simp: porf_exactD(2) [OF appendableD(1)] split: option.splits)

lemma view_sources:
  assumes "appendable g l" and "0 < k"
  shows "k \<le> view_at (porfView l) i \<longleftrightarrow>
     (i = nat (ethread (lpos l)) \<and> k = eindex (lpos l)) \<or> (\<exists>a\<in>sources g l. k \<le> view_at (porfView (lab g a)) i)"
proof -
  let ?p = "prev (lpos l)" and ?t = "nat (ethread (lpos l))"
  note D = appendableD [OF assms(1)]
  obtain v where v: "\<And>i. view_at v i = view_at (porfView (lab g ?p)) i + (if i = ?t then 1 else 0)" "view_invar v"
    "porfView l = (case second l of None \<Rightarrow> v | Some s \<Rightarrow> view_update v (porfView (lab g s)))"
    "\<And>s. second l = Some s \<Longrightarrow> graph_contains g s"
    using appendable_view [OF assms(1)] by blast
  have "view_at (porfView (lab g ?p)) ?t = eindex (lpos l) - 1"
    using porf_exactD(3) [OF D(1,6)] by (simp add: prev_def)
  then have base: "k \<le> view_at v i \<longleftrightarrow> (i = ?t \<and> k = eindex (lpos l)) \<or> k \<le> view_at (porfView (lab g ?p)) i"
    using v(1) [of i] by auto
  show ?thesis
  proof (cases "second l")
    case (Some s)
    then have "view_at (porfView l) i = max (view_at v i) (view_at (porfView (lab g s)) i)"
      unfolding v(3) using view_at_update [OF v(2) porf_exactD(2) [OF D(1) v(4)]] by simp
    then show ?thesis unfolding sources_eq [OF assms(1)] using Some base by (auto simp: le_max_iff_disj)
  next
    case None
    then show ?thesis unfolding sources_eq [OF assms(1)] using v(3) base by auto
  qed
qed

lemma sources_bound:
  assumes "appendable g l" and "a \<in> sources g l" and "0 < k" and "k \<le> view_at (porfView (lab g a)) i"
  shows "graph_contains g (Event (int i) k)"
  using porf_exactD(4) [OF appendableD(1) [OF assms(1)] sources_contained [OF assms(2)], of i] assms(3,4)
    contains_down [of g "int i" "view_at (porfView (lab g a)) i" k] by simp

lemma next_not_contained: "is_next g p \<Longrightarrow> eindex p \<le> k \<Longrightarrow> \<not> graph_contains g (Event (ethread p) k)"
  by (auto simp: graph_contains_def is_next_def)

lemma view_own:
  assumes "appendable g l"
  shows "view_at (porfView l) (nat (ethread (lpos l))) = eindex (lpos l)"
proof (rule antisym)
  let ?t = "nat (ethread (lpos l))"
  note D = appendableD [OF assms]
  show "eindex (lpos l) \<le> view_at (porfView l) ?t" using view_sources [OF assms D(3)] by simp
  show "view_at (porfView l) ?t \<le> eindex (lpos l)"
  proof (rule ccontr)
    assume "\<not> view_at (porfView l) ?t \<le> eindex (lpos l)"
    then have "eindex (lpos l) + 1 \<le> view_at (porfView l) ?t" by simp
    then obtain a where "a \<in> sources g l" "eindex (lpos l) + 1 \<le> view_at (porfView (lab g a)) ?t"
      using view_sources [OF assms, of "eindex (lpos l) + 1" ?t] D(3) by auto
    then have "graph_contains g (Event (int ?t) (eindex (lpos l) + 1))"
      using sources_bound [OF assms, of a "eindex (lpos l) + 1" ?t] D(3) by linarith
    then show False using next_not_contained [OF D(2), of "eindex (lpos l) + 1"] D(2) by (simp add: is_next_def)
  qed
qed

lemma view_old:
  assumes "appendable g l" and "graph_contains g e'" and "0 < eindex e'"
  shows "eindex e' \<le> view_at (porfView l) (nat (ethread e')) \<longleftrightarrow> (\<exists>a\<in>sources g l. (e', a) \<in> (porf_rel g)\<^sup>*)"
proof -
  note D = appendableD [OF assms(1)]
  have "\<not> (nat (ethread e') = nat (ethread (lpos l)) \<and> eindex e' = eindex (lpos l))"
    using assms(2) D(2) by (auto simp: graph_contains_def is_next_def)
  then show ?thesis
    unfolding view_sources [OF assms(1,3)] using porf_exactD(6) [OF D(1) sources_contained assms(2,3)] by blast
qed

lemma append_exact:
  assumes ap: "appendable g l" and x: "extends_by g l g'"
  shows "porf_exact g'"
proof -
  note D = appendableD [OF ap] and A = extends_byD [OF x]
  let ?p = "lpos l"
  note fresh = is_next_fresh [OF D(2)]
  have old_edge: "\<not> porf_edge (lab g e) ?p" if "graph_contains g e" for e
    using porf_exactD(5) [OF D(1) that, of ?p] fresh D(3) by (auto simp: isBottom_def getBottom_def)
  have new_edge: "graph_contains g a \<or> isBottom a" if "porf_edge l a" for a
  proof (cases "a \<in> insert (prev ?p) (set_option (second l))")
    case True
    then show ?thesis using sources_eq [OF ap] sources_contained by blast
  qed (use that D(4) in \<open>auto simp: porf_edge_def second_def isa_defs split: if_splits\<close>)
  have "\<not> isBottom ?p" using D(3) by (auto simp: isBottom_def getBottom_def)
  then have self: "\<not> porf_edge l ?p" using fresh new_edge by blast
  have rel: "porf_rel g' = porf_rel g \<union> sources g l \<times> {?p}"
    using porf_rel_extend [OF x fresh] old_edge self unfolding sources_def by blast
  have sink: "?p \<notin> Domain (porf_rel g)" "?p \<notin> Range (porf_rel g)" "?p \<notin> sources g l"
    using fresh by (auto simp: porf_rel_def sources_def)
  note R = rtrancl_add_sink [OF sink]
  have "porf_label g' e" if e: "graph_contains g e" for e
  proof -
    have b: "\<not> eindex ?p \<le> view_at (porfView (lab g e)) (nat (ethread ?p))"
    proof
      assume "eindex ?p \<le> view_at (porfView (lab g e)) (nat (ethread ?p))"
      then have "graph_contains g (Event (ethread ?p) (view_at (porfView (lab g e)) (nat (ethread ?p))))"
        using porf_exactD(4) [OF D(1) e, of "nat (ethread ?p)"] D(2,3) by (simp add: is_next_def)
      then show False using next_not_contained [OF D(2)] \<open>eindex ?p \<le> _\<close> by blast
    qed
    have "e \<noteq> ?p" using e fresh by blast
    have nr: "(?p, e) \<notin> (porf_rel g)\<^sup>*" using sink(1) \<open>e \<noteq> ?p\<close> by (auto elim: converse_rtranclE)
    show ?thesis
      unfolding porf_label_def Let_def A(3) [OF e] core_edge [OF A(2) [OF e]] rel A(1) R(1) [OF \<open>e \<noteq> ?p\<close>]
      using porf_exactD [OF D(1) e] b nr by auto
  qed
  moreover have "porf_label g' ?p"
  proof -
    have "graph_contains g' (Event (int i) (view_at (porfView l) i))" if "0 < view_at (porfView l) i" for i
    proof (cases "i = nat (ethread ?p) \<and> view_at (porfView l) i = eindex ?p")
      case True
      then have "Event (int i) (view_at (porfView l) i) = ?p" using D(2) by (auto simp: event_eq_iff is_next_def)
      then show ?thesis using A(1) by simp
    next
      case False
      then show ?thesis using view_sources [OF ap that, of i] sources_bound [OF ap _ that] A(1) by blast
    qed
    moreover have "eindex e \<le> view_at (porfView l) (nat (ethread e)) \<longleftrightarrow> (e, ?p) \<in> (porf_rel g')\<^sup>*"
      if "graph_contains g' e" "0 < eindex e" for e
      unfolding rel R(2) using that view_old [OF ap _ that(2)] view_own [OF ap] A(1) fresh by auto
    ultimately show ?thesis
      unfolding porf_label_def Let_def A(5) core_edge [OF A(4)]
      using view_inv [OF ap] view_own [OF ap] new_edge A(1) by blast
  qed
  moreover have "wf_pos g'" using extends_wf_pos [OF x] D(1) by (simp add: porf_exact_def)
  ultimately show ?thesis unfolding porf_exact_def using A(1) by blast
qed

text \<open>The first label of a new thread takes the view of the event that created the thread.\<close>

lemma start_exact:
  assumes ex: "porf_exact g" and n: "is_next g (lpos l)" and i: "eindex (lpos l) = 0" and k: "lkind l = EL_ThreadStart"
    and c: "graph_contains g (lparentCreate l)"
    and v: "view_set (porfView (lab g (lparentCreate l))) (ethread (lpos l)) 0 = Ok (porfView l)" and x: "extends_by g l g'"
  shows "porf_exact g'"
proof -
  note A = extends_byD [OF x]
  let ?p = "lpos l" and ?c = "lparentCreate l"
  note fresh = is_next_fresh [OF n]
  have nb: "\<not> isBottom ?p" using n by (auto simp: isBottom_def getBottom_def is_next_def)
  have edge: "porf_edge l a \<longleftrightarrow> a = ?c" for a using i k by (simp add: porf_edge_def isa_defs)
  have old_edge: "\<not> porf_edge (lab g e) ?p" if "graph_contains g e" for e
    using porf_exactD(5) [OF ex that, of ?p] fresh nb by blast
  have "\<not> porf_edge l ?p" using edge c fresh by auto
  then have rel: "porf_rel g' = porf_rel g \<union> {?c} \<times> {?p}"
    using porf_rel_extend [OF x fresh] old_edge edge c by auto
  have sink: "?p \<notin> Domain (porf_rel g)" "?p \<notin> Range (porf_rel g)" "?p \<notin> {?c}"
    using fresh c by (auto simp: porf_rel_def)
  note R = rtrancl_add_sink [OF sink]
  have empty: "\<not> graph_contains g (Event (ethread ?p) q)" for q using n i by (auto simp: graph_contains_def is_next_def)
  have zero: "view_at (porfView (lab g ?c)) (nat (ethread ?p)) = 0"
  proof (rule antisym)
    show "view_at (porfView (lab g ?c)) (nat (ethread ?p)) \<le> 0"
      using porf_exactD(4) [OF ex c, of "nat (ethread ?p)"] empty n by (auto simp: is_next_def not_less [symmetric])
  qed (use porf_exactD(2) [OF ex c] in simp)
  have at: "view_at (porfView l) j = view_at (porfView (lab g ?c)) j" for j
  proof -
    have "porfView l = (view_grow (porfView (lab g ?c)) (nat (ethread ?p)))[nat (ethread ?p) := 0]"
      using v by (simp add: view_set_def split: if_splits)
    then show ?thesis using zero by (auto simp: view_at_list_update)
  qed
  have "porf_label g' e" if e: "graph_contains g e" for e
  proof -
    have "e \<noteq> ?p" using e fresh by blast
    show ?thesis
      unfolding porf_label_def Let_def A(3) [OF e] core_edge [OF A(2) [OF e]] rel A(1) R(1) [OF \<open>e \<noteq> ?p\<close>]
      using porf_exactD [OF ex e] i by auto
  qed
  moreover have "porf_label g' ?p"
    unfolding porf_label_def Let_def A(5) core_edge [OF A(4)] rel R(2) at edge A(1)
    using porf_exactD [OF ex c] c i zero
    by (auto intro!: view_invarI simp: at)
  moreover have "wf_pos g'" using extends_wf_pos [OF x] ex by (simp add: porf_exact_def)
  ultimately show ?thesis unfolding porf_exact_def using A(1) by blast
qed

section \<open>Calls\<close>

lemma updateLabelViews_core:
  assumes "updateLabelViews c g l = Ok l'"
  shows "core l' = core l"
proof (cases "lkind l = EL_ThreadStart \<or> lkind l = EL_ThreadJoin")
  case True
  obtain l0 where l0: "AddFunInfoToLbl g l = Ok l0" using assms by (auto simp: updateLabelViews_def res_simps)
  have "lkind l0 = lkind l" using coreD [OF AddFunInfo_core [OF l0]] by simp
  then have "calcStartViews g l0 = Ok l' \<or> calcJoinViews g l0 = Ok l'"
    using assms l0 True by (auto simp: updateLabelViews_def Let_def)
  then have "core l' = core l0" by (auto simp: calcStartViews_def calcJoinViews_def res_simps)
  then show ?thesis using AddFunInfo_core [OF l0] by simp
next
  case False
  then show ?thesis using updateLabelViews_porf [OF assms] by simp
qed

lemma updateLabelViews_FunStart:
  assumes "updateLabelViews c g l = Ok l'" and "lkind l = EL_FunStart"
  shows "lCOM l' = [] \<and> lSO l' = [] \<and> linvocation l' = getFunInvocationCount g (lmethod l) \<and> lmethod l' = lmethod l"
  using assms by (auto simp: updateLabelViews_def AddFunInfoToLbl_def calcBasicViews_def Let_def res_simps)

lemma append_calls_ok:
  assumes "calls_ok g" and "is_next g (lpos l)" and "0 < eindex (lpos l)"
    and "is_start l' \<Longrightarrow> lCOM l' = [] \<and> lSO l' = []"
    and "events g' = (events g)[nat (ethread (lpos l)) := events g ! nat (ethread (lpos l)) @ [l']]"
  shows "calls_ok g'"
proof -
  let ?t = "nat (ethread (lpos l))"
  have t: "?t < numThreads g" "events g ! ?t \<noteq> []" using assms(2,3) by (auto simp: is_next_def)
  have "starts_ok g'" unfolding starts_ok_def assms(5)
  proof
    fix x
    assume "x \<in> set ((events g)[?t := events g ! ?t @ [l']])"
    then have "x \<in> set (events g) \<or> x = events g ! ?t @ [l']" by (meson insert_iff set_update_subset_insert subsetD)
    moreover have "events g ! ?t \<in> set (events g)" using t(1) by simp
    ultimately show "x \<noteq> [] \<longrightarrow> lkind (hd x) = EL_ThreadStart"
      using assms(1) t(2) unfolding calls_ok_def starts_ok_def by auto
  qed
  moreover have "l1 \<in> set (labels g) \<or> l1 = l'" if "l1 \<in> set (labels g')" for l1
    using that appended [OF assms(2,5)] unfolding in_labels_iff by metis
  ultimately show ?thesis using assms(1,4) unfolding calls_ok_def by blast
qed

lemma append_thread_calls_ok:
  assumes "calls_ok g" and "lkind l' = EL_ThreadStart"
    and "events g' = events g @ [[l']]"
  shows "calls_ok g'"
  using assms by (auto simp: calls_ok_def starts_ok_def labels_def is_start_def)

text \<open>Start and end of a call always get views.\<close>

lemma updateLabelViews_call:
  assumes "graph_contains g (prev (lpos l))" and "0 < eindex (lpos l)" and "lkind l \<in> {EL_FunStart, EL_FunEnd}"
  obtains l' where "updateLabelViews c g l = Ok l'"
proof -
  have e: "Event (ethread (lpos l)) (eindex (lpos l) - 1) = prev (lpos l)" by (simp add: prev_def)
  have "\<exists>l0. AddFunInfoToLbl g l = Ok l0"
    using assms(1) by (auto simp: AddFunInfoToLbl_def previousEventMethod_def previousEventInvocation_def e)
  then obtain l0 where l0: "AddFunInfoToLbl g l = Ok l0" by blast
  have k: "lkind l0 = lkind l" "lpos l0 = lpos l" using coreD [OF AddFunInfo_core [OF l0]] by simp_all
  have "0 \<le> ethread (lpos l)" using assms(1) by (simp add: graph_contains_def prev_def)
  then have "\<exists>l'. calcBasicViews g l0 = Ok l'"
    using assms(1,2) k(2)
    by (simp add: calcBasicViews_def calcBasicHbView_def calcBasicPorfView_def calcBasicCOM_def calcBasicSO_def
        previous_def getPreviousLabel_def deref_def view_inc_def view_get_def view_set_def Let_def)
  moreover have "updateLabelViews c g l = calcBasicViews g l0"
    using assms(3) l0 k(1) by (auto simp: updateLabelViews_def Let_def)
  ultimately show thesis using that by auto
qed

lemma updateLabelViews_FunEnd_method:
  assumes "updateLabelViews c g l = Ok l'" and "lkind l = EL_FunEnd"
  shows "previousEventMethod g (lpos l) = Ok (lmethod l')"
  using assms by (auto simp: updateLabelViews_def AddFunInfoToLbl_def calcBasicViews_def Let_def res_simps)

section \<open>Joins\<close>

text \<open>The label at a position has a view that contains exactly the events that reach it.\<close>

definition exact_at :: "ExecutionGraph \<Rightarrow> Event \<Rightarrow> bool" where
  "exact_at g e \<longleftrightarrow> porf_exact g \<and> (\<forall>e'. graph_contains g e' \<and> 0 < eindex e' \<longrightarrow>
     (view_contains (porfView (lab g e)) e' = Ok True \<longleftrightarrow> (e', e) \<in> (porf_rel g)\<^sup>*))"

lemma exact_atI: "porf_exact g \<Longrightarrow> graph_contains g e \<Longrightarrow> exact_at g e"
  using porf_exactD(6) by (auto simp: exact_at_def view_contains_iff graph_contains_def)

text \<open>\<open>updateJoin()\<close> on a join that was just appended, when its child has finished.\<close>

lemma updateJoin_extends:
  assumes p: "0 < eindex (lpos l)" "graph_contains g (prev (lpos l))" "\<not> graph_contains g (lpos l)" and k: "lkind l = EL_ThreadJoin"
    and C: "\<And>e. graph_contains g' e \<longleftrightarrow> graph_contains g e \<or> e = lpos l"
    and O: "\<And>e. graph_contains g e \<Longrightarrow> lab g' e = lab g e" and N: "lab g' (lpos l) = l"
    and le: "graph_contains g le" "lkind (lab g le) = EL_ThreadFinish"
    and v: "calcBasicPorfView g (lpos l) = Ok v" "porfView l = view_update v (porfView (lab g le))"
  obtains g'' where "updateJoin_rc11 g' (lpos l) le = Ok (g'', True)" "extends_by g (l\<lparr>lchildLast := le\<rparr>) g''"
proof -
  define g0 where "g0 = setFPStatus FS_Stale g'"
  define g1 where "g1 = upd g0 (lpos l) (\<lambda>l. l\<lparr>lchildLast := le\<rparr>)"
  define g2 where "g2 = upd g1 le (\<lambda>q. q\<lparr>lparentJoin := lpos l\<rparr>)"
  have ne: "le \<noteq> lpos l" "prev (lpos l) \<noteq> lpos l" using le(1) p by auto
  have c: "graph_contains g0 e = graph_contains g' e" "graph_contains g1 e = graph_contains g' e" "graph_contains g2 e = graph_contains g' e" for e
    by (simp_all add: g0_def g1_def g2_def)
  have m: "graph_contains g' (lpos l)" "graph_contains g' le" "graph_contains g' (prev (lpos l))" using C le(1) p by simp_all
  have u: "updateJoin g' (lpos l) le = Ok (g2, True)"
    using m N O [OF le(1)] k le(2) by (simp add: updateJoin_def Let_def g0_def g1_def g2_def)
  have l1: "lab g2 e = (if e = le then (lab g le)\<lparr>lparentJoin := lpos l\<rparr> else if e = lpos l then l\<lparr>lchildLast := le\<rparr> else lab g e)"
    if "graph_contains g' e" for e
    using that m ne O [of e] O [OF le(1)] N C [of e] by (auto simp: g2_def g1_def g0_def lab_upd)
  have b: "calcBasicPorfView g2 (lpos l) = Ok v" "\<exists>h. calcBasicHbView g2 (lpos l) = Ok h"
    using v(1) p ne m c l1 [OF m(3)]
    by (auto simp: calcBasicPorfView_def calcBasicHbView_def previous_def getPreviousLabel_def deref_def view_inc_def view_get_def
        view_set_def split: if_splits)
  then obtain h where h: "calcBasicHbView g2 (lpos l) = Ok h" by blast
  define g3 where "g3 = upd g2 (lpos l) (\<lambda>q. q\<lparr>hbView := view_update h (hbView (lab g2 le)), porfView := view_update v (porfView (lab g2 le))\<rparr>)"
  have "updateJoin_rc11 g' (lpos l) le = Ok (g3, True)"
    using u b(1) h m c l1 [OF m(1)] ne by (simp add: updateJoin_rc11_def g3_def)
  moreover have "extends_by g (l\<lparr>lchildLast := le\<rparr>) g3"
    unfolding extends_by_def
  proof (intro conjI allI impI)
    fix e
    show "graph_contains g3 e = (graph_contains g e \<or> e = lpos (l\<lparr>lchildLast := le\<rparr>))" using C c by (simp add: g3_def)
    assume "graph_contains g e"
    then show "core (lab g3 e) = core (lab g e)" "porfView (lab g3 e) = porfView (lab g e)"
      using l1 [of e] C c p(3) m by (auto simp: g3_def lab_upd core_def)
  next
    show "core (lab g3 (lpos (l\<lparr>lchildLast := le\<rparr>))) = core (l\<lparr>lchildLast := le\<rparr>)"
      "porfView (lab g3 (lpos (l\<lparr>lchildLast := le\<rparr>))) = porfView (l\<lparr>lchildLast := le\<rparr>)"
      using l1 [OF m(1)] l1 [OF m(2)] ne c m v(2) by (simp_all add: g3_def lab_upd core_def)
  qed
  ultimately show thesis by (rule that)
qed

lemma start_not_finish:
  assumes "starts_ok g" and "graph_contains g e" and "lkind (lab g e) = EL_ThreadFinish"
  shows "e \<noteq> getInitializer"
proof
  assume e: "e = getInitializer"
  then have "events g ! 0 \<in> set (events g)" "events g ! 0 \<noteq> []" using assms(2) by (auto simp: graph_contains_def getInitializer_def)
  then have "lkind (hd (events g ! 0)) = EL_ThreadStart" using assms(1) unfolding starts_ok_def by blast
  then show False using assms(3) \<open>events g ! 0 \<noteq> []\<close> e by (simp add: lab_def getInitializer_def hd_conv_nth)
qed

text \<open>Either way the label of the join is one that may be appended.\<close>

lemma join_appendable:
  assumes "porf_exact g" and "starts_ok g" and "is_next g (lpos l)" and "0 < eindex (lpos l)" and "lkind l = EL_ThreadJoin"
    and "lchildLast l = getInitializer" and "uint (lchildId l) \<noteq> ethread (lpos l)" and u: "updateLabelViews c g l = Ok l'"
    and ev: "events g' = (events g)[nat (ethread (lpos l')) := events g ! nat (ethread (lpos l')) @ [l'\<lparr>lstamp := s\<rparr>]]"
  obtains g'' le ok q where "getLastThreadEvent g' (uint (lchildId l)) = Ok le" "updateJoin_rc11 g' (lpos l) le = Ok (g'', ok)"
    "appendable g q" "extends_by g q g''" "lpos q = lpos l"
proof -
  obtain f v where f: "core l' = core l" "getLastThreadLabel g (uint (lchildId l)) = Ok f" "calcBasicPorfView g (lpos l) = Ok v"
    "porfView l' = (if lkind f = EL_ThreadFinish then view_update v (porfView f) else v)"
    by (rule updateLabelViews_join [OF u assms(5)])
  have k: "lpos l' = lpos l" "lkind l' = EL_ThreadJoin" "lchildLast l' = getInitializer"
    using f(1) assms(5,6) by (simp_all add: core_def)
  have n: "is_next g (lpos (l'\<lparr>lstamp := s\<rparr>))" using assms(3) k by simp
  note A = appended [of g "l'\<lparr>lstamp := s\<rparr>" g' "l'\<lparr>lstamp := s\<rparr>", OF n]
  have ev': "events g' = (events g)[nat (ethread (lpos (l'\<lparr>lstamp := s\<rparr>))) := events g ! nat (ethread (lpos (l'\<lparr>lstamp := s\<rparr>))) @ [l'\<lparr>lstamp := s\<rparr>]]"
    using ev by simp
  let ?le = "Event (uint (lchildId l)) (int (length (events g ! nat (uint (lchildId l)))) - 1)"
  have le: "getLastThreadEvent g (uint (lchildId l)) = Ok ?le" "graph_contains g ?le" "lab g ?le = f"
    using f(2) by (auto simp: getLastThreadLabel_def getLastThreadEvent_def getThreadSize_def res_simps getEventLabel_Ok_iff)
  have le': "getLastThreadEvent g' (uint (lchildId l)) = Ok ?le"
    using le(1) assms(3,7) ev k by (auto simp: getLastThreadEvent_def getThreadSize_def res_simps is_next_def nth_list_update nat_eq_iff)
  have fr: "\<not> graph_contains g (lpos l)" by (rule is_next_fresh [OF assms(3)])
  have pr: "graph_contains g (prev (lpos l))" using assms(3,4) by (auto simp: is_next_def graph_contains_def prev_def)
  show thesis
  proof (cases "lkind f = EL_ThreadFinish")
    case True
    have v: "porfView l' = view_update v (porfView (lab g ?le))" using f(4) True le(3) by simp
    obtain g'' where g'': "updateJoin_rc11 g' (lpos (l'\<lparr>lstamp := s\<rparr>)) ?le = Ok (g'', True)"
      "extends_by g (l'\<lparr>lstamp := s\<rparr>\<lparr>lchildLast := ?le\<rparr>) g''"
      by (rule updateJoin_extends [of "l'\<lparr>lstamp := s\<rparr>" g g' ?le v]) (use A [OF ev'] k assms(4) fr pr le True f(3) v in auto)
    have "?le \<noteq> getInitializer" by (rule start_not_finish [OF assms(2) le(2)]) (use True le(3) in simp)
    then have "porf_of g (l'\<lparr>lstamp := s\<rparr>\<lparr>lchildLast := ?le\<rparr>) (porfView l')"
      using f(3) k le(2) v by (simp add: porf_of_def second_def isa_defs)
    then have "appendable g (l'\<lparr>lstamp := s\<rparr>\<lparr>lchildLast := ?le\<rparr>)" using assms(1,3,4) k by (simp add: appendable_def)
    then show thesis using that [OF le' _ _ g''(2)] g''(1) k by simp
  next
    case False
    have "updateJoin_rc11 g' (lpos l) ?le = Ok (setFPStatus FS_Stale g', False)"
      using A [OF ev'] k le False by (simp add: updateJoin_rc11_def updateJoin_def Let_def)
    moreover have "extends_by g l' (setFPStatus FS_Stale g')"
      using A [OF ev'] k by (simp add: extends_by_def)
    moreover have "appendable g l'"
      using assms(1,3,4) k f(3,4) False by (simp add: appendable_def porf_of_def second_def isa_defs)
    ultimately show thesis using that [OF le'] k(1) by blast
  qed
qed

section \<open>Examples\<close>

definition conf0 :: Conf where
  "conf0 = \<lparr>dsModel = M_HW_Queue, LAPOR = False, persevere = False, varName = (\<lambda>_. ''x''), initVal = (\<lambda>_ _. 0),
     hbRel = (\<lambda>_ _. False)\<rparr>"

text \<open>A call that has found a COM edge.\<close>

definition com_graph :: ExecutionGraph where
  "com_graph = graph_init\<lparr>events := [[ThreadStartLabel 0 Acquire (Event 0 0) getInitializer (-1),
     (FunStartLabel (Event 0 1))\<lparr>lmethod := FN_Deq, lCOM := [FunctionEvent FN_Enq 0], lSO := [FunctionEvent FN_Enq 0]\<rparr>]]\<rparr>"

abbreviation ex_fence :: EventLabel where
  "ex_fence \<equiv> mkLabel EL_Fence 0 Release (Event 0 2)"

lemma graph_init_contains: "graph_contains graph_init e \<longleftrightarrow> e = Event 0 0"
  by (cases e) (auto simp: graph_init_def graph_contains_def)

lemma graph_init_exact: "porf_exact graph_init"
  unfolding porf_exact_def wf_pos_iff porf_label_def Let_def graph_init_contains
  by (auto simp: graph_init_def lab_def ThreadStartLabel_def mkLabel_def porf_edge_def isa_defs getInitializer_def
      view_invar_def view_at_def)

lemma graph_init_calls: "calls_ok graph_init"
  by (simp add: calls_ok_def starts_ok_def graph_init_def labels_def is_start_def)

lemma graph_init_next: "is_next graph_init (Event 0 1)"
  by (simp add: is_next_def graph_init_def)

text \<open>A second thread that has finished.\<close>

definition join_graph :: ExecutionGraph where
  "join_graph = graph_init\<lparr>events := [[ThreadStartLabel 0 Acquire (Event 0 0) getInitializer (-1)],
     [ThreadStartLabel 1 Acquire (Event 1 0) getInitializer (-1), (ThreadFinishLabel (Event 1 1))\<lparr>lstamp := 2, porfView := [0, 1]\<rparr>]]\<rparr>"

lemma join_graph_contains: "graph_contains join_graph e \<longleftrightarrow> e = Event 0 0 \<or> e = Event 1 0 \<or> e = Event 1 1"
  by (cases e) (auto simp: join_graph_def graph_contains_def less_Suc_eq nth_Cons' split: if_splits)

lemma join_graph_labels: "lab join_graph (Event 0 0) = ThreadStartLabel 0 Acquire (Event 0 0) getInitializer (-1)"
    "lab join_graph (Event 1 0) = ThreadStartLabel 1 Acquire (Event 1 0) getInitializer (-1)"
    "lab join_graph (Event 1 1) = (ThreadFinishLabel (Event 1 1))\<lparr>lstamp := 2, porfView := [0, 1]\<rparr>"
  by (simp_all add: join_graph_def lab_def)

lemma join_graph_edges: "porf_edge (lab join_graph (Event 0 0)) a \<longleftrightarrow> a = Event 0 0"
    "porf_edge (lab join_graph (Event 1 0)) a \<longleftrightarrow> a = Event 0 0" "porf_edge (lab join_graph (Event 1 1)) a \<longleftrightarrow> a = Event 1 0"
  by (auto simp: join_graph_labels porf_edge_def ThreadStartLabel_def ThreadFinishLabel_def mkLabel_def isa_defs getInitializer_def prev_def)

lemma join_graph_exact: "porf_exact join_graph"
proof -
  have "Event 1 1 \<notin> Domain (porf_rel join_graph)"
    by (auto simp: porf_rel_def join_graph_contains join_graph_edges)
  then have r: "(Event 1 1, e) \<in> (porf_rel join_graph)\<^sup>* \<longleftrightarrow> e = Event 1 1" for e
    by (auto elim: converse_rtranclE)
  have v: "view_at (porfView (lab join_graph e)) i = (if e = Event 1 1 \<and> i = 1 then 1 else 0)" if "graph_contains join_graph e" for e i
    using that by (auto simp: join_graph_contains join_graph_labels ThreadStartLabel_def ThreadFinishLabel_def mkLabel_def view_at_def nth_Cons')
  have w: "wf_pos join_graph"
    unfolding wf_pos_iff by (auto simp: join_graph_contains join_graph_labels ThreadStartLabel_def ThreadFinishLabel_def mkLabel_def)
  have "porf_label join_graph e" if e: "graph_contains join_graph e" for e
  proof -
    have "view_invar (porfView (lab join_graph e))" by (rule view_invarI) (simp add: v [OF e])
    moreover have "graph_contains join_graph a" if "porf_edge (lab join_graph e) a" for a
      using that e by (auto simp: join_graph_contains join_graph_edges)
    ultimately show ?thesis
      unfolding porf_label_def Let_def v [OF e] using e r by (auto simp: join_graph_contains split: if_splits)
  qed
  with w show ?thesis by (simp add: porf_exact_def)
qed

lemma join_graph_views: "\<exists>l'. updateLabelViews conf0 join_graph (ThreadJoinLabel (Event 0 1) 1) = Ok l'"
  by (simp add: updateLabelViews_def AddFunInfoToLbl_def previousEventMethod_def previousEventInvocation_def calcJoinViews_def
      calcBasicHbView_def calcBasicPorfView_def previous_def getPreviousLabel_def getLastThreadLabel_def getLastThreadEvent_def
      getThreadSize_def getEventLabel_def deref_def view_inc_def view_get_def view_set_def join_graph_def prev_def Let_def
      ThreadJoinLabel_def mkLabel_def isa_defs)

lemma init_start_views:
  "\<exists>l'. updateLabelViews c graph_init ((FunStartLabel (Event 0 1))\<lparr>lmethod := FN_Enq\<rparr>) = Ok l'"
  by (simp add: updateLabelViews_def AddFunInfoToLbl_def calcBasicViews_def calcBasicHbView_def calcBasicPorfView_def
      calcBasicCOM_def calcBasicSO_def previous_def getPreviousLabel_def getEventLabel_def deref_def view_inc_def
      view_get_def view_set_def graph_init_def prev_def Let_def FunStartLabel_def mkLabel_def isa_defs)

section \<open>Properties\<close>

text \<open>C25: the porf views of RC11 are exact. When the views of a new label can be calculated and it is appended
  to its thread, its porf view contains an event (after the first of its thread) exactly when the event reaches
  it along program order, reads-from, thread creation and joins, and every label of the new graph has such a
  view when every label of the old one had. This holds for labels of every kind: the start of a thread is the
  first label of a thread, and a join comes without the end of its child, which \<open>updateJoin()\<close> then fills in.\<close>

theorem updateLabelViews_porf_exact:
  assumes "porf_exact g" and "starts_ok g" and "is_next g (lpos l)" and "lkind l = EL_ThreadStart \<longleftrightarrow> eindex (lpos l) = 0"
    and "lkind l = EL_ThreadJoin \<Longrightarrow> lchildLast l = getInitializer \<and> uint (lchildId l) \<noteq> ethread (lpos l)"
    and "updateLabelViews c g l = Ok l'"
  shows "\<exists>g' l''. addOtherLabelToGraph g l' = Ok (g', l'') \<and>
    (if lkind l = EL_ThreadJoin then \<exists>le g'' ok. getLastThreadEvent g' (uint (lchildId l)) = Ok le
        \<and> updateJoin_rc11 g' (lpos l) le = Ok (g'', ok) \<and> exact_at g'' (lpos l)
     else exact_at g' (lpos l))"
proof -
  have c: "core l' = core l" by (rule updateLabelViews_core [OF assms(6)])
  note k = coreD [OF c]
  have n: "is_next g (lpos l')" using assms(3) k by simp
  obtain g' s where a: "addOtherLabelToGraph g l' = Ok (g', l'\<lparr>lstamp := s\<rparr>)"
    "events g' = (events g)[nat (ethread (lpos l')) := events g ! nat (ethread (lpos l')) @ [l'\<lparr>lstamp := s\<rparr>]]"
    using append_label [OF n] by blast
  have x: "extends_by g l' g'" by (rule append_extends [OF n a(2)]) simp_all
  have at: "exact_at h (lpos l)" if "porf_exact h" "extends_by g q h" "lpos q = lpos l" for h q
    by (rule exact_atI [OF that(1)]) (use extends_byD(1) [OF that(2)] that(3) in simp)
  consider (start) "lkind l = EL_ThreadStart" | (join) "lkind l = EL_ThreadJoin" "0 < eindex (lpos l)"
    | (other) "lkind l \<noteq> EL_ThreadStart" "lkind l \<noteq> EL_ThreadJoin" "0 < eindex (lpos l)"
    using assms(3,4) by (fastforce simp: is_next_def)
  then show ?thesis
  proof cases
    case start
    obtain cr where cr: "getEventLabel g (lparentCreate l) = Ok cr"
      "view_set (porfView cr) (ethread (lpos l)) (eindex (lpos l)) = Ok (porfView l')"
      by (rule updateLabelViews_start [OF assms(6) start])
    have "lparentCreate l' = lparentCreate l" using c by (simp add: core_def)
    then have "porf_exact g'"
      by (intro start_exact [OF assms(1) n _ _ _ _ x]) (use cr start assms(4) k in \<open>simp_all add: getEventLabel_Ok_iff\<close>)
    then show ?thesis using a(1) at [OF _ x] start k by auto
  next
    case other
    have "appendable g l'"
      using assms(1,3) other updateLabelViews_porf [OF assms(6) other(1,2)] k porf_of_core [OF c, of g] by (simp add: appendable_def)
    then have "porf_exact g'" by (rule append_exact [OF _ x])
    then show ?thesis using a(1) at [OF _ x] other k by auto
  next
    case join
    obtain g'' le ok q where j: "getLastThreadEvent g' (uint (lchildId l)) = Ok le" "updateJoin_rc11 g' (lpos l) le = Ok (g'', ok)"
      "appendable g q" "extends_by g q g''" "lpos q = lpos l"
      by (rule join_appendable [OF assms(1-3) join(2,1) _ _ assms(6) a(2)]) (use assms(5) join in auto)
    have "exact_at g'' (lpos l)" by (rule at [OF append_exact [OF j(3,4)] j(4,5)])
    then show ?thesis using a(1) j(1,2) join(1) by auto
  qed
qed

theorem updateLabelViews_porf_exact_witness:
  "\<exists>l' g' l'' le g'' ok. updateLabelViews conf0 join_graph (ThreadJoinLabel (Event 0 1) 1) = Ok l'
     \<and> addOtherLabelToGraph join_graph l' = Ok (g', l'') \<and> getLastThreadEvent g' 1 = Ok le
     \<and> updateJoin_rc11 g' (Event 0 1) le = Ok (g'', ok) \<and> exact_at g'' (Event 0 1)"
proof -
  obtain l' where l': "updateLabelViews conf0 join_graph (ThreadJoinLabel (Event 0 1) 1) = Ok l'"
    using join_graph_views by blast
  have n: "is_next join_graph (lpos (ThreadJoinLabel (Event 0 1) 1))" "starts_ok join_graph"
    by (simp_all add: is_next_def join_graph_def starts_ok_def ThreadJoinLabel_def mkLabel_def)
  from updateLabelViews_porf_exact [OF join_graph_exact n(2,1) _ _ l'] l'
  show ?thesis by (fastforce simp: ThreadJoinLabel_def mkLabel_def)
qed

text \<open>The graphs that RC11 builds satisfy what the checks of data-structure models rely on: the start of a
  call gets an unused invocation number and no COM and SO calls, so adding a label keeps \<open>calls_ok\<close>.\<close>

theorem updateLabelViews_calls_ok:
  assumes "calls_ok g" and "is_next g (lpos l)" and "0 < eindex (lpos l)" and "updateLabelViews c g l = Ok l'"
  shows "\<exists>g' l''. addOtherLabelToGraph g l' = Ok (g', l'') \<and> calls_ok g'
     \<and> (lkind l = EL_FunStart \<longrightarrow> lCOM l'' = [] \<and> lSO l'' = [] \<and> linvocation l'' = getFunInvocationCount g (lmethod l))"
proof -
  note c = coreD [OF updateLabelViews_core [OF assms(4)]]
  have n: "is_next g (lpos l')" "0 < eindex (lpos l')" using assms(2,3) c by simp_all
  obtain g' s where a: "addOtherLabelToGraph g l' = Ok (g', l'\<lparr>lstamp := s\<rparr>)"
    "events g' = (events g)[nat (ethread (lpos l')) := events g ! nat (ethread (lpos l')) @ [l'\<lparr>lstamp := s\<rparr>]]"
    using append_label [OF n(1)] by blast
  have r: "lkind l = EL_FunStart \<Longrightarrow> lCOM l' = [] \<and> lSO l' = [] \<and> linvocation l' = getFunInvocationCount g (lmethod l)"
    using updateLabelViews_FunStart [OF assms(4)] by simp
  have "calls_ok g'" by (rule append_calls_ok [OF assms(1) n _ a(2)]) (use r c in \<open>simp add: is_start_def\<close>)
  with a(1) r show ?thesis by auto
qed

theorem updateLabelViews_calls_ok_witness:
  "\<exists>l' g' l''. updateLabelViews conf0 graph_init ((FunStartLabel (Event 0 1))\<lparr>lmethod := FN_Enq\<rparr>) = Ok l'
     \<and> addOtherLabelToGraph graph_init l' = Ok (g', l'') \<and> calls_ok g'"
proof -
  obtain l' where l': "updateLabelViews conf0 graph_init ((FunStartLabel (Event 0 1))\<lparr>lmethod := FN_Enq\<rparr>) = Ok l'"
    using init_start_views by blast
  show ?thesis
    using updateLabelViews_calls_ok [OF graph_init_calls _ _ l'] l' graph_init_next by auto
qed

text \<open>A read that is not acquire and ends a new COM edge asks for the happens-before view of its own
  position before it is in the graph: the access is out of range.\<close>

theorem relaxed_com_out_of_bounds:
  assumes "\<not> isAtLeastAcquire l" and "B \<notin> set (snd cs)" and "fixStatus g \<noteq> FS_Done" and "is_next g (lpos l)"
  shows "add_com_so c g l w B cs = Undef"
  using assms by (auto simp: add_com_so_def isHbBefore_def getEventLabel_def vec_get_int_def vec_get_def is_next_def Let_def)

theorem relaxed_com_out_of_bounds_witness:
  "add_com_so conf0 graph_init (ReadLabel EL_Read Monotonic (Event 0 1) 0 \<lparr>asize = 8, atype = Unsigned\<rparr> (Event 0 0))
     (FunEndLabel (Event 0 0)) (FunctionEvent FN_Enq 0) ([], []) = Undef"
  by (rule relaxed_com_out_of_bounds)
    (simp_all add: isAtLeastAcquire_def ReadLabel_def mkLabel_def graph_init_next graph_init_def is_next_def)

text \<open>A fence inside a call forgets the COM and SO calls found so far: its label keeps the empty lists it
  was constructed with, and its successors start from them.\<close>

theorem fence_drops_com:
  assumes "updateLabelViews c g l = Ok l'" and "lkind l = EL_Fence" and "lCOM l = []" and "lSO l = []"
  shows "lCOM l' = [] \<and> lSO l' = []"
  using assms by (auto simp: updateLabelViews_def AddFunInfoToLbl_def calcFenceViews_def Let_def res_simps isa_defs)

theorem fence_drops_com_witness:
  "\<exists>l'. updateLabelViews conf0 com_graph ex_fence = Ok l' \<and> lCOM l' = [] \<and> lSO l' = []"
proof -
  have "\<exists>l'. updateLabelViews conf0 com_graph ex_fence = Ok l'"
    by (simp add: updateLabelViews_def AddFunInfoToLbl_def calcFenceViews_def calcBasicHbView_def calcBasicPorfView_def
        previous_def getPreviousLabel_def getEventLabel_def deref_def view_inc_def isAtLeastAcquire_def previousEventMethod_def
        previousEventInvocation_def view_get_def view_set_def com_graph_def prev_def Let_def conf0_def mkLabel_def isa_defs)
  then obtain l' where "updateLabelViews conf0 com_graph ex_fence = Ok l'" by blast
  with fence_drops_com [OF this] show ?thesis by (simp add: mkLabel_def)
qed

end
