(* ===== verification/GenMC_AdjList.thy ===== *)
theory GenMC_AdjList
  imports GenMC_Prelude "HOL-Library.Word"
begin

text \<open>
  Relations as adjacency lists (\<open>src/src/AdjList.hpp\<close>, \<open>src/src/AdjList.tcc\<close>): the elements, their numbers,
  the successor lists, the in-degrees and one bit vector per element with the transitive closure. A bit
  vector is a list of booleans; an access beyond its size is undefined behaviour, and \<open>|=\<close> lengthens the
  left operand to the size of the right one, as LLVM documents for \<open>BitVector\<close>.
\<close>

section \<open>State\<close>

record 'a AdjList =
  elems :: "'a list"
  nodeSucc :: "nat list list"
  inDegree :: "int list"
  ids :: "'a \<rightharpoonup> nat"
  calculatedTransC :: bool
  transC :: "bool list list"

definition adj_empty :: "'a AdjList" where
  "adj_empty = \<lparr>elems = [], nodeSucc = [], inDegree = [], ids = Map.empty, calculatedTransC = False, transC = []\<rparr>"

definition adj_of :: "'a list \<Rightarrow> 'a AdjList" where
  "adj_of es = \<lparr>elems = es, nodeSucc = replicate (length es) [], inDegree = replicate (length es) 0,
     ids = fold (\<lambda>i m. m(es ! i \<mapsto> i)) [0..<length es] Map.empty, calculatedTransC = False,
     transC = replicate (length es) (replicate (length es) False)\<rparr>"

definition getIndex :: "'a AdjList \<Rightarrow> 'a \<Rightarrow> nat res" where
  "getIndex r a = (case ids r a of None \<Rightarrow> Undef | Some i \<Rightarrow> Ok i)"

definition adj_edge :: "'a AdjList \<Rightarrow> nat \<Rightarrow> nat \<Rightarrow> bool res" where
  "adj_edge r a b = rbind (vec_get (transC r) a) (\<lambda>row. vec_get row b)"

definition adj_rel :: "'a AdjList \<Rightarrow> 'a \<Rightarrow> 'a \<Rightarrow> bool res" where
  "adj_rel r a b = rbind (getIndex r a) (\<lambda>i. rbind (getIndex r b) (adj_edge r i))"

definition addNode :: "'a AdjList \<Rightarrow> 'a \<Rightarrow> 'a AdjList" where
  "addNode r a = (let id = length (elems r) in
     r\<lparr>elems := elems r @ [a], nodeSucc := nodeSucc r @ [[]], inDegree := inDegree r @ [0],
       ids := (ids r)(a \<mapsto> id), calculatedTransC := False, transC := transC r @ [replicate id False]\<rparr>)"

definition addEdgeId :: "'a AdjList \<Rightarrow> nat \<Rightarrow> nat \<Rightarrow> 'a AdjList res" where
  "addEdgeId r a b =
     rbind (adj_edge r a b) (\<lambda>e.
       if e then Ok r
       else rbind (vec_get (nodeSucc r) a) (\<lambda>succ.
            rbind (vec_get (transC r) a) (\<lambda>row.
            rbind (vec_set row b True) (\<lambda>row'.
            rbind (vec_get (inDegree r) b) (\<lambda>deg.
              Ok (r\<lparr>nodeSucc := (nodeSucc r)[a := succ @ [b]], transC := (transC r)[a := row'],
                    inDegree := (inDegree r)[b := deg + 1], calculatedTransC := False\<rparr>))))))"

definition addEdge :: "'a AdjList \<Rightarrow> 'a \<Rightarrow> 'a \<Rightarrow> 'a AdjList res" where
  "addEdge r a b = rbind (getIndex r a) (\<lambda>i. rbind (getIndex r b) (addEdgeId r i))"

definition addEdgesFromTo :: "'a AdjList \<Rightarrow> 'a list \<Rightarrow> 'a list \<Rightarrow> 'a AdjList res" where
  "addEdgesFromTo r froms tos = rfold (\<lambda>f. rfold (\<lambda>t r. addEdge r f t) tos) froms r"

definition hasNoEdges :: "'a AdjList \<Rightarrow> 'a \<Rightarrow> bool res" where
  "hasNoEdges r a = rbind (getIndex r a) (\<lambda>i. rbind (vec_get (inDegree r) i) (\<lambda>d.
     if d \<noteq> 0 then Ok False else rbind (vec_get (nodeSucc r) i) (\<lambda>s. Ok (length s = 0))))"

section \<open>Depth-first search\<close>

datatype NodeStatus = Unseen | Entered | Finished

text \<open>The clock, the status, parent, first and last visit of each node.\<close>

record Dfs =
  dt :: "32 word"
  dm :: "NodeStatus list"
  dp :: "32 word list"
  dd :: "32 word list"
  df :: "32 word list"

text \<open>What a client does at the events of the search, on a state of its own.\<close>

record 's DfsClient =
  atEntryV :: "nat \<Rightarrow> Dfs \<Rightarrow> 's \<Rightarrow> 's res"
  atTreeE :: "nat \<Rightarrow> nat \<Rightarrow> Dfs \<Rightarrow> 's \<Rightarrow> 's res"
  atBackE :: "nat \<Rightarrow> nat \<Rightarrow> Dfs \<Rightarrow> 's \<Rightarrow> 's res"
  atForwE :: "nat \<Rightarrow> nat \<Rightarrow> Dfs \<Rightarrow> 's \<Rightarrow> 's res"
  atExitV :: "nat \<Rightarrow> Dfs \<Rightarrow> 's \<Rightarrow> 's res"
  atEnd :: "Dfs \<Rightarrow> 's \<Rightarrow> 's res"

definition dfs_enter :: "nat \<Rightarrow> Dfs \<Rightarrow> Dfs" where
  "dfs_enter i D = D\<lparr>dm := (dm D)[i := Entered], dt := dt D + 1, dd := (dd D)[i := dt D + 1]\<rparr>"

definition dfs_leave :: "nat \<Rightarrow> Dfs \<Rightarrow> Dfs" where
  "dfs_leave i D = D\<lparr>dm := (dm D)[i := Finished], dt := dt D + 1, df := (df D)[i := dt D + 1]\<rparr>"

definition unseen :: "Dfs \<Rightarrow> nat" where
  "unseen D = length (filter (\<lambda>x. x = Unseen) (dm D))"

function (sequential) dfsUtil :: "nat list list \<Rightarrow> 's DfsClient \<Rightarrow> nat \<Rightarrow> Dfs \<Rightarrow> 's \<Rightarrow> (Dfs \<times> 's) res"
  and dfs_loop :: "nat list list \<Rightarrow> 's DfsClient \<Rightarrow> nat \<Rightarrow> nat list \<Rightarrow> Dfs \<Rightarrow> 's \<Rightarrow> (Dfs \<times> 's) res" where
  "dfsUtil G cb i D s =
     (if i < length (dm D) \<and> i < length G
      then rbind (atEntryV cb i (dfs_enter i D) s) (\<lambda>s1.
           rbind (dfs_loop G cb i (G ! i) (dfs_enter i D) s1) (\<lambda>(D2, s2).
           rbind (atExitV cb i (dfs_leave i D2) s2) (\<lambda>s3. Ok (dfs_leave i D2, s3))))
      else Undef)"
| "dfs_loop G cb i [] D s = Ok (D, s)"
| "dfs_loop G cb i (j # js) D s =
     (if \<not> j < length (dm D) then Undef
      else if dm D ! j = Unseen
      then rbind (dfsUtil G cb j (D\<lparr>dp := (dp D)[j := of_nat i]\<rparr>) s) (\<lambda>(D1, s1).
           rbind (atTreeE cb i j D1 s1) (\<lambda>s2. dfs_loop G cb i js D1 s2))
      else if dm D ! j = Entered
      then rbind (atBackE cb i j D s) (\<lambda>s1. dfs_loop G cb i js D s1)
      else rbind (atForwE cb i j D s) (\<lambda>s1. dfs_loop G cb i js D s1))"
  by pat_completeness auto

lemma filter_update_length:
  "i < length xs \<Longrightarrow> length (filter P (xs[i := y]))
     = length (filter P xs) - (if P (xs ! i) then 1 else 0) + (if P y then 1 else 0)"
proof (induction xs arbitrary: i)
  case (Cons x xs)
  then show ?case
  proof (cases i)
    case (Suc k)
    then have "P (xs ! k) \<Longrightarrow> length (filter P xs) \<noteq> 0" using Cons.prems by (auto simp: filter_empty_conv)
    with Cons Suc show ?thesis by auto
  qed simp
qed simp

lemma unseen_enter:
  assumes "i < length (dm D)"
  shows "unseen (dfs_enter i D) = unseen D - (if dm D ! i = Unseen then 1 else 0)"
  using filter_update_length [OF assms, of "\<lambda>x. x = Unseen"] by (simp add: unseen_def dfs_enter_def)

lemma unseen_pos: "i < length (dm D) \<Longrightarrow> dm D ! i = Unseen \<Longrightarrow> 0 < unseen D"
  unfolding unseen_def by (metis (mono_tags, lifting) filter_empty_conv length_greater_0_conv nth_mem)

lemma unseen_leave: "unseen (dfs_leave i D) \<le> unseen D"
proof (cases "i < length (dm D)")
  case True
  then show ?thesis using filter_update_length [OF True, of "\<lambda>x. x = Unseen"] by (simp add: unseen_def dfs_leave_def)
qed (simp add: unseen_def dfs_leave_def list_update_beyond)

lemma unseen_parent [simp]: "unseen (D\<lparr>dp := p\<rparr>) = unseen D"
  by (simp add: unseen_def)

lemma dfs_unseen_dom:
  "dfsUtil_dfs_loop_dom (Inl (G, cb, i, D, s)) \<Longrightarrow> dfsUtil G cb i D s = Ok (D', s') \<Longrightarrow> unseen D' \<le> unseen D"
  "dfsUtil_dfs_loop_dom (Inr (G, cb, i, js, D, s)) \<Longrightarrow> dfs_loop G cb i js D s = Ok (D', s') \<Longrightarrow> unseen D' \<le> unseen D"
proof (induction G cb i D s and G cb i js D s arbitrary: D' s' and D' s' rule: dfsUtil_dfs_loop.pinduct)
  case (1 G cb i D s)
  from "1.prems" "1.hyps" obtain s1 D2 s2 where *: "i < length (dm D)" "atEntryV cb i (dfs_enter i D) s = Ok s1"
    "dfs_loop G cb i (G ! i) (dfs_enter i D) s1 = Ok (D2, s2)" "D' = dfs_leave i D2"
    by (auto simp: dfsUtil.psimps res_simps split: if_splits)
  have "i < length G" using "1.prems" "1.hyps" by (auto simp: dfsUtil.psimps split: if_splits)
  then have "unseen D2 \<le> unseen (dfs_enter i D)" using "1.IH" * by blast
  then show ?case using unseen_leave [of i D2] unseen_enter [OF *(1)] *(4) by simp
next
  case (2 G cb i D s)
  then show ?case by (simp add: dfs_loop.psimps)
next
  case (3 G cb i j js D s)
  have j: "j < length (dm D)" using "3.prems" "3.hyps" by (auto simp: dfs_loop.psimps split: if_splits)
  show ?case
  proof (cases "dm D ! j = Unseen")
    case True
    with "3.prems" "3.hyps" j obtain D1 s1 s2 where *: "dfsUtil G cb j (D\<lparr>dp := (dp D)[j := of_nat i]\<rparr>) s = Ok (D1, s1)"
      "atTreeE cb i j D1 s1 = Ok s2" "dfs_loop G cb i js D1 s2 = Ok (D', s')"
      by (auto simp: dfs_loop.psimps res_simps)
    have "unseen D1 \<le> unseen D" using "3.IH"(1) [OF _ True *(1)] j by simp
    moreover have "unseen D' \<le> unseen D1" using "3.IH"(2) [OF _ True *(1) refl *(2,3)] j by simp
    ultimately show ?thesis by simp
  next
    case False
    then show ?thesis using "3.prems" "3.hyps" "3.IH"(3,4) j
      by (cases "dm D ! j") (auto simp: dfs_loop.psimps res_simps)
  qed
qed

termination dfsUtil
proof (relation "inv_image (less_than <*lex*> less_than) (\<lambda>x. case x of
      Inl (G, cb, i, D, s) \<Rightarrow> (unseen (dfs_enter i D), Suc (length (G ! i)))
    | Inr (G, cb, i, js, D, s) \<Rightarrow> (unseen D, length js))", goal_cases)
  case (3 G cb i j js D s)
  then show ?case using unseen_enter [of j "D\<lparr>dp := (dp D)[j := of_nat i]\<rparr>"] unseen_pos [of j D] by simp
next
  case (4 G cb i j js D s x D1 s1 s2)
  then have "unseen D1 \<le> unseen D" using dfs_unseen_dom(1) by fastforce
  then show ?case by auto
qed auto


definition dfs_init :: "nat \<Rightarrow> Dfs" where
  "dfs_init n = \<lparr>dt = 0, dm = replicate n Unseen, dp = replicate n (- 42), dd = replicate n 0, df = replicate n 0\<rparr>"

definition dfs_root :: "nat list list \<Rightarrow> 's DfsClient \<Rightarrow> nat \<Rightarrow> Dfs \<times> 's \<Rightarrow> (Dfs \<times> 's) res" where
  "dfs_root G cb i = (\<lambda>(D, s). rbind (vec_get (dm D) i) (\<lambda>m.
     if m = Unseen then dfsUtil G cb i D s else Ok (D, s)))"

definition dfs :: "nat list list \<Rightarrow> 's DfsClient \<Rightarrow> 's \<Rightarrow> 's res" where
  "dfs G cb s = rbind (rfold (dfs_root G cb) [0..<length G] (dfs_init (length G), s)) (\<lambda>(D, s'). atEnd cb D s')"

definition visitReachable :: "'a AdjList \<Rightarrow> 's DfsClient \<Rightarrow> 'a \<Rightarrow> 's \<Rightarrow> 's res" where
  "visitReachable r cb a s = rbind (getIndex r a) (\<lambda>i.
     rbind (dfsUtil (nodeSucc r) cb i (dfs_init (length (nodeSucc r))) s) (\<lambda>(D, s'). atEnd cb D s'))"

section \<open>Topological sorting\<close>

definition topo_client :: "'a list \<Rightarrow> 'a list DfsClient" where
  "topo_client es = \<lparr>atEntryV = \<lambda>i D s. Ok s, atTreeE = \<lambda>i j D s. Ok s, atBackE = \<lambda>i j D s. Bug,
     atForwE = \<lambda>i j D s. Ok s, atExitV = \<lambda>i D s. rbind (vec_get es i) (\<lambda>e. Ok (s @ [e])), atEnd = \<lambda>D s. Ok s\<rparr>"

definition topoSort :: "'a AdjList \<Rightarrow> 'a list res" where
  "topoSort r = rbind (dfs (nodeSucc r) (topo_client (elems r)) []) (\<lambda>sort. Ok (rev sort))"

text \<open>All sortings: the callback may keep a state of its own; \<open>visited\<close> is passed by value.\<close>

definition add_deg :: "int \<Rightarrow> nat list \<Rightarrow> int list \<Rightarrow> int list res" where
  "add_deg k = rfold (\<lambda>j deg. rbind (vec_get deg j) (\<lambda>d. vec_set deg j (d + k)))"

record ('a, 's) Topo =
  tcurrent :: "'a list"
  tinDegree :: "int list"
  tfound :: bool
  tstate :: 's

abbreviation unvisited :: "bool list \<Rightarrow> nat" where
  "unvisited v \<equiv> length (filter Not v)"

function (sequential) allTopoSortUtil :: "'a AdjList \<Rightarrow> ('a list \<Rightarrow> 's \<Rightarrow> (bool \<times> 's) res) \<Rightarrow> bool list \<Rightarrow>
    ('a, 's) Topo \<Rightarrow> ('a, 's) Topo res"
  and allTopoSort_loop :: "'a AdjList \<Rightarrow> ('a list \<Rightarrow> 's \<Rightarrow> (bool \<times> 's) res) \<Rightarrow> bool list \<Rightarrow> bool \<Rightarrow> nat \<Rightarrow>
    ('a, 's) Topo \<Rightarrow> ('a, 's) Topo res" where
  "allTopoSortUtil r prop visited T =
     (if tfound T then Ok T else allTopoSort_loop r prop visited False 0 T)"
| "allTopoSort_loop r prop visited scheduled i T =
     (if i < length (elems r) then
        rbind (vec_get (tinDegree T) i) (\<lambda>d.
        rbind (vec_get visited i) (\<lambda>v.
          if d = 0 \<and> \<not> v then
            rbind (vec_get (nodeSucc r) i) (\<lambda>succ.
            rbind (add_deg (- 1) succ (tinDegree T)) (\<lambda>deg.
            rbind (allTopoSortUtil r prop (visited[i := True])
                     (T\<lparr>tinDegree := deg, tcurrent := tcurrent T @ [elems r ! i]\<rparr>)) (\<lambda>T1.
              if tfound T1 then Ok T1
              else rbind (add_deg 1 succ (tinDegree T1)) (\<lambda>deg'.
                     allTopoSort_loop r prop (visited[i := True, i := False]) True (Suc i)
                       (T1\<lparr>tcurrent := butlast (tcurrent T1), tinDegree := deg'\<rparr>)))))
          else allTopoSort_loop r prop visited scheduled (Suc i) T))
      else if scheduled then Ok T
      else rbind (prop (tcurrent T) (tstate T)) (\<lambda>(b, s). Ok (T\<lparr>tfound := b, tstate := s\<rparr>)))"
  by pat_completeness auto

lemma unvisited_visit:
  "i < length v \<Longrightarrow> \<not> v ! i \<Longrightarrow> Suc (unvisited (v[i := True])) = unvisited v"
  using filter_update_length [of i v Not True] nth_mem [of i v] length_pos_if_in_set [of False "filter Not v"]
  by fastforce

termination allTopoSortUtil
proof (relation "inv_image (less_than <*lex*> less_than) (\<lambda>x. case x of
      Inl (r, prop, v, T) \<Rightarrow> (unvisited v, Suc (length (elems r)))
    | Inr (r, prop, v, b, i, T) \<Rightarrow> (unvisited v, length (elems r) - i))", goal_cases)
  case (3 r P v b i T d vi succ deg)
  then show ?case using unvisited_visit [of i v] by (auto simp: res_simps)
next
  case (4 r P v b i T d vi succ deg T1 deg')
  then have "v[i := False] = v" by (auto simp: res_simps list_update_same_conv)
  with 4 show ?case by (auto simp: res_simps)
qed auto

definition allTopoSort :: "'a AdjList \<Rightarrow> ('a list \<Rightarrow> 's \<Rightarrow> (bool \<times> 's) res) \<Rightarrow> 's \<Rightarrow> (bool \<times> 's) res" where
  "allTopoSort r prop s =
     rbind (allTopoSortUtil r prop (replicate (length (elems r)) False)
              \<lparr>tcurrent = [], tinDegree = inDegree r, tfound = False, tstate = s\<rparr>) (\<lambda>T. Ok (tfound T, tstate T))"

text \<open>One sorting of every relation: the state of the inner callback is the sortings chosen so far,
  the flag and the state of the client.\<close>

function combineAllTopoSortUtil :: "'a AdjList list \<Rightarrow> ('a list list \<Rightarrow> 's \<Rightarrow> (bool \<times> 's) res) \<Rightarrow> nat \<Rightarrow>
    'a list list \<times> bool \<times> 's \<Rightarrow> (bool \<times> 'a list list \<times> bool \<times> 's) res" where
  "combineAllTopoSortUtil toCombine prop index S =
     (if fst (snd S) then Ok (True, S)
      else if index > length toCombine then Bug
      else if index = length toCombine
        then rbind (prop (fst S) (snd (snd S))) (\<lambda>(b, u). Ok (b, fst S, b, u))
      else allTopoSort (toCombine ! index) (\<lambda>sorting S1.
             rbind (combineAllTopoSortUtil toCombine prop (Suc index) (fst S1 @ [sorting], snd S1)) (\<lambda>(b, S2).
               if b then Ok (True, S2) else Ok (False, butlast (fst S2), snd S2))) S)"
  by pat_completeness auto
termination by (relation "measure (\<lambda>(rs, prop, index, S). length rs - index)") auto

definition combineAllTopoSort :: "'a AdjList list \<Rightarrow> ('a list list \<Rightarrow> 's \<Rightarrow> (bool \<times> 's) res) \<Rightarrow> 's \<Rightarrow> (bool \<times> 's) res" where
  "combineAllTopoSort toCombine prop u =
     rbind (combineAllTopoSortUtil toCombine prop 0 ([], False, u)) (\<lambda>(b, S). Ok (b, snd (snd S)))"

section \<open>Transitive closure\<close>

fun bv_or :: "bool list \<Rightarrow> bool list \<Rightarrow> bool list" where
  "bv_or (x # xs) (y # ys) = (x \<or> y) # bv_or xs ys"
| "bv_or xs [] = xs"
| "bv_or [] ys = ys"

definition close_edge :: "nat \<Rightarrow> nat \<Rightarrow> bool list list \<Rightarrow> bool list list res" where
  "close_edge i j C = rbind (vec_get C i) (\<lambda>ri. rbind (vec_get C j) (\<lambda>rj.
     rbind (vec_set (bv_or ri rj) j True) (\<lambda>row. vec_set C i row)))"

definition close_client :: "nat list list \<Rightarrow> bool list list DfsClient" where
  "close_client G = \<lparr>atEntryV = \<lambda>i D s. Ok s, atTreeE = \<lambda>i j D s. Ok s, atBackE = \<lambda>i j D s. Ok s,
     atForwE = \<lambda>i j D s. Ok s,
     atExitV = \<lambda>i D s. rbind (vec_get G i) (\<lambda>succ. rfold (close_edge i) succ s), atEnd = \<lambda>D s. Ok s\<rparr>"

definition transClosure :: "'a AdjList \<Rightarrow> 'a AdjList res" where
  "transClosure r = (if calculatedTransC r then Ok r
     else rbind (dfs (nodeSucc r) (close_client (nodeSucc r)) (transC r)) (\<lambda>C.
            Ok (r\<lparr>transC := C, calculatedTransC := True\<rparr>)))"

fun irreflexive_from :: "bool list list \<Rightarrow> nat list \<Rightarrow> bool res" where
  "irreflexive_from C [] = Ok True"
| "irreflexive_from C (i # is) = rbind (vec_get C i) (\<lambda>row. rbind (vec_get row i) (\<lambda>b.
     if b then Ok False else irreflexive_from C is))"

definition isIrreflexive :: "'a AdjList \<Rightarrow> bool res" where
  "isIrreflexive r = irreflexive_from (transC r) [0..<length (elems r)]"

end
