(* ===== verification/GenMC_AdjListProps.thy ===== *)
theory GenMC_AdjListProps
  imports GenMC_AdjList "HOL-Library.Multiset"
begin

text \<open>
  What the relations of \<open>src/src/AdjList.hpp\<close> promise: the invariant of the structure, the contract between
  the depth-first search and its clients as a locale, and, from its two interpretations on the callbacks
  of \<open>transClosure()\<close> and \<open>topoSort()\<close>, that the closure is the transitive closure of the edges and that a
  sorting orders them.
\<close>

section \<open>What the search does to the status of the nodes\<close>

definition edges_of :: "nat list list \<Rightarrow> (nat \<times> nat) set" where
  "edges_of G = {(i, j). i < length G \<and> j \<in> set (G ! i)}"

definition adv :: "Dfs \<Rightarrow> Dfs \<Rightarrow> bool" where
  "adv D D' \<longleftrightarrow> length (dm D') = length (dm D) \<and>
     (\<forall>k < length (dm D). dm D' ! k = dm D ! k \<or> dm D ! k = Unseen \<and> dm D' ! k = Finished)"

lemma adv_refl [simp]: "adv D D"
  by (simp add: adv_def)

lemma adv_length: "adv D D' \<Longrightarrow> length (dm D') = length (dm D)"
  by (simp add: adv_def)

lemma adv_trans: "adv D D' \<Longrightarrow> adv D' D'' \<Longrightarrow> adv D D''"
  unfolding adv_def by force

lemma adv_parent [simp]: "adv (D\<lparr>dp := p\<rparr>) D' \<longleftrightarrow> adv D D'"
  by (simp add: adv_def)

lemma dm_enter [simp]: "dm (dfs_enter i D) = (dm D)[i := Entered]"
  by (simp add: dfs_enter_def)

lemma dm_leave [simp]: "dm (dfs_leave i D) = (dm D)[i := Finished]"
  by (simp add: dfs_leave_def)

lemma adv_node:
  "i < length (dm D) \<Longrightarrow> dm D ! i = Unseen \<Longrightarrow> adv (dfs_enter i D) D2 \<Longrightarrow> adv D (dfs_leave i D2)"
  unfolding adv_def by (auto simp: nth_list_update)

section \<open>The contract between the search and its clients\<close>

locale dfs_contract =
  fixes G :: "nat list list" and cb :: "'s DfsClient"
    and node :: "nat \<Rightarrow> Dfs \<Rightarrow> 's \<Rightarrow> Dfs \<Rightarrow> 's \<Rightarrow> bool"
    and succs :: "nat \<Rightarrow> nat list \<Rightarrow> Dfs \<Rightarrow> 's \<Rightarrow> Dfs \<Rightarrow> 's \<Rightarrow> bool"
  assumes at_node: "\<And>i D s s1 D2 s2 s3. i < length (dm D) \<Longrightarrow> i < length G \<Longrightarrow> dm D ! i = Unseen \<Longrightarrow>
      atEntryV cb i (dfs_enter i D) s = Ok s1 \<Longrightarrow> adv (dfs_enter i D) D2 \<Longrightarrow>
      succs i (G ! i) (dfs_enter i D) s1 D2 s2 \<Longrightarrow> (\<And>j. j \<in> set (G ! i) \<Longrightarrow> j < length (dm D) \<and> dm D2 ! j \<noteq> Unseen) \<Longrightarrow>
      atExitV cb i (dfs_leave i D2) s2 = Ok s3 \<Longrightarrow> node i D s (dfs_leave i D2) s3"
    and at_nil: "\<And>i D s. succs i [] D s D s"
    and at_tree: "\<And>i j js D s D1 s1 s2 D' s'. j < length (dm D) \<Longrightarrow> dm D ! j = Unseen \<Longrightarrow> adv D D1 \<Longrightarrow>
      dm D1 ! j = Finished \<Longrightarrow> node j (D\<lparr>dp := (dp D)[j := of_nat i]\<rparr>) s D1 s1 \<Longrightarrow>
      atTreeE cb i j D1 s1 = Ok s2 \<Longrightarrow> adv D1 D' \<Longrightarrow> succs i js D1 s2 D' s' \<Longrightarrow> succs i (j # js) D s D' s'"
    and at_back: "\<And>i j js D s s1 D' s'. j < length (dm D) \<Longrightarrow> dm D ! j = Entered \<Longrightarrow>
      atBackE cb i j D s = Ok s1 \<Longrightarrow> adv D D' \<Longrightarrow> succs i js D s1 D' s' \<Longrightarrow> succs i (j # js) D s D' s'"
    and at_forw: "\<And>i j js D s s1 D' s'. j < length (dm D) \<Longrightarrow> dm D ! j = Finished \<Longrightarrow>
      atForwE cb i j D s = Ok s1 \<Longrightarrow> adv D D' \<Longrightarrow> succs i js D s1 D' s' \<Longrightarrow> succs i (j # js) D s D' s'"
begin

lemma dfs_both:
  "dfsUtil G' cb' i D s = Ok (D', s') \<Longrightarrow> G' = G \<Longrightarrow> cb' = cb \<Longrightarrow> dm D ! i = Unseen \<Longrightarrow>
     i < length (dm D) \<and> adv D D' \<and> dm D' ! i = Finished \<and> node i D s D' s'"
  "dfs_loop G' cb' i js D s = Ok (D', s') \<Longrightarrow> G' = G \<Longrightarrow> cb' = cb \<Longrightarrow>
     adv D D' \<and> (\<forall>j \<in> set js. j < length (dm D) \<and> dm D' ! j \<noteq> Unseen) \<and> succs i js D s D' s'"
proof (induction G' cb' i D s and G' cb' i js D s arbitrary: D' s' and D' s' rule: dfsUtil_dfs_loop.induct)
  case (1 G' cb' i D s)
  note [simp] = "1.prems"(2,3)
  from "1.prems" obtain s1 D2 s2 where *: "i < length (dm D)" "i < length G" "atEntryV cb i (dfs_enter i D) s = Ok s1"
    "dfs_loop G cb i (G ! i) (dfs_enter i D) s1 = Ok (D2, s2)" "D' = dfs_leave i D2"
    "atExitV cb i (dfs_leave i D2) s2 = Ok s'"
    by (auto simp: res_simps split: if_splits)
  then have loop: "adv (dfs_enter i D) D2" "\<forall>j \<in> set (G ! i). j < length (dm D) \<and> dm D2 ! j \<noteq> Unseen"
      "succs i (G ! i) (dfs_enter i D) s1 D2 s2"
    using "1.IH" [of s1 D2 s2] by auto
  then show ?case using * at_node [of i D s s1 D2 s2 s'] adv_node [of i D D2] "1.prems"(4)
    by (auto simp: adv_length)
next
  case (2 G' cb' i D s)
  then show ?case by (simp add: at_nil)
next
  case (3 G' cb' i j js D s)
  note [simp] = "3.prems"(2,3)
  have j: "j < length (dm D)" using "3.prems" by (auto split: if_splits)
  show ?case
  proof (cases "dm D ! j")
    case Unseen
    with "3.prems" j obtain D1 s1 s2 where *: "dfsUtil G cb j (D\<lparr>dp := (dp D)[j := of_nat i]\<rparr>) s = Ok (D1, s1)"
      "atTreeE cb i j D1 s1 = Ok s2" "dfs_loop G cb i js D1 s2 = Ok (D', s')"
      by (auto simp: res_simps)
    have 1: "adv D D1" "dm D1 ! j = Finished" "node j (D\<lparr>dp := (dp D)[j := of_nat i]\<rparr>) s D1 s1"
      using "3.IH"(1) [of D1 s1] * j Unseen by auto
    have 2: "adv D1 D'" "\<forall>j \<in> set js. j < length (dm D1) \<and> dm D' ! j \<noteq> Unseen" "succs i js D1 s2 D' s'"
      using "3.IH"(2) [of _ D1 s1 s2 D' s'] * j Unseen by auto
    have "dm D' ! j \<noteq> Unseen" using 1 2 j unfolding adv_def by force
    with 1 2 j Unseen * show ?thesis using at_tree by (auto simp: adv_length dest: adv_trans)
  next
    case Entered
    with "3.prems" j obtain s1 where *: "atBackE cb i j D s = Ok s1" "dfs_loop G cb i js D s1 = Ok (D', s')"
      by (auto simp: res_simps)
    have 2: "adv D D'" "\<forall>j \<in> set js. j < length (dm D) \<and> dm D' ! j \<noteq> Unseen" "succs i js D s1 D' s'"
      using "3.IH"(3) [of s1 D' s'] * j Entered by auto
    then have "dm D' ! j \<noteq> Unseen" using j Entered unfolding adv_def by force
    then show ?thesis using 2 j Entered * at_back by auto
  next
    case Finished
    with "3.prems" j obtain s1 where *: "atForwE cb i j D s = Ok s1" "dfs_loop G cb i js D s1 = Ok (D', s')"
      by (auto simp: res_simps)
    have 2: "adv D D'" "\<forall>j \<in> set js. j < length (dm D) \<and> dm D' ! j \<noteq> Unseen" "succs i js D s1 D' s'"
      using "3.IH"(4) [of s1 D' s'] * j Finished by auto
    then have "dm D' ! j \<noteq> Unseen" using j Finished unfolding adv_def by force
    then show ?thesis using 2 j Finished * at_forw by auto
  qed
qed

lemmas dfsUtil_node = dfs_both(1) [OF _ refl refl]

text \<open>The whole search: an invariant of the nodes that were left holds at the end, when all were.\<close>

lemma dfs_all:
  assumes run: "dfs G cb s = Ok s'" and start: "J (dfs_init (length G)) s"
    and step: "\<And>i D s D' s'. J D s \<Longrightarrow> length (dm D) = length G \<Longrightarrow> (\<forall>k < length G. dm D ! k \<noteq> Entered) \<Longrightarrow> i < length G \<Longrightarrow>
        dm D ! i = Unseen \<Longrightarrow> adv D D' \<Longrightarrow> dm D' ! i = Finished \<Longrightarrow> node i D s D' s' \<Longrightarrow> J D' s'"
  obtains D s'' where "J D s''" "length (dm D) = length G" "\<forall>k < length G. dm D ! k = Finished" "atEnd cb D s'' = Ok s'"
proof -
  let ?P = "\<lambda>i (D, s). J D s \<and> length (dm D) = length G \<and> (\<forall>k < length G. dm D ! k \<noteq> Entered) \<and> (\<forall>k < i. dm D ! k = Finished)"
  from run obtain D s'' where loop: "rfold (dfs_root G cb) [0..<length G] (dfs_init (length G), s) = Ok (D, s'')"
    and e: "atEnd cb D s'' = Ok s'" by (auto simp: dfs_def res_simps)
  have "?P (length [0..<length G]) (D, s'')"
  proof (rule rfold_Ok_inv [OF loop])
    show "?P 0 (dfs_init (length G), s)" using start by (simp add: dfs_init_def)
    fix i u v
    assume i: "i < length [0..<length G]" and P: "?P i u" and f: "dfs_root G cb ([0..<length G] ! i) u = Ok v"
    obtain D1 s1 D2 s2 where [simp]: "u = (D1, s1)" "v = (D2, s2)" by (cases u, cases v) auto
    show "?P (Suc i) v"
    proof (cases "dm D1 ! i = Unseen")
      case True
      have *: "dfsUtil G cb i D1 s1 = Ok (D2, s2)" using f i P True by (simp add: dfs_root_def)
      from dfsUtil_node [OF this True] have "adv D1 D2" "dm D2 ! i = Finished" "node i D1 s1 D2 s2" by auto
      with step [of D1 s1 i D2 s2] True P i show ?thesis by (auto simp: adv_def less_Suc_eq dest: less_trans)
    next
      case False
      then have "v = u" using f i P by (simp add: dfs_root_def)
      moreover have "dm D1 ! i = Finished" using False P i by (cases "dm D1 ! i") auto
      ultimately show ?thesis using P by (auto simp: less_Suc_eq)
    qed
  qed
  then show ?thesis using that [of D s''] e by auto
qed

end

section \<open>Clients that return\<close>

text \<open>A client that returns on every state of an invariant makes the search return.\<close>

definition returning :: "nat \<Rightarrow> 's DfsClient \<Rightarrow> ('s \<Rightarrow> bool) \<Rightarrow> bool" where
  "returning n cb I \<longleftrightarrow> (\<forall>i D s. i < n \<longrightarrow> I s \<longrightarrow> (\<exists>s'. atEntryV cb i D s = Ok s' \<and> I s') \<and> (\<exists>s'. atExitV cb i D s = Ok s' \<and> I s')
     \<and> (\<forall>j < n. (\<exists>s'. atTreeE cb i j D s = Ok s' \<and> I s') \<and> (\<exists>s'. atBackE cb i j D s = Ok s' \<and> I s')
          \<and> (\<exists>s'. atForwE cb i j D s = Ok s' \<and> I s')))"

definition in_range :: "nat list list \<Rightarrow> bool" where
  "in_range G \<longleftrightarrow> (\<forall>i < length G. \<forall>j \<in> set (G ! i). j < length G)"

lemma dfs_returns_both:
  "i < length G \<Longrightarrow> in_range G \<Longrightarrow> returning (length G) cb I \<Longrightarrow> I s \<Longrightarrow> length (dm D) = length G \<Longrightarrow>
     \<exists>D' s'. dfsUtil G cb i D s = Ok (D', s') \<and> I s' \<and> length (dm D') = length G"
  "i < length G \<Longrightarrow> \<forall>j \<in> set js. j < length G \<Longrightarrow> in_range G \<Longrightarrow> returning (length G) cb I \<Longrightarrow> I s \<Longrightarrow>
     length (dm D) = length G \<Longrightarrow> \<exists>D' s'. dfs_loop G cb i js D s = Ok (D', s') \<and> I s' \<and> length (dm D') = length G"
proof (induction G cb i D s and G cb i js D s rule: dfsUtil_dfs_loop.induct)
  case (1 G cb i D s)
  obtain s1 where 1: "atEntryV cb i (dfs_enter i D) s = Ok s1" "I s1"
    using "1.prems" unfolding returning_def by blast
  obtain D2 s2 where 2: "dfs_loop G cb i (G ! i) (dfs_enter i D) s1 = Ok (D2, s2)" "I s2" "length (dm D2) = length G"
    using "1.IH" [of s1] 1 "1.prems" unfolding in_range_def by auto
  obtain s3 where "atExitV cb i (dfs_leave i D2) s2 = Ok s3" "I s3"
    using "1.prems" 2 unfolding returning_def by blast
  then show ?case using 1 2 "1.prems" by auto
next
  case (2 G cb i D s)
  then show ?case by simp
next
  case (3 G cb i j js D s)
  have j: "j < length G" using "3.prems" by simp
  show ?case
  proof (cases "dm D ! j")
    case Unseen
    obtain D1 s1 where 1: "dfsUtil G cb j (D\<lparr>dp := (dp D)[j := of_nat i]\<rparr>) s = Ok (D1, s1)" "I s1" "length (dm D1) = length G"
      using "3.IH"(1) j Unseen "3.prems" by auto
    obtain s2 where 2: "atTreeE cb i j D1 s1 = Ok s2" "I s2"
      using "3.prems" 1 j unfolding returning_def by blast
    show ?thesis using "3.IH"(2) [of _ D1 s1 s2] 1 2 j Unseen "3.prems" by auto
  next
    case Entered
    obtain s1 where 1: "atBackE cb i j D s = Ok s1" "I s1" using "3.prems" j unfolding returning_def by blast
    then show ?thesis using "3.IH"(3) [of s1] j Entered "3.prems" by auto
  next
    case Finished
    obtain s1 where 1: "atForwE cb i j D s = Ok s1" "I s1" using "3.prems" j unfolding returning_def by blast
    then show ?thesis using "3.IH"(4) [of s1] j Finished "3.prems" by auto
  qed
qed

lemma dfs_returns:
  assumes "in_range G" and cb: "returning (length G) cb I" and "I s"
    and fin: "\<And>D s. I s \<Longrightarrow> \<exists>s'. atEnd cb D s = Ok s' \<and> I s'"
  shows "\<exists>s'. dfs G cb s = Ok s' \<and> I s'"
proof -
  let ?P = "\<lambda>i (D, s). I s \<and> length (dm D) = length G"
  have "\<exists>v. rfold (dfs_root G cb) [0..<length G] (dfs_init (length G), s) = Ok v \<and> ?P (length [0..<length G]) v"
  proof (rule rfold_inv)
    show "?P 0 (dfs_init (length G), s)" using assms by (simp add: dfs_init_def)
    fix i and u :: "Dfs \<times> 'a"
    assume i: "i < length [0..<length G]" and P: "?P i u"
    then show "\<exists>v. dfs_root G cb ([0..<length G] ! i) u = Ok v \<and> ?P (Suc i) v"
      using dfs_returns_both(1) [OF _ assms(1) cb, of i "snd u" "fst u"] by (cases u) (auto simp: dfs_root_def)
  qed
  then obtain D t where "rfold (dfs_root G cb) [0..<length G] (dfs_init (length G), s) = Ok (D, t)" "I t" by auto
  then show ?thesis using fin [of t D] by (simp add: dfs_def)
qed

section \<open>The closure\<close>

definition bits :: "bool list list \<Rightarrow> nat \<Rightarrow> nat set" where
  "bits C k = {j. j < length (C ! k) \<and> C ! k ! j}"

definition square :: "nat \<Rightarrow> bool list list \<Rightarrow> bool" where
  "square n C \<longleftrightarrow> length C = n \<and> (\<forall>k < n. length (C ! k) = n)"

lemma bv_or_nth:
  "length xs = length ys \<Longrightarrow> length (bv_or xs ys) = length xs \<and> (\<forall>k < length xs. bv_or xs ys ! k = (xs ! k \<or> ys ! k))"
proof (induction xs ys rule: bv_or.induct)
  case (1 x xs y ys)
  then show ?case by (auto simp: nth_Cons split: nat.splits)
qed auto

lemma close_edge_Ok:
  assumes "square n C" "i < n" "j < n"
  obtains C' where "close_edge i j C = Ok C'" "square n C'" "\<And>k. k \<noteq> i \<Longrightarrow> C' ! k = C ! k"
    "bits C' i = bits C i \<union> insert j (bits C j)"
proof -
  have l: "length (C ! i) = n" "length (C ! j) = n" "length C = n" using assms by (auto simp: square_def)
  let ?row = "(bv_or (C ! i) (C ! j))[j := True]"
  have r: "length ?row = n" "\<And>k. k < n \<Longrightarrow> ?row ! k = (k = j \<or> C ! i ! k \<or> C ! j ! k)"
    using bv_or_nth [of "C ! i" "C ! j"] l assms by (auto simp: nth_list_update)
  have "close_edge i j C = Ok (C[i := ?row])"
    using l r assms by (simp add: close_edge_def)
  moreover have "square n (C[i := ?row])" using assms r l by (auto simp: square_def nth_list_update)
  moreover have "bits (C[i := ?row]) i = bits C i \<union> insert j (bits C j)"
    using r l assms by (auto simp: bits_def)
  ultimately show ?thesis using that by auto
qed

lemma close_edges_Ok:
  assumes "square n C" "i < n" "\<forall>j \<in> set js. j < n"
  obtains C' where "rfold (close_edge i) js C = Ok C'" "square n C'" "\<And>k. k \<noteq> i \<Longrightarrow> C' ! k = C ! k"
    "bits C' i = bits C i \<union> (\<Union>j \<in> set js. insert j (bits C j))"
  using assms
proof (induction js arbitrary: C thesis)
  case Nil
  then show ?case by simp
next
  case (Cons j js)
  obtain C1 where 1: "close_edge i j C = Ok C1" "square n C1" "\<And>k. k \<noteq> i \<Longrightarrow> C1 ! k = C ! k"
    "bits C1 i = bits C i \<union> insert j (bits C j)"
    using close_edge_Ok [of n C i j] Cons.prems by auto
  obtain C2 where 2: "rfold (close_edge i) js C1 = Ok C2" "square n C2" "\<And>k. k \<noteq> i \<Longrightarrow> C2 ! k = C1 ! k"
    "bits C2 i = bits C1 i \<union> (\<Union>j \<in> set js. insert j (bits C1 j))"
    using Cons.IH [OF _ 1(2)] Cons.prems by auto
  have b: "bits C1 q = (if q = i then bits C i \<union> insert j (bits C j) else bits C q)" for q
    using 1(3,4) by (auto simp: bits_def)
  show ?case
  proof (rule Cons.prems(1))
    show "rfold (close_edge i) (j # js) C = Ok C2" using 1 2 by simp
    show "bits C2 i = bits C i \<union> (\<Union>j \<in> set (j # js). insert j (bits C j))"
      unfolding 2(4) b by (auto split: if_splits)
  qed (use 1 2 in auto)
qed

lemma bits_cong: "C' ! k = C ! k \<Longrightarrow> bits C' k = bits C k"
  by (simp add: bits_def)

text \<open>The rows stay below the closure; a node that was met keeps its row; a node that was left has, for
  each of its edges, closed its row over the target, or the target is still entered and is in a row of the
  caller. A cycle shows as a bit of the diagonal.\<close>

definition sound_rows :: "nat list list \<Rightarrow> bool list list \<Rightarrow> bool" where
  "sound_rows G C \<longleftrightarrow> (\<forall>k < length G. \<forall>j \<in> bits C k. (k, j) \<in> (edges_of G)\<^sup>+)"

definition detected :: "nat list list \<Rightarrow> bool list list \<Rightarrow> bool" where
  "detected G C \<longleftrightarrow> (\<exists>k < length G. k \<in> bits C k)"

definition rows_kept :: "nat list list \<Rightarrow> Dfs \<Rightarrow> bool list list \<Rightarrow> bool list list \<Rightarrow> bool" where
  "rows_kept G D C C' \<longleftrightarrow> (\<forall>k < length G. bits C k \<subseteq> bits C' k \<and> (dm D ! k \<noteq> Unseen \<longrightarrow> C' ! k = C ! k))"

definition edge_done :: "Dfs \<Rightarrow> Dfs \<Rightarrow> bool list list \<Rightarrow> nat set \<Rightarrow> nat \<Rightarrow> nat \<Rightarrow> bool" where
  "edge_done D D' C R x j \<longleftrightarrow> dm D' ! j = Finished \<and> insert j (bits C j) \<subseteq> bits C x \<or> dm D ! j = Entered \<and> j \<in> R"

definition closed_by :: "nat list list \<Rightarrow> Dfs \<Rightarrow> bool list list \<Rightarrow> Dfs \<Rightarrow> bool list list \<Rightarrow> nat set \<Rightarrow> bool" where
  "closed_by G D C D' C' R \<longleftrightarrow> square (length G) C' \<and> rows_kept G D C C' \<and> (sound_rows G C \<longrightarrow> sound_rows G C') \<and>
     (detected G C' \<or> (\<forall>x < length G. dm D ! x = Unseen \<longrightarrow> dm D' ! x = Finished \<longrightarrow>
        (\<forall>j \<in> set (G ! x). edge_done D D' C' R x j)))"

definition close_node :: "nat list list \<Rightarrow> nat \<Rightarrow> Dfs \<Rightarrow> bool list list \<Rightarrow> Dfs \<Rightarrow> bool list list \<Rightarrow> bool" where
  "close_node G i D C D' C' \<longleftrightarrow> (in_range G \<and> square (length G) C \<and> length (dm D) = length G \<longrightarrow>
     closed_by G D C D' C' (bits C' i))"

definition close_succs :: "nat list list \<Rightarrow> nat \<Rightarrow> nat list \<Rightarrow> Dfs \<Rightarrow> bool list list \<Rightarrow> Dfs \<Rightarrow> bool list list \<Rightarrow> bool" where
  "close_succs G i js D C D' C' \<longleftrightarrow> (in_range G \<and> square (length G) C \<and> length (dm D) = length G \<longrightarrow>
     closed_by G D C D' C' (\<Union>q \<in> {q \<in> set js. dm D' ! q = Finished}. bits C' q))"

lemma sound_close:
  assumes "in_range G" "sound_rows G C" "i < length G"
    and rest: "\<And>k. k \<noteq> i \<Longrightarrow> C' ! k = C ! k"
    and row: "bits C' i = bits C i \<union> (\<Union>j \<in> set (G ! i). insert j (bits C j))"
  shows "sound_rows G C'"
proof -
  have "(i, j) \<in> (edges_of G)\<^sup>+" if "j \<in> bits C' i" for j
  proof -
    from that consider "j \<in> bits C i" | q where "q \<in> set (G ! i)" "j = q \<or> j \<in> bits C q" unfolding row by auto
    then show ?thesis
    proof cases
      case 1
      then show ?thesis using assms unfolding sound_rows_def by blast
    next
      case 2
      have e: "(i, q) \<in> edges_of G" using 2 assms by (simp add: edges_of_def)
      have "q < length G" using 2 assms unfolding in_range_def by blast
      then have "j \<in> bits C q \<Longrightarrow> (q, j) \<in> (edges_of G)\<^sup>+" using assms(2) unfolding sound_rows_def by blast
      then show ?thesis using 2 e by (auto intro: trancl_into_trancl2)
    qed
  qed
  moreover have "bits C' k = bits C k" if "k \<noteq> i" for k using rest [OF that] by (simp add: bits_def)
  ultimately show ?thesis using assms(2) unfolding sound_rows_def by metis
qed

lemma detected_mono: "detected G C \<Longrightarrow> rows_kept G D C C' \<Longrightarrow> detected G C'"
  unfolding detected_def rows_kept_def by blast

lemma rows_kept_trans:
  "rows_kept G D C C1 \<Longrightarrow> rows_kept G D1 C1 C' \<Longrightarrow> adv D D1 \<Longrightarrow> length (dm D) = length G \<Longrightarrow> rows_kept G D C C'"
  unfolding rows_kept_def adv_def by (metis order_trans)

lemma bits_kept: "rows_kept G D C C' \<Longrightarrow> k < length G \<Longrightarrow> dm D ! k \<noteq> Unseen \<Longrightarrow> bits C' k = bits C k"
  unfolding rows_kept_def bits_def by metis

lemma closing_node:
  assumes G: "in_range G" "square (length G) C" "length (dm D) = length G" and i: "i < length G" "dm D ! i = Unseen"
    and loop: "closed_by G (dfs_enter i D) C D2 C2 (\<Union>q \<in> {q \<in> set (G ! i). dm D2 ! q = Finished}. bits C2 q)"
    and adv: "adv (dfs_enter i D) D2" and met: "\<And>j. j \<in> set (G ! i) \<Longrightarrow> dm D2 ! j \<noteq> Unseen"
    and exit: "rfold (close_edge i) (G ! i) C2 = Ok C'"
  shows "closed_by G D C (dfs_leave i D2) C' (bits C' i)"
proof -
  from loop have sq: "square (length G) C2" and kept: "rows_kept G (dfs_enter i D) C C2"
    and snd: "sound_rows G C \<longrightarrow> sound_rows G C2" by (auto simp: closed_by_def)
  have r: "j < length G" if "j \<in> set (G ! i)" for j using that G i unfolding in_range_def by blast
  obtain C'' where c: "rfold (close_edge i) (G ! i) C2 = Ok C''" "square (length G) C''" "\<And>k. k \<noteq> i \<Longrightarrow> C'' ! k = C2 ! k"
    "bits C'' i = bits C2 i \<union> (\<Union>j \<in> set (G ! i). insert j (bits C2 j))"
    using close_edges_Ok [OF sq i(1), of "G ! i"] r by blast
  have [simp]: "C'' = C'" using c(1) exit by simp
  note c = c [simplified]
  have grow: "bits C2 k \<subseteq> bits C' k" for k using c(4) bits_cong [OF c(3), of k] by blast
  have grow_i: "insert q (bits C2 q) \<subseteq> bits C' i" if "q \<in> set (G ! i)" for q using c(4) that by auto
  have k: "rows_kept G D C C'"
    unfolding rows_kept_def
  proof (intro allI impI conjI)
    fix k assume k: "k < length G"
    then have "bits C k \<subseteq> bits C2 k" using kept unfolding rows_kept_def by blast
    then show "bits C k \<subseteq> bits C' k" using grow by blast
    assume u: "dm D ! k \<noteq> Unseen"
    then have "k \<noteq> i" using i by auto
    then have "dm (dfs_enter i D) ! k \<noteq> Unseen" using u by simp
    then have "C2 ! k = C ! k" using kept k unfolding rows_kept_def by blast
    then show "C' ! k = C ! k" using c(3) \<open>k \<noteq> i\<close> by simp
  qed
  have s: "sound_rows G C \<longrightarrow> sound_rows G C'" using snd sound_close [OF G(1) _ i(1) c(3,4)] by blast
  have stat: "dm D2 ! j = (if j = i then Entered else dm D ! j) \<or> j \<noteq> i \<and> dm D ! j = Unseen \<and> dm D2 ! j = Finished" if "j < length G" for j
    using adv that G(3) i unfolding adv_def by (auto simp: nth_list_update)
  have "edge_done D (dfs_leave i D2) C' (bits C' i) x j"
    if nd: "\<not> detected G C'" and x: "x < length G" "dm D ! x = Unseen" "dm (dfs_leave i D2) ! x = Finished" "j \<in> set (G ! x)" for x j
  proof -
    have j: "j < length G" using x(1,4) G(1) unfolding in_range_def by blast
    have ni: "i \<notin> bits C' i" using nd i unfolding detected_def by blast
    have l: "length (dm D2) = length G" using adv G(3) by (simp add: adv_def)
    have b: "bits C' q = bits C2 q" if "q \<noteq> i" for q using that c(3) bits_cong by metis
    show ?thesis
    proof (cases "x = i")
      case True
      then have "j \<noteq> i" using ni grow_i x by auto
      moreover have "dm D2 ! j \<noteq> Unseen" using met x True by simp
      ultimately show ?thesis using stat [OF j] grow_i [of j] x True b [of j] unfolding edge_done_def
        by (cases "dm D2 ! j") (auto simp: nth_list_update)
    next
      case False
      have "\<not> detected G C2" using nd grow unfolding detected_def by blast
      then have e: "edge_done (dfs_enter i D) D2 C2 (\<Union>q \<in> {q \<in> set (G ! i). dm D2 ! q = Finished}. bits C2 q) x j"
        using loop x False unfolding closed_by_def by auto
      have "j \<noteq> i"
      proof
        assume "j = i"
        with e stat [OF i(1)] i(2) have "\<exists>q \<in> set (G ! i). i \<in> bits C2 q" unfolding edge_done_def by auto
        then show False using ni grow_i by blast
      qed
      then show ?thesis using e False b [of x] b [of j] grow_i unfolding edge_done_def
        by (auto simp: nth_list_update l G(3) j)
    qed
  qed
  then show ?thesis using c(2) k s unfolding closed_by_def by blast
qed

lemma closing_tree:
  assumes G: "in_range G" "length (dm D) = length G" and j: "j < length G" "dm D ! j = Unseen" "adv D D1" "dm D1 ! j = Finished"
    and child: "closed_by G D C D1 C1 (bits C1 j)" and adv: "adv D1 D'"
    and loop: "closed_by G D1 C1 D' C' (\<Union>q \<in> {q \<in> set js. dm D' ! q = Finished}. bits C' q)"
  shows "closed_by G D C D' C' (\<Union>q \<in> {q \<in> set (j # js). dm D' ! q = Finished}. bits C' q)" (is "closed_by _ _ _ _ _ ?R")
proof -
  from child loop have sq: "square (length G) C'" and k1: "rows_kept G D C C1" and k2: "rows_kept G D1 C1 C'"
    and snd: "sound_rows G C \<longrightarrow> sound_rows G C'" by (auto simp: closed_by_def)
  have jf: "dm D' ! j = Finished" using adv j G unfolding adv_def by metis
  have jb: "bits C' j = bits C1 j" using bits_kept [OF k2 j(1)] j by simp
  have "edge_done D D' C' ?R x y"
    if nd: "\<not> detected G C'" and x: "x < length G" "dm D ! x = Unseen" "dm D' ! x = Finished" "y \<in> set (G ! x)" for x y
  proof -
    have y: "y < length G" using x(1,4) G(1) unfolding in_range_def by blast
    have lD1: "length (dm D1) = length G" using j(3) G by (simp add: adv_def)
    show ?thesis
    proof (cases "dm D1 ! x = Unseen")
      case True
      then have "edge_done D1 D' C' (\<Union>q \<in> {q \<in> set js. dm D' ! q = Finished}. bits C' q) x y"
        using loop nd x unfolding closed_by_def by blast
      moreover have "dm D1 ! y = Entered \<Longrightarrow> dm D ! y = Entered" using j(3) y G unfolding adv_def by (metis NodeStatus.distinct(5))
      ultimately show ?thesis unfolding edge_done_def by auto
    next
      case False
      then have f: "dm D1 ! x = Finished" using j(3) x G unfolding adv_def by metis
      have "\<not> detected G C1" using nd detected_mono [OF _ k2] by blast
      then have "edge_done D D1 C1 (bits C1 j) x y" using child x f unfolding closed_by_def by blast
      moreover have "bits C' x = bits C1 x" using bits_kept [OF k2 x(1)] f by simp
      moreover have "dm D1 ! y = Finished \<Longrightarrow> dm D' ! y = Finished \<and> bits C' y = bits C1 y"
        using bits_kept [OF k2 y] adv y lD1 unfolding adv_def by (metis NodeStatus.distinct(3))
      ultimately show ?thesis using jf jb unfolding edge_done_def by auto
    qed
  qed
  then show ?thesis using sq rows_kept_trans [OF k1 k2 j(3) G(2)] snd unfolding closed_by_def by blast
qed

lemma closed_by_mono: "closed_by G D C D' C' R \<Longrightarrow> R \<subseteq> R' \<Longrightarrow> closed_by G D C D' C' R'"
  unfolding closed_by_def edge_done_def by blast

lemma close_succs_Cons:
  assumes "close_succs G i js D C D' C'"
  shows "close_succs G i (j # js) D C D' C'"
  unfolding close_succs_def
proof (intro impI)
  assume "in_range G \<and> square (length G) C \<and> length (dm D) = length G"
  with assms show "closed_by G D C D' C' (\<Union>q \<in> {q \<in> set (j # js). dm D' ! q = Finished}. bits C' q)"
    unfolding close_succs_def by (elim impE) (auto elim: closed_by_mono)
qed

lemma closed_by_refl: "square (length G) C \<Longrightarrow> closed_by G D C D C {}"
  by (auto simp: closed_by_def rows_kept_def)

interpretation closing: dfs_contract G "close_client G" "close_node G" "close_succs G" for G
proof (unfold_locales, goal_cases)
  case (1 i D s s1 D2 s2 s3)
  then show ?case
    unfolding close_node_def close_succs_def
    by (intro impI closing_node) (auto simp: close_client_def)
next
  case (2 i D s)
  then show ?case by (simp add: close_succs_def closed_by_refl)
next
  case (3 i j js D s D1 s1 s2 D' s')
  have [simp]: "s2 = s1" using 3 by (simp add: close_client_def)
  show ?case
    unfolding close_succs_def
  proof (intro impI, elim conjE)
    assume *: "in_range G" "square (length G) s" "length (dm D) = length G"
    with 3 have c: "closed_by G D s D1 s1 (bits s1 j)" by (simp add: close_node_def closed_by_def rows_kept_def edge_done_def)
    then have "square (length G) s1" by (simp add: closed_by_def)
    then have "closed_by G D1 s1 D' s' (\<Union>q \<in> {q \<in> set js. dm D' ! q = Finished}. bits s' q)"
      using 3 * by (simp add: close_succs_def adv_length)
    then show "closed_by G D s D' s' (\<Union>q \<in> {q \<in> set (j # js). dm D' ! q = Finished}. bits s' q)"
      using closing_tree [OF *(1,3) _ _ _ _ c] 3 * by simp
  qed
next
  case (4 i j js D s s1 D' s')
  then show ?case by (auto simp: close_client_def intro: close_succs_Cons)
next
  case (5 i j js D s s1 D' s')
  then show ?case by (auto simp: close_client_def intro: close_succs_Cons)
qed

definition closed_rows :: "nat list list \<Rightarrow> bool list list \<Rightarrow> bool" where
  "closed_rows G C \<longleftrightarrow> (\<forall>(i, j) \<in> edges_of G. insert j (bits C j) \<subseteq> bits C i)"

lemma closed_rows_trancl:
  assumes "closed_rows G C" and "(i, j) \<in> (edges_of G)\<^sup>+"
  shows "j \<in> bits C i"
  using assms(2)
proof (induction rule: converse_trancl_induct)
  case (base y)
  then show ?case using assms(1) unfolding closed_rows_def by blast
next
  case (step y z)
  then show ?case using assms(1) unfolding closed_rows_def by blast
qed

lemma closing_all:
  assumes "in_range G" "square (length G) C" "sound_rows G C" "dfs G (close_client G) C = Ok C'"
  shows "square (length G) C' \<and> sound_rows G C' \<and> (detected G C' \<or> closed_rows G C') \<and> (\<forall>k < length G. bits C k \<subseteq> bits C' k)"
proof -
  let ?J = "\<lambda>D C'. square (length G) C' \<and> sound_rows G C' \<and> (\<forall>k < length G. bits C k \<subseteq> bits C' k) \<and>
     (detected G C' \<or> (\<forall>x < length G. dm D ! x = Finished \<longrightarrow> (\<forall>j \<in> set (G ! x). dm D ! j = Finished \<and> insert j (bits C' j) \<subseteq> bits C' x)))"
  have "\<exists>D C''. ?J D C'' \<and> (\<forall>k < length G. dm D ! k = Finished) \<and> atEnd (close_client G) D C'' = Ok C'"
  proof (rule closing.dfs_all [OF assms(4), of ?J], goal_cases)
    case 1
    then show ?case using assms by (simp add: dfs_init_def)
  next
    case (2 i D C1 D' C2)
    then have c: "closed_by G D C1 D' C2 (bits C2 i)" using assms by (simp add: close_node_def)
    then have sq: "square (length G) C2" and k: "rows_kept G D C1 C2" and snd: "sound_rows G C2"
      using 2(1) by (auto simp: closed_by_def)
    have "dm D' ! j = Finished \<and> insert j (bits C2 j) \<subseteq> bits C2 x"
      if nd: "\<not> detected G C2" and x: "x < length G" "dm D' ! x = Finished" "j \<in> set (G ! x)" for x j
    proof (cases "dm D ! x = Unseen")
      case True
      then have "edge_done D D' C2 (bits C2 i) x j" using c nd x unfolding closed_by_def by blast
      moreover have "dm D ! j \<noteq> Entered" using 2(3) x assms(1) unfolding in_range_def by blast
      ultimately show ?thesis unfolding edge_done_def by blast
    next
      case False
      then have f: "dm D ! x = Finished" using 2(3) x by (cases "dm D ! x") auto
      have "\<not> detected G C1" using nd detected_mono [OF _ k] by blast
      then have j: "dm D ! j = Finished \<and> insert j (bits C1 j) \<subseteq> bits C1 x" using 2(1) x f by blast
      have "j < length G" using x assms(1) unfolding in_range_def by blast
      moreover from this have "dm D' ! j = Finished" using 2(2,6) j unfolding adv_def by (metis NodeStatus.distinct(3))
      ultimately show ?thesis using bits_kept [OF k, of j] bits_kept [OF k, of x] f j x by simp
    qed
    moreover have "\<forall>q < length G. bits C q \<subseteq> bits C2 q" using 2(1) k unfolding rows_kept_def by (meson order_trans)
    ultimately show ?case using sq snd by blast
  next
    case (3 D C'')
    then show ?case by blast
  qed
  then obtain D C'' where *: "?J D C''" "\<forall>k < length G. dm D ! k = Finished" "atEnd (close_client G) D C'' = Ok C'" by blast
  then have [simp]: "C'' = C'" by (simp add: close_client_def)
  have "insert j (bits C' j) \<subseteq> bits C' i" if "\<not> detected G C'" "i < length G" "j \<in> set (G ! i)" for i j
    using * that by simp
  then have "detected G C' \<or> closed_rows G C'" unfolding closed_rows_def edges_of_def by blast
  then show ?thesis using * by simp
qed

lemma closing_returns:
  assumes "in_range G" "square (length G) C"
  obtains C' where "dfs G (close_client G) C = Ok C'"
proof -
  have "\<exists>C'. rfold (close_edge i) (G ! i) C1 = Ok C' \<and> square (length G) C'"
    if "i < length G" "square (length G) C1" for i C1
    using close_edges_Ok [OF that(2,1), of "G ! i"] assms(1) that unfolding in_range_def by metis
  then have "returning (length G) (close_client G) (square (length G))"
    by (simp add: returning_def close_client_def)
  from dfs_returns [OF assms(1) this assms(2)] show ?thesis using that by (auto simp: close_client_def)
qed

section \<open>The structure\<close>

definition adj_wf :: "'a AdjList \<Rightarrow> bool" where
  "adj_wf r \<longleftrightarrow> length (nodeSucc r) = length (elems r) \<and> length (inDegree r) = length (elems r) \<and>
     square (length (elems r)) (transC r) \<and> in_range (nodeSucc r) \<and> (\<forall>i < length (elems r). distinct (nodeSucc r ! i)) \<and>
     (\<forall>i < length (elems r). set (nodeSucc r ! i) \<subseteq> bits (transC r) i) \<and> sound_rows (nodeSucc r) (transC r) \<and>
     (\<forall>j < length (elems r). inDegree r ! j = int (card {i. (i, j) \<in> edges_of (nodeSucc r)})) \<and>
     distinct (elems r) \<and> (\<forall>a i. ids r a = Some i \<longleftrightarrow> i < length (elems r) \<and> elems r ! i = a) \<and>
     (calculatedTransC r \<longrightarrow> detected (nodeSucc r) (transC r) \<or> closed_rows (nodeSucc r) (transC r))"

lemma irreflexive_from_Ok:
  "square n C \<Longrightarrow> \<forall>i \<in> set is. i < n \<Longrightarrow> irreflexive_from C is = Ok (\<forall>i \<in> set is. i \<notin> bits C i)"
  by (induction "is") (auto simp: square_def bits_def)

lemma isIrreflexive_Ok:
  "adj_wf r \<Longrightarrow> isIrreflexive r = Ok (\<not> detected (nodeSucc r) (transC r))"
  unfolding isIrreflexive_def adj_wf_def detected_def
  by (subst irreflexive_from_Ok [of "length (elems r)"]) auto

lemma transClosure_Ok:
  assumes "adj_wf r"
  obtains r' where "transClosure r = Ok r'" "adj_wf r'" "nodeSucc r' = nodeSucc r" "elems r' = elems r" "ids r' = ids r"
    "calculatedTransC r'"
proof (cases "calculatedTransC r")
  case True
  then show ?thesis using assms that by (simp add: transClosure_def)
next
  case False
  from assms have w: "in_range (nodeSucc r)" "square (length (nodeSucc r)) (transC r)" "sound_rows (nodeSucc r) (transC r)"
    by (auto simp: adj_wf_def)
  obtain C' where C: "dfs (nodeSucc r) (close_client (nodeSucc r)) (transC r) = Ok C'" using closing_returns [OF w(1,2)] .
  have "adj_wf (r\<lparr>transC := C', calculatedTransC := True\<rparr>)"
    using closing_all [OF w C] assms unfolding adj_wf_def by simp blast
  then show ?thesis using that False C by (simp add: transClosure_def)
qed

lemma rows_closure:
  assumes "adj_wf r" "calculatedTransC r" "acyclic (edges_of (nodeSucc r))" "i < length (elems r)"
  shows "bits (transC r) i = (edges_of (nodeSucc r))\<^sup>+ `` {i}"
proof -
  have s: "sound_rows (nodeSucc r) (transC r)" and l: "length (nodeSucc r) = length (elems r)" using assms(1) by (auto simp: adj_wf_def)
  then have "\<not> detected (nodeSucc r) (transC r)" using assms(3) unfolding detected_def sound_rows_def acyclic_def by blast
  then have "closed_rows (nodeSucc r) (transC r)" using assms(1,2) by (simp add: adj_wf_def)
  then show ?thesis using closed_rows_trancl s l assms(4) unfolding sound_rows_def by (auto simp del: trancl_converse)
qed

lemma detected_iff_cycle:
  assumes "adj_wf r" "calculatedTransC r"
  shows "detected (nodeSucc r) (transC r) \<longleftrightarrow> \<not> acyclic (edges_of (nodeSucc r))"
proof
  assume "detected (nodeSucc r) (transC r)"
  then show "\<not> acyclic (edges_of (nodeSucc r))"
    using assms unfolding adj_wf_def detected_def sound_rows_def acyclic_def by blast
next
  assume "\<not> acyclic (edges_of (nodeSucc r))"
  then obtain k where k: "(k, k) \<in> (edges_of (nodeSucc r))\<^sup>+" by (auto simp: acyclic_def)
  then have "k < length (nodeSucc r)" by (auto simp: edges_of_def dest: tranclD)
  then show "detected (nodeSucc r) (transC r)"
    using assms closed_rows_trancl [OF _ k] unfolding adj_wf_def detected_def by metis
qed

section \<open>Building a relation\<close>

lemma adj_of_ids:
  "distinct es \<Longrightarrow> ids (adj_of es) a = Some i \<longleftrightarrow> i < length es \<and> es ! i = a"
proof -
  assume d: "distinct es"
  have "k \<le> length es \<Longrightarrow> fold (\<lambda>i m. m(es ! i \<mapsto> i)) [0..<k] Map.empty a = Some i \<longleftrightarrow> i < k \<and> es ! i = a" for k
  proof (induction k)
    case (Suc k)
    then show ?case using d by (auto simp: less_Suc_eq nth_eq_iff_index_eq)
  qed simp
  from this [of "length es"] show ?thesis by (simp add: adj_of_def)
qed

lemma adj_of_edges [simp]: "edges_of (nodeSucc (adj_of es)) = {}"
  by (simp add: edges_of_def adj_of_def)

lemma adj_of_elems [simp]: "elems (adj_of es) = es"
  by (simp add: adj_of_def)

lemma adj_of_wf: "distinct es \<Longrightarrow> adj_wf (adj_of es)"
  using adj_of_ids [of es] unfolding adj_wf_def
  by (auto simp: adj_of_def square_def in_range_def sound_rows_def bits_def edges_of_def)

lemma getIndex_Ok: "adj_wf r \<Longrightarrow> i < length (elems r) \<Longrightarrow> getIndex r (elems r ! i) = Ok i"
  unfolding getIndex_def adj_wf_def by (metis option.simps(5))

lemma edges_of_update:
  "i < length G \<Longrightarrow> edges_of (G[i := G ! i @ [j]]) = insert (i, j) (edges_of G)"
  by (auto simp: edges_of_def nth_list_update split: if_splits)

lemma sound_rows_mono:
  "sound_rows G C \<Longrightarrow> edges_of G \<subseteq> edges_of G' \<Longrightarrow> length G' = length G \<Longrightarrow> sound_rows G' C"
  unfolding sound_rows_def by (metis trancl_mono)

lemma trancl_insert_mem: "(a, b) \<in> R\<^sup>+ \<Longrightarrow> (insert (a, b) R)\<^sup>+ = R\<^sup>+"
proof (intro equalityI subsetI)
  fix p
  assume "(a, b) \<in> R\<^sup>+" and p: "p \<in> (insert (a, b) R)\<^sup>+"
  then have "insert (a, b) R \<subseteq> R\<^sup>+" by auto
  from trancl_mono [OF p this] show "p \<in> R\<^sup>+" by simp
qed (auto elim: trancl_mono)

lemma addEdgeId_Ok:
  assumes w: "adj_wf r" and i: "i < length (elems r)" and j: "j < length (elems r)"
  obtains r' where "addEdgeId r i j = Ok r'" "adj_wf r'" "elems r' = elems r" "ids r' = ids r"
    "(edges_of (nodeSucc r'))\<^sup>+ = (insert (i, j) (edges_of (nodeSucc r)))\<^sup>+"
proof (cases "j \<in> bits (transC r) i")
  case True
  then have "(i, j) \<in> (edges_of (nodeSucc r))\<^sup>+" using w i unfolding adj_wf_def sound_rows_def by auto
  then have "(insert (i, j) (edges_of (nodeSucc r)))\<^sup>+ = (edges_of (nodeSucc r))\<^sup>+"
    by (rule trancl_insert_mem)
  moreover have "addEdgeId r i j = Ok r"
    using True w i j by (simp add: addEdgeId_def adj_edge_def adj_wf_def square_def bits_def)
  ultimately show ?thesis using that w by simp
next
  case False
  from w have l: "length (nodeSucc r) = length (elems r)" "length (inDegree r) = length (elems r)"
    and sq: "square (length (elems r)) (transC r)" and rng: "in_range (nodeSucc r)" and snd: "sound_rows (nodeSucc r) (transC r)"
    and dist: "\<And>i. i < length (elems r) \<Longrightarrow> distinct (nodeSucc r ! i)"
    and sub: "\<And>i. i < length (elems r) \<Longrightarrow> set (nodeSucc r ! i) \<subseteq> bits (transC r) i"
    and deg: "\<And>j. j < length (elems r) \<Longrightarrow> inDegree r ! j = int (card {i. (i, j) \<in> edges_of (nodeSucc r)})"
    by (auto simp: adj_wf_def)
  let ?C = "(transC r)[i := (transC r ! i)[j := True]]"
  let ?G = "(nodeSucc r)[i := nodeSucc r ! i @ [j]]"
  let ?d = "(inDegree r)[j := inDegree r ! j + 1]"
  let ?r = "r\<lparr>nodeSucc := ?G, transC := ?C, inDegree := ?d, calculatedTransC := False\<rparr>"
  have E: "edges_of ?G = insert (i, j) (edges_of (nodeSucc r))" using edges_of_update i l by simp
  have ok: "addEdgeId r i j = Ok ?r"
    using False i j l sq by (simp add: addEdgeId_def adj_edge_def square_def bits_def)
  have B: "bits ?C k = (if k = i then insert j (bits (transC r) i) else bits (transC r) k)" for k
    using sq i j by (auto simp: bits_def square_def nth_list_update split: if_splits)
  have new: "j \<notin> set (nodeSucc r ! i)" using sub [OF i] False by blast
  have "card {q. (q, k) \<in> edges_of ?G} = card {q. (q, k) \<in> edges_of (nodeSucc r)} + (if k = j then 1 else 0)" for k
  proof (cases "k = j")
    case True
    have "{q. (q, j) \<in> edges_of ?G} = insert i {q. (q, j) \<in> edges_of (nodeSucc r)}" unfolding E by auto
    moreover have "i \<notin> {q. (q, j) \<in> edges_of (nodeSucc r)}" using new by (simp add: edges_of_def)
    moreover have "finite {q. (q, j) \<in> edges_of (nodeSucc r)}"
      by (rule finite_subset [of _ "{..<length (nodeSucc r)}"]) (auto simp: edges_of_def)
    ultimately show ?thesis using True by simp
  qed (simp add: E)
  then have D: "\<And>k. k < length (elems r) \<Longrightarrow> ?d ! k = int (card {q. (q, k) \<in> edges_of ?G})"
    using deg l by (simp add: nth_list_update)
  have S: "sound_rows ?G ?C"
  proof -
    have "sound_rows ?G (transC r)" using snd by (rule sound_rows_mono) (auto simp: E)
    moreover have "(i, j) \<in> (edges_of ?G)\<^sup>+" using E by auto
    ultimately show ?thesis unfolding sound_rows_def B by (metis insertE length_list_update)
  qed
  have "adj_wf ?r"
    unfolding adj_wf_def
  proof (intro conjI)
    show "square (length (elems ?r)) (transC ?r)" using sq i by (auto simp: square_def nth_list_update)
    show "in_range (nodeSucc ?r)" using rng i j l unfolding in_range_def by (auto simp: nth_list_update)
    show "\<forall>i < length (elems ?r). distinct (nodeSucc ?r ! i)" using dist new l i by (auto simp: nth_list_update)
    show "\<forall>i < length (elems ?r). set (nodeSucc ?r ! i) \<subseteq> bits (transC ?r) i"
      using sub l i by (auto simp: B nth_list_update)
    show "\<forall>j < length (elems ?r). inDegree ?r ! j = int (card {i. (i, j) \<in> edges_of (nodeSucc ?r)})" using D by simp
  qed (use w S in \<open>auto simp: adj_wf_def\<close>)
  then show ?thesis using that [OF ok] E by simp
qed

text \<open>The relation on the elements.\<close>

definition rel_of :: "'a AdjList \<Rightarrow> ('a \<times> 'a) set" where
  "rel_of r = (\<lambda>(i, j). (elems r ! i, elems r ! j)) ` edges_of (nodeSucc r)"

lemma trancl_map_nth:
  assumes "distinct es" "E \<subseteq> {..<length es} \<times> {..<length es}"
  shows "((\<lambda>(i, j). (es ! i, es ! j)) ` E)\<^sup>+ = (\<lambda>(i, j). (es ! i, es ! j)) ` (E\<^sup>+)"
proof (intro set_eqI iffI; clarify)
  fix a b
  assume "(a, b) \<in> ((\<lambda>(i, j). (es ! i, es ! j)) ` E)\<^sup>+"
  then show "(a, b) \<in> (\<lambda>(i, j). (es ! i, es ! j)) ` (E\<^sup>+)"
  proof (induction rule: trancl_induct)
    case (step y z)
    then obtain i j j' k where *: "(i, j) \<in> E\<^sup>+" "a = es ! i" "y = es ! j" "(j', k) \<in> E" "y = es ! j'" "z = es ! k" by auto
    moreover have "j < length es" using *(1) assms(2) by (auto dest!: tranclD2)
    ultimately have "j = j'" using assms by (auto simp: nth_eq_iff_index_eq)
    then have "(i, k) \<in> E\<^sup>+" using * by auto
    then show ?case using * by force
  qed force
next
  fix i j
  assume "(i, j) \<in> E\<^sup>+"
  then show "(es ! i, es ! j) \<in> ((\<lambda>(i, j). (es ! i, es ! j)) ` E)\<^sup>+"
  proof (induction rule: trancl_induct)
    case (step y z)
    then have "(es ! y, es ! z) \<in> (\<lambda>(i, j). (es ! i, es ! j)) ` E" by force
    with step.IH show ?case by (rule trancl_into_trancl)
  qed force
qed

lemma edges_range: "adj_wf r \<Longrightarrow> edges_of (nodeSucc r) \<subseteq> {..<length (elems r)} \<times> {..<length (elems r)}"
  by (auto simp: adj_wf_def edges_of_def in_range_def)

lemma rel_of_trancl:
  "adj_wf r \<Longrightarrow> (rel_of r)\<^sup>+ = (\<lambda>(i, j). (elems r ! i, elems r ! j)) ` (edges_of (nodeSucc r))\<^sup>+"
  unfolding rel_of_def by (rule trancl_map_nth [OF _ edges_range]) (simp_all add: adj_wf_def)

lemma trancl_range: "E \<subseteq> A \<times> A \<Longrightarrow> E\<^sup>+ \<subseteq> A \<times> A"
  by (rule trancl_subset_Sigma)

lemma rel_of_trancl_iff:
  assumes "adj_wf r" "i < length (elems r)" "j < length (elems r)"
  shows "(elems r ! i, elems r ! j) \<in> (rel_of r)\<^sup>+ \<longleftrightarrow> (i, j) \<in> (edges_of (nodeSucc r))\<^sup>+"
proof -
  have d: "distinct (elems r)" using assms(1) by (simp add: adj_wf_def)
  show ?thesis
    unfolding rel_of_trancl [OF assms(1)]
    using trancl_range [OF edges_range [OF assms(1)]] assms d by (force simp: nth_eq_iff_index_eq)
qed

lemma acyclic_rel_of: "adj_wf r \<Longrightarrow> acyclic (rel_of r) \<longleftrightarrow> acyclic (edges_of (nodeSucc r))"
proof -
  assume w: "adj_wf r"
  have d: "distinct (elems r)" using w by (simp add: adj_wf_def)
  show ?thesis
    unfolding acyclic_def rel_of_trancl [OF w]
    using trancl_range [OF edges_range [OF w]] d by (force simp: nth_eq_iff_index_eq)
qed

lemma addEdge_Ok:
  assumes w: "adj_wf r" and a: "a \<in> set (elems r)" and b: "b \<in> set (elems r)"
  obtains r' where "addEdge r a b = Ok r'" "adj_wf r'" "elems r' = elems r" "(rel_of r')\<^sup>+ = (insert (a, b) (rel_of r))\<^sup>+"
proof -
  obtain i j where i: "i < length (elems r)" "a = elems r ! i" and j: "j < length (elems r)" "b = elems r ! j"
    using a b by (metis in_set_conv_nth)
  obtain r' where r': "addEdgeId r i j = Ok r'" "adj_wf r'" "elems r' = elems r"
    "(edges_of (nodeSucc r'))\<^sup>+ = (insert (i, j) (edges_of (nodeSucc r)))\<^sup>+"
    using addEdgeId_Ok [OF w i(1) j(1)] by metis
  have "(insert (a, b) (rel_of r))\<^sup>+ = ((\<lambda>(i, j). (elems r ! i, elems r ! j)) ` insert (i, j) (edges_of (nodeSucc r)))\<^sup>+"
    by (simp add: rel_of_def i j)
  also have "\<dots> = (rel_of r')\<^sup>+"
    unfolding rel_of_trancl [OF r'(2)] r'(3,4)
    by (rule trancl_map_nth) (use w edges_range [OF w] i j in \<open>auto simp: adj_wf_def\<close>)
  finally have "(rel_of r')\<^sup>+ = (insert (a, b) (rel_of r))\<^sup>+" by simp
  then show ?thesis using that r' i j w by (simp add: addEdge_def getIndex_Ok)
qed

lemma addEdges_Ok:
  assumes "adj_wf r" and "set ps \<subseteq> set (elems r) \<times> set (elems r)"
  obtains r' where "rfold (\<lambda>(a, b) r. addEdge r a b) ps r = Ok r'" "adj_wf r'" "elems r' = elems r"
    "(rel_of r')\<^sup>+ = (set ps \<union> rel_of r)\<^sup>+"
  using assms
proof (induction ps arbitrary: r thesis)
  case Nil
  then show ?case by simp
next
  case (Cons p ps)
  obtain a b where p: "p = (a, b)" by (cases p)
  obtain r1 where 1: "addEdge r a b = Ok r1" "adj_wf r1" "elems r1 = elems r" "(rel_of r1)\<^sup>+ = (insert (a, b) (rel_of r))\<^sup>+"
    using addEdge_Ok [OF Cons.prems(2), of a b] Cons.prems(3) p by auto
  obtain r2 where 2: "rfold (\<lambda>(a, b) r. addEdge r a b) ps r1 = Ok r2" "adj_wf r2" "elems r2 = elems r1"
    "(rel_of r2)\<^sup>+ = (set ps \<union> rel_of r1)\<^sup>+"
    using Cons.IH [OF _ 1(2)] Cons.prems(3) 1(3) by auto
  have "(set ps \<union> rel_of r1)\<^sup>+ = ((rel_of r1)\<^sup>+ \<union> set ps)\<^sup>+" by (metis trancl_trancl_Un Un_commute)
  also have "\<dots> = (insert (a, b) (rel_of r) \<union> set ps)\<^sup>+" unfolding 1(4) by (rule trancl_trancl_Un)
  finally have "(rel_of r2)\<^sup>+ = (set (p # ps) \<union> rel_of r)\<^sup>+" using 2(4) p by (simp add: Un_commute)
  then show ?case using Cons.prems(1) [of r2] 1 2 p by simp
qed

text \<open>The way the tool builds a relation: from its elements, edge by edge.\<close>

definition adj_build :: "'a list \<Rightarrow> ('a \<times> 'a) list \<Rightarrow> 'a AdjList res" where
  "adj_build es ps = rfold (\<lambda>(a, b) r. addEdge r a b) ps (adj_of es)"

lemma adj_build_Ok:
  assumes "distinct es" and "set ps \<subseteq> set es \<times> set es"
  obtains r where "adj_build es ps = Ok r" "adj_wf r" "elems r = es" "(rel_of r)\<^sup>+ = (set ps)\<^sup>+"
  using addEdges_Ok [OF adj_of_wf [OF assms(1)], of ps] assms(2) by (auto simp: rel_of_def adj_build_def)

lemma adj_build_closed:
  assumes "distinct es" and "set ps \<subseteq> set es \<times> set es"
  obtains r where "rbind (adj_build es ps) transClosure = Ok r" "adj_wf r" "elems r = es"
    "isIrreflexive r = Ok (acyclic (set ps))"
    "\<And>a b. acyclic (set ps) \<Longrightarrow> a \<in> set es \<Longrightarrow> b \<in> set es \<Longrightarrow> adj_rel r a b = Ok ((a, b) \<in> (set ps)\<^sup>+)"
    "(rel_of r)\<^sup>+ = (set ps)\<^sup>+"
proof -
  obtain r where r: "adj_build es ps = Ok r" "adj_wf r" "elems r = es" "(rel_of r)\<^sup>+ = (set ps)\<^sup>+"
    using adj_build_Ok [OF assms(1,2)] .
  obtain r' where r': "transClosure r = Ok r'" "adj_wf r'" "nodeSucc r' = nodeSucc r" "elems r' = elems r" "calculatedTransC r'"
    using transClosure_Ok [OF r(2)] by metis
  have ac: "acyclic (rel_of r) = acyclic (set ps)" unfolding acyclic_def r(4) ..
  have "isIrreflexive r' = Ok (acyclic (set ps))"
    using isIrreflexive_Ok [OF r'(2)] detected_iff_cycle [OF r'(2,5)] acyclic_rel_of [OF r(2)] r'(3) ac by simp
  moreover have "adj_rel r' a b = Ok ((a, b) \<in> (set ps)\<^sup>+)"
    if acyc: "acyclic (set ps)" and ab: "a \<in> set es" "b \<in> set es" for a b
  proof -
    obtain i j where ij: "i < length es" "a = es ! i" "j < length es" "b = es ! j" using ab by (metis in_set_conv_nth)
    have "acyclic (edges_of (nodeSucc r'))" using acyc ac acyclic_rel_of [OF r(2)] r'(3) by simp
    from rows_closure [OF r'(2,5) this] have b: "bits (transC r') i = (edges_of (nodeSucc r))\<^sup>+ `` {i}" using r' r ij by simp
    have "adj_rel r' a b = Ok (j \<in> bits (transC r') i)"
      using getIndex_Ok [OF r'(2), of i] getIndex_Ok [OF r'(2), of j] r' r ij
      by (simp add: adj_rel_def adj_edge_def adj_wf_def square_def bits_def)
    then show ?thesis using b rel_of_trancl_iff [OF r(2), of i j] ij r by simp
  qed
  moreover have "rel_of r' = rel_of r" using r' by (simp add: rel_of_def)
  ultimately show ?thesis using that [of r'] r r' by simp
qed

lemma no_successors:
  assumes "adj_wf r" and "i < length (elems r)"
  shows "nodeSucc r ! i = [] \<longleftrightarrow> elems r ! i \<notin> Domain ((rel_of r)\<^sup>+)"
proof -
  have d: "distinct (elems r)" "length (nodeSucc r) = length (elems r)" using assms(1) by (simp_all add: adj_wf_def)
  have "elems r ! i \<in> Domain (rel_of r) \<longleftrightarrow> i \<in> Domain (edges_of (nodeSucc r))"
    using d assms(2) unfolding rel_of_def edges_of_def by (force simp: nth_eq_iff_index_eq Domain_iff image_iff)
  also have "\<dots> \<longleftrightarrow> nodeSucc r ! i \<noteq> []"
    using d assms(2) by (auto simp: edges_of_def Domain_iff) (metis list.set_intros(1) neq_Nil_conv)
  finally show ?thesis by (simp add: trancl_domain)
qed

text \<open>C22: the way the tool uses the structure: start from distinct elements, add edges between them, close,
  and ask for irreflexivity. Every step returns, whatever the edges are, and the answer is whether the
  edges that were added have no cycle, although \<open>addEdge()\<close> drops an edge that an earlier one covers and
  the closure is computed in one pass of a depth-first search.\<close>

theorem closure_decides_acyclicity:
  assumes "distinct es" and "set ps \<subseteq> set es \<times> set es"
  shows "rbind (adj_build es ps) (\<lambda>r. rbind (transClosure r) isIrreflexive) = Ok (acyclic (set ps))"
proof -
  obtain r where "rbind (adj_build es ps) transClosure = Ok r" "isIrreflexive r = Ok (acyclic (set ps))"
    using adj_build_closed [OF assms] by metis
  then show ?thesis by (simp add: rbind_assoc [symmetric])
qed

theorem closure_decides_acyclicity_witness:
  "rbind (adj_build [0, 1, 2 :: nat] [(0, 1), (1, 2), (2, 0)]) (\<lambda>r. rbind (transClosure r) isIrreflexive)
    = Ok (acyclic (set [(0, 1), (1, 2), (2, 0 :: nat)]))"
  by (rule closure_decides_acyclicity) simp_all

text \<open>And when there is no cycle, the closed structure answers for two elements exactly whether the edges
  that were added lead from one to the other.\<close>

theorem closure_is_reachability:
  assumes "distinct es" and "set ps \<subseteq> set es \<times> set es" and "acyclic (set ps)" and "a \<in> set es" and "b \<in> set es"
  shows "rbind (adj_build es ps) (\<lambda>r. rbind (transClosure r) (\<lambda>r. adj_rel r a b)) = Ok ((a, b) \<in> (set ps)\<^sup>+)"
proof -
  obtain r where "rbind (adj_build es ps) transClosure = Ok r" "adj_rel r a b = Ok ((a, b) \<in> (set ps)\<^sup>+)"
    using adj_build_closed [OF assms(1,2)] assms(3-5) by metis
  then show ?thesis by (simp add: rbind_assoc [symmetric])
qed

theorem closure_is_reachability_witness:
  "acyclic (set [(0, 1), (1, 2 :: nat)]) \<and>
   rbind (adj_build [0, 1, 2 :: nat] [(0, 1), (1, 2)]) (\<lambda>r. rbind (transClosure r) (\<lambda>r. adj_rel r 0 2)) = Ok ((0, 2) \<in> (set [(0, 1), (1, 2 :: nat)])\<^sup>+)"
proof -
  have "acyclic (set [(0, 1), (1, 2 :: nat)])"
    by (rule acyclic_subset [OF wf_acyclic [OF wf_less]]) (auto simp: less_than_def)
  then show ?thesis using closure_is_reachability [of "[0, 1, 2 :: nat]" "[(0, 1), (1, 2)]" 0 2] by simp
qed

section \<open>Topological sorting\<close>

text \<open>The sorting under construction: the nodes that were left, every one after its successors.\<close>

definition topo_inv :: "nat list list \<Rightarrow> 'a list \<Rightarrow> Dfs \<Rightarrow> 'a list \<Rightarrow> bool" where
  "topo_inv G es D s \<longleftrightarrow> length (dm D) = length G \<and> length es = length G \<and>
     (\<exists>xs. s = map ((!) es) xs \<and> distinct xs \<and> set xs = {k. k < length G \<and> dm D ! k = Finished} \<and>
       (\<forall>p < length xs. set (G ! (xs ! p)) \<subseteq> set (take p xs)))"

definition topo_node :: "nat list list \<Rightarrow> 'a list \<Rightarrow> nat \<Rightarrow> Dfs \<Rightarrow> 'a list \<Rightarrow> Dfs \<Rightarrow> 'a list \<Rightarrow> bool" where
  "topo_node G es i D s D' s' \<longleftrightarrow> (topo_inv G es D s \<longrightarrow> topo_inv G es D' s')"

definition topo_succs :: "nat list list \<Rightarrow> 'a list \<Rightarrow> nat \<Rightarrow> nat list \<Rightarrow> Dfs \<Rightarrow> 'a list \<Rightarrow> Dfs \<Rightarrow> 'a list \<Rightarrow> bool" where
  "topo_succs G es i js D s D' s' \<longleftrightarrow> (topo_inv G es D s \<longrightarrow> topo_inv G es D' s' \<and> (\<forall>j \<in> set js. dm D' ! j = Finished))"

lemma topo_inv_enter: "topo_inv G es D s \<Longrightarrow> i < length G \<Longrightarrow> dm D ! i = Unseen \<Longrightarrow> topo_inv G es (dfs_enter i D) s"
proof -
  assume "topo_inv G es D s" "i < length G" "dm D ! i = Unseen"
  moreover from this have "{k. k < length G \<and> (dm D)[i := Entered] ! k = Finished} = {k. k < length G \<and> dm D ! k = Finished}"
    by (auto simp: topo_inv_def nth_list_update split: if_splits)
  ultimately show ?thesis by (simp add: topo_inv_def)
qed

lemma topo_inv_leave:
  assumes "topo_inv G es D s" "i < length G" "dm D ! i = Entered" "\<forall>j \<in> set (G ! i). j < length G \<and> dm D ! j = Finished"
  shows "topo_inv G es (dfs_leave i D) (s @ [es ! i])"
proof -
  from assms(1) obtain xs where xs: "s = map ((!) es) xs" "distinct xs" "set xs = {k. k < length G \<and> dm D ! k = Finished}"
    "\<forall>p < length xs. set (G ! (xs ! p)) \<subseteq> set (take p xs)" and l: "length (dm D) = length G" "length es = length G"
    by (auto simp: topo_inv_def)
  have "set (xs @ [i]) = {k. k < length G \<and> dm (dfs_leave i D) ! k = Finished}"
    using xs(3) assms(2) l by (auto simp: nth_list_update split: if_splits)
  moreover have "\<forall>p < length (xs @ [i]). set (G ! ((xs @ [i]) ! p)) \<subseteq> set (take p (xs @ [i]))"
    using xs(3,4) assms(4) by (auto simp: less_Suc_eq nth_append)
  moreover have "distinct (xs @ [i])" using xs(2,3) assms(3) by auto
  ultimately show ?thesis using xs(1) l unfolding topo_inv_def by (intro conjI exI [of _ "xs @ [i]"]) simp_all
qed

lemma adv_Entered: "adv D D' \<Longrightarrow> k < length (dm D) \<Longrightarrow> dm D' ! k = Entered \<longleftrightarrow> dm D ! k = Entered"
  unfolding adv_def by force

lemma adv_Finished: "adv D D' \<Longrightarrow> k < length (dm D) \<Longrightarrow> dm D ! k = Finished \<Longrightarrow> dm D' ! k = Finished"
  unfolding adv_def by force

interpretation sorting: dfs_contract G "topo_client es" "topo_node G es" "topo_succs G es" for G es
proof (unfold_locales, goal_cases)
  case (1 i D s s1 D2 s2 s3)
  have [simp]: "s1 = s" using 1 by (simp add: topo_client_def)
  show ?case
    unfolding topo_node_def
  proof
    assume T: "topo_inv G es D s"
    then have "topo_inv G es (dfs_enter i D) s" using topo_inv_enter 1 by blast
    with 1 have T2: "topo_inv G es D2 s2" "\<forall>j \<in> set (G ! i). dm D2 ! j = Finished" by (auto simp: topo_succs_def)
    then have "s3 = s2 @ [es ! i]" using 1 by (auto simp: topo_client_def res_simps)
    moreover have "dm D2 ! i = Entered" using 1 adv_Entered [OF 1(5), of i] by simp
    moreover have "\<forall>j \<in> set (G ! i). j < length G \<and> dm D2 ! j = Finished" using 1(7) T2(2) T by (simp add: topo_inv_def)
    ultimately show "topo_inv G es (dfs_leave i D2) s3" using topo_inv_leave [OF T2(1) 1(2)] by simp
  qed
next
  case (3 i j js D s D1 s1 s2 D' s')
  then show ?case
    using adv_Finished [OF 3(7), of j] adv_length [OF 3(3)]
    by (auto simp: topo_client_def topo_succs_def topo_node_def topo_inv_def)
next
  case (5 i j js D s s1 D' s')
  then show ?case using adv_Finished [OF 5(4), of j] by (auto simp: topo_client_def topo_succs_def)
qed (simp_all add: topo_succs_def topo_client_def)

text \<open>The search for a sorting either returns, or meets an edge to an entered node, which closes a cycle.\<close>

lemma topo_total_both:
  "cb = topo_client es \<Longrightarrow> in_range G \<Longrightarrow> length es = length G \<Longrightarrow> i < length G \<Longrightarrow> length (dm D) = length G \<Longrightarrow> dm D ! i = Unseen \<Longrightarrow>
     \<forall>k < length G. dm D ! k = Entered \<longrightarrow> (k, i) \<in> (edges_of G)\<^sup>+ \<Longrightarrow>
     (\<exists>D' s'. dfsUtil G cb i D s = Ok (D', s') \<and> length (dm D') = length G) \<or> dfsUtil G cb i D s = Bug \<and> \<not> acyclic (edges_of G)"
  "cb = topo_client es \<Longrightarrow> in_range G \<Longrightarrow> length es = length G \<Longrightarrow> i < length G \<Longrightarrow> length (dm D) = length G \<Longrightarrow>
     \<forall>k < length G. dm D ! k = Entered \<longrightarrow> (k, i) \<in> (edges_of G)\<^sup>* \<Longrightarrow> \<forall>j \<in> set js. (i, j) \<in> edges_of G \<Longrightarrow>
     (\<exists>D' s'. dfs_loop G cb i js D s = Ok (D', s') \<and> length (dm D') = length G) \<or> dfs_loop G cb i js D s = Bug \<and> \<not> acyclic (edges_of G)"
proof (induction G cb i D s and G cb i js D s rule: dfsUtil_dfs_loop.induct)
  case (1 G cb i D s)
  have e: "atEntryV cb i (dfs_enter i D) s = Ok s" using "1.prems" by (simp add: topo_client_def)
  have "(\<exists>D' s'. dfs_loop G cb i (G ! i) (dfs_enter i D) s = Ok (D', s') \<and> length (dm D') = length G) \<or>
      dfs_loop G cb i (G ! i) (dfs_enter i D) s = Bug \<and> \<not> acyclic (edges_of G)"
    using "1.prems" by (intro "1.IH" [OF _ e]) (auto simp: edges_of_def nth_list_update)
  then show ?case using "1.prems" e by (auto simp: topo_client_def)
next
  case (2 G cb i D s)
  then show ?case by simp
next
  case (3 G cb i j js D s)
  have j: "j < length G" and ij: "(i, j) \<in> edges_of G" using "3.prems" by (auto simp: in_range_def edges_of_def)
  note cb = "3.prems"(1)
  show ?case
  proof (cases "dm D ! j")
    case Unseen
    have u: "(\<exists>D1 s1. dfsUtil G cb j (D\<lparr>dp := (dp D)[j := of_nat i]\<rparr>) s = Ok (D1, s1) \<and> length (dm D1) = length G) \<or>
        dfsUtil G cb j (D\<lparr>dp := (dp D)[j := of_nat i]\<rparr>) s = Bug \<and> \<not> acyclic (edges_of G)"
      using "3.prems" j ij Unseen by (intro "3.IH"(1)) (auto intro: rtrancl_into_trancl1)
    show ?thesis
    proof (cases "dfsUtil G cb j (D\<lparr>dp := (dp D)[j := of_nat i]\<rparr>) s")
      case (Ok v)
      then obtain D1 s1 where v: "dfsUtil G cb j (D\<lparr>dp := (dp D)[j := of_nat i]\<rparr>) s = Ok (D1, s1)" "length (dm D1) = length G"
        using u by auto
      have "adv D D1" using sorting.dfsUtil_node [OF v(1) [unfolded cb]] Unseen by simp
      then have "\<forall>k < length G. dm D1 ! k = Entered \<longrightarrow> (k, i) \<in> (edges_of G)\<^sup>*"
        using "3.prems" by (simp add: adv_Entered)
      then show ?thesis using "3.IH"(2) [of _ D1 s1 s1] "3.prems" v j Unseen by (simp add: topo_client_def)
    qed (use u j Unseen "3.prems" in auto)
  next
    case Entered
    then have "(j, i) \<in> (edges_of G)\<^sup>*" using "3.prems" j by blast
    then have "(i, i) \<in> (edges_of G)\<^sup>+" using ij by (rule rtrancl_into_trancl2 [rotated])
    then have "\<not> acyclic (edges_of G)" unfolding acyclic_def by blast
    then show ?thesis using Entered j "3.prems" by (simp add: topo_client_def)
  next
    case Finished
    then show ?thesis using "3.IH"(4) [of s] "3.prems" j by (simp add: topo_client_def)
  qed
qed

lemma rel_of_range: "adj_wf r \<Longrightarrow> rel_of r \<subseteq> set (elems r) \<times> set (elems r)"
  using edges_range [of r] by (auto simp: rel_of_def)

lemma dfs_root_eq:
  "i < length (dm D) \<Longrightarrow> dm D ! i = Unseen \<Longrightarrow> dfs_root G cb i (D, s) = dfsUtil G cb i D s"
  "i < length (dm D) \<Longrightarrow> dm D ! i \<noteq> Unseen \<Longrightarrow> dfs_root G cb i (D, s) = Ok (D, s)"
  by (simp_all add: dfs_root_def del: dfsUtil.simps)

lemma topo_roots:
  assumes "in_range G" "length es = length G"
  shows "\<forall>i \<in> set is. i < length G \<Longrightarrow> length (dm D) = length G \<Longrightarrow> \<forall>k < length G. dm D ! k \<noteq> Entered \<Longrightarrow>
    (\<exists>v. rfold (dfs_root G (topo_client es)) is (D, s) = Ok v) \<or>
    rfold (dfs_root G (topo_client es)) is (D, s) = Bug \<and> \<not> acyclic (edges_of G)"
proof (induction "is" arbitrary: D s)
  case (Cons i js)
  show ?case
  proof (cases "dm D ! i = Unseen")
    case True
    have u: "(\<exists>D' s'. dfsUtil G (topo_client es) i D s = Ok (D', s') \<and> length (dm D') = length G) \<or>
        dfsUtil G (topo_client es) i D s = Bug \<and> \<not> acyclic (edges_of G)"
      using topo_total_both(1) [OF refl assms, of i D s] Cons.prems True by simp
    have "\<forall>k < length G. dm D' ! k \<noteq> Entered" if "dfsUtil G (topo_client es) i D s = Ok (D', s')" for D' s'
      using sorting.dfsUtil_node [OF that True] Cons.prems by (auto simp: adv_Entered)
    then show ?thesis
      using u Cons.prems True Cons.IH by (elim disjE exE conjE) (auto simp: dfs_root_eq simp del: dfsUtil.simps split_paired_Ex)
  qed (use Cons in \<open>simp add: dfs_root_eq\<close>)
qed simp

definition linear_extension :: "('a \<times> 'a) set \<Rightarrow> 'a list \<Rightarrow> bool" where
  "linear_extension R s \<longleftrightarrow> distinct s \<and> (\<forall>p < length s. \<forall>q < length s. (s ! p, s ! q) \<in> R \<longrightarrow> p < q)"

lemma linear_extension_trancl_less:
  assumes "linear_extension R s" "R \<subseteq> set s \<times> set s" and "(a, b) \<in> R\<^sup>+"
  shows "\<forall>p q. p < length s \<longrightarrow> q < length s \<longrightarrow> s ! p = a \<longrightarrow> s ! q = b \<longrightarrow> p < q"
  using assms(3)
proof (induction rule: trancl_induct)
  case (base y)
  then show ?case using assms(1) unfolding linear_extension_def by blast
next
  case (step y z)
  then obtain m where m: "m < length s" "s ! m = y" using assms(2) by (metis in_set_conv_nth mem_Sigma_iff subsetD)
  then have "m < q" if "q < length s" "s ! q = z" for q using that step(2) assms(1) unfolding linear_extension_def by blast
  then show ?case using m step.IH order_less_trans by blast
qed

lemma linear_extension_acyclic:
  assumes "linear_extension R s" "R \<subseteq> set s \<times> set s"
  shows "acyclic R"
proof -
  have "a \<in> set s" if "(a, a) \<in> R\<^sup>+" for a
    using trancl_range [OF assms(2)] that by blast
  then show ?thesis using linear_extension_trancl_less [OF assms] unfolding acyclic_def by (metis in_set_conv_nth less_irrefl)
qed

lemma topoSort_Ok_order:
  assumes w: "adj_wf r" and run: "topoSort r = Ok s"
  shows "linear_extension (rel_of r) s \<and> set s = set (elems r)"
proof -
  let ?G = "nodeSucc r" let ?es = "elems r"
  have l: "length ?es = length ?G" and rng: "in_range ?G" and d: "distinct ?es" using w by (auto simp: adj_wf_def)
  from run obtain t where t: "dfs ?G (topo_client ?es) [] = Ok t" "s = rev t" by (auto simp: topoSort_def res_simps)
  obtain D s' where J: "topo_inv ?G ?es D s'" "\<forall>k < length ?G. dm D ! k = Finished" "atEnd (topo_client ?es) D s' = Ok t"
  proof (rule sorting.dfs_all [OF t(1), of "topo_inv ?G ?es"], goal_cases)
    case 1
    then show ?case using l by (simp add: topo_inv_def dfs_init_def)
  qed (auto simp: topo_node_def)
  then have [simp]: "s' = t" by (simp add: topo_client_def)
  obtain xs where xs: "t = map ((!) ?es) xs" "distinct xs" "set xs = {..<length ?G}"
    "\<forall>p < length xs. set (?G ! (xs ! p)) \<subseteq> set (take p xs)" using J(1,2) unfolding topo_inv_def by auto
  have inj: "inj_on ((!) ?es) (set xs)" using xs(3) l d by (auto simp: inj_on_def nth_eq_iff_index_eq)
  have "distinct t" unfolding xs(1) using xs(2) inj by (simp add: distinct_map)
  moreover have "set t = set ?es"
  proof -
    have "set t = (!) ?es ` {..<length ?es}" unfolding xs(1) set_map xs(3) l ..
    then show ?thesis by (auto simp: set_conv_nth)
  qed
  moreover have order: "q < p" if "p < length t" "q < length t" "(t ! p, t ! q) \<in> rel_of r" for p q
  proof -
    from that obtain i j where ij: "(i, j) \<in> edges_of ?G" "t ! p = ?es ! i" "t ! q = ?es ! j" by (auto simp: rel_of_def)
    have "i < length ?es" "j < length ?es" using ij(1) edges_range [OF w] by auto
    moreover have "xs ! p < length ?es" "xs ! q < length ?es"
      using that(1,2) xs(1,3) l by (metis length_map nth_mem lessThan_iff)+
    ultimately have "xs ! p = i" "xs ! q = j" using ij(2,3) that d xs(1) by (auto simp: nth_eq_iff_index_eq)
    then have "xs ! q \<in> set (take p xs)" using xs(4) ij(1) that xs(1) by (auto simp: edges_of_def)
    then obtain m where "m < p" "m < length xs" "xs ! m = xs ! q" by (auto simp: in_set_conv_nth)
    then show "q < p" using xs(1,2) that by (simp add: nth_eq_iff_index_eq)
  qed
  moreover have "p < q" if "p < length t" "q < length t" "(rev t ! p, rev t ! q) \<in> rel_of r" for p q
    using order [of "length t - Suc p" "length t - Suc q"] that by (simp add: rev_nth) arith
  ultimately show ?thesis unfolding t(2) linear_extension_def by simp
qed

lemma linear_extension_trancl:
  assumes "R\<^sup>+ = S\<^sup>+" "linear_extension R s" "R \<subseteq> set s \<times> set s"
  shows "linear_extension S s"
proof -
  have "\<forall>p q. p < length s \<longrightarrow> q < length s \<longrightarrow> s ! p = a \<longrightarrow> s ! q = b \<longrightarrow> p < q" if "(a, b) \<in> R\<^sup>+" for a b
    by (rule linear_extension_trancl_less [OF assms(2,3) that])
  moreover have "S \<subseteq> R\<^sup>+" unfolding assms(1) by auto
  ultimately show ?thesis using assms(2) unfolding linear_extension_def by blast
qed

lemma topoSort_total:
  assumes "adj_wf r"
  shows "if acyclic (rel_of r) then (\<exists>s. topoSort r = Ok s) else topoSort r = Bug"
proof -
  let ?G = "nodeSucc r" let ?es = "elems r"
  have l: "length ?es = length ?G" and rng: "in_range ?G" using assms by (auto simp: adj_wf_def)
  have "(\<exists>v. rfold (dfs_root ?G (topo_client ?es)) [0..<length ?G] (dfs_init (length ?G), []) = Ok v) \<or>
    rfold (dfs_root ?G (topo_client ?es)) [0..<length ?G] (dfs_init (length ?G), []) = Bug \<and> \<not> acyclic (edges_of ?G)"
    by (rule topo_roots [OF rng l]) (auto simp: dfs_init_def)
  then have "(\<exists>s. topoSort r = Ok s) \<or> topoSort r = Bug \<and> \<not> acyclic (edges_of ?G)"
    by (auto simp: topoSort_def dfs_def topo_client_def)
  moreover have "acyclic (rel_of r)" if "topoSort r = Ok s" for s
    using topoSort_Ok_order [OF assms that] linear_extension_acyclic [of "rel_of r" s] rel_of_range [OF assms]
    by simp
  ultimately show ?thesis using acyclic_rel_of [OF assms] by auto
qed

text \<open>A sorting that \<open>topoSort()\<close> returns is a permutation of the elements in which every edge that was
  added leads forward.\<close>

theorem topoSort_sorts:
  assumes "distinct es" and "set ps \<subseteq> set es \<times> set es" and "rbind (adj_build es ps) topoSort = Ok s"
  shows "mset s = mset es \<and> (\<forall>(a, b) \<in> set ps. \<exists>p q. p < q \<and> q < length s \<and> s ! p = a \<and> s ! q = b)"
proof
  obtain r where r: "adj_build es ps = Ok r" "adj_wf r" "elems r = es" "(rel_of r)\<^sup>+ = (set ps)\<^sup>+"
    using adj_build_Ok [OF assms(1,2)] .
  then have run: "topoSort r = Ok s" using assms(3) by simp
  from topoSort_Ok_order [OF r(2) run] r(3) have le: "linear_extension (rel_of r) s" and st: "set s = set es" by auto
  show "mset s = mset es"
    using le st assms(1) by (simp add: linear_extension_def set_eq_iff_mset_eq_distinct)
  have le': "linear_extension (set ps) s"
    by (rule linear_extension_trancl [OF r(4) le]) (use rel_of_range [OF r(2)] st r(3) in simp)
  show "\<forall>(a, b) \<in> set ps. \<exists>p q. p < q \<and> q < length s \<and> s ! p = a \<and> s ! q = b"
  proof clarify
    fix a b assume ab: "(a, b) \<in> set ps"
    then have "a \<in> set s" "b \<in> set s" using assms(2) unfolding st by auto
    then obtain p q where pq: "p < length s" "s ! p = a" "q < length s" "s ! q = b" by (metis in_set_conv_nth)
    with le' ab have "p < q" unfolding linear_extension_def by blast
    with pq show "\<exists>p q. p < q \<and> q < length s \<and> s ! p = a \<and> s ! q = b" by blast
  qed
qed

theorem topoSort_sorts_witness:
  "mset [2, 0, 1 :: nat] = mset [0, 1, 2] \<and> (\<exists>p q. p < q \<and> q < 3 \<and> [2, 0, 1 :: nat] ! p = 2 \<and> [2, 0, 1 :: nat] ! q = 1)"
proof -
  have "rbind (adj_build [0, 1, 2 :: nat] [(0, 1), (2, 1)]) topoSort = Ok [2, 0, 1]" by code_simp
  from topoSort_sorts [OF _ _ this]
  have "(2, 1) \<in> set [(0, 1), (2, 1 :: nat)] \<longrightarrow> (\<exists>p q. p < q \<and> q < length [2, 0, 1 :: nat] \<and> [2, 0, 1 :: nat] ! p = 2 \<and> [2, 0, 1 :: nat] ! q = 1)"
    and "mset [2, 0, 1 :: nat] = mset [0, 1, 2]" by auto
  then show ?thesis by (simp add: numeral_3_eq_3)
qed

text \<open>\<open>topoSort()\<close> always ends: with a sorting when the edges that were added have no cycle, and
  otherwise with the \<open>BUG()\<close> of the callback for back edges.\<close>

theorem topoSort_ends:
  assumes "distinct es" and "set ps \<subseteq> set es \<times> set es"
  shows "if acyclic (set ps) then (\<exists>s. rbind (adj_build es ps) topoSort = Ok s) else rbind (adj_build es ps) topoSort = Bug"
proof -
  obtain r where r: "adj_build es ps = Ok r" "adj_wf r" "(rel_of r)\<^sup>+ = (set ps)\<^sup>+"
    using adj_build_Ok [OF assms] .
  then have "acyclic (rel_of r) = acyclic (set ps)" by (simp add: acyclic_def)
  then show ?thesis using topoSort_total [OF r(2)] r(1) by simp
qed

theorem topoSort_ends_witness:
  "if acyclic (set [(0, 1), (1, 0 :: nat)]) then (\<exists>s. rbind (adj_build [0, 1] [(0, 1), (1, 0 :: nat)]) topoSort = Ok s)
     else rbind (adj_build [0, 1] [(0, 1), (1, 0 :: nat)]) topoSort = Bug"
  by (rule topoSort_ends) simp_all

text \<open>C23: the search itself ends on every graph whose edges are in range: with any client whose callbacks
  return and keep a property of the client's state, \<open>dfs()\<close> returns and the property holds at the end.\<close>

theorem dfs_terminates:
  assumes "in_range G" and "returning (length G) cb I" and "\<forall>D s. I s \<longrightarrow> (\<exists>s'. atEnd cb D s = Ok s' \<and> I s')" and "I s"
  shows "\<exists>s'. dfs G cb s = Ok s' \<and> I s'"
  using dfs_returns [OF assms(1,2,4)] assms(3) by blast

theorem dfs_terminates_witness:
  "\<exists>n. dfs [[1, 2], [2], [0]] \<lparr>atEntryV = \<lambda>i D n. Ok (n + 1), atTreeE = \<lambda>i j D n. Ok n, atBackE = \<lambda>i j D n. Ok n,
     atForwE = \<lambda>i j D n. Ok n, atExitV = \<lambda>i D n. Ok n, atEnd = \<lambda>D n. Ok n\<rparr> (0 :: nat) = Ok n \<and> 0 \<le> n"
  by (rule dfs_terminates) (simp_all add: in_range_def returning_def less_Suc_eq numeral_3_eq_3)

end
