(* ===== verification/GenMC_AdjListSorts.thy ===== *)
theory GenMC_AdjListSorts
  imports GenMC_AdjListProps
begin

text \<open>
  \<open>allTopoSort()\<close> and \<open>combineAllTopoSort()\<close> of \<open>src/src/AdjList.tcc\<close>: the enumeration of the sortings of a
  relation without a cycle is complete, so that the answer is whether some linear extension satisfies the
  predicate.
\<close>

section \<open>Prefixes of sortings\<close>

definition preds_in :: "nat list list \<Rightarrow> nat set \<Rightarrow> nat \<Rightarrow> bool" where
  "preds_in G A j \<longleftrightarrow> (\<forall>i. (i, j) \<in> edges_of G \<longrightarrow> i \<in> A)"

definition prefix_ok :: "nat list list \<Rightarrow> nat list \<Rightarrow> bool" where
  "prefix_ok G c \<longleftrightarrow> distinct c \<and> set c \<subseteq> {..<length G} \<and> (\<forall>p < length c. preds_in G (set (take p c)) (c ! p))"

definition candidate :: "nat list list \<Rightarrow> nat list \<Rightarrow> nat \<Rightarrow> bool" where
  "candidate G c k \<longleftrightarrow> k < length G \<and> k \<notin> set c \<and> preds_in G (set c) k"

definition extends :: "nat list list \<Rightarrow> (nat list \<Rightarrow> bool) \<Rightarrow> nat list \<Rightarrow> bool" where
  "extends G Q c \<longleftrightarrow> (\<exists>d. prefix_ok G (c @ d) \<and> length (c @ d) = length G \<and> Q (c @ d))"

lemma prefix_ok_snoc: "prefix_ok G (c @ [k]) \<longleftrightarrow> prefix_ok G c \<and> candidate G c k"
  by (auto simp: prefix_ok_def candidate_def less_Suc_eq nth_append preds_in_def)

lemma prefix_ok_append: "prefix_ok G (c @ d) \<Longrightarrow> prefix_ok G c"
  by (induction d rule: rev_induct) (simp_all add: prefix_ok_snoc flip: append_assoc)

lemma prefix_ok_full:
  assumes "prefix_ok G c"
  shows "length c = length G \<longleftrightarrow> set c = {..<length G}"
  using assms unfolding prefix_ok_def
  by (metis card_lessThan card_subset_eq distinct_card finite_lessThan)

lemma extends_step:
  assumes "extends G Q c" "length c \<noteq> length G"
  obtains k where "candidate G c k" "extends G Q (c @ [k])"
proof -
  from assms obtain d where d: "prefix_ok G (c @ d)" "length (c @ d) = length G" "Q (c @ d)" by (auto simp: extends_def)
  then obtain k d' where "d = k # d'" using assms(2) by (cases d) auto
  then have "c @ d = (c @ [k]) @ d'" by simp
  then show ?thesis using that [of k] d prefix_ok_append [of G "c @ [k]" d'] unfolding extends_def
    by (metis prefix_ok_snoc)
qed

lemma extends_snoc: "extends G Q (c @ [k]) \<Longrightarrow> extends G Q c"
  unfolding extends_def by (metis append.assoc)

lemma extends_full: "prefix_ok G c \<Longrightarrow> length c = length G \<Longrightarrow> extends G Q c \<longleftrightarrow> Q c"
  by (auto simp: extends_def)

lemma acyclic_candidate:
  assumes "acyclic (edges_of G)" "in_range G" "prefix_ok G c" "length c \<noteq> length G"
  obtains k where "candidate G c k"
proof -
  have "edges_of G \<subseteq> {..<length G} \<times> {..<length G}" using assms(2) by (auto simp: edges_of_def in_range_def)
  then have "wf (edges_of G)" using assms(1) by (meson finite_SigmaI finite_acyclic_wf finite_lessThan finite_subset)
  moreover have "{..<length G} - set c \<noteq> {}" using assms(3,4) prefix_ok_full [OF assms(3)] by (auto simp: prefix_ok_def)
  ultimately obtain k where "k \<in> {..<length G} - set c" "\<And>i. (i, k) \<in> edges_of G \<Longrightarrow> i \<notin> {..<length G} - set c"
    by (meson wfE_min')
  then have "candidate G c k" unfolding candidate_def preds_in_def by (auto simp: edges_of_def)
  then show ?thesis using that by blast
qed

section \<open>The in-degrees that the recursion keeps\<close>

definition deg_of :: "nat list list \<Rightarrow> nat list \<Rightarrow> int list" where
  "deg_of G c = map (\<lambda>j. int (card {i. (i, j) \<in> edges_of G \<and> i \<notin> set c})) [0..<length G]"

lemma length_deg_of [simp]: "length (deg_of G c) = length G"
  by (simp add: deg_of_def)

lemma finite_preds: "finite {i. (i, j) \<in> edges_of G \<and> i \<notin> A}"
  by (rule finite_subset [of _ "{..<length G}"]) (auto simp: edges_of_def)

lemma deg_zero: "j < length G \<Longrightarrow> deg_of G c ! j = 0 \<longleftrightarrow> preds_in G (set c) j"
  using finite_preds [of j G "set c"] by (auto simp: deg_of_def preds_in_def)

lemma add_deg_Ok:
  "distinct js \<Longrightarrow> \<forall>j \<in> set js. j < length d \<Longrightarrow>
     add_deg k js d = Ok (map (\<lambda>j. d ! j + (if j \<in> set js then k else 0)) [0..<length d])"
proof (induction js arbitrary: d)
  case Nil
  then show ?case by (simp add: add_deg_def map_nth)
next
  case (Cons a js)
  have "add_deg k (a # js) d = add_deg k js (d[a := d ! a + k])"
    using Cons.prems by (simp add: add_deg_def)
  also have "\<dots> = Ok (map (\<lambda>j. d[a := d ! a + k] ! j + (if j \<in> set js then k else 0)) [0..<length d])"
    using Cons by simp
  finally show ?case using Cons.prems by (auto simp: nth_list_update)
qed

lemma add_deg_visit:
  assumes "in_range G" "i < length G" "distinct (G ! i)" "i \<notin> set c"
  shows "add_deg (- 1) (G ! i) (deg_of G c) = Ok (deg_of G (c @ [i]))"
    and "add_deg 1 (G ! i) (deg_of G (c @ [i])) = Ok (deg_of G c)"
proof -
  have r: "\<forall>j \<in> set (G ! i). j < length G" using assms unfolding in_range_def by blast
  have eq: "int (card {q. (q, j) \<in> edges_of G \<and> q \<notin> set c})
      = int (card {q. (q, j) \<in> edges_of G \<and> q \<notin> set (c @ [i])}) + (if j \<in> set (G ! i) then 1 else 0)" for j
  proof (cases "j \<in> set (G ! i)")
    case True
    then have "{q. (q, j) \<in> edges_of G \<and> q \<notin> set c} = insert i {q. (q, j) \<in> edges_of G \<and> q \<notin> set (c @ [i])}"
      using assms by (auto simp: edges_of_def)
    then show ?thesis using True finite_preds [of j G "set (c @ [i])"] by simp
  next
    case False
    then have "{q. (q, j) \<in> edges_of G \<and> q \<notin> set c} = {q. (q, j) \<in> edges_of G \<and> q \<notin> set (c @ [i])}"
      by (auto simp: edges_of_def)
    then show ?thesis using False by simp
  qed
  show "add_deg (- 1) (G ! i) (deg_of G c) = Ok (deg_of G (c @ [i]))"
    using add_deg_Ok [of "G ! i" "deg_of G c" "- 1"] assms(3) r eq by (simp add: deg_of_def)
  show "add_deg 1 (G ! i) (deg_of G (c @ [i])) = Ok (deg_of G c)"
    using add_deg_Ok [of "G ! i" "deg_of G (c @ [i])" 1] assms(3) r eq by (simp add: deg_of_def)
qed

section \<open>The enumeration\<close>

definition visited_of :: "nat list list \<Rightarrow> nat list \<Rightarrow> bool list" where
  "visited_of G c = map (\<lambda>i. i \<in> set c) [0..<length G]"

lemma visited_of_snoc: "i < length G \<Longrightarrow> (visited_of G c)[i := True] = visited_of G (c @ [i])"
  by (rule nth_equalityI) (auto simp: visited_of_def nth_list_update)

lemma visited_of_undo: "i < length G \<Longrightarrow> i \<notin> set c \<Longrightarrow> (visited_of G (c @ [i]))[i := False] = visited_of G c"
  by (rule nth_equalityI) (auto simp: visited_of_def nth_list_update)

definition topo_at :: "'a AdjList \<Rightarrow> nat list \<Rightarrow> 's \<Rightarrow> ('a, 's) Topo" where
  "topo_at r c u = \<lparr>tcurrent = map ((!) (elems r)) c, tinDegree = deg_of (nodeSucc r) c, tfound = False, tstate = u\<rparr>"

text \<open>What a call at a prefix returns: whether the prefix extends to a sorting with the property, and
  the structures as they were when it does not.\<close>

definition topo_result :: "'a AdjList \<Rightarrow> (nat list \<Rightarrow> bool) \<Rightarrow> nat list \<Rightarrow> 's \<Rightarrow> ('a, 's) Topo res \<Rightarrow> bool" where
  "topo_result r Q c u R \<longleftrightarrow> (\<exists>T. R = Ok T \<and> tfound T = extends (nodeSucc r) Q c \<and>
     (\<not> tfound T \<longrightarrow> T = topo_at r c u))"

declare allTopoSortUtil.simps [simp del] allTopoSort_loop.simps [simp del]

lemma allTopoSort_both:
  fixes r :: "'a AdjList"
  assumes w: "adj_wf r" and acyc: "acyclic (edges_of (nodeSucc r))"
    and Q: "Q = (\<lambda>c. P (map ((!) (elems r)) c))" and pr: "\<And>s. \<exists>u'. pr s u = Ok (P s, u') \<and> (\<not> P s \<longrightarrow> u' = u)"
  shows "r' = r \<Longrightarrow> pr' = pr \<Longrightarrow> prefix_ok (nodeSucc r) c \<Longrightarrow> v = visited_of (nodeSucc r) c \<Longrightarrow> T = topo_at r c u \<Longrightarrow>
      topo_result r Q c u (allTopoSortUtil r' pr' v T)"
    and "r' = r \<Longrightarrow> pr' = pr \<Longrightarrow> prefix_ok (nodeSucc r) c \<Longrightarrow> v = visited_of (nodeSucc r) c \<Longrightarrow> T = topo_at r c u \<Longrightarrow>
      b = (\<exists>k < i. candidate (nodeSucc r) c k) \<Longrightarrow> \<forall>k < i. candidate (nodeSucc r) c k \<longrightarrow> \<not> extends (nodeSucc r) Q (c @ [k]) \<Longrightarrow>
      i \<le> length (elems r) \<Longrightarrow> topo_result r Q c u (allTopoSort_loop r' pr' v b i T)"
proof (induction r' pr' v T and r' pr' v b i T arbitrary: c and c rule: allTopoSortUtil_allTopoSort_loop.induct)
  case (1 r' pr' v T)
  have "\<not> tfound T" using "1.prems" by (simp add: topo_at_def)
  then show ?case using "1.IH" [of c] "1.prems" by (simp add: allTopoSortUtil.simps)
next
  case (2 r' pr' v b i T)
  let ?G = "nodeSucc r"
  note [simp] = "2.prems"(1,2)
  have l: "length ?G = length (elems r)" and rng: "in_range ?G" and d: "\<And>i. i < length ?G \<Longrightarrow> distinct (?G ! i)"
    using w by (auto simp: adj_wf_def)
  show ?case
  proof (cases "i < length (elems r)")
    case True
    then have i': "i < length (elems r')" by simp
    have look: "vec_get (tinDegree T) i = Ok (deg_of ?G c ! i)" "vec_get v i = Ok (i \<in> set c)"
      using True l "2.prems" by (simp_all add: topo_at_def visited_of_def)
    have cand: "deg_of ?G c ! i = 0 \<and> i \<notin> set c \<longleftrightarrow> candidate ?G c i"
      using True l deg_zero [of i ?G c] by (auto simp: candidate_def)
    show ?thesis
    proof (cases "candidate ?G c i")
      case False
      have "topo_result r Q c u (allTopoSort_loop r pr v b (Suc i) T)"
        using False cand "2.prems" True by (intro "2.IH"(3) [OF i' look, simplified]) (auto simp: less_Suc_eq)
      then show ?thesis using True look False cand by (subst allTopoSort_loop.simps) auto
    next
      case cd: True
      then have ni: "i \<notin> set c" by (simp add: candidate_def)
      let ?T = "T\<lparr>tinDegree := deg_of ?G (c @ [i]), tcurrent := tcurrent T @ [elems r' ! i]\<rparr>"
      have deg: "add_deg (- 1) (?G ! i) (tinDegree T) = Ok (deg_of ?G (c @ [i]))"
          "add_deg 1 (?G ! i) (deg_of ?G (c @ [i])) = Ok (deg_of ?G c)"
        using add_deg_visit [OF rng _ d ni] True l "2.prems" by (simp_all add: topo_at_def)
      have "topo_result r Q (c @ [i]) u (allTopoSortUtil r' pr' (v[i := True]) ?T)"
        using cd cand True l "2.prems" deg
        by (intro "2.IH"(1) [OF i' look]) (auto simp: prefix_ok_snoc visited_of_snoc topo_at_def)
      then obtain T1 where T1: "allTopoSortUtil r pr (v[i := True]) ?T = Ok T1" "tfound T1 = extends ?G Q (c @ [i])"
        "\<not> tfound T1 \<longrightarrow> T1 = topo_at r (c @ [i]) u" by (auto simp: topo_result_def)
      show ?thesis
      proof (cases "tfound T1")
        case f: True
        then have "extends ?G Q c" using T1 extends_snoc by metis
        then show ?thesis using True look cd cand T1 f l deg by (subst allTopoSort_loop.simps) (simp add: topo_result_def)
      next
        case f: False
        then have T1': "T1 = topo_at r (c @ [i]) u" using T1 by simp
        let ?T1 = "T1\<lparr>tcurrent := butlast (tcurrent T1), tinDegree := deg_of ?G c\<rparr>"
        have "topo_result r Q c u (allTopoSort_loop r' pr' (v[i := True, i := False]) True (Suc i) ?T1)"
          using cd cand True l "2.prems" deg T1 f
          by (intro "2.IH"(2) [OF i' look]) (auto simp: visited_of_snoc visited_of_undo ni topo_at_def less_Suc_eq)
        then show ?thesis using True look cd cand T1 f l deg T1' by (subst allTopoSort_loop.simps) (simp add: topo_at_def)
      qed
    qed
  next
    case False
    then have i: "i = length ?G" using "2.prems" l by simp
    show ?thesis
    proof (cases b)
      case True
      then obtain k where k: "candidate ?G c k" using "2.prems" by blast
      then have "length c \<noteq> length ?G" using prefix_ok_full [OF "2.prems"(3)] by (auto simp: candidate_def)
      then have "\<not> extends ?G Q c" using "2.prems"(7) i by (metis extends_step candidate_def)
      then show ?thesis using False True "2.prems" by (subst allTopoSort_loop.simps) (simp add: topo_result_def topo_at_def)
    next
      case nb: False
      then have full: "length c = length ?G" using "2.prems" i acyclic_candidate [OF acyc rng "2.prems"(3)]
        by (metis candidate_def)
      then show ?thesis using False nb "2.prems" extends_full [OF "2.prems"(3)]
        using pr [of "map ((!) (elems r)) c"]
        by (subst allTopoSort_loop.simps) (auto simp: topo_result_def topo_at_def Q)
    qed
  qed
qed

section \<open>Sortings of the elements\<close>

lemma rel_of_iff:
  assumes "adj_wf r" "i < length (elems r)" "j < length (elems r)"
  shows "(elems r ! i, elems r ! j) \<in> rel_of r \<longleftrightarrow> (i, j) \<in> edges_of (nodeSucc r)"
proof
  assume "(elems r ! i, elems r ! j) \<in> rel_of r"
  then obtain i' j' where *: "(i', j') \<in> edges_of (nodeSucc r)" "elems r ! i = elems r ! i'" "elems r ! j = elems r ! j'"
    by (auto simp: rel_of_def)
  moreover have "i' < length (elems r)" "j' < length (elems r)" using edges_range [OF assms(1)] *(1) by auto
  ultimately show "(i, j) \<in> edges_of (nodeSucc r)" using assms by (auto simp: adj_wf_def nth_eq_iff_index_eq)
qed (force simp: rel_of_def)

lemma prefix_ok_linear:
  assumes w: "adj_wf r" and d: "distinct d" "set d = {..<length (elems r)}"
  shows "prefix_ok (nodeSucc r) d \<longleftrightarrow> linear_extension (rel_of r) (map ((!) (elems r)) d)"
proof -
  let ?G = "nodeSucc r" let ?es = "elems r"
  have l: "length ?G = length ?es" and de: "distinct ?es" using w by (auto simp: adj_wf_def)
  have lt: "p < length d \<Longrightarrow> d ! p < length ?es" for p using d(2) nth_mem by blast
  have E: "i < length ?es" if "(i, j) \<in> edges_of ?G" for i j using edges_range [OF w] that by auto
  have take: "d ! p \<in> set (take q d) \<longleftrightarrow> p < q" if "p < length d" "q < length d" for p q
    using that d(1) by (auto simp: in_set_conv_nth nth_eq_iff_index_eq)
  have inj: "inj_on ((!) ?es) (set d)" using d(2) de by (auto simp: inj_on_def nth_eq_iff_index_eq)
  then have dm: "distinct (map ((!) ?es) d)" using d(1) by (simp add: distinct_map)
  have "prefix_ok ?G d \<longleftrightarrow> (\<forall>q < length d. \<forall>i. (i, d ! q) \<in> edges_of ?G \<longrightarrow> i \<in> set (take q d))"
    using d l by (auto simp: prefix_ok_def preds_in_def)
  also have "\<dots> \<longleftrightarrow> (\<forall>q < length d. \<forall>p < length d. (d ! p, d ! q) \<in> edges_of ?G \<longrightarrow> p < q)"
    using E d(2) take by (metis in_set_conv_nth lessThan_iff)
  also have "\<dots> \<longleftrightarrow> linear_extension (rel_of r) (map ((!) ?es) d)"
    using dm lt rel_of_iff [OF w] unfolding linear_extension_def by auto
  finally show ?thesis .
qed

lemma extends_linear:
  assumes w: "adj_wf r"
  shows "extends (nodeSucc r) (\<lambda>c. P (map ((!) (elems r)) c)) [] \<longleftrightarrow>
    (\<exists>s. linear_extension (rel_of r) s \<and> set s = set (elems r) \<and> P s)" (is "?L \<longleftrightarrow> ?R")
proof
  let ?es = "elems r"
  have l: "length (nodeSucc r) = length ?es" and de: "distinct ?es" using w by (auto simp: adj_wf_def)
  { assume ?L
    then obtain d where d: "prefix_ok (nodeSucc r) d" "length d = length ?es" "P (map ((!) ?es) d)" using l by (auto simp: extends_def)
    then have s: "distinct d" "set d = {..<length ?es}" using prefix_ok_full [OF d(1)] l by (auto simp: prefix_ok_def)
    then have "set (map ((!) ?es) d) = set ?es" by (auto simp: set_conv_nth [of ?es])
    then show ?R using prefix_ok_linear [OF w s] d by blast }
  { assume ?R
    then obtain s where s: "linear_extension (rel_of r) s" "set s = set ?es" "P s" by blast
    let ?d = "map (\<lambda>a. the (ids r a)) s"
    have id: "the (ids r a) < length ?es \<and> ?es ! the (ids r a) = a" if "a \<in> set s" for a
    proof -
      from that s(2) obtain i where "i < length ?es" "?es ! i = a" by (metis in_set_conv_nth)
      then have "ids r a = Some i" using w by (simp add: adj_wf_def)
      then show ?thesis using \<open>i < length ?es\<close> \<open>?es ! i = a\<close> by simp
    qed
    then have ms: "map ((!) ?es) ?d = s" by (simp add: map_idI)
    have "distinct s" using s(1) by (simp add: linear_extension_def)
    then have dd: "distinct ?d" using ms by (metis distinct_map)
    have len: "length ?d = length ?es" using \<open>distinct s\<close> de s(2) by (metis distinct_card length_map)
    have "set ?d \<subseteq> {..<length ?es}" using id by auto
    then have sd: "set ?d = {..<length ?es}" using dd len by (metis card_lessThan card_subset_eq distinct_card finite_lessThan)
    have "prefix_ok (nodeSucc r) ?d" using prefix_ok_linear [OF w dd sd] s(1) ms by simp
    then show ?L unfolding extends_def using len l s(3) ms by (intro exI [of _ ?d]) simp }
qed

lemma allTopoSort_answer:
  assumes w: "adj_wf r" and acyc: "acyclic (rel_of r)" and pr: "\<And>s. \<exists>u'. pr s u = Ok (P s, u') \<and> (\<not> P s \<longrightarrow> u' = u)"
  obtains u' where "allTopoSort r pr u = Ok ((\<exists>s. linear_extension (rel_of r) s \<and> set s = set (elems r) \<and> P s), u')"
    "(\<exists>s. linear_extension (rel_of r) s \<and> set s = set (elems r) \<and> P s) \<or> u' = u"
proof -
  let ?Q = "\<lambda>c. P (map ((!) (elems r)) c)"
  have l: "length (nodeSucc r) = length (elems r)" using w by (simp add: adj_wf_def)
  have "inDegree r = deg_of (nodeSucc r) []"
    using w by (intro nth_equalityI) (auto simp: adj_wf_def deg_of_def)
  moreover have "replicate (length (elems r)) False = visited_of (nodeSucc r) []"
    using l by (intro nth_equalityI) (auto simp: visited_of_def)
  moreover have "topo_result r ?Q [] u (allTopoSortUtil r pr (visited_of (nodeSucc r) []) (topo_at r [] u))"
    by (rule allTopoSort_both(1) [where pr = pr and P = P, OF w _ refl pr])
      (use acyc acyclic_rel_of [OF w] in \<open>auto simp: prefix_ok_def\<close>)
  moreover then obtain T where T: "allTopoSortUtil r pr (visited_of (nodeSucc r) []) (topo_at r [] u) = Ok T"
    "tfound T = extends (nodeSucc r) ?Q []" "tfound T \<or> T = topo_at r [] u" unfolding topo_result_def by blast
  ultimately have "allTopoSort r pr u = Ok (tfound T, tstate T)" by (simp add: allTopoSort_def topo_at_def)
  moreover have "tfound T \<or> tstate T = u" using T(3) by (auto simp: topo_at_def)
  ultimately show ?thesis using extends_linear [OF w, of P] that [of "tstate T"] T(2) by simp
qed

text \<open>C24: on a relation without a cycle \<open>allTopoSort()\<close> decides whether some sorting of the elements that
  respects every edge satisfies the predicate: the backtracking over \<open>visited\<close>, \<open>current\<close> and the
  in-degrees misses none and invents none.\<close>

theorem allTopoSort_complete:
  assumes "distinct es" and "set ps \<subseteq> set es \<times> set es" and "acyclic (set ps)"
  shows "rbind (adj_build es ps) (\<lambda>r. allTopoSort r (\<lambda>s u. Ok (P s, u)) ())
    = Ok ((\<exists>s. linear_extension (set ps) s \<and> set s = set es \<and> P s), ())"
proof -
  obtain r where r: "adj_build es ps = Ok r" "adj_wf r" "elems r = es" "(rel_of r)\<^sup>+ = (set ps)\<^sup>+"
    using adj_build_Ok [OF assms(1,2)] .
  then have ac: "acyclic (rel_of r)" using assms(3) by (simp add: acyclic_def)
  have "linear_extension (rel_of r) s \<longleftrightarrow> linear_extension (set ps) s" if "set s = set es" for s
    using linear_extension_trancl [OF r(4), of s] linear_extension_trancl [OF r(4) [symmetric], of s]
      rel_of_range [OF r(2)] r(3) that assms(2) by auto
  then have eq: "(\<exists>s. linear_extension (rel_of r) s \<and> set s = set (elems r) \<and> P s) \<longleftrightarrow>
      (\<exists>s. linear_extension (set ps) s \<and> set s = set es \<and> P s)" using r(3) by auto
  have "allTopoSort r (\<lambda>s u. Ok (P s, u)) () = Ok ((\<exists>s. linear_extension (rel_of r) s \<and> set s = set (elems r) \<and> P s), ())"
    by (rule allTopoSort_answer [OF r(2) ac, of "\<lambda>s u. Ok (P s, u)" "()" P]) simp_all
  then show ?thesis using r(1) unfolding eq by simp
qed

theorem allTopoSort_complete_witness:
  "rbind (adj_build [0, 1, 2 :: nat] [(0, 1), (1, 2)]) (\<lambda>r. allTopoSort r (\<lambda>s u. Ok (hd s = 0, u)) ())
    = Ok ((\<exists>s. linear_extension (set [(0, 1), (1, 2)]) s \<and> set s = set [0, 1, 2 :: nat] \<and> hd s = 0), ())"
proof (rule allTopoSort_complete)
  show "acyclic (set [(0, 1), (1, 2 :: nat)])"
    by (rule acyclic_subset [OF wf_acyclic [OF wf_less]]) auto
qed simp_all

section \<open>One sorting of every relation\<close>

definition sortings :: "'a AdjList list \<Rightarrow> 'a list list \<Rightarrow> bool" where
  "sortings = list_all2 (\<lambda>r s. linear_extension (rel_of r) s \<and> set s = set (elems r))"

declare combineAllTopoSortUtil.simps [simp del]

lemma combine_both:
  assumes "\<forall>r \<in> set rs. adj_wf r \<and> acyclic (rel_of r)"
  shows "index \<le> length rs \<Longrightarrow> \<exists>S'. combineAllTopoSortUtil rs (\<lambda>ss u. Ok (P ss, u)) index (cur, False, ())
      = Ok ((\<exists>ss. sortings (drop index rs) ss \<and> P (cur @ ss)), S') \<and>
    ((\<exists>ss. sortings (drop index rs) ss \<and> P (cur @ ss)) \<or> S' = (cur, False, ()))"
proof (induction "length rs - index" arbitrary: index cur)
  case 0
  then have [simp]: "index = length rs" by simp
  show ?case by (subst combineAllTopoSortUtil.simps) (auto simp: sortings_def)
next
  case (Suc n)
  then have i: "index < length rs" by simp
  have n: "n = length rs - Suc index" using Suc.hyps(2) by simp
  let ?r = "rs ! index"
  let ?B = "\<lambda>s. \<exists>ss. sortings (drop (Suc index) rs) ss \<and> P ((cur @ [s]) @ ss)"
  let ?pr = "\<lambda>sorting S1. rbind (combineAllTopoSortUtil rs (\<lambda>ss u. Ok (P ss, u)) (Suc index) (fst S1 @ [sorting], snd S1)) (\<lambda>(b, S2).
               if b then Ok (True, S2) else Ok (False, butlast (fst S2), snd S2))"
  have w: "adj_wf ?r" "acyclic (rel_of ?r)" using assms i by auto
  have "\<exists>u'. ?pr s (cur, False, ()) = Ok (?B s, u') \<and> (\<not> ?B s \<longrightarrow> u' = (cur, False, ()))" for s
  proof -
    obtain S' where S': "combineAllTopoSortUtil rs (\<lambda>ss u. Ok (P ss, u)) (Suc index) (cur @ [s], False, ()) = Ok (?B s, S')"
      "?B s \<or> S' = (cur @ [s], False, ())"
      using Suc.hyps(1) [OF n, of "cur @ [s]"] i by auto
    then show ?thesis by (intro exI [of _ "if ?B s then S' else (cur, False, ())"]) auto
  qed
  then obtain u' where u': "allTopoSort ?r ?pr (cur, False, ())
      = Ok ((\<exists>s. linear_extension (rel_of ?r) s \<and> set s = set (elems ?r) \<and> ?B s), u')"
    "(\<exists>s. linear_extension (rel_of ?r) s \<and> set s = set (elems ?r) \<and> ?B s) \<or> u' = (cur, False, ())"
    by (rule allTopoSort_answer [OF w])
  have "(\<exists>ss. sortings (drop index rs) ss \<and> P (cur @ ss)) \<longleftrightarrow> (\<exists>s. linear_extension (rel_of ?r) s \<and> set s = set (elems ?r) \<and> ?B s)"
    unfolding Cons_nth_drop_Suc [OF i, symmetric] sortings_def list_all2_Cons1 by (auto 4 4)
  then show ?case using u' i by (subst combineAllTopoSortUtil.simps) simp
qed

text \<open>\<open>combineAllTopoSort()\<close> decides whether one sorting of each of the relations can be chosen so that
  the predicate holds of them together.\<close>

lemma combineAllTopoSort_complete:
  assumes "\<forall>r \<in> set rs. adj_wf r \<and> acyclic (rel_of r)"
  shows "combineAllTopoSort rs (\<lambda>ss u. Ok (P ss, u)) () = Ok (\<exists>ss. sortings rs ss \<and> P ss, ())"
  using combine_both [OF assms, of 0 P "[]"] by (auto simp: combineAllTopoSort_def)

text \<open>A cyclic relation: the callback sees a sequence that is no sorting.\<close>

lemma allTopoSort_cyclic:
  "rbind (adj_build [0, 1 :: nat] [(0, 1), (1, 0)]) (\<lambda>r.
     allTopoSort r (\<lambda>s u. Ok (s = [], u)) ()) = Ok (True, ())"
  by code_simp

end
