(* ===== verification/GenMC_Revisit.thy ===== *)
theory GenMC_Revisit
  imports GenMC_GraphOps
begin

text \<open>
  Revisits: the work items of the exploration (\<open>src/src/Revisit.hpp\<close>), the sets that hold them
  (\<open>src/src/WorkSet.hpp\<close>, \<open>src/src/RevisitSet.cpp\<close>), and what a graph answers about a revisit
  (\<open>src/src/ExecutionGraph.cpp\<close>, \<open>src/src/DepExecutionGraph.cpp\<close>). The class of the graph and its flag
  for barriers are a parameter of the functions that are virtual or that read the flag.
\<close>

section \<open>Work items\<close>

text \<open>The saved prefix and the saved coherence placings of a backward revisit are empty in every
  revisit the tool constructs, so the model leaves them out.\<close>

datatype Revisit =
    ForwardRevisit Event Event bool
  | BackwardRevisit Event Event
  | BackwardRevisitHELPER Event Event Event
  | WriteRevisit Event int
  | OptionalRevisit Event

fun rv_pos :: "Revisit \<Rightarrow> Event" where
  "rv_pos (ForwardRevisit p r m) = p"
| "rv_pos (BackwardRevisit p r) = p"
| "rv_pos (BackwardRevisitHELPER p r m) = p"
| "rv_pos (WriteRevisit p k) = p"
| "rv_pos (OptionalRevisit p) = p"

text \<open>The kinds, by their position in the enum, and the class tests.\<close>

fun rv_kind :: "Revisit \<Rightarrow> nat" where
  "rv_kind (ForwardRevisit p r m) = 1"
| "rv_kind (BackwardRevisit p r) = 3"
| "rv_kind (BackwardRevisitHELPER p r m) = 4"
| "rv_kind (WriteRevisit p k) = 7"
| "rv_kind (OptionalRevisit p) = 8"

definition isa_ReadRevisit :: "Revisit \<Rightarrow> bool" where
  "isa_ReadRevisit r \<longleftrightarrow> 0 \<le> rv_kind r \<and> rv_kind r \<le> 6"

definition isa_ForwardRevisit :: "Revisit \<Rightarrow> bool" where
  "isa_ForwardRevisit r \<longleftrightarrow> 1 \<le> rv_kind r \<and> rv_kind r \<le> 2"

definition isa_BackwardRevisit :: "Revisit \<Rightarrow> bool" where
  "isa_BackwardRevisit r \<longleftrightarrow> 3 \<le> rv_kind r \<and> rv_kind r \<le> 5"

definition rv_rev :: "Revisit \<Rightarrow> Event res" where
  "rv_rev r = (case r of ForwardRevisit p e m \<Rightarrow> Ok e | BackwardRevisit p e \<Rightarrow> Ok e
     | BackwardRevisitHELPER p e m \<Rightarrow> Ok e | _ \<Rightarrow> Undef)"

definition rv_mid :: "Revisit \<Rightarrow> Event option" where
  "rv_mid r = (case r of BackwardRevisitHELPER p e m \<Rightarrow> Some m | _ \<Rightarrow> None)"

section \<open>Work sets and revisit sets\<close>

type_synonym WorkSet = "Revisit list"

definition workset_add :: "Revisit \<Rightarrow> WorkSet \<Rightarrow> WorkSet" where
  "workset_add r w = w @ [r]"

definition workset_getNext :: "WorkSet \<Rightarrow> (Revisit \<times> WorkSet) res" where
  "workset_getNext w = (if w = [] then Undef else Ok (last w, butlast w))"

text \<open>The hash of a prefix comes from LLVM and is a parameter.\<close>

type_synonym RevisitItem = "Event list \<times> (Event \<times> Event) list"

type_synonym RevisitSet = "nat \<rightharpoonup> RevisitItem list"

definition revset_add :: "(Event list \<Rightarrow> nat) \<Rightarrow> RevisitItem \<Rightarrow> RevisitSet \<Rightarrow> RevisitSet" where
  "revset_add hash it rs =
     (let h = hash (fst it) in rs(h \<mapsto> (case rs h of None \<Rightarrow> [] | Some b \<Rightarrow> b) @ [it]))"

definition revset_contains :: "(Event list \<Rightarrow> nat) \<Rightarrow> RevisitItem \<Rightarrow> RevisitSet \<Rightarrow> bool" where
  "revset_contains hash it rs =
     (case rs (hash (fst it)) of None \<Rightarrow> False
      | Some b \<Rightarrow> (\<exists>p \<in> set b. fst p = fst it \<and> snd p = snd it))"

section \<open>The class of a graph\<close>

record GraphKind =
  tracksDeps :: bool
  bam :: bool

definition hasBAM :: "GraphKind \<Rightarrow> bool" where "hasBAM cf = bam cf"

text \<open>Loops with an early return of a boolean.\<close>

fun rany :: "('a \<Rightarrow> bool res) \<Rightarrow> 'a list \<Rightarrow> bool res" where
  "rany P [] = Ok False"
| "rany P (x # xs) = rbind (P x) (\<lambda>b. if b then Ok True else rany P xs)"

fun rfilter :: "('a \<Rightarrow> bool res) \<Rightarrow> 'a list \<Rightarrow> 'a list res" where
  "rfilter P [] = Ok []"
| "rfilter P (x # xs) = rbind (P x) (\<lambda>b. rbind (rfilter P xs) (\<lambda>ys. Ok (if b then x # ys else ys)))"

definition getPrefixView :: "GraphKind \<Rightarrow> ExecutionGraph \<Rightarrow> Event \<Rightarrow> VectorClock res" where
  "getPrefixView cf g e = rbind (getEventLabel g e) (\<lambda>l.
     Ok (if tracksDeps cf then VC_DepView (pporfView l) else VC_View (porfView l)))"

definition getPredsViewVC :: "GraphKind \<Rightarrow> ExecutionGraph \<Rightarrow> Event \<Rightarrow> VectorClock res" where
  "getPredsViewVC cf g e =
     (if tracksDeps cf
      then rbind (getEventLabel g e) (\<lambda>l. rbind (getDepViewFromStamp g (lstamp l)) (\<lambda>d. Ok (VC_DepView d)))
      else rbind (getPredsView g e) (\<lambda>v. Ok (VC_View v)))"

section \<open>Queries with a condition\<close>

definition getPreviousLabelST :: "ExecutionGraph \<Rightarrow> EventLabel \<Rightarrow> (EventLabel \<Rightarrow> bool res) \<Rightarrow> EventLabel option res" where
  "getPreviousLabelST g l cond = scan g (ethread (lpos l)) (rev [0..eindex (lpos l) - 1]) cond"

definition collectAllEvents :: "ExecutionGraph \<Rightarrow> (EventLabel \<Rightarrow> bool) \<Rightarrow> Event list" where
  "collectAllEvents g cond = concat (map (\<lambda>i. map (\<lambda>j. Event (int i) (int j))
     (filter (\<lambda>j. cond (events g ! i ! j)) [0..<length (events g ! i)])) [0..<numThreads g])"

definition isConfirming :: "EventLabel \<Rightarrow> bool" where
  "isConfirming l \<longleftrightarrow> lkind l = EL_ConfirmingRead \<or> lkind l = EL_ConfirmingCasRead"

definition isOptBlockedRead :: "ExecutionGraph \<Rightarrow> EventLabel \<Rightarrow> bool res" where
  "isOptBlockedRead g l =
     (if \<not> isa_Read (lkind l) then Ok False
      else rbind (getLastThreadEvent g (ethread (lpos l))) (\<lambda>e.
        if e \<noteq> next_ev (lpos l) then Ok False
        else rbind (getNextLabel g (lpos l)) (\<lambda>n. rbind (deref n) (\<lambda>b.
          Ok (lkind b = EL_Block \<and> lblock b = ReadOptBlock)))))"

definition isHbOptRfBeforeInView :: "ExecutionGraph \<Rightarrow> Event \<Rightarrow> Event \<Rightarrow> VectorClock \<Rightarrow> bool res" where
  "isHbOptRfBeforeInView g e write v = rbind (getEventLabel g write) (\<lambda>s.
     rbind (BUG_ON (\<not> isa_Write (lkind s))) (\<lambda>_.
     rbind (view_contains (hbView s) e) (\<lambda>b. if b then Ok True
       else rany (\<lambda>r. rbind (vc_contains v r) (\<lambda>c. if \<not> c \<or> r = e then Ok False
              else rbind (getEventLabel g r) (\<lambda>l. view_contains (hbView l) e))) (lreaders s))))"

section \<open>The graph after a revisit\<close>

text \<open>Clocks with holes: the prefix also needs the writes of the same thread that its reads read.\<close>

definition prefix_rfi :: "ExecutionGraph \<Rightarrow> Event \<Rightarrow> DepView \<Rightarrow> DepView res" where
  "prefix_rfi g e p = rbind (getEventLabel g e) (\<lambda>l.
     if isa_Read (lkind l) \<and> dv_contains p (lpos l) \<and> \<not> dv_contains p (lrf l) \<and> ethread (lrf l) = ethread (lpos l)
     then dv_removeHole p (lrf l) else Ok p)"

definition updatePredsWithPrefixView :: "ExecutionGraph \<Rightarrow> DepView \<Rightarrow> DepView \<Rightarrow> DepView res" where
  "updatePredsWithPrefixView g preds pporf = rbind (dv_update preds pporf) (\<lambda>p.
     rfold (\<lambda>i. rfold (\<lambda>j. prefix_rfi g (Event (int i) j)) [1..view_at (dv_view pporf) i]) [0..<dv_size pporf] p)"

definition getRevisitView :: "GraphKind \<Rightarrow> ExecutionGraph \<Rightarrow> Revisit \<Rightarrow> VectorClock res" where
  "getRevisitView cf g r =
     rbind (getReadLabel g (rv_pos r)) (\<lambda>rl. rbind (deref rl) (\<lambda>rLab.
     rbind (if tracksDeps cf then rbind (getDepViewFromStamp g (lstamp rLab)) (\<lambda>d. Ok (VC_DepView d))
            else Ok (VC_View (getViewFromStamp g (lstamp rLab)))) (\<lambda>preds.
     let add = (\<lambda>e p. rbind (getWriteLabel g e) (\<lambda>wl. rbind (deref wl) (\<lambda>w.
            case p of VC_DepView d \<Rightarrow> rbind (updatePredsWithPrefixView g d (pporfView w)) (\<lambda>d'. Ok (VC_DepView d'))
              | VC_View v \<Rightarrow> Ok (VC_View (view_update v (porfView w))))))
     in rbind (rv_rev r) (\<lambda>rev. rbind (add rev preds) (\<lambda>p.
          case rv_mid r of None \<Rightarrow> Ok p | Some m \<Rightarrow> add m p)))))"

definition any_reader_in :: "DepView \<Rightarrow> EventLabel \<Rightarrow> bool" where
  "any_reader_in v w \<longleftrightarrow> (\<exists>r \<in> set (lreaders w). dv_contains v r)"

definition isFixedHoleInView :: "ExecutionGraph \<Rightarrow> EventLabel \<Rightarrow> DepView \<Rightarrow> bool res" where
  "isFixedHoleInView g l v =
     (if isa_Write (lkind l) then Ok (any_reader_in v l)
      else if \<not> isa_Read (lkind l) then Ok False
      else rbind (rany (\<lambda>i. rany (\<lambda>j. if \<not> dv_contains v (Event (int i) j) then Ok False
               else rbind (getReadLabel g (Event (int i) j)) (\<lambda>m. Ok (case m of None \<Rightarrow> False
                 | Some k \<Rightarrow> laddr k = laddr l \<and> lrf k = lrf l)))
             [0..view_at (dv_view v) i]) [0..<dv_size v]) (\<lambda>b.
        if b then Ok True
        else rbind (isRMWLoad g l) (\<lambda>rmw.
          if \<not> rmw then Ok False
          else rbind (getWriteLabel g (next_ev (lpos l))) (\<lambda>w. rbind (deref w) (\<lambda>wl. Ok (any_reader_in v wl))))))"

definition prefixContainsSameLoc :: "GraphKind \<Rightarrow> ExecutionGraph \<Rightarrow> Revisit \<Rightarrow> EventLabel \<Rightarrow> bool res" where
  "prefixContainsSameLoc cf g r l =
     (if \<not> tracksDeps cf then Ok False
      else let part = (\<lambda>e. rbind (getWriteLabel g e) (\<lambda>wl. rbind (deref wl) (\<lambda>w.
             rbind (view_get (dv_view (pporfView w)) (ethread (lpos l))) (\<lambda>k.
               if eindex (lpos l) \<le> k then isFixedHoleInView g l (pporfView w) else Ok False))))
           in rbind (rv_rev r) (\<lambda>rev. rbind (part rev) (\<lambda>b. if b then Ok True
                else case rv_mid r of None \<Rightarrow> Ok False | Some m \<Rightarrow> part m)))"

definition prefixContainsMatchingLock :: "GraphKind \<Rightarrow> ExecutionGraph \<Rightarrow> Revisit \<Rightarrow> EventLabel \<Rightarrow> bool res" where
  "prefixContainsMatchingLock cf g r l =
     (if lkind l \<noteq> EL_UnlockWrite then Ok False
      else rbind (getMatchingLock g (lpos l)) (\<lambda>k. if isInitializer k then Ok False
        else let part = (\<lambda>e. rbind (getPrefixView cf g e) (\<lambda>v. vc_contains v k))
             in rbind (rv_rev r) (\<lambda>rev. rbind (part rev) (\<lambda>b. if b then Ok True
                  else case rv_mid r of None \<Rightarrow> Ok False | Some m \<Rightarrow> part m))))"

definition revisitDeletesEvent :: "GraphKind \<Rightarrow> ExecutionGraph \<Rightarrow> Revisit \<Rightarrow> EventLabel \<Rightarrow> bool res" where
  "revisitDeletesEvent cf g r l = rbind (getRevisitView cf g r) (\<lambda>v. rbind (vc_contains v (lpos l)) (\<lambda>b.
     if b then Ok False else rbind (prefixContainsSameLoc cf g r l) (\<lambda>c. Ok (\<not> c))))"

definition hasBeenRevisitedByDeleted :: "GraphKind \<Rightarrow> ExecutionGraph \<Rightarrow> Revisit \<Rightarrow> EventLabel \<Rightarrow> bool res" where
  "hasBeenRevisitedByDeleted cf g r l =
     (if \<not> isa_Read (lkind l) then Ok False
      else rbind (getEventLabel g (lrf l)) (\<lambda>rf.
        rbind (getRevisitView cf g r) (\<lambda>v.
        rbind (vc_contains v (lpos rf)) (\<lambda>b.
        if b \<or> lstamp rf \<le> lstamp l then Ok False
        else rbind (prefixContainsSameLoc cf g r rf) (\<lambda>s. if s then Ok False
        else rbind (prefixContainsMatchingLock cf g r rf) (\<lambda>m. if m then Ok False
        else Ok (\<not> hasBAM cf \<or> lkind rf \<noteq> EL_BIncFaiWrite)))))))"

definition cut_differs :: "ExecutionGraph \<Rightarrow> VectorClock \<Rightarrow> nat \<Rightarrow> bool res" where
  "cut_differs g v i = rbind (vc_get v (int i)) (\<lambda>k.
     if k + 1 = int (length (events g ! i)) then Ok False
     else rbind (getEventLabel g (Event (int i) (k + 1))) (\<lambda>l. Ok (\<not> denotesThreadEnd l)))"

definition revisitModifiesGraph :: "GraphKind \<Rightarrow> ExecutionGraph \<Rightarrow> Revisit \<Rightarrow> bool res" where
  "revisitModifiesGraph cf g r = rbind (getRevisitView cf g r) (\<lambda>v.
     rany (\<lambda>i. rbind (cut_differs g v i) (\<lambda>b. if b then Ok True
       else if \<not> tracksDeps cf then Ok False
       else rany (\<lambda>l. rbind (vc_contains v (lpos l)) (\<lambda>c.
              Ok (\<not> c \<and> lkind l \<noteq> EL_Empty \<and> \<not> denotesThreadEnd l))) (events g ! i)))
       [0..<numThreads g])"

text \<open>The loads a write may revisit, when dependencies are tracked.\<close>

definition getRevisitableVC :: "GraphKind \<Rightarrow> ExecutionGraph \<Rightarrow> EventLabel \<Rightarrow> Event list res" where
  "getRevisitableVC cf g s =
     (if \<not> tracksDeps cf then getRevisitable g s
      else rbind (getPendingRMW g s) (\<lambda>pend.
        let loads = concat (map (\<lambda>i. if ethread (lpos s) = int i then []
              else map lpos (filter (\<lambda>l. isa_Read (lkind l) \<and> laddr l = laddr s
                \<and> \<not> dv_contains (pporfView s) (lpos l) \<and> lrevisitable l \<and> lmaximal l) (drop 1 (events g ! i))))
              [0..<numThreads g])
        in if isInitializer pend then Ok loads
           else rbind (getEventLabel g pend) (\<lambda>c.
             rfilter (\<lambda>e. rbind (getEventLabel g e) (\<lambda>l. Ok (lstamp l \<le> lstamp c))) loads)))"

section \<open>Cutting a graph that tracks dependencies\<close>

text \<open>A label that was removed is a null pointer until the end of the function. A look-up beyond the end
  of a thread that was already resized is \<open>Undef\<close>. The calculators are informed by their own \<open>removeAfter\<close>.\<close>

type_synonym OptGraph = "EventLabel option list list"

definition opt_get :: "OptGraph \<Rightarrow> Event \<Rightarrow> EventLabel option res" where
  "opt_get G e = rbind (vec_get_int G (ethread e)) (\<lambda>t. vec_get_int t (eindex e))"

definition opt_set :: "OptGraph \<Rightarrow> Event \<Rightarrow> EventLabel option \<Rightarrow> OptGraph res" where
  "opt_set G e l = rbind (opt_get G e) (\<lambda>_.
     Ok (G[nat (ethread e) := (G ! nat (ethread e))[nat (eindex e) := l]]))"

definition opt_mod :: "OptGraph \<Rightarrow> Event \<Rightarrow> (EventLabel \<Rightarrow> EventLabel) \<Rightarrow> OptGraph res" where
  "opt_mod G e f = rbind (opt_get G e) (\<lambda>x. case x of None \<Rightarrow> Ok G | Some l \<Rightarrow> opt_set G e (Some (f l)))"

text \<open>Resetting a join marks the fixpoint as stale; nothing else here does.\<close>

definition cut_pointers :: "EventLabel \<Rightarrow> OptGraph \<times> FixpointStatus \<Rightarrow> (OptGraph \<times> FixpointStatus) res" where
  "cut_pointers l = (\<lambda>(G, fs).
     if isa_Read (lkind l)
     then rbind (opt_mod G (lrf l) (\<lambda>w. if isa_Write (lkind w) then removeReader (\<lambda>r. r = lpos l) w else w)) (\<lambda>G1. Ok (G1, fs))
     else if lkind l = EL_ThreadFinish
     then rbind (opt_get G (lparentJoin l)) (\<lambda>x. if x = None then Ok (G, fs)
       else rbind (opt_mod G (lparentJoin l) (\<lambda>j. if lkind j = EL_ThreadJoin then j\<lparr>lchildLast := getInitializer\<rparr> else j))
         (\<lambda>G1. Ok (G1, FS_Stale)))
     else Ok (G, fs))"

definition cut_dep_event :: "nat \<Rightarrow> nat \<Rightarrow> nat \<Rightarrow> (OptGraph \<times> FixpointStatus) \<times> nat \<Rightarrow> ((OptGraph \<times> FixpointStatus) \<times> nat) res" where
  "cut_dep_event stamp i j = (\<lambda>(S, newMax). rbind (opt_get (fst S) (Event (int i) (int j))) (\<lambda>x. rbind (deref x) (\<lambda>l.
     if lstamp l \<le> stamp
     then Ok (S, if eindex (lpos l) \<ge> int newMax then nat (eindex (lpos l)) + 1 else newMax)
     else rbind (cut_pointers l S) (\<lambda>S1. rbind (opt_set (fst S1) (Event (int i) (int j)) None) (\<lambda>G2.
            Ok ((G2, snd S1), newMax))))))"

definition cut_dep_thread :: "nat \<Rightarrow> nat \<Rightarrow> OptGraph \<times> FixpointStatus \<Rightarrow> (OptGraph \<times> FixpointStatus) res" where
  "cut_dep_thread stamp i S = rbind (rfold (cut_dep_event stamp i) [1..<length (fst S ! i)] (S, 1)) (\<lambda>(S', newMax).
     Ok ((fst S')[i := vec_resize newMax None (fst S' ! i)], snd S'))"

definition cut_dep_fill :: "nat \<Rightarrow> OptGraph \<Rightarrow> nat \<times> EventLabel list list" where
  "cut_dep_fill st G = fold (\<lambda>i (st, evs).
       let p = fold (\<lambda>j (st, t). case G ! i ! j of Some l \<Rightarrow> (st, t @ [l])
             | None \<Rightarrow> (st + 1, t @ [(EmptyLabel (Event (int i) (int j)))\<lparr>lstamp := st\<rparr>])) [0..<length (G ! i)] (st, [])
       in (fst p, evs @ [snd p])) [0..<length G] (st, [])"

definition cutToStamp_dep :: "ExecutionGraph \<Rightarrow> nat \<Rightarrow> ExecutionGraph res" where
  "cutToStamp_dep g stamp =
     rbind (rfold (cut_dep_thread stamp) [0..<numThreads g] (map (map Some) (events g), fixStatus g)) (\<lambda>S.
       let p = cut_dep_fill (timestamp g) (fst S)
       in Ok (g\<lparr>timestamp := fst p, events := snd p, fixStatus := snd S\<rparr>))"

definition cutToStampVC :: "GraphKind \<Rightarrow> ExecutionGraph \<Rightarrow> nat \<Rightarrow> ExecutionGraph res" where
  "cutToStampVC cf g stamp = (if tracksDeps cf then cutToStamp_dep g stamp else cutToStamp g stamp)"

end
