(* ===== verification/GenMC_MO.thy ===== *)
theory GenMC_MO
  imports GenMC_Revisit GenMC_AdjList
begin

text \<open>
  Coherence as modification orders (\<open>src/src/CoherenceCalculator.hpp\<close>, \<open>src/src/MOCalculator.cpp\<close>): for every
  location the list of its stores, oldest first. The map of the code is an association list, whose order
  stands for the unspecified order of iteration. The non-constant \<open>operator[]\<close> enters an empty list for a
  location that is not tracked; the functions that use it return the new map beside their result.
\<close>

section \<open>State\<close>

record MO =
  mo_stores :: "(SAddr \<times> Event list) list"
  mo_ooo :: bool

definition mo_tracksLoc :: "MO \<Rightarrow> SAddr \<Rightarrow> bool" where
  "mo_tracksLoc m a \<longleftrightarrow> map_of (mo_stores m) a \<noteq> None"

text \<open>\<open>stores.at(addr)\<close> and the two effects of \<open>stores[addr]\<close>: the entry, and a change of it.\<close>

definition mo_at :: "MO \<Rightarrow> SAddr \<Rightarrow> Event list res" where
  "mo_at m a = (case map_of (mo_stores m) a of None \<Rightarrow> Undef | Some l \<Rightarrow> Ok l)"

definition mo_list :: "MO \<Rightarrow> SAddr \<Rightarrow> Event list" where
  "mo_list m a = (case map_of (mo_stores m) a of None \<Rightarrow> [] | Some l \<Rightarrow> l)"

fun assoc_set :: "'k \<Rightarrow> 'v \<Rightarrow> ('k \<times> 'v) list \<Rightarrow> ('k \<times> 'v) list" where
  "assoc_set k v [] = [(k, v)]"
| "assoc_set k v (p # ps) = (if fst p = k then (k, v) # ps else p # assoc_set k v ps)"

definition mo_put :: "MO \<Rightarrow> SAddr \<Rightarrow> Event list \<Rightarrow> MO" where
  "mo_put m a l = m\<lparr>mo_stores := assoc_set a l (mo_stores m)\<rparr>"

definition mo_ref :: "MO \<Rightarrow> SAddr \<Rightarrow> MO" where
  "mo_ref m a = mo_put m a (mo_list m a)"

definition mo_isLocEmpty :: "MO \<Rightarrow> SAddr \<Rightarrow> bool res" where
  "mo_isLocEmpty m a = rbind (mo_at m a) (\<lambda>l. Ok (l = []))"

definition mo_hasMoreThanOneStore :: "MO \<Rightarrow> SAddr \<Rightarrow> bool res" where
  "mo_hasMoreThanOneStore m a = rbind (mo_at m a) (\<lambda>l. Ok (length l > 1))"

section \<open>Placing stores\<close>

definition trackCoherenceAtLoc :: "MO \<Rightarrow> SAddr \<Rightarrow> MO" where
  "trackCoherenceAtLoc m a = mo_ref m a"

fun find_index :: "('a \<Rightarrow> bool) \<Rightarrow> 'a list \<Rightarrow> nat option" where
  "find_index P [] = None"
| "find_index P (x # xs) = (if P x then Some 0 else map_option Suc (find_index P xs))"

definition getStoreOffset :: "MO \<Rightarrow> SAddr \<Rightarrow> Event \<Rightarrow> int res" where
  "getStoreOffset m a e =
     rbind (BUG_ON (\<not> mo_tracksLoc m a)) (\<lambda>_.
       if e = getInitializer then Ok (- 1)
       else rbind (mo_at m a) (\<lambda>l. case find_index (\<lambda>s. s = e) l of None \<Rightarrow> Bug | Some i \<Rightarrow> Ok (int i)))"

text \<open>Successors and predecessors of a store: the ranges of the iterators.\<close>

definition mo_succs :: "MO \<Rightarrow> SAddr \<Rightarrow> Event \<Rightarrow> Event list res" where
  "mo_succs m a e = rbind (getStoreOffset m a e) (\<lambda>k. rbind (mo_at m a) (\<lambda>l. Ok (drop (nat (k + 1)) l)))"

definition mo_preds :: "MO \<Rightarrow> SAddr \<Rightarrow> Event \<Rightarrow> Event list res" where
  "mo_preds m a e = rbind (getStoreOffset m a e) (\<lambda>k. rbind (mo_at m a) (\<lambda>l. Ok (take (if k \<ge> 0 then nat k else 0) l)))"

text \<open>An insertion before the iterator \<open>begin() + offset\<close>; an iterator outside the list is \<open>Undef\<close>.\<close>

definition list_insert :: "int \<Rightarrow> 'a \<Rightarrow> 'a list \<Rightarrow> 'a list res" where
  "list_insert k x l = (if 0 \<le> k \<and> k \<le> int (length l) then Ok (take (nat k) l @ x # drop (nat k) l) else Undef)"

definition addStoreToLoc :: "MO \<Rightarrow> SAddr \<Rightarrow> Event \<Rightarrow> int \<Rightarrow> MO res" where
  "addStoreToLoc m a store offset =
     (if offset = - 1 then Ok (mo_put m a (mo_list m a @ [store]))
      else rbind (list_insert offset store (mo_list m a)) (\<lambda>l. Ok (mo_put m a l)))"

definition addStoreToLocAfter :: "MO \<Rightarrow> SAddr \<Rightarrow> Event \<Rightarrow> Event \<Rightarrow> MO res" where
  "addStoreToLocAfter m a store pred = rbind (getStoreOffset m a pred) (\<lambda>k. addStoreToLoc m a store (k + 1))"

definition mo_isCoMaximal :: "MO \<Rightarrow> SAddr \<Rightarrow> Event \<Rightarrow> bool \<times> MO" where
  "mo_isCoMaximal m a store =
     (let l = mo_list m a in
      (isInitializer store \<and> l = [] \<or> \<not> isInitializer store \<and> l \<noteq> [] \<and> store = last l, mo_ref m a))"

definition mo_isCachedCoMaximal :: "MO \<Rightarrow> SAddr \<Rightarrow> Event \<Rightarrow> bool \<times> MO" where
  "mo_isCachedCoMaximal = mo_isCoMaximal"

definition mo_changeStoreOffset :: "MO \<Rightarrow> SAddr \<Rightarrow> Event \<Rightarrow> int \<Rightarrow> MO res" where
  "mo_changeStoreOffset m a store newOffset =
     (case find_index (\<lambda>s. s = store) (mo_list m a) of None \<Rightarrow> Undef
      | Some i \<Rightarrow> rbind (list_insert newOffset store (take i (mo_list m a) @ drop (Suc i) (mo_list m a))) (\<lambda>l.
          Ok (mo_put m a l)))"

definition mo_locContains :: "MO \<Rightarrow> SAddr \<Rightarrow> Event \<Rightarrow> bool res" where
  "mo_locContains m a e = rbind (BUG_ON (\<not> mo_tracksLoc m a)) (\<lambda>_.
     if e = getInitializer then Ok True else rbind (mo_at m a) (\<lambda>l. Ok (e \<in> set l)))"

section \<open>Splitting an order at an event\<close>

text \<open>The searches run over the list with a condition that may stop; \<open>find_if\<close> gives the offset of the first
  hit, the length when there is none.\<close>

fun rfind_if :: "('a \<Rightarrow> bool res) \<Rightarrow> 'a list \<Rightarrow> nat res" where
  "rfind_if P [] = Ok 0"
| "rfind_if P (x # xs) = rbind (P x) (\<lambda>b. if b then Ok 0 else rbind (rfind_if P xs) (\<lambda>k. Ok (Suc k)))"

definition splitLocMOBefore :: "ExecutionGraph \<Rightarrow> MO \<Rightarrow> SAddr \<Rightarrow> Event \<Rightarrow> nat res" where
  "splitLocMOBefore g m a e =
     rbind (rfind_if (\<lambda>s. isWriteRfBefore g s (prev e)) (rev (mo_list m a))) (\<lambda>k. Ok (length (mo_list m a) - k))"

definition hb_has :: "ExecutionGraph \<Rightarrow> Event \<Rightarrow> Event \<Rightarrow> bool res" where
  "hb_has g s e = rbind (getEventLabel g s) (\<lambda>l. view_contains (hbView l) e)"

definition splitLocMOAfterHb :: "ExecutionGraph \<Rightarrow> MO \<Rightarrow> SAddr \<Rightarrow> Event \<Rightarrow> nat res" where
  "splitLocMOAfterHb g m a read =
     rbind (rany (\<lambda>rf. hb_has g rf read) (getInitRfsAtLoc g a)) (\<lambda>b.
       if b then Ok 0
       else let l = mo_list m a in
         rbind (rfind_if (isHbOptRfBefore g read) l) (\<lambda>k.
           if k = length l then Ok k
           else rbind (hb_has g (l ! k) read) (\<lambda>c. Ok (if c then k else k + 1))))"

definition splitLocMOAfter :: "ExecutionGraph \<Rightarrow> MO \<Rightarrow> SAddr \<Rightarrow> Event \<Rightarrow> nat res" where
  "splitLocMOAfter g m a e = rfind_if (isHbOptRfBefore g e) (mo_list m a)"

definition getPossiblePlacings :: "ExecutionGraph \<Rightarrow> MO \<Rightarrow> SAddr \<Rightarrow> Event \<Rightarrow> bool \<Rightarrow> ((int \<times> int) \<times> MO) res" where
  "getPossiblePlacings g m a store rmw =
     (if rmw
      then rbind (getEventLabel g (prev store)) (\<lambda>l.
             if isa_Read (lkind l)
             then rbind (getStoreOffset m a (lrf l)) (\<lambda>k. Ok ((k + 1, k + 1), m)) else Bug)
      else rbind (splitLocMOBefore g m a store) (\<lambda>b.
           rbind (if mo_ooo m then splitLocMOAfter g m a store else Ok (length (mo_list m a))) (\<lambda>e.
             Ok ((int b, int e), mo_ref m a))))"

section \<open>What coherence allows\<close>

definition mo_getCoherentStores :: "ExecutionGraph \<Rightarrow> MO \<Rightarrow> SAddr \<Rightarrow> Event \<Rightarrow> (Event list \<times> MO) res" where
  "mo_getCoherentStores g m a read =
     rbind (splitLocMOBefore g m a read) (\<lambda>begO.
     let l = mo_list m a; first = (if begO = 0 then getInitializer else l ! (begO - 1)) in
     rbind (if mo_ooo m then splitLocMOAfterHb g m a read else Ok (length l)) (\<lambda>endO.
       if begO \<le> endO then Ok (first # drop begO (take endO l), mo_ref m a) else Undef))"

definition with_readers :: "ExecutionGraph \<Rightarrow> Event list \<Rightarrow> Event list res" where
  "with_readers g ws = rfold (\<lambda>w after. rbind (getWriteLabel g w) (\<lambda>wl. rbind (deref wl) (\<lambda>l.
     Ok (after @ lpos l # lreaders l)))) ws []"

definition getMOOptRfAfter :: "ExecutionGraph \<Rightarrow> MO \<Rightarrow> EventLabel \<Rightarrow> Event list res" where
  "getMOOptRfAfter g m s = rbind (mo_succs m (laddr s) (lpos s)) (with_readers g)"

definition getMOInvOptRfAfter :: "ExecutionGraph \<Rightarrow> MO \<Rightarrow> EventLabel \<Rightarrow> Event list res" where
  "getMOInvOptRfAfter g m s = rbind (mo_preds m (laddr s) (lpos s)) (\<lambda>ps. rbind (with_readers g ps) (\<lambda>after.
     Ok (after @ getInitRfsAtLoc g (laddr s))))"

definition revisit_blocked :: "ExecutionGraph \<Rightarrow> Event list \<Rightarrow> Event \<Rightarrow> bool res" where
  "revisit_blocked g optRfs e = rbind (getHbPoBefore g e) (\<lambda>before. rany (view_contains before) optRfs)"

definition revisit_blocked_inv :: "ExecutionGraph \<Rightarrow> DepView \<Rightarrow> Event list \<Rightarrow> Event \<Rightarrow> bool res" where
  "revisit_blocked_inv g before invRfs e = rbind (getEventLabel g e) (\<lambda>l.
     rbind (getDepViewFromStamp g (lstamp l)) (\<lambda>v0. rbind (dv_update v0 before) (\<lambda>v.
       rany (\<lambda>ev. if dv_contains v ev then rbind (getHbPoBefore g ev) (\<lambda>h. view_contains h e) else Ok False) invRfs)))"

definition mo_getCoherentRevisits :: "GraphKind \<Rightarrow> ExecutionGraph \<Rightarrow> MO \<Rightarrow> EventLabel \<Rightarrow> (Event list \<times> MO) res" where
  "mo_getCoherentRevisits cf g m s =
     rbind (getRevisitableVC cf g s) (\<lambda>ls.
     let m1 = (if mo_ooo m then m else mo_ref m (laddr s)) in
     if \<not> mo_ooo m \<and> fst (mo_isCoMaximal m (laddr s) (lpos s)) then Ok (ls, m1)
     else rbind (getMOOptRfAfter g m1 s) (\<lambda>optRfs.
          rbind (rfilter (\<lambda>e. rbind (revisit_blocked g optRfs e) (\<lambda>b. Ok (\<not> b))) ls) (\<lambda>ls1.
          if \<not> mo_ooo m then Ok (ls1, m1)
          else rbind (rfilter (\<lambda>e. rbind (hb_has g (lpos s) e) (\<lambda>b. Ok (\<not> b))) ls1) (\<lambda>ls2.
               rbind (getPPoRfBefore g (lpos s)) (\<lambda>before.
               rbind (getMOInvOptRfAfter g m1 s) (\<lambda>invRfs.
               rbind (rfilter (\<lambda>e. rbind (revisit_blocked_inv g before invRfs e) (\<lambda>b. Ok (\<not> b))) ls2) (\<lambda>ls3.
                 Ok (ls3, m1))))))))"

section \<open>Maximal paths\<close>

definition mo_isCoBeforeSavedPrefix :: "GraphKind \<Rightarrow> ExecutionGraph \<Rightarrow> MO \<Rightarrow> Revisit \<Rightarrow> EventLabel \<Rightarrow> bool res" where
  "mo_isCoBeforeSavedPrefix cf g m r l =
     (if \<not> isa_MemAccess (lkind l) then Ok False
      else rbind (getRevisitView cf g r) (\<lambda>v.
        rbind (mo_succs m (laddr l) (if isa_Read (lkind l) then lrf l else lpos l)) (\<lambda>ss.
          rany (\<lambda>s. rbind (getEventLabel g s) (\<lambda>sl. rbind (vc_contains v (lpos sl)) (\<lambda>b.
              if \<not> b then Ok False
              else rbind (view_get (dv_view (pporfView sl)) (ethread (lpos l))) (\<lambda>k.
                if \<not> eindex (lpos l) > k then Ok False
                else rbind (rv_rev r) (\<lambda>rev. Ok (lpos sl \<noteq> rev)))))) ss)))"

definition mo_coherenceSuccRemainInGraph :: "GraphKind \<Rightarrow> ExecutionGraph \<Rightarrow> MO \<Rightarrow> Revisit \<Rightarrow> bool res" where
  "mo_coherenceSuccRemainInGraph cf g m r =
     rbind (rv_rev r) (\<lambda>rev. rbind (getWriteLabel g rev) (\<lambda>wl. rbind (deref wl) (\<lambda>w.
       if isRMWStore w then Ok True
       else rbind (mo_succs m (laddr w) (lpos w)) (\<lambda>ss.
         case ss of [] \<Rightarrow> Ok True
         | s # _ \<Rightarrow> rbind (getRevisitView cf g r) (\<lambda>v. vc_contains v s)))))"

definition wasAddedMaximally :: "EventLabel \<Rightarrow> bool" where
  "wasAddedMaximally l =
     (if isa_MemAccess (lkind l) then lmaximal l else if lkind l = EL_Optional then \<not> lexpanded l else True)"

definition in_max_path :: "GraphKind \<Rightarrow> ExecutionGraph \<Rightarrow> MO \<Rightarrow> Revisit \<Rightarrow> VectorClock \<Rightarrow> EventLabel \<Rightarrow> bool res" where
  "in_max_path cf g m r v l =
     rbind (if lpos l \<noteq> rv_pos r then vc_contains v (lpos l) else Ok False) (\<lambda>b. if b then Ok True else
     rbind (prefixContainsSameLoc cf g r l) (\<lambda>b. if b then Ok True else
     rbind (isOptBlockedRead g l) (\<lambda>b. if b then Ok True else
     rbind (mo_isCoBeforeSavedPrefix cf g m r l) (\<lambda>b. if b then Ok False else
     rbind (hasBeenRevisitedByDeleted cf g r l) (\<lambda>b. if b then Ok False else
     Ok (wasAddedMaximally l))))))"

definition mo_inMaximalPath :: "GraphKind \<Rightarrow> ExecutionGraph \<Rightarrow> MO \<Rightarrow> Revisit \<Rightarrow> bool res" where
  "mo_inMaximalPath cf g m r =
     rbind (mo_coherenceSuccRemainInGraph cf g m r) (\<lambda>b. if \<not> b then Ok False else
     rbind (getRevisitView cf g r) (\<lambda>v.
     rbind (rany (\<lambda>l. rbind (in_max_path cf g m r v l) (\<lambda>b. Ok (\<not> b))) (labels g)) (\<lambda>bad. Ok (\<not> bad))))"

section \<open>The calculator\<close>

type_synonym GlobalRelation = "Event AdjList"
type_synonym PerLocRelation = "(SAddr \<times> GlobalRelation) list"

record CalculationResult =
  cr_changed :: bool
  cr_cons :: bool

definition cr_or :: "CalculationResult \<Rightarrow> CalculationResult \<Rightarrow> CalculationResult" where
  "cr_or a b = \<lparr>cr_changed = (cr_changed a \<or> cr_changed b), cr_cons = (cr_cons a \<and> cr_cons b)\<rparr>"

definition mo_init_loc :: "Event list \<Rightarrow> GlobalRelation res" where
  "mo_init_loc l =
     (if l = [] then Ok (adj_of l)
      else rbind (rfold (\<lambda>(a, b) r. addEdge r a b) (zip (butlast l) (tl l)) (adj_of l)) transClosure)"

definition mo_initCalc :: "MO \<Rightarrow> PerLocRelation res" where
  "mo_initCalc m = rfold (\<lambda>p co. rbind (mo_init_loc (snd p)) (\<lambda>r. Ok (assoc_set (fst p) r co))) (mo_stores m) []"

text \<open>\<open>coRelation[loc]\<close> of a location that is not there enters an empty relation, which is irreflexive.\<close>

fun mo_doCalc_loop :: "(SAddr \<times> Event list) list \<Rightarrow> PerLocRelation \<Rightarrow> (bool \<times> PerLocRelation) res" where
  "mo_doCalc_loop [] co = Ok (True, co)"
| "mo_doCalc_loop (p # ps) co =
     (let r = (case map_of co (fst p) of None \<Rightarrow> adj_empty | Some r \<Rightarrow> r); co1 = assoc_set (fst p) r co in
      rbind (isIrreflexive r) (\<lambda>b. if b then mo_doCalc_loop ps co1 else Ok (False, co1)))"

definition mo_doCalc :: "MO \<Rightarrow> PerLocRelation \<Rightarrow> (CalculationResult \<times> PerLocRelation) res" where
  "mo_doCalc m co = rbind (mo_doCalc_loop (mo_stores m) co) (\<lambda>(b, co1). Ok (\<lparr>cr_changed = False, cr_cons = b\<rparr>, co1))"

text \<open>The locations that the events of a clock access. The loop compares with an unsigned index, so a negative
  entry of the clock would make it run over the thread.\<close>

definition mo_keep :: "ExecutionGraph \<Rightarrow> VectorClock \<Rightarrow> SAddr VSet res" where
  "mo_keep g preds = rfold (\<lambda>i keep. rbind (vc_get preds (int i)) (\<lambda>k.
       if k < 0 then Undef
       else rfold (\<lambda>j keep. rbind (getEventLabel g (Event (int i) j)) (\<lambda>l.
              Ok (if isa_MemAccess (lkind l) then fst (vs_insert keep (laddr l)) else keep))) [0..k] keep))
     [0..<vc_size preds] []"

definition mo_removeAfter :: "ExecutionGraph \<Rightarrow> MO \<Rightarrow> VectorClock \<Rightarrow> MO res" where
  "mo_removeAfter g m preds =
     rbind (mo_keep g preds) (\<lambda>keep.
     rbind (rfold (\<lambda>p acc. rbind (rfilter (vc_contains preds) (snd p)) (\<lambda>l.
         if vs_count keep (fst p) \<noteq> 0 then Ok (acc @ [(fst p, l)])
         else if l \<noteq> [] then Bug else Ok acc)) (mo_stores m) []) (\<lambda>st. Ok (m\<lparr>mo_stores := st\<rparr>)))"

text \<open>The coherence of a prefix, saved as pairs of a store and its predecessor.\<close>

definition saved_pred :: "(Event \<Rightarrow> bool res) \<Rightarrow> EventLabel list \<Rightarrow> Event list \<Rightarrow> Event res" where
  "saved_pred before labs ps = rbind (rfind_if (\<lambda>s. rbind (before s) (\<lambda>b. Ok (b \<or> s \<in> lpos ` set labs))) (rev ps)) (\<lambda>k.
     Ok (if k = length ps then getInitializer else rev ps ! k))"

definition mo_saveCoherenceStatus :: "GraphKind \<Rightarrow> ExecutionGraph \<Rightarrow> MO \<Rightarrow> EventLabel list \<Rightarrow> EventLabel \<Rightarrow> (Event \<times> Event) list res" where
  "mo_saveCoherenceStatus cf g m labs rLab =
     rbind (getPredsViewVC cf g (lpos rLab)) (\<lambda>before.
       rfold (\<lambda>l pairs. if \<not> isa_Write (lkind l) then Ok pairs
         else rbind (vc_contains before (lpos l)) (\<lambda>b. rbind (BUG_ON b) (\<lambda>_.
              rbind (mo_at m (laddr l)) (\<lambda>st. case find_index (\<lambda>s. s = lpos l) st of None \<Rightarrow> Bug
                | Some i \<Rightarrow> rbind (saved_pred (vc_contains before) labs (take i st)) (\<lambda>p. Ok (pairs @ [(lpos l, p)]))))))
         labs [])"

end
