(* ===== verification/GenMC_Consistency.thy ===== *)
theory GenMC_Consistency
  imports GenMC_MO
begin

text \<open>
  The consistency check of a graph (\<open>src/src/ExecutionGraph.cpp\<close>, \<open>src/src/Calculator.hpp\<close>,
  \<open>src/src/GraphBuilder.hpp\<close>): the calculators of a graph, the relations they fill in, the fixpoint they
  compute, and the final checks that extend the per-location relations to total orders. A calculator is a
  record of its three virtual functions on the state of the graph; the data members of the calculators are
  the component \<open>cPriv\<close>. Also here: copying a graph up to a view.
\<close>

section \<open>Relations\<close>

datatype CheckConsType = CT_fast | CT_slow | CT_full

datatype RelationId = R_hb | R_co | R_lb | R_psc | R_ar | R_prop | R_ar_lkmm | R_pb | R_rcu_link | R_rcu | R_rcu_fence | R_xb

record GraphRelations =
  rGlobal :: "GlobalRelation list"
  rPerLoc :: "PerLocRelation list"
  rResult :: CalculationResult
  rType :: CheckConsType

text \<open>The status of the fixpoint is a component of \<open>ExecutionGraph\<close>; the cached relations have a copy of it.\<close>

record 'p Cons =
  cGraph :: ExecutionGraph
  cRels :: GraphRelations
  cCache :: GraphRelations
  cCacheStatus :: FixpointStatus
  cCalcIndex :: "RelationId \<rightharpoonup> 32 word"
  cRelIndex :: "RelationId \<rightharpoonup> nat"
  cPartial :: "nat list"
  cPriv :: 'p

record 'p Calculator =
  initCalc :: "'p Cons \<Rightarrow> 'p Cons res"
  doCalc :: "'p Cons \<Rightarrow> (CalculationResult \<times> 'p Cons) res"
  calcRemoveAfter :: "VectorClock \<Rightarrow> 'p Cons \<Rightarrow> 'p Cons res"

definition cons_new :: "ExecutionGraph \<Rightarrow> 'p \<Rightarrow> 'p Cons" where
  "cons_new g p = (let r = \<lparr>rGlobal = [adj_empty], rPerLoc = [], rResult = \<lparr>cr_changed = False, cr_cons = True\<rparr>, rType = CT_fast\<rparr>
     in \<lparr>cGraph = g, cRels = r, cCache = r, cCacheStatus = FS_Stale, cCalcIndex = [R_hb \<mapsto> - 42], cRelIndex = [R_hb \<mapsto> 0],
         cPartial = [], cPriv = p\<rparr>)"

definition addCalculator :: "'p Calculator \<Rightarrow> RelationId \<Rightarrow> bool \<Rightarrow> bool \<Rightarrow> 'p Calculator list \<times> 'p Cons \<Rightarrow> 'p Calculator list \<times> 'p Cons" where
  "addCalculator cc r perLoc partially = (\<lambda>(cs, s).
     let calcSize = length cs;
         relSize = (if perLoc then length (rPerLoc (cRels s)) else length (rGlobal (cRels s)));
         grow = (\<lambda>q. if perLoc then q\<lparr>rPerLoc := rPerLoc q @ [[]]\<rparr> else q\<lparr>rGlobal := rGlobal q @ [adj_empty]\<rparr>)
     in (cs @ [cc], s\<lparr>cPartial := cPartial s @ (if partially then [calcSize] else []), cRels := grow (cRels s), cCache := grow (cCache s),
           cCalcIndex := (cCalcIndex s)(r \<mapsto> of_nat calcSize), cRelIndex := (cRelIndex s)(r \<mapsto> relSize)\<rparr>))"

definition rel_index :: "'p Cons \<Rightarrow> RelationId \<Rightarrow> nat res" where
  "rel_index s r = (case cRelIndex s r of None \<Rightarrow> Bug | Some i \<Rightarrow> Ok i)"

definition getGlobalRelation :: "'p Cons \<Rightarrow> RelationId \<Rightarrow> GlobalRelation res" where
  "getGlobalRelation s r = rbind (rel_index s r) (vec_get (rGlobal (cRels s)))"

definition getPerLocRelation :: "'p Cons \<Rightarrow> RelationId \<Rightarrow> PerLocRelation res" where
  "getPerLocRelation s r = rbind (rel_index s r) (vec_get (rPerLoc (cRels s)))"

definition getCachedGlobalRelation :: "'p Cons \<Rightarrow> RelationId \<Rightarrow> GlobalRelation res" where
  "getCachedGlobalRelation s r = rbind (rel_index s r) (vec_get (rGlobal (cCache s)))"

definition getCachedPerLocRelation :: "'p Cons \<Rightarrow> RelationId \<Rightarrow> PerLocRelation res" where
  "getCachedPerLocRelation s r = rbind (rel_index s r) (vec_get (rPerLoc (cCache s)))"

text \<open>The getters return references; these are assignments through them.\<close>

definition putGlobalRelation :: "'p Cons \<Rightarrow> RelationId \<Rightarrow> GlobalRelation \<Rightarrow> 'p Cons res" where
  "putGlobalRelation s r x = rbind (rel_index s r) (\<lambda>i. rbind (vec_set (rGlobal (cRels s)) i x) (\<lambda>v.
     Ok (s\<lparr>cRels := (cRels s)\<lparr>rGlobal := v\<rparr>\<rparr>)))"

definition putPerLocRelation :: "'p Cons \<Rightarrow> RelationId \<Rightarrow> PerLocRelation \<Rightarrow> 'p Cons res" where
  "putPerLocRelation s r x = rbind (rel_index s r) (\<lambda>i. rbind (vec_set (rPerLoc (cRels s)) i x) (\<lambda>v.
     Ok (s\<lparr>cRels := (cRels s)\<lparr>rPerLoc := v\<rparr>\<rparr>)))"

text \<open>A vector that has been moved from is empty.\<close>

definition rel_moved :: "GraphRelations \<Rightarrow> GraphRelations" where
  "rel_moved r = r\<lparr>rGlobal := [], rPerLoc := []\<rparr>"

definition cacheRelations :: "bool \<Rightarrow> 'p Cons \<Rightarrow> 'p Cons" where
  "cacheRelations copy s =
     (let s' = s\<lparr>cCache := cRels s, cCacheStatus := fixStatus (cGraph s)\<rparr>
      in if copy then s' else s'\<lparr>cRels := rel_moved (cRels s)\<rparr>)"

definition restoreCached :: "bool \<Rightarrow> 'p Cons \<Rightarrow> 'p Cons" where
  "restoreCached move s =
     (let s' = s\<lparr>cRels := cCache s, cGraph := (cGraph s)\<lparr>fixStatus := cCacheStatus s\<rparr>\<rparr>
      in if \<not> move then s' else s'\<lparr>cCache := rel_moved (cCache s)\<rparr>)"

definition hasCalculator :: "'p Calculator list \<Rightarrow> 'p Cons \<Rightarrow> RelationId \<Rightarrow> bool" where
  "hasCalculator cs s r = (case cRelIndex s r of None \<Rightarrow> False | Some i \<Rightarrow> i < length cs)"

text \<open>The position of the calculator that the getters return. They look it up in different indices:
  \<open>getCalculator()\<close> in \<open>calculatorIndex\<close> (a missing entry is made, with the value 0), the getters of the
  coherence and of the lock calculator in \<open>relationIndex\<close>.\<close>

definition getCalculator :: "'p Cons \<Rightarrow> RelationId \<Rightarrow> 32 word \<times> 'p Cons" where
  "getCalculator s r = (case cCalcIndex s r of Some i \<Rightarrow> (i, s)
     | None \<Rightarrow> (0, s\<lparr>cCalcIndex := (cCalcIndex s)(r \<mapsto> 0)\<rparr>))"

definition getCoherenceCalculator :: "'p Cons \<Rightarrow> nat res" where
  "getCoherenceCalculator s = deref (cRelIndex s R_co)"

definition getLbCalculatorLAPOR :: "'p Cons \<Rightarrow> nat res" where
  "getLbCalculatorLAPOR s = deref (cRelIndex s R_lb)"

definition getPartialCalcs :: "'p Calculator list \<Rightarrow> 'p Cons \<Rightarrow> 'p Calculator list res" where
  "getPartialCalcs cs s = rmap (vec_get cs) (cPartial s)"

section \<open>Building a graph\<close>

datatype CoherenceType = Coh_mo | Coh_wb

definition withCoherenceType :: "(CoherenceType \<Rightarrow> 'p Calculator) \<Rightarrow> CoherenceType \<Rightarrow>
    'p Calculator list \<times> 'p Cons \<Rightarrow> 'p Calculator list \<times> 'p Cons" where
  "withCoherenceType coCalc co = addCalculator (coCalc co) R_co True True"

definition withEnabledLAPOR :: "'p Calculator \<Rightarrow> bool \<Rightarrow> 'p Calculator list \<times> 'p Cons \<Rightarrow> 'p Calculator list \<times> 'p Cons" where
  "withEnabledLAPOR lbCalc lapor b = (if lapor then addCalculator lbCalc R_lb True True b else b)"

definition build_graph :: "'p Calculator list \<times> 'p Cons \<Rightarrow> ('p Calculator list \<times> 'p Cons) res" where
  "build_graph b = rbind (getCoherenceCalculator (snd b)) (\<lambda>i. rbind (vec_get (fst b) i) (\<lambda>_. Ok b))"

section \<open>Happens-before as a matrix\<close>

definition populateEntries :: "(Event \<Rightarrow> Event \<Rightarrow> bool res) \<Rightarrow> GlobalRelation \<Rightarrow> GlobalRelation res" where
  "populateEntries before M =
     (let es = elems M in
      rfold (\<lambda>i M. rfold (\<lambda>j M. rbind (if es ! i \<noteq> es ! j then before (es ! j) (es ! i) else Ok False) (\<lambda>b.
          if b then addEdgeId M i j else Ok M)) [0..<length es] M) [0..<length es] M)"

definition populatePorfEntries :: "ExecutionGraph \<Rightarrow> GlobalRelation \<Rightarrow> GlobalRelation res" where
  "populatePorfEntries g = populateEntries (\<lambda>e a. rbind (getEventLabel g e) (\<lambda>l. view_contains (porfView l) a))"

definition populatePPoRfEntries :: "ExecutionGraph \<Rightarrow> GlobalRelation \<Rightarrow> GlobalRelation res" where
  "populatePPoRfEntries g = populateEntries (\<lambda>e a. rbind (getEventLabel g e) (\<lambda>l. Ok (dv_contains (pporfView l) a)))"

text \<open>The edges into a read from the other threads: the events its view knows and its predecessor does not.\<close>

definition hb_read_edges :: "ExecutionGraph \<Rightarrow> EventLabel \<Rightarrow> Event \<Rightarrow> (Event \<times> Event) list res" where
  "hb_read_edges g l pred =
     rbind (getEventLabel g pred) (\<lambda>p.
     rfold (\<lambda>k edges. rbind (view_get (hbView l) (int k)) (\<lambda>x.
         if int k \<noteq> ethread (lpos l) \<and> x > 0
         then rbind (view_contains (hbView p) (Event (int k) x)) (\<lambda>b.
           if b then Ok edges
           else rbind (getPreviousNonTrivial g (next_ev (Event (int k) x))) (\<lambda>c.
             Ok (if isInitializer c then edges else edges @ [(c, lpos l)])))
         else Ok edges)) [0..<view_size (hbView l)] [])"

text \<open>One label: the elements and the edges so far, the elements of the thread start at \<open>thrIdx\<close>.\<close>

definition hb_label :: "ExecutionGraph \<Rightarrow> nat \<Rightarrow> nat \<Rightarrow> nat \<Rightarrow> Event list \<times> (Event \<times> Event) list \<Rightarrow>
    (Event list \<times> (Event \<times> Event) list) res" where
  "hb_label g thrIdx i j = (\<lambda>(es, edges).
     rbind (getEventLabel g (Event (int i) (int j))) (\<lambda>l. rbind (isNonTrivial g l) (\<lambda>nt.
       if \<not> nt then Ok (es, edges)
       else let e = Event (int i) (int j); labIdx = length es in
         rbind (if labIdx = thrIdx
                then rbind (getEventLabel g (Event (int i) 0)) (\<lambda>b. rbind (BUG_ON (lkind b \<noteq> EL_ThreadStart)) (\<lambda>_.
                  rbind (getPreviousNonTrivial g (lparentCreate b)) (\<lambda>p.
                    Ok (if isInitializer p then edges else edges @ [(p, e)]))))
                else rbind (vec_get es (labIdx - 1)) (\<lambda>p. Ok (edges @ [(p, e)]))) (\<lambda>edges1.
         rbind (if isa_Read (lkind l) \<and> \<not> isInitializer (lrf l)
                then rbind (if labIdx > thrIdx then vec_get es (labIdx - 1) else Ok getInitializer) (hb_read_edges g l)
                else Ok []) (\<lambda>new. Ok (es @ [e], edges1 @ new))))))"

definition populateHbEntries :: "ExecutionGraph \<Rightarrow> GlobalRelation res" where
  "populateHbEntries g =
     rbind (rfold (\<lambda>i p. rfold (hb_label g (length (fst p)) i) [0..<length (events g ! i)] p) [0..<numThreads g] ([], []))
       (\<lambda>(es, edges). rfold (\<lambda>(a, b) r. addEdge r a b) edges (adj_of es))"

section \<open>The fixpoint\<close>

text \<open>The \<open>hb\<close> relation is looked up with \<open>operator[]\<close>: a missing index is the index 0.\<close>

definition doInits :: "'p Calculator list \<Rightarrow> bool \<Rightarrow> 'p Cons \<Rightarrow> 'p Cons res" where
  "doInits cs full s =
     rbind (populateHbEntries (cGraph s)) (\<lambda>hb0. rbind (transClosure hb0) (\<lambda>hb.
     rbind (vec_set (rGlobal (cRels s)) (case cRelIndex s R_hb of None \<Rightarrow> 0 | Some i \<Rightarrow> i) hb) (\<lambda>gs.
     if length (rPerLoc (cRels s)) > length (rPerLoc (cCache s)) then Undef
     else let clear = (\<lambda>q. take (length (rPerLoc (cRels s))) (map (\<lambda>_. []) q) @ drop (length (rPerLoc (cRels s))) q);
         s1 = s\<lparr>cRels := (cRels s)\<lparr>rGlobal := gs, rPerLoc := clear (rPerLoc (cRels s))\<rparr>,
                cCache := (cCache s)\<lparr>rPerLoc := clear (rPerLoc (cCache s))\<rparr>\<rparr>
       in rfold (\<lambda>i s. if \<not> full \<and> i \<notin> set (cPartial s) then Ok s else initCalc (cs ! i) s) [0..<length cs] s1)))"

fun doCalcs_loop :: "'p Calculator list \<Rightarrow> bool \<Rightarrow> nat list \<Rightarrow> CalculationResult \<Rightarrow> 'p Cons \<Rightarrow> (CalculationResult \<times> 'p Cons) res" where
  "doCalcs_loop cs full [] result s = Ok (result, s)"
| "doCalcs_loop cs full (i # is) result s =
     (if \<not> full \<and> i \<notin> set (cPartial s) then doCalcs_loop cs full is result s
      else rbind (doCalc (cs ! i) s) (\<lambda>(r, s1).
        if \<not> cr_cons (cr_or result r) then Ok (cr_or result r, s1)
        else doCalcs_loop cs full is (cr_or result r) s1))"

definition doCalcs :: "'p Calculator list \<Rightarrow> bool \<Rightarrow> 'p Cons \<Rightarrow> (CalculationResult \<times> 'p Cons) res" where
  "doCalcs cs full s = doCalcs_loop cs full [0..<length cs] \<lparr>cr_changed = False, cr_cons = True\<rparr> s"

definition addPerLocRelationToExtend :: "PerLocRelation \<Rightarrow> GlobalRelation list \<times> SAddr list \<Rightarrow> GlobalRelation list \<times> SAddr list" where
  "addPerLocRelationToExtend rel p = (fst p @ map snd rel, snd p @ map fst rel)"

definition chain_relation :: "Event list \<Rightarrow> GlobalRelation res" where
  "chain_relation l = rfold (\<lambda>(a, b) r. addEdge r a b) (zip (butlast l) (tl l)) (adj_of l)"

definition extendPerLocRelation :: "PerLocRelation \<Rightarrow> Event list list \<Rightarrow> SAddr list \<Rightarrow> PerLocRelation res" where
  "extendPerLocRelation rel exts locs =
     rbind (BUG_ON (length exts \<noteq> length locs)) (\<lambda>_.
       rfold (\<lambda>(l, ext) rel. rbind (chain_relation ext) (\<lambda>r. Ok (assoc_set l r rel))) (zip locs exts) rel)"

text \<open>One choice of extensions: the relations are restored, extended, and calculated with once more.\<close>

definition try_extension :: "'p Calculator list \<Rightarrow> bool \<Rightarrow> bool \<Rightarrow> nat \<Rightarrow> nat \<Rightarrow> SAddr list \<Rightarrow> Event list list \<Rightarrow>
    'p Cons \<Rightarrow> (bool \<times> 'p Cons) res" where
  "try_extension cs hasWB hasLB coSize lbSize extOrder sortings s =
     (let s0 = restoreCached False s in
      rbind (if hasWB then rbind (getPerLocRelation s0 R_co) (\<lambda>co.
               rbind (extendPerLocRelation co (take coSize sortings) (take coSize extOrder)) (putPerLocRelation s0 R_co))
             else Ok s0) (\<lambda>s1.
      rbind (if hasLB then rbind (getPerLocRelation s1 R_lb) (\<lambda>lb.
               rbind (extendPerLocRelation lb (take lbSize (drop coSize sortings)) (take lbSize (drop coSize extOrder)))
                 (putPerLocRelation s1 R_lb))
             else Ok s1) (\<lambda>s2.
      rbind (doCalcs cs True s2) (\<lambda>(r, s3). Ok (cr_cons r, s3)))))"

definition doFinalConsChecks :: "'p Calculator list \<Rightarrow> bool \<Rightarrow> bool \<Rightarrow> 'p Cons \<Rightarrow> (bool \<times> 'p Cons) res" where
  "doFinalConsChecks cs wb checkFull s =
     (if \<not> checkFull then Ok (True, s)
      else let hasLB = hasCalculator cs s R_lb; hasWB = wb in
        if \<not> hasLB \<and> \<not> hasWB then Ok (True, s)
        else let s0 = cacheRelations True s in
          rbind (if hasWB then getCachedPerLocRelation s0 R_co else Ok []) (\<lambda>co.
          rbind (if hasLB then getCachedPerLocRelation s0 R_lb else Ok []) (\<lambda>lb.
            let (toExtend, extOrder) = addPerLocRelationToExtend lb (addPerLocRelationToExtend co ([], []))
            in combineAllTopoSort toExtend (try_extension cs hasWB hasLB (length co) (length lb) extOrder) s0)))"

text \<open>The loop of \<open>isConsistent()\<close> may run forever, which is the value \<open>None\<close>.\<close>

partial_function (option) cons_fixpoint :: "'p Calculator list \<Rightarrow> bool \<Rightarrow> 'p Cons \<Rightarrow> (bool \<times> 'p Cons) res option" where
  "cons_fixpoint cs full s =
     (case doCalcs cs full s of Bug \<Rightarrow> Some Bug | UserError \<Rightarrow> Some UserError | Undef \<Rightarrow> Some Undef
      | Ok p \<Rightarrow> let r = fst p; s1 = (snd p)\<lparr>cRels := (cRels (snd p))\<lparr>rResult := r\<rparr>\<rparr> in
          if \<not> cr_cons r then Some (Ok (False, s1))
          else if cr_changed r then cons_fixpoint cs full s1
          else Some (Ok (True, s1)))"

definition isConsistent :: "'p Calculator list \<Rightarrow> bool \<Rightarrow> CheckConsType \<Rightarrow> 'p Cons \<Rightarrow> (bool \<times> 'p Cons) res option" where
  "isConsistent cs wb checkT s =
     (if fixStatus (cGraph s) = FS_Done \<and> rType (cRels s) = checkT then Some (Ok (cr_cons (rResult (cRels s)), s))
      else if checkT = CT_fast then Some (Ok (True, s))
      else let full = (checkT = CT_full); s0 = s\<lparr>cGraph := setFPStatus FS_InProgress (cGraph s)\<rparr> in
        case doInits cs full s0 of Bug \<Rightarrow> Some Bug | UserError \<Rightarrow> Some UserError | Undef \<Rightarrow> Some Undef
        | Ok s1 \<Rightarrow> map_option (\<lambda>r. rbind r (\<lambda>(ok, s2).
            if \<not> ok then Ok (False, s2)
            else rbind (doFinalConsChecks cs wb full s2) (\<lambda>(b, s3).
              Ok (b, s3\<lparr>cRels := (cRels s3)\<lparr>rResult := \<lparr>cr_changed = False, cr_cons = b\<rparr>, rType := checkT\<rparr>,
                        cGraph := setFPStatus FS_Done (cGraph s3)\<rparr>)))) (cons_fixpoint cs full s1))"

section \<open>Queries that use the fixpoint\<close>

definition isHbBefore_cons :: "'p Calculator list \<Rightarrow> bool \<Rightarrow> Event \<Rightarrow> Event \<Rightarrow> CheckConsType \<Rightarrow> 'p Cons \<Rightarrow> (bool \<times> 'p Cons) res option" where
  "isHbBefore_cons cs wb a b t s =
     (if fixStatus (cGraph s) = FS_Done \<and> rType (cRels s) = t
      then Some (rbind (getGlobalRelation s R_hb) (\<lambda>hb. rbind (adj_rel hb a b) (\<lambda>x. Ok (x, s))))
      else if t = CT_fast
      then Some (rbind (getEventLabel (cGraph s) b) (\<lambda>l. rbind (view_contains (hbView l) a) (\<lambda>x. Ok (x, s))))
      else map_option (\<lambda>r. rbind r (\<lambda>(_, s1). rbind (getGlobalRelation s1 R_hb) (\<lambda>hb.
             rbind (adj_rel hb a b) (\<lambda>x. Ok (x, s1))))) (isConsistent cs wb t s))"

definition isCoMaximalInRel :: "PerLocRelation \<Rightarrow> SAddr \<Rightarrow> Event \<Rightarrow> bool res" where
  "isCoMaximalInRel co a e =
     rbind (deref (map_of co a)) (\<lambda>coLoc.
       if isInitializer e \<and> elems coLoc = [] then Ok True
       else if isInitializer e then Ok False
       else rbind (getIndex coLoc e) (\<lambda>i. rbind (vec_get (nodeSucc coLoc) i) (\<lambda>succs. Ok (succs = []))))"

text \<open>With modification orders (\<open>mo\<close> is the lists' place in the state of the calculators).\<close>

definition isCoMaximal :: "'p Calculator list \<Rightarrow> ('p \<Rightarrow> MO) \<Rightarrow> (MO \<Rightarrow> 'p \<Rightarrow> 'p) \<Rightarrow> SAddr \<Rightarrow> Event \<Rightarrow> bool \<Rightarrow> CheckConsType \<Rightarrow>
    'p Cons \<Rightarrow> (bool \<times> 'p Cons) res option" where
  "isCoMaximal cs mo put_mo a e checkCache t s =
     (let query = (\<lambda>f. let (b, m) = f (mo (cPriv s)) a e in Some (Ok (b, s\<lparr>cPriv := put_mo m (cPriv s)\<rparr>)));
          in_rel = (\<lambda>s. rbind (getPerLocRelation s R_co) (\<lambda>co. rbind (isCoMaximalInRel co a e) (\<lambda>x. Ok (x, s))))
      in if checkCache then query mo_isCachedCoMaximal
         else if fixStatus (cGraph s) = FS_Done \<and> rType (cRels s) = t then Some (in_rel s)
         else if t = CT_fast then query mo_isCoMaximal
         else map_option (\<lambda>r. rbind r (\<lambda>(_, s1). in_rel s1)) (isConsistent cs False t s))"

end
