(* ===== verification/GenMC_GraphCopy.thy ===== *)
theory GenMC_GraphCopy
  imports GenMC_MO
begin

text \<open>
  Copies of parts of a graph (\<open>src/src/ExecutionGraph.cpp\<close>): the graph that contains the events of a view, with
  its modification orders, and the labels of a prefix that are saved when a read is revisited. The lists of
  locks of \<open>LBCalculatorLAPOR\<close> (\<open>src/src/LBCalculatorLAPOR.hpp\<close>) are an association list.
\<close>

section \<open>The locks of a graph\<close>

type_synonym LockLists = "(SAddr \<times> Event list) list"

definition addLockToList :: "SAddr \<Rightarrow> Event \<Rightarrow> LockLists \<Rightarrow> LockLists" where
  "addLockToList a e locks = assoc_set a ((case map_of locks a of None \<Rightarrow> [] | Some l \<Rightarrow> l) @ [e]) locks"

definition lb_removeAfter :: "VectorClock \<Rightarrow> LockLists \<Rightarrow> LockLists res" where
  "lb_removeAfter preds = rmap (\<lambda>p. rbind (rfilter (vc_contains preds) (snd p)) (\<lambda>l. Ok (fst p, l)))"

section \<open>Copying\<close>

text \<open>The state of a copy: the graph, the modification orders, and the locks when the calculator of LAPOR exists.
  Without it \<open>getLbCalculatorLAPOR()\<close> returns a calculator of another class.\<close>

record Copy =
  cpGraph :: ExecutionGraph
  cpMO :: MO
  cpLocks :: "LockLists option"

definition removeReaderVC :: "(Event \<Rightarrow> bool res) \<Rightarrow> EventLabel \<Rightarrow> EventLabel res" where
  "removeReaderVC drops l = rbind (rfilter (\<lambda>r. rbind (drops r) (\<lambda>b. Ok (\<not> b))) (lreaders l)) (\<lambda>rs. Ok (l\<lparr>lreaders := rs\<rparr>))"

definition copy_track :: "EventLabel \<Rightarrow> Copy \<Rightarrow> Copy res" where
  "copy_track l c =
     rbind (Ok (if isa_MemAccess (lkind l) then c\<lparr>cpMO := trackCoherenceAtLoc (cpMO c) (laddr l)\<rparr> else c)) (\<lambda>c1.
       if lkind l \<noteq> EL_LockLAPOR then Ok c1
       else case cpLocks c1 of None \<Rightarrow> Undef
            | Some locks \<Rightarrow> Ok (c1\<lparr>cpLocks := Some (addLockToList (llockAddr l) (lpos l) locks)\<rparr>))"

definition copy_event :: "ExecutionGraph \<Rightarrow> VectorClock \<Rightarrow> nat \<Rightarrow> int \<Rightarrow> Copy \<Rightarrow> Copy res" where
  "copy_event g v i j c =
     rbind (vc_contains v (Event (int i) j)) (\<lambda>b.
       if \<not> b
       then let (st, o1) = nextStamp (cpGraph c) in
         rbind (addOtherLabelToGraph o1 ((EmptyLabel (Event (int i) j))\<lparr>lstamp := st\<rparr>)) (\<lambda>(o2, _). Ok (c\<lparr>cpGraph := o2\<rparr>))
       else rbind (getEventLabel g (Event (int i) j)) (\<lambda>l.
         rbind (addOtherLabelToGraph (cpGraph c) l) (\<lambda>(o2, n).
         rbind (if isa_Write (lkind n)
                then rbind (removeReaderVC (\<lambda>r. rbind (vc_contains v r) (\<lambda>b. Ok (\<not> b))) n) (\<lambda>n1. modLabel o2 (lpos n) (\<lambda>_. n1))
                else Ok o2) (\<lambda>o3. copy_track n (c\<lparr>cpGraph := o3\<rparr>)))))"

definition copy_thread :: "ExecutionGraph \<Rightarrow> VectorClock \<Rightarrow> nat \<Rightarrow> Copy \<Rightarrow> Copy res" where
  "copy_thread g v i c =
     rbind (getEventLabel g (Event (int i) 0)) (\<lambda>l.
     rbind (addOtherLabelToGraph (cpGraph c) l) (\<lambda>(o1, _).
     rbind (vc_get v (int i)) (\<lambda>k. rfold (copy_event g v i) [1..k] (c\<lparr>cpGraph := o1\<rparr>))))"

definition copy_stores :: "VectorClock \<Rightarrow> MO \<Rightarrow> MO \<Rightarrow> MO res" where
  "copy_stores v cc occ =
     rfold (\<lambda>p. rfold (\<lambda>s m. rbind (vc_contains v s) (\<lambda>b. if b then addStoreToLoc m (fst p) s (- 1) else Ok m)) (snd p))
       (mo_stores cc) occ"

text \<open>The copy starts as a new graph whose threads are resized; the relations are copied (they are not part
  of this state).\<close>

definition copyGraphUpTo :: "ExecutionGraph \<Rightarrow> MO \<Rightarrow> bool \<Rightarrow> VectorClock \<Rightarrow> Copy res" where
  "copyGraphUpTo g m lapor v =
     (let other = graph_init\<lparr>events := take (numThreads g) (events graph_init @ replicate (numThreads g) []),
            timestamp := timestamp g, recoveryTID := recoveryTID g\<rparr>;
          c0 = \<lparr>cpGraph = other, cpMO = \<lparr>mo_stores = [], mo_ooo = mo_ooo m\<rparr>, cpLocks = (if lapor then Some [] else None)\<rparr>
      in rbind (rfold (copy_thread g v) [0..<numThreads g] c0) (\<lambda>c.
         rbind (copy_stores v m (cpMO c)) (\<lambda>m1. Ok (c\<lparr>cpMO := m1\<rparr>))))"

definition changeStoreOffset :: "ExecutionGraph \<Rightarrow> MO \<Rightarrow> SAddr \<Rightarrow> Event \<Rightarrow> int \<Rightarrow> (ExecutionGraph \<times> MO) res" where
  "changeStoreOffset g m a s newOffset = rbind (mo_changeStoreOffset m a s newOffset) (\<lambda>m1. Ok (setFPStatus FS_Stale g, m1))"

section \<open>The labels of a saved prefix\<close>

definition saved_label :: "View \<Rightarrow> View \<Rightarrow> EventLabel \<Rightarrow> EventLabel res" where
  "saved_label prefix before l =
     (let outside = (\<lambda>e. rbind (view_contains prefix e) (\<lambda>p. if p then Ok False
            else rbind (view_contains before e) (\<lambda>b. Ok (\<not> b))))
      in if isa_Write (lkind l) then removeReaderVC outside l
         else if lkind l = EL_ThreadFinish
         then rbind (outside (lparentJoin l)) (\<lambda>b. Ok (if b then l\<lparr>lparentJoin := getInitializer\<rparr> else l))
         else Ok l)"

definition getPrefixLabelsNotBefore :: "ExecutionGraph \<Rightarrow> EventLabel \<Rightarrow> EventLabel \<Rightarrow> EventLabel list res" where
  "getPrefixLabelsNotBefore g sLab rLab =
     (let prefix = porfView sLab; before = getViewFromStamp g (lstamp rLab) in
      rfold (\<lambda>i res. rfold (\<lambda>j res. rbind (getEventLabel g (Event (int i) j)) (\<lambda>l.
          rbind (saved_label prefix before l) (\<lambda>l1. Ok (res @ [l1]))))
        [view_at before i + 1 .. view_at prefix i] res) [0..<numThreads g] [])"

definition extractRfs :: "EventLabel list \<Rightarrow> Event list" where
  "extractRfs labs = map lrf (filter (\<lambda>l. isa_Read (lkind l)) labs)"

end
