(* ===== verification/GenMC_LBCalc.thy ===== *)
theory GenMC_LBCalc
  imports GenMC_Consistency GenMC_GraphCopy
begin

text \<open>
  The calculators of the fixpoint on the state of a graph: coherence by modification orders
  (\<open>src/src/MOCalculator.cpp\<close>) and the order of critical sections of LAPOR
  (\<open>src/src/LBCalculatorLAPOR.cpp\<close>). The relations of a pass are \<open>hb\<close>, and the maps of the locations of
  \<open>co\<close> and \<open>lb\<close>.
\<close>

section \<open>Coherence\<close>

definition mo_calculator :: "('p \<Rightarrow> MO) \<Rightarrow> (MO \<Rightarrow> 'p \<Rightarrow> 'p) \<Rightarrow> 'p Calculator" where
  "mo_calculator mo put =
     \<lparr>initCalc = \<lambda>s. rbind (rel_index s R_co) (\<lambda>_. rbind (mo_initCalc (mo (cPriv s))) (putPerLocRelation s R_co)),
      doCalc = \<lambda>s. rbind (getPerLocRelation s R_co) (\<lambda>co. rbind (mo_doCalc (mo (cPriv s)) co) (\<lambda>(r, co1).
        rbind (putPerLocRelation s R_co co1) (\<lambda>s1. Ok (r, s1)))),
      calcRemoveAfter = \<lambda>preds s. rbind (mo_removeAfter (cGraph s) (mo (cPriv s)) preds) (\<lambda>m.
        Ok (s\<lparr>cPriv := put m (cPriv s)\<rparr>))\<rparr>"

section \<open>Reads-from and a relation\<close>

definition isHbOptRfBeforeRel :: "ExecutionGraph \<Rightarrow> GlobalRelation \<Rightarrow> Event \<Rightarrow> Event \<Rightarrow> (Event \<Rightarrow> bool res) \<Rightarrow> bool res" where
  "isHbOptRfBeforeRel g rel a b P =
     rbind (adj_rel rel a b) (\<lambda>x. if x then Ok True
       else rbind (getEventLabel g b) (\<lambda>w. rbind (BUG_ON (\<not> isa_Write (lkind w))) (\<lambda>_.
         rany (\<lambda>r. rbind (P r) (\<lambda>p. if p then adj_rel rel a r else Ok False)) (lreaders w))))"

definition isWriteRfBeforeRel :: "ExecutionGraph \<Rightarrow> GlobalRelation \<Rightarrow> Event \<Rightarrow> Event \<Rightarrow> (Event \<Rightarrow> bool res) \<Rightarrow> bool res" where
  "isWriteRfBeforeRel g rel a b P =
     rbind (adj_rel rel a b) (\<lambda>x. if x then Ok True
       else rbind (getEventLabel g a) (\<lambda>w. rbind (BUG_ON (\<not> isa_Write (lkind w))) (\<lambda>_.
         rany (\<lambda>r. rbind (P r) (\<lambda>p. if p then adj_rel rel r b else Ok False)) (lreaders w))))"

section \<open>Critical sections\<close>

text \<open>The indices of a thread between the lock and the first matching unlock, or the end of the thread.\<close>

definition cs_end :: "ExecutionGraph \<Rightarrow> EventLabel \<Rightarrow> int res" where
  "cs_end g lLab =
     rbind (getThreadSize g (ethread (lpos lLab))) (\<lambda>n.
     let js = [eindex (lpos lLab) + 1 .. n - 1] in
     rbind (rfind_if (\<lambda>j. rbind (getEventLabel g (Event (ethread (lpos lLab)) j)) (\<lambda>l.
        Ok (lkind l = EL_UnlockLAPOR \<and> llockAddr l = llockAddr lLab))) js) (\<lambda>k. Ok (eindex (lpos lLab) + 1 + int k)))"

fun last_nontrivial :: "ExecutionGraph \<Rightarrow> int \<Rightarrow> Event \<Rightarrow> int list \<Rightarrow> Event res" where
  "last_nontrivial g t lock [] = Ok lock"
| "last_nontrivial g t lock (j # js) = rbind (getEventLabel g (Event t j)) (\<lambda>l. rbind (isNonTrivial g l) (\<lambda>b.
     if b then Ok (Event t j) else last_nontrivial g t lock js))"

definition getLastNonTrivialInCS :: "ExecutionGraph \<Rightarrow> Event \<Rightarrow> Event res" where
  "getLastNonTrivialInCS g lock =
     rbind (getEventLabel g lock) (\<lambda>lLab. rbind (BUG_ON (lkind lLab \<noteq> EL_LockLAPOR)) (\<lambda>_.
     rbind (cs_end g lLab) (\<lambda>i. last_nontrivial g (ethread (lpos lLab)) lock (rev [eindex (lpos lLab) + 1 .. i - 1]))))"

fun first_nontrivial :: "ExecutionGraph \<Rightarrow> EventLabel \<Rightarrow> Event \<Rightarrow> int list \<Rightarrow> Event res" where
  "first_nontrivial g lLab lock [] = Ok lock"
| "first_nontrivial g lLab lock (j # js) = rbind (getEventLabel g (Event (ethread (lpos lLab)) j)) (\<lambda>e.
     rbind (getEventLabel g (lpos e)) (\<lambda>l. rbind (isNonTrivial g l) (\<lambda>b.
       if b then Ok (lpos e)
       else if lkind e = EL_UnlockLAPOR \<and> llockAddr e = llockAddr lLab then Ok lock
       else first_nontrivial g lLab lock js)))"

definition getFirstNonTrivialInCS :: "ExecutionGraph \<Rightarrow> Event \<Rightarrow> Event res" where
  "getFirstNonTrivialInCS g lock =
     rbind (getEventLabel g lock) (\<lambda>lLab. rbind (BUG_ON (lkind lLab \<noteq> EL_LockLAPOR)) (\<lambda>_.
     rbind (getThreadSize g (ethread (lpos lLab))) (\<lambda>n. first_nontrivial g lLab lock [eindex (lpos lLab) + 1 .. n - 1])))"

section \<open>The order of the critical sections\<close>

text \<open>\<open>operator[]\<close> of a map of relations: the relation, an empty one for a missing entry, and the map with it.\<close>

definition rel_at :: "PerLocRelation \<Rightarrow> SAddr \<Rightarrow> GlobalRelation" where
  "rel_at m a = (case map_of m a of None \<Rightarrow> adj_empty | Some r \<Rightarrow> r)"

definition rel_touch :: "PerLocRelation \<Rightarrow> SAddr \<Rightarrow> PerLocRelation" where
  "rel_touch m a = assoc_set a (rel_at m a) m"

definition lb_edge :: "SAddr \<Rightarrow> Event \<Rightarrow> Event \<Rightarrow> PerLocRelation \<Rightarrow> PerLocRelation res" where
  "lb_edge a x y lb = rbind (addEdge (rel_at lb a) x y) (\<lambda>r. Ok (assoc_set a r lb))"

definition lb_to_section :: "ExecutionGraph \<Rightarrow> EventLabel \<Rightarrow> Event \<Rightarrow> PerLocRelation \<Rightarrow> PerLocRelation res" where
  "lb_to_section g lLab s lb =
     rbind (getLastThreadLockAtLocLAPOR g s (llockAddr lLab)) (\<lambda>sLock.
       if isInitializer sLock \<or> sLock = lpos lLab then Ok lb else lb_edge (llockAddr lLab) (lpos lLab) sLock lb)"

definition calcLbFromLoad :: "ExecutionGraph \<Rightarrow> EventLabel \<Rightarrow> EventLabel \<Rightarrow> PerLocRelation \<times> PerLocRelation \<Rightarrow>
    (PerLocRelation \<times> PerLocRelation) res" where
  "calcLbFromLoad g rLab lLab = (\<lambda>(lb, co).
     let coLoc = rel_at co (laddr rLab); rf = lrf rLab in
     rbind (getLastThreadLockAtLocLAPOR g rf (llockAddr lLab)) (\<lambda>rfLock.
     rbind (if rfLock \<noteq> getInitializer \<and> rfLock \<noteq> lpos lLab \<and> eindex rf \<ge> eindex rfLock
            then lb_edge (llockAddr lLab) rfLock (lpos lLab) lb else Ok lb) (\<lambda>lb1.
     rbind (rfold (\<lambda>s lb. rbind (if isInitializer rf then Ok True else adj_rel coLoc rf s) (\<lambda>after.
         if after then lb_to_section g lLab s lb else Ok lb)) (elems coLoc) lb1) (\<lambda>lb2.
       Ok (lb2, rel_touch co (laddr rLab))))))"

definition calcLbFromStore :: "ExecutionGraph \<Rightarrow> EventLabel \<Rightarrow> EventLabel \<Rightarrow> PerLocRelation \<times> PerLocRelation \<Rightarrow>
    (PerLocRelation \<times> PerLocRelation) res" where
  "calcLbFromStore g wLab lLab = (\<lambda>(lb, co).
     let coLoc = rel_at co (laddr wLab) in
     rbind (getIndex coLoc (lpos wLab)) (\<lambda>i. rbind (vec_get (nodeSucc coLoc) i) (\<lambda>succs.
     rbind (rfold (\<lambda>j lb. rbind (vec_get (elems coLoc) j) (\<lambda>s. lb_to_section g lLab s lb)) succs lb) (\<lambda>lb1.
       Ok (lb1, rel_touch co (laddr wLab))))))"

definition lb_section :: "ExecutionGraph \<Rightarrow> Event \<Rightarrow> PerLocRelation \<times> PerLocRelation \<Rightarrow> (PerLocRelation \<times> PerLocRelation) res" where
  "lb_section g l p =
     rbind (getEventLabel g l) (\<lambda>lLab. rbind (BUG_ON (lkind lLab \<noteq> EL_LockLAPOR)) (\<lambda>_.
     rbind (getLastNonTrivialInCS g l) (\<lambda>ul.
       rfold (\<lambda>i p. rbind (getEventLabel g (Event (ethread l) i)) (\<lambda>lab.
         rbind (if isa_Read (lkind lab) then calcLbFromLoad g lab lLab p else Ok p) (\<lambda>p1.
           if isa_Write (lkind lab) then calcLbFromStore g lab lLab p1 else Ok p1))) [eindex l..eindex ul] p)))"

definition calcLbRelation :: "ExecutionGraph \<Rightarrow> PerLocRelation \<times> PerLocRelation \<Rightarrow> (PerLocRelation \<times> PerLocRelation) res" where
  "calcLbRelation g p0 =
     rfold (\<lambda>a p. rbind (rfold (lb_section g) (elems (rel_at (fst p) a)) p) (\<lambda>(lb, co).
       rbind (transClosure (rel_at lb a)) (\<lambda>r. Ok (assoc_set a r lb, co)))) (map fst (fst p0)) p0"

definition lb_constraint :: "ExecutionGraph \<Rightarrow> GlobalRelation \<Rightarrow> Event \<Rightarrow> Event \<Rightarrow> nat \<Rightarrow> Event \<Rightarrow> bool \<times> GlobalRelation \<Rightarrow>
    (bool \<times> GlobalRelation) res" where
  "lb_constraint g lbLoc l ul lIndex w = (\<lambda>(changed, hb).
     rbind (getIndex lbLoc w) (\<lambda>wIndex. rbind (adj_edge lbLoc lIndex wIndex) (\<lambda>b.
       if \<not> b then Ok (changed, hb)
       else rbind (getFirstNonTrivialInCS g w) (\<lambda>wl. rbind (adj_rel hb ul wl) (\<lambda>h.
         if h then Ok (changed, hb) else rbind (addEdge hb ul wl) (\<lambda>hb1. Ok (True, hb1)))))))"

definition addLbConstraints :: "ExecutionGraph \<Rightarrow> PerLocRelation \<Rightarrow> GlobalRelation \<Rightarrow> (bool \<times> GlobalRelation) res" where
  "addLbConstraints g lb hb0 =
     rfold (\<lambda>(a, lbLoc). rfold (\<lambda>l q. rbind (getLastNonTrivialInCS g l) (\<lambda>ul. rbind (getIndex lbLoc l) (\<lambda>lIndex.
         rfold (lb_constraint g lbLoc l ul lIndex) (elems lbLoc) q))) (elems lbLoc)) lb (False, hb0)"

text \<open>The predicate of \<open>std::remove_if\<close> may enter empty relations into the map; they have no thread.\<close>

definition getLbOrdering :: "ExecutionGraph \<Rightarrow> PerLocRelation \<Rightarrow> Event list res" where
  "getLbOrdering g lb =
     rbind (rfold (\<lambda>p prios. rbind (topoSort (snd p)) (\<lambda>s. Ok (prios @ s))) lb []) (\<lambda>prios.
       rfilter (\<lambda>e. rbind (getEventLabel g e) (\<lambda>l.
         if lkind l \<noteq> EL_LockLAPOR then Bug
         else rbind (hasNoEdges (rel_at lb (llockAddr l)) e) (\<lambda>b. Ok (\<not> b)))) prios)"

section \<open>One step\<close>

definition init_overwritten :: "ExecutionGraph \<Rightarrow> GlobalRelation \<Rightarrow> nat \<Rightarrow> bool \<times> PerLocRelation \<Rightarrow> (bool \<times> PerLocRelation) res" where
  "init_overwritten g hb r = (\<lambda>(bad, co).
     if bad then Ok (bad, co)
     else rbind (getEventLabel g (elems hb ! r)) (\<lambda>l.
       if \<not> isa_Read (lkind l) \<or> lrf l \<noteq> getInitializer then Ok (False, co)
       else rbind (rany (\<lambda>s. rbind (getIndex hb s) (\<lambda>i. adj_edge hb i r)) (elems (rel_at co (laddr l)))) (\<lambda>b.
         Ok (b, rel_touch co (laddr l)))))"

definition co_contradicts :: "ExecutionGraph \<Rightarrow> GlobalRelation \<Rightarrow> GlobalRelation \<Rightarrow> Event \<Rightarrow> Event \<Rightarrow> bool res" where
  "co_contradicts g hb co s1 s2 =
     rbind (adj_rel co s1 s2) (\<lambda>c.
     rbind (if c then rany (\<lambda>x. x) [adj_rel hb s2 s1, isWriteRfBeforeRel g hb s2 s1 (\<lambda>_. Ok True),
              isHbOptRfBeforeRel g hb s2 s1 (\<lambda>_. Ok True)] else Ok False) (\<lambda>b.
       if b then Ok True
       else rbind (getWriteLabel g s2) (\<lambda>w. case w of None \<Rightarrow> Bug
         | Some sLab \<Rightarrow> if c then rany (\<lambda>r. isHbOptRfBeforeRel g hb r s1 (\<lambda>_. Ok True)) (lreaders sLab) else Ok False)))"

definition co_bad :: "ExecutionGraph \<Rightarrow> GlobalRelation \<Rightarrow> GlobalRelation \<Rightarrow> bool res" where
  "co_bad g hb co = rbind (isIrreflexive co) (\<lambda>b. if \<not> b then Ok True
     else rany (\<lambda>s1. rany (co_contradicts g hb co s1) (elems co)) (elems co))"

definition lb_doCalc :: "ExecutionGraph \<Rightarrow> GlobalRelation \<times> PerLocRelation \<times> PerLocRelation \<Rightarrow>
    (CalculationResult \<times> GlobalRelation \<times> PerLocRelation \<times> PerLocRelation) res" where
  "lb_doCalc g = (\<lambda>(hb, lb, co).
     rbind (isIrreflexive hb) (\<lambda>h. if \<not> h then Ok (\<lparr>cr_changed = False, cr_cons = False\<rparr>, hb, lb, co)
     else rbind (calcLbRelation g (lb, co)) (\<lambda>(lb1, co1).
     rbind (rany (\<lambda>p. rbind (isIrreflexive (snd p)) (\<lambda>b. Ok (\<not> b))) lb1) (\<lambda>cyc.
       if cyc then Ok (\<lparr>cr_changed = False, cr_cons = False\<rparr>, hb, lb1, co1)
       else rbind (addLbConstraints g lb1 hb) (\<lambda>(changed, hb1). rbind (transClosure hb1) (\<lambda>hb2.
         rbind (rfold (init_overwritten g hb2) [0..<length (elems hb2)] (False, co1)) (\<lambda>(bad, co2).
           if bad then Ok (\<lparr>cr_changed = changed, cr_cons = False\<rparr>, hb2, lb1, co2)
           else rbind (rany (\<lambda>p. co_bad g hb2 (snd p)) co2) (\<lambda>bad2.
             Ok (\<lparr>cr_changed = changed, cr_cons = \<not> bad2\<rparr>, hb2, lb1, co2)))))))))"

definition lb_calculator :: "('p \<Rightarrow> LockLists) \<Rightarrow> (LockLists \<Rightarrow> 'p \<Rightarrow> 'p) \<Rightarrow> 'p Calculator" where
  "lb_calculator locks put =
     \<lparr>initCalc = \<lambda>s. rbind (getPerLocRelation s R_lb) (\<lambda>lb.
        putPerLocRelation s R_lb (fold (\<lambda>p lb. assoc_set (fst p) (adj_of (snd p)) lb) (locks (cPriv s)) lb)),
      doCalc = \<lambda>s. rbind (getGlobalRelation s R_hb) (\<lambda>hb. rbind (getPerLocRelation s R_lb) (\<lambda>lb.
        rbind (getPerLocRelation s R_co) (\<lambda>co. rbind (lb_doCalc (cGraph s) (hb, lb, co)) (\<lambda>(r, hb1, lb1, co1).
          rbind (putGlobalRelation s R_hb hb1) (\<lambda>s1. rbind (putPerLocRelation s1 R_lb lb1) (\<lambda>s2.
            rbind (putPerLocRelation s2 R_co co1) (\<lambda>s3. Ok (r, s3)))))))),
      calcRemoveAfter = \<lambda>preds s. rbind (lb_removeAfter preds (locks (cPriv s))) (\<lambda>l.
        Ok (s\<lparr>cPriv := put l (cPriv s)\<rparr>))\<rparr>"

end
