(* ===== verification/GenMC_Recovery.thy ===== *)
theory GenMC_Recovery
  imports GenMC_Persistency GenMC_LBCalc
begin

text \<open>
  Persists-before and the validity of a recovery (\<open>src/src/PersistencyChecker.cpp\<close>), with coherence by
  modification orders. The map of the coherence relations is passed on, since \<open>operator[]\<close> may enter a location.
\<close>

definition pb_add_co :: "ExecutionGraph \<Rightarrow> GlobalRelation \<Rightarrow> GlobalRelation \<Rightarrow> GlobalRelation res" where
  "pb_add_co g coLoc pb =
     (case elems coLoc of [] \<Rightarrow> Ok pb
      | s # _ \<Rightarrow> rbind (getEventLabel g s) (\<lambda>l.
          if \<not> isa_DskWrite (lkind l) then Ok pb
          else rfold (\<lambda>s1. rfold (\<lambda>s2 pb. rbind (adj_rel coLoc s1 s2) (\<lambda>b. if b then addEdge pb s1 s2 else Ok pb)) (elems coLoc))
                 (elems coLoc) pb))"

definition getDskWrite :: "ExecutionGraph \<Rightarrow> Event \<Rightarrow> EventLabel res" where
  "getDskWrite g d = rbind (getEventLabel g d) (\<lambda>l. rbind (BUG_ON (\<not> isa_DskWrite (lkind l))) (\<lambda>_. Ok l))"

definition pb_add_sync :: "ExecutionGraph \<Rightarrow> nat \<Rightarrow> Event \<Rightarrow> Event \<Rightarrow> GlobalRelation \<Rightarrow> GlobalRelation res" where
  "pb_add_sync g blockSize d1 d2 pb =
     rbind (getDskWrite g d1) (\<lambda>lab1.
       if d1 = d2 then Ok pb
       else rbind (getDskWrite g d2) (\<lambda>lab2.
       rbind (if dv_contains (lpbView lab1) d2 then addEdge pb d2 d1 else Ok pb) (\<lambda>pb1.
       rbind (view_contains (hbView lab1) d2) (\<lambda>hb.
         if \<not> hb then Ok pb1
         else rbind (writeSameBlock lab1 lab2 blockSize) (\<lambda>b. if b then addEdge pb1 d2 d1 else Ok pb1)))))"

text \<open>\<open>calcPb()\<close> is a \<open>BUG()\<close> when the relation has a cycle.\<close>

definition calcPb :: "ExecutionGraph \<Rightarrow> MO \<Rightarrow> nat \<Rightarrow> (GlobalRelation \<times> PerLocRelation) res" where
  "calcPb g m blockSize =
     rbind (getDskWriteOperations g) (\<lambda>ws.
     rbind (mo_initCalc m) (\<lambda>co.
     rbind (rfold (\<lambda>p. pb_add_co g (snd p)) co (adj_of ws)) (\<lambda>pb1.
     rbind (rfold (\<lambda>d1. rfold (pb_add_sync g blockSize d1) (elems pb1)) (elems pb1) pb1) (\<lambda>pb2.
     rbind (transClosure pb2) (\<lambda>pb3. rbind (isIrreflexive pb3) (\<lambda>b. rbind (BUG_ON (\<not> b)) (\<lambda>_. Ok (pb3, co))))))))"

definition rec_cycle_at :: "ExecutionGraph \<Rightarrow> GlobalRelation \<Rightarrow> GlobalRelation \<Rightarrow> EventLabel \<Rightarrow> Event \<Rightarrow> bool res" where
  "rec_cycle_at g pb coLoc rLab s =
     rbind (if isInitializer (lrf rLab) then Ok True else adj_rel coLoc (lrf rLab) s) (\<lambda>after.
       if \<not> after then Ok False
       else rbind (isStoreReadFromRecRoutine g s) (\<lambda>b. if b then Ok True
       else rany (\<lambda>p. rbind (adj_rel pb s p) (\<lambda>c. if \<not> c then Ok False
              else rbind (getEventLabel g p) (\<lambda>l. if isa_Write (lkind l) then isStoreReadFromRecRoutine g p else Ok False)))
            (elems pb)))"

definition isRecFromReadValid :: "ExecutionGraph \<Rightarrow> GlobalRelation \<Rightarrow> EventLabel \<Rightarrow> PerLocRelation \<Rightarrow> (bool \<times> PerLocRelation) res" where
  "isRecFromReadValid g pb rLab co =
     (let coLoc = rel_at co (laddr rLab) in
      rbind (rany (rec_cycle_at g pb coLoc rLab) (elems coLoc)) (\<lambda>bad. Ok (\<not> bad, rel_touch co (laddr rLab))))"

fun rec_reads :: "ExecutionGraph \<Rightarrow> GlobalRelation \<Rightarrow> int list \<Rightarrow> PerLocRelation \<Rightarrow> bool res" where
  "rec_reads g pb [] co = Ok True"
| "rec_reads g pb (j # js) co = rbind (getEventLabel g (Event (recoveryTID g) j)) (\<lambda>l.
     if lkind l \<noteq> EL_DskRead then rec_reads g pb js co
     else rbind (isRecFromReadValid g pb l co) (\<lambda>(ok, co1). if ok then rec_reads g pb js co1 else Ok False))"

definition isRecAcyclic :: "ExecutionGraph \<Rightarrow> MO \<Rightarrow> nat \<Rightarrow> bool res" where
  "isRecAcyclic g m blockSize =
     rbind (BUG_ON (recoveryTID g = - 1)) (\<lambda>_.
     rbind (calcPb g m blockSize) (\<lambda>(pb, co).
     rbind (getThreadSize g (recoveryTID g)) (\<lambda>n. rec_reads g pb [1..n - 1] co)))"

end
