(* ===== verification/GenMC_PSC.thy ===== *)
theory GenMC_PSC
  imports GenMC_LBCalc
begin

text \<open>
  The relation \<open>psc\<close> of RC11 (\<open>src/src/PSCCalculator.cpp\<close>): the partial order of sequentially consistent
  accesses and fences, whose cycles make an execution inconsistent. \<open>fcs\<close> are the fences. The stores of a
  location are those of its modification order.
\<close>

section \<open>Successors and predecessors\<close>

text \<open>The locations that are accessed more than once, in the order of the second access.\<close>

definition double_step :: "EventLabel \<Rightarrow> SAddr list \<times> SAddr list \<Rightarrow> SAddr list \<times> SAddr list" where
  "double_step l = (\<lambda>(singles, doubles).
     if \<not> isa_MemAccess (lkind l) \<or> laddr l \<in> set doubles then (singles, doubles)
     else if laddr l \<in> set singles then (filter (\<lambda>a. a \<noteq> laddr l) singles, doubles @ [laddr l])
     else (singles @ [laddr l], doubles))"

definition getDoubleLocs :: "ExecutionGraph \<Rightarrow> SAddr list" where
  "getDoubleLocs g = snd (fold double_step (concat (map (drop 1) (events g))) ([], []))"

definition is_rmw_load :: "ExecutionGraph \<Rightarrow> Event \<Rightarrow> bool res" where
  "is_rmw_load g e = rbind (getEventLabel g e) (isRMWLoad g)"

definition calcSCFencesSuccs :: "ExecutionGraph \<Rightarrow> GlobalRelation \<Rightarrow> Event list \<Rightarrow> Event \<Rightarrow> Event list res" where
  "calcSCFencesSuccs g hb fcs e = rbind (is_rmw_load g e) (\<lambda>b. if b then Ok [] else rfilter (adj_rel hb e) fcs)"

definition calcSCFencesPreds :: "ExecutionGraph \<Rightarrow> GlobalRelation \<Rightarrow> Event list \<Rightarrow> Event \<Rightarrow> Event list res" where
  "calcSCFencesPreds g hb fcs e = rbind (is_rmw_load g e) (\<lambda>b. if b then Ok [] else rfilter (\<lambda>f. adj_rel hb f e) fcs)"

definition calcSCSuccs :: "ExecutionGraph \<Rightarrow> GlobalRelation \<Rightarrow> Event list \<Rightarrow> Event \<Rightarrow> Event list res" where
  "calcSCSuccs g hb fcs e =
     rbind (getEventLabel g e) (\<lambda>l. rbind (isRMWLoad g l) (\<lambda>b.
       if b then Ok [] else if isSC l then Ok [e] else calcSCFencesSuccs g hb fcs e))"

definition calcSCPreds :: "ExecutionGraph \<Rightarrow> GlobalRelation \<Rightarrow> Event list \<Rightarrow> Event \<Rightarrow> Event list res" where
  "calcSCPreds g hb fcs e =
     rbind (getEventLabel g e) (\<lambda>l. rbind (isRMWLoad g l) (\<lambda>b.
       if b then Ok [] else if isSC l then Ok [e] else calcSCFencesPreds g hb fcs e))"

definition psc_write :: "ExecutionGraph \<Rightarrow> Event \<Rightarrow> EventLabel res" where
  "psc_write g e = rbind (getEventLabel g e) (\<lambda>l. rbind (BUG_ON (\<not> isa_Write (lkind l))) (\<lambda>_. Ok l))"

definition calcRfSCSuccs :: "ExecutionGraph \<Rightarrow> GlobalRelation \<Rightarrow> Event list \<Rightarrow> Event \<Rightarrow> Event list res" where
  "calcRfSCSuccs g hb fcs ev =
     rbind (psc_write g ev) (\<lambda>w. rfold (\<lambda>e rfs. rbind (calcSCSuccs g hb fcs e) (\<lambda>s. Ok (rfs @ s))) (lreaders w) [])"

definition calcRfSCFencesSuccs :: "ExecutionGraph \<Rightarrow> GlobalRelation \<Rightarrow> Event list \<Rightarrow> Event \<Rightarrow> Event list res" where
  "calcRfSCFencesSuccs g hb fcs ev =
     rbind (psc_write g ev) (\<lambda>w. rfold (\<lambda>e rfs. rbind (calcSCFencesSuccs g hb fcs e) (\<lambda>s. Ok (rfs @ s))) (lreaders w) [])"

section \<open>Edges\<close>

definition addRbEdges :: "ExecutionGraph \<Rightarrow> GlobalRelation \<Rightarrow> Event list \<Rightarrow> Event list \<Rightarrow> Event list \<Rightarrow> Event \<Rightarrow> GlobalRelation \<Rightarrow> GlobalRelation res" where
  "addRbEdges g hb fcs moAfter moRfAfter ev matrix =
     rbind (psc_write g ev) (\<lambda>w. rfold (\<lambda>e matrix.
       rbind (calcSCPreds g hb fcs e) (\<lambda>preds. rbind (calcSCFencesPreds g hb fcs e) (\<lambda>fencePreds.
       rbind (addEdgesFromTo matrix preds moAfter) (\<lambda>m1. addEdgesFromTo m1 fencePreds moRfAfter)))) (lreaders w) matrix)"

definition addMoRfEdges :: "ExecutionGraph \<Rightarrow> GlobalRelation \<Rightarrow> Event list \<Rightarrow> Event list \<Rightarrow> Event list \<Rightarrow> Event \<Rightarrow> GlobalRelation \<Rightarrow> GlobalRelation res" where
  "addMoRfEdges g hb fcs moAfter moRfAfter ev matrix =
     rbind (calcSCPreds g hb fcs ev) (\<lambda>preds. rbind (calcSCFencesPreds g hb fcs ev) (\<lambda>fencePreds.
     rbind (calcRfSCSuccs g hb fcs ev) (\<lambda>rfs.
     rbind (addEdgesFromTo matrix preds moAfter) (\<lambda>m1. rbind (addEdgesFromTo m1 preds rfs) (\<lambda>m2.
       addEdgesFromTo m2 fencePreds moRfAfter)))))"

definition co_after :: "ExecutionGraph \<Rightarrow> GlobalRelation \<Rightarrow> Event list \<Rightarrow> GlobalRelation \<Rightarrow> nat \<Rightarrow> (Event list \<times> Event list) res" where
  "co_after g hb fcs co i =
     rfold (\<lambda>j (coAfter, coRfAfter). rbind (adj_edge co i j) (\<lambda>b.
       if \<not> b then Ok (coAfter, coRfAfter)
       else rbind (calcSCSuccs g hb fcs (elems co ! j)) (\<lambda>succs. rbind (calcRfSCFencesSuccs g hb fcs (elems co ! j)) (\<lambda>fenceRfs.
         Ok (coAfter @ succs, coRfAfter @ fenceRfs))))) [0..<length (elems co)] ([], [])"

definition addSCEcosLoc :: "ExecutionGraph \<Rightarrow> GlobalRelation \<Rightarrow> Event list \<Rightarrow> GlobalRelation \<Rightarrow> GlobalRelation \<Rightarrow> GlobalRelation res" where
  "addSCEcosLoc g hb fcs co psc =
     rfold (\<lambda>i psc. rbind (co_after g hb fcs co i) (\<lambda>(coAfter, coRfAfter).
       rbind (addRbEdges g hb fcs coAfter coRfAfter (elems co ! i) psc) (addMoRfEdges g hb fcs coAfter coRfAfter (elems co ! i))))
       [0..<length (elems co)] psc"

definition sb_hb_edge :: "ExecutionGraph \<Rightarrow> GlobalRelation \<Rightarrow> nat \<Rightarrow> nat \<Rightarrow> GlobalRelation \<Rightarrow> GlobalRelation res" where
  "sb_hb_edge g hb i j matrix =
     (if i = j then Ok matrix
      else rbind (getEventLabel g (elems matrix ! i)) (\<lambda>ei. rbind (getEventLabel g (elems matrix ! j)) (\<lambda>ej.
        if ethread (lpos ei) = ethread (lpos ej)
        then if eindex (lpos ei) < eindex (lpos ej) then addEdgeId matrix i j else Ok matrix
        else rbind (getPreviousNonEmptyLabel g (lpos ej)) (\<lambda>ejPrev.
          if \<not> isa_MemAccess (lkind ejPrev) \<or> \<not> isa_MemAccess (lkind ej) \<or> \<not> isa_MemAccess (lkind ei) then Ok matrix
          else rbind (getLastThreadEvent g (ethread (lpos ei))) (\<lambda>le.
            if lpos ei = le \<or> laddr ejPrev = laddr ej then Ok matrix
            else rbind (getEventLabel g (next_ev (lpos ei))) (\<lambda>eiNext.
              if \<not> isa_MemAccess (lkind eiNext) \<or> laddr ei = laddr eiNext then Ok matrix
              else rbind (adj_rel hb (lpos eiNext) (lpos ejPrev)) (\<lambda>b. if b then addEdgeId matrix i j else Ok matrix)))))))"

definition addSbHbEdges :: "ExecutionGraph \<Rightarrow> GlobalRelation \<Rightarrow> GlobalRelation \<Rightarrow> GlobalRelation res" where
  "addSbHbEdges g hb matrix =
     rfold (\<lambda>i. rfold (sb_hb_edge g hb i) [0..<length (elems matrix)]) [0..<length (elems matrix)] matrix"

definition init_edges_to :: "ExecutionGraph \<Rightarrow> GlobalRelation \<Rightarrow> Event list \<Rightarrow> Event list \<Rightarrow> Event list \<Rightarrow> Event \<Rightarrow> GlobalRelation \<Rightarrow> GlobalRelation res" where
  "init_edges_to g hb fcs preds fencePreds w matrix =
     rbind (getWriteLabel g w) (\<lambda>wLab. rbind (calcSCSuccs g hb fcs w) (\<lambda>wSuccs.
     rbind (addEdgesFromTo matrix preds wSuccs) (\<lambda>m1. rbind (deref wLab) (\<lambda>wl.
       rfold (\<lambda>r matrix. rbind (calcSCFencesSuccs g hb fcs r) (addEdgesFromTo matrix fencePreds)) (lreaders wl) m1))))"

definition addInitEdges :: "ExecutionGraph \<Rightarrow> MO \<Rightarrow> GlobalRelation \<Rightarrow> Event list \<Rightarrow> GlobalRelation \<Rightarrow> GlobalRelation res" where
  "addInitEdges g m hb fcs matrix =
     rfold (\<lambda>l matrix.
       if \<not> isa_Read (lkind l) then Ok matrix
       else rbind (isRMWLoad g l) (\<lambda>b.
         if b \<or> \<not> isInitializer (lrf l) then Ok matrix
         else rbind (calcSCPreds g hb fcs (lpos l)) (\<lambda>preds. rbind (calcSCFencesPreds g hb fcs (lpos l)) (\<lambda>fencePreds.
           rbind (mo_at m (laddr l)) (\<lambda>ws. rfold (init_edges_to g hb fcs preds fencePreds) ws matrix))))) (labels g) matrix"

definition addSCEcos :: "ExecutionGraph \<Rightarrow> GlobalRelation \<Rightarrow> Event list \<Rightarrow> SAddr list \<Rightarrow> PerLocRelation \<times> GlobalRelation \<Rightarrow>
    (PerLocRelation \<times> GlobalRelation) res" where
  "addSCEcos g hb fcs scLocs q =
     rfold (\<lambda>a (co, psc). rbind (addSCEcosLoc g hb fcs (rel_at co a) psc) (\<lambda>psc1. Ok (rel_touch co a, psc1))) scLocs q"

section \<open>The calculator\<close>

definition calcPscRelation :: "ExecutionGraph \<Rightarrow> MO \<Rightarrow> GlobalRelation \<Rightarrow> PerLocRelation \<times> GlobalRelation \<Rightarrow>
    (PerLocRelation \<times> GlobalRelation) res" where
  "calcPscRelation g m hb = (\<lambda>(co, psc).
     rbind (getSCs g) (\<lambda>(scs, fcs).
       if scs = [] then Ok (co, psc)
       else rbind (addInitEdges g m hb fcs psc) (\<lambda>psc1. rbind (addSbHbEdges g hb psc1) (\<lambda>psc2.
         rbind (addSCEcos g hb fcs (getDoubleLocs g) (co, psc2)) (\<lambda>(co1, psc3). rbind (transClosure psc3) (\<lambda>psc4.
           Ok (co1, psc4)))))))"

text \<open>\<open>addPscConstraints()\<close> extends coherence only when it is a \<open>WBCalculator\<close>: the parameter \<open>wb\<close> is its
  \<open>calcWbRelation()\<close> on a location, with the predicate of sequentially consistent events.\<close>

definition psc_event :: "ExecutionGraph \<Rightarrow> Event \<Rightarrow> bool res" where
  "psc_event g e = rbind (getEventLabel g e) (\<lambda>l. if isSC l then rbind (is_rmw_load g e) (\<lambda>b. Ok (\<not> b)) else Ok False)"

type_synonym WbStep = "SAddr \<Rightarrow> GlobalRelation \<Rightarrow> GlobalRelation \<Rightarrow> (Event \<Rightarrow> bool res) \<Rightarrow> (CalculationResult \<times> GlobalRelation) res"

definition addPscConstraints :: "WbStep option \<Rightarrow> ExecutionGraph \<Rightarrow> GlobalRelation \<Rightarrow> PerLocRelation \<Rightarrow> (CalculationResult \<times> PerLocRelation) res" where
  "addPscConstraints wb g psc co =
     (case wb of None \<Rightarrow> Ok (\<lparr>cr_changed = False, cr_cons = True\<rparr>, co)
      | Some step \<Rightarrow> rfold (\<lambda>(a, r) (result, acc). rbind (step a r psc (psc_event g)) (\<lambda>(q, r1).
          Ok (cr_or result q, acc @ [(a, r1)]))) co (\<lparr>cr_changed = False, cr_cons = True\<rparr>, []))"

definition psc_initCalc :: "ExecutionGraph \<Rightarrow> GlobalRelation res" where
  "psc_initCalc g = rbind (getSCs g) (\<lambda>(scs, _). Ok (adj_of scs))"

definition psc_doCalc :: "WbStep option \<Rightarrow> ExecutionGraph \<Rightarrow> MO \<Rightarrow> GlobalRelation \<times> GlobalRelation \<times> PerLocRelation \<Rightarrow>
    (CalculationResult \<times> GlobalRelation \<times> GlobalRelation \<times> PerLocRelation) res" where
  "psc_doCalc wb g m = (\<lambda>(hb, psc, co).
     rbind (transClosure hb) (\<lambda>hb1. rbind (isIrreflexive hb1) (\<lambda>h.
       if \<not> h then Ok (\<lparr>cr_changed = False, cr_cons = False\<rparr>, hb1, psc, co)
       else rbind (calcPscRelation g m hb1 (co, psc)) (\<lambda>(co1, psc1). rbind (isIrreflexive psc1) (\<lambda>p.
         if \<not> p then Ok (\<lparr>cr_changed = False, cr_cons = False\<rparr>, hb1, psc1, co1)
         else rbind (addPscConstraints wb g psc1 co1) (\<lambda>(result, co2).
           if \<not> cr_cons result then Ok (\<lparr>cr_changed = cr_changed result, cr_cons = False\<rparr>, hb1, psc1, co2)
           else rbind (rmap (\<lambda>(a, r). rbind (transClosure r) (\<lambda>r1. Ok (a, r1))) co2) (\<lambda>co3.
             rbind (rany (\<lambda>(a, r). rbind (isIrreflexive r) (\<lambda>b. Ok (\<not> b))) co3) (\<lambda>bad.
               Ok (\<lparr>cr_changed = cr_changed result, cr_cons = \<not> bad\<rparr>, hb1, psc1, co3))))))))) "

text \<open>The calculation on a location belongs to the coherence calculator, so it depends on the state.\<close>

definition psc_calculator :: "('p Cons \<Rightarrow> WbStep) option \<Rightarrow> ('p \<Rightarrow> MO) \<Rightarrow> 'p Calculator" where
  "psc_calculator wb mo =
     \<lparr>initCalc = \<lambda>s. rbind (psc_initCalc (cGraph s)) (putGlobalRelation s R_psc),
      doCalc = \<lambda>s. rbind (getGlobalRelation s R_hb) (\<lambda>hb. rbind (getGlobalRelation s R_psc) (\<lambda>psc.
        rbind (getPerLocRelation s R_co) (\<lambda>co. rbind (psc_doCalc (map_option (\<lambda>f. f s) wb) (cGraph s) (mo (cPriv s)) (hb, psc, co)) (\<lambda>(r, hb1, psc1, co1).
          rbind (putGlobalRelation s R_hb hb1) (\<lambda>s1. rbind (putGlobalRelation s1 R_psc psc1) (\<lambda>s2.
            rbind (putPerLocRelation s2 R_co co1) (\<lambda>s3. Ok (r, s3)))))))),
      calcRemoveAfter = \<lambda>preds s. Ok s\<rparr>"

end
