(* ===== verification/GenMC_MOProps.thy ===== *)
theory GenMC_MOProps
  imports GenMC_MO GenMC_AdjListProps
begin

text \<open>
  What modification orders promise: a read may read exactly the stores that no store it knows of overwrites, a
  store may be placed exactly behind the stores that are known to precede it, and the coherence relation of
  the calculator is the order of the lists.
\<close>

section \<open>The map\<close>

lemma map_of_assoc_set [simp]: "map_of (assoc_set k v ps) = (map_of ps)(k \<mapsto> v)"
  by (induction ps) auto

lemma mo_list_put [simp]: "mo_list (mo_put m a l) b = (if b = a then l else mo_list m b)"
  by (simp add: mo_list_def mo_put_def)

lemma mo_list_ref [simp]: "mo_list (mo_ref m a) b = mo_list m b"
  by (simp add: mo_ref_def)

lemma mo_ooo_put [simp]: "mo_ooo (mo_put m a l) = mo_ooo m"
  by (simp add: mo_put_def)

lemma mo_tracks_put [simp]: "mo_tracksLoc (mo_put m a l) b \<longleftrightarrow> b = a \<or> mo_tracksLoc m b"
  by (simp add: mo_tracksLoc_def mo_put_def)

lemma mo_at_tracked [simp]: "mo_tracksLoc m a \<Longrightarrow> mo_at m a = Ok (mo_list m a)"
  by (auto simp: mo_at_def mo_tracksLoc_def mo_list_def)

section \<open>Searching\<close>

lemma find_index_Some:
  "find_index P xs = Some i \<longleftrightarrow> i < length xs \<and> P (xs ! i) \<and> (\<forall>j < i. \<not> P (xs ! j))"
proof (induction xs arbitrary: i)
  case (Cons x xs)
  then show ?case by (cases i) (auto simp: All_less_Suc2)
qed simp

lemma find_index_distinct: "distinct xs \<Longrightarrow> i < length xs \<Longrightarrow> find_index (\<lambda>x. x = xs ! i) xs = Some i"
  by (auto simp: find_index_Some nth_eq_iff_index_eq)

lemma rfind_if_Ok:
  assumes "\<And>x. x \<in> set xs \<Longrightarrow> P x = Ok (W x)"
  obtains k where "rfind_if P xs = Ok k" "k \<le> length xs" "k < length xs \<Longrightarrow> W (xs ! k)" "\<And>j. j < k \<Longrightarrow> \<not> W (xs ! j)"
proof -
  have "\<exists>k. rfind_if P xs = Ok k \<and> k \<le> length xs \<and> (k < length xs \<longrightarrow> W (xs ! k)) \<and> (\<forall>j < k. \<not> W (xs ! j))"
    using assms
  proof (induction xs)
    case (Cons x xs)
    then obtain k where k: "rfind_if P xs = Ok k" "k \<le> length xs" "k < length xs \<longrightarrow> W (xs ! k)" "\<forall>j < k. \<not> W (xs ! j)"
      by auto
    show ?case
    proof (cases "W x")
      case False
      then have "\<forall>j < Suc k. \<not> W ((x # xs) ! j)" using k(4) by (auto simp: All_less_Suc2)
      then show ?thesis using Cons.prems [of x] k False by (intro exI [of _ "Suc k"]) simp
    qed (use Cons.prems [of x] in \<open>auto intro: exI [of _ 0]\<close>)
  qed simp
  then show ?thesis using that by blast
qed

text \<open>The offset behind the last store that is known.\<close>

lemma splitLocMOBefore_Ok:
  assumes "\<And>s. s \<in> set (mo_list m a) \<Longrightarrow> isWriteRfBefore g s (prev e) = Ok (W s)"
  obtains b where "splitLocMOBefore g m a e = Ok b" "b \<le> length (mo_list m a)"
    "b > 0 \<Longrightarrow> W (mo_list m a ! (b - 1))" "\<And>j. b \<le> j \<Longrightarrow> j < length (mo_list m a) \<Longrightarrow> \<not> W (mo_list m a ! j)"
proof -
  let ?l = "mo_list m a"
  obtain k where k: "rfind_if (\<lambda>s. isWriteRfBefore g s (prev e)) (rev ?l) = Ok k" "k \<le> length (rev ?l)"
    "k < length (rev ?l) \<Longrightarrow> W (rev ?l ! k)" "\<And>j. j < k \<Longrightarrow> \<not> W (rev ?l ! j)"
    using rfind_if_Ok [of "rev ?l" "\<lambda>s. isWriteRfBefore g s (prev e)" W] assms by auto
  show ?thesis
  proof (rule that [of "length ?l - k"])
    show "splitLocMOBefore g m a e = Ok (length ?l - k)" using k(1) by (simp add: splitLocMOBefore_def)
    show "W (?l ! (length ?l - k - 1))" if "length ?l - k > 0" using k(3) that by (simp add: rev_nth)
    show "\<not> W (?l ! j)" if "length ?l - k \<le> j" "j < length ?l" for j
      using k(4) [of "length ?l - Suc j"] that by (simp add: rev_nth)
  qed simp
qed

section \<open>An example\<close>

text \<open>The main thread writes twice to a location; the first write is known to the start of another thread.\<close>

definition mo_graph :: ExecutionGraph where
  "mo_graph = graph_init\<lparr>events := [[mkLabel EL_ThreadStart 0 Acquire (Event 0 0), mkLabel EL_Write 1 Release (Event 0 1),
     mkLabel EL_Write 2 Release (Event 0 2)], [(mkLabel EL_ThreadStart 3 Acquire (Event 1 0))\<lparr>hbView := [1, 0]\<rparr>]]\<rparr>"

definition mo_ex :: MO where
  "mo_ex = \<lparr>mo_stores = [(64, [Event 0 1, Event 0 2])], mo_ooo = False\<rparr>"

lemma mo_graph_label: "getEventLabel mo_graph (Event 0 1) = Ok (mkLabel EL_Write 1 Release (Event 0 1))"
    "getEventLabel mo_graph (Event 0 2) = Ok (mkLabel EL_Write 2 Release (Event 0 2))"
    "getEventLabel mo_graph (Event 1 0) = Ok ((mkLabel EL_ThreadStart 3 Acquire (Event 1 0))\<lparr>hbView := [1, 0]\<rparr>)"
  by (simp_all add: mo_graph_def getEventLabel_def vec_get_int_def vec_get_def)

lemma mo_graph_known: "isWriteRfBefore mo_graph (Event 0 1) (Event 1 0) = Ok True"
    "isWriteRfBefore mo_graph (Event 0 2) (Event 1 0) = Ok False"
  by (simp_all add: isWriteRfBefore_def mo_graph_label mkLabel_def view_contains_def view_get_def view_at_def Let_def isa_defs)

lemma mo_ex_known: "\<forall>s \<in> set (mo_list mo_ex 64). isWriteRfBefore mo_graph s (prev (Event 1 1)) = Ok (s = Event 0 1)"
  by (simp add: mo_ex_def mo_list_def prev_def mo_graph_known)

section \<open>Coherent stores\<close>

text \<open>The initializer is the oldest store of every location.\<close>

definition mo_with_init :: "MO \<Rightarrow> SAddr \<Rightarrow> Event list" where
  "mo_with_init m a = getInitializer # mo_list m a"

text \<open>With out-of-order execution, the offset behind the stores that the read does not happen before: nothing is
  behind the initializer when a read of it knows the read (\<open>I\<close>); a store that knows the read, itself (\<open>H\<close>) or
  through a reader, is the end.\<close>

lemma splitLocMOAfterHb_Ok:
  assumes "rany (\<lambda>rf. hb_has g rf read) (getInitRfsAtLoc g a) = Ok I"
    and "\<And>s. s \<in> set (mo_list m a) \<Longrightarrow> isHbOptRfBefore g read s = Ok (A s) \<and> hb_has g s read = Ok (H s)"
  obtains e where "splitLocMOAfterHb g m a read = Ok e" "e \<le> length (mo_list m a)"
    "\<And>i. i \<le> length (mo_list m a) \<Longrightarrow> i \<le> e \<longleftrightarrow> (I \<longrightarrow> i = 0) \<and>
       (\<forall>j < length (mo_list m a). A (mo_list m a ! j) \<longrightarrow> i \<le> (if H (mo_list m a ! j) then j else Suc j))"
proof (cases I)
  case True
  have "splitLocMOAfterHb g m a read = Ok 0" using assms(1) True by (simp add: splitLocMOAfterHb_def)
  then show ?thesis by (rule that) (use True in auto)
next
  case False
  let ?l = "mo_list m a"
  obtain k where k: "rfind_if (isHbOptRfBefore g read) ?l = Ok k" "k \<le> length ?l" "k < length ?l \<Longrightarrow> A (?l ! k)"
    "\<And>j. j < k \<Longrightarrow> \<not> A (?l ! j)"
    using rfind_if_Ok [of ?l "isHbOptRfBefore g read" A] assms(2) by auto
  define e where "e = (if k = length ?l \<or> H (?l ! k) then k else Suc k)"
  have "splitLocMOAfterHb g m a read = Ok e"
    using k(1,2) assms(1) assms(2) [of "?l ! k"] False by (auto simp: splitLocMOAfterHb_def e_def Let_def)
  moreover have "e \<le> length ?l" using k(2) by (simp add: e_def)
  moreover have "i \<le> e \<longleftrightarrow> (\<forall>j < length ?l. A (?l ! j) \<longrightarrow> i \<le> (if H (?l ! j) then j else Suc j))" if i: "i \<le> length ?l" for i
  proof
    assume le: "i \<le> e"
    show "\<forall>j < length ?l. A (?l ! j) \<longrightarrow> i \<le> (if H (?l ! j) then j else Suc j)"
    proof (intro allI impI)
      fix j
      assume "j < length ?l" "A (?l ! j)"
      then have "k \<le> j" using k(4) [of j] by (cases "j < k") simp_all
      then show "i \<le> (if H (?l ! j) then j else Suc j)"
        using le \<open>j < length ?l\<close> by (cases "k = j") (auto simp: e_def split: if_splits)
    qed
  next
    assume all: "\<forall>j < length ?l. A (?l ! j) \<longrightarrow> i \<le> (if H (?l ! j) then j else Suc j)"
    show "i \<le> e"
    proof (cases "k = length ?l")
      case False
      then have "k < length ?l" "A (?l ! k)" using k(2,3) by simp_all
      then show ?thesis using all by (auto simp: e_def)
    qed (use i in \<open>simp add: e_def\<close>)
  qed
  ultimately show ?thesis using that [of e] False by simp
qed

text \<open>C16: the stores that a read may read from, in modification order from the initializer (position 0) on, are
  exactly those that are not overwritten (no store that is newer happens before the read, directly or through a
  read of it) and, where the model executes out of order, that are not too new: nothing newer than the initializer
  when the read happens before a read of it (\<open>I\<close>), nothing newer than a store that the read happens before
  (directly, \<open>H\<close>, or through a read of it), nor that store itself when it is directly. When there is no such
  store the iterators of the code are the wrong way round, which is undefined.\<close>

theorem getCoherentStores_not_overwritten:
  assumes "\<forall>s \<in> set (mo_list m a). isWriteRfBefore g s (prev read) = Ok (W s)"
    and "mo_ooo m \<Longrightarrow> rany (\<lambda>rf. hb_has g rf read) (getInitRfsAtLoc g a) = Ok I \<and>
      (\<forall>s \<in> set (mo_list m a). isHbOptRfBefore g read s = Ok (A s) \<and> hb_has g s read = Ok (H s))"
  shows "\<exists>k e. mo_getCoherentStores g m a read = (if k \<le> e then Ok (drop k (take (Suc e) (mo_with_init m a)), mo_ref m a) else Undef)
    \<and> (\<forall>i \<le> length (mo_list m a).
      (k \<le> i \<longleftrightarrow> (\<forall>j < length (mo_list m a). i \<le> j \<longrightarrow> \<not> W (mo_list m a ! j))) \<and>
      (i \<le> e \<longleftrightarrow> (mo_ooo m \<longrightarrow> (I \<longrightarrow> i = 0) \<and>
        (\<forall>j < length (mo_list m a). A (mo_list m a ! j) \<longrightarrow> i \<le> (if H (mo_list m a ! j) then j else Suc j)))))"
proof -
  let ?l = "mo_list m a"
  obtain b where b: "splitLocMOBefore g m a read = Ok b" "b \<le> length ?l"
    "b > 0 \<Longrightarrow> W (?l ! (b - 1))" "\<And>j. b \<le> j \<Longrightarrow> j < length ?l \<Longrightarrow> \<not> W (?l ! j)"
    using splitLocMOBefore_Ok [of m a g read W] assms by auto
  have le: "b \<le> i \<longleftrightarrow> (\<forall>j < length ?l. i \<le> j \<longrightarrow> \<not> W (?l ! j))" if "i \<le> length ?l" for i
  proof
    assume "\<forall>j < length ?l. i \<le> j \<longrightarrow> \<not> W (?l ! j)"
    then show "b \<le> i" using b(2) b(3) by (cases b) (auto simp: not_le [symmetric] Suc_le_eq)
  qed (use b(4) in auto)
  obtain e where e: "(if mo_ooo m then splitLocMOAfterHb g m a read else Ok (length ?l)) = Ok e" "e \<le> length ?l"
    "\<And>i. i \<le> length ?l \<Longrightarrow> i \<le> e \<longleftrightarrow> (mo_ooo m \<longrightarrow> (I \<longrightarrow> i = 0) \<and>
       (\<forall>j < length ?l. A (?l ! j) \<longrightarrow> i \<le> (if H (?l ! j) then j else Suc j)))"
  proof (cases "mo_ooo m")
    case True
    obtain e where "splitLocMOAfterHb g m a read = Ok e" "e \<le> length ?l"
      "\<And>i. i \<le> length ?l \<Longrightarrow> i \<le> e \<longleftrightarrow> (I \<longrightarrow> i = 0) \<and> (\<forall>j < length ?l. A (?l ! j) \<longrightarrow> i \<le> (if H (?l ! j) then j else Suc j))"
      by (rule splitLocMOAfterHb_Ok [of g read a I m A H]) (use assms(2) [OF True] that in auto)
    then show ?thesis using that [of e] True by simp
  qed (use that [of "length ?l"] in simp)
  have "mo_getCoherentStores g m a read = (if b \<le> e then Ok (drop b (take (Suc e) (mo_with_init m a)), mo_ref m a) else Undef)"
  proof (cases b)
    case (Suc b')
    then have "drop b (take (Suc e) (mo_with_init m a)) = ?l ! b' # drop b (take e ?l)" if "b \<le> e"
      using that e(2) b(2) by (simp add: mo_with_init_def Cons_nth_drop_Suc [symmetric] Suc_le_eq)
    then show ?thesis using b(1) e(1) Suc by (simp add: mo_getCoherentStores_def Let_def)
  qed (use b(1) e(1) in \<open>simp add: mo_getCoherentStores_def mo_with_init_def Let_def\<close>)
  then show ?thesis using le e(3) by blast
qed

text \<open>The witness: with out-of-order execution, a read of the second thread may read the first store, which it
  knows, or the second one.\<close>

definition mo_ooo_ex :: MO where
  "mo_ooo_ex = mo_ex\<lparr>mo_ooo := True\<rparr>"

lemma mo_ooo_ex_simps: "mo_list mo_ooo_ex a = mo_list mo_ex a" "mo_ooo mo_ooo_ex"
  by (simp_all add: mo_ooo_ex_def mo_list_def)

lemma mo_graph_after: "s = Event 0 1 \<or> s = Event 0 2 \<Longrightarrow> isHbOptRfBefore mo_graph (Event 1 1) s = Ok False \<and> hb_has mo_graph s (Event 1 1) = Ok False"
  "getInitRfsAtLoc mo_graph 64 = []"
  by (auto simp: isHbOptRfBefore_def hb_has_def mo_graph_label mkLabel_def view_contains_def view_get_def view_at_def Let_def isa_defs)
    (simp add: getInitRfsAtLoc_def labels_def mo_graph_def graph_init_def mkLabel_def isa_defs)

theorem getCoherentStores_not_overwritten_witness:
  "mo_getCoherentStores mo_graph mo_ooo_ex 64 (Event 1 1) = Ok ([Event 0 1, Event 0 2], mo_ref mo_ooo_ex 64)"
proof -
  have l: "mo_list mo_ex 64 = [Event 0 1, Event 0 2]" by (simp add: mo_ex_def mo_list_def)
  obtain k e where r: "mo_getCoherentStores mo_graph mo_ooo_ex 64 (Event 1 1) =
      (if k \<le> e then Ok (drop k (take (Suc e) (mo_with_init mo_ooo_ex 64)), mo_ref mo_ooo_ex 64) else Undef)"
    and i: "\<And>i. i \<le> 2 \<Longrightarrow> (k \<le> i \<longleftrightarrow> (\<forall>j < 2. i \<le> j \<longrightarrow> [Event 0 1, Event 0 2] ! j \<noteq> Event 0 1)) \<and> i \<le> e"
  proof -
    have w: "\<forall>s \<in> set (mo_list mo_ooo_ex 64). isWriteRfBefore mo_graph s (prev (Event 1 1)) = Ok (s = Event 0 1)"
      using mo_ex_known by (simp add: mo_ooo_ex_simps)
    have o1: "rany (\<lambda>rf. hb_has mo_graph rf (Event 1 1)) (getInitRfsAtLoc mo_graph 64) = Ok False \<and> (\<forall>s \<in> set (mo_list mo_ooo_ex 64).
        isHbOptRfBefore mo_graph (Event 1 1) s = Ok False \<and> hb_has mo_graph s (Event 1 1) = Ok False)"
      using mo_graph_after by (simp add: mo_ooo_ex_simps l)
    have n: "length (mo_list mo_ooo_ex 64) = 2" "mo_list mo_ooo_ex 64 = [Event 0 1, Event 0 2]" by (simp_all add: mo_ooo_ex_simps l)
    show ?thesis using getCoherentStores_not_overwritten [OF w, of False "\<lambda>_. False" "\<lambda>_. False", OF o1] unfolding n
      by (elim exE conjE) (rule that, assumption, simp add: numeral_2_eq_2)
  qed
  have "k \<le> 1" "\<not> k \<le> 0" "2 \<le> e" using i [of 1] i [of 0] i [of 2] by (auto simp: less_Suc_eq numeral_2_eq_2)
  then have "k = 1" "Suc e \<ge> 3" by simp_all
  then show ?thesis using r l by (simp add: mo_with_init_def mo_ooo_ex_simps)
qed

section \<open>Placings\<close>

text \<open>C15: wherever in the offered range a new store is placed, the insertion succeeds, keeps the order of the other
  stores, and leaves the order coherent. The store of a read-modify-write comes directly behind the store that
  its read reads from, at the front when that is the initializer. Before any other store come all the stores that
  happen before it, directly or through a read of them, and, where the model executes out of order, no store that
  it happens before, directly or through a read of it.\<close>

theorem placings_are_coherent:
  assumes "getPossiblePlacings g m a store rmw = Ok ((b, e), m1)" and "b \<le> k" and "k \<le> e"
    and "\<not> rmw \<Longrightarrow> \<forall>s \<in> set (mo_list m a). isWriteRfBefore g s (prev store) = Ok (W s)"
    and "\<not> rmw \<Longrightarrow> mo_ooo m \<Longrightarrow> \<forall>s \<in> set (mo_list m a). isHbOptRfBefore g store s = Ok (A s)"
  shows "\<exists>m2. addStoreToLoc m1 a store k = Ok m2 \<and>
    mo_list m2 a = take (nat k) (mo_list m a) @ store # drop (nat k) (mo_list m a) \<and>
    (if rmw then \<exists>l. getEventLabel g (prev store) = Ok l \<and>
        (if lrf l = getInitializer then k = 0 else 0 < k \<and> k \<le> int (length (mo_list m a)) \<and> mo_list m a ! nat (k - 1) = lrf l)
     else (\<forall>s \<in> set (drop (nat k) (mo_list m a)). \<not> W s) \<and> (mo_ooo m \<longrightarrow> (\<forall>s \<in> set (take (nat k) (mo_list m a)). \<not> A s)))"
proof -
  let ?l = "mo_list m a"
  have ins: "\<exists>m2. addStoreToLoc m1 a store k = Ok m2 \<and> mo_list m2 a = take (nat k) ?l @ store # drop (nat k) ?l"
    if "0 \<le> k" "k \<le> int (length ?l)" "mo_list m1 a = ?l"
    using that by (simp add: addStoreToLoc_def list_insert_def)
  show ?thesis
  proof (cases rmw)
    case True
    then obtain l o1 where l: "getEventLabel g (prev store) = Ok l" "getStoreOffset m a (lrf l) = Ok o1" and k: "k = o1 + 1" "m1 = m"
      using assms(1-3) by (auto simp: getPossiblePlacings_def res_simps split: if_splits)
    show ?thesis
    proof (cases "lrf l = getInitializer")
      case True
      then show ?thesis using ins l k \<open>rmw\<close> by (auto simp: getStoreOffset_def res_simps)
    next
      case False
      then obtain i where "o1 = int i" "i < length ?l" "?l ! i = lrf l"
        using l(2) by (auto simp: getStoreOffset_def res_simps find_index_Some split: option.splits if_splits)
      then show ?thesis using ins l k False \<open>rmw\<close> by auto
    qed
  next
    case False
    obtain p where p: "splitLocMOBefore g m a store = Ok p" "p \<le> length ?l" "\<And>j. p \<le> j \<Longrightarrow> j < length ?l \<Longrightarrow> \<not> W (?l ! j)"
      using splitLocMOBefore_Ok [of m a g store W] assms(4) [OF False] by metis
    obtain q where q: "(if mo_ooo m then splitLocMOAfter g m a store else Ok (length ?l)) = Ok q" "q \<le> length ?l"
      "mo_ooo m \<longrightarrow> (\<forall>j < q. \<not> A (?l ! j))"
    proof (cases "mo_ooo m")
      case True
      obtain q where "rfind_if (isHbOptRfBefore g store) ?l = Ok q" "q \<le> length ?l" "\<And>j. j < q \<Longrightarrow> \<not> A (?l ! j)"
        using rfind_if_Ok [of ?l "isHbOptRfBefore g store" A] assms(5) [OF False True] by blast
      then show ?thesis using that [of q] True by (simp add: splitLocMOAfter_def)
    qed (use that [of "length ?l"] in simp)
    have *: "b = int p" "e = int q" "m1 = mo_ref m a"
      using assms(1) p(1) q(1) False by (auto simp: getPossiblePlacings_def)
    then have k: "0 \<le> k" "nat k \<le> length ?l" "p \<le> nat k" "nat k \<le> q" using assms(2,3) q(2) by linarith+
    have "\<not> W s" if "s \<in> set (drop (nat k) ?l)" for s
      using that p(3) k by (auto simp: in_set_conv_nth)
    moreover have "\<not> A s" if "mo_ooo m" "s \<in> set (take (nat k) ?l)" for s
      using that q(3) k by (auto simp: in_set_conv_nth)
    ultimately show ?thesis using ins k * False by auto
  qed
qed

theorem placings_are_coherent_witness:
  "\<exists>m2. addStoreToLoc (mo_ref mo_ooo_ex 64) 64 (Event 1 1) 1 = Ok m2 \<and> mo_list m2 64 = [Event 0 1, Event 1 1, Event 0 2]"
proof -
  have l: "mo_list mo_ex 64 = [Event 0 1, Event 0 2]" by (simp add: mo_ex_def mo_list_def)
  have "getPossiblePlacings mo_graph mo_ooo_ex 64 (Event 1 1) False = Ok ((1, 2), mo_ref mo_ooo_ex 64)"
    using mo_graph_after(1) [of "Event 0 1"] mo_graph_after(1) [of "Event 0 2"]
    by (simp add: getPossiblePlacings_def splitLocMOBefore_def splitLocMOAfter_def mo_ooo_ex_simps l prev_def mo_graph_known)
  from placings_are_coherent [OF this, of 1 "\<lambda>s. s = Event 0 1" "\<lambda>_. False"]
  show ?thesis using mo_ex_known mo_graph_after(1) by (auto simp: mo_ooo_ex_simps l)
qed

section \<open>The coherence relation\<close>

lemma succ_pairs: "set (zip (butlast l) (tl l)) = {(l ! i, l ! Suc i) | i. Suc i < length l}"
proof -
  have *: "i < min (length (butlast l)) (length (tl l)) \<longleftrightarrow> Suc i < length l" for i by auto
  have e: "butlast l ! i = l ! i \<and> tl l ! i = l ! Suc i" if "Suc i < length l" for i
    using that by (simp add: nth_butlast nth_tl)
  have "{(butlast l ! i, tl l ! i) | i. Suc i < length l} = {(l ! i, l ! Suc i) | i. Suc i < length l}"
    by (intro Collect_cong ex_cong1 conj_cong refl iffI) (simp_all add: e)
  then show ?thesis unfolding set_zip * .
qed

lemma succ_pairs_trancl: "(set (zip (butlast l) (tl l)))\<^sup>+ = {(l ! i, l ! j) | i j. i < j \<and> j < length l}" if "distinct l"
proof (intro set_eqI iffI; clarify)
  fix a b
  assume "(a, b) \<in> (set (zip (butlast l) (tl l)))\<^sup>+"
  then show "\<exists>i j. (a, b) = (l ! i, l ! j) \<and> i < j \<and> j < length l"
  proof (induction rule: trancl_induct)
    case (base y)
    then show ?case unfolding succ_pairs by blast
  next
    case (step y z)
    then obtain i j j' where "a = l ! i" "y = l ! j" "i < j" "j < length l" "y = l ! j'" "z = l ! Suc j'" "Suc j' < length l"
      unfolding succ_pairs by blast
    moreover from this have "j = j'" using that by (simp add: nth_eq_iff_index_eq)
    ultimately show ?case by (metis less_SucI)
  qed
next
  fix i j
  assume "i < j" "j < length l"
  then show "(l ! i, l ! j) \<in> (set (zip (butlast l) (tl l)))\<^sup>+"
  proof (induction j)
    case (Suc j)
    then have e: "(l ! j, l ! Suc j) \<in> set (zip (butlast l) (tl l))" unfolding succ_pairs by auto
    show ?case
    proof (cases "i = j")
      case False
      then have "(l ! i, l ! j) \<in> (set (zip (butlast l) (tl l)))\<^sup>+" using Suc by auto
      then show ?thesis using e by (rule trancl_into_trancl)
    qed (use e in auto)
  qed simp
qed

lemma succ_pairs_acyclic: "distinct l \<Longrightarrow> acyclic (set (zip (butlast l) (tl l)))"
  unfolding acyclic_def by (auto simp: succ_pairs_trancl nth_eq_iff_index_eq)

lemma mo_init_loc_Ok:
  assumes "distinct l"
  obtains r where "mo_init_loc l = Ok r" "isIrreflexive r = Ok True"
    "\<And>s t. s \<in> set l \<Longrightarrow> t \<in> set l \<Longrightarrow> adj_rel r s t = Ok (\<exists>i j. i < j \<and> j < length l \<and> l ! i = s \<and> l ! j = t)"
    "adj_wf r" "elems r = l" "\<And>i. i < length l \<Longrightarrow> nodeSucc r ! i = [] \<longleftrightarrow> Suc i = length l"
proof (cases "l = []")
  case True
  then show ?thesis using that [of "adj_of []"] adj_of_wf [of "[] :: Event list"]
    by (simp add: mo_init_loc_def isIrreflexive_def adj_of_def)
next
  case False
  have sub: "set (zip (butlast l) (tl l)) \<subseteq> set l \<times> set l" unfolding succ_pairs by auto
  obtain r where r: "rbind (adj_build l (zip (butlast l) (tl l))) transClosure = Ok r" "adj_wf r" "elems r = l"
    "isIrreflexive r = Ok (acyclic (set (zip (butlast l) (tl l))))"
    "\<And>a b. acyclic (set (zip (butlast l) (tl l))) \<Longrightarrow> a \<in> set l \<Longrightarrow> b \<in> set l \<Longrightarrow>
      adj_rel r a b = Ok ((a, b) \<in> (set (zip (butlast l) (tl l)))\<^sup>+)"
    "(rel_of r)\<^sup>+ = (set (zip (butlast l) (tl l)))\<^sup>+"
    by (rule adj_build_closed [OF assms sub]) (rule that)
  have "adj_rel r s t = Ok (\<exists>i j. i < j \<and> j < length l \<and> l ! i = s \<and> l ! j = t)" if "s \<in> set l" "t \<in> set l" for s t
    using r(5) [OF succ_pairs_acyclic [OF assms] that] unfolding succ_pairs_trancl [OF assms] by auto
  moreover have "nodeSucc r ! i = [] \<longleftrightarrow> Suc i = length l" if i: "i < length l" for i
  proof -
    have "l ! i \<in> Domain ((rel_of r)\<^sup>+) \<longleftrightarrow> (\<exists>j. i < j \<and> j < length l)"
      unfolding r(6) succ_pairs_trancl [OF assms] using i assms by (auto simp: nth_eq_iff_index_eq Domain_iff)
    also have "\<dots> \<longleftrightarrow> Suc i < length l" using i by (auto intro: exI [of _ "Suc i"])
    finally show ?thesis using no_successors [OF r(2)] r(3) i by auto
  qed
  ultimately show ?thesis using that [of r] r(1-4) False succ_pairs_acyclic [OF assms]
    by (simp add: mo_init_loc_def adj_build_def)
qed

lemma mo_initCalc_Ok:
  assumes "\<forall>(a, l) \<in> set st. distinct l"
  shows "distinct (map fst st) \<Longrightarrow>
    \<exists>co'. rfold (\<lambda>p co. rbind (mo_init_loc (snd p)) (\<lambda>r. Ok (assoc_set (fst p) r co))) st co = Ok co' \<and>
      (\<forall>(a, l) \<in> set st. \<exists>r. mo_init_loc l = Ok r \<and> map_of co' a = Some r) \<and>
      (\<forall>a. a \<notin> fst ` set st \<longrightarrow> map_of co' a = map_of co a)"
  using assms
proof (induction st arbitrary: co)
  case (Cons p st)
  obtain a l where p: "p = (a, l)" by (cases p)
  have "distinct l" using Cons.prems p by auto
  then obtain r where r: "mo_init_loc l = Ok r" using mo_init_loc_Ok by metis
  obtain co' where co': "rfold (\<lambda>p co. rbind (mo_init_loc (snd p)) (\<lambda>r. Ok (assoc_set (fst p) r co))) st (assoc_set a r co) = Ok co'"
    "\<forall>(a, l) \<in> set st. \<exists>r. mo_init_loc l = Ok r \<and> map_of co' a = Some r"
    "\<forall>b. b \<notin> fst ` set st \<longrightarrow> map_of co' b = map_of (assoc_set a r co) b"
    using Cons.IH [of "assoc_set a r co"] Cons.prems by auto
  moreover have "a \<notin> fst ` set st" using Cons.prems p by simp
  ultimately have "map_of co' a = Some r" "\<forall>b. b \<notin> fst ` set (p # st) \<longrightarrow> map_of co' b = map_of co b" using p by auto
  then show ?case using r p co' by (intro exI [of _ co']) auto
qed simp

lemma assoc_set_same: "map_of ps k = Some v \<Longrightarrow> assoc_set k v ps = ps"
  by (induction ps) (auto split: if_splits)

lemma mo_doCalc_consistent:
  "\<forall>p \<in> set st. \<exists>r. map_of co (fst p) = Some r \<and> isIrreflexive r = Ok True \<Longrightarrow> mo_doCalc_loop st co = Ok (True, co)"
  by (induction st) (auto simp: assoc_set_same)

text \<open>What the calculator computes: the relation of every location, and that it is consistent.\<close>

lemma mo_calc_Ok:
  assumes "distinct (map fst (mo_stores m))" and "\<forall>(a, l) \<in> set (mo_stores m). distinct l"
  obtains co where "mo_initCalc m = Ok co" "mo_doCalc m co = Ok (\<lparr>cr_changed = False, cr_cons = True\<rparr>, co)"
    "\<And>a l. (a, l) \<in> set (mo_stores m) \<Longrightarrow> \<exists>r. mo_init_loc l = Ok r \<and> map_of co a = Some r \<and> distinct l"
proof -
  obtain co where co: "mo_initCalc m = Ok co" "\<forall>(a, l) \<in> set (mo_stores m). \<exists>r. mo_init_loc l = Ok r \<and> map_of co a = Some r"
    using mo_initCalc_Ok [OF assms(2,1), of "[]"] by (auto simp: mo_initCalc_def)
  have each: "\<exists>r. mo_init_loc k = Ok r \<and> map_of co b = Some r \<and> distinct k" if "(b, k) \<in> set (mo_stores m)" for b k
    using bspec [OF co(2) that] bspec [OF assms(2) that] by auto
  have irr: "\<exists>r. map_of co (fst p) = Some r \<and> isIrreflexive r = Ok True" if mem: "p \<in> set (mo_stores m)" for p
  proof -
    obtain b k where p: "p = (b, k)" by (cases p)
    then obtain r where r: "mo_init_loc k = Ok r" "map_of co b = Some r" "distinct k" using each mem by blast
    obtain r' where "mo_init_loc k = Ok r'" "isIrreflexive r' = Ok True" using mo_init_loc_Ok [OF r(3)] by metis
    then show ?thesis using r p by auto
  qed
  then have "mo_doCalc m co = Ok (\<lparr>cr_changed = False, cr_cons = True\<rparr>, co)"
    using mo_doCalc_consistent [of "mo_stores m" co] by (simp add: mo_doCalc_def)
  then show ?thesis by (rule that [OF co(1)]) (use each in blast)
qed

text \<open>C14: the coherence calculator never reports an inconsistency of its own, and the relation it computes for
  a location orders two stores exactly as the location's list does.\<close>

theorem co_is_modification_order:
  assumes "distinct (map fst (mo_stores m))" and "\<forall>(a, l) \<in> set (mo_stores m). distinct l"
    and "(a, l) \<in> set (mo_stores m)" and "s \<in> set l" and "t \<in> set l"
  shows "rbind (rbind (mo_initCalc m) (mo_doCalc m)) (\<lambda>(c, co). rbind (deref (map_of co a)) (\<lambda>r.
    rbind (adj_rel r s t) (\<lambda>b. Ok (cr_cons c, b)))) = Ok (True, \<exists>i j. i < j \<and> j < length l \<and> l ! i = s \<and> l ! j = t)"
proof -
  obtain co where co: "mo_initCalc m = Ok co" "mo_doCalc m co = Ok (\<lparr>cr_changed = False, cr_cons = True\<rparr>, co)"
    "\<And>a l. (a, l) \<in> set (mo_stores m) \<Longrightarrow> \<exists>r. mo_init_loc l = Ok r \<and> map_of co a = Some r \<and> distinct l"
    by (rule mo_calc_Ok [OF assms(1,2)]) (rule that)
  then obtain r where r: "mo_init_loc l = Ok r" "map_of co a = Some r" "distinct l" using assms(3) by blast
  have "adj_rel r s t = Ok (\<exists>i j. i < j \<and> j < length l \<and> l ! i = s \<and> l ! j = t)"
    by (rule mo_init_loc_Ok [OF r(3)]) (use r(1) assms(4,5) in simp)
  then show ?thesis using co r by (simp add: deref_def)
qed

theorem co_is_modification_order_witness:
  "rbind (rbind (mo_initCalc mo_ex) (mo_doCalc mo_ex)) (\<lambda>(c, co). rbind (deref (map_of co 64)) (\<lambda>r.
    rbind (adj_rel r (Event 0 2) (Event 0 1)) (\<lambda>b. Ok (cr_cons c, b)))) = Ok (True, False)"
  using co_is_modification_order [of mo_ex 64 "[Event 0 1, Event 0 2]" "Event 0 2" "Event 0 1"]
  by (simp add: mo_ex_def less_Suc_eq)

end
