(* ===== verification/GenMC_ConsistencyProps.thy ===== *)
theory GenMC_ConsistencyProps
  imports GenMC_PSC GenMC_MOProps
begin

text \<open>
  What the consistency check promises: the getters of the coherence and the lock calculators find them, and the
  answer about a maximal store is the same from the lists and from the relation. Also here, for \<open>GenMC_Fixpoint\<close>:
  the contract under which the fixpoint ends, and the steps of the lock calculator on happens-before.
\<close>

section \<open>The fixpoint ends\<close>

lemma rfold_Ok_keeps:
  assumes "rfold f xs s = Ok s'" and "P s" and "\<And>x s s'. x \<in> set xs \<Longrightarrow> P s \<Longrightarrow> f x s = Ok s' \<Longrightarrow> P s'"
  shows "P s'"
  using rfold_Ok_inv [of f xs s s' "\<lambda>_. P"] assms by (metis nth_mem)

text \<open>A contract of calculators: a step keeps the relations well-formed, and one that reports a change of a consistent
  graph leaves fewer pairs unordered. An inconsistent graph ends the loop, whatever the step changed.\<close>

locale calculators =
  fixes cs :: "'p Calculator list" and wf :: "'p Cons \<Rightarrow> bool" and missing :: "'p Cons \<Rightarrow> nat"
  assumes calc_step: "c \<in> set cs \<Longrightarrow> wf s \<Longrightarrow> doCalc c s = Ok (r, s') \<Longrightarrow>
      wf s' \<and> missing s' \<le> missing s \<and> (cr_cons r \<and> cr_changed r \<longrightarrow> missing s' < missing s)"
    and init_step: "c \<in> set cs \<Longrightarrow> wf s \<Longrightarrow> initCalc c s = Ok s' \<Longrightarrow> wf s'"
    and result_irrelevant: "wf (s\<lparr>cRels := (cRels s)\<lparr>rResult := q\<rparr>\<rparr>) = wf s"
      "missing (s\<lparr>cRels := (cRels s)\<lparr>rResult := q\<rparr>\<rparr>) = missing s"
begin

lemma doCalcs_loop_step:
  "\<forall>i \<in> set is. i < length cs \<Longrightarrow> wf s \<Longrightarrow> doCalcs_loop cs full is q s = Ok (r, s') \<Longrightarrow>
    wf s' \<and> missing s' \<le> missing s \<and> (cr_cons r \<and> cr_changed r \<and> \<not> cr_changed q \<longrightarrow> missing s' < missing s)"
proof (induction "is" arbitrary: q s)
  case (Cons i "is")
  show ?case
  proof (cases "\<not> full \<and> i \<notin> set (cPartial s)")
    case False
    then obtain r1 s1 where 1: "doCalc (cs ! i) s = Ok (r1, s1)" using Cons.prems(3) by (auto simp: res_simps)
    have step: "wf s1 \<and> missing s1 \<le> missing s \<and> (cr_cons r1 \<and> cr_changed r1 \<longrightarrow> missing s1 < missing s)"
      using calc_step [OF _ Cons.prems(2) 1] Cons.prems(1) by simp
    show ?thesis
    proof (cases "cr_cons (cr_or q r1)")
      case True
      then have "doCalcs_loop cs full is (cr_or q r1) s1 = Ok (r, s')" using Cons.prems(3) False 1 by simp
      from Cons.IH [OF _ _ this] step Cons.prems(1)
      have *: "wf s'" "missing s' \<le> missing s1" "cr_cons r \<and> cr_changed r \<and> \<not> cr_changed (cr_or q r1) \<longrightarrow> missing s' < missing s1" by simp_all
      then show ?thesis using step True by (cases "cr_changed r1") (auto simp: cr_or_def)
    next
      case False
      then show ?thesis using Cons.prems(3) \<open>\<not> (\<not> full \<and> i \<notin> set (cPartial s))\<close> 1 step by (auto simp: cr_or_def)
    qed
  qed (use Cons in simp)
qed simp

lemma doCalcs_step:
  "wf s \<Longrightarrow> doCalcs cs full s = Ok (r, s') \<Longrightarrow>
    wf s' \<and> missing s' \<le> missing s \<and> (cr_cons r \<and> cr_changed r \<longrightarrow> missing s' < missing s)"
  using doCalcs_loop_step [of "[0..<length cs]" s full] by (simp add: doCalcs_def)

lemma cons_fixpoint_returns: "wf s \<Longrightarrow> cons_fixpoint cs full s \<noteq> None"
proof (induction "missing s" arbitrary: s rule: less_induct)
  case less
  show ?case
  proof (cases "doCalcs cs full s")
    case (Ok p)
    obtain r s1 where p: "p = (r, s1)" by (cases p)
    have step: "wf s1 \<and> (cr_cons r \<and> cr_changed r \<longrightarrow> missing s1 < missing s)" using doCalcs_step [OF less.prems, of full r s1] Ok p by simp
    then show ?thesis using less.hyps [of "s1\<lparr>cRels := (cRels s1)\<lparr>rResult := r\<rparr>\<rparr>"] Ok p
      by (subst cons_fixpoint.simps) (simp add: Let_def result_irrelevant)
  qed (subst cons_fixpoint.simps, simp)+
qed

lemma inits_wf:
  assumes "rfold (\<lambda>i s. if \<not> full \<and> i \<notin> set (cPartial s) then Ok s else initCalc (cs ! i) s) [0..<length cs] s = Ok s'" and "wf s"
  shows "wf s'"
  by (rule rfold_Ok_keeps [OF assms(1), of wf]) (use assms(2) init_step [OF nth_mem] in \<open>auto split: if_splits\<close>)

end

section \<open>A relation that grows\<close>

lemma getIndex_iff: "adj_wf r \<Longrightarrow> getIndex r a = Ok i \<longleftrightarrow> i < length (elems r) \<and> elems r ! i = a"
proof -
  assume "adj_wf r"
  then have "ids r a = Some i \<longleftrightarrow> i < length (elems r) \<and> elems r ! i = a" by (simp add: adj_wf_def)
  then show ?thesis by (cases "ids r a") (auto simp: getIndex_def)
qed

lemma adj_rel_in: "adj_wf r \<Longrightarrow> adj_rel r a b = Ok x \<Longrightarrow> a \<in> set (elems r) \<and> b \<in> set (elems r)"
  by (auto simp: adj_rel_def res_simps getIndex_iff)

lemma addEdge_in: "adj_wf r \<Longrightarrow> addEdge r a b = Ok r' \<Longrightarrow> a \<in> set (elems r) \<and> b \<in> set (elems r)"
  by (auto simp: addEdge_def res_simps getIndex_iff)

lemma addEdge_wf:
  assumes "adj_wf r" and "addEdge r a b = Ok r'"
  shows "adj_wf r'" "elems r' = elems r" "(rel_of r')\<^sup>+ = (insert (a, b) (rel_of r))\<^sup>+"
proof -
  obtain r1 where "addEdge r a b = Ok r1" "adj_wf r1" "elems r1 = elems r" "(rel_of r1)\<^sup>+ = (insert (a, b) (rel_of r))\<^sup>+"
    using addEdge_Ok [OF assms(1)] addEdge_in [OF assms] by metis
  then show "adj_wf r'" "elems r' = elems r" "(rel_of r')\<^sup>+ = (insert (a, b) (rel_of r))\<^sup>+" using assms(2) by simp_all
qed

lemma transClosure_wf:
  assumes "adj_wf r" and "transClosure r = Ok r'"
  shows "adj_wf r'" "elems r' = elems r" "rel_of r' = rel_of r" "calculatedTransC r'"
proof -
  obtain r1 where "transClosure r = Ok r1" "adj_wf r1" "nodeSucc r1 = nodeSucc r" "elems r1 = elems r" "calculatedTransC r1"
    using transClosure_Ok [OF assms(1)] by metis
  then show "adj_wf r'" "elems r' = elems r" "rel_of r' = rel_of r" "calculatedTransC r'" using assms(2) by (simp_all add: rel_of_def)
qed

text \<open>A closed relation without a cycle answers with its transitive closure.\<close>

lemma adj_rel_closed:
  assumes "adj_wf r" and "calculatedTransC r" and "isIrreflexive r = Ok True" and "adj_rel r a b = Ok x"
  shows "x \<longleftrightarrow> (a, b) \<in> (rel_of r)\<^sup>+"
proof -
  obtain i j where ij: "i < length (elems r)" "a = elems r ! i" "j < length (elems r)" "b = elems r ! j"
    using adj_rel_in [OF assms(1,4)] by (metis in_set_conv_nth)
  have "acyclic (edges_of (nodeSucc r))"
    using isIrreflexive_Ok [OF assms(1)] detected_iff_cycle [OF assms(1,2)] assms(3) by simp
  then have b: "bits (transC r) i = (edges_of (nodeSucc r))\<^sup>+ `` {i}" using rows_closure [OF assms(1,2)] ij(1) by blast
  have "adj_rel r a b = Ok (j \<in> bits (transC r) i)"
    using getIndex_Ok [OF assms(1), of i] getIndex_Ok [OF assms(1), of j] assms(1) ij
    by (simp add: adj_rel_def adj_edge_def adj_wf_def square_def bits_def)
  then show ?thesis using b rel_of_trancl_iff [OF assms(1), of i j] ij assms(4) by simp
qed

text \<open>The pairs that are not ordered yet.\<close>

definition unordered :: "GlobalRelation \<Rightarrow> nat" where
  "unordered r = card (set (elems r) \<times> set (elems r) - (rel_of r)\<^sup>+)"

lemma unordered_mono: "elems r' = elems r \<Longrightarrow> (rel_of r)\<^sup>+ \<subseteq> (rel_of r')\<^sup>+ \<Longrightarrow> unordered r' \<le> unordered r"
  unfolding unordered_def by (rule card_mono) auto

lemma unordered_less:
  assumes "elems r' = elems r" and "(rel_of r)\<^sup>+ \<subseteq> (rel_of r')\<^sup>+" and "(a, b) \<in> (rel_of r')\<^sup>+" and "(a, b) \<notin> (rel_of r)\<^sup>+"
    and "a \<in> set (elems r)" and "b \<in> set (elems r)"
  shows "unordered r' < unordered r"
  unfolding unordered_def by (rule psubset_card_mono) (use assms in auto)

section \<open>The lock calculator\<close>

definition lb_inv :: "GlobalRelation \<Rightarrow> bool \<times> GlobalRelation \<Rightarrow> bool" where
  "lb_inv hb0 q \<longleftrightarrow> adj_wf (snd q) \<and> elems (snd q) = elems hb0 \<and> (if fst q then unordered (snd q) < unordered hb0 else snd q = hb0)"

lemma lb_constraint_inv:
  assumes "lb_constraint g lbLoc l ul k w q = Ok q'" and "lb_inv hb0 q" and "adj_wf hb0"
    and closed: "\<And>a b x. adj_rel hb0 a b = Ok x \<Longrightarrow> x \<longleftrightarrow> (a, b) \<in> (rel_of hb0)\<^sup>+"
  shows "lb_inv hb0 q'"
proof -
  obtain ch hb where q: "q = (ch, hb)" by (cases q)
  show ?thesis
  proof (cases "q' = q")
    case False
    then obtain wl hb1 where 1: "adj_rel hb ul wl = Ok False" "addEdge hb ul wl = Ok hb1" "q' = (True, hb1)"
      using assms(1) q False by (auto simp: lb_constraint_def res_simps split: if_splits) blast+
    have w: "adj_wf hb" "elems hb = elems hb0" using assms(2) q by (simp_all add: lb_inv_def)
    note e = addEdge_wf [OF w(1) 1(2)]
    have sub: "(rel_of hb)\<^sup>+ \<subseteq> (rel_of hb1)\<^sup>+" unfolding e(3) by (rule trancl_mono_subset) blast
    have "unordered hb1 < unordered hb0"
    proof (cases ch)
      case True
      then show ?thesis using assms(2) q unordered_mono [OF e(2) sub] by (simp add: lb_inv_def)
    next
      case False
      then have [simp]: "hb = hb0" using assms(2) q by (simp add: lb_inv_def)
      show ?thesis
      proof (rule unordered_less [of hb1 hb0 ul wl])
        show "(ul, wl) \<in> (rel_of hb1)\<^sup>+" unfolding e(3) by blast
        show "(ul, wl) \<notin> (rel_of hb0)\<^sup>+" using closed [of ul wl False] 1(1) by simp
      qed (use addEdge_in [OF w(1) 1(2)] e(2) sub in simp_all)
    qed
    then show ?thesis using e w 1(3) by (simp add: lb_inv_def)
  qed (use assms(2) in simp)
qed

lemma addLbConstraints_inv:
  assumes "addLbConstraints g lb hb0 = Ok q" and "adj_wf hb0"
    and closed: "\<And>a b x. adj_rel hb0 a b = Ok x \<Longrightarrow> x \<longleftrightarrow> (a, b) \<in> (rel_of hb0)\<^sup>+"
  shows "lb_inv hb0 q"
proof -
  have inner: "lb_inv hb0 q'" if "rfold (lb_constraint g r l ul k) ws q = Ok q'" "lb_inv hb0 q" for r l ul k ws q q'
    by (rule rfold_Ok_keeps [OF that(1), of "lb_inv hb0"]) (use that(2) lb_constraint_inv [OF _ _ assms(2) closed] in auto)
  have outer: "lb_inv hb0 q'" if "rfold (\<lambda>l q. rbind (getLastNonTrivialInCS g l) (\<lambda>ul. rbind (getIndex r l) (\<lambda>k.
      rfold (lb_constraint g r l ul k) (elems r) q))) ls q = Ok q'" "lb_inv hb0 q" for r ls q q'
    by (rule rfold_Ok_keeps [OF that(1), of "lb_inv hb0"]) (use that(2) inner in \<open>auto simp: res_simps\<close>)
  have "lb_inv hb0 (False, hb0)" using assms(2) by (simp add: lb_inv_def)
  then show ?thesis
    by (intro rfold_Ok_keeps [OF assms(1) [unfolded addLbConstraints_def], of "lb_inv hb0"]) (use outer in \<open>auto split: prod.splits\<close>)
qed

section \<open>The calculators of the tool\<close>

text \<open>Happens-before is the first of the global relations, and no other one; it is well-formed and closed.\<close>

definition hb_wf :: "'p Cons \<Rightarrow> bool" where
  "hb_wf s \<longleftrightarrow> cRelIndex s R_hb = Some 0 \<and> cRelIndex s R_psc \<noteq> Some 0 \<and> rGlobal (cRels s) \<noteq> [] \<and> adj_wf (rGlobal (cRels s) ! 0) \<and>
     calculatedTransC (rGlobal (cRels s) ! 0)"

definition hb_missing :: "'p Cons \<Rightarrow> nat" where
  "hb_missing s = unordered (rGlobal (cRels s) ! 0)"

lemma putPerLoc_hb:
  assumes "putPerLocRelation s r x = Ok s'"
  shows "hb_wf s' = hb_wf s" "hb_missing s' = hb_missing s" "cRelIndex s' = cRelIndex s" "rGlobal (cRels s') = rGlobal (cRels s)"
  using assms by (auto simp: putPerLocRelation_def res_simps hb_wf_def hb_missing_def)

lemma mo_calculator_hb:
  "initCalc (mo_calculator mo pm) s = Ok s' \<Longrightarrow> hb_wf s' = hb_wf s"
  "doCalc (mo_calculator mo pm) s = Ok (r, s') \<Longrightarrow> hb_wf s' = hb_wf s \<and> hb_missing s' = hb_missing s \<and> \<not> cr_changed r"
  by (auto simp: mo_calculator_def mo_doCalc_def res_simps putPerLoc_hb)

lemma lb_doCalc_hb:
  assumes "lb_doCalc g (hb, lb, co) = Ok (r, hb', lb', co')" and "adj_wf hb" and "calculatedTransC hb"
  shows "adj_wf hb' \<and> calculatedTransC hb' \<and> unordered hb' \<le> unordered hb \<and> (cr_changed r \<longrightarrow> unordered hb' < unordered hb)"
proof (cases "hb' = hb \<and> \<not> cr_changed r")
  case False
  then obtain lb1 changed hb1 where irr: "isIrreflexive hb = Ok True" and 1: "addLbConstraints g lb1 hb = Ok (changed, hb1)"
    "transClosure hb1 = Ok hb'" "cr_changed r = changed"
    using assms(1) by (auto simp: lb_doCalc_def res_simps split: if_splits) blast+
  have inv: "lb_inv hb (changed, hb1)"
    by (rule addLbConstraints_inv [OF 1(1) assms(2)]) (rule adj_rel_closed [OF assms(2,3) irr])
  then have "adj_wf hb1" by (simp add: lb_inv_def)
  note t = transClosure_wf [OF this 1(2)]
  have "unordered hb' = unordered hb1" using t by (simp add: unordered_def)
  then show ?thesis using inv t 1(3) by (auto simp: lb_inv_def split: if_splits)
qed (use assms in auto)

lemma lb_calculator_hb:
  "initCalc (lb_calculator locks pl) s = Ok s' \<Longrightarrow> hb_wf s' = hb_wf s"
  by (auto simp: lb_calculator_def res_simps putPerLoc_hb)

lemma lb_calculator_step:
  assumes "doCalc (lb_calculator locks pl) s = Ok (r, s')" and "hb_wf s"
  shows "hb_wf s' \<and> hb_missing s' \<le> hb_missing s \<and> (cr_changed r \<longrightarrow> hb_missing s' < hb_missing s)"
proof -
  obtain hb lb co hb1 lb1 co1 s1 s2 where 1: "getGlobalRelation s R_hb = Ok hb"
    "lb_doCalc (cGraph s) (hb, lb, co) = Ok (r, hb1, lb1, co1)" "putGlobalRelation s R_hb hb1 = Ok s1"
    "putPerLocRelation s1 R_lb lb1 = Ok s2" "putPerLocRelation s2 R_co co1 = Ok s'"
    using assms(1) by (auto simp: lb_calculator_def res_simps)
  have w: "cRelIndex s R_hb = Some 0" "rGlobal (cRels s) \<noteq> []" "cRelIndex s R_psc \<noteq> Some 0" using assms(2) by (simp_all add: hb_wf_def)
  then have hb: "hb = rGlobal (cRels s) ! 0" using 1(1) by (auto simp: getGlobalRelation_def rel_index_def res_simps)
  have "adj_wf hb \<and> calculatedTransC hb" using assms(2) hb by (simp add: hb_wf_def)
  then have step: "adj_wf hb1 \<and> calculatedTransC hb1 \<and> unordered hb1 \<le> unordered hb \<and> (cr_changed r \<longrightarrow> unordered hb1 < unordered hb)"
    using lb_doCalc_hb [OF 1(2)] by blast
  have "rGlobal (cRels s1) = (rGlobal (cRels s))[0 := hb1]" "cRelIndex s1 = cRelIndex s"
    using 1(3) w by (auto simp: putGlobalRelation_def rel_index_def vec_set_def res_simps split: if_splits)
  then have "hb_wf s1" "hb_missing s1 = unordered hb1" using step w by (simp_all add: hb_wf_def hb_missing_def)
  then show ?thesis using putPerLoc_hb [OF 1(4)] putPerLoc_hb [OF 1(5)] step hb by (simp add: hb_missing_def)
qed

lemma putGlobal_hb:
  assumes "putGlobalRelation s R_hb hb1 = Ok s'" and "hb_wf s"
  shows "rGlobal (cRels s') = (rGlobal (cRels s))[0 := hb1]" "cRelIndex s' = cRelIndex s"
  using assms by (auto simp: putGlobalRelation_def rel_index_def vec_set_def hb_wf_def res_simps split: if_splits)

lemma putGlobal_psc:
  assumes "putGlobalRelation s R_psc x = Ok s'" and "cRelIndex s R_psc \<noteq> Some 0"
  shows "hb_wf s' = hb_wf s" "hb_missing s' = hb_missing s" "cRelIndex s' = cRelIndex s"
proof -
  obtain i where "cRelIndex s R_psc = Some i" "i \<noteq> 0" "s' = s\<lparr>cRels := (cRels s)\<lparr>rGlobal := (rGlobal (cRels s))[i := x]\<rparr>\<rparr>"
    using assms by (auto simp: putGlobalRelation_def rel_index_def vec_set_def res_simps split: if_splits option.splits)
  then show "hb_wf s' = hb_wf s" "hb_missing s' = hb_missing s" "cRelIndex s' = cRelIndex s"
    by (simp_all add: hb_wf_def hb_missing_def)
qed

section \<open>Initialisation\<close>

text \<open>The elements of the happens-before matrix come in the order of the threads, each once.\<close>

definition in_order :: "nat \<Rightarrow> nat \<Rightarrow> Event list \<Rightarrow> bool" where
  "in_order i j es \<longleftrightarrow> distinct es \<and> (\<forall>e \<in> set es. ethread e < int i \<or> ethread e = int i \<and> eindex e < int j)"

lemma hb_label_in_order:
  assumes "hb_label g t i j p = Ok p'" and "in_order i j (fst p)"
  shows "in_order i (Suc j) (fst p')"
proof -
  obtain es edges where p: "p = (es, edges)" by (cases p)
  have "fst p' = es \<or> fst p' = es @ [Event (int i) (int j)]"
    using assms(1) p by (auto simp: hb_label_def res_simps Let_def split: if_splits)
  moreover have "Event (int i) (int j) \<notin> set es" using assms(2) p by (force simp: in_order_def)
  ultimately show ?thesis using assms(2) p by (auto simp: in_order_def)
qed

lemma hb_elems_in_order:
  assumes "rfold (\<lambda>i p. rfold (hb_label g (length (fst p)) i) [0..<length (events g ! i)] p) [0..<numThreads g] ([], []) = Ok p"
  shows "distinct (fst p)"
proof -
  have thr: "in_order (Suc i) 0 (fst p')"
    if "rfold (hb_label g t i) [0..<n] p = Ok p'" "in_order i 0 (fst p)" for t i n p p'
  proof -
    have "in_order i (length [0..<n]) (fst p')"
      using rfold_Ok_inv [OF that(1), of "\<lambda>k p. in_order i k (fst p)"] that(2) hb_label_in_order by simp
    then show ?thesis by (auto simp: in_order_def)
  qed
  have "in_order (length [0..<numThreads g]) 0 (fst p)"
    by (rule rfold_Ok_inv [OF assms, of "\<lambda>k p. in_order k 0 (fst p)"]) (use thr in \<open>auto simp: in_order_def\<close>)
  then show ?thesis by (simp add: in_order_def)
qed

lemma addEdges_wf:
  assumes "rfold (\<lambda>(a, b) r. addEdge r a b) edges r = Ok r'" and "adj_wf r"
  shows "adj_wf r'"
  by (rule rfold_Ok_keeps [OF assms(1), of adj_wf]) (use assms(2) addEdge_wf(1) in \<open>auto split: prod.splits\<close>)

lemma populateHbEntries_wf:
  assumes "populateHbEntries g = Ok r"
  shows "adj_wf r"
proof -
  obtain es edges where 1: "rfold (\<lambda>i p. rfold (hb_label g (length (fst p)) i) [0..<length (events g ! i)] p) [0..<numThreads g] ([], [])
      = Ok (es, edges)" "rfold (\<lambda>(a, b) r. addEdge r a b) edges (adj_of es) = Ok r"
    using assms by (auto simp: populateHbEntries_def res_simps)
  have "distinct es" using hb_elems_in_order [OF 1(1)] by simp
  then show ?thesis by (rule addEdges_wf [OF 1(2) adj_of_wf])
qed

section \<open>Maximal stores\<close>

lemma isCoMaximalInRel_agrees:
  assumes "mo_initCalc m = Ok co" and "\<And>a l. (a, l) \<in> set (mo_stores m) \<Longrightarrow> \<exists>r. mo_init_loc l = Ok r \<and> map_of co a = Some r \<and> distinct l"
    and "distinct (map fst (mo_stores m))" and "(a, l) \<in> set (mo_stores m)" and "isInitializer e \<or> e \<in> set l"
  shows "isCoMaximalInRel co a e = Ok (fst (mo_isCoMaximal m a e))"
proof -
  obtain r where r: "mo_init_loc l = Ok r" "map_of co a = Some r" "distinct l" using assms(2,4) by blast
  obtain r' where "mo_init_loc l = Ok r'" "adj_wf r'" "elems r' = l" "\<And>i. i < length l \<Longrightarrow> nodeSucc r' ! i = [] \<longleftrightarrow> Suc i = length l"
    by (rule mo_init_loc_Ok [OF r(3)]) (rule that)
  then have w: "adj_wf r" "elems r = l" "\<And>i. i < length l \<Longrightarrow> nodeSucc r ! i = [] \<longleftrightarrow> Suc i = length l" using r(1) by simp_all
  have l: "mo_list m a = l" using assms(3,4) by (simp add: mo_list_def)
  show ?thesis
  proof (cases "isInitializer e")
    case True
    then show ?thesis using r w(2) l by (simp add: isCoMaximalInRel_def deref_def mo_isCoMaximal_def)
  next
    case False
    then obtain i where i: "i < length l" "e = l ! i" using assms(5) by (metis in_set_conv_nth)
    have "length (nodeSucc r) = length l" using w(1,2) by (simp add: adj_wf_def)
    then have "isCoMaximalInRel co a e = Ok (Suc i = length l)"
      using False r w getIndex_Ok [OF w(1), of i] i by (simp add: isCoMaximalInRel_def deref_def)
    moreover have "e = last l \<longleftrightarrow> Suc i = length l" using i r(3)
      by (metis diff_Suc_1 last_conv_nth length_greater_0_conv less_nat_zero_code list.size(3) nth_eq_iff_index_eq
          Suc_pred diff_less zero_less_one)
    ultimately show ?thesis using False i l by (auto simp: mo_isCoMaximal_def)
  qed
qed

text \<open>The status of the fixpoint is no input of the matrix.\<close>

lemma status_irrelevant [simp]:
  "getEventLabel (setFPStatus f g) = getEventLabel g" "numThreads (setFPStatus f g) = numThreads g" "events (setFPStatus f g) = events g"
  "getThreadSize (setFPStatus f g) = getThreadSize g"
  by (auto simp: setFPStatus_def getEventLabel_def getThreadSize_def)

lemma scan_status [simp]: "scan (setFPStatus f g) t js P = scan g t js P"
  by (induction js) (simp_all cong: if_cong)

lemma nontrivial_status [simp]: "isNonTrivial (setFPStatus f g) l = isNonTrivial g l" "getPreviousNonTrivial (setFPStatus f g) e = getPreviousNonTrivial g e"
proof -
  show nt: "isNonTrivial (setFPStatus f g) l = isNonTrivial g l" for l
    by (simp add: isNonTrivial_def isCSEmptyLAPOR_def cong: if_cong)
  have "isNonTrivial (setFPStatus f g) = isNonTrivial g" by (rule ext) (rule nt)
  then show "getPreviousNonTrivial (setFPStatus f g) e = getPreviousNonTrivial g e" by (simp add: getPreviousNonTrivial_def)
qed

lemma hb_label_status [simp]: "hb_label (setFPStatus f g) = hb_label g"
proof -
  have "hb_read_edges (setFPStatus f g) = hb_read_edges g"
    by (intro ext) (simp add: hb_read_edges_def cong: if_cong)
  then show ?thesis by (intro ext) (simp add: hb_label_def cong: if_cong)
qed

lemma populateHbEntries_status [simp]: "populateHbEntries (setFPStatus f g) = populateHbEntries g"
  by (simp add: populateHbEntries_def)

text \<open>A slow check with modification orders only: one round, whose only effects are the relations.\<close>

abbreviation mo_state :: "ExecutionGraph \<Rightarrow> MO \<Rightarrow> MO Calculator list \<times> MO Cons" where
  "mo_state g m \<equiv> withCoherenceType (\<lambda>_. mo_calculator id (\<lambda>m _. m)) Coh_mo ([], cons_new g m)"

lemma slow_check_mo:
  assumes "populateHbEntries g = Ok hb0" and "mo_initCalc m = Ok co" and "mo_doCalc m co = Ok (\<lparr>cr_changed = False, cr_cons = True\<rparr>, co)"
  obtains s' where "isConsistent (fst (mo_state g m)) False CT_slow (snd (mo_state g m)) = Some (Ok (True, s'))"
    "getPerLocRelation s' R_co = Ok co"
proof -
  let ?s = "snd (mo_state g m)" and ?cs = "fst (mo_state g m)"
  obtain hb where hb: "transClosure hb0 = Ok hb" using transClosure_Ok [OF populateHbEntries_wf [OF assms(1)]] by metis
  note defs = withCoherenceType_def addCalculator_def cons_new_def Let_def
  define s1 where "s1 = ?s\<lparr>cGraph := setFPStatus FS_InProgress g, cRels := (cRels ?s)\<lparr>rGlobal := [hb], rPerLoc := [co]\<rparr>\<rparr>"
  have cs: "?cs = [mo_calculator id (\<lambda>m _. m)]" by (simp add: defs)
  have init: "doInits ?cs False (?s\<lparr>cGraph := setFPStatus FS_InProgress (cGraph ?s)\<rparr>) = Ok s1"
    unfolding cs doInits_def using assms(1,2) hb
    by (simp add: defs s1_def mo_calculator_def putPerLocRelation_def rel_index_def)
  have calc: "doCalcs ?cs False s1 = Ok (\<lparr>cr_changed = False, cr_cons = True\<rparr>, s1)"
    unfolding cs doCalcs_def using assms(3)
    by (simp add: defs s1_def mo_calculator_def putPerLocRelation_def getPerLocRelation_def rel_index_def cr_or_def)
  have fixp: "cons_fixpoint ?cs False s1 = Some (Ok (True, s1\<lparr>cRels := (cRels s1)\<lparr>rResult := \<lparr>cr_changed = False, cr_cons = True\<rparr>\<rparr>\<rparr>))"
    by (subst cons_fixpoint.simps) (simp add: calc)
  have st: "rType (cRels ?s) = CT_fast" by (simp add: defs)
  let ?f = "s1\<lparr>cRels := (cRels s1)\<lparr>rResult := \<lparr>cr_changed = False, cr_cons = True\<rparr>, rType := CT_slow\<rparr>,
    cGraph := setFPStatus FS_Done (cGraph s1)\<rparr>"
  show ?thesis
  proof (rule that [of ?f])
    show "isConsistent ?cs False CT_slow ?s = Some (Ok (True, ?f))"
      using init fixp st by (simp add: isConsistent_def doFinalConsChecks_def Let_def)
    show "getPerLocRelation ?f R_co = Ok co" by (simp add: getPerLocRelation_def rel_index_def s1_def defs)
  qed
qed

section \<open>Properties\<close>

text \<open>A store is maximal in the relation that a slow check computes exactly when it is the last one of its
  location's list: with modification orders the answer of \<open>isCoMaximal()\<close> does not depend on the level of
  checking.\<close>

theorem isCoMaximal_level_irrelevant:
  assumes "distinct (map fst (mo_stores m))" and "\<forall>(a, l) \<in> set (mo_stores m). distinct l" and "populateHbEntries g = Ok hb0"
    and "fixStatus g = FS_Stale" and "(a, l) \<in> set (mo_stores m)" and "isInitializer e \<or> e \<in> set l"
  shows "\<exists>b s1 s2. isCoMaximal (fst (mo_state g m)) id (\<lambda>m _. m) a e False CT_fast (snd (mo_state g m)) = Some (Ok (b, s1))
    \<and> isCoMaximal (fst (mo_state g m)) id (\<lambda>m _. m) a e False CT_slow (snd (mo_state g m)) = Some (Ok (b, s2))"
proof -
  obtain co where co: "mo_initCalc m = Ok co" "mo_doCalc m co = Ok (\<lparr>cr_changed = False, cr_cons = True\<rparr>, co)"
    "\<And>a l. (a, l) \<in> set (mo_stores m) \<Longrightarrow> \<exists>r. mo_init_loc l = Ok r \<and> map_of co a = Some r \<and> distinct l"
    by (rule mo_calc_Ok [OF assms(1,2)]) (rule that)
  obtain s' where s': "isConsistent (fst (mo_state g m)) False CT_slow (snd (mo_state g m)) = Some (Ok (True, s'))"
    "getPerLocRelation s' R_co = Ok co"
    by (rule slow_check_mo [OF assms(3) co(1,2)]) (rule that)
  note st = withCoherenceType_def addCalculator_def cons_new_def Let_def
  have m: "cPriv (snd (mo_state g m)) = m" "fixStatus (cGraph (snd (mo_state g m))) = FS_Stale" using assms(4) by (simp_all add: st)
  have "isCoMaximalInRel co a e = Ok (fst (mo_isCoMaximal m a e))"
    by (rule isCoMaximalInRel_agrees [OF co(1) co(3) assms(1,5,6)])
  then show ?thesis using s' m by (cases "mo_isCoMaximal m a e") (simp add: isCoMaximal_def Let_def)
qed

lemma mo_graph_populates: "\<exists>hb. populateHbEntries mo_graph = Ok hb"
proof -
  have l: "getEventLabel mo_graph (Event 0 0) = Ok (mkLabel EL_ThreadStart 0 Acquire (Event 0 0))"
    by (simp add: mo_graph_def getEventLabel_def vec_get_int_def vec_get_def)
  have n: "[0..<numThreads mo_graph] = [0, 1]" "events mo_graph ! 0 = [mkLabel EL_ThreadStart 0 Acquire (Event 0 0),
      mkLabel EL_Write 1 Release (Event 0 1), mkLabel EL_Write 2 Release (Event 0 2)]" "length (events mo_graph ! 1) = 1"
    by (simp_all add: mo_graph_def)
  have k: "isNonTrivial mo_graph (mkLabel EL_ThreadStart s o1 p) = Ok False" "isNonTrivial mo_graph (mkLabel EL_Write s o1 p) = Ok True"
    "isNonTrivial mo_graph ((mkLabel EL_ThreadStart s o1 p)\<lparr>hbView := v\<rparr>) = Ok False" for s o1 p v
    by (simp_all add: isNonTrivial_def mkLabel_def isa_defs)
  have m: "\<not> isa_Read (lkind (mkLabel EL_Write s o1 p))" "lkind (mkLabel EL_ThreadStart s o1 p) = EL_ThreadStart"
    "lparentCreate (mkLabel EL_ThreadStart s o1 p) = getInitializer" for s o1 p by (simp_all add: mkLabel_def isa_defs)
  have p: "getPreviousNonTrivial mo_graph getInitializer = Ok getInitializer"
    by (simp add: getPreviousNonTrivial_def getInitializer_def pos_or_init_def)
  have 1: "rfold (hb_label mo_graph 0 0) [0, 1, 2] ([], []) = Ok ([Event 0 1, Event 0 2], [(Event 0 1, Event 0 2)])"
    using l by (simp add: hb_label_def mo_graph_label k m p [unfolded getInitializer_def] isInitializer_def getInitializer_def Let_def)
  have 2: "rfold (hb_label mo_graph t 1) [0] q = Ok q" for t q
    using l by (cases q) (simp add: hb_label_def mo_graph_label k)
  have u: "[0..<length (events mo_graph ! 0)] = [0, 1, 2]" "[0..<length (events mo_graph ! 1)] = [0]"
    unfolding n by (simp_all add: upt_rec numeral_2_eq_2)
  define F where "F = (\<lambda>i p. rfold (hb_label mo_graph (length (fst p)) i) [0..<length (events mo_graph ! i)] p)"
  have "F 0 ([], []) = Ok ([Event 0 1, Event 0 2], [(Event 0 1, Event 0 2)])" unfolding F_def u fst_conv list.size 1 ..
  moreover have "F 1 q = Ok q" for q unfolding F_def u 2 ..
  ultimately have "rfold F [0, 1] ([], []) = Ok ([Event 0 1, Event 0 2], [(Event 0 1, Event 0 2)])" by simp
  then have "populateHbEntries mo_graph = rfold (\<lambda>(a, b) r. addEdge r a b) [(Event 0 1, Event 0 2)] (adj_of [Event 0 1, Event 0 2])"
    unfolding populateHbEntries_def n F_def by simp
  also have "\<exists>hb. \<dots> = Ok hb"
    using addEdges_Ok [OF adj_of_wf, of "[Event 0 1, Event 0 2]" "[(Event 0 1, Event 0 2)]"] by auto
  finally show ?thesis .
qed

theorem isCoMaximal_level_irrelevant_witness:
  "\<exists>b s1 s2. isCoMaximal (fst (mo_state mo_graph mo_ex)) id (\<lambda>m _. m) 64 (Event 0 2) False CT_fast (snd (mo_state mo_graph mo_ex)) = Some (Ok (b, s1))
    \<and> isCoMaximal (fst (mo_state mo_graph mo_ex)) id (\<lambda>m _. m) 64 (Event 0 2) False CT_slow (snd (mo_state mo_graph mo_ex)) = Some (Ok (b, s2))"
proof -
  obtain hb where hb: "populateHbEntries mo_graph = Ok hb" using mo_graph_populates by blast
  show ?thesis by (rule isCoMaximal_level_irrelevant [OF _ _ hb, where l = "[Event 0 1, Event 0 2]"])
    (simp_all add: mo_ex_def mo_graph_def graph_init_def)
qed

text \<open>\<open>getCoherenceCalculator()\<close> and \<open>getLbCalculatorLAPOR()\<close> index the calculators with \<open>relationIndex\<close>, which
  counts the relations of each class. In every graph that \<open>GraphBuilder\<close> builds, and after a driver has added
  calculators of global relations, they find the right calculator, and \<open>hasCalculator(lb)\<close> tells whether LAPOR
  is enabled.\<close>

theorem builder_getters:
  assumes "\<forall>(c, r) \<in> set extra. r \<noteq> R_co \<and> r \<noteq> R_lb"
  shows "\<exists>cs s. rbind (build_graph (withEnabledLAPOR lbc lapor (withCoherenceType coc k ([], cons_new g p))))
      (\<lambda>b. Ok (fold (\<lambda>(c, r). addCalculator c r False False) extra b)) = Ok (cs, s)
    \<and> rbind (getCoherenceCalculator s) (vec_get cs) = Ok (coc k)
    \<and> (lapor \<longrightarrow> rbind (getLbCalculatorLAPOR s) (vec_get cs) = Ok lbc) \<and> hasCalculator cs s R_lb = lapor"
proof -
  define good :: "'a Calculator list \<times> 'a Cons \<Rightarrow> bool" where
    "good = (\<lambda>(cs, s). cs \<noteq> [] \<and> cs ! 0 = coc k \<and> cRelIndex s R_co = Some 0 \<and>
       (if lapor then 1 < length cs \<and> cs ! 1 = lbc \<and> cRelIndex s R_lb = Some 1 else cRelIndex s R_lb = None))"
  let ?b = "withEnabledLAPOR lbc lapor (withCoherenceType coc k ([], cons_new g p))"
  have b: "good ?b"
    by (simp add: good_def withEnabledLAPOR_def withCoherenceType_def addCalculator_def cons_new_def Let_def)
  have "good (addCalculator c r False False q)" if "good q" "r \<noteq> R_co" "r \<noteq> R_lb" for c r q
    using that by (cases q) (auto simp: good_def addCalculator_def Let_def nth_append split: if_splits)
  then have "good (fold (\<lambda>(c, r). addCalculator c r False False) extra q)" if "good q" for q
    using that assms
  proof (induction extra arbitrary: q)
    case (Cons x extra)
    then show ?case using \<open>\<And>q r c. good q \<Longrightarrow> r \<noteq> R_co \<Longrightarrow> r \<noteq> R_lb \<Longrightarrow> good (addCalculator c r False False q)\<close>
      by (cases x) simp
  qed simp
  with b have "good (fold (\<lambda>(c, r). addCalculator c r False False) extra ?b)" by blast
  moreover have "build_graph ?b = Ok ?b" using b
    by (cases ?b) (auto simp: build_graph_def good_def getCoherenceCalculator_def deref_def)
  ultimately show ?thesis
    by (cases "fold (\<lambda>(c, r). addCalculator c r False False) extra ?b")
      (auto simp: good_def getCoherenceCalculator_def getLbCalculatorLAPOR_def hasCalculator_def deref_def split: if_splits)
qed

theorem builder_getters_witness:
  "\<exists>cs s. rbind (build_graph (withEnabledLAPOR (lb_calculator snd (\<lambda>l p. (fst p, l))) True
        (withCoherenceType (\<lambda>_. mo_calculator fst (\<lambda>m p. (m, snd p))) Coh_mo ([], cons_new graph_init (mo_ex, [])))))
      (\<lambda>b. Ok (fold (\<lambda>(c, r). addCalculator c r False False) [(mo_calculator fst (\<lambda>m p. (m, snd p)), R_psc)] b)) = Ok (cs, s)
    \<and> rbind (getCoherenceCalculator s) (vec_get cs) = Ok (mo_calculator fst (\<lambda>m p. (m, snd p)))
    \<and> rbind (getLbCalculatorLAPOR s) (vec_get cs) = Ok (lb_calculator snd (\<lambda>l p. (fst p, l))) \<and> hasCalculator cs s R_lb = True"
  using builder_getters [of "[(mo_calculator fst (\<lambda>m p. (m, snd p)), R_psc)]" "lb_calculator snd (\<lambda>l p. (fst p, l))" True
    "\<lambda>_. mo_calculator fst (\<lambda>m p. (m, snd p))" Coh_mo graph_init "(mo_ex, [])"] by simp

end
