(* ===== verification/GenMC_WB.thy ===== *)
theory GenMC_WB
  imports GenMC_LBCalc "HOL-Library.While_Combinator"
begin

text \<open>
  Coherence by the writes-before relation (\<open>src/src/WBCalculator.cpp\<close>, \<open>src/src/WBCalculator.hpp\<close>,
  \<open>src/src/WBIterator.hpp\<close>): the stores of a location in the order in which they were added, a flag that tells
  that they are ordered by themselves, and otherwise a relation that is calculated on demand.

  This theory holds the state, the iterators, the limits of chains of read-modify-writes and the calculation of
  the relation; the queries are in \<open>GenMC_WBQueries\<close>.
\<close>

section \<open>State\<close>

text \<open>The cache of the last calculation. The kind of a new cache is not initialised in the code.\<close>

datatype WBCache = WB_Invalid | WB_Opt "Event list" | WB_Calc GlobalRelation

record WB =
  wb_mo :: MO
  wb_ordered :: "SAddr \<rightharpoonup> bool"
  wb_cache :: WBCache

definition wb_isLocOrdered :: "WB \<Rightarrow> SAddr \<Rightarrow> bool res" where
  "wb_isLocOrdered w a = (case wb_ordered w a of None \<Rightarrow> Undef | Some b \<Rightarrow> Ok b)"

definition wb_setLocOrdered :: "WB \<Rightarrow> SAddr \<Rightarrow> bool \<Rightarrow> WB" where
  "wb_setLocOrdered w a b = w\<lparr>wb_ordered := (wb_ordered w)(a \<mapsto> b)\<rparr>"

definition wb_stores :: "WB \<Rightarrow> SAddr \<Rightarrow> Event list res" where
  "wb_stores w a = mo_at (wb_mo w) a"

definition wb_trackCoherenceAtLoc :: "WB \<Rightarrow> SAddr \<Rightarrow> WB" where
  "wb_trackCoherenceAtLoc w a =
     (let w1 = (if mo_tracksLoc (wb_mo w) a then w else wb_setLocOrdered w a True) in w1\<lparr>wb_mo := mo_ref (wb_mo w1) a\<rparr>)"

text \<open>A new store always goes to the end; the location stays ordered when it follows the last store.\<close>

definition wb_getPossiblePlacings :: "WB \<Rightarrow> SAddr \<Rightarrow> (int \<times> int) \<times> WB" where
  "wb_getPossiblePlacings w a = (let n = int (length (mo_list (wb_mo w) a)) in ((n, n), w\<lparr>wb_mo := mo_ref (wb_mo w) a\<rparr>))"

definition wb_addStoreToLoc :: "ExecutionGraph \<Rightarrow> WB \<Rightarrow> SAddr \<Rightarrow> Event \<Rightarrow> WB res" where
  "wb_addStoreToLoc g w a s =
     rbind (wb_isLocOrdered w a) (\<lambda>ord.
     rbind (if \<not> ord then Ok w
            else rbind (mo_isLocEmpty (wb_mo w) a) (\<lambda>emp.
              rbind (if emp then Ok True else isWriteRfBefore g (last (mo_list (wb_mo w) a)) s) (\<lambda>b.
                Ok (wb_setLocOrdered w a b)))) (\<lambda>w1.
       Ok (w1\<lparr>wb_mo := mo_put (wb_mo w1) a (mo_list (wb_mo w1) a @ [s])\<rparr>)))"

definition wb_addStoreToLocAfter :: "ExecutionGraph \<Rightarrow> WB \<Rightarrow> SAddr \<Rightarrow> Event \<Rightarrow> WB res" where
  "wb_addStoreToLocAfter g w a s = wb_addStoreToLoc g w a s"

section \<open>Iterators\<close>

text \<open>Searches over the successors and predecessors of a store: in a relation, by its elements; in an ordered
  list, by position. The predecessors of a list are visited from the last one.\<close>

definition wb_is_succ :: "GlobalRelation \<Rightarrow> Event \<Rightarrow> Event \<Rightarrow> bool res" where
  "wb_is_succ wb e x = (if x = e then Ok False else if isInitializer e then Ok True else adj_rel wb e x)"

definition wb_any_po_succ :: "GlobalRelation \<Rightarrow> Event \<Rightarrow> (Event \<Rightarrow> bool res) \<Rightarrow> bool res" where
  "wb_any_po_succ wb e P = rany (\<lambda>x. rbind (wb_is_succ wb e x) (\<lambda>b. if b then P x else Ok False)) (elems wb)"

definition wb_to_succs :: "Event list \<Rightarrow> Event \<Rightarrow> Event list" where
  "wb_to_succs l e = (if isInitializer e then l else tl (dropWhile (\<lambda>x. x \<noteq> e) l))"

definition wb_to_preds :: "Event list \<Rightarrow> Event \<Rightarrow> Event list" where
  "wb_to_preds l e = (if isInitializer e then [] else tl (dropWhile (\<lambda>x. x \<noteq> e) (rev l)))"

section \<open>Chains of read-modify-writes\<close>

text \<open>The index \<open>N\<close>, the number of stores, stands for the initialising write. The upper limit of the store of a
  read-modify-write starts as the store it reads from.\<close>

definition rmw_upper :: "ExecutionGraph \<Rightarrow> GlobalRelation \<Rightarrow> nat \<Rightarrow> nat res" where
  "rmw_upper g wb i =
     rbind (vec_get (elems wb) i) (\<lambda>e. rbind (getEventLabel g e) (\<lambda>w.
       if isa_FaiWrite (lkind w) \<or> isa_CasWrite (lkind w)
       then rbind (getPreviousLabel g (lpos w)) (\<lambda>pl. rbind (deref pl) (\<lambda>p.
         if \<not> isa_Read (lkind p) then Undef
         else if lrf p = getInitializer then Ok (length (elems wb)) else getIndex wb (lrf p)))
       else Ok i))"

text \<open>The lower limit of a store is the read-modify-write that reads from it; two of them are a violation.\<close>

fun rmw_lower :: "nat list \<Rightarrow> nat list \<Rightarrow> nat list \<Rightarrow> nat list option" where
  "rmw_lower U L [] = Some L"
| "rmw_lower U L (i # is) =
     (if U ! i = i then rmw_lower U L is
      else if L ! (U ! i) \<noteq> U ! i then None
      else rmw_lower U (L[U ! i := i]) is)"

definition upper_step :: "nat \<Rightarrow> nat \<Rightarrow> bool \<times> nat list \<Rightarrow> bool \<times> nat list" where
  "upper_step N i = (\<lambda>(c, U). let j = U ! i in
     if j = N \<or> j = i then (c, U) else let k = U ! j in if j = k then (c, U) else (True, U[i := k]))"

definition lower_step :: "nat \<Rightarrow> bool \<times> nat list \<Rightarrow> bool \<times> nat list" where
  "lower_step i = (\<lambda>(c, L). let j = L ! i in
     if j = i then (c, L) else let k = L ! j in if j = k then (c, L) else (True, L[i := k]))"

text \<open>Both limits are pushed along the chains until nothing changes; a loop that does not end is \<open>None\<close>.\<close>

definition push_limits :: "(nat \<Rightarrow> bool \<times> nat list \<Rightarrow> bool \<times> nat list) \<Rightarrow> nat list \<Rightarrow> nat list \<Rightarrow> nat list option" where
  "push_limits step is U = map_option snd (while_option fst (\<lambda>(c, V). fold step is (False, V)) (True, U))"

definition calcRMWLimits :: "ExecutionGraph \<Rightarrow> GlobalRelation \<Rightarrow> (nat list \<times> nat list) option res" where
  "calcRMWLimits g wb =
     (let N = length (elems wb) in
      rbind (rmap (rmw_upper g wb) [0..<N]) (\<lambda>U.
        case rmw_lower U [0..<Suc N] [0..<N] of None \<Rightarrow> Ok None
        | Some L \<Rightarrow> (case push_limits (upper_step N) [0..<N] U of None \<Rightarrow> Undef
            | Some U1 \<Rightarrow> (case push_limits lower_step [0..<Suc N] L of None \<Rightarrow> Undef
                | Some L1 \<Rightarrow> Ok (Some (U1, L1))))))"

section \<open>The relation\<close>

text \<open>The edges from a store \<open>j\<close> that is before a store \<open>i\<close> or one of its readers, and between their chains; and the
  one that follows a chain that starts at the initialising write.\<close>

definition wb_pair :: "(Event \<Rightarrow> Event \<Rightarrow> bool res) \<Rightarrow> nat list \<Rightarrow> nat list \<Rightarrow> Event list \<Rightarrow> nat \<Rightarrow> nat \<Rightarrow> GlobalRelation \<Rightarrow>
    GlobalRelation res" where
  "wb_pair before U L es i j M =
     (if i = j then Ok M
      else rbind (vec_get (elems M) j) (\<lambda>s. rbind (rany (before s) es) (\<lambda>b.
        if \<not> b then Ok M
        else rbind (addEdgeId M j i) (\<lambda>M1.
          if U ! i = length (elems M) \<or> U ! i = U ! j then Ok M1 else addEdgeId M1 (L ! j) (U ! i)))))"

definition wb_row :: "ExecutionGraph \<Rightarrow> (Event \<Rightarrow> Event \<Rightarrow> bool res) \<Rightarrow> (EventLabel \<Rightarrow> Event list res) \<Rightarrow> nat list \<Rightarrow> nat list \<Rightarrow>
    nat \<Rightarrow> GlobalRelation \<Rightarrow> GlobalRelation res" where
  "wb_row g before es_of U L i M =
     (let N = length (elems M) in
      rbind (vec_get (elems M) i) (\<lambda>s. rbind (getEventLabel g s) (\<lambda>w. rbind (es_of w) (\<lambda>es.
      rbind (rfold (wb_pair before U L es i) [0..<N] M) (\<lambda>M1.
        if L ! N = N \<or> U ! i = N then Ok M1 else addEdgeId M1 (L ! N) i)))))"

definition self_edges :: "GlobalRelation \<Rightarrow> GlobalRelation res" where
  "self_edges M = rfold (\<lambda>i M. addEdgeId M i i) [0..<length (elems M)] M"

definition calc_wb :: "ExecutionGraph \<Rightarrow> (EventLabel \<Rightarrow> Event list res) \<Rightarrow> Event list \<Rightarrow> GlobalRelation res" where
  "calc_wb g es_of stores =
     (let M = adj_of stores in
      if length stores \<le> 1 then Ok M
      else rbind (calcRMWLimits g M) (\<lambda>lim. case lim of None \<Rightarrow> self_edges M
        | Some (U, L) \<Rightarrow> rbind (rfold (wb_row g (isWriteRfBefore g) es_of U L) [0..<length stores] M) transClosure))"

definition calcWb :: "ExecutionGraph \<Rightarrow> WB \<Rightarrow> SAddr \<Rightarrow> GlobalRelation res" where
  "calcWb g w a = rbind (wb_stores w a) (calc_wb g (\<lambda>l. Ok (lreaders l @ [lpos l])))"

definition calcWbRestricted :: "ExecutionGraph \<Rightarrow> WB \<Rightarrow> SAddr \<Rightarrow> VectorClock \<Rightarrow> GlobalRelation res" where
  "calcWbRestricted g w a v =
     rbind (wb_stores w a) (\<lambda>st. rbind (rfilter (vc_contains v) st) (\<lambda>s.
       calc_wb g (\<lambda>l. rbind (rfilter (vc_contains v) (lreaders l)) (\<lambda>rs. Ok (rs @ [lpos l]))) s))"

fun wb_scan_ordered :: "ExecutionGraph \<Rightarrow> VectorClock \<Rightarrow> Event \<Rightarrow> Event list \<Rightarrow> bool res" where
  "wb_scan_ordered g v p [] = Ok True"
| "wb_scan_ordered g v p (s # ss) = rbind (vc_contains v s) (\<lambda>b.
     if \<not> b then wb_scan_ordered g v p ss
     else rbind (isWriteRfBefore g p s) (\<lambda>o1. if \<not> o1 then Ok False else wb_scan_ordered g v s ss))"

definition isLocOrderedRestricted :: "ExecutionGraph \<Rightarrow> WB \<Rightarrow> SAddr \<Rightarrow> VectorClock \<Rightarrow> bool res" where
  "isLocOrderedRestricted g w a v =
     rbind (wb_isLocOrdered w a) (\<lambda>ord. if ord then Ok True
       else rbind (wb_stores w a) (wb_scan_ordered g v getInitializer))"

section \<open>The calculator\<close>

text \<open>The steps of the fixpoint: an edge counts as a change when the matrix did not have it. Predicates other than
  that of the \<open>co\<close> calculation leave events out.\<close>

definition wb_add :: "nat \<Rightarrow> nat \<Rightarrow> bool \<times> GlobalRelation \<Rightarrow> (bool \<times> GlobalRelation) res" where
  "wb_add i j = (\<lambda>(c, M). rbind (adj_edge M i j) (\<lambda>e. if e then Ok (c, M) else rbind (addEdgeId M i j) (\<lambda>M1. Ok (True, M1))))"

definition wb_step_pair :: "(Event \<Rightarrow> Event \<Rightarrow> bool res) \<Rightarrow> (Event \<Rightarrow> bool res) \<Rightarrow> nat list \<Rightarrow> nat list \<Rightarrow> Event list \<Rightarrow> nat \<Rightarrow> nat \<Rightarrow>
    bool \<times> GlobalRelation \<Rightarrow> (bool \<times> GlobalRelation) res" where
  "wb_step_pair before P U L es i j S =
     (let N = length (elems (snd S)) in
      rbind (vec_get (elems (snd S)) j) (\<lambda>s. rbind (P s) (\<lambda>ok.
        if \<not> ok \<or> i = j then Ok S
        else rbind (rany (before s) es) (\<lambda>b.
          if \<not> b then Ok S
          else rbind (wb_add j i S) (\<lambda>S1.
            if U ! i = N \<or> U ! i = U ! j then Ok S1 else wb_add (L ! j) (U ! i) S1)))))"

definition wb_step_row :: "ExecutionGraph \<Rightarrow> (Event \<Rightarrow> Event \<Rightarrow> bool res) \<Rightarrow> (Event \<Rightarrow> bool res) \<Rightarrow> (EventLabel \<Rightarrow> Event list res) \<Rightarrow> nat list \<Rightarrow> nat list \<Rightarrow> nat \<Rightarrow>
    bool \<times> GlobalRelation \<Rightarrow> (bool \<times> GlobalRelation) res" where
  "wb_step_row g before P es_of U L i S =
     (let N = length (elems (snd S)) in
      rbind (vec_get (elems (snd S)) i) (\<lambda>s. rbind (getEventLabel g s) (\<lambda>w.
      rbind (es_of w) (\<lambda>es.
      rbind (rfold (wb_step_pair before P U L es i) [0..<N] S) (\<lambda>S1.
        if L ! N = N \<or> U ! i = N then Ok S1 else wb_add (L ! N) i S1)))))"

text \<open>One location: \<open>Inl\<close> is the result at which the calculation stops.\<close>

definition wb_step_loc :: "ExecutionGraph \<Rightarrow> GlobalRelation \<Rightarrow> (Event \<Rightarrow> bool res) \<Rightarrow> (EventLabel \<Rightarrow> Event list res) \<Rightarrow> bool \<Rightarrow> GlobalRelation \<Rightarrow>
    ((CalculationResult + bool) \<times> GlobalRelation) res" where
  "wb_step_loc g rel P es_of changed M =
     (if elems M = [] then Ok (Inr changed, M)
      else rbind (calcRMWLimits g M) (\<lambda>lim. case lim of
          None \<Rightarrow> rbind (self_edges M) (\<lambda>M1. Ok (Inl \<lparr>cr_changed = True, cr_cons = False\<rparr>, M1))
        | Some (U, L) \<Rightarrow>
            rbind (rfold (wb_step_row g (\<lambda>a b. isWriteRfBeforeRel g rel a b P) P es_of U L) [0..<length (elems M)] (changed, M)) (\<lambda>(c, M1).
            rbind (transClosure M1) (\<lambda>M2. rbind (isIrreflexive M2) (\<lambda>irr.
              Ok (if irr then Inr c else Inl \<lparr>cr_changed = c, cr_cons = False\<rparr>, M2))))))"

definition wb_initCalc :: "ExecutionGraph \<Rightarrow> WB \<Rightarrow> PerLocRelation res" where
  "wb_initCalc g w = rfold (\<lambda>p co. rbind (calcWb g w (fst p)) (\<lambda>r. Ok (assoc_set (fst p) r co))) (mo_stores (wb_mo w)) []"

fun wb_doCalc_loop :: "ExecutionGraph \<Rightarrow> GlobalRelation \<Rightarrow> (SAddr \<times> Event list) list \<Rightarrow> bool \<Rightarrow> PerLocRelation \<Rightarrow>
    (CalculationResult \<times> PerLocRelation) res" where
  "wb_doCalc_loop g hb [] changed co = Ok (\<lparr>cr_changed = changed, cr_cons = True\<rparr>, co)"
| "wb_doCalc_loop g hb (p # ps) changed co =
     (let M = (case map_of co (fst p) of None \<Rightarrow> adj_empty | Some r \<Rightarrow> r) in
      rbind (wb_step_loc g hb (\<lambda>_. Ok True) (\<lambda>l. Ok (lreaders l @ [lpos l])) changed M) (\<lambda>(r, M1).
        let co1 = assoc_set (fst p) M1 co in
        case r of Inl res \<Rightarrow> Ok (res, co1) | Inr c \<Rightarrow> wb_doCalc_loop g hb ps c co1))"

definition wb_doCalc :: "ExecutionGraph \<Rightarrow> WB \<Rightarrow> GlobalRelation \<Rightarrow> PerLocRelation \<Rightarrow> (CalculationResult \<times> PerLocRelation) res" where
  "wb_doCalc g w hb co = wb_doCalc_loop g hb (mo_stores (wb_mo w)) False co"

text \<open>The relation of one location with another order and a predicate; the loop over the locations works on the
  same matrix in every round.\<close>

fun wb_relation_loop :: "ExecutionGraph \<Rightarrow> GlobalRelation \<Rightarrow> (Event \<Rightarrow> bool res) \<Rightarrow> nat \<Rightarrow> bool \<Rightarrow> GlobalRelation \<Rightarrow>
    (CalculationResult \<times> GlobalRelation) res" where
  "wb_relation_loop g rel P 0 changed M = Ok (\<lparr>cr_changed = changed, cr_cons = True\<rparr>, M)"
| "wb_relation_loop g rel P (Suc n) changed M = rbind (wb_step_loc g rel P (\<lambda>l. rfilter P (lpos l # lreaders l)) changed M) (\<lambda>(r, M1).
     case r of Inl res \<Rightarrow> Ok (res, M1) | Inr c \<Rightarrow> wb_relation_loop g rel P n c M1)"

definition calcWbRelation :: "ExecutionGraph \<Rightarrow> WB \<Rightarrow> SAddr \<Rightarrow> GlobalRelation \<Rightarrow> GlobalRelation \<Rightarrow> (Event \<Rightarrow> bool res) \<Rightarrow>
    (CalculationResult \<times> GlobalRelation) res" where
  "calcWbRelation g w a M rel P = wb_relation_loop g rel P (length (mo_stores (wb_mo w))) False M"

definition wb_removeAfter :: "ExecutionGraph \<Rightarrow> WB \<Rightarrow> VectorClock \<Rightarrow> WB res" where
  "wb_removeAfter g w preds =
     rbind (mo_removeAfter g (wb_mo w) preds) (\<lambda>m.
       Ok (w\<lparr>wb_mo := m, wb_ordered := (\<lambda>a. if mo_tracksLoc (wb_mo w) a \<and> \<not> mo_tracksLoc m a then None else wb_ordered w a)\<rparr>))"

definition wb_calculator :: "('p \<Rightarrow> WB) \<Rightarrow> (WB \<Rightarrow> 'p \<Rightarrow> 'p) \<Rightarrow> 'p Calculator" where
  "wb_calculator wb put =
     \<lparr>initCalc = \<lambda>s. rbind (rel_index s R_co) (\<lambda>_. rbind (wb_initCalc (cGraph s) (wb (cPriv s))) (putPerLocRelation s R_co)),
      doCalc = \<lambda>s. rbind (getGlobalRelation s R_hb) (\<lambda>hb. rbind (getPerLocRelation s R_co) (\<lambda>co.
        rbind (wb_doCalc (cGraph s) (wb (cPriv s)) hb co) (\<lambda>(r, co1). rbind (putPerLocRelation s R_co co1) (\<lambda>s1. Ok (r, s1))))),
      calcRemoveAfter = \<lambda>preds s. rbind (wb_removeAfter (cGraph s) (wb (cPriv s)) preds) (\<lambda>w. Ok (s\<lparr>cPriv := put w (cPriv s)\<rparr>))\<rparr>"

end
