(* ===== verification/GenMC_WBQueries.thy ===== *)
theory GenMC_WBQueries
  imports GenMC_WB
begin

text \<open>
  The queries of the writes-before calculator (\<open>src/src/WBCalculator.cpp\<close>): maximality, the stores a read may
  read from, the reads a store may revisit, and whether a revisit is on the maximal path.
\<close>

section \<open>The cache\<close>

definition calcCacheWb :: "ExecutionGraph \<Rightarrow> SAddr \<Rightarrow> WB \<Rightarrow> (GlobalRelation \<times> WB) res" where
  "calcCacheWb g a w = (case wb_cache w of WB_Calc r \<Rightarrow> Ok (r, w)
     | _ \<Rightarrow> rbind (calcWb g w a) (\<lambda>r. Ok (r, w\<lparr>wb_cache := WB_Calc r\<rparr>)))"

definition calcCacheWbRestricted :: "ExecutionGraph \<Rightarrow> SAddr \<Rightarrow> VectorClock \<Rightarrow> WB \<Rightarrow> (GlobalRelation \<times> WB) res" where
  "calcCacheWbRestricted g a v w = (case wb_cache w of WB_Calc r \<Rightarrow> Ok (r, w)
     | _ \<Rightarrow> rbind (calcWbRestricted g w a v) (\<lambda>r. Ok (r, w\<lparr>wb_cache := WB_Calc r\<rparr>)))"

definition wb_invalidate :: "WB \<Rightarrow> WB" where
  "wb_invalidate w = w\<lparr>wb_cache := WB_Invalid\<rparr>"

definition no_succs :: "GlobalRelation \<Rightarrow> Event \<Rightarrow> bool res" where
  "no_succs r e = rbind (getIndex r e) (\<lambda>i. rbind (vec_get (nodeSucc r) i) (\<lambda>s. Ok (s = [])))"

definition wb_cache_isMaximal :: "WBCache \<Rightarrow> Event \<Rightarrow> bool res" where
  "wb_cache_isMaximal c s = (case c of WB_Invalid \<Rightarrow> Bug | WB_Opt es \<Rightarrow> Ok (s \<in> set es) | WB_Calc r \<Rightarrow> no_succs r s)"

section \<open>Maximality\<close>

definition wb_max_with :: "(WB \<Rightarrow> bool res) \<Rightarrow> WB \<Rightarrow> SAddr \<Rightarrow> Event \<Rightarrow> bool res" where
  "wb_max_with unordered w a s =
     (if isInitializer s then mo_isLocEmpty (wb_mo w) a
      else rbind (wb_isLocOrdered w a) (\<lambda>ord.
        if ord then rbind (wb_stores w a) (\<lambda>st. Ok (st \<noteq> [] \<and> last st = s)) else unordered w))"

definition wb_isCoMaximal :: "ExecutionGraph \<Rightarrow> WB \<Rightarrow> SAddr \<Rightarrow> Event \<Rightarrow> bool res" where
  "wb_isCoMaximal g w a s = wb_max_with (\<lambda>w. rbind (calcWb g w a) (\<lambda>r. no_succs r s)) w a s"

definition wb_isCachedCoMaximal :: "WB \<Rightarrow> SAddr \<Rightarrow> Event \<Rightarrow> bool res" where
  "wb_isCachedCoMaximal w a s = wb_max_with (\<lambda>w. wb_cache_isMaximal (wb_cache w) s) w a s"

section \<open>Avoiding the calculation\<close>

text \<open>The view of the stores that are before an event, together with a reader that is in its view.\<close>

definition rf_opt_step :: "ExecutionGraph \<Rightarrow> View \<Rightarrow> Event \<Rightarrow> View \<Rightarrow> View res" where
  "rf_opt_step g hb s result =
     rbind (view_contains hb s) (\<lambda>b.
       if b then view_updateIdx result s
       else rbind (getWriteLabel g s) (\<lambda>wl. rbind (BUG_ON (wl = None)) (\<lambda>_. rbind (deref wl) (\<lambda>w.
         rbind (rfind_if (\<lambda>r. if ethread r = ethread s then Ok False else view_contains hb r) (lreaders w)) (\<lambda>k.
           if k = length (lreaders w) then Ok result
           else rbind (view_updateIdx result s) (\<lambda>v. view_updateIdx v (lreaders w ! k)))))))"

definition getRfOptHbBeforeStores :: "ExecutionGraph \<Rightarrow> WB \<Rightarrow> SAddr \<Rightarrow> Event \<Rightarrow> View res" where
  "getRfOptHbBeforeStores g w a e = rbind (getEventLabel g e) (\<lambda>l.
     rfold (rf_opt_step g (hbView l)) (mo_list (wb_mo w) a) [])"

text \<open>The stores that are last in the view of their thread: first their readers extend the view, then those that
  have been overwritten are stepped over. Reading the view through \<open>operator[]\<close> extends it.\<close>

definition expand_step :: "ExecutionGraph \<Rightarrow> Event \<Rightarrow> View \<Rightarrow> View res" where
  "expand_step g s v = rbind (view_ref v (ethread s)) (\<lambda>(v1, m).
     if eindex s \<noteq> m then Ok v1
     else rbind (getEventLabel g s) (\<lambda>w. rbind (BUG_ON (\<not> isa_Write (lkind w))) (\<lambda>_.
       rfold (\<lambda>r v. if ethread r \<noteq> ethread s then view_updateIdx v r else Ok v) (lreaders w) v1)))"

fun mark_readers :: "ExecutionGraph \<Rightarrow> Event \<Rightarrow> Event list \<Rightarrow> View \<Rightarrow> View res" where
  "mark_readers g s [] v = Ok v"
| "mark_readers g s (r # rs) v =
     (if ethread r = ethread s then mark_readers g s rs v
      else rbind (view_ref v (ethread r)) (\<lambda>(v1, m).
        if \<not> eindex r < m then mark_readers g s rs v1
        else rbind (getEventLabel g (Event (ethread r) m)) (\<lambda>l.
          if isa_Read (lkind l) \<and> lrf l \<noteq> s
          then rbind (view_ref v1 (ethread s)) (\<lambda>(v2, k). rbind (getThreadSize g (ethread s)) (\<lambda>n.
                 view_set v2 (ethread s) (min (k + 1) (n - 1))))
          else mark_readers g s rs v1)))"

definition mark_step :: "ExecutionGraph \<Rightarrow> Event \<Rightarrow> View \<Rightarrow> View res" where
  "mark_step g s v = rbind (view_ref v (ethread s)) (\<lambda>(v1, m).
     if eindex s \<noteq> m then Ok v1
     else rbind (getEventLabel g s) (\<lambda>w. rbind (BUG_ON (\<not> isa_Write (lkind w))) (\<lambda>_. mark_readers g s (lreaders w) v1)))"

definition expandMaximalAndMarkOverwritten :: "ExecutionGraph \<Rightarrow> WB \<Rightarrow> SAddr \<Rightarrow> View \<Rightarrow> View res" where
  "expandMaximalAndMarkOverwritten g w a v =
     rbind (rfold (expand_step g) (mo_list (wb_mo w) a) v) (rfold (mark_step g) (mo_list (wb_mo w) a))"

text \<open>The loop stops at the second store that is left; then nothing but the initialising write stays in the result,
  and only if it was there.\<close>

fun optimize_loop :: "Event list \<Rightarrow> View \<Rightarrow> nat \<Rightarrow> Event list \<Rightarrow> WBCache \<Rightarrow> (bool \<times> Event list \<times> WBCache) res" where
  "optimize_loop [] v count result c = Ok (count \<le> 1, result, c)"
| "optimize_loop (s # ss) v count result c = rbind (view_ref v (ethread s)) (\<lambda>(v1, m).
     if \<not> eindex s \<ge> m then optimize_loop ss v1 count result c
     else if count > 0 then Ok (False, butlast result, c)
     else rbind (BUG_ON (length (result @ [s]) > 2)) (\<lambda>_. optimize_loop ss v1 (count + 1) (result @ [s]) (WB_Opt (result @ [s]))))"

definition tryOptimizeWBCalculation :: "ExecutionGraph \<Rightarrow> SAddr \<Rightarrow> Event \<Rightarrow> WB \<Rightarrow> (bool \<times> Event list \<times> WB) res" where
  "tryOptimizeWBCalculation g a read w =
     rbind (getRfOptHbBeforeStores g w a (prev read)) (\<lambda>view.
     let result = (if \<exists>i \<in> set view. i > 0 then [] else [getInitializer]) in
     rbind (expandMaximalAndMarkOverwritten g w a view) (\<lambda>view1.
     rbind (wb_stores w a) (\<lambda>st. rbind (optimize_loop st view1 0 result (wb_cache w)) (\<lambda>(b, res, c).
       Ok (b, res, w\<lparr>wb_cache := c\<rparr>)))))"

section \<open>Coherence of a read\<close>

definition hasSuccRfBefore :: "ExecutionGraph \<Rightarrow> SAddr \<Rightarrow> Event \<Rightarrow> Event \<Rightarrow> WB \<Rightarrow> (bool \<times> WB) res" where
  "hasSuccRfBefore g addr a b w = rbind (wb_stores w addr) (\<lambda>st. rbind (wb_isLocOrdered w addr) (\<lambda>ord.
     if ord then rbind (rany (\<lambda>s. isWriteRfBefore g s b) (wb_to_succs st a)) (\<lambda>x. Ok (x, w))
     else rbind (calcCacheWb g addr w) (\<lambda>(r, w1). rbind (wb_any_po_succ r a (\<lambda>s. isWriteRfBefore g s b)) (\<lambda>x. Ok (x, w1)))))"

definition hasSuccRfBeforeRestricted :: "ExecutionGraph \<Rightarrow> SAddr \<Rightarrow> Event \<Rightarrow> Event \<Rightarrow> VectorClock \<Rightarrow> bool \<Rightarrow> WB \<Rightarrow> (bool \<times> WB) res" where
  "hasSuccRfBeforeRestricted g addr a b v ord w = rbind (wb_stores w addr) (\<lambda>st.
     if ord then rbind (rany (\<lambda>s. rbind (vc_contains v s) (\<lambda>c. if c then isWriteRfBefore g s b else Ok False)) (wb_to_succs st a)) (\<lambda>x. Ok (x, w))
     else rbind (calcCacheWbRestricted g addr v w) (\<lambda>(r, w1). rbind (wb_any_po_succ r a (\<lambda>s. isWriteRfBefore g s b)) (\<lambda>x. Ok (x, w1))))"

text \<open>In the unordered case the code builds its iterators from a temporary relation over the list of stores, which
  is gone when they are compared.\<close>

definition hasPredHbOptRfAfter :: "ExecutionGraph \<Rightarrow> SAddr \<Rightarrow> Event \<Rightarrow> Event \<Rightarrow> WB \<Rightarrow> (bool \<times> WB) res" where
  "hasPredHbOptRfAfter g addr a b w = rbind (wb_stores w addr) (\<lambda>st. rbind (wb_isLocOrdered w addr) (\<lambda>ord.
     if ord then rbind (rany (isHbOptRfBefore g b) (wb_to_preds st a)) (\<lambda>x. Ok (x, w))
     else rbind (calcCacheWb g addr w) (\<lambda>_. Undef)))"

definition hasPredHbOptRfAfterRestricted :: "ExecutionGraph \<Rightarrow> SAddr \<Rightarrow> Event \<Rightarrow> Event \<Rightarrow> VectorClock \<Rightarrow> bool \<Rightarrow> WB \<Rightarrow> (bool \<times> WB) res" where
  "hasPredHbOptRfAfterRestricted g addr a b v ord w = rbind (wb_stores w addr) (\<lambda>st.
     if ord then rbind (rany (\<lambda>s. rbind (vc_contains v s) (\<lambda>c. if c then isHbOptRfBeforeInView g b s v else Ok False)) (wb_to_preds st a)) (\<lambda>x. Ok (x, w))
     else rbind (calcCacheWbRestricted g addr v w) (\<lambda>_. Undef))"

text \<open>Whether a read of the initialising write at the location has an event in its view.\<close>

definition init_read_after :: "ExecutionGraph \<Rightarrow> SAddr \<Rightarrow> Event \<Rightarrow> EventLabel \<Rightarrow> bool res" where
  "init_read_after g a e l =
     (if isa_Read (lkind l) \<and> isInitializer (lrf l) \<and> laddr l = a
      then rbind (getEventLabel g (lpos l)) (\<lambda>q. view_contains (hbView q) e) else Ok False)"

definition isCoherentRf :: "ExecutionGraph \<Rightarrow> SAddr \<Rightarrow> Event \<Rightarrow> Event \<Rightarrow> WB \<Rightarrow> (bool \<times> WB) res" where
  "isCoherentRf g a read store w =
     rbind (hasSuccRfBefore g a store (prev read) w) (\<lambda>(x, w1).
       if x then Ok (False, w1)
       else if \<not> mo_ooo (wb_mo w1) then Ok (True, w1)
       else rbind (hasPredHbOptRfAfter g a store read w1) (\<lambda>(y, w2).
         if y then Ok (False, w2)
         else rbind (hb_has g store read) (\<lambda>z. if z then Ok (False, w2)
           else rbind (rany (\<lambda>t. rany (init_read_after g a read) (drop 1 t)) (events g)) (\<lambda>u. Ok (\<not> u, w2)))))"

definition isInitCoherentRf :: "ExecutionGraph \<Rightarrow> WB \<Rightarrow> SAddr \<Rightarrow> Event \<Rightarrow> bool res" where
  "isInitCoherentRf g w a read = rbind (wb_stores w a) (\<lambda>st. rbind (rany (\<lambda>s. isWriteRfBefore g s (prev read)) st) (\<lambda>x. Ok (\<not> x)))"

text \<open>\<open>std::sort\<close> is an insertion sort, as it is for the short lists it gets: an element that is before the first
  one goes to the front, any other one moves left past those that it is before.\<close>

fun insert_left :: "('a \<Rightarrow> 'a \<Rightarrow> bool res) \<Rightarrow> 'a \<Rightarrow> 'a list \<Rightarrow> 'a list res" where
  "insert_left cmp x [] = Ok [x]"
| "insert_left cmp x (y # ys) = rbind (cmp x y) (\<lambda>b. if b then rbind (insert_left cmp x ys) (\<lambda>zs. Ok (y # zs)) else Ok (x # y # ys))"

definition sort_insert :: "('a \<Rightarrow> 'a \<Rightarrow> bool res) \<Rightarrow> 'a \<Rightarrow> 'a list \<Rightarrow> 'a list res" where
  "sort_insert cmp x ys = (case ys of [] \<Rightarrow> Ok [x]
     | y # _ \<Rightarrow> rbind (cmp x y) (\<lambda>b. if b then Ok (x # ys) else rbind (insert_left cmp x (rev ys)) (\<lambda>zs. Ok (rev zs))))"

definition rsort :: "('a \<Rightarrow> 'a \<Rightarrow> bool res) \<Rightarrow> 'a list \<Rightarrow> 'a list res" where
  "rsort cmp xs = rfold (sort_insert cmp) xs []"

definition stamp_less :: "ExecutionGraph \<Rightarrow> Event \<Rightarrow> Event \<Rightarrow> bool res" where
  "stamp_less g a b = rbind (getEventLabel g a) (\<lambda>x. rbind (getEventLabel g b) (\<lambda>y. Ok (lstamp x < lstamp y)))"

definition wb_before :: "ExecutionGraph \<Rightarrow> GlobalRelation \<Rightarrow> Event \<Rightarrow> Event \<Rightarrow> bool res" where
  "wb_before g r a b =
     (if isInitializer b then Ok False else if isInitializer a then Ok True
      else rbind (adj_rel r a b) (\<lambda>x. if x then Ok True else rbind (adj_rel r b a) (\<lambda>y. if y then Ok False else stamp_less g a b)))"

fun wb_coherent_loop :: "ExecutionGraph \<Rightarrow> SAddr \<Rightarrow> Event \<Rightarrow> Event list \<Rightarrow> Event list \<Rightarrow> WB \<Rightarrow> (Event list \<times> WB) res" where
  "wb_coherent_loop g a read [] result w = Ok (result, w)"
| "wb_coherent_loop g a read (s # ss) result w = rbind (isCoherentRf g a read s w) (\<lambda>(b, w1).
     wb_coherent_loop g a read ss (if b then result @ [s] else result) w1)"

definition wb_getCoherentStores :: "ExecutionGraph \<Rightarrow> SAddr \<Rightarrow> Event \<Rightarrow> WB \<Rightarrow> (Event list \<times> WB) res" where
  "wb_getCoherentStores g a read w =
     rbind (wb_stores w a) (\<lambda>st.
     let w0 = wb_invalidate w in
     rbind (if mo_ooo (wb_mo w0) then Ok (False, [], w0) else tryOptimizeWBCalculation g a read w0) (\<lambda>(opt, result, w1).
       if opt then Ok (result, w1)
       else rbind (wb_coherent_loop g a read st result w1) (\<lambda>(res1, w2).
         rbind (wb_isLocOrdered w2 a) (\<lambda>ord.
         rbind (if ord then Ok (res1, w2)
                else rbind (calcCacheWb g a w2) (\<lambda>(r, w3). rbind (rsort (wb_before g r) res1) (\<lambda>s. Ok (s, w3)))) (\<lambda>(res2, w4).
         rbind (if mo_ooo (wb_mo w4) then isInitCoherentRf g w4 a read else Ok False) (\<lambda>i.
           Ok (if i then getInitializer # res2 else res2, w4)))))))"

section \<open>Revisits\<close>

definition isWbMaximal :: "ExecutionGraph \<Rightarrow> WB \<Rightarrow> EventLabel \<Rightarrow> Event list \<Rightarrow> bool res" where
  "isWbMaximal g w s ls =
     (if \<not> isRMWStore s then Ok True
      else if \<not> length ls > 1 then Ok False
      else rbind (wb_isLocOrdered w (laddr s)) (\<lambda>ord.
        if ord then rbind (wb_stores w (laddr s)) (\<lambda>st. if st = [] then Undef else Ok (lpos s = last st))
        else rbind (calcWb g w (laddr s)) (\<lambda>r. rbind (getIndex r (lpos s)) (\<lambda>i.
          rbind (rany (adj_edge r i) [0..<length (elems r)]) (\<lambda>x. Ok (\<not> x))))))"

definition isCoherentRevisit :: "GraphKind \<Rightarrow> ExecutionGraph \<Rightarrow> Revisit \<Rightarrow> WB \<Rightarrow> (bool \<times> WB) res" where
  "isCoherentRevisit cf g r w =
     rbind (getReadLabel g (rv_pos r)) (\<lambda>rl. rbind (rv_rev r) (\<lambda>rev. rbind (getWriteLabel g rev) (\<lambda>wl.
     rbind (BUG_ON (rl = None)) (\<lambda>_. rbind (deref rl) (\<lambda>rLab. rbind (getRevisitView cf g r) (\<lambda>v. rbind (deref wl) (\<lambda>sLab.
     rbind (isLocOrderedRestricted g w (laddr sLab) v) (\<lambda>ord. rbind (getPreviousNonEmptyLabel g (lpos rLab)) (\<lambda>p.
     rbind (hasSuccRfBeforeRestricted g (laddr sLab) (lpos sLab) (lpos p) v ord w) (\<lambda>(x, w1).
       if x then Ok (False, w1)
       else if \<not> mo_ooo (wb_mo w1) then Ok (True, w1)
       else rbind (hasPredHbOptRfAfterRestricted g (laddr sLab) (lpos sLab) (lpos rLab) v ord w1) (\<lambda>(y, w2).
         if y then Ok (False, w2)
         else rbind (hb_has g (lpos sLab) (lpos rLab)) (\<lambda>z. if z then Ok (False, w2)
           else rbind (rany (\<lambda>t. rany (\<lambda>l. if lpos l = lpos rLab then Ok False
                    else rbind (vc_contains v (lpos l)) (\<lambda>c. if c then init_read_after g (laddr sLab) (lpos rLab) l else Ok False)) (drop 1 t))
                  (events g)) (\<lambda>u. Ok (\<not> u, w2)))))))))))))) "

fun wb_revisits_loop :: "GraphKind \<Rightarrow> ExecutionGraph \<Rightarrow> Event \<Rightarrow> Event list \<Rightarrow> Event list \<Rightarrow> WB \<Rightarrow> (Event list \<times> WB) res" where
  "wb_revisits_loop cf g s [] result w = Ok (result, w)"
| "wb_revisits_loop cf g s (l # ls) result w = rbind (isCoherentRevisit cf g (BackwardRevisit l s) (wb_invalidate w)) (\<lambda>(b, w1).
     wb_revisits_loop cf g s ls (if b then result @ [l] else result) w1)"

definition wb_getCoherentRevisits :: "GraphKind \<Rightarrow> ExecutionGraph \<Rightarrow> EventLabel \<Rightarrow> WB \<Rightarrow> (Event list \<times> WB) res" where
  "wb_getCoherentRevisits cf g s w =
     rbind (getRevisitableVC cf g s) (\<lambda>ls.
     rbind (if mo_ooo (wb_mo w) then Ok False else isWbMaximal g w s ls) (\<lambda>mx.
       if mx then Ok (ls, w) else wb_revisits_loop cf g (lpos s) ls [] w))"

end
