(* ===== verification/GenMC_WBPath.thy ===== *)
theory GenMC_WBPath
  imports GenMC_WBQueries
begin

text \<open>
  Whether a revisit of the writes-before calculator is on the maximal path (\<open>src/src/WBCalculator.cpp\<close>): the
  events that it deletes have to have been added maximally. Relations and maximal stores of locations that have
  been calculated for the revisit are kept in maps for the rest of the check.
\<close>

section \<open>Saved prefixes\<close>

definition getOrInsertWbCalc :: "ExecutionGraph \<Rightarrow> WB \<Rightarrow> SAddr \<Rightarrow> VectorClock \<Rightarrow> PerLocRelation \<Rightarrow> (GlobalRelation \<times> PerLocRelation) res" where
  "getOrInsertWbCalc g w a v cache = (case map_of cache a of Some r \<Rightarrow> Ok (r, cache)
     | None \<Rightarrow> rbind (calcWbRestricted g w a v) (\<lambda>r. Ok (r, assoc_set a r cache)))"

text \<open>The predecessors of a store without the store itself.\<close>

definition vc_decrement :: "int \<Rightarrow> View \<Rightarrow> View res" where
  "vc_decrement t v = rbind (view_ref v t) (\<lambda>(v1, m). view_set v1 t (m - 1))"

definition drop_events :: "Event list \<Rightarrow> VectorClock \<Rightarrow> VectorClock res" where
  "drop_events es p = (case p of VC_DepView d \<Rightarrow> rbind (rfold (\<lambda>e d. dv_addHole d e) es d) (\<lambda>d1. Ok (VC_DepView d1))
     | VC_View v \<Rightarrow> rbind (rfold (\<lambda>e. vc_decrement (ethread e)) es v) (\<lambda>v1. Ok (VC_View v1)))"

definition succ_in_prefix :: "ExecutionGraph \<Rightarrow> VectorClock \<Rightarrow> EventLabel \<Rightarrow> EventLabel option \<Rightarrow> EventLabel \<Rightarrow> Event \<Rightarrow> bool res" where
  "succ_in_prefix g v rLab rl wLab s = rbind (getEventLabel g s) (\<lambda>sLab. rbind (vc_contains v (lpos sLab)) (\<lambda>c.
     if \<not> c then Ok False
     else rbind (view_get (dv_view (pporfView sLab)) (ethread (lpos rLab))) (\<lambda>k.
       if \<not> (eindex (lpos rLab) > k \<and> lpos sLab \<noteq> lpos wLab) then Ok False
       else rbind (deref rl) (\<lambda>revLab. Ok (lstamp sLab > lstamp revLab)))))"

definition isRbBeforeSavedPrefix :: "GraphKind \<Rightarrow> ExecutionGraph \<Rightarrow> WB \<Rightarrow> Revisit \<Rightarrow> EventLabel \<Rightarrow> PerLocRelation \<Rightarrow> (bool \<times> PerLocRelation) res" where
  "isRbBeforeSavedPrefix cf g w r l wbs =
     (if \<not> isa_Read (lkind l) then Ok (False, wbs)
      else rbind (getReadLabel g (rv_pos r)) (\<lambda>rl. rbind (rv_rev r) (\<lambda>rve. rbind (getWriteLabel g rve) (\<lambda>wl. rbind (deref wl) (\<lambda>wLab.
      rbind (getPrefixView cf g (lpos wLab)) (\<lambda>v. rbind (getPredsViewVC cf g (lpos wLab)) (\<lambda>p0. rbind (drop_events [lpos wLab] p0) (\<lambda>p.
      rbind (isLocOrderedRestricted g w (laddr l) p) (\<lambda>ord.
        if ord then rbind (wb_stores w (laddr l)) (\<lambda>st.
          rbind (rany (succ_in_prefix g v l rl wLab) (wb_to_succs st (lrf l))) (\<lambda>b. Ok (b, wbs)))
        else rbind (getOrInsertWbCalc g w (laddr l) p wbs) (\<lambda>(wb, wbs1).
          rbind (wb_any_po_succ wb (lrf l) (succ_in_prefix g v l rl wLab)) (\<lambda>b. Ok (b, wbs1))))))))))))"

definition wb_coherenceSuccRemainInGraph :: "GraphKind \<Rightarrow> ExecutionGraph \<Rightarrow> WB \<Rightarrow> Revisit \<Rightarrow> bool res" where
  "wb_coherenceSuccRemainInGraph cf g w r =
     rbind (getReadLabel g (rv_pos r)) (\<lambda>rl. rbind (rv_rev r) (\<lambda>rve. rbind (getWriteLabel g rve) (\<lambda>wl. rbind (deref wl) (\<lambda>wLab.
       if isRMWStore wLab then Ok True
       else rbind (deref rl) (\<lambda>rLab. rbind (wb_isLocOrdered w (laddr rLab)) (\<lambda>ord.
         if ord then rbind (wb_stores w (laddr rLab)) (\<lambda>st. Ok (wb_to_succs st (lpos wLab) = []))
         else rbind (calcWb g w (laddr rLab)) (\<lambda>wb. rbind (getIndex wb (lpos wLab)) (\<lambda>i. rbind (vec_get (nodeSucc wb) i) (\<lambda>js.
           rbind (rmap (vec_get (elems wb)) js) (\<lambda>succs. rbind (rsort (stamp_less g) succs) (\<lambda>ss. case ss of [] \<Rightarrow> Ok True
             | s # _ \<Rightarrow> rbind (getEventLabel g s) (\<lambda>sLab. if lstamp sLab \<le> lstamp rLab then Ok True
                 else rbind (getPrefixView cf g (lpos wLab)) (\<lambda>v. vc_contains v (lpos sLab)))))))))))))) "

section \<open>Maximal stores\<close>

type_synonym MaxCache = "(SAddr \<times> Event) list"

definition wb_maximal :: "ExecutionGraph \<Rightarrow> WB \<Rightarrow> SAddr \<Rightarrow> VectorClock \<Rightarrow> Event res" where
  "wb_maximal g w a v =
     rbind (isLocOrderedRestricted g w a v) (\<lambda>ord.
       if ord then rbind (wb_stores w a) (\<lambda>st. rbind (rfind_if (vc_contains v) (rev st)) (\<lambda>k.
         Ok (if k = length st then getInitializer else rev st ! k)))
       else rbind (calcWbRestricted g w a v) (\<lambda>wb.
         if elems wb = [] then Ok getInitializer
         else rbind (rfilter (no_succs wb) (elems wb)) (\<lambda>ms. rbind (rsort (stamp_less g) ms) (\<lambda>ms1.
           if ms1 = [] then Undef else Ok (last ms1)))))"

definition getOrInsertWbMaximal :: "ExecutionGraph \<Rightarrow> WB \<Rightarrow> EventLabel \<Rightarrow> VectorClock \<Rightarrow> MaxCache \<Rightarrow> (Event \<times> MaxCache) res" where
  "getOrInsertWbMaximal g w l v cache = (case map_of cache (laddr l) of Some e \<Rightarrow> Ok (e, cache)
     | None \<Rightarrow> rbind (wb_maximal g w (laddr l) v) (\<lambda>e. Ok (e, assoc_set (laddr l) e cache)))"

definition tiebreak :: "GraphKind \<Rightarrow> ExecutionGraph \<Rightarrow> Revisit \<Rightarrow> EventLabel \<Rightarrow> Event \<Rightarrow> EventLabel \<Rightarrow> EventLabel res" where
  "tiebreak cf g r l s tb = rbind (getEventLabel g s) (\<lambda>sLab.
     if \<not> lstamp sLab > lstamp tb then Ok tb
     else rbind (revisitDeletesEvent cf g r sLab) (\<lambda>d.
       Ok (if d \<and> lstamp sLab < lstamp l \<and> (\<not> hasBAM cf \<or> lkind sLab \<noteq> EL_BIncFaiWrite) then sLab else tb)))"

definition getTiebraker :: "GraphKind \<Rightarrow> ExecutionGraph \<Rightarrow> WB \<Rightarrow> Revisit \<Rightarrow> EventLabel \<Rightarrow> Event res" where
  "getTiebraker cf g w r l =
     rbind (wb_stores w (laddr l)) (\<lambda>st. rbind (getEventLabel g (lrf l)) (\<lambda>tb.
       rbind (rfold (tiebreak cf g r l) st tb) (\<lambda>t. Ok (lpos t))))"

definition ignoresDeletedStore :: "GraphKind \<Rightarrow> ExecutionGraph \<Rightarrow> WB \<Rightarrow> Revisit \<Rightarrow> EventLabel \<Rightarrow> bool res" where
  "ignoresDeletedStore cf g w r l =
     rbind (wb_stores w (laddr l)) (rany (\<lambda>s. rbind (getEventLabel g s) (\<lambda>sLab.
       rbind (revisitDeletesEvent cf g r sLab) (\<lambda>d. Ok (d \<and> lstamp sLab < lstamp l)))))"

text \<open>Without dependencies the code stops. A store is passed over when it is the revisiting write, outside the view
  or after the read in its own thread's view.\<close>

definition after_in_ppo :: "ExecutionGraph \<Rightarrow> EventLabel \<Rightarrow> EventLabel \<Rightarrow> bool res" where
  "after_in_ppo g l sLab = rbind (view_get (dv_view (pporfView sLab)) (ethread (lpos l))) (\<lambda>k. Ok (eindex (lpos l) \<le> k))"

definition ooo_skipped :: "GraphKind \<Rightarrow> ExecutionGraph \<Rightarrow> EventLabel \<Rightarrow> EventLabel \<Rightarrow> VectorClock \<Rightarrow> Event \<Rightarrow> bool res" where
  "ooo_skipped cf g l wLab p s = rbind (getEventLabel g s) (\<lambda>sLab.
     if s = lpos wLab then Ok True
     else rbind (vc_contains p s) (\<lambda>c.
       rbind (if c then Ok True else prefixContainsMatchingLock cf g (BackwardRevisit (lpos l) (lpos wLab)) sLab) (\<lambda>m.
         if \<not> m then Ok True else after_in_ppo g l sLab)))"

definition ooo_before :: "ExecutionGraph \<Rightarrow> VectorClock \<Rightarrow> Event \<Rightarrow> Event \<Rightarrow> bool res" where
  "ooo_before g p a b = rbind (vc_contains p a) (\<lambda>ca. rbind (vc_contains p b) (\<lambda>cb.
     if ca \<and> \<not> cb then Ok True else if cb \<and> \<not> ca then Ok False else stamp_less g a b))"

definition getMaximalOOO :: "GraphKind \<Rightarrow> ExecutionGraph \<Rightarrow> WB \<Rightarrow> Revisit \<Rightarrow> EventLabel \<Rightarrow> Event res" where
  "getMaximalOOO cf g w r l =
     rbind (rv_rev r) (\<lambda>rve. rbind (getWriteLabel g rve) (\<lambda>wl. rbind (deref wl) (\<lambda>wLab.
     rbind (getRevisitView cf g (BackwardRevisit (lpos l) (lpos wLab))) (\<lambda>p0.
     rbind (case p0 of VC_View v \<Rightarrow> Bug | VC_DepView d \<Rightarrow> drop_events [lpos l, lpos wLab] p0) (\<lambda>p.
     rbind (isLocOrderedRestricted g w (laddr l) p) (\<lambda>ord.
       if ord then rbind (wb_stores w (laddr l)) (\<lambda>st.
         rbind (rfind_if (\<lambda>s. rbind (ooo_skipped cf g l wLab p s) (\<lambda>b. if b then Ok False
             else rbind (rany (\<lambda>t. rbind (ooo_skipped cf g l wLab p t) (\<lambda>c. Ok (\<not> c))) (wb_to_succs st s)) (\<lambda>x. Ok (\<not> x)))) (rev st)) (\<lambda>k.
           Ok (if k = length st then getInitializer else rev st ! k)))
       else rbind (calcWbRestricted g w (laddr l) p) (\<lambda>wb.
         rbind (rfilter (\<lambda>s. rbind (getEventLabel g s) (\<lambda>sLab. rbind (after_in_ppo g l sLab) (\<lambda>b. if b then Ok False
             else rbind (wb_any_po_succ wb s (\<lambda>t. rbind (getEventLabel g t) (\<lambda>tLab. rbind (after_in_ppo g l tLab) (\<lambda>c. Ok (\<not> c))))) (\<lambda>x.
               Ok (\<not> x))))) (elems wb)) (\<lambda>ms.
         rbind (rsort (ooo_before g p) ms) (\<lambda>ms1. Ok (if ms1 = [] then getInitializer else last ms1))))))))))"

section \<open>Paths\<close>

definition wb_wasAddedMaximally :: "GraphKind \<Rightarrow> ExecutionGraph \<Rightarrow> WB \<Rightarrow> Revisit \<Rightarrow> EventLabel \<Rightarrow> MaxCache \<Rightarrow> (bool \<times> MaxCache) res" where
  "wb_wasAddedMaximally cf g w r l cache =
     (if lkind l = EL_Optional then Ok (\<not> lexpanded l, cache)
      else if \<not> isa_Read (lkind l) \<or> hasBAM cf \<and> lkind l = EL_BWaitRead then Ok (True, cache)
      else if mo_ooo (wb_mo w) then rbind (getMaximalOOO cf g w r l) (\<lambda>e. Ok (lrf l = e, cache))
      else rbind (getRevisitView cf g r) (\<lambda>p. rbind (vc_contains p (lrf l)) (\<lambda>c.
        if \<not> c then rbind (getTiebraker cf g w r l) (\<lambda>e. Ok (lrf l = e, cache))
        else rbind (ignoresDeletedStore cf g w r l) (\<lambda>d.
          if d then Ok (False, cache)
          else rbind (rv_rev r) (\<lambda>rev. rbind (drop_events [rv_pos r, rev] p) (\<lambda>p1.
            rbind (getOrInsertWbMaximal g w l p1 cache) (\<lambda>(e, cache1). Ok (lrf l = e, cache1))))))))"

fun wb_path_loop :: "GraphKind \<Rightarrow> ExecutionGraph \<Rightarrow> WB \<Rightarrow> Revisit \<Rightarrow> VectorClock \<Rightarrow> EventLabel list \<Rightarrow> PerLocRelation \<Rightarrow> MaxCache \<Rightarrow> bool res" where
  "wb_path_loop cf g w r v [] wbs mx = Ok True"
| "wb_path_loop cf g w r v (l # ls) wbs mx =
     rbind (if lpos l \<noteq> rv_pos r then vc_contains v (lpos l) else Ok False) (\<lambda>b.
     if b then wb_path_loop cf g w r v ls wbs mx
     else rbind (prefixContainsSameLoc cf g r l) (\<lambda>b.
     if b then wb_path_loop cf g w r v ls wbs mx
     else rbind (isOptBlockedRead g l) (\<lambda>b.
     if b then wb_path_loop cf g w r v ls wbs mx
     else rbind (isRbBeforeSavedPrefix cf g w r l wbs) (\<lambda>(b, wbs1).
     if b then Ok False
     else rbind (hasBeenRevisitedByDeleted cf g r l) (\<lambda>b.
     if b then Ok False
     else rbind (wb_wasAddedMaximally cf g w r l mx) (\<lambda>(b, mx1).
     if \<not> b then Ok False else wb_path_loop cf g w r v ls wbs1 mx1))))))"

definition wb_inMaximalPath :: "GraphKind \<Rightarrow> ExecutionGraph \<Rightarrow> WB \<Rightarrow> Revisit \<Rightarrow> bool res" where
  "wb_inMaximalPath cf g w r =
     rbind (wb_coherenceSuccRemainInGraph cf g w r) (\<lambda>b. if \<not> b then Ok False
     else rbind (getRevisitView cf g r) (\<lambda>v. wb_path_loop cf g w r v (labels g) [] []))"

text \<open>Nothing is saved with a prefix, but its stores have to be in the lists of their locations.\<close>

definition wb_saveCoherenceStatus :: "WB \<Rightarrow> EventLabel list \<Rightarrow> (Event \<times> Event) list res" where
  "wb_saveCoherenceStatus w labs =
     rfold (\<lambda>l pairs. if \<not> isa_Write (lkind l) then Ok pairs
       else rbind (wb_stores w (laddr l)) (\<lambda>st. rbind (BUG_ON (lpos l \<notin> set st)) (\<lambda>_. Ok pairs))) labs []"

end
