(* ===== verification/GenMC_Grid.thy ===== *)
theory GenMC_Grid
  imports GenMC_AdjListProps
begin

text \<open>
  Relations that only grow. The matrix of a relation (\<open>src/src/AdjList.hpp\<close>) never loses a bit: an edge sets one that was
  not set, and the closure sets more. The number of bits that are not set is therefore a measure for loops that run
  until no edge is new. The facts hold for any list of elements, also one with an element that occurs twice.
\<close>

definition grid :: "'a AdjList \<Rightarrow> bool" where
  "grid r \<longleftrightarrow> length (nodeSucc r) = length (elems r) \<and> square (length (elems r)) (transC r) \<and> in_range (nodeSucc r) \<and>
     sound_rows (nodeSucc r) (transC r) \<and> (\<forall>a i. ids r a = Some i \<longrightarrow> i < length (elems r))"

text \<open>The positions of the bits that are set.\<close>

definition marks :: "'a AdjList \<Rightarrow> (nat \<times> nat) set" where
  "marks r = {(i, j). i < length (elems r) \<and> j \<in> bits (transC r) i}"

definition unset :: "'a AdjList \<Rightarrow> nat" where
  "unset r = card ({..<length (elems r)} \<times> {..<length (elems r)} - marks r)"

definition grown :: "'a AdjList \<Rightarrow> 'a AdjList \<Rightarrow> bool" where
  "grown r r' \<longleftrightarrow> grid r' \<and> elems r' = elems r \<and> marks r \<subseteq> marks r'"

lemma grown_refl [simp]: "grown r r \<longleftrightarrow> grid r"
  by (simp add: grown_def)

lemma grown_trans: "grown r r1 \<Longrightarrow> grown r1 r2 \<Longrightarrow> grown r r2"
  unfolding grown_def by auto

lemma grown_grid: "grown r r' \<Longrightarrow> grid r'"
  by (simp add: grown_def)

lemma grown_unset: "grown r r' \<Longrightarrow> unset r' \<le> unset r"
  unfolding unset_def grown_def by (intro card_mono) auto

lemma grid_of_wf: "adj_wf r \<Longrightarrow> grid r"
  by (simp add: grid_def adj_wf_def)

lemma adj_of_ids_range: "k \<le> length es \<Longrightarrow> fold (\<lambda>i m. m(es ! i \<mapsto> i)) [0..<k] Map.empty a = Some i \<Longrightarrow> i < length es"
  by (induction k) (auto split: if_splits)

lemma grid_adj_of [simp]: "grid (adj_of es)"
  using adj_of_ids_range [of "length es" es] unfolding grid_def
  by (auto simp: adj_of_def square_def in_range_def sound_rows_def bits_def)

lemma grid_adj_empty [simp]: "grid adj_empty"
  by (auto simp: grid_def adj_empty_def square_def in_range_def sound_rows_def bits_def)

lemma unset_adj_empty [simp]: "unset adj_empty = 0"
  by (simp add: unset_def adj_empty_def)

lemma grid_bits: "grid r \<Longrightarrow> i < length (elems r) \<Longrightarrow> j \<in> bits (transC r) i \<Longrightarrow> j < length (elems r)"
  by (auto simp: grid_def square_def bits_def)

lemma adj_edge_grid:
  assumes "adj_edge r i j = Ok b" and "grid r"
  shows "i < length (elems r)" "j < length (elems r)" "b \<longleftrightarrow> (i, j) \<in> marks r"
  using assms by (auto simp: adj_edge_def grid_def square_def bits_def marks_def res_simps)

section \<open>An edge\<close>

lemma addEdgeId_grown:
  assumes "addEdgeId r i j = Ok r'" and g: "grid r"
  shows "grown r r'" and "(i, j) \<in> marks r'" and "(i, j) \<notin> marks r \<Longrightarrow> unset r' < unset r"
proof -
  obtain e where e: "adj_edge r i j = Ok e" using assms(1) by (auto simp: addEdgeId_def res_simps)
  note ij = adj_edge_grid [OF e g]
  have "grown r r' \<and> (i, j) \<in> marks r'"
  proof (cases e)
    case True
    then show ?thesis using assms e ij(3) by (simp add: addEdgeId_def)
  next
    case False
    let ?C = "(transC r)[i := (transC r ! i)[j := True]]" and ?G = "(nodeSucc r)[i := nodeSucc r ! i @ [j]]"
    have sq: "square (length (elems r)) (transC r)" and l: "length (nodeSucc r) = length (elems r)" using g by (simp_all add: grid_def)
    have r': "nodeSucc r' = ?G" "transC r' = ?C" "elems r' = elems r" "ids r' = ids r"
      using assms(1) e False by (auto simp: addEdgeId_def res_simps)
    have n: "length (transC r) = length (elems r)" "length (transC r ! i) = length (elems r)" using sq ij(1) by (simp_all add: square_def)
    have B: "bits ?C k = (if k = i then insert j (bits (transC r) i) else bits (transC r) k)" for k
      using n ij(1,2) by (cases "k = i") (auto simp: bits_def nth_list_update)
    have E: "edges_of ?G = insert (i, j) (edges_of (nodeSucc r))" using edges_of_update ij(1) l by simp
    have "sound_rows ?G (transC r)" by (rule sound_rows_mono [of "nodeSucc r"]) (use g in \<open>auto simp: E grid_def\<close>)
    moreover have "(i, j) \<in> (edges_of ?G)\<^sup>+" using E by auto
    ultimately have "sound_rows ?G ?C" unfolding sound_rows_def B by (metis insertE length_list_update)
    moreover have "square (length (elems r)) ?C" using sq ij(1) by (auto simp: square_def nth_list_update)
    moreover have "in_range ?G" using g ij l unfolding in_range_def grid_def by (auto simp: nth_list_update)
    ultimately have "grid r'" using r' l g by (simp add: grid_def)
    then show ?thesis using r' ij(1) by (auto simp: grown_def marks_def B)
  qed
  then show gr: "grown r r'" and m: "(i, j) \<in> marks r'" by simp_all
  show "unset r' < unset r" if "(i, j) \<notin> marks r"
    using that gr m ij(1,2) unfolding unset_def grown_def by (intro psubset_card_mono) auto
qed

lemma addEdge_grown: "addEdge r a b = Ok r' \<Longrightarrow> grid r \<Longrightarrow> grown r r'"
  using addEdgeId_grown(1) by (auto simp: addEdge_def res_simps)

text \<open>Loops that only grow a relation.\<close>

lemma rfold_grown:
  assumes "rfold f xs r = Ok r'" and "grid r" and "\<And>x s s'. x \<in> set xs \<Longrightarrow> grid s \<Longrightarrow> f x s = Ok s' \<Longrightarrow> grown s s'"
  shows "grown r r'"
proof -
  have "grown r r'"
  proof (rule rfold_Ok_inv [OF assms(1), of "\<lambda>_. grown r"])
    fix i s s'
    assume i: "i < length xs" "grown r s" "f (xs ! i) s = Ok s'"
    have "grown s s'" by (rule assms(3) [OF nth_mem [OF i(1)] grown_grid [OF i(2)] i(3)])
    then show "grown r s'" by (rule grown_trans [OF i(2)])
  qed (use assms(2) in simp)
  then show ?thesis .
qed

section \<open>The closure\<close>

lemma transClosure_grown:
  assumes "transClosure r = Ok r'" and "grid r"
  shows "grown r r'"
proof (cases "calculatedTransC r")
  case True
  then show ?thesis using assms by (simp add: transClosure_def)
next
  case False
  then obtain C' where C: "dfs (nodeSucc r) (close_client (nodeSucc r)) (transC r) = Ok C'" "r' = r\<lparr>transC := C', calculatedTransC := True\<rparr>"
    using assms(1) by (auto simp: transClosure_def res_simps)
  have g: "length (nodeSucc r) = length (elems r)" "square (length (nodeSucc r)) (transC r)" "in_range (nodeSucc r)"
    "sound_rows (nodeSucc r) (transC r)" "\<forall>a i. ids r a = Some i \<longrightarrow> i < length (elems r)" using assms(2) by (simp_all add: grid_def)
  from closing_all [OF g(3,2,4) C(1)] show ?thesis
    using g C(2) by (auto simp: grown_def grid_def marks_def)
qed

text \<open>A bit of the diagonal is a cycle.\<close>

lemma irreflexive_grid:
  assumes "grid r"
  shows "isIrreflexive r = Ok (\<forall>i < length (elems r). (i, i) \<notin> marks r)"
  using assms irreflexive_from_Ok [of "length (elems r)" "transC r" "[0..<length (elems r)]"]
  by (auto simp: isIrreflexive_def grid_def marks_def)

end
