(* ===== verification/GenMC_WBProps.thy ===== *)
theory GenMC_WBProps
  imports GenMC_WBPath GenMC_Grid
begin

text \<open>
  The writes-before calculator: the limits of the chains of read-modify-writes are the ends of the chains, and the
  calculated relation is the transitive closure of the edges that the code adds.
\<close>

section \<open>Pushing limits along chains\<close>

text \<open>Both loops follow the limits with the same step; one of them has an index at which it stops.\<close>

definition jump :: "(nat \<Rightarrow> bool) \<Rightarrow> nat \<Rightarrow> bool \<times> nat list \<Rightarrow> bool \<times> nat list" where
  "jump stop i = (\<lambda>(c, V). let j = V ! i in
     if stop j \<or> j = i then (c, V) else let k = V ! j in if j = k then (c, V) else (True, V[i := k]))"

lemma upper_step_jump: "upper_step N = jump (\<lambda>j. j = N)"
  by (simp add: fun_eq_iff upper_step_def jump_def)

lemma lower_step_jump: "lower_step = jump (\<lambda>_. False)"
  by (simp add: fun_eq_iff lower_step_def jump_def)

definition links :: "nat list \<Rightarrow> (nat \<times> nat) set" where
  "links U = {(i, U ! i) |i. i < length U}"

definition pushed :: "(nat \<Rightarrow> bool) \<Rightarrow> nat list \<Rightarrow> nat list \<Rightarrow> bool" where
  "pushed stop U V \<longleftrightarrow> length V = length U \<and> (\<forall>i < length U. (i, V ! i) \<in> (links U)\<^sup>+ \<and> (stop (V ! i) \<or> V ! i < length U))"

lemma pushed_refl: "(\<And>i. i < length U \<Longrightarrow> stop (U ! i) \<or> U ! i < length U) \<Longrightarrow> pushed stop U U"
  by (auto simp: pushed_def links_def)

lemma jump_cases:
  obtains (same) "jump stop i (c, V) = (c, V)" "stop (V ! i) \<or> V ! i = i \<or> V ! (V ! i) = V ! i"
  | (moved) "jump stop i (c, V) = (True, V[i := V ! (V ! i)])" "\<not> stop (V ! i)" "V ! i \<noteq> i" "V ! (V ! i) \<noteq> V ! i"
  by (cases "stop (V ! i) \<or> V ! i = i \<or> V ! (V ! i) = V ! i") (use that in \<open>auto simp: jump_def Let_def\<close>)

lemma pushed_move:
  assumes "pushed stop U V" and "i < length U" and "\<not> stop (V ! i)"
  shows "pushed stop U (V[i := V ! (V ! i)])"
proof -
  have "V ! i < length U" using assms by (auto simp: pushed_def)
  then have "(i, V ! (V ! i)) \<in> (links U)\<^sup>+" "stop (V ! (V ! i)) \<or> V ! (V ! i) < length U"
    using assms by (auto simp: pushed_def intro: trancl_trans)
  then show ?thesis using assms(1,2) by (auto simp: pushed_def nth_list_update)
qed

lemma fold_jump_pushed:
  "pushed stop U V \<Longrightarrow> set is \<subseteq> {..<length U} \<Longrightarrow> pushed stop U (snd (fold (jump stop) is (c, V)))"
proof (induction "is" arbitrary: c V)
  case (Cons i "is")
  show ?case
    using Cons pushed_move [OF Cons.prems(1), of i]
    by (cases rule: jump_cases [of stop i c V]) auto
qed simp

lemma fold_jump_True: "fst (fold (jump stop) is (True, V))"
proof (induction "is" arbitrary: V)
  case (Cons i "is")
  then show ?case by (cases rule: jump_cases [of stop i True V]) auto
qed simp

definition settled :: "(nat \<Rightarrow> bool) \<Rightarrow> nat list \<Rightarrow> nat \<Rightarrow> bool" where
  "settled stop V i \<longleftrightarrow> stop (V ! i) \<or> V ! i = i \<or> V ! (V ! i) = V ! i"

lemma fold_jump_unchanged:
  "\<not> fst (fold (jump stop) is (c, V)) \<Longrightarrow> snd (fold (jump stop) is (c, V)) = V \<and> (\<forall>i \<in> set is. settled stop V i)"
proof (induction "is" arbitrary: c)
  case (Cons i "is")
  show ?case
    using Cons fold_jump_True [of stop "is" "V[i := V ! (V ! i)]"]
    by (cases rule: jump_cases [of stop i c V]) (auto simp: settled_def)
qed simp

lemma upt_range: "set [0..<n] \<subseteq> {..<n}"
  by auto

lemma push_limits_pushed:
  assumes "push_limits (jump stop) [0..<length U] U = Some V" and "pushed stop U U"
  shows "pushed stop U V \<and> (\<forall>i < length U. settled stop V i)"
proof -
  let ?body = "\<lambda>(c, V). fold (jump stop) [0..<length U] (False, V)"
  let ?P = "\<lambda>s. pushed stop U (snd s) \<and> (\<not> fst s \<longrightarrow> (\<forall>i < length U. settled stop (snd s) i))"
  obtain c where w: "while_option fst ?body (True, U) = Some (c, V)"
    using assms(1) by (auto simp: push_limits_def)
  have "?P (?body s)" if "?P s" for s
    using that fold_jump_pushed [OF _ upt_range, of stop U "snd s" False]
      fold_jump_unchanged [of stop "[0..<length U]" False "snd s"] by (auto simp: split_def)
  then have "?P (c, V)" by (rule while_option_rule [OF _ w]) (use assms(2) in auto)
  moreover have "\<not> c" using while_option_stop [OF w] by simp
  ultimately show ?thesis by simp
qed

section \<open>Acyclic chains\<close>

text \<open>A rank that decreases along the links decreases with every move.\<close>

definition ranked :: "(nat \<Rightarrow> bool) \<Rightarrow> (nat \<Rightarrow> nat) \<Rightarrow> nat list \<Rightarrow> bool" where
  "ranked stop \<rho> V \<longleftrightarrow> (\<forall>i < length V. stop (V ! i) \<or> V ! i = i \<or> V ! i < length V \<and> \<rho> (V ! i) < \<rho> i)"

definition weight :: "(nat \<Rightarrow> bool) \<Rightarrow> (nat \<Rightarrow> nat) \<Rightarrow> nat list \<Rightarrow> nat" where
  "weight stop \<rho> V = (\<Sum>i < length V. if stop (V ! i) then 0 else Suc (\<rho> (V ! i)))"

lemma ranked_move:
  assumes "ranked stop \<rho> V" and "i < length V" and "\<not> stop (V ! i)" "V ! i \<noteq> i" "V ! (V ! i) \<noteq> V ! i"
  shows "ranked stop \<rho> (V[i := V ! (V ! i)]) \<and> weight stop \<rho> (V[i := V ! (V ! i)]) < weight stop \<rho> V"
proof -
  let ?k = "V ! (V ! i)"
  have j: "V ! i < length V" "\<rho> (V ! i) < \<rho> i" using assms unfolding ranked_def by auto
  then have k: "stop ?k \<or> ?k < length V \<and> \<rho> ?k < \<rho> (V ! i)"
    using assms(1,5) unfolding ranked_def by blast
  have r: "ranked stop \<rho> (V[i := ?k])"
    using assms(1,2) j k by (auto simp: ranked_def nth_list_update)
  have "weight stop \<rho> (V[i := ?k]) < weight stop \<rho> V"
    unfolding weight_def length_list_update
    by (rule sum_strict_mono_ex1) (use assms(2,3) k in \<open>auto simp: nth_list_update intro!: bexI [of _ i]\<close>)
  then show ?thesis using r by simp
qed

lemma fold_jump_ranked:
  assumes "ranked stop \<rho> V" and "set is \<subseteq> {..<length V}"
  shows "length (snd (fold (jump stop) is (c, V))) = length V \<and> ranked stop \<rho> (snd (fold (jump stop) is (c, V))) \<and>
    weight stop \<rho> (snd (fold (jump stop) is (c, V))) \<le> weight stop \<rho> V \<and>
    (fst (fold (jump stop) is (c, V)) \<longrightarrow> c \<or> weight stop \<rho> (snd (fold (jump stop) is (c, V))) < weight stop \<rho> V)"
  using assms
proof (induction "is" arbitrary: c V)
  case (Cons i "is")
  show ?case
  proof (cases rule: jump_cases [of stop i c V])
    case same
    then show ?thesis using Cons.IH [of V c] Cons.prems by simp
  next
    case moved
    then show ?thesis
      using Cons.IH [of "V[i := V ! (V ! i)]" True] ranked_move [OF Cons.prems(1), of i] Cons.prems(2) by auto
  qed
qed simp

lemma push_limits_ends:
  assumes "ranked stop \<rho> U"
  obtains V where "push_limits (jump stop) [0..<length U] U = Some V" "ranked stop \<rho> V" "length V = length U"
proof -
  let ?body = "\<lambda>(c, V). fold (jump stop) [0..<length U] (False, V)"
  let ?P = "\<lambda>s. ranked stop \<rho> (snd s) \<and> length (snd s) = length U"
  let ?f = "\<lambda>s. 2 * weight stop \<rho> (snd s) + (if fst s then 1 else 0)"
  have step: "?P (?body s) \<and> ?f (?body s) < ?f s" if "?P s" "fst s" for s
    using fold_jump_ranked [of stop \<rho> "snd s" "[0..<length U]" False] upt_range [of "length U"] that
    by (auto simp: split_def)
  have init: "?P (True, U)" using assms by simp
  obtain s where w: "while_option fst ?body (True, U) = Some s"
    using measure_while_option_Some [of ?P fst ?body ?f, OF step init] by blast
  have "?P s" by (rule while_option_rule [OF _ w]) (use step init in auto)
  then show ?thesis using that w by (simp add: push_limits_def)
qed

section \<open>The limits\<close>

text \<open>A chain leads from a read-modify-write to the store it reads from.\<close>

definition chain :: "nat list \<Rightarrow> (nat \<times> nat) set" where
  "chain U = {(i, U ! i) |i. i < length U \<and> U ! i \<noteq> i}"

lemma links_chain: "(links U)\<^sup>* = (chain U)\<^sup>*"
proof (rule rtrancl_subset)
  show "chain U \<subseteq> links U" by (auto simp: chain_def links_def)
  show "links U \<subseteq> (chain U)\<^sup>*"
  proof clarify
    fix i j
    assume "(i, j) \<in> links U"
    then show "(i, j) \<in> (chain U)\<^sup>*"
      by (cases "i = j") (auto simp: chain_def links_def intro!: r_into_rtrancl)
  qed
qed

lemma pushed_chain: "pushed stop U V \<Longrightarrow> i < length U \<Longrightarrow> (i, V ! i) \<in> (chain U)\<^sup>*"
  by (auto simp: pushed_def links_chain [symmetric] intro: trancl_into_rtrancl)

lemma chain_end:
  assumes "acyclic (chain U)" and "pushed stop U V" and "i < length U" and "settled stop V i"
    and "\<And>k. stop k \<Longrightarrow> length U \<le> k"
  shows "V ! i \<notin> Domain (chain U)"
proof -
  have fixed: "k \<notin> Domain (chain U)" if "V ! k = k" "k < length U" for k
  proof
    assume "k \<in> Domain (chain U)"
    then have c: "(k, U ! k) \<in> chain U" by (auto simp: chain_def)
    have "(k, k) \<in> (links U)\<^sup>+" using assms(2) that unfolding pushed_def by (metis (no_types))
    then obtain j where "(k, j) \<in> links U" "(j, k) \<in> (links U)\<^sup>*" by (auto dest: tranclD)
    then have "(U ! k, k) \<in> (chain U)\<^sup>*" by (auto simp: links_def links_chain [symmetric])
    then have "(k, k) \<in> (chain U)\<^sup>+" using c by (rule rtrancl_into_trancl2 [rotated])
    then show False using assms(1) by (auto simp: acyclic_def)
  qed
  consider "length U \<le> V ! i" | "V ! i < length U" "\<not> stop (V ! i)" by (metis assms(5) linorder_not_less)
  then show ?thesis
  proof cases
    case 1
    then show ?thesis by (auto simp: chain_def)
  next
    case 2
    then show ?thesis using fixed [of i] fixed [of "V ! i"] assms(3,4) by (auto simp: settled_def)
  qed
qed

lemma finite_chain: "finite (chain U)"
  by (rule finite_subset [of _ "(\<lambda>i. (i, U ! i)) ` {..<length U}"]) (auto simp: chain_def)

lemma chain_rank:
  assumes "acyclic (chain U)" and "\<And>i. i < length U \<Longrightarrow> stop (U ! i) \<or> U ! i < length U"
  shows "\<exists>\<rho>. ranked stop \<rho> U"
proof -
  let ?\<rho> = "\<lambda>i. card {x. (i, x) \<in> (chain U)\<^sup>+}"
  have fin: "finite {x. (i, x) \<in> (chain U)\<^sup>+}" for i
    by (rule finite_subset [of _ "Range (chain U)"]) (auto simp: finite_chain finite_Range dest: tranclD2)
  have less: "?\<rho> (U ! i) < ?\<rho> i" if "i < length U" "U ! i \<noteq> i" for i
  proof (rule psubset_card_mono [OF fin])
    have e: "(i, U ! i) \<in> chain U" using that by (auto simp: chain_def)
    have "{x. (U ! i, x) \<in> (chain U)\<^sup>+} \<subseteq> {x. (i, x) \<in> (chain U)\<^sup>+}"
      using e by (auto intro: trancl_into_trancl2)
    moreover have "(i, U ! i) \<in> (chain U)\<^sup>+" "(U ! i, U ! i) \<notin> (chain U)\<^sup>+"
      using e assms(1) by (auto simp: acyclic_def)
    ultimately show "{x. (U ! i, x) \<in> (chain U)\<^sup>+} \<subset> {x. (i, x) \<in> (chain U)\<^sup>+}" by blast
  qed
  have "ranked stop ?\<rho> U" unfolding ranked_def
  proof (intro allI impI)
    fix i
    assume "i < length U"
    then show "stop (U ! i) \<or> U ! i = i \<or> U ! i < length U \<and> ?\<rho> (U ! i) < ?\<rho> i"
      using assms(2) [of i] less [of i] by (cases "U ! i = i") simp_all
  qed
  then show ?thesis by blast
qed

text \<open>The lower limits before they are pushed are the converse of the upper ones.\<close>

definition lowered :: "nat list \<Rightarrow> nat set \<Rightarrow> nat list \<Rightarrow> bool" where
  "lowered U P L \<longleftrightarrow> length L = Suc (length U) \<and> (\<forall>i \<in> P. U ! i \<noteq> i \<longrightarrow> L ! (U ! i) = i) \<and>
     (\<forall>j \<le> length U. L ! j = j \<or> L ! j \<in> P \<and> U ! (L ! j) = j)"

definition doubled :: "nat list \<Rightarrow> nat set \<Rightarrow> bool" where
  "doubled U P \<longleftrightarrow> (\<exists>i \<in> P. \<exists>j \<in> P. i \<noteq> j \<and> U ! i = U ! j \<and> U ! i \<noteq> i \<and> U ! j \<noteq> j)"

lemma lowered_step:
  assumes l: "lowered U P L" and i: "i \<notin> P" "U ! i \<noteq> i" "U ! i \<le> length U" and e: "L ! (U ! i) = U ! i"
  shows "lowered U (insert i P) (L[U ! i := i])"
proof -
  have n: "length L = Suc (length U)" "U ! i < length L" using l i(3) by (auto simp: lowered_def)
  have "U ! i \<noteq> U ! k" if "k \<in> P" "U ! k \<noteq> k" for k
  proof
    assume s: "U ! i = U ! k"
    have "L ! (U ! k) = k" using that l by (simp add: lowered_def)
    then show False using s e that by simp
  qed
  then show ?thesis using l i n unfolding lowered_def
    by (auto simp: nth_list_update)
qed

lemma rmw_lower_correct:
  assumes "lowered U P L" and "distinct is" and "set is \<inter> P = {}" and "\<And>i. i \<in> set is \<Longrightarrow> U ! i \<le> length U"
  shows "case rmw_lower U L is of None \<Rightarrow> doubled U (P \<union> set is) | Some M \<Rightarrow> lowered U (P \<union> set is) M"
  using assms
proof (induction "is" arbitrary: P L)
  case (Cons i "is")
  have i: "i \<notin> P" "U ! i \<le> length U" using Cons.prems by auto
  consider "U ! i = i" | "U ! i \<noteq> i" "L ! (U ! i) \<noteq> U ! i" | "U ! i \<noteq> i" "L ! (U ! i) = U ! i" by blast
  then show ?case
  proof cases
    case 1
    then have "lowered U (insert i P) L" using Cons.prems(1) by (auto simp: lowered_def)
    then show ?thesis using Cons.IH [of "insert i P" L] Cons.prems 1 by (auto split: option.splits)
  next
    case 2
    have "L ! (U ! i) \<in> P" "U ! (L ! (U ! i)) = U ! i" using Cons.prems(1) i 2 unfolding lowered_def by blast+
    then have "doubled U (P \<union> set (i # is))" unfolding doubled_def using i(1) 2
      by (intro bexI [of _ i] bexI [of _ "L ! (U ! i)"]) auto
    then show ?thesis using 2 by simp
  next
    case 3
    then show ?thesis using Cons.IH [OF lowered_step [OF Cons.prems(1) i(1) _ i(2)]] Cons.prems by (auto split: option.splits)
  qed
qed simp

lemma rmw_lower_all:
  assumes "\<And>i. i < length U \<Longrightarrow> U ! i \<le> length U"
  shows "case rmw_lower U [0..<Suc (length U)] [0..<length U] of None \<Rightarrow> doubled U {..<length U}
    | Some L \<Rightarrow> \<not> doubled U {..<length U} \<and> lowered U {..<length U} L"
proof -
  have "lowered U {} [0..<Suc (length U)]"
    unfolding lowered_def by (auto simp del: upt_Suc)
  from rmw_lower_correct [OF this, of "[0..<length U]"] assms
  have c: "case rmw_lower U [0..<Suc (length U)] [0..<length U] of None \<Rightarrow> doubled U {..<length U}
    | Some L \<Rightarrow> lowered U {..<length U} L" by (simp add: lessThan_atLeast0 del: upt_Suc split: option.splits)
  moreover have "\<not> doubled U {..<length U}" if "lowered U {..<length U} L" for L
    using that unfolding lowered_def doubled_def by metis
  ultimately show ?thesis by (auto split: option.splits simp del: upt_Suc)
qed

lemma lowered_chain:
  assumes "lowered U {..<length U} L" and "\<And>i. i < length U \<Longrightarrow> U ! i \<le> length U"
  shows "chain L = (chain U)\<inverse>"
proof (rule set_eqI)
  fix p :: "nat \<times> nat"
  obtain j i where p: "p = (j, i)" by (cases p)
  have "j < length L \<and> L ! j = i \<and> i \<noteq> j \<longleftrightarrow> i < length U \<and> U ! i = j \<and> i \<noteq> j"
    using assms unfolding lowered_def by (auto simp: less_Suc_eq_le)
  then show "p \<in> chain L \<longleftrightarrow> p \<in> (chain U)\<inverse>" by (auto simp: p chain_def)
qed

lemma rmw_upper_bound:
  assumes "adj_wf wb" and "rmw_upper g wb i = Ok u" and "i < length (elems wb)"
  shows "u \<le> length (elems wb)"
  using assms by (auto simp: rmw_upper_def rbind_Ok_iff getIndex_def adj_wf_def split: if_splits option.splits)

lemma rmap_Ok_iff: "rmap f xs = Ok ys \<longleftrightarrow> length ys = length xs \<and> (\<forall>i < length xs. f (xs ! i) = Ok (ys ! i))"
proof (induction xs arbitrary: ys)
  case (Cons x xs)
  show ?case by (cases ys) (auto simp: rbind_Ok_iff Cons.IH nth_Cons split: nat.splits)
qed auto

lemma rmw_uppers_bound:
  assumes "adj_wf wb" and "rmap (rmw_upper g wb) [0..<length (elems wb)] = Ok U"
  shows "length U = length (elems wb) \<and> (\<forall>i < length U. U ! i \<le> length U)"
  using assms rmw_upper_bound [OF assms(1)] by (auto simp: rmap_Ok_iff)

lemma calcRMWLimits_eq:
  assumes "rmap (rmw_upper g wb) [0..<length (elems wb)] = Ok U" and "length U = length (elems wb)"
  shows "calcRMWLimits g wb = (case rmw_lower U [0..<Suc (length U)] [0..<length U] of None \<Rightarrow> Ok None
    | Some L \<Rightarrow> (case push_limits (jump (\<lambda>j. j = length U)) [0..<length U] U of None \<Rightarrow> Undef
      | Some V \<Rightarrow> (case push_limits (jump (\<lambda>_. False)) [0..<Suc (length U)] L of None \<Rightarrow> Undef
        | Some M \<Rightarrow> Ok (Some (V, M)))))"
  using assms(1) by (simp add: calcRMWLimits_def Let_def upper_step_jump lower_step_jump assms(2) [symmetric] del: upt_Suc cong: option.case_cong)

lemma lower_links_bound:
  assumes "lowered U {..<length U} L" and "(i, k) \<in> (links L)\<^sup>*" and "i < length U"
  shows "k < length U"
  using assms(2,3)
proof (induction rule: rtrancl_induct)
  case (step j k)
  then have "L ! j = k" "j < length U" by (auto simp: links_def)
  then show ?case using assms(1) unfolding lowered_def by (metis less_imp_le_nat lessThan_iff)
qed

lemma calcRMWLimits_bounds:
  assumes "adj_wf wb" and "calcRMWLimits g wb = Ok (Some (V, M))"
  shows "length V = length (elems wb) \<and> (\<forall>i < length (elems wb). V ! i \<le> length (elems wb) \<and> M ! i < length (elems wb)) \<and>
    M ! length (elems wb) \<le> length (elems wb)"
proof -
  obtain U where U: "rmap (rmw_upper g wb) [0..<length (elems wb)] = Ok U"
    using assms(2) by (auto simp: calcRMWLimits_def Let_def rbind_Ok_iff simp del: upt_Suc)
  note b = rmw_uppers_bound [OF assms(1) U]
  obtain L where L: "rmw_lower U [0..<Suc (length U)] [0..<length U] = Some L"
    and V: "push_limits (jump (\<lambda>j. j = length U)) [0..<length U] U = Some V"
    and M: "push_limits (jump (\<lambda>_. False)) [0..<Suc (length U)] L = Some M"
    using assms(2) calcRMWLimits_eq [OF U] b by (auto simp del: upt_Suc split: option.splits)
  have le: "\<And>i. i < length U \<Longrightarrow> U ! i \<le> length U" using b by blast
  have l: "lowered U {..<length U} L" using rmw_lower_all [OF le] L by (simp del: upt_Suc)
  then have n: "length L = Suc (length U)" by (simp add: lowered_def)
  have "pushed (\<lambda>j. j = length U) U U" by (rule pushed_refl) (use b in \<open>auto simp: le_less\<close>)
  note v = push_limits_pushed [OF V this]
  have "L ! j \<le> length U" if "j \<le> length U" for j
    using l that unfolding lowered_def by (metis less_imp_le_nat lessThan_iff)
  then have "pushed (\<lambda>_. False) L L" by (intro pushed_refl) (simp add: n less_Suc_eq_le)
  note m = push_limits_pushed [OF M [folded n] this]
  have "M ! i < length U" if "i < length U" for i
    by (rule lower_links_bound [OF l _ that]) (use m that n in \<open>auto simp: pushed_def intro: trancl_into_rtrancl\<close>)
  then show ?thesis using v m b n by (auto simp: pushed_def le_less)
qed

section \<open>The calculated relation\<close>

text \<open>The edges of two stores where the first is before the second, and of the chain that starts at the initialising
  write.\<close>

definition pair_edges :: "(nat \<Rightarrow> nat \<Rightarrow> bool) \<Rightarrow> nat list \<Rightarrow> nat list \<Rightarrow> nat \<Rightarrow> nat \<Rightarrow> nat \<Rightarrow> (nat \<times> nat) set" where
  "pair_edges bef U L N i j = (if i \<noteq> j \<and> bef j i then insert (j, i) (if U ! i \<noteq> N \<and> U ! i \<noteq> U ! j then {(L ! j, U ! i)} else {}) else {})"

definition wb_edges :: "(nat \<Rightarrow> nat \<Rightarrow> bool) \<Rightarrow> nat list \<Rightarrow> nat list \<Rightarrow> nat \<Rightarrow> (nat \<times> nat) set" where
  "wb_edges bef U L N = (\<Union>i \<in> {..<N}. (\<Union>j \<in> {..<N}. pair_edges bef U L N i j) \<union> (if L ! N \<noteq> N \<and> U ! i \<noteq> N then {(L ! N, i)} else {}))"

definition closes :: "'a AdjList \<Rightarrow> 'a list \<Rightarrow> (nat \<times> nat) set \<Rightarrow> bool" where
  "closes M st E \<longleftrightarrow> adj_wf M \<and> elems M = st \<and> (edges_of (nodeSucc M))\<^sup>+ = E\<^sup>+"

lemma trancl_subset_trancl: "X \<subseteq> Y\<^sup>+ \<Longrightarrow> X\<^sup>+ \<subseteq> Y\<^sup>+"
proof clarify
  fix a b
  assume x: "X \<subseteq> Y\<^sup>+" and "(a, b) \<in> X\<^sup>+"
  from this(2) show "(a, b) \<in> Y\<^sup>+"
    by (induction rule: trancl.induct) (use x in \<open>auto intro: trancl_trans\<close>)
qed

lemma trancl_insert_cong:
  assumes "A\<^sup>+ = B\<^sup>+"
  shows "(insert p A)\<^sup>+ = (insert p B)\<^sup>+"
proof -
  have "(insert p X)\<^sup>+ \<subseteq> (insert p Y)\<^sup>+" if "X\<^sup>+ = Y\<^sup>+" for X Y
  proof (rule trancl_subset_trancl)
    have "X \<subseteq> Y\<^sup>+" using that by auto
    also have "Y\<^sup>+ \<subseteq> (insert p Y)\<^sup>+" by (rule trancl_mono_subset) blast
    finally show "insert p X \<subseteq> (insert p Y)\<^sup>+" by (cases p) auto
  qed
  then show ?thesis using assms by blast
qed

lemma closes_add:
  assumes "closes M st E" and "i < length st" and "j < length st"
  obtains M' where "addEdgeId M i j = Ok M'" "closes M' st (insert (i, j) E)"
  using addEdgeId_Ok [of M i j] assms trancl_insert_cong [of "edges_of (nodeSucc M)" E "(i, j)"]
  unfolding closes_def by metis

lemma closes_fold:
  assumes "\<And>x M E. x \<in> set xs \<Longrightarrow> closes M st E \<Longrightarrow> \<exists>M'. f x M = Ok M' \<and> closes M' st (E \<union> g x)"
    and "closes M st E"
  shows "\<exists>M'. rfold f xs M = Ok M' \<and> closes M' st (E \<union> (\<Union>x \<in> set xs. g x))"
  using assms
proof (induction xs arbitrary: M E)
  case (Cons x xs)
  obtain M1 where m: "f x M = Ok M1" "closes M1 st (E \<union> g x)" using Cons.prems(1) [of x M E] Cons.prems(2) by auto
  obtain M2 where "rfold f xs M1 = Ok M2" "closes M2 st ((E \<union> g x) \<union> (\<Union>x \<in> set xs. g x))"
    using Cons.IH [OF _ m(2)] Cons.prems(1) by auto
  then show ?case using m(1) by (simp add: Un_assoc)
qed simp

lemma rany_Ok: "(\<And>x. x \<in> set xs \<Longrightarrow> \<exists>b. P x = Ok b) \<Longrightarrow> rany P xs = Ok (\<exists>x \<in> set xs. P x = Ok True)"
proof (induction xs)
  case (Cons x xs)
  then obtain b where "P x = Ok b" by auto
  then show ?case using Cons by (cases b) auto
qed simp

lemma wb_pair_Ok:
  assumes c: "closes M st E" and ij: "i < length st" "j < length st"
    and b: "\<And>e. e \<in> set es \<Longrightarrow> \<exists>b. before (st ! j) e = Ok b"
    and bef: "bef j i \<longleftrightarrow> (\<exists>e \<in> set es. before (st ! j) e = Ok True)"
    and lim: "L ! j < length st" "U ! i \<le> length st"
  shows "\<exists>M'. wb_pair before U L es i j M = Ok M' \<and> closes M' st (E \<union> pair_edges bef U L (length st) i j)"
proof -
  have r: "rany (before (st ! j)) es = Ok (bef j i)" using rany_Ok [of es "before (st ! j)"] b bef by simp
  show ?thesis
  proof (cases "i \<noteq> j \<and> bef j i")
    case False
    have "wb_pair before U L es i j M = Ok M"
      using False c ij r by (auto simp: wb_pair_def closes_def)
    then show ?thesis using c False by (auto simp: pair_edges_def)
  next
    case True
    obtain M1 where m: "addEdgeId M j i = Ok M1" "closes M1 st (insert (j, i) E)" by (rule closes_add [OF c ij(2,1)])
    have e: "wb_pair before U L es i j M = (if U ! i = length st \<or> U ! i = U ! j then Ok M1 else addEdgeId M1 (L ! j) (U ! i))"
      using True c ij r m(1) by (simp add: wb_pair_def closes_def)
    show ?thesis
    proof (cases "U ! i = length st \<or> U ! i = U ! j")
      case True
      then show ?thesis using e m(2) \<open>i \<noteq> j \<and> bef j i\<close> by (auto simp: pair_edges_def)
    next
      case False
      then obtain M2 where "addEdgeId M1 (L ! j) (U ! i) = Ok M2" "closes M2 st (insert (L ! j, U ! i) (insert (j, i) E))"
        using closes_add [OF m(2) lim(1), of "U ! i"] lim(2) by auto
      then show ?thesis using e False \<open>i \<noteq> j \<and> bef j i\<close> by (simp add: pair_edges_def insert_commute)
    qed
  qed
qed

lemma wb_row_Ok:
  assumes c: "closes M st E" and i: "i < length st" "getEventLabel g (st ! i) = Ok w" "es_of w = Ok es"
    and b: "\<And>j e. j < length st \<Longrightarrow> e \<in> set es \<Longrightarrow> \<exists>b. before (st ! j) e = Ok b"
    and bef: "\<And>j. j < length st \<Longrightarrow> bef j i \<longleftrightarrow> (\<exists>e \<in> set es. before (st ! j) e = Ok True)"
    and lim: "\<And>j. j < length st \<Longrightarrow> L ! j < length st" "L ! length st \<le> length st" "U ! i \<le> length st"
  shows "\<exists>M'. wb_row g before es_of U L i M = Ok M' \<and> closes M' st (E \<union>
    ((\<Union>j \<in> {..<length st}. pair_edges bef U L (length st) i j) \<union> (if L ! length st \<noteq> length st \<and> U ! i \<noteq> length st then {(L ! length st, i)} else {})))"
proof -
  have "\<exists>M'. rfold (wb_pair before U L es i) [0..<length st] M = Ok M' \<and>
      closes M' st (E \<union> (\<Union>j \<in> set [0..<length st]. pair_edges bef U L (length st) i j))"
    by (rule closes_fold [OF _ c]) (rule wb_pair_Ok, use i b bef lim in auto)
  then obtain M1 where m: "rfold (wb_pair before U L es i) [0..<length st] M = Ok M1"
    "closes M1 st (E \<union> (\<Union>j \<in> {..<length st}. pair_edges bef U L (length st) i j))"
    by (auto simp: lessThan_atLeast0)
  have e: "wb_row g before es_of U L i M = (if L ! length st = length st \<or> U ! i = length st then Ok M1 else addEdgeId M1 (L ! length st) i)"
    using c i m(1) by (simp add: wb_row_def closes_def Let_def)
  show ?thesis
  proof (cases "L ! length st = length st \<or> U ! i = length st")
    case True
    then show ?thesis using e m(2) by auto
  next
    case False
    obtain M2 where "addEdgeId M1 (L ! length st) i = Ok M2"
      "closes M2 st (insert (L ! length st, i) (E \<union> (\<Union>j \<in> {..<length st}. pair_edges bef U L (length st) i j)))"
      using closes_add [OF m(2) _ i(1), of "L ! length st"] lim(2) False by auto
    then show ?thesis using e False by simp
  qed
qed

text \<open>Which store of a list is before another one or before one of its readers.\<close>

definition store_before :: "ExecutionGraph \<Rightarrow> Event list \<Rightarrow> nat \<Rightarrow> nat \<Rightarrow> bool" where
  "store_before g st j i \<longleftrightarrow> (\<exists>e \<in> insert (lpos (lab g (st ! i))) (set (lreaders (lab g (st ! i)))). isWriteRfBefore g (st ! j) e = Ok True)"

section \<open>Properties\<close>

text \<open>A thread writes to a location and then updates it by a read-modify-write.\<close>

definition wb_graph :: ExecutionGraph where
  "wb_graph = graph_init\<lparr>events := [[mkLabel EL_ThreadStart 0 Acquire (Event 0 0),
     (mkLabel EL_Write 1 Release (Event 0 1))\<lparr>hbView := [1], lreaders := [Event 0 2]\<rparr>,
     (mkLabel EL_FaiRead 2 Acquire (Event 0 2))\<lparr>hbView := [2], lrf := Event 0 1\<rparr>,
     (mkLabel EL_FaiWrite 3 Release (Event 0 3))\<lparr>hbView := [3]\<rparr>]]\<rparr>"

definition wb_ex :: WB where
  "wb_ex = \<lparr>wb_mo = \<lparr>mo_stores = [(64, [Event 0 1, Event 0 3])], mo_ooo = False\<rparr>, wb_ordered = [64 \<mapsto> True], wb_cache = WB_Invalid\<rparr>"

lemma wb_graph_labels:
  "lab wb_graph (Event 0 1) = (mkLabel EL_Write 1 Release (Event 0 1))\<lparr>hbView := [1], lreaders := [Event 0 2]\<rparr>"
  "lab wb_graph (Event 0 2) = (mkLabel EL_FaiRead 2 Acquire (Event 0 2))\<lparr>hbView := [2], lrf := Event 0 1\<rparr>"
  "lab wb_graph (Event 0 3) = (mkLabel EL_FaiWrite 3 Release (Event 0 3))\<lparr>hbView := [3]\<rparr>"
  "graph_contains wb_graph (Event 0 1)" "graph_contains wb_graph (Event 0 2)" "graph_contains wb_graph (Event 0 3)"
  by (simp_all add: wb_graph_def lab_def graph_contains_def numeral_eq_Suc)

lemma wb_graph_index: "getIndex (adj_of [Event 0 1, Event 0 3]) (Event 0 1) = Ok 0"
  using getIndex_Ok [OF adj_of_wf, of "[Event 0 1, Event 0 3]" 0] by simp

lemma push_limits_id: "fold (jump stop) is (False, U) = (False, U) \<Longrightarrow> push_limits (jump stop) is U = Some U"
  by (simp add: push_limits_def while_option_unfold [of _ _ "(True, U)"] while_option_unfold [of _ _ "(False, U)"])

lemma wb_graph_upper: "rmap (rmw_upper wb_graph (adj_of [Event 0 1, Event 0 3])) [0..<2] = Ok [0, 0]"
  by (simp add: upt_rec rmw_upper_def wb_graph_labels mkLabel_def isa_defs getPreviousLabel_def prev_def wb_graph_index
      getInitializer_def vec_get_def deref_def)

lemma wb_graph_limits: "calcRMWLimits wb_graph (adj_of [Event 0 1, Event 0 3]) = Ok (Some ([0, 0], [1, 1, 2]))"
proof -
  have "rmw_lower [0, 0] [0..<Suc 2] [0..<2] = Some [1, 1, 2]" by (simp add: upt_rec numeral_2_eq_2)
  moreover have "push_limits (jump (\<lambda>j. j = 2)) [0..<2] [0, 0] = Some [0, 0]"
    by (rule push_limits_id) (simp add: upt_rec jump_def numeral_2_eq_2)
  moreover have "push_limits (jump (\<lambda>_. False)) [0..<Suc 2] [1, 1, 2] = Some [1, 1, 2]"
    by (rule push_limits_id) (simp add: upt_rec jump_def numeral_2_eq_2)
  ultimately show ?thesis
    using calcRMWLimits_eq [of wb_graph "adj_of [Event 0 1, Event 0 3]" "[0, 0]"] wb_graph_upper
    by (simp add: numeral_2_eq_2 del: upt_Suc)
qed

lemma wb_graph_before: "isWriteRfBefore wb_graph (Event 0 1) (Event 0 3) = Ok True"
    "isWriteRfBefore wb_graph (Event 0 1) (Event 0 1) = Ok True" "isWriteRfBefore wb_graph (Event 0 1) (Event 0 2) = Ok True"
    "isWriteRfBefore wb_graph (Event 0 3) (Event 0 3) = Ok True"
    "isWriteRfBefore wb_graph (Event 0 3) (Event 0 1) = Ok False" "isWriteRfBefore wb_graph (Event 0 3) (Event 0 2) = Ok False"
  by (simp_all add: isWriteRfBefore_def wb_graph_labels mkLabel_def view_contains_def view_get_def view_at_def Let_def isa_defs)

text \<open>C18: For stores whose read-modify-writes form acyclic chains, both loops of \<open>calcRMWLimits\<close> end. It reports a
  violation exactly when two read-modify-writes read from the same store; otherwise the upper limit of a store is
  the start of its chain (possibly the initialising write) and the lower limit, also that of the initialising write, the end.\<close>

theorem calcRMWLimits_chain_ends:
  fixes st :: "Event list"
  defines "N \<equiv> length st"
  assumes "distinct st" and "rmap (rmw_upper g (adj_of st)) [0..<N] = Ok U" and "acyclic (chain U)"
  shows "if doubled U {..<N} then calcRMWLimits g (adj_of st) = Ok None
    else \<exists>V M. calcRMWLimits g (adj_of st) = Ok (Some (V, M)) \<and>
      (\<forall>i < N. (i, V ! i) \<in> (chain U)\<^sup>* \<and> V ! i \<notin> Domain (chain U)) \<and>
      (\<forall>i \<le> N. (M ! i, i) \<in> (chain U)\<^sup>* \<and> M ! i \<notin> Range (chain U))"
proof -
  have "length U = N \<and> (\<forall>i < length U. U ! i \<le> length U)"
    unfolding N_def
    by (rule rmw_uppers_bound [OF adj_of_wf [OF assms(2)], unfolded adj_of_elems]) (rule assms(3) [unfolded N_def])
  then have b: "length U = N" "\<And>i. i < length U \<Longrightarrow> U ! i \<le> length U" by blast+
  note eq = calcRMWLimits_eq [of g "adj_of st" U]
  note low = rmw_lower_all [OF b(2)]
  show ?thesis
  proof (cases "rmw_lower U [0..<Suc (length U)] [0..<length U]")
    case None
    then show ?thesis using low eq assms(3) b(1) by (simp add: N_def del: upt_Suc)
  next
    case (Some L)
    then have l: "lowered U {..<length U} L" and d: "\<not> doubled U {..<N}" using low b(1) by (simp_all del: upt_Suc)
    have n: "length L = Suc N" using l b(1) by (simp add: lowered_def)
    have c: "chain L = (chain U)\<inverse>" by (rule lowered_chain [OF l b(2)])
    have L: "L ! j \<le> N" if "j \<le> N" for j
      using l that b(1) unfolding lowered_def by (metis less_imp_le_nat lessThan_iff)
    obtain \<rho> where "ranked (\<lambda>j. j = N) \<rho> U"
      using chain_rank [OF assms(4), of "\<lambda>j. j = N"] b by (auto simp: le_less)
    then obtain V where V: "push_limits (jump (\<lambda>j. j = N)) [0..<length U] U = Some V" "ranked (\<lambda>j. j = N) \<rho> V"
      by (rule push_limits_ends)
    obtain \<sigma> where "ranked (\<lambda>_. False) \<sigma> L"
      using chain_rank [of L "\<lambda>_. False"] assms(4) L by (auto simp: c acyclic_converse n less_Suc_eq_le)
    then obtain M where M: "push_limits (jump (\<lambda>_. False)) [0..<length L] L = Some M" "ranked (\<lambda>_. False) \<sigma> M"
      by (rule push_limits_ends)
    have "pushed (\<lambda>j. j = N) U U" by (rule pushed_refl) (use b in \<open>auto simp: le_less\<close>)
    note pV = push_limits_pushed [OF V(1) this]
    have "pushed (\<lambda>_. False) L L" by (rule pushed_refl) (use L n in \<open>auto simp: less_Suc_eq_le\<close>)
    note pM = push_limits_pushed [OF M(1) this]
    have "(i, V ! i) \<in> (chain U)\<^sup>* \<and> V ! i \<notin> Domain (chain U)" if "i < N" for i
      using pushed_chain [of _ U V i] chain_end [OF assms(4), of "\<lambda>j. j = N" V i] pV that b(1) by auto
    moreover have "(M ! i, i) \<in> (chain U)\<^sup>* \<and> M ! i \<notin> Range (chain U)" if "i \<le> N" for i
      using pushed_chain [of _ L M i] chain_end [of L "\<lambda>_. False" M i] assms(4) pM that n
      by (auto simp: c acyclic_converse rtrancl_converse)
    moreover have "calcRMWLimits g (adj_of st) = Ok (Some (V, M))"
      using eq assms(3) b(1) Some V(1) M(1) n by (simp add: N_def del: upt_Suc)
    ultimately show ?thesis using d by auto
  qed
qed

theorem calcRMWLimits_chain_ends_witness:
  "\<exists>V M. calcRMWLimits wb_graph (adj_of [Event 0 1, Event 0 3]) = Ok (Some (V, M)) \<and> V ! 1 \<notin> {1} \<and> M ! 0 \<notin> {0}"
proof -
  have c: "chain [0, 0] = {(1, 0)}" by (auto simp: chain_def less_Suc_eq numeral_2_eq_2)
  have "acyclic (chain [0, 0])" unfolding c by (auto simp: acyclic_def dest: tranclD tranclD2)
  moreover have "\<not> doubled [0, 0] {..<2}" by (auto simp: doubled_def less_Suc_eq numeral_2_eq_2)
  ultimately show ?thesis
    using calcRMWLimits_chain_ends [of "[Event 0 1, Event 0 3]" wb_graph "[0, 0]"] wb_graph_upper
    by (auto simp: c numeral_2_eq_2)
qed

text \<open>Two read-modify-writes of one store: every store gets an edge to itself.\<close>

lemma self_edges_Ok:
  assumes "adj_wf M" and "elems M \<noteq> []"
  obtains M' where "self_edges M = Ok M'" "elems M' = elems M" "isIrreflexive M' = Ok False"
proof -
  let ?P = "\<lambda>k R. adj_wf R \<and> elems R = elems M \<and> (0 < k \<longrightarrow> (0, 0) \<in> marks R)"
  have "\<exists>R. rfold (\<lambda>i M. addEdgeId M i i) [0..<length (elems M)] M = Ok R \<and> ?P (length [0..<length (elems M)]) R"
  proof (rule rfold_inv)
    fix k R
    assume k: "k < length [0..<length (elems M)]" and R: "?P k R"
    then obtain R' where R': "addEdgeId R k k = Ok R'" "adj_wf R'" "elems R' = elems R"
      using addEdgeId_Ok [of R k k] by auto
    note g = addEdgeId_grown [OF R'(1) grid_of_wf]
    have "(0, 0) \<in> marks R'" using R g(1,2) by (cases k) (auto simp: grown_def)
    then show "\<exists>R'. addEdgeId R ([0..<length (elems M)] ! k) ([0..<length (elems M)] ! k) = Ok R' \<and> ?P (Suc k) R'"
      using R' R k by simp
  qed (use assms(1) in simp)
  then obtain R where "self_edges M = Ok R" "?P (length (elems M)) R" by (auto simp: self_edges_def)
  then show thesis using that [of R] assms(2) irreflexive_grid [OF grid_of_wf, of R] by force
qed

lemma calcWb_closure_Some:
  assumes "wb_stores w a = Ok st" and "distinct st" and "1 < length st"
    and "\<And>s. s \<in> set st \<Longrightarrow> graph_contains g s"
    and "\<And>s t e. s \<in> set st \<Longrightarrow> t \<in> set st \<Longrightarrow> e \<in> insert (lpos (lab g t)) (set (lreaders (lab g t))) \<Longrightarrow> \<exists>b. isWriteRfBefore g s e = Ok b"
    and "calcRMWLimits g (adj_of st) = Ok (Some (U, L))"
  shows "\<exists>M. calcWb g w a = Ok M \<and> elems M = st \<and>
    isIrreflexive M = Ok (acyclic (wb_edges (store_before g st) U L (length st))) \<and>
    (acyclic (wb_edges (store_before g st) U L (length st)) \<longrightarrow> (\<forall>i < length st. \<forall>j < length st.
      adj_edge M i j = Ok ((i, j) \<in> (wb_edges (store_before g st) U L (length st))\<^sup>+)))"
proof -
  let ?E = "wb_edges (store_before g st) U L (length st)"
  let ?es = "\<lambda>l. Ok (lreaders l @ [lpos l])"
  have wf: "adj_wf (adj_of st)" by (rule adj_of_wf [OF assms(2)])
  have lim: "length U = length st" "\<And>i. i < length st \<Longrightarrow> U ! i \<le> length st" "\<And>i. i < length st \<Longrightarrow> L ! i < length st"
    "L ! length st \<le> length st"
    using calcRMWLimits_bounds [OF wf assms(6)] by simp_all
  have c0: "closes (adj_of st) st {}" using wf by (simp add: closes_def)
  have "\<exists>M. rfold (wb_row g (isWriteRfBefore g) ?es U L) [0..<length st] (adj_of st) = Ok M \<and> closes M st ({} \<union> (\<Union>i \<in> set [0..<length st].
      (\<Union>j \<in> {..<length st}. pair_edges (store_before g st) U L (length st) i j) \<union>
      (if L ! length st \<noteq> length st \<and> U ! i \<noteq> length st then {(L ! length st, i)} else {})))"
  proof (rule closes_fold [OF _ c0])
    fix i M E
    assume i: "i \<in> set [0..<length st]" and c: "closes M st E"
    then have l: "getEventLabel g (st ! i) = Ok (lab g (st ! i))" using assms(4) by simp
    show "\<exists>M'. wb_row g (isWriteRfBefore g) ?es U L i M = Ok M' \<and> closes M' st (E \<union>
        ((\<Union>j \<in> {..<length st}. pair_edges (store_before g st) U L (length st) i j) \<union>
        (if L ! length st \<noteq> length st \<and> U ! i \<noteq> length st then {(L ! length st, i)} else {})))"
      by (rule wb_row_Ok [where w = "lab g (st ! i)" and es = "lreaders (lab g (st ! i)) @ [lpos (lab g (st ! i))]", OF c _ l])
        (use i assms(5) [OF nth_mem nth_mem] lim in \<open>auto simp: store_before_def\<close>)
  qed
  then obtain M where M: "rfold (wb_row g (isWriteRfBefore g) ?es U L) [0..<length st] (adj_of st) = Ok M" "closes M st ?E"
    by (auto simp: wb_edges_def lessThan_atLeast0)
  then have m: "adj_wf M" "elems M = st" "(edges_of (nodeSucc M))\<^sup>+ = ?E\<^sup>+" by (simp_all add: closes_def)
  obtain R where R: "transClosure M = Ok R" "adj_wf R" "nodeSucc R = nodeSucc M" "elems R = elems M" "calculatedTransC R"
    using transClosure_Ok [OF m(1)] by metis
  have ac: "acyclic (edges_of (nodeSucc R)) \<longleftrightarrow> acyclic ?E" using R(3) m(3) by (simp add: acyclic_def)
  have "calcWb g w a = Ok R"
    using assms(1,3,6) M(1) R(1) by (simp add: calcWb_def calc_wb_def)
  moreover have "isIrreflexive R = Ok (acyclic ?E)"
    using isIrreflexive_Ok [OF R(2)] detected_iff_cycle [OF R(2,5)] ac by simp
  moreover have "adj_edge R i j = Ok ((i, j) \<in> ?E\<^sup>+)" if "acyclic ?E" "i < length st" "j < length st" for i j
  proof -
    have "bits (transC R) i = ?E\<^sup>+ `` {i}" using rows_closure [OF R(2,5), of i] that ac m R by simp
    then show ?thesis using R(2,4) m(2) that by (auto simp: adj_edge_def adj_wf_def square_def bits_def)
  qed
  ultimately show ?thesis using R(4) m(2) by auto
qed

text \<open>C17: for a location with at least two stores, all of them in the graph, \<open>calcWb\<close> returns a relation on the
  stores. When the limits of the chains of read-modify-writes exist, the relation is irreflexive exactly when the
  edges between stores and between their chains are acyclic, and in that case it relates two stores exactly when
  the transitive closure of these edges does. When two read-modify-writes read from the same store there are no
  limits, and the relation is not irreflexive.\<close>

theorem calcWb_is_closure:
  assumes "wb_stores w a = Ok st" and "distinct st" and "1 < length st"
    and "\<And>s. s \<in> set st \<Longrightarrow> graph_contains g s"
    and "\<And>s t e. s \<in> set st \<Longrightarrow> t \<in> set st \<Longrightarrow> e \<in> insert (lpos (lab g t)) (set (lreaders (lab g t))) \<Longrightarrow> \<exists>b. isWriteRfBefore g s e = Ok b"
    and "calcRMWLimits g (adj_of st) = Ok lim"
  shows "\<exists>M. calcWb g w a = Ok M \<and> elems M = st \<and> (case lim of None \<Rightarrow> isIrreflexive M = Ok False
    | Some (U, L) \<Rightarrow> isIrreflexive M = Ok (acyclic (wb_edges (store_before g st) U L (length st))) \<and>
        (acyclic (wb_edges (store_before g st) U L (length st)) \<longrightarrow> (\<forall>i < length st. \<forall>j < length st.
          adj_edge M i j = Ok ((i, j) \<in> (wb_edges (store_before g st) U L (length st))\<^sup>+))))"
proof (cases lim)
  case None
  obtain M where "self_edges (adj_of st) = Ok M" "elems M = elems (adj_of st)" "isIrreflexive M = Ok False"
    by (rule self_edges_Ok [OF adj_of_wf [OF assms(2)]]) (use assms(3) in auto)
  then show ?thesis using None assms(1,3,6) by (simp add: calcWb_def calc_wb_def)
next
  case (Some p)
  obtain U L where p: "p = (U, L)" by (cases p)
  show ?thesis using calcWb_closure_Some [OF assms(1-5), where U = U and L = L] assms(6) Some p by simp
qed

theorem calcWb_is_closure_witness:
  "\<exists>M. calcWb wb_graph wb_ex 64 = Ok M \<and> adj_edge M 0 1 = Ok True \<and> adj_edge M 1 0 = Ok False"
proof -
  let ?st = "[Event 0 1, Event 0 3]"
  have st: "wb_stores wb_ex 64 = Ok ?st" by (simp add: wb_stores_def wb_ex_def mo_at_def)
  have e: "wb_edges (store_before wb_graph ?st) [0, 0] [1, 1, 2] 2 = {(0, 1)}"
    by (simp add: wb_edges_def pair_edges_def store_before_def wb_graph_labels wb_graph_before mkLabel_def lessThan_Suc numeral_2_eq_2)
  have ac: "acyclic {(0 :: nat, 1 :: nat)}" by (auto simp: acyclic_def dest: tranclD tranclD2)
  have m: "\<exists>M. calcWb wb_graph wb_ex 64 = Ok M \<and> elems M = ?st \<and> (case Some ([0, 0], [1, 1, 2]) of None \<Rightarrow> isIrreflexive M = Ok False
      | Some (U, L) \<Rightarrow> isIrreflexive M = Ok (acyclic (wb_edges (store_before wb_graph ?st) U L (length ?st))) \<and>
          (acyclic (wb_edges (store_before wb_graph ?st) U L (length ?st)) \<longrightarrow> (\<forall>i < length ?st. \<forall>j < length ?st.
            adj_edge M i j = Ok ((i, j) \<in> (wb_edges (store_before wb_graph ?st) U L (length ?st))\<^sup>+))))"
  proof (rule calcWb_is_closure [OF st _ _ _ _ wb_graph_limits])
    fix s t e
    assume "s \<in> set ?st" "t \<in> set ?st" "e \<in> insert (lpos (lab wb_graph t)) (set (lreaders (lab wb_graph t)))"
    then have "s = Event 0 1 \<or> s = Event 0 3" "e = Event 0 1 \<or> e = Event 0 2 \<or> e = Event 0 3"
      by (auto simp: wb_graph_labels mkLabel_def)
    then show "\<exists>b. isWriteRfBefore wb_graph s e = Ok b" using wb_graph_before by blast
  qed (auto simp: wb_graph_labels)
  have n: "length ?st = 2" by simp
  have "(1, 0) \<notin> {(0 :: nat, 1 :: nat)}\<^sup>+" by (auto dest: tranclD)
  then show ?thesis using m [unfolded option.case prod.case n e] ac by auto
qed

end
