(* ===== verification/GenMC_Limits.thy ===== *)
theory GenMC_Limits
  imports GenMC_WBProps
begin

text \<open>
  The loops that push the limits of chains of read-modify-writes (\<open>calcRMWLimits()\<close> of \<open>src/src/WBCalculator.cpp\<close>)
  end whatever the links are, also when they go round in a circle: a pass that changes anything makes some index
  reach fewer others. \<open>GenMC_WBProps\<close> has what the limits are when there is no circle.
\<close>

definition reached :: "nat list \<Rightarrow> nat \<Rightarrow> nat set" where
  "reached V i = {x. (i, x) \<in> (links V)\<^sup>+}"

definition spread :: "nat list \<Rightarrow> nat" where
  "spread V = (\<Sum>i < length V. card (reached V i))"

text \<open>The indices on a circle of more than one index.\<close>

definition circle :: "nat list \<Rightarrow> nat set" where
  "circle V = {x. (x, x) \<in> (links V)\<^sup>+ \<and> V ! x \<noteq> x}"

lemma links_iff: "(i, j) \<in> links V \<longleftrightarrow> i < length V \<and> j = V ! i"
  by (auto simp: links_def)

lemma circle_range: "circle V \<subseteq> {..<length V}"
  by (auto simp: circle_def links_iff dest: tranclD)

lemma finite_reached: "finite (reached V i)"
proof -
  have "reached V i \<subseteq> (!) V ` {..<length V}" by (auto simp: reached_def links_iff dest: tranclD2)
  then show ?thesis by (rule finite_subset) simp
qed

section \<open>A move\<close>

text \<open>A move shortens a path of two links.\<close>

lemma move_trancl:
  assumes "i < length V" and "V ! i < length V"
  shows "(links (V[i := V ! (V ! i)]))\<^sup>+ \<subseteq> (links V)\<^sup>+"
proof -
  have "(i, V ! (V ! i)) \<in> (links V)\<^sup>+"
    using assms by (intro trancl_into_trancl [OF r_into_trancl]) (auto simp: links_iff)
  moreover have "(a, V ! a) \<in> (links V)\<^sup>+" if "a < length V" for a using that by (intro r_into_trancl) (simp add: links_iff)
  ultimately have "links (V[i := V ! (V ! i)]) \<subseteq> (links V)\<^sup>+"
    using assms(1) by (auto simp: links_iff nth_list_update split: if_splits)
  then show ?thesis by (rule trancl_subset_trancl)
qed

lemma move_spread:
  assumes "i < length V" and "V ! i < length V"
  shows "spread (V[i := V ! (V ! i)]) \<le> spread V"
    and "V ! i \<notin> reached (V[i := V ! (V ! i)]) i \<Longrightarrow> spread (V[i := V ! (V ! i)]) < spread V"
proof -
  let ?V = "V[i := V ! (V ! i)]"
  have sub: "reached ?V x \<subseteq> reached V x" for x using move_trancl [OF assms] by (auto simp: reached_def)
  then show "spread ?V \<le> spread V" unfolding spread_def length_list_update by (intro sum_mono card_mono finite_reached)
  assume "V ! i \<notin> reached ?V i"
  moreover have "V ! i \<in> reached V i" using assms(1) by (auto simp: reached_def links_iff)
  ultimately have "card (reached ?V i) < card (reached V i)" using sub [of i] by (intro psubset_card_mono finite_reached) auto
  then show "spread ?V < spread V"
    unfolding spread_def length_list_update using assms(1) sub
    by (intro sum_strict_mono_ex1) (auto intro!: card_mono finite_reached)
qed

text \<open>Every index that a circle reaches is on it.\<close>

lemma circle_back:
  assumes "(x, x) \<in> (links V)\<^sup>+" and "(x, i) \<in> (links V)\<^sup>*"
  shows "(i, x) \<in> (links V)\<^sup>*"
  using assms(2)
proof (induction rule: rtrancl_induct)
  case (step i i')
  have "(i', x) \<in> (links V)\<^sup>*" if "(i, x) \<in> (links V)\<^sup>+"
    using that step(2) by (auto simp: links_iff dest: tranclD)
  then show ?case using step.IH assms(1) by (cases "i = x") (auto simp: rtrancl_eq_or_trancl)
qed simp

lemma move_circle:
  assumes "i < length V" and "V ! i \<noteq> i" and "i \<notin> circle V"
  shows "circle V \<subseteq> circle (V[i := k])"
proof
  fix x
  assume x: "x \<in> circle V"
  have ni: "y \<noteq> i" if "(x, y) \<in> (links V)\<^sup>*" for y
  proof
    assume "y = i"
    then have "(i, x) \<in> (links V)\<^sup>*" "(x, i) \<in> (links V)\<^sup>*" using circle_back [of x V i] that x by (auto simp: circle_def)
    moreover have "i \<noteq> x" using x assms(3) by blast
    ultimately have "(i, i) \<in> (links V)\<^sup>+" by (metis rtranclD rtrancl_trancl_trancl)
    then show False using assms(2,3) by (simp add: circle_def)
  qed
  have "(x, y) \<in> (links (V[i := k]))\<^sup>+" if "(x, y) \<in> (links V)\<^sup>+" for y
    using that
  proof (induction rule: trancl_induct)
    case (base y)
    then show ?case using ni [of x] by (auto simp: links_iff)
  next
    case (step y z)
    then have "y \<noteq> i" using ni [OF trancl_into_rtrancl] by blast
    then have "(y, z) \<in> links (V[i := k])" using step(2) by (auto simp: links_iff)
    with step.IH show ?case by (rule trancl_into_trancl)
  qed
  then show "x \<in> circle (V[i := k])" using x ni [of x] by (auto simp: circle_def)
qed

text \<open>A move towards an index that is on no circle is progress.\<close>

lemma move_off_circle:
  assumes "i < length V" and "V ! i < length V" and "V ! (V ! i) \<noteq> V ! i" and "V ! i \<notin> circle V"
  shows "spread (V[i := V ! (V ! i)]) < spread V"
proof (rule move_spread(2) [OF assms(1,2)])
  let ?V = "V[i := V ! (V ! i)]"
  show "V ! i \<notin> reached ?V i"
  proof
    assume "V ! i \<in> reached ?V i"
    then obtain y where y: "(i, y) \<in> links ?V" "(y, V ! i) \<in> (links ?V)\<^sup>*" by (auto simp: reached_def dest: tranclD)
    then have "y = V ! (V ! i)" using assms(1) by (simp add: links_iff)
    moreover have "(y, V ! i) \<in> (links V)\<^sup>*"
      using y(2) move_trancl [OF assms(1,2)] by (auto simp: rtrancl_eq_or_trancl)
    ultimately have "(V ! i, V ! i) \<in> (links V)\<^sup>+" using assms(2) by (auto simp: links_iff intro: rtrancl_into_trancl2)
    then show False using assms(3,4) by (simp add: circle_def)
  qed
qed

text \<open>A way to \<open>x\<close> need not pass \<open>j\<close>, or it does not from the index after \<open>j\<close>.\<close>

lemma path_avoids:
  assumes "(a, x) \<in> (links V)\<^sup>*"
  shows "(a, x) \<in> (links V - {j} \<times> UNIV)\<^sup>* \<or> (V ! j, x) \<in> (links V - {j} \<times> UNIV)\<^sup>*"
  using assms
proof (induction rule: converse_rtrancl_induct)
  case (step a b)
  then show ?case by (cases "a = j") (auto simp: links_iff intro: converse_rtrancl_into_rtrancl)
qed simp

text \<open>An index on a circle moves, and no longer reaches the one it pointed to.\<close>

lemma move_on_circle:
  assumes x: "x \<in> circle V"
  shows "x < length V" "V ! x < length V" "V ! (V ! x) \<noteq> V ! x" "spread (V[x := V ! (V ! x)]) < spread V"
proof -
  let ?j = "V ! x" and ?k = "V ! (V ! x)" and ?R = "links V - {V ! x} \<times> UNIV"
  show n: "x < length V" using x circle_range [of V] by auto
  have ne: "?j \<noteq> x" using x by (simp add: circle_def)
  obtain y where "(x, y) \<in> links V" "(y, x) \<in> (links V)\<^sup>*" using x by (auto simp: circle_def dest: tranclD)
  then have jx: "(?j, x) \<in> (links V)\<^sup>+" using ne by (auto simp: links_iff rtrancl_eq_or_trancl)
  then obtain z where z: "(?j, z) \<in> links V" "(z, x) \<in> (links V)\<^sup>*" by (auto dest: tranclD)
  then show j: "?j < length V" by (simp add: links_iff)
  have kx: "(?k, x) \<in> (links V)\<^sup>*" using z by (simp add: links_iff)
  show "?k \<noteq> ?j"
  proof
    assume "?k = ?j"
    have stay: "(?j, y) \<in> (links V)\<^sup>* \<Longrightarrow> y = ?j" for y
      by (induction rule: rtrancl_induct) (use \<open>?k = ?j\<close> in \<open>auto simp: links_iff\<close>)
    show False using stay [OF trancl_into_rtrancl [OF jx]] ne by simp
  qed
  let ?T = "{y. (y, x) \<in> ?R\<^sup>*}"
  have k: "?k \<in> ?T" using path_avoids [OF kx, of ?j] by auto
  have nj: "?j \<notin> ?T"
  proof
    assume "?j \<in> ?T"
    then have "(?j, x) \<in> ?R\<^sup>*" by simp
    then show False using ne by (auto elim: converse_rtranclE)
  qed
  have "y \<in> ?T" if "(x, y) \<in> (links (V[x := ?k]))\<^sup>+" for y
    using that
  proof (induction rule: trancl_induct)
    case (base y)
    then show ?case using k n by (simp add: links_iff)
  next
    case (step y z)
    show ?case
    proof (cases "y = x")
      case False
      then have z: "(y, z) \<in> links V" using step(2) by (simp add: links_iff)
      from step.IH have "(y, x) \<in> ?R\<^sup>*" by simp
      then obtain w where "(y, w) \<in> ?R" "(w, x) \<in> ?R\<^sup>*" using False by (auto elim: converse_rtranclE)
      then show ?thesis using z by (auto simp: links_iff)
    qed (use step(2) k n in \<open>simp add: links_iff\<close>)
  qed
  then have "?j \<notin> reached (V[x := ?k]) x" using nj by (auto simp: reached_def)
  then show "spread (V[x := ?k]) < spread V" by (rule move_spread(2) [OF n j])
qed

section \<open>A pass\<close>

definition bounded :: "(nat \<Rightarrow> bool) \<Rightarrow> nat list \<Rightarrow> bool" where
  "bounded stop V \<longleftrightarrow> (\<forall>i < length V. stop (V ! i) \<or> V ! i < length V) \<and> (\<forall>k. stop k \<longrightarrow> length V \<le> k)"

lemma bounded_move: "bounded stop V \<Longrightarrow> i < length V \<Longrightarrow> \<not> stop (V ! i) \<Longrightarrow> bounded stop (V[i := V ! (V ! i)])"
  by (auto simp: bounded_def nth_list_update)

lemma fold_jump_spread:
  assumes "bounded stop V" and "set is \<subseteq> {..<length V}"
  shows "length (snd (fold (jump stop) is (c, V))) = length V \<and> bounded stop (snd (fold (jump stop) is (c, V))) \<and>
    spread (snd (fold (jump stop) is (c, V))) \<le> spread V \<and>
    (fst (fold (jump stop) is (c, V)) \<longrightarrow> c \<or> circle V \<noteq> {} \<or> spread (snd (fold (jump stop) is (c, V))) < spread V) \<and>
    (circle V \<inter> set is \<noteq> {} \<longrightarrow> spread (snd (fold (jump stop) is (c, V))) < spread V)"
  using assms
proof (induction "is" arbitrary: c V)
  case (Cons i "is")
  have i: "i < length V" using Cons.prems(2) by simp
  show ?case
  proof (cases rule: jump_cases [of stop i c V])
    case same
    have "i \<notin> circle V"
    proof
      assume c: "i \<in> circle V"
      have "\<not> stop (V ! i)" using move_on_circle(2) [OF c] Cons.prems(1) by (meson bounded_def linorder_not_less)
      then show False using same(2) move_on_circle(3) [OF c] c by (simp add: circle_def)
    qed
    then show ?thesis using Cons.IH [of V c] Cons.prems same(1) by auto
  next
    case moved
    let ?V = "V[i := V ! (V ! i)]"
    have j: "V ! i < length V" using Cons.prems(1) i moved(2) by (auto simp: bounded_def)
    have IH: "length (snd (fold (jump stop) is (True, ?V))) = length V" "bounded stop (snd (fold (jump stop) is (True, ?V)))"
      "spread (snd (fold (jump stop) is (True, ?V))) \<le> spread ?V"
      "circle ?V \<inter> set is \<noteq> {} \<Longrightarrow> spread (snd (fold (jump stop) is (True, ?V))) < spread ?V"
      using Cons.IH [of ?V True] bounded_move [OF Cons.prems(1) i moved(2)] Cons.prems(2) by auto
    have le: "spread ?V \<le> spread V" by (rule move_spread(1) [OF i j])
    show ?thesis
    proof (cases "i \<in> circle V")
      case True
      then have "spread ?V < spread V" by (rule move_on_circle(4))
      then show ?thesis using IH(1-3) moved(1) by simp
    next
      case False
      have "circle V \<subseteq> circle ?V" by (rule move_circle [OF i moved(3) False])
      moreover have "circle V \<noteq> {} \<or> spread ?V < spread V" using move_off_circle [OF i j moved(4)] by blast
      ultimately show ?thesis using IH le moved(1) False by fastforce
    qed
  qed
qed simp

theorem push_limits_returns:
  assumes "bounded stop U"
  shows "\<exists>V. push_limits (jump stop) [0..<length U] U = Some V"
proof -
  let ?body = "\<lambda>(c, V). fold (jump stop) [0..<length U] (False, V)"
  let ?P = "\<lambda>s. bounded stop (snd s) \<and> length (snd s) = length U"
  let ?f = "\<lambda>s. 2 * spread (snd s) + (if fst s then 1 else 0)"
  have step: "?P (?body s) \<and> ?f (?body s) < ?f s" if "?P s" "fst s" for s
  proof -
    have sub: "set [0..<length U] \<subseteq> {..<length (snd s)}" using that(1) by auto
    have "circle (snd s) \<inter> set [0..<length U] = circle (snd s)" using circle_range [of "snd s"] that(1) by auto
    then show ?thesis using fold_jump_spread [OF conjunct1 [OF that(1)] sub, of False] that
      by (cases "fold (jump stop) [0..<length U] (False, snd s)") (auto simp: split_def less_Suc_eq_le simp del: set_upt)
  qed
  have init: "?P (True, U)" using assms by simp
  obtain s where "while_option fst ?body (True, U) = Some s"
    using measure_while_option_Some [of ?P fst ?body ?f, OF step init] by blast
  then show ?thesis by (simp add: push_limits_def)
qed

section \<open>The limits\<close>

text \<open>So \<open>calcRMWLimits()\<close> always returns, on every relation whose index is in range.\<close>

theorem calcRMWLimits_returns:
  assumes "grid wb" and "rmap (rmw_upper g wb) [0..<length (elems wb)] = Ok U"
  shows "\<exists>lim. calcRMWLimits g wb = Ok lim"
proof -
  have n: "length U = length (elems wb)" using assms(2) by (simp add: rmap_Ok_iff)
  have u: "U ! i \<le> length U" if "i < length U" for i
  proof -
    have "rmw_upper g wb i = Ok (U ! i)" using assms(2) that n by (simp add: rmap_Ok_iff)
    then show ?thesis using assms(1) that n
      by (auto simp: rmw_upper_def getIndex_def grid_def res_simps split: if_splits option.splits) (metis less_imp_le_nat)+
  qed
  show ?thesis
  proof (cases "rmw_lower U [0..<Suc (length U)] [0..<length U]")
    case None
    then show ?thesis using calcRMWLimits_eq [OF assms(2)] n by (simp del: upt_Suc)
  next
    case (Some L)
    have l: "lowered U {..<length U} L" using rmw_lower_all [OF u] Some by (simp del: upt_Suc)
    then have m: "length L = Suc (length U)" by (simp add: lowered_def)
    have "L ! j \<le> length U" if "j \<le> length U" for j
      using l that unfolding lowered_def by (metis less_imp_le_nat lessThan_iff)
    then have "bounded (\<lambda>_. False) L" by (simp add: bounded_def m less_Suc_eq_le)
    then obtain M where M: "push_limits (jump (\<lambda>_. False)) [0..<Suc (length U)] L = Some M" using push_limits_returns m by metis
    have "bounded (\<lambda>j. j = length U) U" using u by (auto simp: bounded_def le_less)
    then obtain V where "push_limits (jump (\<lambda>j. j = length U)) [0..<length U] U = Some V" using push_limits_returns by blast
    then show ?thesis using calcRMWLimits_eq [OF assms(2)] Some M n by (simp del: upt_Suc)
  qed
qed

end
