(* ===== verification/GenMC_Fixpoint.thy ===== *)
theory GenMC_Fixpoint
  imports GenMC_ConsistencyProps GenMC_Limits
begin

text \<open>
  The loop of \<open>isConsistent()\<close> ends for the calculators that RC11 has: coherence by modification orders or by the
  writes-before relation, the order of critical sections of LAPOR, and \<open>psc\<close>. Two things can grow while the loop runs,
  happens-before and the relations of the locations, and neither can grow for ever.
\<close>

section \<open>Coherence by writes-before\<close>

text \<open>A calculation on a relation: it grows, and a change that is reported is an edge that was not there.\<close>

definition progress :: "bool \<times> 'a AdjList \<Rightarrow> bool \<times> 'a AdjList \<Rightarrow> bool" where
  "progress S S' \<longleftrightarrow> grown (snd S) (snd S') \<and> (fst S' \<longrightarrow> fst S \<or> unset (snd S') < unset (snd S))"

lemma progress_refl [simp]: "progress S S \<longleftrightarrow> grid (snd S)"
  by (simp add: progress_def)

lemma progress_grid: "progress S S' \<Longrightarrow> grid (snd S')"
  unfolding progress_def using grown_grid by blast

lemma progress_trans: "progress S S1 \<Longrightarrow> progress S1 S2 \<Longrightarrow> progress S S2"
  unfolding progress_def using grown_trans grown_unset by (metis dual_order.strict_trans1 dual_order.strict_trans2)

lemma progress_grown: "grown M M' \<Longrightarrow> progress (c, M) (c, M')"
  by (simp add: progress_def)

lemma progress_same: "progress S (c, M) \<Longrightarrow> grown M M' \<Longrightarrow> progress S (c, M')"
  using progress_trans progress_grown by blast

lemma rfold_progress:
  assumes "rfold f xs S = Ok S'" and "grid (snd S)" and "\<And>x T T'. grid (snd T) \<Longrightarrow> f x T = Ok T' \<Longrightarrow> progress T T'"
  shows "progress S S'"
proof (rule rfold_Ok_keeps [OF assms(1), of "progress S"])
  show "progress S T'" if "progress S T" "f x T = Ok T'" for x T T'
    using progress_trans [OF that(1) assms(3) [OF progress_grid [OF that(1)] that(2)]] .
qed (use assms(2) in simp)

lemma wb_add_progress:
  assumes "wb_add i j S = Ok S'" and "grid (snd S)"
  shows "progress S S'"
proof -
  obtain e where e: "adj_edge (snd S) i j = Ok e" using assms(1) by (auto simp: wb_add_def res_simps split: prod.splits)
  show ?thesis
  proof (cases e)
    case False
    then obtain M1 where M1: "addEdgeId (snd S) i j = Ok M1" "S' = (True, M1)"
      using assms(1) e by (auto simp: wb_add_def res_simps split: prod.splits)
    have "(i, j) \<notin> marks (snd S)" using adj_edge_grid(3) [OF e assms(2)] False by simp
    then show ?thesis using addEdgeId_grown(1,3) [OF M1(1) assms(2)] M1(2) by (simp add: progress_def)
  qed (use assms e in \<open>auto simp: wb_add_def split: prod.splits\<close>)
qed

lemma wb_step_pair_progress:
  assumes "wb_step_pair before P U L es i j S = Ok S'" and "grid (snd S)"
  shows "progress S S'"
proof (cases "S' = S")
  case False
  then obtain S1 where S1: "wb_add j i S = Ok S1" "S' = S1 \<or> wb_add (L ! j) (U ! i) S1 = Ok S'"
    using assms(1) by (auto simp: wb_step_pair_def res_simps Let_def split: if_splits)
  have "progress S S1" by (rule wb_add_progress [OF S1(1) assms(2)])
  then show ?thesis using S1(2) wb_add_progress [of "L ! j" "U ! i" S1 S'] progress_grid progress_trans by blast
qed (use assms(2) in simp)

lemma wb_step_row_progress:
  assumes "wb_step_row g before P es_of U L i S = Ok S'" and "grid (snd S)"
  shows "progress S S'"
proof -
  obtain es S1 where S1: "rfold (wb_step_pair before P U L es i) [0..<length (elems (snd S))] S = Ok S1"
    "S' = S1 \<or> wb_add (L ! length (elems (snd S))) i S1 = Ok S'"
    using assms(1) by (auto simp: wb_step_row_def res_simps Let_def split: if_splits)
  have "progress S S1" by (rule rfold_progress [OF S1(1) assms(2) wb_step_pair_progress])
  then show ?thesis using S1(2) wb_add_progress [of "L ! length (elems (snd S))" i S1 S'] progress_grid progress_trans by blast
qed

lemma self_edges_grown:
  assumes "self_edges M = Ok M'" and "grid M"
  shows "grown M M'"
  by (rule rfold_grown [OF assms(1) [unfolded self_edges_def] assms(2)]) (rule addEdgeId_grown(1))

text \<open>One location. A calculation that stops has found an inconsistency.\<close>

lemma wb_step_loc_progress:
  assumes "wb_step_loc g rel P es_of changed M = Ok (r, M')" and "grid M"
  shows "grown M M'" and "case r of Inl q \<Rightarrow> \<not> cr_cons q | Inr c \<Rightarrow> progress (changed, M) (c, M')"
proof -
  have "grown M M' \<and> (case r of Inl q \<Rightarrow> \<not> cr_cons q | Inr c \<Rightarrow> progress (changed, M) (c, M'))"
  proof (cases "elems M = []")
    case False
    then obtain lim where lim: "calcRMWLimits g M = Ok lim" using assms(1) by (auto simp: wb_step_loc_def res_simps)
    show ?thesis
    proof (cases lim)
      case None
      then show ?thesis using assms False lim self_edges_grown [of M M'] by (auto simp: wb_step_loc_def res_simps)
    next
      case (Some UL)
      then obtain U L c M1 irr where 1: "rfold (wb_step_row g (\<lambda>a b. isWriteRfBeforeRel g rel a b P) P es_of U L) [0..<length (elems M)] (changed, M)
          = Ok (c, M1)" "transClosure M1 = Ok M'" "r = (if irr then Inr c else Inl \<lparr>cr_changed = c, cr_cons = False\<rparr>)"
        using assms(1) False lim by (cases UL) (auto simp: wb_step_loc_def res_simps)
      have p: "progress (changed, M) (c, M1)" by (rule rfold_progress [OF 1(1)]) (use assms(2) wb_step_row_progress in auto)
      have "grown M1 M'" using transClosure_grown [OF 1(2)] progress_grid [OF p] by simp
      then have "progress (changed, M) (c, M')" by (rule progress_same [OF p])
      then show ?thesis using 1(3) by (auto simp: progress_def)
    qed
  qed (use assms in \<open>auto simp: wb_step_loc_def\<close>)
  then show "grown M M'" "case r of Inl q \<Rightarrow> \<not> cr_cons q | Inr c \<Rightarrow> progress (changed, M) (c, M')" by simp_all
qed

lemma wb_relation_loop_progress:
  "wb_relation_loop g rel P n changed M = Ok (r, M') \<Longrightarrow> grid M \<Longrightarrow>
    grown M M' \<and> (cr_cons r \<longrightarrow> progress (changed, M) (cr_changed r, M'))"
proof (induction n arbitrary: changed M)
  case (Suc n)
  obtain q M1 where 1: "wb_step_loc g rel P (\<lambda>l. rfilter P (lpos l # lreaders l)) changed M = Ok (q, M1)"
    "case q of Inl res \<Rightarrow> r = res \<and> M' = M1 | Inr c \<Rightarrow> wb_relation_loop g rel P n c M1 = Ok (r, M')"
  proof -
    obtain p where "wb_step_loc g rel P (\<lambda>l. rfilter P (lpos l # lreaders l)) changed M = Ok p"
      "(\<lambda>(r, M1). case r of Inl res \<Rightarrow> Ok (res, M1) | Inr c \<Rightarrow> wb_relation_loop g rel P n c M1) p = Ok (r, M')"
      using Suc.prems(1) unfolding wb_relation_loop.simps rbind_Ok_iff by blast
    then show ?thesis by (intro that [of "fst p" "snd p"]) (auto split: prod.splits sum.splits)
  qed
  note step = wb_step_loc_progress [OF 1(1) Suc.prems(2)]
  show ?case
  proof (cases q)
    case (Inr c)
    then have "grown M1 M' \<and> (cr_cons r \<longrightarrow> progress (c, M1) (cr_changed r, M'))" "progress (changed, M) (c, M1)"
      using Suc.IH [of c M1] 1(2) step grown_grid by auto
    then show ?thesis using step(1) grown_trans progress_trans by blast
  qed (use 1(2) step in simp)
qed (auto)

text \<open>The initial relation of a location.\<close>

lemma calc_wb_grid:
  assumes "calc_wb g es_of st = Ok M"
  shows "grid M"
proof -
  have row: "grown S S'" if r: "wb_row g before es_of U L i S = Ok S'" "grid S" for before U L i S S'
  proof -
    obtain es S1 where S1: "rfold (wb_pair before U L es i) [0..<length (elems S)] S = Ok S1"
      "S' = S1 \<or> addEdgeId S1 (L ! length (elems S)) i = Ok S'"
      using r(1) by (auto simp: wb_row_def res_simps Let_def split: if_splits)
    have "grown T T'" if p: "wb_pair before U L es i j T = Ok T'" "grid T" for j T T'
    proof (cases "T' = T")
      case False
      then obtain T1 where T1: "addEdgeId T j i = Ok T1" "T' = T1 \<or> addEdgeId T1 (L ! j) (U ! i) = Ok T'"
        using p(1) by (auto simp: wb_pair_def res_simps split: if_splits)
      have "grown T T1" by (rule addEdgeId_grown(1) [OF T1(1) p(2)])
      then show ?thesis using T1(2) addEdgeId_grown(1) grown_grid grown_trans by metis
    qed (use p(2) in simp)
    then have "grown S S1" using rfold_grown [OF S1(1) r(2)] by blast
    then show ?thesis using S1(2) addEdgeId_grown(1) grown_grid grown_trans by metis
  qed
  show ?thesis
  proof (cases "length st \<le> 1")
    case False
    then obtain lim where lim: "calcRMWLimits g (adj_of st) = Ok lim" using assms by (auto simp: calc_wb_def res_simps Let_def)
    show ?thesis
    proof (cases lim)
      case (Some UL)
      then obtain U L M1 where M1: "rfold (wb_row g (isWriteRfBefore g) es_of U L) [0..<length st] (adj_of st) = Ok M1" "transClosure M1 = Ok M"
        using assms lim False by (cases UL) (auto simp: calc_wb_def res_simps Let_def)
      have "grown (adj_of st) M1" by (rule rfold_grown [OF M1(1)]) (use row in auto)
      then show ?thesis using transClosure_grown [OF M1(2)] grown_grid by blast
    qed (use assms lim False self_edges_grown [of "adj_of st" M] grown_grid in \<open>auto simp: calc_wb_def Let_def\<close>)
  qed (use assms in \<open>auto simp: calc_wb_def\<close>)
qed

section \<open>The relations of the locations\<close>

definition cost :: "('k \<times> 'a AdjList) list \<Rightarrow> nat" where
  "cost co = sum_list (map (unset \<circ> snd) co)"

definition good :: "('k \<times> 'a AdjList) list \<Rightarrow> bool" where
  "good co \<longleftrightarrow> (\<forall>p \<in> set co. grid (snd p))"

lemma good_Nil [simp]: "good []"
  by (simp add: good_def)

lemma good_rel_at: "good co \<Longrightarrow> grid (rel_at co a)"
  using map_of_SomeD [of co a] by (fastforce simp: rel_at_def good_def split: option.splits)

lemma good_assoc_set: "good co \<Longrightarrow> grid r \<Longrightarrow> good (assoc_set a r co)"
  unfolding good_def by (induction co) auto

lemma cost_assoc_set: "cost (assoc_set a r co) + unset (rel_at co a) = cost co + unset r"
  by (induction co) (auto simp: cost_def rel_at_def)

text \<open>One relation grows.\<close>

lemma assoc_grown:
  assumes "good co" and "grown (rel_at co a) r"
  shows "good (assoc_set a r co)" "cost (assoc_set a r co) \<le> cost co"
    "unset r < unset (rel_at co a) \<Longrightarrow> cost (assoc_set a r co) < cost co"
  using good_assoc_set [OF assms(1) grown_grid [OF assms(2)], of a] grown_unset [OF assms(2)] cost_assoc_set [of a r co] by simp_all

definition kept :: "('k \<times> 'a AdjList) list \<Rightarrow> ('k \<times> 'a AdjList) list \<Rightarrow> bool" where
  "kept co co' \<longleftrightarrow> good co' \<and> cost co' \<le> cost co"

lemma kept_refl: "good co \<Longrightarrow> kept co co"
  by (simp add: kept_def)

lemma kept_trans: "kept co co1 \<Longrightarrow> kept co1 co2 \<Longrightarrow> kept co co2"
  by (auto simp: kept_def)

lemma rel_touch_kept: "good co \<Longrightarrow> kept co (rel_touch co a)"
  unfolding rel_touch_def kept_def using assoc_grown(1,2) [of co a "rel_at co a"] good_rel_at [of co a] by simp

lemma rfold_kept:
  assumes "rfold f xs s = Ok s'" and "good (sel s)" and "\<And>x t t'. good (sel t) \<Longrightarrow> f x t = Ok t' \<Longrightarrow> kept (sel t) (sel t')"
  shows "kept (sel s) (sel s')"
proof (rule rfold_Ok_keeps [OF assms(1), of "\<lambda>t. kept (sel s) (sel t)"])
  show "kept (sel s) (sel t')" if "kept (sel s) (sel t)" "f x t = Ok t'" for x t t'
    using that assms(3) kept_trans unfolding kept_def by blast
qed (rule kept_refl [OF assms(2)])

text \<open>A step of a calculator on the relations.\<close>

definition settled :: "('k \<times> 'a AdjList) list \<Rightarrow> CalculationResult \<Rightarrow> ('k \<times> 'a AdjList) list \<Rightarrow> bool" where
  "settled co r co' \<longleftrightarrow> kept co co' \<and> (cr_cons r \<and> cr_changed r \<longrightarrow> cost co' < cost co)"

lemma settled_kept: "settled co r co1 \<Longrightarrow> kept co1 co2 \<Longrightarrow> settled co r co2"
  unfolding settled_def kept_def by auto

lemma kept_settled: "kept co co1 \<Longrightarrow> settled co1 r co2 \<Longrightarrow> settled co r co2"
  unfolding settled_def kept_def by auto

subsection \<open>Coherence\<close>

lemma mo_doCalc_loop_kept: "mo_doCalc_loop ps co = Ok (b, co') \<Longrightarrow> good co \<Longrightarrow> kept co co'"
proof (induction ps arbitrary: co)
  case (Cons p ps)
  have t: "kept co (assoc_set (fst p) (case map_of co (fst p) of None \<Rightarrow> adj_empty | Some r \<Rightarrow> r) co)"
    using rel_touch_kept [OF Cons.prems(2), of "fst p"] by (simp add: rel_touch_def rel_at_def)
  then have "good (assoc_set (fst p) (case map_of co (fst p) of None \<Rightarrow> adj_empty | Some r \<Rightarrow> r) co)" by (simp add: kept_def)
  from Cons.IH [OF _ this] have "kept (assoc_set (fst p) (case map_of co (fst p) of None \<Rightarrow> adj_empty | Some r \<Rightarrow> r) co) co'
      \<or> co' = assoc_set (fst p) (case map_of co (fst p) of None \<Rightarrow> adj_empty | Some r \<Rightarrow> r) co"
    using Cons.prems(1) by (auto simp: res_simps Let_def split: if_splits)
  then show ?case using t kept_trans by blast
qed (auto simp: kept_refl)

lemma mo_doCalc_settled: "mo_doCalc m co = Ok (r, co') \<Longrightarrow> good co \<Longrightarrow> settled co r co' \<and> \<not> cr_changed r"
  using mo_doCalc_loop_kept by (auto simp: mo_doCalc_def res_simps settled_def)

lemma mo_init_loc_grid:
  assumes "mo_init_loc l = Ok r"
  shows "grid r"
proof (cases "l = []")
  case False
  then obtain r0 where r0: "rfold (\<lambda>(a, b) r. addEdge r a b) (zip (butlast l) (tl l)) (adj_of l) = Ok r0" "transClosure r0 = Ok r"
    using assms by (auto simp: mo_init_loc_def res_simps)
  have "grown (adj_of l) r0" by (rule rfold_grown [OF r0(1)]) (auto intro: addEdge_grown)
  then show ?thesis using transClosure_grown [OF r0(2)] grown_grid by blast
qed (use assms grid_adj_of [of l] in \<open>simp add: mo_init_loc_def\<close>)

lemma rfold_assoc_good:
  assumes "rfold (\<lambda>p co. rbind (f p) (\<lambda>r. Ok (assoc_set (fst p) r co))) ps [] = Ok co" and "\<And>p r. f p = Ok r \<Longrightarrow> grid r"
  shows "good co"
proof (rule rfold_Ok_keeps [OF assms(1), of good])
  show "good s'" if s: "good s" "rbind (f p) (\<lambda>r. Ok (assoc_set (fst p) r s)) = Ok s'" for p s s'
  proof -
    obtain r where "f p = Ok r" "s' = assoc_set (fst p) r s" using s(2) by (auto simp: res_simps)
    then show ?thesis using good_assoc_set [OF s(1)] assms(2) by simp
  qed
qed simp

lemma mo_initCalc_good: "mo_initCalc m = Ok co \<Longrightarrow> good co"
  unfolding mo_initCalc_def by (rule rfold_assoc_good) (use mo_init_loc_grid in auto)

lemma calcWb_grid: "calcWb g w a = Ok r \<Longrightarrow> grid r"
  using calc_wb_grid by (auto simp: calcWb_def res_simps)

lemma wb_initCalc_good: "wb_initCalc g w = Ok co \<Longrightarrow> good co"
  unfolding wb_initCalc_def by (erule rfold_assoc_good [where f = "\<lambda>p. calcWb g w (fst p)"]) (rule calcWb_grid)

lemma wb_doCalc_loop_settled:
  "wb_doCalc_loop g hb ps changed co = Ok (r, co') \<Longrightarrow> good co \<Longrightarrow>
    kept co co' \<and> (cr_cons r \<and> cr_changed r \<and> \<not> changed \<longrightarrow> cost co' < cost co)"
proof (induction ps arbitrary: changed co)
  case (Cons p ps)
  let ?M = "rel_at co (fst p)"
  obtain q M1 where 1: "wb_step_loc g hb (\<lambda>_. Ok True) (\<lambda>l. Ok (lreaders l @ [lpos l])) changed ?M = Ok (q, M1)"
    "case q of Inl res \<Rightarrow> r = res \<and> co' = assoc_set (fst p) M1 co | Inr c \<Rightarrow> wb_doCalc_loop g hb ps c (assoc_set (fst p) M1 co) = Ok (r, co')"
  proof -
    obtain x where "wb_step_loc g hb (\<lambda>_. Ok True) (\<lambda>l. Ok (lreaders l @ [lpos l])) changed ?M = Ok x"
      "(\<lambda>(r, M1). let co1 = assoc_set (fst p) M1 co in case r of Inl res \<Rightarrow> Ok (res, co1) | Inr c \<Rightarrow> wb_doCalc_loop g hb ps c co1) x = Ok (r, co')"
      using Cons.prems(1) unfolding wb_doCalc_loop.simps Let_def rbind_Ok_iff rel_at_def by blast
    then show ?thesis by (intro that [of "fst x" "snd x"]) (auto simp: Let_def split: prod.splits sum.splits)
  qed
  have g: "grid ?M" by (rule good_rel_at [OF Cons.prems(2)])
  note step = wb_step_loc_progress [OF 1(1) g] and a = assoc_grown [OF Cons.prems(2) wb_step_loc_progress(1) [OF 1(1) g]]
  show ?case
  proof (cases q)
    case (Inr c)
    then have ih: "kept (assoc_set (fst p) M1 co) co' \<and> (cr_cons r \<and> cr_changed r \<and> \<not> c \<longrightarrow> cost co' < cost (assoc_set (fst p) M1 co))"
      using Cons.IH [of c "assoc_set (fst p) M1 co"] 1(2) a(1) by simp
    have "c \<longrightarrow> changed \<or> cost (assoc_set (fst p) M1 co) < cost co" using step(2) Inr a(3) by (auto simp: progress_def)
    then show ?thesis using ih a(1,2) unfolding kept_def by (cases c) auto
  qed (use 1(2) step a in \<open>auto simp: kept_def\<close>)
qed (auto simp: kept_refl)

lemma wb_doCalc_settled: "wb_doCalc g w hb co = Ok (r, co') \<Longrightarrow> good co \<Longrightarrow> settled co r co'"
  using wb_doCalc_loop_settled unfolding wb_doCalc_def settled_def by blast

subsection \<open>The lock calculator\<close>

lemma calcLbRelation_kept:
  assumes "calcLbRelation g p = Ok p'" and "good (snd p)"
  shows "kept (snd p) (snd p')"
proof -
  have load: "kept (snd q) (snd q')" if "calcLbFromLoad g l k q = Ok q'" "good (snd q)" for l k q q'
    using that rel_touch_kept by (cases q) (auto simp: calcLbFromLoad_def res_simps Let_def)
  have store: "kept (snd q) (snd q')" if "calcLbFromStore g l k q = Ok q'" "good (snd q)" for l k q q'
    using that rel_touch_kept by (cases q) (auto simp: calcLbFromStore_def res_simps Let_def)
  have lab: "kept (snd q) (snd q')"
    if s: "rbind (if isa_Read (lkind l) then calcLbFromLoad g l k q else Ok q) (\<lambda>q1. if isa_Write (lkind l) then calcLbFromStore g l k q1 else Ok q1) = Ok q'"
      "good (snd q)" for l k q q'
  proof -
    obtain q1 where "if isa_Read (lkind l) then calcLbFromLoad g l k q = Ok q1 else q1 = q"
      "if isa_Write (lkind l) then calcLbFromStore g l k q1 = Ok q' else q' = q1"
      using s(1) by (auto simp: res_simps split: if_splits)
    then have "kept (snd q) (snd q1)" "good (snd q1) \<longrightarrow> kept (snd q1) (snd q')"
      using load store s(2) kept_refl by (auto split: if_splits)
    then show ?thesis using kept_trans by (auto simp: kept_def)
  qed
  have crit: "kept (snd q) (snd q')" if s: "lb_section g l q = Ok q'" "good (snd q)" for l q q'
  proof -
    obtain k js where "rfold (\<lambda>i p. rbind (getEventLabel g (Event (ethread l) i)) (\<lambda>lab.
         rbind (if isa_Read (lkind lab) then calcLbFromLoad g lab k p else Ok p) (\<lambda>p1.
           if isa_Write (lkind lab) then calcLbFromStore g lab k p1 else Ok p1))) js q = Ok q'"
      using s(1) unfolding lb_section_def rbind_Ok_iff by blast
    then show ?thesis
    proof (rule rfold_kept [where sel = snd])
      show "kept (snd t) (snd t')" if "good (snd t)" "rbind (getEventLabel g (Event (ethread l) i)) (\<lambda>lab.
         rbind (if isa_Read (lkind lab) then calcLbFromLoad g lab k t else Ok t) (\<lambda>p1.
           if isa_Write (lkind lab) then calcLbFromStore g lab k p1 else Ok p1)) = Ok t'" for i t t'
        using that(2) lab [OF _ that(1)] unfolding rbind_Ok_iff [of "getEventLabel _ _"] by blast
    qed (rule s(2))
  qed
  show ?thesis
  proof (rule rfold_kept [OF assms(1) [unfolded calcLbRelation_def], of snd])
    fix a q q'
    assume q: "good (snd q)" "rbind (rfold (lb_section g) (elems (rel_at (fst q) a)) q) (\<lambda>(lb, co).
       rbind (transClosure (rel_at lb a)) (\<lambda>r. Ok (assoc_set a r lb, co))) = Ok q'"
    then obtain q1 where "rfold (lb_section g) (elems (rel_at (fst q) a)) q = Ok q1" "snd q' = snd q1" by (auto simp: res_simps)
    have "kept (snd q) (snd q1)" by (rule rfold_kept [where sel = snd, OF \<open>rfold _ _ q = _\<close> q(1)]) (rule crit)
    then show "kept (snd q) (snd q')" using \<open>snd q' = snd q1\<close> by simp
  qed (rule assms(2))
qed

lemma lb_doCalc_kept:
  assumes "lb_doCalc g (hb, lb, co) = Ok (r, hb', lb', co')" and "good co"
  shows "kept co co'"
proof (cases "co' = co")
  case False
  then obtain lb1 co1 where 1: "calcLbRelation g (lb, co) = Ok (lb1, co1)"
    "co' = co1 \<or> (\<exists>n b. rfold (init_overwritten g hb') n (False, co1) = Ok (b, co'))"
    using assms(1) by (auto simp: lb_doCalc_def res_simps split: if_splits)
  have k: "kept co co1" using calcLbRelation_kept [OF 1(1)] assms(2) by simp
  have step: "kept (snd t) (snd t')" if "init_overwritten g hb' x t = Ok t'" "good (snd t)" for x t t'
    using that rel_touch_kept kept_refl by (cases t) (auto simp: init_overwritten_def res_simps split: if_splits)
  have "kept co1 c" if "rfold (init_overwritten g hb') n (False, co1) = Ok (b, c)" for n b c
    using rfold_kept [OF that, of snd] step k by (simp add: kept_def)
  then show ?thesis using 1(2) k kept_trans by blast
qed (use assms(2) kept_refl in simp)

subsection \<open>Sequential consistency\<close>

text \<open>What a calculation on a location has to promise, and \<open>calcWbRelation()\<close> does.\<close>

definition steady :: "WbStep \<Rightarrow> bool" where
  "steady f \<longleftrightarrow> (\<forall>a r rel P q r'. grid r \<longrightarrow> f a r rel P = Ok (q, r') \<longrightarrow>
     grown r r' \<and> (cr_cons q \<and> cr_changed q \<longrightarrow> unset r' < unset r))"

lemma calcWbRelation_steady: "steady (calcWbRelation g w)"
  unfolding steady_def calcWbRelation_def using wb_relation_loop_progress by (fastforce simp: progress_def)

lemma cost_append [simp]: "cost (xs @ ys) = cost xs + cost ys"
  by (simp add: cost_def)

lemma cost_single [simp]: "cost [(a, r)] = unset r"
  by (simp add: cost_def)

lemma good_append [simp]: "good (xs @ ys) \<longleftrightarrow> good xs \<and> good ys"
  by (auto simp: good_def)

lemma good_Cons [simp]: "good ((a, r) # xs) \<longleftrightarrow> grid r \<and> good xs"
  by (auto simp: good_def)

lemma addPscConstraints_settled:
  assumes "addPscConstraints wb g psc co = Ok (r, co')" and "\<And>f. wb = Some f \<Longrightarrow> steady f" and "good co"
  shows "settled co r co'"
proof (cases wb)
  case None
  then show ?thesis using assms(1,3) kept_refl by (auto simp: addPscConstraints_def settled_def)
next
  case (Some f)
  let ?body = "\<lambda>(a, r) (result, acc). rbind (f a r psc (psc_event g)) (\<lambda>(q, r1). Ok (cr_or result q, acc @ [(a, r1)]))"
  have f: "rfold ?body co (\<lparr>cr_changed = False, cr_cons = True\<rparr>, []) = Ok (r, co')"
    using assms(1) Some by (simp add: addPscConstraints_def)
  let ?P = "\<lambda>k t. settled (take k co) (fst t) (snd t)"
  have "?P (length co) (r, co')"
  proof (rule rfold_Ok_inv [OF f, of ?P])
    fix k t t'
    assume k: "k < length co" "?P k t" "?body (co ! k) t = Ok t'"
    obtain a x where ax: "co ! k = (a, x)" by (cases "co ! k")
    obtain q x1 where q: "f a x psc (psc_event g) = Ok (q, x1)" "t' = (cr_or (fst t) q, snd t @ [(a, x1)])"
      using k(3) ax by (cases t) (auto simp: res_simps)
    have "(a, x) \<in> set co" using k(1) ax by (metis nth_mem)
    then have "grid x" using assms(3) by (auto simp: good_def)
    then have x: "grid x1 \<and> unset x1 \<le> unset x \<and> (cr_cons q \<and> cr_changed q \<longrightarrow> unset x1 < unset x)"
      using assms(2) [OF Some] q(1) grown_grid grown_unset unfolding steady_def by blast
    have t: "take (Suc k) co = take k co @ [(a, x)]" using k(1) ax by (simp add: take_Suc_conv_app_nth)
    show "?P (Suc k) t'" using k(2) x unfolding t q(2) by (auto simp: settled_def kept_def cr_or_def)
  qed (simp add: settled_def kept_def)
  then show ?thesis by simp
qed

lemma addSCEcos_kept:
  assumes "addSCEcos g hb fcs ls (co, psc) = Ok (co', psc')" and "good co"
  shows "kept co co'"
proof -
  have "kept (fst t) (fst t')" if "(\<lambda>(co, psc). rbind (addSCEcosLoc g hb fcs (rel_at co a) psc) (\<lambda>psc1. Ok (rel_touch co a, psc1))) t = Ok t'"
    "good (fst t)" for a t t'
    using that rel_touch_kept by (cases t) (auto simp: res_simps)
  from rfold_kept [OF assms(1) [unfolded addSCEcos_def], of fst] this assms(2) show ?thesis by simp
qed

lemma calcPscRelation_kept:
  assumes "calcPscRelation g m hb (co, psc) = Ok (co', psc')" and "good co"
  shows "kept co co'"
proof (cases "co' = co")
  case False
  then show ?thesis using assms addSCEcos_kept by (auto simp: calcPscRelation_def res_simps split: if_splits)
qed (use assms(2) kept_refl in simp)

lemma closures_kept:
  "rmap (\<lambda>(a, r). rbind (transClosure r) (\<lambda>r1. Ok (a, r1))) co = Ok co' \<Longrightarrow> good co \<Longrightarrow> kept co co'"
proof (induction co arbitrary: co')
  case (Cons p co)
  then obtain a r r1 co1 where 1: "p = (a, r)" "transClosure r = Ok r1" "co' = (a, r1) # co1"
    "rmap (\<lambda>(a, r). rbind (transClosure r) (\<lambda>r1. Ok (a, r1))) co = Ok co1" by (cases p) (auto simp: res_simps)
  have "grid r" "good co" using Cons.prems(2) 1(1) by simp_all
  then show ?case using Cons.IH [OF 1(4)] transClosure_grown [OF 1(2)] grown_grid grown_unset 1(1,3)
    by (fastforce simp: kept_def cost_def)
qed (auto simp: kept_def)

text \<open>The step closes happens-before again, which changes nothing that is ordered, and settles coherence.\<close>

lemma psc_doCalc_settled:
  assumes "psc_doCalc wb g m (hb, psc, co) = Ok (r, hb', psc', co')" and "\<And>f. wb = Some f \<Longrightarrow> steady f" and "good co"
  shows "transClosure hb = Ok hb'" and "settled co r co'"
proof -
  show "transClosure hb = Ok hb'" using assms(1) by (auto simp: psc_doCalc_def res_simps split: if_splits)
  obtain h1 where h1: "isIrreflexive hb' = Ok h1" using assms(1) by (auto simp: psc_doCalc_def res_simps split: if_splits)
  show "settled co r co'"
  proof (cases "co' = co \<and> \<not> cr_cons r")
    case False
    then obtain co1 where co1: "calcPscRelation g m hb' (co, psc) = Ok (co1, psc')"
      "co' = co1 \<and> \<not> cr_cons r \<or> (\<exists>q co2. addPscConstraints wb g psc' co1 = Ok (q, co2) \<and> cr_changed r = cr_changed q \<and>
        (co' = co2 \<and> \<not> cr_cons r \<or> cr_cons q \<and> rmap (\<lambda>(a, r). rbind (transClosure r) (\<lambda>r1. Ok (a, r1))) co2 = Ok co'))"
      using assms(1) by (auto simp: psc_doCalc_def res_simps split: if_splits)
    have k: "kept co co1" by (rule calcPscRelation_kept [OF co1(1) assms(3)])
    then have g: "good co1" by (simp add: kept_def)
    from co1(2) show ?thesis
    proof (elim disjE exE conjE)
      fix q co2
      assume 2: "addPscConstraints wb g psc' co1 = Ok (q, co2)" "cr_changed r = cr_changed q" "cr_cons q"
        "rmap (\<lambda>(a, r). rbind (transClosure r) (\<lambda>r1. Ok (a, r1))) co2 = Ok co'"
      have "settled co1 q co2" by (rule addPscConstraints_settled [OF 2(1) assms(2) g])
      then have "settled co1 q co'" using settled_kept closures_kept [OF 2(4)] by (auto simp: settled_def kept_def)
      then show ?thesis using kept_settled [OF k] 2(2,3) by (auto simp: settled_def)
    next
      fix q co2
      assume 2: "addPscConstraints wb g psc' co1 = Ok (q, co2)" "co' = co2" "\<not> cr_cons r"
      have "settled co1 q co2" by (rule addPscConstraints_settled [OF 2(1) assms(2) g])
      then show ?thesis using k 2(2,3) kept_trans by (auto simp: settled_def)
    qed (use k in \<open>simp add: settled_def\<close>)
  qed (use assms(3) kept_refl in \<open>auto simp: settled_def\<close>)
qed

section \<open>The state\<close>

text \<open>The relations of \<open>co\<close> in a state; the step of a calculator that needs them and does not find them is an error.\<close>

definition co_of :: "'p Cons \<Rightarrow> PerLocRelation" where
  "co_of s = (case getPerLocRelation s R_co of Ok co \<Rightarrow> co | _ \<Rightarrow> [])"

definition fix_wf :: "'p Cons \<Rightarrow> bool" where
  "fix_wf s \<longleftrightarrow> hb_wf s \<and> good (co_of s)"

definition fix_missing :: "'p Cons \<Rightarrow> nat" where
  "fix_missing s = hb_missing s + cost (co_of s)"

lemma co_of_get: "getPerLocRelation s R_co = Ok co \<Longrightarrow> co_of s = co"
  by (simp add: co_of_def)

lemma co_of_put: "putPerLocRelation s R_co x = Ok s' \<Longrightarrow> co_of s' = x"
  by (auto simp: putPerLocRelation_def getPerLocRelation_def co_of_def rel_index_def res_simps split: option.splits)

lemma co_of_cong: "cRelIndex s' = cRelIndex s \<Longrightarrow> rPerLoc (cRels s') = rPerLoc (cRels s) \<Longrightarrow> co_of s' = co_of s"
  by (simp add: co_of_def getPerLocRelation_def rel_index_def)

lemma co_of_putGlobal: "putGlobalRelation s r x = Ok s' \<Longrightarrow> co_of s' = co_of s"
  by (rule co_of_cong) (auto simp: putGlobalRelation_def res_simps)

lemma putPerLoc_fix:
  assumes "putPerLocRelation s r x = Ok s'" and "fix_wf s" and "good x"
  shows "fix_wf s'"
proof -
  obtain i where i: "cRelIndex s r = Some i" "i < length (rPerLoc (cRels s))" "cRelIndex s' = cRelIndex s"
    "rPerLoc (cRels s') = (rPerLoc (cRels s))[i := x]"
    using assms(1) by (auto simp: putPerLocRelation_def rel_index_def res_simps split: option.splits)
  have "good (co_of s')"
  proof (cases "cRelIndex s R_co = Some i")
    case True
    then have "co_of s' = x" using i by (simp add: co_of_def getPerLocRelation_def rel_index_def)
    then show ?thesis using assms(3) by simp
  next
    case False
    then have "co_of s' = co_of s" using i by (auto simp: co_of_def getPerLocRelation_def rel_index_def vec_get_def split: option.splits)
    then show ?thesis using assms(2) by (simp add: fix_wf_def)
  qed
  then show ?thesis using putPerLoc_hb(1) [OF assms(1)] assms(2) by (simp add: fix_wf_def)
qed

text \<open>A step that leaves happens-before alone or orders more of it, and settles coherence.\<close>

lemma fix_step:
  assumes "hb_wf s' \<and> hb_missing s' \<le> hb_missing s" and "good (co_of s')" and "cost (co_of s') \<le> cost (co_of s)"
    and "cr_cons r \<and> cr_changed r \<Longrightarrow> hb_missing s' < hb_missing s \<or> cost (co_of s') < cost (co_of s)"
  shows "fix_wf s' \<and> fix_missing s' \<le> fix_missing s \<and> (cr_cons r \<and> cr_changed r \<longrightarrow> fix_missing s' < fix_missing s)"
  using assms by (auto simp: fix_wf_def fix_missing_def)

abbreviation fix_ends :: "'p Cons \<Rightarrow> CalculationResult \<Rightarrow> 'p Cons \<Rightarrow> bool" where
  "fix_ends s r s' \<equiv> fix_wf s' \<and> fix_missing s' \<le> fix_missing s \<and> (cr_cons r \<and> cr_changed r \<longrightarrow> fix_missing s' < fix_missing s)"

lemma coherence_step:
  assumes "putPerLocRelation s R_co co' = Ok s'" and "settled (co_of s) r co'" and "fix_wf s"
  shows "fix_ends s r s'"
  by (rule fix_step) (use assms putPerLoc_hb [OF assms(1)] co_of_put [OF assms(1)] in \<open>auto simp: fix_wf_def settled_def kept_def\<close>)

lemma mo_calculator_fix:
  assumes "doCalc (mo_calculator mo pm) s = Ok (r, s')" and "fix_wf s"
  shows "fix_ends s r s'"
proof -
  obtain co co1 where 1: "getPerLocRelation s R_co = Ok co" "mo_doCalc (mo (cPriv s)) co = Ok (r, co1)" "putPerLocRelation s R_co co1 = Ok s'"
    using assms(1) by (auto simp: mo_calculator_def res_simps)
  have "settled (co_of s) r co1" using mo_doCalc_settled [OF 1(2)] assms(2) co_of_get [OF 1(1)] by (simp add: fix_wf_def)
  then show ?thesis by (rule coherence_step [OF 1(3) _ assms(2)])
qed

lemma wb_calculator_fix:
  assumes "doCalc (wb_calculator wb pw) s = Ok (r, s')" and "fix_wf s"
  shows "fix_ends s r s'"
proof -
  obtain hb co co1 where 1: "getPerLocRelation s R_co = Ok co" "wb_doCalc (cGraph s) (wb (cPriv s)) hb co = Ok (r, co1)"
    "putPerLocRelation s R_co co1 = Ok s'"
    using assms(1) by (auto simp: wb_calculator_def res_simps)
  have "settled (co_of s) r co1" using wb_doCalc_settled [OF 1(2)] assms(2) co_of_get [OF 1(1)] by (simp add: fix_wf_def)
  then show ?thesis by (rule coherence_step [OF 1(3) _ assms(2)])
qed

lemma lb_calculator_fix:
  assumes "doCalc (lb_calculator locks pl) s = Ok (r, s')" and "fix_wf s"
  shows "fix_ends s r s'"
proof -
  obtain hb lb co hb1 lb1 co1 s2 where 1: "getPerLocRelation s R_co = Ok co" "lb_doCalc (cGraph s) (hb, lb, co) = Ok (r, hb1, lb1, co1)"
    "putPerLocRelation s2 R_co co1 = Ok s'"
    using assms(1) by (auto simp: lb_calculator_def res_simps)
  have "kept (co_of s) (co_of s')"
    using lb_doCalc_kept [OF 1(2)] co_of_get [OF 1(1)] co_of_put [OF 1(3)] assms(2) by (simp add: fix_wf_def)
  moreover have "hb_wf s' \<and> hb_missing s' \<le> hb_missing s \<and> (cr_changed r \<longrightarrow> hb_missing s' < hb_missing s)"
    by (rule lb_calculator_step [OF assms(1)]) (use assms(2) in \<open>simp add: fix_wf_def\<close>)
  ultimately show ?thesis by (intro fix_step) (auto simp: kept_def)
qed

lemma psc_calculator_fix:
  assumes "doCalc (psc_calculator wb mo) s = Ok (r, s')" and "fix_wf s" and "\<And>f. wb = Some f \<Longrightarrow> steady (f s)"
  shows "fix_ends s r s'"
proof -
  obtain hb psc co hb1 psc1 co1 s1 s2 where 1: "getGlobalRelation s R_hb = Ok hb" "getPerLocRelation s R_co = Ok co"
    "psc_doCalc (map_option (\<lambda>f. f s) wb) (cGraph s) (mo (cPriv s)) (hb, psc, co) = Ok (r, hb1, psc1, co1)" "putGlobalRelation s R_hb hb1 = Ok s1"
    "putGlobalRelation s1 R_psc psc1 = Ok s2" "putPerLocRelation s2 R_co co1 = Ok s'"
    using assms(1) by (auto simp: psc_calculator_def res_simps)
  have w: "cRelIndex s R_psc \<noteq> Some 0" "adj_wf hb" "hb = rGlobal (cRels s) ! 0" "rGlobal (cRels s) \<noteq> []" "hb_wf s" "good co"
    using assms(2) 1(1) co_of_get [OF 1(2)] by (auto simp: fix_wf_def hb_wf_def getGlobalRelation_def rel_index_def res_simps)
  have st: "steady f" if "map_option (\<lambda>f. f s) wb = Some f" for f using that assms(3) by auto
  note p = psc_doCalc_settled [OF 1(3) st w(6)]
  note t = p(1)
  have "hb_wf s1" "hb_missing s1 = hb_missing s"
    using putGlobal_hb [OF 1(4) w(5)] transClosure_wf [OF w(2) t] w by (simp_all add: hb_wf_def hb_missing_def unordered_def)
  moreover have "cRelIndex s1 R_psc \<noteq> Some 0" using putGlobal_hb(2) [OF 1(4) w(5)] w(1) by simp
  note putGlobal_psc [OF 1(5) this]
  ultimately have hb: "hb_wf s'" "hb_missing s' = hb_missing s" using putPerLoc_hb [OF 1(6)] by simp_all
  have "settled (co_of s) r (co_of s')" using p(2) co_of_get [OF 1(2)] co_of_put [OF 1(6)] by simp
  then show ?thesis using hb by (intro fix_step) (auto simp: settled_def kept_def)
qed

text \<open>Initialisation.\<close>

lemma mo_calculator_fix_init: "initCalc (mo_calculator mo pm) s = Ok s' \<Longrightarrow> fix_wf s \<Longrightarrow> fix_wf s'"
  by (auto simp: mo_calculator_def res_simps intro: putPerLoc_fix mo_initCalc_good)

lemma wb_calculator_fix_init: "initCalc (wb_calculator wb pw) s = Ok s' \<Longrightarrow> fix_wf s \<Longrightarrow> fix_wf s'"
  by (auto simp: wb_calculator_def res_simps intro: putPerLoc_fix wb_initCalc_good)

lemma psc_calculator_fix_init: "initCalc (psc_calculator wb mo) s = Ok s' \<Longrightarrow> fix_wf s \<Longrightarrow> fix_wf s'"
  using putGlobal_psc(1) co_of_putGlobal by (fastforce simp: psc_calculator_def res_simps fix_wf_def hb_wf_def)

lemma lb_calculator_fix_init:
  assumes "initCalc (lb_calculator locks pl) s = Ok s'" and "fix_wf s"
  shows "fix_wf s'"
proof -
  let ?new = "\<lambda>lb. fold (\<lambda>p lb. assoc_set (fst p) (adj_of (snd p)) lb) (locks (cPriv s)) lb"
  obtain lb where lb: "getPerLocRelation s R_lb = Ok lb" "putPerLocRelation s R_lb (?new lb) = Ok s'"
    using assms(1) by (auto simp: lb_calculator_def res_simps)
  have new: "good (?new lb)" if "good lb"
    by (rule fold_inv [of "\<lambda>_. good"]) (use that in \<open>auto intro: good_assoc_set\<close>)
  show ?thesis
  proof (cases "cRelIndex s R_lb = cRelIndex s R_co")
    case True
    then have "co_of s = lb" using lb(1) by (simp add: co_of_def getPerLocRelation_def rel_index_def)
    then show ?thesis using putPerLoc_fix [OF lb(2) assms(2)] new assms(2) by (simp add: fix_wf_def)
  next
    case False
    then have "co_of s' = co_of s" using lb(2)
      by (auto simp: putPerLocRelation_def co_of_def getPerLocRelation_def rel_index_def vec_get_def res_simps split: option.splits)
    then show ?thesis using putPerLoc_hb(1) [OF lb(2)] assms(2) by (simp add: fix_wf_def)
  qed
qed

section \<open>The calculators of RC11\<close>

text \<open>\<open>GraphBuilder\<close> adds the coherence calculator and, with LAPOR, that of locks; the driver of RC11 adds \<open>psc\<close>, which
  extends coherence when it is a \<open>WBCalculator\<close>, and takes the stores of a location from the coherence calculator.\<close>

record 'p Tool =
  tMO :: "'p \<Rightarrow> MO"
  tPutMO :: "MO \<Rightarrow> 'p \<Rightarrow> 'p"
  tWB :: "'p \<Rightarrow> WB"
  tPutWB :: "WB \<Rightarrow> 'p \<Rightarrow> 'p"
  tLocks :: "'p \<Rightarrow> LockLists"
  tPutLocks :: "LockLists \<Rightarrow> 'p \<Rightarrow> 'p"

definition coherence_calculator :: "'p Tool \<Rightarrow> CoherenceType \<Rightarrow> 'p Calculator" where
  "coherence_calculator T coh = (case coh of Coh_mo \<Rightarrow> mo_calculator (tMO T) (tPutMO T) | Coh_wb \<Rightarrow> wb_calculator (tWB T) (tPutWB T))"

definition rc11_psc :: "'p Tool \<Rightarrow> CoherenceType \<Rightarrow> 'p Calculator" where
  "rc11_psc T coh = (case coh of Coh_mo \<Rightarrow> psc_calculator None (tMO T)
     | Coh_wb \<Rightarrow> psc_calculator (Some (\<lambda>s. calcWbRelation (cGraph s) (tWB T (cPriv s)))) (\<lambda>p. wb_mo (tWB T p)))"

definition rc11_build :: "'p Tool \<Rightarrow> CoherenceType \<Rightarrow> bool \<Rightarrow> ExecutionGraph \<Rightarrow> 'p \<Rightarrow> 'p Calculator list \<times> 'p Cons" where
  "rc11_build T coh lapor g p = addCalculator (rc11_psc T coh) R_psc False False
     (withEnabledLAPOR (lb_calculator (tLocks T) (tPutLocks T)) lapor
       (withCoherenceType (coherence_calculator T) coh ([], cons_new g p)))"

abbreviation rc11_calculators :: "'p Tool \<Rightarrow> CoherenceType \<Rightarrow> bool \<Rightarrow> ExecutionGraph \<Rightarrow> 'p \<Rightarrow> 'p Calculator list" where
  "rc11_calculators T coh lapor g p \<equiv> fst (rc11_build T coh lapor g p)"

lemma set_rc11_calculators:
  "c \<in> set (rc11_calculators T coh lapor g p) \<Longrightarrow>
    c = coherence_calculator T coh \<or> c = lb_calculator (tLocks T) (tPutLocks T) \<or> c = rc11_psc T coh"
  by (auto simp: rc11_build_def addCalculator_def withEnabledLAPOR_def withCoherenceType_def Let_def split: if_splits)

lemma rc11_build_index:
  "cRelIndex (snd (rc11_build T coh lapor g p)) R_hb = Some 0" "cRelIndex (snd (rc11_build T coh lapor g p)) R_psc = Some 1"
  by (simp_all add: rc11_build_def addCalculator_def withEnabledLAPOR_def withCoherenceType_def cons_new_def Let_def)

lemma coherence_calculator_fix:
  "doCalc (coherence_calculator T coh) s = Ok (r, s') \<Longrightarrow> fix_wf s \<Longrightarrow> fix_ends s r s'"
  "initCalc (coherence_calculator T coh) s = Ok s' \<Longrightarrow> fix_wf s \<Longrightarrow> fix_wf s'"
  unfolding coherence_calculator_def
  using mo_calculator_fix wb_calculator_fix mo_calculator_fix_init wb_calculator_fix_init by (cases coh; simp; blast)+

lemma rc11_psc_fix:
  "doCalc (rc11_psc T coh) s = Ok (r, s') \<Longrightarrow> fix_wf s \<Longrightarrow> fix_ends s r s'"
  "initCalc (rc11_psc T coh) s = Ok s' \<Longrightarrow> fix_wf s \<Longrightarrow> fix_wf s'"
proof -
  show "doCalc (rc11_psc T coh) s = Ok (r, s') \<Longrightarrow> fix_wf s \<Longrightarrow> fix_ends s r s'"
    using psc_calculator_fix [of None "tMO T" s r s']
      psc_calculator_fix [of "Some (\<lambda>s. calcWbRelation (cGraph s) (tWB T (cPriv s)))" "\<lambda>p. wb_mo (tWB T p)" s r s'] calcWbRelation_steady
    unfolding rc11_psc_def by (cases coh) auto
  show "initCalc (rc11_psc T coh) s = Ok s' \<Longrightarrow> fix_wf s \<Longrightarrow> fix_wf s'"
    unfolding rc11_psc_def using psc_calculator_fix_init by (cases coh; simp; blast)
qed

interpretation rc11: calculators "rc11_calculators T coh lapor g p" fix_wf fix_missing for T coh lapor g p
proof
  fix c s r s'
  assume "c \<in> set (rc11_calculators T coh lapor g p)" and "fix_wf s" "doCalc c s = Ok (r, s')"
  then show "fix_ends s r s'"
    using set_rc11_calculators coherence_calculator_fix(1) lb_calculator_fix rc11_psc_fix(1) by metis
next
  fix c s s'
  assume "c \<in> set (rc11_calculators T coh lapor g p)" and "fix_wf s" "initCalc c s = Ok s'"
  then show "fix_wf s'"
    using set_rc11_calculators coherence_calculator_fix(2) lb_calculator_fix_init rc11_psc_fix(2) by metis
qed (simp_all add: fix_wf_def fix_missing_def hb_wf_def hb_missing_def co_of_def getPerLocRelation_def rel_index_def)

text \<open>After the matrix has been filled in and the relations of the locations have been cleared, the state is well-formed.\<close>

lemma doInits_wf:
  assumes "doInits (rc11_calculators T coh lapor g p) full s = Ok s'" and "cRelIndex s R_hb = Some 0" and "cRelIndex s R_psc \<noteq> Some 0"
  shows "fix_wf s'"
proof -
  let ?cs = "rc11_calculators T coh lapor g p" and ?clear = "\<lambda>q. take (length (rPerLoc (cRels s))) (map (\<lambda>_. []) q) @ drop (length (rPerLoc (cRels s))) q"
  obtain hb0 hb gs where 1: "populateHbEntries (cGraph s) = Ok hb0" "transClosure hb0 = Ok hb"
    "vec_set (rGlobal (cRels s)) 0 hb = Ok gs"
    using assms by (auto simp: doInits_def res_simps)
  define s1 where "s1 = s\<lparr>cRels := (cRels s)\<lparr>rGlobal := gs, rPerLoc := ?clear (rPerLoc (cRels s))\<rparr>,
          cCache := (cCache s)\<lparr>rPerLoc := ?clear (rPerLoc (cCache s))\<rparr>\<rparr>"
  have 2: "rfold (\<lambda>i s. if \<not> full \<and> i \<notin> set (cPartial s) then Ok s else initCalc (?cs ! i) s) [0..<length ?cs] s1 = Ok s'"
    using assms 1 by (simp add: doInits_def Let_def s1_def split: if_splits)
  have "gs \<noteq> []" "gs ! 0 = hb" using 1(3) by (auto simp: vec_set_def split: if_splits)
  then have "hb_wf s1" using transClosure_wf [OF populateHbEntries_wf [OF 1(1)] 1(2)] assms(2,3) by (simp add: hb_wf_def s1_def)
  moreover have "co_of s1 = []"
    by (auto simp: co_of_def getPerLocRelation_def rel_index_def s1_def vec_get_def split: option.splits)
  ultimately show ?thesis using rc11.inits_wf [OF 2] by (simp add: fix_wf_def)
qed

section \<open>The property\<close>

text \<open>C2: the consistency check ends. With the calculators of RC11, coherence by modification orders or by
  writes-before, with and without LAPOR, and \<open>psc\<close>, the loop of \<open>isConsistent()\<close> stops after finitely many rounds on every
  graph and at every level of checking: a round that reports a change and has found no inconsistency has ordered a pair of
  events that was unordered before, or has set a bit in the matrix of a location. The loops of \<open>calcRMWLimits()\<close> inside a
  round end too.\<close>

theorem isConsistent_terminates:
  assumes "cRelIndex s R_hb = Some 0" and "cRelIndex s R_psc \<noteq> Some 0"
  shows "isConsistent (fst (rc11_build T coh lapor g p)) (coh = Coh_wb) t s \<noteq> None"
proof (cases "fixStatus (cGraph s) = FS_Done \<and> rType (cRels s) = t \<or> t = CT_fast")
  case False
  let ?s = "s\<lparr>cGraph := setFPStatus FS_InProgress (cGraph s)\<rparr>"
  show ?thesis
  proof (cases "doInits (rc11_calculators T coh lapor g p) (t = CT_full) ?s")
    case (Ok s1)
    then have "fix_wf s1" by (rule doInits_wf) (use assms in simp_all)
    then show ?thesis using rc11.cons_fixpoint_returns [of s1] Ok False by (simp add: isConsistent_def Let_def)
  qed (use False in \<open>simp_all add: isConsistent_def Let_def\<close>)
qed (auto simp: isConsistent_def)

theorem isConsistent_terminates_witness:
  "let T = \<lparr>tMO = \<lambda>p. wb_mo (fst p), tPutMO = \<lambda>m p. ((fst p)\<lparr>wb_mo := m\<rparr>, snd p), tWB = fst, tPutWB = \<lambda>w p. (w, snd p),
       tLocks = snd, tPutLocks = \<lambda>l p. (fst p, l)\<rparr>; b = rc11_build T Coh_wb True wb_graph (wb_ex, [])
   in isConsistent (fst b) (Coh_wb = Coh_wb) CT_full (snd b) \<noteq> None"
  unfolding Let_def by (rule isConsistent_terminates) (simp_all only: rc11_build_index, simp_all)

end
