(* ===== verification/GenMC_Driver.thy ===== *)
theory GenMC_Driver
  imports GenMC_RC11 GenMC_PSC GenMC_Recovery
begin

text \<open>
  The state of the exploration driver (\<open>src/src/GenMCDriver.hpp\<close>, \<open>src/src/GenMCDriver.cpp\<close>) with the
  part of the interpreter that it uses (\<open>src/src/Interpreter.h\<close>): threads, the graph with its calculators,
  work sets, scheduling, and what happens at the two ends of an execution. A stack frame of the interpreter is
  a value of the type \<open>'f\<close>. Handlers take the driver and return it; \<open>Undef\<close>, \<open>Bug\<close> and \<open>UserError\<close> stop the tool.
\<close>

section \<open>Options and services\<close>

datatype ProgramPoint = PP_error | PP_exec | PP_step

primrec pp_num :: "ProgramPoint \<Rightarrow> nat" where
  "pp_num PP_error = 1" | "pp_num PP_exec = 2" | "pp_num PP_step = 3"

datatype SchedulePolicy = Sched_ltr | Sched_wf | Sched_random

record DConf = Conf +
  helper :: bool
  disableBAM :: bool
  symmetryReduction :: bool
  checkLivenessOpt :: bool
  disableRaceDetection :: bool
  schedulePolicy :: SchedulePolicy
  checkConsPoint :: ProgramPoint
  checkConsType :: CheckConsType
  checkPersPoint :: ProgramPoint
  persBlockSize :: nat

text \<open>The virtual functions of the driver of a memory model.\<close>

record Virtuals =
  vUpdateLabelViews :: "ExecutionGraph \<Rightarrow> EventLabel \<Rightarrow> EventLabel res"
  vChangeRf :: "ExecutionGraph \<Rightarrow> Event \<Rightarrow> Event \<Rightarrow> ExecutionGraph res"
  vUpdateStart :: "ExecutionGraph \<Rightarrow> Event \<Rightarrow> Event \<Rightarrow> ExecutionGraph res"
  vUpdateJoin :: "ExecutionGraph \<Rightarrow> Event \<Rightarrow> Event \<Rightarrow> (ExecutionGraph \<times> bool) res"
  vFindRace :: "(SAddr \<Rightarrow> Event list) \<Rightarrow> ExecutionGraph \<Rightarrow> EventLabel \<Rightarrow> Event res"

text \<open>What the driver asks the interpreter: whether an address belongs to a global variable, whether the next
  instruction of a frame may be a load, the result of an atomic read-modify-write, the first frame of a thread
  that runs a function on an argument, and a frame with its instruction pointer set back.\<close>

record 'f Env =
  eConf :: DConf
  eVirt :: Virtuals
  eKind :: GraphKind
  isStaticallyAllocated :: "SAddr \<Rightarrow> bool"
  isLoadFrame :: "'f \<Rightarrow> bool"
  executeAtomicRMW :: "SVal \<Rightarrow> SVal \<Rightarrow> 32 word \<Rightarrow> BinOp \<Rightarrow> SVal"
  entryFrame :: "nat \<Rightarrow> SVal \<Rightarrow> 'f"
  stepBack :: "'f \<Rightarrow> 'f"

definition rc11_virtuals :: "Conf \<Rightarrow> Virtuals" where
  "rc11_virtuals c = \<lparr>vUpdateLabelViews = updateLabelViews c, vChangeRf = changeRf_rc11 c, vUpdateStart = updateStart_rc11,
     vUpdateJoin = updateJoin_rc11, vFindRace = findDataRaceForMemAccess c\<rparr>"

section \<open>Threads\<close>

record 'f Thread =
  thrId :: int
  thrParent :: int
  thrFun :: nat
  thrArg :: SVal
  ecStack :: "'f list"
  initSF :: 'f
  globalInstructions :: nat
  globalInstSnap :: nat
  thrBlocked :: BlockageType

definition thr_block :: "BlockageType \<Rightarrow> 'f Thread \<Rightarrow> 'f Thread" where
  "thr_block b t = t\<lparr>thrBlocked := b\<rparr>"

definition thr_unblock :: "'f Thread \<Rightarrow> 'f Thread" where
  "thr_unblock t = t\<lparr>thrBlocked := NotBlocked\<rparr>"

definition thr_isBlocked :: "'f Thread \<Rightarrow> bool" where
  "thr_isBlocked t \<longleftrightarrow> thrBlocked t \<noteq> NotBlocked"

section \<open>The driver\<close>

datatype Status = VS_OK | VS_Safety | VS_Recovery | VS_Liveness | VS_RaceNotAtomic | VS_RaceFreeMalloc | VS_FreeNonMalloc
  | VS_DoubleFree | VS_Allocation | VS_InvalidAccessBegin | VS_UninitializedMem | VS_AccessNonMalloc | VS_AccessFreed
  | VS_InvalidAccessEnd | VS_InvalidJoin | VS_InvalidUnlock | VS_InvalidBInit | VS_InvalidRecoveryCall | VS_InvalidTruncate
  | VS_Annotation | VS_MixedSize | VS_SystemError | VS_ModelViolation

text \<open>\<open>isInvalidAccessError()\<close> compares positions in the enum.\<close>

definition isInvalidAccessError :: "Status \<Rightarrow> bool" where
  "isInvalidAccessError s \<longleftrightarrow> s \<in> {VS_InvalidAccessBegin, VS_UninitializedMem, VS_AccessNonMalloc, VS_AccessFreed, VS_InvalidAccessEnd}"

record Result =
  rsStatus :: Status
  rsExplored :: "32 word"
  rsBlocked :: "32 word"
  rsMoot :: "32 word"

definition result_init :: Result where
  "result_init = \<lparr>rsStatus = VS_OK, rsExplored = 0, rsBlocked = 0, rsMoot = 0\<rparr>"

definition result_add :: "Result \<Rightarrow> Result \<Rightarrow> Result" where
  "result_add r q = \<lparr>rsStatus = (if rsStatus q \<noteq> VS_OK then rsStatus q else rsStatus r),
     rsExplored = rsExplored r + rsExplored q, rsBlocked = rsBlocked r + rsBlocked q, rsMoot = rsMoot r + rsMoot q\<rparr>"

type_synonym Priv = "MO \<times> LockLists"

text \<open>The work queue and the revisit sets are ordered maps, ascending in the stamp.\<close>

record 'f Driver =
  dCalcs :: "Priv Calculator list"
  dCons :: "Priv Cons"
  dThreads :: "'f Thread list"
  dCur :: int
  dReplay :: bool
  dRecovery :: bool
  dWork :: "(nat \<times> WorkSet) list"
  dRevset :: "(nat \<times> RevisitSet) list"
  dMoot :: bool
  dResched :: Event
  dPrios :: "Event list"
  dHalt :: bool
  dResult :: Result

definition dG :: "'f Driver \<Rightarrow> ExecutionGraph" where "dG d = cGraph (dCons d)"
definition dMO :: "'f Driver \<Rightarrow> MO" where "dMO d = fst (cPriv (dCons d))"

definition put_graph :: "ExecutionGraph \<Rightarrow> 'f Driver \<Rightarrow> 'f Driver" where
  "put_graph g d = d\<lparr>dCons := (dCons d)\<lparr>cGraph := g\<rparr>\<rparr>"

definition put_mo :: "MO \<Rightarrow> 'f Driver \<Rightarrow> 'f Driver" where
  "put_mo m d = d\<lparr>dCons := (dCons d)\<lparr>cPriv := (m, snd (cPriv (dCons d)))\<rparr>\<rparr>"

definition getThrById :: "'f Driver \<Rightarrow> int \<Rightarrow> 'f Thread res" where
  "getThrById d i = vec_get_int (dThreads d) i"

definition getCurThr :: "'f Driver \<Rightarrow> 'f Thread res" where
  "getCurThr d = getThrById d (dCur d)"

definition upd_thread :: "int \<Rightarrow> ('f Thread \<Rightarrow> 'f Thread) \<Rightarrow> 'f Driver \<Rightarrow> 'f Driver res" where
  "upd_thread i f d = rbind (getThrById d i) (\<lambda>t. Ok (d\<lparr>dThreads := (dThreads d)[nat i := f t]\<rparr>))"

definition scheduleThread :: "int \<Rightarrow> 'f Driver \<Rightarrow> 'f Driver" where
  "scheduleThread t d = d\<lparr>dCur := t\<rparr>"

definition block_all :: "BlockageType \<Rightarrow> 'f Driver \<Rightarrow> 'f Driver" where
  "block_all b d = d\<lparr>dThreads := map (thr_block b) (dThreads d)\<rparr>"

definition currPos :: "'f Driver \<Rightarrow> Event res" where
  "currPos d = rbind (getCurThr d) (\<lambda>t. Ok (Event (thrId t) (int (globalInstructions t))))"

definition incPos :: "'f Driver \<Rightarrow> (Event \<times> 'f Driver) res" where
  "incPos d = rbind (getCurThr d) (\<lambda>t.
     rbind (upd_thread (dCur d) (\<lambda>t. t\<lparr>globalInstructions := globalInstructions t + 1\<rparr>) d) (\<lambda>d1.
       Ok (Event (thrId t) (int (globalInstructions t + 1)), d1)))"

definition moot :: "'f Driver \<Rightarrow> 'f Driver" where "moot d = d\<lparr>dMoot := True\<rparr>"
definition unmoot :: "'f Driver \<Rightarrow> 'f Driver" where "unmoot d = d\<lparr>dMoot := False\<rparr>"

definition setRescheduledRead :: "Event \<Rightarrow> 'f Driver \<Rightarrow> 'f Driver" where
  "setRescheduledRead e d = d\<lparr>dResched := e\<rparr>"

definition isRescheduledRead :: "'f Driver \<Rightarrow> Event \<Rightarrow> bool" where
  "isRescheduledRead d e \<longleftrightarrow> dResched d = e"

text \<open>The thread pool is another driver's concern: halting is only the driver's own flag.\<close>

definition halt :: "Status \<Rightarrow> 'f Driver \<Rightarrow> 'f Driver" where
  "halt s d = (block_all BT_Error d)\<lparr>dHalt := True, dResult := (dResult d)\<lparr>rsStatus := s\<rparr>, dWork := []\<rparr>"

definition isExecutionDrivenByGraph :: "'f Driver \<Rightarrow> (bool \<times> 'f Driver) res" where
  "isExecutionDrivenByGraph d =
     rbind (incPos d) (\<lambda>(p, d1). rbind (getThreadSize (dG d1) (ethread p)) (\<lambda>n.
       if eindex p < n then rbind (getEventLabel (dG d1) p) (\<lambda>l. Ok (lkind l \<noteq> EL_Empty, d1)) else Ok (False, d1)))"

definition getCurrentLabel :: "'f Driver \<Rightarrow> EventLabel res" where
  "getCurrentLabel d = rbind (currPos d) (\<lambda>p. rbind (BUG_ON (\<not> graph_contains (dG d) p)) (\<lambda>_. getEventLabel (dG d) p))"

section \<open>Consistency\<close>

definition getCheckConsType :: "DConf \<Rightarrow> ProgramPoint \<Rightarrow> CheckConsType" where
  "getCheckConsType c p =
     (if pp_num p \<le> pp_num (checkConsPoint c) then (if p = PP_error then CT_full else checkConsType c) else CT_fast)"

definition shouldCheckPers :: "DConf \<Rightarrow> ProgramPoint \<Rightarrow> bool" where
  "shouldCheckPers c p \<longleftrightarrow> pp_num p \<le> pp_num (checkPersPoint c)"

text \<open>A check that does not end would be \<open>Undef\<close>.\<close>

definition ended :: "'a res option \<Rightarrow> 'a res" where
  "ended r = (case r of None \<Rightarrow> Undef | Some x \<Rightarrow> x)"

definition isConsistent_dr :: "'f Env \<Rightarrow> ProgramPoint \<Rightarrow> 'f Driver \<Rightarrow> (bool \<times> 'f Driver) res" where
  "isConsistent_dr e p d =
     rbind (ended (isConsistent (dCalcs d) False (getCheckConsType (eConf e) p) (dCons d))) (\<lambda>(b, s). Ok (b, d\<lparr>dCons := s\<rparr>))"

definition isHbBefore_dr :: "'f Env \<Rightarrow> Event \<Rightarrow> Event \<Rightarrow> ProgramPoint \<Rightarrow> 'f Driver \<Rightarrow> (bool \<times> 'f Driver) res" where
  "isHbBefore_dr e a b p d =
     rbind (ended (isHbBefore_cons (dCalcs d) False a b (getCheckConsType (eConf e) p) (dCons d))) (\<lambda>(x, s). Ok (x, d\<lparr>dCons := s\<rparr>))"

definition isCoMaximal_dr :: "'f Env \<Rightarrow> SAddr \<Rightarrow> Event \<Rightarrow> bool \<Rightarrow> ProgramPoint \<Rightarrow> 'f Driver \<Rightarrow> (bool \<times> 'f Driver) res" where
  "isCoMaximal_dr e a w checkCache p d =
     rbind (ended (isCoMaximal (dCalcs d) fst (\<lambda>m q. (m, snd q)) a w checkCache (getCheckConsType (eConf e) p) (dCons d)))
       (\<lambda>(x, s). Ok (x, d\<lparr>dCons := s\<rparr>))"

text \<open>Only a graph with a persistency checker can be asked about its recovery. The relations the check fills in
  are those of the next fixpoint, which starts from empty ones.\<close>

definition isRecoveryValid_dr :: "'f Env \<Rightarrow> ProgramPoint \<Rightarrow> 'f Driver \<Rightarrow> bool res" where
  "isRecoveryValid_dr e p d =
     (if \<not> dRecovery d then Ok True
      else if \<not> shouldCheckPers (eConf e) p then Ok True
      else rbind (BUG_ON (\<not> persevere (eConf e))) (\<lambda>_. isRecAcyclic (dG d) (dMO d) (persBlockSize (eConf e))))"

section \<open>Work sets\<close>

fun smap_get :: "nat \<Rightarrow> (nat \<times> 'v list) list \<Rightarrow> 'v list" where
  "smap_get k [] = []"
| "smap_get k (p # ps) = (if fst p = k then snd p else smap_get k ps)"

fun smap_put :: "nat \<Rightarrow> 'v \<Rightarrow> (nat \<times> 'v) list \<Rightarrow> (nat \<times> 'v) list" where
  "smap_put k v [] = [(k, v)]"
| "smap_put k v (p # ps) = (if k < fst p then (k, v) # p # ps else if k = fst p then (k, v) # ps else p # smap_put k v ps)"

definition addToWorklist :: "Revisit \<Rightarrow> 'f Driver \<Rightarrow> 'f Driver res" where
  "addToWorklist item d = rbind (getEventLabel (dG d) (rv_pos item)) (\<lambda>l.
     Ok (d\<lparr>dWork := smap_put (lstamp l) (workset_add item (smap_get (lstamp l) (dWork d))) (dWork d)\<rparr>))"

text \<open>The queue is searched from the largest stamp.\<close>

fun next_item :: "(nat \<times> WorkSet) list \<Rightarrow> (Revisit \<times> (nat \<times> WorkSet)) option" where
  "next_item [] = None"
| "next_item ((k, w) # ps) = (if w = [] then next_item ps else Some (last w, (k, butlast w)))"

definition getNextItem :: "'f Driver \<Rightarrow> Revisit option \<times> 'f Driver" where
  "getNextItem d = (case next_item (rev (dWork d)) of None \<Rightarrow> (None, d)
     | Some (r, (k, w)) \<Rightarrow> (Some r, d\<lparr>dWork := smap_put k w (dWork d)\<rparr>))"

definition restrictWorklist :: "EventLabel \<Rightarrow> 'f Driver \<Rightarrow> 'f Driver" where
  "restrictWorklist l d = d\<lparr>dWork := filter (\<lambda>(k, w). \<not> (k > lstamp l \<and> w = [])) (dWork d)\<rparr>"

definition revset_at :: "nat \<Rightarrow> (nat \<times> RevisitSet) list \<Rightarrow> RevisitSet" where
  "revset_at k ps = (case map_of ps k of None \<Rightarrow> Map.empty | Some r \<Rightarrow> r)"

definition revisitSetContains :: "(Event list \<Rightarrow> nat) \<Rightarrow> EventLabel \<Rightarrow> RevisitItem \<Rightarrow> 'f Driver \<Rightarrow> bool \<times> 'f Driver" where
  "revisitSetContains hash r it d =
     (let rs = revset_at (lstamp r) (dRevset d)
      in (revset_contains hash it rs, d\<lparr>dRevset := smap_put (lstamp r) rs (dRevset d)\<rparr>))"

definition addToRevisitSet :: "(Event list \<Rightarrow> nat) \<Rightarrow> EventLabel \<Rightarrow> RevisitItem \<Rightarrow> 'f Driver \<Rightarrow> 'f Driver" where
  "addToRevisitSet hash r it d =
     d\<lparr>dRevset := smap_put (lstamp r) (revset_add hash it (revset_at (lstamp r) (dRevset d))) (dRevset d)\<rparr>"

definition restrictRevisitSet :: "EventLabel \<Rightarrow> 'f Driver \<Rightarrow> 'f Driver" where
  "restrictRevisitSet l d = d\<lparr>dRevset := filter (\<lambda>(k, r). \<not> k > lstamp l) (dRevset d)\<rparr>"

text \<open>The calculators and the graph are cut, the stamp is reset. The interpreter also gets the file descriptors of the
  removed labels back; its table is not part of the driver's state, and this share is \<open>notifyEERemoved\<close> in \<open>GenMC_EE\<close>.\<close>

definition cut_calcs :: "VectorClock \<Rightarrow> Priv Calculator list \<Rightarrow> Priv Cons \<Rightarrow> Priv Cons res" where
  "cut_calcs pv cs s = rfold (\<lambda>c. calcRemoveAfter c pv) cs s"

definition restrictGraph :: "'f Env \<Rightarrow> EventLabel \<Rightarrow> 'f Driver \<Rightarrow> 'f Driver res" where
  "restrictGraph e l d =
     rbind (if tracksDeps (eKind e) then rbind (getDepViewFromStamp (dG d) (lstamp l)) (\<lambda>v. Ok (VC_DepView v))
            else Ok (VC_View (getViewFromStamp (dG d) (lstamp l)))) (\<lambda>pv.
     rbind (cut_calcs pv (dCalcs d) ((dCons d)\<lparr>cGraph := setFPStatus FS_Stale (dG d)\<rparr>)) (\<lambda>s.
     rbind (if tracksDeps (eKind e) then cutToStamp_dep (cGraph s) (lstamp l) else cutToStamp (cGraph s) (lstamp l)) (\<lambda>g.
       Ok (put_graph (resetStamp g (lstamp l + 1)) (d\<lparr>dCons := s\<rparr>)))))"

section \<open>Scheduling\<close>

definition isSchedulable :: "'f Driver \<Rightarrow> int \<Rightarrow> bool res" where
  "isSchedulable d i = rbind (getThrById d i) (\<lambda>t. rbind (getLastThreadLabel (dG d) i) (\<lambda>l.
     Ok (ecStack t \<noteq> [] \<and> \<not> thr_isBlocked t \<and> \<not> denotesThreadEnd l)))"

fun first_schedulable :: "'f Driver \<Rightarrow> int list \<Rightarrow> int option res" where
  "first_schedulable d [] = Ok None"
| "first_schedulable d (i # is) = rbind (isSchedulable d i) (\<lambda>b. if b then Ok (Some i) else first_schedulable d is)"

definition schedule_opt :: "'f Driver \<Rightarrow> int option \<Rightarrow> bool \<times> 'f Driver" where
  "schedule_opt d r = (case r of None \<Rightarrow> (False, d) | Some i \<Rightarrow> (True, scheduleThread i d))"

definition schedulePrioritized :: "'f Driver \<Rightarrow> (bool \<times> 'f Driver) res" where
  "schedulePrioritized d = rbind (first_schedulable d (map ethread (dPrios d))) (\<lambda>r. Ok (schedule_opt d r))"

definition scheduleNextLTR :: "'f Driver \<Rightarrow> (bool \<times> 'f Driver) res" where
  "scheduleNextLTR d = rbind (first_schedulable d [0..int (numThreads (dG d)) - 1]) (\<lambda>r. Ok (schedule_opt d r))"

definition isNextThreadInstLoad :: "'f Env \<Rightarrow> 'f Driver \<Rightarrow> int \<Rightarrow> bool res" where
  "isNextThreadInstLoad e d i = rbind (getThrById d i) (\<lambda>t. if ecStack t = [] then Undef else Ok (isLoadFrame e (last (ecStack t))))"

fun wf_loop :: "'f Env \<Rightarrow> 'f Driver \<Rightarrow> int list \<Rightarrow> int option \<Rightarrow> int option res" where
  "wf_loop e d [] fallback = Ok fallback"
| "wf_loop e d (i # is) fallback = rbind (isSchedulable d i) (\<lambda>b.
     if \<not> b then wf_loop e d is fallback
     else rbind (isNextThreadInstLoad e d i) (\<lambda>l.
       if \<not> l then Ok (Some i) else wf_loop e d is (if fallback = None then Some i else fallback)))"

definition scheduleNextWF :: "'f Env \<Rightarrow> 'f Driver \<Rightarrow> (bool \<times> 'f Driver) res" where
  "scheduleNextWF e d = rbind (wf_loop e d [0..int (numThreads (dG d)) - 1] None) (\<lambda>r. Ok (schedule_opt d r))"

text \<open>The number drawn is at most the number of threads, which is not a thread.\<close>

fun random_loop :: "'f Env \<Rightarrow> 'f Driver \<Rightarrow> int list \<Rightarrow> int option res" where
  "random_loop e d [] = Ok None"
| "random_loop e d (i # is) = rbind (isSchedulable d i) (\<lambda>b.
     if \<not> b then random_loop e d is
     else if \<not> symmetryReduction (eConf e) then Ok (Some i)
     else rbind (getEventLabel (dG d) (Event i 0)) (\<lambda>l.
       if lkind l \<noteq> EL_ThreadStart then Undef
       else let symm = lsymmetricTid l in
         if symm = - 1 then Ok (Some i)
         else rbind (isSchedulable d symm) (\<lambda>s. if \<not> s then Ok (Some i)
           else rbind (getThreadSize (dG d) symm) (\<lambda>m. rbind (getThreadSize (dG d) i) (\<lambda>n.
             Ok (Some (if m \<le> n then symm else i)))))))"

definition scheduleNextRandom :: "'f Env \<Rightarrow> nat \<Rightarrow> 'f Driver \<Rightarrow> (bool \<times> 'f Driver) res" where
  "scheduleNextRandom e random d =
     (let n = numThreads (dG d) in
      rbind (random_loop e d (map (\<lambda>j. int ((j + random) mod n)) [0..<n])) (\<lambda>r. Ok (schedule_opt d r)))"

definition scheduleNormal :: "'f Env \<Rightarrow> nat \<Rightarrow> 'f Driver \<Rightarrow> (bool \<times> 'f Driver) res" where
  "scheduleNormal e random d =
     (case schedulePolicy (eConf e) of Sched_ltr \<Rightarrow> scheduleNextLTR d | Sched_wf \<Rightarrow> scheduleNextWF e d
      | Sched_random \<Rightarrow> scheduleNextRandom e random d)"

text \<open>\<open>resetThread()\<close> of the interpreter clears the stack and the counter of the thread; its dependencies and
  its random numbers are not modelled.\<close>

definition resetThread :: "int \<Rightarrow> 'f Driver \<Rightarrow> 'f Driver res" where
  "resetThread i = upd_thread i (\<lambda>t. t\<lparr>ecStack := [], thrBlocked := NotBlocked, globalInstructions := 0\<rparr>)"

definition reset_all :: "'f Driver \<Rightarrow> 'f Driver res" where
  "reset_all d = rfold (\<lambda>t d. resetThread (thrId t) d) (dThreads d) (d\<lparr>dCur := 0\<rparr>)"

definition createAddNewThread :: "nat \<Rightarrow> SVal \<Rightarrow> int \<Rightarrow> int \<Rightarrow> 'f \<Rightarrow> 'f Driver \<Rightarrow> 'f Driver res" where
  "createAddNewThread F arg tid pid SF d =
     (let t = \<lparr>thrId = tid, thrParent = pid, thrFun = F, thrArg = arg, ecStack = [SF], initSF = SF,
                globalInstructions = 0, globalInstSnap = 0, thrBlocked = NotBlocked\<rparr>
      in if tid = int (length (dThreads d)) then Ok (d\<lparr>dThreads := dThreads d @ [t]\<rparr>)
         else rbind (getThrById d tid) (\<lambda>q. rbind (BUG_ON (thrFun q \<noteq> F \<or> thrId q \<noteq> tid)) (\<lambda>_.
           upd_thread tid (\<lambda>_. t) d)))"

fun resched_loop :: "'f Driver \<Rightarrow> int list \<Rightarrow> (bool \<times> 'f Driver) res" where
  "resched_loop d [] = Ok (False, d)"
| "resched_loop d (i # is) = rbind (getLastThreadLabel (dG d) i) (\<lambda>b.
     if lkind b \<noteq> EL_Block \<or> lblock b \<noteq> ReadOptBlock then resched_loop d is
     else rbind (getPreviousLabel (dG d) (lpos b)) (\<lambda>p. case p of None \<Rightarrow> Undef
       | Some r \<Rightarrow> rbind (BUG_ON (\<not> isa_Read (lkind r))) (\<lambda>_.
           let d0 = setRescheduledRead (lpos r) d in
           rbind (remove_ev (dG d0) (lpos b)) (\<lambda>g1. rbind (remove_ev g1 (lpos r)) (\<lambda>g2.
           rbind (resetThread i (put_graph g2 d0)) (\<lambda>d1.
           rbind (upd_thread i (\<lambda>t. t\<lparr>ecStack := [initSF t]\<rparr>) d1) (\<lambda>d2. Ok (True, scheduleThread i d2))))))))"

definition rescheduleReads :: "'f Driver \<Rightarrow> (bool \<times> 'f Driver) res" where
  "rescheduleReads d = resched_loop d [0..int (numThreads (dG d)) - 1]"

definition scheduleNext :: "'f Env \<Rightarrow> nat \<Rightarrow> 'f Driver \<Rightarrow> (bool \<times> 'f Driver) res" where
  "scheduleNext e random d =
     (if dMoot d \<or> dHalt d then Ok (False, d)
      else rbind (schedulePrioritized d) (\<lambda>(b, d1). if b then Ok (True, d1)
      else rbind (scheduleNormal e random d1) (\<lambda>(b, d2). if b then Ok (True, d2) else rescheduleReads d2)))"

section \<open>Prioritization\<close>

definition unmatched_lapor_threads :: "'f Driver \<Rightarrow> int list res" where
  "unmatched_lapor_threads d = rfilter (\<lambda>i. rbind (getLastThreadEvent (dG d) i) (\<lambda>last.
     rbind (getLastThreadUnmatchedLockLAPOR (dG d) last) (\<lambda>l. Ok (\<not> isInitializer l)))) [0..int (numThreads (dG d)) - 1]"

definition resetThreadPrioritization :: "'f Env \<Rightarrow> 'f Driver \<Rightarrow> 'f Driver res" where
  "resetThreadPrioritization e d =
     (if \<not> LAPOR (eConf e) then Ok (d\<lparr>dPrios := []\<rparr>)
      else rbind (unmatched_lapor_threads d) (\<lambda>is. rbind (rfold (\<lambda>i. upd_thread i (thr_block LockNotRel)) is d) (\<lambda>d1.
        Ok (d1\<lparr>dPrios := []\<rparr>))))"

definition isLockWellFormedLAPOR :: "'f Env \<Rightarrow> 'f Driver \<Rightarrow> bool res" where
  "isLockWellFormedLAPOR e d =
     (if \<not> LAPOR (eConf e) then Ok True
      else rbind (unmatched_lapor_threads d) (\<lambda>is. Ok (is = [] \<or> (\<exists>t \<in> set (dThreads d). thrBlocked t = BT_Cons))))"

definition prioritizeThreads :: "'f Env \<Rightarrow> 'f Driver \<Rightarrow> 'f Driver res" where
  "prioritizeThreads e d =
     (if \<not> LAPOR (eConf e) then Ok d
      else rbind (getPerLocRelation (dCons d) R_lb) (\<lambda>lb. rbind (getLbOrdering (dG d) lb) (\<lambda>prios.
        rbind (rfilter (\<lambda>p. rbind (getLastThreadLabel (dG d) (ethread p)) (\<lambda>l. Ok (lkind l \<noteq> EL_ThreadFinish))) prios) (\<lambda>ps.
          Ok (d\<lparr>dPrios := ps\<rparr>)))))"

fun deprio_index :: "ExecutionGraph \<Rightarrow> EventLabel \<Rightarrow> Event list \<Rightarrow> Event list res" where
  "deprio_index g u [] = Ok []"
| "deprio_index g u (p # ps) = rbind (getEventLabel g p) (\<lambda>l. rbind (BUG_ON (lkind l \<noteq> EL_LockLAPOR)) (\<lambda>_.
     if ethread (lpos l) = ethread (lpos u) \<and> llockAddr l = llockAddr u then Ok ps
     else rbind (deprio_index g u ps) (\<lambda>qs. Ok (p # qs))))"

definition deprioritizeThread :: "'f Env \<Rightarrow> EventLabel \<Rightarrow> 'f Driver \<Rightarrow> 'f Driver res" where
  "deprioritizeThread e u d =
     (if \<not> LAPOR (eConf e) then Ok d else rbind (deprio_index (dG d) u (dPrios d)) (\<lambda>ps. Ok (d\<lparr>dPrios := ps\<rparr>)))"

definition resetExplorationOptions :: "'f Env \<Rightarrow> 'f Driver \<Rightarrow> 'f Driver res" where
  "resetExplorationOptions e d = resetThreadPrioritization e (setRescheduledRead getInitializer (unmoot d))"

section \<open>The ends of an execution\<close>

definition begin_thread :: "int \<Rightarrow> 'f Driver \<Rightarrow> 'f Driver res" where
  "begin_thread i d =
     rbind (isThreadEmpty (dG d) i) (\<lambda>b. rbind (BUG_ON b) (\<lambda>_.
     rbind (getEventLabel (dG d) (Event i 0)) (\<lambda>l. rbind (BUG_ON (lkind l \<noteq> EL_ThreadStart)) (\<lambda>_.
     rbind (if graph_contains (dG d) (lparentCreate l)
            then rbind (getEventLabel (dG d) (lparentCreate l)) (\<lambda>c. Ok (lkind c = EL_ThreadCreate)) else Ok False) (\<lambda>parent.
       if \<not> parent then Ok d
       else rbind (getLastThreadLabel (dG d) i) (\<lambda>la.
         if lkind la = EL_ThreadFinish \<or> i = recoveryTID (dG d) then Ok d
         else rbind (getThrById d i) (\<lambda>t. rbind (BUG_ON (ecStack t \<noteq> [] \<or> thr_isBlocked t)) (\<lambda>_.
           upd_thread i (\<lambda>t. t\<lparr>ecStack := ecStack t @ [initSF t]\<rparr>) d))))))))"

definition handleExecutionBeginning :: "'f Env \<Rightarrow> 'f Driver \<Rightarrow> 'f Driver res" where
  "handleExecutionBeginning e d = rbind (rfold begin_thread [1..int (numThreads (dG d)) - 1] d) (prioritizeThreads e)"

definition isExecutionBlocked :: "'f Driver \<Rightarrow> bool res" where
  "isExecutionBlocked d = rany (\<lambda>t. rbind (getLastThreadLabel (dG d) (thrId t)) (\<lambda>l.
     Ok (lkind l = EL_Block \<or> thr_isBlocked t))) (dThreads d)"

end
