(* ===== verification/GenMC_Races.thy ===== *)
theory GenMC_Races
  imports GenMC_Driver
begin

text \<open>
  Errors of the checked program (\<open>src/src/GenMCDriver.cpp\<close>): reporting, races on dynamic memory, hazard
  pointers, invalid uses of locks and barriers, and liveness. A check gives the errors it would report, the
  status and the conflicting event; \<open>visitError\<close> decides whether the execution makes them errors of the program.
\<close>

section \<open>Reporting\<close>

type_synonym Report = "Status \<times> Event"

text \<open>The message is printed from a replay of the execution, after which the interpreter's state is restored;
  computing the view of the replay takes a stamp.\<close>

definition visitError :: "'f Env \<Rightarrow> Event \<Rightarrow> Status \<Rightarrow> 'f Driver \<Rightarrow> 'f Driver res" where
  "visitError e pos s d0 =
     (let d = (if s = VS_ModelViolation then halt s d0 else d0) in
      if dHalt d \<or> dReplay d then Ok d
      else rbind (isConsistent_dr e PP_error d) (\<lambda>(c, d1).
        if \<not> c then upd_thread (dCur d1) (thr_block BT_Error) d1
        else rbind (if dRecovery d1 then isRecoveryValid_dr e PP_error d1 else Ok True) (\<lambda>r.
          if \<not> r then upd_thread (dCur d1) (thr_block BT_Error) d1
          else rbind (getEventLabel (dG d1) pos) (\<lambda>l.
          rbind (if isInvalidAccessError s \<and> isa_Read (lkind l) then changeRf (dG d1) (lpos l) getBottom else Ok (dG d1)) (\<lambda>g.
            Ok (halt s (put_graph (snd (nextStamp g)) d1))))))) "

section \<open>Races on dynamic memory\<close>

definition isHazptrProtected :: "ExecutionGraph \<Rightarrow> EventLabel \<Rightarrow> EventLabel \<Rightarrow> bool res" where
  "isHazptrProtected g aLab mLab =
     rbind (BUG_ON (\<not> isDynamic (laddr mLab))) (\<lambda>_.
     rbind (getPreviousLabelST g mLab (\<lambda>l. Ok (lkind l = EL_HpProtect \<and> malloc_contains aLab (lprotAddr l)))) (\<lambda>p.
       case p of None \<Rightarrow> Ok False
       | Some pLab \<Rightarrow> rbind (scan g (ethread (lpos mLab)) [eindex (lpos pLab) + 1 .. eindex (lpos mLab) - 1]
             (\<lambda>l. Ok (lkind l = EL_HpProtect \<and> lhpAddr l = lhpAddr pLab))) (\<lambda>q. Ok (q = None))))"

text \<open>What the loop over the labels of the graph has seen: the allocation, the last store to the address that
  happens before, and the last retirement of the memory.\<close>

record MemState =
  msAlloc :: "EventLabel option"
  msInit :: "EventLabel option"
  msHaz :: "EventLabel option"

definition mem_init :: MemState where
  "mem_init = \<lparr>msAlloc = None, msInit = None, msHaz = None\<rparr>"

definition mem_race_step :: "EventLabel \<Rightarrow> View \<Rightarrow> EventLabel \<Rightarrow> MemState \<Rightarrow> (Report + MemState) res" where
  "mem_race_step mLab before w st =
     (if isa_Free (lkind w) \<and> free_contains w (laddr mLab) \<and> lkind w \<noteq> EL_HpRetire then Ok (Inl (VS_AccessFreed, lpos w))
      else let st1 = (if isa_Free (lkind w) \<and> free_contains w (laddr mLab) then st\<lparr>msHaz := Some w\<rparr> else st) in
      rbind (if lkind w = EL_Malloc \<and> malloc_contains w (laddr mLab)
             then rbind (view_contains before (lpos w)) (\<lambda>b.
               Ok (if \<not> b then Inl (VS_AccessNonMalloc, lpos w) else Inr (st1\<lparr>msAlloc := Some w\<rparr>)))
             else Ok (Inr st1)) (\<lambda>r. case r of Inl x \<Rightarrow> Ok (Inl x)
        | Inr st2 \<Rightarrow> if isa_Write (lkind w) \<and> laddr w = laddr mLab
            then rbind (view_contains before (lpos w)) (\<lambda>b. Ok (Inr (if b then st2\<lparr>msInit := Some w\<rparr> else st2)))
            else Ok (Inr st2)))"

fun mem_race_loop :: "EventLabel \<Rightarrow> View \<Rightarrow> EventLabel list \<Rightarrow> MemState \<Rightarrow> (Report + MemState) res" where
  "mem_race_loop mLab before [] st = Ok (Inr st)"
| "mem_race_loop mLab before (w # ws) st = rbind (mem_race_step mLab before w st) (\<lambda>r.
     case r of Inl x \<Rightarrow> Ok (Inl x) | Inr st1 \<Rightarrow> mem_race_loop mLab before ws st1)"

definition checkForMemoryRaces :: "ExecutionGraph \<Rightarrow> EventLabel \<Rightarrow> Report option res" where
  "checkForMemoryRaces g mLab =
     (if \<not> isDynamic (laddr mLab) then Ok None
      else rbind (getEventLabel g (prev (lpos mLab))) (\<lambda>p.
      rbind (mem_race_loop mLab (hbView p) (labels g) mem_init) (\<lambda>r.
        case r of Inl x \<Rightarrow> Ok (Some x)
        | Inr st \<Rightarrow> (case msAlloc st of None \<Rightarrow> Ok (Some (VS_AccessNonMalloc, getInitializer))
           | Some a \<Rightarrow> if isa_Read (lkind mLab) \<and> msInit st = None then Ok (Some (VS_UninitializedMem, getInitializer))
               else case msHaz st of None \<Rightarrow> Ok None
               | Some h \<Rightarrow> rbind (isHazptrProtected g a mLab) (\<lambda>b. Ok (if b then None else Some (VS_AccessFreed, lpos h)))))))"

definition free_race_step :: "EventLabel \<Rightarrow> View \<Rightarrow> EventLabel \<Rightarrow> EventLabel option \<times> EventLabel option \<Rightarrow>
    (Report + EventLabel option \<times> EventLabel option) res" where
  "free_race_step fLab before w = (\<lambda>(m, haz).
     rbind (if lkind w = EL_Malloc \<and> lallocAddr w = lfreedAddr fLab
            then rbind (view_contains before (lpos w)) (\<lambda>b. Ok (if b then Some w else m)) else Ok m) (\<lambda>m1.
       if isa_Free (lkind w) \<and> lfreedAddr w = lfreedAddr fLab \<and> lpos w \<noteq> lpos fLab then Ok (Inl (VS_DoubleFree, lpos w))
       else rbind (if isa_MemAccess (lkind w) \<and> laddr w = lfreedAddr fLab
              then rbind (view_contains before (lpos w)) (\<lambda>b. Ok (\<not> b)) else Ok False) (\<lambda>conc.
         Ok (if \<not> conc then Inr (m1, haz)
             else if lkind fLab \<noteq> EL_HpRetire then Inl (VS_AccessFreed, lpos w) else Inr (m1, Some w)))))"

fun free_race_loop :: "EventLabel \<Rightarrow> View \<Rightarrow> EventLabel list \<Rightarrow> EventLabel option \<times> EventLabel option \<Rightarrow>
    (Report + EventLabel option \<times> EventLabel option) res" where
  "free_race_loop fLab before [] st = Ok (Inr st)"
| "free_race_loop fLab before (w # ws) st = rbind (free_race_step fLab before w st) (\<lambda>r.
     case r of Inl x \<Rightarrow> Ok (Inl x) | Inr st1 \<Rightarrow> free_race_loop fLab before ws st1)"

definition checkForFreeRaces :: "ExecutionGraph \<Rightarrow> EventLabel \<Rightarrow> Report option res" where
  "checkForFreeRaces g fLab =
     (if \<not> isDynamic (lfreedAddr fLab) then Ok None
      else rbind (getEventLabel g (lpos fLab)) (\<lambda>p.
      rbind (free_race_loop fLab (hbView p) (labels g) (None, None)) (\<lambda>r.
        case r of Inl x \<Rightarrow> Ok (Some x)
        | Inr (m, haz) \<Rightarrow> (case m of None \<Rightarrow> Ok (Some (VS_FreeNonMalloc, getInitializer))
           | Some a \<Rightarrow> (case haz of None \<Rightarrow> Ok None
               | Some h \<Rightarrow> rbind (isHazptrProtected g a h) (\<lambda>b. Ok (if b then None else Some (VS_AccessFreed, lpos h))))))))"

text \<open>The errors of a check are reported at the label that is checked.\<close>

definition report :: "'f Env \<Rightarrow> Event \<Rightarrow> Report option \<Rightarrow> 'f Driver \<Rightarrow> 'f Driver res" where
  "report e pos r d = (case r of None \<Rightarrow> Ok d | Some (s, conf) \<Rightarrow> visitError e pos s d)"

definition checkForDataRaces :: "'f Env \<Rightarrow> EventLabel \<Rightarrow> 'f Driver \<Rightarrow> 'f Driver res" where
  "checkForDataRaces e l d =
     (if disableRaceDetection (eConf e) then Ok d
      else rbind (vFindRace (eVirt e) (mo_list (dMO d)) (dG d) l) (\<lambda>racy.
        if \<not> isInitializer racy then visitError e (lpos l) VS_RaceNotAtomic d else Ok d))"

definition isAccessValid :: "'f Env \<Rightarrow> EventLabel \<Rightarrow> 'f Driver \<Rightarrow> (bool \<times> 'f Driver) res" where
  "isAccessValid e l d =
     (if \<not> isDynamic (laddr l) then Ok (isStaticallyAllocated e (laddr l), d)
      else if isNull (laddr l) then Ok (False, d)
      else rbind (checkForMemoryRaces (dG d) l) (\<lambda>r. rbind (report e (lpos l) r d) (\<lambda>d1. Ok (r = None, d1))))"

section \<open>Locks and barriers\<close>

definition value_in :: "'f Env \<Rightarrow> 'f Driver \<Rightarrow> EventLabel \<Rightarrow> Event \<Rightarrow> SVal res" where
  "value_in e d l w = getWriteValue (initVal (eConf e)) (dG d) w (laddr l) (laccess l)"

definition checkLockValidity :: "'f Env \<Rightarrow> EventLabel \<Rightarrow> Event list \<Rightarrow> 'f Driver \<Rightarrow> Report option res" where
  "checkLockValidity e rLab rfs d =
     (if lkind rLab \<noteq> EL_LockCasRead then Ok None
      else rbind (rfind_if (\<lambda>rf. rbind (value_in e d rLab rf) (\<lambda>v. Ok (v = - 1))) rfs) (\<lambda>k.
        Ok (if k < length rfs then Some (VS_UninitializedMem, rfs ! k) else None)))"

definition checkUnlockValidity :: "EventLabel \<Rightarrow> 'f Driver \<Rightarrow> Report option res" where
  "checkUnlockValidity wLab d =
     (if lkind wLab \<noteq> EL_UnlockWrite then Ok None
      else rbind (getMatchingLock (dG d) (lpos wLab)) (\<lambda>m.
        Ok (if isInitializer m then Some (VS_InvalidUnlock, getInitializer) else None)))"

text \<open>Labels of the graph are compared as pointers, so by position.\<close>

definition checkBInitValidity :: "EventLabel \<Rightarrow> 'f Driver \<Rightarrow> Report option res" where
  "checkBInitValidity wLab d =
     (if lkind wLab \<noteq> EL_BInitWrite then Ok None
      else rbind (mo_at (dMO d) (laddr wLab)) (\<lambda>ws.
        rbind (rfind_if (\<lambda>s. rbind (getWriteLabel (dG d) s) (\<lambda>w. case w of None \<Rightarrow> Undef
             | Some l \<Rightarrow> Ok (lpos l \<noteq> lpos wLab \<and> laddr l = laddr wLab \<and> lkind l = EL_BInitWrite))) ws) (\<lambda>k.
          Ok (if k < length ws then Some (VS_InvalidBInit, ws ! k)
              else if lval wLab = 0 then Some (VS_InvalidBInit, getInitializer) else None))))"

definition checkBIncValidity :: "'f Env \<Rightarrow> EventLabel \<Rightarrow> Event list \<Rightarrow> 'f Driver \<Rightarrow> Report option res" where
  "checkBIncValidity e rLab rfs d =
     (if lkind rLab \<noteq> EL_BIncFaiRead then Ok None
      else if \<exists>rf \<in> set rfs. isInitializer rf then Ok (Some (VS_UninitializedMem, getInitializer))
      else rbind (rany (\<lambda>rf. rbind (value_in e d rLab rf) (\<lambda>v. Ok (v = 0))) rfs) (\<lambda>b.
        Ok (if b then Some (VS_AccessFreed, lrf rLab) else None)))"

definition checkFinalAnnotations :: "'f Env \<Rightarrow> EventLabel \<Rightarrow> 'f Driver \<Rightarrow> Report option res" where
  "checkFinalAnnotations e wLab d =
     (if \<not> helper (eConf e) then Ok None
      else rbind (mo_hasMoreThanOneStore (dMO d) (laddr wLab)) (\<lambda>many.
        if \<not> many then Ok None
        else let ws = mo_list (dMO d) (laddr wLab) in
          rbind (if isFinal wLab then rany (\<lambda>s. rbind (view_contains (hbView wLab) s) (\<lambda>b. Ok (\<not> b))) ws
                 else rany (\<lambda>s. rbind (getWriteLabel (dG d) s) (\<lambda>w. rbind (deref w) (\<lambda>l. Ok (isFinal l)))) ws) (\<lambda>b.
            Ok (if b then Some (VS_Annotation, getInitializer) else None))))"

definition getBarrierInitValue :: "'f Env \<Rightarrow> SAddr \<Rightarrow> AAccess \<Rightarrow> 'f Driver \<Rightarrow> SVal res" where
  "getBarrierInitValue e a acc d =
     rbind (mo_at (dMO d) a) (\<lambda>ws.
     rbind (rfind_if (\<lambda>s. rbind (getWriteLabel (dG d) s) (\<lambda>w. case w of None \<Rightarrow> Bug
         | Some l \<Rightarrow> Ok (laddr l = a \<and> isNotAtomic l))) ws) (\<lambda>k.
       if k < length ws then getWriteValue (initVal (eConf e)) (dG d) (ws ! k) a acc else Bug))"

definition getDskWriteValue :: "'f Env \<Rightarrow> Event \<Rightarrow> SAddr \<Rightarrow> AAccess \<Rightarrow> 'f Driver \<Rightarrow> SVal res" where
  "getDskWriteValue e w a acc d = (if isInitializer w then Ok 0 else getWriteValue (initVal (eConf e)) (dG d) w a acc)"

definition getReadRetValueAndMaybeBlock :: "'f Env \<Rightarrow> EventLabel \<Rightarrow> 'f Driver \<Rightarrow> (SVal \<times> 'f Driver) res" where
  "getReadRetValueAndMaybeBlock e rLab d =
     rbind (getReadValue (initVal (eConf e)) (dG d) rLab) (\<lambda>v.
       if isBottom (lrf rLab)
       then rbind (BUG_ON (\<not> dReplay d)) (\<lambda>_. rbind (upd_thread (dCur d) (thr_block BT_Error) d) (\<lambda>d1. Ok (v, d1)))
       else if lkind rLab = EL_BWaitRead
       then rbind (getBarrierInitValue e (laddr rLab) (laccess rLab) d) (\<lambda>i.
         if v \<noteq> i then rbind (upd_thread (dCur d) (thr_block BT_Barrier) d) (\<lambda>d1. Ok (v, d1)) else Ok (v, d))
       else Ok (v, d))"

definition getRecReadRetValue :: "'f Env \<Rightarrow> EventLabel \<Rightarrow> 'f Driver \<Rightarrow> SVal res" where
  "getRecReadRetValue e rLab d =
     rbind (getLastThreadStoreAtLoc (dG d) (lpos rLab) (laddr rLab)) (\<lambda>rf. rbind (BUG_ON (isInitializer rf)) (\<lambda>_.
       getWriteValue (initVal (eConf e)) (dG d) rf (laddr rLab) (laccess rLab)))"

section \<open>Liveness\<close>

text \<open>Going back from the block to the start of the iteration, all reads have to be from maximal stores. There
  is always a start: reaching the beginning of the thread is a bug.\<close>

fun reads_maximal :: "'f Env \<Rightarrow> int \<Rightarrow> int list \<Rightarrow> 'f Driver \<Rightarrow> (bool \<times> 'f Driver) res" where
  "reads_maximal e tid [] d = Bug"
| "reads_maximal e tid (j # js) d = rbind (getEventLabel (dG d) (Event tid j)) (\<lambda>l.
     rbind (BUG_ON (lkind l = EL_LoopBegin)) (\<lambda>_.
       if lkind l = EL_SpinStart then Ok (True, d)
       else if isa_Read (lkind l)
       then rbind (isCoMaximal_dr e (laddr l) (lrf l) False PP_step d) (\<lambda>(b, d1).
              if \<not> b then Ok (False, d1) else reads_maximal e tid js d1)
       else reads_maximal e tid js d))"

definition threadReadsMaximal :: "'f Env \<Rightarrow> int \<Rightarrow> 'f Driver \<Rightarrow> (bool \<times> 'f Driver) res" where
  "threadReadsMaximal e tid d =
     rbind (getLastThreadLabel (dG d) tid) (\<lambda>b. rbind (BUG_ON (lkind b \<noteq> EL_Block)) (\<lambda>_.
     rbind (getPreviousLabel (dG d) (lpos b)) (\<lambda>p. rbind (deref p) (\<lambda>l.
       let start = (if lkind l = EL_SpinStart then eindex (prev (lpos l)) else eindex (lpos l))
       in reads_maximal e tid (rev [1..start]) d))))"

definition spin_blocked :: "'f Driver \<Rightarrow> int list res" where
  "spin_blocked d = rbind (rfilter (\<lambda>t. rbind (getLastThreadLabel (dG d) (thrId t)) (\<lambda>l.
     Ok (thrBlocked t = Spinloop \<or> lkind l = EL_Block \<and> lblock l = Spinloop))) (dThreads d)) (\<lambda>ts. Ok (map thrId ts))"

text \<open>Whether all threads read maximal stores; the thread that was asked last is the one to report.\<close>

fun all_live :: "'f Env \<Rightarrow> int list \<Rightarrow> int \<Rightarrow> 'f Driver \<Rightarrow> (bool \<times> int \<times> 'f Driver) res" where
  "all_live e [] t d = Ok (True, t, d)"
| "all_live e (i # is) t d = rbind (threadReadsMaximal e i d) (\<lambda>(b, d1). if b then all_live e is i d1 else Ok (False, i, d1))"

definition checkLiveness :: "'f Env \<Rightarrow> 'f Driver \<Rightarrow> 'f Driver res" where
  "checkLiveness e d =
     (if dHalt d then Ok d
      else rbind (isConsistent_dr e PP_exec d) (\<lambda>(c, d1).
        if \<not> c then Ok d1
        else rbind (spin_blocked d1) (\<lambda>spins.
          if spins = [] then Ok d1
          else rbind (all_live e spins 0 d1) (\<lambda>(b, t, d2).
            if \<not> b then Ok d2
            else rbind (getLastThreadEvent (dG d2) t) (\<lambda>le. visitError e le VS_Liveness d2)))))"

end
