(* ===== verification/GenMC_Visit.thy ===== *)
theory GenMC_Visit
  imports GenMC_Races
begin

text \<open>
  The handlers of the exploration driver for everything but loads and stores (\<open>src/src/GenMCDriver.cpp\<close>): threads,
  fences, memory management, blocking, spin loops, and the start and end of data-structure calls. A handler that
  finds the event in the graph (a replay) does not add it again.
\<close>

section \<open>Adding labels\<close>

definition on_graph :: "(ExecutionGraph \<Rightarrow> ExecutionGraph res) \<Rightarrow> 'f Driver \<Rightarrow> 'f Driver res" where
  "on_graph f d = rbind (f (dG d)) (\<lambda>g. Ok (put_graph g d))"

definition add_label :: "'f Env \<Rightarrow> EventLabel \<Rightarrow> 'f Driver \<Rightarrow> (EventLabel \<times> 'f Driver) res" where
  "add_label e l d = rbind (vUpdateLabelViews (eVirt e) (dG d) l) (\<lambda>l1.
     rbind (addOtherLabelToGraph (dG d) l1) (\<lambda>(g, l2). Ok (l2, put_graph g d)))"

text \<open>The common handler: nothing in a replay, otherwise the label with its views.\<close>

definition visit_plain :: "'f Env \<Rightarrow> EventLabel \<Rightarrow> 'f Driver \<Rightarrow> 'f Driver res" where
  "visit_plain e l d = rbind (isExecutionDrivenByGraph d) (\<lambda>(b, d1).
     if b then Ok d1 else rbind (add_label e l d1) (\<lambda>(_, d2). Ok d2))"

definition visitFenceLKMM :: "'f Env \<Rightarrow> EventLabel \<Rightarrow> 'f Driver \<Rightarrow> 'f Driver res" where
  "visitFenceLKMM = visit_plain"

definition visitFence :: "'f Env \<Rightarrow> EventLabel \<Rightarrow> 'f Driver \<Rightarrow> 'f Driver res" where
  "visitFence e l d = (if lkind l = EL_SmpFenceLKMM then visitFenceLKMM e l d else visit_plain e l d)"

definition visitHpProtect :: "'f Env \<Rightarrow> EventLabel \<Rightarrow> 'f Driver \<Rightarrow> 'f Driver res" where
  "visitHpProtect = visit_plain"

definition visitRCULockLKMM :: "'f Env \<Rightarrow> EventLabel \<Rightarrow> 'f Driver \<Rightarrow> 'f Driver res" where
  "visitRCULockLKMM = visit_plain"

definition visitRCUUnlockLKMM :: "'f Env \<Rightarrow> EventLabel \<Rightarrow> 'f Driver \<Rightarrow> 'f Driver res" where
  "visitRCUUnlockLKMM = visit_plain"

definition visitRCUSyncLKMM :: "'f Env \<Rightarrow> EventLabel \<Rightarrow> 'f Driver \<Rightarrow> 'f Driver res" where
  "visitRCUSyncLKMM = visit_plain"

definition visitDskFsync :: "'f Env \<Rightarrow> EventLabel \<Rightarrow> 'f Driver \<Rightarrow> 'f Driver res" where
  "visitDskFsync = visit_plain"

definition visitDskSync :: "'f Env \<Rightarrow> EventLabel \<Rightarrow> 'f Driver \<Rightarrow> 'f Driver res" where
  "visitDskSync = visit_plain"

definition visitDskPbarrier :: "'f Env \<Rightarrow> EventLabel \<Rightarrow> 'f Driver \<Rightarrow> 'f Driver res" where
  "visitDskPbarrier = visit_plain"

definition visitLoopBegin :: "'f Env \<Rightarrow> EventLabel \<Rightarrow> 'f Driver \<Rightarrow> 'f Driver res" where
  "visitLoopBegin = visit_plain"

definition visitThreadKill :: "'f Env \<Rightarrow> EventLabel \<Rightarrow> 'f Driver \<Rightarrow> 'f Driver res" where
  "visitThreadKill e l d = rbind (isExecutionDrivenByGraph d) (\<lambda>(b, d1). rbind (BUG_ON b) (\<lambda>_.
     rbind (add_label e l d1) (\<lambda>(_, d2). Ok d2)))"

definition visitFunctionStart :: "'f Env \<Rightarrow> EventLabel \<Rightarrow> FunctionName \<Rightarrow> 'f Driver \<Rightarrow> 'f Driver res" where
  "visitFunctionStart e l name = visit_plain e (l\<lparr>lmethod := name\<rparr>)"

section \<open>Blocking\<close>

text \<open>The access before a position that other threads can see: going back, over confirming reads (with the helper),
  reads of local or final stores, and reads of a location that a skipped read of a final store has.\<close>

fun prev_visible :: "'f Env \<Rightarrow> ExecutionGraph \<Rightarrow> int \<Rightarrow> int list \<Rightarrow> EventLabel list \<Rightarrow> EventLabel option res" where
  "prev_visible e g t [] finals = Ok None"
| "prev_visible e g t (j # js) finals = rbind (getEventLabel g (Event t j)) (\<lambda>l.
     if isa_Read (lkind l)
     then if helper (eConf e) \<and> isConfirming l then prev_visible e g t js finals
          else if isBottom (lrf l) then Ok (Some l)
          else rbind (getEventLabel g (lrf l)) (\<lambda>w.
            if isa_Write (lkind w) \<and> isLocal w then prev_visible e g t js finals
            else if isa_Write (lkind w) \<and> isFinal w then prev_visible e g t js (finals @ [l])
            else if \<exists>f \<in> set finals. laddr f = laddr l \<and> asize (laccess f) = asize (laccess l) then prev_visible e g t js finals
            else Ok (Some l))
     else if isa_Write (lkind l) \<and> \<not> isFinal l \<and> \<not> isLocal l then Ok (Some l)
     else prev_visible e g t js finals)"

definition getPreviousVisibleAccessLabel :: "'f Env \<Rightarrow> ExecutionGraph \<Rightarrow> Event \<Rightarrow> EventLabel option res" where
  "getPreviousVisibleAccessLabel e g start = prev_visible e g (ethread start) (rev [1..eindex start - 1]) []"

definition mootExecutionIfFullyBlocked :: "'f Env \<Rightarrow> Event \<Rightarrow> 'f Driver \<Rightarrow> 'f Driver res" where
  "mootExecutionIfFullyBlocked e pos d =
     rbind (getPreviousVisibleAccessLabel e (dG d) pos) (\<lambda>r. Ok (case r of None \<Rightarrow> d
       | Some l \<Rightarrow> if isa_Read (lkind l) \<and> (\<not> lrevisitable l \<or> \<not> lmaximal l) then moot d else d))"

definition visitBlock :: "'f Env \<Rightarrow> EventLabel \<Rightarrow> 'f Driver \<Rightarrow> 'f Driver res" where
  "visitBlock e l d =
     rbind (upd_thread (dCur d) (thr_block BT_User) d) (\<lambda>d1. rbind (isExecutionDrivenByGraph d1) (\<lambda>(b, d2).
       if b then Ok d2
       else rbind (addOtherLabelToGraph (dG d2) l) (\<lambda>(g, l1). mootExecutionIfFullyBlocked e (lpos l1) (put_graph g d2))))"

definition visitLockZNESpinEnd :: "'f Env \<Rightarrow> EventLabel \<Rightarrow> 'f Driver \<Rightarrow> 'f Driver res" where
  "visitLockZNESpinEnd e l d = rbind (isExecutionDrivenByGraph d) (\<lambda>(b, d1).
     if b then Ok d1 else rbind (add_label e l d1) (\<lambda>(l1, d2). visitBlock e (BlockLabel (next_ev (lpos l1)) LockZNESpinloop) d2))"

section \<open>Threads\<close>

definition visitThreadSelf :: "'f Driver \<Rightarrow> SVal res" where
  "visitThreadSelf d = rbind (getCurThr d) (\<lambda>t. Ok (of_int (thrId t)))"

definition isSymmetricToSR :: "'f Driver \<Rightarrow> int \<Rightarrow> int \<Rightarrow> Event \<Rightarrow> nat \<Rightarrow> SVal \<Rightarrow> bool res" where
  "isSymmetricToSR d candidate thread parent F arg =
     rbind (getThrById d candidate) (\<lambda>c. rbind (getEventLabel (dG d) (Event candidate 0)) (\<lambda>b.
       if lkind b \<noteq> EL_ThreadStart then Undef
       else let cParent = lparentCreate b in
         if thrId c = thread \<or> thrFun c \<noteq> F \<or> thrArg c \<noteq> arg \<or> ethread cParent \<noteq> ethread parent then Ok False
         else rbind (scan (dG d) (ethread parent)
                 [min (eindex parent) (eindex cParent) .. max (eindex parent) (eindex cParent) - 1]
                 (\<lambda>l. Ok (isa_MemAccess (lkind l)))) (\<lambda>m. Ok (m = None))))"

fun symmetric_loop :: "'f Driver \<Rightarrow> int \<Rightarrow> Event \<Rightarrow> nat \<Rightarrow> SVal \<Rightarrow> int list \<Rightarrow> int res" where
  "symmetric_loop d thread parent F arg [] = Ok (- 1)"
| "symmetric_loop d thread parent F arg (i # is) =
     rbind (if i \<noteq> thread then isSymmetricToSR d i thread parent F arg else Ok False) (\<lambda>b.
       if b then Ok i else symmetric_loop d thread parent F arg is)"

definition getSymmetricTidSR :: "'f Driver \<Rightarrow> int \<Rightarrow> Event \<Rightarrow> nat \<Rightarrow> SVal \<Rightarrow> int res" where
  "getSymmetricTidSR d thread parent F arg = symmetric_loop d thread parent F arg (rev [1..int (numThreads (dG d)) - 1])"

fun child_id :: "ExecutionGraph \<Rightarrow> Event \<Rightarrow> nat list \<Rightarrow> int res" where
  "child_id g create [] = Ok (int (numThreads g))"
| "child_id g create (c # cs) = rbind (isThreadEmpty g (int c)) (\<lambda>em.
     if em then child_id g create cs
     else rbind (getFirstThreadLabel g (int c)) (\<lambda>b. case b of None \<Rightarrow> Bug
       | Some l \<Rightarrow> if lparentCreate l = create then Ok (int c) else child_id g create cs))"

definition visitThreadCreate :: "'f Env \<Rightarrow> EventLabel \<Rightarrow> nat \<Rightarrow> SVal \<Rightarrow> 'f \<Rightarrow> 'f Driver \<Rightarrow> (int \<times> 'f Driver) res" where
  "visitThreadCreate e tc F arg SF d =
     rbind (isExecutionDrivenByGraph d) (\<lambda>(b, d1).
       if b then rbind (getEventLabel (dG d1) (lpos tc)) (\<lambda>l. if lkind l = EL_ThreadCreate then Ok (sint (lchildId l), d1) else Undef)
       else rbind (child_id (dG d1) (lpos tc) [0..<numThreads (dG d1)]) (\<lambda>cid.
         rbind (add_label e (tc\<lparr>lchildId := of_int cid\<rparr>) d1) (\<lambda>(l, d2).
         rbind (createAddNewThread F arg cid (ethread (lpos l)) SF d2) (\<lambda>d3.
           if cid = int (numThreads (dG d3))
           then let d4 = put_graph (addNewThread (dG d3)) d3 in
             rbind (BUG_ON (length (dThreads d4) \<noteq> numThreads (dG d4))) (\<lambda>_.
             rbind (if symmetryReduction (eConf e) then getSymmetricTidSR d4 cid (lpos l) F arg else Ok (- 1)) (\<lambda>symm.
             rbind (add_label e (ThreadStartLabel 0 Acquire (Event cid 0) (lpos l) symm) d4) (\<lambda>(_, d5). Ok (cid, d5))))
           else rbind (on_graph (\<lambda>g. vUpdateStart (eVirt e) g (lpos l) (Event cid 0)) d3) (\<lambda>d4. Ok (cid, d4))))))"

definition visitThreadJoin :: "'f Env \<Rightarrow> EventLabel \<Rightarrow> 'f Driver \<Rightarrow> (SVal \<times> 'f Driver) res" where
  "visitThreadJoin e jl d =
     rbind (getCurThr d) (\<lambda>thr. rbind (isExecutionDrivenByGraph d) (\<lambda>(b, d1).
     rbind (if \<not> b then add_label e jl d1 else rbind (getEventLabel (dG d1) (lpos jl)) (\<lambda>l. Ok (l, d1))) (\<lambda>(j, d2).
       if lkind j \<noteq> EL_ThreadJoin then Undef
       else let cid = sint (lchildId j) in
         if cid < 0 \<or> int (numThreads (dG d2)) \<le> cid \<or> cid = thrId thr
         then rbind (visitError e (lpos j) VS_InvalidJoin d2) (\<lambda>d3. Ok (0, d3))
         else rbind (getLastThreadEvent (dG d2) cid) (\<lambda>le. rbind (vUpdateJoin (eVirt e) (dG d2) (lpos j) le) (\<lambda>(g, ok).
           if ok then Ok (0, put_graph g d2)
           else rbind (upd_thread (dCur d2) (thr_block BT_ThreadJoin) (put_graph g d2)) (\<lambda>d3. Ok (0, d3)))))))"

definition relieve_parent :: "'f Env \<Rightarrow> int \<Rightarrow> Event \<Rightarrow> int \<Rightarrow> 'f Driver \<Rightarrow> 'f Driver res" where
  "relieve_parent e tid finish i d =
     rbind (getLastThreadLabel (dG d) i) (\<lambda>p.
       if lkind p \<noteq> EL_ThreadJoin \<or> sint (lchildId p) \<noteq> tid then Ok d
       else rbind (upd_thread i thr_unblock d) (\<lambda>d1. on_graph (\<lambda>g. rbind (vUpdateJoin (eVirt e) g (lpos p) finish) (\<lambda>(g1, _). Ok g1)) d1))"

definition visitThreadFinish :: "'f Env \<Rightarrow> EventLabel \<Rightarrow> 'f Driver \<Rightarrow> 'f Driver res" where
  "visitThreadFinish e l d =
     rbind (isExecutionDrivenByGraph d) (\<lambda>(b, d1). rbind (getCurThr d1) (\<lambda>thr.
       if b \<or> thr_isBlocked thr then Ok d1
       else rbind (add_label e l d1) (\<lambda>(_, d2).
         if thrId thr = 0 then Ok d2
         else rbind (getLastThreadLabel (dG d2) (thrId thr)) (\<lambda>f.
           rfold (relieve_parent e (thrId thr) (lpos f)) [0..int (numThreads (dG d2)) - 1] d2))))"

section \<open>Memory and files\<close>

text \<open>The address that the interpreter's allocator gives and the file descriptor are arguments.\<close>

definition visitMalloc :: "'f Env \<Rightarrow> EventLabel \<Rightarrow> SAddr \<Rightarrow> 'f Driver \<Rightarrow> (SVal \<times> 'f Driver) res" where
  "visitMalloc e l fresh d = rbind (isExecutionDrivenByGraph d) (\<lambda>(b, d1).
     if b then rbind (getEventLabel (dG d1) (lpos l)) (\<lambda>a. rbind (BUG_ON (lkind a \<noteq> EL_Malloc)) (\<lambda>_. Ok (lallocAddr a, d1)))
     else rbind (add_label e (l\<lparr>lallocAddr := fresh\<rparr>) d1) (\<lambda>(a, d2). Ok (lallocAddr a, d2)))"

definition visitFree :: "'f Env \<Rightarrow> EventLabel \<Rightarrow> 'f Driver \<Rightarrow> 'f Driver res" where
  "visitFree e l d =
     (if isNull (lfreedAddr l) then Ok d
      else rbind (isExecutionDrivenByGraph d) (\<lambda>(b, d1).
        if b then Ok d1
        else rbind (getMallocCounterpart (dG d1) l) (\<lambda>alloc.
        rbind (if isInitializer alloc then Ok 0 else rbind (getEventLabel (dG d1) alloc) (\<lambda>a. Ok (lallocSize a))) (\<lambda>sz.
        rbind (add_label e (l\<lparr>lfreedSize := sz\<rparr>) d1) (\<lambda>(f, d2).
        rbind (checkForFreeRaces (dG d2) f) (\<lambda>r. report e (lpos f) r d2))))))"

definition visitDskOpen :: "'f Env \<Rightarrow> EventLabel \<Rightarrow> int \<Rightarrow> 'f Driver \<Rightarrow> (SVal \<times> 'f Driver) res" where
  "visitDskOpen e l fd d = rbind (isExecutionDrivenByGraph d) (\<lambda>(b, d1).
     if b then rbind (getEventLabel (dG d1) (lpos l)) (\<lambda>a. rbind (BUG_ON (lkind a \<noteq> EL_DskOpen)) (\<lambda>_. Ok (lfd a, d1)))
     else if fd = - 1 then UserError
     else rbind (add_label e (l\<lparr>lfd := of_int fd\<rparr>) d1) (\<lambda>(_, d2). Ok (of_int fd, d2)))"

definition visitOptional :: "'f Env \<Rightarrow> EventLabel \<Rightarrow> 'f Driver \<Rightarrow> (bool \<times> 'f Driver) res" where
  "visitOptional e l d = rbind (isExecutionDrivenByGraph d) (\<lambda>(b, d1).
     if b then rbind (getCurrentLabel d1) (\<lambda>c. if lkind c = EL_Optional then Ok (lexpanded c, d1) else Undef)
     else let l1 = (if \<exists>q \<in> set (labels (dG d1)). lkind q = EL_Optional \<and> \<not> lexpandable q then l\<lparr>lexpandable := False\<rparr> else l) in
       rbind (add_label e l1 d1) (\<lambda>(q, d2).
         if lexpandable q then rbind (addToWorklist (OptionalRevisit (lpos q)) d2) (\<lambda>d3. Ok (False, d3)) else Ok (False, d2)))"

section \<open>Spin loops\<close>

text \<open>\<open>isWriteEffectful\<close> is with the RC11 driver's definitions.\<close>

definition isWriteObservable :: "ExecutionGraph \<Rightarrow> EventLabel \<Rightarrow> bool res" where
  "isWriteObservable g w =
     (if isAtLeastRelease w \<or> \<not> isDynamic (laddr w) then Ok True
      else rbind (getPreviousLabelST g w (\<lambda>l. Ok (lkind l = EL_Malloc \<and> malloc_contains l (laddr w)))) (\<lambda>m.
        case m of None \<Rightarrow> Ok True
        | Some a \<Rightarrow> rbind (scan g (ethread (lpos w)) [eindex (lpos a) + 1 .. eindex (lpos w) - 1]
              (\<lambda>l. Ok (isAtLeastRelease l \<or> isa_Read (lkind l) \<and> laddr l = laddr w))) (\<lambda>q. Ok (q \<noteq> None))))"

definition has_side_effects :: "'f Env \<Rightarrow> ExecutionGraph \<Rightarrow> int \<Rightarrow> int list \<Rightarrow> bool res" where
  "has_side_effects e g t js = rany (\<lambda>j. rbind (getEventLabel g (Event t j)) (\<lambda>l.
     if \<not> isa_Write (lkind l) then Ok False
     else rbind (isWriteEffectful (Conf.truncate (eConf e)) g l) (\<lambda>b. if b then isWriteObservable g l else Ok False))) js"

definition visitSpinStart :: "'f Env \<Rightarrow> EventLabel \<Rightarrow> 'f Driver \<Rightarrow> 'f Driver res" where
  "visitSpinStart e l d = rbind (isExecutionDrivenByGraph d) (\<lambda>(b, d1).
     if b then Ok d1
     else rbind (add_label e l d1) (\<lambda>(st, d2).
     rbind (getPreviousLabelST (dG d2) st (\<lambda>q. Ok (lkind q = EL_LoopBegin))) (\<lambda>lb. case lb of None \<Rightarrow> UserError
       | Some lbLab \<Rightarrow>
     rbind (getPreviousLabelST (dG d2) st (\<lambda>q. Ok (lkind q = EL_SpinStart \<and> eindex (lpos q) > eindex (lpos lbLab)))) (\<lambda>p.
       case p of None \<Rightarrow> Ok d2
       | Some pLab \<Rightarrow> rbind (has_side_effects e (dG d2) (ethread (lpos st)) [eindex (lpos pLab) + 1 .. eindex (lpos st) - 1]) (\<lambda>eff.
           if eff then Ok d2 else visitBlock e (BlockLabel (next_ev (lpos st)) Spinloop) d2)))))"

fun zne_unordered :: "'f Env \<Rightarrow> EventLabel \<Rightarrow> EventLabel list \<Rightarrow> 'f Driver \<Rightarrow> (bool \<times> 'f Driver) res" where
  "zne_unordered e w [] d = Ok (True, d)"
| "zne_unordered e w (m # ms) d =
     (if isa_MemAccess (lkind m) \<and> laddr m = laddr w \<and> \<not> isa_FaiRead (lkind m) \<and> \<not> isa_FaiWrite (lkind m)
      then rbind (isHbBefore_dr e (lpos m) (lpos w) PP_step d) (\<lambda>(b, d1). if \<not> b then Ok (False, d1) else zne_unordered e w ms d1)
      else zne_unordered e w ms d)"

definition areFaiZNEConstraintsSat :: "'f Env \<Rightarrow> EventLabel \<Rightarrow> 'f Driver \<Rightarrow> (bool \<times> 'f Driver) res" where
  "areFaiZNEConstraintsSat e l d =
     rbind (getPreviousLabelST (dG d) l (\<lambda>q. Ok (lkind q = EL_SpinStart))) (\<lambda>ss. case ss of None \<Rightarrow> Bug | Some ssLab \<Rightarrow>
     rbind (scan (dG d) (ethread (lpos ssLab)) [eindex (lpos ssLab) + 1 .. eindex (lpos l) - 1]
         (\<lambda>q. Ok (isa_Write (lkind q) \<and> \<not> isa_FaiWrite (lkind q)))) (\<lambda>w.
       if w \<noteq> None then Ok (False, d)
       else rbind (getPreviousLabelST (dG d) l (\<lambda>q. Ok (isa_FaiWrite (lkind q)))) (\<lambda>f. case f of None \<Rightarrow> Bug
         | Some wLab \<Rightarrow> zne_unordered e wLab (labels (dG d)) d)))"

definition visitFaiZNESpinEnd :: "'f Env \<Rightarrow> EventLabel \<Rightarrow> 'f Driver \<Rightarrow> 'f Driver res" where
  "visitFaiZNESpinEnd e l d = rbind (isExecutionDrivenByGraph d) (\<lambda>(b, d1).
     rbind (if b then getLastThreadEvent (dG d1) (ethread (lpos l)) else Ok (lpos l)) (\<lambda>le.
       if b \<and> eindex (lpos l) < eindex le then Ok d1
       else rbind (add_label e l d1) (\<lambda>(l1, d2). rbind (areFaiZNEConstraintsSat e l1 d2) (\<lambda>(s, d3).
         if s then visitBlock e (BlockLabel (next_ev (lpos l1)) FaiZNESpinloop) d3 else Ok d3))))"

fun reconsider_loop :: "'f Env \<Rightarrow> EventLabel \<Rightarrow> int list \<Rightarrow> 'f Driver \<Rightarrow> 'f Driver res" where
  "reconsider_loop e l [] d = Ok d"
| "reconsider_loop e l (i # is) d =
     rbind (getThrById d i) (\<lambda>_. rbind (getLastThreadLabel (dG d) i) (\<lambda>b.
       if lkind b \<noteq> EL_Block \<or> lblock b \<noteq> FaiZNESpinloop then reconsider_loop e l is d
       else rbind (getPreviousLabel (dG d) (lpos b)) (\<lambda>p. rbind (BUG_ON (case p of None \<Rightarrow> True | Some q \<Rightarrow> lkind q \<noteq> EL_FaiZNESpinEnd)) (\<lambda>_.
       rbind (getPreviousLabelST (dG d) b (\<lambda>q. Ok (isa_FaiWrite (lkind q)))) (\<lambda>f. rbind (deref f) (\<lambda>fai.
         if laddr fai \<noteq> laddr l \<or> isa_FaiRead (lkind l) \<or> isa_FaiWrite (lkind l) then reconsider_loop e l is d
         else rbind (isHbBefore_dr e (lpos l) (lpos fai) PP_step d) (\<lambda>(hb, d1).
           if hb then reconsider_loop e l is d1
           else rbind (upd_thread (ethread (lpos b)) (\<lambda>t. t\<lparr>globalInstructions := globalInstructions t - 1\<rparr>) d1) (\<lambda>d2.
             rbind (on_graph (\<lambda>g. remove_ev g (lpos b)) d2) (\<lambda>d3.
             rbind (upd_thread i thr_unblock d3) (reconsider_loop e l is)))))))))) "

definition checkReconsiderFaiSpinloop :: "'f Env \<Rightarrow> EventLabel \<Rightarrow> 'f Driver \<Rightarrow> 'f Driver res" where
  "checkReconsiderFaiSpinloop e l d = reconsider_loop e l [0..int (numThreads (dG d)) - 1] d"

end
