(* ===== verification/GenMC_Filters.thy ===== *)
theory GenMC_Filters
  imports GenMC_Visit
begin

text \<open>
  The stores that a new read may read from (\<open>src/src/GenMCDriver.cpp\<close>): the approximation that coherence gives,
  without violations of atomicity, and the filters of the optimisations: locks, barriers, symmetry reduction,
  annotations of assumes, and the reads of the helper. The last store of the list is the one that is read first.
\<close>

section \<open>Filters with state\<close>

text \<open>\<open>remove_if\<close> with a test that changes the state.\<close>

fun sfilter :: "('a \<Rightarrow> 's \<Rightarrow> (bool \<times> 's) res) \<Rightarrow> 'a list \<Rightarrow> 's \<Rightarrow> ('a list \<times> 's) res" where
  "sfilter P [] s = Ok ([], s)"
| "sfilter P (x # xs) s = rbind (P x s) (\<lambda>(b, s1). rbind (sfilter P xs s1) (\<lambda>(ys, s2). Ok (if b then x # ys else ys, s2)))"

text \<open>\<open>v.back()\<close> of an empty vector is undefined.\<close>

definition vback :: "'a list \<Rightarrow> 'a res" where
  "vback xs = (if xs = [] then Undef else Ok (last xs))"

section \<open>Coherent stores without violations of atomicity\<close>

definition settled :: "'f Env \<Rightarrow> 'f Driver \<Rightarrow> EventLabel \<Rightarrow> VectorClock \<Rightarrow> Event \<Rightarrow> bool res" where
  "settled e d l before s =
     rbind (value_in e d l s) (\<lambda>old.
     rbind (if isa_FaiRead (lkind l) then isStoreReadBySettledRMW (dG d) s (laddr l) (vc_contains before) else Ok False) (\<lambda>b.
       if b then Ok True
       else if isa_CasRead (lkind l) \<and> old = lexpected l then isStoreReadBySettledRMW (dG d) s (laddr l) (vc_contains before)
       else Ok False))"

definition getRfsApproximation :: "'f Env \<Rightarrow> EventLabel \<Rightarrow> 'f Driver \<Rightarrow> (Event list \<times> 'f Driver) res" where
  "getRfsApproximation e l d =
     rbind (mo_getCoherentStores (dG d) (dMO d) (laddr l) (lpos l)) (\<lambda>(rfs, m).
       let d1 = put_mo m d in
       if \<not> isa_CasRead (lkind l) \<and> \<not> isa_FaiRead (lkind l) then Ok (rfs, d1)
       else rbind (getPrefixView (eKind e) (dG d1) (lpos l)) (\<lambda>before.
         rbind (rfilter (\<lambda>s. rbind (settled e d1 l before s) (\<lambda>b. Ok (\<not> b))) rfs) (\<lambda>rfs1. Ok (rfs1, d1))))"

section \<open>Locks and barriers\<close>

definition is_lock_write :: "EventLabelKind \<Rightarrow> bool" where
  "is_lock_write k \<longleftrightarrow> k = EL_LockCasWrite \<or> k = EL_TrylockCasWrite"

definition filterAcquiredLocks :: "'f Driver \<Rightarrow> EventLabel \<Rightarrow> Event list \<Rightarrow> Event list res" where
  "filterAcquiredLocks d l stores =
     rbind (vback stores) (\<lambda>m. rbind (getEventLabel (dG d) m) (\<lambda>w.
       if is_lock_write (lkind w) \<and> \<not> isRescheduledRead d (lpos l) then Ok [m]
       else rfilter (\<lambda>s. rbind (getEventLabel (dG d) s) (\<lambda>q. Ok (\<not> (is_lock_write (lkind q) \<and> s \<noteq> m)))) stores))"

definition filterConflictingBarriers :: "'f Env \<Rightarrow> 'f Driver \<Rightarrow> EventLabel \<Rightarrow> Event list \<Rightarrow> Event list res" where
  "filterConflictingBarriers e d l stores =
     (if disableBAM (eConf e) \<or> lkind l \<noteq> EL_BIncFaiRead then Ok stores
      else rfilter (\<lambda>s. rbind (isStoreReadByExclusiveRead (dG d) s (laddr l)) (\<lambda>b. Ok (\<not> b))) stores)"

section \<open>Symmetry reduction\<close>

text \<open>Two reads differ unless both read from the same event, or each from the same position of its own thread.\<close>

definition reads_differ :: "ExecutionGraph \<Rightarrow> int \<Rightarrow> int \<Rightarrow> int \<Rightarrow> bool res" where
  "reads_differ g tid t j =
     rbind (getEventLabel g (Event tid j)) (\<lambda>a. rbind (getEventLabel g (Event t j)) (\<lambda>b.
       Ok (isa_Read (lkind a) \<and> (\<not> isa_Read (lkind b) \<or>
         \<not> (ethread (lrf a) = tid \<and> ethread (lrf b) = t \<and> eindex (lrf a) = eindex (lrf b)) \<and> lrf a \<noteq> lrf b))))"

definition sharePrefixSR :: "ExecutionGraph \<Rightarrow> int \<Rightarrow> Event \<Rightarrow> bool res" where
  "sharePrefixSR g tid pos =
     (if tid < 0 \<or> tid \<ge> int (numThreads g) then Ok False
      else rbind (getThreadSize g tid) (\<lambda>n.
        if n \<le> eindex pos then Ok False
        else rbind (rany (reads_differ g tid (ethread pos)) [1..eindex pos - 1]) (\<lambda>b. Ok (\<not> b))))"

text \<open>The test compares the size of the access of the symmetric read with itself, so it only compares addresses.\<close>

definition filterSymmetricStoresSR :: "'f Driver \<Rightarrow> EventLabel \<Rightarrow> Event list \<Rightarrow> Event list res" where
  "filterSymmetricStoresSR d l stores =
     rbind (getEventLabel (dG d) (Event (ethread (lpos l)) 0)) (\<lambda>b.
       if lkind b \<noteq> EL_ThreadStart then Undef
       else let t = lsymmetricTid b in
         if t = - 1 then Ok stores
         else rbind (sharePrefixSR (dG d) t (lpos l)) (\<lambda>s. if \<not> s then Ok stores
           else rbind (getEventLabel (dG d) (Event t (eindex (lpos l)))) (\<lambda>q.
             if \<not> isa_Read (lkind q) \<or> laddr q \<noteq> laddr l then Ok stores
             else rbind (getEventLabel (dG d) (lrf q)) (\<lambda>rf. rbind (isRMWLoad (dG d) q) (\<lambda>rmw.
               let st = (if rmw then lstamp rf + 1 else lstamp rf) in
               rfilter (\<lambda>s. rbind (getEventLabel (dG d) s) (\<lambda>w. Ok (\<not> lstamp w < st))) stores)))))"

section \<open>Annotated loads\<close>

text \<open>The annotation of a load, if there is one, as a test on values: stores are kept when they are maximal or pass
  it. The result also says whether the last store fails it.\<close>

definition keep_annot :: "'f Env \<Rightarrow> EventLabel \<Rightarrow> (SVal \<Rightarrow> bool) \<Rightarrow> Event \<Rightarrow> Event \<Rightarrow> 'f Driver \<Rightarrow> (bool \<times> 'f Driver) res" where
  "keep_annot e l annot maximal w d =
     rbind (value_in e d l w) (\<lambda>v.
       if w = maximal then Ok (True, d)
       else rbind (isCoMaximal_dr e (laddr l) w True PP_step d) (\<lambda>(b, d1). Ok (b \<or> annot v, d1)))"

definition filterValuesFromAnnotSAVER :: "'f Env \<Rightarrow> EventLabel \<Rightarrow> (SVal \<Rightarrow> bool) option \<Rightarrow> Event list \<Rightarrow> 'f Driver \<Rightarrow>
    (bool \<times> Event list \<times> 'f Driver) res" where
  "filterValuesFromAnnotSAVER e l annot stores d =
     (case annot of None \<Rightarrow> Ok (False, stores, d)
      | Some f \<Rightarrow> if stores = [] then Bug
        else rbind (sfilter (keep_annot e l f (last stores)) stores d) (\<lambda>(vs, d1).
          if vs = [] then Bug else rbind (value_in e d1 l (last vs)) (\<lambda>v. Ok (\<not> f v, vs, d1))))"

section \<open>The helper's reads\<close>

definition filterConfirmingRfs :: "'f Env \<Rightarrow> EventLabel \<Rightarrow> Event list \<Rightarrow> 'f Driver \<Rightarrow> (Event list \<times> 'f Driver) res" where
  "filterConfirmingRfs e l stores d =
     (if \<not> helper (eConf e) \<or> \<not> isConfirming l then Ok (stores, d)
      else rbind (getMatchingSpeculativeRead (dG d) (lpos l)) (\<lambda>(spec, sc). rbind (getEventLabel (dG d) spec) (\<lambda>r.
        if \<not> isa_Read (lkind r) then UserError
        else rbind (value_in e d r (lrf r)) (\<lambda>_. rbind (rmap (value_in e d r) stores) (\<lambda>_.
          if sc \<noteq> None then Ok (stores, d)
          else rbind (BUG_ON (stores = [])) (\<lambda>_.
            let kept = filter (\<lambda>s. s = lrf r) stores in
            if kept = [] then rbind (visitBlock e (BlockLabel (next_ev (lpos l)) Confirmation) d) (\<lambda>d1. Ok ([last stores], d1))
            else if dPrios d = [] then Ok (kept, d)
            else rbind (getEventLabel (dG d) (dPrios d ! 0)) (\<lambda>p.
              Ok (kept, if lkind p = EL_SpeculativeRead then d\<lparr>dPrios := []\<rparr> else d))))))))"

definition existsPendingSpeculation :: "ExecutionGraph \<Rightarrow> EventLabel \<Rightarrow> Event list \<Rightarrow> bool res" where
  "existsPendingSpeculation g l stores =
     rbind (rany (\<lambda>q. if lkind q \<noteq> EL_SpeculativeRead \<or> laddr q \<noteq> laddr l then Ok False
         else rbind (getPreviousLabel g (lpos l)) (\<lambda>p. rbind (deref p) (\<lambda>p1. rbind (view_contains (hbView p1) (lpos q)) (\<lambda>b.
           Ok (\<not> b \<and> lpos q \<noteq> lpos l))))) (labels g)) (\<lambda>pending.
       if \<not> pending then Ok False
       else rbind (rany (\<lambda>s. rbind (getEventLabel g s) (\<lambda>w.
           Ok (lkind w = EL_ConfirmingCasWrite \<and> eindex s > eindex (lpos l) \<and> ethread s = ethread (lpos l)))) stores) (\<lambda>b. Ok (\<not> b)))"

definition filterUnconfirmedReads :: "'f Env \<Rightarrow> EventLabel \<Rightarrow> Event list \<Rightarrow> 'f Driver \<Rightarrow> (Event list \<times> 'f Driver) res" where
  "filterUnconfirmedReads e l stores d =
     (if \<not> helper (eConf e) \<or> lkind l \<noteq> EL_SpeculativeRead then Ok (stores, d)
      else if isRescheduledRead d (lpos l) then Ok (stores, setRescheduledRead getInitializer d)
      else rbind (existsPendingSpeculation (dG d) l stores) (\<lambda>b.
        if \<not> b then Ok (stores, d\<lparr>dPrios := [lpos l]\<rparr>)
        else rbind (vback stores) (\<lambda>m.
          rbind (visitBlock e (BlockLabel (next_ev (lpos l)) ReadOptBlock) d) (\<lambda>d1. Ok ([m], d1)))))"

definition filterOptimizeRfs :: "'f Env \<Rightarrow> EventLabel \<Rightarrow> (SVal \<Rightarrow> bool) option \<Rightarrow> Event list \<Rightarrow> 'f Driver \<Rightarrow>
    (Event list \<times> 'f Driver) res" where
  "filterOptimizeRfs e l annot s0 d0 =
     rbind (if symmetryReduction (eConf e) then filterSymmetricStoresSR d0 l s0 else Ok s0) (\<lambda>s1.
     rbind (if \<not> disableBAM (eConf e) then filterConflictingBarriers e d0 l s1 else Ok s1) (\<lambda>s2.
     rbind (if lkind l = EL_LockCasRead then filterAcquiredLocks d0 l s2 else Ok s2) (\<lambda>s3.
     rbind (if helper (eConf e) \<and> isConfirming l then filterConfirmingRfs e l s3 d0 else Ok (s3, d0)) (\<lambda>(s4, d1).
     rbind (if helper (eConf e) \<and> lkind l = EL_SpeculativeRead then filterUnconfirmedReads e l s4 d1 else Ok (s4, d1)) (\<lambda>(s5, d2).
     rbind (filterValuesFromAnnotSAVER e l annot s5 d2) (\<lambda>(_, s6, d3). Ok (s6, d3)))))))"

section \<open>Helped compare-and-swaps\<close>

definition unblockWaitingHelping :: "'f Driver \<Rightarrow> 'f Driver" where
  "unblockWaitingHelping d = d\<lparr>dThreads := map (\<lambda>t. if thr_isBlocked t \<and> thrBlocked t = BT_HelpedCas then thr_unblock t else t) (dThreads d)\<rparr>"

text \<open>The last write of a thread up to an index; 0 when there is none.\<close>

fun last_write_index :: "ExecutionGraph \<Rightarrow> int \<Rightarrow> int list \<Rightarrow> int res" where
  "last_write_index g i [] = Undef"
| "last_write_index g i (j # js) = rbind (getEventLabel g (Event i j)) (\<lambda>l.
     if isa_Write (lkind l) \<or> j \<le> 0 then Ok j else last_write_index g i js)"

definition writesBeforeHelpedContainedInView :: "ExecutionGraph \<Rightarrow> EventLabel \<Rightarrow> View \<Rightarrow> bool res" where
  "writesBeforeHelpedContainedInView g l v =
     rbind (rany (\<lambda>i. rbind (last_write_index g (int i) (rev [0..hbView l ! i])) (\<lambda>j.
         if j > 0 then rbind (view_contains v (Event (int i) j)) (\<lambda>b. Ok (\<not> b)) else Ok False)) [0..<length (hbView l)]) (\<lambda>b. Ok (\<not> b))"

text \<open>The view that is tested is that of the event before the helped operation.\<close>

definition checkHelpingCasCondition :: "ExecutionGraph \<Rightarrow> EventLabel \<Rightarrow> bool res" where
  "checkHelpingCasCondition g h =
     rbind (rfilter (\<lambda>l. if lkind l \<noteq> EL_HelpedCasRead then Ok False
         else rbind (isRMWLoad g l) (\<lambda>rmw. Ok (rmw \<and> laddr l = laddr h \<and> laccess l = laccess h \<and> lordering l = lordering h \<and>
           lexpected l = lexpected h \<and> lswapVal l = lswapVal h))) (labels g)) (\<lambda>hs.
       if hs = [] then Ok False
       else rbind (rany (\<lambda>l. rbind (getPreviousNonEmptyLabel g (lpos l)) (\<lambda>p.
           rbind (writesBeforeHelpedContainedInView g l (hbView p)) (\<lambda>b. Ok (\<not> b)))) hs) (\<lambda>bad.
         if bad then UserError else Ok True))"

section \<open>Consistency of new accesses\<close>

definition checkAtomicity :: "EventLabel \<Rightarrow> 'f Driver \<Rightarrow> (bool \<times> 'f Driver) res" where
  "checkAtomicity w d = rbind (violatesAtomicity (dG d) w) (\<lambda>b. Ok (if b then (False, moot d) else (True, d)))"

definition changeRf_dr :: "'f Env \<Rightarrow> Event \<Rightarrow> Event \<Rightarrow> 'f Driver \<Rightarrow> 'f Driver res" where
  "changeRf_dr e r s = on_graph (\<lambda>g. vChangeRf (eVirt e) g r s)"

text \<open>The stores are tried from the last one; the list is reversed.\<close>

fun ensure_rf :: "'f Env \<Rightarrow> Event \<Rightarrow> Event list \<Rightarrow> 'f Driver \<Rightarrow> (bool \<times> Event list \<times> 'f Driver) res" where
  "ensure_rf e r [] d = Undef"
| "ensure_rf e r (s # ss) d = rbind (changeRf_dr e r s d) (\<lambda>d1. rbind (isConsistent_dr e PP_step d1) (\<lambda>(c, d2).
     if c then Ok (True, s # ss, d2)
     else rbind (BUG_ON (\<not> LAPOR (eConf e) \<and> ss = [])) (\<lambda>_.
       if ss = [] then Ok (False, [], block_all BT_Cons d2) else ensure_rf e r ss d2)))"

definition ensureConsistentRf :: "'f Env \<Rightarrow> EventLabel \<Rightarrow> Event list \<Rightarrow> 'f Driver \<Rightarrow> (bool \<times> Event list \<times> 'f Driver) res" where
  "ensureConsistentRf e l rfs d = rbind (ensure_rf e (lpos l) (rev rfs) d) (\<lambda>(b, ss, d1). Ok (b, rev ss, d1))"

definition ensureConsistentStore :: "'f Env \<Rightarrow> EventLabel \<Rightarrow> 'f Driver \<Rightarrow> (bool \<times> 'f Driver) res" where
  "ensureConsistentStore e w d =
     rbind (checkAtomicity w d) (\<lambda>(a, d1).
     rbind (if \<not> a then Ok (False, d1) else isConsistent_dr e PP_step d1) (\<lambda>(c, d2).
       Ok (if c then (True, d2) else (False, block_all BT_Cons d2))))"

definition filterInvalidRecRfs :: "'f Env \<Rightarrow> EventLabel \<Rightarrow> Event list \<Rightarrow> 'f Driver \<Rightarrow> (Event list \<times> 'f Driver) res" where
  "filterInvalidRecRfs e l rfs d =
     rbind (sfilter (\<lambda>r d1. rbind (changeRf_dr e (lpos l) r d1) (\<lambda>d2. rbind (isRecoveryValid_dr e PP_step d2) (\<lambda>b. Ok (b, d2)))) rfs d)
       (\<lambda>(rs, d3). if rs = [] then Bug else rbind (changeRf_dr e (lpos l) (rs ! 0) d3) (\<lambda>d4. Ok (rs, d4)))"

end
