(* ===== verification/GenMC_RevisitOps.thy ===== *)
theory GenMC_RevisitOps
  imports GenMC_Filters GenMC_GraphCopy
begin

text \<open>
  Revisiting reads (\<open>src/src/GenMCDriver.cpp\<close>): which reads a new store revisits, the optimisations that avoid or
  replace a revisit, the copy of the graph for a revisit, the repair of locks and barriers that lose their store,
  and the restriction of the graph to an item of the work queue. Exploring the revisited graph is an argument, and
  fuel bounds the nesting of revisits that make a read-modify-write complete; running out of it is \<open>Undef\<close>.
  Warnings and the duplicate check of debug builds are left out.
\<close>

section \<open>The write of a read-modify-write\<close>

definition counterpart :: "EventLabelKind \<Rightarrow> EventLabelKind option" where
  "counterpart k =
     (if k = EL_BIncFaiRead then Some EL_BIncFaiWrite
      else if k = EL_NoRetFaiRead then Some EL_NoRetFaiWrite
      else if k = EL_FaiRead then Some EL_FaiWrite
      else if k = EL_LockCasRead then Some EL_LockCasWrite
      else if k = EL_TrylockCasRead then Some EL_TrylockCasWrite
      else if k = EL_CasRead then Some EL_CasWrite
      else if k = EL_HelpedCasRead then Some EL_HelpedCasWrite
      else if k = EL_ConfirmingCasRead then Some EL_ConfirmingCasWrite
      else None)"

definition addWriteLabelToGraph :: "'f Env \<Rightarrow> EventLabel \<Rightarrow> Event \<Rightarrow> 'f Driver \<Rightarrow> (EventLabel \<times> 'f Driver) res" where
  "addWriteLabelToGraph e l pred d = rbind (add_label e l d) (\<lambda>(w, d1).
     rbind (addStoreToLocAfter (dMO d1) (laddr w) (lpos w) pred) (\<lambda>m. Ok (w, put_mo m d1)))"

definition rmw_result :: "'f Env \<Rightarrow> EventLabel \<Rightarrow> SVal \<Rightarrow> 'f Driver \<Rightarrow> SVal res" where
  "rmw_result e r v d =
     (if isa_FaiRead (lkind r)
      then let x = executeAtomicRMW e v (lopVal r) (asize (laccess r)) (lop r) in
        if lkind r = EL_BIncFaiRead \<and> x = 0 then getBarrierInitValue e (laddr r) (laccess r) d else Ok x
      else Ok (lswapVal r))"

definition completeRevisitedRMW :: "'f Env \<Rightarrow> Event \<Rightarrow> 'f Driver \<Rightarrow> (EventLabel option \<times> 'f Driver) res" where
  "completeRevisitedRMW e pos d =
     rbind (getEventLabel (dG d) pos) (\<lambda>r.
       if \<not> isa_CasRead (lkind r) \<and> \<not> isa_FaiRead (lkind r) then Ok (None, d)
       else rbind (getReadValue (initVal (eConf e)) (dG d) r) (\<lambda>v.
         if isa_CasRead (lkind r) \<and> v \<noteq> lexpected r then Ok (None, d)
         else rbind (rmw_result e r v d) (\<lambda>x. case counterpart (lkind r) of None \<Rightarrow> Bug
           | Some k \<Rightarrow> let (st, g) = nextStamp (dG d) in
               rbind (addWriteLabelToGraph e ((WriteLabel k (lordering r) (next_ev (lpos r)) (laddr r) (laccess r) x (lwattr r))\<lparr>lstamp := st\<rparr>)
                   (lrf r) (put_graph g d)) (\<lambda>(w, d1). Ok (Some w, d1)))))"

section \<open>Reads that a store may revisit\<close>

definition getRevisitableApproximation :: "'f Env \<Rightarrow> EventLabel \<Rightarrow> 'f Driver \<Rightarrow> (Event list \<times> 'f Driver) res" where
  "getRevisitableApproximation e w d =
     rbind (mo_getCoherentRevisits (eKind e) (dG d) (dMO d) w) (\<lambda>(loads, m).
     rbind (rmap (\<lambda>l. rbind (getEventLabel (dG d) l) (\<lambda>r. Ok (lstamp r, l))) loads) (\<lambda>ls.
       Ok (map snd (rev (sort_key fst ls)), put_mo m d)))"

text \<open>A read is made to read from a store in place and is marked by whether the store is maximal.\<close>

definition revisit_in_place :: "'f Env \<Rightarrow> EventLabel \<Rightarrow> Event \<Rightarrow> 'f Driver \<Rightarrow> 'f Driver res" where
  "revisit_in_place e r w d =
     rbind (changeRf_dr e (lpos r) w d) (\<lambda>d1.
     rbind (isCoMaximal_dr e (laddr r) w False PP_step d1) (\<lambda>(b, d2).
       on_graph (\<lambda>g. modLabel g (lpos r) (\<lambda>l. l\<lparr>lmaximal := b\<rparr>)) d2))"

definition barrier_revisit :: "'f Env \<Rightarrow> EventLabel \<Rightarrow> Event \<Rightarrow> 'f Driver \<Rightarrow> 'f Driver res" where
  "barrier_revisit e w l d =
     rbind (getEventLabel (dG d) l) (\<lambda>r.
       if lkind r \<noteq> EL_BWaitRead then Undef
       else rbind (revisit_in_place e r (lpos w) d) (\<lambda>d1.
         rbind (getLastThreadEvent (dG d1) (ethread l)) (\<lambda>le. rbind (on_graph (\<lambda>g. remove_ev g le) d1) (\<lambda>d2.
           upd_thread (ethread (lpos r)) (\<lambda>t. thr_unblock (t\<lparr>globalInstructions := globalInstructions t - 1\<rparr>)) d2))))"

definition tryOptimizeBarrierRevisits :: "'f Env \<Rightarrow> EventLabel \<Rightarrow> Event list \<Rightarrow> 'f Driver \<Rightarrow> (bool \<times> 'f Driver) res" where
  "tryOptimizeBarrierRevisits e w loads d =
     (if disableBAM (eConf e) then Ok (False, d)
      else rbind (getBarrierInitValue e (laddr w) (laccess w) d) (\<lambda>iVal.
        if lval w \<noteq> iVal then Ok (True, d)
        else rbind (rfold (barrier_revisit e w) loads d) (\<lambda>d1. Ok (True, d1))))"

definition optimizeUnconfirmedRevisits :: "'f Env \<Rightarrow> ExecutionGraph \<Rightarrow> Event list \<Rightarrow> Event list res" where
  "optimizeUnconfirmedRevisits e g loads =
     (if \<not> helper (eConf e) then Ok loads
      else rfilter (\<lambda>l. rbind (getEventLabel g l) (\<lambda>r.
        if \<not> isConfirming r then Ok True
        else rbind (getMatchingSpeculativeRead g (lpos r)) (\<lambda>(spec, sc). rbind (getEventLabel g spec) (\<lambda>p.
          if \<not> isa_Read (lkind p) then UserError else Ok (sc \<noteq> None))))) loads)"

definition isConflictingNonRevBlocker :: "GraphKind \<Rightarrow> ExecutionGraph \<Rightarrow> EventLabel option \<Rightarrow> EventLabel \<Rightarrow> Event \<Rightarrow> bool res" where
  "isConflictingNonRevBlocker kind g p w s =
     rbind (getEventLabel g s) (\<lambda>w2.
       if \<not> isa_Write (lkind w2) then Undef
       else if lpos w2 = lpos w \<or> \<not> isRMWStore w2 then Ok False
       else rbind (getPrefixView kind g (lpos w)) (\<lambda>prefix. rbind (vc_contains prefix (lpos w2)) (\<lambda>b.
         if b \<and> \<not> (case p of None \<Rightarrow> False | Some q \<Rightarrow> lstamp q < lstamp w2) then Ok False
         else if ethread (lpos w2) \<le> ethread (lpos w) then Ok False
         else rany (\<lambda>r. rbind (getEventLabel g r) (\<lambda>q. if \<not> lstamp q < lstamp w2 then Ok False
                else rbind (vc_contains prefix r) (\<lambda>c. Ok (\<not> c)))) (lreaders w2))))"

definition tryOptimizeRevBlockerAddition :: "'f Env \<Rightarrow> EventLabel \<Rightarrow> Event list \<Rightarrow> 'f Driver \<Rightarrow> (bool \<times> Event list \<times> 'f Driver) res" where
  "tryOptimizeRevBlockerAddition e w loads d =
     (if \<not> hasAttr w WA_RevBlocker then Ok (False, loads, d)
      else rbind (getPreviousVisibleAccessLabel e (dG d) (prev (lpos w))) (\<lambda>p.
        rbind (mo_at (dMO d) (laddr w)) (\<lambda>ws. rbind (rany (isConflictingNonRevBlocker (eKind e) (dG d) p w) ws) (\<lambda>b.
          Ok (if b then (True, [], moot d) else (False, loads, d))))))"

definition symmetric_prefix :: "ExecutionGraph \<Rightarrow> EventLabel \<Rightarrow> bool res" where
  "symmetric_prefix g w = rbind (getFirstThreadLabel g (ethread (lpos w))) (\<lambda>f. rbind (deref f) (\<lambda>b.
     if lsymmetricTid b = - 1 then Ok False else sharePrefixSR g (lsymmetricTid b) (lpos w)))"

definition tryOptimizeRevisits :: "'f Env \<Rightarrow> EventLabel \<Rightarrow> Event list \<Rightarrow> 'f Driver \<Rightarrow> (bool \<times> Event list \<times> 'f Driver) res" where
  "tryOptimizeRevisits e w loads d =
     rbind (if symmetryReduction (eConf e) then symmetric_prefix (dG d) w else Ok False) (\<lambda>sr.
     if sr then Ok (True, loads, d)
     else rbind (if \<not> disableBAM (eConf e) \<and> lkind w = EL_BIncFaiWrite then tryOptimizeBarrierRevisits e w loads d
                 else Ok (False, d)) (\<lambda>(bam, d1).
     if bam then Ok (True, loads, d1)
     else rbind (optimizeUnconfirmedRevisits e (dG d1) loads) (\<lambda>ls.
     rbind (if helper (eConf e) then tryOptimizeRevBlockerAddition e w ls d1 else Ok (False, ls, d1)) (\<lambda>(rb, ls1, d2).
     if rb then Ok (True, ls1, d2)
     else rbind (rfilter (\<lambda>l. rbind (getEventLabel (dG d2) l) (\<lambda>r. rbind (isOptBlockedRead (dG d2) r) (\<lambda>b. Ok (\<not> b)))) ls1)
       (\<lambda>ls2. Ok (False, ls2, d2))))))"

section \<open>Backward revisits\<close>

definition tryRevisitLockInPlace :: "'f Env \<Rightarrow> Revisit \<Rightarrow> 'f Driver \<Rightarrow> (bool \<times> 'f Driver) res" where
  "tryRevisitLockInPlace e r d =
     rbind (getLastThreadEvent (dG d) (ethread (rv_pos r))) (\<lambda>le.
     rbind (if prev le \<noteq> rv_pos r then Ok True else revisitModifiesGraph (eKind e) (dG d) r) (\<lambda>no.
       if no then Ok (False, d)
       else rbind (getReadLabel (dG d) (rv_pos r)) (\<lambda>rl. rbind (deref rl) (\<lambda>rLab.
         rbind (rv_rev r) (\<lambda>s. rbind (getWriteLabel (dG d) s) (\<lambda>wl. rbind (deref wl) (\<lambda>sLab.
         rbind (BUG_ON (lkind rLab \<noteq> EL_LockCasRead \<or> lkind sLab \<noteq> EL_UnlockWrite)) (\<lambda>_.
         rbind (getEventLabel (dG d) (next_ev (lpos rLab))) (\<lambda>b. rbind (BUG_ON (lkind b \<noteq> EL_Block)) (\<lambda>_.
         rbind (on_graph (\<lambda>g. remove_ev g (next_ev (lpos rLab))) d) (\<lambda>d1.
         rbind (revisit_in_place e rLab (lpos sLab) d1) (\<lambda>d2.
         rbind (completeRevisitedRMW e (lpos rLab) d2) (\<lambda>(_, d3).
         rbind (upd_thread (ethread (lpos rLab)) thr_unblock d3) (\<lambda>d4. Ok (True, d4\<lparr>dPrios := [lpos rLab]\<rparr>)))))))))))))))"

definition constructBackwardRevisit :: "'f Env \<Rightarrow> ExecutionGraph \<Rightarrow> EventLabel \<Rightarrow> EventLabel \<Rightarrow> Revisit res" where
  "constructBackwardRevisit e g r w =
     (let plain = BackwardRevisit (lpos r) (lpos w) in
      if \<not> helper (eConf e) then Ok plain
      else rbind (getPendingRMW g w) (\<lambda>pend. rbind (getNextLabel g pend) (\<lambda>nl.
        if isInitializer pend then Ok plain
        else rbind (deref nl) (\<lambda>p.
          if \<not> isa_Write (lkind p) then Undef
          else if \<not> hasAttr p WA_RevBlocker then Ok plain
          else let mid = next_ev pend in
            rbind (getPrefixView (eKind e) g mid) (\<lambda>vm. rbind (vc_contains vm (lpos r)) (\<lambda>a.
            rbind (getEventLabel g mid) (\<lambda>m. rbind (getPrefixView (eKind e) g (lpos w)) (\<lambda>vw. rbind (vc_contains vw mid) (\<lambda>b.
              Ok (if \<not> a \<and> lstamp r < lstamp m \<and> \<not> b then BackwardRevisitHELPER (lpos r) (lpos w) mid else plain))))))))))"

text \<open>The view of a copy leaves out the two events of the blocker's read-modify-write.\<close>

fun drop_mid :: "Event \<Rightarrow> VectorClock \<Rightarrow> VectorClock res" where
  "drop_mid m (VC_DepView v) = rbind (dv_addHole v m) (\<lambda>v1. rbind (dv_addHole v1 (prev m)) (\<lambda>v2. Ok (VC_DepView v2)))"
| "drop_mid m (VC_View v) = rbind (view_get v (ethread m)) (\<lambda>i. rbind (view_set v (ethread m) (i - 2)) (\<lambda>v1. Ok (VC_View v1)))"

text \<open>Reads of the prefix are not revisited any more, and labels that are newer than the read get fresh stamps.\<close>

definition restamp :: "VectorClock \<Rightarrow> nat \<Rightarrow> EventLabel \<Rightarrow> ExecutionGraph \<Rightarrow> ExecutionGraph res" where
  "restamp prefix st l g =
     rbind (if isa_Read (lkind l) then vc_contains prefix (lpos l) else Ok False) (\<lambda>b.
     rbind (if b then modLabel g (lpos l) (\<lambda>q. q\<lparr>lrevisitable := False\<rparr>) else Ok g) (\<lambda>g1.
       if \<not> lstamp l > st then Ok g1
       else let (n, g2) = nextStamp g1 in modLabel g2 (lpos l) (\<lambda>q. q\<lparr>lstamp := n\<rparr>)))"

definition copyGraph :: "'f Env \<Rightarrow> Revisit \<Rightarrow> VectorClock \<Rightarrow> 'f Driver \<Rightarrow> Copy res" where
  "copyGraph e br v d =
     rbind (case rv_mid br of None \<Rightarrow> Ok v | Some m \<Rightarrow> drop_mid m v) (\<lambda>v1.
     rbind (copyGraphUpTo (dG d) (dMO d) (LAPOR (eConf e)) v1) (\<lambda>og.
     rbind (getReadLabel (cpGraph og) (rv_pos br)) (\<lambda>rl. rbind (deref rl) (\<lambda>r.
     rbind (rv_rev br) (\<lambda>s. rbind (getPrefixView (eKind e) (cpGraph og) s) (\<lambda>prefix.
     rbind (rfold (restamp prefix (lstamp r)) (labels (cpGraph og)) (resetStamp (cpGraph og) (lstamp r + 1))) (\<lambda>g.
       Ok (og\<lparr>cpGraph := g\<rparr>))))))))"

definition checkRevBlockHELPER :: "'f Env \<Rightarrow> EventLabel \<Rightarrow> Event list \<Rightarrow> 'f Driver \<Rightarrow> (bool \<times> 'f Driver) res" where
  "checkRevBlockHELPER e w loads d =
     (if \<not> helper (eConf e) \<or> \<not> hasAttr w WA_RevBlocker then Ok (True, d)
      else rbind (rany (\<lambda>l. rbind (getLastThreadLabel (dG d) (ethread l)) (\<lambda>la.
          rbind (getPreviousVisibleAccessLabel e (dG d) (lpos la)) (\<lambda>p.
          rbind (if lkind la = EL_Block then Ok True else rbind (getThrById d (ethread (lpos la))) (\<lambda>t. Ok (thr_isBlocked t))) (\<lambda>b.
            Ok (b \<and> (case p of None \<Rightarrow> False | Some q \<Rightarrow> lpos q = l)))))) loads) (\<lambda>b.
        Ok (if b then (False, moot d) else (True, d))))"

section \<open>Repairs\<close>

fun repair_loop :: "'f Env \<Rightarrow> EventLabel \<Rightarrow> Event list \<Rightarrow> 'f Driver \<Rightarrow> 'f Driver res" where
  "repair_loop e l [] d = Bug"
| "repair_loop e l (s # ss) d =
     rbind (getEventLabel (dG d) s) (\<lambda>w.
       if \<not> isa_Write (lkind w) then Undef
       else if \<not> is_lock_write (lkind w) then repair_loop e l ss d
       else rbind (getMatchingUnlock (dG d) (prev (lpos w))) (\<lambda>u.
         if \<not> isInitializer u then repair_loop e l ss d
         else rbind (changeRf_dr e (lpos l) (lpos w) d) (\<lambda>d1.
           on_graph (\<lambda>g. rbind (addOtherLabelToGraph g (BlockLabel (next_ev (lpos l)) LockNotAcq)) (\<lambda>(g1, _). Ok g1))
             (d1\<lparr>dPrios := [lpos w]\<rparr>))))"

definition repairLock :: "'f Env \<Rightarrow> EventLabel \<Rightarrow> 'f Driver \<Rightarrow> 'f Driver res" where
  "repairLock e l d = rbind (mo_at (dMO d) (laddr l)) (\<lambda>ws. repair_loop e l (rev ws) d)"

fun dangling_locks :: "'f Env \<Rightarrow> int list \<Rightarrow> 'f Driver \<Rightarrow> 'f Driver res" where
  "dangling_locks e [] d = Ok d"
| "dangling_locks e (i # is) d = rbind (getLastThreadLabel (dG d) i) (\<lambda>l.
     if lkind l = EL_LockCasRead \<and> \<not> graph_contains (dG d) (lrf l) then repairLock e l d else dangling_locks e is d)"

definition repairDanglingLocks :: "'f Env \<Rightarrow> 'f Driver \<Rightarrow> 'f Driver res" where
  "repairDanglingLocks e d = dangling_locks e [0..int (numThreads (dG d)) - 1] d"

definition repair_barrier :: "'f Env \<Rightarrow> int \<Rightarrow> 'f Driver \<Rightarrow> 'f Driver res" where
  "repair_barrier e i d =
     rbind (getLastThreadLabel (dG d) i) (\<lambda>l.
       if lkind l \<noteq> EL_BWaitRead then Ok d
       else rbind (getBarrierInitValue e (laddr l) (laccess l) d) (\<lambda>iVal.
         rbind (if graph_contains (dG d) (lrf l) then rbind (getReadValue (initVal (eConf e)) (dG d) l) (\<lambda>v. Ok (v = iVal)) else Ok False) (\<lambda>ok.
           if ok then Ok d
           else rbind (getPreviousLabel (dG d) (lpos l)) (\<lambda>p.
             rbind (BUG_ON (case p of None \<Rightarrow> True | Some q \<Rightarrow> lkind q \<noteq> EL_BIncFaiWrite)) (\<lambda>_.
             rbind (BUG_ON (\<not> graph_contains (dG d) (lpos l))) (\<lambda>_.
             rbind (changeRf_dr e (lpos l) (prev (lpos l)) d) (\<lambda>d1.
               on_graph (\<lambda>g. rbind (modLabel g (lpos l) (\<lambda>q. q\<lparr>lmaximal := True\<rparr>)) (\<lambda>g1.
                 rbind (addOtherLabelToGraph g1 (BlockLabel (next_ev (lpos l)) BT_Barrier)) (\<lambda>(g2, _). Ok g2))) d1))))))) "

definition repairDanglingBarriers :: "'f Env \<Rightarrow> 'f Driver \<Rightarrow> 'f Driver res" where
  "repairDanglingBarriers e d =
     (if disableBAM (eConf e) then Ok d else rfold (repair_barrier e) [0..int (numThreads (dG d)) - 1] d)"

section \<open>Revisiting\<close>

text \<open>The part of \<open>revisitRead()\<close> for a read that does not become a read-modify-write.\<close>

definition prioritize_revisited :: "'f Env \<Rightarrow> Event \<Rightarrow> 'f Driver \<Rightarrow> 'f Driver res" where
  "prioritize_revisited e pos d =
     rbind (repairDanglingLocks e d) (\<lambda>d1. rbind (getEventLabel (dG d1) pos) (\<lambda>r.
     rbind (if lkind r \<noteq> EL_LockCasRead then Ok d1
            else on_graph (\<lambda>g. rbind (addOtherLabelToGraph g (BlockLabel (next_ev (lpos r)) LockNotAcq)) (\<lambda>(g1, _). Ok g1))
              (d1\<lparr>dPrios := [lrf r]\<rparr>)) (\<lambda>d2.
     rbind (getPreviousLabelST (dG d2) r (\<lambda>q. Ok (lkind q = EL_SpeculativeRead))) (\<lambda>p.
       Ok (if lkind r = EL_SpeculativeRead \<or> p \<noteq> None then d2\<lparr>dPrios := [lpos r]\<rparr> else d2)))))"

definition revisitRead :: "'f Env \<Rightarrow> (EventLabel \<Rightarrow> 'f Driver \<Rightarrow> (bool \<times> 'f Driver) res) \<Rightarrow> Revisit \<Rightarrow> 'f Driver \<Rightarrow> (bool \<times> 'f Driver) res" where
  "revisitRead e calc ri d =
     rbind (getEventLabel (dG d) (rv_pos ri)) (\<lambda>r. rbind (BUG_ON (\<not> isa_Read (lkind r))) (\<lambda>_.
     rbind (rv_rev ri) (\<lambda>s. rbind (changeRf_dr e (lpos r) s d) (\<lambda>d1.
     rbind (case ri of ForwardRevisit p q m \<Rightarrow> Ok (m, d1) | _ \<Rightarrow> isCoMaximal_dr e (laddr r) s False PP_step d1) (\<lambda>(mx, d2).
     rbind (on_graph (\<lambda>g. modLabel g (lpos r) (\<lambda>l. l\<lparr>lmaximal := mx\<rparr>)) d2) (\<lambda>d3.
     rbind (repairDanglingBarriers e d3) (\<lambda>d4.
     rbind (completeRevisitedRMW e (lpos r) d4) (\<lambda>(w, d5). case w of Some sLab \<Rightarrow> calc sLab d5
       | None \<Rightarrow> rbind (prioritize_revisited e (lpos r) d5) (\<lambda>d6. Ok (True, d6))))))))))"

text \<open>The driver that works on the copied graph: fresh threads that run the functions of the old ones, and empty
  work queue and revisit sets. Afterwards the old state comes back; the results and the halting flag stay.\<close>

definition set_shared :: "'f Env \<Rightarrow> Copy \<Rightarrow> 'f Driver \<Rightarrow> 'f Driver res" where
  "set_shared e og d =
     (let s = (dCons d)\<lparr>cGraph := cpGraph og, cPriv := (cpMO og, case cpLocks og of None \<Rightarrow> [] | Some l \<Rightarrow> l)\<rparr>
      in rfold (\<lambda>t. createAddNewThread (thrFun t) (thrArg t) (thrId t) (thrParent t) (entryFrame e (thrFun t) (thrArg t)))
           (dThreads d) (d\<lparr>dCons := s, dThreads := [], dWork := [], dRevset := []\<rparr>))"

definition restore_local :: "'f Driver \<Rightarrow> 'f Driver \<Rightarrow> 'f Driver" where
  "restore_local old d = old\<lparr>dHalt := dHalt d, dResult := dResult d\<rparr>"

definition explore_revisit :: "'f Env \<Rightarrow> ('f Driver \<Rightarrow> 'f Driver res) \<Rightarrow> (Revisit \<Rightarrow> 'f Driver \<Rightarrow> (bool \<times> 'f Driver) res) \<Rightarrow>
    Revisit \<Rightarrow> Event \<Rightarrow> Event \<Rightarrow> 'f Driver \<Rightarrow> 'f Driver res" where
  "explore_revisit e explore revisit br r w d =
     rbind (getRevisitView (eKind e) (dG d) br) (\<lambda>v. rbind (copyGraph e br v d) (\<lambda>og.
     rbind (set_shared e og d) (\<lambda>d1. rbind (revisit (BackwardRevisit r w) d1) (\<lambda>(_, d2).
     rbind (isConsistent_dr e PP_step d2) (\<lambda>(c, d3).
     rbind (if c then explore d3 else Ok d3) (\<lambda>d4. Ok (restore_local d d4)))))))"

fun revisit_loop :: "'f Env \<Rightarrow> ('f Driver \<Rightarrow> 'f Driver res) \<Rightarrow> (Revisit \<Rightarrow> 'f Driver \<Rightarrow> (bool \<times> 'f Driver) res) \<Rightarrow>
    EventLabel \<Rightarrow> Event list \<Rightarrow> 'f Driver \<Rightarrow> 'f Driver res" where
  "revisit_loop e explore revisit w [] d = Ok d"
| "revisit_loop e explore revisit w (l # ls) d =
     rbind (getReadLabel (dG d) l) (\<lambda>rl. rbind (BUG_ON (rl = None)) (\<lambda>_. rbind (deref rl) (\<lambda>r.
     rbind (constructBackwardRevisit e (dG d) r w) (\<lambda>br.
     rbind (mo_inMaximalPath (eKind e) (dG d) (dMO d) br) (\<lambda>mx.
       if \<not> mx then Ok d
       else rbind (if lkind r = EL_LockCasRead \<and> lkind w = EL_UnlockWrite
                   then rbind (tryRevisitLockInPlace e br d) (\<lambda>(b, d1). Ok (b, if b then d1 else moot d1)) else Ok (False, d)) (\<lambda>(inplace, d1).
         if inplace then Ok d1
         else rbind (explore_revisit e explore revisit br (lpos r) (lpos w) d1) (revisit_loop e explore revisit w ls)))))))"

primrec calcRevisits :: "'f Env \<Rightarrow> ('f Driver \<Rightarrow> 'f Driver res) \<Rightarrow> nat \<Rightarrow> EventLabel \<Rightarrow> 'f Driver \<Rightarrow> (bool \<times> 'f Driver) res" where
  "calcRevisits e explore 0 w d = Undef"
| "calcRevisits e explore (Suc n) w d =
     rbind (getRevisitableApproximation e w d) (\<lambda>(loads, d1).
     rbind (tryOptimizeRevisits e w loads d1) (\<lambda>(done, ls, d2).
       if done then Ok (True, d2)
       else rbind (revisit_loop e explore (revisitRead e (calcRevisits e explore n)) w ls d2) (\<lambda>d3.
         rbind (checkAtomicity w d3) (\<lambda>(a, d4).
           if \<not> a then Ok (False, d4)
           else rbind (checkRevBlockHELPER e w ls d4) (\<lambda>(b, d5). Ok (b \<and> \<not> dMoot d5, d5))))))"

text \<open>An item of the work queue: first everything that is newer than its event goes.\<close>

definition restrictAndRevisit :: "'f Env \<Rightarrow> ('f Driver \<Rightarrow> 'f Driver res) \<Rightarrow> nat \<Rightarrow> Revisit \<Rightarrow> 'f Driver \<Rightarrow> (bool \<times> 'f Driver) res" where
  "restrictAndRevisit e explore n item d =
     rbind (getEventLabel (dG d) (rv_pos item)) (\<lambda>l.
     rbind (restrictGraph e l (restrictRevisitSet l (restrictWorklist l d))) (\<lambda>d1.
       case item of
         WriteRevisit p k \<Rightarrow> rbind (BUG_ON (\<not> isa_Write (lkind l))) (\<lambda>_.
           rbind (changeStoreOffset (dG d1) (dMO d1) (laddr l) (lpos l) k) (\<lambda>(g, m).
           rbind (on_graph (\<lambda>g. modLabel g (lpos l) (\<lambda>q. q\<lparr>lmaximal := False\<rparr>)) (put_mo m (put_graph g d1))) (\<lambda>d2.
           rbind (repairDanglingLocks e d2) (\<lambda>d3. rbind (repairDanglingBarriers e d3) (\<lambda>d4.
           rbind (getEventLabel (dG d4) (lpos l)) (\<lambda>w. calcRevisits e explore n w d4))))))
       | OptionalRevisit p \<Rightarrow> rbind (BUG_ON (lkind l \<noteq> EL_Optional)) (\<lambda>_.
           rbind (on_graph (\<lambda>g. modLabel g (lpos l) (\<lambda>q. q\<lparr>lexpandable := False, lexpanded := True\<rparr>)) d1) (\<lambda>d2.
             Ok (True, d2\<lparr>dResult := (dResult d2)\<lparr>rsBlocked := rsBlocked (dResult d2) - 1\<rparr>\<rparr>)))
       | _ \<Rightarrow> revisitRead e (calcRevisits e explore n) item d1))"

end
