(* ===== verification/GenMC_Access.thy ===== *)
theory GenMC_Access
  imports GenMC_RevisitOps GenMC_Checks
begin

text \<open>
  The handlers of memory accesses (\<open>src/src/GenMCDriver.cpp\<close>): loads and stores, locks, helping operations, disk
  accesses, and the end of a data-structure call, where the checks of the configured model run. The annotation
  that the interpreter attaches to a load is an argument; so is the exploration of revisits.
\<close>

section \<open>Violations of the data-structure model\<close>

definition checkModelViolations_dr :: "'f Env \<Rightarrow> Event \<Rightarrow> 'f Driver \<Rightarrow> 'f Driver res" where
  "checkModelViolations_dr e pos d =
     rbind (checkModelViolations (dsModel (eConf e)) (initVal (eConf e)) (dG d) pos) (\<lambda>vs.
       rfold (\<lambda>_. visitError e pos VS_ModelViolation) vs d)"

definition visitFunctionEnd :: "'f Env \<Rightarrow> EventLabel \<Rightarrow> 'f Driver \<Rightarrow> 'f Driver res" where
  "visitFunctionEnd e l d = rbind (isExecutionDrivenByGraph d) (\<lambda>(b, d1).
     if b then Ok d1 else rbind (add_label e l d1) (\<lambda>(l1, d2). checkModelViolations_dr e (lpos l1) d2))"

section \<open>Loads\<close>

definition track_loc :: "SAddr \<Rightarrow> 'f Driver \<Rightarrow> 'f Driver" where
  "track_loc a d = put_mo (trackCoherenceAtLoc (dMO d) a) d"

definition add_read :: "'f Env \<Rightarrow> EventLabel \<Rightarrow> 'f Driver \<Rightarrow> (EventLabel \<times> 'f Driver) res" where
  "add_read e l d = rbind (vUpdateLabelViews (eVirt e) (dG d) l) (\<lambda>l1.
     rbind (addReadLabelToGraph (dG d) l1) (\<lambda>(g, l2). Ok (l2, put_graph g d)))"

text \<open>What follows once a read has a consistent store to read from.\<close>

definition load_checks :: "'f Env \<Rightarrow> EventLabel \<Rightarrow> Event list \<Rightarrow> 'f Driver \<Rightarrow> 'f Driver res" where
  "load_checks e l stores d =
     rbind (checkReconsiderFaiSpinloop e l d) (\<lambda>d1.
     rbind (checkForDataRaces e l d1) (\<lambda>d2.
     rbind (checkLockValidity e l stores d2) (\<lambda>r. rbind (report e (lpos l) r d2) (\<lambda>d3.
     rbind (checkBIncValidity e l stores d3) (\<lambda>r. rbind (report e (lpos l) r d3) (\<lambda>d4.
       Ok (if isRescheduledRead d4 (lpos l) \<and> lkind l \<noteq> EL_LockCasRead then setRescheduledRead getInitializer d4 else d4)))))))"

definition load_result :: "'f Env \<Rightarrow> EventLabel \<Rightarrow> Event list \<Rightarrow> 'f Driver \<Rightarrow> (SVal \<times> 'f Driver) res" where
  "load_result e l stores d =
     rbind (value_in e d l (last stores)) (\<lambda>v.
     rbind (if lkind l = EL_BWaitRead then rbind (getBarrierInitValue e (laddr l) (laccess l) d) (\<lambda>i. Ok (v \<noteq> i)) else Ok False) (\<lambda>wait.
     rbind (if wait then visitBlock e (BlockLabel (next_ev (lpos l)) BT_Barrier) d else Ok d) (\<lambda>d1.
     rbind (rfold (\<lambda>s. addToWorklist (ForwardRevisit (lpos l) s False)) (butlast stores) d1) (\<lambda>d2. Ok (v, d2)))))"

definition visitLoad :: "'f Env \<Rightarrow> EventLabel \<Rightarrow> (SVal \<Rightarrow> bool) option \<Rightarrow> 'f Driver \<Rightarrow> (SVal \<times> 'f Driver) res" where
  "visitLoad e rl annot d =
     (if dRecovery d then rbind (getRecReadRetValue e rl d) (\<lambda>v. Ok (v, d))
      else rbind (isExecutionDrivenByGraph d) (\<lambda>(b, d1).
        if b then rbind (getEventLabel (dG d1) (lpos rl)) (\<lambda>l. if isa_Read (lkind l) then getReadRetValueAndMaybeBlock e l d1 else Undef)
        else rbind (add_read e rl (track_loc (laddr rl) d1)) (\<lambda>(l, d2).
        rbind (isAccessValid e l d2) (\<lambda>(valid, d3).
          if \<not> valid then rbind (visitError e (lpos l) VS_AccessNonMalloc d3) (\<lambda>d4. Ok (0, d4))
          else rbind (getRfsApproximation e l d3) (\<lambda>(s0, d4). rbind (BUG_ON (s0 = [])) (\<lambda>_.
            rbind (filterOptimizeRfs e l annot s0 d4) (\<lambda>(s1, d5).
            rbind (vback s1) (\<lambda>m. rbind (changeRf_dr e (lpos l) m d5) (\<lambda>d6.
            rbind (ensureConsistentRf e l s1 d6) (\<lambda>(ok, s2, d7).
              if \<not> ok then Ok (0, d7)
              else rbind (getEventLabel (dG d7) (lpos l)) (\<lambda>l1.
                rbind (load_checks e l1 s2 d7) (load_result e l1 s2))))))))))))"

section \<open>Stores\<close>

definition annotateStoreHELPER :: "'f Env \<Rightarrow> EventLabel \<Rightarrow> 'f Driver \<Rightarrow> (EventLabel \<times> 'f Driver) res" where
  "annotateStoreHELPER e w d =
     (if \<not> helper (eConf e) \<or> \<not> isRMWStore w \<or> is_lock_write (lkind w) then Ok (w, d)
      else rbind (getPreviousLabel (dG d) (lpos w)) (\<lambda>pl. rbind (deref pl) (\<lambda>p.
        rbind (getPreviousVisibleAccessLabel e (dG d) (lpos p)) (\<lambda>m.
          if (case m of None \<Rightarrow> True | Some q \<Rightarrow> lmaximal q \<and> (\<not> isa_Read (lkind q) \<or> lrevisitable q)) then Ok (w, d)
          else if (if isa_FaiWrite (lkind w) then isa_FaiRead (lkind p) else isa_CasRead (lkind p))
          then rbind (on_graph (\<lambda>g. modLabel g (lpos p) (\<lambda>q. setAttr q WA_RevBlocker)) d) (\<lambda>d1. Ok (setAttr w WA_RevBlocker, d1))
          else Undef))))"

text \<open>The other places a store may take in the modification order, but not right before the write of a
  read-modify-write.\<close>

definition push_placing :: "EventLabel \<Rightarrow> int \<Rightarrow> 'f Driver \<Rightarrow> 'f Driver res" where
  "push_placing l k d =
     rbind (vec_get_int (mo_list (dMO d) (laddr l)) k) (\<lambda>s. rbind (getEventLabel (dG d) s) (\<lambda>w.
       if isRMWStore w \<or> dRecovery d then Ok d else addToWorklist (WriteRevisit (lpos l) k) d))"

definition place_store :: "'f Env \<Rightarrow> EventLabel \<Rightarrow> 'f Driver \<Rightarrow> 'f Driver res" where
  "place_store e l d =
     rbind (getPossiblePlacings (dG d) (dMO d) (laddr l) (lpos l) (isRMWStore l)) (\<lambda>((begO, endO), m).
     let d1 = put_mo m d in
     rbind (if lkind l = EL_BIncFaiWrite \<and> lval l = 0
            then rbind (getBarrierInitValue e (laddr l) (laccess l) d1) (\<lambda>v. on_graph (\<lambda>g. modLabel g (lpos l) (\<lambda>q. q\<lparr>lval := v\<rparr>)) d1)
            else Ok d1) (\<lambda>d2.
     rbind (addStoreToLoc (dMO d2) (laddr l) (lpos l) endO) (\<lambda>m1.
       if begO > endO then Undef else rfold (push_placing l) [begO..endO - 1] (put_mo m1 d2))))"

text \<open>What follows when the graph with the store is consistent; the last check runs when the store begins a
  communication between calls.\<close>

definition store_checks :: "'f Env \<Rightarrow> EventLabel \<Rightarrow> 'f Driver \<Rightarrow> 'f Driver res" where
  "store_checks e l d =
     rbind (checkReconsiderFaiSpinloop e l d) (\<lambda>d1.
     let d2 = (if lkind l = EL_HelpedCasWrite then unblockWaitingHelping d1 else d1) in
     rbind (checkForDataRaces e l d2) (\<lambda>d3.
     rbind (checkUnlockValidity l d3) (\<lambda>r. rbind (report e (lpos l) r d3) (\<lambda>d4.
     rbind (checkBInitValidity l d4) (\<lambda>r. rbind (report e (lpos l) r d4) (\<lambda>d5.
     rbind (checkFinalAnnotations e l d5) (\<lambda>r. rbind (report e (lpos l) r d5) (\<lambda>d6.
     rbind (getPreviousLabel (dG d6) (lpos l)) (\<lambda>pl. rbind (deref pl) (\<lambda>p.
       if length (lCOM p) < length (lCOM l) then checkModelViolations_dr e (lpos l) d6 else Ok d6))))))))))"

definition visitStore :: "'f Env \<Rightarrow> ('f Driver \<Rightarrow> 'f Driver res) \<Rightarrow> nat \<Rightarrow> EventLabel \<Rightarrow> 'f Driver \<Rightarrow> 'f Driver res" where
  "visitStore e explore n wl d = rbind (isExecutionDrivenByGraph d) (\<lambda>(b, d1).
     if b then Ok d1
     else rbind (annotateStoreHELPER e wl (track_loc (laddr wl) d1)) (\<lambda>(w1, d2).
     rbind (add_label e w1 d2) (\<lambda>(l, d3).
     rbind (isAccessValid e l d3) (\<lambda>(valid, d4).
       if \<not> valid then visitError e (lpos l) VS_AccessNonMalloc d4
       else rbind (place_store e l d4) (\<lambda>d5. rbind (getEventLabel (dG d5) (lpos l)) (\<lambda>l1.
         rbind (ensureConsistentStore e l1 d5) (\<lambda>(cons, d6).
         rbind (if \<not> dRecovery d6 \<and> \<not> dReplay d6 then calcRevisits e explore n l1 d6 else Ok (True, d6)) (\<lambda>(_, d7).
           if \<not> cons then Ok d7
           else rbind (getEventLabel (dG d7) (lpos l1)) (\<lambda>l2. store_checks e l2 d7)))))))))"

section \<open>Locks\<close>

text \<open>The handler reads the position of the label after it has handed the label over to the graph.\<close>

definition visitLockLAPOR :: "'f Env \<Rightarrow> EventLabel \<Rightarrow> 'f Driver \<Rightarrow> 'f Driver res" where
  "visitLockLAPOR e l d = rbind (isExecutionDrivenByGraph d) (\<lambda>(b, d1).
     if b then Ok d1
     else rbind (vUpdateLabelViews (eVirt e) (dG d1) l) (\<lambda>l1.
       let (m, locks) = cPriv (dCons d1) in
       let d2 = d1\<lparr>dCons := (dCons d1)\<lparr>cPriv := (m, addLockToList (llockAddr l1) (lpos l1) locks)\<rparr>\<rparr> in
       rbind (addOtherLabelToGraph (dG d2) l1) (\<lambda>_. Undef)))"

definition visitLock :: "'f Env \<Rightarrow> ('f Driver \<Rightarrow> 'f Driver res) \<Rightarrow> nat \<Rightarrow> (SVal \<Rightarrow> bool) option \<Rightarrow> Event \<Rightarrow> SAddr \<Rightarrow> ASize \<Rightarrow>
    'f Driver \<Rightarrow> 'f Driver res" where
  "visitLock e explore n annot pos a sz d =
     (if persevere (eConf e) \<and> dRecovery d then Ok d
      else if LAPOR (eConf e) then visitLockLAPOR e (LockLabelLAPOR pos a) d
      else rbind (visitLoad e (LockCasReadLabel pos a sz getBottom) annot d) (\<lambda>(v, d1).
        let rescheduled = isRescheduledRead d1 pos;
            d2 = (if rescheduled then setRescheduledRead getInitializer d1 else d1) in
        rbind (getEventLabel (dG d2) pos) (\<lambda>r.
          if \<not> isa_Read (lkind r) then Undef
          else if \<not> isBottom (lrf r) \<and> v = 0 then visitStore e explore n (LockCasWriteLabel (next_ev pos) a sz) d2
          else visitBlock e (BlockLabel (next_ev pos) (if rescheduled then LockNotAcq else ReadOptBlock)) d2)))"

definition visitUnlockLAPOR :: "'f Env \<Rightarrow> EventLabel \<Rightarrow> 'f Driver \<Rightarrow> 'f Driver res" where
  "visitUnlockLAPOR e l d = rbind (isExecutionDrivenByGraph d) (\<lambda>(b, d1).
     if b then deprioritizeThread e l d1
     else rbind (add_label e l d1) (\<lambda>(l1, d2). deprioritizeThread e l1 d2))"

definition visitUnlock :: "'f Env \<Rightarrow> ('f Driver \<Rightarrow> 'f Driver res) \<Rightarrow> nat \<Rightarrow> Event \<Rightarrow> SAddr \<Rightarrow> ASize \<Rightarrow> 'f Driver \<Rightarrow> 'f Driver res" where
  "visitUnlock e explore n pos a sz d =
     (if persevere (eConf e) \<and> dRecovery d then Ok d
      else if LAPOR (eConf e) then visitUnlockLAPOR e (UnlockLabelLAPOR pos a) d
      else visitStore e explore n (UnlockWriteLabel pos a sz) d)"

section \<open>Helping operations\<close>

definition rollToSnapshot :: "('f \<Rightarrow> 'f) \<Rightarrow> 'f Thread \<Rightarrow> 'f Thread" where
  "rollToSnapshot back1 t = t\<lparr>globalInstructions := globalInstSnap t, ecStack := butlast (ecStack t) @ [back1 (last (ecStack t))]\<rparr>"

definition visitHelpingCas :: "'f Env \<Rightarrow> EventLabel \<Rightarrow> 'f Driver \<Rightarrow> 'f Driver res" where
  "visitHelpingCas e l d = rbind (isExecutionDrivenByGraph d) (\<lambda>(b, d1).
     if b then Ok d1
     else rbind (checkHelpingCasCondition (dG d1) l) (\<lambda>ok.
       if ok then rbind (add_label e l d1) (\<lambda>(_, d2). Ok d2)
       else rbind (getCurThr d1) (\<lambda>t. if ecStack t = [] then Undef
         else upd_thread (dCur d1) (\<lambda>t. rollToSnapshot (stepBack e) (thr_block BT_HelpedCas t)) d1)))"

section \<open>Disk accesses\<close>

definition visitDskRead :: "'f Env \<Rightarrow> EventLabel \<Rightarrow> 'f Driver \<Rightarrow> (SVal \<times> 'f Driver) res" where
  "visitDskRead e rl d = rbind (isExecutionDrivenByGraph d) (\<lambda>(b, d1).
     if b then rbind (getEventLabel (dG d1) (lpos rl)) (\<lambda>l. rbind (BUG_ON (lkind l \<noteq> EL_DskRead)) (\<lambda>_.
       rbind (getDskWriteValue e (lrf l) (laddr l) (laccess l) d1) (\<lambda>v. Ok (v, d1))))
     else rbind (getRfsApproximation e rl (track_loc (laddr rl) d1)) (\<lambda>(s0, d2). rbind (BUG_ON (s0 = [])) (\<lambda>_.
       rbind (add_read e (if dRecovery d2 then rl\<lparr>lordering := Monotonic\<rparr> else rl) d2) (\<lambda>(l, d3).
       rbind (filterInvalidRecRfs e l s0 d3) (\<lambda>(s1, d4).
       rbind (rfold (\<lambda>s. addToWorklist (ForwardRevisit (lpos l) s False)) (tl s1) d4) (\<lambda>d5.
       rbind (getDskWriteValue e (s1 ! 0) (laddr l) (laccess l) d5) (\<lambda>v. Ok (v, d5))))))))"

definition visitDskWrite :: "'f Env \<Rightarrow> ('f Driver \<Rightarrow> 'f Driver res) \<Rightarrow> nat \<Rightarrow> EventLabel \<Rightarrow> 'f Driver \<Rightarrow> 'f Driver res" where
  "visitDskWrite e explore n wl d = rbind (isExecutionDrivenByGraph d) (\<lambda>(b, d1).
     if b then Ok d1
     else let d2 = track_loc (laddr wl) d1 in
       rbind (getPossiblePlacings (dG d2) (dMO d2) (laddr wl) (lpos wl) False) (\<lambda>((begO, endO), m).
       rbind (BUG_ON (begO \<noteq> endO)) (\<lambda>_.
       rbind (add_label e wl (put_mo m d2)) (\<lambda>(l, d3).
       rbind (addStoreToLoc (dMO d3) (laddr l) (lpos l) endO) (\<lambda>m1.
       rbind (calcRevisits e explore n l (put_mo m1 d3)) (\<lambda>(_, d4). Ok d4))))))"

end
