(* ===== verification/GenMC_Explore.thy ===== *)
theory GenMC_Explore
  imports GenMC_Access
begin

text \<open>
  The exploration (\<open>src/src/GenMCDriver.cpp\<close>) and the loop of the interpreter that it drives
  (\<open>src/src/Execution.cpp\<close>): running the program until no thread can be scheduled, with the markers that bracket
  data-structure calls; the end of an execution; the recovery routine; and taking items off the work queue.

  The checked program is a record of functions: fetching the next instruction of a frame, the method marker of
  an instruction, and the effect of executing it, which calls the handlers of the driver and may explore
  revisits. Fuel bounds the loops and the nesting of explorations; running out of it is \<open>Undef\<close>.
\<close>

section \<open>The checked program\<close>

record ('f, 'i) Prog =
  pSetup :: "'f Driver \<Rightarrow> 'f Driver res"
  pFetch :: "'f \<Rightarrow> 'i \<times> 'f"
  pMarker :: "'i \<Rightarrow> string option"
  pVisit :: "('f Driver \<Rightarrow> 'f Driver res) \<Rightarrow> 'i \<Rightarrow> 'f Driver \<Rightarrow> 'f Driver res"
  pRecovery :: "(nat \<times> 'f) option"
  pRandom :: "nat \<Rightarrow> nat"
  pModel :: DSModel

text \<open>\<open>find()\<close> of \<open>std::string\<close>.\<close>

fun find_sub :: "string \<Rightarrow> string \<Rightarrow> nat option" where
  "find_sub pat [] = (if pat = [] then Some 0 else None)"
| "find_sub pat (c # cs) = (if take (length pat) (c # cs) = pat then Some 0 else map_option Suc (find_sub pat cs))"

text \<open>The name in a start marker, without its first \<open>_start\<close>; \<open>None\<close> is the name of an end marker.\<close>

definition start_marker :: "string \<Rightarrow> string option" where
  "start_marker nm = (case find_sub ''_start'' nm of None \<Rightarrow> None | Some i \<Rightarrow> Some (take i nm @ drop (i + 6) nm))"

section \<open>The loop of the interpreter\<close>

text \<open>Which threads are inside a call is known to one run only.\<close>

definition nextPos :: "'f Driver \<Rightarrow> Event res" where
  "nextPos d = rbind (currPos d) (\<lambda>p. Ok (next_ev p))"

definition end_call :: "'f Env \<Rightarrow> 'f Driver \<Rightarrow> 'f Driver res" where
  "end_call e d = rbind (nextPos d) (\<lambda>p. visitFunctionEnd e (FunEndLabel p) d)"

definition exec_marker :: "'f Env \<Rightarrow> DSModel \<Rightarrow> string \<Rightarrow> (int \<Rightarrow> bool) \<Rightarrow> 'f Driver \<Rightarrow> ((int \<Rightarrow> bool) \<times> 'f Driver) res" where
  "exec_marker e m nm started d =
     rbind (getCurThr d) (\<lambda>t. case start_marker nm of
         Some f \<Rightarrow> let name = checkFunctionName m f in
           if name = FN_NON then Ok (started, d)
           else rbind (if started (thrId t) then end_call e d else Ok d) (\<lambda>d1.
             rbind (nextPos d1) (\<lambda>p. rbind (visitFunctionStart e (FunStartLabel p) name d1) (\<lambda>d2.
               Ok (started(thrId t := True), d2))))
       | None \<Rightarrow> if started (thrId t)
           then rbind (end_call e d) (\<lambda>d1. Ok (started(thrId t := False), d1)) else Ok (started, d))"

definition exec_step :: "('f, 'i) Prog \<Rightarrow> 'f Env \<Rightarrow> ('f Driver \<Rightarrow> 'f Driver res) \<Rightarrow> (int \<Rightarrow> bool) \<Rightarrow> 'f Driver \<Rightarrow>
    ((int \<Rightarrow> bool) \<times> 'f Driver) res" where
  "exec_step P e explore started d =
     rbind (getCurThr d) (\<lambda>t. if ecStack t = [] then Undef
       else let (i, f) = pFetch P (last (ecStack t)) in
         rbind (upd_thread (dCur d) (\<lambda>t. t\<lparr>ecStack := butlast (ecStack t) @ [f]\<rparr>) d) (\<lambda>d1.
           case pMarker P i of Some nm \<Rightarrow> exec_marker e (pModel P) nm started d1
           | None \<Rightarrow> rbind (pVisit P explore i d1) (\<lambda>d2. Ok (started, d2))))"

primrec run :: "('f, 'i) Prog \<Rightarrow> 'f Env \<Rightarrow> ('f Driver \<Rightarrow> 'f Driver res) \<Rightarrow> nat \<Rightarrow> (int \<Rightarrow> bool) \<Rightarrow> 'f Driver \<Rightarrow> 'f Driver res" where
  "run P e explore 0 started d = Undef"
| "run P e explore (Suc n) started d =
     rbind (scheduleNext e (pRandom P n) d) (\<lambda>(b, d1).
       if \<not> b then Ok d1
       else rbind (exec_step P e explore started d1) (\<lambda>(started1, d2). run P e explore n started1 d2))"

section \<open>The end of an execution\<close>

definition helping_unmatched :: "'f Env \<Rightarrow> 'f Driver \<Rightarrow> EventLabel \<Rightarrow> bool res" where
  "helping_unmatched e d h =
     rbind (mo_at (dMO d) (laddr h)) (\<lambda>ws.
     rbind (rany (\<lambda>s. rbind (getWriteLabel (dG d) s) (\<lambda>wl. rbind (deref wl) (\<lambda>w.
         if lexpected h \<noteq> lval w then Ok False
         else rbind (rany (\<lambda>r. rbind (getEventLabel (dG d) r) (\<lambda>q. Ok (lkind q = EL_HelpedCasRead))) (lreaders w)) (\<lambda>b. Ok (\<not> b))))) ws) (\<lambda>bad.
       Ok (bad \<or> isStatic (laddr h) \<and> lexpected h = initVal (eConf e) (laddr h) (laccess h) \<and>
         (\<forall>l \<in> set (labels (dG d)). isa_Read (lkind l) \<and> laddr l = laddr h \<longrightarrow> lkind l \<noteq> EL_HelpedCasRead))))"

definition checkHelpingCasAnnotation :: "'f Env \<Rightarrow> 'f Driver \<Rightarrow> unit res" where
  "checkHelpingCasAnnotation e d =
     (if \<exists>t \<in> set (dThreads d). thrBlocked t = BT_HelpedCas then UserError
      else rbind (rany (helping_unmatched e d) (filter (\<lambda>l. lkind l = EL_HelpingCas) (labels (dG d)))) (\<lambda>b.
        if b then UserError else Ok ()))"

definition count_blocked :: "Result \<Rightarrow> bool \<Rightarrow> Result" where
  "count_blocked r mt = r\<lparr>rsBlocked := rsBlocked r + 1, rsMoot := (if mt then rsMoot r + 1 else rsMoot r)\<rparr>"

definition handleFinishedExecution :: "'f Env \<Rightarrow> 'f Driver \<Rightarrow> 'f Driver res" where
  "handleFinishedExecution e d =
     rbind (isLockWellFormedLAPOR e d) (\<lambda>_.
     rbind (if helper (eConf e) \<and> \<not> dMoot d then checkHelpingCasAnnotation e d else Ok ()) (\<lambda>_.
     rbind (isExecutionBlocked d) (\<lambda>bl.
       if bl \<or> dMoot d
       then let d1 = d\<lparr>dResult := count_blocked (dResult d) (dMoot d)\<rparr> in
         if checkLivenessOpt (eConf e) \<and> \<not> dMoot d then checkLiveness e d1 else Ok d1
       else rbind (if checkConsPoint (eConf e) = PP_exec then isConsistent_dr e PP_exec d else Ok (True, d)) (\<lambda>(c, d1).
         Ok (if \<not> c then d1 else d1\<lparr>dResult := (dResult d1)\<lparr>rsExplored := rsExplored (dResult d1) + 1\<rparr>\<rparr>)))))"

definition runAsMain :: "('f, 'i) Prog \<Rightarrow> 'f Env \<Rightarrow> ('f Driver \<Rightarrow> 'f Driver res) \<Rightarrow> nat \<Rightarrow> 'f Driver \<Rightarrow> 'f Driver res" where
  "runAsMain P e explore n d =
     rbind (pSetup P d) (\<lambda>d1. rbind (handleExecutionBeginning e (d1\<lparr>dRecovery := False\<rparr>)) (\<lambda>d2.
     rbind (run P e explore n (\<lambda>_. False) d2) (handleFinishedExecution e)))"

section \<open>The recovery routine\<close>

text \<open>A new thread in the graph and in the interpreter, whose only frame is that of the recovery routine.\<close>

definition add_recovery_thread :: "(nat \<times> 'f) option \<Rightarrow> int \<Rightarrow> 'f Driver \<Rightarrow> 'f Driver res" where
  "add_recovery_thread rt tid d = (case rt of None \<Rightarrow> UserError
     | Some (F, SF) \<Rightarrow> rbind (createAddNewThread F 0 tid (- 1) SF d) (\<lambda>d1. Ok (scheduleThread tid d1)))"

definition handleRecoveryStart :: "('f, 'i) Prog \<Rightarrow> 'f Env \<Rightarrow> 'f Driver \<Rightarrow> 'f Driver res" where
  "handleRecoveryStart P e d =
     rbind (isExecutionBlocked d) (\<lambda>bl. if bl then Ok d
       else let g = (if recoveryTID (dG d) = - 1 then addRecoveryThread (dG d) else dG d);
                tid = recoveryTID g;
                psb = collectAllEvents g (\<lambda>l. lkind l = EL_DskPbarrier) in
         if length psb > 1 then UserError
         else let (st, g1) = nextStamp g in
           rbind (add_label e (ThreadStartLabel st Acquire (Event tid 0) (if psb = [] then getInitializer else last psb) (- 1)) (put_graph g1 d)) (\<lambda>(_, d1).
             add_recovery_thread (pRecovery P) tid d1))"

definition handleRecoveryEnd :: "'f Driver \<Rightarrow> 'f Driver" where
  "handleRecoveryEnd d = scheduleThread 0 d"

definition runRecovery :: "('f, 'i) Prog \<Rightarrow> 'f Env \<Rightarrow> ('f Driver \<Rightarrow> 'f Driver res) \<Rightarrow> nat \<Rightarrow> 'f Driver \<Rightarrow> 'f Driver res" where
  "runRecovery P e explore n d =
     rbind (handleRecoveryStart P e (d\<lparr>dRecovery := True\<rparr>)) (\<lambda>d1.
     rbind (run P e explore n (\<lambda>_. False) d1) (\<lambda>d2. Ok (handleRecoveryEnd d2)))"

text \<open>The view for a replay leaves out the blocks at the ends of threads; computing it takes a stamp.\<close>

definition getReplayView :: "ExecutionGraph \<Rightarrow> (View \<times> ExecutionGraph) res" where
  "getReplayView g =
     (let (st, g1) = nextStamp g in
      rbind (rfold (\<lambda>i v. rbind (getLastThreadLabel g1 i) (\<lambda>l.
          if lkind l = EL_Block then rbind (view_get v i) (\<lambda>k. view_set v i (k - 1)) else Ok v))
        [0..int (numThreads g1) - 1] (getViewFromStamp g1 st)) (\<lambda>v. Ok (v, g1)))"

section \<open>Exploring\<close>

text \<open>The inner loop takes items until one gives a valid execution; no item ends the exploration.\<close>

primrec next_execution :: "'f Env \<Rightarrow> ('f Driver \<Rightarrow> 'f Driver res) \<Rightarrow> nat \<Rightarrow> nat \<Rightarrow> 'f Driver \<Rightarrow> (bool \<times> 'f Driver) res" where
  "next_execution e explore m 0 d = Undef"
| "next_execution e explore m (Suc k) d =
     rbind (resetExplorationOptions e d) (\<lambda>d1. case getNextItem d1 of
         (None, d2) \<Rightarrow> Ok (False, d2)
       | (Some item, d2) \<Rightarrow> rbind (restrictAndRevisit e explore m item d2) (\<lambda>(valid, d3).
           rbind (if valid then isConsistent_dr e PP_step d3 else Ok (False, d3)) (\<lambda>(c, d4).
             if c then Ok (True, d4) else next_execution e explore m k d4)))"

definition enter_explore :: "('f Driver \<Rightarrow> 'f Driver res) \<Rightarrow> 'f Driver \<Rightarrow> 'f Driver res" where
  "enter_explore loop d = rbind (BUG_ON (\<not> isInitializer (dResched d))) (\<lambda>_. loop (unmoot d))"

primrec explore_loop :: "('f, 'i) Prog \<Rightarrow> 'f Env \<Rightarrow> nat \<Rightarrow> 'f Driver \<Rightarrow> 'f Driver res" where
  "explore_loop P e 0 d = Undef"
| "explore_loop P e (Suc n) d =
     (let ex = enter_explore (explore_loop P e n) in
      rbind (reset_all d) (\<lambda>d1. rbind (runAsMain P e ex n d1) (\<lambda>d2.
      rbind (if persevere (eConf e) then runRecovery P e ex n d2 else Ok d2) (\<lambda>d3.
      rbind (next_execution e ex n n d3) (\<lambda>(more, d4). if more then explore_loop P e n d4 else reset_all d4)))))"

definition explore :: "('f, 'i) Prog \<Rightarrow> 'f Env \<Rightarrow> nat \<Rightarrow> 'f Driver \<Rightarrow> 'f Driver res" where
  "explore P e n = enter_explore (explore_loop P e n)"

text \<open>The results of the drivers of several workers are added up.\<close>

definition verify :: "Result list \<Rightarrow> Result" where
  "verify rs = foldl result_add result_init rs"

end
