(* ===== verification/GenMC_DriverProps.thy ===== *)
theory GenMC_DriverProps
  imports GenMC_Explore GenMC_MOProps "HOL-Library.Multiset"
begin

text \<open>
  What the exploration driver guarantees: the order in which work items are taken, which thread is scheduled,
  that memory that passes the race checks is allocated, initialised and not freed, and what a thread that is
  stuck in a spin loop has read.
\<close>

section \<open>The work queue\<close>

definition work_ok :: "(nat \<times> 'v) list \<Rightarrow> bool" where
  "work_ok ws \<longleftrightarrow> sorted_wrt (<) (map fst ws)"

lemma work_ok_Cons [simp]: "work_ok (p # ws) \<longleftrightarrow> (\<forall>q \<in> set ws. fst p < fst q) \<and> work_ok ws"
  by (auto simp: work_ok_def)

lemma work_ok_Nil [simp]: "work_ok []"
  by (simp add: work_ok_def)

lemma fst_smap_put: "set (map fst (smap_put k v ws)) = insert k (set (map fst ws))"
  by (induction ws) auto

lemma work_ok_smap_put [simp]: "work_ok ws \<Longrightarrow> work_ok (smap_put k v ws)"
proof (induction ws)
  case (Cons p ws)
  moreover have "\<forall>q \<in> set (smap_put k v ws). fst p < fst q" if "fst p < k"
    using that Cons.prems fst_smap_put [of k v ws] by (auto simp: image_iff set_eq_iff) (metis fst_conv)
  ultimately show ?case by auto
qed simp

lemma map_of_smap_put [simp]: "map_of (smap_put k v ws) = (map_of ws)(k \<mapsto> v)"
  by (induction ws) (auto simp: fun_eq_iff)

lemma smap_get_map_of: "smap_get k ws = (case map_of ws k of None \<Rightarrow> [] | Some v \<Rightarrow> v)"
  by (induction ws) auto

lemma work_ok_distinct: "work_ok ws \<Longrightarrow> distinct (map fst ws)"
  by (induction ws) auto

lemma work_ok_mem: "work_ok ws \<Longrightarrow> (k, w) \<in> set ws \<longleftrightarrow> map_of ws k = Some w"
  using work_ok_distinct [of ws] by (metis map_of_eq_Some_iff)

lemma next_item_None: "next_item ws = None \<longleftrightarrow> (\<forall>(k, w) \<in> set ws. w = [])"
  by (induction ws rule: next_item.induct) auto

lemma next_item_Some:
  "next_item ws = Some (r, (k, w)) \<Longrightarrow> \<exists>xs ys. ws = xs @ (k, w @ [r]) # ys \<and> (\<forall>(j, u) \<in> set xs. u = [])"
proof (induction ws rule: next_item.induct)
  case (2 k' w' ps)
  show ?case
  proof (cases "w' = []")
    case True
    with 2 obtain xs ys where "ps = xs @ (k, w @ [r]) # ys" "\<forall>(j, u) \<in> set xs. u = []" by auto
    then have "(k', w') # ps = ((k', w') # xs) @ (k, w @ [r]) # ys" "\<forall>(j, u) \<in> set ((k', w') # xs). u = []"
      using True by auto
    then show ?thesis by blast
  next
    case False
    then have "(k', w') # ps = [] @ (k, w @ [r]) # ps" using 2(2) by (cases w' rule: rev_cases) auto
    then show ?thesis by (metis empty_iff list.set(1))
  qed
qed simp

text \<open>The work queue is a stack ordered by stamps: the next item is the one that was added last among those of
  the largest stamp that has any, nothing else changes, and there is no item only when all sets are empty.\<close>

theorem getNextItem_latest:
  assumes "work_ok (dWork d)"
  shows "case getNextItem d of (None, d') \<Rightarrow> d' = d \<and> (\<forall>(k, w) \<in> set (dWork d). w = [])
    | (Some r, d') \<Rightarrow> \<exists>k w. (k, w @ [r]) \<in> set (dWork d) \<and> (\<forall>(j, u) \<in> set (dWork d). u \<noteq> [] \<longrightarrow> j \<le> k) \<and>
        d' = d\<lparr>dWork := dWork d'\<rparr> \<and> work_ok (dWork d') \<and> map_of (dWork d') = (map_of (dWork d))(k \<mapsto> w)"
proof (cases "next_item (rev (dWork d))")
  case None
  then have "getNextItem d = (None, d)" by (simp add: getNextItem_def)
  then show ?thesis using None by (auto simp: next_item_None)
next
  case (Some p)
  then obtain r k w where p: "next_item (rev (dWork d)) = Some (r, (k, w))" by (cases p) auto
  then obtain xs ys where "rev (dWork d) = xs @ (k, w @ [r]) # ys" and e: "\<forall>(j, u) \<in> set xs. u = []"
    using next_item_Some by blast
  then have ws: "dWork d = rev ys @ (k, w @ [r]) # rev xs" by (simp add: rev_swap)
  then have "j \<le> k" if "(j, u) \<in> set (dWork d)" "u \<noteq> []" for j u
    using that e assms by (auto simp: work_ok_def sorted_wrt_append)
  then show ?thesis using p ws assms by (auto simp: getNextItem_def)
qed

theorem getNextItem_latest_witness:
  "fst (getNextItem ((undefined :: nat Driver)\<lparr>dWork := [(3, [OptionalRevisit (Event 1 1), OptionalRevisit (Event 1 2)]), (5, [])]\<rparr>))
    = Some (OptionalRevisit (Event 1 2))"
proof -
  define d where "d = (undefined :: nat Driver)\<lparr>dWork := [(3, [OptionalRevisit (Event 1 1), OptionalRevisit (Event 1 2)]), (5, [])]\<rparr>"
  have ok: "work_ok (dWork d)" by (simp add: d_def)
  obtain r d' where g: "getNextItem d = (r, d')" by (cases "getNextItem d")
  have "r = Some (OptionalRevisit (Event 1 2))"
    using getNextItem_latest [OF ok] unfolding g by (cases r) (auto simp: d_def)
  then show ?thesis using g by (simp add: d_def)
qed


lemma next_item_rev:
  assumes "work_ok ws" and "(k, w @ [r]) \<in> set ws" and "\<forall>(j, u) \<in> set ws. u \<noteq> [] \<longrightarrow> j \<le> k"
  shows "next_item (rev ws) = Some (r, (k, w))"
proof (cases "next_item (rev ws)")
  case None
  then show ?thesis using assms(2) by (auto simp: next_item_None)
next
  case (Some p)
  then obtain s j u where p: "p = (s, (j, u))" by (cases p) auto
  then obtain xs ys where x: "rev ws = xs @ (j, u @ [s]) # ys" "\<forall>(j, u) \<in> set xs. u = []"
    using next_item_Some Some by blast
  then have ws: "ws = rev ys @ (j, u @ [s]) # rev xs" by (simp add: rev_swap)
  then have "j \<le> k" using assms(3) by auto
  moreover have "(k, w @ [r]) \<notin> set xs" using x(2) by auto
  moreover have "l < j" if "(l, v) \<in> set ys" for l v using that assms(1) ws by (auto simp: work_ok_def sorted_wrt_append)
  ultimately have "(k, w @ [r]) = (j, u @ [s])" using assms(2) unfolding ws by force
  then show ?thesis using Some p by simp
qed

lemma smap_get_put [simp]: "work_ok ws \<Longrightarrow> smap_get j (smap_put k v ws) = (if j = k then v else smap_get j ws)"
  by (simp add: smap_get_map_of)

text \<open>Taking an item off the queue undoes adding it: an item whose event has a stamp that no later item exceeds
  is the next one, and taking it leaves every set of the queue as it was before the item was added.\<close>

theorem addToWorklist_getNextItem:
  assumes "addToWorklist item d = Ok d1" and "work_ok (dWork d)" and "getEventLabel (dG d) (rv_pos item) = Ok l"
    and "\<forall>(k, w) \<in> set (dWork d). w \<noteq> [] \<longrightarrow> k \<le> lstamp l"
  shows "fst (getNextItem d1) = Some item \<and> work_ok (dWork d1) \<and>
    smap_get k (dWork (snd (getNextItem d1))) = smap_get k (dWork d)"
proof -
  let ?w = "smap_get (lstamp l) (dWork d)"
  have d1: "dWork d1 = smap_put (lstamp l) (?w @ [item]) (dWork d)"
    using assms(1,3) by (auto simp: addToWorklist_def workset_add_def)
  have ok: "work_ok (dWork d1)" using assms(2) d1 by simp
  have mem: "(j, u) \<in> set (dWork d1) \<longleftrightarrow> (if j = lstamp l then u = ?w @ [item] else (j, u) \<in> set (dWork d))" for j u
    using work_ok_mem [OF ok] work_ok_mem [OF assms(2)] d1 by auto
  then have "(lstamp l, ?w @ [item]) \<in> set (dWork d1)" by simp
  moreover have "\<forall>(j, u) \<in> set (dWork d1). u \<noteq> [] \<longrightarrow> j \<le> lstamp l" using mem assms(4) by (auto split: if_splits)
  ultimately have "next_item (rev (dWork d1)) = Some (item, (lstamp l, ?w))" by (rule next_item_rev [OF ok])
  then show ?thesis using ok assms(2) d1 by (simp add: getNextItem_def)
qed


definition race_graph :: ExecutionGraph where
  "race_graph = graph_init\<lparr>events := [[mkLabel EL_ThreadStart 0 Acquire (Event 0 0), (mkLabel EL_Malloc 1 NotAtomic (Event 0 1))\<lparr>lallocAddr := 64, lallocSize := 8\<rparr>,
     (mkLabel EL_Write 2 NotAtomic (Event 0 2))\<lparr>laddr := 64, hbView := [2]\<rparr>, (mkLabel EL_Read 3 NotAtomic (Event 0 3))\<lparr>laddr := 64\<rparr>]]\<rparr>"

definition driver_on :: "ExecutionGraph \<Rightarrow> nat list list \<Rightarrow> nat Driver" where
  "driver_on g stacks = undefined\<lparr>dCons := undefined\<lparr>cGraph := g, cPriv := (\<lparr>mo_stores = [], mo_ooo = False\<rparr>, [])\<rparr>,
     dThreads := map (\<lambda>(i, st). undefined\<lparr>thrId := int i, ecStack := st, thrBlocked := NotBlocked\<rparr>) (enumerate 0 stacks), dCur := 0,
     dMoot := False, dHalt := False, dPrios := []\<rparr>"

definition work_ex :: "nat Driver" where
  "work_ex = (driver_on race_graph [[0]])\<lparr>dWork := [(1, [OptionalRevisit (Event 0 1)]), (5, [])]\<rparr>"

theorem addToWorklist_getNextItem_witness:
  "\<exists>d1. addToWorklist (OptionalRevisit (Event 0 3)) work_ex = Ok d1 \<and> fst (getNextItem d1) = Some (OptionalRevisit (Event 0 3))
    \<and> smap_get 1 (dWork (snd (getNextItem d1))) = [OptionalRevisit (Event 0 1)]"
proof -
  have l: "getEventLabel (dG work_ex) (rv_pos (OptionalRevisit (Event 0 3))) = Ok ((mkLabel EL_Read 3 NotAtomic (Event 0 3))\<lparr>laddr := 64\<rparr>)"
    by (simp add: dG_def work_ex_def driver_on_def race_graph_def getEventLabel_def vec_get_int_def vec_get_def)
  then obtain d1 where d1: "addToWorklist (OptionalRevisit (Event 0 3)) work_ex = Ok d1" by (auto simp: addToWorklist_def)
  have "work_ok (dWork work_ex)" "\<forall>(k, w) \<in> set (dWork work_ex). w \<noteq> [] \<longrightarrow> k \<le> 3" by (simp_all add: work_ex_def)
  then show ?thesis using addToWorklist_getNextItem [OF d1 _ l, of 1] d1 by (simp add: work_ex_def mkLabel_def)
qed

text \<open>The items on the queue, and what happens to it over time: items are added and taken, empty sets of newer events
  are removed, and the driver does other things that leave the queue alone. \<open>A\<close> are the items added and \<open>T\<close> those
  taken, in order.\<close>

definition queued :: "'f Driver \<Rightarrow> Revisit multiset" where
  "queued d = mset (concat (map snd (dWork d)))"

inductive served :: "'f Driver \<Rightarrow> Revisit list \<Rightarrow> Revisit list \<Rightarrow> 'f Driver \<Rightarrow> bool" for d where
  served_start: "served d [] [] d"
| served_add: "served d A T d1 \<Longrightarrow> addToWorklist i d1 = Ok d2 \<Longrightarrow> served d (A @ [i]) T d2"
| served_take: "served d A T d1 \<Longrightarrow> getNextItem d1 = (Some i, d2) \<Longrightarrow> served d A (T @ [i]) d2"
| served_restrict: "served d A T d1 \<Longrightarrow> served d A T (restrictWorklist l d1)"
| served_other: "served d A T d1 \<Longrightarrow> dWork d2 = dWork d1 \<Longrightarrow> served d A T d2"

lemma queued_put:
  "work_ok ws \<Longrightarrow> mset (concat (map snd (smap_put k v ws))) + mset (smap_get k ws) = mset (concat (map snd ws)) + mset v"
proof (induction ws)
  case (Cons p ws)
  have "smap_get k ws = []" if "k < fst p"
    using that Cons.prems by (auto simp: smap_get_map_of dest!: map_of_SomeD split: option.splits)
  then show ?case using Cons by (auto simp: ac_simps)
qed simp

lemma queued_filter: "mset (concat (map snd (filter (\<lambda>(k, w). \<not> (P k \<and> w = [])) ws))) = mset (concat (map snd ws))"
  by (induction ws) auto

lemma queued_add:
  assumes "addToWorklist i d = Ok d1" and "work_ok (dWork d)"
  shows "work_ok (dWork d1) \<and> queued d1 = add_mset i (queued d)"
proof -
  have "\<exists>k. dWork d1 = smap_put k (smap_get k (dWork d) @ [i]) (dWork d)"
    using assms(1) unfolding addToWorklist_def workset_add_def by (cases "getEventLabel (dG d) (rv_pos i)") auto
  then obtain k where "dWork d1 = smap_put k (smap_get k (dWork d) @ [i]) (dWork d)" by blast
  then show ?thesis using queued_put [OF assms(2), of k "smap_get k (dWork d) @ [i]"] assms(2)
    by (simp add: queued_def)
qed

lemma queued_take:
  assumes "getNextItem d = (Some i, d1)" and "work_ok (dWork d)"
  shows "work_ok (dWork d1) \<and> queued d = add_mset i (queued d1)"
proof -
  obtain k w where n: "next_item (rev (dWork d)) = Some (i, (k, w))" "d1 = d\<lparr>dWork := smap_put k w (dWork d)\<rparr>"
    using assms(1) by (auto simp: getNextItem_def split: option.splits)
  have "(k, w @ [i]) \<in> set (dWork d)" using next_item_Some [OF n(1)] by (metis in_set_conv_decomp set_rev)
  then have "smap_get k (dWork d) = w @ [i]" using work_ok_mem [OF assms(2)] by (simp add: smap_get_map_of)
  then show ?thesis using queued_put [OF assms(2), of k w] n(2) assms(2) by (simp add: queued_def)
qed

lemma served_queued:
  "served d A T d' \<Longrightarrow> work_ok (dWork d) \<Longrightarrow> work_ok (dWork d') \<and> mset T + queued d' = queued d + mset A"
proof (induction rule: served.induct)
  case (served_add A T d1 i d2)
  then show ?case using queued_add [of i d1 d2] by simp
next
  case (served_take A T d1 i d2)
  then show ?case using queued_take [of d1 i d2] by simp
next
  case (served_restrict A T d1 l)
  have "queued (restrictWorklist l d1) = queued d1"
    using queued_filter [of "\<lambda>k. k > lstamp l" "dWork d1"] by (simp add: queued_def restrictWorklist_def)
  moreover have "work_ok (dWork (restrictWorklist l d1))"
    using served_restrict by (simp add: work_ok_def restrictWorklist_def sorted_wrt_map sorted_wrt_filter)
  ultimately show ?case using served_restrict by simp
qed (simp_all add: queued_def)

text \<open>C3: no item of the work queue is lost or examined twice. However additions, removals and the clean-up of the
  queue are mixed, the items taken so far and those still queued are together, with their multiplicities, the items
  that were there at the start and those added since; the driver finds no item exactly when none is left, so then
  all of them have been taken. Otherwise the next item is the one that was added last among those of the largest
  stamp.\<close>

theorem workqueue_serves_all:
  assumes "served d A T d'" and "work_ok (dWork d)"
  shows "mset T + queued d' = queued d + mset A \<and> (case getNextItem d' of (None, d'') \<Rightarrow> queued d' = {#} \<and> mset T = queued d + mset A
      | (Some i, d'') \<Rightarrow> queued d' = add_mset i (queued d'') \<and>
          (\<exists>k w. (k, w @ [i]) \<in> set (dWork d') \<and> (\<forall>(j, u) \<in> set (dWork d'). u \<noteq> [] \<longrightarrow> j \<le> k)))"
proof -
  have s: "work_ok (dWork d')" "mset T + queued d' = queued d + mset A" using served_queued [OF assms] by simp_all
  show ?thesis
  proof (cases "next_item (rev (dWork d'))")
    case None
    then have "getNextItem d' = (None, d')" "\<forall>(k, w) \<in> set (dWork d'). w = []"
      using next_item_None [of "rev (dWork d')"] by (simp_all add: getNextItem_def)
    moreover from this(2) have "queued d' = {#}" by (auto simp: queued_def)
    ultimately show ?thesis using s(2) by simp
  next
    case (Some p)
    then obtain i k w where n: "next_item (rev (dWork d')) = Some (i, (k, w))" by (cases p) auto
    then obtain d'' where g: "getNextItem d' = (Some i, d'')" by (simp add: getNextItem_def)
    obtain xs ys where "rev (dWork d') = xs @ (k, w @ [i]) # ys" and e: "\<forall>(j, u) \<in> set xs. u = []" using next_item_Some [OF n] by blast
    then have ws: "dWork d' = rev ys @ (k, w @ [i]) # rev xs" by (simp add: rev_swap)
    then have "j \<le> k" if "(j, u) \<in> set (dWork d')" "u \<noteq> []" for j u
      using that e s(1) by (auto simp: work_ok_def sorted_wrt_append)
    then have "\<exists>k w. (k, w @ [i]) \<in> set (dWork d') \<and> (\<forall>(j, u) \<in> set (dWork d'). u \<noteq> [] \<longrightarrow> j \<le> k)" using ws by auto
    then show ?thesis using g queued_take [OF g s(1)] s(2) by simp
  qed
qed

theorem workqueue_serves_all_witness:
  "\<exists>d1 d2 d3. addToWorklist (OptionalRevisit (Event 0 3)) work_ex = Ok d1 \<and> getNextItem d1 = (Some (OptionalRevisit (Event 0 3)), d2)
    \<and> getNextItem d2 = (Some (OptionalRevisit (Event 0 1)), d3) \<and> queued d3 = {#}"
proof -
  have l: "getEventLabel (dG work_ex) (rv_pos (OptionalRevisit (Event 0 3))) = Ok ((mkLabel EL_Read 3 NotAtomic (Event 0 3))\<lparr>laddr := 64\<rparr>)"
    by (simp add: dG_def work_ex_def driver_on_def race_graph_def getEventLabel_def vec_get_int_def vec_get_def)
  define d1 where "d1 = work_ex\<lparr>dWork := [(1, [OptionalRevisit (Event 0 1)]), (3, [OptionalRevisit (Event 0 3)]), (5, [])]\<rparr>"
  define d2 where "d2 = work_ex\<lparr>dWork := [(1, [OptionalRevisit (Event 0 1)]), (3, []), (5, [])]\<rparr>"
  define d3 where "d3 = work_ex\<lparr>dWork := [(1, []), (3, []), (5, [])]\<rparr>"
  have s: "addToWorklist (OptionalRevisit (Event 0 3)) work_ex = Ok d1" "getNextItem d1 = (Some (OptionalRevisit (Event 0 3)), d2)"
    "getNextItem d2 = (Some (OptionalRevisit (Event 0 1)), d3)"
    using l by (simp_all add: addToWorklist_def getNextItem_def workset_add_def d1_def d2_def d3_def mkLabel_def work_ex_def)
  have "served work_ex [OptionalRevisit (Event 0 3)] [OptionalRevisit (Event 0 3), OptionalRevisit (Event 0 1)] d3"
    using served_take [OF served_take [OF served_add [OF served_start s(1)] s(2)] s(3)] by simp
  from workqueue_serves_all [OF this]
  have "queued d3 = {#}" by (simp add: work_ex_def queued_def)
  then show ?thesis using s by blast
qed

section \<open>Scheduling\<close>

lemma wf_loop_Some: "wf_loop e d is (Some j) = Ok r \<Longrightarrow> r = Some j \<or>
    (\<exists>i \<in> set is. r = Some i \<and> isSchedulable d i = Ok True \<and> isNextThreadInstLoad e d i = Ok False)"
proof (induction "is")
  case (Cons i "is")
  then show ?case by (auto simp: res_simps split: if_splits)
qed simp

lemma wf_loop_loads:
  assumes "wf_loop e d is fb = Ok r" and "\<forall>i \<in> set is. isSchedulable d i = Ok True \<longrightarrow> isNextThreadInstLoad e d i \<noteq> Ok False"
  shows "r = (case fb of Some j \<Rightarrow> Some j | None \<Rightarrow> find (\<lambda>i. isSchedulable d i = Ok True) is)"
  using assms
proof (induction "is" arbitrary: fb)
  case (Cons i "is")
  then obtain b where b: "isSchedulable d i = Ok b" by (auto simp: res_simps)
  show ?case
  proof (cases b)
    case False
    then have "wf_loop e d is fb = Ok r" using Cons.prems(1) b by simp
    then show ?thesis using Cons.IH [of fb] Cons.prems(2) b False by (auto split: option.splits)
  next
    case True
    then have "isNextThreadInstLoad e d i = Ok True" using Cons.prems b by (auto simp: res_simps split: if_splits)
    then have "wf_loop e d is (if fb = None then Some i else fb) = Ok r" using Cons.prems(1) b True by simp
    then have "r = (case (if fb = None then Some i else fb) of Some j \<Rightarrow> Some j | None \<Rightarrow> find (\<lambda>i. isSchedulable d i = Ok True) is)"
      using Cons.IH Cons.prems(2) by simp
    then show ?thesis using b True by (cases fb) simp_all
  qed
qed (simp split: option.splits)

lemma wf_loop_nonload:
  assumes "wf_loop e d is fb = Ok r" and "\<exists>i \<in> set is. isSchedulable d i = Ok True \<and> isNextThreadInstLoad e d i = Ok False"
  shows "r = find (\<lambda>i. isSchedulable d i = Ok True \<and> isNextThreadInstLoad e d i = Ok False) is"
  using assms
proof (induction "is" arbitrary: fb)
  case (Cons i "is")
  then show ?case by (auto simp: res_simps split: if_splits)
qed simp

text \<open>The write-first policy picks the first thread that can be scheduled and whose next instruction is no load;
  when there is none, the first thread that can be scheduled; and when there is none of those either, it gives up
  and leaves the driver alone.\<close>

theorem scheduleNextWF_policy:
  assumes "scheduleNextWF e d = Ok (b, d')"
  defines "is \<equiv> [0..int (numThreads (dG d)) - 1]"
  shows "(b, d') = schedule_opt d (case find (\<lambda>i. isSchedulable d i = Ok True \<and> isNextThreadInstLoad e d i = Ok False) is of
      Some i \<Rightarrow> Some i | None \<Rightarrow> find (\<lambda>i. isSchedulable d i = Ok True) is)"
proof -
  obtain r where r: "wf_loop e d is None = Ok r" "(b, d') = schedule_opt d r"
    using assms by (auto simp: scheduleNextWF_def res_simps)
  show ?thesis
  proof (cases "find (\<lambda>i. isSchedulable d i = Ok True \<and> isNextThreadInstLoad e d i = Ok False) is")
    case None
    then have "r = find (\<lambda>i. isSchedulable d i = Ok True) is" using wf_loop_loads [OF r(1)] by (auto simp: find_None_iff)
    then show ?thesis using r None by simp
  next
    case (Some i)
    then have "\<exists>i \<in> set is. isSchedulable d i = Ok True \<and> isNextThreadInstLoad e d i = Ok False"
      by (auto simp: find_Some_iff)
    then show ?thesis using wf_loop_nonload [OF r(1)] r(2) Some by simp
  qed
qed

definition two_threads :: "nat Driver" where
  "two_threads = driver_on (graph_init\<lparr>events := [[mkLabel EL_ThreadStart 0 Acquire (Event 0 0)], [mkLabel EL_ThreadStart 0 Acquire (Event 1 0)]]\<rparr>) [[0], [1]]"

theorem scheduleNextWF_policy_witness:
  "\<exists>d'. scheduleNextWF (undefined\<lparr>isLoadFrame := (\<lambda>f. f = (0 :: nat))\<rparr>) two_threads = Ok (True, d') \<and> dCur d' = 1"
proof -
  define e where "e = (undefined :: nat Env)\<lparr>isLoadFrame := (\<lambda>f. f = (0 :: nat))\<rparr>"
  have n: "[0..int (numThreads (dG two_threads)) - 1] = [0, 1]"
    by (simp add: dG_def two_threads_def driver_on_def upto_rec1)
  have s: "isSchedulable two_threads 0 = Ok True" "isSchedulable two_threads 1 = Ok True"
    "isNextThreadInstLoad e two_threads 0 = Ok True" "isNextThreadInstLoad e two_threads 1 = Ok False"
    by (simp_all add: e_def isSchedulable_def isNextThreadInstLoad_def getThrById_def two_threads_def driver_on_def vec_get_int_def vec_get_def
        dG_def getLastThreadLabel_def getEventLabel_def thr_isBlocked_def denotesThreadEnd_def getLastThreadEvent_def getThreadSize_def enumerate_eq_zip)
  obtain b d' where r: "scheduleNextWF e two_threads = Ok (b, d')"
    by (simp add: scheduleNextWF_def n s schedule_opt_def)
  from scheduleNextWF_policy [OF this] have "(b, d') = (True, scheduleThread 1 two_threads)"
    unfolding n by (simp add: s schedule_opt_def)
  then show ?thesis using r unfolding e_def [symmetric] by (auto simp: scheduleThread_def)
qed

section \<open>Races on dynamic memory\<close>

text \<open>What the loop over the labels guarantees when it finds no error.\<close>

lemma mem_race_step_Inr:
  assumes "mem_race_step l v w st = Ok (Inr st')"
  shows "isa_Free (lkind w) \<Longrightarrow> free_contains w (laddr l) \<Longrightarrow> lkind w = EL_HpRetire \<and> msHaz st' \<noteq> None"
    and "lkind w = EL_Malloc \<Longrightarrow> malloc_contains w (laddr l) \<Longrightarrow> view_contains v (lpos w) = Ok True"
    and "msAlloc st' = Some a \<Longrightarrow> msAlloc st = Some a \<or> a = w \<and> lkind w = EL_Malloc \<and> malloc_contains w (laddr l)"
    and "msInit st' = Some i \<Longrightarrow> msInit st = Some i \<or> i = w \<and> isa_Write (lkind w) \<and> laddr w = laddr l \<and> view_contains v (lpos w) = Ok True"
    and "msHaz st \<noteq> None \<Longrightarrow> msHaz st' \<noteq> None"
proof -
  define fr where "fr \<longleftrightarrow> isa_Free (lkind w) \<and> free_contains w (laddr l)"
  define ma where "ma \<longleftrightarrow> lkind w = EL_Malloc \<and> malloc_contains w (laddr l)"
  define wr where "wr \<longleftrightarrow> isa_Write (lkind w) \<and> laddr w = laddr l"
  note step = assms [unfolded mem_race_step_def Let_def, folded fr_def ma_def wr_def, unfolded conj_assoc [symmetric], folded fr_def]
  have fr: "fr \<Longrightarrow> lkind w = EL_HpRetire" using step by (simp split: if_splits)
  define st1 where "st1 = (if fr then st\<lparr>msHaz := Some w\<rparr> else st)"
  have "\<not> (fr \<and> lkind w \<noteq> EL_HpRetire)" using fr by blast
  then obtain r where r: "(if ma then rbind (view_contains v (lpos w)) (\<lambda>b.
        Ok (if \<not> b then Inl (VS_AccessNonMalloc, lpos w) else Inr (st1\<lparr>msAlloc := Some w\<rparr>))) else Ok (Inr st1)) = Ok r"
      "(case r of Inl x \<Rightarrow> Ok (Inl x) | Inr st2 \<Rightarrow>
        if wr then rbind (view_contains v (lpos w)) (\<lambda>b. Ok (Inr (if b then st2\<lparr>msInit := Some w\<rparr> else st2)))
        else Ok (Inr st2)) = Ok (Inr st')"
    using step unfolding rbind_Ok_iff [symmetric] st1_def [symmetric] by (auto simp: res_simps)
  then obtain st2 where "r = Inr st2" by (cases r) simp_all
  then have st2: "if ma then view_contains v (lpos w) = Ok True \<and> st2 = st1\<lparr>msAlloc := Some w\<rparr> else st2 = st1"
    using r(1) by (simp add: res_simps split: if_splits)
  have st': "st' = st2 \<or> wr \<and> view_contains v (lpos w) = Ok True \<and> st' = st2\<lparr>msInit := Some w\<rparr>"
    using r(2) \<open>r = Inr st2\<close> by (auto simp: res_simps split: if_splits)
  show "isa_Free (lkind w) \<Longrightarrow> free_contains w (laddr l) \<Longrightarrow> lkind w = EL_HpRetire \<and> msHaz st' \<noteq> None"
    using fr st' st2 by (auto simp: fr_def st1_def split: if_splits)
  show "lkind w = EL_Malloc \<Longrightarrow> malloc_contains w (laddr l) \<Longrightarrow> view_contains v (lpos w) = Ok True"
    using st2 by (simp add: ma_def)
  show "msAlloc st' = Some a \<Longrightarrow> msAlloc st = Some a \<or> a = w \<and> lkind w = EL_Malloc \<and> malloc_contains w (laddr l)"
    using st' st2 by (auto simp: ma_def st1_def split: if_splits)
  show "msInit st' = Some i \<Longrightarrow> msInit st = Some i \<or> i = w \<and> isa_Write (lkind w) \<and> laddr w = laddr l \<and> view_contains v (lpos w) = Ok True"
    using st' st2 by (auto simp: wr_def st1_def split: if_splits)
  show "msHaz st \<noteq> None \<Longrightarrow> msHaz st' \<noteq> None"
    using st' st2 by (auto simp: st1_def split: if_splits)
qed

lemma mem_race_loop_Inr:
  assumes "mem_race_loop l v ws st = Ok (Inr st')"
  shows "(\<forall>w \<in> set ws. isa_Free (lkind w) \<and> free_contains w (laddr l) \<longrightarrow> lkind w = EL_HpRetire \<and> msHaz st' \<noteq> None)
    \<and> (\<forall>w \<in> set ws. lkind w = EL_Malloc \<and> malloc_contains w (laddr l) \<longrightarrow> view_contains v (lpos w) = Ok True)
    \<and> (\<forall>a. msAlloc st' = Some a \<longrightarrow> msAlloc st = Some a \<or> a \<in> set ws \<and> lkind a = EL_Malloc \<and> malloc_contains a (laddr l))
    \<and> (\<forall>i. msInit st' = Some i \<longrightarrow> msInit st = Some i \<or> i \<in> set ws \<and> isa_Write (lkind i) \<and> laddr i = laddr l \<and> view_contains v (lpos i) = Ok True)
    \<and> (msHaz st \<noteq> None \<longrightarrow> msHaz st' \<noteq> None)"
  using assms
proof (induction ws arbitrary: st)
  case (Cons w ws)
  then obtain r where r: "mem_race_step l v w st = Ok r"
      "(case r of Inl x \<Rightarrow> Ok (Inl x) | Inr s1 \<Rightarrow> mem_race_loop l v ws s1) = Ok (Inr st')"
    by (auto simp: res_simps)
  then obtain s1 where s: "mem_race_step l v w st = Ok (Inr s1)" "mem_race_loop l v ws s1 = Ok (Inr st')"
    by (cases r) simp_all
  note step = mem_race_step_Inr [OF s(1)]
  note ih = Cons.IH [OF s(2)]
  have "msHaz st' \<noteq> None" if "msHaz s1 \<noteq> None" using ih that by blast
  then show ?case
    using ih step(1,2,5) by (intro conjI ballI allI impI; (elim conjE)?) (auto dest: step(3,4))
qed simp

text \<open>C1: an access to dynamic memory that passes the check is safe: the memory was allocated, every allocation of
  it happens before the access, nothing has freed it (hazard-pointer retirement only when the access is
  protected), and a read finds a store to the address that happens before it.\<close>

theorem checkForMemoryRaces_safe:
  assumes "checkForMemoryRaces g l = Ok None" and "isDynamic (laddr l)"
  shows "\<exists>p. getEventLabel g (prev (lpos l)) = Ok p
    \<and> (\<exists>a \<in> set (labels g). lkind a = EL_Malloc \<and> malloc_contains a (laddr l) \<and>
        ((\<exists>f \<in> set (labels g). isa_Free (lkind f) \<and> free_contains f (laddr l)) \<longrightarrow> isHazptrProtected g a l = Ok True))
    \<and> (\<forall>a \<in> set (labels g). lkind a = EL_Malloc \<and> malloc_contains a (laddr l) \<longrightarrow> view_contains (hbView p) (lpos a) = Ok True)
    \<and> (\<forall>f \<in> set (labels g). isa_Free (lkind f) \<and> free_contains f (laddr l) \<longrightarrow> lkind f = EL_HpRetire)
    \<and> (isa_Read (lkind l) \<longrightarrow> (\<exists>w \<in> set (labels g). isa_Write (lkind w) \<and> laddr w = laddr l \<and> view_contains (hbView p) (lpos w) = Ok True))"
proof -
  obtain p r where p1: "getEventLabel g (prev (lpos l)) = Ok p" "mem_race_loop l (hbView p) (labels g) mem_init = Ok r"
    using assms by (auto simp: checkForMemoryRaces_def res_simps)
  have "(case r of Inl x \<Rightarrow> Ok (Some x) | Inr st \<Rightarrow> (case msAlloc st of None \<Rightarrow> Ok (Some (VS_AccessNonMalloc, getInitializer))
      | Some a \<Rightarrow> if isa_Read (lkind l) \<and> msInit st = None then Ok (Some (VS_UninitializedMem, getInitializer))
          else case msHaz st of None \<Rightarrow> Ok None
          | Some h \<Rightarrow> rbind (isHazptrProtected g a l) (\<lambda>b. Ok (if b then None else Some (VS_AccessFreed, lpos h))))) = Ok None"
    using assms p1 by (simp add: checkForMemoryRaces_def)
  moreover from this obtain st where st: "r = Inr st" by (cases r) simp_all
  ultimately have check: "(case msAlloc st of None \<Rightarrow> Ok (Some (VS_AccessNonMalloc, getInitializer))
      | Some a \<Rightarrow> if isa_Read (lkind l) \<and> msInit st = None then Ok (Some (VS_UninitializedMem, getInitializer))
          else case msHaz st of None \<Rightarrow> Ok None
          | Some h \<Rightarrow> rbind (isHazptrProtected g a l) (\<lambda>b. Ok (if b then None else Some (VS_AccessFreed, lpos h)))) = Ok None"
    by simp
  obtain al where al: "msAlloc st = Some al" using check by (cases "msAlloc st") simp_all
  have i: "isa_Read (lkind l) \<longrightarrow> msInit st \<noteq> None" using check al by (simp split: if_splits)
  have h: "msHaz st \<noteq> None \<longrightarrow> isHazptrProtected g al l = Ok True"
    using check al i by (auto simp: res_simps split: if_splits)
  have p: "getEventLabel g (prev (lpos l)) = Ok p" "mem_race_loop l (hbView p) (labels g) mem_init = Ok (Inr st)"
    using p1 st by simp_all
  note loop = mem_race_loop_Inr [OF p(2)]
  then have "al \<in> set (labels g) \<and> lkind al = EL_Malloc \<and> malloc_contains al (laddr l)"
    using loop al by (simp add: mem_init_def)
  moreover have "isHazptrProtected g al l = Ok True" if "f \<in> set (labels g)" "isa_Free (lkind f)" "free_contains f (laddr l)" for f
    using that loop h al by auto
  moreover have "\<exists>w \<in> set (labels g). isa_Write (lkind w) \<and> laddr w = laddr l \<and> view_contains (hbView p) (lpos w) = Ok True"
    if "isa_Read (lkind l)"
    using that i loop by (auto simp: mem_init_def)
  ultimately show ?thesis using p(1) loop by blast
qed

theorem checkForMemoryRaces_safe_witness:
  "\<exists>a \<in> set (labels race_graph). lkind a = EL_Malloc \<and> malloc_contains a 64"
proof -
  define l where "l = (mkLabel EL_Read 3 NotAtomic (Event 0 3))\<lparr>laddr := 64\<rparr>"
  have "checkForMemoryRaces race_graph l = Ok None"
    by (simp add: checkForMemoryRaces_def race_graph_def l_def mkLabel_def mem_init_def mem_race_step_def labels_def getEventLabel_def
        vec_get_int_def vec_get_def prev_def isDynamic_def isStatic_def staticMask_def malloc_contains_def free_contains_def isa_defs
        view_contains_def view_get_def view_at_def Let_def)
  moreover have "isDynamic (laddr l)" by (simp add: l_def isDynamic_def isStatic_def staticMask_def)
  ultimately show ?thesis using checkForMemoryRaces_safe [of race_graph l] by (auto simp: l_def)
qed

section \<open>Stuck spin loops\<close>

definition reads_comax :: "'f Driver \<Rightarrow> EventLabel \<Rightarrow> bool" where
  "reads_comax d l \<longleftrightarrow> fst (mo_isCoMaximal (dMO d) (laddr l) (lrf l))"

definition fast_query :: "'f Env \<Rightarrow> 'f Driver \<Rightarrow> bool" where
  "fast_query e d \<longleftrightarrow> getCheckConsType (eConf e) PP_step = CT_fast \<and> \<not> (fixStatus (dG d) = FS_Done \<and> rType (cRels (dCons d)) = CT_fast)"

lemma isCoMaximal_dr_fast:
  assumes "fast_query e d" and "isCoMaximal_dr e (laddr l) (lrf l) False PP_step d = Ok (b, d')"
  shows "b = reads_comax d l \<and> dG d' = dG d \<and> fast_query e d' \<and> reads_comax d' = reads_comax d"
proof -
  have "b = reads_comax d l" and d': "d' = d\<lparr>dCons := (dCons d)\<lparr>cPriv := (mo_ref (dMO d) (laddr l), snd (cPriv (dCons d)))\<rparr>\<rparr>"
    using assms by (auto simp: isCoMaximal_dr_def isCoMaximal_def fast_query_def ended_def reads_comax_def dMO_def dG_def
        mo_isCoMaximal_def Let_def)
  moreover have "dMO d' = mo_ref (dMO d) (laddr l)" by (simp add: d' dMO_def)
  ultimately show ?thesis using assms(1)
    by (simp add: dG_def fast_query_def reads_comax_def fun_eq_iff mo_isCoMaximal_def Let_def)
qed

lemma reads_maximal_split:
  assumes "reads_maximal e t js d = Ok (b, d')" and "fast_query e d"
  shows "\<exists>xs j ys l. js = xs @ j # ys \<and> getEventLabel (dG d) (Event t j) = Ok l \<and> (\<forall>i \<in> set xs. (\<exists>l. getEventLabel (dG d) (Event t i) = Ok l \<and> lkind l \<noteq> EL_SpinStart \<and> (isa_Read (lkind l) \<longrightarrow> reads_comax d l))) \<and>
    (if b then lkind l = EL_SpinStart else isa_Read (lkind l) \<and> \<not> reads_comax d l)"
  using assms
proof (induction js arbitrary: d)
  case (Cons j js)
  then obtain l where l: "getEventLabel (dG d) (Event t j) = Ok l" by (auto simp: res_simps)
  let ?P = "\<lambda>d i. \<exists>l. getEventLabel (dG d) (Event t i) = Ok l \<and> lkind l \<noteq> EL_SpinStart \<and> (isa_Read (lkind l) \<longrightarrow> reads_comax d l)"
  have skip: ?case if "?P d j" and d1: "reads_maximal e t js d1 = Ok (b, d')" "fast_query e d1" "dG d1 = dG d" "reads_comax d1 = reads_comax d" for d1
  proof -
    obtain xs k ys l' where *: "js = xs @ k # ys" "getEventLabel (dG d) (Event t k) = Ok l'" "\<forall>i \<in> set xs. ?P d i"
      "if b then lkind l' = EL_SpinStart else isa_Read (lkind l') \<and> \<not> reads_comax d l'"
      using Cons.IH [OF d1(1,2)] unfolding d1(3,4) by blast
    then have "j # js = (j # xs) @ k # ys" "\<forall>i \<in> set (j # xs). ?P d i" using \<open>?P d j\<close> by simp_all
    then show ?thesis using *(2,4) by blast
  qed
  consider "lkind l = EL_SpinStart" | "lkind l \<noteq> EL_SpinStart" "isa_Read (lkind l)" | "lkind l \<noteq> EL_SpinStart" "\<not> isa_Read (lkind l)" by blast
  then show ?case
  proof cases
    case 1
    then have "b" using Cons.prems(1) l by (auto simp: res_simps)
    then show ?thesis using l 1 by (intro exI [of _ "[]"] exI [of _ j] exI [of _ js] exI [of _ l]) simp
  next
    case 2
    then obtain c d1 where c: "isCoMaximal_dr e (laddr l) (lrf l) False PP_step d = Ok (c, d1)"
      "(if \<not> c then Ok (False, d1) else reads_maximal e t js d1) = Ok (b, d')"
      using Cons.prems(1) l by (auto simp: res_simps)
    note c1 = isCoMaximal_dr_fast [OF Cons.prems(2) c(1)]
    show ?thesis
    proof (cases c)
      case True
      then have "reads_maximal e t js d1 = Ok (b, d')" using c(2) by simp
      moreover have "?P d j" using l 2 c1 True by blast
      ultimately show ?thesis using c1 by (intro skip [of d1]) simp_all
    next
      case False
      then have "\<not> b" "\<not> reads_comax d l" using c c1 by simp_all
      then show ?thesis using l 2 by (intro exI [of _ "[]"] exI [of _ j] exI [of _ js] exI [of _ l]) simp
    qed
  next
    case 3
    then have "reads_maximal e t js d = Ok (b, d')" using Cons.prems(1) l by (auto simp: res_simps)
    moreover have "?P d j" using l 3 by blast
    ultimately show ?thesis using Cons.prems(2) by (intro skip [of d]) simp_all
  qed
qed simp

lemma rev_upto_split:
  assumes "rev [1..n] = xs @ j # ys"
  shows "1 \<le> j \<and> j \<le> n \<and> set xs = {j<..n}"
proof -
  have eq: "[1..n] = rev ys @ j # rev xs" using assms by (metis append.assoc append_Cons append_Nil rev_append rev_rev_ident rev.simps(2))
  then have "sorted_wrt (<) (rev ys @ j # rev xs)" by (metis sorted_wrt_upto)
  then have lt: "\<forall>i \<in> set ys. i < j" "\<forall>i \<in> set xs. j < i" by (simp_all add: sorted_wrt_append)
  have un: "i \<in> {1..n} \<longleftrightarrow> i \<in> set ys \<or> i = j \<or> i \<in> set xs" for i
    using arg_cong [OF eq, of set] by (simp add: set_eq_iff) blast
  have "1 \<le> j \<and> j \<le> n" using un [of j] by simp
  moreover have "i \<in> set xs \<longleftrightarrow> i \<in> {j<..n}" for i
    using un [of i] lt \<open>1 \<le> j \<and> j \<le> n\<close> by (metis atLeastAtMost_iff greaterThanAtMost_iff less_asym less_irrefl less_imp_le order_trans)
  ultimately show ?thesis by blast
qed

text \<open>C4: a spinning thread counts as stuck exactly when every read of its last iteration, back to the start of that
  iteration, is from a store that is maximal in the modification order of its location; the thread is let off only
  because of a read of that iteration that could still get a newer value.\<close>

theorem threadReadsMaximal_stuck:
  assumes "threadReadsMaximal e t d = Ok (b, d')" and "fast_query e d"
  shows "\<exists>j \<ge> 1. \<exists>n le pl l. getLastThreadLabel (dG d) t = Ok le \<and> lkind le = EL_Block \<and> getPreviousLabel (dG d) (lpos le) = Ok (Some pl)
    \<and> n = eindex (lpos pl) - (if lkind pl = EL_SpinStart then 1 else 0) \<and> j \<le> n
    \<and> getEventLabel (dG d) (Event t j) = Ok l
    \<and> (\<forall>i. j < i \<and> i \<le> n \<longrightarrow> (\<exists>q. getEventLabel (dG d) (Event t i) = Ok q \<and> lkind q \<noteq> EL_SpinStart \<and> (isa_Read (lkind q) \<longrightarrow> reads_comax d q)))
    \<and> (if b then lkind l = EL_SpinStart else isa_Read (lkind l) \<and> \<not> reads_comax d l)"
proof -
  obtain le pl where le: "getLastThreadLabel (dG d) t = Ok le" "lkind le = EL_Block" "getPreviousLabel (dG d) (lpos le) = Ok (Some pl)"
    and r: "reads_maximal e t (rev [1..if lkind pl = EL_SpinStart then eindex (prev (lpos pl)) else eindex (lpos pl)]) d = Ok (b, d')"
    using assms(1) by (auto simp: threadReadsMaximal_def res_simps deref_def Let_def split: option.splits)
  let ?n = "eindex (lpos pl) - (if lkind pl = EL_SpinStart then 1 else 0)"
  have "reads_maximal e t (rev [1..?n]) d = Ok (b, d')"
    using r by (cases "lpos pl") (auto simp: prev_def split: if_splits)
  from reads_maximal_split [OF this assms(2)] obtain xs j ys l where x: "rev [1..?n] = xs @ j # ys" "getEventLabel (dG d) (Event t j) = Ok l"
    "\<forall>i \<in> set xs. \<exists>l. getEventLabel (dG d) (Event t i) = Ok l \<and> lkind l \<noteq> EL_SpinStart \<and> (isa_Read (lkind l) \<longrightarrow> reads_comax d l)"
    "if b then lkind l = EL_SpinStart else isa_Read (lkind l) \<and> \<not> reads_comax d l" by blast
  note j = rev_upto_split [OF x(1)]
  show ?thesis
    using le x(2-4) j by (intro exI [of _ j] exI [of _ ?n] exI [of _ le] exI [of _ pl] exI [of _ l]) auto
qed

definition spin_graph :: ExecutionGraph where
  "spin_graph = graph_init\<lparr>events := [[mkLabel EL_ThreadStart 0 Acquire (Event 0 0), mkLabel EL_SpinStart 1 NotAtomic (Event 0 1),
     (mkLabel EL_Read 2 Acquire (Event 0 2))\<lparr>laddr := 64, lrf := getInitializer\<rparr>, mkLabel EL_Block 3 NotAtomic (Event 0 3)]]\<rparr>"

theorem threadReadsMaximal_stuck_witness:
  "\<exists>d'. threadReadsMaximal (undefined\<lparr>eConf := undefined\<lparr>checkConsPoint := PP_exec\<rparr>\<rparr>) 0 (driver_on spin_graph [[0]]) = Ok (True, d')
    \<and> reads_comax (driver_on spin_graph [[0]]) ((mkLabel EL_Read 2 Acquire (Event 0 2))\<lparr>laddr := 64, lrf := getInitializer\<rparr>)"
proof -
  define e where "e = (undefined :: nat Env)\<lparr>eConf := undefined\<lparr>checkConsPoint := PP_exec\<rparr>\<rparr>"
  define d where "d = driver_on spin_graph [[0]]"
  have q: "fast_query e d"
    by (simp add: fast_query_def e_def d_def getCheckConsType_def dG_def driver_on_def spin_graph_def graph_init_def)
  have lab: "getEventLabel (dG d) (Event 0 1) = Ok (mkLabel EL_SpinStart 1 NotAtomic (Event 0 1))"
    "getEventLabel (dG d) (Event 0 2) = Ok ((mkLabel EL_Read 2 Acquire (Event 0 2))\<lparr>laddr := 64, lrf := getInitializer\<rparr>)"
    "getLastThreadLabel (dG d) 0 = Ok (mkLabel EL_Block 3 NotAtomic (Event 0 3))"
    "getPreviousLabel (dG d) (Event 0 3) = Ok (Some ((mkLabel EL_Read 2 Acquire (Event 0 2))\<lparr>laddr := 64, lrf := getInitializer\<rparr>))"
    by (simp_all add: d_def dG_def driver_on_def spin_graph_def getEventLabel_def vec_get_int_def vec_get_def getLastThreadLabel_def
        getLastThreadEvent_def getThreadSize_def getPreviousLabel_def prev_def)
  define d1 where "d1 = d\<lparr>dCons := (dCons d)\<lparr>cPriv := (mo_ref (dMO d) 64, snd (cPriv (dCons d)))\<rparr>\<rparr>"
  have "mo_list (dMO d) 64 = []" by (simp add: d_def dMO_def driver_on_def mo_list_def)
  then have "isCoMaximal_dr e 64 getInitializer False PP_step d = Ok (True, d1)"
    using q by (auto simp: isCoMaximal_dr_def isCoMaximal_def fast_query_def ended_def dMO_def dG_def mo_isCoMaximal_def d1_def Let_def)
  moreover have "dG d1 = dG d" by (simp add: d1_def dG_def)
  ultimately have r: "threadReadsMaximal e 0 d = Ok (True, d1)"
    by (simp add: threadReadsMaximal_def lab deref_def upto_rec1 mkLabel_def isa_defs)
  obtain j n le pl l where le: "getLastThreadLabel (dG d) 0 = Ok le" "getPreviousLabel (dG d) (lpos le) = Ok (Some pl)"
    and n: "n = eindex (lpos pl) - (if lkind pl = EL_SpinStart then 1 else 0)" "j \<le> n"
    and l: "getEventLabel (dG d) (Event 0 j) = Ok l" "lkind l = EL_SpinStart"
    and mx: "\<forall>i. j < i \<and> i \<le> n \<longrightarrow> (\<exists>q. getEventLabel (dG d) (Event 0 i) = Ok q \<and> lkind q \<noteq> EL_SpinStart \<and> (isa_Read (lkind q) \<longrightarrow> reads_comax d q))"
    using threadReadsMaximal_stuck [OF r q] by auto
  have "le = mkLabel EL_Block 3 NotAtomic (Event 0 3)" using le(1) lab(3) by simp
  then have "pl = (mkLabel EL_Read 2 Acquire (Event 0 2))\<lparr>laddr := 64, lrf := getInitializer\<rparr>" using le(2) lab(4) by (simp add: mkLabel_def)
  then have "n = 2" using n(1) by (simp add: mkLabel_def)
  moreover have "j \<noteq> 2" using lab(2) l by (auto simp: mkLabel_def)
  ultimately obtain q where "getEventLabel (dG d) (Event 0 2) = Ok q" "isa_Read (lkind q) \<longrightarrow> reads_comax d q"
    using mx [rule_format, of 2] n(2) by auto
  then have "reads_comax d ((mkLabel EL_Read 2 Acquire (Event 0 2))\<lparr>laddr := 64, lrf := getInitializer\<rparr>)" unfolding lab(2) by (auto simp: isa_defs mkLabel_def)
  then show ?thesis using r unfolding e_def [symmetric] d_def [symmetric] by blast
qed

end
