(* ===== verification/GenMC_SExpr.thy ===== *)
theory GenMC_SExpr
  imports GenMC_VSet GenMC_Memory
begin

text \<open>
  Symbolic expressions (\<open>src/src/SExpr.hpp\<close>, \<open>src/src/SExprVisitor.hpp\<close>, \<open>src/src/SExprVisitor.tcc\<close>): the
  classes of expressions as one datatype over the type of registers, their constructors and copies, and the visitors that
  print, evaluate, substitute, concretize and transform them.

  Widths are numbers of bits. A logical expression or a comparison always has width 1, so it has no width of its
  own; \<open>Concat\<close> and \<open>Extract\<close> are kinds without a class.
\<close>

section \<open>Expressions\<close>

datatype CastKind = SE_ZExt | SE_SExt | SE_Trunc

datatype ArithKind = SE_Add | SE_Sub | SE_Mul | SE_UDiv | SE_SDiv | SE_URem | SE_SRem
  | SE_And | SE_Or | SE_Xor | SE_Shl | SE_LShr | SE_AShr

datatype CmpKind = SE_Eq | SE_Ne | SE_Ult | SE_Ule | SE_Ugt | SE_Uge | SE_Slt | SE_Sle | SE_Sgt | SE_Sge

datatype 'r SExpr =
  ConcreteExpr nat SVal
| RegisterExpr nat 'r string
| SelectExpr nat "'r SExpr" "'r SExpr" "'r SExpr"
| ConjunctionExpr "'r SExpr list"
| DisjunctionExpr "'r SExpr list"
| NotExpr "'r SExpr"
| CastExpr CastKind nat "'r SExpr"
| ArithExpr ArithKind nat "'r SExpr" "'r SExpr"
| CmpExpr CmpKind "'r SExpr" "'r SExpr"

definition BoolWidth :: nat where "BoolWidth = 1"

fun getWidth :: "'r SExpr \<Rightarrow> nat" where
  "getWidth (ConcreteExpr w v) = w"
| "getWidth (RegisterExpr w r n) = w"
| "getWidth (SelectExpr w c t f) = w"
| "getWidth (CastExpr k w e) = w"
| "getWidth (ArithExpr k w a b) = w"
| "getWidth e = BoolWidth"

fun getKids :: "'r SExpr \<Rightarrow> 'r SExpr list" where
  "getKids (SelectExpr w c t f) = [c, t, f]"
| "getKids (ConjunctionExpr es) = es"
| "getKids (DisjunctionExpr es) = es"
| "getKids (NotExpr e) = [e]"
| "getKids (CastExpr k w e) = [e]"
| "getKids (ArithExpr k w a b) = [a, b]"
| "getKids (CmpExpr k a b) = [a, b]"
| "getKids e = []"

definition getKid :: "'r SExpr \<Rightarrow> nat \<Rightarrow> 'r SExpr res" where
  "getKid e i = rbind (BUG_ON (i \<ge> length (getKids e))) (\<lambda>_. Ok (getKids e ! i))"

section \<open>Constructors\<close>

definition createTrue :: "'r SExpr" where "createTrue = ConcreteExpr 1 1"
definition createFalse :: "'r SExpr" where "createFalse = ConcreteExpr 1 0"

definition createSelect :: "'r SExpr \<Rightarrow> 'r SExpr \<Rightarrow> 'r SExpr \<Rightarrow> 'r SExpr" where
  "createSelect c t f = SelectExpr (getWidth t) c t f"

text \<open>The constructor from a vector refuses an empty one.\<close>

definition createLogical :: "('r SExpr list \<Rightarrow> 'r SExpr) \<Rightarrow> 'r SExpr list \<Rightarrow> 'r SExpr res" where
  "createLogical K es = rbind (BUG_ON (es = [])) (\<lambda>_. Ok (K es))"

definition createArith :: "ArithKind \<Rightarrow> 'r SExpr \<Rightarrow> 'r SExpr \<Rightarrow> 'r SExpr" where
  "createArith k a b = ArithExpr k (getWidth a) a b"

text \<open>Copies of an arithmetic expression take the width of its first kid.\<close>

fun clone :: "'r SExpr \<Rightarrow> 'r SExpr res"
  and clone_all :: "'r SExpr list \<Rightarrow> 'r SExpr list res" where
  "clone (ConcreteExpr w v) = Ok (ConcreteExpr w v)"
| "clone (RegisterExpr w r n) = Ok (RegisterExpr w r n)"
| "clone (SelectExpr w c t f) = rbind (clone c) (\<lambda>c1. rbind (clone t) (\<lambda>t1. rbind (clone f) (\<lambda>f1. Ok (SelectExpr w c1 t1 f1))))"
| "clone (ConjunctionExpr es) = rbind (clone_all es) (createLogical ConjunctionExpr)"
| "clone (DisjunctionExpr es) = rbind (clone_all es) (createLogical DisjunctionExpr)"
| "clone (NotExpr e) = rbind (clone e) (\<lambda>e1. Ok (NotExpr e1))"
| "clone (CastExpr k w e) = rbind (clone e) (\<lambda>e1. Ok (CastExpr k w e1))"
| "clone (ArithExpr k w a b) = rbind (clone a) (\<lambda>a1. rbind (clone b) (\<lambda>b1. Ok (createArith k a1 b1)))"
| "clone (CmpExpr k a b) = rbind (clone a) (\<lambda>a1. rbind (clone b) (\<lambda>b1. Ok (CmpExpr k a1 b1)))"
| "clone_all [] = Ok []"
| "clone_all (e # es) = rbind (clone e) (\<lambda>e1. rbind (clone_all es) (\<lambda>es1. Ok (e1 # es1)))"

section \<open>Values\<close>

text \<open>The operators of \<open>SVal\<close> are those of unsigned 64-bit integers; division by zero and shifts by 64 or more
  are undefined.\<close>

definition sval_div :: "SVal \<Rightarrow> SVal \<Rightarrow> SVal res" where
  "sval_div a b = (if b = 0 then Undef else Ok (a div b))"

definition sval_shl :: "SVal \<Rightarrow> SVal \<Rightarrow> SVal res" where
  "sval_shl a b = (if b < 64 then Ok (push_bit (unat b) a) else Undef)"

definition sval_shr :: "SVal \<Rightarrow> SVal \<Rightarrow> SVal res" where
  "sval_shr a b = (if b < 64 then Ok (drop_bit (unat b) a) else Undef)"

text \<open>The evaluator uses the same operator for the signed and unsigned variants, and the division for the
  remainders.\<close>

fun eval_arith :: "ArithKind \<Rightarrow> SVal \<Rightarrow> SVal \<Rightarrow> SVal res" where
  "eval_arith SE_Add a b = Ok (a + b)"
| "eval_arith SE_Sub a b = Ok (a - b)"
| "eval_arith SE_Mul a b = Ok (a * b)"
| "eval_arith SE_UDiv a b = sval_div a b"
| "eval_arith SE_SDiv a b = sval_div a b"
| "eval_arith SE_URem a b = sval_div a b"
| "eval_arith SE_SRem a b = sval_div a b"
| "eval_arith SE_And a b = Ok (and a b)"
| "eval_arith SE_Or a b = Ok (or a b)"
| "eval_arith SE_Xor a b = Ok (xor a b)"
| "eval_arith SE_Shl a b = sval_shl a b"
| "eval_arith SE_LShr a b = sval_shr a b"
| "eval_arith SE_AShr a b = sval_shr a b"

fun cmp_holds :: "CmpKind \<Rightarrow> SVal \<Rightarrow> SVal \<Rightarrow> bool" where
  "cmp_holds SE_Eq a b = (a = b)"
| "cmp_holds SE_Ne a b = (a \<noteq> b)"
| "cmp_holds SE_Ult a b = (a < b)"
| "cmp_holds SE_Ule a b = (a \<le> b)"
| "cmp_holds SE_Ugt a b = (a > b)"
| "cmp_holds SE_Uge a b = (a \<ge> b)"
| "cmp_holds SE_Slt a b = (a < b)"
| "cmp_holds SE_Sle a b = (a \<le> b)"
| "cmp_holds SE_Sgt a b = (a > b)"
| "cmp_holds SE_Sge a b = (a \<ge> b)"

definition eval_cmp :: "CmpKind \<Rightarrow> SVal \<Rightarrow> SVal \<Rightarrow> SVal" where
  "eval_cmp k a b = (if cmp_holds k a b then 1 else 0)"

section \<open>The evaluator\<close>

text \<open>A brute-force evaluation gives every register the same value; the other one looks registers up in a map,
  takes 42 for those that are not in it and collects them.\<close>

datatype 'r EvalMode = BruteForce SVal | Mapped "'r \<Rightarrow> SVal option"

fun getMappingFor :: "'r EvalMode \<Rightarrow> 'r \<Rightarrow> SVal" where
  "getMappingFor (BruteForce v) r = v"
| "getMappingFor (Mapped m) r = (case m r of Some v \<Rightarrow> v | None \<Rightarrow> 42)"

fun note_unknown :: "('r :: linorder) EvalMode \<Rightarrow> 'r \<Rightarrow> 'r VSet \<Rightarrow> 'r VSet" where
  "note_unknown (BruteForce v) r U = U"
| "note_unknown (Mapped m) r U = (if m r = None then fst (vs_insert U r) else U)"

text \<open>The kids of a logical expression are evaluated from the left until one decides it. \<open>Not\<close> is the negation
  of the pointer to the kid, which is never null, and the kid is not evaluated. Casts keep the value. The order
  of evaluation of the operands of an operator only affects the order in which registers are collected.\<close>

fun eval :: "('r :: linorder) EvalMode \<Rightarrow> 'r SExpr \<Rightarrow> 'r VSet \<Rightarrow> (SVal \<times> 'r VSet) res"
  and eval_until :: "bool \<Rightarrow> ('r :: linorder) EvalMode \<Rightarrow> 'r SExpr list \<Rightarrow> 'r VSet \<Rightarrow> (bool \<times> 'r VSet) res" where
  "eval m (ConcreteExpr w v) U = Ok (v, U)"
| "eval m (RegisterExpr w r n) U = Ok (getMappingFor m r, note_unknown m r U)"
| "eval m (SelectExpr w c t f) U = rbind (eval m c U) (\<lambda>(v, U1). if sval_getBool v then eval m t U1 else eval m f U1)"
| "eval m (ConjunctionExpr es) U = rbind (eval_until False m es U) (\<lambda>(b, U1). Ok (if b then 1 else 0, U1))"
| "eval m (DisjunctionExpr es) U = rbind (eval_until True m es U) (\<lambda>(b, U1). Ok (if b then 1 else 0, U1))"
| "eval m (NotExpr e) U = Ok (0, U)"
| "eval m (CastExpr k w e) U = eval m e U"
| "eval m (ArithExpr k w a b) U = rbind (eval m a U) (\<lambda>(x, U1). rbind (eval m b U1) (\<lambda>(y, U2).
     rbind (eval_arith k x y) (\<lambda>z. Ok (z, U2))))"
| "eval m (CmpExpr k a b) U = rbind (eval m a U) (\<lambda>(x, U1). rbind (eval m b U1) (\<lambda>(y, U2). Ok (eval_cmp k x y, U2)))"
| "eval_until stop m [] U = Ok (\<not> stop, U)"
| "eval_until stop m (e # es) U = rbind (eval m e U) (\<lambda>(v, U1).
     if sval_getBool v = stop then Ok (stop, U1) else eval_until stop m es U1)"

text \<open>The evaluator keeps the registers it has collected; only the brute-force evaluation clears them.\<close>

definition evaluate_bf :: "('r :: linorder) SExpr \<Rightarrow> SVal \<Rightarrow> 'r VSet \<Rightarrow> (SVal \<times> nat \<times> 'r VSet) res" where
  "evaluate_bf e v unknown = rbind (eval (BruteForce v) e []) (\<lambda>(x, U). Ok (x, length U, U))"

definition evaluate_map :: "('r :: linorder) SExpr \<Rightarrow> ('r \<Rightarrow> SVal option) \<Rightarrow> 'r VSet \<Rightarrow> (SVal \<times> nat \<times> 'r VSet) res" where
  "evaluate_map e m unknown = rbind (eval (Mapped m) e unknown) (\<lambda>(x, U). Ok (x, length U, U))"

section \<open>Substitution\<close>

text \<open>The visitors work on a copy of the expression: a node visits each of its kids and then replaces the kid
  when it is a register to replace. The replacement is not visited. A register at the root is the caller's.\<close>

definition replace_kid :: "('r \<Rightarrow> 'r SExpr res option) \<Rightarrow> 'r SExpr \<Rightarrow> 'r SExpr res" where
  "replace_kid f e = (case e of RegisterExpr w r n \<Rightarrow> (case f r of None \<Rightarrow> Ok e | Some x \<Rightarrow> x) | _ \<Rightarrow> Ok e)"

fun replace_regs :: "('r \<Rightarrow> 'r SExpr res option) \<Rightarrow> 'r SExpr \<Rightarrow> 'r SExpr res"
  and replace_kids :: "('r \<Rightarrow> 'r SExpr res option) \<Rightarrow> 'r SExpr list \<Rightarrow> 'r SExpr list res" where
  "replace_regs f (ConcreteExpr w v) = Ok (ConcreteExpr w v)"
| "replace_regs f (RegisterExpr w r n) = Ok (RegisterExpr w r n)"
| "replace_regs f (SelectExpr w c t e) = rbind (rbind (replace_regs f c) (replace_kid f)) (\<lambda>c1.
     rbind (rbind (replace_regs f t) (replace_kid f)) (\<lambda>t1. rbind (rbind (replace_regs f e) (replace_kid f)) (\<lambda>e1.
       Ok (SelectExpr w c1 t1 e1))))"
| "replace_regs f (ConjunctionExpr es) = rbind (replace_kids f es) (\<lambda>es1. Ok (ConjunctionExpr es1))"
| "replace_regs f (DisjunctionExpr es) = rbind (replace_kids f es) (\<lambda>es1. Ok (DisjunctionExpr es1))"
| "replace_regs f (NotExpr e) = rbind (rbind (replace_regs f e) (replace_kid f)) (\<lambda>e1. Ok (NotExpr e1))"
| "replace_regs f (CastExpr k w e) = rbind (rbind (replace_regs f e) (replace_kid f)) (\<lambda>e1. Ok (CastExpr k w e1))"
| "replace_regs f (ArithExpr k w a b) = rbind (rbind (replace_regs f a) (replace_kid f)) (\<lambda>a1.
     rbind (rbind (replace_regs f b) (replace_kid f)) (\<lambda>b1. Ok (ArithExpr k w a1 b1)))"
| "replace_regs f (CmpExpr k a b) = rbind (rbind (replace_regs f a) (replace_kid f)) (\<lambda>a1.
     rbind (rbind (replace_regs f b) (replace_kid f)) (\<lambda>b1. Ok (CmpExpr k a1 b1)))"
| "replace_kids f [] = Ok []"
| "replace_kids f (e # es) = rbind (rbind (replace_regs f e) (replace_kid f)) (\<lambda>e1. rbind (replace_kids f es) (\<lambda>es1. Ok (e1 # es1)))"

definition substitute :: "'r SExpr \<Rightarrow> 'r \<Rightarrow> 'r SExpr \<Rightarrow> 'r SExpr res" where
  "substitute orig reg r = rbind (clone orig) (\<lambda>e.
     let f = (\<lambda>x. if x = reg then Some (clone r) else None) in
     case e of RegisterExpr w x n \<Rightarrow> if x = reg then clone r else replace_regs f e | _ \<Rightarrow> replace_regs f e)"

text \<open>The width of the constant is the size the map gives, a number of bytes.\<close>

definition concretize :: "'r SExpr \<Rightarrow> ('r \<Rightarrow> (SVal \<times> nat) option) \<Rightarrow> 'r SExpr res" where
  "concretize orig rMap = rbind (clone orig) (\<lambda>e.
     let f = (\<lambda>x. map_option (\<lambda>(v, s). Ok (ConcreteExpr s v)) (rMap x)) in
     case e of RegisterExpr w x n \<Rightarrow> (case f x of Some c \<Rightarrow> c | None \<Rightarrow> replace_regs f e) | _ \<Rightarrow> replace_regs f e)"

section \<open>Transformation of registers\<close>

text \<open>Casts are left out of the result.\<close>

fun transform :: "('r \<Rightarrow> 's) \<Rightarrow> 'r SExpr \<Rightarrow> 's SExpr res"
  and transform_all :: "('r \<Rightarrow> 's) \<Rightarrow> 'r SExpr list \<Rightarrow> 's SExpr list res" where
  "transform f (ConcreteExpr w v) = Ok (ConcreteExpr w v)"
| "transform f (RegisterExpr w r n) = Ok (RegisterExpr w (f r) n)"
| "transform f (SelectExpr w c t e) = rbind (transform f c) (\<lambda>c1. rbind (transform f t) (\<lambda>t1. rbind (transform f e) (\<lambda>e1.
     Ok (SelectExpr w c1 t1 e1))))"
| "transform f (ConjunctionExpr es) = rbind (transform_all f es) (createLogical ConjunctionExpr)"
| "transform f (DisjunctionExpr es) = rbind (transform_all f es) (createLogical DisjunctionExpr)"
| "transform f (NotExpr e) = rbind (transform f e) (\<lambda>e1. Ok (NotExpr e1))"
| "transform f (CastExpr k w e) = transform f e"
| "transform f (ArithExpr k w a b) = rbind (transform f a) (\<lambda>a1. rbind (transform f b) (\<lambda>b1. Ok (ArithExpr k w a1 b1)))"
| "transform f (CmpExpr k a b) = rbind (transform f a) (\<lambda>a1. rbind (transform f b) (\<lambda>b1. Ok (CmpExpr k a1 b1)))"
| "transform_all f [] = Ok []"
| "transform_all f (e # es) = rbind (transform f e) (\<lambda>e1. rbind (transform_all f es) (\<lambda>es1. Ok (e1 # es1)))"

section \<open>Printing\<close>

fun digits :: "nat \<Rightarrow> string" where
  "digits n = (if n < 10 then [char_of (48 + n)] else digits (n div 10) @ [char_of (48 + n mod 10)])"

declare digits.simps [simp del]

fun arith_string :: "ArithKind \<Rightarrow> string" where
  "arith_string SE_Add = ''+''" | "arith_string SE_Sub = ''-''" | "arith_string SE_Mul = ''*''"
| "arith_string SE_UDiv = ''/u''" | "arith_string SE_SDiv = ''/s''"
| "arith_string SE_URem = ''%u''" | "arith_string SE_SRem = ''%s''"
| "arith_string SE_And = ''&''" | "arith_string SE_Or = ''|''" | "arith_string SE_Xor = ''^''"
| "arith_string SE_Shl = ''<<''" | "arith_string SE_LShr = ''<<a''" | "arith_string SE_AShr = ''>>a''"

fun cmp_string :: "CmpKind \<Rightarrow> string" where
  "cmp_string SE_Eq = ''==''" | "cmp_string SE_Ne = ''!=''"
| "cmp_string SE_Ult = ''<u''" | "cmp_string SE_Ule = ''<=u''" | "cmp_string SE_Ugt = ''>u''" | "cmp_string SE_Uge = ''>=u''"
| "cmp_string SE_Slt = ''<s''" | "cmp_string SE_Sle = ''<=s''" | "cmp_string SE_Sgt = ''>s''" | "cmp_string SE_Sge = ''>=s''"

fun print_sexpr :: "'r SExpr \<Rightarrow> string"
  and print_list :: "string \<Rightarrow> 'r SExpr list \<Rightarrow> string" where
  "print_sexpr (ConcreteExpr w v) = digits (unat v)"
| "print_sexpr (RegisterExpr w r n) = n"
| "print_sexpr (SelectExpr w c t f) = ''('' @ print_sexpr c @ '' ? '' @ print_sexpr t @ '' : '' @ print_sexpr f @ '')''"
| "print_sexpr (ConjunctionExpr es) = print_list ('' /'' @ [CHR 0x5C] @ '' '') es"
| "print_sexpr (DisjunctionExpr es) = print_list ('' '' @ [CHR 0x5C] @ ''/ '') es"
| "print_sexpr (NotExpr e) = ''!'' @ print_sexpr e"
| "print_sexpr (CastExpr k w e) = ''cast'' @ digits w @ ''('' @ print_sexpr e @ '')''"
| "print_sexpr (ArithExpr k w a b) = print_sexpr a @ '' '' @ arith_string k @ '' '' @ print_sexpr b"
| "print_sexpr (CmpExpr k a b) = print_sexpr a @ '' '' @ cmp_string k @ '' '' @ print_sexpr b"
| "print_list sep [] = []"
| "print_list sep (e # es) = print_sexpr e @ (if es = [] then [] else sep @ print_list sep es)"

end
