(* ===== verification/GenMC_SExprProps.thy ===== *)
theory GenMC_SExprProps
  imports GenMC_SExpr
begin

text \<open>
  What the visitors of symbolic expressions compute: typing of expressions, substitution as a parallel map of
  registers to expressions, and how substitution, concretization and transformation relate to evaluation.
\<close>

section \<open>Typing and registers\<close>

text \<open>An expression is well-typed over widths of registers when its operands have the widths that its class
  assumes and its logical expressions have kids.\<close>

fun cast_ok :: "CastKind \<Rightarrow> nat \<Rightarrow> nat \<Rightarrow> bool" where
  "cast_ok SE_Trunc v w \<longleftrightarrow> w \<le> v"
| "cast_ok _ v w \<longleftrightarrow> v \<le> w"

fun typed :: "('r \<Rightarrow> nat) \<Rightarrow> 'r SExpr \<Rightarrow> bool" where
  "typed G (ConcreteExpr w v) \<longleftrightarrow> True"
| "typed G (RegisterExpr w r n) \<longleftrightarrow> w = G r"
| "typed G (SelectExpr w c t f) \<longleftrightarrow> typed G c \<and> typed G t \<and> typed G f \<and> getWidth t = w \<and> getWidth f = w"
| "typed G (ConjunctionExpr es) \<longleftrightarrow> es \<noteq> [] \<and> list_all (typed G) es"
| "typed G (DisjunctionExpr es) \<longleftrightarrow> es \<noteq> [] \<and> list_all (typed G) es"
| "typed G (NotExpr e) \<longleftrightarrow> typed G e"
| "typed G (CastExpr k w e) \<longleftrightarrow> typed G e \<and> cast_ok k (getWidth e) w"
| "typed G (ArithExpr k w a b) \<longleftrightarrow> typed G a \<and> typed G b \<and> getWidth a = w \<and> getWidth b = w"
| "typed G (CmpExpr k a b) \<longleftrightarrow> typed G a \<and> typed G b \<and> getWidth a = getWidth b"

fun registers :: "'r SExpr \<Rightarrow> 'r set" where
  "registers (ConcreteExpr w v) = {}"
| "registers (RegisterExpr w r n) = {r}"
| "registers (SelectExpr w c t f) = registers c \<union> registers t \<union> registers f"
| "registers (ConjunctionExpr es) = (\<Union>e\<in>set es. registers e)"
| "registers (DisjunctionExpr es) = (\<Union>e\<in>set es. registers e)"
| "registers (NotExpr e) = registers e"
| "registers (CastExpr k w e) = registers e"
| "registers (ArithExpr k w a b) = registers a \<union> registers b"
| "registers (CmpExpr k a b) = registers a \<union> registers b"

text \<open>A parallel substitution.\<close>

fun subst :: "('r \<Rightarrow> 'r SExpr option) \<Rightarrow> 'r SExpr \<Rightarrow> 'r SExpr" where
  "subst s (ConcreteExpr w v) = ConcreteExpr w v"
| "subst s (RegisterExpr w r n) = (case s r of None \<Rightarrow> RegisterExpr w r n | Some x \<Rightarrow> x)"
| "subst s (SelectExpr w c t f) = SelectExpr w (subst s c) (subst s t) (subst s f)"
| "subst s (ConjunctionExpr es) = ConjunctionExpr (map (subst s) es)"
| "subst s (DisjunctionExpr es) = DisjunctionExpr (map (subst s) es)"
| "subst s (NotExpr e) = NotExpr (subst s e)"
| "subst s (CastExpr k w e) = CastExpr k w (subst s e)"
| "subst s (ArithExpr k w a b) = ArithExpr k w (subst s a) (subst s b)"
| "subst s (CmpExpr k a b) = CmpExpr k (subst s a) (subst s b)"

text \<open>The value of an expression under values of all registers.\<close>

fun value_of :: "('r \<Rightarrow> SVal) \<Rightarrow> 'r SExpr \<Rightarrow> SVal res"
  and value_until :: "bool \<Rightarrow> ('r \<Rightarrow> SVal) \<Rightarrow> 'r SExpr list \<Rightarrow> bool res" where
  "value_of \<rho> (ConcreteExpr w v) = Ok v"
| "value_of \<rho> (RegisterExpr w r n) = Ok (\<rho> r)"
| "value_of \<rho> (SelectExpr w c t f) = rbind (value_of \<rho> c) (\<lambda>v. if sval_getBool v then value_of \<rho> t else value_of \<rho> f)"
| "value_of \<rho> (ConjunctionExpr es) = rbind (value_until False \<rho> es) (\<lambda>b. Ok (if b then 1 else 0))"
| "value_of \<rho> (DisjunctionExpr es) = rbind (value_until True \<rho> es) (\<lambda>b. Ok (if b then 1 else 0))"
| "value_of \<rho> (NotExpr e) = Ok 0"
| "value_of \<rho> (CastExpr k w e) = value_of \<rho> e"
| "value_of \<rho> (ArithExpr k w a b) = rbind (value_of \<rho> a) (\<lambda>x. rbind (value_of \<rho> b) (eval_arith k x))"
| "value_of \<rho> (CmpExpr k a b) = rbind (value_of \<rho> a) (\<lambda>x. rbind (value_of \<rho> b) (\<lambda>y. Ok (eval_cmp k x y)))"
| "value_until stop \<rho> [] = Ok (\<not> stop)"
| "value_until stop \<rho> (e # es) = rbind (value_of \<rho> e) (\<lambda>v.
     if sval_getBool v = stop then Ok stop else value_until stop \<rho> es)"

lemma fst_bind:
  assumes "rbind x (\<lambda>p. Ok (fst p)) = y" and "\<And>v U. rbind (g v U) (\<lambda>p. Ok (fst p)) = h v"
  shows "rbind (rbind x (\<lambda>(v, U). g v U)) (\<lambda>p. Ok (fst p)) = rbind y h"
  using assms by (cases x) auto

lemma eval_until_value:
  assumes "\<And>e U. e \<in> set es \<Longrightarrow> rbind (eval m e U) (\<lambda>p. Ok (fst p)) = value_of (getMappingFor m) e"
  shows "rbind (eval_until stop m es U) (\<lambda>p. Ok (fst p)) = value_until stop (getMappingFor m) es"
  using assms
proof (induction es arbitrary: U)
  case (Cons e es)
  show ?case
    unfolding eval_until.simps value_until.simps
    by (rule fst_bind) (use Cons in auto)
qed simp

lemma eval_value: "rbind (eval m e U) (\<lambda>p. Ok (fst p)) = value_of (getMappingFor m) e"
proof (induction e arbitrary: U)
  case (SelectExpr w c t f)
  show ?case unfolding eval.simps value_of.simps by (rule fst_bind) (use SelectExpr in auto)
next
  case (ConjunctionExpr es)
  show ?case unfolding eval.simps value_of.simps
    by (rule fst_bind) (use eval_until_value ConjunctionExpr in auto)
next
  case (DisjunctionExpr es)
  show ?case unfolding eval.simps value_of.simps
    by (rule fst_bind) (use eval_until_value DisjunctionExpr in auto)
next
  case (ArithExpr k w a b)
  have "rbind (rbind (eval m b V) (\<lambda>(y, U2). rbind (eval_arith k x y) (\<lambda>z. Ok (z, U2)))) (\<lambda>p. Ok (fst p)) =
      rbind (value_of (getMappingFor m) b) (eval_arith k x)" for x V
    by (rule fst_bind) (use ArithExpr in \<open>simp_all add: rbind_assoc\<close>)
  then show ?case unfolding eval.simps value_of.simps by (intro fst_bind [OF ArithExpr.IH(1)])
next
  case (CmpExpr k a b)
  have "rbind (rbind (eval m b V) (\<lambda>(y, U2). Ok (eval_cmp k x y, U2))) (\<lambda>p. Ok (fst p)) =
      rbind (value_of (getMappingFor m) b) (\<lambda>y. Ok (eval_cmp k x y))" for x V
    by (rule fst_bind) (use CmpExpr in simp_all)
  then show ?case unfolding eval.simps value_of.simps by (intro fst_bind [OF CmpExpr.IH(1)])
qed simp_all

section \<open>Substitution\<close>

lemma clone_all_Ok: "(\<And>e. e \<in> set es \<Longrightarrow> clone e = Ok e) \<Longrightarrow> clone_all es = Ok es"
  by (induction es) auto

lemma clone_typed: "typed G e \<Longrightarrow> clone e = Ok e"
  by (induction e) (auto simp: clone_all_Ok createLogical_def createArith_def list_all_iff)

lemma replace_kids_Ok:
  "(\<And>e. e \<in> set es \<Longrightarrow> rbind (replace_regs f e) (replace_kid f) = Ok (g e)) \<Longrightarrow> replace_kids f es = Ok (map g es)"
  by (induction es) auto

lemma replace_kid_simps [simp]:
  "replace_kid f (ConcreteExpr w v) = Ok (ConcreteExpr w v)"
  "replace_kid f (SelectExpr w c t e) = Ok (SelectExpr w c t e)"
  "replace_kid f (ConjunctionExpr es) = Ok (ConjunctionExpr es)"
  "replace_kid f (DisjunctionExpr es) = Ok (DisjunctionExpr es)"
  "replace_kid f (NotExpr e) = Ok (NotExpr e)"
  "replace_kid f (CastExpr k w e) = Ok (CastExpr k w e)"
  "replace_kid f (ArithExpr ak w a b) = Ok (ArithExpr ak w a b)"
  "replace_kid f (CmpExpr ck a b) = Ok (CmpExpr ck a b)"
  by (simp_all add: replace_kid_def)

lemma replace_kid_Ok:
  assumes "\<And>r. f r = map_option Ok (s r)"
  shows "rbind (replace_regs f e) (replace_kid f) = Ok (subst s e)"
proof (induction e)
  case (ConjunctionExpr es)
  have "replace_kids f es = Ok (map (subst s) es)" by (rule replace_kids_Ok) (rule ConjunctionExpr.IH)
  then show ?case by simp
next
  case (DisjunctionExpr es)
  have "replace_kids f es = Ok (map (subst s) es)" by (rule replace_kids_Ok) (rule DisjunctionExpr.IH)
  then show ?case by simp
next
  case (RegisterExpr w r n)
  then show ?case using assms [of r] by (cases "s r") (simp_all add: replace_kid_def)
qed simp_all

lemma replace_regs_Ok:
  assumes "\<And>r. f r = map_option Ok (s r)" and "\<And>w r n. e \<noteq> RegisterExpr w r n"
  shows "replace_regs f e = Ok (subst s e)"
  using assms(2) by (cases e) (auto simp: replace_kid_Ok [OF assms(1)] replace_kids_Ok)

lemma substitute_Ok:
  assumes "typed G e" and "typed G r"
  shows "substitute e reg r = Ok (subst [reg \<mapsto> r] e)"
proof -
  have f: "(if x = reg then Some (clone r) else None) = map_option Ok ([reg \<mapsto> r] x)" for x
    using clone_typed [OF assms(2)] by simp
  show ?thesis
  proof (cases "\<exists>w x n. e = RegisterExpr w x n")
    case True
    then show ?thesis using clone_typed [OF assms(1)] clone_typed [OF assms(2)] by (auto simp: substitute_def)
  next
    case False
    have "replace_regs (\<lambda>x. if x = reg then Some (clone r) else None) e = Ok (subst [reg \<mapsto> r] e)"
      by (rule replace_regs_Ok [OF f]) (use False in blast)
    then show ?thesis using False clone_typed [OF assms(1)] by (cases e) (auto simp: substitute_def Let_def)
  qed
qed

definition constants :: "('r \<Rightarrow> (SVal \<times> nat) option) \<Rightarrow> 'r \<Rightarrow> 'r SExpr option" where
  "constants M r = map_option (\<lambda>(v, s). ConcreteExpr s v) (M r)"

lemma concretize_Ok:
  assumes "typed G e"
  shows "concretize e M = Ok (subst (constants M) e)"
proof (cases "\<exists>w x n. e = RegisterExpr w x n")
  case True
  then show ?thesis using clone_typed [OF assms]
    by (auto simp: concretize_def constants_def split: option.splits)
next
  case False
  have "replace_regs (\<lambda>x. map_option (\<lambda>(v, s). Ok (ConcreteExpr s v)) (M x)) e = Ok (subst (constants M) e)"
    by (rule replace_regs_Ok) (use False in \<open>auto simp: constants_def option.map_comp comp_def split: prod.splits intro: option.map_cong\<close>)
  then show ?thesis using False clone_typed [OF assms] by (cases e) (auto simp: concretize_def Let_def)
qed

lemma subst_typed:
  assumes "typed G e" and "\<And>x y. s x = Some y \<Longrightarrow> typed G y \<and> getWidth y = G x"
  shows "typed G (subst s e) \<and> getWidth (subst s e) = getWidth e"
  using assms(1)
  by (induction e) (use assms(2) in \<open>auto simp: list_all_iff split: option.splits\<close>)

lemma subst_registers:
  "registers (subst s e) = (\<Union>r\<in>registers e. case s r of None \<Rightarrow> {r} | Some x \<Rightarrow> registers x)"
  by (induction e) (auto split: option.splits)

lemma value_until_cong:
  "(\<And>e. e \<in> set es \<Longrightarrow> value_of \<rho> (f e) = value_of \<sigma> e) \<Longrightarrow> value_until stop \<rho> (map f es) = value_until stop \<sigma> es"
  by (induction es) (auto cong: if_cong)

lemma subst_value:
  assumes "\<And>x. case s x of None \<Rightarrow> \<sigma> x = \<rho> x | Some y \<Rightarrow> value_of \<rho> y = Ok (\<sigma> x)"
  shows "value_of \<rho> (subst s e) = value_of \<sigma> e"
proof (induction e)
  case (RegisterExpr w r n)
  show ?case using assms [of r] by (simp split: option.splits)
qed (simp_all add: value_until_cong cong: if_cong)

section \<open>Collected registers\<close>

text \<open>What an evaluation adds to the collected registers.\<close>

abbreviation collects :: "('r :: linorder \<Rightarrow> SVal option) \<Rightarrow> 'r set \<Rightarrow> 'r VSet \<Rightarrow> 'r VSet \<Rightarrow> bool" where
  "collects m R U V \<equiv> ssorted V \<and> set U \<subseteq> set V \<and> set V \<subseteq> set U \<union> (R - dom m)"

lemma collects_trans: "collects m R U V \<Longrightarrow> collects m S V W \<Longrightarrow> collects m (R \<union> S) U W"
  by fastforce

lemma eval_until_collects:
  assumes "\<And>e U v V. e \<in> set es \<Longrightarrow> eval (Mapped m) e U = Ok (v, V) \<Longrightarrow> ssorted U \<Longrightarrow> collects m (registers e) U V"
    and "eval_until stop (Mapped m) es U = Ok (b, V)" and "ssorted U"
  shows "collects m (\<Union>e\<in>set es. registers e) U V"
  using assms
proof (induction es arbitrary: U)
  case (Cons e es)
  obtain v W where e: "eval (Mapped m) e U = Ok (v, W)"
    and r: "if sval_getBool v = stop then V = W else eval_until stop (Mapped m) es W = Ok (b, V)"
    using Cons.prems(2) by (auto simp: rbind_Ok_iff split: if_splits)
  have c: "collects m (registers e) U W" using Cons.prems(1) [of e U v W] e Cons.prems(3) by simp
  show ?case
  proof (cases "sval_getBool v = stop")
    case True
    then show ?thesis using c r by auto
  next
    case False
    then have w: "eval_until stop (Mapped m) es W = Ok (b, V)" using r by simp
    have "collects m (\<Union>e\<in>set es. registers e) W V"
      by (rule Cons.IH [OF _ w], rule Cons.prems(1)) (use c in auto)
    from collects_trans [OF c this] show ?thesis by simp
  qed
qed simp

lemma eval_collects:
  "eval (Mapped m) e U = Ok (v, V) \<Longrightarrow> ssorted U \<Longrightarrow> collects m (registers e) U V"
proof (induction e arbitrary: U v V)
  case (RegisterExpr w r n)
  then show ?case by (auto split: if_splits)
next
  case (SelectExpr w c t f)
  obtain x W where c: "eval (Mapped m) c U = Ok (x, W)"
    and r: "eval (Mapped m) (if sval_getBool x then t else f) W = Ok (v, V)"
    using SelectExpr.prems(1) by (auto simp: rbind_Ok_iff split: if_splits)
  have u: "collects m (registers c) U W" using SelectExpr.IH(1) [OF c] SelectExpr.prems(2) by simp
  have "collects m (registers t \<union> registers f) W V"
    using SelectExpr.IH(2,3) [of W v V] r u by (cases "sval_getBool x") auto
  from collects_trans [OF u this] show ?case by (simp add: Un_assoc)
next
  case (ConjunctionExpr es)
  then obtain b where "eval_until False (Mapped m) es U = Ok (b, V)" by (auto simp: rbind_Ok_iff)
  from eval_until_collects [OF _ this ConjunctionExpr.prems(2)] show ?case using ConjunctionExpr.IH by simp
next
  case (DisjunctionExpr es)
  then obtain b where "eval_until True (Mapped m) es U = Ok (b, V)" by (auto simp: rbind_Ok_iff)
  from eval_until_collects [OF _ this DisjunctionExpr.prems(2)] show ?case using DisjunctionExpr.IH by simp
next
  case (ArithExpr k w a b)
  obtain x W y where a: "eval (Mapped m) a U = Ok (x, W)" and b: "eval (Mapped m) b W = Ok (y, V)"
    using ArithExpr.prems(1) by (auto simp: rbind_Ok_iff)
  have u: "collects m (registers a) U W" using ArithExpr.IH(1) [OF a] ArithExpr.prems(2) by simp
  from collects_trans [OF u ArithExpr.IH(2) [OF b]] u show ?case by simp
next
  case (CmpExpr k a b)
  obtain x W y where a: "eval (Mapped m) a U = Ok (x, W)" and b: "eval (Mapped m) b W = Ok (y, V)"
    using CmpExpr.prems(1) by (auto simp: rbind_Ok_iff)
  have u: "collects m (registers a) U W" using CmpExpr.IH(1) [OF a] CmpExpr.prems(2) by simp
  from collects_trans [OF u CmpExpr.IH(2) [OF b]] u show ?case by simp
qed auto

text \<open>An evaluation that has collected nothing has looked up known registers only.\<close>

lemma eval_until_known:
  assumes "\<And>e v. e \<in> set es \<Longrightarrow> eval (Mapped m) e [] = Ok (v, []) \<Longrightarrow> eval (Mapped m') e [] = Ok (v, [])"
    and "eval_until stop (Mapped m) es [] = Ok (b, [])"
  shows "eval_until stop (Mapped m') es [] = Ok (b, [])"
  using assms
proof (induction es)
  case (Cons e es)
  obtain v W where e: "eval (Mapped m) e [] = Ok (v, W)"
    and r: "if sval_getBool v = stop then W = [] \<and> b = stop else eval_until stop (Mapped m) es W = Ok (b, [])"
    using Cons.prems(2) by (auto simp: rbind_Ok_iff split: if_splits)
  have "ssorted W" using eval_collects [OF e] by simp
  then have "W = []"
    using r eval_until_collects [of es m stop W b "[]", OF eval_collects] by (auto split: if_splits)
  then show ?case using Cons.prems(1) [of e v] e r Cons.IH Cons.prems(1) by (auto split: if_splits)
qed simp

lemma eval_known:
  assumes "m \<subseteq>\<^sub>m m'"
  shows "eval (Mapped m) e [] = Ok (v, []) \<Longrightarrow> eval (Mapped m') e [] = Ok (v, [])"
proof (induction e arbitrary: v)
  case (RegisterExpr w r n)
  then obtain y where "m r = Some y" by (auto split: if_splits dest: arg_cong [of _ _ set])
  then have "m' r = Some y" using assms by (auto simp: map_le_def dom_def)
  then show ?case using RegisterExpr \<open>m r = Some y\<close> by simp
next
  case (SelectExpr w c t f)
  obtain x W where c: "eval (Mapped m) c [] = Ok (x, W)"
    and r: "eval (Mapped m) (if sval_getBool x then t else f) W = Ok (v, [])"
    using SelectExpr.prems by (auto simp: rbind_Ok_iff split: if_splits)
  have "W = []" using eval_collects [OF c] eval_collects [OF r] by simp
  then show ?case using SelectExpr.IH c r by (auto split: if_splits)
next
  case (ConjunctionExpr es)
  then obtain b where "eval_until False (Mapped m) es [] = Ok (b, [])" "v = (if b then 1 else 0)"
    by (auto simp: rbind_Ok_iff)
  then show ?case using eval_until_known [of es m m' False b] ConjunctionExpr.IH by simp
next
  case (DisjunctionExpr es)
  then obtain b where "eval_until True (Mapped m) es [] = Ok (b, [])" "v = (if b then 1 else 0)"
    by (auto simp: rbind_Ok_iff)
  then show ?case using eval_until_known [of es m m' True b] DisjunctionExpr.IH by simp
next
  case (ArithExpr k w a b)
  obtain x W y where a: "eval (Mapped m) a [] = Ok (x, W)" and b: "eval (Mapped m) b W = Ok (y, [])"
    and k: "eval_arith k x y = Ok v"
    using ArithExpr.prems by (auto simp: rbind_Ok_iff)
  have "W = []" using eval_collects [OF a] eval_collects [OF b] by simp
  then show ?case using ArithExpr.IH a b k by simp
next
  case (CmpExpr k a b)
  obtain x W y where a: "eval (Mapped m) a [] = Ok (x, W)" and b: "eval (Mapped m) b W = Ok (y, [])"
    and k: "eval_cmp k x y = v"
    using CmpExpr.prems by (auto simp: rbind_Ok_iff)
  have "W = []" using eval_collects [OF a] eval_collects [OF b] by simp
  then show ?case using CmpExpr.IH a b k by simp
qed simp_all

section \<open>Transformation\<close>

lemma transform_Ok:
  "typed G e \<Longrightarrow> \<exists>e'. transform f e = Ok e' \<and> registers e' = f ` registers e \<and> (\<forall>\<rho>. value_of \<rho> e' = value_of (\<rho> \<circ> f) e)"
  "list_all (typed G) es \<Longrightarrow> \<exists>es'. transform_all f es = Ok es' \<and> length es' = length es \<and>
     (\<Union>e\<in>set es'. registers e) = f ` (\<Union>e\<in>set es. registers e) \<and> (\<forall>\<rho> stop. value_until stop \<rho> es' = value_until stop (\<rho> \<circ> f) es)"
proof (induction f e and f es rule: transform_transform_all.induct)
  case (3 f w c t e)
  have p: "typed G c" "typed G t" "typed G e" using "3.prems" by auto
  obtain c1 where c: "transform f c = Ok c1" "registers c1 = f ` registers c" "\<forall>\<rho>. value_of \<rho> c1 = value_of (\<rho> \<circ> f) c"
    using "3.IH"(1) [OF p(1)] by blast
  obtain t1 where t: "transform f t = Ok t1" "registers t1 = f ` registers t" "\<forall>\<rho>. value_of \<rho> t1 = value_of (\<rho> \<circ> f) t"
    using "3.IH"(2) [OF c(1) p(2)] by blast
  obtain e1 where e: "transform f e = Ok e1" "registers e1 = f ` registers e" "\<forall>\<rho>. value_of \<rho> e1 = value_of (\<rho> \<circ> f) e"
    using "3.IH"(3) [OF c(1) t(1) p(3)] by blast
  show ?case using c t e by (auto simp: image_Un comp_def cong: if_cong)
next
  case (4 f es)
  then obtain es' where e: "transform_all f es = Ok es'" "length es' = length es"
    "(\<Union>e\<in>set es'. registers e) = f ` (\<Union>e\<in>set es. registers e)"
    "\<forall>\<rho> stop. value_until stop \<rho> es' = value_until stop (\<rho> \<circ> f) es" by (auto simp: comp_def)
  moreover have "es' \<noteq> []" using e(2) "4.prems" by auto
  ultimately show ?case by (simp add: createLogical_def comp_def)
next
  case (5 f es)
  then obtain es' where e: "transform_all f es = Ok es'" "length es' = length es"
    "(\<Union>e\<in>set es'. registers e) = f ` (\<Union>e\<in>set es. registers e)"
    "\<forall>\<rho> stop. value_until stop \<rho> es' = value_until stop (\<rho> \<circ> f) es" by (auto simp: comp_def)
  moreover have "es' \<noteq> []" using e(2) "5.prems" by auto
  ultimately show ?case by (simp add: createLogical_def comp_def)
qed (auto simp: image_Un cong: if_cong)

section \<open>Properties\<close>

text \<open>The value that \<open>evaluate\<close> returns.\<close>

definition value_in_map :: "('r :: linorder) SExpr \<Rightarrow> ('r \<Rightarrow> SVal option) \<Rightarrow> SVal res" where
  "value_in_map e m = rbind (evaluate_map e m []) (\<lambda>(v, n, U). Ok v)"

lemma value_in_map: "value_in_map e m = value_of (getMappingFor (Mapped m)) e"
proof -
  have "value_in_map e m = rbind (eval (Mapped m) e []) (\<lambda>p. Ok (fst p))"
    by (simp add: value_in_map_def evaluate_map_def rbind_assoc split_def)
  then show ?thesis by (simp only: eval_value)
qed

text \<open>C32: Substituting a well-typed expression for a register of the same width in a well-typed expression returns;
  the result has the type and the width of the original, and its registers are those of the original with those of
  the inserted expression in place of the substituted one.\<close>

theorem substitute_typed:
  assumes "typed G e" and "typed G r" and "getWidth r = G reg"
  shows "\<exists>e'. substitute e reg r = Ok e' \<and> typed G e' \<and> getWidth e' = getWidth e \<and>
    registers e' = (registers e - {reg}) \<union> (if reg \<in> registers e then registers r else {})"
proof -
  have "typed G (subst [reg \<mapsto> r] e) \<and> getWidth (subst [reg \<mapsto> r] e) = getWidth e"
    by (rule subst_typed [OF assms(1)]) (use assms in \<open>auto split: if_splits\<close>)
  then show ?thesis using substitute_Ok [OF assms(1,2), of reg] by (auto simp: subst_registers split: if_splits)
qed

theorem substitute_typed_witness:
  "substitute (ArithExpr SE_Add 8 (RegisterExpr 8 (1 :: int) ''a'') (ConcreteExpr 8 5)) 1 (RegisterExpr 8 2 ''b'')
     = Ok (ArithExpr SE_Add 8 (RegisterExpr 8 2 ''b'') (ConcreteExpr 8 5)) \<and>
   typed (\<lambda>_. 8) (ArithExpr SE_Add 8 (RegisterExpr 8 (2 :: int) ''b'') (ConcreteExpr 8 5))"
  using substitute_typed [of "\<lambda>_. 8" "ArithExpr SE_Add 8 (RegisterExpr 8 (1 :: int) ''a'') (ConcreteExpr 8 5)" "RegisterExpr 8 2 ''b''" 1]
  by (simp add: substitute_def createArith_def replace_kid_def)

text \<open>C33: Evaluating the result of a substitution gives the value of the original under the map in which the
  register has the value of the inserted expression, errors included.\<close>

theorem substitute_evaluates:
  assumes "typed G e" and "typed G r" and "value_in_map r m = Ok v"
  shows "\<exists>e'. substitute e reg r = Ok e' \<and> value_in_map e' m = value_in_map e (m(reg \<mapsto> v))"
proof -
  have "value_of (getMappingFor (Mapped m)) (subst [reg \<mapsto> r] e) = value_of (getMappingFor (Mapped (m(reg \<mapsto> v)))) e"
    by (rule subst_value) (use assms(3) in \<open>auto simp: value_in_map split: option.splits\<close>)
  then show ?thesis using substitute_Ok [OF assms(1,2), of reg] by (simp add: value_in_map)
qed

theorem substitute_evaluates_witness:
  "\<exists>e'. substitute (ArithExpr SE_Sub 8 (RegisterExpr 8 (1 :: int) ''a'') (ConcreteExpr 8 5)) 1 (ArithExpr SE_Mul 8 (RegisterExpr 8 2 ''b'') (ConcreteExpr 8 3)) = Ok e' \<and>
     value_in_map e' [2 \<mapsto> 4] = Ok 7"
proof -
  let ?r = "ArithExpr SE_Mul 8 (RegisterExpr 8 (2 :: int) ''b'') (ConcreteExpr 8 3)"
  let ?e = "ArithExpr SE_Sub 8 (RegisterExpr 8 (1 :: int) ''a'') (ConcreteExpr 8 5)"
  have "value_in_map ?r [2 \<mapsto> 4] = Ok 12" "value_in_map ?e [2 \<mapsto> 4, 1 \<mapsto> 12] = Ok 7"
    by (simp_all add: value_in_map_def evaluate_map_def)
  then show ?thesis using substitute_evaluates [of "\<lambda>_. 8" ?e ?r "[2 \<mapsto> 4]" 12 1] by simp
qed

text \<open>Concretizing a well-typed expression returns, leaves exactly the registers without a value, and evaluates
  under any map like the original with the concrete values overriding the map.\<close>

theorem concretize_evaluates:
  assumes "typed G e"
  shows "\<exists>e'. concretize e M = Ok e' \<and> registers e' = registers e - dom M \<and>
    (\<forall>m. value_in_map e' m = value_in_map e (m ++ (map_option fst \<circ> M)))"
proof -
  have "value_of (getMappingFor (Mapped m)) (subst (constants M) e) = value_of (getMappingFor (Mapped (m ++ (map_option fst \<circ> M)))) e" for m
    by (rule subst_value) (auto simp: constants_def map_add_def split: option.splits)
  moreover have "registers (subst (constants M) e) = registers e - dom M"
    by (auto simp: subst_registers constants_def split: option.splits)
  ultimately show ?thesis using concretize_Ok [OF assms, of M] by (simp add: value_in_map)
qed

theorem concretize_evaluates_witness:
  "\<exists>e'. concretize (CmpExpr SE_Ult (RegisterExpr 32 (1 :: int) ''a'') (RegisterExpr 32 2 ''b'')) [1 \<mapsto> (3, 4)] = Ok e' \<and>
     registers e' = {2} \<and> value_in_map e' [2 \<mapsto> 4] = Ok 1"
proof -
  let ?e = "CmpExpr SE_Ult (RegisterExpr 32 (1 :: int) ''a'') (RegisterExpr 32 2 ''b'')"
  have "registers ?e - dom [1 \<mapsto> (3 :: SVal, 4 :: nat)] = {2}" by auto
  moreover have "value_in_map ?e ([2 \<mapsto> 4] ++ (map_option fst \<circ> [1 \<mapsto> (3, 4)])) = Ok 1"
    by (simp add: value_in_map_def evaluate_map_def eval_cmp_def map_add_def)
  ultimately show ?thesis using concretize_evaluates [of "\<lambda>_. 32" ?e "[1 \<mapsto> (3, 4)]"] by auto
qed

text \<open>The registers that an evaluation reports as unknown are registers of the expression without a value, each
  of them once; when it reports none, every extension of the map gives the same value and reports none.\<close>

theorem evaluate_unknown:
  assumes "evaluate_map e m [] = Ok (v, n, U)"
  shows "set U \<subseteq> registers e - dom m \<and> distinct U \<and> n = length U \<and>
    (n = 0 \<longrightarrow> (\<forall>m'. m \<subseteq>\<^sub>m m' \<longrightarrow> evaluate_map e m' [] = Ok (v, 0, [])))"
proof -
  have e: "eval (Mapped m) e [] = Ok (v, U)" and n: "n = length U"
    using assms by (auto simp: evaluate_map_def rbind_Ok_iff)
  from eval_collects [OF e] have "set U \<subseteq> registers e - dom m" "distinct U"
    by (auto dest: ssorted_distinct)
  moreover have "evaluate_map e m' [] = Ok (v, 0, [])" if "n = 0" "m \<subseteq>\<^sub>m m'" for m'
    using eval_known [OF that(2), of e v] e n that(1) by (simp add: evaluate_map_def)
  ultimately show ?thesis using n by simp
qed

theorem evaluate_unknown_witness:
  "evaluate_map (SelectExpr 8 (ConcreteExpr 1 1) (RegisterExpr 8 (1 :: int) ''a'') (RegisterExpr 8 2 ''b'')) [1 \<mapsto> 9, 2 \<mapsto> 3] []
     = Ok (9, 0, [])"
proof -
  let ?e = "SelectExpr 8 (ConcreteExpr 1 1) (RegisterExpr 8 (1 :: int) ''a'') (RegisterExpr 8 2 ''b'')"
  have "evaluate_map ?e [1 \<mapsto> 9] [] = Ok (9, 0, [])" by (simp add: evaluate_map_def sval_getBool_def)
  from evaluate_unknown [OF this] show ?thesis by (simp add: map_le_def)
qed

text \<open>Transforming the registers of a well-typed expression returns, gives the images of its registers, and
  evaluates under a map as the original does under the map of the images.\<close>

theorem transform_evaluates:
  assumes "typed G e"
  shows "\<exists>e'. transform f e = Ok e' \<and> registers e' = f ` registers e \<and> (\<forall>m. value_in_map e' m = value_in_map e (m \<circ> f))"
proof -
  have "getMappingFor (Mapped m) \<circ> f = getMappingFor (Mapped (m \<circ> f))" for m :: "'b \<Rightarrow> SVal option"
    by (simp add: fun_eq_iff)
  then show ?thesis using transform_Ok(1) [OF assms, of f] by (auto simp: value_in_map)
qed

theorem transform_evaluates_witness:
  "\<exists>e'. transform (\<lambda>x. x + 10) (CastExpr SE_ZExt 64 (RegisterExpr 8 (1 :: int) ''a'')) = Ok e' \<and> registers e' = {11} \<and>
     value_in_map e' [11 \<mapsto> 4] = Ok 4"
proof -
  let ?e = "CastExpr SE_ZExt 64 (RegisterExpr 8 (1 :: int) ''a'')"
  have "value_in_map ?e ([11 \<mapsto> 4] \<circ> (\<lambda>x. x + 10)) = Ok 4"
    by (simp add: value_in_map_def evaluate_map_def)
  then show ?thesis using transform_evaluates [of "\<lambda>_. 8" ?e "\<lambda>x. x + 10"] by auto
qed

end
