(* ===== verification/GenMC_IMM.thy ===== *)
theory GenMC_IMM
  imports GenMC_RC11 GenMC_PSC
begin

text \<open>
  The driver for IMM (\<open>src/src/IMMDriver.cpp\<close>) and the relation it checks besides psc (\<open>src/src/ARCalculator.cpp\<close>).
  Program order is preserved only along dependencies, so the views of a label have holes. The dependencies of a
  label are those that the interpreter has collected, if it has.
\<close>

section \<open>Functions with the code of the RC11 driver\<close>

text \<open>The driver repeats these functions; their bodies are those of \<open>src/src/RC11Driver.cpp\<close>, whose definitions they name.\<close>

definition calcBasicHbView_imm :: "ExecutionGraph \<Rightarrow> Event \<Rightarrow> View res" where
  "calcBasicHbView_imm = calcBasicHbView"

definition calcWriteMsgView_imm :: "ExecutionGraph \<Rightarrow> EventLabel \<Rightarrow> EventLabel res" where
  "calcWriteMsgView_imm = calcWriteMsgView"

definition calcRMWWriteMsgView_imm :: "ExecutionGraph \<Rightarrow> EventLabel \<Rightarrow> EventLabel res" where
  "calcRMWWriteMsgView_imm = calcRMWWriteMsgView"

definition calcFenceRelRfPoBefore_imm :: "ExecutionGraph \<Rightarrow> Event \<Rightarrow> View \<Rightarrow> View res" where
  "calcFenceRelRfPoBefore_imm = calcFenceRelRfPoBefore"

section \<open>Preserved program order\<close>

definition update_before :: "ExecutionGraph \<Rightarrow> Event \<Rightarrow> DepView \<Rightarrow> DepView res" where
  "update_before g e v = rbind (getPPoRfBefore g e) (dv_update v)"

definition getDepsAsView :: "ExecutionGraph \<Rightarrow> EventDeps option \<Rightarrow> DepView res" where
  "getDepsAsView g deps = (case deps of None \<Rightarrow> Ok dv_new
     | Some d \<Rightarrow> rfold (update_before g) (dep_addr d @ dep_data d @ dep_ctrl d @ dep_addrPo d @ dep_cas d) dv_new)"

text \<open>The event itself with all its predecessors in the thread as holes.\<close>

definition only_event :: "Event \<Rightarrow> DepView res" where
  "only_event e = rbind (dv_set dv_new (ethread e) (eindex e)) (\<lambda>v. dv_addHolesInRange v (Event (ethread e) 0) (eindex e))"

definition calcPPoView :: "ExecutionGraph \<Rightarrow> Event \<Rightarrow> EventDeps option \<Rightarrow> DepView res" where
  "calcPPoView g e deps =
     rbind (getDepsAsView g deps) (\<lambda>v. rbind (only_event e) (\<lambda>wv. rbind (dv_update v wv) (\<lambda>v1.
     rbind (getThreadAcquiresAndFences g e) (\<lambda>es. rfold (update_before g) es v1))))"

definition rel_step :: "ExecutionGraph \<Rightarrow> int \<Rightarrow> int \<Rightarrow> DepView \<Rightarrow> DepView res" where
  "rel_step g t i v = rbind (getEventLabel g (Event t i)) (\<lambda>r. if isa_Read (lkind r) then dv_update v (pporfView r) else Ok v)"

definition updateRelView :: "ExecutionGraph \<Rightarrow> EventLabel \<Rightarrow> DepView \<Rightarrow> DepView res" where
  "updateRelView g l v =
     (if \<not> isAtLeastRelease l then Ok v
      else rbind (dv_removeAllHoles v (ethread (lpos l))) (\<lambda>v1.
        rbind (getLastThreadRelease g (lpos l)) (\<lambda>rel. rbind (getEventLabel g rel) (\<lambda>r.
        rbind (dv_update v1 (pporfView r)) (\<lambda>v2.
          let k = (if isa_FaiWrite (lkind r) \<or> isa_CasWrite (lkind r) then eindex rel - 1 else eindex rel) in
          rfold (rel_step g (ethread (lpos l))) [k..eindex (lpos l) - 1] v2)))))"

definition calcBasicViews_imm :: "ExecutionGraph \<Rightarrow> EventDeps option \<Rightarrow> EventLabel \<Rightarrow> EventLabel res" where
  "calcBasicViews_imm g deps l =
     rbind (calcBasicHbView_imm g (lpos l)) (\<lambda>hb. rbind (calcPPoView g (lpos l) deps) (\<lambda>pporf.
     rbind (if isAtLeastRelease l then updateRelView g l pporf else Ok pporf) (\<lambda>pporf1.
       Ok (l\<lparr>hbView := hb, pporfView := pporf1\<rparr>))))"

section \<open>Reads\<close>

definition same_loc_step :: "ExecutionGraph \<Rightarrow> EventLabel \<Rightarrow> int \<Rightarrow> DepView \<Rightarrow> DepView res" where
  "same_loc_step g l i v = rbind (getEventLabel g (Event (ethread (lpos l)) i)) (\<lambda>w.
     if isa_Write (lkind w) \<and> laddr w = laddr l then dv_update v (pporfView w) else Ok v)"

text \<open>A read from its own thread depends on the write only when it did so before.\<close>

definition updateReadViewsFromRf :: "ExecutionGraph \<Rightarrow> EventLabel \<Rightarrow> DepView \<Rightarrow> View \<Rightarrow> (DepView \<times> View) res" where
  "updateReadViewsFromRf g l pporf hb =
     (if isBottom (lrf l) then Ok (pporf, hb)
      else rbind (getEventLabel g (lrf l)) (\<lambda>rf.
        rbind (if ethread (lpos rf) = ethread (lpos l) \<or> isInitializer (lpos rf)
               then rbind (dv_update pporf (ppoView rf)) (\<lambda>v.
                      if dv_contains pporf (lpos rf) then Ok v else dv_addHole v (lpos rf))
               else rbind (dv_update pporf (pporfView rf)) (\<lambda>v. rfold (same_loc_step g l) [0..eindex (lpos l) - 1] v)) (\<lambda>v.
          Ok (v, if isAtLeastAcquire l \<and> isa_Write (lkind rf) then view_update hb (lmsgView rf) else hb))))"

definition calcReadViews_imm :: "ExecutionGraph \<Rightarrow> EventDeps option \<Rightarrow> EventLabel \<Rightarrow> EventLabel res" where
  "calcReadViews_imm g deps l =
     rbind (calcBasicHbView_imm g (lpos l)) (\<lambda>hb. rbind (calcPPoView g (lpos l) deps) (\<lambda>ppo.
     rbind (updateReadViewsFromRf g l ppo hb) (\<lambda>(pporf, hb1).
       Ok (l\<lparr>hbView := hb1, ppoView := ppo, pporfView := pporf\<rparr>))))"

section \<open>Writes\<close>

definition calcWriteViews_imm :: "ExecutionGraph \<Rightarrow> EventDeps option \<Rightarrow> EventLabel \<Rightarrow> EventLabel res" where
  "calcWriteViews_imm g deps l =
     (let rmw = isa_CasWrite (lkind l) \<or> isa_FaiWrite (lkind l) in
      rbind (calcBasicHbView_imm g (lpos l)) (\<lambda>hb. rbind (calcPPoView g (lpos l) deps) (\<lambda>ppo.
      rbind (if rmw then rbind (previous g (lpos l)) (\<lambda>p. dv_update ppo (pporfView p)) else Ok ppo) (\<lambda>ppo1.
      rbind (if isAtLeastRelease l then updateRelView g l ppo1 else Ok ppo1) (\<lambda>pporf.
      rbind (getLastThreadReleaseAtLoc g (lpos l) (laddr l)) (\<lambda>rel. rbind (update_before g rel pporf) (\<lambda>pporf1.
      let l1 = l\<lparr>hbView := hb, ppoView := ppo1, pporfView := pporf1\<rparr> in
        if rmw then calcRMWWriteMsgView_imm g l1 else calcWriteMsgView_imm g l1)))))))"

section \<open>Fences and threads\<close>

definition calcFenceViews_imm :: "ExecutionGraph \<Rightarrow> EventDeps option \<Rightarrow> EventLabel \<Rightarrow> EventLabel res" where
  "calcFenceViews_imm g deps l =
     rbind (calcBasicHbView_imm g (lpos l)) (\<lambda>hb. rbind (calcPPoView g (lpos l) deps) (\<lambda>pporf.
     rbind (if isAtLeastAcquire l then calcFenceRelRfPoBefore_imm g (prev (lpos l)) hb else Ok hb) (\<lambda>hb1.
     rbind (if isAtLeastRelease l then updateRelView g l pporf else Ok pporf) (\<lambda>pporf1.
       Ok (l\<lparr>hbView := hb1, pporfView := pporf1\<rparr>)))))"

definition calcJoinViews_imm :: "ExecutionGraph \<Rightarrow> EventDeps option \<Rightarrow> EventLabel \<Rightarrow> EventLabel res" where
  "calcJoinViews_imm g deps l =
     rbind (getLastThreadLabel g (uint (lchildId l))) (\<lambda>f.
     rbind (calcBasicHbView_imm g (lpos l)) (\<lambda>hb. rbind (calcPPoView g (lpos l) deps) (\<lambda>ppo.
     rbind (if lkind f = EL_ThreadFinish then rbind (dv_update ppo (pporfView f)) (\<lambda>v. Ok (view_update hb (hbView f), v))
            else Ok (hb, ppo)) (\<lambda>(hb1, pporf).
       Ok (l\<lparr>hbView := hb1, ppoView := ppo, pporfView := pporf\<rparr>)))))"

definition calcStartViews_imm :: "ExecutionGraph \<Rightarrow> EventLabel \<Rightarrow> EventLabel res" where
  "calcStartViews_imm g l =
     rbind (getEventLabel g (lparentCreate l)) (\<lambda>p.
     rbind (view_set (hbView p) (ethread (lpos l)) (eindex (lpos l))) (\<lambda>hb.
     rbind (dv_set (pporfView p) (ethread (lpos l)) (eindex (lpos l))) (\<lambda>pporf.
       Ok (l\<lparr>hbView := hb, pporfView := pporf\<rparr>))))"

definition calcLockLAPORViews :: "ExecutionGraph \<Rightarrow> EventDeps option \<Rightarrow> EventLabel \<Rightarrow> EventLabel res" where
  "calcLockLAPORViews g deps l =
     rbind (calcBasicHbView_imm g (lpos l)) (\<lambda>hb. rbind (calcPPoView g (lpos l) deps) (\<lambda>pporf.
     rbind (getLastThreadUnlockAtLocLAPOR g (prev (lpos l)) (llockAddr l)) (\<lambda>u.
     rbind (if isInitializer u then Ok pporf else update_before g u pporf) (\<lambda>pporf1.
       Ok (l\<lparr>hbView := hb, pporfView := pporf1\<rparr>)))))"

section \<open>Dispatch\<close>

text \<open>The labels of calls of the checked data structures have no case.\<close>

definition updateLabelViews_imm :: "Conf \<Rightarrow> ExecutionGraph \<Rightarrow> EventDeps option \<Rightarrow> EventLabel \<Rightarrow> EventLabel res" where
  "updateLabelViews_imm c g deps l =
     (let k = lkind l in
      if k \<in> {EL_Read, EL_BWaitRead, EL_SpeculativeRead, EL_ConfirmingRead, EL_DskRead, EL_CasRead, EL_LockCasRead,
              EL_TrylockCasRead, EL_HelpedCasRead, EL_ConfirmingCasRead, EL_FaiRead, EL_BIncFaiRead}
      then rbind (calcReadViews_imm g deps l) (\<lambda>l1.
             if persevere c \<and> k = EL_DskRead then calcDskMemAccessPbView g l1 else Ok l1)
      else if k \<in> {EL_Write, EL_BInitWrite, EL_BDestroyWrite, EL_UnlockWrite, EL_CasWrite, EL_LockCasWrite,
              EL_TrylockCasWrite, EL_HelpedCasWrite, EL_ConfirmingCasWrite, EL_FaiWrite, EL_BIncFaiWrite, EL_DskWrite,
              EL_DskMdWrite, EL_DskDirWrite, EL_DskJnlWrite}
      then rbind (calcWriteViews_imm g deps l) (\<lambda>l1.
             if persevere c \<and> isa_DskWrite k then calcDskMemAccessPbView g l1 else Ok l1)
      else if k \<in> {EL_Fence, EL_DskFsync, EL_DskSync, EL_DskPbarrier}
      then rbind (calcFenceViews_imm g deps l) (\<lambda>l1.
             if persevere c \<and> isa_DskAccess k then calcDskFencePbView g l1 else Ok l1)
      else if k = EL_ThreadStart then calcStartViews_imm g l
      else if k = EL_ThreadJoin then calcJoinViews_imm g deps l
      else if k \<in> {EL_ThreadCreate, EL_ThreadFinish, EL_Optional, EL_LoopBegin, EL_SpinStart, EL_FaiZNESpinEnd,
              EL_LockZNESpinEnd, EL_Malloc, EL_Free, EL_HpRetire, EL_UnlockLAPOR, EL_DskOpen, EL_HelpingCas, EL_HpProtect}
      then calcBasicViews_imm g deps l
      else if k = EL_LockLAPOR then calcLockLAPORViews g deps l
      else if k \<in> {EL_SmpFenceLKMM, EL_RCULockLKMM, EL_RCUUnlockLKMM, EL_RCUSyncLKMM} then UserError
      else Bug)"

section \<open>Races and changes of the graph\<close>

definition findDataRaceForMemAccess_imm :: "ExecutionGraph \<Rightarrow> EventLabel \<Rightarrow> Event res" where
  "findDataRaceForMemAccess_imm g m = Ok getInitializer"

definition changeRf_imm :: "Conf \<Rightarrow> ExecutionGraph \<Rightarrow> Event \<Rightarrow> Event \<Rightarrow> ExecutionGraph res" where
  "changeRf_imm c g read store =
     rbind (changeRf g read store) (\<lambda>g1. rbind (getEventLabel g1 read) (\<lambda>r.
     rbind (calcBasicHbView_imm g1 (lpos r)) (\<lambda>hb. rbind (updateReadViewsFromRf g1 r (ppoView r) hb) (\<lambda>(pporf, hb1).
     let r1 = r\<lparr>hbView := hb1, pporfView := pporf\<rparr> in
     rbind (if persevere c \<and> lkind r1 = EL_DskRead then calcDskMemAccessPbView g1 r1 else Ok r1) (\<lambda>r2.
       modLabel g1 read (\<lambda>_. r2))))))"

definition updateStart_imm :: "ExecutionGraph \<Rightarrow> Event \<Rightarrow> Event \<Rightarrow> ExecutionGraph res" where
  "updateStart_imm g create start =
     rbind (getEventLabel g start) (\<lambda>b. rbind (getEventLabel g create) (\<lambda>cr.
     rbind (view_set (hbView cr) (ethread start) 0) (\<lambda>hb. rbind (dv_set (pporfView cr) (ethread start) 0) (\<lambda>pporf.
       modLabel g start (\<lambda>l. l\<lparr>hbView := hb, pporfView := pporf\<rparr>)))))"

definition updateJoin_imm :: "ExecutionGraph \<Rightarrow> Event \<Rightarrow> Event \<Rightarrow> (ExecutionGraph \<times> bool) res" where
  "updateJoin_imm g join childLast =
     rbind (updateJoin g join childLast) (\<lambda>(g1, ok).
       if \<not> ok then Ok (g1, False)
       else rbind (getEventLabel g1 join) (\<lambda>j. rbind (getEventLabel g1 childLast) (\<lambda>f.
         rbind (calcBasicHbView_imm g1 (lpos j)) (\<lambda>hb. rbind (dv_update (ppoView j) (pporfView f)) (\<lambda>pporf.
         rbind (modLabel g1 join (\<lambda>l. l\<lparr>hbView := view_update hb (hbView f), pporfView := pporf\<rparr>)) (\<lambda>g2.
           Ok (g2, True)))))))"

section \<open>The relation ar\<close>

text \<open>The relation starts as the closure of the preserved program order and reads-from edges between accesses, fences
  and locks; psc edges between sequentially consistent fences are added to it.\<close>

definition add_new :: "Event \<Rightarrow> Event \<Rightarrow> bool \<times> GlobalRelation \<Rightarrow> (bool \<times> GlobalRelation) res" where
  "add_new a b = (\<lambda>(c, M). rbind (adj_rel M a b) (\<lambda>x. if x then Ok (c, M) else rbind (addEdge M a b) (\<lambda>M1. Ok (True, M1))))"

definition addArConstraints :: "ExecutionGraph \<Rightarrow> GlobalRelation \<Rightarrow> GlobalRelation \<Rightarrow> (bool \<times> GlobalRelation) res" where
  "addArConstraints g psc ar = rbind (getSCs g) (\<lambda>(_, fcs).
     rfold (\<lambda>f1. rfold (\<lambda>f2 S. rbind (adj_rel psc f1 f2) (\<lambda>x. if x then add_new f1 f2 S else Ok S)) fcs) fcs (False, ar))"

definition ar_initCalc :: "ExecutionGraph \<Rightarrow> GlobalRelation res" where
  "ar_initCalc g =
     rbind (populatePPoRfEntries g (adj_of (collectAllEvents g (\<lambda>l.
       isa_MemAccess (lkind l) \<or> isa_Fence (lkind l) \<or> lkind l = EL_LockLAPOR \<or> lkind l = EL_UnlockLAPOR)))) transClosure"

text \<open>Closing a relation and testing it ends the step of several calculators.\<close>

definition close_test :: "bool \<times> GlobalRelation \<Rightarrow> (CalculationResult \<times> GlobalRelation) res" where
  "close_test = (\<lambda>(c, M). rbind (transClosure M) (\<lambda>M1. rbind (isIrreflexive M1) (\<lambda>b. Ok (\<lparr>cr_changed = c, cr_cons = b\<rparr>, M1))))"

definition ar_calculator :: "'p Calculator" where
  "ar_calculator =
     \<lparr>initCalc = \<lambda>s. rbind (rel_index s R_ar) (\<lambda>_. rbind (ar_initCalc (cGraph s)) (putGlobalRelation s R_ar)),
      doCalc = \<lambda>s. rbind (getGlobalRelation s R_ar) (\<lambda>ar. rbind (getGlobalRelation s R_psc) (\<lambda>psc.
        rbind (addArConstraints (cGraph s) psc ar) (\<lambda>S. rbind (close_test S) (\<lambda>(r, ar1).
          rbind (putGlobalRelation s R_ar ar1) (\<lambda>s1. Ok (r, s1)))))),
      calcRemoveAfter = \<lambda>preds s. Ok s\<rparr>"

text \<open>The constructor of the driver registers its calculators in a graph that has been built.\<close>

definition IMMDriver :: "'p Calculator \<Rightarrow> 'p Calculator list \<times> 'p Cons \<Rightarrow> 'p Calculator list \<times> 'p Cons" where
  "IMMDriver psc b = addCalculator ar_calculator R_ar False False (addCalculator psc R_psc False False b)"

end
