(* ===== verification/GenMC_IMMProps.thy ===== *)
theory GenMC_IMMProps
  imports GenMC_IMM
begin

text \<open>
  What the views of the IMM driver contain. \<open>calcPPoView()\<close> makes a view of the event with all its predecessors in
  the thread as holes, the initial one included, which is outside the invariant of views with holes. The hole at the
  initial event does not survive the update of another view with it, so the result is within the invariant.
\<close>

section \<open>A hole at the initial event\<close>

definition without_first_hole :: "DepView \<Rightarrow> nat \<Rightarrow> DepView" where
  "without_first_hole v t = v\<lparr>dv_holes := (dv_holes v)[t := tl (dv_holes v ! t)]\<rparr>"

lemma hole_grow_grow [simp]: "hole_grow (hole_grow h i) i = hole_grow h i"
  by (simp add: hole_grow_def)

lemma update_step_first_hole:
  assumes d: "dv_invar d" and t: "t < length (dv_holes v)" "dv_holes v ! t = 0 # hs" "ssorted (0 # hs)"
  shows "dv_update_step (without_first_hole v t) i d = dv_update_step v i d"
proof (cases "i = t")
  case False
  then show ?thesis by (simp add: dv_update_step_def without_first_hole_def hole_get_def)
next
  case True
  let ?h = "hole_grow (dv_holes d) t ! t" and ?m = "view_grow (dv_view d) t ! t"
  have h: "ssorted ?h" "\<And>x. x \<in> set ?h \<Longrightarrow> 0 < x" using d by (auto simp: dv_invar_def nth_hole_grow)
  have hs: "ssorted hs" using t(3) by (simp add: ssorted_simps)
  have "0 \<le> view_at (dv_view d) t" using d by (simp add: dv_invar_def)
  moreover have "?m = view_at (dv_view d) t" by (simp add: view_at_def view_grow_def nth_vec_resize)
  ultimately have m: "0 \<le> ?m" by simp
  have "vs_intersectWith ?h (0 # hs) = vs_intersectWith ?h hs"
    by (rule ssorted_eqI) (use h hs t(3) in \<open>auto dest: h(2)\<close>)
  moreover have "drop (lower_bound (0 # hs) (?m + 1)) (0 # hs) = drop (lower_bound hs (?m + 1)) hs"
    unfolding drop_lower_bound_filter [OF t(3)] drop_lower_bound_filter [OF hs] using m by simp
  ultimately show ?thesis
    using True t(1,2) by (simp add: dv_update_step_def without_first_hole_def hole_get_def Let_def)
qed

lemma update_first_hole:
  assumes d: "dv_invar d" and w: "dv_invar (without_first_hole v t)"
    and t: "t < length (dv_holes v)" "dv_holes v ! t = 0 # hs" "ssorted (0 # hs)"
  shows "dv_update d v = dv_update d (without_first_hole v t)"
proof -
  let ?w = "without_first_hole v t"
  have size: "dv_size ?w = dv_size v" by (simp add: without_first_hole_def dv_size_def)
  have "n \<le> dv_size v \<Longrightarrow> \<exists>s. rfold (dv_update_step v) [0..<n] d = Ok s \<and> rfold (dv_update_step ?w) [0..<n] d = Ok s \<and> dv_invar s" for n
  proof (induction n)
    case (Suc n)
    then obtain s where s: "rfold (dv_update_step v) [0..<n] d = Ok s" "rfold (dv_update_step ?w) [0..<n] d = Ok s" "dv_invar s" by auto
    obtain s1 where s1: "dv_update_step ?w n s = Ok s1" "dv_invar s1"
      using dv_update_step_correct [OF s(3) w, of n] Suc.prems size by auto
    moreover have "dv_update_step v n s = Ok s1" using update_step_first_hole [OF s(3) t, of n] s1(1) by simp
    ultimately show ?case using s by simp
  qed (use d in simp)
  from this [of "dv_size v"] show ?thesis by (auto simp: dv_update_def dv_empty_def size)
qed

section \<open>The view of an event with its predecessors as holes\<close>

lemma insert_last:
  assumes "ssorted hs" "\<And>x. x \<in> set hs \<Longrightarrow> x < k"
  shows "fst (vs_insert hs k) = hs @ [k]"
  by (rule ssorted_eqI) (use assms in \<open>auto simp: ssorted_simps\<close>)

definition only_holes :: "nat \<Rightarrow> int \<Rightarrow> int list \<Rightarrow> DepView" where
  "only_holes t n hs = \<lparr>dv_view = (view_grow [] t)[t := n], dv_holes = (hole_grow [] t)[t := hs]\<rparr>"

lemma only_holes_grow:
  "dv_grow (only_holes t n hs) t = only_holes t n hs"
  by (simp add: only_holes_def dv_grow_def view_grow_def hole_grow_def)

lemma only_holes_add:
  assumes "ssorted hs" "\<And>x. x \<in> set hs \<Longrightarrow> x < k" "k \<le> n"
  shows "dv_addHole (only_holes t n hs) (Event (int t) k) = Ok (only_holes t n (hs @ [k]))"
  using assms(3) insert_last [OF assms(1,2)] only_holes_grow [of t n hs]
  by (simp add: dv_addHole_def Let_def) (simp add: only_holes_def view_grow_def hole_grow_def view_at_def)

lemma upto_snoc: "i \<le> j \<Longrightarrow> [i..j] = [i..j - 1] @ [j]"
  by (simp add: upto_rec2)

lemma only_holes_loop:
  "int k \<le> n \<Longrightarrow> rfold (\<lambda>i d. dv_addHole d (Event (int t) i)) [0..int k - 1] (only_holes t n []) = Ok (only_holes t n [0..int k - 1])"
proof (induction k)
  case (Suc k)
  have "dv_addHole (only_holes t n [0..int k - 1]) (Event (int t) (int k)) = Ok (only_holes t n ([0..int k - 1] @ [int k]))"
    by (rule only_holes_add) (use Suc.prems in auto)
  then show ?case using Suc upto_snoc [of 0 "int k"] by simp
qed simp

lemma only_event_holes:
  assumes "0 \<le> n"
  shows "only_event (Event (int t) n) = Ok (only_holes t n [0..n - 1])"
proof -
  have "dv_set dv_new (int t) n = Ok (only_holes t n [])"
    using list_update_same_conv [of t "hole_grow [] t" "[]"]
    by (simp add: dv_set_def Let_def dv_grow_def dv_new_def only_holes_def nth_hole_grow)
  then show ?thesis using only_holes_loop [of "nat n" n t] assms by (simp add: only_event_def dv_addHolesInRange_def)
qed

lemma only_holes_invar:
  assumes "0 \<le> n"
  shows "dv_invar (only_holes t n [1..n - 1])"
proof -
  have v: "view_at ((view_grow [] t)[t := n]) j = (if j = t then n else 0)" for j
    by (auto simp: view_at_def view_grow_def nth_list_update nth_vec_resize)
  have "view_invar ((view_grow [] t)[t := n])" by (rule view_invarI) (simp add: v assms)
  moreover have "length ((view_grow [] t)[t := n]) = Suc t" by (simp add: view_grow_def)
  ultimately show ?thesis by (auto simp: dv_invar_def only_holes_def v nth_list_update nth_hole_grow)
qed

lemma only_holes_contains:
  assumes "0 \<le> n" "0 < eindex x"
  shows "dv_contains (only_holes t n [1..n - 1]) x \<longleftrightarrow> x = Event (int t) n"
proof -
  have v: "view_at ((view_grow [] t)[t := n]) j = (if j = t then n else 0)" for j
    by (auto simp: view_at_def view_grow_def nth_list_update nth_vec_resize)
  have h: "hole_set (only_holes t n [1..n - 1]) j = (if j = t then {1..n - 1} else {})" for j
    by (auto simp: hole_set_def only_holes_def nth_list_update nth_hole_grow)
  have s: "dv_size (only_holes t n [1..n - 1]) = Suc t" by (simp add: dv_size_def view_size_def only_holes_def view_grow_def)
  show ?thesis
    unfolding dv_contains_iff [OF only_holes_invar [OF assms(1)]] h s
    using assms by (cases x) (auto simp: only_holes_def v split: if_splits)
qed

section \<open>Preserved program order\<close>

text \<open>Is an event in the view of another?\<close>

definition in_view_of :: "ExecutionGraph \<Rightarrow> Event \<Rightarrow> Event \<Rightarrow> bool" where
  "in_view_of g d x \<longleftrightarrow> (\<exists>l. getEventLabel g d = Ok l \<and> dv_contains (pporfView l) x)"

definition deps_events :: "EventDeps option \<Rightarrow> Event set" where
  "deps_events deps = (case deps of None \<Rightarrow> {} | Some d \<Rightarrow> set (dep_addr d) \<union> set (dep_data d) \<union> set (dep_ctrl d) \<union> set (dep_addrPo d) \<union> set (dep_cas d))"

lemma updates_before:
  assumes "dv_invar v" "\<And>x. x \<in> set es \<Longrightarrow> \<exists>l. getEventLabel g x = Ok l \<and> dv_invar (pporfView l)"
  shows "\<exists>v'. rfold (update_before g) es v = Ok v' \<and> dv_invar v' \<and>
    (\<forall>x. dv_contains v' x \<longleftrightarrow> dv_contains v x \<or> (\<exists>d \<in> set es. in_view_of g d x))"
  using assms
proof (induction es arbitrary: v)
  case Nil
  then show ?case by simp
next
  case (Cons e es)
  obtain l where l: "getEventLabel g e = Ok l" "dv_invar (pporfView l)" using Cons.prems(2) by auto
  obtain v1 where v1: "dv_update v (pporfView l) = Ok v1" "dv_invar v1"
    "\<forall>x. dv_contains v1 x \<longleftrightarrow> dv_contains v x \<or> dv_contains (pporfView l) x"
    using depview.update_law [OF Cons.prems(1) l(2)] by blast
  obtain v2 where v2: "rfold (update_before g) es v1 = Ok v2" "dv_invar v2"
    "\<forall>x. dv_contains v2 x \<longleftrightarrow> dv_contains v1 x \<or> (\<exists>d \<in> set es. in_view_of g d x)"
    using Cons.IH [OF v1(2)] Cons.prems(2) by auto
  have "update_before g e v = Ok v1" using l v1(1) by (simp add: update_before_def getPPoRfBefore_def)
  moreover have "in_view_of g e x \<longleftrightarrow> dv_contains (pporfView l) x" for x using l by (simp add: in_view_of_def)
  ultimately show ?case using v1(3) v2 by auto
qed

text \<open>C21: the views of preserved program order under IMM are exact. When the dependencies and the acquires and fences before
  an event have views within the invariant, \<open>calcPPoView()\<close> returns, the result is within the invariant too, and
  beyond the initial events it contains the event itself and what the views of these events contain, nothing else: no
  other predecessor in the thread is ordered.\<close>

theorem calcPPoView_exact:
  assumes "0 \<le> ethread e" and "0 \<le> eindex e" and "getThreadAcquiresAndFences g e = Ok acqs"
    and "\<And>d. d \<in> deps_events deps \<union> set acqs \<Longrightarrow> \<exists>l. getEventLabel g d = Ok l \<and> dv_invar (pporfView l)"
  shows "\<exists>v. calcPPoView g e deps = Ok v \<and> dv_invar v \<and>
    (\<forall>x. 0 < eindex x \<longrightarrow> (dv_contains v x \<longleftrightarrow> x = e \<or> (\<exists>d \<in> deps_events deps \<union> set acqs. in_view_of g d x)))"
proof -
  let ?t = "nat (ethread e)" and ?n = "eindex e"
  have e: "e = Event (int ?t) ?n" using assms(1) by (cases e) simp
  have new: "dv_invar dv_new" "\<not> dv_contains dv_new x" for x
    by (simp_all add: dv_invar_def dv_new_def view_invar_def dv_contains_def dv_size_def view_size_def)
  obtain v where v: "getDepsAsView g deps = Ok v" "dv_invar v" "\<forall>x. dv_contains v x \<longleftrightarrow> (\<exists>d \<in> deps_events deps. in_view_of g d x)"
  proof (cases deps)
    case None
    then show ?thesis using that [of dv_new] new by (simp add: getDepsAsView_def deps_events_def)
  next
    case (Some ds)
    let ?es = "dep_addr ds @ dep_data ds @ dep_ctrl ds @ dep_addrPo ds @ dep_cas ds"
    have s: "set ?es = deps_events deps" using Some by (auto simp: deps_events_def)
    have "\<exists>v'. rfold (update_before g) ?es dv_new = Ok v' \<and> dv_invar v' \<and>
      (\<forall>x. dv_contains v' x \<longleftrightarrow> dv_contains dv_new x \<or> (\<exists>d \<in> set ?es. in_view_of g d x))"
      by (rule updates_before [OF new(1)]) (rule assms(4), unfold s, erule UnI1)
    then obtain v where "rfold (update_before g) ?es dv_new = Ok v" "dv_invar v"
      "\<forall>x. dv_contains v x \<longleftrightarrow> (\<exists>d \<in> deps_events deps. in_view_of g d x)" using new(2) unfolding s by blast
    then show ?thesis using that [of v] Some by (simp add: getDepsAsView_def)
  qed
  let ?w = "only_holes ?t ?n [1..?n - 1]"
  have w: "only_event e = Ok (only_holes ?t ?n [0..?n - 1])" using only_event_holes [OF assms(2), of ?t] e by simp
  have upd: "dv_update v (only_holes ?t ?n [0..?n - 1]) = dv_update v ?w"
  proof (cases "?n = 0")
    case False
    let ?v = "only_holes ?t ?n [0..?n - 1]"
    have u: "[0..?n - 1] = 0 # [1..?n - 1]" using False assms(2) upto_rec1 [of 0 "?n - 1"] by simp
    have h: "?t < length (dv_holes ?v)" "dv_holes ?v ! ?t = 0 # [1..?n - 1]" by (simp_all add: only_holes_def u)
    have x: "without_first_hole ?v ?t = ?w" by (simp add: without_first_hole_def only_holes_def u)
    show ?thesis using update_first_hole [OF v(2) _ h] only_holes_invar [OF assms(2)] unfolding x by auto
  qed simp
  obtain v1 where v1: "dv_update v ?w = Ok v1" "dv_invar v1" "\<forall>x. dv_contains v1 x \<longleftrightarrow> dv_contains v x \<or> dv_contains ?w x"
    using depview.update_law [OF v(2) only_holes_invar [OF assms(2)]] by blast
  obtain v2 where v2: "rfold (update_before g) acqs v1 = Ok v2" "dv_invar v2"
    "\<forall>x. dv_contains v2 x \<longleftrightarrow> dv_contains v1 x \<or> (\<exists>d \<in> set acqs. in_view_of g d x)"
    using updates_before [OF v1(2), of acqs g] assms(4) by blast
  have "calcPPoView g e deps = Ok v2" using v(1) w upd v1(1) assms(3) v2(1) by (simp add: calcPPoView_def)
  moreover have "dv_contains v2 x \<longleftrightarrow> x = e \<or> (\<exists>d \<in> deps_events deps \<union> set acqs. in_view_of g d x)" if "0 < eindex x" for x
    using v(3) v1(3) v2(3) only_holes_contains [OF assms(2) that, of ?t] e by auto
  ultimately show ?thesis using v2(2) by auto
qed

definition one_write :: ExecutionGraph where
  "one_write = graph_init\<lparr>events := [[mkLabel EL_ThreadStart 0 Acquire (Event 0 0), mkLabel EL_Write 0 Monotonic (Event 0 1)]]\<rparr>"

theorem calcPPoView_exact_witness:
  "\<exists>v. calcPPoView one_write (Event 0 2) None = Ok v \<and> dv_invar v \<and> dv_contains v (Event 0 2) \<and> \<not> dv_contains v (Event 0 1)"
proof -
  have ls: "getEventLabel one_write (Event 0 0) = Ok (mkLabel EL_ThreadStart 0 Acquire (Event 0 0))"
    "getEventLabel one_write (Event 0 1) = Ok (mkLabel EL_Write 0 Monotonic (Event 0 1))"
    by (simp_all add: getEventLabel_def one_write_def vec_get_int_def)
  have "[1..2 - 1] = [1 :: int]" by simp
  then have acqs: "getThreadAcquiresAndFences one_write (Event 0 2) = Ok [Event 0 0]"
    by (simp add: getThreadAcquiresAndFences_def ls isAtLeastAcquire_def mkLabel_def isa_Fence_def)
  have inv: "dv_invar dv_new" by (simp add: dv_invar_def dv_new_def view_invar_def)
  have "\<exists>v. calcPPoView one_write (Event 0 2) None = Ok v \<and> dv_invar v \<and>
    (\<forall>x. 0 < eindex x \<longrightarrow> (dv_contains v x \<longleftrightarrow> x = Event 0 2 \<or> (\<exists>d \<in> deps_events None \<union> set [Event 0 0]. in_view_of one_write d x)))"
    by (rule calcPPoView_exact [OF _ _ acqs]) (simp_all add: deps_events_def ls inv mkLabel_def)
  moreover have "\<not> in_view_of one_write (Event 0 0) x" for x
    by (simp add: in_view_of_def ls mkLabel_def dv_contains_def dv_new_def dv_size_def view_size_def)
  ultimately show ?thesis by (auto simp: deps_events_def)
qed

end
