(* ===== verification/GenMC_LKMMCalc.thy ===== *)
theory GenMC_LKMMCalc
  imports GenMC_IMM
begin

text \<open>
  The relations of the Linux-kernel model, each with its calculator: prop (\<open>src/src/PROPCalculator.cpp\<close>), ar
  (\<open>src/src/ARCalculatorLKMM.cpp\<close>), pb (\<open>src/src/PBCalculator.cpp\<close>), rcu-link, rcu and rcu-fence
  (\<open>src/src/RCULinkCalculator.cpp\<close>, \<open>src/src/RCUCalculator.cpp\<close>, \<open>src/src/RCUFenceCalculator.cpp\<close>) and xb
  (\<open>src/src/XBCalculator.cpp\<close>). The calculator of prop keeps fences and locks, a component of the private state.
\<close>

section \<open>Propagation\<close>

record Prop =
  cumulFences :: "Event list"
  strongFences :: "Event list"
  prop_locks :: "Event list"

definition isNonTrivial_prop :: "EventLabel \<Rightarrow> bool" where
  "isNonTrivial_prop l \<longleftrightarrow> isa_MemAccess (lkind l) \<or> lkind l = EL_LockLAPOR \<or> lkind l = EL_UnlockLAPOR"

definition prop_collect :: "ExecutionGraph \<Rightarrow> Event \<Rightarrow> Prop \<Rightarrow> Prop res" where
  "prop_collect g e p = rbind (getEventLabel g e) (\<lambda>l. let w = isa_Write (lkind l); s = (lkind l = EL_SmpFenceLKMM) in
     Ok \<lparr>cumulFences = cumulFences p @ (if w \<and> isAtLeastRelease l then [e] else []) @ (if s \<and> isCumul (lsmp l) then [e] else []),
         strongFences = strongFences p @ (if w \<and> isSC l then [e] else []) @ (if lkind l = EL_RCUSyncLKMM then [e] else [])
           @ (if s \<and> isStrong (lsmp l) then [e] else []),
         prop_locks = prop_locks p @ (if lkind l = EL_LockCasWrite \<or> lkind l = EL_TrylockCasWrite then [prev (lpos l)] else [])\<rparr>)"

definition prop_initCalc :: "ExecutionGraph \<Rightarrow> (Prop \<times> GlobalRelation) res" where
  "prop_initCalc g =
     (let es = collectAllEvents g (\<lambda>l. isNonTrivial_prop l \<and> \<not> isNotAtomic l \<or> lkind l = EL_SmpFenceLKMM \<or> lkind l = EL_RCUSyncLKMM) in
      rbind (rfold (prop_collect g) es \<lparr>cumulFences = [], strongFences = [], prop_locks = []\<rparr>) (\<lambda>p.
      rbind (rfilter (\<lambda>e. rbind (getEventLabel g e) (\<lambda>l. Ok (\<not> isa_Fence (lkind l)))) es) (\<lambda>ms. Ok (p, adj_of ms))))"

definition isCumulFenceBefore :: "ExecutionGraph \<Rightarrow> Event \<Rightarrow> Event \<Rightarrow> bool res" where
  "isCumulFenceBefore g a b = rbind (getEventLabel g b) (\<lambda>l. rbind (BUG_ON (\<not> isa_MemAccess (lkind l))) (\<lambda>_.
     Ok (dv_contains (lfenceView l) a)))"

text \<open>The first event is in a critical section whose unlock is seen by a lock of the same location before the second.\<close>

definition later_lock :: "ExecutionGraph \<Rightarrow> EventLabel \<Rightarrow> Event \<Rightarrow> Event \<Rightarrow> Event \<Rightarrow> bool res" where
  "later_lock g lab1 ul1 b l2 = rbind (getEventLabel g l2) (\<lambda>lab2. rbind (BUG_ON (\<not> isa_CasRead (lkind lab2))) (\<lambda>_.
     if laddr lab2 \<noteq> laddr lab1 then Ok False
     else rbind (view_contains (hbView lab2) ul1) (\<lambda>c. Ok (c \<and> ethread b = ethread l2 \<and> eindex b > eindex l2))))"

definition isPoUnlRfLockPoBefore :: "ExecutionGraph \<Rightarrow> Prop \<Rightarrow> Event \<Rightarrow> Event \<Rightarrow> bool res" where
  "isPoUnlRfLockPoBefore g p a b =
     rany (\<lambda>l1. rbind (getEventLabel g l1) (\<lambda>lab1. rbind (BUG_ON (\<not> isa_CasRead (lkind lab1))) (\<lambda>_.
       rbind (getMatchingUnlock g l1) (\<lambda>ul1.
         if \<not> isBetween a l1 ul1 \<or> isInitializer ul1 then Ok False
         else rany (later_lock g lab1 ul1 b) (prop_locks p))))) (prop_locks p)"

text \<open>Looking the location up through \<open>operator[]\<close> adds it to the map.\<close>

definition loc_ref :: "SAddr \<Rightarrow> PerLocRelation \<Rightarrow> GlobalRelation \<times> PerLocRelation" where
  "loc_ref a co = (case map_of co a of Some r \<Rightarrow> (r, co) | None \<Rightarrow> (adj_empty, assoc_set a adj_empty co))"

definition getExtOverwrites :: "ExecutionGraph \<Rightarrow> Event \<Rightarrow> PerLocRelation \<Rightarrow> (Event list \<times> PerLocRelation) res" where
  "getExtOverwrites g e co = rbind (getEventLabel g e) (\<lambda>l. rbind (BUG_ON (\<not> isa_MemAccess (lkind l))) (\<lambda>_.
     let (r, co1) = loc_ref (laddr l) co; from = (if isa_Read (lkind l) then lrf l else e) in
     rbind (if isInitializer from then Ok (filter (\<lambda>s. ethread s \<noteq> ethread e) (elems r))
            else rfilter (\<lambda>s. rbind (adj_rel r from s) (\<lambda>x. Ok (x \<and> ethread s \<noteq> ethread e))) (elems r)) (\<lambda>owrs.
       Ok (owrs, co1))))"

definition addConstraint :: "Event \<Rightarrow> Event \<Rightarrow> bool \<times> GlobalRelation \<Rightarrow> (bool \<times> GlobalRelation) res" where
  "addConstraint a b S = (if a = b then Ok S else add_new a b S)"

text \<open>Edges to the external readers of a write; the edge from the write itself may be left out.\<close>

definition reader_edges :: "ExecutionGraph \<Rightarrow> (EventLabel \<Rightarrow> bool) \<Rightarrow> Event \<Rightarrow> Event \<Rightarrow> bool \<times> GlobalRelation \<Rightarrow> (bool \<times> GlobalRelation) res" where
  "reader_edges g own a w S = rbind (getEventLabel g w) (\<lambda>l.
     if \<not> isa_Write (lkind l) then Ok S
     else rfold (\<lambda>rf S. if ethread w = ethread rf then Ok S
       else rbind (getEventLabel g rf) (\<lambda>r. if isNotAtomic r then Ok S
         else rbind (addConstraint a rf S) (\<lambda>S1. if own l then addConstraint w rf S1 else Ok S1))) (lreaders l) S)"

definition ror :: "bool res \<Rightarrow> bool res \<Rightarrow> bool res" where
  "ror a b = rbind a (\<lambda>x. if x then Ok True else b)"

definition prop_pair :: "ExecutionGraph \<Rightarrow> Prop \<Rightarrow> Event \<Rightarrow> Event list \<Rightarrow> Event \<Rightarrow> bool \<times> GlobalRelation \<Rightarrow> (bool \<times> GlobalRelation) res" where
  "prop_pair g p e1 owrs e2 S =
     (if e1 = e2 then Ok S
      else rbind (ror (isCumulFenceBefore g e1 e2) (rany (\<lambda>w. isCumulFenceBefore g w e2) owrs)) (\<lambda>b.
        rbind (if b then rbind (addConstraint e1 e2 S) (reader_edges g (\<lambda>_. True) e1 e2) else Ok S) (\<lambda>S1.
        rbind (ror (isPoUnlRfLockPoBefore g p e1 e2) (rany (\<lambda>w. isPoUnlRfLockPoBefore g p w e2) owrs)) (\<lambda>c.
          if c then rbind (addConstraint e1 e2 S1) (reader_edges g (\<lambda>_. True) e1 e2) else Ok S1))))"

definition prop_elem :: "ExecutionGraph \<Rightarrow> Prop \<Rightarrow> Event \<Rightarrow> (bool \<times> GlobalRelation) \<times> PerLocRelation \<Rightarrow> ((bool \<times> GlobalRelation) \<times> PerLocRelation) res" where
  "prop_elem g p e1 = (\<lambda>(S, co). rbind (getExtOverwrites g e1 co) (\<lambda>(owrs, co1).
     rbind (rfold (\<lambda>w S. rbind (getEventLabel g w) (\<lambda>l. if isNotAtomic l then Ok S else addConstraint e1 w S)) owrs S) (\<lambda>S1.
     rbind (rfold (prop_pair g p e1 owrs) (elems (snd S1)) S1) (\<lambda>S2.
     rbind (rfold (reader_edges g (\<lambda>l. \<not> isNotAtomic l) e1) (owrs @ [e1]) S2) (\<lambda>S3. Ok (S3, co1))))))"

definition addPropConstraints :: "ExecutionGraph \<Rightarrow> Prop \<Rightarrow> GlobalRelation \<Rightarrow> PerLocRelation \<Rightarrow> ((bool \<times> GlobalRelation) \<times> PerLocRelation) res" where
  "addPropConstraints g p M co = rfold (prop_elem g p) (elems M) ((False, M), co)"

definition prop_calculator :: "('p \<Rightarrow> Prop) \<Rightarrow> (Prop \<Rightarrow> 'p \<Rightarrow> 'p) \<Rightarrow> 'p Calculator" where
  "prop_calculator pr put =
     \<lparr>initCalc = \<lambda>s. rbind (rel_index s R_prop) (\<lambda>_. rbind (prop_initCalc (cGraph s)) (\<lambda>(p, M).
        putGlobalRelation (s\<lparr>cPriv := put p (cPriv s)\<rparr>) R_prop M)),
      doCalc = \<lambda>s. rbind (getGlobalRelation s R_prop) (\<lambda>M. rbind (getPerLocRelation s R_co) (\<lambda>co.
        rbind (addPropConstraints (cGraph s) (pr (cPriv s)) M co) (\<lambda>((c, M1), co1).
        rbind (isIrreflexive M1) (\<lambda>b. rbind (putGlobalRelation s R_prop M1) (\<lambda>s1. rbind (putPerLocRelation s1 R_co co1) (\<lambda>s2.
          Ok (\<lparr>cr_changed = c, cr_cons = b\<rparr>, s2))))))),
      calcRemoveAfter = \<lambda>preds s. Ok s\<rparr>"

section \<open>ar and pb\<close>

text \<open>A calculator that adds edges to its own relation, closes it and tests it.\<close>

definition closing_calculator :: "RelationId \<Rightarrow> ('p Cons \<Rightarrow> GlobalRelation res) \<Rightarrow> ('p Cons \<Rightarrow> GlobalRelation \<Rightarrow> (bool \<times> GlobalRelation) res) \<Rightarrow> 'p Calculator" where
  "closing_calculator r start step =
     \<lparr>initCalc = \<lambda>s. rbind (rel_index s r) (\<lambda>_. rbind (start s) (putGlobalRelation s r)),
      doCalc = \<lambda>s. rbind (getGlobalRelation s r) (\<lambda>M. rbind (step s M) (\<lambda>S. rbind (close_test S) (\<lambda>(q, M1).
        rbind (putGlobalRelation s r M1) (\<lambda>s1. Ok (q, s1))))),
      calcRemoveAfter = \<lambda>preds s. Ok s\<rparr>"

definition ar_lkmm_initCalc :: "'p Cons \<Rightarrow> GlobalRelation res" where
  "ar_lkmm_initCalc s = rbind (getGlobalRelation s R_prop) (\<lambda>prop.
     rbind (populatePPoRfEntries (cGraph s) (adj_of (elems prop))) transClosure)"

definition addArConstraints_lkmm :: "GlobalRelation \<Rightarrow> GlobalRelation \<Rightarrow> (bool \<times> GlobalRelation) res" where
  "addArConstraints_lkmm prop ar =
     rfold (\<lambda>e1. rfold (\<lambda>e2 S. if ethread e1 \<noteq> ethread e2 then Ok S
       else rbind (adj_rel prop e1 e2) (\<lambda>x. if x then add_new e1 e2 S else Ok S)) (elems ar)) (elems ar) (False, ar)"

definition ar_lkmm_calculator :: "'p Calculator" where
  "ar_lkmm_calculator = closing_calculator R_ar_lkmm ar_lkmm_initCalc
     (\<lambda>s M. rbind (getGlobalRelation s R_prop) (\<lambda>prop. addArConstraints_lkmm prop M))"

definition pb_initCalc :: "'p Cons \<Rightarrow> GlobalRelation res" where
  "pb_initCalc s = rbind (getGlobalRelation s R_prop) (\<lambda>prop. Ok (adj_of (elems prop)))"

definition addPbConstraints :: "Event list \<Rightarrow> GlobalRelation \<Rightarrow> GlobalRelation \<Rightarrow> GlobalRelation \<Rightarrow> (bool \<times> GlobalRelation) res" where
  "addPbConstraints fences ar prop pb =
     rfold (\<lambda>e1. rfold (\<lambda>e2 S. rbind (adj_rel prop e1 e2) (\<lambda>x.
       if \<not> x then Ok S
       else rfold (\<lambda>e3 (c, M). rbind (adj_rel M e1 e3) (\<lambda>y.
         if \<not> y \<and> (\<exists>f \<in> set fences. isBetween f e2 e3) then rbind (addEdge M e1 e3) (\<lambda>M1. Ok (True, M1)) else Ok (c, M)))
         (elems ar) S)) (elems ar)) (elems ar) (False, pb)"

definition pb_calculator :: "('p \<Rightarrow> Prop) \<Rightarrow> 'p Calculator" where
  "pb_calculator pr = closing_calculator R_pb pb_initCalc
     (\<lambda>s M. rbind (getGlobalRelation s R_ar_lkmm) (\<lambda>ar. rbind (getGlobalRelation s R_prop) (\<lambda>prop.
       addPbConstraints (strongFences (pr (cPriv s))) ar prop M)))"

section \<open>Links of grace periods and critical sections\<close>

definition rcu_link_initCalc :: "ExecutionGraph \<Rightarrow> GlobalRelation" where
  "rcu_link_initCalc g = adj_of (collectAllEvents g (\<lambda>l. lkind l = EL_RCUSyncLKMM \<or> lkind l = EL_RCULockLKMM))"

text \<open>An event links to a grace period it precedes, and to a critical section whose unlock it precedes.\<close>

definition linksTo :: "ExecutionGraph \<Rightarrow> Event \<Rightarrow> Event \<Rightarrow> bool res" where
  "linksTo g e r = rbind (getEventLabel g r) (\<lambda>l.
     if lkind l = EL_RCUSyncLKMM then Ok (ethread e = ethread r \<and> eindex e < eindex r)
     else if lkind l = EL_RCULockLKMM then rbind (getMatchingRCUUnlockLKMM g r) (\<lambda>ul. Ok (ethread e = ethread ul \<and> eindex e < eindex ul))
     else Bug)"

definition links_of :: "ExecutionGraph \<Rightarrow> GlobalRelation \<Rightarrow> Event \<Rightarrow> Event list res" where
  "links_of g link e = rfilter (linksTo g e) (elems link)"

definition prop_po_links :: "ExecutionGraph \<Rightarrow> GlobalRelation \<Rightarrow> GlobalRelation \<Rightarrow> Event \<Rightarrow> Event \<Rightarrow> Event list \<Rightarrow> Event list res" where
  "prop_po_links g prop link a e ls = rbind (adj_rel prop a e) (\<lambda>x. if x then rbind (links_of g link e) (\<lambda>l. Ok (ls @ l)) else Ok ls)"

definition pb_links :: "ExecutionGraph \<Rightarrow> GlobalRelation \<Rightarrow> GlobalRelation \<Rightarrow> GlobalRelation \<Rightarrow> Event \<Rightarrow> Event \<Rightarrow> Event list \<Rightarrow> Event list res" where
  "pb_links g ar prop link e2 e3 ls = rbind (adj_rel prop e2 e3) (\<lambda>x.
     if x then rbind (links_of g link e3) (\<lambda>l. Ok (ls @ l))
     else rbind (adj_rel ar e2 e3) (\<lambda>y. if y then rfold (prop_po_links g prop link e3) (elems prop) ls else Ok ls))"

definition getPbOptPropPoLinks :: "ExecutionGraph \<Rightarrow> GlobalRelation \<Rightarrow> GlobalRelation \<Rightarrow> GlobalRelation \<Rightarrow> GlobalRelation \<Rightarrow> Event \<Rightarrow> Event list res" where
  "getPbOptPropPoLinks g ar prop pb link e1 =
     rfold (\<lambda>e2 ls. rbind (prop_po_links g prop link e1 e2 ls) (\<lambda>ls1.
       rbind (adj_rel pb e1 e2) (\<lambda>x. if \<not> x then Ok ls1 else rfold (pb_links g ar prop link e2) (elems prop) ls1))) (elems prop) []"

definition rcu_link_event :: "ExecutionGraph \<Rightarrow> GlobalRelation \<Rightarrow> GlobalRelation \<Rightarrow> GlobalRelation \<Rightarrow> Event \<Rightarrow> int \<Rightarrow> bool \<times> GlobalRelation \<Rightarrow> (bool \<times> GlobalRelation) res" where
  "rcu_link_event g ar prop pb e i S = rbind (getEventLabel g (Event (ethread e) i)) (\<lambda>l.
     if \<not> isNonTrivial_prop l \<or> isNotAtomic l then Ok S
     else rbind (getPbOptPropPoLinks g ar prop pb (snd S) (Event (ethread e) i)) (\<lambda>ls.
     rbind (rfold (\<lambda>ev ls. if ev = lpos l then Ok ls
       else rbind (adj_rel ar (lpos l) ev) (\<lambda>x. if \<not> x then Ok ls
         else rbind (getPbOptPropPoLinks g ar prop pb (snd S) ev) (\<lambda>l2. Ok (ls @ l2)))) (elems prop) ls) (\<lambda>ls1.
       rfold (add_new e) ls1 S)))"

definition addRcuLinks :: "ExecutionGraph \<Rightarrow> GlobalRelation \<Rightarrow> GlobalRelation \<Rightarrow> GlobalRelation \<Rightarrow> Event \<Rightarrow> bool \<times> GlobalRelation \<Rightarrow> (bool \<times> GlobalRelation) res" where
  "addRcuLinks g ar prop pb e S = rbind (getEventLabel g e) (\<lambda>l.
     rbind (if lkind l = EL_RCULockLKMM then getMatchingRCUUnlockLKMM g e
            else rbind (getLastThreadEvent g (ethread e)) (\<lambda>t. Ok (next_ev t))) (\<lambda>upper.
       rfold (rcu_link_event g ar prop pb e) [eindex e + 1..eindex upper - 1] S))"

definition addRcuLinkConstraints :: "ExecutionGraph \<Rightarrow> GlobalRelation \<Rightarrow> GlobalRelation \<Rightarrow> GlobalRelation \<Rightarrow> GlobalRelation \<Rightarrow> (bool \<times> GlobalRelation) res" where
  "addRcuLinkConstraints g ar prop pb link = rfold (addRcuLinks g ar prop pb) (elems link) (False, link)"

definition rcu_link_calculator :: "'p Calculator" where
  "rcu_link_calculator =
     \<lparr>initCalc = \<lambda>s. putGlobalRelation s R_rcu_link (rcu_link_initCalc (cGraph s)),
      doCalc = \<lambda>s. rbind (getGlobalRelation s R_rcu_link) (\<lambda>link. rbind (getGlobalRelation s R_prop) (\<lambda>prop.
        rbind (getGlobalRelation s R_ar_lkmm) (\<lambda>ar. rbind (getGlobalRelation s R_pb) (\<lambda>pb.
        rbind (addRcuLinkConstraints (cGraph s) ar prop pb link) (\<lambda>(c, M).
        rbind (putGlobalRelation s R_rcu_link M) (\<lambda>s1. Ok (\<lparr>cr_changed = c, cr_cons = True\<rparr>, s1))))))),
      calcRemoveAfter = \<lambda>preds s. Ok s\<rparr>"

section \<open>rcu\<close>

text \<open>A search from every element counts the grace periods and the critical sections on the current path; an edge is
  added when there are at least as many of the former. Both counters are unsigned.\<close>

record RcuState =
  rc_changed :: bool
  rc_gps :: "32 word"
  rc_css :: "32 word"
  rc_rcu :: GlobalRelation

definition rcu_initCalc :: "'p Cons \<Rightarrow> GlobalRelation res" where
  "rcu_initCalc s = rbind (getGlobalRelation s R_rcu_link) (\<lambda>link. Ok (adj_of (elems link)))"

definition incRcuCounter :: "ExecutionGraph \<Rightarrow> Event \<Rightarrow> RcuState \<Rightarrow> RcuState res" where
  "incRcuCounter g e s = rbind (getEventLabel g e) (\<lambda>l.
     Ok (s\<lparr>rc_gps := rc_gps s + (if lkind l = EL_RCUSyncLKMM then 1 else 0),
           rc_css := rc_css s + (if lkind l = EL_RCULockLKMM then 1 else 0)\<rparr>))"

definition decRcuCounter :: "ExecutionGraph \<Rightarrow> Event \<Rightarrow> RcuState \<Rightarrow> RcuState res" where
  "decRcuCounter g e s = rbind (getEventLabel g e) (\<lambda>l.
     Ok (s\<lparr>rc_gps := rc_gps s - (if lkind l = EL_RCUSyncLKMM then 1 else 0),
           rc_css := rc_css s - (if lkind l = EL_RCULockLKMM then 1 else 0)\<rparr>))"

definition checkAddRcuConstraint :: "Event \<Rightarrow> Event \<Rightarrow> RcuState \<Rightarrow> RcuState res" where
  "checkAddRcuConstraint a b s =
     (if rc_css s \<le> rc_gps s
      then rbind (adj_rel (rc_rcu s) a b) (\<lambda>x. if x then Ok s
             else rbind (addEdge (rc_rcu s) a b) (\<lambda>M. Ok (s\<lparr>rc_changed := True, rc_rcu := M\<rparr>)))
      else Ok s)"

definition rcu_edge :: "ExecutionGraph \<Rightarrow> Event \<Rightarrow> nat \<Rightarrow> RcuState \<Rightarrow> RcuState res" where
  "rcu_edge g e j s = rbind (vec_get (elems (rc_rcu s)) j) (\<lambda>b. rbind (incRcuCounter g b s) (\<lambda>s1.
     rbind (checkAddRcuConstraint e b s1) (decRcuCounter g b)))"

definition rcu_client :: "ExecutionGraph \<Rightarrow> Event \<Rightarrow> RcuState DfsClient" where
  "rcu_client g e =
     \<lparr>atEntryV = \<lambda>i D s. rbind (vec_get (elems (rc_rcu s)) i) (\<lambda>b. incRcuCounter g b s),
      atTreeE = \<lambda>i j D. rcu_edge g e j,
      atBackE = \<lambda>i j D s. rbind (vec_get (elems (rc_rcu s)) j) (\<lambda>b. checkAddRcuConstraint e b s),
      atForwE = \<lambda>i j D. rcu_edge g e j,
      atExitV = \<lambda>i D s. rbind (vec_get (elems (rc_rcu s)) i) (\<lambda>b. decRcuCounter g b s),
      atEnd = \<lambda>D s. Ok s\<rparr>"

definition addRcuConstraints :: "ExecutionGraph \<Rightarrow> GlobalRelation \<Rightarrow> GlobalRelation \<Rightarrow> (bool \<times> GlobalRelation) res" where
  "addRcuConstraints g link rcu =
     rfold (\<lambda>e (c, M). rbind (getEventLabel g e) (\<lambda>_.
       rbind (visitReachable link (rcu_client g e) e \<lparr>rc_changed = c, rc_gps = 0, rc_css = 0, rc_rcu = M\<rparr>) (\<lambda>s.
         Ok (rc_changed s, rc_rcu s)))) (elems rcu) (False, rcu)"

definition rcu_calculator :: "'p Calculator" where
  "rcu_calculator = closing_calculator R_rcu rcu_initCalc
     (\<lambda>s M. rbind (getGlobalRelation s R_rcu_link) (\<lambda>link. addRcuConstraints (cGraph s) link M))"

section \<open>rcu-fence\<close>

definition rcu_fence_initCalc :: "ExecutionGraph \<Rightarrow> GlobalRelation" where
  "rcu_fence_initCalc g = adj_of (collectAllEvents g isNonTrivial_prop)"

definition when_nontrivial :: "ExecutionGraph \<Rightarrow> Event \<Rightarrow> (Event \<Rightarrow> 's \<Rightarrow> 's res) \<Rightarrow> 's \<Rightarrow> 's res" where
  "when_nontrivial g e f s = rbind (getEventLabel g e) (\<lambda>l. if isNonTrivial_prop l then f (lpos l) s else Ok s)"

definition checkAddRcuFenceConstraint :: "ExecutionGraph \<Rightarrow> Event \<Rightarrow> Event \<Rightarrow> bool \<times> GlobalRelation \<Rightarrow> (bool \<times> GlobalRelation) res" where
  "checkAddRcuFenceConstraint g a b S = rbind (getEventLabel g a) (\<lambda>l.
     rbind (if lkind l = EL_RCUSyncLKMM then Ok (eindex a)
            else rbind (getMatchingRCUUnlockLKMM g a) (\<lambda>u. Ok (eindex u))) (\<lambda>upper.
       rfold (\<lambda>i. when_nontrivial g (Event (ethread a) i) (\<lambda>x S.
         rbind (getThreadSize g (ethread b)) (\<lambda>n.
           rfold (\<lambda>j. when_nontrivial g (Event (ethread b) j) (add_new x)) [eindex b..n - 1] S)))
         [1..upper - 1] S))"

definition addRcuFenceConstraints :: "ExecutionGraph \<Rightarrow> GlobalRelation \<Rightarrow> GlobalRelation \<Rightarrow> (bool \<times> GlobalRelation) res" where
  "addRcuFenceConstraints g rcu fence =
     rfold (\<lambda>r S. rbind (getIndex rcu r) (\<lambda>i. rbind (vec_get (nodeSucc rcu) i) (\<lambda>succs.
       rfold (\<lambda>j S. rbind (vec_get (elems rcu) j) (\<lambda>e. checkAddRcuFenceConstraint g r e S)) succs S)))
       (elems rcu) (False, fence)"

definition rcu_fence_calculator :: "'p Calculator" where
  "rcu_fence_calculator =
     \<lparr>initCalc = \<lambda>s. putGlobalRelation s R_rcu_fence (rcu_fence_initCalc (cGraph s)),
      doCalc = \<lambda>s. rbind (getGlobalRelation s R_rcu_fence) (\<lambda>fence. rbind (getGlobalRelation s R_rcu) (\<lambda>rcu.
        rbind (addRcuFenceConstraints (cGraph s) rcu fence) (\<lambda>(c, M). rbind (isIrreflexive M) (\<lambda>b.
        rbind (putGlobalRelation s R_rcu_fence M) (\<lambda>s1. Ok (\<lparr>cr_changed = c, cr_cons = b\<rparr>, s1)))))),
      calcRemoveAfter = \<lambda>preds s. Ok s\<rparr>"

section \<open>xb\<close>

definition addXbConstraints :: "GlobalRelation \<Rightarrow> GlobalRelation \<Rightarrow> GlobalRelation \<Rightarrow> GlobalRelation \<Rightarrow> (bool \<times> GlobalRelation) res" where
  "addXbConstraints ar pb fence xb =
     rfold (\<lambda>e1. rfold (\<lambda>e2 S. rbind (adj_rel (snd S) e1 e2) (\<lambda>x.
       if x then Ok S
       else rbind (ror (adj_rel ar e1 e2) (ror (adj_rel pb e1 e2) (adj_rel fence e1 e2))) (\<lambda>y.
         if y then add_new e1 e2 S else Ok S))) (elems xb)) (elems xb) (False, xb)"

definition xb_calculator :: "'p Calculator" where
  "xb_calculator = closing_calculator R_xb ar_lkmm_initCalc
     (\<lambda>s M. rbind (getGlobalRelation s R_ar_lkmm) (\<lambda>ar. rbind (getGlobalRelation s R_pb) (\<lambda>pb.
       rbind (getGlobalRelation s R_rcu_fence) (\<lambda>fence. addXbConstraints ar pb fence M))))"

end
