(* ===== verification/GenMC_LKMM.thy ===== *)
theory GenMC_LKMM
  imports GenMC_LKMMCalc GenMC_Revisit
begin

text \<open>
  The driver for the Linux-kernel model (\<open>src/src/LKMMDriver.cpp\<close>): the views of its labels, with the effect of the
  kernel's fences on them, and the changes of the graph that recompute views. The races it looks for are in
  \<open>GenMC_LKMMRaces\<close>.
\<close>

section \<open>Functions with the code of the other drivers\<close>

definition calcBasicHbView_lkmm :: "ExecutionGraph \<Rightarrow> Event \<Rightarrow> View res" where
  "calcBasicHbView_lkmm = calcBasicHbView"

definition updateRelView_lkmm :: "ExecutionGraph \<Rightarrow> EventLabel \<Rightarrow> DepView \<Rightarrow> DepView res" where
  "updateRelView_lkmm = updateRelView"

definition updateReadViewsFromRf_lkmm :: "ExecutionGraph \<Rightarrow> EventLabel \<Rightarrow> DepView \<Rightarrow> View \<Rightarrow> (DepView \<times> View) res" where
  "updateReadViewsFromRf_lkmm = updateReadViewsFromRf"

definition calcWriteMsgView_lkmm :: "ExecutionGraph \<Rightarrow> EventLabel \<Rightarrow> EventLabel res" where
  "calcWriteMsgView_lkmm = calcWriteMsgView"

definition calcFenceRelRfPoBefore_lkmm :: "ExecutionGraph \<Rightarrow> Event \<Rightarrow> View \<Rightarrow> View res" where
  "calcFenceRelRfPoBefore_lkmm = calcFenceRelRfPoBefore"

definition calcStartViews_lkmm :: "ExecutionGraph \<Rightarrow> EventLabel \<Rightarrow> EventLabel res" where
  "calcStartViews_lkmm = calcStartViews_imm"

definition updateStart_lkmm :: "ExecutionGraph \<Rightarrow> Event \<Rightarrow> Event \<Rightarrow> ExecutionGraph res" where
  "updateStart_lkmm = updateStart_imm"

definition updateJoin_lkmm :: "ExecutionGraph \<Rightarrow> Event \<Rightarrow> Event \<Rightarrow> (ExecutionGraph \<times> bool) res" where
  "updateJoin_lkmm = updateJoin_imm"

section \<open>Fences before an access and preserved program order\<close>

definition fence_view_step :: "ExecutionGraph \<Rightarrow> EventLabel \<Rightarrow> int \<Rightarrow> DepView \<Rightarrow> DepView res" where
  "fence_view_step g l i v = rbind (getEventLabel g (Event (ethread (lpos l)) i)) (\<lambda>e.
     rbind (if lkind e = EL_SmpFenceLKMM \<and> isStrong (lsmp e) then dv_update v (pporfView e) else Ok v) (\<lambda>v1.
     rbind (if lkind e = EL_SmpFenceLKMM \<and> lsmp e = WMB \<and> isa_Write (lkind l) then dv_update v1 (pporfView e) else Ok v1) (\<lambda>v2.
       if isa_Fence (lkind e) \<and> isAtLeastRelease e then dv_update v2 (pporfView e) else Ok v2)))"

definition calcFenceView :: "ExecutionGraph \<Rightarrow> EventLabel \<Rightarrow> DepView res" where
  "calcFenceView g l = rfold (fence_view_step g l) [1..eindex (lpos l) - 1] dv_new"

definition getDepsAsView_lkmm :: "ExecutionGraph \<Rightarrow> EventLabel \<Rightarrow> EventDeps option \<Rightarrow> DepView res" where
  "getDepsAsView_lkmm g l deps = (case deps of None \<Rightarrow> Ok dv_new
     | Some d \<Rightarrow> rfold (update_before g) (dep_addr d @ dep_data d @
         (if isa_CasRead (lkind l) \<or> isa_FaiRead (lkind l) \<or> isa_Write (lkind l) then dep_ctrl d else []) @ dep_cas d) dv_new)"

text \<open>A write fence orders writes only, a read fence reads only (and not the reads of operations that return no value).\<close>

definition fence_applies :: "EventLabel \<Rightarrow> EventLabel \<Rightarrow> bool" where
  "fence_applies l f \<longleftrightarrow> \<not> (lkind f = EL_SmpFenceLKMM \<and> lsmp f = WMB \<and> \<not> isa_Write (lkind l)) \<and>
     \<not> (lkind f = EL_SmpFenceLKMM \<and> lsmp f = RMB \<and> (\<not> isa_Read (lkind l) \<or> lkind l = EL_NoRetFaiRead))"

definition calcPPoView_lkmm :: "ExecutionGraph \<Rightarrow> EventLabel \<Rightarrow> EventDeps option \<Rightarrow> DepView res" where
  "calcPPoView_lkmm g l deps =
     (let e = lpos l in
      rbind (getDepsAsView_lkmm g l deps) (\<lambda>v. rbind (only_event e) (\<lambda>wv. rbind (dv_update v wv) (\<lambda>v1.
      rbind (getThreadAcquiresAndFences g e) (\<lambda>es.
      rbind (rfold (\<lambda>ev v. rbind (getEventLabel g ev) (\<lambda>f. if fence_applies l f then update_before g ev v else Ok v)) es v1) (\<lambda>v2.
      rbind (getThreadSize g (ethread e)) (dv_removeHolesInRange v2 e)))))))"

definition calcBasicViews_lkmm :: "ExecutionGraph \<Rightarrow> EventDeps option \<Rightarrow> EventLabel \<Rightarrow> EventLabel res" where
  "calcBasicViews_lkmm g deps l =
     rbind (calcBasicHbView_lkmm g (lpos l)) (\<lambda>hb. rbind (calcPPoView_lkmm g l deps) (\<lambda>pporf.
     rbind (if isAtLeastRelease l then updateRelView_lkmm g l pporf else Ok pporf) (\<lambda>pporf1.
       Ok (l\<lparr>hbView := hb, pporfView := pporf1\<rparr>))))"

section \<open>Reads\<close>

text \<open>The view of the last unlock of the thread that a lock takes, if it takes one.\<close>

definition lock_view :: "ExecutionGraph \<Rightarrow> EventLabel \<Rightarrow> DepView option res" where
  "lock_view g l =
     (if lkind l \<noteq> EL_LockCasRead \<and> lkind l \<noteq> EL_TrylockCasRead then Ok None
      else rbind (getPreviousLabelST g l (\<lambda>e. Ok (lkind e = EL_UnlockWrite))) (\<lambda>u. Ok (map_option pporfView u)))"

definition updateLockViews :: "ExecutionGraph \<Rightarrow> EventLabel \<Rightarrow> DepView \<Rightarrow> DepView \<Rightarrow> (DepView \<times> DepView) res" where
  "updateLockViews g l pporf ppo = rbind (lock_view g l) (\<lambda>u. case u of None \<Rightarrow> Ok (pporf, ppo)
     | Some w \<Rightarrow> rbind (dv_update ppo w) (\<lambda>ppo1. rbind (dv_update pporf w) (\<lambda>pporf1. Ok (pporf1, ppo1))))"

definition calcReadViews_lkmm :: "ExecutionGraph \<Rightarrow> EventDeps option \<Rightarrow> EventLabel \<Rightarrow> EventLabel res" where
  "calcReadViews_lkmm g deps l =
     rbind (calcBasicHbView_lkmm g (lpos l)) (\<lambda>hb. rbind (calcFenceView g l) (\<lambda>fence.
     rbind (calcPPoView_lkmm g l deps) (\<lambda>ppo. rbind (updateReadViewsFromRf_lkmm g l ppo hb) (\<lambda>(pporf, hb1).
     rbind (updateLockViews g l pporf ppo) (\<lambda>(pporf1, ppo1).
       Ok (l\<lparr>hbView := hb1, lfenceView := fence, ppoView := ppo1, pporfView := pporf1\<rparr>))))))"

section \<open>Writes\<close>

definition calcRMWWriteMsgView_lkmm :: "ExecutionGraph \<Rightarrow> EventLabel \<Rightarrow> EventLabel res" where
  "calcRMWWriteMsgView_lkmm g l =
     rbind (BUG_ON (\<not> isa_FaiWrite (lkind l) \<and> \<not> isa_CasWrite (lkind l))) (\<lambda>_.
     rbind (previous g (lpos l)) (\<lambda>p.
     rbind (BUG_ON (lordering p = NotAtomic)) (\<lambda>_. rbind (BUG_ON (\<not> isa_Read (lkind p))) (\<lambda>_.
     rbind (if lkind p = EL_NoRetFaiRead then Ok []
            else rbind (getEventLabel g (lrf p)) (\<lambda>w. Ok (if isa_Write (lkind w) then view_update [] (lmsgView w) else []))) (\<lambda>msg.
     rbind (if isAtLeastRelease p then Ok (view_update msg (hbView l))
            else rbind (getLastThreadReleaseAtLoc g (lpos l) (laddr l)) (\<lambda>e.
                 rbind (getEventLabel g e) (\<lambda>r. Ok (view_update msg (hbView r))))) (\<lambda>msg1.
       Ok (l\<lparr>lmsgView := msg1\<rparr>)))))))"

definition calcWriteViews_lkmm :: "ExecutionGraph \<Rightarrow> EventDeps option \<Rightarrow> EventLabel \<Rightarrow> EventLabel res" where
  "calcWriteViews_lkmm g deps l =
     (let rmw = isa_CasWrite (lkind l) \<or> isa_FaiWrite (lkind l) in
      rbind (calcBasicHbView_lkmm g (lpos l)) (\<lambda>hb. rbind (calcPPoView_lkmm g l deps) (\<lambda>ppo.
      rbind (calcFenceView g l) (\<lambda>fence.
      rbind (if rmw then rbind (previous g (lpos l)) (\<lambda>p. dv_update ppo (pporfView p)) else Ok ppo) (\<lambda>ppo1.
      rbind (if isAtLeastRelease l then rbind (updateRelView_lkmm g l ppo1) (\<lambda>v. Ok (v, v)) else Ok (ppo1, fence)) (\<lambda>(pporf, fence1).
      let l1 = l\<lparr>hbView := hb, lfenceView := fence1, ppoView := ppo1, pporfView := pporf\<rparr> in
        if rmw then calcRMWWriteMsgView_lkmm g l1 else calcWriteMsgView_lkmm g l1))))))"

section \<open>Fences and threads\<close>

definition update_views_of :: "ExecutionGraph \<Rightarrow> (EventLabel \<Rightarrow> bool) \<Rightarrow> EventLabel \<Rightarrow> DepView \<Rightarrow> DepView res" where
  "update_views_of g P f v = rfold (\<lambda>i v. rbind (getEventLabel g (Event (ethread (lpos f)) i)) (\<lambda>l.
     if P l then dv_update v (pporfView l) else Ok v)) [1..eindex (lpos f) - 1] v"

definition updateRmbFenceView :: "ExecutionGraph \<Rightarrow> EventLabel \<Rightarrow> DepView \<Rightarrow> DepView res" where
  "updateRmbFenceView g f v = rbind (BUG_ON (lsmp f \<noteq> RMB)) (\<lambda>_.
     update_views_of g (\<lambda>l. isa_Read (lkind l) \<and> lkind l \<noteq> EL_NoRetFaiRead) f v)"

definition updateWmbFenceView :: "ExecutionGraph \<Rightarrow> EventLabel \<Rightarrow> DepView \<Rightarrow> DepView res" where
  "updateWmbFenceView g f v = rbind (BUG_ON (lsmp f \<noteq> WMB)) (\<lambda>_. update_views_of g (\<lambda>l. isa_Write (lkind l)) f v)"

definition updateMbFenceView :: "ExecutionGraph \<Rightarrow> EventLabel \<Rightarrow> DepView \<Rightarrow> DepView res" where
  "updateMbFenceView g f v = rbind (BUG_ON (\<not> isStrong (lsmp f))) (\<lambda>_.
     rbind (dv_removeAllHoles v (ethread (lpos f))) (update_views_of g (\<lambda>l. isa_Read (lkind l)) f))"

definition calcFenceViews_lkmm :: "ExecutionGraph \<Rightarrow> EventDeps option \<Rightarrow> EventLabel \<Rightarrow> EventLabel res" where
  "calcFenceViews_lkmm g deps l =
     rbind (calcBasicHbView_lkmm g (lpos l)) (\<lambda>hb. rbind (calcPPoView_lkmm g l deps) (\<lambda>pporf.
     rbind (if isAtLeastAcquire l then calcFenceRelRfPoBefore_lkmm g (prev (lpos l)) hb else Ok hb) (\<lambda>hb1.
     rbind (if isAtLeastRelease l then updateRelView_lkmm g l pporf else Ok pporf) (\<lambda>pporf1.
     rbind (if lkind l \<noteq> EL_SmpFenceLKMM then Ok pporf1
            else case lsmp l of WMB \<Rightarrow> updateWmbFenceView g l pporf1 | RMB \<Rightarrow> updateRmbFenceView g l pporf1
                 | _ \<Rightarrow> updateMbFenceView g l pporf1) (\<lambda>pporf2.
       Ok (l\<lparr>hbView := hb1, pporfView := pporf2\<rparr>))))))"

definition calcJoinViews_lkmm :: "ExecutionGraph \<Rightarrow> EventDeps option \<Rightarrow> EventLabel \<Rightarrow> EventLabel res" where
  "calcJoinViews_lkmm g deps l =
     rbind (getLastThreadLabel g (uint (lchildId l))) (\<lambda>f.
     rbind (calcBasicHbView_lkmm g (lpos l)) (\<lambda>hb. rbind (calcPPoView_lkmm g l deps) (\<lambda>ppo.
     rbind (if lkind f = EL_ThreadFinish then rbind (dv_update ppo (pporfView f)) (\<lambda>v. Ok (view_update hb (hbView f), v))
            else Ok (hb, ppo)) (\<lambda>(hb1, pporf).
       Ok (l\<lparr>hbView := hb1, ppoView := ppo, pporfView := pporf\<rparr>)))))"

section \<open>Dispatch\<close>

definition updateLabelViews_lkmm :: "Conf \<Rightarrow> ExecutionGraph \<Rightarrow> EventDeps option \<Rightarrow> EventLabel \<Rightarrow> EventLabel res" where
  "updateLabelViews_lkmm c g deps l =
     (let k = lkind l in
      if k \<in> {EL_Read, EL_BWaitRead, EL_SpeculativeRead, EL_ConfirmingRead, EL_DskRead, EL_CasRead, EL_LockCasRead,
              EL_TrylockCasRead, EL_HelpedCasRead, EL_ConfirmingCasRead, EL_FaiRead, EL_NoRetFaiRead, EL_BIncFaiRead}
      then rbind (calcReadViews_lkmm g deps l) (\<lambda>l1.
             if persevere c \<and> k = EL_DskRead then calcDskMemAccessPbView g l1 else Ok l1)
      else if k \<in> {EL_Write, EL_BInitWrite, EL_BDestroyWrite, EL_UnlockWrite, EL_CasWrite, EL_LockCasWrite,
              EL_TrylockCasWrite, EL_HelpedCasWrite, EL_ConfirmingCasWrite, EL_FaiWrite, EL_NoRetFaiWrite, EL_BIncFaiWrite,
              EL_DskWrite, EL_DskMdWrite, EL_DskDirWrite, EL_DskJnlWrite}
      then rbind (calcWriteViews_lkmm g deps l) (\<lambda>l1.
             if persevere c \<and> isa_DskWrite k then calcDskMemAccessPbView g l1 else Ok l1)
      else if k = EL_Fence then UserError
      else if k \<in> {EL_SmpFenceLKMM, EL_RCUSyncLKMM, EL_DskFsync, EL_DskSync, EL_DskPbarrier}
      then rbind (calcFenceViews_lkmm g deps l) (\<lambda>l1.
             if persevere c \<and> isa_DskAccess k then calcDskFencePbView g l1 else Ok l1)
      else if k = EL_ThreadStart then calcStartViews_lkmm g l
      else if k = EL_ThreadJoin then calcJoinViews_lkmm g deps l
      else if k \<in> {EL_ThreadCreate, EL_ThreadFinish, EL_Optional, EL_LoopBegin, EL_SpinStart, EL_FaiZNESpinEnd,
              EL_LockZNESpinEnd, EL_Malloc, EL_Free, EL_HpRetire, EL_UnlockLAPOR, EL_RCULockLKMM, EL_RCUUnlockLKMM,
              EL_DskOpen, EL_HelpingCas, EL_HpProtect, EL_FunStart, EL_FunEnd}
      then calcBasicViews_lkmm g deps l
      else Bug)"

section \<open>Changes of the graph\<close>

text \<open>The view is passed for both parameters of \<open>updateLockViews()\<close>, which updates it twice.\<close>

definition changeRf_lkmm :: "Conf \<Rightarrow> ExecutionGraph \<Rightarrow> Event \<Rightarrow> Event \<Rightarrow> ExecutionGraph res" where
  "changeRf_lkmm c g read store =
     rbind (changeRf g read store) (\<lambda>g1. rbind (getEventLabel g1 read) (\<lambda>r.
     rbind (calcBasicHbView_lkmm g1 (lpos r)) (\<lambda>hb. rbind (updateReadViewsFromRf_lkmm g1 r (ppoView r) hb) (\<lambda>(pporf, hb1).
     rbind (rbind (lock_view g1 r) (\<lambda>u. case u of None \<Rightarrow> Ok pporf
            | Some w \<Rightarrow> rbind (dv_update pporf w) (\<lambda>v. dv_update v w))) (\<lambda>pporf1.
     let r1 = r\<lparr>hbView := hb1, pporfView := pporf1\<rparr> in
     rbind (if persevere c \<and> lkind r1 = EL_DskRead then calcDskMemAccessPbView g1 r1 else Ok r1) (\<lambda>r2.
       modLabel g1 read (\<lambda>_. r2)))))))"

section \<open>The calculators of the driver\<close>

definition LKMMDriver :: "('p \<Rightarrow> Prop) \<Rightarrow> (Prop \<Rightarrow> 'p \<Rightarrow> 'p) \<Rightarrow> 'p Calculator list \<times> 'p Cons \<Rightarrow> 'p Calculator list \<times> 'p Cons" where
  "LKMMDriver pr put b =
     addCalculator xb_calculator R_xb False False
     (addCalculator rcu_fence_calculator R_rcu_fence False False
     (addCalculator rcu_calculator R_rcu False False
     (addCalculator rcu_link_calculator R_rcu_link False False
     (addCalculator (pb_calculator pr) R_pb False False
     (addCalculator ar_lkmm_calculator R_ar_lkmm False False
     (addCalculator (prop_calculator pr put) R_prop False False b))))))"

end
