(* ===== verification/GenMC_LKMMRaces.thy ===== *)
theory GenMC_LKMMRaces
  imports GenMC_LKMM
begin

text \<open>
  Data races of the Linux-kernel model (\<open>src/src/LKMMDriver.cpp\<close>). Accesses to one location, one of them plain, that
  happens-before does not order are potential races. Whether one of them is a race is decided with the relations that
  the calculators have computed: races are validated by visibility and xb between marked accesses around them.
\<close>

section \<open>Potential races\<close>

text \<open>The test repeats that of \<open>src/src/RC11Driver.cpp\<close>.\<close>

definition areInPotentialRace :: "Conf \<Rightarrow> ExecutionGraph \<Rightarrow> EventLabel \<Rightarrow> EventLabel \<Rightarrow> bool res" where
  "areInPotentialRace = areInDataRace"

definition findPotentialRacesForNewLoad :: "Conf \<Rightarrow> (SAddr \<Rightarrow> Event list) \<Rightarrow> ExecutionGraph \<Rightarrow> EventLabel \<Rightarrow> Event list res" where
  "findPotentialRacesForNewLoad c stores g r =
     rbind (getPreviousNonEmptyLabel g (lpos r)) (\<lambda>p.
       if view_empty (hbView p) then Ok []
       else rfilter (\<lambda>s. rbind (view_contains (hbView p) s) (\<lambda>b.
              if b then Ok False else rbind (getEventLabel g s) (\<lambda>w. areInPotentialRace c g r w)))
            (stores (laddr r)))"

definition findPotentialRacesForNewStore :: "Conf \<Rightarrow> ExecutionGraph \<Rightarrow> EventLabel \<Rightarrow> Event list res" where
  "findPotentialRacesForNewStore c g w =
     rbind (getPreviousNonEmptyLabel g (lpos w)) (\<lambda>p.
       rfilter (\<lambda>e. rbind (getEventLabel g e) (\<lambda>m.
           if \<not> isa_MemAccess (lkind m) then Ok False else areInPotentialRace c g w m))
         (concat (map (\<lambda>i. map (Event (int i)) [view_at (hbView p) i + 1..int (length (events g ! i)) - 1])
            [0..<numThreads g])))"

section \<open>Fences between two events\<close>

definition isAcqPoOrPoRelBefore :: "ExecutionGraph \<Rightarrow> Event \<Rightarrow> Event \<Rightarrow> bool res" where
  "isAcqPoOrPoRelBefore g a b =
     (if ethread a \<noteq> ethread b then Ok False
      else rbind (getEventLabel g a) (\<lambda>la. rbind (getEventLabel g b) (\<lambda>lb.
        Ok ((isAtLeastAcquire la \<and> eindex b > eindex a) \<or> (isAtLeastRelease lb \<and> eindex a < eindex b)))))"

text \<open>Does a fence label order two accesses?\<close>

definition fence_between :: "EventLabel \<Rightarrow> EventLabel \<Rightarrow> EventLabel \<Rightarrow> bool" where
  "fence_between la lb f \<longleftrightarrow>
     (if lkind f = EL_SmpFenceLKMM
      then if lsmp f = RMB
           then isa_Read (lkind la) \<and> isa_Read (lkind lb) \<and> lkind la \<noteq> EL_NoRetFaiRead \<and> lkind lb \<noteq> EL_NoRetFaiRead
           else if lsmp f = WMB then isa_Write (lkind la) \<and> isa_Write (lkind lb)
           else isStrong (lsmp f)
      else lkind f = EL_RCUSyncLKMM)"

definition isFenceBefore :: "'p Cons \<Rightarrow> Event \<Rightarrow> Event \<Rightarrow> bool res" where
  "isFenceBefore s a b = (let g = cGraph s in
     rbind (getGlobalRelation s R_rcu_fence) (\<lambda>rf. rbind (getEventLabel g a) (\<lambda>la. rbind (getEventLabel g b) (\<lambda>lb.
     rbind (adj_rel rf a b) (\<lambda>x.
       if x then Ok True
       else if ethread a \<noteq> ethread b then Ok False
       else rbind (isAcqPoOrPoRelBefore g a b) (\<lambda>y.
         if y then Ok True
         else rbind (scan g (ethread a) [min (eindex a) (eindex b)..max (eindex a) (eindex b) - 1] (\<lambda>f. Ok (fence_between la lb f)))
                (\<lambda>r. Ok (r \<noteq> None))))))))"

section \<open>Overwrites and marked accesses around an access\<close>

text \<open>The relation of a location; a location that has no entry is given an empty one.\<close>

definition co_at :: "'p Cons \<Rightarrow> SAddr \<Rightarrow> GlobalRelation res" where
  "co_at s a = rbind (getPerLocRelation s R_co) (\<lambda>co. Ok (fst (loc_ref a co)))"

definition getOverwrites :: "'p Cons \<Rightarrow> EventLabel \<Rightarrow> Event list res" where
  "getOverwrites s l = rbind (co_at s (laddr l)) (\<lambda>co.
     let from = (if isa_Read (lkind l) then lrf l else lpos l) in
     if isInitializer from then Ok (elems co) else rfilter (adj_rel co from) (elems co))"

definition getMarkedWritePreds :: "'p Cons \<Rightarrow> EventLabel \<Rightarrow> Event list res" where
  "getMarkedWritePreds s l = rbind (getGlobalRelation s R_prop) (\<lambda>prop.
     rfilter (\<lambda>e. rbind (isFenceBefore s e (lpos l)) (\<lambda>x. Ok (x \<or> dv_contains (pporfView l) e))) (elems prop))"

definition getMarkedWriteSuccs :: "'p Cons \<Rightarrow> EventLabel \<Rightarrow> Event list res" where
  "getMarkedWriteSuccs s l = rbind (getGlobalRelation s R_prop) (\<lambda>prop.
     rbind (rfilter (isFenceBefore s (lpos l)) (elems prop)) (\<lambda>es.
       Ok ((if isNotAtomic l then [] else [lpos l]) @ es)))"

text \<open>The loop towards the start of the thread remembers whether it has met a read fence or a strong fence. An event
  may be added several times.\<close>

definition read_pred_step :: "ExecutionGraph \<Rightarrow> EventLabel \<Rightarrow> int \<Rightarrow> bool \<times> bool \<times> Event list \<Rightarrow> (bool \<times> bool \<times> Event list) res" where
  "read_pred_step g l i = (\<lambda>(rmb, sfence, es). rbind (getEventLabel g (Event (ethread (lpos l)) i)) (\<lambda>e.
     if lkind e = EL_SmpFenceLKMM then Ok (rmb \<or> lsmp e = RMB, sfence \<or> isStrong (lsmp e), es)
     else if lkind e = EL_RCUSyncLKMM then Ok (rmb, True, es)
     else Ok (rmb, sfence, es
       @ (if isNonTrivial_prop e \<and> \<not> isNotAtomic e \<and> sfence then [lpos e] else [])
       @ (if isAtLeastAcquire e then [lpos e] else [])
       @ (if isa_Read (lkind e) \<and> \<not> isNotAtomic e \<and> rmb \<and> lkind l \<noteq> EL_NoRetFaiRead then [lpos e] else [])
       @ (if \<not> isNotAtomic e \<and> dv_contains (pporfView l) (lpos e) then [lpos e] else []))))"

definition getMarkedReadPreds :: "ExecutionGraph \<Rightarrow> EventLabel \<Rightarrow> Event list res" where
  "getMarkedReadPreds g l =
     rbind (rfold (read_pred_step g l) (rev [1..eindex (lpos l) - 1]) (False, False, if isNotAtomic l then [] else [lpos l]))
       (\<lambda>(_, _, es). Ok es)"

text \<open>The flag for a read fence is set here too, but never used.\<close>

definition read_succ_step :: "ExecutionGraph \<Rightarrow> EventLabel \<Rightarrow> int \<Rightarrow> bool \<times> Event list \<Rightarrow> (bool \<times> Event list) res" where
  "read_succ_step g l i = (\<lambda>(rmb, es). rbind (getEventLabel g (Event (ethread (lpos l)) i)) (\<lambda>e.
     if lkind e = EL_SmpFenceLKMM then Ok (rmb \<or> lsmp e = RMB, es)
     else if isa_Read (lkind e) \<and> lkind e \<noteq> EL_NoRetFaiRead \<and> \<not> isNotAtomic l \<and> lkind l \<noteq> EL_NoRetFaiRead
     then Ok (rmb, es @ [lpos e]) else Ok (rmb, es)))"

definition getMarkedReadSuccs :: "ExecutionGraph \<Rightarrow> EventLabel \<Rightarrow> Event list res" where
  "getMarkedReadSuccs g l = rbind (getThreadSize g (ethread (lpos l))) (\<lambda>n.
     rbind (rfold (read_succ_step g l) [eindex (lpos l) + 1..n - 1] (False, if isNotAtomic l then [] else [lpos l]))
       (\<lambda>(_, es). Ok es))"

definition strong_succ_step :: "ExecutionGraph \<Rightarrow> int \<Rightarrow> int \<Rightarrow> bool \<times> Event list \<Rightarrow> (bool \<times> Event list) res" where
  "strong_succ_step g t i = (\<lambda>(strong, es). rbind (getEventLabel g (Event t i)) (\<lambda>l.
     let b = (strong \<or> (lkind l = EL_SmpFenceLKMM \<and> isStrong (lsmp l)) \<or> lkind l = EL_RCUSyncLKMM)
     in Ok (b, if isNonTrivial_prop l \<and> b then es @ [lpos l] else es)))"

definition getStrongFenceSuccs :: "'p Cons \<Rightarrow> Event \<Rightarrow> Event list res" where
  "getStrongFenceSuccs s e = rbind (getGlobalRelation s R_rcu_fence) (\<lambda>rf.
     rbind (getThreadSize (cGraph s) (ethread e)) (\<lambda>n.
     rbind (rfold (strong_succ_step (cGraph s) (ethread e)) [eindex e..n - 1] (False, [])) (\<lambda>(_, es).
     rbind (getIndex rf e) (\<lambda>i. rbind (vec_get (nodeSucc rf) i) (\<lambda>js. rbind (rmap (vec_get (elems rf)) js) (\<lambda>fs.
       Ok (remdups_adj (sort (es @ fs)))))))))"

section \<open>Visibility\<close>

definition marked_xb_before :: "'p Cons \<Rightarrow> Event \<Rightarrow> Event \<Rightarrow> bool res" where
  "marked_xb_before s b e = rbind (getEventLabel (cGraph s) e) (\<lambda>l.
     if isNotAtomic l then Ok False else rbind (getGlobalRelation s R_xb) (\<lambda>xb. adj_rel xb e b))"

definition isVisConnected :: "'p Cons \<Rightarrow> Event \<Rightarrow> Event \<Rightarrow> bool res" where
  "isVisConnected s a b = rbind (getEventLabel (cGraph s) b) (\<lambda>lb. rbind (BUG_ON (isNotAtomic lb)) (\<lambda>_.
     ror (if ethread a = ethread b then marked_xb_before s b a else Ok False)
       (rbind (getStrongFenceSuccs s a) (rany (marked_xb_before s b)))))"

text \<open>The position of the first event is read through a pointer that is null when it is not a memory access.\<close>

definition vis_at :: "'p Cons \<Rightarrow> EventLabel \<Rightarrow> Event \<Rightarrow> Event \<Rightarrow> bool res" where
  "vis_at s la b e = (let g = cGraph s; a = lpos la in
     rbind (if e = b then Ok True else isVisConnected s e b) (\<lambda>c.
       if \<not> c then Ok False
       else rbind (getEventLabel g e) (\<lambda>l.
         if \<not> isa_MemAccess (lkind l) then Ok False
         else if dv_contains (lfenceView l) a then Ok True
         else if \<not> isa_Read (lkind l) then Ok False
         else if lrf l = a then Ok True
         else rbind (getEventLabel g (lrf l)) (\<lambda>w.
           if \<not> isa_Write (lkind w) then Ok False
           else if \<not> isa_MemAccess (lkind la) then Undef
           else Ok (dv_contains (lfenceView w) a)))))"

definition isVisBefore :: "'p Cons \<Rightarrow> Event \<Rightarrow> Event \<Rightarrow> bool res" where
  "isVisBefore s a b = rbind (getGlobalRelation s R_xb) (\<lambda>xb. ror (isVisConnected s a b)
     (rbind (getEventLabel (cGraph s) a) (\<lambda>la. rany (vis_at s la b) (elems xb))))"

text \<open>Is some marked event of the first list before some event of the second?\<close>

definition marked_before :: "'p Cons \<Rightarrow> (Event \<Rightarrow> Event \<Rightarrow> bool res) \<Rightarrow> Event list \<Rightarrow> Event list \<Rightarrow> bool res" where
  "marked_before s R es ps = rany (\<lambda>e. rbind (getEventLabel (cGraph s) e) (\<lambda>l.
     if isNotAtomic l then Ok False else rany (R e) ps)) es"

definition isWWVisBefore :: "'p Cons \<Rightarrow> EventLabel \<Rightarrow> EventLabel \<Rightarrow> bool res" where
  "isWWVisBefore s la lb = ror (isFenceBefore s (lpos la) (lpos lb))
     (rbind (getGlobalRelation s R_xb) (\<lambda>xb. rbind (getMarkedWriteSuccs s la) (\<lambda>ms.
      rbind (getStrongFenceSuccs s (lpos la)) (\<lambda>fs. rbind (getMarkedWritePreds s lb) (\<lambda>ps.
        ror (marked_before s (adj_rel xb) fs ps) (marked_before s (isVisBefore s) ms ps))))))"

definition isWRVisBefore :: "'p Cons \<Rightarrow> EventLabel \<Rightarrow> EventLabel \<Rightarrow> bool res" where
  "isWRVisBefore s la lb = ror (isFenceBefore s (lpos la) (lpos lb))
     (rbind (getGlobalRelation s R_xb) (\<lambda>xb. rbind (getMarkedWriteSuccs s la) (\<lambda>ms.
      rbind (getStrongFenceSuccs s (lpos la)) (\<lambda>fs. rbind (getMarkedReadPreds (cGraph s) lb) (\<lambda>ps.
        ror (marked_before s (adj_rel xb) fs ps) (marked_before s (isVisBefore s) ms ps))))))"

definition isRWXbBefore :: "'p Cons \<Rightarrow> EventLabel \<Rightarrow> EventLabel \<Rightarrow> bool res" where
  "isRWXbBefore s la lb = ror (isFenceBefore s (lpos la) (lpos lb))
     (rbind (getGlobalRelation s R_xb) (\<lambda>xb. rbind (getMarkedReadSuccs (cGraph s) la) (\<lambda>ms.
      rbind (getMarkedWritePreds s lb) (marked_before s (adj_rel xb) ms))))"

definition isWRXbBefore :: "'p Cons \<Rightarrow> EventLabel \<Rightarrow> EventLabel \<Rightarrow> bool res" where
  "isWRXbBefore s la lb = ror (isFenceBefore s (lpos la) (lpos lb))
     (rbind (getGlobalRelation s R_xb) (\<lambda>xb. rbind (getMarkedWriteSuccs s la) (\<lambda>ms.
      rbind (getMarkedReadPreds (cGraph s) lb) (marked_before s (adj_rel xb) ms))))"

section \<open>Races\<close>

definition rnot :: "bool res \<Rightarrow> bool res" where
  "rnot a = rbind a (\<lambda>x. Ok (\<not> x))"

definition rand_then :: "bool res \<Rightarrow> bool res \<Rightarrow> bool res" where
  "rand_then a b = rbind a (\<lambda>x. if x then b else Ok False)"

definition isValidWWRace :: "'p Cons \<Rightarrow> EventLabel \<Rightarrow> EventLabel \<Rightarrow> bool res" where
  "isValidWWRace s la lb = rbind (co_at s (laddr la)) (\<lambda>co.
     rand_then (adj_rel co (lpos la) (lpos lb)) (rbind (isWWVisBefore s la lb) (\<lambda>v.
       if \<not> v then Ok True
       else if \<not> isNotAtomic la \<and> isNotAtomic lb then rnot (isWRVisBefore s la lb)
       else if isNotAtomic la \<and> \<not> isNotAtomic lb then rnot (isRWXbBefore s la lb)
       else rnot (rand_then (isWRVisBefore s la lb) (isRWXbBefore s la lb)))))"

definition isValidWRRace :: "'p Cons \<Rightarrow> EventLabel \<Rightarrow> EventLabel \<Rightarrow> bool res" where
  "isValidWRRace s la lb = rbind (getOverwrites s la) (\<lambda>owrs.
     if lrf lb \<noteq> lpos la \<and> lrf lb \<notin> set owrs then Ok False
     else rbind (isWRVisBefore s la lb) (\<lambda>x. if x then Ok False else rnot (isWRXbBefore s la lb)))"

definition isValidRWRace :: "'p Cons \<Rightarrow> EventLabel \<Rightarrow> EventLabel \<Rightarrow> bool res" where
  "isValidRWRace s la lb = rbind (getOverwrites s la) (\<lambda>owrs.
     if lpos lb \<notin> set owrs then Ok False else rnot (isRWXbBefore s la lb))"

definition isValidRace :: "'p Cons \<Rightarrow> Event \<Rightarrow> Event \<Rightarrow> bool res" where
  "isValidRace s a b = rbind (getEventLabel (cGraph s) a) (\<lambda>la. rbind (getEventLabel (cGraph s) b) (\<lambda>lb.
     rbind (BUG_ON (\<not> isa_MemAccess (lkind la) \<or> \<not> isa_MemAccess (lkind lb))) (\<lambda>_.
       if isa_Write (lkind la)
       then if isa_Write (lkind lb) then ror (isValidWWRace s la lb) (isValidWWRace s lb la)
            else ror (isValidWRRace s la lb) (isValidRWRace s lb la)
       else ror (isValidRWRace s la lb) (isValidWRRace s lb la))))"

definition isCoBefore :: "Event \<Rightarrow> Event \<Rightarrow> GlobalRelation \<Rightarrow> bool res" where
  "isCoBefore a b co = (if isInitializer a then Ok (\<not> isInitializer b) else if isInitializer b then Ok False else adj_rel co a b)"

definition isRaceIncoherent :: "'p Cons \<Rightarrow> Event \<Rightarrow> Event \<Rightarrow> bool res" where
  "isRaceIncoherent s a b = rbind (getEventLabel (cGraph s) a) (\<lambda>la. rbind (getEventLabel (cGraph s) b) (\<lambda>lb.
     if \<not> isa_MemAccess (lkind la) then Undef
     else rbind (co_at s (laddr la)) (\<lambda>co.
     rbind (BUG_ON (\<not> isa_MemAccess (lkind lb) \<or> laddr la \<noteq> laddr lb)) (\<lambda>_.
       if isa_Read (lkind la)
       then ror (if lrf la = lpos lb then isRWXbBefore s la lb else Ok False)
              (rand_then (isCoBefore (lrf la) b co) (isWRVisBefore s lb la))
       else if isa_Read (lkind lb)
       then ror (if lrf lb = lpos la then isRWXbBefore s lb la else Ok False)
              (rand_then (isCoBefore (lrf lb) a co) (isWRVisBefore s la lb))
       else ror (rand_then (isCoBefore a b co) (isWWVisBefore s lb la))
              (rand_then (isCoBefore b a co) (isWWVisBefore s la lb))))))"

text \<open>The first potential race that is one. The check for consistency may not end, the value \<open>None\<close>; when the graph
  is not consistent all threads are blocked, the flag of the result.\<close>

definition findDataRaceForMemAccess_lkmm :: "'p Calculator list \<Rightarrow> bool \<Rightarrow> CheckConsType \<Rightarrow> Conf \<Rightarrow> (SAddr \<Rightarrow> Event list) \<Rightarrow> EventLabel \<Rightarrow>
    'p Cons \<Rightarrow> (Event \<times> bool \<times> 'p Cons) res option" where
  "findDataRaceForMemAccess_lkmm cs wb t c stores m s =
     (case (if isa_Read (lkind m) then findPotentialRacesForNewLoad c stores (cGraph s) m
            else if isa_Write (lkind m) then findPotentialRacesForNewStore c (cGraph s) m else Bug) of
        Bug \<Rightarrow> Some Bug | UserError \<Rightarrow> Some UserError | Undef \<Rightarrow> Some Undef
      | Ok ps \<Rightarrow> if ps = [] then Some (Ok (getInitializer, False, s))
          else map_option (\<lambda>r. rbind r (\<lambda>(ok, s1).
            if \<not> ok then Ok (getInitializer, True, s1)
            else rbind (first_race (\<lambda>p. rand_then (isValidRace s1 (lpos m) p) (rnot (isRaceIncoherent s1 (lpos m) p))) ps)
                   (\<lambda>e. Ok (e, False, s1)))) (isConsistent cs wb t s))"

end
