(* ===== verification/GenMC_LKMMProps.thy ===== *)
theory GenMC_LKMMProps
  imports GenMC_LKMMRaces GenMC_AdjListProps
begin

text \<open>
  What the calculators of the Linux-kernel model promise. Those of ar, pb and xb share a contract, stated as a locale:
  a step adds a set of edges, closes the relation and tests it. From the interpretations on their steps: what the
  relation holds after a step, what a step decides, and what holds when it reports no change. For rcu, a client of the
  depth-first search: its counters are balanced and its edges follow links.
\<close>

section \<open>Relations and queries\<close>

definition holds :: "GlobalRelation \<Rightarrow> (Event \<times> Event) set" where
  "holds r = {(a, b). adj_rel r a b = Ok True}"

lemma adj_rel_bits:
  assumes "adj_wf r" "i < length (elems r)" "j < length (elems r)"
  shows "adj_rel r (elems r ! i) (elems r ! j) = Ok (j \<in> bits (transC r) i)"
  using assms getIndex_Ok [OF assms(1), of i] getIndex_Ok [OF assms(1), of j]
  by (simp add: adj_rel_def adj_edge_def adj_wf_def square_def bits_def)

lemma adj_rel_Ok:
  assumes "adj_wf r" "a \<in> set (elems r)" "b \<in> set (elems r)"
  shows "adj_rel r a b = Ok ((a, b) \<in> holds r)"
proof -
  obtain i j where "i < length (elems r)" "a = elems r ! i" "j < length (elems r)" "b = elems r ! j"
    using assms(2,3) by (metis in_set_conv_nth)
  then show ?thesis using adj_rel_bits [OF assms(1)] by (simp add: holds_def)
qed

lemma holds_elems:
  assumes "adj_wf r" "(a, b) \<in> holds r"
  obtains i j where "i < length (elems r)" "j < length (elems r)" "a = elems r ! i" "b = elems r ! j"
proof -
  have "ids r a \<noteq> None" "ids r b \<noteq> None"
    using assms(2) by (auto simp: holds_def adj_rel_def getIndex_def split: option.splits)
  then show ?thesis using that assms(1) unfolding adj_wf_def by (metis not_None_eq)
qed

lemma holds_trancl:
  assumes "adj_wf r" "(a, b) \<in> holds r"
  shows "(a, b) \<in> (rel_of r)\<^sup>+"
proof -
  obtain i j where ij: "i < length (elems r)" "j < length (elems r)" "a = elems r ! i" "b = elems r ! j"
    using holds_elems [OF assms] .
  then have "j \<in> bits (transC r) i" using assms(2) adj_rel_bits [OF assms(1)] by (simp add: holds_def)
  moreover have "i < length (nodeSucc r)" "sound_rows (nodeSucc r) (transC r)" using ij assms(1) by (simp_all add: adj_wf_def)
  ultimately have "(i, j) \<in> (edges_of (nodeSucc r))\<^sup>+" unfolding sound_rows_def by blast
  then show ?thesis using rel_of_trancl_iff [OF assms(1)] ij by simp
qed

section \<open>Adding edges\<close>

text \<open>How the pair of the flag for a change and a relation develops when edges are added.\<close>

definition extends :: "(Event \<times> Event) set \<Rightarrow> bool \<times> GlobalRelation \<Rightarrow> bool \<times> GlobalRelation \<Rightarrow> bool" where
  "extends X S S' \<longleftrightarrow> adj_wf (snd S') \<and> elems (snd S') = elems (snd S) \<and> (rel_of (snd S'))\<^sup>+ = (rel_of (snd S) \<union> X)\<^sup>+ \<and>
     (fst S \<longrightarrow> fst S') \<and> (\<not> fst S' \<longrightarrow> snd S' = snd S \<and> X \<subseteq> (rel_of (snd S))\<^sup>+)"

lemma trancl_Un_known: "X \<subseteq> R\<^sup>+ \<Longrightarrow> (R \<union> X)\<^sup>+ = R\<^sup>+"
proof -
  assume "X \<subseteq> R\<^sup>+"
  then have "(R\<^sup>+ \<union> X)\<^sup>+ = R\<^sup>+" by (simp add: Un_absorb2)
  then show ?thesis by (simp add: trancl_trancl_Un)
qed

lemma extends_known: "adj_wf (snd S) \<Longrightarrow> X \<subseteq> (rel_of (snd S))\<^sup>+ \<Longrightarrow> extends X S S"
  by (simp add: extends_def trancl_Un_known)

lemma extends_none [simp]: "adj_wf (snd S) \<Longrightarrow> extends {} S S"
  by (simp add: extends_def)

lemma extends_trans:
  assumes "extends X S S1" "extends Y S1 S2"
  shows "extends (X \<union> Y) S S2"
proof -
  have "(rel_of (snd S2))\<^sup>+ = (rel_of (snd S1) \<union> Y)\<^sup>+" using assms(2) by (simp add: extends_def)
  also have "\<dots> = ((rel_of (snd S1))\<^sup>+ \<union> Y)\<^sup>+" by (simp add: trancl_trancl_Un)
  also have "\<dots> = ((rel_of (snd S) \<union> X)\<^sup>+ \<union> Y)\<^sup>+" using assms(1) by (simp add: extends_def)
  also have "\<dots> = (rel_of (snd S) \<union> (X \<union> Y))\<^sup>+" by (simp add: trancl_trancl_Un Un_assoc)
  finally show ?thesis using assms unfolding extends_def by auto
qed

lemma extends_rfold:
  assumes "\<And>x S. x \<in> set xs \<Longrightarrow> adj_wf (snd S) \<Longrightarrow> elems (snd S) = es \<Longrightarrow> \<exists>S'. f x S = Ok S' \<and> extends (X x) S S'"
    and "adj_wf (snd S)" "elems (snd S) = es"
  shows "\<exists>S'. rfold f xs S = Ok S' \<and> extends (\<Union>x \<in> set xs. X x) S S'"
  using assms
proof (induction xs arbitrary: S)
  case Nil
  then show ?case by simp
next
  case (Cons x xs)
  obtain S1 where 1: "f x S = Ok S1" "extends (X x) S S1" using Cons.prems(1) [of x S] Cons.prems(2,3) by auto
  then have "adj_wf (snd S1)" "elems (snd S1) = es" using Cons.prems(3) by (simp_all add: extends_def)
  then obtain S2 where 2: "rfold f xs S1 = Ok S2" "extends (\<Union>x \<in> set xs. X x) S1 S2"
    using Cons.IH [of S1] Cons.prems(1) by auto
  then show ?case using 1 extends_trans [OF 1(2) 2(2)] by simp
qed

lemma add_new_extends:
  assumes "adj_wf (snd S)" "a \<in> set (elems (snd S))" "b \<in> set (elems (snd S))"
  shows "\<exists>S'. add_new a b S = Ok S' \<and> extends {(a, b)} S S'"
proof (cases "(a, b) \<in> holds (snd S)")
  case True
  then have "add_new a b S = Ok S" using adj_rel_Ok [OF assms] by (cases S) (simp add: add_new_def)
  moreover have "extends {(a, b)} S S" using holds_trancl [OF assms(1) True] assms(1) by (intro extends_known) simp_all
  ultimately show ?thesis by blast
next
  case False
  obtain M' where M': "addEdge (snd S) a b = Ok M'" "adj_wf M'" "elems M' = elems (snd S)"
    "(rel_of M')\<^sup>+ = (insert (a, b) (rel_of (snd S)))\<^sup>+" using addEdge_Ok [OF assms] .
  then have "add_new a b S = Ok (True, M')" using False adj_rel_Ok [OF assms] by (cases S) (simp add: add_new_def)
  moreover have "extends {(a, b)} S (True, M')" using M' by (simp add: extends_def)
  ultimately show ?thesis by blast
qed

text \<open>An edge that is added under a condition.\<close>

lemma add_if_extends:
  assumes "adj_wf (snd S)" "a \<in> set (elems (snd S))" "b \<in> set (elems (snd S))"
  shows "\<exists>S'. (if q then add_new a b S else Ok S) = Ok S' \<and> extends (if q then {(a, b)} else {}) S S'"
  using add_new_extends [OF assms] assms(1) by (simp del: split_paired_Ex)

section \<open>The contract of closing calculators\<close>

lemma close_test_Ok:
  assumes "adj_wf M"
  obtains M' where "close_test (c, M) = Ok (\<lparr>cr_changed = c, cr_cons = acyclic (rel_of M)\<rparr>, M')" "adj_wf M'" "elems M' = elems M"
    "rel_of M' = rel_of M" "acyclic (rel_of M) \<Longrightarrow> holds M' = (rel_of M)\<^sup>+"
proof -
  obtain M' where M': "transClosure M = Ok M'" "adj_wf M'" "nodeSucc M' = nodeSucc M" "elems M' = elems M" "calculatedTransC M'"
    using transClosure_Ok [OF assms] by metis
  have rel: "rel_of M' = rel_of M" using M' by (simp add: rel_of_def)
  have "isIrreflexive M' = Ok (acyclic (rel_of M))"
    using isIrreflexive_Ok [OF M'(2)] detected_iff_cycle [OF M'(2,5)] acyclic_rel_of [OF assms] M'(3) by simp
  moreover have "holds M' = (rel_of M)\<^sup>+" if ac: "acyclic (rel_of M)"
  proof (intro set_eqI iffI; clarify)
    fix a b
    assume "(a, b) \<in> holds M'"
    then show "(a, b) \<in> (rel_of M)\<^sup>+" using holds_trancl [OF M'(2)] rel by simp
  next
    fix a b
    assume ab: "(a, b) \<in> (rel_of M)\<^sup>+"
    then obtain i j where ij: "(i, j) \<in> (edges_of (nodeSucc M))\<^sup>+" "a = elems M ! i" "b = elems M ! j"
      by (auto simp: rel_of_trancl [OF assms])
    then have r: "i < length (elems M)" "j < length (elems M)" using trancl_range [OF edges_range [OF assms]] by auto
    have "acyclic (edges_of (nodeSucc M'))" using ac acyclic_rel_of [OF assms] M'(3) by simp
    from rows_closure [OF M'(2,5) this] have "j \<in> bits (transC M') i" using ij(1) r M'(3,4) by auto
    then show "(a, b) \<in> holds M'" using adj_rel_bits [OF M'(2), of i j] ij r M'(4) by (simp add: holds_def)
  qed
  ultimately show ?thesis using that [of M'] M' rel by (simp add: close_test_def)
qed

lemma put_get_relation:
  assumes "getGlobalRelation s r = Ok M"
  obtains s' where "putGlobalRelation s r M' = Ok s'" "getGlobalRelation s' r = Ok M'" "cGraph s' = cGraph s" "cPriv s' = cPriv s"
    "\<And>q. q \<noteq> r \<Longrightarrow> cRelIndex s q \<noteq> cRelIndex s r \<Longrightarrow> getGlobalRelation s' q = getGlobalRelation s q"
proof -
  obtain i where i: "rel_index s r = Ok i" "i < length (rGlobal (cRels s))" using assms by (auto simp: getGlobalRelation_def res_simps)
  let ?s = "s\<lparr>cRels := (cRels s)\<lparr>rGlobal := (rGlobal (cRels s))[i := M']\<rparr>\<rparr>"
  have idx: "rel_index ?s q = rel_index s q" for q by (simp add: rel_index_def)
  show ?thesis
  proof (rule that [of ?s])
    show "putGlobalRelation s r M' = Ok ?s" using i by (simp add: putGlobalRelation_def)
    show "getGlobalRelation ?s r = Ok M'" using i idx [of r] by (simp add: getGlobalRelation_def)
    fix q
    assume "q \<noteq> r" "cRelIndex s q \<noteq> cRelIndex s r"
    then show "getGlobalRelation ?s q = getGlobalRelation s q"
      using i idx [of q] by (cases "cRelIndex s q") (auto simp: getGlobalRelation_def rel_index_def vec_get_def split: option.splits)
  qed simp_all
qed

locale closing_step =
  fixes r :: RelationId and start :: "'p Cons \<Rightarrow> GlobalRelation res"
    and step :: "'p Cons \<Rightarrow> GlobalRelation \<Rightarrow> (bool \<times> GlobalRelation) res"
    and ready :: "'p Cons \<Rightarrow> GlobalRelation \<Rightarrow> bool"
    and new_edges :: "'p Cons \<Rightarrow> GlobalRelation \<Rightarrow> (Event \<times> Event) set"
  assumes step_extends: "\<And>s M. adj_wf M \<Longrightarrow> ready s M \<Longrightarrow> \<exists>S. step s M = Ok S \<and> extends (new_edges s M) (False, M) S"
begin

text \<open>The step returns, and the relation after it is the closure of the old one with the new edges. It is consistent
  when they have no cycle; then queries answer by the closure. Without a change all new edges were covered.\<close>

lemma step_result:
  assumes "getGlobalRelation s r = Ok M" "adj_wf M" "ready s M"
  shows "\<exists>c M' s'. doCalc (closing_calculator r start step) s
        = Ok (\<lparr>cr_changed = c, cr_cons = acyclic (rel_of M \<union> new_edges s M)\<rparr>, s') \<and>
      getGlobalRelation s' r = Ok M' \<and> adj_wf M' \<and> elems M' = elems M \<and>
      (rel_of M')\<^sup>+ = (rel_of M \<union> new_edges s M)\<^sup>+ \<and>
      (acyclic (rel_of M \<union> new_edges s M) \<longrightarrow> holds M' = (rel_of M \<union> new_edges s M)\<^sup>+) \<and>
      (\<not> c \<longrightarrow> new_edges s M \<subseteq> (rel_of M)\<^sup>+)"
proof -
  obtain c N where S: "step s M = Ok (c, N)" "extends (new_edges s M) (False, M) (c, N)"
    using step_extends [OF assms(2,3)] by (metis surj_pair)
  then have N: "adj_wf N" "elems N = elems M" "(rel_of N)\<^sup>+ = (rel_of M \<union> new_edges s M)\<^sup>+"
    "\<not> c \<longrightarrow> new_edges s M \<subseteq> (rel_of M)\<^sup>+" by (simp_all add: extends_def)
  obtain M' where M': "close_test (c, N) = Ok (\<lparr>cr_changed = c, cr_cons = acyclic (rel_of N)\<rparr>, M')" "adj_wf M'"
    "elems M' = elems N" "rel_of M' = rel_of N" "acyclic (rel_of N) \<Longrightarrow> holds M' = (rel_of N)\<^sup>+"
    using close_test_Ok [OF N(1)] by metis
  obtain s' where s': "putGlobalRelation s r M' = Ok s'" "getGlobalRelation s' r = Ok M'" using put_get_relation [OF assms(1)] by metis
  have ac: "acyclic (rel_of N) = acyclic (rel_of M \<union> new_edges s M)" by (simp add: acyclic_def N(3))
  have "doCalc (closing_calculator r start step) s = Ok (\<lparr>cr_changed = c, cr_cons = acyclic (rel_of M \<union> new_edges s M)\<rparr>, s')"
    using assms(1) S(1) M'(1) s'(1) by (simp add: closing_calculator_def ac)
  then show ?thesis using s'(2) M' N ac by metis
qed

end

section \<open>The steps of ar, pb and xb\<close>

definition holds_in :: "'p Cons \<Rightarrow> RelationId \<Rightarrow> (Event \<times> Event) set" where
  "holds_in s r = (case getGlobalRelation s r of Ok R \<Rightarrow> holds R | _ \<Rightarrow> {})"

text \<open>A relation that can be asked about all elements of another.\<close>

definition covers :: "'p Cons \<Rightarrow> RelationId \<Rightarrow> GlobalRelation \<Rightarrow> bool" where
  "covers s r M \<longleftrightarrow> (\<exists>R. getGlobalRelation s r = Ok R \<and> adj_wf R \<and> set (elems M) \<subseteq> set (elems R))"

lemma coversE:
  assumes "covers s r M"
  obtains R where "getGlobalRelation s r = Ok R" "holds_in s r = holds R" "set (elems M) \<subseteq> set (elems R)"
    "\<And>a b. a \<in> set (elems M) \<Longrightarrow> b \<in> set (elems M) \<Longrightarrow> adj_rel R a b = Ok ((a, b) \<in> holds R)"
proof -
  obtain R where R: "getGlobalRelation s r = Ok R" "adj_wf R" "set (elems M) \<subseteq> set (elems R)" using assms by (auto simp: covers_def)
  show ?thesis by (rule that [OF R(1) _ R(3)]) (use R adj_rel_Ok [OF R(2)] in \<open>auto simp: holds_in_def\<close>)
qed

lemma pairs_extends:
  assumes "\<And>a b S. a \<in> set es \<Longrightarrow> b \<in> set es \<Longrightarrow> adj_wf (snd S) \<Longrightarrow> elems (snd S) = ms \<Longrightarrow>
      \<exists>S'. f a b S = Ok S' \<and> extends (X a b) S S'"
    and "adj_wf (snd S)" "elems (snd S) = ms"
  shows "\<exists>S'. rfold (\<lambda>a. rfold (f a) es) es S = Ok S' \<and> extends (\<Union>a \<in> set es. \<Union>b \<in> set es. X a b) S S'"
proof (rule extends_rfold [OF _ assms(2,3)])
  fix a and S :: "bool \<times> GlobalRelation"
  assume a: "a \<in> set es" and S: "adj_wf (snd S)" "elems (snd S) = ms"
  show "\<exists>S'. rfold (f a) es S = Ok S' \<and> extends (\<Union>b \<in> set es. X a b) S S'"
    by (rule extends_rfold [OF _ S]) (rule assms(1) [OF a])
qed

definition xb_edges :: "'p Cons \<Rightarrow> GlobalRelation \<Rightarrow> (Event \<times> Event) set" where
  "xb_edges s M = {(a, b). a \<in> set (elems M) \<and> b \<in> set (elems M) \<and> (a, b) \<in> holds_in s R_ar_lkmm \<union> holds_in s R_pb \<union> holds_in s R_rcu_fence}"

definition xb_ready :: "'p Cons \<Rightarrow> GlobalRelation \<Rightarrow> bool" where
  "xb_ready s M \<longleftrightarrow> covers s R_ar_lkmm M \<and> covers s R_pb M \<and> covers s R_rcu_fence M"

lemma ror_Ok [simp]: "ror (Ok a) (Ok b) = Ok (a \<or> b)"
  by (simp add: ror_def)

lemma addXbConstraints_extends:
  assumes M: "adj_wf M" and q: "\<And>R. R \<in> {ar, pb, fence} \<Longrightarrow>
      \<forall>a \<in> set (elems M). \<forall>b \<in> set (elems M). adj_rel R a b = Ok ((a, b) \<in> holds R)"
  shows "\<exists>S. addXbConstraints ar pb fence M = Ok S \<and>
    extends (\<Union>a \<in> set (elems M). \<Union>b \<in> set (elems M). if (a, b) \<in> holds ar \<union> holds pb \<union> holds fence then {(a, b)} else {}) (False, M) S"
  unfolding addXbConstraints_def
proof (rule pairs_extends)
  fix a b and S :: "bool \<times> GlobalRelation"
  assume ab: "a \<in> set (elems M)" "b \<in> set (elems M)" and S: "adj_wf (snd S)" "elems (snd S) = elems M"
  let ?q = "(a, b) \<in> holds ar \<union> holds pb \<union> holds fence"
  let ?f = "rbind (adj_rel (snd S) a b) (\<lambda>x. if x then Ok S
      else rbind (ror (adj_rel ar a b) (ror (adj_rel pb a b) (adj_rel fence a b))) (\<lambda>y. if y then add_new a b S else Ok S))"
  have e: "adj_rel ar a b = Ok ((a, b) \<in> holds ar)" "adj_rel pb a b = Ok ((a, b) \<in> holds pb)"
    "adj_rel fence a b = Ok ((a, b) \<in> holds fence)" "adj_rel (snd S) a b = Ok ((a, b) \<in> holds (snd S))"
    using q [of ar] q [of pb] q [of fence] ab adj_rel_Ok [OF S(1)] S(2) by auto
  show "\<exists>S'. ?f = Ok S' \<and> extends (if ?q then {(a, b)} else {}) S S'"
  proof (cases "(a, b) \<in> holds (snd S)")
    case True
    then have "extends (if ?q then {(a, b)} else {}) S S" using holds_trancl [OF S(1)] S(1) by (intro extends_known) auto
    then show ?thesis using True e by simp
  next
    case False
    then have "?f = (if ?q then add_new a b S else Ok S)" using e by simp
    then show ?thesis using add_if_extends [OF S(1), of a b ?q] ab S(2) by simp
  qed
qed (use M in simp_all)

interpretation xb: closing_step R_xb ar_lkmm_initCalc
  "\<lambda>s M. rbind (getGlobalRelation s R_ar_lkmm) (\<lambda>ar. rbind (getGlobalRelation s R_pb) (\<lambda>pb.
       rbind (getGlobalRelation s R_rcu_fence) (\<lambda>fence. addXbConstraints ar pb fence M)))" xb_ready xb_edges
proof (unfold_locales, goal_cases)
  case (1 s M)
  obtain ar where ar: "getGlobalRelation s R_ar_lkmm = Ok ar" "holds_in s R_ar_lkmm = holds ar"
    "\<And>a b. a \<in> set (elems M) \<Longrightarrow> b \<in> set (elems M) \<Longrightarrow> adj_rel ar a b = Ok ((a, b) \<in> holds ar)"
    using 1 coversE unfolding xb_ready_def by metis
  obtain pb where pb: "getGlobalRelation s R_pb = Ok pb" "holds_in s R_pb = holds pb"
    "\<And>a b. a \<in> set (elems M) \<Longrightarrow> b \<in> set (elems M) \<Longrightarrow> adj_rel pb a b = Ok ((a, b) \<in> holds pb)"
    using 1 coversE unfolding xb_ready_def by metis
  obtain fe where fe: "getGlobalRelation s R_rcu_fence = Ok fe" "holds_in s R_rcu_fence = holds fe"
    "\<And>a b. a \<in> set (elems M) \<Longrightarrow> b \<in> set (elems M) \<Longrightarrow> adj_rel fe a b = Ok ((a, b) \<in> holds fe)"
    using 1 coversE unfolding xb_ready_def by metis
  have e: "xb_edges s M = (\<Union>a \<in> set (elems M). \<Union>b \<in> set (elems M). if (a, b) \<in> holds ar \<union> holds pb \<union> holds fe then {(a, b)} else {})"
    using ar(2) pb(2) fe(2) by (auto simp: xb_edges_def split: if_splits)
  have "\<exists>S. addXbConstraints ar pb fe M = Ok S \<and> extends (xb_edges s M) (False, M) S"
    unfolding e by (rule addXbConstraints_extends [OF 1(1)]) (use ar(3) pb(3) fe(3) in auto)
  then show ?case using ar(1) pb(1) fe(1) by simp
qed

text \<open>For ar, the edges of prop within a thread.\<close>

definition ar_edges :: "'p Cons \<Rightarrow> GlobalRelation \<Rightarrow> (Event \<times> Event) set" where
  "ar_edges s M = {(a, b). a \<in> set (elems M) \<and> b \<in> set (elems M) \<and> ethread a = ethread b \<and> (a, b) \<in> holds_in s R_prop}"

interpretation ar: closing_step R_ar_lkmm ar_lkmm_initCalc
  "\<lambda>s M. rbind (getGlobalRelation s R_prop) (\<lambda>prop. addArConstraints_lkmm prop M)" "\<lambda>s. covers s R_prop" ar_edges
proof (unfold_locales, goal_cases)
  case (1 s M)
  obtain prop' where pr: "getGlobalRelation s R_prop = Ok prop'" "holds_in s R_prop = holds prop'"
    "\<And>a b. a \<in> set (elems M) \<Longrightarrow> b \<in> set (elems M) \<Longrightarrow> adj_rel prop' a b = Ok ((a, b) \<in> holds prop')"
    using coversE [OF 1(2)] by metis
  let ?q = "\<lambda>a b. ethread a = ethread b \<and> (a, b) \<in> holds prop'"
  have e: "ar_edges s M = (\<Union>a \<in> set (elems M). \<Union>b \<in> set (elems M). if ?q a b then {(a, b)} else {})"
    using pr(2) by (auto simp: ar_edges_def split: if_splits)
  have "\<exists>S. addArConstraints_lkmm prop' M = Ok S \<and> extends (ar_edges s M) (False, M) S"
    unfolding addArConstraints_lkmm_def e
  proof (rule pairs_extends)
    fix a b and S :: "bool \<times> GlobalRelation"
    assume ab: "a \<in> set (elems M)" "b \<in> set (elems M)" and S: "adj_wf (snd S)" "elems (snd S) = elems M"
    then show "\<exists>S'. (if ethread a \<noteq> ethread b then Ok S else rbind (adj_rel prop' a b) (\<lambda>x. if x then add_new a b S else Ok S)) = Ok S'
        \<and> extends (if ?q a b then {(a, b)} else {}) S S'"
      using add_if_extends [OF S(1), of a b "?q a b"] pr(3) by (auto split: if_splits)
  qed (use 1 in simp_all)
  then show ?case using pr(1) by simp
qed

text \<open>For pb, an edge of prop and then a strong fence.\<close>

definition pb_ready :: "'p Cons \<Rightarrow> GlobalRelation \<Rightarrow> bool" where
  "pb_ready s M \<longleftrightarrow> covers s R_prop M \<and> (\<exists>ar. getGlobalRelation s R_ar_lkmm = Ok ar \<and> elems ar = elems M)"

definition pb_edges :: "('p \<Rightarrow> Prop) \<Rightarrow> 'p Cons \<Rightarrow> GlobalRelation \<Rightarrow> (Event \<times> Event) set" where
  "pb_edges pr s M = {(a, c). a \<in> set (elems M) \<and> c \<in> set (elems M) \<and>
     (\<exists>b \<in> set (elems M). (a, b) \<in> holds_in s R_prop \<and> (\<exists>f \<in> set (strongFences (pr (cPriv s))). isBetween f b c))}"

interpretation pb: closing_step R_pb pb_initCalc
  "\<lambda>s M. rbind (getGlobalRelation s R_ar_lkmm) (\<lambda>ar. rbind (getGlobalRelation s R_prop) (\<lambda>prop.
       addPbConstraints (strongFences (pr (cPriv s))) ar prop M))" pb_ready "pb_edges pr" for pr
proof (unfold_locales, goal_cases)
  case (1 s M)
  obtain prop' where pr: "getGlobalRelation s R_prop = Ok prop'" "holds_in s R_prop = holds prop'"
    "\<And>a b. a \<in> set (elems M) \<Longrightarrow> b \<in> set (elems M) \<Longrightarrow> adj_rel prop' a b = Ok ((a, b) \<in> holds prop')"
    using 1 coversE unfolding pb_ready_def by metis
  obtain ar where ar: "getGlobalRelation s R_ar_lkmm = Ok ar" "elems ar = elems M" using 1 by (auto simp: pb_ready_def)
  let ?E = "set (elems M)"
  define F where "F b c \<longleftrightarrow> (\<exists>f \<in> set (strongFences (pr (cPriv s))). isBetween f b c)" for b c
  let ?Y = "\<lambda>a b. if (a, b) \<in> holds prop' then \<Union>c \<in> ?E. if F b c then {(a, c)} else {} else {}"
  have e: "pb_edges pr s M = (\<Union>a \<in> ?E. \<Union>b \<in> ?E. ?Y a b)"
    using pr(2) by (auto simp: pb_edges_def F_def split: if_splits)
  have "\<exists>S. addPbConstraints (strongFences (pr (cPriv s))) ar prop' M = Ok S \<and> extends (pb_edges pr s M) (False, M) S"
    unfolding addPbConstraints_def e ar(2)
  proof (rule pairs_extends)
    fix a b and S :: "bool \<times> GlobalRelation"
    assume ab: "a \<in> ?E" "b \<in> ?E" and S: "adj_wf (snd S)" "elems (snd S) = elems M"
    let ?g = "\<lambda>e3 (c, M). rbind (adj_rel M a e3) (\<lambda>y.
         if \<not> y \<and> (\<exists>f \<in> set (strongFences (pr (cPriv s))). isBetween f b e3) then rbind (addEdge M a e3) (\<lambda>M1. Ok (True, M1)) else Ok (c, M))"
    have "\<exists>S'. rfold ?g (elems M) S = Ok S' \<and> extends (\<Union>c \<in> ?E. if F b c then {(a, c)} else {}) S S'"
    proof (rule extends_rfold [OF _ S])
      fix c and S :: "bool \<times> GlobalRelation"
      assume c: "c \<in> ?E" and S: "adj_wf (snd S)" "elems (snd S) = elems M"
      have "?g c S = (if F b c then add_new a c S else Ok S)"
        using adj_rel_Ok [OF S(1)] ab(1) c S(2) by (cases S) (simp add: F_def add_new_def)
      then show "\<exists>S'. ?g c S = Ok S' \<and> extends (if F b c then {(a, c)} else {}) S S'"
        using add_if_extends [OF S(1)] ab(1) c S(2) by simp
    qed
    then show "\<exists>S'. rbind (adj_rel prop' a b) (\<lambda>x. if \<not> x then Ok S else rfold ?g (elems M) S) = Ok S' \<and> extends (?Y a b) S S'"
      using pr(3) [OF ab] S(1) by (simp del: split_paired_Ex)
  qed (use 1 in simp_all)
  then show ?case using pr(1) ar(1) by simp
qed

section \<open>The search of rcu\<close>

definition is_kind :: "ExecutionGraph \<Rightarrow> EventLabelKind \<Rightarrow> Event \<Rightarrow> bool" where
  "is_kind g k e \<longleftrightarrow> (\<exists>l. getEventLabel g e = Ok l \<and> lkind l = k)"

definition gps_in :: "ExecutionGraph \<Rightarrow> Event list \<Rightarrow> nat" where
  "gps_in g p = length (filter (is_kind g EL_RCUSyncLKMM) p)"

definition css_in :: "ExecutionGraph \<Rightarrow> Event list \<Rightarrow> nat" where
  "css_in g p = length (filter (is_kind g EL_RCULockLKMM) p)"

text \<open>Simple paths of links from an event, given by the numbers of their nodes, that continue to a node. The node may
  be on the path, and then it is counted once.\<close>

definition link_path :: "nat list list \<Rightarrow> nat \<Rightarrow> nat list \<Rightarrow> bool" where
  "link_path G i p \<longleftrightarrow> p \<noteq> [] \<and> hd p = i \<and> distinct p \<and> successively (\<lambda>i j. (i, j) \<in> edges_of G) p"

definition counted_edges :: "ExecutionGraph \<Rightarrow> GlobalRelation \<Rightarrow> nat \<Rightarrow> (Event \<times> Event) set" where
  "counted_edges g link i = {(a, b). \<exists>p j q. link_path (nodeSucc link) i p \<and> (last p, j) \<in> edges_of (nodeSucc link) \<and>
     q = map ((!) (elems link)) (if j \<in> set p then p else p @ [j]) \<and> css_in g q \<le> gps_in g q \<and>
     a = elems link ! i \<and> b = elems link ! j}"

definition entered :: "Dfs \<Rightarrow> nat set" where
  "entered D = {k. k < length (dm D) \<and> dm D ! k = Entered}"

text \<open>The stack of the search, the counters that belong to it, and the relation that has been extended.\<close>

definition searchable :: "GlobalRelation \<Rightarrow> nat \<Rightarrow> bool" where
  "searchable link i \<longleftrightarrow> adj_wf link \<and> i < length (elems link) \<and> length (elems link) < 2 ^ 32"

definition on_stack :: "ExecutionGraph \<Rightarrow> GlobalRelation \<Rightarrow> nat \<Rightarrow> (Event \<times> Event) set \<Rightarrow> Dfs \<Rightarrow> nat list \<Rightarrow> RcuState \<Rightarrow> bool" where
  "on_stack g link i R D p s \<longleftrightarrow> searchable link i \<and> (p = [] \<or> link_path (nodeSucc link) i p) \<and> set p = entered D \<and> length (dm D) = length (elems link) \<and>
     rc_gps s = of_nat (gps_in g (map ((!) (elems link)) p)) \<and> rc_css s = of_nat (css_in g (map ((!) (elems link)) p)) \<and>
     adj_wf (rc_rcu s) \<and> elems (rc_rcu s) = elems link \<and> (rel_of (rc_rcu s))\<^sup>+ \<subseteq> (R \<union> counted_edges g link i)\<^sup>+"

definition rcu_node :: "ExecutionGraph \<Rightarrow> GlobalRelation \<Rightarrow> nat \<Rightarrow> (Event \<times> Event) set \<Rightarrow> nat \<Rightarrow> Dfs \<Rightarrow> RcuState \<Rightarrow> Dfs \<Rightarrow> RcuState \<Rightarrow> bool" where
  "rcu_node g link i0 R i D s D' s' \<longleftrightarrow>
     (\<forall>p. on_stack g link i0 R D p s \<and> (if p = [] then i = i0 else (last p, i) \<in> edges_of (nodeSucc link)) \<longrightarrow> on_stack g link i0 R D' p s')"

definition rcu_succs :: "ExecutionGraph \<Rightarrow> GlobalRelation \<Rightarrow> nat \<Rightarrow> (Event \<times> Event) set \<Rightarrow> nat \<Rightarrow> nat list \<Rightarrow> Dfs \<Rightarrow> RcuState \<Rightarrow> Dfs \<Rightarrow> RcuState \<Rightarrow> bool" where
  "rcu_succs g link i0 R i js D s D' s' \<longleftrightarrow>
     (\<forall>p. on_stack g link i0 R D p s \<and> p \<noteq> [] \<and> last p = i \<and> (\<forall>j \<in> set js. (i, j) \<in> edges_of (nodeSucc link)) \<longrightarrow> on_stack g link i0 R D' p s')"

lemma inc_count:
  assumes "incRcuCounter g e s = Ok s1" "rc_gps s = of_nat (gps_in g p)" "rc_css s = of_nat (css_in g p)"
  shows "rc_gps s1 = of_nat (gps_in g (p @ [e]))" "rc_css s1 = of_nat (css_in g (p @ [e]))"
    "rc_rcu s1 = rc_rcu s" "rc_changed s1 = rc_changed s"
  using assms by (auto simp: incRcuCounter_def gps_in_def css_in_def is_kind_def res_simps)

lemma dec_count:
  assumes "decRcuCounter g e s = Ok s1" "rc_gps s = of_nat (gps_in g (p @ [e]))" "rc_css s = of_nat (css_in g (p @ [e]))"
  shows "rc_gps s1 = of_nat (gps_in g p)" "rc_css s1 = of_nat (css_in g p)"
    "rc_rcu s1 = rc_rcu s" "rc_changed s1 = rc_changed s"
  using assms by (auto simp: decRcuCounter_def gps_in_def css_in_def is_kind_def res_simps)

text \<open>Counters that count at most as many events as there are words compare like the numbers.\<close>

lemma counts_le:
  assumes "length p < 2 ^ 32" "(of_nat (css_in g p) :: 32 word) \<le> of_nat (gps_in g p)"
  shows "css_in g p \<le> gps_in g p"
proof -
  have "css_in g p < 2 ^ 32" "gps_in g p < 2 ^ 32"
    using assms(1) length_filter_le [of _ p] unfolding css_in_def gps_in_def by (metis le_less_trans)+
  then show ?thesis using assms(2) by (simp add: word_of_nat_less_eq_iff take_bit_nat_eq_self)
qed

lemma check_edge:
  assumes "checkAddRcuConstraint a b s = Ok s'" "adj_wf (rc_rcu s)" "a \<in> set (elems (rc_rcu s))" "b \<in> set (elems (rc_rcu s))"
    and "rc_css s \<le> rc_gps s \<Longrightarrow> (a, b) \<in> T" "(rel_of (rc_rcu s))\<^sup>+ \<subseteq> T\<^sup>+"
  shows "adj_wf (rc_rcu s')" "elems (rc_rcu s') = elems (rc_rcu s)" "(rel_of (rc_rcu s'))\<^sup>+ \<subseteq> T\<^sup>+"
    "rc_gps s' = rc_gps s" "rc_css s' = rc_css s"
proof -
  obtain M where M: "addEdge (rc_rcu s) a b = Ok M" "adj_wf M" "elems M = elems (rc_rcu s)"
    "(rel_of M)\<^sup>+ = (insert (a, b) (rel_of (rc_rcu s)))\<^sup>+" using addEdge_Ok [OF assms(2-4)] .
  have "(rel_of M)\<^sup>+ \<subseteq> T\<^sup>+" if "rc_css s \<le> rc_gps s"
  proof -
    have "insert (a, b) (rel_of (rc_rcu s)) \<subseteq> T\<^sup>+" using assms(5) [OF that] assms(6) by auto
    then have "(insert (a, b) (rel_of (rc_rcu s)))\<^sup>+ \<subseteq> (T\<^sup>+)\<^sup>+" by (rule trancl_mono_subset)
    then show ?thesis using M(4) by simp
  qed
  then show "adj_wf (rc_rcu s')" "elems (rc_rcu s') = elems (rc_rcu s)" "(rel_of (rc_rcu s'))\<^sup>+ \<subseteq> T\<^sup>+"
    "rc_gps s' = rc_gps s" "rc_css s' = rc_css s"
    using assms(1,2,6) M adj_rel_Ok [OF assms(2-4)] by (auto simp: checkAddRcuConstraint_def res_simps split: if_splits)
qed

lemma entered_enter: "i < length (dm D) \<Longrightarrow> entered (dfs_enter i D) = insert i (entered D)"
  by (auto simp: entered_def nth_list_update)

lemma entered_leave: "entered (dfs_leave i D) = entered D - {i}"
  by (cases "i < length (dm D)") (auto simp: entered_def nth_list_update list_update_beyond split: if_splits)

lemma entered_adv: "adv D D' \<Longrightarrow> entered D' = entered D"
  unfolding entered_def adv_def by force

lemma entered_parent [simp]: "entered (D\<lparr>dp := p\<rparr>) = entered D"
  by (simp add: entered_def)

lemma on_stack_adv: "on_stack g link i R D p s \<Longrightarrow> adv D D' \<Longrightarrow> on_stack g link i R D' p s"
  by (simp add: on_stack_def entered_adv adv_length)

text \<open>One edge out of the last node of the stack.\<close>

lemma counted_edge:
  assumes st: "on_stack g link i0 R D p s" "p \<noteq> []" and j: "(last p, j) \<in> edges_of (nodeSucc link)"
    and q: "q = map ((!) (elems link)) (if j \<in> set p then p else p @ [j])"
    and cs: "(of_nat (css_in g q) :: 32 word) \<le> of_nat (gps_in g q)"
  shows "(elems link ! i0, elems link ! j) \<in> counted_edges g link i0"
proof -
  have lp: "link_path (nodeSucc link) i0 p" and w: "adj_wf link" and small: "length (elems link) < 2 ^ 32"
    using st by (auto simp: on_stack_def searchable_def)
  have "j < length (elems link)" using j w by (auto simp: edges_of_def adj_wf_def in_range_def)
  moreover have "set p \<subseteq> {..<length (elems link)}" using st by (auto simp: on_stack_def entered_def)
  ultimately have "set (if j \<in> set p then p else p @ [j]) \<subseteq> {..<length (elems link)}" by auto
  moreover have d: "distinct (if j \<in> set p then p else p @ [j])" using lp by (auto simp: link_path_def)
  ultimately have "length (if j \<in> set p then p else p @ [j]) \<le> length (elems link)"
    by (metis card_lessThan card_mono distinct_card finite_lessThan)
  then have "length q < 2 ^ 32" using small q by simp
  from counts_le [OF this cs] show ?thesis using lp j q unfolding counted_edges_def by blast
qed

lemma add_edge:
  assumes st: "on_stack g link i0 R D p s" "p \<noteq> []" "(last p, j) \<in> edges_of (nodeSucc link)" and c: "checkAddRcuConstraint (elems link ! i0) (elems link ! j) s1 = Ok s2"
    and r: "rc_rcu s1 = rc_rcu s"
    and cnt: "rc_gps s1 = of_nat (gps_in g q)" "rc_css s1 = of_nat (css_in g q)" "q = map ((!) (elems link)) (if j \<in> set p then p else p @ [j])"
  shows "adj_wf (rc_rcu s2)" "elems (rc_rcu s2) = elems link" "(rel_of (rc_rcu s2))\<^sup>+ \<subseteq> (R \<union> counted_edges g link i0)\<^sup>+"
    "rc_gps s2 = rc_gps s1" "rc_css s2 = rc_css s1"
proof -
  have w: "adj_wf link" and root: "i0 < length (elems link)" using st(1) by (simp_all add: on_stack_def searchable_def)
  have j: "j < length (elems link)" using st(3) w by (auto simp: edges_of_def adj_wf_def in_range_def)
  have "(elems link ! i0, elems link ! j) \<in> R \<union> counted_edges g link i0" if "rc_css s1 \<le> rc_gps s1"
    using counted_edge [OF st(1-3) cnt(3)] that cnt(1,2) by simp
  note * = check_edge [OF c _ _ _ this]
  show "adj_wf (rc_rcu s2)" "elems (rc_rcu s2) = elems link" "(rel_of (rc_rcu s2))\<^sup>+ \<subseteq> (R \<union> counted_edges g link i0)\<^sup>+"
    "rc_gps s2 = rc_gps s1" "rc_css s2 = rc_css s1"
    using * st(1) r j root by (simp_all add: on_stack_def)
qed

lemma stack_edge:
  assumes st: "on_stack g link i0 R D p s" "p \<noteq> []" "(last p, j) \<in> edges_of (nodeSucc link)" and e: "rcu_edge g (elems link ! i0) j s = Ok s'" and j: "j \<notin> set p"
  shows "on_stack g link i0 R D p s'"
proof -
  have el: "elems (rc_rcu s) = elems link" using st(1) by (simp add: on_stack_def)
  obtain s1 s2 where s: "incRcuCounter g (elems link ! j) s = Ok s1" "checkAddRcuConstraint (elems link ! i0) (elems link ! j) s1 = Ok s2"
    "decRcuCounter g (elems link ! j) s2 = Ok s'" using e el by (auto simp: rcu_edge_def res_simps)
  have c: "rc_gps s = of_nat (gps_in g (map ((!) (elems link)) p))" "rc_css s = of_nat (css_in g (map ((!) (elems link)) p))"
    using st(1) by (simp_all add: on_stack_def)
  note i = inc_count [OF s(1) c]
  have q: "map ((!) (elems link)) p @ [elems link ! j] = map ((!) (elems link)) (if j \<in> set p then p else p @ [j])" using j by simp
  note a' = add_edge [OF st s(2) i(3,1,2) q]
  note d = dec_count [OF s(3), of "map ((!) (elems link)) p"]
  have "rc_gps s2 = of_nat (gps_in g (map ((!) (elems link)) p @ [elems link ! j]))" "rc_css s2 = of_nat (css_in g (map ((!) (elems link)) p @ [elems link ! j]))"
    using a'(4,5) i(1,2) by simp_all
  note d = d [OF this]
  show ?thesis unfolding on_stack_def d(1-3) using st(1) a'(1-3) by (simp only: on_stack_def)
qed

lemma stack_back:
  assumes st: "on_stack g link i0 R D p s" "p \<noteq> []" "(last p, j) \<in> edges_of (nodeSucc link)" and j: "j \<in> set p"
    and c: "checkAddRcuConstraint (elems link ! i0) (elems link ! j) s = Ok s'"
  shows "on_stack g link i0 R D p s'"
proof -
  have q: "map ((!) (elems link)) p = map ((!) (elems link)) (if j \<in> set p then p else p @ [j])" using j by simp
  have n: "rc_gps s = of_nat (gps_in g (map ((!) (elems link)) p))" "rc_css s = of_nat (css_in g (map ((!) (elems link)) p))"
    using st(1) by (simp_all add: on_stack_def)
  note a = add_edge [OF st c refl n q]
  show ?thesis unfolding on_stack_def a(4,5) using st(1) a(1-3) by (simp only: on_stack_def)
qed

lemma stack_enter:
  assumes st: "on_stack g link i0 R D p s" and i: "if p = [] then i = i0 else (last p, i) \<in> edges_of (nodeSucc link)" "i < length (dm D)" "dm D ! i = Unseen"
    and s: "incRcuCounter g (elems link ! i) s = Ok s1"
  shows "on_stack g link i0 R (dfs_enter i D) (p @ [i]) s1"
proof -
  have n: "i \<notin> set p" using st i(3) by (auto simp: on_stack_def entered_def)
  have "link_path (nodeSucc link) i0 (p @ [i])"
    using st i(1) n by (auto simp: on_stack_def link_path_def successively_append_iff hd_append split: if_splits)
  then show ?thesis
    using st entered_enter [OF i(2)] inc_count [OF s, of "map ((!) (elems link)) p"] by (simp add: on_stack_def)
qed

lemma stack_leave:
  assumes st: "on_stack g link i0 R D (p @ [i]) s" and s: "decRcuCounter g (elems link ! i) s = Ok s1"
  shows "on_stack g link i0 R (dfs_leave i D) p s1"
proof -
  have lp: "link_path (nodeSucc link) i0 (p @ [i])" using st by (simp add: on_stack_def)
  then have "p = [] \<or> link_path (nodeSucc link) i0 p" "i \<notin> set p"
    by (auto simp: link_path_def successively_append_iff hd_append split: if_splits)
  then show ?thesis using st dec_count [OF s, of "map ((!) (elems link)) p"] by (auto simp: on_stack_def entered_leave)
qed

text \<open>The callbacks meet the contract of the search.\<close>

lemma rcu_client_simps [simp]:
  "atEntryV (rcu_client g e) i D s = rbind (vec_get (elems (rc_rcu s)) i) (\<lambda>b. incRcuCounter g b s)"
  "atTreeE (rcu_client g e) i j D = rcu_edge g e j"
  "atBackE (rcu_client g e) i j D s = rbind (vec_get (elems (rc_rcu s)) j) (\<lambda>b. checkAddRcuConstraint e b s)"
  "atForwE (rcu_client g e) i j D = rcu_edge g e j"
  "atExitV (rcu_client g e) i D s = rbind (vec_get (elems (rc_rcu s)) i) (\<lambda>b. decRcuCounter g b s)"
  "atEnd (rcu_client g e) D s = Ok s"
  by (simp_all add: rcu_client_def)

lemma finished_not_on_stack:
  assumes "on_stack g link i R D p s" "dm D ! j = Finished"
  shows "j \<notin> set p"
  using assms by (auto simp: on_stack_def entered_def)

lemma rcu_node_apply:
  "rcu_node g link i0 R i D s D' s' \<Longrightarrow> on_stack g link i0 R D p s \<Longrightarrow> p \<noteq> [] \<Longrightarrow> (last p, i) \<in> edges_of (nodeSucc link) \<Longrightarrow>
    on_stack g link i0 R D' p s'"
  by (simp add: rcu_node_def)

lemma on_stack_parent [simp]: "on_stack g link i R (D\<lparr>dp := x\<rparr>) p s = on_stack g link i R D p s"
  by (simp add: on_stack_def)

interpretation rcu: dfs_contract "nodeSucc link" "rcu_client g (elems link ! i0)" "rcu_node g link i0 R" "rcu_succs g link i0 R"
  for g link i0 R
proof (unfold_locales, goal_cases)
  case (1 i D s s1 D2 s2 s3)
  show ?case
    unfolding rcu_node_def
  proof (intro allI impI, elim conjE)
    fix p
    assume st: "on_stack g link i0 R D p s" and i: "if p = [] then i = i0 else (last p, i) \<in> edges_of (nodeSucc link)"
    have "incRcuCounter g (elems link ! i) s = Ok s1" using 1(4) st by (auto simp: on_stack_def res_simps)
    from stack_enter [OF st i 1(1,3) this] have st1: "on_stack g link i0 R (dfs_enter i D) (p @ [i]) s1" .
    have "on_stack g link i0 R D2 (p @ [i]) s2"
      using 1(6) st1 1(2) unfolding rcu_succs_def by (auto simp: edges_of_def)
    moreover from this have "decRcuCounter g (elems link ! i) s2 = Ok s3" using 1(8) by (auto simp: on_stack_def res_simps)
    ultimately show "on_stack g link i0 R (dfs_leave i D2) p s3" by (rule stack_leave)
  qed
next
  case (2 i D s)
  then show ?case by (simp add: rcu_succs_def)
next
  case (3 i j js D s D1 s1 s2 D' s')
  show ?case
    unfolding rcu_succs_def
  proof (intro allI impI, elim conjE)
    fix p
    assume st: "on_stack g link i0 R D p s" "p \<noteq> []" "last p = i" and js: "\<forall>k \<in> set (j # js). (i, k) \<in> edges_of (nodeSucc link)"
    have st1: "on_stack g link i0 R D1 p s1" by (rule rcu_node_apply [OF 3(5)]) (use st js in simp_all)
    have "on_stack g link i0 R D1 p s2"
      by (rule stack_edge [OF st1 st(2)]) (use 3(6) st js finished_not_on_stack [OF st1 3(4)] in simp_all)
    then show "on_stack g link i0 R D' p s'" using 3(8) st js unfolding rcu_succs_def by simp
  qed
next
  case (4 i j js D s s1 D' s')
  show ?case
    unfolding rcu_succs_def
  proof (intro allI impI, elim conjE)
    fix p
    assume st: "on_stack g link i0 R D p s" "p \<noteq> []" "last p = i" and js: "\<forall>k \<in> set (j # js). (i, k) \<in> edges_of (nodeSucc link)"
    have j: "j \<in> set p" using st(1) 4(1,2) by (simp add: on_stack_def entered_def)
    have "checkAddRcuConstraint (elems link ! i0) (elems link ! j) s = Ok s1" using 4(3) st(1) by (auto simp: on_stack_def res_simps)
    from stack_back [OF st(1,2) _ j this] have "on_stack g link i0 R D p s1" using st(3) js by simp
    then show "on_stack g link i0 R D' p s'" using 4(5) st js unfolding rcu_succs_def by simp
  qed
next
  case (5 i j js D s s1 D' s')
  show ?case
    unfolding rcu_succs_def
  proof (intro allI impI, elim conjE)
    fix p
    assume st: "on_stack g link i0 R D p s" "p \<noteq> []" "last p = i" and js: "\<forall>k \<in> set (j # js). (i, k) \<in> edges_of (nodeSucc link)"
    have "on_stack g link i0 R D p s1"
      by (rule stack_edge [OF st(1,2)]) (use 5(3) st js finished_not_on_stack [OF st(1) 5(2)] in simp_all)
    then show "on_stack g link i0 R D' p s'" using 5(5) st js unfolding rcu_succs_def by simp
  qed
qed

lemma visit_counted:
  assumes "visitReachable link (rcu_client g (elems link ! i)) (elems link ! i) \<lparr>rc_changed = c, rc_gps = 0, rc_css = 0, rc_rcu = M\<rparr> = Ok s'"
    and ok: "searchable link i" and M: "adj_wf M" "elems M = elems link" "(rel_of M)\<^sup>+ \<subseteq> (R \<union> counted_edges g link i)\<^sup>+"
  shows "adj_wf (rc_rcu s')" "elems (rc_rcu s') = elems link" "(rel_of (rc_rcu s'))\<^sup>+ \<subseteq> (R \<union> counted_edges g link i)\<^sup>+"
    "rc_gps s' = 0" "rc_css s' = 0"
proof -
  let ?s = "\<lparr>rc_changed = c, rc_gps = 0, rc_css = 0, rc_rcu = M\<rparr>" and ?D = "dfs_init (length (nodeSucc link))"
  have n: "i < length (elems link)" "length (nodeSucc link) = length (elems link)" and w: "adj_wf link"
    using ok by (auto simp: searchable_def adj_wf_def)
  obtain D where D: "dfsUtil (nodeSucc link) (rcu_client g (elems link ! i)) i ?D ?s = Ok (D, s')"
    using assms(1) getIndex_Ok [OF w n(1)] by (auto simp: visitReachable_def res_simps)
  have "dm ?D ! i = Unseen" using n by (simp add: dfs_init_def)
  from rcu.dfsUtil_node [OF D this, of R] have "rcu_node g link i R i ?D ?s D s'" by simp
  moreover have "on_stack g link i R ?D [] ?s"
    using ok M n by (auto simp: on_stack_def entered_def dfs_init_def gps_in_def css_in_def)
  ultimately have "on_stack g link i R D [] s'" unfolding rcu_node_def by (metis (full_types))
  then show "adj_wf (rc_rcu s')" "elems (rc_rcu s') = elems link" "(rel_of (rc_rcu s'))\<^sup>+ \<subseteq> (R \<union> counted_edges g link i)\<^sup>+"
    "rc_gps s' = 0" "rc_css s' = 0" by (auto simp: on_stack_def gps_in_def css_in_def)
qed

definition rcu_ok :: "GlobalRelation \<Rightarrow> RcuState \<Rightarrow> bool" where
  "rcu_ok link s \<longleftrightarrow> adj_wf (rc_rcu s) \<and> elems (rc_rcu s) = elems link"

lemma counters_return:
  assumes "getEventLabel g e = Ok l" "rcu_ok link s"
  shows "\<exists>s'. incRcuCounter g e s = Ok s' \<and> rcu_ok link s'" "\<exists>s'. decRcuCounter g e s = Ok s' \<and> rcu_ok link s'"
  using assms by (simp_all add: incRcuCounter_def decRcuCounter_def rcu_ok_def)

lemma check_returns:
  assumes "a \<in> set (elems link)" "b \<in> set (elems link)" "rcu_ok link s"
  shows "\<exists>s'. checkAddRcuConstraint a b s = Ok s' \<and> rcu_ok link s'"
proof -
  have w: "adj_wf (rc_rcu s)" "a \<in> set (elems (rc_rcu s))" "b \<in> set (elems (rc_rcu s))" using assms by (simp_all add: rcu_ok_def)
  obtain M where "addEdge (rc_rcu s) a b = Ok M" "adj_wf M" "elems M = elems (rc_rcu s)" using addEdge_Ok [OF w] .
  then show ?thesis using assms(3) adj_rel_Ok [OF w] by (simp add: checkAddRcuConstraint_def rcu_ok_def)
qed

lemma rcu_client_returns:
  assumes labs: "\<And>e. e \<in> set (elems link) \<Longrightarrow> \<exists>l. getEventLabel g e = Ok l" and a: "a \<in> set (elems link)"
    and n: "n = length (elems link)"
  shows "returning n (rcu_client g a) (rcu_ok link)"
proof -
  have el: "elems (rc_rcu s) = elems link" if "rcu_ok link s" for s using that by (simp add: rcu_ok_def)
  have edge: "\<exists>s'. rcu_edge g a j s = Ok s' \<and> rcu_ok link s'" if j: "j < n" and s: "rcu_ok link s" for j s
  proof -
    obtain l where l: "getEventLabel g (elems link ! j) = Ok l" using labs [OF nth_mem] j n by blast
    obtain s1 where s1: "incRcuCounter g (elems link ! j) s = Ok s1" "rcu_ok link s1" using counters_return(1) [OF l s] by blast
    obtain s2 where s2: "checkAddRcuConstraint a (elems link ! j) s1 = Ok s2" "rcu_ok link s2"
      using check_returns [OF a _ s1(2), of "elems link ! j"] j n by auto
    show ?thesis using s1(1) s2(1) counters_return(2) [OF l s2(2)] el [OF s] j n by (simp add: rcu_edge_def)
  qed
  show ?thesis
    unfolding returning_def
  proof (intro allI impI conjI, goal_cases)
    case (1 i D s)
    then obtain l where "getEventLabel g (elems link ! i) = Ok l" using labs [OF nth_mem] n by blast
    then show ?case using counters_return(1) el 1 n by simp
  next
    case (2 i D s)
    then obtain l where "getEventLabel g (elems link ! i) = Ok l" using labs [OF nth_mem] n by blast
    then show ?case using counters_return(2) el 2 n by simp
  next
    case (3 i D s j)
    then show ?case using edge by simp
  next
    case (4 i D s j)
    then show ?case using check_returns [OF a, of "elems link ! j" s] el n by simp
  next
    case (5 i D s j)
    then show ?case using edge by simp
  qed
qed

text \<open>C20: the calculator of rcu adds edges in a step that always returns, and the edges are justified: each is a
  composition of earlier edges and of edges from an event to one that a simple path of links reaches with at least as
  many grace periods as critical sections on it. The counters of the search are unsigned; the bound on the number of
  events keeps them from wrapping around.\<close>

theorem rcu_edges_counted:
  assumes labs: "\<And>e. e \<in> set (elems link) \<Longrightarrow> \<exists>l. getEventLabel g e = Ok l" and "adj_wf link" and "adj_wf rcu"
    and "elems rcu = elems link" and "length (elems link) < 2 ^ 32"
  shows "\<exists>c M. addRcuConstraints g link rcu = Ok (c, M) \<and> adj_wf M \<and> elems M = elems link \<and>
    (rel_of M)\<^sup>+ \<subseteq> (rel_of rcu \<union> (\<Union>i < length (elems link). counted_edges g link i))\<^sup>+"
proof -
  let ?R = "rel_of rcu \<union> (\<Union>i < length (elems link). counted_edges g link i)"
  let ?P = "\<lambda>k :: nat. \<lambda>(c :: bool, M). adj_wf M \<and> elems M = elems link \<and> (rel_of M)\<^sup>+ \<subseteq> ?R\<^sup>+"
  have "\<exists>u. addRcuConstraints g link rcu = Ok u \<and> ?P (length (elems rcu)) u"
    unfolding addRcuConstraints_def
  proof (rule rfold_inv)
    show "?P 0 (False, rcu)" using assms(3,4) trancl_mono_subset [of "rel_of rcu" ?R] by auto
    fix i u
    assume i: "i < length (elems rcu)" and P: "?P i u"
    obtain c M where u: "u = (c, M)" by (cases u)
    let ?e = "elems link ! i" and ?s = "\<lparr>rc_changed = c, rc_gps = 0, rc_css = 0, rc_rcu = M\<rparr>"
    have e: "?e \<in> set (elems link)" "i < length (elems link)" using i assms(4) by simp_all
    have n: "length (nodeSucc link) = length (elems link)" "in_range (nodeSucc link)" using assms(2) by (simp_all add: adj_wf_def)
    obtain l where l: "getEventLabel g ?e = Ok l" using labs [OF e(1)] by blast
    have "\<exists>D' s'. dfsUtil (nodeSucc link) (rcu_client g ?e) i (dfs_init (length (nodeSucc link))) ?s = Ok (D', s') \<and>
        rcu_ok link s' \<and> length (dm D') = length (nodeSucc link)"
      by (rule dfs_returns_both(1) [OF _ n(2) rcu_client_returns [OF labs e(1) n(1)]])
        (use n e P u in \<open>auto simp: rcu_ok_def dfs_init_def\<close>)
    then obtain s where s: "visitReachable link (rcu_client g ?e) ?e ?s = Ok s"
      using getIndex_Ok [OF assms(2) e(2)] by (auto simp: visitReachable_def)
    have R: "?R \<union> counted_edges g link i = ?R" using e by auto
    have ok: "searchable link i" using e assms by (simp add: searchable_def)
    have "?P (Suc i) (rc_changed s, rc_rcu s)"
      using visit_counted [OF s ok, of ?R] P u unfolding R by simp
    then show "\<exists>v. (\<lambda>(c, M). rbind (getEventLabel g (elems rcu ! i)) (\<lambda>_. rbind (visitReachable link (rcu_client g (elems rcu ! i)) (elems rcu ! i)
        \<lparr>rc_changed = c, rc_gps = 0, rc_css = 0, rc_rcu = M\<rparr>) (\<lambda>s. Ok (rc_changed s, rc_rcu s)))) u = Ok v \<and> ?P (Suc i) v"
      using s l assms(4) u by simp
  qed
  then show ?thesis by auto
qed

theorem rcu_edges_counted_witness:
  "\<exists>link. adj_build [Event 0 0] [(Event 0 0, Event 0 0)] = Ok link \<and>
     (\<exists>c M. addRcuConstraints graph_init link (adj_of [Event 0 0]) = Ok (c, M) \<and> adj_wf M \<and>
        (rel_of M)\<^sup>+ \<subseteq> (rel_of (adj_of [Event 0 0]) \<union> (\<Union>i < length (elems link). counted_edges graph_init link i))\<^sup>+)"
proof -
  obtain link where link: "adj_build [Event 0 0] [(Event 0 0, Event 0 0)] = Ok link" "adj_wf link" "elems link = [Event 0 0]"
    by (rule adj_build_Ok [of "[Event 0 0]" "[(Event 0 0, Event 0 0)]"]) simp_all
  have l: "\<exists>l. getEventLabel graph_init e = Ok l" if "e \<in> set (elems link)" for e
    using that link(3) by (simp add: getEventLabel_def graph_init_def)
  have "\<exists>c M. addRcuConstraints graph_init link (adj_of [Event 0 0]) = Ok (c, M) \<and> adj_wf M \<and> elems M = elems link \<and>
      (rel_of M)\<^sup>+ \<subseteq> (rel_of (adj_of [Event 0 0]) \<union> (\<Union>i < length (elems link). counted_edges graph_init link i))\<^sup>+"
    by (rule rcu_edges_counted [OF l link(2) adj_of_wf]) (simp_all add: link(3))
  then show ?thesis using link(1) by blast
qed

section \<open>The properties of the steps\<close>

text \<open>C19: a step of the calculator of xb. Whenever the relations it reads can be asked about its events, the step
  returns; afterwards xb is the closure of what it was with the edges of ar, pb and rcu-fence between its events, the
  step reports an inconsistency exactly when these have a cycle, without one queries answer by the closure, and a step that
  reports no change shows that all these edges were in the closure already.\<close>

theorem xb_step:
  assumes "getGlobalRelation s R_xb = Ok M" and "adj_wf M" and "covers s R_ar_lkmm M" and "covers s R_pb M" and "covers s R_rcu_fence M"
  shows "\<exists>c M' s'. doCalc xb_calculator s = Ok (\<lparr>cr_changed = c, cr_cons = acyclic (rel_of M \<union> xb_edges s M)\<rparr>, s') \<and>
      getGlobalRelation s' R_xb = Ok M' \<and> adj_wf M' \<and> elems M' = elems M \<and>
      (rel_of M')\<^sup>+ = (rel_of M \<union> xb_edges s M)\<^sup>+ \<and>
      (acyclic (rel_of M \<union> xb_edges s M) \<longrightarrow> holds M' = (rel_of M \<union> xb_edges s M)\<^sup>+) \<and>
      (\<not> c \<longrightarrow> xb_edges s M \<subseteq> (rel_of M)\<^sup>+)"
  unfolding xb_calculator_def by (rule xb.step_result [OF assms(1,2)]) (simp add: xb_ready_def assms)

text \<open>A state with the relations ar, pb, rcu-fence and xb over two events, ar and pb in opposite directions.\<close>

definition two_events :: "Event list" where
  "two_events = [Event 0 1, Event 1 1]"

definition four_relations :: "GlobalRelation \<Rightarrow> GlobalRelation \<Rightarrow> unit Cons" where
  "four_relations ar pb = (cons_new graph_init ())\<lparr>
     cRels := \<lparr>rGlobal = [ar, pb, adj_of two_events, adj_of two_events], rPerLoc = [], rResult = \<lparr>cr_changed = False, cr_cons = True\<rparr>, rType = CT_fast\<rparr>,
     cRelIndex := [R_ar_lkmm \<mapsto> 0, R_pb \<mapsto> 1, R_rcu_fence \<mapsto> 2, R_xb \<mapsto> 3]\<rparr>"

lemma four_relations_get [simp]:
  "getGlobalRelation (four_relations ar pb) R_ar_lkmm = Ok ar" "getGlobalRelation (four_relations ar pb) R_pb = Ok pb"
  "getGlobalRelation (four_relations ar pb) R_rcu_fence = Ok (adj_of two_events)"
  "getGlobalRelation (four_relations ar pb) R_xb = Ok (adj_of two_events)"
  by (simp_all add: getGlobalRelation_def four_relations_def rel_index_def)

lemma one_edge:
  assumes "a \<noteq> b" "{a, b} = {Event 0 1, Event 1 1}"
  obtains R where "adj_build two_events [(a, b)] = Ok R" "adj_wf R" "elems R = two_events" "(a, b) \<in> holds R"
proof -
  have "distinct two_events" "set [(a, b)] \<subseteq> set two_events \<times> set two_events" using assms by (auto simp: two_events_def)
  from adj_build_Ok [OF this] obtain R where R: "adj_build two_events [(a, b)] = Ok R" "adj_wf R" "elems R = two_events" .
  have "a = Event 0 1 \<and> b = Event 1 1 \<or> a = Event 1 1 \<and> b = Event 0 1" using assms by (auto simp: doubleton_eq_iff)
  then have "(a, b) \<in> holds R"
    using R(1) by (auto simp: holds_def adj_build_def two_events_def addEdge_def getIndex_def adj_of_def addEdgeId_def adj_edge_def adj_rel_def)
  then show ?thesis using that R by blast
qed

theorem xb_step_witness:
  "\<exists>ar pb c s'. adj_build two_events [(Event 0 1, Event 1 1)] = Ok ar \<and> adj_build two_events [(Event 1 1, Event 0 1)] = Ok pb \<and>
     doCalc xb_calculator (four_relations ar pb) = Ok (\<lparr>cr_changed = c, cr_cons = False\<rparr>, s')"
proof -
  obtain ar where ar: "adj_build two_events [(Event 0 1, Event 1 1)] = Ok ar" "adj_wf ar" "elems ar = two_events" "(Event 0 1, Event 1 1) \<in> holds ar"
    by (rule one_edge [of "Event 0 1" "Event 1 1"]) auto
  obtain pb where pb: "adj_build two_events [(Event 1 1, Event 0 1)] = Ok pb" "adj_wf pb" "elems pb = two_events" "(Event 1 1, Event 0 1) \<in> holds pb"
    by (rule one_edge [of "Event 1 1" "Event 0 1"]) auto
  let ?s = "four_relations ar pb" and ?M = "adj_of two_events"
  have w: "adj_wf ?M" by (rule adj_of_wf) (simp add: two_events_def)
  have "\<exists>c M' s'. doCalc xb_calculator ?s = Ok (\<lparr>cr_changed = c, cr_cons = acyclic (rel_of ?M \<union> xb_edges ?s ?M)\<rparr>, s') \<and>
      getGlobalRelation s' R_xb = Ok M' \<and> adj_wf M' \<and> elems M' = elems ?M \<and>
      (rel_of M')\<^sup>+ = (rel_of ?M \<union> xb_edges ?s ?M)\<^sup>+ \<and>
      (acyclic (rel_of ?M \<union> xb_edges ?s ?M) \<longrightarrow> holds M' = (rel_of ?M \<union> xb_edges ?s ?M)\<^sup>+) \<and>
      (\<not> c \<longrightarrow> xb_edges ?s ?M \<subseteq> (rel_of ?M)\<^sup>+)"
    by (rule xb_step) (use w ar pb in \<open>simp_all add: covers_def\<close>)
  moreover have "{(Event 0 1, Event 1 1), (Event 1 1, Event 0 1)} \<subseteq> xb_edges ?s ?M"
    using ar(4) pb(4) by (simp add: xb_edges_def holds_in_def two_events_def)
  then have "\<not> acyclic (rel_of ?M \<union> xb_edges ?s ?M)"
    unfolding acyclic_def by (meson UnI2 insert_subset r_into_trancl trancl_trans subsetD insertI1)
  ultimately show ?thesis using ar(1) pb(1) by auto
qed

text \<open>A step of the calculator of pb. It returns; afterwards pb is the closure of what it was with the edges from an
  event over an edge of prop and then a strong fence, where the fence may be an end; the step reports an inconsistency
  exactly when there is a cycle, and without a change all these edges were in the closure already.\<close>

theorem pb_step:
  assumes "getGlobalRelation s R_pb = Ok M" and "adj_wf M" and "covers s R_prop M"
    and "getGlobalRelation s R_ar_lkmm = Ok ar" and "elems ar = elems M"
  shows "\<exists>c M' s'. doCalc (pb_calculator pr) s = Ok (\<lparr>cr_changed = c, cr_cons = acyclic (rel_of M \<union> pb_edges pr s M)\<rparr>, s') \<and>
      getGlobalRelation s' R_pb = Ok M' \<and> adj_wf M' \<and> elems M' = elems M \<and>
      (rel_of M')\<^sup>+ = (rel_of M \<union> pb_edges pr s M)\<^sup>+ \<and>
      (acyclic (rel_of M \<union> pb_edges pr s M) \<longrightarrow> holds M' = (rel_of M \<union> pb_edges pr s M)\<^sup>+) \<and>
      (\<not> c \<longrightarrow> pb_edges pr s M \<subseteq> (rel_of M)\<^sup>+)"
  unfolding pb_calculator_def by (rule pb.step_result [OF assms(1,2)]) (use assms in \<open>simp add: pb_ready_def\<close>)

definition prop_and_fence :: "GlobalRelation \<Rightarrow> Prop Cons" where
  "prop_and_fence p = (cons_new graph_init \<lparr>cumulFences = [], strongFences = [Event 1 1], prop_locks = []\<rparr>)\<lparr>
     cRels := \<lparr>rGlobal = [p, adj_of two_events, adj_of two_events], rPerLoc = [], rResult = \<lparr>cr_changed = False, cr_cons = True\<rparr>, rType = CT_fast\<rparr>,
     cRelIndex := [R_prop \<mapsto> 0, R_ar_lkmm \<mapsto> 1, R_pb \<mapsto> 2]\<rparr>"

lemma prop_and_fence_get [simp]:
  "getGlobalRelation (prop_and_fence p) R_prop = Ok p" "getGlobalRelation (prop_and_fence p) R_ar_lkmm = Ok (adj_of two_events)"
  "getGlobalRelation (prop_and_fence p) R_pb = Ok (adj_of two_events)"
  by (simp_all add: getGlobalRelation_def prop_and_fence_def rel_index_def)

theorem pb_step_witness:
  "\<exists>p c M' s'. adj_build two_events [(Event 0 1, Event 1 1)] = Ok p \<and>
     doCalc (pb_calculator id) (prop_and_fence p) = Ok (\<lparr>cr_changed = True, cr_cons = c\<rparr>, s') \<and>
     getGlobalRelation s' R_pb = Ok M' \<and> (Event 0 1, Event 1 1) \<in> (rel_of M')\<^sup>+"
proof -
  obtain p where p: "adj_build two_events [(Event 0 1, Event 1 1)] = Ok p" "adj_wf p" "elems p = two_events" "(Event 0 1, Event 1 1) \<in> holds p"
    by (rule one_edge [of "Event 0 1" "Event 1 1"]) auto
  let ?s = "prop_and_fence p" and ?M = "adj_of two_events"
  have w: "adj_wf ?M" by (rule adj_of_wf) (simp add: two_events_def)
  have e: "(Event 0 1, Event 1 1) \<in> pb_edges id ?s ?M"
  proof -
    have "holds_in ?s R_prop = holds p" by (simp add: holds_in_def)
    moreover have "strongFences (id (cPriv ?s)) = [Event 1 1]" by (simp add: prop_and_fence_def cons_new_def Let_def)
    ultimately show ?thesis using p(4) by (simp add: pb_edges_def two_events_def isBetween_def)
  qed
  have "rel_of ?M = {}" by (simp add: rel_of_def)
  then have n: "\<not> pb_edges id ?s ?M \<subseteq> (rel_of ?M)\<^sup>+" using e by auto
  have "\<exists>c M' s'. doCalc (pb_calculator id) ?s = Ok (\<lparr>cr_changed = c, cr_cons = acyclic (rel_of ?M \<union> pb_edges id ?s ?M)\<rparr>, s') \<and>
      getGlobalRelation s' R_pb = Ok M' \<and> adj_wf M' \<and> elems M' = elems ?M \<and>
      (rel_of M')\<^sup>+ = (rel_of ?M \<union> pb_edges id ?s ?M)\<^sup>+ \<and>
      (acyclic (rel_of ?M \<union> pb_edges id ?s ?M) \<longrightarrow> holds M' = (rel_of ?M \<union> pb_edges id ?s ?M)\<^sup>+) \<and>
      (\<not> c \<longrightarrow> pb_edges id ?s ?M \<subseteq> (rel_of ?M)\<^sup>+)"
    by (rule pb_step [where ar = ?M]) (use w p in \<open>simp_all add: covers_def\<close>)
  then obtain c M' s' where r: "doCalc (pb_calculator id) ?s = Ok (\<lparr>cr_changed = c, cr_cons = acyclic (rel_of ?M \<union> pb_edges id ?s ?M)\<rparr>, s')"
    "getGlobalRelation s' R_pb = Ok M'" "(rel_of M')\<^sup>+ = (rel_of ?M \<union> pb_edges id ?s ?M)\<^sup>+"
    "\<not> c \<longrightarrow> pb_edges id ?s ?M \<subseteq> (rel_of ?M)\<^sup>+" by auto
  have "(Event 0 1, Event 1 1) \<in> (rel_of M')\<^sup>+" unfolding r(3) using e by auto
  moreover have c using r(4) n by blast
  ultimately show ?thesis using p(1) r(1,2) by auto
qed

end
