(* ===== verification/GenMC_EE.thy ===== *)
theory GenMC_EE
  imports GenMC_Explore
begin

text \<open>
  The interpreter that runs the checked program, as far as it talks to the driver (\<open>src/src/Execution.cpp\<close>,
  \<open>src/src/Interpreter.cpp\<close>): values and their types, the operations on the current thread, file descriptors, memory
  allocation, system errors, and the instructions that access memory. The interpreter reaches its driver through
  a pointer, so the driver is a record of functions on a state \<open>'s\<close> that the interpreter does not look into;
  \<open>driver_EE\<close> fills it with the handlers of the exploration driver. Values of operands, sizes of types and layouts of
  structures are LLVM's and are arguments. Dependencies between instructions and texts of messages are left out.
\<close>

section \<open>Types and values of the checked program\<close>

text \<open>An integer type of at most 64 bits, or a pointer type.\<close>

datatype LType = IntTy nat | PtrTy

record GV =
  gvWidth :: nat
  gvInt :: "64 word"
  gvPtr :: SAddr

definition isIntegerTy :: "LType \<Rightarrow> bool" where
  "isIntegerTy t \<longleftrightarrow> (case t of IntTy w \<Rightarrow> True | PtrTy \<Rightarrow> False)"

definition INT_TO_GV :: "LType \<Rightarrow> 64 word \<Rightarrow> GV res" where
  "INT_TO_GV t v = (case t of IntTy w \<Rightarrow> Ok \<lparr>gvWidth = w, gvInt = take_bit w v, gvPtr = 0\<rparr> | PtrTy \<Rightarrow> Undef)"

definition SVAL_TO_GV :: "SVal \<Rightarrow> LType \<Rightarrow> GV" where
  "SVAL_TO_GV v t = (case t of IntTy w \<Rightarrow> \<lparr>gvWidth = w, gvInt = take_bit w v, gvPtr = 0\<rparr>
     | PtrTy \<Rightarrow> \<lparr>gvWidth = 1, gvInt = 0, gvPtr = v\<rparr>)"

definition GV_TO_SVAL :: "GV \<Rightarrow> LType \<Rightarrow> SVal" where
  "GV_TO_SVAL g t = (case t of IntTy w \<Rightarrow> gvInt g | PtrTy \<Rightarrow> gvPtr g)"

text \<open>\<open>getSignBit()\<close> of an integer type is the mask of its sign bit, which is never zero.\<close>

definition TYPE_TO_ATYPE :: "LType \<Rightarrow> AType" where
  "TYPE_TO_ATYPE t = (case t of IntTy w \<Rightarrow> (if push_bit (w - 1) (1 :: 64 word) \<noteq> 0 then Signed else Unsigned) | PtrTy \<Rightarrow> Pointer)"

definition gv_bool :: "GV \<Rightarrow> bool" where
  "gv_bool g \<longleftrightarrow> gvInt g \<noteq> 0"

definition gv_strictlyPositive :: "GV \<Rightarrow> bool" where
  "gv_strictlyPositive g \<longleftrightarrow> \<not> bit (gvInt g) (gvWidth g - 1) \<and> gvInt g \<noteq> 0"

section \<open>The interpreter\<close>

datatype ProgramState = PS_Ctors | PS_Main | PS_Dtors | PS_Recovery

datatype Storage = ST_Static | ST_Automatic | ST_Heap

datatype AddressSpace = AS_User | AS_Internal

datatype JournalDataFS = JD_writeback | JD_ordered | JD_journal

primrec jd_num :: "JournalDataFS \<Rightarrow> nat" where
  "jd_num JD_writeback = 0" | "jd_num JD_ordered = 1" | "jd_num JD_journal = 2"

datatype SystemError = SE_EPERM | SE_ENOENT | SE_EIO | SE_EBADF | SE_ENOMEM | SE_EEXIST | SE_EINVAL | SE_EMFILE | SE_ENFILE
  | SE_ETXTBSY | SE_EFBIG | SE_ESPIPE

primrec err_num :: "SystemError \<Rightarrow> 64 word" where
  "err_num SE_EPERM = 1" | "err_num SE_ENOENT = 2" | "err_num SE_EIO = 5" | "err_num SE_EBADF = 9" | "err_num SE_ENOMEM = 12"
| "err_num SE_EEXIST = 17" | "err_num SE_EINVAL = 22" | "err_num SE_EMFILE = 24" | "err_num SE_ENFILE = 23"
| "err_num SE_ETXTBSY = 26" | "err_num SE_EFBIG = 27" | "err_num SE_ESPIPE = 29"

text \<open>The file system's structures and its options. The elements of a structure are at offsets of LLVM's choice.\<close>

record FsInfo =
  inodeSize :: ASize
  fileSize :: ASize
  inodeElem :: "nat \<Rightarrow> 64 word"
  fileElem :: "nat \<Rightarrow> 64 word"
  fsBlockSize :: "32 word"
  maxFileSize :: "32 word"
  journalData :: JournalDataFS
  delalloc :: bool
  dirInode :: SAddr
  nameToInodeAddr :: "string \<Rightarrow> SAddr option"

text \<open>The driver as the interpreter sees it, and the parts of the interpreter's state that change.\<close>

record ('f, 's) Drv =
  dvThread :: "'s \<Rightarrow> 'f Thread res"
  dvSetThread :: "('f Thread \<Rightarrow> 'f Thread) \<Rightarrow> 's \<Rightarrow> 's res"
  dvProgState :: "'s \<Rightarrow> ProgramState"
  dvFiles :: "'s \<Rightarrow> SAddr list"
  dvSetFiles :: "SAddr list \<Rightarrow> 's \<Rightarrow> 's"
  dvTls :: "'s \<Rightarrow> SAddr \<Rightarrow> GV option"
  dvSetTls :: "SAddr \<Rightarrow> GV \<Rightarrow> 's \<Rightarrow> 's"
  dvSysError :: "SystemError \<Rightarrow> 's \<Rightarrow> 's"
  dvAtExit :: "nat \<Rightarrow> 's \<Rightarrow> 's"
  dvLoad :: "EventLabel \<Rightarrow> 's \<Rightarrow> (SVal \<times> 's) res"
  dvStore :: "EventLabel \<Rightarrow> 's \<Rightarrow> 's res"
  dvLock :: "Event \<Rightarrow> SAddr \<Rightarrow> ASize \<Rightarrow> 's \<Rightarrow> 's res"
  dvUnlock :: "Event \<Rightarrow> SAddr \<Rightarrow> ASize \<Rightarrow> 's \<Rightarrow> 's res"
  dvHelpingCas :: "EventLabel \<Rightarrow> 's \<Rightarrow> 's res"
  dvDskRead :: "EventLabel \<Rightarrow> 's \<Rightarrow> (SVal \<times> 's) res"
  dvDskWrite :: "EventLabel \<Rightarrow> 's \<Rightarrow> 's res"
  dvDskFsync :: "EventLabel \<Rightarrow> 's \<Rightarrow> 's res"
  dvDskSync :: "EventLabel \<Rightarrow> 's \<Rightarrow> 's res"
  dvDskPbarrier :: "EventLabel \<Rightarrow> 's \<Rightarrow> 's res"
  dvDskOpen :: "EventLabel \<Rightarrow> 's \<Rightarrow> (SVal \<times> 's) res"
  dvMalloc :: "EventLabel \<Rightarrow> int \<Rightarrow> Storage \<Rightarrow> AddressSpace \<Rightarrow> 's \<Rightarrow> (SVal \<times> 's) res"
  dvFree :: "EventLabel \<Rightarrow> 's \<Rightarrow> 's res"
  dvFence :: "EventLabel \<Rightarrow> 's \<Rightarrow> 's res"
  dvBlock :: "EventLabel \<Rightarrow> 's \<Rightarrow> 's res"
  dvError :: "Event \<Rightarrow> Status \<Rightarrow> 's \<Rightarrow> 's res"
  dvOptional :: "EventLabel \<Rightarrow> 's \<Rightarrow> (bool \<times> 's) res"
  dvLoopBegin :: "EventLabel \<Rightarrow> 's \<Rightarrow> 's res"
  dvSpinStart :: "EventLabel \<Rightarrow> 's \<Rightarrow> 's res"
  dvFaiZNESpinEnd :: "EventLabel \<Rightarrow> 's \<Rightarrow> 's res"
  dvLockZNESpinEnd :: "EventLabel \<Rightarrow> 's \<Rightarrow> 's res"
  dvHpProtect :: "EventLabel \<Rightarrow> 's \<Rightarrow> 's res"
  dvRCULock :: "EventLabel \<Rightarrow> 's \<Rightarrow> 's res"
  dvRCUUnlock :: "EventLabel \<Rightarrow> 's \<Rightarrow> 's res"
  dvRCUSync :: "EventLabel \<Rightarrow> 's \<Rightarrow> 's res"
  dvThreadSelf :: "'s \<Rightarrow> SVal res"
  dvThreadCreate :: "EventLabel \<Rightarrow> nat \<Rightarrow> SVal \<Rightarrow> 'f \<Rightarrow> 's \<Rightarrow> (int \<times> 's) res"
  dvThreadJoin :: "EventLabel \<Rightarrow> 's \<Rightarrow> (SVal \<times> 's) res"
  dvThreadFinish :: "EventLabel \<Rightarrow> 's \<Rightarrow> 's res"

record ('f, 's) EE = "('f, 's) Drv" +
  eeFs :: FsInfo
  eeTypeSize :: "LType \<Rightarrow> ASize"
  eeStaticString :: "SAddr \<Rightarrow> string res"
  eeReturn :: "GV \<Rightarrow> 'f \<Rightarrow> 'f"
  eeStepBack :: "'f \<Rightarrow> 'f"
  eeAllocas :: "'f \<Rightarrow> SAddr list"
  eeEntry :: "nat \<Rightarrow> SVal \<Rightarrow> 'f"
  eeStopOnSystemErrors :: bool
  eeErrno :: "SAddr \<times> LType"
  eeRunAtExit :: "'s \<Rightarrow> 's res"

section \<open>The current thread\<close>

definition cur_pos :: "('f, 's, 'x) EE_scheme \<Rightarrow> 's \<Rightarrow> Event res" where
  "cur_pos I s = rbind (dvThread I s) (\<lambda>t. Ok (Event (thrId t) (int (globalInstructions t))))"

definition next_pos :: "('f, 's, 'x) EE_scheme \<Rightarrow> 's \<Rightarrow> Event res" where
  "next_pos I s = rbind (cur_pos I s) (\<lambda>p. Ok (next_ev p))"

definition is_blocked :: "('f, 's, 'x) EE_scheme \<Rightarrow> 's \<Rightarrow> bool res" where
  "is_blocked I s = rbind (dvThread I s) (\<lambda>t. Ok (thr_isBlocked t))"

definition thr_takeSnapshot :: "'f Thread \<Rightarrow> 'f Thread" where
  "thr_takeSnapshot t = t\<lparr>globalInstSnap := globalInstructions t\<rparr>"

definition take_snapshot :: "('f, 's, 'x) EE_scheme \<Rightarrow> 's \<Rightarrow> 's res" where
  "take_snapshot I s = dvSetThread I thr_takeSnapshot s"

definition roll_to_snapshot :: "('f, 's, 'x) EE_scheme \<Rightarrow> 's \<Rightarrow> 's res" where
  "roll_to_snapshot I s = rbind (dvThread I s) (\<lambda>t.
     if ecStack t = [] then Undef else dvSetThread I (rollToSnapshot (eeStepBack I)) s)"

definition block_cur :: "('f, 's, 'x) EE_scheme \<Rightarrow> BlockageType \<Rightarrow> 's \<Rightarrow> 's res" where
  "block_cur I b s = dvSetThread I (thr_block b) s"

text \<open>The value of a call becomes the value of the call instruction in the frame of the caller.\<close>

definition returnValueToCaller :: "('f, 's, 'x) EE_scheme \<Rightarrow> GV \<Rightarrow> 's \<Rightarrow> 's res" where
  "returnValueToCaller I v s = rbind (dvThread I s) (\<lambda>t. if ecStack t = [] then Undef
     else dvSetThread I (\<lambda>t. t\<lparr>ecStack := butlast (ecStack t) @ [eeReturn I v (last (ecStack t))]\<rparr>) s)"

definition return_int :: "('f, 's, 'x) EE_scheme \<Rightarrow> LType \<Rightarrow> 64 word \<Rightarrow> 's \<Rightarrow> 's res" where
  "return_int I t v s = rbind (INT_TO_GV t v) (\<lambda>g. returnValueToCaller I g s)"

definition return_sval :: "('f, 's, 'x) EE_scheme \<Rightarrow> LType \<Rightarrow> SVal \<Rightarrow> 's \<Rightarrow> 's res" where
  "return_sval I t v s = returnValueToCaller I (SVAL_TO_GV v t) s"

section \<open>Events at the next position\<close>

definition acc_of :: "('f, 's, 'x) EE_scheme \<Rightarrow> LType \<Rightarrow> AAccess" where
  "acc_of I t = \<lparr>asize = eeTypeSize I t, atype = TYPE_TO_ATYPE t\<rparr>"

definition do_load :: "('f, 's, 'x) EE_scheme \<Rightarrow> (Event \<Rightarrow> EventLabel) \<Rightarrow> 's \<Rightarrow> (SVal \<times> 's) res" where
  "do_load I mk s = rbind (next_pos I s) (\<lambda>p. dvLoad I (mk p) s)"

definition do_store :: "('f, 's, 'x) EE_scheme \<Rightarrow> (Event \<Rightarrow> EventLabel) \<Rightarrow> 's \<Rightarrow> 's res" where
  "do_store I mk s = rbind (next_pos I s) (\<lambda>p. dvStore I (mk p) s)"

definition do_lock :: "('f, 's, 'x) EE_scheme \<Rightarrow> SAddr \<Rightarrow> ASize \<Rightarrow> 's \<Rightarrow> 's res" where
  "do_lock I a sz s = rbind (next_pos I s) (\<lambda>p. dvLock I p a sz s)"

definition do_unlock :: "('f, 's, 'x) EE_scheme \<Rightarrow> SAddr \<Rightarrow> ASize \<Rightarrow> 's \<Rightarrow> 's res" where
  "do_unlock I a sz s = rbind (next_pos I s) (\<lambda>p. dvUnlock I p a sz s)"

definition do_dskRead :: "('f, 's, 'x) EE_scheme \<Rightarrow> SAddr \<Rightarrow> AAccess \<Rightarrow> 's \<Rightarrow> (SVal \<times> 's) res" where
  "do_dskRead I a acc s = rbind (next_pos I s) (\<lambda>p. dvDskRead I (DskReadLabel p a acc) s)"

definition do_dskWrite :: "('f, 's, 'x) EE_scheme \<Rightarrow> (Event \<Rightarrow> EventLabel) \<Rightarrow> 's \<Rightarrow> 's res" where
  "do_dskWrite I mk s = rbind (next_pos I s) (\<lambda>p. dvDskWrite I (mk p) s)"

text \<open>A plain read or write of the interpreter on its own behalf.\<close>

definition load_at :: "('f, 's, 'x) EE_scheme \<Rightarrow> AtomicOrdering \<Rightarrow> SAddr \<Rightarrow> AAccess \<Rightarrow> 's \<Rightarrow> (SVal \<times> 's) res" where
  "load_at I ord a acc s = do_load I (\<lambda>p. ReadLabel EL_Read ord p a acc getBottom) s"

definition store_at :: "('f, 's, 'x) EE_scheme \<Rightarrow> AtomicOrdering \<Rightarrow> SAddr \<Rightarrow> AAccess \<Rightarrow> SVal \<Rightarrow> 's \<Rightarrow> 's res" where
  "store_at I ord a acc v s = do_store I (\<lambda>p. WriteLabel EL_Write ord p a acc v WA_None) s"

section \<open>Errors of system calls\<close>

text \<open>The configuration decides whether such an error stops the exploration or sets \<open>errno\<close>.\<close>

definition handleSystemError :: "('f, 's, 'x) EE_scheme \<Rightarrow> SystemError \<Rightarrow> 's \<Rightarrow> 's res" where
  "handleSystemError I code s =
     (if eeStopOnSystemErrors I then rbind (cur_pos I s) (\<lambda>p. dvError I p VS_SystemError (dvSysError I code s))
      else store_at I Monotonic (fst (eeErrno I)) \<lparr>asize = eeTypeSize I (snd (eeErrno I)), atype = Signed\<rparr> (err_num code) s)"

section \<open>Atomic read-modify-write operations\<close>

definition executeAtomicRMWOperation :: "SVal \<Rightarrow> SVal \<Rightarrow> ASize \<Rightarrow> BinOp \<Rightarrow> SVal res" where
  "executeAtomicRMWOperation oldVal v sz op = (case op of
       Xchg \<Rightarrow> Ok v
     | Add \<Rightarrow> signExtendBottom (oldVal + v) (unat (asize_getBits sz))
     | Sub \<Rightarrow> signExtendBottom (oldVal - v) (unat (asize_getBits sz))
     | And \<Rightarrow> Ok (oldVal AND v)
     | Nand \<Rightarrow> Ok (NOT (oldVal AND v))
     | Or \<Rightarrow> Ok (oldVal OR v)
     | Xor \<Rightarrow> Ok (oldVal XOR v)
     | Max \<Rightarrow> Ok (if sval_getSigned oldVal > sval_getSigned v then oldVal else v)
     | Min \<Rightarrow> Ok (if sval_getSigned oldVal < sval_getSigned v then oldVal else v)
     | UMax \<Rightarrow> Ok (if oldVal > v then oldVal else v)
     | UMin \<Rightarrow> Ok (if oldVal < v then oldVal else v))"

section \<open>Instructions that access memory\<close>

text \<open>The annotation of an instruction (\<open>genmc.attr\<close>) is a mask of flags, or absent.\<close>

definition GENMC_KIND :: "64 word \<Rightarrow> 64 word" where "GENMC_KIND flags = flags AND 0xffff0000"

definition getWriteAttr :: "64 word option \<Rightarrow> WriteAttr" where
  "getWriteAttr md = (case md of None \<Rightarrow> WA_None | Some flags \<Rightarrow> ucast flags)"

definition getReadKind :: "64 word option \<Rightarrow> EventLabelKind res" where
  "getReadKind md = (case md of None \<Rightarrow> Ok EL_Read
     | Some flags \<Rightarrow> if GENMC_KIND flags = 0x00080000 then Ok EL_SpeculativeRead
         else if GENMC_KIND flags = 0x00100000 then Ok EL_ConfirmingRead else Bug)"

definition getCasKinds :: "64 word option \<Rightarrow> (EventLabelKind \<times> EventLabelKind) res" where
  "getCasKinds md = (case md of None \<Rightarrow> Ok (EL_CasRead, EL_CasWrite)
     | Some flags \<Rightarrow> if GENMC_KIND flags = 0 then Ok (EL_CasRead, EL_CasWrite)
         else if GENMC_KIND flags = 0x00020000 then Ok (EL_HelpedCasRead, EL_HelpedCasWrite)
         else if GENMC_KIND flags = 0x00040000 then Ok (EL_HelpingCas, EL_HelpingCas)
         else rbind (BUG_ON (GENMC_KIND flags \<noteq> 0x00100000)) (\<lambda>_. Ok (EL_ConfirmingCasRead, EL_ConfirmingCasWrite)))"

definition getFaiKinds :: "64 word option \<Rightarrow> (EventLabelKind \<times> EventLabelKind) res" where
  "getFaiKinds md = (case md of None \<Rightarrow> Ok (EL_FaiRead, EL_FaiWrite)
     | Some flags \<Rightarrow> if GENMC_KIND flags = 0x00010000 then Ok (EL_NoRetFaiRead, EL_NoRetFaiWrite) else Bug)"

text \<open>Operands are evaluated. The result of an instruction is returned; the interpreter puts it into the frame.
  An access to a thread-local variable does not reach the driver.\<close>

definition visitLoadInst :: "('f, 's, 'x) EE_scheme \<Rightarrow> 64 word option \<Rightarrow> AtomicOrdering \<Rightarrow> LType \<Rightarrow> GV \<Rightarrow> 's \<Rightarrow> (GV \<times> 's) res" where
  "visitLoadInst I md ord typ src s = (case dvTls I s (gvPtr src) of
       Some v \<Rightarrow> Ok (v, s)
     | None \<Rightarrow> rbind (getReadKind md) (\<lambda>k.
         rbind (do_load I (\<lambda>p. ReadLabel k ord p (gvPtr src) (acc_of I typ) getBottom) s) (\<lambda>(v, s1).
           Ok (SVAL_TO_GV v typ, s1))))"

definition visitStoreInst :: "('f, 's, 'x) EE_scheme \<Rightarrow> 64 word option \<Rightarrow> AtomicOrdering \<Rightarrow> LType \<Rightarrow> GV \<Rightarrow> GV \<Rightarrow> 's \<Rightarrow> 's res" where
  "visitStoreInst I md ord typ v src s = (case dvTls I s (gvPtr src) of
       Some _ \<Rightarrow> Ok (dvSetTls I (gvPtr src) v s)
     | None \<Rightarrow> do_store I (\<lambda>p. WriteLabel EL_Write ord p (gvPtr src) (acc_of I typ) (GV_TO_SVAL v typ) (getWriteAttr md)) s)"

definition visitFenceInst :: "('f, 's, 'x) EE_scheme \<Rightarrow> AtomicOrdering \<Rightarrow> 's \<Rightarrow> 's res" where
  "visitFenceInst I ord s = rbind (next_pos I s) (\<lambda>p. dvFence I (FenceLabel ord p) s)"

text \<open>The comparison of values of an integer or a pointer type for equality.\<close>

definition gv_eq :: "LType \<Rightarrow> GV \<Rightarrow> GV \<Rightarrow> bool" where
  "gv_eq t a b \<longleftrightarrow> (case t of IntTy w \<Rightarrow> gvInt a = gvInt b | PtrTy \<Rightarrow> gvPtr a = gvPtr b)"

definition cas_tls :: "('f, 's, 'x) EE_scheme \<Rightarrow> LType \<Rightarrow> GV \<Rightarrow> GV \<Rightarrow> GV \<Rightarrow> SAddr \<Rightarrow> 's \<Rightarrow> (GV \<times> bool) \<times> 's" where
  "cas_tls I typ cmpVal newVal oldVal ptr s =
     (let c = gv_eq typ oldVal cmpVal in ((oldVal, c), if c then dvSetTls I ptr newVal s else s))"

text \<open>The read part; the write part follows when the thread has not blocked and the expected value was read.\<close>

definition cas_visit :: "('f, 's, 'x) EE_scheme \<Rightarrow> EventLabelKind \<Rightarrow> EventLabelKind \<Rightarrow> 64 word option \<Rightarrow> AtomicOrdering \<Rightarrow> LType \<Rightarrow> SVal \<Rightarrow>
    SVal \<Rightarrow> SAddr \<Rightarrow> 's \<Rightarrow> ((SVal \<times> bool) \<times> 's) res" where
  "cas_visit I kr kw md ord typ cmp new ptr s =
     rbind (do_load I (\<lambda>p. CasReadLabel kr ord p ptr (acc_of I typ) cmp new (getWriteAttr md) getBottom) s) (\<lambda>(ret, s1).
     rbind (signExtendBottom cmp (unat (eeTypeSize I typ * 8))) (\<lambda>c. rbind (is_blocked I s1) (\<lambda>b.
       if \<not> b \<and> ret = c
       then rbind (do_store I (\<lambda>p. WriteLabel kw ord p ptr (acc_of I typ) new (getWriteAttr md)) s1) (\<lambda>s2. Ok ((ret, ret = c), s2))
       else Ok ((ret, ret = c), s1))))"

definition visitAtomicCmpXchgInst :: "('f, 's, 'x) EE_scheme \<Rightarrow> 64 word option \<Rightarrow> AtomicOrdering \<Rightarrow> LType \<Rightarrow> GV \<Rightarrow> GV \<Rightarrow> GV \<Rightarrow> 's \<Rightarrow>
    ((GV \<times> bool) \<times> 's) res" where
  "visitAtomicCmpXchgInst I md ord typ cmpVal newVal src s = (case dvTls I s (gvPtr src) of
       Some oldVal \<Rightarrow> Ok (cas_tls I typ cmpVal newVal oldVal (gvPtr src) s)
     | None \<Rightarrow> rbind (take_snapshot I s) (\<lambda>s1. rbind (getCasKinds md) (\<lambda>(kr, kw).
         if kr = EL_HelpingCas
         then rbind (next_pos I s1) (\<lambda>p. rbind (dvHelpingCas I (HelpingCasLabel ord p (gvPtr src) (acc_of I typ)
             (GV_TO_SVAL cmpVal typ) (GV_TO_SVAL newVal typ)) s1) (\<lambda>s2. Ok ((SVAL_TO_GV 0 typ, False), s2)))
         else rbind (cas_visit I kr kw md ord typ (GV_TO_SVAL cmpVal typ) (GV_TO_SVAL newVal typ) (gvPtr src) s1) (\<lambda>((ret, c), s2).
           Ok ((SVAL_TO_GV ret typ, c), s2)))))"

definition fai_visit :: "('f, 's, 'x) EE_scheme \<Rightarrow> EventLabelKind \<Rightarrow> EventLabelKind \<Rightarrow> 64 word option \<Rightarrow> AtomicOrdering \<Rightarrow> BinOp \<Rightarrow> LType \<Rightarrow>
    SVal \<Rightarrow> SAddr \<Rightarrow> 's \<Rightarrow> (SVal \<times> 's) res" where
  "fai_visit I kr kw md ord op typ v ptr s =
     rbind (do_load I (\<lambda>p. FaiReadLabel kr ord p ptr (acc_of I typ) op v (getWriteAttr md) getBottom) s) (\<lambda>(ret, s1).
     rbind (executeAtomicRMWOperation ret v (eeTypeSize I typ) op) (\<lambda>new. rbind (is_blocked I s1) (\<lambda>b.
       if b then Ok (ret, s1)
       else rbind (do_store I (\<lambda>p. WriteLabel kw ord p ptr (acc_of I typ) new (getWriteAttr md)) s1) (\<lambda>s2. Ok (ret, s2)))))"

definition visitAtomicRMWInst :: "('f, 's, 'x) EE_scheme \<Rightarrow> 64 word option \<Rightarrow> AtomicOrdering \<Rightarrow> BinOp \<Rightarrow> LType \<Rightarrow> GV \<Rightarrow> GV \<Rightarrow> 's \<Rightarrow>
    (GV \<times> 's) res" where
  "visitAtomicRMWInst I md ord op typ v src s = rbind (BUG_ON (\<not> isIntegerTy typ)) (\<lambda>_. case dvTls I s (gvPtr src) of
       Some oldVal \<Rightarrow> rbind (executeAtomicRMWOperation (GV_TO_SVAL oldVal typ) (GV_TO_SVAL v typ) (eeTypeSize I typ) op) (\<lambda>new.
         Ok (oldVal, dvSetTls I (gvPtr src) (SVAL_TO_GV new typ) s))
     | None \<Rightarrow> rbind (getFaiKinds md) (\<lambda>(kr, kw).
         rbind (fai_visit I kr kw md ord op typ (GV_TO_SVAL v typ) (gvPtr src) s) (\<lambda>(ret, s1). Ok (SVAL_TO_GV ret typ, s1))))"

definition visitAllocaInst :: "('f, 's, 'x) EE_scheme \<Rightarrow> 32 word \<Rightarrow> 32 word \<Rightarrow> int \<Rightarrow> LType \<Rightarrow> (SVal \<Rightarrow> 'f \<Rightarrow> 'f) \<Rightarrow> 's \<Rightarrow>
    (GV \<times> 's) res" where
  "visitAllocaInst I numElements typeSize al typ addAlloca s = rbind (next_pos I s) (\<lambda>p.
     rbind (dvMalloc I (MallocLabel p 0 (max 1 (numElements * typeSize))) al ST_Automatic AS_User s) (\<lambda>(a, s1).
     rbind (dvThread I s1) (\<lambda>t. if ecStack t = [] then Undef
       else rbind (dvSetThread I (\<lambda>t. t\<lparr>ecStack := butlast (ecStack t) @ [addAlloca a (last (ecStack t))]\<rparr>) s1) (\<lambda>s2.
         Ok (SVAL_TO_GV a typ, s2)))))"

section \<open>Leaving a function\<close>

definition freeAllocas :: "('f, 's, 'x) EE_scheme \<Rightarrow> SAddr list \<Rightarrow> 's \<Rightarrow> 's res" where
  "freeAllocas I = rfold (\<lambda>a s. rbind (next_pos I s) (\<lambda>p. dvFree I (FreeLabel EL_Free p a 0) s))"

definition pop_frame :: "'f Thread \<Rightarrow> 'f Thread" where
  "pop_frame t = t\<lparr>ecStack := butlast (ecStack t)\<rparr>"

definition popStackAndReturnValueToCaller :: "('f, 's, 'x) EE_scheme \<Rightarrow> GV \<Rightarrow> 's \<Rightarrow> 's res" where
  "popStackAndReturnValueToCaller I v s =
     rbind (dvThread I s) (\<lambda>t. if ecStack t = [] then Undef
       else rbind (freeAllocas I (eeAllocas I (last (ecStack t))) s) (\<lambda>s1.
         rbind (dvSetThread I pop_frame s1) (\<lambda>s2. rbind (dvThread I s2) (\<lambda>t2.
           if ecStack t2 \<noteq> [] then returnValueToCaller I v s2
           else rbind (if thrId t2 = 0 \<and> dvProgState I s2 = PS_Main then eeRunAtExit I s2 else Ok s2) (\<lambda>s3.
             if dvProgState I s3 \<noteq> PS_Dtors then rbind (next_pos I s3) (\<lambda>p. dvThreadFinish I (ThreadFinishLabel p) s3)
             else Ok s3)))))"

section \<open>File descriptors\<close>

text \<open>A bit vector of the descriptors in use and a map from descriptors to file descriptions. A negative
  descriptor is a huge index.\<close>

record FdTable =
  fdsUsed :: "bool list"
  fdToFile :: "SAddr list"

text \<open>\<open>grow(n)\<close> of LLVM's indexed map makes \<open>n\<close> an index of it.\<close>

definition fdmap_grow :: "nat \<Rightarrow> SAddr list \<Rightarrow> SAddr list" where
  "fdmap_grow n m = (if length m < n + 1 then vec_resize (n + 1) 0 m else m)"

definition fd_init :: "FdTable" where
  "fd_init = \<lparr>fdsUsed = replicate 20 False, fdToFile = fdmap_grow 20 []\<rparr>"

fun find_first_unset :: "bool list \<Rightarrow> nat option" where
  "find_first_unset [] = None"
| "find_first_unset (b # bs) = (if b then map_option Suc (find_first_unset bs) else Some 0)"

definition markFdAsUsed :: "nat \<Rightarrow> FdTable \<Rightarrow> FdTable res" where
  "markFdAsUsed fd T = rbind (vec_set (fdsUsed T) fd True) (\<lambda>u. Ok (T\<lparr>fdsUsed := u\<rparr>))"

definition reclaimUnusedFd :: "nat \<Rightarrow> FdTable \<Rightarrow> FdTable res" where
  "reclaimUnusedFd fd T = rbind (vec_set (fdsUsed T) fd False) (\<lambda>u. Ok (T\<lparr>fdsUsed := u\<rparr>))"

text \<open>What the driver tells the interpreter about a cut of the graph: the descriptors of the calls of \<open>open()\<close> that go
  are free again. The table is the interpreter's, so this is the share of \<open>restrictGraph()\<close> (and of a revisit) that
  is not in the driver's state.\<close>

definition notifyEERemoved :: "ExecutionGraph \<Rightarrow> VectorClock \<Rightarrow> FdTable \<Rightarrow> FdTable res" where
  "notifyEERemoved g v T =
     rfold (\<lambda>l T. rbind (vc_contains v (lpos l)) (\<lambda>b.
       if b then Ok T
       else if lkind l = EL_DskOpen then reclaimUnusedFd (unat (ucast (lfd l) :: 32 word)) T else Ok T)) (labels g) T"

lemma find_first_unset_None: "find_first_unset bs = None \<longleftrightarrow> False \<notin> set bs"
  by (induction bs) auto

lemma find_first_unset_grown: "find_first_unset (vec_resize (Suc (2 * length bs)) False bs) \<noteq> None"
  by (simp add: find_first_unset_None vec_resize_def)

function getFreshFd :: "FdTable \<Rightarrow> (nat \<times> FdTable) res" where
  "getFreshFd T = (case find_first_unset (fdsUsed T) of
       None \<Rightarrow> getFreshFd (T\<lparr>fdsUsed := vec_resize (2 * length (fdsUsed T) + 1) False (fdsUsed T),
                            fdToFile := fdmap_grow (2 * length (fdsUsed T) + 1) (fdToFile T)\<rparr>)
     | Some fd \<Rightarrow> rbind (markFdAsUsed fd T) (\<lambda>T1. Ok (fd, T1)))"
  by pat_completeness auto

termination
  by (relation "measure (\<lambda>T. if find_first_unset (fdsUsed T) = None then 1 else 0)")
    (use find_first_unset_grown in auto)

definition getFileFromFd :: "('f, 's, 'x) EE_scheme \<Rightarrow> 32 word \<Rightarrow> 's \<Rightarrow> SAddr" where
  "getFileFromFd I fd s = (if unat fd < length (dvFiles I s) then dvFiles I s ! unat fd else 0)"

definition setFdToFile :: "('f, 's, 'x) EE_scheme \<Rightarrow> 32 word \<Rightarrow> SAddr \<Rightarrow> 's \<Rightarrow> 's res" where
  "setFdToFile I fd a s = rbind (vec_set (dvFiles I s) (unat fd) a) (\<lambda>fs. Ok (dvSetFiles I fs s))"

section \<open>Addresses\<close>

definition getFreshAddr :: "32 word \<Rightarrow> int \<Rightarrow> Storage \<Rightarrow> AddressSpace \<Rightarrow> SAddrAllocator \<Rightarrow> (SAddr \<times> SAddrAllocator) res" where
  "getFreshAddr sz al st sp A =
     rbind (BUG_ON (al \<le> 0 \<or> al AND (al - 1) \<noteq> 0)) (\<lambda>_. case st of
         ST_Automatic \<Rightarrow> allocAutomatic A sz (of_int al) (sp = AS_Internal)
       | ST_Heap \<Rightarrow> allocHeap A sz (of_int al) (sp = AS_Internal)
       | ST_Static \<Rightarrow> Bug)"

text \<open>The ranges of the global variables are an ordered set; the search finds the first that does not end before
  the address.\<close>

definition lower_range :: "(SAddr \<times> SAddr) list \<Rightarrow> SAddr \<Rightarrow> (SAddr \<times> SAddr) list" where
  "lower_range rs a = dropWhile (\<lambda>r. snd r < a) rs"

definition isStaticallyAllocated_ee :: "(SAddr \<times> SAddr) list \<Rightarrow> SAddr \<Rightarrow> bool" where
  "isStaticallyAllocated_ee rs a = (case lower_range rs a of [] \<Rightarrow> False | r # _ \<Rightarrow> fst r \<le> a \<and> a \<le> snd r)"

definition getStaticAllocBegin :: "(SAddr \<times> SAddr) list \<Rightarrow> SAddr \<Rightarrow> SAddr res" where
  "getStaticAllocBegin rs a = (case lower_range rs a of [] \<Rightarrow> Bug
     | r # _ \<Rightarrow> rbind (BUG_ON (a < fst r \<or> a > snd r)) (\<lambda>_. Ok (fst r)))"

definition getStaticAddr :: "(SAddr \<times> SAddr) list \<Rightarrow> (SAddr \<Rightarrow> 64 word option) \<Rightarrow> SAddr \<Rightarrow> 64 word res" where
  "getStaticAddr rs vals a = rbind (BUG_ON (\<not> isStaticallyAllocated_ee rs a)) (\<lambda>_.
     rbind (getStaticAllocBegin rs a) (\<lambda>b. case vals b of None \<Rightarrow> Bug | Some p \<Rightarrow> Ok (p + (a - b))))"

section \<open>Running under the exploration driver\<close>

text \<open>The interpreter's state next to the driver's.\<close>

record 'f EEState =
  xDrv :: "'f Driver"
  xAlloc :: SAddrAllocator
  xFd :: FdTable
  xTls :: "int \<Rightarrow> SAddr \<Rightarrow> GV option"
  xProg :: ProgramState
  xErr :: "SystemError option"
  xExit :: "nat list"

definition on_drv :: "('f Driver \<Rightarrow> 'f Driver res) \<Rightarrow> 'f EEState \<Rightarrow> 'f EEState res" where
  "on_drv h x = rbind (h (xDrv x)) (\<lambda>d. Ok (x\<lparr>xDrv := d\<rparr>))"

definition on_drv_val :: "('f Driver \<Rightarrow> ('a \<times> 'f Driver) res) \<Rightarrow> 'f EEState \<Rightarrow> ('a \<times> 'f EEState) res" where
  "on_drv_val h x = rbind (h (xDrv x)) (\<lambda>(v, d). Ok (v, x\<lparr>xDrv := d\<rparr>))"

text \<open>The driver asks for a fresh address or descriptor only when it adds the label.\<close>

definition malloc_EE :: "'f Env \<Rightarrow> EventLabel \<Rightarrow> int \<Rightarrow> Storage \<Rightarrow> AddressSpace \<Rightarrow> 'f EEState \<Rightarrow> (SVal \<times> 'f EEState) res" where
  "malloc_EE e l al st sp x = rbind (isExecutionDrivenByGraph (xDrv x)) (\<lambda>(b, _).
     if b then on_drv_val (visitMalloc e l 0) x
     else rbind (getFreshAddr (lallocSize l) al st sp (xAlloc x)) (\<lambda>(a, A). on_drv_val (visitMalloc e l a) (x\<lparr>xAlloc := A\<rparr>)))"

definition open_EE :: "'f Env \<Rightarrow> EventLabel \<Rightarrow> 'f EEState \<Rightarrow> (SVal \<times> 'f EEState) res" where
  "open_EE e l x = rbind (isExecutionDrivenByGraph (xDrv x)) (\<lambda>(b, _).
     if b then on_drv_val (visitDskOpen e l 0) x
     else rbind (getFreshFd (xFd x)) (\<lambda>(fd, T). on_drv_val (visitDskOpen e l (int fd)) (x\<lparr>xFd := T\<rparr>)))"

definition driver_EE :: "'f Env \<Rightarrow> ('f Driver \<Rightarrow> 'f Driver res) \<Rightarrow> nat \<Rightarrow> ('f Driver \<Rightarrow> (SVal \<Rightarrow> bool) option) \<Rightarrow>
    ('f, 'f EEState) Drv" where
  "driver_EE e ex n annot = \<lparr>
     dvThread = (\<lambda>x. getCurThr (xDrv x)),
     dvSetThread = (\<lambda>f. on_drv (\<lambda>d. upd_thread (dCur d) f d)),
     dvProgState = xProg,
     dvFiles = (\<lambda>x. fdToFile (xFd x)),
     dvSetFiles = (\<lambda>fs x. x\<lparr>xFd := (xFd x)\<lparr>fdToFile := fs\<rparr>\<rparr>),
     dvTls = (\<lambda>x. xTls x (dCur (xDrv x))),
     dvSetTls = (\<lambda>a v x. x\<lparr>xTls := (xTls x)(dCur (xDrv x) := (xTls x (dCur (xDrv x)))(a \<mapsto> v))\<rparr>),
     dvSysError = (\<lambda>c x. x\<lparr>xErr := Some c\<rparr>),
     dvAtExit = (\<lambda>F x. x\<lparr>xExit := xExit x @ [F]\<rparr>),
     dvLoad = (\<lambda>l. on_drv_val (\<lambda>d. visitLoad e l (annot d) d)),
     dvStore = (\<lambda>l. on_drv (visitStore e ex n l)),
     dvLock = (\<lambda>p a sz. on_drv (\<lambda>d. visitLock e ex n (annot d) p a sz d)),
     dvUnlock = (\<lambda>p a sz. on_drv (visitUnlock e ex n p a sz)),
     dvHelpingCas = (\<lambda>l. on_drv (visitHelpingCas e l)),
     dvDskRead = (\<lambda>l. on_drv_val (visitDskRead e l)),
     dvDskWrite = (\<lambda>l. on_drv (visitDskWrite e ex n l)),
     dvDskFsync = (\<lambda>l. on_drv (visitDskFsync e l)),
     dvDskSync = (\<lambda>l. on_drv (visitDskSync e l)),
     dvDskPbarrier = (\<lambda>l. on_drv (visitDskPbarrier e l)),
     dvDskOpen = open_EE e,
     dvMalloc = malloc_EE e,
     dvFree = (\<lambda>l. on_drv (visitFree e l)),
     dvFence = (\<lambda>l. on_drv (visitFence e l)),
     dvBlock = (\<lambda>l. on_drv (visitBlock e l)),
     dvError = (\<lambda>p st. on_drv (visitError e p st)),
     dvOptional = (\<lambda>l. on_drv_val (visitOptional e l)),
     dvLoopBegin = (\<lambda>l. on_drv (visitLoopBegin e l)),
     dvSpinStart = (\<lambda>l. on_drv (visitSpinStart e l)),
     dvFaiZNESpinEnd = (\<lambda>l. on_drv (visitFaiZNESpinEnd e l)),
     dvLockZNESpinEnd = (\<lambda>l. on_drv (visitLockZNESpinEnd e l)),
     dvHpProtect = (\<lambda>l. on_drv (visitHpProtect e l)),
     dvRCULock = (\<lambda>l. on_drv (visitRCULockLKMM e l)),
     dvRCUUnlock = (\<lambda>l. on_drv (visitRCUUnlockLKMM e l)),
     dvRCUSync = (\<lambda>l. on_drv (visitRCUSyncLKMM e l)),
     dvThreadSelf = (\<lambda>x. visitThreadSelf (xDrv x)),
     dvThreadCreate = (\<lambda>l F arg SF. on_drv_val (visitThreadCreate e l F arg SF)),
     dvThreadJoin = (\<lambda>l. on_drv_val (visitThreadJoin e l)),
     dvThreadFinish = (\<lambda>l. on_drv (visitThreadFinish e l))\<rparr>"

end
