(* ===== verification/GenMC_FS.thy ===== *)
theory GenMC_FS
  imports GenMC_EE
begin

text \<open>
  The file system that the interpreter offers to the checked program (\<open>src/src/Execution.cpp\<close>): inodes and file
  descriptions in the program's memory, with contents on the disk. Every system call is the sequence of locks,
  loads, stores and disk accesses that the interpreter issues to its driver. A call that cannot take a lock sets
  the thread back to the call instruction; \<open>42\<close> is the code's value for that inside the functions below a call.
\<close>

section \<open>Flags and layouts\<close>

definition O_CREAT :: "64 word" where "O_CREAT = 64"
definition O_TRUNC :: "64 word" where "O_TRUNC = 512"
definition O_APPEND :: "64 word" where "O_APPEND = 1024"
definition O_DSYNC :: "64 word" where "O_DSYNC = 4096"
definition O_SYNC :: "64 word" where "O_SYNC = 1052672"
definition O_WRONLY :: "64 word" where "O_WRONLY = 1"
definition O_RDWR :: "64 word" where "O_RDWR = 2"

definition VALID_OPEN_FLAGS :: "64 word" where
  "VALID_OPEN_FLAGS = 0 OR O_WRONLY OR O_RDWR OR O_CREAT OR O_TRUNC OR O_APPEND OR O_SYNC OR O_DSYNC"

definition OPEN_FMODE :: "64 word \<Rightarrow> 64 word" where "OPEN_FMODE flag = (flag + 1) AND 3"
definition FMODE_READ :: "64 word" where "FMODE_READ = 1"
definition FMODE_WRITE :: "64 word" where "FMODE_WRITE = 2"

definition inode_at :: "('f, 's, 'x) EE_scheme \<Rightarrow> nat \<Rightarrow> SAddr \<Rightarrow> SAddr" where
  "inode_at I k inode = inode + inodeElem (eeFs I) k"

definition inodeLock where "inodeLock I = inode_at I 0"
definition inodeIsize where "inodeIsize I = inode_at I 1"
definition inodeItrans where "inodeItrans I = inode_at I 2"
definition inodeIdisksize where "inodeIdisksize I = inode_at I 3"
definition inodeData where "inodeData I = inode_at I 4"

definition file_at :: "('f, 's, 'x) EE_scheme \<Rightarrow> nat \<Rightarrow> SAddr \<Rightarrow> SAddr" where
  "file_at I k file = file + fileElem (eeFs I) k"

definition fileInode where "fileInode I = file_at I 0"
definition fileCount where "fileCount I = file_at I 1"
definition fileFlags where "fileFlags I = file_at I 2"
definition filePosLock where "filePosLock I = file_at I 3"
definition fileOffset where "fileOffset I = file_at I 4"

text \<open>The entries of the directory follow each other in its data, in the order of the names.\<close>

definition setup_names :: "string list \<Rightarrow> SAddr \<Rightarrow> (nat \<Rightarrow> 64 word) \<Rightarrow> 32 word \<Rightarrow> string \<Rightarrow> SAddr option" where
  "setup_names names dir elem psz =
     map_of (rev (map (\<lambda>(i, nm). (nm, dir + elem 4 + ucast (of_nat i * psz))) (enumerate 0 names)))"

definition ptr_acc :: "('f, 's, 'x) EE_scheme \<Rightarrow> AAccess" where
  "ptr_acc I = \<lparr>asize = eeTypeSize I PtrTy, atype = Pointer\<rparr>"

text \<open>Alignment of any scalar type, on the platforms the tool runs on.\<close>

definition max_align :: int where "max_align = 16"

text \<open>A lock that cannot be taken sets the thread back.\<close>

definition lock_or_roll :: "('f, 's, 'x) EE_scheme \<Rightarrow> SAddr \<Rightarrow> LType \<Rightarrow> 's \<Rightarrow> (bool \<times> 's) res" where
  "lock_or_roll I a t s = rbind (do_lock I a (eeTypeSize I t) s) (\<lambda>s1. rbind (is_blocked I s1) (\<lambda>b.
     if b then rbind (roll_to_snapshot I s1) (\<lambda>s2. Ok (False, s2)) else Ok (True, s1)))"

definition unlock_at :: "('f, 's, 'x) EE_scheme \<Rightarrow> SAddr \<Rightarrow> LType \<Rightarrow> 's \<Rightarrow> 's res" where
  "unlock_at I a t s = do_unlock I a (eeTypeSize I t) s"

definition block_in_transaction :: "('f, 's, 'x) EE_scheme \<Rightarrow> 's \<Rightarrow> (SVal \<times> 's) res" where
  "block_in_transaction I s = rbind (roll_to_snapshot I s) (\<lambda>s1. rbind (block_cur I BT_Cons s1) (\<lambda>s2. Ok (42, s2)))"

section \<open>Inodes\<close>

definition executeFsyncFS :: "('f, 's, 'x) EE_scheme \<Rightarrow> SAddr \<Rightarrow> 's \<Rightarrow> 's res" where
  "executeFsyncFS I inode s = rbind (next_pos I s) (\<lambda>p. dvDskFsync I (DskFsyncLabel p inode (inodeSize (eeFs I))) s)"

definition getInodeTransStatus :: "('f, 's, 'x) EE_scheme \<Rightarrow> SAddr \<Rightarrow> LType \<Rightarrow> 's \<Rightarrow> (SVal \<times> 's) res" where
  "getInodeTransStatus I inode t s = do_dskRead I (inodeItrans I inode) (acc_of I t) s"

definition setInodeTransStatus :: "('f, 's, 'x) EE_scheme \<Rightarrow> SAddr \<Rightarrow> LType \<Rightarrow> SVal \<Rightarrow> 's \<Rightarrow> 's res" where
  "setInodeTransStatus I inode t v s = do_dskWrite I (\<lambda>p. DskJnlWriteLabel p (inodeItrans I inode) (acc_of I t) v 0 inode) s"

definition readInodeSizeFS :: "('f, 's, 'x) EE_scheme \<Rightarrow> SAddr \<Rightarrow> LType \<Rightarrow> 's \<Rightarrow> (SVal \<times> 's) res" where
  "readInodeSizeFS I inode t s =
     (if dvProgState I s = PS_Recovery then do_dskRead I (inodeIdisksize I inode) (acc_of I t) s
      else load_at I Acquire (inodeIsize I inode) (acc_of I t) s)"

definition updateInodeSizeFS :: "('f, 's, 'x) EE_scheme \<Rightarrow> SAddr \<Rightarrow> LType \<Rightarrow> SVal \<Rightarrow> 's \<Rightarrow> 's res" where
  "updateInodeSizeFS I inode t newSize s = store_at I Release (inodeIsize I inode) (acc_of I t) newSize s"

definition updateInodeDisksizeFS :: "('f, 's, 'x) EE_scheme \<Rightarrow> SAddr \<Rightarrow> LType \<Rightarrow> SVal \<Rightarrow> SVal \<Rightarrow> SVal \<Rightarrow> 's \<Rightarrow> 's res" where
  "updateInodeDisksizeFS I inode t newSize ordDataBegin ordDataEnd s =
     (let range = (if journalData (eeFs I) = JD_ordered then (inodeData I inode + ordDataBegin, inodeData I inode + ordDataEnd) else (0, 0))
      in rbind (do_dskWrite I (\<lambda>p. DskMdWriteLabel p (inodeIdisksize I inode) (acc_of I t) newSize inode range) s) (\<lambda>s1.
        if journalData (eeFs I) = JD_ordered \<and> \<not> delalloc (eeFs I) then executeFsyncFS I inode s1 else Ok s1))"

text \<open>The offsets and the count are \<open>int\<close>; the count is converted to \<open>unsigned\<close> by the comparison of the loop.\<close>

definition write_byte :: "('f, 's, 'x) EE_scheme \<Rightarrow> SAddr \<Rightarrow> SAddr \<Rightarrow> SAddr \<Rightarrow> LType \<Rightarrow> 's \<Rightarrow> 's res" where
  "write_byte I inode loadAddr writeAddr typ s =
     rbind (load_at I NotAtomic loadAddr (acc_of I typ) s) (\<lambda>(v, s1).
       do_dskWrite I (\<lambda>p. DskWriteLabel EL_DskWrite p writeAddr (acc_of I typ) v inode) s1)"

definition writeDataToDisk :: "('f, 's, 'x) EE_scheme \<Rightarrow> SAddr \<Rightarrow> 32 word \<Rightarrow> SAddr \<Rightarrow> 32 word \<Rightarrow> 32 word \<Rightarrow> LType \<Rightarrow> 's \<Rightarrow> 's res" where
  "writeDataToDisk I buf bufOff inode inodeOff cnt typ =
     rfold (\<lambda>i. write_byte I inode (buf + scast bufOff + of_nat i) (inodeData I inode + scast inodeOff + of_nat i) typ) [0..<unat cnt]"

definition read_byte :: "('f, 's, 'x) EE_scheme \<Rightarrow> SAddr \<Rightarrow> SAddr \<Rightarrow> LType \<Rightarrow> 's \<Rightarrow> 's res" where
  "read_byte I readAddr storeAddr typ s =
     rbind (do_dskRead I readAddr (acc_of I typ) s) (\<lambda>(v, s1). store_at I NotAtomic storeAddr (acc_of I typ) v s1)"

definition readDataFromDisk :: "('f, 's, 'x) EE_scheme \<Rightarrow> SAddr \<Rightarrow> 32 word \<Rightarrow> SAddr \<Rightarrow> 32 word \<Rightarrow> 32 word \<Rightarrow> LType \<Rightarrow> 's \<Rightarrow> 's res" where
  "readDataFromDisk I inode inodeOff buf bufOff cnt typ =
     rfold (\<lambda>i. read_byte I (inodeData I inode + scast inodeOff + of_nat i) (buf + scast bufOff + of_nat i) typ) [0..<unat cnt]"

text \<open>A name that the file system does not know is an exception of \<open>at()\<close>.\<close>

definition getInodeAddrFromName :: "('f, 's, 'x) EE_scheme \<Rightarrow> string \<Rightarrow> SAddr res" where
  "getInodeAddrFromName I name = (case nameToInodeAddr (eeFs I) name of None \<Rightarrow> Undef | Some a \<Rightarrow> Ok a)"

definition updateDirNameInode :: "('f, 's, 'x) EE_scheme \<Rightarrow> string \<Rightarrow> SVal \<Rightarrow> 's \<Rightarrow> 's res" where
  "updateDirNameInode I name inode s = rbind (getInodeAddrFromName I name) (\<lambda>a.
     rbind (executeFsyncFS I (dirInode (eeFs I)) s) (\<lambda>s1.
     rbind (do_dskWrite I (\<lambda>p. DskDirWriteLabel p a (ptr_acc I) inode (dirInode (eeFs I))) s1) (\<lambda>s2.
       if journalData (eeFs I) = JD_journal then executeFsyncFS I (dirInode (eeFs I)) s2 else Ok s2)))"

definition executeInodeLookupFS :: "('f, 's, 'x) EE_scheme \<Rightarrow> string \<Rightarrow> LType \<Rightarrow> 's \<Rightarrow> (SVal \<times> 's) res" where
  "executeInodeLookupFS I filename t s =
     rbind (getInodeTransStatus I (dirInode (eeFs I)) t s) (\<lambda>(inTrans, s1).
       if inTrans = 1 then block_in_transaction I s1
       else rbind (getInodeAddrFromName I filename) (\<lambda>a. do_dskRead I a (ptr_acc I) s1))"

definition executeInodeCreateFS :: "('f, 's, 'x) EE_scheme \<Rightarrow> string \<Rightarrow> LType \<Rightarrow> 's \<Rightarrow> (SVal \<times> 's) res" where
  "executeInodeCreateFS I filename t s =
     rbind (next_pos I s) (\<lambda>p.
     rbind (dvMalloc I (MallocLabel p 0 (inodeSize (eeFs I))) max_align ST_Heap AS_Internal s) (\<lambda>(inode, s1).
     rbind (store_at I Release (inodeLock I inode) (acc_of I t) 0 s1) (\<lambda>s2.
     rbind (store_at I Release (inodeIsize I inode) (acc_of I t) 0 s2) (\<lambda>s3.
     rbind (setInodeTransStatus I inode t 0 s3) (\<lambda>s4.
     rbind (updateInodeDisksizeFS I inode t 0 0 0 s4) (\<lambda>s5.
     rbind (updateDirNameInode I filename inode s5) (\<lambda>s6. Ok (inode, s6))))))))"

section \<open>Opening and closing\<close>

definition checkOpenFlagsFS :: "('f, 's, 'x) EE_scheme \<Rightarrow> SVal \<Rightarrow> 's \<Rightarrow> (SVal \<times> 's) res" where
  "checkOpenFlagsFS I flags s =
     (if flags AND NOT VALID_OPEN_FLAGS \<noteq> 0 then rbind (handleSystemError I SE_EINVAL s) (\<lambda>s1. Ok (- 1, s1)) else Ok (0, s))"

text \<open>The result is the inode with the flags, which lose \<open>O_TRUNC\<close> when the file is created.\<close>

definition executeLookupOpenFS :: "('f, 's, 'x) EE_scheme \<Rightarrow> string \<Rightarrow> SVal \<Rightarrow> LType \<Rightarrow> 's \<Rightarrow> ((SVal \<times> SVal) \<times> 's) res" where
  "executeLookupOpenFS I file flags t s =
     (if flags AND O_CREAT = 0 then rbind (executeInodeLookupFS I file t s) (\<lambda>(inode, s1). Ok ((inode, flags), s1))
      else let dirLock = inodeLock I (dirInode (eeFs I)) in
        rbind (lock_or_roll I dirLock t s) (\<lambda>(ok, s1).
          if \<not> ok then Ok ((42, flags), s1)
          else rbind (executeInodeLookupFS I file t s1) (\<lambda>(inode, s2). rbind (is_blocked I s2) (\<lambda>b.
            if b then Ok ((inode, flags), s2)
            else if inode \<noteq> 0 then rbind (unlock_at I dirLock t s2) (\<lambda>s3. Ok ((inode, flags), s3))
            else rbind (executeInodeCreateFS I file t s2) (\<lambda>(inode1, s3).
              rbind (unlock_at I dirLock t s3) (\<lambda>s4. Ok ((inode1, flags AND NOT O_TRUNC), s4)))))))"

definition init_file :: "('f, 's, 'x) EE_scheme \<Rightarrow> SAddr \<Rightarrow> SVal \<Rightarrow> SVal \<Rightarrow> LType \<Rightarrow> 's \<Rightarrow> 's res" where
  "init_file I file flags inode t s =
     rbind (store_at I NotAtomic (fileInode I file) (ptr_acc I) inode s) (\<lambda>s1.
     rbind (store_at I NotAtomic (fileFlags I file) (acc_of I t) flags s1) (\<lambda>s2.
     rbind (store_at I NotAtomic (fileOffset I file) (acc_of I t) 0 s2) (\<lambda>s3.
     rbind (store_at I Release (filePosLock I file) (acc_of I t) 0 s3)
       (store_at I Release (fileCount I file) (acc_of I t) 1))))"

definition executeOpenFS :: "('f, 's, 'x) EE_scheme \<Rightarrow> string \<Rightarrow> SVal \<Rightarrow> SVal \<Rightarrow> LType \<Rightarrow> 's \<Rightarrow> (SVal \<times> 's) res" where
  "executeOpenFS I filename flags inode t s =
     rbind (next_pos I s) (\<lambda>p. rbind (dvDskOpen I (DskOpenLabel p filename (ucast (eeTypeSize I t))) s) (\<lambda>(fd, s1).
     rbind (next_pos I s1) (\<lambda>q.
     rbind (dvMalloc I (MallocLabel q 0 (fileSize (eeFs I))) max_align ST_Heap AS_Internal s1) (\<lambda>(file, s2).
     rbind (init_file I file flags inode t s2) (\<lambda>s3.
     rbind (setFdToFile I (ucast fd) file s3) (\<lambda>s4. Ok (fd, s4)))))))"

definition zeroDskRangeFS :: "('f, 's, 'x) EE_scheme \<Rightarrow> SAddr \<Rightarrow> SVal \<Rightarrow> SVal \<Rightarrow> LType \<Rightarrow> 's \<Rightarrow> 's res" where
  "zeroDskRangeFS I inode start stop typ =
     rfold (\<lambda>i. do_dskWrite I (\<lambda>p. DskWriteLabel EL_DskWrite p (inodeData I inode + of_nat i) (acc_of I typ) 0 inode))
       [unat start..<unat stop]"

text \<open>What extending a file needs before its size changes: the new part zeroed, as a range that has to reach the
  disk before the size. A length beyond the limit is an error.\<close>

definition truncate_extend :: "('f, 's, 'x) EE_scheme \<Rightarrow> SAddr \<Rightarrow> SVal \<Rightarrow> SVal \<Rightarrow> 's \<Rightarrow> ((SVal \<times> SVal) option \<times> 's) res" where
  "truncate_extend I inode len oldIsize s =
     (if sval_getSigned len > sval_getSigned oldIsize
      then if sval_getSigned len \<ge> uint (maxFileSize (eeFs I))
        then rbind (handleSystemError I SE_EFBIG s) (\<lambda>s1. Ok (None, s1))
        else rbind (zeroDskRangeFS I inode oldIsize len (IntTy 8) s) (\<lambda>s1. Ok (Some (oldIsize, len), s1))
      else Ok (Some (0, 0), s))"

definition executeTruncateFS :: "('f, 's, 'x) EE_scheme \<Rightarrow> SVal \<Rightarrow> SVal \<Rightarrow> LType \<Rightarrow> 's \<Rightarrow> (SVal \<times> 's) res" where
  "executeTruncateFS I inode len t s =
     (if sval_getSigned len < 0 then rbind (handleSystemError I SE_EINVAL s) (\<lambda>s1. Ok (- 1, s1))
      else rbind (lock_or_roll I (inodeLock I inode) t s) (\<lambda>(ok, s1).
        if \<not> ok then Ok (42, s1)
        else rbind (readInodeSizeFS I inode t s1) (\<lambda>(oldIsize, s2).
        rbind (truncate_extend I inode len oldIsize s2) (\<lambda>(r, s3). case r of
            None \<Rightarrow> rbind (unlock_at I (inodeLock I inode) t s3) (\<lambda>s4. Ok (- 1, s4))
          | Some (ob, oe) \<Rightarrow>
              rbind (updateInodeDisksizeFS I inode t len ob oe s3) (\<lambda>s4.
              rbind (updateInodeSizeFS I inode t len s4) (\<lambda>s5.
              rbind (if jd_num (journalData (eeFs I)) \<ge> jd_num JD_ordered then executeFsyncFS I inode s5 else Ok s5) (\<lambda>s6.
              rbind (unlock_at I (inodeLock I inode) t s6) (\<lambda>s7. Ok (0, s7)))))))))"

end
