(* ===== verification/GenMC_FSIO.thy ===== *)
theory GenMC_FSIO
  imports GenMC_FS
begin

text \<open>
  Reading, writing and seeking (\<open>src/src/Execution.cpp\<close>). Writes go through the blocks of the file one after the
  other; appending and writing past the end zero the bytes in between. The sizes and offsets are 64 bits wide, except
  where the code passes them through an \<open>int\<close>.
\<close>

section \<open>Reading\<close>

definition executeReadFS :: "('f, 's, 'x) EE_scheme \<Rightarrow> SAddr \<Rightarrow> LType \<Rightarrow> SAddr \<Rightarrow> LType \<Rightarrow> SVal \<Rightarrow> SVal \<Rightarrow> 's \<Rightarrow> (SVal \<times> 's) res" where
  "executeReadFS I file t buf bufTyp offset cnt s =
     rbind (load_at I NotAtomic (fileFlags I file) (acc_of I t) s) (\<lambda>(flags, s1).
       if OPEN_FMODE flags AND FMODE_READ = 0 then rbind (handleSystemError I SE_EBADF s1) (\<lambda>s2. Ok (- 1, s2))
       else rbind (load_at I Monotonic (fileInode I file) (ptr_acc I) s1) (\<lambda>(inode, s2).
         rbind (readInodeSizeFS I inode t s2) (\<lambda>(iSize, s3).
           if offset \<ge> iSize then Ok (0, s3)
           else let rest = iSize - offset; nr = (if sval_getSigned rest \<ge> sval_getSigned cnt then cnt else rest) in
             rbind (readDataFromDisk I inode (ucast offset) buf 0 (ucast nr) bufTyp s3) (\<lambda>s4.
               if journalData (eeFs I) \<noteq> JD_journal then Ok (nr, s4)
               else rbind (getInodeTransStatus I inode t s4) (\<lambda>(inTrans, s5).
                 if inTrans = 1 then block_in_transaction I s5 else Ok (nr, s5))))))"

section \<open>Writing\<close>

text \<open>Whether a write changes the size on the disk before the data: it reaches into the block the file ends in. The
  result is the new size.\<close>

definition shouldUpdateInodeDisksizeFS :: "32 word \<Rightarrow> SVal \<Rightarrow> SVal \<Rightarrow> SVal \<Rightarrow> SVal option res" where
  "shouldUpdateInodeDisksizeFS bs isz offset cnt =
     (if bs = 0 then Undef
      else let bi = isz mod ucast bs; rb = ucast bs - bi; be = isz + rb in
        Ok (if ((offset \<le> isz \<and> isz < offset + cnt) \<or> (offset < be \<and> be \<le> offset + cnt) \<or>
                (isz \<le> offset \<and> offset + cnt \<le> be)) \<and> bi > 0
            then Some (min be (offset + cnt)) else None))"

text \<open>The count that can be written, and the offset at which to write, which the code leaves alone when there is nothing
  to write.\<close>

definition executeWriteChecksFS :: "('f, 's, 'x) EE_scheme \<Rightarrow> SAddr \<Rightarrow> LType \<Rightarrow> SVal \<Rightarrow> SVal \<Rightarrow> SVal \<Rightarrow> 's \<Rightarrow> ((SVal \<times> SVal) \<times> 's) res" where
  "executeWriteChecksFS I inode t flags offset cnt s =
     (if sval_getSigned cnt \<le> 0 then Ok ((cnt, 0), s)
      else rbind (if flags AND O_APPEND \<noteq> 0 then readInodeSizeFS I inode t s else Ok (offset, s)) (\<lambda>(wOffset, s1).
        if sval_getSigned wOffset \<ge> uint (maxFileSize (eeFs I))
        then rbind (handleSystemError I SE_EFBIG s1) (\<lambda>s2. Ok ((- 1, wOffset), s2))
        else Ok ((of_int (min (sval_getSigned cnt) (uint (maxFileSize (eeFs I)) - sval_getSigned wOffset)), wOffset), s1)))"

text \<open>How many bytes the next round of the loop writes: at most a block, and not beyond the block it begins in unless it
  begins at the start of one.\<close>

definition chunk_bytes :: "32 word \<Rightarrow> 64 word \<Rightarrow> 64 word \<Rightarrow> 64 word" where
  "chunk_bytes bs off cnt =
     (let bytes = min (ucast bs) cnt; blockIndex = off mod ucast bs; blockRem = ucast bs - blockIndex
      in if blockIndex \<noteq> 0 \<and> bytes > blockRem then blockRem else bytes)"

definition grow_inode :: "('f, 's, 'x) EE_scheme \<Rightarrow> SAddr \<Rightarrow> LType \<Rightarrow> SVal \<Rightarrow> SVal \<Rightarrow> 's \<Rightarrow> (SVal \<times> 's) res" where
  "grow_inode I inode t newSize ob s =
     rbind (readInodeSizeFS I inode t s) (\<lambda>(cur, s1).
       if sval_getSigned newSize > sval_getSigned cur
       then rbind (updateInodeDisksizeFS I inode t newSize ob newSize s1) (\<lambda>s2.
            rbind (updateInodeSizeFS I inode t newSize s2) (\<lambda>s3. Ok (newSize, s3)))
       else Ok (ob, s1))"

definition write_chunk :: "('f, 's, 'x) EE_scheme \<Rightarrow> SAddr \<Rightarrow> LType \<Rightarrow> SAddr \<Rightarrow> LType \<Rightarrow> 32 word \<Rightarrow> 64 word \<Rightarrow> 64 word \<Rightarrow> SVal \<Rightarrow> 's \<Rightarrow> (SVal \<times> 's) res" where
  "write_chunk I inode t buf bufTyp bufOff off bytes ob s =
     rbind (if journalData (eeFs I) = JD_journal then setInodeTransStatus I inode t 1 s else Ok s) (\<lambda>s1.
     rbind (writeDataToDisk I buf bufOff inode (ucast off) (ucast bytes) bufTyp s1) (\<lambda>s2.
     rbind (grow_inode I inode t (off + bytes) ob s2) (\<lambda>(ob1, s3).
       if journalData (eeFs I) = JD_journal
       then rbind (setInodeTransStatus I inode t 0 s3) (\<lambda>s4. rbind (executeFsyncFS I inode s4) (\<lambda>s5. Ok (ob1, s5)))
       else Ok (ob1, s3))))"

lemma chunk_bytes_le: "chunk_bytes bs off cnt \<le> cnt"
  unfolding chunk_bytes_def Let_def by (auto simp: min_def split: if_splits)

lemma chunk_bytes_pos:
  assumes "bs \<noteq> 0" and "cnt \<noteq> 0"
  shows "0 < chunk_bytes bs off cnt"
proof -
  have b: "0 < (ucast bs :: 64 word)"
    using assms(1) by (simp add: word_less_nat_alt unat_zero_extend unat_gt_0)
  have "off mod ucast bs < ucast bs" using b by (rule word_mod_less_divisor)
  then have "0 < ucast bs - off mod ucast bs" by (simp add: word_gt_0)
  with b assms(2) show ?thesis by (auto simp: chunk_bytes_def Let_def min_def word_gt_0)
qed

lemma chunk_decreases:
  assumes "bs \<noteq> 0" and "cnt - chunk_bytes bs off cnt \<noteq> 0"
  shows "unat (cnt - chunk_bytes bs off cnt) < unat cnt"
proof -
  have "cnt \<noteq> 0" using assms(2) chunk_bytes_le [of bs off cnt] by auto
  then have "0 < chunk_bytes bs off cnt" using assms(1) by (rule chunk_bytes_pos [rotated])
  then show ?thesis
    using chunk_bytes_le [of bs off cnt] by (simp add: unat_sub word_le_nat_alt word_less_nat_alt)
qed

function buffered_loop :: "('f, 's, 'x) EE_scheme \<Rightarrow> SAddr \<Rightarrow> LType \<Rightarrow> SAddr \<Rightarrow> LType \<Rightarrow> 32 word \<Rightarrow> 64 word \<Rightarrow> 64 word \<Rightarrow> SVal \<Rightarrow> 's \<Rightarrow> 's res" where
  "buffered_loop I inode t buf bufTyp bufOff off cnt ob s =
     (if fsBlockSize (eeFs I) = 0 then Undef
      else let bytes = chunk_bytes (fsBlockSize (eeFs I)) off cnt in
        rbind (write_chunk I inode t buf bufTyp bufOff off bytes ob s) (\<lambda>(ob1, s1).
          if cnt - bytes = 0 then Ok s1
          else buffered_loop I inode t buf bufTyp (bufOff + ucast bytes) (off + bytes) (cnt - bytes) ob1 s1))"
  by pat_completeness auto

termination
  by (relation "measure (\<lambda>(I, inode, t, buf, bt, bo, off, cnt, ob, s). unat cnt)") (auto simp: chunk_decreases)

declare buffered_loop.simps [simp del]

definition extend_disksize :: "('f, 's, 'x) EE_scheme \<Rightarrow> SAddr \<Rightarrow> LType \<Rightarrow> LType \<Rightarrow> SVal \<Rightarrow> SVal \<Rightarrow> SVal \<Rightarrow> 's \<Rightarrow> 's res" where
  "extend_disksize I inode t bufTyp iSize wOffset cnt s =
     (if \<not> delalloc (eeFs I) then Ok s
      else rbind (shouldUpdateInodeDisksizeFS (fsBlockSize (eeFs I)) iSize wOffset cnt) (\<lambda>r. case r of
          None \<Rightarrow> Ok s
        | Some dSize \<Rightarrow> rbind (zeroDskRangeFS I inode iSize dSize bufTyp s)
            (updateInodeDisksizeFS I inode t dSize iSize dSize)))"

definition executeBufferedWriteFS :: "('f, 's, 'x) EE_scheme \<Rightarrow> SAddr \<Rightarrow> LType \<Rightarrow> SAddr \<Rightarrow> LType \<Rightarrow> SVal \<Rightarrow> SVal \<Rightarrow> 's \<Rightarrow> (SVal \<times> 's) res" where
  "executeBufferedWriteFS I inode t buf bufTyp wOffset cnt s =
     rbind (readInodeSizeFS I inode t s) (\<lambda>(iSize, s1).
     rbind (extend_disksize I inode t bufTyp iSize wOffset cnt s1) (\<lambda>s2.
     rbind (if sval_getSigned wOffset > sval_getSigned iSize then zeroDskRangeFS I inode iSize wOffset bufTyp s2 else Ok s2) (\<lambda>s3.
     rbind (buffered_loop I inode t buf bufTyp 0 wOffset cnt 0 s3) (\<lambda>s4. Ok (cnt, s4)))))"

definition executeWriteFS :: "('f, 's, 'x) EE_scheme \<Rightarrow> SAddr \<Rightarrow> LType \<Rightarrow> SAddr \<Rightarrow> LType \<Rightarrow> SVal \<Rightarrow> SVal \<Rightarrow> 's \<Rightarrow> (SVal \<times> 's) res" where
  "executeWriteFS I file t buf bufTyp offset cnt s =
     rbind (load_at I NotAtomic (fileFlags I file) (acc_of I t) s) (\<lambda>(flags, s1).
       if OPEN_FMODE flags AND FMODE_WRITE = 0 then rbind (handleSystemError I SE_EBADF s1) (\<lambda>s2. Ok (- 1, s2))
       else rbind (load_at I Monotonic (fileInode I file) (ptr_acc I) s1) (\<lambda>(inode, s2).
         rbind (lock_or_roll I (inodeLock I inode) t s2) (\<lambda>(ok, s3).
           if \<not> ok then Ok (42, s3)
           else rbind (executeWriteChecksFS I inode t flags offset cnt s3) (\<lambda>((wCount, wOffset), s4).
             rbind (if sval_getSigned wCount \<le> 0 then Ok (0, s4) else executeBufferedWriteFS I inode t buf bufTyp wOffset wCount s4) (\<lambda>(ret, s5).
             rbind (unlock_at I (inodeLock I inode) t s5) (\<lambda>s6.
               if sval_getSigned ret > 0 \<and> flags AND O_SYNC \<noteq> 0
               then rbind (executeFsyncFS I inode s6) (\<lambda>s7. Ok (ret, s7)) else Ok (ret, s6)))))))"

section \<open>Seeking\<close>

definition executeLseekFS :: "('f, 's, 'x) EE_scheme \<Rightarrow> SAddr \<Rightarrow> LType \<Rightarrow> SVal \<Rightarrow> SVal \<Rightarrow> 's \<Rightarrow> (SVal \<times> 's) res" where
  "executeLseekFS I file t offset whence s =
     rbind (load_at I Monotonic (fileInode I file) (ptr_acc I) s) (\<lambda>(inode, s1).
     rbind (readInodeSizeFS I inode t s1) (\<lambda>(isz, s2).
       if whence = 0 then rbind (store_at I NotAtomic (fileOffset I file) (acc_of I t) offset s2) (\<lambda>s3. Ok (offset, s3))
       else if whence = 2 then rbind (store_at I NotAtomic (fileOffset I file) (acc_of I t) (offset + isz) s2) (\<lambda>s3. Ok (offset + isz, s3))
       else if whence = 1
       then rbind (load_at I NotAtomic (fileOffset I file) (acc_of I t) s2) (\<lambda>(cur, s3).
         if offset = 0 then Ok (cur, s3)
         else rbind (store_at I NotAtomic (fileOffset I file) (acc_of I t) (cur + offset) s3) (\<lambda>s4. Ok (cur + offset, s4)))
       else rbind (handleSystemError I SE_EINVAL s2) (\<lambda>s3. Ok (- 1, s3))))"

end
