(* ===== verification/GenMC_SysCalls.thy ===== *)
theory GenMC_SysCalls
  imports GenMC_FSIO
begin

text \<open>
  The file-system calls of the checked program (\<open>src/src/Execution.cpp\<close>). A call gets the evaluated arguments and
  the integer types of the called function, and returns its value to the frame of the caller; a call that has to
  wait returns nothing.
\<close>

section \<open>Opening\<close>

definition static_arg :: "('f, 's, 'x) EE_scheme \<Rightarrow> GV list \<Rightarrow> nat \<Rightarrow> string res" where
  "static_arg I args k = rbind (vec_get args k) (\<lambda>g. eeStaticString I (gvPtr g))"

definition int_arg :: "GV list \<Rightarrow> nat \<Rightarrow> SVal res" where
  "int_arg args k = rbind (vec_get args k) (\<lambda>g. Ok (gvInt g))"

definition ptr_arg :: "GV list \<Rightarrow> nat \<Rightarrow> SAddr res" where
  "ptr_arg args k = rbind (vec_get args k) (\<lambda>g. Ok (gvPtr g))"

text \<open>Truncating a file that was opened with \<open>O_TRUNC\<close>; the result says whether the call has already returned.\<close>

definition open_truncate :: "('f, 's, 'x) EE_scheme \<Rightarrow> SVal \<Rightarrow> SVal \<Rightarrow> LType \<Rightarrow> 's \<Rightarrow> (bool \<times> 's) res" where
  "open_truncate I flags inode t s =
     (if flags AND O_TRUNC = 0 then Ok (False, s)
      else if OPEN_FMODE flags AND FMODE_WRITE = 0
      then rbind (cur_pos I s) (\<lambda>p. rbind (dvError I p VS_InvalidTruncate s) (\<lambda>s1. rbind (return_int I t (- 1) s1) (\<lambda>s2. Ok (True, s2))))
      else rbind (executeTruncateFS I inode 0 t s) (\<lambda>(ret, s1).
        if ret = 42 then Ok (True, s1)
        else if ret = - 1 then rbind (return_int I t (- 1) s1) (\<lambda>s2. Ok (True, s2)) else Ok (False, s1)))"

definition callOpenFS :: "('f, 's, 'x) EE_scheme \<Rightarrow> LType \<Rightarrow> GV list \<Rightarrow> 's \<Rightarrow> 's res" where
  "callOpenFS I t args s = rbind (static_arg I args 0) (\<lambda>filename. rbind (int_arg args 1) (\<lambda>flags0.
     rbind (take_snapshot I s) (\<lambda>s0. rbind (checkOpenFlagsFS I flags0 s0) (\<lambda>(r, s1).
       if r = - 1 then return_sval I t r s1
       else rbind (executeLookupOpenFS I filename flags0 t s1) (\<lambda>((inode, flags), s2). rbind (is_blocked I s2) (\<lambda>b.
         if b then Ok s2
         else if inode = 0 then rbind (handleSystemError I SE_ENOENT s2) (return_int I t (- 1))
         else rbind (executeOpenFS I filename flags inode t s2) (\<lambda>(fd, s3).
           rbind (open_truncate I flags inode t s3) (\<lambda>(ret, s4). if ret then Ok s4 else return_sval I t fd s4))))))))"

definition callCreatFS :: "('f, 's, 'x) EE_scheme \<Rightarrow> LType \<Rightarrow> GV list \<Rightarrow> 's \<Rightarrow> 's res" where
  "callCreatFS I t args s = rbind (INT_TO_GV t (O_CREAT OR O_WRONLY OR O_TRUNC)) (\<lambda>flags.
     rbind (vec_get args 0) (\<lambda>a0. rbind (vec_get args 1) (\<lambda>a1. callOpenFS I t [a0, flags, a1] s)))"

section \<open>Closing\<close>

definition executeReleaseFileFS :: "('f, 's, 'x) EE_scheme \<Rightarrow> SAddr \<Rightarrow> 's \<Rightarrow> 's res" where
  "executeReleaseFileFS I fileDesc s = rbind (next_pos I s) (\<lambda>p. dvFree I (FreeLabel EL_Free p fileDesc 0) s)"

definition executeCloseFS :: "('f, 's, 'x) EE_scheme \<Rightarrow> SVal \<Rightarrow> LType \<Rightarrow> 's \<Rightarrow> (SVal \<times> 's) res" where
  "executeCloseFS I fd t s =
     (let fileDesc = getFileFromFd I (ucast fd) s in
      if fileDesc = 0 then rbind (handleSystemError I SE_EBADF s) (\<lambda>s1. Ok (- 1, s1))
      else rbind (do_load I (\<lambda>p. FaiReadLabel EL_FaiRead AcquireRelease p (fileCount I fileDesc) (acc_of I t) Sub 1 WA_None getBottom) s) (\<lambda>(ret, s1).
        rbind (executeAtomicRMWOperation ret 1 (eeTypeSize I t) Sub) (\<lambda>newVal.
        rbind (do_store I (\<lambda>p. FaiWriteLabel AcquireRelease p (fileCount I fileDesc) (acc_of I t) newVal WA_None) s1) (\<lambda>s2.
        rbind (if newVal = 0 then executeReleaseFileFS I fileDesc s2 else Ok s2) (\<lambda>s3. Ok (0, s3))))))"

definition callCloseFS :: "('f, 's, 'x) EE_scheme \<Rightarrow> LType \<Rightarrow> GV list \<Rightarrow> 's \<Rightarrow> 's res" where
  "callCloseFS I t args s = rbind (int_arg args 0) (\<lambda>fd. rbind (take_snapshot I s) (\<lambda>s1.
     rbind (executeCloseFS I fd t s1) (\<lambda>(r, s2). return_sval I t r s2)))"

section \<open>The directory\<close>

text \<open>A call on the directory runs under the lock of the directory. The body gives the value to return, or
  \<open>None\<close> when the thread has blocked.\<close>

definition with_dir_lock :: "('f, 's, 'x) EE_scheme \<Rightarrow> LType \<Rightarrow> ('s \<Rightarrow> (SVal option \<times> 's) res) \<Rightarrow> 's \<Rightarrow> 's res" where
  "with_dir_lock I t body s = rbind (take_snapshot I s) (\<lambda>s0.
     rbind (lock_or_roll I (inodeLock I (dirInode (eeFs I))) t s0) (\<lambda>(ok, s1).
       if \<not> ok then Ok s1
       else rbind (body s1) (\<lambda>(r, s2). case r of None \<Rightarrow> Ok s2
         | Some v \<Rightarrow> rbind (unlock_at I (inodeLock I (dirInode (eeFs I))) t s2) (return_sval I t v))))"

text \<open>Looking a name up; the continuation runs unless the thread has blocked.\<close>

definition lookup_then :: "('f, 's, 'x) EE_scheme \<Rightarrow> string \<Rightarrow> LType \<Rightarrow> (SVal \<Rightarrow> 's \<Rightarrow> (SVal option \<times> 's) res) \<Rightarrow> 's \<Rightarrow> (SVal option \<times> 's) res" where
  "lookup_then I name t k s = rbind (executeInodeLookupFS I name t s) (\<lambda>(inode, s1).
     rbind (is_blocked I s1) (\<lambda>b. if b then Ok (None, s1) else k inode s1))"

definition executeLinkFS :: "('f, 's, 'x) EE_scheme \<Rightarrow> string \<Rightarrow> SVal \<Rightarrow> 's \<Rightarrow> (SVal \<times> 's) res" where
  "executeLinkFS I newpath oldInode s = rbind (updateDirNameInode I newpath oldInode s) (\<lambda>s1. Ok (0, s1))"

definition fail_with :: "('f, 's, 'x) EE_scheme \<Rightarrow> SystemError \<Rightarrow> 's \<Rightarrow> (SVal option \<times> 's) res" where
  "fail_with I e s = rbind (handleSystemError I e s) (\<lambda>s1. Ok (Some (- 1), s1))"

text \<open>The second look-up of \<open>link\<close> is used without asking whether the thread has blocked in it.\<close>

definition callLinkFS :: "('f, 's, 'x) EE_scheme \<Rightarrow> LType \<Rightarrow> GV list \<Rightarrow> 's \<Rightarrow> 's res" where
  "callLinkFS I t args s = rbind (static_arg I args 0) (\<lambda>oldpath. rbind (static_arg I args 1) (\<lambda>newpath.
     with_dir_lock I t (lookup_then I oldpath t (\<lambda>source s1.
       if source = 0 then fail_with I SE_ENOENT s1
       else rbind (executeInodeLookupFS I newpath t s1) (\<lambda>(target, s2).
         if target \<noteq> 0 then fail_with I SE_EEXIST s2
         else rbind (executeLinkFS I newpath source s2) (\<lambda>(r, s3). Ok (Some r, s3))))) s))"

definition executeUnlinkFS :: "('f, 's, 'x) EE_scheme \<Rightarrow> string \<Rightarrow> 's \<Rightarrow> (SVal \<times> 's) res" where
  "executeUnlinkFS I pathname s = rbind (updateDirNameInode I pathname 0 s) (\<lambda>s1. Ok (0, s1))"

definition callUnlinkFS :: "('f, 's, 'x) EE_scheme \<Rightarrow> LType \<Rightarrow> GV list \<Rightarrow> 's \<Rightarrow> 's res" where
  "callUnlinkFS I t args s = rbind (static_arg I args 0) (\<lambda>pathname.
     with_dir_lock I t (lookup_then I pathname t (\<lambda>inode s1.
       if inode = 0 then fail_with I SE_ENOENT s1
       else rbind (executeUnlinkFS I pathname s1) (\<lambda>(r, s2). Ok (Some r, s2)))) s)"

text \<open>The directory is in a transaction between the two changes.\<close>

definition executeRenameFS :: "('f, 's, 'x) EE_scheme \<Rightarrow> string \<Rightarrow> SVal \<Rightarrow> string \<Rightarrow> SVal \<Rightarrow> LType \<Rightarrow> 's \<Rightarrow> (SVal \<times> 's) res" where
  "executeRenameFS I oldpath oldInode newpath newInode t s =
     (if oldInode = newInode then Ok (0, s)
      else rbind (setInodeTransStatus I (dirInode (eeFs I)) t 1 s) (\<lambda>s1.
        rbind (executeLinkFS I newpath oldInode s1) (\<lambda>(r, s2). rbind (BUG_ON (sval_getSigned r = - 1)) (\<lambda>_.
        rbind (executeUnlinkFS I oldpath s2) (\<lambda>(r1, s3).
        rbind (setInodeTransStatus I (dirInode (eeFs I)) t 0 s3) (\<lambda>s4. Ok (r1, s4)))))))"

definition callRenameFS :: "('f, 's, 'x) EE_scheme \<Rightarrow> LType \<Rightarrow> GV list \<Rightarrow> 's \<Rightarrow> 's res" where
  "callRenameFS I t args s = rbind (static_arg I args 0) (\<lambda>oldpath. rbind (static_arg I args 1) (\<lambda>newpath.
     with_dir_lock I t (lookup_then I oldpath t (\<lambda>source s1.
       if source = 0 then fail_with I SE_ENOENT s1
       else lookup_then I newpath t (\<lambda>target s2.
         rbind (executeRenameFS I oldpath source newpath target t s2) (\<lambda>(r, s3). Ok (Some r, s3))) s1)) s))"

text \<open>\<open>truncate\<close> gives the lock of the directory back before it takes the lock of the inode.\<close>

definition callTruncateFS :: "('f, 's, 'x) EE_scheme \<Rightarrow> LType \<Rightarrow> GV list \<Rightarrow> 's \<Rightarrow> 's res" where
  "callTruncateFS I t args s = rbind (static_arg I args 0) (\<lambda>filename. rbind (int_arg args 1) (\<lambda>len.
     let dirLock = inodeLock I (dirInode (eeFs I)) in
     rbind (take_snapshot I s) (\<lambda>s0. rbind (lock_or_roll I dirLock t s0) (\<lambda>(ok, s1).
       if \<not> ok then Ok s1
       else rbind (executeInodeLookupFS I filename t s1) (\<lambda>(inode, s2). rbind (is_blocked I s2) (\<lambda>b.
         if b then Ok s2
         else rbind (unlock_at I dirLock t s2) (\<lambda>s3.
           if inode = 0 then rbind (handleSystemError I SE_ENOENT s3) (return_int I t (- 1))
           else rbind (executeTruncateFS I inode len t s3) (\<lambda>(ret, s4).
             if ret = 42 then Ok s4 else return_sval I t ret s4))))))))"

section \<open>Files\<close>

text \<open>The description of an open file; without one the call fails.\<close>

definition with_file :: "('f, 's, 'x) EE_scheme \<Rightarrow> SVal \<Rightarrow> LType \<Rightarrow> (SAddr \<Rightarrow> 's \<Rightarrow> 's res) \<Rightarrow> 's \<Rightarrow> 's res" where
  "with_file I fd t k s =
     (let file = getFileFromFd I (ucast fd) s in
      if file = 0 then rbind (handleSystemError I SE_EBADF s) (return_int I t (- 1)) else k file s)"

definition advance_offset :: "('f, 's, 'x) EE_scheme \<Rightarrow> SAddr \<Rightarrow> LType \<Rightarrow> SVal \<Rightarrow> SVal \<Rightarrow> 's \<Rightarrow> 's res" where
  "advance_offset I file t offset n s =
     (if sval_getSigned n \<ge> 0 then store_at I NotAtomic (fileOffset I file) (acc_of I t) (offset + n) s else Ok s)"

definition callReadFS :: "('f, 's, 'x) EE_scheme \<Rightarrow> LType \<Rightarrow> LType \<Rightarrow> GV list \<Rightarrow> 's \<Rightarrow> 's res" where
  "callReadFS I t ret args s = rbind (int_arg args 0) (\<lambda>fd. rbind (ptr_arg args 1) (\<lambda>buf. rbind (int_arg args 2) (\<lambda>cnt.
     rbind (take_snapshot I s) (with_file I fd t (\<lambda>file s1.
       rbind (lock_or_roll I (filePosLock I file) t s1) (\<lambda>(ok, s2).
         if \<not> ok then Ok s2
         else rbind (load_at I NotAtomic (fileOffset I file) (acc_of I t) s2) (\<lambda>(offset, s3).
           rbind (executeReadFS I file t buf (IntTy 8) offset cnt s3) (\<lambda>(nr, s4). rbind (is_blocked I s4) (\<lambda>b.
             if b then Ok s4
             else rbind (advance_offset I file t offset nr s4) (\<lambda>s5.
               rbind (unlock_at I (filePosLock I file) t s5) (return_sval I ret nr)))))))))))"

text \<open>The code takes a result of 42 for a lock that was not available.\<close>

definition callWriteFS :: "('f, 's, 'x) EE_scheme \<Rightarrow> LType \<Rightarrow> LType \<Rightarrow> GV list \<Rightarrow> 's \<Rightarrow> 's res" where
  "callWriteFS I t ret args s = rbind (int_arg args 0) (\<lambda>fd. rbind (ptr_arg args 1) (\<lambda>buf. rbind (int_arg args 2) (\<lambda>cnt.
     rbind (take_snapshot I s) (with_file I fd ret (\<lambda>file s1.
       rbind (lock_or_roll I (filePosLock I file) t s1) (\<lambda>(ok, s2).
         if \<not> ok then Ok s2
         else rbind (load_at I NotAtomic (fileOffset I file) (acc_of I t) s2) (\<lambda>(offset, s3).
           rbind (executeWriteFS I file t buf (IntTy 8) offset cnt s3) (\<lambda>(nw, s4).
             if sval_getSigned nw = 42 then Ok s4
             else rbind (advance_offset I file t offset nw s4) (\<lambda>s5.
               rbind (unlock_at I (filePosLock I file) t s5) (return_sval I ret nw))))))))))"

definition callFsyncFS :: "('f, 's, 'x) EE_scheme \<Rightarrow> LType \<Rightarrow> GV list \<Rightarrow> 's \<Rightarrow> 's res" where
  "callFsyncFS I ret args s = rbind (int_arg args 0) (\<lambda>fd. rbind (take_snapshot I s) (with_file I fd ret (\<lambda>file s1.
     rbind (load_at I Monotonic (fileInode I file) (ptr_acc I) s1) (\<lambda>(inode, s2).
       rbind (executeFsyncFS I inode s2) (return_int I ret 0)))))"

definition callSyncFS :: "('f, 's, 'x) EE_scheme \<Rightarrow> 's \<Rightarrow> 's res" where
  "callSyncFS I s = rbind (next_pos I s) (\<lambda>p. dvDskSync I (DskSyncLabel p) s)"

definition callPreadFS :: "('f, 's, 'x) EE_scheme \<Rightarrow> LType \<Rightarrow> LType \<Rightarrow> GV list \<Rightarrow> 's \<Rightarrow> 's res" where
  "callPreadFS I t ret args s = rbind (int_arg args 0) (\<lambda>fd. rbind (ptr_arg args 1) (\<lambda>buf. rbind (int_arg args 2) (\<lambda>cnt.
     rbind (int_arg args 3) (\<lambda>offset. rbind (take_snapshot I s) (\<lambda>s0.
       if sval_getSigned offset < 0 then rbind (handleSystemError I SE_EINVAL s0) (return_int I ret (- 1))
       else with_file I fd ret (\<lambda>file s1.
         rbind (executeReadFS I file t buf (IntTy 8) offset cnt s1) (\<lambda>(nr, s2). rbind (is_blocked I s2) (\<lambda>b.
           if b then Ok s2 else return_sval I ret nr s2))) s0)))))"

text \<open>\<open>pwrite\<close> returns to the caller even when the lock of the inode was not available.\<close>

definition callPwriteFS :: "('f, 's, 'x) EE_scheme \<Rightarrow> LType \<Rightarrow> LType \<Rightarrow> GV list \<Rightarrow> 's \<Rightarrow> 's res" where
  "callPwriteFS I t ret args s = rbind (int_arg args 0) (\<lambda>fd. rbind (ptr_arg args 1) (\<lambda>buf. rbind (int_arg args 2) (\<lambda>cnt.
     rbind (int_arg args 3) (\<lambda>offset. rbind (take_snapshot I s) (\<lambda>s0.
       if sval_getSigned offset < 0 then rbind (handleSystemError I SE_EINVAL s0) (return_int I ret (- 1))
       else with_file I fd ret (\<lambda>file s1.
         rbind (executeWriteFS I file t buf (IntTy 8) offset cnt s1) (\<lambda>(nw, s2). return_sval I ret nw s2)) s0)))))"

definition callLseekFS :: "('f, 's, 'x) EE_scheme \<Rightarrow> LType \<Rightarrow> LType \<Rightarrow> GV list \<Rightarrow> 's \<Rightarrow> 's res" where
  "callLseekFS I t ret args s = rbind (int_arg args 0) (\<lambda>fd. rbind (int_arg args 1) (\<lambda>offset. rbind (int_arg args 2) (\<lambda>whence.
     rbind (take_snapshot I s) (with_file I fd ret (\<lambda>file s1.
       rbind (lock_or_roll I (filePosLock I file) t s1) (\<lambda>(ok, s2).
         if \<not> ok then Ok s2
         else rbind (executeLseekFS I file t offset whence s2) (\<lambda>(newOffset, s3).
           rbind (unlock_at I (filePosLock I file) t s3) (return_sval I ret newOffset))))))))"

definition callPersBarrierFS :: "('f, 's, 'x) EE_scheme \<Rightarrow> 's \<Rightarrow> 's res" where
  "callPersBarrierFS I s = rbind (next_pos I s) (\<lambda>p. dvDskPbarrier I (DskPbarrierLabel p) s)"

end
