(* ===== verification/GenMC_LibCalls.thy ===== *)
theory GenMC_LibCalls
  imports GenMC_SysCalls
begin

text \<open>
  The library of the checked program (\<open>src/src/Execution.cpp\<close>, \<open>src/src/InterpreterEnumAPI.hpp\<close>): assertions and
  assumptions, spin loops, memory, threads, mutexes, barriers, hazard pointers, fences and RCU of the Linux kernel;
  and the dispatch of a call to an internal function by its name.
\<close>

section \<open>Assertions, loops and choices\<close>

definition visit_label :: "('f, 's, 'x) EE_scheme \<Rightarrow> (EventLabel \<Rightarrow> 's \<Rightarrow> 's res) \<Rightarrow> (Event \<Rightarrow> EventLabel) \<Rightarrow> 's \<Rightarrow> 's res" where
  "visit_label I h mk s = rbind (next_pos I s) (\<lambda>p. h (mk p) s)"

definition error_here :: "('f, 's, 'x) EE_scheme \<Rightarrow> Status \<Rightarrow> 's \<Rightarrow> 's res" where
  "error_here I st s = rbind (cur_pos I s) (\<lambda>p. dvError I p st s)"

definition bool_arg :: "GV list \<Rightarrow> nat \<Rightarrow> bool res" where
  "bool_arg args k = rbind (vec_get args k) (\<lambda>g. Ok (gv_bool g))"

definition callAssertFail :: "('f, 's, 'x) EE_scheme \<Rightarrow> 's \<Rightarrow> 's res" where
  "callAssertFail I s = error_here I (if dvProgState I s = PS_Recovery then VS_Recovery else VS_Safety) s"

definition callOptBegin :: "('f, 's, 'x) EE_scheme \<Rightarrow> LType \<Rightarrow> 's \<Rightarrow> 's res" where
  "callOptBegin I t s = rbind (next_pos I s) (\<lambda>p. rbind (dvOptional I (OptionalLabel p) s) (\<lambda>(b, s1).
     return_int I t (if b then 1 else 0) s1))"

definition callLoopBegin :: "('f, 's, 'x) EE_scheme \<Rightarrow> 's \<Rightarrow> 's res" where
  "callLoopBegin I = visit_label I (dvLoopBegin I) LoopBeginLabel"

definition callSpinStart :: "('f, 's, 'x) EE_scheme \<Rightarrow> 's \<Rightarrow> 's res" where
  "callSpinStart I = visit_label I (dvSpinStart I) SpinStartLabel"

definition callSpinEnd :: "('f, 's, 'x) EE_scheme \<Rightarrow> GV list \<Rightarrow> 's \<Rightarrow> 's res" where
  "callSpinEnd I args s = rbind (bool_arg args 0) (\<lambda>b.
     if \<not> b then visit_label I (dvBlock I) (\<lambda>p. BlockLabel p Spinloop) s else Ok s)"

definition callFaiZNESpinEnd :: "('f, 's, 'x) EE_scheme \<Rightarrow> 's \<Rightarrow> 's res" where
  "callFaiZNESpinEnd I = visit_label I (dvFaiZNESpinEnd I) FaiZNESpinEndLabel"

definition callLockZNESpinEnd :: "('f, 's, 'x) EE_scheme \<Rightarrow> 's \<Rightarrow> 's res" where
  "callLockZNESpinEnd I = visit_label I (dvLockZNESpinEnd I) LockZNESpinEndLabel"

definition callKillThread :: "('f, 's, 'x) EE_scheme \<Rightarrow> GV list \<Rightarrow> 's \<Rightarrow> 's res" where
  "callKillThread I args s = rbind (bool_arg args 0) (\<lambda>b.
     if b then dvSetThread I (\<lambda>t. t\<lparr>ecStack := []\<rparr>) s else Ok s)"

definition callAssume :: "('f, 's, 'x) EE_scheme \<Rightarrow> GV list \<Rightarrow> 's \<Rightarrow> 's res" where
  "callAssume I args s = rbind (bool_arg args 0) (\<lambda>b.
     if \<not> b then visit_label I (dvBlock I) (\<lambda>p. BlockLabel p BT_User) s else Ok s)"

section \<open>Memory\<close>

text \<open>The label keeps the size, and the driver the alignment, in 32 bits.\<close>

definition malloc_return :: "('f, 's, 'x) EE_scheme \<Rightarrow> LType \<Rightarrow> 64 word \<Rightarrow> int \<Rightarrow> AddressSpace \<Rightarrow> 's \<Rightarrow> 's res" where
  "malloc_return I t sz al sp s = rbind (next_pos I s) (\<lambda>p.
     rbind (dvMalloc I (MallocLabel p 0 (ucast sz)) al ST_Heap sp s) (\<lambda>(a, s1). return_sval I t a s1))"

definition callMalloc :: "('f, 's, 'x) EE_scheme \<Rightarrow> LType \<Rightarrow> GV list \<Rightarrow> 's \<Rightarrow> 's res" where
  "callMalloc I t args s = rbind (vec_get args 0) (\<lambda>g.
     if \<not> gv_strictlyPositive g then error_here I VS_Allocation s
     else malloc_return I t (gvInt g) max_align AS_User s)"

definition callMallocAligned :: "('f, 's, 'x) EE_scheme \<Rightarrow> LType \<Rightarrow> GV list \<Rightarrow> 's \<Rightarrow> 's res" where
  "callMallocAligned I t args s = rbind (vec_get args 0) (\<lambda>ga. rbind (vec_get args 1) (\<lambda>gs.
     let al = gvInt ga; sz = gvInt gs in
       if \<not> gv_strictlyPositive ga \<or> al AND (al - 1) \<noteq> 0 then error_here I VS_Allocation s
       else if \<not> gv_strictlyPositive gs \<or> sz mod al \<noteq> 0 then error_here I VS_Allocation s
       else malloc_return I t sz (sint (ucast al :: 32 word)) AS_User s))"

definition callFree :: "('f, 's, 'x) EE_scheme \<Rightarrow> GV list \<Rightarrow> 's \<Rightarrow> 's res" where
  "callFree I args s = rbind (ptr_arg args 0) (\<lambda>a. visit_label I (dvFree I) (\<lambda>p. FreeLabel EL_Free p a 0) s)"

section \<open>Threads\<close>

definition callThreadSelf :: "('f, 's, 'x) EE_scheme \<Rightarrow> LType \<Rightarrow> 's \<Rightarrow> 's res" where
  "callThreadSelf I t s = rbind (dvThreadSelf I s) (\<lambda>v. return_sval I t v s)"

definition callThreadCreate :: "('f, 's, 'x) EE_scheme \<Rightarrow> LType \<Rightarrow> GV list \<Rightarrow> 's \<Rightarrow> 's res" where
  "callThreadCreate I t args s = rbind (ptr_arg args 1) (\<lambda>F. rbind (ptr_arg args 2) (\<lambda>arg.
     rbind (next_pos I s) (\<lambda>p.
     rbind (dvThreadCreate I (ThreadCreateLabel p (- 1)) (unat F) arg (eeEntry I (unat F) arg) s) (\<lambda>(tid, s1).
       return_int I t (of_int tid) s1))))"

definition callThreadJoin :: "('f, 's, 'x) EE_scheme \<Rightarrow> LType \<Rightarrow> GV list \<Rightarrow> 's \<Rightarrow> 's res" where
  "callThreadJoin I t args s = rbind (int_arg args 0) (\<lambda>cid. rbind (next_pos I s) (\<lambda>p.
     rbind (dvThreadJoin I (ThreadJoinLabel p (ucast cid)) s) (\<lambda>(v, s1). return_sval I t v s1)))"

text \<open>All frames but the first are dropped, then the first returns. Freeing its variables does not touch the stack.\<close>

definition drop_frame :: "('f, 's, 'x) EE_scheme \<Rightarrow> 's \<Rightarrow> 's res" where
  "drop_frame I s = rbind (dvThread I s) (\<lambda>t. if ecStack t = [] then Undef
     else rbind (freeAllocas I (eeAllocas I (last (ecStack t))) s) (dvSetThread I pop_frame))"

definition callThreadExit :: "('f, 's, 'x) EE_scheme \<Rightarrow> GV list \<Rightarrow> 's \<Rightarrow> 's res" where
  "callThreadExit I args s = rbind (vec_get args 0) (\<lambda>v. rbind (dvThread I s) (\<lambda>t.
     rbind (rfold (\<lambda>_. drop_frame I) [1..<length (ecStack t)] s) (popStackAndReturnValueToCaller I v)))"

definition callAtExit :: "('f, 's, 'x) EE_scheme \<Rightarrow> LType \<Rightarrow> GV list \<Rightarrow> 's \<Rightarrow> 's res" where
  "callAtExit I t args s = rbind (ptr_arg args 0) (\<lambda>F. return_int I t 0 (dvAtExit I (unat F) s))"

section \<open>Mutexes and barriers\<close>

definition store_return :: "('f, 's, 'x) EE_scheme \<Rightarrow> LType \<Rightarrow> (Event \<Rightarrow> EventLabel) \<Rightarrow> 's \<Rightarrow> 's res" where
  "store_return I t mk s = rbind (do_store I mk s) (return_int I t 0)"

definition callMutexInit :: "('f, 's, 'x) EE_scheme \<Rightarrow> LType \<Rightarrow> GV list \<Rightarrow> 's \<Rightarrow> 's res" where
  "callMutexInit I t args s = rbind (ptr_arg args 0) (\<lambda>lock. rbind (ptr_arg args 1) (\<lambda>_.
     store_return I t (\<lambda>p. WriteLabel EL_Write NotAtomic p lock (acc_of I t) 0 WA_None) s))"

definition callMutexLock :: "('f, 's, 'x) EE_scheme \<Rightarrow> LType \<Rightarrow> GV list \<Rightarrow> 's \<Rightarrow> 's res" where
  "callMutexLock I t args s = rbind (ptr_arg args 0) (\<lambda>lock.
     rbind (do_lock I lock (eeTypeSize I t) s) (return_int I t 0))"

definition callMutexUnlock :: "('f, 's, 'x) EE_scheme \<Rightarrow> LType \<Rightarrow> GV list \<Rightarrow> 's \<Rightarrow> 's res" where
  "callMutexUnlock I t args s = rbind (ptr_arg args 0) (\<lambda>lock.
     rbind (do_unlock I lock (eeTypeSize I t) s) (return_int I t 0))"

definition callMutexTrylock :: "('f, 's, 'x) EE_scheme \<Rightarrow> LType \<Rightarrow> GV list \<Rightarrow> 's \<Rightarrow> 's res" where
  "callMutexTrylock I t args s = rbind (ptr_arg args 0) (\<lambda>lock.
     rbind (do_load I (\<lambda>p. TrylockCasReadLabel p lock (eeTypeSize I t) getBottom) s) (\<lambda>(ret, s1).
     rbind (if ret = 0 then do_store I (\<lambda>p. TrylockCasWriteLabel p lock (eeTypeSize I t)) s1 else Ok s1) (\<lambda>s2.
       return_int I t (if ret = 0 then 0 else 1) s2)))"

definition callMutexDestroy :: "('f, 's, 'x) EE_scheme \<Rightarrow> LType \<Rightarrow> GV list \<Rightarrow> 's \<Rightarrow> 's res" where
  "callMutexDestroy I t args s = rbind (ptr_arg args 0) (\<lambda>lock.
     store_return I t (\<lambda>p. WriteLabel EL_Write NotAtomic p lock (acc_of I t) (- 1) WA_None) s)"

definition callBarrierInit :: "('f, 's, 'x) EE_scheme \<Rightarrow> LType \<Rightarrow> GV list \<Rightarrow> 's \<Rightarrow> 's res" where
  "callBarrierInit I t args s = rbind (ptr_arg args 0) (\<lambda>barrier. rbind (ptr_arg args 1) (\<lambda>_. rbind (vec_get args 2) (\<lambda>g.
     store_return I t (\<lambda>p. BInitWriteLabel NotAtomic p barrier (acc_of I t) (GV_TO_SVAL g t)) s)))"

text \<open>The last thread to arrive is told so by the return value \<open>-1\<close>.\<close>

definition callBarrierWait :: "('f, 's, 'x) EE_scheme \<Rightarrow> LType \<Rightarrow> GV list \<Rightarrow> 's \<Rightarrow> 's res" where
  "callBarrierWait I t args s = rbind (ptr_arg args 0) (\<lambda>barrier.
     rbind (do_load I (\<lambda>p. BIncFaiReadLabel AcquireRelease p barrier (acc_of I t) Sub 1 WA_None getBottom) s) (\<lambda>(oldVal, s1).
     rbind (is_blocked I s1) (\<lambda>b. if sval_getSigned oldVal \<le> 0 \<or> b then Ok s1
       else rbind (executeAtomicRMWOperation oldVal 1 (eeTypeSize I t) Sub) (\<lambda>newVal.
         rbind (do_store I (\<lambda>p. BIncFaiWriteLabel AcquireRelease p barrier (acc_of I t) newVal WA_None) s1) (\<lambda>s2.
         rbind (do_load I (\<lambda>p. BWaitReadLabel Acquire p barrier (acc_of I t) getBottom) s2) (\<lambda>(_, s3).
           return_int I t (if newVal \<noteq> 0 then 0 else - 1) s3))))))"

definition callBarrierDestroy :: "('f, 's, 'x) EE_scheme \<Rightarrow> LType \<Rightarrow> GV list \<Rightarrow> 's \<Rightarrow> 's res" where
  "callBarrierDestroy I t args s = rbind (ptr_arg args 0) (\<lambda>barrier.
     store_return I t (\<lambda>p. BDestroyWriteLabel NotAtomic p barrier (acc_of I t) 0) s)"

section \<open>Hazard pointers\<close>

definition callHazptrAlloc :: "('f, 's, 'x) EE_scheme \<Rightarrow> LType \<Rightarrow> 's \<Rightarrow> 's res" where
  "callHazptrAlloc I t s = malloc_return I t (ucast (eeTypeSize I t)) max_align AS_Internal s"

definition callHazptrProtect :: "('f, 's, 'x) EE_scheme \<Rightarrow> GV list \<Rightarrow> 's \<Rightarrow> 's res" where
  "callHazptrProtect I args s = rbind (ptr_arg args 0) (\<lambda>hp. rbind (ptr_arg args 1) (\<lambda>a.
     visit_label I (dvHpProtect I) (\<lambda>p. HpProtectLabel p hp a) s))"

definition callHazptrClear :: "('f, 's, 'x) EE_scheme \<Rightarrow> GV list \<Rightarrow> 's \<Rightarrow> 's res" where
  "callHazptrClear I args s = rbind (ptr_arg args 0) (\<lambda>hp. store_at I Release hp (ptr_acc I) 0 s)"

definition callHazptrFree :: "('f, 's, 'x) EE_scheme \<Rightarrow> GV list \<Rightarrow> 's \<Rightarrow> 's res" where
  "callHazptrFree = callFree"

definition callHazptrRetire :: "('f, 's, 'x) EE_scheme \<Rightarrow> GV list \<Rightarrow> 's \<Rightarrow> 's res" where
  "callHazptrRetire I args s = rbind (ptr_arg args 0) (\<lambda>a. visit_label I (dvFree I) (\<lambda>p. HpRetireLabel p a 0) s)"

section \<open>The Linux kernel\<close>

definition smpFenceTypes :: "string \<Rightarrow> SmpFenceType option" where
  "smpFenceTypes = map_of [(''mb'', MB), (''rmb'', RMB), (''wmb'', WMB), (''ba'', MBBA), (''aa'', MBAA), (''as'', MBAS), (''aul'', MBAUL)]"

definition callSmpFenceLKMM :: "('f, 's, 'x) EE_scheme \<Rightarrow> GV list \<Rightarrow> 's \<Rightarrow> 's res" where
  "callSmpFenceLKMM I args s = rbind (static_arg I args 0) (\<lambda>nm. case smpFenceTypes nm of None \<Rightarrow> Undef
     | Some ft \<Rightarrow> visit_label I (dvFence I) (SmpFenceLabelLKMM ft) s)"

definition callRCUReadLockLKMM :: "('f, 's, 'x) EE_scheme \<Rightarrow> 's \<Rightarrow> 's res" where
  "callRCUReadLockLKMM I = visit_label I (dvRCULock I) RCULockLabelLKMM"

definition callRCUReadUnlockLKMM :: "('f, 's, 'x) EE_scheme \<Rightarrow> 's \<Rightarrow> 's res" where
  "callRCUReadUnlockLKMM I = visit_label I (dvRCUUnlock I) RCUUnlockLabelLKMM"

definition callSynchronizeRCULKMM :: "('f, 's, 'x) EE_scheme \<Rightarrow> 's \<Rightarrow> 's res" where
  "callSynchronizeRCULKMM I = visit_label I (dvRCUSync I) RCUSyncLabelLKMM"

section \<open>Dispatch\<close>

datatype InternalFunctions = IF_AssertFail | IF_OptBegin | IF_LoopBegin | IF_SpinStart | IF_SpinEnd | IF_FaiZNESpinEnd
  | IF_LockZNESpinEnd | IF_Assume | IF_KillThread | IF_NondetInt | IF_ThreadSelf | IF_AnnotateBegin | IF_AnnotateEnd
  | IF_HazptrProtect | IF_HazptrClear | IF_NoSideEffectsLast | IF_ThreadCreate | IF_ThreadJoin | IF_ThreadExit | IF_AtExit
  | IF_Malloc | IF_MallocAligned | IF_HazptrAlloc | IF_MallocLast | IF_Free | IF_HazptrFree | IF_HazptrRetire | IF_MutexInit
  | IF_MutexLock | IF_MutexUnlock | IF_MutexTrylock | IF_MutexDestroy | IF_BarrierInit | IF_BarrierWait | IF_BarrierDestroy
  | IF_OpenFS | IF_CreatFS | IF_RenameFS | IF_LinkFS | IF_UnlinkFS | IF_TruncateFS | IF_LastInodeFS | IF_WriteFS | IF_PwriteFS
  | IF_PersBarrierFS | IF_LastInvRecFS | IF_ReadFS | IF_PreadFS | IF_FsyncFS | IF_SyncFS | IF_LseekFS | IF_CloseFS | IF_LastFS
  | IF_SmpFenceLKMM | IF_RCUReadLockLKMM | IF_RCUReadUnlockLKMM | IF_SynchronizeRCULKMM

definition internalFunNames :: "string \<Rightarrow> InternalFunctions option" where
  "internalFunNames = map_of [
     (''__VERIFIER_assert_fail'', IF_AssertFail), (''__VERIFIER_opt_begin'', IF_OptBegin),
     (''__VERIFIER_loop_begin'', IF_LoopBegin), (''__VERIFIER_spin_start'', IF_SpinStart),
     (''__VERIFIER_spin_end'', IF_SpinEnd), (''__VERIFIER_faiZNE_spin_end'', IF_FaiZNESpinEnd),
     (''__VERIFIER_lockZNE_spin_end'', IF_LockZNESpinEnd), (''__VERIFIER_kill_thread'', IF_KillThread),
     (''__VERIFIER_assume'', IF_Assume), (''__VERIFIER_nondet_int'', IF_NondetInt),
     (''__VERIFIER_malloc'', IF_Malloc), (''__VERIFIER_malloc_aligned'', IF_MallocAligned),
     (''__VERIFIER_free'', IF_Free), (''__VERIFIER_thread_self'', IF_ThreadSelf),
     (''__VERIFIER_thread_create'', IF_ThreadCreate), (''__VERIFIER_thread_join'', IF_ThreadJoin),
     (''__VERIFIER_thread_exit'', IF_ThreadExit), (''__VERIFIER_atexit'', IF_AtExit),
     (''__VERIFIER_mutex_init'', IF_MutexInit), (''__VERIFIER_mutex_lock'', IF_MutexLock),
     (''__VERIFIER_mutex_unlock'', IF_MutexUnlock), (''__VERIFIER_mutex_trylock'', IF_MutexTrylock),
     (''__VERIFIER_mutex_destroy'', IF_MutexDestroy), (''__VERIFIER_barrier_init'', IF_BarrierInit),
     (''__VERIFIER_barrier_wait'', IF_BarrierWait), (''__VERIFIER_barrier_destroy'', IF_BarrierDestroy),
     (''__VERIFIER_hazptr_alloc'', IF_HazptrAlloc), (''__VERIFIER_hazptr_protect'', IF_HazptrProtect),
     (''__VERIFIER_hazptr_clear'', IF_HazptrClear), (''__VERIFIER_hazptr_free'', IF_HazptrFree),
     (''__VERIFIER_hazptr_retire'', IF_HazptrRetire), (''__VERIFIER_openFS'', IF_OpenFS),
     (''__VERIFIER_closeFS'', IF_CloseFS), (''__VERIFIER_creatFS'', IF_CreatFS),
     (''__VERIFIER_renameFS'', IF_RenameFS), (''__VERIFIER_linkFS'', IF_LinkFS),
     (''__VERIFIER_unlinkFS'', IF_UnlinkFS), (''__VERIFIER_truncateFS'', IF_TruncateFS),
     (''__VERIFIER_readFS'', IF_ReadFS), (''__VERIFIER_preadFS'', IF_PreadFS),
     (''__VERIFIER_writeFS'', IF_WriteFS), (''__VERIFIER_pwriteFS'', IF_PwriteFS),
     (''__VERIFIER_fsyncFS'', IF_FsyncFS), (''__VERIFIER_syncFS'', IF_SyncFS),
     (''__VERIFIER_lseekFS'', IF_LseekFS), (''__VERIFIER_pbarrier'', IF_PersBarrierFS),
     (''__VERIFIER_annotate_begin'', IF_AnnotateBegin), (''__VERIFIER_annotate_end'', IF_AnnotateEnd),
     (''__VERIFIER_lkmm_fence'', IF_SmpFenceLKMM), (''__VERIFIER_rcu_read_lock'', IF_RCUReadLockLKMM),
     (''__VERIFIER_rcu_read_unlock'', IF_RCUReadUnlockLKMM), (''__VERIFIER_synchronize_rcu'', IF_SynchronizeRCULKMM),
     (''_Znwm'', IF_Malloc), (''_ZdlPv'', IF_Free)]"

definition isInternalCall :: "string \<Rightarrow> bool" where
  "isInternalCall nm \<longleftrightarrow> internalFunNames nm \<noteq> None"

text \<open>The calls between \<open>FN_CreatFS\<close> and \<open>FN_LastInvRecFS\<close> in the enumeration.\<close>

definition isFsInvalidRecCode :: "InternalFunctions \<Rightarrow> bool" where
  "isFsInvalidRecCode c \<longleftrightarrow> c \<in> {IF_CreatFS, IF_RenameFS, IF_LinkFS, IF_UnlinkFS, IF_TruncateFS, IF_LastInodeFS, IF_WriteFS,
     IF_PwriteFS, IF_PersBarrierFS, IF_LastInvRecFS}"

definition isInvalidRecCall :: "InternalFunctions \<Rightarrow> GV list \<Rightarrow> bool res" where
  "isInvalidRecCall c args =
     (if isFsInvalidRecCode c then Ok True
      else if c = IF_OpenFS then rbind (int_arg args 1) (\<lambda>flags. Ok (flags AND O_CREAT \<noteq> 0)) else Ok False)"

text \<open>The type a function returns and the type of its first parameter. The random choice, which the interpreter makes
  with a generator of the thread, is an argument.\<close>

definition callNondetInt :: "('f, 's, 'x) EE_scheme \<Rightarrow> ('s \<Rightarrow> 64 word \<times> 's) \<Rightarrow> LType \<Rightarrow> 's \<Rightarrow> 's res" where
  "callNondetInt I rng t s = (let (v, s1) = rng s in return_int I t v s1)"

primrec callCode :: "('f, 's, 'x) EE_scheme \<Rightarrow> ('s \<Rightarrow> 64 word \<times> 's) \<Rightarrow> LType \<Rightarrow> LType \<Rightarrow> GV list \<Rightarrow> InternalFunctions \<Rightarrow> 's \<Rightarrow> 's res" where
  "callCode I rng ret p0 args IF_AssertFail = callAssertFail I"
| "callCode I rng ret p0 args IF_OptBegin = callOptBegin I ret"
| "callCode I rng ret p0 args IF_LoopBegin = callLoopBegin I"
| "callCode I rng ret p0 args IF_SpinStart = callSpinStart I"
| "callCode I rng ret p0 args IF_SpinEnd = callSpinEnd I args"
| "callCode I rng ret p0 args IF_FaiZNESpinEnd = callFaiZNESpinEnd I"
| "callCode I rng ret p0 args IF_LockZNESpinEnd = callLockZNESpinEnd I"
| "callCode I rng ret p0 args IF_KillThread = callKillThread I args"
| "callCode I rng ret p0 args IF_Assume = callAssume I args"
| "callCode I rng ret p0 args IF_NondetInt = callNondetInt I rng ret"
| "callCode I rng ret p0 args IF_Malloc = callMalloc I ret args"
| "callCode I rng ret p0 args IF_MallocAligned = callMallocAligned I ret args"
| "callCode I rng ret p0 args IF_Free = callFree I args"
| "callCode I rng ret p0 args IF_ThreadSelf = callThreadSelf I ret"
| "callCode I rng ret p0 args IF_ThreadCreate = callThreadCreate I ret args"
| "callCode I rng ret p0 args IF_ThreadJoin = callThreadJoin I ret args"
| "callCode I rng ret p0 args IF_ThreadExit = callThreadExit I args"
| "callCode I rng ret p0 args IF_AtExit = callAtExit I ret args"
| "callCode I rng ret p0 args IF_MutexInit = callMutexInit I ret args"
| "callCode I rng ret p0 args IF_MutexLock = callMutexLock I ret args"
| "callCode I rng ret p0 args IF_MutexUnlock = callMutexUnlock I ret args"
| "callCode I rng ret p0 args IF_MutexTrylock = callMutexTrylock I ret args"
| "callCode I rng ret p0 args IF_MutexDestroy = callMutexDestroy I ret args"
| "callCode I rng ret p0 args IF_BarrierInit = callBarrierInit I ret args"
| "callCode I rng ret p0 args IF_BarrierWait = callBarrierWait I ret args"
| "callCode I rng ret p0 args IF_BarrierDestroy = callBarrierDestroy I ret args"
| "callCode I rng ret p0 args IF_HazptrAlloc = callHazptrAlloc I ret"
| "callCode I rng ret p0 args IF_HazptrProtect = callHazptrProtect I args"
| "callCode I rng ret p0 args IF_HazptrClear = callHazptrClear I args"
| "callCode I rng ret p0 args IF_HazptrFree = callHazptrFree I args"
| "callCode I rng ret p0 args IF_HazptrRetire = callHazptrRetire I args"
| "callCode I rng ret p0 args IF_OpenFS = callOpenFS I ret args"
| "callCode I rng ret p0 args IF_CreatFS = callCreatFS I ret args"
| "callCode I rng ret p0 args IF_CloseFS = callCloseFS I ret args"
| "callCode I rng ret p0 args IF_RenameFS = callRenameFS I ret args"
| "callCode I rng ret p0 args IF_LinkFS = callLinkFS I ret args"
| "callCode I rng ret p0 args IF_UnlinkFS = callUnlinkFS I ret args"
| "callCode I rng ret p0 args IF_TruncateFS = callTruncateFS I ret args"
| "callCode I rng ret p0 args IF_ReadFS = callReadFS I p0 ret args"
| "callCode I rng ret p0 args IF_WriteFS = callWriteFS I p0 ret args"
| "callCode I rng ret p0 args IF_FsyncFS = callFsyncFS I ret args"
| "callCode I rng ret p0 args IF_SyncFS = callSyncFS I"
| "callCode I rng ret p0 args IF_PreadFS = callPreadFS I p0 ret args"
| "callCode I rng ret p0 args IF_PwriteFS = callPwriteFS I p0 ret args"
| "callCode I rng ret p0 args IF_LseekFS = callLseekFS I p0 ret args"
| "callCode I rng ret p0 args IF_PersBarrierFS = callPersBarrierFS I"
| "callCode I rng ret p0 args IF_SmpFenceLKMM = callSmpFenceLKMM I args"
| "callCode I rng ret p0 args IF_RCUReadLockLKMM = callRCUReadLockLKMM I"
| "callCode I rng ret p0 args IF_RCUReadUnlockLKMM = callRCUReadUnlockLKMM I"
| "callCode I rng ret p0 args IF_SynchronizeRCULKMM = callSynchronizeRCULKMM I"
| "callCode I rng ret p0 args IF_AnnotateBegin = (\<lambda>s. Bug)"
| "callCode I rng ret p0 args IF_AnnotateEnd = (\<lambda>s. Bug)"
| "callCode I rng ret p0 args IF_NoSideEffectsLast = (\<lambda>s. Bug)"
| "callCode I rng ret p0 args IF_MallocLast = (\<lambda>s. Bug)"
| "callCode I rng ret p0 args IF_LastInodeFS = (\<lambda>s. Bug)"
| "callCode I rng ret p0 args IF_LastInvRecFS = (\<lambda>s. Bug)"
| "callCode I rng ret p0 args IF_LastFS = (\<lambda>s. Bug)"

definition callInternalFunction :: "('f, 's, 'x) EE_scheme \<Rightarrow> ('s \<Rightarrow> 64 word \<times> 's) \<Rightarrow> string \<Rightarrow> LType \<Rightarrow> LType \<Rightarrow> GV list \<Rightarrow> 's \<Rightarrow> 's res" where
  "callInternalFunction I rng nm ret p0 args s = (case internalFunNames nm of None \<Rightarrow> Undef
     | Some c \<Rightarrow> rbind (if dvProgState I s = PS_Recovery then isInvalidRecCall c args else Ok False) (\<lambda>bad.
         if bad then error_here I VS_InvalidRecoveryCall s else callCode I rng ret p0 args c s))"

end
