(* ===== verification/GenMC_FSProps.thy ===== *)
theory GenMC_FSProps
  imports GenMC_LibCalls
begin

text \<open>
  Properties of the file system and of its descriptors: a fresh descriptor is the least that is not in use and has a
  place in the map of descriptions; a buffered write is a sequence of chunks that cover the range to write, each within
  a block; and the locks a call takes are given back, on every path and under every driver, unless the thread blocks.
\<close>

section \<open>Descriptors\<close>

lemma find_first_unset_Some:
  "find_first_unset bs = Some i \<longleftrightarrow> i < length bs \<and> \<not> bs ! i \<and> (\<forall>k < i. bs ! k)"
proof (induction bs arbitrary: i)
  case (Cons b bs)
  show ?case
  proof (cases b)
    case True
    then show ?thesis by (cases i) (auto simp: Cons.IH All_less_Suc2)
  next
    case False
    then show ?thesis by (cases i) auto
  qed
qed simp

definition fd_used :: "FdTable \<Rightarrow> nat \<Rightarrow> bool" where
  "fd_used T k \<longleftrightarrow> k < length (fdsUsed T) \<and> fdsUsed T ! k"

definition fd_ok :: "FdTable \<Rightarrow> bool" where
  "fd_ok T \<longleftrightarrow> length (fdsUsed T) \<le> length (fdToFile T)"

definition fd_grow :: "FdTable \<Rightarrow> FdTable" where
  "fd_grow T = T\<lparr>fdsUsed := vec_resize (2 * length (fdsUsed T) + 1) False (fdsUsed T),
                 fdToFile := fdmap_grow (2 * length (fdsUsed T) + 1) (fdToFile T)\<rparr>"

lemma fd_used_grow [simp]: "fd_used (fd_grow T) k = fd_used T k"
  by (auto simp: fd_used_def fd_grow_def nth_vec_resize split: if_splits)

lemma fd_ok_grow: "fd_ok (fd_grow T)"
  by (simp add: fd_ok_def fd_grow_def fdmap_grow_def)

lemma getFreshFd_found:
  assumes "find_first_unset (fdsUsed T) = Some fd"
  shows "getFreshFd T = Ok (fd, T\<lparr>fdsUsed := (fdsUsed T)[fd := True]\<rparr>)"
proof -
  have "fd < length (fdsUsed T)" using assms by (simp add: find_first_unset_Some)
  then show ?thesis by (subst getFreshFd.simps) (simp add: assms markFdAsUsed_def)
qed

lemma getFreshFd_grown:
  assumes "find_first_unset (fdsUsed T) = None"
  shows "getFreshFd T = getFreshFd (fd_grow T)"
  using assms by (subst getFreshFd.simps) (simp add: fd_grow_def)

text \<open>C35: whatever the table, a fresh descriptor is the least one not in use; it is in use afterwards and no other
  changes. The map of descriptions has a place for it when it was as long as the set of descriptors (\<open>fd_ok\<close>, which
  the table of a new interpreter has and the function keeps); \<open>setSharedState()\<close> moves the set to another
  interpreter without the map, so the map there may have no place until the set grows again.\<close>

theorem getFreshFd_least:
  "\<exists>fd T1. getFreshFd T = Ok (fd, T1) \<and> \<not> fd_used T fd \<and> (\<forall>k < fd. fd_used T k)
     \<and> (\<forall>k. fd_used T1 k \<longleftrightarrow> k = fd \<or> fd_used T k) \<and> (fd_ok T \<longrightarrow> fd < length (fdToFile T1) \<and> fd_ok T1)"
proof -
  have found: ?thesis if g: "getFreshFd T = getFreshFd S" "fd_ok T \<Longrightarrow> fd_ok S" "\<And>k. fd_used S k = fd_used T k"
    and s: "find_first_unset (fdsUsed S) = Some fd" for S fd
  proof -
    let ?S1 = "S\<lparr>fdsUsed := (fdsUsed S)[fd := True]\<rparr>"
    have fd: "fd < length (fdsUsed S)" "\<not> fdsUsed S ! fd" "\<forall>k < fd. fdsUsed S ! k"
      using s by (simp_all add: find_first_unset_Some)
    have "fd_used ?S1 k \<longleftrightarrow> k = fd \<or> fd_used S k" for k
      using fd(1) by (auto simp: fd_used_def nth_list_update)
    moreover have "\<not> fd_used S fd" "\<forall>k < fd. fd_used S k" using fd by (auto simp: fd_used_def)
    moreover have "fd_ok T \<longrightarrow> fd < length (fdToFile ?S1) \<and> fd_ok ?S1" using fd(1) g(2) by (auto simp: fd_ok_def)
    ultimately show ?thesis using g(1,3) getFreshFd_found [OF s] by auto
  qed
  show ?thesis
  proof (cases "find_first_unset (fdsUsed T)")
    case None
    moreover have "find_first_unset (fdsUsed (fd_grow T)) \<noteq> None"
      using find_first_unset_grown [of "fdsUsed T"] by (simp add: fd_grow_def)
    ultimately show ?thesis using found [of "fd_grow T"] getFreshFd_grown fd_ok_grow by fastforce
  qed (use found [of T] in auto)
qed

theorem getFreshFd_least_witness:
  "\<exists>fd T1. getFreshFd \<lparr>fdsUsed = [True, True], fdToFile = [64, 96]\<rparr> = Ok (fd, T1) \<and> fd < length (fdToFile T1)"
  using getFreshFd_least [of "\<lparr>fdsUsed = [True, True], fdToFile = [64, 96]\<rparr>"] by (auto simp: fd_ok_def)

text \<open>Without the invariant there need not be a place: a worker that has received a set of three descriptors, one
  of them in use, and has a map for none.\<close>

lemma getFreshFd_no_place:
  "getFreshFd \<lparr>fdsUsed = [True, False, False], fdToFile = []\<rparr> = Ok (1, \<lparr>fdsUsed = [True, True, False], fdToFile = []\<rparr>)"
proof -
  have "find_first_unset [True, False, False] = Some 1" by (simp add: find_first_unset_Some)
  then show ?thesis using getFreshFd_found [of "\<lparr>fdsUsed = [True, False, False], fdToFile = []\<rparr>" 1] by simp
qed

section \<open>Chunks of a write\<close>

lemma chunk_bytes_unat:
  assumes "bs \<noteq> 0"
  shows "unat (chunk_bytes bs off cnt) = min (unat cnt) (unat bs - unat off mod unat bs)"
proof -
  have b: "unat (ucast bs :: 64 word) = unat bs" by (rule unat_zero_extend)
  have "unat off mod unat bs < unat bs" using assms by (simp add: unat_gt_0)
  then have r: "unat (ucast bs - off mod ucast bs :: 64 word) = unat bs - unat off mod unat bs"
    using b by (simp add: unat_sub word_le_nat_alt unat_mod)
  show ?thesis
  proof (cases "off mod ucast bs = 0")
    case True
    then have "unat off mod unat bs = 0" using b by (metis unat_0 unat_mod)
    with True b show ?thesis by (simp add: chunk_bytes_def Let_def min_def word_le_nat_alt)
  next
    case False
    then show ?thesis using r b \<open>unat off mod unat bs < unat bs\<close>
      by (auto simp: chunk_bytes_def Let_def min_def word_le_nat_alt word_less_nat_alt)
  qed
qed

text \<open>The offsets in the buffer and in the file and the number of bytes of each round.\<close>

function chunks :: "32 word \<Rightarrow> 32 word \<Rightarrow> 64 word \<Rightarrow> 64 word \<Rightarrow> (32 word \<times> 64 word \<times> 64 word) list" where
  "chunks bs bufOff off cnt =
     (if bs = 0 then []
      else let b = chunk_bytes bs off cnt in
        (bufOff, off, b) # (if cnt - b = 0 then [] else chunks bs (bufOff + ucast b) (off + b) (cnt - b)))"
  by pat_completeness auto

termination
  by (relation "measure (\<lambda>(bs, bufOff, off, cnt). unat cnt)") (auto simp: chunk_decreases)

declare chunks.simps [simp del]

definition chunk_range :: "32 word \<times> 64 word \<times> 64 word \<Rightarrow> nat list" where
  "chunk_range c = (case c of (bo, off, b) \<Rightarrow> [unat off ..< unat off + unat b])"

lemma chunk_range_simp [simp]: "chunk_range (bo, off, b) = [unat off ..< unat off + unat b]"
  by (simp add: chunk_range_def)

definition write_chunks :: "('f, 's, 'x) EE_scheme \<Rightarrow> SAddr \<Rightarrow> LType \<Rightarrow> SAddr \<Rightarrow> LType \<Rightarrow> (32 word \<times> 64 word \<times> 64 word) list \<Rightarrow>
    SVal \<times> 's \<Rightarrow> (SVal \<times> 's) res" where
  "write_chunks I inode t buf bufTyp = rfold (\<lambda>(bo, off, b) (ob, s). write_chunk I inode t buf bufTyp bo off b ob s)"

lemma rfold_Nil_eq: "rfold f [] = Ok"
  by (rule ext) simp

lemma buffered_loop_is_write_chunks:
  assumes "fsBlockSize (eeFs I) \<noteq> 0"
  shows "buffered_loop I inode t buf bufTyp bufOff off cnt ob s =
     rbind (write_chunks I inode t buf bufTyp (chunks (fsBlockSize (eeFs I)) bufOff off cnt) (ob, s)) (\<lambda>(ob1, s1). Ok s1)"
  using assms
proof (induction I inode t buf bufTyp bufOff off cnt ob s rule: buffered_loop.induct)
  case (1 I inode t buf bufTyp bufOff off cnt ob s)
  let ?b = "chunk_bytes (fsBlockSize (eeFs I)) off cnt"
  show ?case
  proof (cases "cnt - ?b = 0")
    case True
    then show ?thesis using "1.prems"
      by (subst buffered_loop.simps, subst chunks.simps)
        (simp add: write_chunks_def Let_def case_prod_unfold rfold_Nil_eq)
  next
    case False
    have c: "chunks (fsBlockSize (eeFs I)) bufOff off cnt = (bufOff, off, ?b) #
        chunks (fsBlockSize (eeFs I)) (bufOff + ucast ?b) (off + ?b) (cnt - ?b)"
      using False "1.prems" by (subst chunks.simps) (simp add: Let_def)
    show ?thesis
    proof (cases "write_chunk I inode t buf bufTyp bufOff off ?b ob s")
      case (Ok q)
      obtain ob1 s1 where q: "(ob1, s1) = q" by (cases q) auto
      show ?thesis
        using "1.IH" [OF "1.prems" refl Ok q False "1.prems"] "1.prems" False Ok
        by (subst buffered_loop.simps) (simp add: c write_chunks_def Let_def q [symmetric])
    qed (use "1.prems" in \<open>subst buffered_loop.simps, simp add: c write_chunks_def Let_def\<close>)+
  qed
qed

lemma ucast_down_add: "(ucast (a + b :: 64 word) :: 32 word) = ucast a + ucast b"
proof (transfer, goal_cases)
  case (1 a b)
  have "take_bit 32 (take_bit 64 a + take_bit 64 b) = take_bit 32 (take_bit 32 (take_bit 64 a) + take_bit 32 (take_bit 64 b))"
    by (rule take_bit_add [symmetric])
  also have "\<dots> = take_bit 32 (a + b)" by (simp add: take_bit_add)
  finally show ?case by (simp add: take_bit_add)
qed

lemma same_block:
  fixes m b n :: nat
  assumes "0 < b" and "b \<le> n - m mod n" and "0 < n"
  shows "(m + b - 1) div n = m div n"
proof -
  have "m + b - 1 = m mod n + (b - 1) + n * (m div n)"
    using assms(1) by (metis Nat.add_diff_assoc Suc_leI One_nat_def add.assoc add.commute mod_mult_div_eq)
  moreover have "m mod n + (b - 1) < n" using assms mod_less_divisor [OF assms(3), of m] by linarith
  ultimately show ?thesis using assms(3) by (simp only: div_mult_self2) simp
qed

lemma chunks_cover:
  assumes "bs \<noteq> 0" and "cnt \<noteq> 0" and "unat off + unat cnt < 2 ^ 64"
  shows "concat (map chunk_range (chunks bs bufOff off cnt)) = [unat off ..< unat off + unat cnt]
    \<and> (\<forall>(bo, p, b) \<in> set (chunks bs bufOff off cnt). 0 < unat b \<and> unat p div unat bs = (unat p + unat b - 1) div unat bs
         \<and> bo = bufOff + ucast (p - off))"
  using assms
proof (induction bs bufOff off cnt rule: chunks.induct)
  case (1 bs bufOff off cnt)
  let ?b = "chunk_bytes bs off cnt" and ?off1 = "off + chunk_bytes bs off cnt" and ?cnt1 = "cnt - chunk_bytes bs off cnt"
  have pos: "0 < unat ?b" using chunk_bytes_pos [OF "1.prems"(1,2)] by (simp add: word_less_nat_alt)
  have le: "unat ?b \<le> unat cnt" using chunk_bytes_le [of bs off cnt] by (simp add: word_le_nat_alt)
  have o1: "unat ?off1 = unat off + unat ?b" using le "1.prems"(3) by (simp add: unat_word_ariths)
  have c1: "unat ?cnt1 = unat cnt - unat ?b"
    using chunk_bytes_le [of bs off cnt] by (simp add: unat_sub)
  have blk: "unat off div unat bs = (unat off + unat ?b - 1) div unat bs"
    using same_block [of "unat ?b" "unat bs" "unat off"] pos chunk_bytes_unat [OF "1.prems"(1), of off cnt] "1.prems"(1)
    by (simp add: unat_gt_0)
  show ?case
  proof (cases "?cnt1 = 0")
    case True
    then have "unat ?b = unat cnt" using c1 le by (simp add: unat_eq_zero)
    then show ?thesis using True "1.prems"(1) pos blk
      by (subst (1 2) chunks.simps) (simp add: Let_def)
  next
    case False
    let ?cs = "chunks bs (bufOff + ucast ?b) ?off1 ?cnt1"
    have IH: "concat (map chunk_range ?cs) = [unat ?off1 ..< unat ?off1 + unat ?cnt1]"
      "\<forall>(bo, p, b) \<in> set ?cs. 0 < unat b \<and> unat p div unat bs = (unat p + unat b - 1) div unat bs
         \<and> bo = bufOff + ucast ?b + ucast (p - ?off1)"
      using "1.IH" [OF "1.prems"(1) refl False "1.prems"(1) False] o1 c1 le "1.prems"(3) by simp_all
    have u: "ucast ?b + ucast (p - ?off1) = (ucast (p - off) :: 32 word)" for p
    proof -
      have "p - off = ?b + (p - ?off1)" by simp
      then show ?thesis by (metis ucast_down_add)
    qed
    have "chunks bs bufOff off cnt = (bufOff, off, ?b) # ?cs"
      using False "1.prems"(1) by (subst chunks.simps) (simp add: Let_def)
    moreover have "[unat off ..< unat off + unat ?b] @ [unat off + unat ?b ..< unat off + unat cnt] = [unat off ..< unat off + unat cnt]"
      using upt_add_eq_append [of "unat off" "unat off + unat ?b" "unat cnt - unat ?b"] le by simp
    ultimately show ?thesis using IH pos blk o1 c1 le u by (auto simp: add.assoc)
  qed
qed

text \<open>C9: a buffered write does exactly the chunks of its range, in order: they follow each other without a gap, begin at
  the offset and end after the last byte, none is empty, each is within one block of the file, and each takes its bytes
  from the place of the buffer that corresponds to its offset.\<close>

theorem buffered_write_chunks:
  assumes "bs \<noteq> 0" and "cnt \<noteq> 0" and "unat off + unat cnt < 2 ^ 64"
  shows "(fsBlockSize (eeFs I) = bs \<longrightarrow> buffered_loop I inode t buf bufTyp bufOff off cnt ob s =
        rbind (write_chunks I inode t buf bufTyp (chunks bs bufOff off cnt) (ob, s)) (\<lambda>(ob1, s1). Ok s1))
    \<and> concat (map chunk_range (chunks bs bufOff off cnt)) = [unat off ..< unat off + unat cnt]
    \<and> (\<forall>(bo, p, b) \<in> set (chunks bs bufOff off cnt). 0 < unat b \<and> unat p div unat bs = (unat p + unat b - 1) div unat bs
         \<and> bo = bufOff + ucast (p - off))"
  using chunks_cover [OF assms] buffered_loop_is_write_chunks [of I inode t buf bufTyp bufOff off cnt ob s] assms(1) by auto

theorem buffered_write_chunks_witness:
  "concat (map chunk_range (chunks 4 0 6 5)) = [6 ..< 11]"
proof -
  have "(4 :: 32 word) \<noteq> 0" "(5 :: 64 word) \<noteq> 0" "unat (6 :: 64 word) + unat (5 :: 64 word) < 2 ^ 64" by simp_all
  from buffered_write_chunks [OF this, where bufOff = 0, THEN conjunct2, THEN conjunct1] show ?thesis by simp
qed

section \<open>Locks\<close>

text \<open>What the system calls rely on to give back the locks they take: the interpreter sees its own updates of the
  current thread, and only locking and unlocking change the locks that are held. \<open>held\<close> is what the state says of
  them.\<close>

locale lock_keeper =
  fixes I :: "('f, 's, 'x) EE_scheme" and held :: "'s \<Rightarrow> SAddr list"
  assumes set_thread: "dvSetThread I f s = Ok s1 \<Longrightarrow> \<exists>t. dvThread I s = Ok t \<and> dvThread I s1 = Ok (f t)"
    and set_thread_held: "dvSetThread I f s = Ok s1 \<Longrightarrow> held s1 = held s"
    and lock_held: "dvLock I p a sz s = Ok s1 \<Longrightarrow> held s1 = (if is_blocked I s1 = Ok True then held s else a # held s)"
    and unlock_held: "dvUnlock I p a sz s = Ok s1 \<Longrightarrow> held s1 = remove1 a (held s)"
    and load_held: "dvLoad I l s = Ok (v, s1) \<Longrightarrow> held s1 = held s"
    and store_held: "dvStore I l s = Ok s1 \<Longrightarrow> held s1 = held s"
    and dskRead_held: "dvDskRead I l s = Ok (v, s1) \<Longrightarrow> held s1 = held s"
    and dskWrite_held: "dvDskWrite I l s = Ok s1 \<Longrightarrow> held s1 = held s"
    and fsync_held: "dvDskFsync I l s = Ok s1 \<Longrightarrow> held s1 = held s"
    and open_held: "dvDskOpen I l s = Ok (v, s1) \<Longrightarrow> held s1 = held s"
    and malloc_held: "dvMalloc I l al st sp s = Ok (v, s1) \<Longrightarrow> held s1 = held s"
    and free_held: "dvFree I l s = Ok s1 \<Longrightarrow> held s1 = held s"
    and error_held: "dvError I p e s = Ok s1 \<Longrightarrow> held s1 = held s"
    and files_held: "held (dvSetFiles I fs s) = held s"
    and syserr_held: "held (dvSysError I c s) = held s"
begin

lemmas setter_held [simp] = files_held syserr_held

text \<open>Results whose state, if there is one, holds the locks \<open>h\<close>; the same for results with a value.\<close>

definition holds :: "SAddr list \<Rightarrow> 's res \<Rightarrow> bool" where
  "holds h m \<longleftrightarrow> (\<forall>s1. m = Ok s1 \<longrightarrow> held s1 = h)"

definition holds_val :: "SAddr list \<Rightarrow> ('a \<times> 's) res \<Rightarrow> bool" where
  "holds_val h m \<longleftrightarrow> (\<forall>v s1. m = Ok (v, s1) \<longrightarrow> held s1 = h)"

lemma holdsD: "holds h m \<Longrightarrow> m = Ok s1 \<Longrightarrow> held s1 = h"
  by (simp add: holds_def)

lemma holds_valD: "holds_val h m \<Longrightarrow> m = Ok (v, s1) \<Longrightarrow> held s1 = h"
  by (simp add: holds_val_def)

lemma holds_Ok:
  "held s = h \<Longrightarrow> holds h (Ok s)" "held s = h \<Longrightarrow> holds_val h (Ok (v, s))"
  "holds h Undef" "holds h Bug" "holds_val h Undef" "holds_val h Bug"
  by (auto simp: holds_def holds_val_def)

lemma holds_bind:
  "holds h m \<Longrightarrow> (\<And>s. held s = h \<Longrightarrow> holds h (k s)) \<Longrightarrow> holds h (rbind m k)"
  "holds h m \<Longrightarrow> (\<And>s. held s = h \<Longrightarrow> holds_val h (k' s)) \<Longrightarrow> holds_val h (rbind m k')"
  by (auto simp: holds_def holds_val_def res_simps)

lemma holds_bind_val:
  "holds_val h m \<Longrightarrow> (\<And>v s. held s = h \<Longrightarrow> holds h (k (v, s))) \<Longrightarrow> holds h (rbind m k)"
  "holds_val h m \<Longrightarrow> (\<And>v s. held s = h \<Longrightarrow> holds_val h (k' (v, s))) \<Longrightarrow> holds_val h (rbind m k')"
  by (auto simp: holds_def holds_val_def res_simps)

lemma holds_bind_pure:
  "(\<And>p. holds h (k p)) \<Longrightarrow> holds h (rbind m k)" "(\<And>p. holds_val h (k' p)) \<Longrightarrow> holds_val h (rbind m k')"
  by (auto simp: holds_def holds_val_def res_simps)

lemmas holds_pure =
  holds_bind_pure(1) [of h k "next_pos I s" for h k s] holds_bind_pure(2) [of h k "next_pos I s" for h k s]
  holds_bind_pure(1) [of h k "cur_pos I s" for h k s] holds_bind_pure(2) [of h k "cur_pos I s" for h k s]
  holds_bind_pure(1) [of h k "is_blocked I s" for h k s] holds_bind_pure(2) [of h k "is_blocked I s" for h k s]
  holds_bind_pure(1) [of h k "dvThread I s" for h k s] holds_bind_pure(2) [of h k "dvThread I s" for h k s]
  holds_bind_pure(1) [of h k "INT_TO_GV t v" for h k t v] holds_bind_pure(1) [of h k "getInodeAddrFromName I n" for h k n]
  holds_bind_pure(2) [of h k "getInodeAddrFromName I n" for h k n] holds_bind_pure(1) [of h k "vec_set fs i x" for h k fs i x]
  holds_bind_pure(1) [of h k "shouldUpdateInodeDisksizeFS a b c e" for h k a b c e]
  holds_bind_pure(2) [of h k "executeAtomicRMWOperation a b c e" for h k a b c e] holds_bind_pure(2) [of h k "BUG_ON b" for h k b]

lemma holds_handler:
  "held s = h \<Longrightarrow> holds h (dvSetThread I f s)" "held s = h \<Longrightarrow> holds_val h (dvLoad I l s)" "held s = h \<Longrightarrow> holds h (dvStore I l s)"
  "held s = h \<Longrightarrow> holds_val h (dvDskRead I l s)" "held s = h \<Longrightarrow> holds h (dvDskWrite I l s)" "held s = h \<Longrightarrow> holds h (dvDskFsync I l s)"
  "held s = h \<Longrightarrow> holds_val h (dvDskOpen I l s)" "held s = h \<Longrightarrow> holds_val h (dvMalloc I l al st sp s)"
  "held s = h \<Longrightarrow> holds h (dvFree I l s)" "held s = h \<Longrightarrow> holds h (dvError I p e s)"
  by (auto simp: holds_def holds_val_def
      dest: set_thread_held load_held store_held dskRead_held dskWrite_held fsync_held open_held malloc_held free_held error_held)

lemmas holds_intros = holds_Ok holds_bind holds_bind_val holds_pure holds_handler

lemma holds_rfold:
  assumes "\<And>x s. held s = h \<Longrightarrow> holds h (f x s)" and "held s = h"
  shows "holds h (rfold f xs s)"
  using assms(2)
proof (induction xs arbitrary: s)
  case (Cons x xs)
  show ?case by (simp, rule holds_bind(1) [OF assms(1) [OF Cons.prems] Cons.IH])
qed (simp add: holds_Ok)

lemma holds_basic:
  assumes "held s = h"
  shows "holds h (store_at I ord a acc v s)" "holds_val h (load_at I ord a acc s)" "holds_val h (do_dskRead I a acc s)"
    "holds h (do_dskWrite I mk s)" "holds h (do_store I mk s)" "holds_val h (do_load I mk s)" "holds h (executeFsyncFS I inode s)"
    "holds h (returnValueToCaller I g s)" "holds h (take_snapshot I s)" "holds h (roll_to_snapshot I s)" "holds h (block_cur I b s)"
  using assms by (auto simp: store_at_def load_at_def do_store_def do_load_def do_dskRead_def do_dskWrite_def
      executeFsyncFS_def returnValueToCaller_def take_snapshot_def roll_to_snapshot_def block_cur_def intro!: holds_intros)

lemma holds_small:
  assumes "held s = h"
  shows "holds h (handleSystemError I c s)" "holds_val h (readInodeSizeFS I inode t s)" "holds h (updateInodeSizeFS I inode t v s)"
    "holds h (setInodeTransStatus I inode t v s)" "holds_val h (getInodeTransStatus I inode t s)" "holds h (return_int I t v s)"
    "holds h (return_sval I t v s)" "holds_val h (block_in_transaction I s)" "holds h (setFdToFile I fd x s)"
    "holds h (write_byte I inode x y t s)" "holds h (read_byte I x y t s)"
  using assms by (auto simp: handleSystemError_def readInodeSizeFS_def updateInodeSizeFS_def setInodeTransStatus_def
      getInodeTransStatus_def return_int_def return_sval_def block_in_transaction_def setFdToFile_def write_byte_def read_byte_def
      intro!: holds_intros holds_basic)

lemmas holds_rules = holds_intros holds_basic holds_small

lemma holds_disk:
  assumes "held s = h"
  shows "holds h (updateInodeDisksizeFS I inode t v b e s)" "holds h (writeDataToDisk I buf bo inode off n t s)"
    "holds h (readDataFromDisk I inode off buf bo n t s)" "holds h (zeroDskRangeFS I inode b e t s)"
    "holds h (updateDirNameInode I nm v s)"
  using assms by (auto simp: updateInodeDisksizeFS_def writeDataToDisk_def readDataFromDisk_def zeroDskRangeFS_def
      updateDirNameInode_def Let_def intro!: holds_rules holds_rfold)

lemma holds_files:
  assumes "held s = h"
  shows "holds_val h (executeInodeLookupFS I nm t s)" "holds_val h (executeInodeCreateFS I nm t s)"
    "holds_val h (checkOpenFlagsFS I fl s)" "holds h (init_file I file fl inode t s)" "holds_val h (truncate_extend I inode len old s)"
    "holds_val h (grow_inode I inode t v ob s)" "holds h (extend_disksize I inode t bt v w c s)"
    "holds_val h (executeWriteChecksFS I inode t fl v w s)" "holds_val h (executeReadFS I file t buf bt v w s)"
    "holds_val h (executeLseekFS I file t v w s)" "holds h (advance_offset I file t v w s)"
  using assms by (auto simp: executeInodeLookupFS_def executeInodeCreateFS_def checkOpenFlagsFS_def init_file_def
      truncate_extend_def grow_inode_def extend_disksize_def executeWriteChecksFS_def executeReadFS_def executeLseekFS_def
      advance_offset_def Let_def split: option.split intro!: holds_rules holds_disk)

lemma holds_write:
  assumes "held s = h"
  shows "holds_val h (write_chunk I inode t buf bt bo off b ob s)" "holds h (buffered_loop I inode t buf bt bo off c ob s)"
    "holds_val h (executeBufferedWriteFS I inode t buf bt off c s)"
proof -
  have chunk: "holds_val h (write_chunk I inode t buf bt bo off b ob s)" if "held s = h" for h inode t buf bt bo off b ob s
    using that by (auto simp: write_chunk_def intro!: holds_rules holds_disk holds_files)
  have loop: "holds h (buffered_loop J inode t buf bt bo off c ob s)" if "held s = h" and "J = I" for h J inode t buf bt bo off c ob s
    using that
  proof (induction J inode t buf bt bo off c ob s rule: buffered_loop.induct)
    case (1 J inode t buf bt bo off c ob s)
    let ?b = "chunk_bytes (fsBlockSize (eeFs J)) off c"
    have "held s1 = h" if r: "buffered_loop J inode t buf bt bo off c ob s = Ok s1" for s1
    proof -
      have ne: "fsBlockSize (eeFs J) \<noteq> 0" using r by (subst (asm) buffered_loop.simps) auto
      then obtain ob2 s2 where w: "write_chunk J inode t buf bt bo off ?b ob s = Ok (ob2, s2)"
        and n: "(if c - ?b = 0 then Ok s2 else buffered_loop J inode t buf bt (bo + ucast ?b) (off + ?b) (c - ?b) ob2 s2) = Ok s1"
        using r by (subst (asm) buffered_loop.simps) (auto simp: Let_def res_simps)
      have h: "held s2 = h"
        using w unfolding "1.prems"(2) by (rule holds_valD [OF chunk [OF "1.prems"(1)]])
      show ?thesis
      proof (cases "c - ?b = 0")
        case False
        with n h "1.IH" [OF ne refl w refl False h "1.prems"(2)] show ?thesis by (simp add: holdsD)
      qed (use n h in auto)
    qed
    then show ?case by (simp add: holds_def)
  qed
  show "holds_val h (write_chunk I inode t buf bt bo off b ob s)" by (rule chunk [OF assms])
  show "holds h (buffered_loop I inode t buf bt bo off c ob s)" by (rule loop [OF assms refl])
  show "holds_val h (executeBufferedWriteFS I inode t buf bt off c s)"
    using assms by (auto simp: executeBufferedWriteFS_def intro!: holds_rules holds_disk holds_files loop [OF _ refl])
qed

text \<open>The same with locks taken and given back in between: \<open>g\<close> are the locks held at the start, \<open>Q\<close> is what the result
  has to satisfy.\<close>

definition during :: "SAddr list \<Rightarrow> ('a \<Rightarrow> bool) \<Rightarrow> 'a res \<Rightarrow> bool" where
  "during g Q m \<longleftrightarrow> (\<forall>x. m = Ok x \<longrightarrow> Q x)"

definition blocked :: "'s \<Rightarrow> bool" where
  "blocked s \<longleftrightarrow> is_blocked I s = Ok True"

lemma during_Ok: "Q x \<Longrightarrow> during g Q (Ok x)" "during g Q Undef" "during g Q Bug"
  by (auto simp: during_def)

text \<open>The trivial premises make the classical reasoner prefer the rules for locks.\<close>

lemma during_bind:
  "True \<Longrightarrow> True \<Longrightarrow> holds g m \<Longrightarrow> (\<And>s. held s = g \<Longrightarrow> during g Q (k s)) \<Longrightarrow> during g Q (rbind m k)"
  "True \<Longrightarrow> True \<Longrightarrow> holds_val g m' \<Longrightarrow> (\<And>v s. held s = g \<Longrightarrow> during g Q (k' (v, s))) \<Longrightarrow> during g Q (rbind m' k')"
  by (auto simp: during_def holds_def holds_val_def res_simps)

lemma during_pure: "(\<And>p. during g Q (k p)) \<Longrightarrow> during g Q (rbind m k)"
  by (auto simp: during_def res_simps)

lemmas during_pures =
  during_pure [of g Q k "next_pos I s" for g Q k s] during_pure [of g Q k "cur_pos I s" for g Q k s]
  during_pure [of g Q k "INT_TO_GV t v" for g Q k t v] during_pure [of g Q k "static_arg I v i" for g Q k v i]
  during_pure [of g Q k "int_arg v i" for g Q k v i] during_pure [of g Q k "ptr_arg v i" for g Q k v i]
  during_pure [of g Q k "vec_get v i" for g Q k v i] during_pure [of g Q k "executeAtomicRMWOperation a b c e" for g Q k a b c e]

lemma during_blocked:
  "(blocked s \<Longrightarrow> during g Q (k True)) \<Longrightarrow> (\<not> blocked s \<Longrightarrow> during g Q (k False)) \<Longrightarrow> during g Q (rbind (is_blocked I s) k)"
  unfolding during_def blocked_def by (cases "is_blocked I s") (auto, metis (full_types))

lemma set_thread_blocked:
  assumes "dvSetThread I f s = Ok s1" and "\<And>t. thrBlocked (f t) = thrBlocked t"
  shows "blocked s1 = blocked s"
  using set_thread [OF assms(1)] assms(2) by (auto simp: blocked_def is_blocked_def thr_isBlocked_def)

lemma roll_keeps_blocked: "roll_to_snapshot I s = Ok s1 \<Longrightarrow> blocked s1 = blocked s"
  by (auto simp: roll_to_snapshot_def res_simps rollToSnapshot_def split: if_splits dest!: set_thread_blocked)

lemma return_keeps_blocked: "returnValueToCaller I v s = Ok s1 \<Longrightarrow> blocked s1 = blocked s"
  by (auto simp: returnValueToCaller_def res_simps split: if_splits dest!: set_thread_blocked)

lemma during_lock:
  assumes "held s = g" and "\<And>s1. held s1 = a # g \<Longrightarrow> \<not> blocked s1 \<Longrightarrow> during (a # g) Q (k (True, s1))"
    and "\<And>s1. held s1 = g \<Longrightarrow> blocked s1 \<Longrightarrow> during g Q (k (False, s1))"
  shows "during g Q (rbind (lock_or_roll I a t s) k)"
proof -
  have "Q x" if r: "rbind (lock_or_roll I a t s) k = Ok x" for x
  proof -
    obtain p s1 b where l: "dvLock I p a (eeTypeSize I t) s = Ok s1" "is_blocked I s1 = Ok b"
      and b: "rbind (if b then rbind (roll_to_snapshot I s1) (\<lambda>s2. Ok (False, s2)) else Ok (True, s1)) k = Ok x"
      using r by (auto simp: lock_or_roll_def do_lock_def res_simps)
    have h: "held s1 = (if b then g else a # g)" using lock_held [OF l(1)] l(2) assms(1) by simp
    show ?thesis
    proof (cases b)
      case True
      then obtain s2 where s2: "roll_to_snapshot I s1 = Ok s2" "k (False, s2) = Ok x" using b by (auto simp: res_simps)
      have "held s2 = g" using holdsD [OF holds_basic(10) [OF refl] s2(1)] h True by simp
      moreover have "blocked s2" using roll_keeps_blocked [OF s2(1)] l(2) True by (simp add: blocked_def)
      ultimately show ?thesis using assms(3) s2(2) by (auto simp: during_def)
    next
      case False
      then show ?thesis using b h l(2) assms(2) [of s1] by (simp add: during_def blocked_def)
    qed
  qed
  then show ?thesis by (simp add: during_def)
qed

lemma during_unlock:
  assumes "held s = a # g" and "\<And>s1. held s1 = g \<Longrightarrow> during g Q (k s1)"
  shows "during (a # g) Q (rbind (unlock_at I a t s) k)"
  using assms unlock_held by (fastforce simp: during_def unlock_at_def do_unlock_def res_simps)

text \<open>A call gives back the locks it takes, or leaves the thread blocked.\<close>

definition released :: "SAddr list \<Rightarrow> 's \<Rightarrow> bool" where
  "released g s \<longleftrightarrow> held s = g \<or> blocked s"

lemma return_sval_blocked: "return_sval I t v s = Ok s1 \<Longrightarrow> blocked s1 = blocked s"
  by (auto simp: return_sval_def dest: return_keeps_blocked)

lemma during_return:
  "held s = g \<Longrightarrow> during g (released g) (return_int I t w s)"
  "held s = g \<or> blocked s \<Longrightarrow> during g (released g) (return_sval I t v s)"
  by (auto simp: during_def released_def dest: return_sval_blocked holdsD [OF holds_small(6) [OF refl]] holdsD [OF holds_small(7) [OF refl]])

lemmas holds_all = holds_rules holds_disk holds_files holds_write

lemmas during_rules = during_Ok during_bind during_pures during_blocked during_lock during_unlock during_return

text \<open>What the functions below the calls promise: a value of 42, or in a lookup a blocked thread, when a lock is missing.\<close>

lemma truncate_released:
  assumes "held s = g"
  shows "during g (\<lambda>(v, s1). held s1 = g \<or> blocked s1 \<and> v = 42) (executeTruncateFS I inode len t s)"
  using assms by (auto simp: executeTruncateFS_def split: option.split intro!: during_rules holds_all)

lemma write_released:
  assumes "held s = g"
  shows "during g (\<lambda>(v, s1). held s1 = g \<or> blocked s1 \<and> v = 42) (executeWriteFS I file t buf bt off c s)"
  using assms by (auto simp: executeWriteFS_def intro!: during_rules holds_all)

lemma lookup_open_released:
  assumes "held s = g"
  shows "during g (\<lambda>(v, s1). released g s1) (executeLookupOpenFS I nm fl t s)"
  using assms by (auto simp: executeLookupOpenFS_def Let_def released_def intro!: during_rules holds_all)

lemma during_sub:
  assumes "during g P m" and "\<And>x. P x \<Longrightarrow> during g Q (k x)"
  shows "during g Q (rbind m k)"
  using assms by (auto simp: during_def res_simps)

lemmas during_subs = during_sub [OF truncate_released] during_sub [OF write_released] during_sub [OF lookup_open_released]

lemma open_truncate_released:
  assumes "held s = g"
  shows "during g (\<lambda>(r, s1). held s1 = g \<or> blocked s1 \<and> r) (open_truncate I fl inode t s)"
  using assms by (auto simp: open_truncate_def intro!: during_rules holds_all during_subs)

lemma open_file_released:
  assumes "held s = g"
  shows "holds_val g (executeOpenFS I nm fl inode t s)"
  using assms by (auto simp: executeOpenFS_def intro!: holds_all)

lemma callOpenFS_released:
  assumes "held s = g"
  shows "during g (released g) (callOpenFS I t args s)"
  using assms
  by (auto simp: callOpenFS_def released_def
      intro!: during_rules holds_all open_file_released during_subs during_sub [OF open_truncate_released])

lemma callCreatFS_released:
  assumes "held s = g"
  shows "during g (released g) (callCreatFS I t args s)"
  using assms by (auto simp: callCreatFS_def intro!: during_rules callOpenFS_released)

lemma callCloseFS_released:
  assumes "held s = g"
  shows "during g (released g) (callCloseFS I t args s)"
proof -
  have "holds_val g (executeCloseFS I fd t s)" if "held s = g" for fd s
    using that by (auto simp: executeCloseFS_def executeReleaseFileFS_def Let_def intro!: holds_all)
  then show ?thesis using assms by (auto simp: callCloseFS_def intro!: during_rules holds_all)
qed

text \<open>The body of a call on the directory: no value only when the thread has blocked, and no lock of its own.\<close>

definition body_ok :: "SAddr list \<Rightarrow> SVal option \<times> 's \<Rightarrow> bool" where
  "body_ok g = (\<lambda>(r, s1). if r = None then blocked s1 else held s1 = g)"

lemma during_with_dir_lock:
  assumes "\<And>g s1. held s1 = g \<Longrightarrow> during g (body_ok g) (body s1)" and "held s = g"
  shows "during g (released g) (with_dir_lock I t body s)"
  using assms(2)
  by (auto simp: with_dir_lock_def body_ok_def released_def split: option.split if_splits
      intro!: during_rules holds_all during_sub [OF assms(1)])

lemma body_ok_simps:
  "held s = g \<Longrightarrow> body_ok g (Some v, s)" "blocked s \<Longrightarrow> body_ok g (None, s)"
  by (simp_all add: body_ok_def)

lemma lookup_then_ok:
  assumes "\<And>inode s1. held s1 = g \<Longrightarrow> during g (body_ok g) (k inode s1)" and "held s = g"
  shows "during g (body_ok g) (lookup_then I nm t k s)"
  using assms by (auto simp: lookup_then_def intro!: during_rules holds_all body_ok_simps)

lemma fail_with_ok: "held s = g \<Longrightarrow> during g (body_ok g) (fail_with I e s)"
  by (auto simp: fail_with_def body_ok_def intro!: during_rules holds_all)

lemma holds_directory:
  assumes "held s = g"
  shows "holds_val g (executeLinkFS I nm v s)" "holds_val g (executeUnlinkFS I nm s)"
    "holds_val g (executeRenameFS I nm v nm2 v2 t s)"
  using assms by (auto simp: executeLinkFS_def executeUnlinkFS_def executeRenameFS_def intro!: holds_all)

lemmas body_rules = during_rules holds_all holds_directory lookup_then_ok fail_with_ok during_with_dir_lock body_ok_simps

lemma callLinkFS_released: "held s = g \<Longrightarrow> during g (released g) (callLinkFS I t args s)"
  by (auto simp: callLinkFS_def intro!: body_rules)

lemma callUnlinkFS_released: "held s = g \<Longrightarrow> during g (released g) (callUnlinkFS I t args s)"
  by (auto simp: callUnlinkFS_def intro!: body_rules)

lemma callRenameFS_released: "held s = g \<Longrightarrow> during g (released g) (callRenameFS I t args s)"
  by (auto simp: callRenameFS_def intro!: body_rules)

lemma callTruncateFS_released: "held s = g \<Longrightarrow> during g (released g) (callTruncateFS I t args s)"
  by (auto simp: callTruncateFS_def Let_def released_def intro!: during_rules holds_all during_subs)

lemma during_with_file:
  assumes "\<And>file. during g (released g) (k file s)" and "held s = g"
  shows "during g (released g) (with_file I fd t k s)"
  using assms by (auto simp: with_file_def Let_def intro!: during_rules holds_all)

lemma callReadFS_released: "held s = g \<Longrightarrow> during g (released g) (callReadFS I t ret args s)"
  by (auto simp: callReadFS_def released_def intro!: during_rules holds_all during_with_file)

lemma callPreadFS_released: "held s = g \<Longrightarrow> during g (released g) (callPreadFS I t ret args s)"
  by (auto simp: callPreadFS_def released_def intro!: during_rules holds_all during_with_file)

lemma callLseekFS_released: "held s = g \<Longrightarrow> during g (released g) (callLseekFS I t ret args s)"
  by (auto simp: callLseekFS_def released_def intro!: during_rules holds_all during_with_file)

lemma callFsyncFS_released: "held s = g \<Longrightarrow> during g (released g) (callFsyncFS I ret args s)"
  by (auto simp: callFsyncFS_def released_def intro!: during_rules holds_all during_with_file)

lemma callPwriteFS_released: "held s = g \<Longrightarrow> during g (released g) (callPwriteFS I t ret args s)"
  by (auto simp: callPwriteFS_def released_def intro!: during_rules holds_all during_with_file during_subs)

end

section \<open>The exploration driver with a record of the locks\<close>

text \<open>The interpreter on top of the exploration driver; \<open>c\<close> gives what does not change while it runs.\<close>

definition interp :: "'f Env \<Rightarrow> ('f Driver \<Rightarrow> 'f Driver res) \<Rightarrow> nat \<Rightarrow> ('f Driver \<Rightarrow> (SVal \<Rightarrow> bool) option) \<Rightarrow>
    ('f, 'f EEState) EE \<Rightarrow> ('f, 'f EEState) EE" where
  "interp e ex n annot c = Drv.extend (driver_EE e ex n annot) (EE.fields (eeFs c) (eeTypeSize c) (eeStaticString c) (eeReturn c)
     (eeStepBack c) (eeAllocas c) (eeEntry c) (eeStopOnSystemErrors c) (eeErrno c) (eeRunAtExit c))"

lemma interp_thread [simp]:
  "dvThread (interp e ex n annot c) x = getCurThr (xDrv x)"
  "dvSetThread (interp e ex n annot c) f = on_drv (\<lambda>d. upd_thread (dCur d) f d)"
  by (simp_all add: interp_def Drv.defs EE.defs driver_EE_def)

text \<open>The same interpreter with the locks that its calls hold next to its state: a lock is held once the thread has not
  blocked on it, until it is given back.\<close>

definition log1 :: "('s \<Rightarrow> 's res) \<Rightarrow> 's \<times> SAddr list \<Rightarrow> ('s \<times> SAddr list) res" where
  "log1 h = (\<lambda>(s, ls). rbind (h s) (\<lambda>s1. Ok (s1, ls)))"

definition log_val :: "('s \<Rightarrow> ('a \<times> 's) res) \<Rightarrow> 's \<times> SAddr list \<Rightarrow> ('a \<times> 's \<times> SAddr list) res" where
  "log_val h = (\<lambda>(s, ls). rbind (h s) (\<lambda>(v, s1). Ok (v, s1, ls)))"

definition logged :: "('f, 's) EE \<Rightarrow> ('f, 's \<times> SAddr list) EE" where
  "logged I = \<lparr>
     dvThread = (\<lambda>x. dvThread I (fst x)),
     dvSetThread = (\<lambda>f. log1 (dvSetThread I f)),
     dvProgState = (\<lambda>x. dvProgState I (fst x)),
     dvFiles = (\<lambda>x. dvFiles I (fst x)),
     dvSetFiles = (\<lambda>fs (s, ls). (dvSetFiles I fs s, ls)),
     dvTls = (\<lambda>x. dvTls I (fst x)),
     dvSetTls = (\<lambda>a v (s, ls). (dvSetTls I a v s, ls)),
     dvSysError = (\<lambda>c (s, ls). (dvSysError I c s, ls)),
     dvAtExit = (\<lambda>F (s, ls). (dvAtExit I F s, ls)),
     dvLoad = (\<lambda>l. log_val (dvLoad I l)),
     dvStore = (\<lambda>l. log1 (dvStore I l)),
     dvLock = (\<lambda>p a sz (s, ls). rbind (dvLock I p a sz s) (\<lambda>s1. Ok (s1, if is_blocked I s1 = Ok True then ls else a # ls))),
     dvUnlock = (\<lambda>p a sz (s, ls). rbind (dvUnlock I p a sz s) (\<lambda>s1. Ok (s1, remove1 a ls))),
     dvHelpingCas = (\<lambda>l. log1 (dvHelpingCas I l)),
     dvDskRead = (\<lambda>l. log_val (dvDskRead I l)),
     dvDskWrite = (\<lambda>l. log1 (dvDskWrite I l)),
     dvDskFsync = (\<lambda>l. log1 (dvDskFsync I l)),
     dvDskSync = (\<lambda>l. log1 (dvDskSync I l)),
     dvDskPbarrier = (\<lambda>l. log1 (dvDskPbarrier I l)),
     dvDskOpen = (\<lambda>l. log_val (dvDskOpen I l)),
     dvMalloc = (\<lambda>l al st sp. log_val (dvMalloc I l al st sp)),
     dvFree = (\<lambda>l. log1 (dvFree I l)),
     dvFence = (\<lambda>l. log1 (dvFence I l)),
     dvBlock = (\<lambda>l. log1 (dvBlock I l)),
     dvError = (\<lambda>p e. log1 (dvError I p e)),
     dvOptional = (\<lambda>l. log_val (dvOptional I l)),
     dvLoopBegin = (\<lambda>l. log1 (dvLoopBegin I l)),
     dvSpinStart = (\<lambda>l. log1 (dvSpinStart I l)),
     dvFaiZNESpinEnd = (\<lambda>l. log1 (dvFaiZNESpinEnd I l)),
     dvLockZNESpinEnd = (\<lambda>l. log1 (dvLockZNESpinEnd I l)),
     dvHpProtect = (\<lambda>l. log1 (dvHpProtect I l)),
     dvRCULock = (\<lambda>l. log1 (dvRCULock I l)),
     dvRCUUnlock = (\<lambda>l. log1 (dvRCUUnlock I l)),
     dvRCUSync = (\<lambda>l. log1 (dvRCUSync I l)),
     dvThreadSelf = (\<lambda>x. dvThreadSelf I (fst x)),
     dvThreadCreate = (\<lambda>l F a SF. log_val (dvThreadCreate I l F a SF)),
     dvThreadJoin = (\<lambda>l. log_val (dvThreadJoin I l)),
     dvThreadFinish = (\<lambda>l. log1 (dvThreadFinish I l)),
     eeFs = eeFs I,
     eeTypeSize = eeTypeSize I,
     eeStaticString = eeStaticString I,
     eeReturn = eeReturn I,
     eeStepBack = eeStepBack I,
     eeAllocas = eeAllocas I,
     eeEntry = eeEntry I,
     eeStopOnSystemErrors = eeStopOnSystemErrors I,
     eeErrno = eeErrno I,
     eeRunAtExit = log1 (eeRunAtExit I)\<rparr>"

lemma logged_blocked: "is_blocked (logged I) x = is_blocked I (fst x)"
  by (simp add: is_blocked_def logged_def)

lemma upd_thread_get:
  assumes "upd_thread (dCur d) f d = Ok d1"
  shows "\<exists>t. getCurThr d = Ok t \<and> getCurThr d1 = Ok (f t)"
  using assms by (auto simp: upd_thread_def getCurThr_def getThrById_def res_simps)

interpretation lk: lock_keeper "logged (interp e ex n annot c)" snd for e ex n annot c
proof (unfold_locales, goal_cases)
  case (1 f s s1)
  then show ?case
    by (auto simp: logged_def log1_def on_drv_def res_simps split: prod.splits dest!: upd_thread_get)
qed (auto simp: logged_def log1_def log_val_def is_blocked_def res_simps split: prod.splits if_splits)

text \<open>The calls that give their locks back by themselves: every one but \<open>write\<close>.\<close>

definition releasing_calls :: "InternalFunctions set" where
  "releasing_calls = {IF_OpenFS, IF_CreatFS, IF_CloseFS, IF_RenameFS, IF_LinkFS, IF_UnlinkFS, IF_TruncateFS, IF_ReadFS, IF_FsyncFS,
     IF_PreadFS, IF_PwriteFS, IF_LseekFS}"

text \<open>C8: under the exploration driver, a file-system call other than \<open>write\<close> that returns with its thread running holds
  none of the locks it took, whatever it did, failed calls and replays included.\<close>

theorem fs_calls_release_locks:
  assumes "f \<in> releasing_calls"
    and "callCode (logged (interp e ex n annot c)) rng ret p0 args f (x, []) = Ok (x1, locks)"
    and "is_blocked (interp e ex n annot c) x1 \<noteq> Ok True"
  shows "locks = []"
proof -
  have "lk.during [] (lk.released e ex n annot c []) (callCode (logged (interp e ex n annot c)) rng ret p0 args f (x, []))"
    using assms(1) unfolding releasing_calls_def
    by (auto intro!: lk.callOpenFS_released lk.callCreatFS_released lk.callCloseFS_released lk.callRenameFS_released
        lk.callLinkFS_released lk.callUnlinkFS_released lk.callTruncateFS_released lk.callReadFS_released lk.callFsyncFS_released
        lk.callPreadFS_released lk.callPwriteFS_released lk.callLseekFS_released)
  with assms(2) have "lk.released e ex n annot c [] (x1, locks)" unfolding lk.during_def by blast
  then show ?thesis
    using assms(3) by (simp add: lk.released_def lk.blocked_def logged_blocked)
qed

text \<open>A run of \<open>lseek\<close> during recovery: the only store of the graph is where all the fields are.\<close>

definition lk_graph :: ExecutionGraph where
  "lk_graph = \<lparr>events = [[ThreadStartLabel 0 Acquire (Event 0 0) getInitializer 0,
     WriteLabel EL_Write Release (Event 0 1) 64 \<lparr>asize = 4, atype = Signed\<rparr> 64 WA_None]], timestamp = 2, fixStatus = FS_Stale, recoveryTID = 0\<rparr>"

definition lk_thread :: "unit Thread" where
  "lk_thread = \<lparr>thrId = 0, thrParent = - 1, thrFun = 0, thrArg = 0, ecStack = [()], initSF = (), globalInstructions = 1,
     globalInstSnap = 0, thrBlocked = NotBlocked\<rparr>"

definition lk_env :: "unit Env" where
  "lk_env = undefined\<lparr>eConf := undefined\<lparr>persevere := True\<rparr>\<rparr>"

definition lk_state :: "unit EEState" where
  "lk_state = undefined\<lparr>xDrv := undefined\<lparr>dCons := cons_new lk_graph undefined, dThreads := [lk_thread], dCur := 0, dRecovery := True,
     dHalt := True\<rparr>, xFd := \<lparr>fdsUsed = [True], fdToFile = [64]\<rparr>, xProg := PS_Main\<rparr>"

definition lk_const :: "(unit, unit EEState) EE" where
  "lk_const = undefined\<lparr>eeFs := undefined\<lparr>inodeElem := \<lambda>_. 0, fileElem := \<lambda>_. 0\<rparr>, eeTypeSize := \<lambda>_. 4, eeStopOnSystemErrors := True,
     eeReturn := \<lambda>_ f. f\<rparr>"

lemma logged_simps:
  "dvThread (logged I) = (\<lambda>x. dvThread I (fst x))" "dvSetThread (logged I) = (\<lambda>f. log1 (dvSetThread I f))"
  "dvProgState (logged I) = (\<lambda>x. dvProgState I (fst x))" "dvFiles (logged I) = (\<lambda>x. dvFiles I (fst x))"
  "dvSysError (logged I) = (\<lambda>c (s, ls). (dvSysError I c s, ls))" "dvLoad (logged I) = (\<lambda>l. log_val (dvLoad I l))"
  "dvError (logged I) = (\<lambda>p e. log1 (dvError I p e))"
  "dvLock (logged I) = (\<lambda>p a sz (s, ls). rbind (dvLock I p a sz s) (\<lambda>s1. Ok (s1, if is_blocked I s1 = Ok True then ls else a # ls)))"
  "dvUnlock (logged I) = (\<lambda>p a sz (s, ls). rbind (dvUnlock I p a sz s) (\<lambda>s1. Ok (s1, remove1 a ls)))"
  "eeFs (logged I) = eeFs I" "eeTypeSize (logged I) = eeTypeSize I" "eeReturn (logged I) = eeReturn I"
  "eeStopOnSystemErrors (logged I) = eeStopOnSystemErrors I"
  by (simp_all add: logged_def)

lemma interp_simps:
  "dvProgState (interp e ex n annot c) = xProg" "dvFiles (interp e ex n annot c) = (\<lambda>x. fdToFile (xFd x))"
  "dvSysError (interp e ex n annot c) = (\<lambda>c x. x\<lparr>xErr := Some c\<rparr>)"
  "dvLoad (interp e ex n annot c) = (\<lambda>l. on_drv_val (\<lambda>d. visitLoad e l (annot d) d))"
  "dvError (interp e ex n annot c) = (\<lambda>p st. on_drv (visitError e p st))"
  "dvLock (interp e ex n annot c) = (\<lambda>p a sz. on_drv (\<lambda>d. visitLock e ex n (annot d) p a sz d))"
  "dvUnlock (interp e ex n annot c) = (\<lambda>p a sz. on_drv (visitUnlock e ex n p a sz))"
  "eeFs (interp e ex n annot c) = eeFs c" "eeTypeSize (interp e ex n annot c) = eeTypeSize c" "eeReturn (interp e ex n annot c) = eeReturn c"
  "eeStopOnSystemErrors (interp e ex n annot c) = eeStopOnSystemErrors c"
  by (simp_all add: interp_def Drv.defs EE.defs driver_EE_def)

lemmas lk_defs = lk_graph_def lk_thread_def lk_env_def lk_state_def lk_const_def

lemma lk_load:
  assumes "dCons d = cons_new lk_graph undefined" and "dRecovery d" and "asize acc = 4"
  shows "visitLoad e (ReadLabel EL_Read ord (Event 0 2) 64 acc getBottom) an d = Ok (64, d)"
  using assms by (simp add: visitLoad_def getRecReadRetValue_def getLastThreadStoreAtLoc_def getWriteValue_def ReadLabel_def
      WriteLabel_def mkLabel_def dG_def cons_new_def Let_def lk_graph_def getEventLabel_def vec_get_int_def vec_get_def isa_Write_def
      pos_or_init_def isBottom_def isInitializer_def getBottom_def getInitializer_def upto.simps)

definition lk_interp :: "(unit, unit EEState \<times> SAddr list) EE" where
  "lk_interp = logged (interp lk_env undefined 0 (\<lambda>_. None) lk_const)"

text \<open>The thread is at the end of the store, runs, and the driver is in recovery.\<close>

definition lk_ok :: "unit EEState \<Rightarrow> bool" where
  "lk_ok x \<longleftrightarrow> (\<exists>t. dThreads (xDrv x) = [t] \<and> thrId t = 0 \<and> globalInstructions t = 1 \<and> ecStack t \<noteq> [] \<and> thrBlocked t = NotBlocked)
     \<and> dCur (xDrv x) = 0 \<and> dRecovery (xDrv x) \<and> dHalt (xDrv x) \<and> dCons (xDrv x) = cons_new lk_graph undefined
     \<and> fdToFile (xFd x) = [64] \<and> xProg x = PS_Main"

lemmas lk_sel = lk_interp_def logged_simps interp_simps lk_env_def lk_const_def log1_def log_val_def on_drv_def on_drv_val_def

lemma lk_reads:
  assumes "lk_ok x"
  shows "next_pos lk_interp (x, ls) = Ok (Event 0 2)" "cur_pos lk_interp (x, ls) = Ok (Event 0 1)" "is_blocked lk_interp (x, ls) = Ok False"
    "is_blocked (interp lk_env undefined 0 (\<lambda>_. None) lk_const) x = Ok False" "dvFiles lk_interp (x, ls) = [64]"
    "dvProgState lk_interp (x, ls) = PS_Main"
  using assms by (auto simp: lk_ok_def next_pos_def cur_pos_def next_ev_def is_blocked_def lk_sel getCurThr_def getThrById_def
      vec_get_int_def vec_get_def thr_isBlocked_def)

lemma lk_fields:
  "eeTypeSize lk_interp t = 4" "eeStopOnSystemErrors lk_interp" "inodeIsize lk_interp i = i" "fileInode lk_interp f = f"
  "filePosLock lk_interp f = f" "fileOffset lk_interp f = f"
  by (simp_all add: lk_sel inodeIsize_def inode_at_def fileInode_def filePosLock_def fileOffset_def file_at_def)

lemma lk_steps:
  assumes "lk_ok x"
  shows "lock_or_roll lk_interp a t (x, ls) = Ok (True, x, a # ls)" "unlock_at lk_interp a t (x, ls) = Ok (x, remove1 a ls)"
    "asize acc = 4 \<Longrightarrow> load_at lk_interp ord 64 acc (x, ls) = Ok (64, x, ls)"
    "handleSystemError lk_interp c (x, ls) = Ok (x\<lparr>xErr := Some c\<rparr>, ls)"
proof -
  have d: "dRecovery (xDrv x)" "dHalt (xDrv x)" "dCons (xDrv x) = cons_new lk_graph undefined" using assms by (simp_all add: lk_ok_def)
  note r = lk_reads [OF assms]
  show "lock_or_roll lk_interp a t (x, ls) = Ok (True, x, a # ls)"
  proof -
    have "dvLock lk_interp p a z (x, ls) = Ok (x, a # ls)" for p z
      using d r(4) by (simp add: lk_interp_def logged_simps) (simp add: lk_sel visitLock_def)
    then show ?thesis using r by (simp add: lock_or_roll_def do_lock_def)
  qed
  show "unlock_at lk_interp a t (x, ls) = Ok (x, remove1 a ls)"
    using d r by (simp add: unlock_at_def do_unlock_def) (simp add: lk_sel visitUnlock_def)
  show "load_at lk_interp ord 64 acc (x, ls) = Ok (64, x, ls)" if "asize acc = 4"
    using d r that lk_load [of "xDrv x" acc] by (simp add: load_at_def do_load_def) (simp add: lk_sel)
  show "handleSystemError lk_interp c (x, ls) = Ok (x\<lparr>xErr := Some c\<rparr>, ls)"
    using d r by (simp add: handleSystemError_def lk_fields) (simp add: lk_sel visitError_def)
qed

lemma lk_thread_steps:
  assumes "lk_ok x"
  shows "\<exists>x1. take_snapshot lk_interp (x, ls) = Ok (x1, ls) \<and> lk_ok x1" "\<exists>x1. return_sval lk_interp t v (x, ls) = Ok (x1, ls) \<and> lk_ok x1"
  using assms by (auto simp: take_snapshot_def return_sval_def returnValueToCaller_def lk_sel getCurThr_def getThrById_def upd_thread_def
      vec_get_int_def vec_get_def lk_ok_def thr_takeSnapshot_def)

lemma lk_run:
  "\<exists>x1 locks. callCode lk_interp undefined (IntTy 64) (IntTy 32)
      [\<lparr>gvWidth = 32, gvInt = 0, gvPtr = 0\<rparr>, \<lparr>gvWidth = 64, gvInt = 0, gvPtr = 0\<rparr>, \<lparr>gvWidth = 32, gvInt = 3, gvPtr = 0\<rparr>]
      IF_LseekFS (lk_state, []) = Ok (x1, locks) \<and> is_blocked (interp lk_env undefined 0 (\<lambda>_. None) lk_const) x1 \<noteq> Ok True"
proof -
  have "lk_ok lk_state" by (simp add: lk_ok_def lk_state_def lk_thread_def)
  then obtain x0 where x0: "take_snapshot lk_interp (lk_state, []) = Ok (x0, [])" "lk_ok x0" using lk_thread_steps(1) by blast
  let ?x1 = "x0\<lparr>xErr := Some SE_EINVAL\<rparr>"
  have ok: "lk_ok ?x1" using x0(2) by (simp add: lk_ok_def)
  then obtain x2 where x2: "return_sval lk_interp (IntTy 64) (- 1) (?x1, []) = Ok (x2, [])" "lk_ok x2" using lk_thread_steps(2) by blast
  have "executeLseekFS lk_interp 64 (IntTy 32) 0 3 (x0, [64]) = Ok (- 1, ?x1, [64])"
    using x0(2) by (simp add: executeLseekFS_def readInodeSizeFS_def lk_steps lk_reads lk_fields acc_of_def ptr_acc_def)
  then show ?thesis
    using x0 x2 ok by (simp add: callLseekFS_def int_arg_def vec_get_def with_file_def getFileFromFd_def lk_steps lk_reads lk_fields)
qed

theorem fs_calls_release_locks_witness:
  "\<exists>x1. callCode (logged (interp lk_env undefined 0 (\<lambda>_. None) lk_const)) undefined (IntTy 64) (IntTy 32)
      [\<lparr>gvWidth = 32, gvInt = 0, gvPtr = 0\<rparr>, \<lparr>gvWidth = 64, gvInt = 0, gvPtr = 0\<rparr>, \<lparr>gvWidth = 32, gvInt = 3, gvPtr = 0\<rparr>]
      IF_LseekFS (lk_state, []) = Ok (x1, [])"
proof -
  obtain x1 locks where r: "callCode (logged (interp lk_env undefined 0 (\<lambda>_. None) lk_const)) undefined (IntTy 64) (IntTy 32)
      [\<lparr>gvWidth = 32, gvInt = 0, gvPtr = 0\<rparr>, \<lparr>gvWidth = 64, gvInt = 0, gvPtr = 0\<rparr>, \<lparr>gvWidth = 32, gvInt = 3, gvPtr = 0\<rparr>]
      IF_LseekFS (lk_state, []) = Ok (x1, locks)" "is_blocked (interp lk_env undefined 0 (\<lambda>_. None) lk_const) x1 \<noteq> Ok True"
    using lk_run unfolding lk_interp_def by blast
  have "IF_LseekFS \<in> releasing_calls" by (simp add: releasing_calls_def)
  from fs_calls_release_locks [OF this r] r(1) show ?thesis by blast
qed

end
