(* ===== verification/GenMC_SeqFS.thy ===== *)
theory GenMC_SeqFS
  imports GenMC_LibCalls
begin

text \<open>
  What the file system promises to a single thread: a file is a sequence of bytes. The interpreter's code
  (\<open>src/src/Execution.cpp\<close>) runs here on a driver that is sequential: memory and disk are maps from addresses to
  values, a read gives the last write, and locks are held or free. A write of the code then is a write of the
  bytes, whatever the block size and the way of journaling, and reading gives the bytes back.
\<close>

section \<open>A sequential driver\<close>

record 'f Seq =
  sqThread :: "'f Thread"
  sqMem :: "SAddr \<Rightarrow> SVal"
  sqDisk :: "SAddr \<Rightarrow> SVal"
  sqHeld :: "SAddr list"
  sqFiles :: "SAddr list"

definition sequential :: "('f, 'f Seq) EE \<Rightarrow> ('f, 'f Seq) EE" where
  "sequential I = I\<lparr>
     dvThread := (\<lambda>s. Ok (sqThread s)),
     dvSetThread := (\<lambda>f s. Ok (s\<lparr>sqThread := f (sqThread s)\<rparr>)),
     dvProgState := (\<lambda>s. PS_Main),
     dvFiles := sqFiles,
     dvLoad := (\<lambda>l s. Ok (sqMem s (laddr l), s)),
     dvStore := (\<lambda>l s. Ok (s\<lparr>sqMem := (sqMem s)(laddr l := lval l)\<rparr>)),
     dvLock := (\<lambda>p a sz s. Ok (if a \<in> set (sqHeld s) then s\<lparr>sqThread := thr_block LockNotAcq (sqThread s)\<rparr>
       else s\<lparr>sqHeld := a # sqHeld s\<rparr>)),
     dvUnlock := (\<lambda>p a sz s. Ok (s\<lparr>sqHeld := remove1 a (sqHeld s)\<rparr>)),
     dvDskRead := (\<lambda>l s. Ok (sqDisk s (laddr l), s)),
     dvDskWrite := (\<lambda>l s. Ok (s\<lparr>sqDisk := (sqDisk s)(laddr l := lval l)\<rparr>)),
     dvDskFsync := (\<lambda>l s. Ok s)\<rparr>"

lemma label_fields [simp]:
  "laddr (ReadLabel k ord p a acc rf) = a" "laddr (WriteLabel k ord p a acc v w) = a" "lval (WriteLabel k ord p a acc v w) = v"
  "laddr (DskReadLabel p a acc) = a" "laddr (DskWriteLabel k p a acc v m) = a" "lval (DskWriteLabel k p a acc v m) = v"
  "laddr (DskMdWriteLabel p a acc v m r) = a" "lval (DskMdWriteLabel p a acc v m r) = v"
  "laddr (DskJnlWriteLabel p a acc v m i) = a" "lval (DskJnlWriteLabel p a acc v m i) = v"
  by (simp_all add: ReadLabel_def WriteLabel_def DskReadLabel_def DskWriteLabel_def DskMdWriteLabel_def DskJnlWriteLabel_def)

lemma sequential_layout [simp]:
  "eeFs (sequential I) = eeFs I" "inodeLock (sequential I) = inodeLock I" "inodeIsize (sequential I) = inodeIsize I"
  "inodeItrans (sequential I) = inodeItrans I" "inodeIdisksize (sequential I) = inodeIdisksize I"
  "inodeData (sequential I) = inodeData I" "fileInode (sequential I) = fileInode I" "fileFlags (sequential I) = fileFlags I"
  "fileOffset (sequential I) = fileOffset I" "filePosLock (sequential I) = filePosLock I" "dvProgState (sequential I) s = PS_Main" "dvFiles (sequential I) = sqFiles"
  by (simp_all add: sequential_def fun_eq_iff inodeLock_def inodeIsize_def inodeItrans_def inodeIdisksize_def inodeData_def
      inode_at_def fileInode_def fileFlags_def fileOffset_def filePosLock_def file_at_def)

lemma sequential_ops [simp]:
  "load_at (sequential I) ord a acc s = Ok (sqMem s a, s)"
  "store_at (sequential I) ord a acc v s = Ok (s\<lparr>sqMem := (sqMem s)(a := v)\<rparr>)"
  "do_dskRead (sequential I) a acc s = Ok (sqDisk s a, s)"
  "executeFsyncFS (sequential I) n s = Ok s"
  "is_blocked (sequential I) s = Ok (thr_isBlocked (sqThread s))"
  "unlock_at (sequential I) a t s = Ok (s\<lparr>sqHeld := remove1 a (sqHeld s)\<rparr>)"
  by (simp_all add: load_at_def store_at_def do_load_def do_store_def do_dskRead_def executeFsyncFS_def is_blocked_def next_pos_def
      cur_pos_def unlock_at_def do_unlock_def sequential_def)

lemma sequential_dskWrite:
  "do_dskWrite (sequential I) mk s = (let p = next_ev (Event (thrId (sqThread s)) (int (globalInstructions (sqThread s)))) in
     Ok (s\<lparr>sqDisk := (sqDisk s)(laddr (mk p) := lval (mk p))\<rparr>))"
  by (simp add: do_dskWrite_def next_pos_def cur_pos_def sequential_def Let_def)

lemma sequential_lock:
  assumes "a \<notin> set (sqHeld s)" and "\<not> thr_isBlocked (sqThread s)"
  shows "lock_or_roll (sequential I) a t s = Ok (True, s\<lparr>sqHeld := a # sqHeld s\<rparr>)"
  using assms by (simp add: lock_or_roll_def do_lock_def next_pos_def cur_pos_def) (simp add: sequential_def)

section \<open>Bytes on the disk\<close>

lemma unat_eq_nat: "c < 2 ^ 64 \<Longrightarrow> unat (x :: 64 word) = c \<longleftrightarrow> x = of_nat c"
  using of_nat_inverse [of c x] by (auto simp: unat_of_nat)

lemma rfold_one: "rfold f [x] = f x"
proof
  fix s show "rfold f [x] s = f x s" by (cases "f x s") auto
qed

lemma region_Suc:
  assumes "c < 2 ^ 64"
  shows "unat (a - base :: 64 word) < Suc c \<longleftrightarrow> unat (a - base) < c \<or> a = base + of_nat c"
  using unat_eq_nat [OF assms, of "a - base"] by (auto simp: less_Suc_eq algebra_simps)

lemma region_last: "c < 2 ^ 64 \<Longrightarrow> unat (base + of_nat c - base :: 64 word) = c"
  by (simp add: unat_eq_nat)

lemma copy_bytes:
  assumes "c \<le> 2 ^ 64"
  shows "rfold (\<lambda>i s. Ok (s\<lparr>sqDisk := (sqDisk s)(B + of_nat i := sqMem s (A + of_nat i))\<rparr>)) [0..<c] s =
    Ok (s\<lparr>sqDisk := \<lambda>a. if unat (a - B) < c then sqMem s (A + (a - B)) else sqDisk s a\<rparr>)"
  using assms
proof (induction c)
  case (Suc c)
  then have c: "c < 2 ^ 64" "c \<le> 2 ^ 64" by simp_all
  have eq: "(\<lambda>a. if unat (a - B) < c then sqMem s (A + (a - B)) else sqDisk s a)(B + of_nat c := sqMem s (A + of_nat c))
    = (\<lambda>a. if unat (a - B) < Suc c then sqMem s (A + (a - B)) else sqDisk s a)"
    by (auto simp: fun_eq_iff region_Suc [OF c(1)])
  show ?case unfolding upt_Suc_append [OF le0] rfold_append Suc.IH [OF c(2)] rbind.simps rfold_one by (simp add: eq)
qed simp

lemma byte_ops_seq:
  "write_byte (sequential I) n a b typ = (\<lambda>s. Ok (s\<lparr>sqDisk := (sqDisk s)(b := sqMem s a)\<rparr>))"
  "do_dskWrite (sequential I) (\<lambda>p. DskWriteLabel EL_DskWrite p b acc v n) = (\<lambda>s. Ok (s\<lparr>sqDisk := (sqDisk s)(b := v)\<rparr>))"
  "read_byte (sequential I) b a typ = (\<lambda>s. Ok (s\<lparr>sqMem := (sqMem s)(a := sqDisk s b)\<rparr>))"
  by (simp_all add: fun_eq_iff write_byte_def read_byte_def sequential_dskWrite Let_def)

lemma write_bytes_seq:
  assumes "c \<le> 2 ^ 64"
  shows "rfold (\<lambda>i. write_byte (sequential I) n (A + of_nat i) (B + of_nat i) typ) [0..<c] s =
    Ok (s\<lparr>sqDisk := \<lambda>a. if unat (a - B) < c then sqMem s (A + (a - B)) else sqDisk s a\<rparr>)"
  using copy_bytes [OF assms, of B A s] by (simp add: byte_ops_seq)

lemma fetch_bytes:
  assumes "c \<le> 2 ^ 64"
  shows "rfold (\<lambda>i s. Ok (s\<lparr>sqMem := (sqMem s)(A + of_nat i := sqDisk s (B + of_nat i))\<rparr>)) [0..<c] s =
    Ok (s\<lparr>sqMem := \<lambda>a. if unat (a - A) < c then sqDisk s (B + (a - A)) else sqMem s a\<rparr>)"
  using assms
proof (induction c)
  case (Suc c)
  then have c: "c < 2 ^ 64" "c \<le> 2 ^ 64" by simp_all
  have eq: "(\<lambda>a. if unat (a - A) < c then sqDisk s (B + (a - A)) else sqMem s a)(A + of_nat c := sqDisk s (B + of_nat c))
    = (\<lambda>a. if unat (a - A) < Suc c then sqDisk s (B + (a - A)) else sqMem s a)"
    by (auto simp: fun_eq_iff region_Suc [OF c(1)])
  show ?case unfolding upt_Suc_append [OF le0] rfold_append Suc.IH [OF c(2)] rbind.simps rfold_one by (simp add: eq)
qed simp

lemma load_bytes:
  assumes "c \<le> 2 ^ 64"
  shows "rfold (\<lambda>i. read_byte (sequential I) (B + of_nat i) (A + of_nat i) typ) [0..<c] s =
    Ok (s\<lparr>sqMem := \<lambda>a. if unat (a - A) < c then sqDisk s (B + (a - A)) else sqMem s a\<rparr>)"
  using fetch_bytes [OF assms, of A B s] by (simp add: byte_ops_seq)

lemma clear_bytes:
  assumes "b \<le> 2 ^ 64"
  shows "rfold (\<lambda>i s. Ok (s\<lparr>sqDisk := (sqDisk s)(D + of_nat i := 0)\<rparr>)) [a..<b] s =
    Ok (s\<lparr>sqDisk := \<lambda>x. if a \<le> unat (x - D) \<and> unat (x - D) < b then 0 else sqDisk s x\<rparr>)"
  using assms
proof (induction b)
  case (Suc b)
  then have b: "b < 2 ^ 64" "b \<le> 2 ^ 64" by simp_all
  have eq: "(\<lambda>x. if a \<le> unat (x - D) \<and> unat (x - D) < b then 0 else sqDisk s x)(D + of_nat b := 0)
    = (\<lambda>x. if a \<le> unat (x - D) \<and> unat (x - D) < Suc b then 0 else sqDisk s x)" if "a \<le> b"
    using that region_last [OF b(1), of D] by (auto simp: fun_eq_iff region_Suc [OF b(1)])
  show ?case
  proof (cases "a \<le> b")
    case True
    show ?thesis unfolding upt_Suc_append [OF True] rfold_append Suc.IH [OF b(2)] rbind.simps rfold_one by (simp add: eq [OF True])
  next
    case False
    then have "(\<lambda>x. if a \<le> unat (x - D) \<and> unat (x - D) < Suc b then 0 else sqDisk s x) = sqDisk s" by (auto simp: fun_eq_iff)
    with False show ?thesis by simp
  qed
qed simp

lemma zeroDskRange_seq:
  "zeroDskRangeFS (sequential I) n a b typ s =
    Ok (s\<lparr>sqDisk := \<lambda>x. if unat a \<le> unat (x - inodeData I n) \<and> unat (x - inodeData I n) < unat b then 0 else sqDisk s x\<rparr>)"
proof -
  have "unat b \<le> 2 ^ 64" using unsigned_less [where 'a = nat and w = b] by simp
  from clear_bytes [OF this] show ?thesis by (simp add: zeroDskRangeFS_def byte_ops_seq)
qed

section \<open>Writing\<close>

lemma uint_bound: "unat (v :: 'a :: len word) < 2 ^ k \<Longrightarrow> uint v < 2 ^ k"
proof -
  assume "unat v < 2 ^ k"
  then have "int (unat v) < int (2 ^ k)" by (simp only: of_nat_less_iff)
  then show ?thesis by simp
qed

lemma sval_getSigned_uint:
  assumes "unat v < 2 ^ 63"
  shows "sval_getSigned v = uint v"
proof -
  have "uint v < 2 ^ 63" using assms by (rule uint_bound)
  moreover have "- (2 ^ 63) \<le> uint v" by (rule order_trans [OF _ uint_ge_0]) simp
  ultimately show ?thesis by (simp add: sval_getSigned_def sint_uint signed_take_bit_int_eq_self_iff)
qed

lemma sval_getSigned_less:
  "unat v < 2 ^ 63 \<Longrightarrow> unat w < 2 ^ 63 \<Longrightarrow> sval_getSigned v < sval_getSigned w \<longleftrightarrow> unat v < unat w"
  by (simp add: sval_getSigned_uint flip: word_less_def word_less_nat_alt)

lemma word_add_nat: "unat (a :: 64 word) + unat b < 2 ^ 64 \<Longrightarrow> unat (a + b) = unat a + unat b"
  by (simp add: unat_word_ariths)

lemma int_param:
  assumes "unat (v :: 64 word) < 2 ^ 31"
  shows "unat (ucast v :: 32 word) = unat v" "(scast (ucast v :: 32 word) :: 64 word) = v"
proof -
  have u: "uint v < 2 ^ 31" using assms by (rule uint_bound)
  then have c: "uint (ucast v :: 32 word) = uint v" by (simp add: unsigned_ucast_eq take_bit_int_eq_self)
  then show "unat (ucast v :: 32 word) = unat v" by (metis nat_uint_eq)
  have "- (2 ^ 31) \<le> uint v" by (rule order_trans [OF _ uint_ge_0]) simp
  with u c have "sint (ucast v :: 32 word) = uint v" by (simp add: sint_uint signed_take_bit_int_eq_self_iff)
  then show "(scast (ucast v :: 32 word) :: 64 word) = v" by (simp add: scast_eq)
qed

lemma seq_commute [simp]: "s\<lparr>sqDisk := d, sqMem := m\<rparr> = s\<lparr>sqMem := m, sqDisk := d\<rparr>" for s :: "'f Seq"
  by simp

lemma seq_same [simp]: "s\<lparr>sqMem := sqMem s, sqDisk := sqDisk s\<rparr> = s" for s :: "'f Seq"
  by simp

text \<open>A chunk writes its bytes and the size; besides, only the two metadata words of the disk may change.\<close>

definition metadata :: "('f, 's, 'x) EE_scheme \<Rightarrow> SAddr \<Rightarrow> SAddr set" where
  "metadata I n = {inodeItrans I n, inodeIdisksize I n}"

lemma updateInodeDisksize_seq:
  "\<exists>d. updateInodeDisksizeFS (sequential I) n t v b e s = Ok (s\<lparr>sqDisk := d\<rparr>) \<and> (\<forall>a. a \<notin> metadata I n \<longrightarrow> d a = sqDisk s a)"
  by (auto simp: updateInodeDisksizeFS_def sequential_dskWrite Let_def metadata_def)

lemma setTrans_seq:
  "setInodeTransStatus (sequential I) n t v s = Ok (s\<lparr>sqDisk := (sqDisk s)(inodeItrans I n := v)\<rparr>)"
  by (simp add: setInodeTransStatus_def sequential_dskWrite Let_def)

lemma readInodeSize_seq: "readInodeSizeFS (sequential I) n t s = Ok (sqMem s (inodeIsize I n), s)"
  by (simp add: readInodeSizeFS_def)

lemma grow_inode_seq:
  assumes "unat (sqMem s (inodeIsize I n)) < 2 ^ 63" "unat v < 2 ^ 63"
  shows "\<exists>d b'. grow_inode (sequential I) n t v b s =
      Ok (b', s\<lparr>sqMem := (sqMem s)(inodeIsize I n := max v (sqMem s (inodeIsize I n))), sqDisk := d\<rparr>)
    \<and> (\<forall>a. a \<notin> metadata I n \<longrightarrow> d a = sqDisk s a)"
proof -
  obtain d where d: "updateInodeDisksizeFS (sequential I) n t v b v s = Ok (s\<lparr>sqDisk := d\<rparr>)" "\<forall>a. a \<notin> metadata I n \<longrightarrow> d a = sqDisk s a"
    using updateInodeDisksize_seq by blast
  show ?thesis
  proof (cases "unat (sqMem s (inodeIsize I n)) < unat v")
    case True
    then have "max v (sqMem s (inodeIsize I n)) = v" by (simp add: max_def word_le_nat_alt)
    with True d assms show ?thesis
      by (auto simp: grow_inode_def readInodeSize_seq sval_getSigned_less updateInodeSizeFS_def)
  next
    case False
    then have "max v (sqMem s (inodeIsize I n)) = sqMem s (inodeIsize I n)" by (simp add: max_def word_le_nat_alt)
    with False assms show ?thesis
      by (auto simp: grow_inode_def readInodeSize_seq sval_getSigned_less intro!: exI [of _ "sqDisk s"])
  qed
qed

text \<open>Where the bytes are: those at addresses of the buffer that are not the size of the inode.\<close>

definition outside :: "SAddr \<Rightarrow> nat \<Rightarrow> SAddr \<Rightarrow> bool" where
  "outside base len a \<longleftrightarrow> len \<le> unat (a - base)"

definition wrote :: "SAddr \<Rightarrow> SAddr \<Rightarrow> SAddr set \<Rightarrow> nat \<Rightarrow> 'f Seq \<Rightarrow> (SAddr \<Rightarrow> SVal) \<Rightarrow> bool" where
  "wrote base buf meta c s d \<longleftrightarrow> (\<forall>a. a \<notin> meta \<longrightarrow> d a = (if unat (a - base) < c then sqMem s (buf + (a - base)) else sqDisk s a))"

lemma write_chunk_seq:
  fixes s :: "'f Seq"
  assumes "unat off + unat b < 2 ^ 31" and "unat (sqMem s (inodeIsize I n)) < 2 ^ 31"
  shows "\<exists>d ob'. write_chunk (sequential I) n t buf typ bo off b ob s =
      Ok (ob', s\<lparr>sqMem := (sqMem s)(inodeIsize I n := max (off + b) (sqMem s (inodeIsize I n))), sqDisk := d\<rparr>)
    \<and> wrote (inodeData I n + off) (buf + scast bo) (metadata I n) (unat b) s d
    \<and> (journalData (eeFs I) = JD_journal \<longrightarrow> d (inodeItrans I n) = 0)"
proof -
  define s1 where "s1 = (if journalData (eeFs I) = JD_journal then s\<lparr>sqDisk := (sqDisk s)(inodeItrans I n := 1)\<rparr> else s)"
  define d2 where "d2 = (\<lambda>a. if unat (a - (inodeData I n + off)) < unat b then sqMem s (buf + scast bo + (a - (inodeData I n + off))) else sqDisk s1 a)"
  have sm: "unat off < 2 ^ 31" "unat b < 2 ^ 31" "unat b \<le> 2 ^ 64" using assms(1) by simp_all
  have mem: "sqMem s1 = sqMem s" by (simp add: s1_def)
  have w: "writeDataToDisk (sequential I) buf bo n (ucast off) (ucast b) typ s1 = Ok (s1\<lparr>sqDisk := d2\<rparr>)"
    unfolding writeDataToDisk_def int_param [OF sm(1)] int_param [OF sm(2)] sequential_layout write_bytes_seq [OF sm(3)]
    by (simp add: d2_def mem cong: if_cong)
  have ob: "unat (off + b) < 2 ^ 63" using assms(1) by (simp add: word_add_nat)
  have isz: "unat (sqMem (s1\<lparr>sqDisk := d2\<rparr>) (inodeIsize I n)) < 2 ^ 63" using assms(2) by (simp add: s1_def)
  obtain d3 ob' where g: "grow_inode (sequential I) n t (off + b) ob (s1\<lparr>sqDisk := d2\<rparr>) =
      Ok (ob', s1\<lparr>sqMem := (sqMem s)(inodeIsize I n := max (off + b) (sqMem s (inodeIsize I n))), sqDisk := d3\<rparr>)"
    "\<forall>a. a \<notin> metadata I n \<longrightarrow> d3 a = d2 a"
    using grow_inode_seq [OF isz ob, of t ob] by (auto simp: s1_def)
  have s1: "(if journalData (eeFs I) = JD_journal then setInodeTransStatus (sequential I) n t 1 s else Ok s) = Ok s1"
    by (simp add: setTrans_seq s1_def)
  have d3: "wrote (inodeData I n + off) (buf + scast bo) (metadata I n) (unat b) s d3"
    using g(2) by (auto simp: wrote_def d2_def s1_def metadata_def)
  show ?thesis
  proof (cases "journalData (eeFs I) = JD_journal")
    case True
    have "wrote (inodeData I n + off) (buf + scast bo) (metadata I n) (unat b) s (d3(inodeItrans I n := 0))"
      using d3 by (auto simp: wrote_def metadata_def)
    moreover have "write_chunk (sequential I) n t buf typ bo off b ob s =
      Ok (ob', s1\<lparr>sqMem := (sqMem s)(inodeIsize I n := max (off + b) (sqMem s (inodeIsize I n))), sqDisk := d3(inodeItrans I n := 0)\<rparr>)"
      unfolding write_chunk_def sequential_layout s1 rbind.simps w g(1) using True by (simp add: setTrans_seq)
    ultimately show ?thesis using True by (auto simp: s1_def)
  next
    case False
    moreover have "write_chunk (sequential I) n t buf typ bo off b ob s =
      Ok (ob', s1\<lparr>sqMem := (sqMem s)(inodeIsize I n := max (off + b) (sqMem s (inodeIsize I n))), sqDisk := d3\<rparr>)"
      unfolding write_chunk_def sequential_layout s1 rbind.simps w g(1) using False by simp
    ultimately show ?thesis using d3 by (auto simp: s1_def)
  qed
qed

lemma scast_nat:
  assumes "unat (w :: 32 word) < 2 ^ 31"
  shows "(scast w :: 64 word) = of_nat (unat w)"
proof -
  have "- (2 ^ 31) \<le> uint w" by (rule order_trans [OF _ uint_ge_0]) simp
  with uint_bound [OF assms] have "sint w = uint w" by (simp add: sint_uint signed_take_bit_int_eq_self_iff)
  then show ?thesis by (simp add: scast_eq)
qed

lemma buffer_offset:
  assumes "unat bo + unat b < 2 ^ 31"
  shows "(scast (bo + ucast b :: 32 word) :: 64 word) = scast bo + b" "unat (bo + ucast b) = unat bo + unat b"
proof -
  have b: "unat (ucast b :: 32 word) = unat b" using assms by (intro int_param) simp
  then show u: "unat (bo + ucast b) = unat bo + unat b" using assms by (simp add: unat_word_ariths)
  have "(scast (bo + ucast b :: 32 word) :: 64 word) = of_nat (unat bo + unat b)"
    using assms by (subst scast_nat) (simp_all add: u)
  also have "\<dots> = scast bo + b" using assms by (subst scast_nat) simp_all
  finally show "(scast (bo + ucast b :: 32 word) :: 64 word) = scast bo + b" .
qed

lemma region_split:
  fixes x b c :: "64 word"
  assumes "b \<le> c"
  shows "unat (x - b) < unat (c - b) \<longleftrightarrow> unat b \<le> unat x \<and> unat x < unat c"
proof (cases "b \<le> x")
  case True
  with assms show ?thesis by (auto simp: unat_sub word_le_nat_alt)
next
  case False
  then have "unat (x - b) = unat x + 2 ^ 64 - unat b" by (simp add: unat_sub_if_size word_size word_le_nat_alt)
  with False assms show ?thesis using unsigned_less [where 'a = nat and w = c] by (simp add: unat_sub word_le_nat_alt)
qed

lemma wrote_then:
  assumes "wrote base buf meta (unat b) s d" and "wrote (base + b) (buf + b) meta (unat (c - b)) s' d'"
    and "sqDisk s' = d" "sqMem s' = (sqMem s)(i := v)" and "b \<le> c" and "outside buf (unat c) i"
  shows "wrote base buf meta (unat c) s d'"
  unfolding wrote_def
proof (intro allI impI)
  fix a assume a: "a \<notin> meta"
  define x where "x = a - base"
  have x: "a - (base + b) = x - b" "buf + b + (a - (base + b)) = buf + x" by (simp_all add: x_def)
  have i: "buf + x \<noteq> i" if "unat x < unat c" using that assms(6) by (auto simp: outside_def)
  show "d' a = (if unat (a - base) < unat c then sqMem s (buf + (a - base)) else sqDisk s a)"
    using a assms i by (auto simp: wrote_def x region_split word_le_nat_alt simp flip: x_def)
qed

lemma outside_later:
  assumes "outside base (unat c) a" and "b \<le> c"
  shows "outside (base + b) (unat (c - b)) a"
proof -
  have "b \<le> a - base" using assms by (simp add: outside_def word_le_nat_alt)
  then have "unat (a - base - b) = unat (a - base) - unat b" by (simp add: unat_sub)
  moreover have "a - (base + b) = a - base - b" by simp
  ultimately show ?thesis using assms unfolding outside_def unat_sub [OF assms(2)] by (simp only: diff_le_mono)
qed

lemma unat_max: "unat (max a b :: 64 word) = max (unat a) (unat b)"
  by (simp add: max_def word_le_nat_alt)

lemma buffered_loop_seq:
  fixes s :: "'f Seq"
  assumes "fsBlockSize (eeFs I) \<noteq> 0" and "cnt \<noteq> 0" and "unat off + unat cnt < 2 ^ 31" "unat bo + unat cnt < 2 ^ 31"
    and "unat (sqMem s (inodeIsize I n)) < 2 ^ 31" and "outside (buf + scast bo) (unat cnt) (inodeIsize I n)"
  shows "\<exists>d. buffered_loop (sequential I) n t buf typ bo off cnt ob s =
      Ok (s\<lparr>sqMem := (sqMem s)(inodeIsize I n := max (off + cnt) (sqMem s (inodeIsize I n))), sqDisk := d\<rparr>)
    \<and> wrote (inodeData I n + off) (buf + scast bo) (metadata I n) (unat cnt) s d
    \<and> (journalData (eeFs I) = JD_journal \<longrightarrow> d (inodeItrans I n) = 0)"
  using assms(2-)
proof (induction cnt arbitrary: off bo ob s rule: measure_induct_rule [where f = unat])
  case (less cnt)
  let ?i = "inodeIsize I n" and ?b = "chunk_bytes (fsBlockSize (eeFs I)) off cnt"
  have b: "?b \<le> cnt" "0 < ?b" using chunk_bytes_le chunk_bytes_pos assms(1) less.prems(1) by blast+
  then have ub: "unat ?b \<le> unat cnt" "0 < unat ?b" "unat (cnt - ?b) = unat cnt - unat ?b"
    by (simp_all add: word_le_nat_alt word_less_nat_alt unat_sub)
  obtain d ob' where d: "write_chunk (sequential I) n t buf typ bo off ?b ob s =
      Ok (ob', s\<lparr>sqMem := (sqMem s)(?i := max (off + ?b) (sqMem s ?i)), sqDisk := d\<rparr>)"
      "wrote (inodeData I n + off) (buf + scast bo) (metadata I n) (unat ?b) s d"
      "journalData (eeFs I) = JD_journal \<longrightarrow> d (inodeItrans I n) = 0"
    using write_chunk_seq [of off ?b s I n t buf "typ" bo ob] less.prems ub by fastforce
  show ?case
  proof (cases "cnt - ?b = 0")
    case True
    then have "?b = cnt" by simp
    with d(1) assms(1) have "buffered_loop (sequential I) n t buf typ bo off cnt ob s =
        Ok (s\<lparr>sqMem := (sqMem s)(?i := max (off + cnt) (sqMem s ?i)), sqDisk := d\<rparr>)"
      by (subst buffered_loop.simps) (simp add: Let_def)
    moreover have "wrote (inodeData I n + off) (buf + scast bo) (metadata I n) (unat cnt) s d"
      using d(2) \<open>?b = cnt\<close> by simp
    ultimately show ?thesis using d(3) by blast
  next
    case False
    let ?s1 = "s\<lparr>sqMem := (sqMem s)(?i := max (off + ?b) (sqMem s ?i)), sqDisk := d\<rparr>"
    have o: "unat (off + ?b) = unat off + unat ?b" using less.prems ub by (simp add: word_add_nat)
    have bo: "(scast (bo + ucast ?b :: 32 word) :: 64 word) = scast bo + ?b" "unat (bo + ucast ?b) = unat bo + unat ?b"
      using less.prems ub by (simp_all add: buffer_offset)
    have B: "buf + scast (bo + ucast ?b :: 32 word) = buf + scast bo + ?b" by (simp add: bo(1))
    have "off + ?b \<le> off + cnt" using less.prems ub by (simp add: word_le_nat_alt word_add_nat)
    then have m: "max (off + cnt) (max (off + ?b) v) = max (off + cnt) v" for v by (auto simp: max_def)
    have "unat (sqMem ?s1 ?i) < 2 ^ 31" using less.prems ub by (simp add: unat_max o)
    moreover have "outside (buf + scast (bo + ucast ?b :: 32 word)) (unat (cnt - ?b)) ?i"
      unfolding B by (rule outside_later [OF less.prems(5) b(1)])
    ultimately obtain d1 where d1: "buffered_loop (sequential I) n t buf typ (bo + ucast ?b) (off + ?b) (cnt - ?b) ob' ?s1 =
        Ok (?s1\<lparr>sqMem := (sqMem ?s1)(?i := max (off + ?b + (cnt - ?b)) (sqMem ?s1 ?i)), sqDisk := d1\<rparr>)"
      "wrote (inodeData I n + (off + ?b)) (buf + scast (bo + ucast ?b :: 32 word)) (metadata I n) (unat (cnt - ?b)) ?s1 d1"
      "journalData (eeFs I) = JD_journal \<longrightarrow> d1 (inodeItrans I n) = 0"
      using less.IH [of "cnt - ?b" "off + ?b" "bo + ucast ?b" ?s1 ob'] less.prems ub False o bo(2) by fastforce
    have "wrote (inodeData I n + off) (buf + scast bo) (metadata I n) (unat cnt) s d1"
      by (rule wrote_then [OF d(2) _ _ _ b(1) less.prems(5), where s' = ?s1 and v = "max (off + ?b) (sqMem s ?i)"])
        (use d1(2) in \<open>simp_all add: B add.assoc\<close>)
    moreover have "buffered_loop (sequential I) n t buf typ bo off cnt ob s =
        Ok (s\<lparr>sqMem := (sqMem s)(?i := max (off + cnt) (sqMem s ?i)), sqDisk := d1\<rparr>)"
      using d(1) d1(1) assms(1) False by (subst buffered_loop.simps) (simp add: Let_def m)
    ultimately show ?thesis using d1(3) by blast
  qed
qed

text \<open>Gaps are filled with zeros, and with delayed allocation the block the file ends in as far as the write goes.\<close>

lemma shouldUpdate_range:
  assumes "shouldUpdateInodeDisksizeFS bs isz off cnt = Ok (Some dsz)"
    and "unat off + unat cnt < 2 ^ 31" and "unat isz < 2 ^ 31"
  shows "unat isz \<le> unat dsz" "unat dsz \<le> unat off + unat cnt"
proof -
  define rest where "rest = ucast bs - isz mod ucast bs"
  have bs: "bs \<noteq> 0" using assms(1) by (auto simp: shouldUpdateInodeDisksizeFS_def)
  have u: "unat (ucast bs :: 64 word) = unat bs" by (rule unat_zero_extend)
  with bs have pos: "(0 :: 64 word) < ucast bs" by (simp add: word_less_nat_alt unat_gt_0)
  have le: "unat rest \<le> unat (ucast bs :: 64 word)"
    using word_mod_less_divisor [OF pos, of isz] by (simp add: rest_def unat_sub order_less_imp_le)
  have "unat (ucast bs :: 64 word) < 2 ^ 32" using unsigned_less [where 'a = nat and w = bs] u by simp
  then have e: "unat (isz + rest) = unat isz + unat rest" using le assms(3) by (intro word_add_nat) simp
  have o: "unat (off + cnt) = unat off + unat cnt" using assms(2) by (intro word_add_nat) simp
  have d: "dsz = min (isz + rest) (off + cnt)"
    and c: "(off \<le> isz \<and> isz < off + cnt) \<or> (off < isz + rest \<and> isz + rest \<le> off + cnt) \<or> (isz \<le> off \<and> off + cnt \<le> isz + rest)"
    using assms(1) bs by (auto simp: shouldUpdateInodeDisksizeFS_def Let_def rest_def split: if_splits)
  show "unat isz \<le> unat dsz" using c e o by (auto simp: d min_def word_le_nat_alt word_less_nat_alt)
  show "unat dsz \<le> unat off + unat cnt" using o by (auto simp: d min_def word_le_nat_alt)
qed

definition zeroed :: "('f, 's, 'x) EE_scheme \<Rightarrow> SAddr \<Rightarrow> nat \<Rightarrow> nat \<Rightarrow> (SAddr \<Rightarrow> SVal) \<Rightarrow> (SAddr \<Rightarrow> SVal) \<Rightarrow> bool" where
  "zeroed I n lo hi d d' \<longleftrightarrow> (\<forall>a. a \<notin> metadata I n \<longrightarrow>
     d' a = (if lo \<le> unat (a - inodeData I n) \<and> unat (a - inodeData I n) < hi then 0 else d a))"

lemma extend_disksize_seq:
  assumes "fsBlockSize (eeFs I) \<noteq> 0" and "unat w + unat c < 2 ^ 31" and "unat isz < 2 ^ 31"
  shows "\<exists>d z. extend_disksize (sequential I) n t typ isz w c s = Ok (s\<lparr>sqDisk := d\<rparr>) \<and> z \<le> unat w + unat c
    \<and> zeroed I n (unat isz) z (sqDisk s) d"
proof -
  let ?r = "shouldUpdateInodeDisksizeFS (fsBlockSize (eeFs I)) isz w c"
  have skip: "zeroed I n (unat isz) 0 (sqDisk s) (sqDisk s)" by (simp add: zeroed_def)
  show ?thesis
  proof (cases "delalloc (eeFs I) \<and> ?r \<noteq> Ok None")
    case True
    then obtain dsz where r: "?r = Ok (Some dsz)" using assms(1) by (auto simp: shouldUpdateInodeDisksizeFS_def Let_def)
    let ?s1 = "s\<lparr>sqDisk := \<lambda>x. if unat isz \<le> unat (x - inodeData I n) \<and> unat (x - inodeData I n) < unat dsz then 0 else sqDisk s x\<rparr>"
    obtain d where d: "updateInodeDisksizeFS (sequential I) n t dsz isz dsz ?s1 = Ok (?s1\<lparr>sqDisk := d\<rparr>)"
      "\<forall>a. a \<notin> metadata I n \<longrightarrow> d a = sqDisk ?s1 a"
      using updateInodeDisksize_seq by blast
    have "extend_disksize (sequential I) n t typ isz w c s = Ok (s\<lparr>sqDisk := d\<rparr>)"
      using True d(1) by (simp add: extend_disksize_def r zeroDskRange_seq)
    moreover have "zeroed I n (unat isz) (unat dsz) (sqDisk s) d" using d(2) by (simp add: zeroed_def)
    ultimately show ?thesis using shouldUpdate_range [OF r assms(2,3)] by blast
  next
    case False
    then have "extend_disksize (sequential I) n t typ isz w c s = Ok (s\<lparr>sqDisk := sqDisk s\<rparr>)" by (auto simp: extend_disksize_def)
    with skip show ?thesis by blast
  qed
qed

text \<open>The bytes after a write at \<open>w\<close>, in a file of \<open>len\<close> bytes before.\<close>

definition write_result :: "('f, 's, 'x) EE_scheme \<Rightarrow> SAddr \<Rightarrow> SAddr \<Rightarrow> SVal \<Rightarrow> nat \<Rightarrow> nat \<Rightarrow> 'f Seq \<Rightarrow> (SAddr \<Rightarrow> SVal) \<Rightarrow> bool" where
  "write_result I n buf w c len s d \<longleftrightarrow> (\<forall>a. a \<notin> metadata I n \<longrightarrow>
     (let x = unat (a - inodeData I n) in
      d a = (if unat w \<le> x \<and> x < unat w + c then sqMem s (buf + (a - inodeData I n - w))
             else if len \<le> x \<and> x < unat w then 0 else sqDisk s a)))"

lemma executeBufferedWrite_seq:
  fixes s :: "'f Seq"
  assumes isz: "isz = sqMem s (inodeIsize I n)"
    and "fsBlockSize (eeFs I) \<noteq> 0" and "c \<noteq> 0" and "unat w + unat c < 2 ^ 31" and "unat isz < 2 ^ 31"
    and "outside buf (unat c) (inodeIsize I n)"
  shows "\<exists>d. executeBufferedWriteFS (sequential I) n t buf typ w c s =
      Ok (c, s\<lparr>sqMem := (sqMem s)(inodeIsize I n := max (w + c) isz), sqDisk := d\<rparr>)
    \<and> write_result I n buf w (unat c) (unat isz) s d \<and> (journalData (eeFs I) = JD_journal \<longrightarrow> d (inodeItrans I n) = 0)"
proof -
  obtain d1 z where d1: "extend_disksize (sequential I) n t typ isz w c s = Ok (s\<lparr>sqDisk := d1\<rparr>)"
    "z \<le> unat w + unat c" "zeroed I n (unat isz) z (sqDisk s) d1"
    using extend_disksize_seq assms by blast
  define d2 where "d2 = (\<lambda>x. if unat isz \<le> unat (x - inodeData I n) \<and> unat (x - inodeData I n) < unat w then 0 else d1 x)"
  have "(if sval_getSigned w > sval_getSigned isz then zeroDskRangeFS (sequential I) n isz w typ (s\<lparr>sqDisk := d1\<rparr>)
      else Ok (s\<lparr>sqDisk := d1\<rparr>)) = Ok (s\<lparr>sqDisk := d2\<rparr>)"
  proof (cases "unat isz < unat w")
    case True
    then show ?thesis using assms by (simp add: sval_getSigned_less zeroDskRange_seq d2_def cong: if_cong)
  next
    case False
    then have "d2 = d1" by (auto simp: d2_def fun_eq_iff)
    with False show ?thesis using assms by (simp add: sval_getSigned_less)
  qed
  note gap = this
  obtain d where d: "buffered_loop (sequential I) n t buf typ 0 w c 0 (s\<lparr>sqDisk := d2\<rparr>) =
      Ok (s\<lparr>sqDisk := d2\<rparr>\<lparr>sqMem := (sqMem s)(inodeIsize I n := max (w + c) isz), sqDisk := d\<rparr>)"
    "wrote (inodeData I n + w) buf (metadata I n) (unat c) (s\<lparr>sqDisk := d2\<rparr>) d"
    "journalData (eeFs I) = JD_journal \<longrightarrow> d (inodeItrans I n) = 0"
    using buffered_loop_seq [of I c w 0 "s\<lparr>sqDisk := d2\<rparr>" n buf t "typ" 0] assms by (auto simp: isz)
  have "write_result I n buf w (unat c) (unat isz) s d"
    unfolding write_result_def Let_def
  proof (intro allI impI)
    fix a assume a: "a \<notin> metadata I n"
    define x where "x = a - inodeData I n"
    have wc: "unat (w + c) = unat w + unat c" using assms by (intro word_add_nat) simp
    have "w \<le> w + c" using wc by (simp add: word_le_nat_alt)
    then have r: "unat (x - w) < unat c \<longleftrightarrow> unat w \<le> unat x \<and> unat x < unat w + unat c"
      using region_split [of w "w + c" x] wc by simp
    have "d a = (if unat (x - w) < unat c then sqMem s (buf + (x - w)) else d2 a)"
      using d(2) a by (simp add: wrote_def x_def algebra_simps)
    moreover have "d1 a = (if unat isz \<le> unat x \<and> unat x < z then 0 else sqDisk s a)"
      using d1(3) a by (simp add: zeroed_def x_def)
    ultimately show "d a = (if unat w \<le> unat (a - inodeData I n) \<and> unat (a - inodeData I n) < unat w + unat c
        then sqMem s (buf + (a - inodeData I n - w))
        else if unat isz \<le> unat (a - inodeData I n) \<and> unat (a - inodeData I n) < unat w then 0 else sqDisk s a)"
      using d1(2) by (auto simp: r d2_def simp flip: x_def)
  qed
  then show ?thesis
    using d(1,3) gap d1(1) by (auto simp: executeBufferedWriteFS_def readInodeSize_seq isz)
qed

section \<open>Files as bytes\<close>

definition file_data :: "('f, 's, 'x) EE_scheme \<Rightarrow> SAddr \<Rightarrow> 'f Seq \<Rightarrow> SVal list" where
  "file_data I n s = map (\<lambda>i. sqDisk s (inodeData I n + of_nat i)) [0..<unat (sqMem s (inodeIsize I n))]"

definition buffer :: "SAddr \<Rightarrow> nat \<Rightarrow> 'f Seq \<Rightarrow> SVal list" where
  "buffer a c s = map (\<lambda>k. sqMem s (a + of_nat k)) [0..<c]"

definition write_at :: "nat \<Rightarrow> SVal list \<Rightarrow> SVal list \<Rightarrow> SVal list" where
  "write_at off d xs = take off (xs @ replicate (off - length xs) 0) @ d @ drop (off + length d) xs"

text \<open>What the functions are used with: a limit on files that fits an \<open>int\<close>, and an inode whose metadata are outside its
  data; a file that is open, whose inode is not locked and whose size respects the limit.\<close>

definition fs_sane :: "('f, 's, 'x) EE_scheme \<Rightarrow> SAddr \<Rightarrow> bool" where
  "fs_sane I n \<longleftrightarrow> fsBlockSize (eeFs I) \<noteq> 0 \<and> unat (maxFileSize (eeFs I)) < 2 ^ 31
     \<and> (\<forall>a \<in> metadata I n. outside (inodeData I n) (unat (maxFileSize (eeFs I))) a)"

definition open_file :: "('f, 's, 'x) EE_scheme \<Rightarrow> SAddr \<Rightarrow> SAddr \<Rightarrow> SVal \<Rightarrow> 'f Seq \<Rightarrow> bool" where
  "open_file I f n flags s \<longleftrightarrow> sqMem s (fileInode I f) = n \<and> sqMem s (fileFlags I f) = flags \<and> inodeLock I n \<notin> set (sqHeld s)
     \<and> \<not> thr_isBlocked (sqThread s) \<and> unat (sqMem s (inodeIsize I n)) \<le> unat (maxFileSize (eeFs I))"

definition write_pos :: "('f, 's, 'x) EE_scheme \<Rightarrow> SAddr \<Rightarrow> SVal \<Rightarrow> SVal \<Rightarrow> 'f Seq \<Rightarrow> SVal" where
  "write_pos I n flags off s = (if flags AND O_APPEND \<noteq> 0 then sqMem s (inodeIsize I n) else off)"

definition write_len :: "('f, 's, 'x) EE_scheme \<Rightarrow> SVal \<Rightarrow> SVal \<Rightarrow> nat" where
  "write_len I w cnt = min (unat cnt) (unat (maxFileSize (eeFs I)) - unat w)"

lemma executeWrite_seq:
  fixes s :: "'f Seq"
  assumes sane: "fs_sane I n" and opn: "open_file I f n flags s" and mode: "OPEN_FMODE flags AND FMODE_WRITE \<noteq> 0"
    and cnt: "cnt \<noteq> 0" "unat cnt < 2 ^ 63" and w: "w = write_pos I n flags off s" "unat w < unat (maxFileSize (eeFs I))"
    and buf: "outside buf (unat cnt) (inodeIsize I n)" and c: "c = write_len I w cnt"
  shows "\<exists>d. executeWriteFS (sequential I) f t buf typ off cnt s =
      Ok (of_nat c, s\<lparr>sqMem := (sqMem s)(inodeIsize I n := max (w + of_nat c) (sqMem s (inodeIsize I n))), sqDisk := d\<rparr>)
    \<and> write_result I n buf w c (unat (sqMem s (inodeIsize I n))) s d \<and> (journalData (eeFs I) = JD_journal \<longrightarrow> d (inodeItrans I n) = 0)"
proof -
  have M: "unat (maxFileSize (eeFs I)) < 2 ^ 31" using sane by (simp add: fs_sane_def)
  have cc: "0 < c" "c \<le> unat cnt" "unat w + c < 2 ^ 31" using cnt w(2) M c by (auto simp: write_len_def unat_gt_0)
  have uc: "unat (of_nat c :: 64 word) = c" by (rule of_nat_inverse [OF refl]) (use cc in simp)
  let ?s = "s\<lparr>sqHeld := inodeLock I n # sqHeld s\<rparr>"
  have "outside buf (unat (of_nat c :: 64 word)) (inodeIsize I n)" using buf cc by (simp add: outside_def uc)
  moreover have "(of_nat c :: 64 word) \<noteq> 0" using cc(1) uc by auto
  ultimately obtain d where d: "executeBufferedWriteFS (sequential I) n t buf typ w (of_nat c) ?s =
      Ok (of_nat c, ?s\<lparr>sqMem := (sqMem s)(inodeIsize I n := max (w + of_nat c) (sqMem s (inodeIsize I n))), sqDisk := d\<rparr>)"
    "write_result I n buf w c (unat (sqMem s (inodeIsize I n))) ?s d" "journalData (eeFs I) = JD_journal \<longrightarrow> d (inodeItrans I n) = 0"
    using executeBufferedWrite_seq [of "sqMem s (inodeIsize I n)" ?s I n "of_nat c" w buf t "typ"] sane opn M cc uc
    by (fastforce simp: fs_sane_def open_file_def)
  have ui: "uint (of_nat c :: 64 word) = int c" unfolding uint_nat uc ..
  have s: "sval_getSigned cnt = uint cnt" "sval_getSigned w = uint w" "sval_getSigned (of_nat c) = int c"
    using cnt w(2) M cc uc by (simp_all add: sval_getSigned_uint ui)
  have checks: "executeWriteChecksFS (sequential I) n t flags off cnt ?s = Ok ((of_nat c, w), ?s)"
  proof -
    have c1: "\<not> uint cnt \<le> 0" using cnt(1) by (simp add: word_neq_0_conv word_less_def not_le)
    have c2: "\<not> uint (maxFileSize (eeFs I)) \<le> uint w"
      using w(2) by (metis nat_uint_eq not_le nat_mono)
    have c3: "min (uint cnt) (uint (maxFileSize (eeFs I)) - uint w) = int c"
      unfolding uint_nat c write_len_def by (simp only: of_nat_min of_nat_diff [OF less_imp_le [OF w(2)]])
    have e: "(if flags AND O_APPEND \<noteq> 0 then readInodeSizeFS (sequential I) n t ?s else Ok (off, ?s)) = Ok (w, ?s)"
      by (simp add: w(1) readInodeSize_seq write_pos_def)
    show ?thesis
      unfolding executeWriteChecksFS_def e rbind.simps prod.case s sequential_layout c3 using c1 c2 by simp
  qed
  have "executeWriteFS (sequential I) f t buf typ off cnt s =
      Ok (of_nat c, s\<lparr>sqMem := (sqMem s)(inodeIsize I n := max (w + of_nat c) (sqMem s (inodeIsize I n))), sqDisk := d\<rparr>)"
    using opn mode cc(1) by (simp add: executeWriteFS_def open_file_def sequential_lock checks s d(1))
  moreover have "write_result I n buf w c (unat (sqMem s (inodeIsize I n))) s d" using d(2) by (simp add: write_result_def Let_def cong: if_cong)
  ultimately show ?thesis using d(3) by blast
qed

lemma length_write_at [simp]: "length (write_at off d xs) = max (length xs) (off + length d)"
  by (auto simp: write_at_def)

lemma nth_write_at:
  assumes "i < max (length xs) (off + length d)"
  shows "write_at off d xs ! i = (if off \<le> i \<and> i < off + length d then d ! (i - off)
    else if length xs \<le> i \<and> i < off then 0 else xs ! i)"
  using assms by (auto simp: write_at_def nth_append min_def not_le)

lemma outside_data:
  assumes "fs_sane I n" and "i < unat (maxFileSize (eeFs I))"
  shows "inodeData I n + of_nat i \<notin> metadata I n" "unat (inodeData I n + of_nat i - inodeData I n) = i"
proof -
  have "i < 2 ^ 64" using assms by (simp add: fs_sane_def)
  then show u: "unat (inodeData I n + of_nat i - inodeData I n) = i" by (rule region_last)
  show "inodeData I n + of_nat i \<notin> metadata I n"
    using assms u unfolding fs_sane_def outside_def by (metis not_le)
qed

lemma write_bytes:
  fixes s :: "'f Seq"
  assumes sane: "fs_sane I n" and opn: "open_file I f n flags s" and mode: "OPEN_FMODE flags AND FMODE_WRITE \<noteq> 0"
    and cnt: "cnt \<noteq> 0" "unat cnt < 2 ^ 63" and w: "w = write_pos I n flags off s" "unat w < unat (maxFileSize (eeFs I))"
    and buf: "outside buf (unat cnt) (inodeIsize I n)" and c: "c = write_len I w cnt"
  shows "\<exists>s1. executeWriteFS (sequential I) f t buf typ off cnt s = Ok (of_nat c, s1)
    \<and> file_data I n s1 = write_at (unat w) (buffer buf c s) (file_data I n s)
    \<and> (\<forall>a. a \<noteq> inodeIsize I n \<longrightarrow> sqMem s1 a = sqMem s a) \<and> sqHeld s1 = sqHeld s \<and> sqThread s1 = sqThread s
    \<and> (journalData (eeFs I) = JD_journal \<longrightarrow> sqDisk s1 (inodeItrans I n) = 0)"
proof -
  let ?isz = "sqMem s (inodeIsize I n)" and ?M = "unat (maxFileSize (eeFs I))"
  obtain d where d: "executeWriteFS (sequential I) f t buf typ off cnt s =
      Ok (of_nat c, s\<lparr>sqMem := (sqMem s)(inodeIsize I n := max (w + of_nat c) ?isz), sqDisk := d\<rparr>)"
    "write_result I n buf w c (unat ?isz) s d" "journalData (eeFs I) = JD_journal \<longrightarrow> d (inodeItrans I n) = 0"
    using executeWrite_seq [OF assms, of t "typ"] by blast
  let ?s1 = "s\<lparr>sqMem := (sqMem s)(inodeIsize I n := max (w + of_nat c) ?isz), sqDisk := d\<rparr>"
  have cM: "unat w + c \<le> ?M" "?M < 2 ^ 31" "unat ?isz \<le> ?M" using w(2) sane opn by (auto simp: c write_len_def fs_sane_def open_file_def)
  then have uc: "unat (of_nat c :: 64 word) = c" by (intro of_nat_inverse [OF refl]) simp
  then have "unat (w + of_nat c) = unat w + c" using cM by (simp add: word_add_nat)
  then have len: "unat (sqMem ?s1 (inodeIsize I n)) = max (unat ?isz) (unat w + c)" by (simp add: unat_max max.commute)
  have "file_data I n ?s1 = write_at (unat w) (buffer buf c s) (file_data I n s)"
  proof (rule nth_equalityI)
    show "length (file_data I n ?s1) = length (write_at (unat w) (buffer buf c s) (file_data I n s))"
      unfolding length_write_at by (simp only: file_data_def buffer_def length_map length_upt len)
  next
    fix i assume "i < length (file_data I n ?s1)"
    then have i: "i < max (unat ?isz) (unat w + c)" by (simp only: file_data_def length_map length_upt len)
    then have iM: "i < ?M" using cM by auto
    have pos: "of_nat (i - unat w) = of_nat i - w" if "unat w \<le> i" using that by (simp add: of_nat_diff)
    have "file_data I n ?s1 ! i = d (inodeData I n + of_nat i)"
      using i len unfolding file_data_def by (simp del: fun_upd_apply)
    also have "\<dots> = (if unat w \<le> i \<and> i < unat w + c then sqMem s (buf + (of_nat i - w))
        else if unat ?isz \<le> i \<and> i < unat w then 0 else sqDisk s (inodeData I n + of_nat i))"
      using d(2) outside_data [OF sane iM] by (simp add: write_result_def Let_def)
    also have "\<dots> = write_at (unat w) (buffer buf c s) (file_data I n s) ! i"
      using i by (subst nth_write_at) (auto simp: buffer_def file_data_def pos)
    finally show "file_data I n ?s1 ! i = write_at (unat w) (buffer buf c s) (file_data I n s) ! i" .
  qed
  then show ?thesis by (intro exI [of _ ?s1] conjI d(1)) (use d(3) in simp_all)
qed

lemma executeRead_seq:
  assumes opn: "open_file I f n flags s" and mode: "OPEN_FMODE flags AND FMODE_READ \<noteq> 0" and M: "unat (maxFileSize (eeFs I)) < 2 ^ 31"
    and cnt: "unat cnt < 2 ^ 63" and trans: "journalData (eeFs I) = JD_journal \<longrightarrow> sqDisk s (inodeItrans I n) = 0"
    and r: "r = min (unat cnt) (unat (sqMem s (inodeIsize I n)) - unat off)"
  shows "executeReadFS (sequential I) f t buf typ off cnt s =
    Ok (of_nat r, s\<lparr>sqMem := \<lambda>a. if unat (a - buf) < r then sqDisk s (inodeData I n + off + (a - buf)) else sqMem s a\<rparr>)"
proof -
  let ?isz = "sqMem s (inodeIsize I n)"
  have fm: "OPEN_FMODE (sqMem s (fileFlags I f)) AND FMODE_READ \<noteq> 0" "sqMem s (fileInode I f) = n" "unat ?isz < 2 ^ 31"
    using opn mode M by (auto simp: open_file_def)
  show ?thesis
  proof (cases "unat ?isz \<le> unat off")
    case True
    then show ?thesis using fm by (simp add: executeReadFS_def readInodeSize_seq word_le_nat_alt r)
  next
    case False
    then have rest: "unat (?isz - off) = unat ?isz - unat off" by (simp add: unat_sub word_le_nat_alt)
    then have small: "unat (?isz - off) < 2 ^ 63" using fm(3) by simp
    define nr where "nr = (if sval_getSigned (?isz - off) \<ge> sval_getSigned cnt then cnt else ?isz - off)"
    have u: "unat nr = r"
      using sval_getSigned_less [OF small cnt] by (auto simp: nr_def r rest min_def)
    have "unat nr < 2 ^ 31" using u fm(3) by (simp add: r)
    then have nr: "nr = of_nat r" "unat nr < 2 ^ 31" "unat nr \<le> 2 ^ 64" by (simp_all flip: u)
    have o: "unat off < 2 ^ 31" using False fm(3) by simp
    have "readDataFromDisk (sequential I) n (ucast off) buf 0 (ucast nr) typ s =
        Ok (s\<lparr>sqMem := \<lambda>a. if unat (a - buf) < r then sqDisk s (inodeData I n + off + (a - buf)) else sqMem s a\<rparr>)"
      unfolding readDataFromDisk_def int_param [OF o] int_param [OF nr(2)] sequential_layout scast_0 add_0_right u load_bytes [OF nr(3) [unfolded u]] ..
    note rd = this
    have "executeReadFS (sequential I) f t buf typ off cnt s =
      rbind (readDataFromDisk (sequential I) n (ucast off) buf 0 (ucast nr) typ s) (\<lambda>s4.
        if journalData (eeFs I) \<noteq> JD_journal then Ok (nr, s4)
        else rbind (getInodeTransStatus (sequential I) n t s4) (\<lambda>(inTrans, s5).
          if inTrans = 1 then block_in_transaction (sequential I) s5 else Ok (nr, s5)))"
      using fm False by (simp add: executeReadFS_def readInodeSize_seq word_le_nat_alt Let_def nr_def cong: if_cong)
    then show ?thesis using trans unfolding rd rbind.simps by (auto simp: getInodeTransStatus_def nr(1))
  qed
qed

lemma read_bytes:
  assumes "open_file I f n flags s" and "OPEN_FMODE flags AND FMODE_READ \<noteq> 0" and "unat (maxFileSize (eeFs I)) < 2 ^ 31"
    and "unat cnt < 2 ^ 63" and "journalData (eeFs I) = JD_journal \<longrightarrow> sqDisk s (inodeItrans I n) = 0"
    and r: "r = min (unat cnt) (unat (sqMem s (inodeIsize I n)) - unat off)"
  shows "\<exists>s1. executeReadFS (sequential I) f t buf typ off cnt s = Ok (of_nat r, s1)
    \<and> buffer buf r s1 = take (unat cnt) (drop (unat off) (file_data I n s))"
proof -
  let ?s1 = "s\<lparr>sqMem := \<lambda>a. if unat (a - buf) < r then sqDisk s (inodeData I n + off + (a - buf)) else sqMem s a\<rparr>"
  have "r \<le> 2 ^ 64" using assms(4) by (simp add: r)
  have "buffer buf r ?s1 = take (unat cnt) (drop (unat off) (file_data I n s))"
  proof (rule nth_equalityI)
    fix k assume "k < length (buffer buf r ?s1)"
    then have k: "k < r" by (simp add: buffer_def)
    with \<open>r \<le> 2 ^ 64\<close> have "unat (buf + of_nat k - buf) = k" by (intro region_last) simp
    moreover have "unat off \<le> unat (sqMem s (inodeIsize I n))" using k by (auto simp: r)
    moreover have "k + unat off < unat (sqMem s (inodeIsize I n))" using k by (auto simp: r)
    ultimately show "buffer buf r ?s1 ! k = take (unat cnt) (drop (unat off) (file_data I n s)) ! k"
      using k by (simp add: buffer_def file_data_def r nth_drop algebra_simps)
  qed (simp add: buffer_def file_data_def r)
  with executeRead_seq [OF assms] show ?thesis by blast
qed

lemma drop_write_at: "drop off (write_at off d xs) = d @ drop (off + length d) xs"
  by (simp add: write_at_def min_def)

text \<open>C7: what a thread writes to a file it reads back: after the write, reading at the place of the write gives the number
  of bytes written and exactly these bytes.\<close>

theorem write_read_roundtrip:
  fixes s :: "'f Seq"
  assumes sane: "fs_sane I n" and opn: "open_file I f n flags s"
    and mode: "OPEN_FMODE flags AND FMODE_WRITE \<noteq> 0" "OPEN_FMODE flags AND FMODE_READ \<noteq> 0"
    and cnt: "cnt \<noteq> 0" "unat cnt < 2 ^ 63" and w: "w = write_pos I n flags off s" "unat w < unat (maxFileSize (eeFs I))"
    and buf: "outside buf (unat cnt) (inodeIsize I n)" and sep: "inodeIsize I n \<notin> {fileInode I f, fileFlags I f}"
  shows "\<exists>s1 s2. executeWriteFS (sequential I) f t buf typ off cnt s = Ok (of_nat (write_len I w cnt), s1)
    \<and> executeReadFS (sequential I) f t buf2 typ w cnt s1 = Ok (of_nat (write_len I w cnt), s2)
    \<and> buffer buf2 (write_len I w cnt) s2 = buffer buf (write_len I w cnt) s"
proof -
  let ?c = "write_len I w cnt" and ?M = "unat (maxFileSize (eeFs I))"
  obtain s1 where s1: "executeWriteFS (sequential I) f t buf typ off cnt s = Ok (of_nat ?c, s1)"
    "file_data I n s1 = write_at (unat w) (buffer buf ?c s) (file_data I n s)"
    "\<forall>a. a \<noteq> inodeIsize I n \<longrightarrow> sqMem s1 a = sqMem s a" "sqHeld s1 = sqHeld s" "sqThread s1 = sqThread s"
    "journalData (eeFs I) = JD_journal \<longrightarrow> sqDisk s1 (inodeItrans I n) = 0"
    using write_bytes [OF sane opn mode(1) cnt w buf refl] by blast
  have M: "?M < 2 ^ 31" using sane by (simp add: fs_sane_def)
  have len: "length (file_data I n s) \<le> ?M" using opn by (simp add: file_data_def open_file_def)
  have "length (file_data I n s1) = max (length (file_data I n s)) (unat w + ?c)" by (simp add: s1(2) buffer_def)
  then have isz: "unat (sqMem s1 (inodeIsize I n)) = max (length (file_data I n s)) (unat w + ?c)" by (simp add: file_data_def)
  have c: "?c \<le> unat cnt" "unat w + ?c \<le> ?M" "?c < unat cnt \<Longrightarrow> unat w + ?c = ?M" using w(2) by (auto simp: write_len_def)
  have r: "?c = min (unat cnt) (unat (sqMem s1 (inodeIsize I n)) - unat w)" using c len by (cases "?c < unat cnt") (auto simp: isz)
  have "open_file I f n flags s1" using opn s1(3-5) sep isz len c(2) by (auto simp: open_file_def)
  from read_bytes [OF this mode(2) M cnt(2) s1(6) r] obtain s2 where s2:
    "executeReadFS (sequential I) f t buf2 typ w cnt s1 = Ok (of_nat ?c, s2)"
    "buffer buf2 ?c s2 = take (unat cnt) (drop (unat w) (file_data I n s1))" by blast
  have "take (unat cnt) (drop (unat w) (file_data I n s1)) = buffer buf ?c s"
    using c len by (cases "?c < unat cnt") (auto simp: s1(2) drop_write_at buffer_def)
  with s1(1) s2 show ?thesis by auto
qed

text \<open>C6: run by a single thread, the write of the interpreter implements the write of bytes: whatever the journaling, the
  block size and the allocation, the file holds the buffer at the offset (at its end for \<open>O_APPEND\<close>), zeros in a gap, and its
  other bytes; the count is cut at the limit; nothing else of the memory changes and the lock is given back.\<close>

theorem write_refines:
  fixes s :: "'f Seq"
  assumes sane: "fs_sane I n" and opn: "open_file I f n flags s" and mode: "OPEN_FMODE flags AND FMODE_WRITE \<noteq> 0"
    and cnt: "cnt \<noteq> 0" "unat cnt < 2 ^ 63" and w: "w = write_pos I n flags off s" "unat w < unat (maxFileSize (eeFs I))"
    and buf: "outside buf (unat cnt) (inodeIsize I n)" and c: "c = write_len I w cnt"
  shows "\<exists>s1. executeWriteFS (sequential I) f t buf typ off cnt s = Ok (of_nat c, s1)
    \<and> file_data I n s1 = write_at (unat w) (buffer buf c s) (file_data I n s)
    \<and> (\<forall>a. a \<noteq> inodeIsize I n \<longrightarrow> sqMem s1 a = sqMem s a) \<and> sqHeld s1 = sqHeld s \<and> sqThread s1 = sqThread s"
  using write_bytes [OF assms, of t "typ"] by blast

text \<open>C38: a \<open>write\<close> call that writes exactly 42 bytes leaves the lock of the open file taken, does not move the offset and
  returns no value to the caller, although the thread is not blocked: the code takes the count for a missing lock.\<close>

theorem write_of_42_keeps_lock:
  fixes s :: "'f Seq"
  assumes sane: "fs_sane I n" and opn: "open_file I f n flags s" and mode: "OPEN_FMODE flags AND FMODE_WRITE \<noteq> 0"
    and args: "args = [fd, ptr, cnt]" and f: "getFileFromFd (sequential I) (ucast (gvInt fd)) s = f" "f \<noteq> 0"
    and cnt: "gvInt cnt \<noteq> 0" "unat (gvInt cnt) < 2 ^ 63"
    and w: "w = write_pos I n flags (sqMem s (fileOffset I f)) s" "unat w < unat (maxFileSize (eeFs I))"
    and buf: "outside (gvPtr ptr) (unat (gvInt cnt)) (inodeIsize I n)" and c: "write_len I w (gvInt cnt) = 42"
    and sep: "filePosLock I f \<noteq> inodeLock I n" "filePosLock I f \<notin> set (sqHeld s)" "fileOffset I f \<noteq> inodeIsize I n"
  shows "\<exists>s1. callWriteFS (sequential I) t ret args s = Ok s1 \<and> filePosLock I f \<in> set (sqHeld s1) \<and> \<not> thr_isBlocked (sqThread s1)
    \<and> sqMem s1 (fileOffset I f) = sqMem s (fileOffset I f) \<and> ecStack (sqThread s1) = ecStack (sqThread s)"
proof -
  let ?s0 = "s\<lparr>sqThread := thr_takeSnapshot (sqThread s)\<rparr>"
  let ?s1 = "?s0\<lparr>sqHeld := filePosLock I f # sqHeld s\<rparr>"
  have nb: "\<not> thr_isBlocked (thr_takeSnapshot (sqThread s))" "ecStack (thr_takeSnapshot (sqThread s)) = ecStack (sqThread s)"
    using opn by (simp_all add: open_file_def thr_isBlocked_def thr_takeSnapshot_def)
  have snap: "take_snapshot (sequential I) s = Ok ?s0" by (simp add: take_snapshot_def sequential_def)
  have fd: "getFileFromFd (sequential I) (ucast (gvInt fd)) ?s0 = f" using f(1) by (simp add: getFileFromFd_def cong: if_cong)
  have lock: "lock_or_roll (sequential I) (filePosLock I f) t ?s0 = Ok (True, ?s1)"
    using sequential_lock [of "filePosLock I f" ?s0 I t] sep nb by simp
  have opn1: "open_file I f n flags ?s1" using opn sep nb by (auto simp: open_file_def)
  have w1: "w = write_pos I n flags (sqMem s (fileOffset I f)) ?s1" using w(1) by (simp add: write_pos_def)
  obtain s2 where s2: "executeWriteFS (sequential I) f t (gvPtr ptr) (IntTy 8) (sqMem s (fileOffset I f)) (gvInt cnt) ?s1 = Ok (42, s2)"
    "\<forall>a. a \<noteq> inodeIsize I n \<longrightarrow> sqMem s2 a = sqMem ?s1 a" "sqHeld s2 = sqHeld ?s1" "sqThread s2 = sqThread ?s1"
    using write_bytes [OF sane opn1 mode cnt w1 w(2) buf refl, of t "IntTy 8"] unfolding c by auto
  have "callWriteFS (sequential I) t ret args s = Ok s2"
    by (simp add: callWriteFS_def args int_arg_def ptr_arg_def vec_get_def snap with_file_def fd f(2) lock s2(1) sval_getSigned_def Let_def)
  with s2 nb sep(3) show ?thesis by simp
qed

lemma truncate_extend_seq:
  assumes "unat len < 2 ^ 63" "unat isz < 2 ^ 63" "unat len < unat (maxFileSize (eeFs I))" "unat (maxFileSize (eeFs I)) < 2 ^ 31"
  shows "\<exists>r d. truncate_extend (sequential I) n len isz s = Ok (Some r, s\<lparr>sqDisk := d\<rparr>) \<and> zeroed I n (unat isz) (unat len) (sqDisk s) d"
proof (cases "unat isz < unat len")
  case True
  have "\<not> uint (maxFileSize (eeFs I)) \<le> uint len" using assms(3) by (metis nat_uint_eq not_le nat_mono)
  then have b: "\<not> uint (maxFileSize (eeFs I)) \<le> sval_getSigned len" using assms(1) by (simp add: sval_getSigned_uint)
  have g: "sval_getSigned isz < sval_getSigned len" using True assms by (simp add: sval_getSigned_less)
  show ?thesis by (auto simp: truncate_extend_def g b zeroDskRange_seq zeroed_def)
next
  case False
  then have "truncate_extend (sequential I) n len isz s = Ok (Some (0, 0), s\<lparr>sqDisk := sqDisk s\<rparr>)"
    using assms by (simp add: truncate_extend_def sval_getSigned_less)
  moreover have "zeroed I n (unat isz) (unat len) (sqDisk s) (sqDisk s)" using False by (auto simp: zeroed_def)
  ultimately show ?thesis by blast
qed

text \<open>C34: run by a single thread, truncation implements cutting the bytes at a length or extending them with zeros; nothing
  else of the memory changes and the lock of the inode is given back.\<close>

theorem truncate_refines:
  fixes s :: "'f Seq"
  assumes sane: "fs_sane I n" and free: "inodeLock I n \<notin> set (sqHeld s)" "\<not> thr_isBlocked (sqThread s)"
    and isz: "unat (sqMem s (inodeIsize I n)) \<le> unat (maxFileSize (eeFs I))" and len: "unat len < unat (maxFileSize (eeFs I))"
  shows "\<exists>s1. executeTruncateFS (sequential I) n len t s = Ok (0, s1)
    \<and> file_data I n s1 = take (unat len) (file_data I n s @ replicate (unat len - length (file_data I n s)) 0)
    \<and> (\<forall>a. a \<noteq> inodeIsize I n \<longrightarrow> sqMem s1 a = sqMem s a) \<and> sqHeld s1 = sqHeld s \<and> sqThread s1 = sqThread s"
proof -
  let ?isz = "sqMem s (inodeIsize I n)" and ?s0 = "s\<lparr>sqHeld := inodeLock I n # sqHeld s\<rparr>"
  have M: "unat (maxFileSize (eeFs I)) < 2 ^ 31" using sane by (simp add: fs_sane_def)
  have sm: "unat len < 2 ^ 63" "unat ?isz < 2 ^ 63" using len isz M by simp_all
  obtain r d1 where d1: "truncate_extend (sequential I) n len ?isz ?s0 = Ok (Some r, ?s0\<lparr>sqDisk := d1\<rparr>)"
    "zeroed I n (unat ?isz) (unat len) (sqDisk s) d1"
    using truncate_extend_seq [where s = ?s0 and n = n, OF sm len M] by auto
  obtain d where d: "updateInodeDisksizeFS (sequential I) n t len (fst r) (snd r) (?s0\<lparr>sqDisk := d1\<rparr>) = Ok (?s0\<lparr>sqDisk := d\<rparr>)"
    "\<forall>a. a \<notin> metadata I n \<longrightarrow> d a = d1 a"
    using updateInodeDisksize_seq [of I n t len "fst r" "snd r" "?s0\<lparr>sqDisk := d1\<rparr>"] by auto
  let ?s1 = "s\<lparr>sqMem := (sqMem s)(inodeIsize I n := len), sqDisk := d\<rparr>"
  have run: "executeTruncateFS (sequential I) n len t s = Ok (0, ?s1)"
    using d1(1) d(1) sm by (simp add: executeTruncateFS_def sequential_lock [OF free] readInodeSize_seq updateInodeSizeFS_def
        sval_getSigned_uint not_less split_beta)
  have "file_data I n ?s1 = take (unat len) (file_data I n s @ replicate (unat len - length (file_data I n s)) 0)"
  proof (rule nth_equalityI)
    fix i assume "i < length (file_data I n ?s1)"
    then have i: "i < unat len" by (simp add: file_data_def)
    note o = outside_data [OF sane order_less_trans [OF i len]]
    have "file_data I n ?s1 ! i = d (inodeData I n + of_nat i)" using i by (simp add: file_data_def)
    also have "\<dots> = (if unat ?isz \<le> i then 0 else sqDisk s (inodeData I n + of_nat i))"
      using d(2) d1(2) o i by (simp add: zeroed_def)
    also have "\<dots> = take (unat len) (file_data I n s @ replicate (unat len - length (file_data I n s)) 0) ! i"
      using i by (auto simp: file_data_def nth_append)
    finally show "file_data I n ?s1 ! i = take (unat len) (file_data I n s @ replicate (unat len - length (file_data I n s)) 0) ! i" .
  qed (simp add: file_data_def)
  with run show ?thesis by (intro exI [of _ ?s1] conjI) simp_all
qed

section \<open>A file of five bytes\<close>

text \<open>The limit is 64 bytes and blocks have 4; the description is at 100 and opened for reading and writing, the inode at
  1000 and the buffer at 2000.\<close>

definition sq_fs :: FsInfo where
  "sq_fs = \<lparr>inodeSize = 100, fileSize = 40, inodeElem = \<lambda>k. 8 * of_nat k, fileElem = \<lambda>k. 8 * of_nat k, fsBlockSize = 4, maxFileSize = 64,
     journalData = JD_journal, delalloc = False, dirInode = 500, nameToInodeAddr = Map.empty\<rparr>"

definition sq_base :: "(unit, unit Seq) EE" where
  "sq_base = undefined\<lparr>eeFs := sq_fs\<rparr>"

definition sq_state :: "unit Seq" where
  "sq_state = \<lparr>sqThread = \<lparr>thrId = 0, thrParent = - 1, thrFun = 0, thrArg = 0, ecStack = [()], initSF = (), globalInstructions = 1,
       globalInstSnap = 0, thrBlocked = NotBlocked\<rparr>,
     sqMem = (\<lambda>_. 7)(100 := 1000, 116 := 2, 132 := 0, 1008 := 5), sqDisk = (\<lambda>_. 1), sqHeld = [], sqFiles = [100]\<rparr>"

lemma sq_layout:
  "inodeLock sq_base 1000 = 1000" "inodeIsize sq_base 1000 = 1008" "inodeItrans sq_base 1000 = 1016" "inodeIdisksize sq_base 1000 = 1024"
  "inodeData sq_base 1000 = 1032" "fileInode sq_base 100 = 100" "fileFlags sq_base 100 = 116" "filePosLock sq_base 100 = 124"
  "fileOffset sq_base 100 = 132" "maxFileSize (eeFs sq_base) = 64" "fsBlockSize (eeFs sq_base) = 4"
  by (simp_all add: sq_base_def sq_fs_def inodeLock_def inodeIsize_def inodeItrans_def inodeIdisksize_def inodeData_def inode_at_def
      fileInode_def fileFlags_def filePosLock_def fileOffset_def file_at_def)

lemma sq_sane: "fs_sane sq_base 1000"
  by (simp add: fs_sane_def sq_layout metadata_def outside_def)

lemma sq_open: "open_file sq_base 100 1000 2 sq_state"
  by (simp add: open_file_def sq_layout sq_state_def thr_isBlocked_def)

lemma sq_mode: "OPEN_FMODE 2 AND FMODE_WRITE \<noteq> 0" "OPEN_FMODE 2 AND FMODE_READ \<noteq> 0"
  by (simp_all add: OPEN_FMODE_def FMODE_WRITE_def FMODE_READ_def)

lemma sq_pos: "write_pos sq_base 1000 2 off sq_state = off"
  by (simp add: write_pos_def O_APPEND_def)

theorem truncate_refines_witness:
  "\<exists>s1. executeTruncateFS (sequential sq_base) 1000 7 (IntTy 32) sq_state = Ok (0, s1) \<and> file_data sq_base 1000 s1 = [1, 1, 1, 1, 1, 0, 0]"
proof -
  have "inodeLock sq_base 1000 \<notin> set (sqHeld sq_state)" "\<not> thr_isBlocked (sqThread sq_state)"
    "unat (sqMem sq_state (inodeIsize sq_base 1000)) \<le> unat (maxFileSize (eeFs sq_base))" "unat (7 :: SVal) < unat (maxFileSize (eeFs sq_base))"
    by (simp_all add: sq_layout sq_state_def thr_isBlocked_def)
  from truncate_refines [OF sq_sane this, of "IntTy 32"] obtain s1 where
    "executeTruncateFS (sequential sq_base) 1000 7 (IntTy 32) sq_state = Ok (0, s1)"
    "file_data sq_base 1000 s1 = take 7 (file_data sq_base 1000 sq_state @ replicate (7 - length (file_data sq_base 1000 sq_state)) 0)"
    by auto
  moreover have l: "[0..<5] = [0, 1, 2, 3, 4 :: nat]" by code_simp
  have "file_data sq_base 1000 sq_state = [1, 1, 1, 1, 1]" by (simp add: file_data_def sq_layout sq_state_def l)
  moreover have "take 7 ([1, 1, 1, 1, 1] @ replicate (7 - 5) 0) = [1, 1, 1, 1, 1, 0, 0 :: SVal]" by code_simp
  ultimately show ?thesis by auto
qed

theorem write_refines_witness:
  "\<exists>s1. executeWriteFS (sequential sq_base) 100 (IntTy 32) 2000 (IntTy 8) 8 3 sq_state = Ok (3, s1)
    \<and> file_data sq_base 1000 s1 = [1, 1, 1, 1, 1, 0, 0, 0, 7, 7, 7]"
proof -
  have "outside 2000 (unat (3 :: SVal)) (inodeIsize sq_base 1000)" "unat (8 :: SVal) < unat (maxFileSize (eeFs sq_base))"
    by (simp_all add: outside_def sq_layout)
  from write_refines [OF sq_sane sq_open sq_mode(1) _ _ _ this(2,1) refl, of 8 "IntTy 32" "IntTy 8"]
  obtain s1 where "executeWriteFS (sequential sq_base) 100 (IntTy 32) 2000 (IntTy 8) 8 3 sq_state = Ok (3, s1)"
    "file_data sq_base 1000 s1 = write_at 8 (buffer 2000 3 sq_state) (file_data sq_base 1000 sq_state)"
    by (auto simp: sq_pos write_len_def sq_layout)
  moreover have "write_at 8 (buffer 2000 3 sq_state) (file_data sq_base 1000 sq_state) = [1, 1, 1, 1, 1, 0, 0, 0, 7, 7, 7]"
  proof -
    have l: "[0..<3] = [0, 1, 2 :: nat]" "[0..<5] = [0, 1, 2, 3, 4 :: nat]" by code_simp+
    have "buffer 2000 3 sq_state = [7, 7, 7]" by (simp add: buffer_def l sq_state_def)
    moreover have "file_data sq_base 1000 sq_state = [1, 1, 1, 1, 1]" by (simp add: file_data_def sq_layout sq_state_def l)
    moreover have "write_at 8 [7, 7, 7] [1, 1, 1, 1, 1] = [1, 1, 1, 1, 1, 0, 0, 0, 7, 7, 7]" by code_simp
    ultimately show ?thesis by simp
  qed
  ultimately show ?thesis by auto
qed

theorem write_read_roundtrip_witness:
  "\<exists>s1 s2. executeWriteFS (sequential sq_base) 100 (IntTy 32) 2000 (IntTy 8) 8 3 sq_state = Ok (3, s1)
    \<and> executeReadFS (sequential sq_base) 100 (IntTy 32) 3000 (IntTy 8) 8 3 s1 = Ok (3, s2) \<and> buffer 3000 3 s2 = buffer 2000 3 sq_state"
proof -
  have "outside 2000 (unat (3 :: SVal)) (inodeIsize sq_base 1000)" "unat (8 :: SVal) < unat (maxFileSize (eeFs sq_base))"
    "inodeIsize sq_base 1000 \<notin> {fileInode sq_base 100, fileFlags sq_base 100}"
    by (simp_all add: outside_def sq_layout)
  from write_read_roundtrip [OF sq_sane sq_open sq_mode _ _ _ this(2,1,3), of 8 "IntTy 32" "IntTy 8" 3000] show ?thesis
    by (simp add: sq_pos write_len_def sq_layout)
qed

theorem write_of_42_keeps_lock_witness:
  "\<exists>s1. callWriteFS (sequential sq_base) (IntTy 32) (IntTy 64)
      [\<lparr>gvWidth = 32, gvInt = 0, gvPtr = 0\<rparr>, \<lparr>gvWidth = 1, gvInt = 0, gvPtr = 2000\<rparr>, \<lparr>gvWidth = 64, gvInt = 42, gvPtr = 0\<rparr>] sq_state = Ok s1
    \<and> filePosLock sq_base 100 \<in> set (sqHeld s1)"
proof -
  let ?fd = "\<lparr>gvWidth = 32, gvInt = 0, gvPtr = 0\<rparr>" and ?buf = "\<lparr>gvWidth = 1, gvInt = 0, gvPtr = 2000\<rparr>"
    and ?cnt = "\<lparr>gvWidth = 64, gvInt = 42, gvPtr = 0\<rparr>"
  have "getFileFromFd (sequential sq_base) (ucast (gvInt ?fd)) sq_state = 100" by (simp add: getFileFromFd_def sq_state_def)
  moreover have "outside (gvPtr ?buf) (unat (gvInt ?cnt)) (inodeIsize sq_base 1000)" by (simp add: outside_def sq_layout)
  moreover have "write_len sq_base 0 (gvInt ?cnt) = 42" by (simp add: write_len_def sq_layout)
  moreover have "0 = write_pos sq_base 1000 2 (sqMem sq_state (fileOffset sq_base 100)) sq_state"
    by (simp add: sq_pos) (simp add: sq_layout sq_state_def)
  ultimately show ?thesis
    using write_of_42_keeps_lock [OF sq_sane sq_open sq_mode(1) refl, of ?fd ?cnt 0 ?buf "IntTy 32" "IntTy 64"]
    by (auto simp: sq_layout sq_state_def)
qed

end
