(* ===== verification/GenMC_Pool.thy ===== *)
theory GenMC_Pool
  imports GenMC_Prelude "HOL-Library.Word" "HOL-Library.Multiset"
begin

text \<open>
  The pool of threads of a parallel verification (\<open>src/src/ThreadPool.hpp\<close>, \<open>src/src/ThreadPool.cpp\<close>, and \<open>verify\<close> and
  \<open>run\<close> of \<open>GenMCDriver.cpp\<close>): workers take tasks from a common queue; a task is an exploration, which may submit more
  tasks. The threads interleave at their accesses to shared state: the queue, the atomic counter and flag, the mutex and
  the condition variable. The pinning of threads to processors is left out.
\<close>

section \<open>The state of the pool\<close>

text \<open>Where a worker is. In \<open>popTask\<close>: about to look at the queue, having found it empty, having then found that the pool is
  not halted, about to lock the mutex, holding it, waiting, notified. With a task: running it, in \<open>submit\<close> (at one
  of its accesses, with the running task and the new one), or in \<open>halt\<close> (with the task that goes on, if there is one).\<close>

datatype 't Work = WPop | WSeenEmpty | WSeenActive | WLock | WHold | WWaiting | WWoken
  | WRun 't | WSubmit nat 't 't | WHalt nat "'t option" | WDone

text \<open>The thread that owns the pool: building it, in \<open>waitForTasks\<close>, in the destructor's \<open>halt\<close>, joining the workers.\<close>

datatype MainState = MBuild | MWait | MHalt nat | MJoin | MEnd

datatype Owner = Worker nat | MainThread

text \<open>The last two components record, for the statements, the tasks that were submitted and those that are done.\<close>

record 't Pool =
  plQueue :: "'t list"
  plRemaining :: "32 word"
  plHalt :: bool
  plMutex :: "Owner option"
  plWorkers :: "'t Work list"
  plMain :: MainState
  plSubmitted :: "'t multiset"
  plDone :: "'t multiset"

definition pool_init :: "'t \<Rightarrow> 't Pool" where
  "pool_init t = \<lparr>plQueue = [t], plRemaining = 1, plHalt = False, plMutex = None, plWorkers = [], plMain = MBuild,
     plSubmitted = {#t#}, plDone = {#}\<rparr>"

definition works :: "nat \<Rightarrow> 't Work \<Rightarrow> 't Pool \<Rightarrow> bool" where
  "works i w s \<longleftrightarrow> i < length (plWorkers s) \<and> plWorkers s ! i = w"

definition goto :: "nat \<Rightarrow> 't Work \<Rightarrow> 't Pool \<Rightarrow> 't Pool" where
  "goto i w s = s\<lparr>plWorkers := (plWorkers s)[i := w]\<rparr>"

definition notify_all :: "'t Work list \<Rightarrow> 't Work list" where
  "notify_all ws = map (\<lambda>w. case w of WWaiting \<Rightarrow> WWoken | _ \<Rightarrow> w) ws"

definition notify_one :: "'t Work list \<Rightarrow> 't Work list \<Rightarrow> bool" where
  "notify_one ws ws' \<longleftrightarrow> (WWaiting \<notin> set ws \<and> ws' = ws) \<or> (\<exists>j < length ws. ws ! j = WWaiting \<and> ws' = ws[j := WWoken])"

section \<open>Steps\<close>

text \<open>\<open>n\<close> is the number of workers to build; \<open>sp\<close> says whether a wait may end without a notification.\<close>

inductive pool_step :: "bool \<Rightarrow> nat \<Rightarrow> 't Pool \<Rightarrow> 't Pool \<Rightarrow> bool" for sp n where
  addWorker: "plMain s = MBuild \<Longrightarrow> length (plWorkers s) < n \<Longrightarrow> pool_step sp n s (s\<lparr>plWorkers := plWorkers s @ [WPop]\<rparr>)"
| built: "plMain s = MBuild \<Longrightarrow> \<not> length (plWorkers s) < n \<Longrightarrow> pool_step sp n s (s\<lparr>plMain := MWait\<rparr>)"
| waited: "plMain s = MWait \<Longrightarrow> plHalt s \<or> plRemaining s = 0 \<Longrightarrow> pool_step sp n s (s\<lparr>plMain := MHalt 0\<rparr>)"
| main_lock: "plMain s = MHalt 0 \<Longrightarrow> plMutex s = None \<Longrightarrow> pool_step sp n s (s\<lparr>plMain := MHalt 1, plMutex := Some MainThread\<rparr>)"
| main_store: "plMain s = MHalt 1 \<Longrightarrow> pool_step sp n s (s\<lparr>plMain := MHalt 2, plHalt := True\<rparr>)"
| main_notify: "plMain s = MHalt 2 \<Longrightarrow>
    pool_step sp n s (s\<lparr>plMain := MJoin, plMutex := None, plWorkers := notify_all (plWorkers s)\<rparr>)"
| joined: "plMain s = MJoin \<Longrightarrow> set (plWorkers s) \<subseteq> {WDone} \<Longrightarrow> pool_step sp n s (s\<lparr>plMain := MEnd\<rparr>)"
| pop: "works i WPop s \<Longrightarrow> plQueue s = q @ [t] \<Longrightarrow> pool_step sp n s (goto i (WRun t) (s\<lparr>plQueue := q\<rparr>))"
| pop_empty: "works i WPop s \<Longrightarrow> plQueue s = [] \<Longrightarrow> pool_step sp n s (goto i WSeenEmpty s)"
| see_halt: "works i WSeenEmpty s \<Longrightarrow> pool_step sp n s (goto i (if plHalt s then WDone else WSeenActive) s)"
| see_remaining: "works i WSeenActive s \<Longrightarrow> pool_step sp n s (goto i (if plRemaining s = 0 then WDone else WLock) s)"
| lock: "works i WLock s \<Longrightarrow> plMutex s = None \<Longrightarrow> pool_step sp n s (goto i WHold (s\<lparr>plMutex := Some (Worker i)\<rparr>))"
| wait: "works i WHold s \<Longrightarrow> pool_step sp n s (goto i WWaiting (s\<lparr>plMutex := None\<rparr>))"
| spurious: "sp \<Longrightarrow> works i WWaiting s \<Longrightarrow> pool_step sp n s (goto i WWoken s)"
| relock: "works i WWoken s \<Longrightarrow> plMutex s = None \<Longrightarrow> pool_step sp n s (goto i WPop s)"
| want_submit: "works i (WRun t) s \<Longrightarrow> unat (plRemaining s) < 8 * length (plWorkers s) \<Longrightarrow> pool_step sp n s (goto i (WSubmit 0 t t') s)"
| submit_lock: "works i (WSubmit 0 t t') s \<Longrightarrow> plMutex s = None \<Longrightarrow>
    pool_step sp n s (goto i (WSubmit 1 t t') (s\<lparr>plMutex := Some (Worker i)\<rparr>))"
| submit_inc: "works i (WSubmit 1 t t') s \<Longrightarrow> pool_step sp n s (goto i (WSubmit 2 t t') (s\<lparr>plRemaining := plRemaining s + 1\<rparr>))"
| submit_push: "works i (WSubmit 2 t t') s \<Longrightarrow>
    pool_step sp n s (goto i (WSubmit 3 t t') (s\<lparr>plQueue := plQueue s @ [t'], plSubmitted := add_mset t' (plSubmitted s)\<rparr>))"
| submit_notify: "works i (WSubmit 3 t t') s \<Longrightarrow> notify_one (plWorkers s) ws \<Longrightarrow>
    pool_step sp n s (goto i (WRun t) (s\<lparr>plMutex := None, plWorkers := ws\<rparr>))"
| driver_halt: "works i (WRun t) s \<Longrightarrow> pool_step sp n s (goto i (WHalt 0 (Some t)) s)"
| finish: "works i (WRun t) s \<Longrightarrow> pool_step sp n s (goto i (if plRemaining s - 1 = 0 then WHalt 0 None else WPop)
    (s\<lparr>plRemaining := plRemaining s - 1, plDone := add_mset t (plDone s)\<rparr>))"
| halt_lock: "works i (WHalt 0 c) s \<Longrightarrow> plMutex s = None \<Longrightarrow> pool_step sp n s (goto i (WHalt 1 c) (s\<lparr>plMutex := Some (Worker i)\<rparr>))"
| halt_store: "works i (WHalt 1 c) s \<Longrightarrow> pool_step sp n s (goto i (WHalt 2 c) (s\<lparr>plHalt := True\<rparr>))"
| halt_notify: "works i (WHalt 2 c) s \<Longrightarrow>
    pool_step sp n s (goto i (case c of None \<Rightarrow> WDone | Some t \<Rightarrow> WRun t) (s\<lparr>plMutex := None, plWorkers := notify_all (plWorkers s)\<rparr>))"

inductive pool_reach :: "bool \<Rightarrow> nat \<Rightarrow> 't Pool \<Rightarrow> bool" for sp n where
  start: "pool_reach sp n (pool_init t)"
| step: "pool_reach sp n s \<Longrightarrow> pool_step sp n s s' \<Longrightarrow> pool_reach sp n s'"

end
