(* ===== verification/GenMC_PoolProps.thy ===== *)
theory GenMC_PoolProps
  imports GenMC_Pool
begin

text \<open>
  What the pool of threads guarantees in every interleaving: no task is lost or run twice, the counter counts the tasks
  that are not finished and stays small, a pool that ends has done everything, and how it can hang.
\<close>

section \<open>Tasks\<close>

text \<open>The tasks a worker is busy with, and how many tasks it adds to the counter and is about to add.\<close>

fun tasks :: "'t Work \<Rightarrow> 't multiset" where
  "tasks (WRun t) = {#t#}"
| "tasks (WSubmit p t t') = {#t#}"
| "tasks (WHalt p c) = (case c of None \<Rightarrow> {#} | Some t \<Rightarrow> {#t#})"
| "tasks _ = {#}"

fun load :: "'t Work \<Rightarrow> nat" where
  "load (WRun t) = 1"
| "load (WSubmit p t t') = (if p = 2 then 2 else 1)"
| "load (WHalt p c) = (case c of None \<Rightarrow> 0 | Some t \<Rightarrow> 1)"
| "load _ = 0"

fun pending :: "'t Work \<Rightarrow> nat" where
  "pending (WSubmit p t t') = (if p < 2 then 1 else 0)"
| "pending _ = 0"

definition total :: "'t Pool \<Rightarrow> nat" where
  "total s = length (plQueue s) + sum_list (map load (plWorkers s))"

definition all_pending :: "'t Pool \<Rightarrow> nat" where
  "all_pending s = sum_list (map pending (plWorkers s))"

lemma works_split: "works i w s \<Longrightarrow> \<exists>us vs. plWorkers s = us @ w # vs \<and> i = length us"
  unfolding works_def by (metis id_take_nth_drop length_take min.absorb4)

lemma notify_all_sum: "f WWaiting = f WWoken \<Longrightarrow> sum_list (map f (notify_all ws)) = sum_list (map f ws)"
  by (induction ws) (auto simp: notify_all_def split: Work.splits)

lemma notify_one_split:
  assumes "notify_one ws ws'"
  obtains "ws' = ws" | us vs where "ws = us @ WWaiting # vs" "ws' = us @ WWoken # vs"
proof (cases "ws' = ws")
  case False
  then obtain j where j: "j < length ws" "ws ! j = WWaiting" "ws' = ws[j := WWoken]"
    using assms by (auto simp: notify_one_def)
  then have "ws = take j ws @ WWaiting # drop (Suc j) ws" by (metis id_take_nth_drop)
  moreover have "ws' = take j ws @ WWoken # drop (Suc j) ws" using j by (simp add: upd_conv_take_nth_drop)
  ultimately show ?thesis by (rule that(2))
qed (rule that(1))

lemma notify_one_sum: "notify_one ws ws' \<Longrightarrow> f WWaiting = f WWoken \<Longrightarrow> sum_list (map f ws') = sum_list (map f ws)"
  by (auto elim!: notify_one_split)

lemma goto_sum:
  assumes "works i w s"
  shows "sum_list (map f ((plWorkers s)[i := w'])) + f w = sum_list (map f (plWorkers s)) + (f w' :: 'a :: comm_monoid_add)"
  using works_split [OF assms] by (auto simp: ac_simps)

lemma works_notify_all: "works i w s \<Longrightarrow> w \<noteq> WWaiting \<Longrightarrow> works i w (s\<lparr>plWorkers := notify_all (plWorkers s)\<rparr>)"
  by (auto simp: works_def notify_all_def split: Work.splits)

lemma works_notify_one: "works i w s \<Longrightarrow> w \<noteq> WWaiting \<Longrightarrow> notify_one (plWorkers s) ws \<Longrightarrow> works i w (s\<lparr>plWorkers := ws\<rparr>)"
  by (auto simp: works_def notify_one_def nth_list_update)

lemma works_other [simp]:
  "works i w (s\<lparr>plQueue := q\<rparr>) = works i w s" "works i w (s\<lparr>plRemaining := r\<rparr>) = works i w s" "works i w (s\<lparr>plHalt := h\<rparr>) = works i w s"
  "works i w (s\<lparr>plMutex := m\<rparr>) = works i w s" "works i w (s\<lparr>plSubmitted := u\<rparr>) = works i w s" "works i w (s\<lparr>plDone := d\<rparr>) = works i w s"
  by (simp_all add: works_def)

lemma goto_sum_eq:
  assumes "works i w s" and "f w' = f w + d"
  shows "sum_list (map f (plWorkers (goto i w' s))) = sum_list (map f (plWorkers s)) + (d :: 'a :: comm_monoid_add)"
  using works_split [OF assms(1)] assms(2) by (auto simp: goto_def ac_simps)

lemma tasks_step:
  assumes "pool_step sp n s s'" and "plSubmitted s = plDone s + mset (plQueue s) + sum_list (map tasks (plWorkers s))"
  shows "plSubmitted s' = plDone s' + mset (plQueue s') + sum_list (map tasks (plWorkers s'))"
  using assms
proof (induction rule: pool_step.induct)
  case (submit_notify i t t' s ws)
  then show ?case
    using goto_sum_eq [OF works_notify_one [OF submit_notify(1) _ submit_notify(2)], of tasks "WRun t" "{#}"]
      notify_one_sum [OF submit_notify(2), of tasks] by (simp add: goto_def)
next
  case (halt_notify i c s)
  then show ?case
    using goto_sum_eq [OF works_notify_all [OF halt_notify(1)], of tasks "case c of None \<Rightarrow> WDone | Some t \<Rightarrow> WRun t" "{#}"]
      notify_all_sum [of tasks "plWorkers s"] by (cases c) (simp_all add: goto_def)
next
  case (main_notify s)
  then show ?case using notify_all_sum [of tasks "plWorkers s"] by simp
qed (auto simp: goto_def dest!: works_split)

lemma tasks_reach: "pool_reach sp n s \<Longrightarrow> plSubmitted s = plDone s + mset (plQueue s) + sum_list (map tasks (plWorkers s))"
proof (induction rule: pool_reach.induct)
  case (start t)
  show ?case by (simp add: pool_init_def)
next
  case (step s s')
  then show ?case by (blast intro: tasks_step)
qed

section \<open>The counter\<close>

lemma notify_all_simps [simp]: "length (notify_all ws) = length ws"
  by (simp add: notify_all_def)

lemma notify_one_length: "notify_one ws ws' \<Longrightarrow> length ws' = length ws"
  by (auto simp: notify_one_def)

lemma workers_step: "pool_step sp n s s' \<Longrightarrow> length (plWorkers s) \<le> n \<and> (plMain s \<noteq> MBuild \<longrightarrow> length (plWorkers s) = n)
    \<Longrightarrow> length (plWorkers s') \<le> n \<and> (plMain s' \<noteq> MBuild \<longrightarrow> length (plWorkers s') = n)"
  by (induction rule: pool_step.induct) (auto simp: goto_def dest: notify_one_length)

lemma workers_reach: "pool_reach sp n s \<Longrightarrow> length (plWorkers s) \<le> n \<and> (plMain s \<noteq> MBuild \<longrightarrow> length (plWorkers s) = n)"
  by (induction rule: pool_reach.induct) (auto simp: pool_init_def dest: workers_step)

definition counted :: "nat \<Rightarrow> 't Pool \<Rightarrow> bool" where
  "counted n s \<longleftrightarrow> plRemaining s = of_nat (total s) \<and> total s + all_pending s \<le> 9 * n"

lemma pending_le: "sum_list (map pending ws) \<le> length ws"
proof (induction ws)
  case (Cons w ws)
  have "pending w \<le> 1" by (cases w) auto
  with Cons show ?case by simp
qed simp

lemma counted_step:
  assumes "pool_step sp n s s'" and "counted n s" and "length (plWorkers s) \<le> n" and "9 * n < 2 ^ 32"
  shows "counted n s'"
  using assms
proof (induction rule: pool_step.induct)
  case (submit_notify i t t' s ws)
  have "total (goto i (WRun t) (s\<lparr>plMutex := None, plWorkers := ws\<rparr>)) = total s"
    using goto_sum_eq [OF works_notify_one [OF submit_notify(1) _ submit_notify(2)], of load "WRun t" 0]
      notify_one_sum [OF submit_notify(2), of load] by (simp add: goto_def total_def)
  moreover have "all_pending (goto i (WRun t) (s\<lparr>plMutex := None, plWorkers := ws\<rparr>)) = all_pending s"
    using goto_sum_eq [OF works_notify_one [OF submit_notify(1) _ submit_notify(2)], of pending "WRun t" 0]
      notify_one_sum [OF submit_notify(2), of pending] by (simp add: goto_def all_pending_def)
  ultimately show ?case using submit_notify(3) by (simp add: counted_def) (simp add: goto_def)
next
  case (halt_notify i c s)
  let ?w = "case c of None \<Rightarrow> WDone | Some t \<Rightarrow> WRun t" and ?s = "s\<lparr>plMutex := None, plWorkers := notify_all (plWorkers s)\<rparr>"
  have "total (goto i ?w ?s) = total s"
    using goto_sum_eq [OF works_notify_all [OF halt_notify(1)], of load ?w 0] notify_all_sum [of load "plWorkers s"]
    by (cases c) (simp_all add: goto_def total_def)
  moreover have "all_pending (goto i ?w ?s) = all_pending s"
    using goto_sum_eq [OF works_notify_all [OF halt_notify(1)], of pending ?w 0] notify_all_sum [of pending "plWorkers s"]
    by (cases c) (simp_all add: goto_def all_pending_def)
  ultimately show ?case using halt_notify(2) by (simp add: counted_def) (simp add: goto_def)
next
  case (main_notify s)
  then show ?case
    using notify_all_sum [of load "plWorkers s"] notify_all_sum [of pending "plWorkers s"] by (simp add: counted_def total_def all_pending_def)
next
  case (want_submit i t s t')
  obtain us vs where w: "plWorkers s = us @ WRun t # vs" "i = length us" using works_split [OF want_submit(1)] by blast
  have u: "unat (plRemaining s) = total s"
    using want_submit(3,5) by (auto simp: counted_def intro!: of_nat_inverse [OF refl])
  have "all_pending s \<le> length us + length vs"
    using pending_le [of us] pending_le [of vs] by (simp add: all_pending_def w)
  with u want_submit(2-4) show ?case by (auto simp: counted_def goto_def total_def all_pending_def w)
qed (auto simp: counted_def total_def all_pending_def goto_def of_nat_diff dest!: works_split)

lemma counted_reach: "pool_reach sp n s \<Longrightarrow> 0 < n \<Longrightarrow> 9 * n < 2 ^ 32 \<Longrightarrow> counted n s"
proof (induction rule: pool_reach.induct)
  case (start t)
  then show ?case by (simp add: pool_init_def counted_def total_def all_pending_def)
next
  case (step s s')
  then show ?case using counted_step workers_reach by blast
qed

section \<open>The mutex\<close>

fun critical :: "'t Work \<Rightarrow> bool" where
  "critical WHold = True"
| "critical (WSubmit p t t') = (0 < p)"
| "critical (WHalt p c) = (0 < p)"
| "critical _ = False"

fun phase_ok :: "'t Work \<Rightarrow> bool" where
  "phase_ok (WSubmit p t t') = (p \<le> 3)"
| "phase_ok (WHalt p c) = (p \<le> 2)"
| "phase_ok _ = True"

definition mutex_ok :: "'t Pool \<Rightarrow> bool" where
  "mutex_ok s \<longleftrightarrow> (\<forall>i < length (plWorkers s). critical (plWorkers s ! i) \<longleftrightarrow> plMutex s = Some (Worker i))
     \<and> (\<forall>i. plMutex s = Some (Worker i) \<longrightarrow> i < length (plWorkers s))
     \<and> (plMutex s = Some MainThread \<longleftrightarrow> plMain s \<in> {MHalt 1, MHalt 2})
     \<and> (\<forall>i < length (plWorkers s). phase_ok (plWorkers s ! i)) \<and> (\<forall>p. plMain s = MHalt p \<longrightarrow> p \<le> 2)"

lemma notify_all_nth:
  assumes "i < length ws"
  shows "critical (notify_all ws ! i) = critical (ws ! i)" "phase_ok (notify_all ws ! i) = phase_ok (ws ! i)"
  using assms by (cases "ws ! i"; simp add: notify_all_def)+

lemma notify_one_nth:
  assumes "notify_one ws ws'" and "i < length ws"
  shows "critical (ws' ! i) = critical (ws ! i)" "phase_ok (ws' ! i) = phase_ok (ws ! i)"
  using assms by (auto simp: notify_one_def nth_list_update split: if_splits)

lemma mutex_step: "pool_step sp n s s' \<Longrightarrow> mutex_ok s \<Longrightarrow> mutex_ok s'"
proof (induction rule: pool_step.induct)
  case (submit_notify i t t' s ws)
  then show ?case
    using notify_one_nth [OF submit_notify(2)] notify_one_length [OF submit_notify(2)]
    by (auto simp: mutex_ok_def goto_def works_def nth_list_update)
next
  case (halt_notify i c s)
  then show ?case
    using notify_all_nth [of _ "plWorkers s"]
    by (auto simp: mutex_ok_def goto_def works_def nth_list_update split: option.splits)
next
  case (main_notify s)
  then show ?case
    using notify_all_nth [of _ "plWorkers s"] by (auto simp: mutex_ok_def)
qed (auto simp: mutex_ok_def goto_def works_def nth_list_update nth_append less_Suc_eq)

lemma mutex_reach: "pool_reach sp n s \<Longrightarrow> mutex_ok s"
  by (induction rule: pool_reach.induct) (auto simp: pool_init_def mutex_ok_def dest: mutex_step)

section \<open>Leaving\<close>

fun leaving :: "'t Work \<Rightarrow> bool" where
  "leaving WSeenEmpty = True"
| "leaving WSeenActive = True"
| "leaving WDone = True"
| "leaving (WHalt p c) = (c = None)"
| "leaving _ = False"

fun quits :: "'t Work \<Rightarrow> bool" where
  "quits WDone = True"
| "quits (WHalt p c) = (c = None)"
| "quits _ = False"

definition quit_ok :: "'t Pool \<Rightarrow> bool" where
  "quit_ok s \<longleftrightarrow> ((\<exists>w \<in> set (plWorkers s). quits w) \<longrightarrow> plHalt s \<or> total s = 0)"

definition queue_ok :: "'t Pool \<Rightarrow> bool" where
  "queue_ok s \<longleftrightarrow> (plQueue s \<noteq> [] \<longrightarrow> plWorkers s = [] \<or> (\<exists>w \<in> set (plWorkers s). \<not> leaving w))"

definition end_ok :: "'t Pool \<Rightarrow> bool" where
  "end_ok s \<longleftrightarrow> (plMain s = MEnd \<longrightarrow> set (plWorkers s) \<subseteq> {WDone})"

lemma remaining_0:
  assumes "counted n s" and "9 * n < 2 ^ 32"
  shows "plRemaining s = 0 \<longleftrightarrow> total s = 0" "0 < total s \<Longrightarrow> plRemaining s - 1 = 0 \<longleftrightarrow> total s = 1"
proof -
  have u: "unat (plRemaining s) = total s" using assms by (auto simp: counted_def intro!: of_nat_inverse [OF refl])
  show "plRemaining s = 0 \<longleftrightarrow> total s = 0" using u by (metis unat_0 word_unat_eq_iff)
  show "plRemaining s - 1 = 0 \<longleftrightarrow> total s = 1" if "0 < total s" using u by (metis eq_iff_diff_eq_0 unat_1 word_unat_eq_iff)
qed

lemma notify_all_set:
  "(\<exists>w \<in> set (notify_all ws). quits w) = (\<exists>w \<in> set ws. quits w)" "(\<exists>w \<in> set (notify_all ws). \<not> leaving w) = (\<exists>w \<in> set ws. \<not> leaving w)"
  by (induction ws) (auto simp: notify_all_def split: Work.splits)

lemma notify_one_set:
  assumes "notify_one ws ws'"
  shows "(\<exists>w \<in> set ws'. quits w) = (\<exists>w \<in> set ws. quits w)" "(\<exists>w \<in> set ws'. \<not> leaving w) = (\<exists>w \<in> set ws. \<not> leaving w)"
  using assms by (auto elim!: notify_one_split)

lemma quit_step:
  assumes "pool_step sp n s s'" and "quit_ok s" and "counted n s" and "9 * n < 2 ^ 32"
  shows "quit_ok s'"
  using assms
proof (induction rule: pool_step.induct)
  case (submit_notify i t t' s ws)
  obtain us vs where w: "ws = us @ WSubmit 3 t t' # vs" "i = length us"
    using works_split [OF works_notify_one [OF submit_notify(1) _ submit_notify(2)]] by auto
  have "0 < total s" using works_split [OF submit_notify(1)] by (auto simp: total_def)
  with submit_notify(3) notify_one_set(1) [OF submit_notify(2)] show ?case by (auto simp: quit_ok_def goto_def w)
next
  case (halt_notify i c s)
  obtain us vs where w: "notify_all (plWorkers s) = us @ WHalt 2 c # vs" "i = length us"
    using works_split [OF works_notify_all [OF halt_notify(1)]] by auto
  have "total s = 0 \<Longrightarrow> c = None" using works_split [OF halt_notify(1)] by (auto simp: total_def split: option.splits)
  moreover have "sum_list (map load (notify_all (plWorkers s))) = sum_list (map load (plWorkers s))" by (rule notify_all_sum) simp
  ultimately show ?case
    using halt_notify(2) notify_all_set(1) [of "plWorkers s"]
    by (cases c) (auto simp: quit_ok_def goto_def w total_def)
next
  case (main_notify s)
  then show ?case using notify_all_set(1) [of "plWorkers s"] notify_all_sum [of load "plWorkers s"] by (auto simp: quit_ok_def total_def)
next
  case (finish i t s)
  then show ?case using remaining_0(2) [OF finish(3,4)] by (auto simp: quit_ok_def goto_def total_def dest!: works_split)
qed (auto simp: quit_ok_def goto_def total_def remaining_0 dest!: works_split)

lemma queue_step:
  assumes "pool_step sp n s s'" and "queue_ok s" and "counted n s" and "9 * n < 2 ^ 32"
  shows "queue_ok s'"
  using assms
proof (induction rule: pool_step.induct)
  case (submit_notify i t t' s ws)
  obtain us vs where w: "ws = us @ WSubmit 3 t t' # vs" "i = length us"
    using works_split [OF works_notify_one [OF submit_notify(1) _ submit_notify(2)]] by auto
  show ?case by (auto simp: queue_ok_def goto_def w)
next
  case (halt_notify i c s)
  obtain us vs where w: "notify_all (plWorkers s) = us @ WHalt 2 c # vs" "i = length us"
    using works_split [OF works_notify_all [OF halt_notify(1)]] by auto
  have "plWorkers s \<noteq> []" using halt_notify(1) by (auto simp: works_def)
  with halt_notify(2) notify_all_set(2) [of "plWorkers s"] show ?case
    by (cases c) (auto simp: queue_ok_def goto_def w)
next
  case (main_notify s)
  then show ?case using notify_all_set(2) [of "plWorkers s"] by (auto simp: queue_ok_def) (simp add: notify_all_def)
next
  case (finish i t s)
  then show ?case using remaining_0(2) [OF finish(3,4)] by (auto simp: queue_ok_def goto_def total_def dest!: works_split)
qed (auto simp: queue_ok_def goto_def total_def remaining_0 dest!: works_split)

lemma end_step: "pool_step sp n s s' \<Longrightarrow> end_ok s \<Longrightarrow> end_ok s'"
  by (induction rule: pool_step.induct) (auto simp: end_ok_def goto_def dest!: works_split)

lemma leave_reach: "pool_reach sp n s \<Longrightarrow> 0 < n \<Longrightarrow> 9 * n < 2 ^ 32 \<Longrightarrow> quit_ok s \<and> queue_ok s \<and> end_ok s"
proof (induction rule: pool_reach.induct)
  case (start t)
  show ?case by (simp add: pool_init_def quit_ok_def queue_ok_def end_ok_def)
next
  case (step s s')
  then show ?case using counted_reach quit_step queue_step end_step by metis
qed

section \<open>Guarantees\<close>

text \<open>C12: in every interleaving no task is lost or handed out twice: the tasks submitted are those done, those in the queue
  and those that workers run. The counter is the number of tasks not finished (a task is counted before it is in
  the queue) and does not exceed nine times the number of workers.\<close>

theorem pool_keeps_tasks:
  assumes "pool_reach sp n s" and "0 < n" and "9 * n < 2 ^ 32"
  shows "plSubmitted s = plDone s + mset (plQueue s) + sum_list (map tasks (plWorkers s))
    \<and> unat (plRemaining s) = length (plQueue s) + sum_list (map load (plWorkers s)) \<and> unat (plRemaining s) \<le> 9 * n"
proof -
  note c = counted_reach [OF assms]
  have "unat (plRemaining s) = total s" using c assms(3) by (auto simp: counted_def intro!: of_nat_inverse [OF refl])
  with c tasks_reach [OF assms(1)] show ?thesis by (simp add: counted_def total_def)
qed

lemma sum_done: "set ws \<subseteq> {WDone} \<Longrightarrow> sum_list (map tasks ws) = {#} \<and> sum_list (map load ws) = 0"
  by (induction ws) auto

text \<open>C10: when the pool has joined its workers every submitted task is done, also when a driver halted the pool before.\<close>

theorem pool_ends_complete:
  assumes "pool_reach sp n s" and "0 < n" and "9 * n < 2 ^ 32" and "plMain s = MEnd"
  shows "plDone s = plSubmitted s \<and> plQueue s = [] \<and> plRemaining s = 0"
proof -
  have ws: "set (plWorkers s) \<subseteq> {WDone}" "plWorkers s \<noteq> []"
    using leave_reach [OF assms(1-3)] workers_reach [OF assms(1)] assms(2,4) by (auto simp: end_ok_def)
  have q: "plQueue s = []" using leave_reach [OF assms(1-3)] ws by (auto simp: queue_ok_def)
  have "total s = 0" using sum_done [OF ws(1)] q by (simp add: total_def)
  with sum_done [OF ws(1)] tasks_reach [OF assms(1)] counted_reach [OF assms(1-3)] q show ?thesis by (simp add: counted_def)
qed

lemma notify_one_ex: "\<exists>ws'. notify_one ws ws'"
  by (cases "WWaiting \<in> set ws") (auto simp: notify_one_def in_set_conv_nth)

lemma worker_can_step:
  assumes w: "works i w s" "w \<noteq> WDone" "w \<noteq> WWaiting" and "plMutex s = None \<or> critical w" and "phase_ok w"
  shows "\<exists>s'. pool_step sp n s s'"
proof (cases w)
  case WPop
  with w(1) show ?thesis by (cases "plQueue s" rule: rev_cases) (blast intro: pool_step.pop_empty pool_step.pop)+
next
  case (WSubmit p t t')
  obtain ws where "notify_one (plWorkers s) ws" using notify_one_ex by blast
  moreover have "p = 0 \<and> plMutex s = None \<or> p = 1 \<or> p = 2 \<or> p = 3" using assms(4,5) WSubmit by auto
  ultimately show ?thesis using w(1) WSubmit
    by (blast intro: pool_step.submit_lock pool_step.submit_inc pool_step.submit_push pool_step.submit_notify)
next
  case (WHalt p c)
  moreover have "p = 0 \<and> plMutex s = None \<or> p = 1 \<or> p = 2" using assms(4,5) WHalt by auto
  ultimately show ?thesis using w(1) by (blast intro: pool_step.halt_lock pool_step.halt_store pool_step.halt_notify)
qed (use assms in \<open>auto intro: pool_step.intros\<close>)

text \<open>C13: the only thing that can stop the pool before its end is a worker that waits: a state from which no thread
  can go on is the end or has a waiting worker.\<close>

theorem pool_stuck_waits:
  assumes reach: "pool_reach sp n s" and n: "0 < n" "9 * n < 2 ^ 32" and stuck: "\<And>s'. \<not> pool_step sp n s s'"
  shows "plMain s = MEnd \<or> (\<exists>i. works i WWaiting s)"
proof (rule ccontr)
  assume no: "\<not> (plMain s = MEnd \<or> (\<exists>i. works i WWaiting s))"
  note m = mutex_reach [OF reach]
  have all_done: "w = WDone" if "works i w s" "plMutex s = None \<or> critical w" for i w
  proof (rule ccontr)
    assume "w \<noteq> WDone"
    moreover have "w \<noteq> WWaiting" "phase_ok w" using no that(1) m by (auto simp: mutex_ok_def works_def)
    ultimately show False using worker_can_step [OF that(1) _ _ that(2)] stuck by blast
  qed
  have "plMutex s = None"
  proof (rule ccontr)
    assume "plMutex s \<noteq> None"
    then obtain ow where o: "plMutex s = Some ow" by blast
    show False
    proof (cases ow)
      case (Worker i)
      then have "critical (plWorkers s ! i)" "i < length (plWorkers s)" using m o by (auto simp: mutex_ok_def)
      then show False using all_done [of i "plWorkers s ! i"] by (auto simp: works_def)
    next
      case MainThread
      then have "plMain s \<in> {MHalt 1, MHalt 2}" using m o by (simp add: mutex_ok_def)
      then show False using stuck by (blast intro: pool_step.main_store pool_step.main_notify)
    qed
  qed
  then have ws: "set (plWorkers s) \<subseteq> {WDone}" using all_done by (auto simp: works_def in_set_conv_nth)
  have "plMain s = MWait \<Longrightarrow> plHalt s \<or> plRemaining s = 0"
    using leave_reach [OF reach n] workers_reach [OF reach] n ws remaining_0(1) [OF counted_reach [OF reach n] n(2)]
    by (cases "plWorkers s") (auto simp: quit_ok_def)
  moreover have "plMain s = MHalt p \<Longrightarrow> p \<in> {0, 1, 2}" for p using m by (auto simp: mutex_ok_def)
  ultimately show False
    using stuck no ws \<open>plMutex s = None\<close>
    by (cases "plMain s") (blast intro: pool_step.intros)+
qed

section \<open>A lost notification\<close>

text \<open>The states of a pool with one task.\<close>

definition one_task :: "'t \<Rightarrow> bool \<Rightarrow> bool \<Rightarrow> bool \<Rightarrow> Owner option \<Rightarrow> 't Work list \<Rightarrow> MainState \<Rightarrow> 't Pool" where
  "one_task t qd fin h m ws mn = \<lparr>plQueue = (if qd then [t] else []), plRemaining = (if fin then 0 else 1), plHalt = h, plMutex = m,
     plWorkers = ws, plMain = mn, plSubmitted = {#t#}, plDone = (if fin then {#t#} else {#})\<rparr>"

lemma one_task_step:
  assumes "pool_reach sp n s" and "pool_step sp n s s1" and "s1 = s'"
  shows "pool_reach sp n s'"
  using assms pool_reach.step by metis

lemmas one_task_simps = one_task_def works_def goto_def notify_all_def

lemma one_task_running: "pool_reach False 2 (one_task t False False False None [WRun t, WLock] MWait)"
proof -
  let ?S = "one_task t"
  have 0: "pool_reach False 2 (?S True False False None [] MBuild)"
    using pool_reach.start [of False 2 t] by (simp add: pool_init_def one_task_def)
  have 1: "pool_reach False 2 (?S True False False None [WPop] MBuild)"
    by (rule one_task_step [OF 0 pool_step.addWorker]) (simp_all add: one_task_simps)
  have 2: "pool_reach False 2 (?S True False False None [WPop, WPop] MBuild)"
    by (rule one_task_step [OF 1 pool_step.addWorker]) (simp_all add: one_task_simps)
  have 3: "pool_reach False 2 (?S True False False None [WPop, WPop] MWait)"
    by (rule one_task_step [OF 2 pool_step.built]) (simp_all add: one_task_simps)
  have 4: "pool_reach False 2 (?S False False False None [WRun t, WPop] MWait)"
    by (rule one_task_step [OF 3 pool_step.pop [where i = 0 and q = "[]"]]) (simp_all add: one_task_simps)
  have 5: "pool_reach False 2 (?S False False False None [WRun t, WSeenEmpty] MWait)"
    by (rule one_task_step [OF 4 pool_step.pop_empty [where i = 1]]) (simp_all add: one_task_simps)
  have 6: "pool_reach False 2 (?S False False False None [WRun t, WSeenActive] MWait)"
    by (rule one_task_step [OF 5 pool_step.see_halt [where i = 1]]) (simp_all add: one_task_simps)
  show ?thesis
    by (rule one_task_step [OF 6 pool_step.see_remaining [where i = 1]]) (simp_all add: one_task_simps)
qed

lemma one_task_halted: "pool_reach False 2 (one_task t False True True None [WDone, WLock] MWait)"
proof -
  let ?S = "one_task t False"
  have 1: "pool_reach False 2 (?S True False None [WHalt 0 None, WLock] MWait)"
    by (rule one_task_step [OF one_task_running pool_step.finish [where i = 0]]) (simp_all add: one_task_simps)
  have 2: "pool_reach False 2 (?S True False (Some (Worker 0)) [WHalt 1 None, WLock] MWait)"
    by (rule one_task_step [OF 1 pool_step.halt_lock [where i = 0]]) (simp_all add: one_task_simps)
  have 3: "pool_reach False 2 (?S True True (Some (Worker 0)) [WHalt 2 None, WLock] MWait)"
    by (rule one_task_step [OF 2 pool_step.halt_store [where i = 0]]) (simp_all add: one_task_simps)
  show ?thesis
    by (rule one_task_step [OF 3 pool_step.halt_notify [where i = 0 and c = None]]) (simp_all add: one_task_simps)
qed

lemma one_task_stuck: "pool_reach False 2 (one_task t False True True None [WDone, WWaiting] MJoin)"
proof -
  let ?S = "one_task t False True True"
  have 1: "pool_reach False 2 (?S None [WDone, WLock] (MHalt 0))"
    by (rule one_task_step [OF one_task_halted pool_step.waited]) (simp_all add: one_task_simps)
  have 2: "pool_reach False 2 (?S (Some MainThread) [WDone, WLock] (MHalt 1))"
    by (rule one_task_step [OF 1 pool_step.main_lock]) (simp_all add: one_task_simps)
  have 3: "pool_reach False 2 (?S (Some MainThread) [WDone, WLock] (MHalt 2))"
    by (rule one_task_step [OF 2 pool_step.main_store]) (simp_all add: one_task_simps)
  have 4: "pool_reach False 2 (?S None [WDone, WLock] MJoin)"
    by (rule one_task_step [OF 3 pool_step.main_notify]) (simp_all add: one_task_simps)
  have 5: "pool_reach False 2 (?S (Some (Worker 1)) [WDone, WHold] MJoin)"
    by (rule one_task_step [OF 4 pool_step.lock [where i = 1]]) (simp_all add: one_task_simps)
  show ?thesis
    by (rule one_task_step [OF 5 pool_step.wait [where i = 1]]) (simp_all add: one_task_simps)
qed

lemma one_task_no_step: "\<not> pool_step False 2 (one_task t False True True None [WDone, WWaiting] MJoin) s'"
proof
  assume "pool_step False 2 (one_task t False True True None [WDone, WWaiting] MJoin) s'"
  then show False by (cases rule: pool_step.cases) (auto simp: one_task_simps nth_Cons split: nat.splits)
qed

lemma one_task_ends: "pool_reach False 2 (one_task t False True True None [WDone, WDone] MEnd)"
proof -
  let ?S = "one_task t False True True"
  have 1: "pool_reach False 2 (?S (Some (Worker 1)) [WDone, WHold] MWait)"
    by (rule one_task_step [OF one_task_halted pool_step.lock [where i = 1]]) (simp_all add: one_task_simps)
  have 2: "pool_reach False 2 (?S None [WDone, WWaiting] MWait)"
    by (rule one_task_step [OF 1 pool_step.wait [where i = 1]]) (simp_all add: one_task_simps)
  have 3: "pool_reach False 2 (?S None [WDone, WWaiting] (MHalt 0))"
    by (rule one_task_step [OF 2 pool_step.waited]) (simp_all add: one_task_simps)
  have 4: "pool_reach False 2 (?S (Some MainThread) [WDone, WWaiting] (MHalt 1))"
    by (rule one_task_step [OF 3 pool_step.main_lock]) (simp_all add: one_task_simps)
  have 5: "pool_reach False 2 (?S (Some MainThread) [WDone, WWaiting] (MHalt 2))"
    by (rule one_task_step [OF 4 pool_step.main_store]) (simp_all add: one_task_simps)
  have 6: "pool_reach False 2 (?S None [WDone, WWoken] MJoin)"
    by (rule one_task_step [OF 5 pool_step.main_notify]) (simp_all add: one_task_simps)
  have 7: "pool_reach False 2 (?S None [WDone, WPop] MJoin)"
    by (rule one_task_step [OF 6 pool_step.relock [where i = 1]]) (simp_all add: one_task_simps)
  have 8: "pool_reach False 2 (?S None [WDone, WSeenEmpty] MJoin)"
    by (rule one_task_step [OF 7 pool_step.pop_empty [where i = 1]]) (simp_all add: one_task_simps)
  have 9: "pool_reach False 2 (?S None [WDone, WDone] MJoin)"
    by (rule one_task_step [OF 8 pool_step.see_halt [where i = 1]]) (simp_all add: one_task_simps)
  show ?thesis by (rule one_task_step [OF 9 pool_step.joined]) (simp_all add: one_task_simps)
qed

text \<open>C11: the pool can hang after all its work is done: a worker that has found the queue empty and the pool not halted
  locks the mutex only after the last worker and the destructor have halted the pool and notified, and then waits for a
  notification that does not come, while the owner of the pool joins it.\<close>

theorem pool_can_hang:
  "\<exists>s :: 't Pool. pool_reach False 2 s \<and> plMain s = MJoin \<and> plHalt s \<and> plDone s = plSubmitted s \<and> plRemaining s = 0
    \<and> works 1 WWaiting s \<and> (\<forall>s'. \<not> pool_step False 2 s s')"
proof -
  fix t :: 't
  let ?s = "one_task t False True True None [WDone, WWaiting] MJoin"
  have "plMain ?s = MJoin \<and> plHalt ?s \<and> plDone ?s = plSubmitted ?s \<and> plRemaining ?s = 0 \<and> works 1 WWaiting ?s"
    by (simp add: one_task_simps)
  then show ?thesis using one_task_stuck [of t] one_task_no_step [of t] by blast
qed

theorem pool_keeps_tasks_witness:
  "plSubmitted (one_task (0 :: nat) False False False None [WRun 0, WLock] MWait) = {#0#}"
  using pool_keeps_tasks [OF one_task_running [of "0 :: nat"]] by (simp add: one_task_def)

theorem pool_ends_complete_witness:
  "plDone (one_task (0 :: nat) False True True None [WDone, WDone] MEnd) = {#0#}"
  using pool_ends_complete [OF one_task_ends [of "0 :: nat"]] by (simp add: one_task_def)

theorem pool_stuck_waits_witness:
  "\<exists>i. works i WWaiting (one_task (0 :: nat) False True True None [WDone, WWaiting] MJoin)"
  using pool_stuck_waits [OF one_task_stuck _ _ one_task_no_step, of "0 :: nat"] by (simp add: one_task_def)

end
