(* ===== verification/GenMC_Instr.thy ===== *)
theory GenMC_Instr
  imports GenMC_LibCalls
begin

unbundle bit_operations_syntax

text \<open>
  The values of the checked program and the instructions that compute with them (\<open>src/src/Execution.cpp\<close>):
  comparisons, arithmetic, shifts, casts, selections and addresses of elements, on scalars and, element by element,
  on vectors, and the evaluation of operands. Arithmetic on integers of a given width (\<open>APInt\<close>), the sizes of types and
  the layout of structures are LLVM's and are fields of the record \<open>Lib\<close>. Floating-point values are not modelled, nor
  are bit casts to or from vectors, whose value here is \<open>Undef\<close>.
\<close>

section \<open>Values\<close>

text \<open>A value is a scalar, of which a program reads either the integer or the pointer, with the elements of a vector or
  an aggregate.\<close>

datatype GenVal = GenVal (gv_scalar: GV) (AggregateVal: "GenVal list")

text \<open>An integer: its width and its bits.\<close>

type_synonym APInt = "nat \<times> 64 word"

definition gv_default :: GV where
  "gv_default = \<lparr>gvWidth = 1, gvInt = 0, gvPtr = 0\<rparr>"

definition GenVal_default :: GenVal where
  "GenVal_default = GenVal gv_default []"

definition IntVal :: "GenVal \<Rightarrow> APInt" where
  "IntVal v = (gvWidth (gv_scalar v), gvInt (gv_scalar v))"

definition PointerVal :: "GenVal \<Rightarrow> SAddr" where
  "PointerVal v = gvPtr (gv_scalar v)"

definition of_APInt :: "APInt \<Rightarrow> GenVal" where
  "of_APInt x = GenVal \<lparr>gvWidth = fst x, gvInt = snd x, gvPtr = 0\<rparr> []"

definition of_bool1 :: "bool \<Rightarrow> GenVal" where
  "of_bool1 b = of_APInt (1, if b then 1 else 0)"

definition of_pointer :: "SAddr \<Rightarrow> GenVal" where
  "of_pointer a = GenVal (gv_default\<lparr>gvPtr := a\<rparr>) []"

definition of_elements :: "GenVal list \<Rightarrow> GenVal" where
  "of_elements vs = GenVal gv_default vs"

datatype Ty = Ty_Scalar LType | Ty_Vector LType | Ty_Aggregate

datatype ICmpPred = ICMP_EQ | ICMP_NE | ICMP_ULT | ICMP_SLT | ICMP_UGT | ICMP_SGT | ICMP_ULE | ICMP_SLE | ICMP_UGE | ICMP_SGE

datatype BinInst = BI_Add | BI_Sub | BI_Mul | BI_UDiv | BI_SDiv | BI_URem | BI_SRem | BI_And | BI_Or | BI_Xor

datatype ShiftInst = SH_Shl | SH_LShr | SH_AShr

datatype ExtInst = EX_Trunc | EX_SExt | EX_ZExt

text \<open>What the code uses of LLVM. An operation that is not defined on its operands, as a division by zero, may
  be \<open>Undef\<close>.\<close>

record Lib =
  apBin :: "BinInst \<Rightarrow> APInt \<Rightarrow> APInt \<Rightarrow> APInt res"
  apCmp :: "ICmpPred \<Rightarrow> APInt \<Rightarrow> APInt \<Rightarrow> bool"
  apShift :: "ShiftInst \<Rightarrow> APInt \<Rightarrow> 32 word \<Rightarrow> APInt res"
  apExt :: "ExtInst \<Rightarrow> APInt \<Rightarrow> nat \<Rightarrow> APInt res"
  zextOrTrunc :: "APInt \<Rightarrow> nat \<Rightarrow> APInt"
  NextPowerOf2 :: "64 word \<Rightarrow> 64 word"
  elementOffset :: "nat \<Rightarrow> 32 word \<Rightarrow> 64 word"
  typeAllocSize :: "nat \<Rightarrow> 64 word"
  pointerSizeInBits :: nat

section \<open>Element by element\<close>

fun res_list :: "'a res list \<Rightarrow> 'a list res" where
  "res_list [] = Ok []"
| "res_list (x # xs) = rbind x (\<lambda>y. rbind (res_list xs) (\<lambda>ys. Ok (y # ys)))"

definition elementwise :: "(GenVal \<Rightarrow> GenVal \<Rightarrow> GenVal res) \<Rightarrow> GenVal \<Rightarrow> GenVal \<Rightarrow> GenVal res" where
  "elementwise f a b = rbind (BUG_ON (length (AggregateVal a) \<noteq> length (AggregateVal b))) (\<lambda>_.
     rbind (res_list (map2 f (AggregateVal a) (AggregateVal b))) (\<lambda>vs. Ok (of_elements vs)))"

lemma res_list_Ok_iff: "res_list xs = Ok ys \<longleftrightarrow> xs = map Ok ys"
proof (induction xs arbitrary: ys)
  case (Cons x xs)
  then show ?case by (cases x; cases ys) (auto simp: res_simps)
qed auto

section \<open>Comparisons\<close>

text \<open>Pointers are compared with C++'s operators on pointers, whatever the sign the predicate asks for.\<close>

primrec ptr_cmp :: "ICmpPred \<Rightarrow> SAddr \<Rightarrow> SAddr \<Rightarrow> bool" where
  "ptr_cmp ICMP_EQ a b \<longleftrightarrow> a = b" | "ptr_cmp ICMP_NE a b \<longleftrightarrow> a \<noteq> b"
| "ptr_cmp ICMP_ULT a b \<longleftrightarrow> a < b" | "ptr_cmp ICMP_SLT a b \<longleftrightarrow> a < b"
| "ptr_cmp ICMP_UGT a b \<longleftrightarrow> a > b" | "ptr_cmp ICMP_SGT a b \<longleftrightarrow> a > b"
| "ptr_cmp ICMP_ULE a b \<longleftrightarrow> a \<le> b" | "ptr_cmp ICMP_SLE a b \<longleftrightarrow> a \<le> b"
| "ptr_cmp ICMP_UGE a b \<longleftrightarrow> a \<ge> b" | "ptr_cmp ICMP_SGE a b \<longleftrightarrow> a \<ge> b"

definition icmp_int :: "Lib \<Rightarrow> ICmpPred \<Rightarrow> GenVal \<Rightarrow> GenVal \<Rightarrow> GenVal" where
  "icmp_int L p a b = of_bool1 (apCmp L p (IntVal a) (IntVal b))"

definition executeICMP :: "Lib \<Rightarrow> ICmpPred \<Rightarrow> Ty \<Rightarrow> GenVal \<Rightarrow> GenVal \<Rightarrow> GenVal res" where
  "executeICMP L p ty a b = (case ty of
       Ty_Scalar (IntTy w) \<Rightarrow> Ok (icmp_int L p a b)
     | Ty_Scalar PtrTy \<Rightarrow> Ok (of_bool1 (ptr_cmp p (PointerVal a) (PointerVal b)))
     | Ty_Vector t \<Rightarrow> elementwise (\<lambda>x y. Ok (icmp_int L p x y)) a b
     | Ty_Aggregate \<Rightarrow> Bug)"

section \<open>Arithmetic\<close>

definition binary_int :: "Lib \<Rightarrow> BinInst \<Rightarrow> GenVal \<Rightarrow> GenVal \<Rightarrow> GenVal res" where
  "binary_int L op a b = rbind (apBin L op (IntVal a) (IntVal b)) (\<lambda>x. Ok (of_APInt x))"

definition executeBinary :: "Lib \<Rightarrow> BinInst \<Rightarrow> Ty \<Rightarrow> GenVal \<Rightarrow> GenVal \<Rightarrow> GenVal res" where
  "executeBinary L op ty a b = (case ty of Ty_Vector t \<Rightarrow> elementwise (binary_int L op) a b | _ \<Rightarrow> binary_int L op a b)"

definition executeSelectInst :: "Ty \<Rightarrow> GenVal \<Rightarrow> GenVal \<Rightarrow> GenVal \<Rightarrow> GenVal res" where
  "executeSelectInst ty c a b = (case ty of
       Ty_Vector t \<Rightarrow> rbind (BUG_ON (length (AggregateVal c) \<noteq> length (AggregateVal a))) (\<lambda>_.
         rbind (BUG_ON (length (AggregateVal a) \<noteq> length (AggregateVal b))) (\<lambda>_.
           Ok (of_elements (map2 (\<lambda>x (y, z). if snd (IntVal x) = 0 then z else y) (AggregateVal c)
             (zip (AggregateVal a) (AggregateVal b))))))
     | _ \<Rightarrow> Ok (if snd (IntVal c) = 0 then b else a))"

text \<open>A shift by the width of the value or more is cut down by a mask of ones.\<close>

definition getShiftAmount :: "Lib \<Rightarrow> 64 word \<Rightarrow> nat \<Rightarrow> 32 word" where
  "getShiftAmount L amount w =
     (if amount < of_nat w then ucast amount else ucast ((NextPowerOf2 L (of_nat (w - 1)) - 1) AND amount))"

definition shift_int :: "Lib \<Rightarrow> ShiftInst \<Rightarrow> GenVal \<Rightarrow> GenVal \<Rightarrow> GenVal res" where
  "shift_int L op a b =
     rbind (apShift L op (IntVal a) (getShiftAmount L (snd (IntVal b)) (fst (IntVal a)))) (\<lambda>x. Ok (of_APInt x))"

definition executeShift :: "Lib \<Rightarrow> ShiftInst \<Rightarrow> Ty \<Rightarrow> GenVal \<Rightarrow> GenVal \<Rightarrow> GenVal res" where
  "executeShift L op ty a b = (case ty of Ty_Vector t \<Rightarrow> elementwise (shift_int L op) a b | _ \<Rightarrow> shift_int L op a b)"

section \<open>Casts\<close>

definition ext_int :: "Lib \<Rightarrow> ExtInst \<Rightarrow> nat \<Rightarrow> GenVal \<Rightarrow> GenVal res" where
  "ext_int L op w a = rbind (apExt L op (IntVal a) w) (\<lambda>x. Ok (of_APInt x))"

definition executeExt :: "Lib \<Rightarrow> ExtInst \<Rightarrow> Ty \<Rightarrow> nat \<Rightarrow> GenVal \<Rightarrow> GenVal res" where
  "executeExt L op srcTy w a = (case srcTy of
       Ty_Vector t \<Rightarrow> rbind (res_list (map (ext_int L op w) (AggregateVal a))) (\<lambda>vs. Ok (of_elements vs))
     | _ \<Rightarrow> ext_int L op w a)"

definition executePtrToIntInst :: "nat \<Rightarrow> GenVal \<Rightarrow> GenVal" where
  "executePtrToIntInst w a = of_APInt (w, take_bit w (PointerVal a))"

definition executeIntToPtrInst :: "Lib \<Rightarrow> GenVal \<Rightarrow> GenVal" where
  "executeIntToPtrInst L a = of_pointer (snd (if pointerSizeInBits L \<noteq> fst (IntVal a)
     then zextOrTrunc L (IntVal a) (pointerSizeInBits L) else IntVal a))"

definition executeBitCastInst :: "Ty \<Rightarrow> Ty \<Rightarrow> GenVal \<Rightarrow> GenVal res" where
  "executeBitCastInst srcTy dstTy a = (case (srcTy, dstTy) of
       (Ty_Vector t, _) \<Rightarrow> Undef
     | (_, Ty_Vector t) \<Rightarrow> Undef
     | (Ty_Scalar PtrTy, Ty_Scalar PtrTy) \<Rightarrow> Ok (of_pointer (PointerVal a))
     | (Ty_Scalar (IntTy w), Ty_Scalar (IntTy w')) \<Rightarrow> Ok (of_APInt (IntVal a))
     | _ \<Rightarrow> Bug)"

section \<open>Addresses of elements\<close>

text \<open>One step of an address computation: into a field of a structure, or to an element of an array whose index is
  an integer of the given width.\<close>

datatype GepStep = GStruct nat | GArray nat nat

definition gep_step :: "Lib \<Rightarrow> GepStep \<Rightarrow> GenVal \<Rightarrow> 64 word res" where
  "gep_step L st v = (case st of
       GStruct t \<Rightarrow> Ok (elementOffset L t (ucast (snd (IntVal v))))
     | GArray t w \<Rightarrow> if w = 32 then Ok (typeAllocSize L t * scast (ucast (snd (IntVal v)) :: 32 word))
         else rbind (BUG_ON (w \<noteq> 64)) (\<lambda>_. Ok (typeAllocSize L t * snd (IntVal v))))"

definition executeGEPOperation :: "Lib \<Rightarrow> GepStep list \<Rightarrow> GenVal \<Rightarrow> GenVal list \<Rightarrow> GenVal res" where
  "executeGEPOperation L sts p idx =
     rbind (res_list (map2 (gep_step L) sts idx)) (\<lambda>offs. Ok (of_pointer (PointerVal p + sum_list offs)))"

section \<open>Parts of aggregates\<close>

fun extract_path :: "GenVal \<Rightarrow> nat list \<Rightarrow> GenVal res" where
  "extract_path v [] = Ok v"
| "extract_path v (i # is) = rbind (vec_get (AggregateVal v) i) (\<lambda>w. extract_path w is)"

text \<open>Only the part of the value that its type has is copied.\<close>

definition copy_part :: "Ty \<Rightarrow> GenVal \<Rightarrow> GenVal \<Rightarrow> GenVal" where
  "copy_part ty new old = (case ty of
       Ty_Scalar (IntTy w) \<Rightarrow> GenVal ((gv_scalar old)\<lparr>gvWidth := gvWidth (gv_scalar new), gvInt := gvInt (gv_scalar new)\<rparr>) (AggregateVal old)
     | Ty_Scalar PtrTy \<Rightarrow> GenVal ((gv_scalar old)\<lparr>gvPtr := PointerVal new\<rparr>) (AggregateVal old)
     | _ \<Rightarrow> GenVal (gv_scalar old) (AggregateVal new))"

definition extractValue :: "Ty \<Rightarrow> nat list \<Rightarrow> GenVal \<Rightarrow> GenVal res" where
  "extractValue ty is v = rbind (extract_path v is) (\<lambda>w. Ok (copy_part ty w GenVal_default))"

fun insert_path :: "Ty \<Rightarrow> GenVal \<Rightarrow> GenVal \<Rightarrow> nat list \<Rightarrow> GenVal res" where
  "insert_path ty new v [] = Ok (copy_part ty new v)"
| "insert_path ty new v (i # is) = rbind (vec_get (AggregateVal v) i) (\<lambda>w.
     rbind (insert_path ty new w is) (\<lambda>w'. Ok (GenVal (gv_scalar v) ((AggregateVal v)[i := w']))))"

section \<open>Vectors\<close>

text \<open>Only vectors of integers; the type is that of an element. Reading at an index out of range gives a fresh value,
  with a message; inserting there stops.\<close>

definition vector_index :: "GenVal \<Rightarrow> nat" where
  "vector_index i = unat (ucast (snd (IntVal i)) :: 32 word)"

definition extractElement :: "LType \<Rightarrow> GenVal \<Rightarrow> GenVal \<Rightarrow> GenVal res" where
  "extractElement t v i =
     (if vector_index i < length (AggregateVal v)
      then rbind (BUG_ON (\<not> isIntegerTy t)) (\<lambda>_. Ok (of_APInt (IntVal (AggregateVal v ! vector_index i))))
      else Ok GenVal_default)"

definition insertElement :: "LType \<Rightarrow> GenVal \<Rightarrow> GenVal \<Rightarrow> GenVal \<Rightarrow> GenVal res" where
  "insertElement t v new i =
     rbind (BUG_ON (length (AggregateVal v) \<le> vector_index i)) (\<lambda>_. rbind (BUG_ON (\<not> isIntegerTy t)) (\<lambda>_.
       Ok (of_elements ((AggregateVal v)[vector_index i := copy_part (Ty_Scalar t) new (AggregateVal v ! vector_index i)]))))"

definition shuffle_elem :: "GenVal \<Rightarrow> GenVal \<Rightarrow> GenVal \<Rightarrow> GenVal res" where
  "shuffle_elem a b m = (let j = vector_index m; n = length (AggregateVal a) in
     if j < n then Ok (of_APInt (IntVal (AggregateVal a ! j)))
     else if j < n + length (AggregateVal b) then Ok (of_APInt (IntVal (AggregateVal b ! (j - n)))) else Bug)"

definition shuffleVector :: "LType \<Rightarrow> GenVal \<Rightarrow> GenVal \<Rightarrow> GenVal \<Rightarrow> GenVal res" where
  "shuffleVector t a b sel = rbind (BUG_ON (\<not> isIntegerTy t)) (\<lambda>_.
     rbind (res_list (map (shuffle_elem a b) (AggregateVal sel))) (\<lambda>vs. Ok (of_elements vs)))"

section \<open>Operands\<close>

text \<open>An operand is the result of an instruction or an argument, or a constant: a value that LLVM gives (a
  constant, the address of a global variable or of a function) or an expression of constants.\<close>

datatype Val = VReg nat | VConst GenVal
  | CExt ExtInst Ty nat Val | CPtrToInt nat Val | CIntToPtr Val | CBitCast Ty Ty Val | CGep "GepStep list" Val "Val list"
  | CICmp ICmpPred Ty Val Val | CSelect Ty Val Val Val | CBin BinInst Val Val | CShift ShiftInst Val Val

fun getOperandValue :: "Lib \<Rightarrow> (nat \<Rightarrow> GenVal) \<Rightarrow> Val \<Rightarrow> GenVal res" where
  "getOperandValue L vals (VReg r) = Ok (vals r)"
| "getOperandValue L vals (VConst v) = Ok v"
| "getOperandValue L vals (CExt op ty w a) = rbind (getOperandValue L vals a) (executeExt L op ty w)"
| "getOperandValue L vals (CPtrToInt w a) = rbind (getOperandValue L vals a) (\<lambda>v. Ok (executePtrToIntInst w v))"
| "getOperandValue L vals (CIntToPtr a) = rbind (getOperandValue L vals a) (\<lambda>v. Ok (executeIntToPtrInst L v))"
| "getOperandValue L vals (CBitCast src dst a) = rbind (getOperandValue L vals a) (executeBitCastInst src dst)"
| "getOperandValue L vals (CGep sts p idx) = rbind (res_list (map (getOperandValue L vals) idx)) (\<lambda>is.
     rbind (getOperandValue L vals p) (\<lambda>v. executeGEPOperation L sts v is))"
| "getOperandValue L vals (CICmp p ty a b) = rbind (getOperandValue L vals a) (\<lambda>x.
     rbind (getOperandValue L vals b) (executeICMP L p ty x))"
| "getOperandValue L vals (CSelect ty c a b) = rbind (getOperandValue L vals c) (\<lambda>x. rbind (getOperandValue L vals a) (\<lambda>y.
     rbind (getOperandValue L vals b) (executeSelectInst ty x y)))"
| "getOperandValue L vals (CBin op a b) = rbind (getOperandValue L vals a) (\<lambda>x.
     rbind (getOperandValue L vals b) (binary_int L op x))"
| "getOperandValue L vals (CShift op a b) = rbind (getOperandValue L vals a) (\<lambda>x. rbind (getOperandValue L vals b) (\<lambda>y.
     rbind (apShift L op (IntVal x) (ucast (snd (IntVal y)))) (\<lambda>z. Ok (of_APInt z))))"

text \<open>The registers an operand reads.\<close>

fun regs_of :: "Val \<Rightarrow> nat set" where
  "regs_of (VReg r) = {r}"
| "regs_of (VConst v) = {}"
| "regs_of (CExt op ty w a) = regs_of a"
| "regs_of (CPtrToInt w a) = regs_of a"
| "regs_of (CIntToPtr a) = regs_of a"
| "regs_of (CBitCast src dst a) = regs_of a"
| "regs_of (CGep sts p idx) = regs_of p \<union> (\<Union>(set (map regs_of idx)))"
| "regs_of (CICmp p ty a b) = regs_of a \<union> regs_of b"
| "regs_of (CSelect ty c a b) = regs_of c \<union> regs_of a \<union> regs_of b"
| "regs_of (CBin op a b) = regs_of a \<union> regs_of b"
| "regs_of (CShift op a b) = regs_of a \<union> regs_of b"

lemma getOperandValue_cong:
  "(\<And>r. r \<in> regs_of v \<Longrightarrow> vals r = vals' r) \<Longrightarrow> getOperandValue L vals v = getOperandValue L vals' v"
proof (induction v)
  case (CGep sts p idx)
  then have idx: "map (getOperandValue L vals) idx = map (getOperandValue L vals') idx" by auto
  have "getOperandValue L vals p = getOperandValue L vals' p" using CGep by simp
  then show ?case by (simp only: getOperandValue.simps idx)
qed auto

end
