(* ===== verification/GenMC_Interp.thy ===== *)
theory GenMC_Interp
  imports GenMC_Instr
begin

text \<open>
  The interpreter's loop (\<open>src/src/Execution.cpp\<close>, \<open>src/src/Interpreter.cpp\<close>, \<open>src/src/Interpreter.h\<close>) and its tracker of
  dependencies (\<open>src/src/DepTracker.hpp\<close>): stack frames, basic blocks, branches, calls and returns, and for every
  instruction the reads its result depends on. The memory accesses are those of \<open>GenMC_EE\<close>, the calls to the library
  those of \<open>GenMC_LibCalls\<close>. Functions with a variable number of arguments, inline assembly, intrinsics of LLVM and
  exceptions are not modelled, and external functions are an argument.
\<close>

section \<open>The tracker\<close>

text \<open>Every entry of the maps is empty until it is written. The key is a value of the program.\<close>

record DepTracker =
  dataDeps :: "int \<Rightarrow> Val \<Rightarrow> DepInfo"
  addrPoDeps :: "int \<Rightarrow> DepInfo"
  ctrlDeps :: "int \<Rightarrow> DepInfo"

definition dt_empty :: DepTracker where
  "dt_empty = \<lparr>dataDeps = (\<lambda>_ _. []), addrPoDeps = (\<lambda>_. []), ctrlDeps = (\<lambda>_. [])\<rparr>"

definition dt_addData :: "int \<Rightarrow> Val \<Rightarrow> DepInfo \<Rightarrow> DepTracker \<Rightarrow> DepTracker res" where
  "dt_addData tid dst d T = rbind (depinfo_update (dataDeps T tid dst) d) (\<lambda>u.
     Ok (T\<lparr>dataDeps := (dataDeps T)(tid := (dataDeps T tid)(dst := u))\<rparr>))"

definition dt_updateDataDeps :: "int \<Rightarrow> Val \<Rightarrow> Val \<Rightarrow> DepTracker \<Rightarrow> DepTracker res" where
  "dt_updateDataDeps tid dst src T = dt_addData tid dst (dataDeps T tid src) T"

definition dt_updateAddrPoDeps :: "int \<Rightarrow> Val \<Rightarrow> DepTracker \<Rightarrow> DepTracker res" where
  "dt_updateAddrPoDeps tid src T = rbind (depinfo_update (addrPoDeps T tid) (dataDeps T tid src)) (\<lambda>u.
     Ok (T\<lparr>addrPoDeps := (addrPoDeps T)(tid := u)\<rparr>))"

definition dt_updateCtrlDeps :: "int \<Rightarrow> Val \<Rightarrow> DepTracker \<Rightarrow> DepTracker res" where
  "dt_updateCtrlDeps tid src T = rbind (depinfo_update (ctrlDeps T tid) (dataDeps T tid src)) (\<lambda>u.
     Ok (T\<lparr>ctrlDeps := (ctrlDeps T)(tid := u)\<rparr>))"

definition dt_clearDeps :: "int \<Rightarrow> DepTracker \<Rightarrow> DepTracker" where
  "dt_clearDeps tid T = T\<lparr>dataDeps := (dataDeps T)(tid := (\<lambda>_. [])), addrPoDeps := (addrPoDeps T)(tid := []),
     ctrlDeps := (ctrlDeps T)(tid := [])\<rparr>"

text \<open>A model that does not track dependencies has no tracker, and then an event has no dependencies.\<close>

definition makeEventDeps :: "DepTracker option \<Rightarrow> DepInfo option \<Rightarrow> DepInfo option \<Rightarrow> DepInfo option \<Rightarrow> DepInfo option \<Rightarrow>
    DepInfo option \<Rightarrow> EventDeps option" where
  "makeEventDeps T addr data ctrl addrPo cas = (case T of None \<Rightarrow> None | Some _ \<Rightarrow>
     (let get = (\<lambda>d. case d of None \<Rightarrow> [] | Some x \<Rightarrow> x) in
      Some \<lparr>dep_addr = get addr, dep_data = get data, dep_ctrl = get ctrl, dep_addrPo = get addrPo, dep_cas = get cas\<rparr>))"

section \<open>Programs\<close>

record CallInst =
  caFun :: Val
  caArgs :: "Val list"
  caReg :: nat
  caVoid :: bool

datatype Instr =
    I_ICmp ICmpPred Ty Val Val | I_Binary BinInst Ty Val Val | I_Shift ShiftInst Ty Val Val | I_Select Ty Val Val Val
  | I_Ext ExtInst Ty nat Val | I_PtrToInt nat Val | I_IntToPtr Val | I_BitCast Ty Ty Val | I_Gep "GepStep list" Val "Val list"
  | I_ExtractValue Ty "nat list" Val | I_InsertValue Ty "nat list" Val Val
  | I_ExtractElement LType Val Val | I_InsertElement LType Val Val Val | I_ShuffleVector LType Val Val Val
  | I_Br nat | I_CondBr Val nat nat | I_Switch Ty Val "(Val \<times> nat) list" nat | I_IndirectBr Val
  | I_Phi "(nat \<times> Val) list" | I_Ret "Val option" | I_Unreachable
  | I_Load "64 word option" AtomicOrdering LType Val | I_Store "64 word option" AtomicOrdering LType Val Val | I_Fence AtomicOrdering
  | I_CmpXchg "64 word option" AtomicOrdering LType Val Val Val | I_RMW "64 word option" AtomicOrdering BinOp LType Val Val
  | I_Alloca nat int Val | I_Call CallInst

text \<open>An instruction, with the register of its result and the annotation that marks the start or the end of an
  operation of a data structure.\<close>

record Item =
  itReg :: nat
  itInstr :: Instr
  itFun :: "string option"

record Fun =
  fnName :: string
  fnEntry :: nat
  fnArgs :: "nat list"
  fnVarArg :: bool
  fnDecl :: bool
  fnRetTy :: LType
  fnParamTy :: LType

record Module =
  moBlock :: "nat \<Rightarrow> Item list"
  moFun :: "nat \<Rightarrow> Fun"

text \<open>A stack frame. A value that was never set is a default value.\<close>

record Frame =
  CurFunction :: nat
  CurBB :: nat
  CurInst :: nat
  Caller :: "CallInst option"
  Values :: "nat \<Rightarrow> GenVal"
  VarArgs :: "GenVal list"
  Allocas :: "SAddr list"

definition frame_new :: Frame where
  "frame_new = \<lparr>CurFunction = 0, CurBB = 0, CurInst = 0, Caller = None, Values = (\<lambda>_. GenVal_default), VarArgs = [], Allocas = []\<rparr>"

definition SetValue :: "nat \<Rightarrow> GenVal \<Rightarrow> Frame \<Rightarrow> Frame" where
  "SetValue r v F = F\<lparr>Values := (Values F)(r := v)\<rparr>"

text \<open>A call that was served by the interpreter itself: its value becomes the value of the call instruction.\<close>

definition frame_return :: "GenVal \<Rightarrow> Frame \<Rightarrow> Frame" where
  "frame_return v F = (case Caller F of None \<Rightarrow> F
     | Some c \<Rightarrow> (if caVoid c then F else SetValue (caReg c) v F)\<lparr>Caller := None\<rparr>)"

text \<open>The frame a new thread starts with.\<close>

definition entry_frame :: "Module \<Rightarrow> nat \<Rightarrow> SVal \<Rightarrow> Frame" where
  "entry_frame M f arg = (case fnArgs (moFun M f) of [] \<Rightarrow> id | a # _ \<Rightarrow> SetValue a (of_pointer arg))
     (frame_new\<lparr>CurFunction := f, CurBB := fnEntry (moFun M f)\<rparr>)"

section \<open>The interpreter\<close>

text \<open>The driver takes the dependencies of an event as an argument beside its label. \<open>inDrv d\<close> is the driver as an
  instruction reaches it whose events have the dependencies \<open>d\<close>; when a library call makes events without dependencies,
  as stores to \<open>errno\<close>, the driver may ignore them.\<close>

record 's Interp =
  inMod :: Module
  inLib :: Lib
  inDrv :: "EventDeps option \<Rightarrow> (Frame, 's) EE"
  inRng :: "'s \<Rightarrow> 64 word \<times> 's"
  inExternal :: "string \<Rightarrow> GenVal list \<Rightarrow> GenVal"
  inStatics :: "(SAddr \<times> SAddr) list"
  inStaticVal :: "SAddr \<Rightarrow> 64 word option"
  inSchedule :: "'s \<Rightarrow> (bool \<times> 's) res"
  inProgress :: "'s \<Rightarrow> 's res"
  inCheckName :: "string \<Rightarrow> FunctionName"
  inFunStart :: "EventDeps option \<Rightarrow> EventLabel \<Rightarrow> FunctionName \<Rightarrow> 's \<Rightarrow> 's res"
  inFunEnd :: "EventDeps option \<Rightarrow> EventLabel \<Rightarrow> 's \<Rightarrow> 's res"

record 's IState =
  isDrv :: 's
  isDeps :: "DepTracker option"

definition interp_EE :: "'s Interp \<Rightarrow> EventDeps option \<Rightarrow> (Frame, 's) EE" where
  "interp_EE X d = (inDrv X d)\<lparr>eeReturn := (\<lambda>v. frame_return (GenVal v [])), eeStepBack := (\<lambda>F. F\<lparr>CurInst := CurInst F - 1\<rparr>),
     eeAllocas := Allocas, eeEntry := entry_frame (inMod X)\<rparr>"

definition cur_thread :: "'s Interp \<Rightarrow> 's IState \<Rightarrow> Frame Thread res" where
  "cur_thread X st = dvThread (interp_EE X None) (isDrv st)"

definition cur_frame :: "'s Interp \<Rightarrow> 's IState \<Rightarrow> Frame res" where
  "cur_frame X st = rbind (cur_thread X st) (\<lambda>t. if ecStack t = [] then Undef else Ok (last (ecStack t)))"

definition on_drv_state :: "('s \<Rightarrow> 's res) \<Rightarrow> 's IState \<Rightarrow> 's IState res" where
  "on_drv_state f st = rbind (f (isDrv st)) (\<lambda>s. Ok (st\<lparr>isDrv := s\<rparr>))"

definition upd_stack :: "'s Interp \<Rightarrow> (Frame list \<Rightarrow> Frame list) \<Rightarrow> 's IState \<Rightarrow> 's IState res" where
  "upd_stack X f = on_drv_state (dvSetThread (interp_EE X None) (\<lambda>t. t\<lparr>ecStack := f (ecStack t)\<rparr>))"

definition upd_frame :: "'s Interp \<Rightarrow> (Frame \<Rightarrow> Frame) \<Rightarrow> 's IState \<Rightarrow> 's IState res" where
  "upd_frame X f = upd_stack X (\<lambda>fs. butlast fs @ [f (last fs)])"

definition eval_operand :: "'s Interp \<Rightarrow> 's IState \<Rightarrow> Val \<Rightarrow> GenVal res" where
  "eval_operand X st v = rbind (cur_frame X st) (\<lambda>F. getOperandValue (inLib X) (Values F) v)"

definition eval_list :: "'s Interp \<Rightarrow> 's IState \<Rightarrow> Val list \<Rightarrow> GenVal list res" where
  "eval_list X st vs = rbind (cur_frame X st) (\<lambda>F. res_list (map (getOperandValue (inLib X) (Values F)) vs))"

section \<open>Dependencies of instructions\<close>

definition on_tracker :: "'s Interp \<Rightarrow> (int \<Rightarrow> DepTracker \<Rightarrow> DepTracker res) \<Rightarrow> 's IState \<Rightarrow> 's IState res" where
  "on_tracker X f st = (case isDeps st of None \<Rightarrow> Ok st
     | Some T \<Rightarrow> rbind (cur_thread X st) (\<lambda>t. rbind (f (thrId t) T) (\<lambda>T'. Ok (st\<lparr>isDeps := Some T'\<rparr>))))"

definition updateDataDeps :: "'s Interp \<Rightarrow> Val \<Rightarrow> Val \<Rightarrow> 's IState \<Rightarrow> 's IState res" where
  "updateDataDeps X dst src = on_tracker X (\<lambda>tid. dt_updateDataDeps tid dst src)"

definition updateDataDepsEvent :: "'s Interp \<Rightarrow> Val \<Rightarrow> Event \<Rightarrow> 's IState \<Rightarrow> 's IState res" where
  "updateDataDepsEvent X dst e = on_tracker X (\<lambda>tid. dt_addData tid dst (depinfo_of e))"

definition updateAddrPoDeps :: "'s Interp \<Rightarrow> Val \<Rightarrow> 's IState \<Rightarrow> 's IState res" where
  "updateAddrPoDeps X src = on_tracker X (\<lambda>tid. dt_updateAddrPoDeps tid src)"

definition updateCtrlDeps :: "'s Interp \<Rightarrow> Val \<Rightarrow> 's IState \<Rightarrow> 's IState res" where
  "updateCtrlDeps X src = on_tracker X (\<lambda>tid. dt_updateCtrlDeps tid src)"

text \<open>The dependencies of an event: those of the operands for the address, the data and the expected value, and the
  control dependencies, with or without the address dependencies of earlier accesses.\<close>

definition event_deps :: "'s Interp \<Rightarrow> Val option \<Rightarrow> Val option \<Rightarrow> bool \<Rightarrow> Val option \<Rightarrow> 's IState \<Rightarrow> EventDeps option res" where
  "event_deps X addr data po cas st = rbind (cur_thread X st) (\<lambda>t. Ok (case isDeps st of None \<Rightarrow> None
     | Some T \<Rightarrow> makeEventDeps (isDeps st) (map_option (dataDeps T (thrId t)) addr) (map_option (dataDeps T (thrId t)) data)
         (Some (ctrlDeps T (thrId t))) (if po then Some (addrPoDeps T (thrId t)) else None)
         (map_option (dataDeps T (thrId t)) cas)))"

section \<open>Instructions that compute\<close>

text \<open>The result is computed from operands, and depends on what the named operands depend on.\<close>

definition visit_value :: "'s Interp \<Rightarrow> nat \<Rightarrow> Val list \<Rightarrow> Val list \<Rightarrow> (GenVal list \<Rightarrow> GenVal res) \<Rightarrow> 's IState \<Rightarrow> 's IState res" where
  "visit_value X r ops deps f st = rbind (eval_list X st ops) (\<lambda>vs. rbind (f vs) (\<lambda>v.
     rbind (rfold (updateDataDeps X (VReg r)) deps st) (upd_frame X (SetValue r v))))"

definition visitICmpInst :: "'s Interp \<Rightarrow> nat \<Rightarrow> ICmpPred \<Rightarrow> Ty \<Rightarrow> Val \<Rightarrow> Val \<Rightarrow> 's IState \<Rightarrow> 's IState res" where
  "visitICmpInst X r p ty a b = visit_value X r [a, b] [a, b] (\<lambda>vs. executeICMP (inLib X) p ty (vs ! 0) (vs ! 1))"

definition visitBinaryOperator :: "'s Interp \<Rightarrow> nat \<Rightarrow> BinInst \<Rightarrow> Ty \<Rightarrow> Val \<Rightarrow> Val \<Rightarrow> 's IState \<Rightarrow> 's IState res" where
  "visitBinaryOperator X r op ty a b = visit_value X r [a, b] [a, b] (\<lambda>vs. executeBinary (inLib X) op ty (vs ! 0) (vs ! 1))"

definition visitShift :: "'s Interp \<Rightarrow> nat \<Rightarrow> ShiftInst \<Rightarrow> Ty \<Rightarrow> Val \<Rightarrow> Val \<Rightarrow> 's IState \<Rightarrow> 's IState res" where
  "visitShift X r op ty a b = visit_value X r [a, b] [a, b] (\<lambda>vs. executeShift (inLib X) op ty (vs ! 0) (vs ! 1))"

definition visitSelectInst :: "'s Interp \<Rightarrow> nat \<Rightarrow> Ty \<Rightarrow> Val \<Rightarrow> Val \<Rightarrow> Val \<Rightarrow> 's IState \<Rightarrow> 's IState res" where
  "visitSelectInst X r ty c a b = visit_value X r [c, a, b] [c, a, b] (\<lambda>vs. executeSelectInst ty (vs ! 0) (vs ! 1) (vs ! 2))"

definition visitExtInst :: "'s Interp \<Rightarrow> nat \<Rightarrow> ExtInst \<Rightarrow> Ty \<Rightarrow> nat \<Rightarrow> Val \<Rightarrow> 's IState \<Rightarrow> 's IState res" where
  "visitExtInst X r op ty w a = visit_value X r [a] [a] (\<lambda>vs. executeExt (inLib X) op ty w (vs ! 0))"

definition visitPtrToIntInst :: "'s Interp \<Rightarrow> nat \<Rightarrow> nat \<Rightarrow> Val \<Rightarrow> 's IState \<Rightarrow> 's IState res" where
  "visitPtrToIntInst X r w a = visit_value X r [a] [a] (\<lambda>vs. Ok (executePtrToIntInst w (vs ! 0)))"

definition visitIntToPtrInst :: "'s Interp \<Rightarrow> nat \<Rightarrow> Val \<Rightarrow> 's IState \<Rightarrow> 's IState res" where
  "visitIntToPtrInst X r a = visit_value X r [a] [a] (\<lambda>vs. Ok (executeIntToPtrInst (inLib X) (vs ! 0)))"

definition visitBitCastInst :: "'s Interp \<Rightarrow> nat \<Rightarrow> Ty \<Rightarrow> Ty \<Rightarrow> Val \<Rightarrow> 's IState \<Rightarrow> 's IState res" where
  "visitBitCastInst X r src dst a = visit_value X r [a] [a] (\<lambda>vs. executeBitCastInst src dst (vs ! 0))"

definition visitGetElementPtrInst :: "'s Interp \<Rightarrow> nat \<Rightarrow> GepStep list \<Rightarrow> Val \<Rightarrow> Val list \<Rightarrow> 's IState \<Rightarrow> 's IState res" where
  "visitGetElementPtrInst X r sts p idx = visit_value X r (p # idx) (p # idx) (\<lambda>vs. executeGEPOperation (inLib X) sts (hd vs) (tl vs))"

definition visitExtractValueInst :: "'s Interp \<Rightarrow> nat \<Rightarrow> Ty \<Rightarrow> nat list \<Rightarrow> Val \<Rightarrow> 's IState \<Rightarrow> 's IState res" where
  "visitExtractValueInst X r ty is a = visit_value X r [a] [a] (\<lambda>vs. extractValue ty is (vs ! 0))"

text \<open>The dependencies of an inserted value, and those of the elements of vectors, are not recorded.\<close>

definition visitInsertValueInst :: "'s Interp \<Rightarrow> nat \<Rightarrow> Ty \<Rightarrow> nat list \<Rightarrow> Val \<Rightarrow> Val \<Rightarrow> 's IState \<Rightarrow> 's IState res" where
  "visitInsertValueInst X r ty is a v = visit_value X r [a, v] [a] (\<lambda>vs. insert_path ty (vs ! 1) (vs ! 0) is)"

definition visitExtractElementInst :: "'s Interp \<Rightarrow> nat \<Rightarrow> LType \<Rightarrow> Val \<Rightarrow> Val \<Rightarrow> 's IState \<Rightarrow> 's IState res" where
  "visitExtractElementInst X r t a i = visit_value X r [a, i] [] (\<lambda>vs. extractElement t (vs ! 0) (vs ! 1))"

definition visitInsertElementInst :: "'s Interp \<Rightarrow> nat \<Rightarrow> LType \<Rightarrow> Val \<Rightarrow> Val \<Rightarrow> Val \<Rightarrow> 's IState \<Rightarrow> 's IState res" where
  "visitInsertElementInst X r t a v i = visit_value X r [a, v, i] [] (\<lambda>vs. insertElement t (vs ! 0) (vs ! 1) (vs ! 2))"

definition visitShuffleVectorInst :: "'s Interp \<Rightarrow> nat \<Rightarrow> LType \<Rightarrow> Val \<Rightarrow> Val \<Rightarrow> Val \<Rightarrow> 's IState \<Rightarrow> 's IState res" where
  "visitShuffleVectorInst X r t a b m = visit_value X r [a, b, m] [] (\<lambda>vs. shuffleVector t (vs ! 0) (vs ! 1) (vs ! 2))"

section \<open>Branches\<close>

text \<open>The nodes at the start of a block choose their values by the block the control comes from: all are read before
  one is set.\<close>

fun phi_nodes :: "Item list \<Rightarrow> (nat \<times> (nat \<times> Val) list) list" where
  "phi_nodes [] = []"
| "phi_nodes (it # its) = (case itInstr it of I_Phi inc \<Rightarrow> (itReg it, inc) # phi_nodes its | _ \<Rightarrow> [])"

definition phi_read :: "Lib \<Rightarrow> Frame \<Rightarrow> nat \<times> (nat \<times> Val) list \<Rightarrow> (nat \<times> Val \<times> GenVal) res" where
  "phi_read L F = (\<lambda>(r, inc). case map_of inc (CurBB F) of None \<Rightarrow> Bug
     | Some v \<Rightarrow> rbind (getOperandValue L (Values F) v) (\<lambda>x. Ok (r, v, x)))"

definition SwitchToNewBasicBlock :: "'s Interp \<Rightarrow> nat \<Rightarrow> 's IState \<Rightarrow> 's IState res" where
  "SwitchToNewBasicBlock X dest st = rbind (cur_frame X st) (\<lambda>F. let ps = phi_nodes (moBlock (inMod X) dest) in
     rbind (res_list (map (phi_read (inLib X) F) ps)) (\<lambda>rs.
     rbind (rfold (\<lambda>(r, v, x). updateDataDeps X (VReg r) v) rs st) (\<lambda>st1.
       upd_frame X (\<lambda>F. fold (\<lambda>(r, v, x). SetValue r x) rs (F\<lparr>CurBB := dest, CurInst := length ps\<rparr>)) st1)))"

definition visitCondBr :: "'s Interp \<Rightarrow> Val \<Rightarrow> nat \<Rightarrow> nat \<Rightarrow> 's IState \<Rightarrow> 's IState res" where
  "visitCondBr X c d0 d1 st = rbind (eval_operand X st c) (\<lambda>v. rbind (updateCtrlDeps X c st)
     (SwitchToNewBasicBlock X (if snd (IntVal v) = 0 then d1 else d0)))"

fun switch_dest :: "Lib \<Rightarrow> (nat \<Rightarrow> GenVal) \<Rightarrow> Ty \<Rightarrow> GenVal \<Rightarrow> (Val \<times> nat) list \<Rightarrow> nat \<Rightarrow> nat res" where
  "switch_dest L vals ty c [] d = Ok d"
| "switch_dest L vals ty c ((v, b) # cs) d = rbind (getOperandValue L vals v) (\<lambda>x. rbind (executeICMP L ICMP_EQ ty c x) (\<lambda>r.
     if snd (IntVal r) \<noteq> 0 then Ok b else switch_dest L vals ty c cs d))"

definition visitSwitchInst :: "'s Interp \<Rightarrow> Ty \<Rightarrow> Val \<Rightarrow> (Val \<times> nat) list \<Rightarrow> nat \<Rightarrow> 's IState \<Rightarrow> 's IState res" where
  "visitSwitchInst X ty c cs d st = rbind (cur_frame X st) (\<lambda>F. rbind (eval_operand X st c) (\<lambda>v.
     rbind (switch_dest (inLib X) (Values F) ty v cs d) (\<lambda>dest.
     rbind (updateCtrlDeps X c st) (SwitchToNewBasicBlock X dest))))"

definition visitIndirectBrInst :: "'s Interp \<Rightarrow> Val \<Rightarrow> 's IState \<Rightarrow> 's IState res" where
  "visitIndirectBrInst X a st = rbind (eval_operand X st a) (\<lambda>v. rbind (updateCtrlDeps X a st)
     (SwitchToNewBasicBlock X (unat (PointerVal v))))"

section \<open>Memory\<close>

text \<open>What follows an access: its result depends on the access, and what follows depends on the address.\<close>

definition after_access :: "'s Interp \<Rightarrow> nat \<Rightarrow> Val \<Rightarrow> GenVal \<Rightarrow> 's IState \<Rightarrow> 's IState res" where
  "after_access X r ptr v st = rbind (cur_pos (interp_EE X None) (isDrv st)) (\<lambda>p. rbind (updateDataDepsEvent X (VReg r) p st) (\<lambda>st1.
     rbind (updateAddrPoDeps X ptr st1) (upd_frame X (SetValue r v))))"

definition is_tls :: "'s Interp \<Rightarrow> GenVal \<Rightarrow> 's IState \<Rightarrow> bool" where
  "is_tls X src st \<longleftrightarrow> dvTls (interp_EE X None) (isDrv st) (PointerVal src) \<noteq> None"

definition visitLoad_i :: "'s Interp \<Rightarrow> nat \<Rightarrow> 64 word option \<Rightarrow> AtomicOrdering \<Rightarrow> LType \<Rightarrow> Val \<Rightarrow> 's IState \<Rightarrow> 's IState res" where
  "visitLoad_i X r md ord typ ptr st = rbind (eval_operand X st ptr) (\<lambda>src. rbind (event_deps X (Some ptr) None True None st) (\<lambda>deps.
     rbind (visitLoadInst (interp_EE X deps) md ord typ (gv_scalar src) (isDrv st)) (\<lambda>(v, s).
       (if is_tls X src st then upd_frame X (SetValue r (GenVal v [])) else after_access X r ptr (GenVal v [])) (st\<lparr>isDrv := s\<rparr>))))"

definition visitStore_i :: "'s Interp \<Rightarrow> 64 word option \<Rightarrow> AtomicOrdering \<Rightarrow> LType \<Rightarrow> Val \<Rightarrow> Val \<Rightarrow> 's IState \<Rightarrow> 's IState res" where
  "visitStore_i X md ord typ v ptr st = rbind (eval_operand X st v) (\<lambda>val. rbind (eval_operand X st ptr) (\<lambda>src.
     rbind (event_deps X (Some ptr) (Some v) True None st) (\<lambda>deps.
     rbind (visitStoreInst (interp_EE X deps) md ord typ (gv_scalar val) (gv_scalar src) (isDrv st)) (\<lambda>s.
       (if is_tls X src st then Ok else updateAddrPoDeps X ptr) (st\<lparr>isDrv := s\<rparr>)))))"

definition visitFence_i :: "'s Interp \<Rightarrow> AtomicOrdering \<Rightarrow> 's IState \<Rightarrow> 's IState res" where
  "visitFence_i X ord st = rbind (event_deps X None None False None st) (\<lambda>deps.
     on_drv_state (visitFenceInst (interp_EE X deps) ord) st)"

text \<open>The write of a compare-and-exchange does not carry the dependencies of the expected value.\<close>

definition cas_result :: "GV \<times> bool \<Rightarrow> GenVal" where
  "cas_result = (\<lambda>(v, c). of_elements [GenVal v [], of_bool1 c])"

definition visitCmpXchg_i :: "'s Interp \<Rightarrow> nat \<Rightarrow> 64 word option \<Rightarrow> AtomicOrdering \<Rightarrow> LType \<Rightarrow> Val \<Rightarrow> Val \<Rightarrow> Val \<Rightarrow> 's IState \<Rightarrow>
    's IState res" where
  "visitCmpXchg_i X r md ord typ ptr cmp new st = rbind (eval_operand X st cmp) (\<lambda>cmpVal. rbind (eval_operand X st new) (\<lambda>newVal. rbind (eval_operand X st ptr) (\<lambda>src.
     rbind (event_deps X (Some ptr) (Some new) True (Some cmp) st) (\<lambda>lDeps. rbind (event_deps X (Some ptr) (Some new) True None st) (\<lambda>sDeps.
     rbind (visitAtomicCmpXchgInst ((interp_EE X lDeps)\<lparr>dvStore := dvStore (interp_EE X sDeps)\<rparr>) md ord typ (gv_scalar cmpVal)
         (gv_scalar newVal) (gv_scalar src) (isDrv st)) (\<lambda>(res, s).
       (if is_tls X src st then upd_frame X (SetValue r (cas_result res)) else after_access X r ptr (cas_result res)) (st\<lparr>isDrv := s\<rparr>)))))))"

definition visitRMW_i :: "'s Interp \<Rightarrow> nat \<Rightarrow> 64 word option \<Rightarrow> AtomicOrdering \<Rightarrow> BinOp \<Rightarrow> LType \<Rightarrow> Val \<Rightarrow> Val \<Rightarrow> 's IState \<Rightarrow>
    's IState res" where
  "visitRMW_i X r md ord op typ ptr v st = rbind (eval_operand X st v) (\<lambda>val. rbind (eval_operand X st ptr) (\<lambda>src.
     rbind (event_deps X (Some ptr) (Some v) True None st) (\<lambda>deps.
     rbind (visitAtomicRMWInst (interp_EE X deps) md ord op typ (gv_scalar val) (gv_scalar src) (isDrv st)) (\<lambda>(old, s).
       (if is_tls X src st then upd_frame X (SetValue r (GenVal old [])) else after_access X r ptr (GenVal old [])) (st\<lparr>isDrv := s\<rparr>)))))"

definition visitAlloca_i :: "'s Interp \<Rightarrow> nat \<Rightarrow> nat \<Rightarrow> int \<Rightarrow> Val \<Rightarrow> 's IState \<Rightarrow> 's IState res" where
  "visitAlloca_i X r ty al n st = rbind (eval_operand X st n) (\<lambda>num. rbind (event_deps X None None True None st) (\<lambda>deps.
     rbind (visitAllocaInst (interp_EE X deps) (ucast (snd (IntVal num))) (ucast (typeAllocSize (inLib X) ty)) al PtrTy
         (\<lambda>a F. F\<lparr>Allocas := Allocas F @ [a]\<rparr>) (isDrv st)) (\<lambda>(v, s).
     rbind (cur_pos (interp_EE X None) s) (\<lambda>p.
     rbind (updateDataDepsEvent X (VReg r) p (st\<lparr>isDrv := s\<rparr>)) (upd_frame X (SetValue r (GenVal v [])))))))"

end
