(* ===== verification/GenMC_Run.thy ===== *)
theory GenMC_Run
  imports GenMC_Interp
begin

text \<open>
  Calls, returns and the loop of the interpreter (\<open>src/src/Execution.cpp\<close>, \<open>src/src/Interpreter.cpp\<close>): a call pushes a
  frame, is served by the library of \<open>GenMC_LibCalls\<close>, or runs an external function; the loop runs the instructions of
  the threads the driver chooses, and reports where the operations of the checked data structure start and end.
\<close>

section \<open>Returns\<close>

text \<open>The value that is returned may be an aggregate. When it comes from a return instruction, the call depends on what
  the returned value depends on.\<close>

definition return_deps :: "'s Interp \<Rightarrow> Val \<Rightarrow> 's IState \<Rightarrow> 's IState res" where
  "return_deps X v st = rbind (cur_thread X st) (\<lambda>t. case butlast (ecStack t) of [] \<Rightarrow> Ok st
     | fs \<Rightarrow> (case Caller (last fs) of None \<Rightarrow> Ok st
         | Some c \<Rightarrow> if caVoid c then Ok st else updateDataDeps X (VReg (caReg c)) v st))"

definition pop_stack :: "'s Interp \<Rightarrow> GenVal \<Rightarrow> 's IState \<Rightarrow> 's IState res" where
  "pop_stack X v st = rbind (event_deps X None None True None st) (\<lambda>deps.
     on_drv_state (popStackAndReturnValueToCaller ((interp_EE X deps)\<lparr>eeReturn := (\<lambda>_. frame_return v)\<rparr>) gv_default) st)"

definition visitReturnInst :: "'s Interp \<Rightarrow> Val option \<Rightarrow> 's IState \<Rightarrow> 's IState res" where
  "visitReturnInst X v st = (case v of
       None \<Rightarrow> pop_stack X GenVal_default st
     | Some v \<Rightarrow> rbind (eval_operand X st v) (\<lambda>x. rbind (return_deps X v st) (pop_stack X x)))"

section \<open>Calls\<close>

definition isMutexCode :: "InternalFunctions \<Rightarrow> bool" where
  "isMutexCode c \<longleftrightarrow> c \<in> {IF_MutexInit, IF_MutexLock, IF_MutexUnlock, IF_MutexTrylock, IF_MutexDestroy}"

definition isBarrierCode :: "InternalFunctions \<Rightarrow> bool" where
  "isBarrierCode c \<longleftrightarrow> c \<in> {IF_BarrierInit, IF_BarrierWait, IF_BarrierDestroy}"

definition isAllocFunction :: "string \<Rightarrow> bool" where
  "isAllocFunction nm \<longleftrightarrow> (case internalFunNames nm of None \<Rightarrow> False
     | Some c \<Rightarrow> c \<in> {IF_Malloc, IF_MallocAligned, IF_HazptrAlloc, IF_MallocLast})"

text \<open>The arguments of a call pass their dependencies to the parameters. An argument beyond the last parameter has no
  parameter; the code then writes to an entry that nothing reads.\<close>

definition updateFunArgDeps :: "'s Interp \<Rightarrow> Fun \<Rightarrow> Val list \<Rightarrow> 's IState \<Rightarrow> (EventDeps option \<times> 's IState) res" where
  "updateFunArgDeps X F args st = (if isDeps st = None then Ok (None, st) else case internalFunNames (fnName F) of
       None \<Rightarrow> rbind (rfold (\<lambda>(p, a). updateDataDeps X (VReg p) a) (zip (fnArgs F) args) st) (\<lambda>st1. Ok (None, st1))
     | Some c \<Rightarrow>
         if c = IF_Assume then rbind (rfold (updateCtrlDeps X) args st) (\<lambda>st1. Ok (None, st1))
         else if isMutexCode c \<or> isBarrierCode c
         then rbind (vec_get args 0) (\<lambda>a. rbind (event_deps X (Some a) None True None st) (\<lambda>d. Ok (d, st)))
         else Ok (None, st))"

definition updateInternalFunRetDeps :: "'s Interp \<Rightarrow> Fun \<Rightarrow> nat \<Rightarrow> 's IState \<Rightarrow> 's IState res" where
  "updateInternalFunRetDeps X F r st = (if internalFunNames (fnName F) = None \<or> \<not> isAllocFunction (fnName F) then Ok st
     else rbind (cur_pos (interp_EE X None) (isDrv st)) (\<lambda>p. updateDataDepsEvent X (VReg r) p st))"

text \<open>The dependencies the library calls give to their events: mutexes and barriers those of the call, most others the
  control and address dependencies so far, some only the control dependencies, the rest none.\<close>

definition internal_deps :: "'s Interp \<Rightarrow> InternalFunctions \<Rightarrow> EventDeps option \<Rightarrow> 's IState \<Rightarrow> EventDeps option res" where
  "internal_deps X c special st =
     (if isMutexCode c \<or> isBarrierCode c then Ok special
      else if c \<in> {IF_ThreadSelf, IF_SmpFenceLKMM} then event_deps X None None False None st
      else if c \<in> {IF_Malloc, IF_MallocAligned, IF_Free, IF_ThreadCreate, IF_ThreadJoin, IF_ThreadExit, IF_HazptrAlloc,
          IF_HazptrFree, IF_HazptrRetire, IF_OpenFS, IF_CreatFS, IF_CloseFS, IF_RenameFS, IF_LinkFS, IF_UnlinkFS,
          IF_TruncateFS, IF_ReadFS, IF_WriteFS, IF_FsyncFS, IF_PreadFS, IF_PwriteFS, IF_LseekFS}
      then event_deps X None None True None st
      else Ok None)"

text \<open>Pointers to static memory are translated for an external function.\<close>

definition translateExternalCallArgs :: "'s Interp \<Rightarrow> GenVal list \<Rightarrow> GenVal list res" where
  "translateExternalCallArgs X args = res_list (map (\<lambda>v.
     if PointerVal v \<noteq> 0 \<and> isStatic (PointerVal v)
     then rbind (getStaticAddr (inStatics X) (inStaticVal X) (PointerVal v)) (\<lambda>a. Ok (of_pointer a)) else Ok v) args)"

definition push_frame :: "'s Interp \<Rightarrow> Frame \<Rightarrow> 's IState \<Rightarrow> 's IState res" where
  "push_frame X F = upd_stack X (\<lambda>fs. fs @ [F])"

definition call_frame :: "nat \<Rightarrow> Fun \<Rightarrow> GenVal list \<Rightarrow> Frame" where
  "call_frame f F args = frame_new\<lparr>CurFunction := f, CurBB := fnEntry F,
     Values := Values (fold (\<lambda>(p, v). SetValue p v) (zip (fnArgs F) args) frame_new), VarArgs := drop (length (fnArgs F)) args\<rparr>"

definition callFunction :: "'s Interp \<Rightarrow> nat \<Rightarrow> GenVal list \<Rightarrow> EventDeps option \<Rightarrow> 's IState \<Rightarrow> 's IState res" where
  "callFunction X f args special st = (let F = moFun (inMod X) f in case internalFunNames (fnName F) of
       Some c \<Rightarrow> rbind (internal_deps X c special st) (\<lambda>deps.
         on_drv_state (callInternalFunction (interp_EE X deps) (inRng X) (fnName F) (fnRetTy F) (fnParamTy F) (map gv_scalar args)) st)
     | None \<Rightarrow>
         if fnDecl F
         then rbind (push_frame X (frame_new\<lparr>CurFunction := f\<rparr>) st) (\<lambda>st1. rbind (translateExternalCallArgs X args) (\<lambda>as.
           pop_stack X (inExternal X (fnName F) as) st1))
         else rbind (BUG_ON (\<not> (length args = length (fnArgs F) \<or> length args > length (fnArgs F) \<and> fnVarArg F))) (\<lambda>_.
           push_frame X (call_frame f F args) st))"

definition visitCallInst :: "'s Interp \<Rightarrow> CallInst \<Rightarrow> 's IState \<Rightarrow> 's IState res" where
  "visitCallInst X c st = rbind (upd_frame X (\<lambda>F. F\<lparr>Caller := Some c\<rparr>) st) (\<lambda>st1. rbind (eval_list X st1 (caArgs c)) (\<lambda>args.
     rbind (eval_operand X st1 (caFun c)) (\<lambda>src. let f = unat (PointerVal src); F = moFun (inMod X) f in
     rbind (updateFunArgDeps X F (caArgs c) st1) (\<lambda>(special, st2). rbind (callFunction X f args special st2)
       (updateInternalFunRetDeps X F (caReg c))))))"

section \<open>The loop\<close>

fun visit :: "'s Interp \<Rightarrow> nat \<Rightarrow> Instr \<Rightarrow> 's IState \<Rightarrow> 's IState res" where
  "visit X r (I_ICmp p ty a b) = visitICmpInst X r p ty a b"
| "visit X r (I_Binary op ty a b) = visitBinaryOperator X r op ty a b"
| "visit X r (I_Shift op ty a b) = visitShift X r op ty a b"
| "visit X r (I_Select ty c a b) = visitSelectInst X r ty c a b"
| "visit X r (I_Ext op ty w a) = visitExtInst X r op ty w a"
| "visit X r (I_PtrToInt w a) = visitPtrToIntInst X r w a"
| "visit X r (I_IntToPtr a) = visitIntToPtrInst X r a"
| "visit X r (I_BitCast src dst a) = visitBitCastInst X r src dst a"
| "visit X r (I_Gep sts p idx) = visitGetElementPtrInst X r sts p idx"
| "visit X r (I_ExtractValue ty is a) = visitExtractValueInst X r ty is a"
| "visit X r (I_InsertValue ty is a v) = visitInsertValueInst X r ty is a v"
| "visit X r (I_ExtractElement t a i) = visitExtractElementInst X r t a i"
| "visit X r (I_InsertElement t a v i) = visitInsertElementInst X r t a v i"
| "visit X r (I_ShuffleVector t a b m) = visitShuffleVectorInst X r t a b m"
| "visit X r (I_Br d) = SwitchToNewBasicBlock X d"
| "visit X r (I_CondBr c d0 d1) = visitCondBr X c d0 d1"
| "visit X r (I_Switch ty c cs d) = visitSwitchInst X ty c cs d"
| "visit X r (I_IndirectBr a) = visitIndirectBrInst X a"
| "visit X r (I_Phi inc) = (\<lambda>st. Bug)"
| "visit X r (I_Ret v) = visitReturnInst X v"
| "visit X r I_Unreachable = (\<lambda>st. Bug)"
| "visit X r (I_Load md ord typ ptr) = visitLoad_i X r md ord typ ptr"
| "visit X r (I_Store md ord typ v ptr) = visitStore_i X md ord typ v ptr"
| "visit X r (I_Fence ord) = visitFence_i X ord"
| "visit X r (I_CmpXchg md ord typ ptr cmp new) = visitCmpXchg_i X r md ord typ ptr cmp new"
| "visit X r (I_RMW md ord op typ ptr v) = visitRMW_i X r md ord op typ ptr v"
| "visit X r (I_Alloca ty al n) = visitAlloca_i X r ty al n"
| "visit X r (I_Call c) = visitCallInst X c"

text \<open>The annotation of an instruction names an operation; with the suffix \<open>_start\<close> it starts the operation, otherwise it
  ends the one that was started.\<close>

fun str_find :: "string \<Rightarrow> string \<Rightarrow> nat option" where
  "str_find pat [] = (if pat = [] then Some 0 else None)"
| "str_find pat (c # cs) = (if take (length pat) (c # cs) = pat then Some 0 else map_option Suc (str_find pat cs))"

definition visit_end :: "'s Interp \<Rightarrow> 's IState \<Rightarrow> 's IState res" where
  "visit_end X st = rbind (event_deps X None None True None st) (\<lambda>deps. rbind (next_pos (interp_EE X None) (isDrv st)) (\<lambda>p.
     on_drv_state (inFunEnd X deps (FunEndLabel p)) st))"

definition visit_start :: "'s Interp \<Rightarrow> FunctionName \<Rightarrow> 's IState \<Rightarrow> 's IState res" where
  "visit_start X nm st = rbind (event_deps X None None True None st) (\<lambda>deps. rbind (next_pos (interp_EE X None) (isDrv st)) (\<lambda>p.
     on_drv_state (inFunStart X deps (FunStartLabel p) nm) st))"

definition visit_mark :: "'s Interp \<Rightarrow> string \<Rightarrow> bool \<Rightarrow> 's IState \<Rightarrow> (bool \<times> 's IState) res" where
  "visit_mark X nm started st = (case str_find ''_start'' nm of
       Some i \<Rightarrow> (let name = inCheckName X (take i nm @ drop (i + 6) nm) in
         if name = FN_NON then Ok (started, st)
         else rbind (if started then visit_end X st else Ok st) (\<lambda>st1. rbind (visit_start X name st1) (\<lambda>st2. Ok (True, st2))))
     | None \<Rightarrow> if started then rbind (visit_end X st) (\<lambda>st1. Ok (False, st1)) else Ok (started, st))"

text \<open>One round of the loop. \<open>fs\<close> says for which threads an operation was started.\<close>

definition interp_round :: "'s Interp \<Rightarrow> (int \<Rightarrow> bool) \<times> 's IState \<Rightarrow> (bool \<times> (int \<Rightarrow> bool) \<times> 's IState) res" where
  "interp_round X = (\<lambda>(fs, st). rbind (inSchedule X (isDrv st)) (\<lambda>(go, s).
     if \<not> go then Ok (False, fs, st\<lparr>isDrv := s\<rparr>)
     else rbind (inProgress X s) (\<lambda>s1. let st1 = st\<lparr>isDrv := s1\<rparr> in
       rbind (cur_frame X st1) (\<lambda>F. rbind (vec_get (moBlock (inMod X) (CurBB F)) (CurInst F)) (\<lambda>it.
       rbind (upd_frame X (\<lambda>F. F\<lparr>CurInst := CurInst F + 1\<rparr>) st1) (\<lambda>st2. rbind (cur_thread X st2) (\<lambda>t. case itFun it of
           Some nm \<Rightarrow> rbind (visit_mark X nm (fs (thrId t)) st2) (\<lambda>(b, st3). Ok (True, fs(thrId t := b), st3))
         | None \<Rightarrow> rbind (visit X (itReg it) (itInstr it) st2) (\<lambda>st3. Ok (True, fs, st3)))))))))"

text \<open>The loop, cut after a number of rounds; the first component says whether it has ended.\<close>

fun interp_run :: "nat \<Rightarrow> 's Interp \<Rightarrow> (int \<Rightarrow> bool) \<times> 's IState \<Rightarrow> (bool \<times> (int \<Rightarrow> bool) \<times> 's IState) res" where
  "interp_run 0 X (fs, st) = Ok (False, fs, st)"
| "interp_run (Suc n) X (fs, st) = rbind (interp_round X (fs, st)) (\<lambda>(go, p). if go then interp_run n X p else Ok (True, p))"

lemma interp_run_more: "interp_run n X p = Ok (True, q) \<Longrightarrow> interp_run (n + k) X p = Ok (True, q)"
proof (induction n arbitrary: p)
  case (Suc n)
  then show ?case by (cases p) (auto simp: res_simps split: prod.splits if_splits)
qed (cases p, auto)

end
