(* ===== verification/GenMC_Oracle.thy ===== *)
theory GenMC_Oracle
  imports GenMC_Run
begin

text \<open>
  The interpreter of \<open>GenMC_Run\<close> with an oracle as its driver, which answers the reads of a thread and records its events:
  what the instructions do there, written out, and how the tracker of dependencies (\<open>src/src/DepTracker.hpp\<close>) grows.
  \<open>GenMC_DepProps\<close> compares two runs.
\<close>

section \<open>An oracle as the driver\<close>

text \<open>The driver gives the value of a read by the position of the event, and records the events with their
  dependencies.\<close>

record Orc =
  oThread :: "Frame Thread"
  oTls :: "SAddr \<Rightarrow> GV option"
  oTrace :: "(EventLabel \<times> EventDeps option) list"

definition emit :: "EventLabel \<Rightarrow> EventDeps option \<Rightarrow> Orc \<Rightarrow> Orc" where
  "emit l d s = s\<lparr>oThread := (oThread s)\<lparr>globalInstructions := globalInstructions (oThread s) + 1\<rparr>, oTrace := oTrace s @ [(l, d)]\<rparr>"

definition answering_EE :: "(Event \<Rightarrow> SVal) \<Rightarrow> (Event \<Rightarrow> SAddr) \<Rightarrow> EventDeps option \<Rightarrow> (Frame, Orc) EE \<Rightarrow> (Frame, Orc) EE" where
  "answering_EE rv al d I = I\<lparr>
     dvThread := (\<lambda>s. Ok (oThread s)),
     dvSetThread := (\<lambda>f s. Ok (s\<lparr>oThread := f (oThread s)\<rparr>)),
     dvProgState := (\<lambda>s. PS_Main),
     dvTls := oTls,
     dvSetTls := (\<lambda>a v s. s\<lparr>oTls := (oTls s)(a \<mapsto> v)\<rparr>),
     dvLoad := (\<lambda>l s. Ok (rv (lpos l), emit l d s)),
     dvStore := (\<lambda>l s. Ok (emit l d s)),
     dvHelpingCas := (\<lambda>l s. Ok (emit l d s)),
     dvFence := (\<lambda>l s. Ok (emit l d s)),
     dvMalloc := (\<lambda>l a st sp s. Ok (al (lpos l), emit l d s)),
     dvFree := (\<lambda>l s. Ok (emit l d s)),
     dvBlock := (\<lambda>l s. Ok (emit l d (s\<lparr>oThread := thr_block (lblock l) (oThread s)\<rparr>))),
     dvThreadFinish := (\<lambda>l s. Ok (emit l None s)),
     eeRunAtExit := Ok\<rparr>"

definition answering :: "(Event \<Rightarrow> SVal) \<Rightarrow> (Event \<Rightarrow> SAddr) \<Rightarrow> Orc Interp \<Rightarrow> Orc Interp" where
  "answering rv al X = X\<lparr>
     inDrv := (\<lambda>d. answering_EE rv al d (inDrv X d)),
     inSchedule := (\<lambda>s. Ok (ecStack (oThread s) \<noteq> [] \<and> \<not> thr_isBlocked (oThread s), s)),
     inProgress := Ok,
     inFunStart := (\<lambda>d l nm s. Ok (emit (l\<lparr>lmethod := nm\<rparr>) d s)),
     inFunEnd := (\<lambda>d l s. Ok (emit l d s))\<rparr>"

abbreviation thread_of :: "Orc IState \<Rightarrow> Frame Thread" where
  "thread_of st \<equiv> oThread (isDrv st)"

abbreviation stack_of :: "Orc IState \<Rightarrow> Frame list" where
  "stack_of st \<equiv> ecStack (thread_of st)"

abbreviation trace_of :: "Orc IState \<Rightarrow> (EventLabel \<times> EventDeps option) list" where
  "trace_of st \<equiv> oTrace (isDrv st)"

definition event_at :: "EventLabel \<Rightarrow> EventDeps option \<Rightarrow> Orc IState \<Rightarrow> Orc IState" where
  "event_at l d st = st\<lparr>isDrv := emit l d (isDrv st)\<rparr>"

definition pos_of :: "Orc IState \<Rightarrow> Event" where
  "pos_of st = Event (thrId (thread_of st)) (int (globalInstructions (thread_of st)))"

definition map_stack :: "(Frame list \<Rightarrow> Frame list) \<Rightarrow> Orc IState \<Rightarrow> Orc IState" where
  "map_stack f st = st\<lparr>isDrv := (isDrv st)\<lparr>oThread := (thread_of st)\<lparr>ecStack := f (stack_of st)\<rparr>\<rparr>\<rparr>"

definition on_top :: "(Frame \<Rightarrow> Frame) \<Rightarrow> Orc IState \<Rightarrow> Orc IState" where
  "on_top f = map_stack (\<lambda>fs. butlast fs @ [f (last fs)])"

lemma answering_static [simp]: "inMod (answering rv al X) = inMod X" "inLib (answering rv al X) = inLib X" "inCheckName (answering rv al X) = inCheckName X"
  "inRng (answering rv al X) = inRng X"
  by (simp_all add: answering_def)

lemma answering_drv [simp]:
  "dvThread (interp_EE (answering rv al X) d) = (\<lambda>s. Ok (oThread s))"
  "dvSetThread (interp_EE (answering rv al X) d) = (\<lambda>f s. Ok (s\<lparr>oThread := f (oThread s)\<rparr>))"
  "dvTls (interp_EE (answering rv al X) d) = oTls"
  "dvSetTls (interp_EE (answering rv al X) d) = (\<lambda>a v s. s\<lparr>oTls := (oTls s)(a \<mapsto> v)\<rparr>)"
  "dvProgState (interp_EE (answering rv al X) d) = (\<lambda>s. PS_Main)"
  "dvLoad (interp_EE (answering rv al X) d) = (\<lambda>l s. Ok (rv (lpos l), emit l d s))"
  "dvStore (interp_EE (answering rv al X) d) = (\<lambda>l s. Ok (emit l d s))"
  "dvHelpingCas (interp_EE (answering rv al X) d) = (\<lambda>l s. Ok (emit l d s))"
  "dvFence (interp_EE (answering rv al X) d) = (\<lambda>l s. Ok (emit l d s))"
  "dvMalloc (interp_EE (answering rv al X) d) = (\<lambda>l a st sp s. Ok (al (lpos l), emit l d s))"
  "dvFree (interp_EE (answering rv al X) d) = (\<lambda>l s. Ok (emit l d s))"
  "dvBlock (interp_EE (answering rv al X) d) = (\<lambda>l s. Ok (emit l d (s\<lparr>oThread := thr_block (lblock l) (oThread s)\<rparr>)))"
  "dvThreadFinish (interp_EE (answering rv al X) d) = (\<lambda>l s. Ok (emit l None s))"
  "eeRunAtExit (interp_EE (answering rv al X) d) = Ok" "eeAllocas (interp_EE (answering rv al X) d) = Allocas"
  "eeTypeSize (interp_EE (answering rv al X) d) = eeTypeSize (inDrv X d)"
  by (simp_all add: interp_EE_def answering_def answering_EE_def)

lemma answering_pos [simp]:
  "cur_pos (interp_EE (answering rv al X) d) s = Ok (Event (thrId (oThread s)) (int (globalInstructions (oThread s))))"
  "next_pos (interp_EE (answering rv al X) d) s = Ok (next_ev (Event (thrId (oThread s)) (int (globalInstructions (oThread s)))))"
  by (simp_all add: cur_pos_def next_pos_def)

lemma answering_state:
  "cur_thread (answering rv al X) st = Ok (thread_of st)"
  "cur_frame (answering rv al X) st = (if stack_of st = [] then Undef else Ok (last (stack_of st)))"
  "upd_stack (answering rv al X) f st = Ok (map_stack f st)" "upd_frame (answering rv al X) g st = Ok (on_top g st)"
  "upd_frame (answering rv al X) g = (\<lambda>st. Ok (on_top g st))"
  "is_tls (answering rv al X) src st \<longleftrightarrow> oTls (isDrv st) (PointerVal src) \<noteq> None"
  by (simp_all add: cur_thread_def cur_frame_def upd_stack_def upd_frame_def on_drv_state_def map_stack_def on_top_def fun_eq_iff
      is_tls_def)

section \<open>Trackers that grow\<close>

definition tracker_ok :: "DepTracker \<Rightarrow> bool" where
  "tracker_ok T \<longleftrightarrow> (\<forall>tid. (\<forall>v. ssorted (dataDeps T tid v)) \<and> ssorted (addrPoDeps T tid) \<and> ssorted (ctrlDeps T tid))"

definition dt_le :: "DepTracker \<Rightarrow> DepTracker \<Rightarrow> bool" where
  "dt_le T U \<longleftrightarrow> tracker_ok U \<and> (\<forall>tid. (\<forall>v. set (dataDeps T tid v) \<subseteq> set (dataDeps U tid v)) \<and> set (ctrlDeps T tid) \<subseteq> set (ctrlDeps U tid))"

lemma dt_le_refl: "tracker_ok T \<Longrightarrow> dt_le T T"
  by (simp add: dt_le_def)

lemma dt_le_trans: "dt_le T U \<Longrightarrow> dt_le U V \<Longrightarrow> dt_le T V"
  unfolding dt_le_def by blast

lemma depinfo_update_union:
  assumes "ssorted a" and "ssorted b"
  shows "depinfo_update a b = Ok (sorted_list_of_set (set a \<union> set b))"
  using assms by (simp add: depinfo_update_def vs_insert_set_correct)

lemma ssorted_depinfo_of: "ssorted (depinfo_of e)" "set (depinfo_of e) = {e}"
  by (simp_all add: depinfo_of_def vs_of_init_list_def vs_insert_step_def)

lemma dt_addData_le:
  assumes T: "tracker_ok T" and d: "ssorted d" and U: "dt_addData tid v d T = Ok U"
  shows "dt_le T U \<and> set d \<subseteq> set (dataDeps U tid v)"
proof -
  have s: "ssorted (dataDeps T tid v)" using T by (simp add: tracker_ok_def)
  from U have "U = T\<lparr>dataDeps := (dataDeps T)(tid := (dataDeps T tid)(v := sorted_list_of_set (set (dataDeps T tid v) \<union> set d)))\<rparr>"
    by (simp add: dt_addData_def depinfo_update_union [OF s d])
  with T show ?thesis by (simp add: dt_le_def tracker_ok_def)
qed

lemma dt_updateDataDeps_le:
  assumes "tracker_ok T" and "dt_updateDataDeps tid v w T = Ok U"
  shows "dt_le T U \<and> set (dataDeps T tid w) \<subseteq> set (dataDeps U tid v)"
  using assms dt_addData_le [of T "dataDeps T tid w" tid v U] by (simp add: dt_updateDataDeps_def tracker_ok_def)

lemma dt_updateAddrPoDeps_le:
  assumes T: "tracker_ok T" and U: "dt_updateAddrPoDeps tid w T = Ok U"
  shows "dt_le T U"
proof -
  have s: "ssorted (addrPoDeps T tid)" "ssorted (dataDeps T tid w)" using T by (simp_all add: tracker_ok_def)
  from U T show ?thesis by (auto simp: dt_updateAddrPoDeps_def depinfo_update_union [OF s] dt_le_def tracker_ok_def)
qed

lemma dt_updateCtrlDeps_le:
  assumes T: "tracker_ok T" and U: "dt_updateCtrlDeps tid w T = Ok U"
  shows "dt_le T U \<and> set (dataDeps T tid w) \<subseteq> set (ctrlDeps U tid)"
proof -
  have s: "ssorted (ctrlDeps T tid)" "ssorted (dataDeps T tid w)" using T by (simp_all add: tracker_ok_def)
  from U T show ?thesis by (auto simp: dt_updateCtrlDeps_def depinfo_update_union [OF s] dt_le_def tracker_ok_def)
qed

text \<open>A sequence of updates, each of which adds the dependencies of a value to one place.\<close>

lemma rfold_le:
  assumes "tracker_ok T" and "rfold f xs T = Ok U"
    and "\<And>x T U. x \<in> set xs \<Longrightarrow> tracker_ok T \<Longrightarrow> f x T = Ok U \<Longrightarrow> dt_le T U \<and> set (dataDeps T tid (src x)) \<subseteq> set (place x U)"
    and "\<And>x T U. dt_le T U \<Longrightarrow> set (place x T) \<subseteq> set (place x U)"
  shows "dt_le T U \<and> (\<forall>x\<in>set xs. set (dataDeps T tid (src x)) \<subseteq> set (place x U))"
  using assms
proof (induction xs arbitrary: T)
  case Nil
  then show ?case by (simp add: dt_le_refl)
next
  case (Cons x xs)
  from Cons.prems(2) obtain V where V: "f x T = Ok V" "rfold f xs V = Ok U" by (auto simp: res_simps)
  have TV: "dt_le T V \<and> set (dataDeps T tid (src x)) \<subseteq> set (place x V)"
    by (rule Cons.prems(3) [OF _ Cons.prems(1) V(1)]) simp
  then have ok: "tracker_ok V" by (simp add: dt_le_def)
  have VU: "dt_le V U \<and> (\<forall>y\<in>set xs. set (dataDeps V tid (src y)) \<subseteq> set (place y U))"
    by (rule Cons.IH [OF ok V(2) _ Cons.prems(4)], rule Cons.prems(3)) simp_all
  have mono: "set (dataDeps T tid v) \<subseteq> set (dataDeps V tid v)" for v using TV by (simp add: dt_le_def)
  have x: "set (dataDeps T tid (src x)) \<subseteq> set (place x U)"
    using TV Cons.prems(4) [of V U x] VU by (meson subset_trans)
  have xs: "set (dataDeps T tid (src y)) \<subseteq> set (place y U)" if "y \<in> set xs" for y
    using VU that mono by (meson subset_trans)
  show ?case using dt_le_trans [of T V U] TV VU x xs by (metis set_ConsD)
qed

definition dt_grow :: "(DepTracker \<Rightarrow> DepTracker res) \<Rightarrow> bool" where
  "dt_grow f \<longleftrightarrow> (\<forall>T U. tracker_ok T \<longrightarrow> f T = Ok U \<longrightarrow> dt_le T U)"

lemma dt_leD: "dt_le T U \<Longrightarrow> tracker_ok U" "dt_le T U \<Longrightarrow> set (dataDeps T tid v) \<subseteq> set (dataDeps U tid v)"
  "dt_le T U \<Longrightarrow> set (ctrlDeps T tid) \<subseteq> set (ctrlDeps U tid)"
  by (simp_all add: dt_le_def)

lemma rfold_data_le:
  assumes "tracker_ok T" and "rfold (\<lambda>(p, a). dt_updateDataDeps tid (VReg p) a) pas T = Ok U"
  shows "dt_le T U \<and> (\<forall>x\<in>set pas. set (dataDeps T tid (snd x)) \<subseteq> set (dataDeps U tid (VReg (fst x))))"
  using assms(2) unfolding split_beta
  by (rule rfold_le [OF assms(1)]) (rule dt_updateDataDeps_le dt_leD(2); assumption)+

lemma rfold_result_le:
  assumes "tracker_ok T" and "rfold (dt_updateDataDeps tid (VReg r)) vs T = Ok U"
  shows "dt_le T U \<and> (\<forall>a\<in>set vs. set (dataDeps T tid a) \<subseteq> set (dataDeps U tid (VReg r)))"
  using assms(2) by (rule rfold_le [OF assms(1)]) (rule dt_updateDataDeps_le dt_leD(2); assumption)+

lemma rfold_ctrl_le:
  assumes "tracker_ok T" and "rfold (dt_updateCtrlDeps tid) vs T = Ok U"
  shows "dt_le T U \<and> (\<forall>a\<in>set vs. set (dataDeps T tid a) \<subseteq> set (ctrlDeps U tid))"
  using assms(2) by (rule rfold_le [OF assms(1)]) (rule dt_updateCtrlDeps_le dt_leD(3); assumption)+

section \<open>The interpreter on the oracle\<close>

lemma answering_tracker:
  "on_tracker (answering rv al X) f st = (case isDeps st of None \<Rightarrow> Ok st
     | Some T \<Rightarrow> rbind (f (thrId (thread_of st)) T) (\<lambda>U. Ok (st\<lparr>isDeps := Some U\<rparr>)))"
  by (simp add: on_tracker_def answering_state split: option.splits)

lemma rfold_on_tracker:
  "rfold (\<lambda>x. on_tracker (answering rv al X) (f x)) xs st = on_tracker (answering rv al X) (\<lambda>tid. rfold (\<lambda>x. f x tid) xs) st"
proof (induction xs arbitrary: st)
  case Nil
  then show ?case by (cases st) (simp add: answering_tracker split: option.splits)
next
  case (Cons x xs)
  show ?case
  proof (cases "isDeps st")
    case None
    then have "on_tracker (answering rv al X) g st = Ok st" for g by (simp add: answering_tracker)
    then show ?thesis by (simp add: Cons.IH)
  next
    case (Some T)
    then have tr: "on_tracker (answering rv al X) g st = rbind (g (thrId (thread_of st)) T) (\<lambda>U. Ok (st\<lparr>isDeps := Some U\<rparr>))" for g
      by (simp add: answering_tracker)
    show ?thesis
      by (cases "f x (thrId (thread_of st)) T") (simp_all add: tr Cons.IH, simp add: answering_tracker)
  qed
qed

lemma updates_tracker:
  "updateDataDeps X v = (\<lambda>w. on_tracker X (\<lambda>tid. dt_updateDataDeps tid v w))"
  "updateCtrlDeps X = (\<lambda>w. on_tracker X (\<lambda>tid. dt_updateCtrlDeps tid w))"
  by (simp_all add: fun_eq_iff updateDataDeps_def updateCtrlDeps_def)

lemma answering_updates:
  "rfold (updateDataDeps (answering rv al X) v) ws = on_tracker (answering rv al X) (\<lambda>tid. rfold (dt_updateDataDeps tid v) ws)"
  "rfold (\<lambda>(p, a). updateDataDeps (answering rv al X) (VReg p) a) pas
    = on_tracker (answering rv al X) (\<lambda>tid. rfold (\<lambda>(p, a). dt_updateDataDeps tid (VReg p) a) pas)"
  "rfold (\<lambda>(p, a, x). updateDataDeps (answering rv al X) (VReg p) a) pax
    = on_tracker (answering rv al X) (\<lambda>tid. rfold (\<lambda>(p, a, x). dt_updateDataDeps tid (VReg p) a) pax)"
  "rfold (updateCtrlDeps (answering rv al X)) ws = on_tracker (answering rv al X) (\<lambda>tid. rfold (dt_updateCtrlDeps tid) ws)"
  unfolding updates_tracker split_beta fun_eq_iff
  by (simp_all only: rfold_on_tracker [of rv al X "\<lambda>w tid. dt_updateDataDeps tid v w"] rfold_on_tracker [of rv al X "\<lambda>w tid. dt_updateCtrlDeps tid w"]
      rfold_on_tracker [of rv al X "\<lambda>p tid. dt_updateDataDeps tid (VReg (fst p)) (snd p)"]
      rfold_on_tracker [of rv al X "\<lambda>p tid. dt_updateDataDeps tid (VReg (fst p)) (fst (snd p))"] simp_thms)

text \<open>The instructions on the oracle, when no variable is local to a thread.\<close>

definition no_tls :: "Orc IState \<Rightarrow> bool" where
  "no_tls st \<longleftrightarrow> oTls (isDrv st) = Map.empty"

definition snap :: "Orc IState \<Rightarrow> Orc IState" where
  "snap st = st\<lparr>isDrv := (isDrv st)\<lparr>oThread := thr_takeSnapshot (thread_of st)\<rparr>\<rparr>"

definition accessed :: "nat \<Rightarrow> Val \<Rightarrow> int \<Rightarrow> Event \<Rightarrow> DepTracker \<Rightarrow> DepTracker res" where
  "accessed r ptr tid p T = rbind (dt_addData tid (VReg r) (depinfo_of p) T) (dt_updateAddrPoDeps tid ptr)"

definition deps_of :: "Val option \<Rightarrow> Val option \<Rightarrow> bool \<Rightarrow> Val option \<Rightarrow> Orc IState \<Rightarrow> EventDeps option" where
  "deps_of addr data po cas st = (case isDeps st of None \<Rightarrow> None
     | Some T \<Rightarrow> (let tid = thrId (thread_of st); get = (\<lambda>v. case v of None \<Rightarrow> [] | Some w \<Rightarrow> dataDeps T tid w) in
        Some \<lparr>dep_addr = get addr, dep_data = get data, dep_ctrl = ctrlDeps T tid, dep_addrPo = (if po then addrPoDeps T tid else []),
          dep_cas = get cas\<rparr>))"

definition operand :: "Lib \<Rightarrow> Orc IState \<Rightarrow> Val \<Rightarrow> GenVal res" where
  "operand L st v = (if stack_of st = [] then Undef else getOperandValue L (Values (last (stack_of st))) v)"

lemma answering_reads:
  "event_deps (answering rv al X) addr data po cas st = Ok (deps_of addr data po cas st)"
  "eval_operand (answering rv al X) st v = operand (inLib X) st v"
  by (auto simp: event_deps_def deps_of_def answering_state makeEventDeps_def Let_def eval_operand_def operand_def split: option.splits)

lemma next_pos_of: "pos_of (event_at l d st) = next_ev (pos_of st)" "pos_of (snap st) = pos_of st"
  by (simp_all add: pos_of_def event_at_def emit_def snap_def thr_takeSnapshot_def next_ev_def)

lemma event_at_simps [simp]: "isDeps (event_at l d st) = isDeps st" "thrId (thread_of (event_at l d st)) = thrId (thread_of st)"
  "stack_of (event_at l d st) = stack_of st" "oTls (isDrv (event_at l d st)) = oTls (isDrv st)" "trace_of (event_at l d st) = trace_of st @ [(l, d)]"
  "thrBlocked (thread_of (event_at l d st)) = thrBlocked (thread_of st)"
  by (simp_all add: event_at_def emit_def)

lemma snap_simps [simp]: "isDeps (snap st) = isDeps st" "thrId (thread_of (snap st)) = thrId (thread_of st)"
  "stack_of (snap st) = stack_of st" "oTls (isDrv (snap st)) = oTls (isDrv st)" "trace_of (snap st) = trace_of st"
  "thrBlocked (thread_of (snap st)) = thrBlocked (thread_of st)"
  by (simp_all add: snap_def thr_takeSnapshot_def)

lemma map_stack_simps [simp]: "isDeps (map_stack f st) = isDeps st" "thrId (thread_of (map_stack f st)) = thrId (thread_of st)"
  "stack_of (map_stack f st) = f (stack_of st)" "oTls (isDrv (map_stack f st)) = oTls (isDrv st)" "trace_of (map_stack f st) = trace_of st"
  by (simp_all add: map_stack_def)

lemma acc_of_answering [simp]: "acc_of (interp_EE (answering rv al X) d) typ = acc_of (inDrv X d) typ"
  "acc_of ((interp_EE (answering rv al X) d)\<lparr>dvStore := f\<rparr>) typ = acc_of (inDrv X d) typ"
  by (simp_all add: acc_of_def)

lemmas answering_memory = answering_reads answering_state answering_tracker no_tls_def event_at_def pos_of_def PointerVal_def

lemma after_access_answering:
  "after_access (answering rv al X) r ptr v st =
     rbind (on_tracker (answering rv al X) (\<lambda>tid. accessed r ptr tid (pos_of st)) st) (\<lambda>st1. Ok (on_top (SetValue r v) st1))"
proof (cases "isDeps st")
  case (Some T)
  then show ?thesis
    by (cases "dt_addData (thrId (thread_of st)) (VReg r) (depinfo_of (pos_of st)) T")
      (simp_all add: after_access_def updateDataDepsEvent_def updateAddrPoDeps_def answering_tracker answering_state accessed_def pos_of_def)
qed (simp add: after_access_def updateDataDepsEvent_def updateAddrPoDeps_def answering_tracker answering_state)

lemma visitLoad_answering:
  assumes "no_tls st"
  shows "visitLoad_i (answering rv al X) r md ord typ ptr st =
    rbind (operand (inLib X) st ptr) (\<lambda>src. rbind (getReadKind md) (\<lambda>k. let deps = deps_of (Some ptr) None True None st in
      after_access (answering rv al X) r ptr (GenVal (SVAL_TO_GV (rv (next_ev (pos_of st))) typ) [])
        (event_at (ReadLabel k ord (next_ev (pos_of st)) (PointerVal src) (acc_of (inDrv X deps) typ) getBottom) deps st)))"
  using assms by (cases "getReadKind md")
   (simp_all add: visitLoad_i_def visitLoadInst_def do_load_def answering_memory Let_def ReadLabel_def mkLabel_def)

lemma visitStore_answering:
  assumes "no_tls st"
  shows "visitStore_i (answering rv al X) md ord typ v ptr st =
    rbind (operand (inLib X) st v) (\<lambda>val. rbind (operand (inLib X) st ptr) (\<lambda>src. let deps = deps_of (Some ptr) (Some v) True None st in
      updateAddrPoDeps (answering rv al X) ptr (event_at (WriteLabel EL_Write ord (next_ev (pos_of st)) (PointerVal src)
        (acc_of (inDrv X deps) typ) (GV_TO_SVAL (gv_scalar val) typ) (getWriteAttr md)) deps st)))"
  using assms
  by (simp add: visitStore_i_def visitStoreInst_def do_store_def answering_memory Let_def)

lemma visitFence_answering:
  "visitFence_i (answering rv al X) ord st = Ok (event_at (FenceLabel ord (next_ev (pos_of st))) (deps_of None None False None st) st)"
  by (simp add: visitFence_i_def visitFenceInst_def answering_memory on_drv_state_def)

lemma label_pos [simp]: "lpos (ReadLabel k ord p a acc rf) = p" "lpos (FaiReadLabel k ord p a acc op v w rf) = p"
  "lpos (CasReadLabel k ord p a acc ex sw w rf) = p" "lpos (MallocLabel p a sz) = p"
  by (simp_all add: ReadLabel_def FaiReadLabel_def CasReadLabel_def MallocLabel_def mkLabel_def)

text \<open>A read-modify-write operation: the read, and the write when the thread goes on.\<close>

definition cas_events :: "('f, 's, 'x) EE_scheme \<Rightarrow> (Event \<Rightarrow> SVal) \<Rightarrow> 64 word option \<Rightarrow> AtomicOrdering \<Rightarrow> LType \<Rightarrow> SVal \<Rightarrow> SVal \<Rightarrow> SAddr \<Rightarrow>
    EventDeps option \<Rightarrow> EventDeps option \<Rightarrow> EventLabelKind \<Rightarrow> EventLabelKind \<Rightarrow> Orc IState \<Rightarrow> (bool \<times> Orc IState) res" where
  "cas_events I rv md ord typ cmp new a lDeps sDeps kr kw st = (let p = next_ev (pos_of st);
       st1 = event_at (CasReadLabel kr ord p a (acc_of I typ) cmp new (getWriteAttr md) getBottom) lDeps st in
     rbind (signExtendBottom cmp (unat (eeTypeSize I typ * 8))) (\<lambda>c. Ok (rv p = c,
       if \<not> thr_isBlocked (thread_of st) \<and> rv p = c
       then event_at (WriteLabel kw ord (next_ev p) a (acc_of I typ) new (getWriteAttr md)) sDeps st1 else st1)))"

lemma cas_visit_answering:
  "cas_visit ((interp_EE (answering rv al X) lDeps)\<lparr>dvStore := \<lambda>l s. Ok (emit l sDeps s)\<rparr>) kr kw md ord typ cmp new a (isDrv st) =
    rbind (cas_events (inDrv X lDeps) rv md ord typ cmp new a lDeps sDeps kr kw st) (\<lambda>(c, st1). Ok ((rv (next_ev (pos_of st)), c), isDrv st1))"
  by (cases "signExtendBottom cmp (unat (eeTypeSize (inDrv X lDeps) typ * 8))")
    (simp_all add: cas_visit_def do_load_def do_store_def is_blocked_def cas_events_def Let_def answering_memory next_pos_def cur_pos_def emit_def
      next_ev_def thr_isBlocked_def)

lemma with_isDrv: "isDeps st1 = isDeps (st :: Orc IState) \<Longrightarrow> st\<lparr>isDrv := isDrv st1\<rparr> = st1"
  by (cases st; cases st1) simp

lemma cas_events_isDeps: "cas_events I rv md ord typ cmp new a ld sd kr kw st = Ok (c, st1) \<Longrightarrow> isDeps st1 = isDeps st"
  by (auto simp: cas_events_def Let_def res_simps split: if_splits)

lemma visitCmpXchg_answering:
  assumes "no_tls st"
  shows "visitCmpXchg_i (answering rv al X) r md ord typ ptr cmp new st =
    rbind (operand (inLib X) st cmp) (\<lambda>cmpVal. rbind (operand (inLib X) st new) (\<lambda>newVal. rbind (operand (inLib X) st ptr) (\<lambda>src.
    let lDeps = deps_of (Some ptr) (Some new) True (Some cmp) st; sDeps = deps_of (Some ptr) (Some new) True None st;
      c = GV_TO_SVAL (gv_scalar cmpVal) typ; n = GV_TO_SVAL (gv_scalar newVal) typ in
    rbind (getCasKinds md) (\<lambda>(kr, kw).
      if kr = EL_HelpingCas
      then after_access (answering rv al X) r ptr (cas_result (SVAL_TO_GV 0 typ, False))
        (event_at (HelpingCasLabel ord (next_ev (pos_of st)) (PointerVal src) (acc_of (inDrv X lDeps) typ) c n) lDeps (snap st))
      else rbind (cas_events (inDrv X lDeps) rv md ord typ c n (PointerVal src) lDeps sDeps kr kw (snap st)) (\<lambda>(b, st1).
        after_access (answering rv al X) r ptr (cas_result (SVAL_TO_GV (rv (next_ev (pos_of st))) typ, b)) st1)))))"
proof -
  have tls: "oTls (isDrv st) = Map.empty" using assms by (simp add: no_tls_def)
  have sn: "take_snapshot ((interp_EE (answering rv al X) d)\<lparr>dvStore := f\<rparr>) (isDrv st) = Ok (isDrv (snap st))" for d f
    by (simp add: take_snapshot_def snap_def)
  have nx: "next_pos ((interp_EE (answering rv al X) d)\<lparr>dvStore := f\<rparr>) (isDrv (snap st)) = Ok (next_ev (pos_of st))" for d f
    by (simp add: next_pos_def cur_pos_def snap_def pos_of_def thr_takeSnapshot_def)
  show ?thesis
    unfolding visitCmpXchg_i_def visitAtomicCmpXchgInst_def answering_reads rbind.simps
  proof (intro rbind_fundef_cong refl, goal_cases)
    case (1 cmpVal newVal src)
    let ?l = "deps_of (Some ptr) (Some new) True (Some cmp) st" and ?s = "deps_of (Some ptr) (Some new) True None st"
    have hc: "st\<lparr>isDrv := emit l d (isDrv (snap st))\<rparr> = event_at l d (snap st)" for l d by (simp add: event_at_def snap_def)
    have nl: "PointerVal src = gvPtr (gv_scalar src)" by (simp add: PointerVal_def)
    show ?case
    proof (cases "getCasKinds md")
      case (Ok k)
      obtain kr kw where k: "k = (kr, kw)" by (cases k)
      show ?thesis
      proof (cases "kr = EL_HelpingCas")
        case True
        with Ok k show ?thesis by (simp add: tls sn nx hc answering_state nl Let_def)
      next
        case False
        let ?m = "cas_events (inDrv X ?l) rv md ord typ (GV_TO_SVAL (gv_scalar cmpVal) typ) (GV_TO_SVAL (gv_scalar newVal) typ)
          (PointerVal src) ?l ?s kr kw (snap st)"
        show ?thesis
        proof (cases ?m)
          case m: (Ok x)
          obtain b st1 where x: "x = (b, st1)" by (cases x)
          have "isDeps st1 = isDeps st" using cas_events_isDeps [OF m [unfolded x]] by simp
          then have "st\<lparr>isDrv := isDrv st1\<rparr> = st1" by (rule with_isDrv)
          with Ok k False m x show ?thesis
            by (simp add: tls sn cas_visit_answering next_pos_of answering_state nl Let_def)
        qed (use Ok k False in \<open>simp_all add: tls sn cas_visit_answering next_pos_of answering_state nl Let_def\<close>)
      qed
    qed (simp_all add: tls sn answering_state nl Let_def)
  qed
qed

lemma visitRMW_answering:
  assumes "no_tls st"
  shows "visitRMW_i (answering rv al X) r md ord op typ ptr v st =
    rbind (operand (inLib X) st v) (\<lambda>val. rbind (operand (inLib X) st ptr) (\<lambda>src. rbind (BUG_ON (\<not> isIntegerTy typ)) (\<lambda>_.
    rbind (getFaiKinds md) (\<lambda>(kr, kw). let deps = deps_of (Some ptr) (Some v) True None st; p = next_ev (pos_of st);
        w = GV_TO_SVAL (gv_scalar val) typ; acc = acc_of (inDrv X deps) typ;
        st1 = event_at (FaiReadLabel kr ord p (PointerVal src) acc op w (getWriteAttr md) getBottom) deps st in
      rbind (executeAtomicRMWOperation (rv p) w (eeTypeSize (inDrv X deps) typ) op) (\<lambda>new.
        after_access (answering rv al X) r ptr (GenVal (SVAL_TO_GV (rv p) typ) [])
          (if thr_isBlocked (thread_of st) then st1
           else event_at (WriteLabel kw ord (next_ev p) (PointerVal src) acc new (getWriteAttr md)) deps st1))))))"
proof -
  have tls: "oTls (isDrv st) = Map.empty" using assms by (simp add: no_tls_def)
  show ?thesis
    unfolding visitRMW_i_def visitAtomicRMWInst_def answering_reads rbind.simps
  proof (intro rbind_fundef_cong refl, goal_cases)
    case (1 val src)
    let ?d = "deps_of (Some ptr) (Some v) True None st"
    show ?case
    proof (cases "isIntegerTy typ")
      case True
      show ?thesis
      proof (cases "getFaiKinds md")
        case (Ok k)
        with True show ?thesis
          by (cases k; cases "executeAtomicRMWOperation (rv (next_ev (pos_of st))) (GV_TO_SVAL (gv_scalar val) typ) (eeTypeSize (inDrv X ?d) typ) op")
            (simp_all add: tls fai_visit_def do_load_def do_store_def is_blocked_def answering_state Let_def event_at_def pos_of_def
              PointerVal_def emit_def next_ev_def thr_isBlocked_def)
      qed (use True in \<open>simp_all add: tls answering_state Let_def PointerVal_def\<close>)
    qed simp
  qed
qed

lemma visitAlloca_answering:
  assumes "stack_of st \<noteq> []"
  shows "visitAlloca_i (answering rv al X) r ty alg n st =
    rbind (operand (inLib X) st n) (\<lambda>num. let p = next_ev (pos_of st); sz = max 1 (ucast (snd (IntVal num)) * ucast (typeAllocSize (inLib X) ty));
        st1 = on_top (\<lambda>F. F\<lparr>Allocas := Allocas F @ [al p]\<rparr>) (event_at (MallocLabel p 0 sz) (deps_of None None True None st) st) in
      rbind (on_tracker (answering rv al X) (\<lambda>tid. dt_addData tid (VReg r) (depinfo_of p)) st1) (\<lambda>st2.
        Ok (on_top (SetValue r (GenVal (SVAL_TO_GV (al p) PtrTy) [])) st2)))"
proof (cases "operand (inLib X) st n")
  case (Ok num)
  let ?d = "deps_of None None True None st" and ?p = "next_ev (pos_of st)"
  let ?add = "\<lambda>a F. F\<lparr>Allocas := Allocas F @ [a]\<rparr>"
  have "visitAllocaInst (interp_EE (answering rv al X) ?d) ne ts alg PtrTy ?add (isDrv st) =
      Ok (SVAL_TO_GV (al ?p) PtrTy, isDrv (on_top (?add (al ?p)) (event_at (MallocLabel ?p 0 (max 1 (ne * ts))) ?d st)))" for ne ts
    using assms by (simp add: visitAllocaInst_def on_top_def map_stack_def event_at_def emit_def pos_of_def next_ev_def)
  moreover have "st\<lparr>isDrv := isDrv (on_top f (event_at l d st))\<rparr> = on_top f (event_at l d st)" for f l d
    by (rule with_isDrv) (simp add: on_top_def)
  moreover have "pos_of (on_top f st1) = pos_of st1" for f st1 by (simp add: pos_of_def on_top_def map_stack_def)
  ultimately show ?thesis using Ok
    by (simp add: visitAlloca_i_def answering_reads answering_state Let_def updateDataDepsEvent_def next_pos_of flip: pos_of_def)
qed (simp_all add: visitAlloca_i_def answering_reads)

definition free_events :: "EventDeps option \<Rightarrow> SAddr list \<Rightarrow> Orc IState \<Rightarrow> Orc IState" where
  "free_events d as st = fold (\<lambda>a st. event_at (FreeLabel EL_Free (next_ev (pos_of st)) a 0) d st) as st"

lemma free_events_simps [simp]: "isDeps (free_events d as st) = isDeps st" "thrId (thread_of (free_events d as st)) = thrId (thread_of st)"
  "stack_of (free_events d as st) = stack_of st" "oTls (isDrv (free_events d as st)) = oTls (isDrv st)"
  by (induction as arbitrary: st) (simp_all add: free_events_def)

lemma freeAllocas_answering:
  "freeAllocas ((interp_EE (answering rv al X) d)\<lparr>eeReturn := g\<rparr>) as (isDrv st) = Ok (isDrv (free_events d as st))"
proof (induction as arbitrary: st)
  case (Cons a as)
  have "next_pos ((interp_EE (answering rv al X) d)\<lparr>eeReturn := g\<rparr>) (isDrv st) = Ok (next_ev (pos_of st))"
    by (simp add: next_pos_def cur_pos_def pos_of_def)
  then show ?case using Cons [of "event_at (FreeLabel EL_Free (next_ev (pos_of st)) a 0) d st"]
    by (simp add: freeAllocas_def free_events_def) (simp add: event_at_def)
qed (simp add: freeAllocas_def free_events_def)

definition popped :: "GenVal \<Rightarrow> Orc IState \<Rightarrow> Orc IState" where
  "popped v st = (let st1 = map_stack butlast (free_events (deps_of None None True None st) (Allocas (last (stack_of st))) st) in
     if stack_of st1 \<noteq> [] then on_top (frame_return v) st1 else event_at (ThreadFinishLabel (next_ev (pos_of st1))) None st1)"

lemma pop_stack_answering: "pop_stack (answering rv al X) v st = (if stack_of st = [] then Undef else Ok (popped v st))"
proof (cases "stack_of st = []")
  case False
  let ?d = "deps_of None None True None st"
  let ?I = "(interp_EE (answering rv al X) ?d)\<lparr>eeReturn := \<lambda>_. frame_return v\<rparr>"
  let ?f = "free_events ?d (Allocas (last (stack_of st))) st"
  have pop: "(isDrv s)\<lparr>oThread := pop_frame (thread_of s)\<rparr> = isDrv (map_stack butlast s)" for s :: "Orc IState"
    by (simp add: map_stack_def pop_frame_def)
  have [simp]: "ecStack (pop_frame t) = butlast (ecStack t)" for t :: "Frame Thread" by (simp add: pop_frame_def)
  have "popStackAndReturnValueToCaller ?I gv_default (isDrv st) = Ok (isDrv (popped v st))"
  proof (cases "butlast (stack_of st) = []")
    case True
    have "next_pos ?I (isDrv (map_stack butlast ?f)) = Ok (next_ev (pos_of (map_stack butlast ?f)))"
      by (simp add: next_pos_def cur_pos_def pos_of_def)
    with False True show ?thesis
      by (simp add: popStackAndReturnValueToCaller_def freeAllocas_answering pop popped_def Let_def) (simp add: event_at_def)
  next
    case ne: False
    with False show ?thesis
      by (simp add: popStackAndReturnValueToCaller_def freeAllocas_answering pop popped_def Let_def returnValueToCaller_def)
        (simp add: on_top_def map_stack_def)
  qed
  moreover have "isDeps (popped v st) = isDeps st" by (simp add: popped_def Let_def on_top_def)
  ultimately show ?thesis using False
    by (simp add: pop_stack_def answering_reads on_drv_state_def with_isDrv)
qed (simp add: pop_stack_def answering_reads on_drv_state_def popStackAndReturnValueToCaller_def)

definition return_regs :: "Orc IState \<Rightarrow> nat list" where
  "return_regs st = (case butlast (stack_of st) of [] \<Rightarrow> []
     | fs \<Rightarrow> (case Caller (last fs) of None \<Rightarrow> [] | Some c \<Rightarrow> if caVoid c then [] else [caReg c]))"

lemma return_deps_answering:
  "return_deps (answering rv al X) v st = on_tracker (answering rv al X) (\<lambda>tid. rfold (\<lambda>r. dt_updateDataDeps tid (VReg r) v) (return_regs st)) st"
proof -
  have [simp]: "rfold f [] = Ok" for f :: "nat \<Rightarrow> Orc IState \<Rightarrow> Orc IState res" by (simp add: fun_eq_iff)
  have "return_deps (answering rv al X) v st = rfold (\<lambda>r. on_tracker (answering rv al X) (\<lambda>tid. dt_updateDataDeps tid (VReg r) v)) (return_regs st) st"
    by (simp add: return_deps_def return_regs_def answering_state updates_tracker split: list.splits option.splits)
  then show ?thesis by (simp add: rfold_on_tracker [of rv al X "\<lambda>r tid. dt_updateDataDeps tid (VReg r) v"])
qed

lemma marks_answering:
  "visit_end (answering rv al X) st = Ok (event_at (FunEndLabel (next_ev (pos_of st))) (deps_of None None True None st) st)"
  "visit_start (answering rv al X) nm st = Ok (event_at ((FunStartLabel (next_ev (pos_of st)))\<lparr>lmethod := nm\<rparr>) (deps_of None None True None st) st)"
  by (simp_all add: visit_end_def visit_start_def answering_reads pos_of_def on_drv_state_def event_at_def) (simp_all add: answering_def)

definition blocked_by :: "BlockageType \<Rightarrow> Orc IState \<Rightarrow> Orc IState" where
  "blocked_by b st = st\<lparr>isDrv := (isDrv st)\<lparr>oThread := thr_block b (thread_of st)\<rparr>\<rparr>"

lemma callAssume_answering:
  assumes "internalFunNames (fnName (moFun (inMod X) f)) = Some IF_Assume"
  shows "callFunction (answering rv al X) f args special st = rbind (vec_get args 0) (\<lambda>v.
    Ok (if gv_bool (gv_scalar v) then st else event_at (BlockLabel (next_ev (pos_of st)) BT_User) None (blocked_by BT_User st)))"
  using assms
  by (cases args) (simp_all add: callFunction_def Let_def internal_deps_def isMutexCode_def isBarrierCode_def callInternalFunction_def on_drv_state_def
      callAssume_def bool_arg_def vec_get_def visit_label_def event_at_def blocked_by_def pos_of_def thr_block_def BlockLabel_def)

end
