(* ===== verification/GenMC_DepRel.thy ===== *)
theory GenMC_DepRel
  imports GenMC_Oracle
begin

text \<open>
  The relation between two runs of a thread on an oracle (\<open>GenMC_Oracle\<close>) whose answers differ at one read: the same events
  and registers, apart from those that depend on the read as the tracker of dependencies records it
  (\<open>src/src/DepTracker.hpp\<close>). Which instructions have their dependencies tracked, how the relation is kept by the steps of the
  state, and that along a run the tracker grows and the events stay. \<open>GenMC_DepProps\<close> shows that the runs stay related.
\<close>

section \<open>The instructions whose dependencies are tracked\<close>

text \<open>An operand is a register, or a constant that reads none.\<close>

definition opnd :: "Val \<Rightarrow> bool" where
  "opnd v \<longleftrightarrow> (case v of VReg r \<Rightarrow> True | _ \<Rightarrow> regs_of v = {})"

definition tracked_fun :: "Fun \<Rightarrow> bool" where
  "tracked_fun F \<longleftrightarrow> (case internalFunNames (fnName F) of Some c \<Rightarrow> c = IF_Assume | None \<Rightarrow> \<not> fnDecl F)"

definition tracked_call :: "Module \<Rightarrow> Lib \<Rightarrow> CallInst \<Rightarrow> bool" where
  "tracked_call M L c \<longleftrightarrow> regs_of (caFun c) = {} \<and> list_all opnd (caArgs c)
     \<and> (case getOperandValue L (\<lambda>_. GenVal_default) (caFun c) of Ok g \<Rightarrow> tracked_fun (moFun M (unat (PointerVal g))) | _ \<Rightarrow> True)"

fun tracked :: "Module \<Rightarrow> Lib \<Rightarrow> Instr \<Rightarrow> bool" where
  "tracked M L (I_ICmp p ty a b) \<longleftrightarrow> list_all opnd [a, b]"
| "tracked M L (I_Binary op ty a b) \<longleftrightarrow> list_all opnd [a, b]"
| "tracked M L (I_Shift op ty a b) \<longleftrightarrow> list_all opnd [a, b]"
| "tracked M L (I_Select ty c a b) \<longleftrightarrow> list_all opnd [c, a, b]"
| "tracked M L (I_Ext op ty w a) \<longleftrightarrow> opnd a"
| "tracked M L (I_PtrToInt w a) \<longleftrightarrow> opnd a"
| "tracked M L (I_IntToPtr a) \<longleftrightarrow> opnd a"
| "tracked M L (I_BitCast src dst a) \<longleftrightarrow> opnd a"
| "tracked M L (I_Gep sts p idx) \<longleftrightarrow> list_all opnd (p # idx)"
| "tracked M L (I_ExtractValue ty is a) \<longleftrightarrow> opnd a"
| "tracked M L (I_InsertValue ty is a v) \<longleftrightarrow> False"
| "tracked M L (I_ExtractElement t a i) \<longleftrightarrow> False"
| "tracked M L (I_InsertElement t a v i) \<longleftrightarrow> False"
| "tracked M L (I_ShuffleVector t a b m) \<longleftrightarrow> False"
| "tracked M L (I_Br d) \<longleftrightarrow> True"
| "tracked M L (I_CondBr c d0 d1) \<longleftrightarrow> opnd c"
| "tracked M L (I_Switch ty c cs d) \<longleftrightarrow> opnd c \<and> list_all (\<lambda>x. regs_of (fst x) = {}) cs"
| "tracked M L (I_IndirectBr a) \<longleftrightarrow> opnd a"
| "tracked M L (I_Phi inc) \<longleftrightarrow> list_all (\<lambda>x. opnd (snd x)) inc"
| "tracked M L (I_Ret v) \<longleftrightarrow> (case v of None \<Rightarrow> True | Some v \<Rightarrow> opnd v)"
| "tracked M L I_Unreachable \<longleftrightarrow> True"
| "tracked M L (I_Load md ord typ ptr) \<longleftrightarrow> opnd ptr"
| "tracked M L (I_Store md ord typ v ptr) \<longleftrightarrow> list_all opnd [v, ptr]"
| "tracked M L (I_Fence ord) \<longleftrightarrow> True"
| "tracked M L (I_CmpXchg md ord typ ptr cmp new) \<longleftrightarrow> list_all opnd [ptr, cmp, new]"
| "tracked M L (I_RMW md ord op typ ptr v) \<longleftrightarrow> list_all opnd [ptr, v]"
| "tracked M L (I_Alloca ty al n) \<longleftrightarrow> opnd n"
| "tracked M L (I_Call c) \<longleftrightarrow> tracked_call M L c"

definition tracked_module :: "Module \<Rightarrow> Lib \<Rightarrow> bool" where
  "tracked_module M L \<longleftrightarrow> (\<forall>b. list_all (\<lambda>it. tracked M L (itInstr it)) (moBlock M b))"

section \<open>Runs that differ in the answer to one read\<close>

text \<open>After a read-modify-write operation the tracker records the position of the write, which in the models depends on
  the read before it. So what stands for a read is a set of events: the read and, when it is part of such an operation, the
  event after it.\<close>

definition hits :: "Event set \<Rightarrow> DepInfo \<Rightarrow> bool" where
  "hits E d \<longleftrightarrow> (\<exists>x\<in>set d. x \<in> E)"

definition fai_read :: "Event \<Rightarrow> EventLabel \<times> EventDeps option \<Rightarrow> bool" where
  "fai_read e = (\<lambda>(l, d). lkind l \<in> {EL_FaiRead, EL_NoRetFaiRead} \<and> lpos l = e)"

definition sources :: "Event \<Rightarrow> Orc IState \<Rightarrow> Event set" where
  "sources e st = (if list_ex (fai_read e) (trace_of st) then {e, next_ev e} else {e})"

definition depends :: "(EventDeps \<Rightarrow> DepInfo) \<Rightarrow> EventDeps option \<Rightarrow> Event set \<Rightarrow> bool" where
  "depends f d E \<longleftrightarrow> (case d of None \<Rightarrow> False | Some x \<Rightarrow> hits E (f x))"

text \<open>The write of a read-modify-write operation depends on its own read; and the dependencies of an allocation do not
  include those of its size.\<close>

definition rmw_write :: "Event \<Rightarrow> EventLabel \<Rightarrow> bool" where
  "rmw_write e l \<longleftrightarrow> lkind l \<in> {EL_FaiWrite, EL_NoRetFaiWrite} \<and> lpos l = next_ev e"

definition same_event :: "Event set \<Rightarrow> Event \<Rightarrow> EventLabel \<times> EventDeps option \<Rightarrow> EventLabel \<times> EventDeps option \<Rightarrow> bool" where
  "same_event E e = (\<lambda>(l1, d1) (l2, d2). d2 = d1
     \<and> l2 = l1\<lparr>laddr := laddr l2, lval := lval l2, lopVal := lopVal l2, lexpected := lexpected l2, lswapVal := lswapVal l2,
         lallocSize := lallocSize l2\<rparr>
     \<and> (depends dep_addr d1 E \<or> laddr l2 = laddr l1)
     \<and> (depends dep_data d1 E \<or> rmw_write e l1 \<or> lval l2 = lval l1)
     \<and> (depends dep_data d1 E \<or> lopVal l2 = lopVal l1 \<and> lswapVal l2 = lswapVal l1)
     \<and> (depends dep_cas d1 E \<or> lexpected l2 = lexpected l1))"

text \<open>Two frames agree on the registers that do not depend on the read.\<close>

definition same_frame :: "Event set \<Rightarrow> (Val \<Rightarrow> DepInfo) \<Rightarrow> Frame \<Rightarrow> Frame \<Rightarrow> bool" where
  "same_frame E D F G \<longleftrightarrow> G = F\<lparr>Values := Values G, VarArgs := VarArgs G\<rparr> \<and> (\<forall>r. hits E (D (VReg r)) \<or> Values G r = Values F r)"

text \<open>The control depends on the read: a branch does, or a compare-and-exchange that reads there or compares with what
  was read there.\<close>

definition cas_on :: "Event set \<Rightarrow> EventLabel \<times> EventDeps option \<Rightarrow> bool" where
  "cas_on E = (\<lambda>(l, d). lkind l \<in> {EL_CasRead, EL_HelpedCasRead, EL_ConfirmingCasRead} \<and> (lpos l \<in> E \<or> depends dep_cas d E))"

definition decides :: "Event set \<Rightarrow> Orc IState \<Rightarrow> bool" where
  "decides E st \<longleftrightarrow> (case isDeps st of None \<Rightarrow> False | Some T \<Rightarrow> hits E (ctrlDeps T (thrId (thread_of st)))) \<or> list_ex (cas_on E) (trace_of st)"

definition stands_for :: "Event \<Rightarrow> Event set \<Rightarrow> Orc IState \<Rightarrow> bool" where
  "stands_for e E st \<longleftrightarrow> e \<in> E \<and> (list_ex (fai_read e) (trace_of st) \<longrightarrow> next_ev e \<in> E)"

definition related :: "Event set \<Rightarrow> Event \<Rightarrow> DepTracker \<Rightarrow> Orc IState \<Rightarrow> Orc IState \<Rightarrow> bool" where
  "related E e T st1 st2 \<longleftrightarrow> isDeps st1 = Some T \<and> isDeps st2 = Some T \<and> tracker_ok T \<and> no_tls st1 \<and> no_tls st2
     \<and> thread_of st2 = (thread_of st1)\<lparr>ecStack := stack_of st2\<rparr>
     \<and> list_all2 (same_frame E (dataDeps T (thrId (thread_of st1)))) (stack_of st1) (stack_of st2)
     \<and> list_all2 (same_event E e) (trace_of st1) (trace_of st2)"

lemma hits_mono: "hits E d \<Longrightarrow> set d \<subseteq> set d' \<Longrightarrow> hits E d'"
  by (auto simp: hits_def)

lemma same_frame_refl: "same_frame E D F F"
  by (simp add: same_frame_def)

lemma same_event_refl: "same_event E e x x"
  by (simp add: same_event_def split_beta)

lemma same_frame_mono: "same_frame E D F G \<Longrightarrow> (\<And>v. set (D v) \<subseteq> set (D' v)) \<Longrightarrow> same_frame E D' F G"
  unfolding same_frame_def using hits_mono by blast

lemma same_frame_SetValue:
  "same_frame E D F G \<Longrightarrow> hits E (D (VReg r)) \<or> w = v \<Longrightarrow> same_frame E D (SetValue r v F) (SetValue r w G)"
  by (cases F; cases G) (auto simp: same_frame_def SetValue_def)

lemma relatedD:
  assumes "related E e T st1 st2"
  shows "isDeps st1 = Some T" "isDeps st2 = Some T" "tracker_ok T" "no_tls st1" "no_tls st2" "thrId (thread_of st2) = thrId (thread_of st1)"
    "thrBlocked (thread_of st2) = thrBlocked (thread_of st1)" "pos_of st2 = pos_of st1" "stack_of st2 = [] \<longleftrightarrow> stack_of st1 = []"
    "deps_of a d po c st2 = deps_of a d po c st1"
proof -
  have t: "thread_of st2 = (thread_of st1)\<lparr>ecStack := stack_of st2\<rparr>" using assms by (simp add: related_def)
  show id: "thrId (thread_of st2) = thrId (thread_of st1)" "thrBlocked (thread_of st2) = thrBlocked (thread_of st1)"
    by (subst t, simp)+
  have "globalInstructions (thread_of st2) = globalInstructions (thread_of st1)" by (subst t, simp)
  with id show "pos_of st2 = pos_of st1" by (simp add: pos_of_def)
  show "stack_of st2 = [] \<longleftrightarrow> stack_of st1 = []" using assms by (auto simp: related_def)
  show "isDeps st1 = Some T" "isDeps st2 = Some T" "tracker_ok T" "no_tls st1" "no_tls st2" using assms by (simp_all add: related_def)
  then show "deps_of a d po c st2 = deps_of a d po c st1" using id by (simp add: deps_of_def)
qed

lemma list_all2_last: "list_all2 P xs ys \<Longrightarrow> xs \<noteq> [] \<Longrightarrow> P (last xs) (last ys)"
  by (induction rule: list_all2_induct) auto

lemma list_all2_butlast: "list_all2 P xs ys \<Longrightarrow> list_all2 P (butlast xs) (butlast ys)"
  by (induction rule: list_all2_induct) auto

lemma related_last: "related E e T st1 st2 \<Longrightarrow> same_frame E (dataDeps T (thrId (thread_of st1))) (last (stack_of st1)) (last (stack_of st2))"
  by (cases "stack_of st1 = []") (auto simp: related_def same_frame_refl list_all2_last)

lemma related_stack:
  assumes "related E e T st1 st2"
    and "list_all2 (same_frame E (dataDeps T (thrId (thread_of st1)))) (f (stack_of st1)) (g (stack_of st2))"
  shows "related E e T (map_stack f st1) (map_stack g st2)"
proof -
  have t: "thread_of st2 = (thread_of st1)\<lparr>ecStack := stack_of st2\<rparr>" using assms by (simp add: related_def)
  have "thread_of (map_stack g st2) = (thread_of (map_stack f st1))\<lparr>ecStack := stack_of (map_stack g st2)\<rparr>"
    by (simp add: map_stack_def) (subst t, simp)
  with assms show ?thesis by (simp add: related_def no_tls_def)
qed

lemma related_top:
  assumes r: "related E e T st1 st2"
    and g: "\<And>F G. same_frame E (dataDeps T (thrId (thread_of st1))) F G \<Longrightarrow> same_frame E (dataDeps T (thrId (thread_of st1))) (f F) (g G)"
  shows "related E e T (on_top f st1) (on_top g st2)"
  unfolding on_top_def using r
  by (intro related_stack) (auto intro!: list_all2_appendI list_all2_butlast g related_last simp: related_def)

lemma related_set:
  "related E e T st1 st2 \<Longrightarrow> hits E (dataDeps T (thrId (thread_of st1)) (VReg r)) \<or> w = v \<Longrightarrow>
    related E e T (on_top (SetValue r v) st1) (on_top (SetValue r w) st2)"
  by (auto intro: related_top same_frame_SetValue)

lemma related_event:
  assumes "related E e T st1 st2" and "same_event E e (l, d) (m, d)"
  shows "related E e T (event_at l d st1) (event_at m d st2)"
proof -
  have t: "thread_of st2 = (thread_of st1)\<lparr>ecStack := stack_of st2\<rparr>" using assms by (simp add: related_def)
  have "thread_of (event_at m d st2) = (thread_of (event_at l d st1))\<lparr>ecStack := stack_of (event_at m d st2)\<rparr>"
    by (simp add: event_at_def emit_def) (subst (1 2) t, simp)
  with assms show ?thesis by (simp add: related_def no_tls_def list_all2_appendI)
qed

lemma related_tracker:
  assumes r: "related E e T st1 st2" and f: "dt_grow (f (thrId (thread_of st1)))"
    and "on_tracker (answering rv al X) f st1 = Ok u1" and "on_tracker (answering rv' al X) f st2 = Ok u2"
  obtains U where "f (thrId (thread_of st1)) T = Ok U" "dt_le T U" "related E e U u1 u2" "u1 = st1\<lparr>isDeps := Some U\<rparr>" "u2 = st2\<lparr>isDeps := Some U\<rparr>"
proof -
  note d = relatedD [OF r]
  from assms(3) obtain U where U: "f (thrId (thread_of st1)) T = Ok U" "u1 = st1\<lparr>isDeps := Some U\<rparr>"
    by (auto simp: answering_tracker d res_simps)
  with assms(4) have u2: "u2 = st2\<lparr>isDeps := Some U\<rparr>" by (simp add: answering_tracker d)
  from f d(3) U(1) have le: "dt_le T U" by (simp add: dt_grow_def)
  have "list_all2 (same_frame E (dataDeps T (thrId (thread_of st1)))) (stack_of st1) (stack_of st2)"
    using r by (simp add: related_def)
  then have "list_all2 (same_frame E (dataDeps U (thrId (thread_of st1)))) (stack_of st1) (stack_of st2)"
    by (rule list_all2_mono) (rule same_frame_mono [OF _ dt_leD(2) [OF le]])
  with r U(2) u2 le have "related E e U u1 u2" by (simp add: related_def no_tls_def dt_leD(1))
  with U u2 le that show thesis by blast
qed

lemma related_operand:
  assumes r: "related E e T st1 st2" and "opnd v" and "\<not> hits E (dataDeps T (thrId (thread_of st1)) v)"
  shows "operand L st2 v = operand L st1 v"
proof -
  have "Values (last (stack_of st2)) x = Values (last (stack_of st1)) x" if "x \<in> regs_of v" for x
    using related_last [OF r] that assms(2,3) by (cases v) (auto simp: same_frame_def opnd_def)
  then have "getOperandValue L (Values (last (stack_of st2))) v = getOperandValue L (Values (last (stack_of st1))) v"
    by (rule getOperandValue_cong)
  with relatedD(9) [OF r] show ?thesis by (simp add: operand_def)
qed

lemma related_constant:
  assumes r: "related E e T st1 st2" and "regs_of v = {}"
  shows "operand L st2 v = operand L st1 v"
proof -
  have "getOperandValue L (Values (last (stack_of st2))) v = getOperandValue L (Values (last (stack_of st1))) v"
    by (rule getOperandValue_cong) (simp add: assms(2))
  with relatedD(9) [OF r] show ?thesis by (simp add: operand_def)
qed

section \<open>One run: the tracker grows and the events stay\<close>

definition grows :: "Orc IState \<Rightarrow> Orc IState \<Rightarrow> bool" where
  "grows st st' \<longleftrightarrow> (\<forall>T. isDeps st = Some T \<longrightarrow> tracker_ok T \<longrightarrow> no_tls st \<longrightarrow>
     (\<exists>U. isDeps st' = Some U \<and> dt_le T U) \<and> no_tls st' \<and> thrId (thread_of st') = thrId (thread_of st) \<and> set (trace_of st) \<subseteq> set (trace_of st'))"

lemma grows_refl: "grows st st"
  by (simp add: grows_def dt_le_refl)

lemma growsD:
  assumes "grows st st'" and "isDeps st = Some T" and "tracker_ok T" and "no_tls st"
  obtains U where "isDeps st' = Some U" "dt_le T U" "tracker_ok U" "no_tls st'" "thrId (thread_of st') = thrId (thread_of st)"
    "set (trace_of st) \<subseteq> set (trace_of st')"
  using assms that unfolding grows_def by (metis dt_leD(1))

lemma grows_trans:
  assumes "grows s1 s2" and "grows s2 s3"
  shows "grows s1 s3"
  unfolding grows_def
proof (intro allI impI)
  fix T assume T: "isDeps s1 = Some T" "tracker_ok T" "no_tls s1"
  from growsD [OF assms(1) T] obtain U where U: "isDeps s2 = Some U" "dt_le T U" "tracker_ok U" "no_tls s2"
    "thrId (thread_of s2) = thrId (thread_of s1)" "set (trace_of s1) \<subseteq> set (trace_of s2)" .
  from growsD [OF assms(2) U(1,3,4)] obtain V where "isDeps s3 = Some V" "dt_le U V" "no_tls s3"
    "thrId (thread_of s3) = thrId (thread_of s2)" "set (trace_of s2) \<subseteq> set (trace_of s3)" .
  with U show "(\<exists>U. isDeps s3 = Some U \<and> dt_le T U) \<and> no_tls s3 \<and> thrId (thread_of s3) = thrId (thread_of s1) \<and> set (trace_of s1) \<subseteq> set (trace_of s3)"
    using dt_le_trans by auto
qed

lemma grows_event: "grows st (event_at l d st)" and grows_stack: "grows st (map_stack f st)" and grows_snap: "grows st (snap st)"
  by (auto simp: grows_def no_tls_def dt_le_refl)

lemma grows_top: "grows st (on_top f st)"
  unfolding on_top_def by (rule grows_stack)

lemma grows_blocked: "grows st (blocked_by b st)"
  by (simp add: grows_def no_tls_def dt_le_refl blocked_by_def thr_block_def)

lemma grows_free: "grows st (free_events d as st)"
proof (induction as arbitrary: st)
  case (Cons a as)
  from grows_trans [OF grows_event Cons] show ?case by (simp add: free_events_def)
qed (simp add: free_events_def grows_refl)

lemma grows_tracker: "(\<And>tid. dt_grow (f tid)) \<Longrightarrow> on_tracker (answering rv al X) f st = Ok st' \<Longrightarrow> grows st st'"
  by (auto simp: grows_def answering_tracker res_simps dt_grow_def no_tls_def)

lemma decides_grows:
  assumes "grows st st'" and "decides E st" and "isDeps st = Some T" and "tracker_ok T" and "no_tls st"
  shows "decides E st'"
proof -
  from growsD [OF assms(1,3,4,5)] obtain U where "isDeps st' = Some U" "dt_le T U" "thrId (thread_of st') = thrId (thread_of st)"
    "set (trace_of st) \<subseteq> set (trace_of st')" .
  moreover then have "set (ctrlDeps T (thrId (thread_of st))) \<subseteq> set (ctrlDeps U (thrId (thread_of st)))" by (blast dest: dt_leD(3))
  ultimately show ?thesis using assms(2,3) hits_mono by (auto simp: decides_def list_ex_iff)
qed

lemma dt_grows:
  "dt_grow (rfold (dt_updateDataDeps tid (VReg r)) ws)" "dt_grow (rfold (\<lambda>(p, a). dt_updateDataDeps tid (VReg p) a) pas)"
  "dt_grow (rfold (dt_updateCtrlDeps tid) ws)" "dt_grow (dt_updateAddrPoDeps tid v)" "dt_grow (dt_updateCtrlDeps tid v)"
  "dt_grow (dt_addData tid w (depinfo_of p))"
  using dt_addData_le [OF _ ssorted_depinfo_of(1)]
  by (simp_all add: dt_grow_def rfold_result_le rfold_data_le rfold_ctrl_le dt_updateAddrPoDeps_le dt_updateCtrlDeps_le)

lemma dt_grow_phis: "dt_grow (rfold (\<lambda>(p, a, x). dt_updateDataDeps tid (VReg p) a) pax)"
proof -
  have "rfold (\<lambda>(p, a, x). dt_updateDataDeps tid (VReg p) a) pax T = rfold (\<lambda>(p, a). dt_updateDataDeps tid (VReg p) a) (map (\<lambda>(p, a, x). (p, a)) pax) T"
    for T by (induction pax arbitrary: T) (auto intro: rbind_fundef_cong)
  then show ?thesis using dt_grows(2) by (simp add: dt_grow_def)
qed

lemma rfold_map: "rfold f (map g xs) = rfold (\<lambda>x. f (g x)) xs"
proof
  show "rfold f (map g xs) s = rfold (\<lambda>x. f (g x)) xs s" for s
    by (induction xs arbitrary: s) (auto intro: rbind_fundef_cong)
qed

lemma dt_grow_returns: "dt_grow (rfold (\<lambda>r. dt_updateDataDeps tid (VReg r) v) rs)"
  unfolding dt_grow_def
proof (intro allI impI)
  fix T U assume T: "tracker_ok T" and "rfold (\<lambda>r. dt_updateDataDeps tid (VReg r) v) rs T = Ok U"
  then show "dt_le T U"
    using rfold_data_le [of T tid "map (\<lambda>r. (r, v)) rs" U] by (simp add: rfold_map)
qed

lemma dt_grow_accessed: "dt_grow (accessed r ptr tid p)"
  unfolding dt_grow_def
proof (intro allI impI)
  fix T U assume T: "tracker_ok T" and "accessed r ptr tid p T = Ok U"
  then obtain V where "dt_addData tid (VReg r) (depinfo_of p) T = Ok V" "dt_updateAddrPoDeps tid ptr V = Ok U"
    by (auto simp: accessed_def res_simps)
  with T show "dt_le T U" using dt_grows(4,6) dt_le_trans dt_leD(1) unfolding dt_grow_def by blast
qed

lemma grows_tracker_top:
  assumes "on_tracker (answering rv al X) f st = Ok st1" and "\<And>tid. dt_grow (f tid)"
  shows "grows st (on_top g st1)"
  by (rule grows_trans [OF grows_tracker [OF assms(2,1)] grows_top])

lemma visit_value_grows:
  assumes "visit_value (answering rv al X) r ops deps f st = Ok st'"
  shows "grows st st'"
proof -
  from assms obtain v st1 where "on_tracker (answering rv al X) (\<lambda>tid. rfold (dt_updateDataDeps tid (VReg r)) deps) st = Ok st1"
    "st' = on_top (SetValue r v) st1"
    by (auto simp: visit_value_def res_simps answering_state answering_updates)
  then show ?thesis by (auto intro: grows_tracker_top dt_grows)
qed

lemma switch_grows:
  assumes "SwitchToNewBasicBlock (answering rv al X) dest st = Ok st'"
  shows "grows st st'"
proof -
  let ?n = "length (phi_nodes (moBlock (inMod X) dest))"
  from assms obtain rs st1 where "on_tracker (answering rv al X) (\<lambda>tid. rfold (\<lambda>(p, a, x). dt_updateDataDeps tid (VReg p) a) rs) st = Ok st1"
    "st' = on_top (\<lambda>F. fold (\<lambda>(r, v, x). SetValue r x) rs (F\<lparr>CurBB := dest, CurInst := ?n\<rparr>)) st1"
    by (auto simp: SwitchToNewBasicBlock_def Let_def res_simps answering_state answering_updates split: if_splits)
  then show ?thesis by (auto intro: grows_tracker_top dt_grow_phis)
qed

lemma ctrl_grows: "updateCtrlDeps (answering rv al X) v st = Ok st' \<Longrightarrow> grows st st'"
  by (rule grows_tracker [of "\<lambda>tid. dt_updateCtrlDeps tid v"]) (simp_all add: updateCtrlDeps_def dt_grows)

lemma addrPo_grows: "updateAddrPoDeps (answering rv al X) v st = Ok st' \<Longrightarrow> grows st st'"
  by (rule grows_tracker [of "\<lambda>tid. dt_updateAddrPoDeps tid v"]) (simp_all add: updateAddrPoDeps_def dt_grows)

lemma access_grows:
  assumes "after_access (answering rv al X) r ptr v st = Ok st'"
  shows "grows st st'"
proof -
  from assms obtain st1 where "on_tracker (answering rv al X) (\<lambda>tid. accessed r ptr tid (pos_of st)) st = Ok st1" "st' = on_top (SetValue r v) st1"
    by (auto simp: after_access_answering res_simps)
  then show ?thesis by (auto intro: grows_tracker_top dt_grow_accessed)
qed

lemma popped_grows: "grows st (popped v st)"
proof -
  have "grows st (map_stack butlast (free_events (deps_of None None True None st) (Allocas (last (stack_of st))) st))"
    by (rule grows_trans [OF grows_free grows_stack])
  then show ?thesis unfolding popped_def Let_def using grows_trans [OF _ grows_top] grows_trans [OF _ grows_event] by (simp split: if_split)
qed

lemma return_grows:
  assumes "visitReturnInst (answering rv al X) v st = Ok st'"
  shows "grows st st'"
proof (cases v)
  case None
  with assms show ?thesis by (auto simp: visitReturnInst_def pop_stack_answering popped_grows split: if_splits)
next
  case (Some w)
  with assms obtain x st1 where "return_deps (answering rv al X) w st = Ok st1" "st' = popped x st1"
    by (auto simp: visitReturnInst_def pop_stack_answering res_simps split: if_splits)
  then show ?thesis unfolding return_deps_answering by (auto intro: grows_trans [OF grows_tracker popped_grows] dt_grow_returns)
qed

lemma cas_events_grow: "cas_events I rv md ord typ cmp new a ld sd kr kw st = Ok (b, st') \<Longrightarrow> grows st st'"
  by (auto simp: cas_events_def Let_def res_simps intro: grows_trans [OF grows_event] grows_event split: if_splits)

lemma cas_grows:
  assumes "no_tls st" and "visitCmpXchg_i (answering rv al X) r md ord typ ptr cmp new st = Ok st'"
  shows "grows st st'"
proof -
  from assms(2) obtain v st1 where "grows (snap st) st1" "after_access (answering rv al X) r ptr v st1 = Ok st'"
    unfolding visitCmpXchg_answering [OF assms(1)] Let_def
    by (auto simp: res_simps dest: cas_events_grow intro: grows_event split: if_splits)
  then show ?thesis using grows_trans [OF grows_snap grows_trans [OF _ access_grows]] by blast
qed

lemma rmw_grows:
  assumes "no_tls st" and "visitRMW_i (answering rv al X) r md ord op typ ptr v st = Ok st'"
  shows "grows st st'"
proof -
  from assms(2) obtain w st1 where "after_access (answering rv al X) r ptr w st1 = Ok st'" "grows st st1"
    unfolding visitRMW_answering [OF assms(1)] Let_def
    by (fastforce simp: res_simps intro: grows_event grows_trans [OF grows_event grows_event] split: if_splits prod.splits)
  then show ?thesis using grows_trans access_grows by blast
qed

lemma alloca_grows:
  assumes "visitAlloca_i (answering rv al X) r ty alg n st = Ok st'"
  shows "grows st st'"
proof -
  from assms have ne: "stack_of st \<noteq> []" by (auto simp: visitAlloca_i_def answering_reads operand_def)
  let ?p = "next_ev (pos_of st)"
  from assms obtain l st1 where "on_tracker (answering rv al X) (\<lambda>tid. dt_addData tid (VReg r) (depinfo_of ?p))
      (on_top (\<lambda>F. F\<lparr>Allocas := Allocas F @ [al ?p]\<rparr>) (event_at l (deps_of None None True None st) st)) = Ok st1"
    "st' = on_top (SetValue r (GenVal (SVAL_TO_GV (al ?p) PtrTy) [])) st1"
    unfolding visitAlloca_answering [OF ne] Let_def by (auto simp: res_simps)
  then show ?thesis by (auto intro: grows_trans [OF grows_event grows_trans [OF grows_top grows_tracker_top]] dt_grows)
qed

lemma fun_args_cases:
  assumes "updateFunArgDeps (answering rv al X) F args st = Ok (special, st')" and "tracked_fun F"
  shows "internalFunNames (fnName F) = None \<and> isDeps st = None \<and> st' = st
    \<or> internalFunNames (fnName F) = None \<and> on_tracker (answering rv al X)
      (\<lambda>tid. rfold (\<lambda>(p, a). dt_updateDataDeps tid (VReg p) a) (zip (fnArgs F) args)) st = Ok st'
    \<or> internalFunNames (fnName F) = Some IF_Assume \<and> isDeps st = None \<and> st' = st
    \<or> internalFunNames (fnName F) = Some IF_Assume \<and> on_tracker (answering rv al X) (\<lambda>tid. rfold (dt_updateCtrlDeps tid) args) st = Ok st'"
  using assms by (auto simp: updateFunArgDeps_def tracked_fun_def answering_updates res_simps split: if_splits option.splits)

lemma fun_args_tracked:
  assumes "updateFunArgDeps (answering rv al X) F args st = Ok (special, st')" and "tracked_fun F" and "isDeps st \<noteq> None"
  shows "internalFunNames (fnName F) = None \<or> internalFunNames (fnName F) = Some IF_Assume"
    and "internalFunNames (fnName F) = None \<Longrightarrow> on_tracker (answering rv al X)
      (\<lambda>tid. rfold (\<lambda>(p, a). dt_updateDataDeps tid (VReg p) a) (zip (fnArgs F) args)) st = Ok st'"
    and "internalFunNames (fnName F) = Some IF_Assume \<Longrightarrow> on_tracker (answering rv al X) (\<lambda>tid. rfold (dt_updateCtrlDeps tid) args) st = Ok st'"
  using fun_args_cases [OF assms(1,2)] assms(3) by auto

lemma fun_args_grows:
  assumes "updateFunArgDeps (answering rv al X) F args st = Ok (special, st')" and "tracked_fun F"
  shows "grows st st'"
  using fun_args_cases [OF assms] by (auto intro: grows_tracker dt_grows grows_refl)

lemma callFunction_tracked:
  assumes "tracked_fun (moFun (inMod X) f)" and "callFunction (answering rv al X) f args special st = Ok st'"
  obtains "internalFunNames (fnName (moFun (inMod X) f)) = None" "\<not> fnDecl (moFun (inMod X) f)"
      "st' = map_stack (\<lambda>fs. fs @ [call_frame f (moFun (inMod X) f) args]) st"
    | "internalFunNames (fnName (moFun (inMod X) f)) = Some IF_Assume" "args \<noteq> []"
      "st' = (if gv_bool (gv_scalar (hd args)) then st else event_at (BlockLabel (next_ev (pos_of st)) BT_User) None (blocked_by BT_User st))"
proof (cases "internalFunNames (fnName (moFun (inMod X) f))")
  case None
  with assms that(1) show ?thesis
    by (auto simp: callFunction_def Let_def tracked_fun_def push_frame_def answering_state res_simps)
next
  case (Some c)
  with assms(1) have "internalFunNames (fnName (moFun (inMod X) f)) = Some IF_Assume" by (simp add: tracked_fun_def)
  with assms(2) that(2) show ?thesis by (cases args) (auto simp: callAssume_answering vec_get_def)
qed

definition assumed :: "GenVal list \<Rightarrow> Orc IState \<Rightarrow> Orc IState" where
  "assumed args st = (if gv_bool (gv_scalar (hd args)) then st
     else event_at (BlockLabel (next_ev (pos_of st)) BT_User) None (blocked_by BT_User st))"

lemma callFunction_plain:
  assumes "internalFunNames (fnName (moFun (inMod X) f)) = None" and "tracked_fun (moFun (inMod X) f)"
    and "callFunction (answering rv al X) f args special st = Ok st'"
  shows "st' = map_stack (\<lambda>fs. fs @ [call_frame f (moFun (inMod X) f) args]) st"
  using assms(2,3) by (rule callFunction_tracked) (simp_all add: assms(1))

lemma callFunction_assume:
  assumes "internalFunNames (fnName (moFun (inMod X) f)) = Some IF_Assume" and "tracked_fun (moFun (inMod X) f)"
    and "callFunction (answering rv al X) f args special st = Ok st'"
  shows "args \<noteq> [] \<and> st' = assumed args st"
  using assms(2,3) by (rule callFunction_tracked) (simp_all add: assms(1) assumed_def)

lemma callFunction_grows:
  assumes "tracked_fun (moFun (inMod X) f)" and "callFunction (answering rv al X) f args special st = Ok st'"
  shows "grows st st'"
  using assms by (rule callFunction_tracked) (auto intro: grows_stack grows_refl grows_trans [OF grows_blocked grows_event])

lemma ret_deps_tracked: "tracked_fun F \<Longrightarrow> updateInternalFunRetDeps X F r st = Ok st"
  by (auto simp: updateInternalFunRetDeps_def tracked_fun_def isAllocFunction_def split: option.splits)

lemma call_tracked:
  assumes "tracked_call (inMod X) (inLib X) c" and "visitCallInst (answering rv al X) c st = Ok st'"
  obtains args src special st2 where
    "eval_list (answering rv al X) (on_top (\<lambda>F. F\<lparr>Caller := Some c\<rparr>) st) (caArgs c) = Ok args"
    "operand (inLib X) (on_top (\<lambda>F. F\<lparr>Caller := Some c\<rparr>) st) (caFun c) = Ok src"
    "tracked_fun (moFun (inMod X) (unat (PointerVal src)))"
    "updateFunArgDeps (answering rv al X) (moFun (inMod X) (unat (PointerVal src))) (caArgs c) (on_top (\<lambda>F. F\<lparr>Caller := Some c\<rparr>) st) = Ok (special, st2)"
    "callFunction (answering rv al X) (unat (PointerVal src)) args special st2 = Ok st'"
proof -
  let ?st1 = "on_top (\<lambda>F. F\<lparr>Caller := Some c\<rparr>) st"
  from assms(2) obtain args src special st2 st3 where s: "eval_list (answering rv al X) ?st1 (caArgs c) = Ok args"
    "operand (inLib X) ?st1 (caFun c) = Ok src"
    "updateFunArgDeps (answering rv al X) (moFun (inMod X) (unat (PointerVal src))) (caArgs c) ?st1 = Ok (special, st2)"
    "callFunction (answering rv al X) (unat (PointerVal src)) args special st2 = Ok st3"
    "updateInternalFunRetDeps (answering rv al X) (moFun (inMod X) (unat (PointerVal src))) (caReg c) st3 = Ok st'"
    by (auto simp: visitCallInst_def Let_def res_simps answering_state answering_reads)
  from assms(1) have "regs_of (caFun c) = {}" by (simp add: tracked_call_def)
  then have "getOperandValue (inLib X) (\<lambda>_. GenVal_default) (caFun c) = getOperandValue (inLib X) (Values (last (stack_of ?st1))) (caFun c)"
    by (intro getOperandValue_cong) simp
  then have "getOperandValue (inLib X) (\<lambda>_. GenVal_default) (caFun c) = Ok src"
    using s(2) by (cases "stack_of (on_top (\<lambda>F. F\<lparr>Caller := Some c\<rparr>) st) = []") (simp_all add: operand_def)
  with assms(1) have t: "tracked_fun (moFun (inMod X) (unat (PointerVal src)))" by (simp add: tracked_call_def)
  with s(5) have "st3 = st'" by (simp add: ret_deps_tracked)
  with that [OF s(1,2) t s(3)] s(4) show ?thesis by simp
qed

lemma call_grows:
  assumes "tracked_call (inMod X) (inLib X) c" and "visitCallInst (answering rv al X) c st = Ok st'"
  shows "grows st st'"
  using assms
proof (rule call_tracked)
  fix args src special st2
  assume t: "tracked_fun (moFun (inMod X) (unat (PointerVal src)))"
    and "updateFunArgDeps (answering rv al X) (moFun (inMod X) (unat (PointerVal src))) (caArgs c) (on_top (\<lambda>F. F\<lparr>Caller := Some c\<rparr>) st) = Ok (special, st2)"
    and "callFunction (answering rv al X) (unat (PointerVal src)) args special st2 = Ok st'"
  then show ?thesis by (intro grows_trans [OF grows_top grows_trans [OF fun_args_grows [OF _ t] callFunction_grows [OF t]]])
qed

lemma visit_grows:
  assumes "tracked (inMod X) (inLib X) i" and "no_tls st" and "visit (answering rv al X) r i st = Ok st'"
  shows "grows st st'"
proof (cases i)
  case (I_CondBr c d0 d1)
  with assms show ?thesis by (auto simp: visitCondBr_def res_simps intro: grows_trans [OF ctrl_grows switch_grows])
next
  case (I_Switch ty c cs d)
  with assms show ?thesis by (auto simp: visitSwitchInst_def res_simps intro: grows_trans [OF ctrl_grows switch_grows])
next
  case (I_IndirectBr a)
  with assms show ?thesis by (auto simp: visitIndirectBrInst_def res_simps intro: grows_trans [OF ctrl_grows switch_grows])
next
  case (I_Load md ord ty ptr)
  with assms show ?thesis
    by (auto simp: visitLoad_answering res_simps Let_def intro: grows_trans [OF grows_event access_grows])
next
  case (I_Store md ord ty v ptr)
  with assms show ?thesis
    by (auto simp: visitStore_answering res_simps Let_def intro: grows_trans [OF grows_event addrPo_grows])
next
  case (I_Fence ord)
  with assms show ?thesis by (auto simp: visitFence_answering grows_event)
qed (use assms in \<open>auto simp: visitICmpInst_def visitBinaryOperator_def visitShift_def visitSelectInst_def visitExtInst_def visitPtrToIntInst_def
      visitIntToPtrInst_def visitBitCastInst_def visitGetElementPtrInst_def visitExtractValueInst_def visitInsertValueInst_def
    visitExtractElementInst_def visitInsertElementInst_def visitShuffleVectorInst_def
    intro: visit_value_grows switch_grows return_grows cas_grows rmw_grows alloca_grows call_grows\<close>)

lemma mark_grows:
  assumes "visit_mark (answering rv al X) nm b st = Ok (b', st')"
  shows "grows st st'"
  using assms
  by (auto simp: visit_mark_def Let_def marks_answering res_simps split: option.splits if_splits intro: grows_refl grows_event grows_trans [OF grows_event grows_event])

end
