(* ===== verification/GenMC_DepProps.thy ===== *)
theory GenMC_DepProps
  imports GenMC_DepRel
begin

text \<open>
  What the tracker of dependencies promises (\<open>src/src/DepTracker.hpp\<close>, \<open>src/src/Execution.cpp\<close>): a thread is run twice on
  an oracle that answers its reads, and the answers differ at one read only. As long as no branch depends on that read, the
  two runs go the same way, and their events have the same addresses and values, apart from those whose dependencies
  contain the read. The models that follow dependencies (\<open>GenMC_IMM\<close>, \<open>GenMC_LKMM\<close>) rest on this. It does not hold for
  values that go through thread-local variables, or into a field of a structure, as the last section shows.
\<close>

section \<open>Two runs: every instruction keeps the relation\<close>

lemma eval_list_answering:
  "eval_list (answering rv al X) st vs = (if stack_of st = [] then Undef else res_list (map (operand (inLib X) st) vs))"
proof (cases "stack_of st = []")
  case False
  then have "operand (inLib X) st = getOperandValue (inLib X) (Values (last (stack_of st)))" by (simp add: fun_eq_iff operand_def)
  with False show ?thesis by (simp add: eval_list_def answering_state)
qed (simp add: eval_list_def answering_state)




















lemma label_kind [simp]: "lkind (ReadLabel k ord p a acc rf) = k" "lkind (FaiReadLabel k ord p a acc op v w rf) = k"
  "lkind (CasReadLabel k ord p a acc ex sw w rf) = k" "lkind (WriteLabel k ord p a acc v w) = k" "lpos (WriteLabel k ord p a acc v w) = p"
  by (simp_all add: ReadLabel_def FaiReadLabel_def CasReadLabel_def WriteLabel_def mkLabel_def)




























section \<open>The loop\<close>






lemma round_answering:
  "interp_round (answering rv al X) (fs, st) =
     (if stack_of st = [] \<or> thr_isBlocked (thread_of st) then Ok (False, fs, st)
      else rbind (vec_get (moBlock (inMod X) (CurBB (last (stack_of st)))) (CurInst (last (stack_of st)))) (\<lambda>it.
        let st2 = on_top (\<lambda>F. F\<lparr>CurInst := CurInst F + 1\<rparr>) st; tid = thrId (thread_of st) in
        case itFun it of Some nm \<Rightarrow> rbind (visit_mark (answering rv al X) nm (fs tid) st2) (\<lambda>(b, st3). Ok (True, fs(tid := b), st3))
          | None \<Rightarrow> rbind (visit (answering rv al X) (itReg it) (itInstr it) st2) (\<lambda>st3. Ok (True, fs, st3))))"
proof -
  have [simp]: "inSchedule (answering rv al X) = (\<lambda>s. Ok (ecStack (oThread s) \<noteq> [] \<and> \<not> thr_isBlocked (oThread s), s))" "inProgress (answering rv al X) = Ok"
    by (simp_all add: answering_def)
  have [simp]: "st\<lparr>isDrv := isDrv st\<rparr> = st" by simp
  show ?thesis
    by (auto simp: interp_round_def answering_state Let_def on_top_def intro!: rbind_fundef_cong split: option.splits)
qed







definition block_interp :: "Item list \<Rightarrow> Orc Interp" where
  "block_interp its = undefined\<lparr>inMod := undefined\<lparr>moBlock := (\<lambda>b. if b = 0 then its else [])\<rparr>,
     inLib := undefined\<lparr>apBin := (\<lambda>op x y. Ok (fst x, snd x + snd y))\<rparr>\<rparr>"

text \<open>The state of such a thread: the next instruction, the number of events, the registers, the events and the tracker.\<close>

definition block_state :: "nat \<Rightarrow> nat \<Rightarrow> (nat \<Rightarrow> GenVal) \<Rightarrow> (EventLabel \<times> EventDeps option) list \<Rightarrow> DepTracker \<Rightarrow> Orc IState" where
  "block_state k g vals tr T = \<lparr>isDrv = \<lparr>oThread = \<lparr>thrId = 0, thrParent = -1, thrFun = 0, thrArg = 0, ecStack = [frame_new\<lparr>CurInst := k, Values := vals\<rparr>],
     initSF = frame_new, globalInstructions = g, globalInstSnap = 0, thrBlocked = NotBlocked\<rparr>, oTls = Map.empty, oTrace = tr\<rparr>, isDeps = Some T\<rparr>"

lemma block_round:
  assumes "k < length its" and "itFun (its ! k) = None"
  shows "interp_round (answering rv al (block_interp its)) (fs, block_state k g vals tr T) =
    rbind (visit (answering rv al (block_interp its)) (itReg (its ! k)) (itInstr (its ! k)) (block_state (Suc k) g vals tr T)) (\<lambda>st. Ok (True, fs, st))"
  using assms
  by (simp add: round_answering block_state_def block_interp_def frame_new_def vec_get_def thr_isBlocked_def on_top_def map_stack_def)

lemma block_operand: "operand L (block_state k g vals tr T) v = getOperandValue L vals v"
  by (simp add: operand_def block_state_def)

lemma block_load:
  assumes "accessed r p 0 (Event 0 (int g + 1)) T = Ok U" and "getOperandValue (inLib X) vals p = Ok a"
  shows "visit (answering rv al X) r (I_Load None ord t p) (block_state k g vals tr T) =
    (let d = deps_of (Some p) None True None (block_state k g vals tr T) in
     Ok (block_state k (Suc g) (vals(r := GenVal (SVAL_TO_GV (rv (Event 0 (int g + 1))) t) []))
       (tr @ [(ReadLabel EL_Read ord (Event 0 (int g + 1)) (PointerVal a) (acc_of (inDrv X d) t) getBottom, d)]) U))"
proof -
  have "no_tls (block_state k g vals tr T)" by (simp add: block_state_def no_tls_def)
  with assms show ?thesis
    by (simp add: visitLoad_answering block_operand getReadKind_def Let_def after_access_answering answering_tracker)
      (simp add: block_state_def event_at_def emit_def pos_of_def next_ev_def on_top_def map_stack_def SetValue_def add_ac)
qed

lemma block_store:
  assumes "dt_updateAddrPoDeps 0 p T = Ok U" and "getOperandValue (inLib X) vals p = Ok a" and "getOperandValue (inLib X) vals v = Ok x"
  shows "visit (answering rv al X) r (I_Store md ord t v p) (block_state k g vals tr T) =
    (let d = deps_of (Some p) (Some v) True None (block_state k g vals tr T) in
     Ok (block_state k (Suc g) vals
       (tr @ [(WriteLabel EL_Write ord (Event 0 (int g + 1)) (PointerVal a) (acc_of (inDrv X d) t) (GV_TO_SVAL (gv_scalar x) t) (getWriteAttr md), d)]) U))"
proof -
  have "no_tls (block_state k g vals tr T)" by (simp add: block_state_def no_tls_def)
  with assms show ?thesis
    by (simp add: visitStore_answering block_operand Let_def updateAddrPoDeps_def answering_tracker)
      (simp add: block_state_def event_at_def emit_def pos_of_def next_ev_def add_ac)
qed

lemma block_value:
  assumes "res_list (map (getOperandValue (inLib X) vals) ops) = Ok xs" and "f xs = Ok v" and "rfold (dt_updateDataDeps 0 (VReg r)) deps T = Ok U"
  shows "visit_value (answering rv al X) r ops deps f (block_state k g vals tr T) = Ok (block_state k g (vals(r := v)) tr U)"
proof -
  have "operand (inLib X) (block_state k g vals tr T) = getOperandValue (inLib X) vals" by (simp add: fun_eq_iff block_operand)
  with assms show ?thesis
    by (simp add: visit_value_def eval_list_answering answering_updates answering_tracker answering_state)
      (simp add: block_state_def on_top_def map_stack_def SetValue_def)
qed

definition start_state :: "Orc IState" where
  "start_state = block_state 0 0 (\<lambda>_. GenVal_default) [] dt_empty"

definition data_at :: "(nat \<times> DepInfo) list \<Rightarrow> DepTracker" where
  "data_at ds = dt_empty\<lparr>dataDeps := (dataDeps dt_empty)(0 := fold (\<lambda>(r, d) f. f(VReg r := d)) ds (\<lambda>_. []))\<rparr>"

lemma depinfo_simps [simp]: "depinfo_update [] [] = Ok []" "depinfo_update [] [e] = Ok [e]" "depinfo_update [e] [] = Ok [e]"
  "depinfo_of e = [e]"
  using depinfo_update_union [of "[]" "[]"] depinfo_update_union [of "[]" "[e]"] depinfo_update_union [of "[e]" "[]"]
  by (simp_all add: depinfo_of_def vs_of_init_list_def vs_insert_step_def vs_insert_def lower_bound_def)

definition shown :: "Orc IState \<Rightarrow> (EventLabelKind \<times> SAddr \<times> SVal \<times> DepInfo option) list" where
  "shown st = map (\<lambda>(l, d). (lkind l, laddr l, lval l, map_option dep_data d)) (trace_of st)"

lemma block_step:
  assumes "its ! k = it" and "visit (answering rv al (block_interp its)) (itReg it) (itInstr it) (block_state k' g vals tr T) = Ok st"
    and "k < length its" and "itFun it = None" and "k' = Suc k"
  shows "interp_run (Suc n) (answering rv al (block_interp its)) (fs, block_state k g vals tr T) = interp_run n (answering rv al (block_interp its)) (fs, st)"
  using assms by (simp add: block_round)




section \<open>A dependency that is not recorded\<close>

text \<open>A thread that reads a variable, puts the value into a field of a structure, takes it out again and writes it.\<close>

definition field_block :: "Item list" where
  "field_block = (let t = IntTy 64; p = (\<lambda>a. VConst (of_pointer a)) in
    [\<lparr>itReg = 0, itInstr = I_Load None Acquire t (p 8), itFun = None\<rparr>,
     \<lparr>itReg = 1, itInstr = I_InsertValue (Ty_Scalar t) [0] (VConst (of_elements [GenVal_default])) (VReg 0), itFun = None\<rparr>,
     \<lparr>itReg = 2, itInstr = I_ExtractValue (Ty_Scalar t) [0] (VReg 1), itFun = None\<rparr>,
     \<lparr>itReg = 3, itInstr = I_Store None Release t (VReg 2) (p 16), itFun = None\<rparr>])"

lemma field_items: "length field_block = 4"
  "field_block ! 0 = \<lparr>itReg = 0, itInstr = I_Load None Acquire (IntTy 64) (VConst (of_pointer 8)), itFun = None\<rparr>"
  "field_block ! 1 = \<lparr>itReg = 1, itInstr = I_InsertValue (Ty_Scalar (IntTy 64)) [0] (VConst (of_elements [GenVal_default])) (VReg 0), itFun = None\<rparr>"
  "field_block ! 2 = \<lparr>itReg = 2, itInstr = I_ExtractValue (Ty_Scalar (IntTy 64)) [0] (VReg 1), itFun = None\<rparr>"
  "field_block ! 3 = \<lparr>itReg = 3, itInstr = I_Store None Release (IntTy 64) (VReg 2) (VConst (of_pointer 16)), itFun = None\<rparr>"
  by (simp_all add: field_block_def Let_def)

text \<open>The value that is written is the value that was read, for every answer to the read, but the write has no data
  dependency: \<open>visitInsertValueInst()\<close> records the dependencies of the structure only, and not those of the inserted value.\<close>

theorem field_dependency_lost:
  "\<exists>st. interp_run 4 (answering rv al (block_interp field_block)) (\<lambda>_. False, start_state) = Ok (False, \<lambda>_. False, st)
    \<and> shown st = [(EL_Read, 8, 0, Some []), (EL_Write, 16, rv (Event 0 1), Some [])]"
proof -
  let ?Y = "block_interp field_block" and ?val = "\<lambda>x. GenVal \<lparr>gvWidth = 64, gvInt = x, gvPtr = 0\<rparr> []" and ?p = "\<lambda>a. VConst (of_pointer a)"
  let ?X = "answering rv al ?Y" and ?x = "rv (Event 0 1)" and ?acc = "\<lambda>d. acc_of (inDrv ?Y d) (IntTy 64)" and ?t = "Ty_Scalar (IntTy 64)"
  let ?agg = "VConst (of_elements [GenVal_default])" and ?one = "GenVal gv_default [?val ?x]"
  let ?T1 = "data_at [(0, [Event 0 1])]" and ?T2 = "data_at [(0, [Event 0 1]), (1, [])]" and ?T3 = "data_at [(0, [Event 0 1]), (1, []), (2, [])]"
  let ?v0 = "\<lambda>_. GenVal_default" and ?v1 = "(\<lambda>_. GenVal_default)(0 := ?val ?x)" and ?v2 = "(\<lambda>_. GenVal_default)(0 := ?val ?x, 1 := ?one)"
  let ?v3 = "(\<lambda>_. GenVal_default)(0 := ?val ?x, 1 := ?one, 2 := ?val ?x)"
  have T1: "accessed 0 (?p 8) 0 (Event 0 (int 0 + 1)) dt_empty = Ok ?T1"
    by (simp add: accessed_def dt_addData_def dt_updateAddrPoDeps_def data_at_def dt_empty_def fun_eq_iff)
  have T2: "rfold (dt_updateDataDeps 0 (VReg 1)) [?agg] ?T1 = Ok ?T2"
    by (simp add: dt_updateDataDeps_def dt_addData_def data_at_def dt_empty_def fun_eq_iff)
  have T3: "rfold (dt_updateDataDeps 0 (VReg 2)) [VReg 1] ?T2 = Ok ?T3"
    by (simp add: dt_updateDataDeps_def dt_addData_def data_at_def dt_empty_def fun_eq_iff)
  have po: "dt_updateAddrPoDeps 0 (?p 16) ?T3 = Ok ?T3"
    by (simp add: dt_updateAddrPoDeps_def data_at_def dt_empty_def fun_eq_iff)
  have L: "getOperandValue (inLib ?Y) vals (?p a) = Ok (of_pointer a)" for vals a by simp
  note item = Item.simps
  let ?d1 = "deps_of (Some (?p 8)) None True None (block_state 1 0 ?v0 [] dt_empty)"
  let ?t1 = "(ReadLabel EL_Read Acquire (Event 0 1) 8 (?acc ?d1) getBottom, ?d1)"
  have V1: "visit ?X 0 (I_Load None Acquire (IntTy 64) (?p 8)) (block_state 1 0 ?v0 [] dt_empty) = Ok (block_state 1 1 ?v1 [?t1] ?T1)"
    using block_load [OF T1 L, of rv al Acquire "IntTy 64" 1 ?v0 "[]"] by (simp add: Let_def of_pointer_def PointerVal_def SVAL_TO_GV_def take_bit_word_eq_self)
  have S1: "interp_run (Suc n) ?X (fs, start_state) = interp_run n ?X (fs, block_state 1 1 ?v1 [?t1] ?T1)" for n fs
    unfolding start_state_def by (rule block_step [OF field_items(2), unfolded item, OF V1]) (simp_all add: field_items(1))
  have V2: "visit ?X 1 (I_InsertValue ?t [0] ?agg (VReg 0)) (block_state 2 1 ?v1 [?t1] ?T1) = Ok (block_state 2 1 ?v2 [?t1] ?T2)"
    unfolding visit.simps visitInsertValueInst_def
    by (rule block_value [where xs = "[of_elements [GenVal_default], ?val ?x]", OF _ _ T2])
      (simp_all add: of_elements_def vec_get_def copy_part_def GenVal_default_def gv_default_def)
  have S2: "interp_run (Suc n) ?X (fs, block_state 1 1 ?v1 [?t1] ?T1) = interp_run n ?X (fs, block_state 2 1 ?v2 [?t1] ?T2)" for n fs
    by (rule block_step [OF field_items(3), unfolded item, OF V2]) (simp_all add: field_items(1))
  have V3: "visit ?X 2 (I_ExtractValue ?t [0] (VReg 1)) (block_state 3 1 ?v2 [?t1] ?T2) = Ok (block_state 3 1 ?v3 [?t1] ?T3)"
    unfolding visit.simps visitExtractValueInst_def
    by (rule block_value [where xs = "[?one]", OF _ _ T3]) (simp_all add: extractValue_def vec_get_def copy_part_def GenVal_default_def gv_default_def)
  have S3: "interp_run (Suc n) ?X (fs, block_state 2 1 ?v2 [?t1] ?T2) = interp_run n ?X (fs, block_state 3 1 ?v3 [?t1] ?T3)" for n fs
    by (rule block_step [OF field_items(4), unfolded item, OF V3]) (simp_all add: field_items(1))
  let ?d4 = "deps_of (Some (?p 16)) (Some (VReg 2)) True None (block_state 4 1 ?v3 [?t1] ?T3)"
  let ?t4 = "(WriteLabel EL_Write Release (Event 0 2) 16 (?acc ?d4) ?x (getWriteAttr None), ?d4)"
  have V4: "visit ?X 3 (I_Store None Release (IntTy 64) (VReg 2) (?p 16)) (block_state 4 1 ?v3 [?t1] ?T3) = Ok (block_state 4 2 ?v3 [?t1, ?t4] ?T3)"
    using block_store [where vals = ?v3 and v = "VReg 2" and x = "?val ?x" and tr = "[?t1]" and g = 1, OF po L]
    by (simp add: Let_def of_pointer_def PointerVal_def GV_TO_SVAL_def numeral_2_eq_2)
  have S4: "interp_run (Suc n) ?X (fs, block_state 3 1 ?v3 [?t1] ?T3) = interp_run n ?X (fs, block_state 4 2 ?v3 [?t1, ?t4] ?T3)" for n fs
    by (rule block_step [OF field_items(5), unfolded item, OF V4]) (simp_all add: field_items(1))
  have four: "Suc (Suc (Suc (Suc 0))) = 4" by simp
  have "interp_run (Suc (Suc (Suc (Suc 0)))) ?X (fs, start_state) = Ok (False, fs, block_state 4 2 ?v3 [?t1, ?t4] ?T3)" for fs
    by (simp only: S1 S2 S3 S4 interp_run.simps(1))
  note run = this [unfolded four]
  have "shown (block_state 4 2 ?v3 [?t1, ?t4] ?T3) = [(EL_Read, 8, 0, Some []), (EL_Write, 16, ?x, Some [])]"
    by (simp add: shown_def block_state_def deps_of_def Let_def ReadLabel_def WriteLabel_def mkLabel_def data_at_def dt_empty_def)
  then show ?thesis using run by blast
qed

text \<open>A value that is stored in a thread-local variable and loaded again comes without its dependencies: the tracker does
  not change.\<close>

theorem tls_dependency_lost:
  assumes "oTls (isDrv st) a = Some w" and "operand (inLib X) st v = Ok x"
  shows "rbind (visit (answering rv al X) q (I_Store md ord t v (VConst (of_pointer a))) st) (visit (answering rv al X) r (I_Load md' ord' t (VConst (of_pointer a))))
    = Ok (on_top (SetValue r (GenVal (gv_scalar x) [])) (st\<lparr>isDrv := (isDrv st)\<lparr>oTls := (oTls (isDrv st))(a \<mapsto> gv_scalar x)\<rparr>\<rparr>))"
proof -
  have a: "gvPtr (gv_scalar (of_pointer a)) = a" "PointerVal (of_pointer a) = a" by (simp_all add: of_pointer_def PointerVal_def)
  have ne: "stack_of st \<noteq> []" using assms(2) by (auto simp: operand_def)
  have ptr: "operand (inLib X) s (VConst (of_pointer a)) = Ok (of_pointer a)" if "stack_of s \<noteq> []" for s using that by (simp add: operand_def)
  show ?thesis
    using assms ne by (simp add: visitStore_i_def visitLoad_i_def visitStoreInst_def visitLoadInst_def answering_reads answering_state ptr a)
qed

end
