(* ===== verification/Spec2Isabelle.thy ===== *)
theory Spec2Isabelle
  imports GenMC_RC11Props GenMC_AdjListSorts GenMC_Recovery GenMC_Fixpoint GenMC_DriverProps GenMC_WBProps GenMC_SExprProps GenMC_IMMProps GenMC_LKMMProps GenMC_FSProps GenMC_SeqFS GenMC_PoolProps GenMC_DepProps
begin

text \<open>
  A verification of GenMC with data-structure checking (the C++ sources under \<open>src/src/\<close>).

  \<^bold>\<open>The program.\<close> GenMC explores the executions of a concurrent program under a weak memory model. An
  execution is a graph: per thread a list of event labels, with reads-from edges between reads and writes.
  A driver adds labels, computes for each of them vector clocks (views) of the events before it, searches for
  data races, and revisits earlier reads when a write arrives. This repository adds the checking of
  concurrent data structures: calls of the methods a configuration file names are bracketed by start and end
  labels, the driver relates calls (COM and SO), and at the end of a call the relations between the calls of
  the graph are checked against a model of a mutex, a queue, a stack or hazard pointers.

  \<^bold>\<open>The theories\<close>, in the order of the code they model.
  \<^item> \<open>GenMC_Prelude\<close>: results of code that may stop (\<open>Ok\<close>, \<open>Bug\<close> for \<open>BUG()\<close>, \<open>UserError\<close> for \<open>ERROR()\<close>,
    \<open>Undef\<close> for undefined behaviour such as an out-of-range access), loops, vectors, sorted lists.
  \<^item> \<open>GenMC_Specs\<close>: the interfaces, as locales: an ordered set with bulk operations, a vector clock whose
    \<open>update\<close> is a union. \<open>GenMC_VSet\<close>, \<open>GenMC_View\<close> and \<open>GenMC_DepView\<close> interpret them on the code's containers.
  \<^item> \<open>GenMC_Event\<close> (\<open>Event.hpp\<close>), \<open>GenMC_VSet\<close> (\<open>VSet.tcc\<close>), \<open>GenMC_View\<close> (\<open>View.cpp\<close>), \<open>GenMC_DepView\<close>
    (\<open>DepView.cpp\<close>, \<open>VectorClock.hpp\<close>, \<open>DepInfo.hpp\<close>): events, sorted-vector sets and vector clocks. Shown:
    the bulk operations equal their element-wise versions and stay in bounds; updates are joins.
  \<^item> \<open>GenMC_Memory\<close> (\<open>SAddr.hpp\<close>, \<open>SAddrAllocator.hpp\<close>, \<open>SVal.hpp\<close>, \<open>MemAccess.hpp\<close>): addresses and values as
    64-bit words. Shown: encoding round trips, disjointness of allocations and where it ends, sign extension.
  \<^item> \<open>GenMC_FunctionType\<close>, \<open>GenMC_Label\<close> (\<open>EventLabel.hpp\<close>): methods, calls, and labels as one record with the
    class of a label given by its kind, as LLVM's casts do.
  \<^item> \<open>GenMC_Graph\<close>, \<open>GenMC_GraphOps\<close>, \<open>GenMC_Stamps\<close> (\<open>ExecutionGraph.hpp\<close>, \<open>ExecutionGraph.cpp\<close>): the
    graph, its searches and its changes. Shown: reads-from edges and readers lists stay consistent, the
    views of a stamp are the events added by then, invocation numbers are fresh.
  \<^item> \<open>GenMC_DSModel\<close> (\<open>DSModel.cpp\<close>): the configuration reader. Shown: what is written is read back.
  \<^item> \<open>GenMC_Calls\<close>, \<open>GenMC_CallProps\<close> (\<open>FunctionCall.hpp\<close> and \<open>findallFunctionCalls\<close>, \<open>calculateOrder\<close>,
    \<open>tryCalcTO\<close> of \<open>GenMCDriver.cpp\<close>): the calls of a graph and their relations. Shown: LHB is the transitive
    closure of PO and SO, inverses are inverses, the total order is one, and which calls are found.
  \<^item> \<open>GenMC_Checks\<close> (\<open>Axioms.cpp\<close> and \<open>checkModelViolations\<close>, \<open>checkMutex\<close>, \<open>checkQueue\<close>, \<open>checkStack\<close>, \<open>checkHp\<close>
    of \<open>GenMCDriver.cpp\<close>): the checks. Shown: what the hazard-pointer automaton guarantees and where it
    ends, that the two FIFO tests agree, which functions are recognised as methods.
  \<^item> \<open>GenMC_Persistency\<close>, \<open>GenMC_Recovery\<close> (\<open>PersistencyChecker.cpp\<close>): the views of disk accesses, the
    persists-before relation and the check of the recovery routine.
  \<^item> \<open>GenMC_RC11\<close>, \<open>GenMC_RC11Props\<close> (\<open>RC11Driver.cpp\<close>): the views of a new label, COM and SO, races. Shown:
    porf views contain exactly the events that reach the label, for labels of every kind.
  \<^item> \<open>GenMC_AdjList\<close>, \<open>GenMC_AdjListProps\<close>, \<open>GenMC_AdjListSorts\<close> (\<open>AdjList.tcc\<close>): relations as adjacency lists
    with a bit matrix, and their depth-first search with its callbacks. Shown: the search ends, the closure
    is reachability and decides acyclicity, sorts respect the edges, all sorts are enumerated.
  \<^item> \<open>GenMC_Revisit\<close> (\<open>Revisit.hpp\<close>, \<open>WorkSet.hpp\<close>, \<open>RevisitSet.cpp\<close>, \<open>DepExecutionGraph.cpp\<close>): work items,
    revisit sets and the views of revisits.
  \<^item> \<open>GenMC_MO\<close>, \<open>GenMC_MOProps\<close> (\<open>MOCalculator.cpp\<close>): modification orders. Shown: which stores a read may read
    from and that placings are coherent, in models that execute in order and out of order, and that the calculated
    relation is the order of the list.
  \<^item> \<open>GenMC_WB\<close>, \<open>GenMC_WBQueries\<close>, \<open>GenMC_WBPath\<close>, \<open>GenMC_WBProps\<close> (\<open>WBCalculator.cpp\<close>, \<open>WBIterator.hpp\<close>):
    the other tracker of coherence: the writes-before relation, its state and calculation, its queries, and the
    maximality of revisits. Shown: chains of read-modify-writes, and which relation is calculated.
  \<^item> \<open>GenMC_LBCalc\<close>, \<open>GenMC_PSC\<close>, \<open>GenMC_Consistency\<close>, \<open>GenMC_ConsistencyProps\<close> (\<open>LBCalculatorLAPOR.cpp\<close>,
    \<open>PSCCalculator.cpp\<close> and the fixpoint of \<open>ExecutionGraph.cpp\<close>): calculators and the check of consistency.
    Shown: co-maximality does not depend on the level of checking, and what the builder registers is what the
    getters find. \<open>GenMC_Fixpoint\<close> has the calculators that the driver of RC11 registers, with either kind of
    coherence, and shows that the fixpoint ends for them. It counts pairs of events that are not ordered and bits of
    matrices that are not set (\<open>GenMC_Grid\<close>: relations that only grow); \<open>GenMC_Limits\<close> shows that the loops over chains
    of read-modify-writes inside a round always end.
  \<^item> \<open>GenMC_GraphCopy\<close> (\<open>ExecutionGraph.cpp\<close>): copies of graphs up to a view and saved prefixes.
  \<^item> \<open>GenMC_Driver\<close>, \<open>GenMC_Races\<close>, \<open>GenMC_Visit\<close>, \<open>GenMC_Filters\<close>, \<open>GenMC_RevisitOps\<close>, \<open>GenMC_Access\<close>,
    \<open>GenMC_Explore\<close> (\<open>GenMCDriver.cpp\<close>, the loop of \<open>Execution.cpp\<close>): the exploration driver, in that order its
    state, work queue and scheduling; the checks of accesses and liveness; the handlers of events other than
    accesses; the filters of stores; revisits; the handlers of accesses; the loop of the interpreter and the
    exploration. \<open>GenMC_DriverProps\<close> shows what they guarantee; for the work queue, that no item is lost or served twice.
  \<^item> \<open>GenMC_IMM\<close>, \<open>GenMC_IMMProps\<close> (\<open>IMMDriver.cpp\<close>, \<open>ARCalculator.cpp\<close>), \<open>GenMC_LKMMCalc\<close> (the calculators of prop, ar,
    pb, rcu-link, rcu, rcu-fence and xb), \<open>GenMC_LKMM\<close>, \<open>GenMC_LKMMRaces\<close> (\<open>LKMMDriver.cpp\<close>), \<open>GenMC_LKMMProps\<close>: the
    drivers for IMM and for the Linux-kernel model. Views have holes at events that are not preserved in program
    order; the dependencies of a label are arguments. Shown: which events views of preserved program order contain,
    what steps of ar, pb and xb compute and decide, and that the edges of rcu are justified by paths of links.
  \<^item> \<open>GenMC_SExpr\<close>, \<open>GenMC_SExprProps\<close> (\<open>SExpr.hpp\<close>, \<open>SExprVisitor.tcc\<close>): the symbolic expressions of
    annotations and their visitors. Shown: substitution keeps types, and what the visitors evaluate to.
  \<^item> \<open>GenMC_EE\<close> (\<open>Execution.cpp\<close>, \<open>Interpreter.cpp\<close>): the interpreter on top of the driver: the record \<open>EE\<close> of what it
    asks of the driver (\<open>driver_EE\<close> takes it from the handlers of \<open>GenMCDriver.cpp\<close>), its memory instructions, leaving
    a function, file descriptors, fresh and static addresses. \<open>GenMC_FS\<close>, \<open>GenMC_FSIO\<close>, \<open>GenMC_SysCalls\<close>: the file
    system, in that order inodes and opening, reading and writing, and the system calls. \<open>GenMC_LibCalls\<close>: the calls of
    threads, locks, barriers, memory and RCU, and the dispatch of calls by name. \<open>GenMC_FSProps\<close> shows that fresh
    descriptors are the least unused ones, that buffered writes do the chunks of their range, and that the system
    calls give back their locks. \<open>GenMC_SeqFS\<close> shows, on a driver for a single thread, that writing, reading and
    truncating implement a file that is a list of bytes, and what a write of 42 bytes does.
  \<^item> \<open>GenMC_Instr\<close>, \<open>GenMC_Interp\<close>, \<open>GenMC_Run\<close> (\<open>Execution.cpp\<close>, \<open>Interpreter.cpp\<close>, \<open>DepTracker.hpp\<close>): values and operands of
    the checked program, its instructions on stack frames, branches, calls, returns and the loop, and the tracker of
    the dependencies between them. \<open>GenMC_Oracle\<close> runs a thread on an oracle that answers its reads. \<open>GenMC_DepRel\<close>
    relates two runs whose answers differ at one read, and \<open>GenMC_DepProps\<close> shows that the recorded dependencies cover
    every influence of that read, and for which instructions they do not.
  \<^item> \<open>GenMC_Pool\<close>, \<open>GenMC_PoolProps\<close> (\<open>ThreadPool.hpp\<close>, \<open>ThreadPool.cpp\<close>): the pool of threads of a parallel run as
    a relation of interleaved steps. Shown: tasks are neither lost nor run twice, a pool that ends has done them all,
    and that it can hang on a lost notification.
  \<^item> This theory: the graphs that a driver builds step by step, and what the checks return on them.

  \<^bold>\<open>How the model corresponds to the code.\<close> A class is a record, a label pointer the label at its position,
  a write through a pointer an update of the graph, and a function that may stop returns a \<open>res\<close>. Code
  outside the repository enters as arguments: the content of files, the initial value and the name of a
  location (the interpreter). \<open>unsigned\<close> invocation numbers, addresses and values are words; event indices
  are integers. A checked program is a record of functions over abstract stack frames and instructions
  (\<open>Prog\<close>) in the theories of the driver. \<open>GenMC_Run\<close> gives it the frames and instructions of LLVM, whose integer
  arithmetic and layout of types are a record of functions (\<open>Lib\<close>); the sizes of types, the offsets of the
  elements of structures, the contents of constant strings and the random choice of \<open>nondet_int\<close> are arguments too.
  Integer values of the checked program are at most 64 bits wide, which is what the driver's values hold.

  \<^bold>\<open>Loops.\<close> They are folds over index ranges or functions with a termination proof, with four exceptions. The
  loops of \<open>calcRMWLimits()\<close> are \<open>while\<close> loops whose value \<open>None\<close> is not ending; that they end is shown. The
  fixpoint of \<open>isConsistent()\<close> is a partial function whose value \<open>None\<close> is not ending; that it ends with the
  calculators of RC11 is shown in \<open>GenMC_Fixpoint\<close>.
  The loop of the interpreter runs a program that may not end, and explorations nest (a revisit explores a
  copy of the graph); both take fuel, and running out of it is \<open>Undef\<close>, so a theorem about a run that returned
  speaks of runs that had enough.

  \<^bold>\<open>What the checks return.\<close> \<open>findallFunctionCalls\<close> emits every call at its start label, whose COM and SO lists
  the driver has just cleared. So on every graph that is built the checks see calls without communication:
  the mutex check rejects every completed lock, the checks of stacks and of queues other than the strong one
  accept everything, and the strong one reads its order out of range. The properties below state this for
  all graphs that the steps of \<open>rc11_graph\<close> reach.

  \<^bold>\<open>Not modelled.\<close> Floating-point values and bit casts of vectors, variable arguments and intrinsics of the checked
  program, the passes (their data is LLVM's), calls of functions of the host, printing, the command line, time-outs, and what drivers exchange in a task of the thread pool.
\<close>

section \<open>The graphs a driver builds\<close>

text \<open>A step appends a label that has just got its views to a thread, or makes a thread with its start label
  (\<open>visitThreadCreate\<close>). Options and the cached relation may differ from step to step.\<close>

inductive rc11_graph :: "ExecutionGraph \<Rightarrow> bool" where
  init: "rc11_graph graph_init"
| label: "rc11_graph g \<Longrightarrow> is_next g (lpos l) \<Longrightarrow> 0 < eindex (lpos l) \<Longrightarrow> updateLabelViews c g l = Ok l' \<Longrightarrow>
    addOtherLabelToGraph g l' = Ok (g', l'') \<Longrightarrow> rc11_graph g'"
| thread: "rc11_graph g \<Longrightarrow> lkind l = EL_ThreadStart \<Longrightarrow> lpos l = Event (int (numThreads g)) 0 \<Longrightarrow>
    updateLabelViews c (addNewThread g) l = Ok l' \<Longrightarrow> addOtherLabelToGraph (addNewThread g) l' = Ok (g', l'') \<Longrightarrow>
    rc11_graph g'"

lemma addNewThread_append:
  assumes "lpos l = Event (int (numThreads g)) 0" and "addOtherLabelToGraph (addNewThread g) l = Ok (g', l'')"
  shows "\<exists>s. events g' = events g @ [[l\<lparr>lstamp := s\<rparr>]]"
proof -
  have n: "is_next (addNewThread g) (lpos l)" using assms(1) by (simp add: is_next_def addNewThread_def)
  obtain g1 s where "addOtherLabelToGraph (addNewThread g) l = Ok (g1, l\<lparr>lstamp := s\<rparr>)"
    "events g1 = (events (addNewThread g))[nat (ethread (lpos l)) :=
       events (addNewThread g) ! nat (ethread (lpos l)) @ [l\<lparr>lstamp := s\<rparr>]]"
    using append_label [OF n] by blast
  then show ?thesis using assms by (auto simp: addNewThread_def)
qed

lemma rc11_graph_calls: "rc11_graph g \<Longrightarrow> calls_ok g"
proof (induction rule: rc11_graph.induct)
  case init
  show ?case by (rule graph_init_calls)
next
  case (label g l c l' g' l'')
  note k = coreD [OF updateLabelViews_core [OF label.hyps(4)]]
  have n: "is_next g (lpos l')" "0 < eindex (lpos l')" using label.hyps(2,3) k by simp_all
  obtain g1 s where a: "addOtherLabelToGraph g l' = Ok (g1, l'\<lparr>lstamp := s\<rparr>)"
    "events g1 = (events g)[nat (ethread (lpos l')) := events g ! nat (ethread (lpos l')) @ [l'\<lparr>lstamp := s\<rparr>]]"
    using append_label [OF n(1)] by blast
  have "calls_ok g1"
    by (rule append_calls_ok [OF label.IH n _ a(2)])
      (use updateLabelViews_FunStart [OF label.hyps(4)] k in \<open>simp add: is_start_def\<close>)
  then show ?case using a(1) label.hyps(5) by simp
next
  case (thread g l c l' g' l'')
  note k = coreD [OF updateLabelViews_core [OF thread.hyps(4)]]
  obtain s where s: "events g' = events g @ [[l'\<lparr>lstamp := s\<rparr>]]"
    using addNewThread_append [OF _ thread.hyps(5)] thread.hyps(3) k by auto
  show ?case by (rule append_thread_calls_ok [OF thread.IH _ s]) (use thread.hyps(2) k in simp)
qed

text \<open>A graph with one finished call of a method.\<close>

lemma one_finished_call:
  assumes "n \<noteq> FN_NON"
  obtains g where "rc11_graph g" "graph_contains g (Event 0 2)" "lmethod (lab g (Event 0 2)) = n"
    "start_calls g \<noteq> []" "distinct (map fc_event (start_calls g))"
proof -
  let ?s = "(FunStartLabel (Event 0 1))\<lparr>lmethod := n\<rparr>"
  have p0: "graph_contains graph_init (prev (lpos ?s))"
    by (simp add: graph_init_contains prev_def FunStartLabel_def mkLabel_def)
  obtain l1 where l1: "updateLabelViews conf0 graph_init ?s = Ok l1"
    by (rule updateLabelViews_call [OF p0]) (auto simp: FunStartLabel_def mkLabel_def)
  have k1: "lkind l1 = EL_FunStart" "lpos l1 = Event 0 1" "lmethod l1 = n"
    using coreD [OF updateLabelViews_core [OF l1]] updateLabelViews_FunStart [OF l1] by simp_all
  obtain g1 s1 where a1: "addOtherLabelToGraph graph_init l1 = Ok (g1, l1\<lparr>lstamp := s1\<rparr>)"
    and e1: "events g1 = (events graph_init)[nat (ethread (lpos l1)) := events graph_init ! nat (ethread (lpos l1)) @ [l1\<lparr>lstamp := s1\<rparr>]]"
    using append_label [of graph_init l1] graph_init_next k1(2) by metis
  have g1: "rc11_graph g1" by (rule rc11_graph.label [OF rc11_graph.init _ _ l1 a1]) (simp_all add: graph_init_next)
  have ev1: "events g1 = [[ThreadStartLabel 0 Acquire (Event 0 0) getInitializer (-1), l1\<lparr>lstamp := s1\<rparr>]]"
    using e1 k1(2) by (simp add: graph_init_def)
  let ?f = "FunEndLabel (Event 0 2)"
  have f: "lkind ?f = EL_FunEnd" "lpos ?f = Event 0 2" by (simp_all add: FunEndLabel_def mkLabel_def)
  have p1: "graph_contains g1 (prev (lpos ?f))" by (simp add: graph_contains_def ev1 f prev_def)
  obtain l2 where l2: "updateLabelViews conf0 g1 ?f = Ok l2" by (rule updateLabelViews_call [OF p1]) (auto simp: f)
  have k2: "lkind l2 = EL_FunEnd" "lpos l2 = Event 0 2"
    using coreD [OF updateLabelViews_core [OF l2]] f by simp_all
  have m2: "lmethod l2 = n"
    using updateLabelViews_FunEnd_method [OF l2 f(1)] by (simp add: previousEventMethod_def getEventLabel_def ev1 f k1)
  have n2: "is_next g1 (Event 0 2)" by (simp add: is_next_def ev1)
  obtain g2 s2 where a2: "addOtherLabelToGraph g1 l2 = Ok (g2, l2\<lparr>lstamp := s2\<rparr>)"
    and e2: "events g2 = (events g1)[nat (ethread (lpos l2)) := events g1 ! nat (ethread (lpos l2)) @ [l2\<lparr>lstamp := s2\<rparr>]]"
    using append_label [of g1 l2] n2 k2(2) by metis
  have ev2: "events g2 = [[ThreadStartLabel 0 Acquire (Event 0 0) getInitializer (-1), l1\<lparr>lstamp := s1\<rparr>, l2\<lparr>lstamp := s2\<rparr>]]"
    using e2 k2(2) by (simp add: ev1)
  have "rc11_graph g2" by (rule rc11_graph.label [OF g1 _ _ l2 a2]) (simp_all add: f n2)
  then show thesis
    by (rule that) (simp_all add: graph_contains_def lab_def ev2 m2 start_calls_def is_start_def k1 k2 assms)
qed

section \<open>Properties\<close>

text \<open>C39: on every graph a driver builds, the mutex check reports an error at every completed lock: the calls it
  finds hold their start label only, no COM edge ends at them, and a lock needs exactly one. A correct mutex
  is rejected too.\<close>

theorem checkMutex_rejects_every_lock:
  assumes "rc11_graph g" and "graph_contains g pos" and "lmethod (lab g pos) = FN_Lock"
  shows "checkMutex iv g pos = Ok [V_LockMatched (FunctionEvent FN_Lock (linvocation (lab g pos)))]"
  using mutex_lock_rejected [OF rc11_graph_calls [OF assms(1)] assms(2,3), of iv] assms(3) by (simp add: label_call_def)

theorem checkMutex_rejects_every_lock_witness:
  "\<exists>g v. rc11_graph g \<and> checkMutex (\<lambda>_ _. 0) g (Event 0 2) = Ok [V_LockMatched (FunctionEvent FN_Lock v)]"
proof -
  obtain g where g: "rc11_graph g" "graph_contains g (Event 0 2)" "lmethod (lab g (Event 0 2)) = FN_Lock"
    using one_finished_call [of FN_Lock] by auto
  from checkMutex_rejects_every_lock [OF this] g(1) show ?thesis by blast
qed

text \<open>On every graph a driver builds, the checks of the queue models other than the strong one report
  nothing at the labels of enqueues and dequeues: on the calls found the matching, synchronisation,
  emptiness and FIFO rules have nothing to test.\<close>

theorem checkQueue_reports_nothing:
  assumes "rc11_graph g" and "graph_contains g pos" and "lmethod (lab g pos) = FN_Enq \<or> lmethod (lab g pos) = FN_Deq"
    and "ty \<noteq> M_Strong_Queue"
  shows "checkQueue ty iv g pos = Ok []"
  by (rule queue_silent [OF rc11_graph_calls [OF assms(1)] assms(2-4)])

theorem checkQueue_reports_nothing_witness:
  "\<exists>g. rc11_graph g \<and> checkQueue M_HW_Queue (\<lambda>_ _. 0) g (Event 0 2) = Ok []"
proof -
  obtain g where g: "rc11_graph g" "graph_contains g (Event 0 2)" "lmethod (lab g (Event 0 2)) = FN_Deq"
    using one_finished_call [of FN_Deq] by auto
  have "checkQueue M_HW_Queue (\<lambda>_ _. 0) g (Event 0 2) = Ok []"
    by (rule checkQueue_reports_nothing [OF g(1,2)]) (simp_all add: g(3))
  with g(1) show ?thesis by blast
qed

text \<open>C40: the check of the strong queue reads the total order one past its end as soon as the graph has a
  call, so it never returns a verdict on a graph a driver builds (with distinct calls).\<close>

theorem checkQueue_strong_out_of_bounds:
  assumes "rc11_graph g" and "graph_contains g pos" and "lmethod (lab g pos) = FN_Enq \<or> lmethod (lab g pos) = FN_Deq"
    and "start_calls g \<noteq> []" and "distinct (map fc_event (start_calls g))"
  shows "checkQueue M_Strong_Queue iv g pos = Undef"
  by (rule strong_queue_undef [OF rc11_graph_calls [OF assms(1)] assms(2-5)])

theorem checkQueue_strong_out_of_bounds_witness:
  "\<exists>g. rc11_graph g \<and> checkQueue M_Strong_Queue (\<lambda>_ _. 0) g (Event 0 2) = Undef"
proof -
  obtain g where g: "rc11_graph g" "graph_contains g (Event 0 2)" "lmethod (lab g (Event 0 2)) = FN_Enq"
    "start_calls g \<noteq> []" "distinct (map fc_event (start_calls g))"
    using one_finished_call [of FN_Enq] by auto
  have "checkQueue M_Strong_Queue (\<lambda>_ _. 0) g (Event 0 2) = Undef"
    by (rule checkQueue_strong_out_of_bounds [OF g(1,2) _ g(4,5)]) (simp add: g(3))
  with g(1) show ?thesis by blast
qed

text \<open>On every graph a driver builds, the stack checks report nothing at the labels of pushes and pops.\<close>

theorem checkStack_reports_nothing:
  assumes "rc11_graph g" and "graph_contains g pos" and "lmethod (lab g pos) = FN_Push \<or> lmethod (lab g pos) = FN_Pop"
  shows "checkStack ty iv g pos = Ok []"
  by (rule stack_silent [OF rc11_graph_calls [OF assms(1)] assms(2,3)])

theorem checkStack_reports_nothing_witness:
  "\<exists>g. rc11_graph g \<and> checkStack M_C_Stack (\<lambda>_ _. 0) g (Event 0 2) = Ok []"
proof -
  obtain g where g: "rc11_graph g" "graph_contains g (Event 0 2)" "lmethod (lab g (Event 0 2)) = FN_Pop"
    using one_finished_call [of FN_Pop] by auto
  have "checkStack M_C_Stack (\<lambda>_ _. 0) g (Event 0 2) = Ok []"
    by (rule checkStack_reports_nothing [OF g(1,2)]) (simp add: g(3))
  with g(1) show ?thesis by blast
qed

end
